(* ===== verification/Prelude.thy ===== *)
theory Prelude
  imports Main "HOL-Library.Char_ord" "HOL-Library.List_Lexorder" "HOL-Library.Sublist"
begin

text \<open>
  What every component shares: the exceptions of \<open>src/app/core/errors.py\<close>, results as
  sums, transactions (\<open>src/app/manager/transactions.py\<close>), text and JSON as the
  services use them (\<open>src/app/core/serialization.py\<close>), and tables of rows.

  \<^item> A Python \<open>str\<close> is a \<open>string\<close> with one \<open>char\<close> per code point; the alphabet is
    cut at U+00FF, so \<open>length\<close> and slices are Python's, and \<open>utf8_len\<close> is the length of
    the UTF-8 encoding.
  \<^item> A UUID is the 128-bit number it stands for, a \<open>nat\<close>.
  \<^item> Time and durations are counted in microseconds, the resolution of \<open>datetime\<close>.
    An operation that reads the clock takes \<open>clk\<close>, a function from the index of the read
    to the time read, so that every read is a value of its own.
  \<^item> The user-facing (Chinese) message of an \<open>AppError\<close> is left out: only its code and its
    HTTP status are kept.
\<close>

named_theorems result_simps \<open>elimination of results and transactions\<close>
named_theorems table_simps \<open>lookup, update and deletion of rows\<close>

section \<open>Exceptions and results\<close>

type_synonym uuid = nat
type_synonym time = int
type_synonym clock = "nat \<Rightarrow> time"

datatype exn =
    AppError string nat
  | UpstreamError string bool
  | OtherError string

definition upper :: "char \<Rightarrow> char" where
  "upper c = (let n = (of_char c :: nat) in if 97 \<le> n \<and> n \<le> 122 then char_of (n - 32) else c)"

fun exn_code :: "exn \<Rightarrow> string option" where
  "exn_code (AppError code status) = Some code"
| "exn_code (UpstreamError service retry) = Some (map upper service @ ''_UNAVAILABLE'')"
| "exn_code (OtherError name) = None"

fun exn_status :: "exn \<Rightarrow> nat option" where
  "exn_status (AppError code status) = Some status"
| "exn_status (UpstreamError service retry) = Some 503"
| "exn_status (OtherError name) = None"

definition not_found :: exn where
  "not_found = AppError ''NOT_FOUND'' 404"

type_synonym 'a result = "exn + 'a"

definition and_then :: "'a result \<Rightarrow> ('a \<Rightarrow> 'b result) \<Rightarrow> 'b result" where
  "and_then m f = (case m of Inl e \<Rightarrow> Inl e | Inr x \<Rightarrow> f x)"

definition raise_if :: "bool \<Rightarrow> exn \<Rightarrow> unit result" where
  "raise_if c e = (if c then Inl e else Inr ())"

definition require_row :: "'a option \<Rightarrow> exn \<Rightarrow> 'a result" where
  "require_row x e = (case x of None \<Rightarrow> Inl e | Some r \<Rightarrow> Inr r)"

lemma and_then_Inl [simp]: "and_then (Inl e) f = Inl e"
  and and_then_Inr [simp]: "and_then (Inr x) f = f x"
  by (simp_all add: and_then_def)

lemma ex_unit [result_simps]: "(\<exists>u::unit. P u) \<longleftrightarrow> P ()"
  by (metis (full_types) old.unit.exhaust)

lemma and_then_eq_Inr [result_simps]:
  "and_then m f = Inr y \<longleftrightarrow> (\<exists>x. m = Inr x \<and> f x = Inr y)"
  by (cases m) (auto simp: and_then_def)

lemma and_then_eq_Inl [result_simps]:
  "and_then m f = Inl e \<longleftrightarrow> m = Inl e \<or> (\<exists>x. m = Inr x \<and> f x = Inl e)"
  by (cases m) (auto simp: and_then_def)

lemma raise_if_True [simp]: "c \<Longrightarrow> raise_if c e = Inl e"
  and raise_if_False [simp]: "\<not> c \<Longrightarrow> raise_if c e = Inr ()"
  by (simp_all add: raise_if_def)

lemma raise_if_eq_Inr [result_simps]: "raise_if c e = Inr u \<longleftrightarrow> \<not> c"
  by (cases u) (simp add: raise_if_def)

lemma raise_if_eq_Inl [result_simps]: "raise_if c e = Inl e' \<longleftrightarrow> c \<and> e' = e"
  by (auto simp: raise_if_def)

lemma require_row_simps [simp]:
  "require_row None e = Inl e" "require_row (Some r) e = Inr r"
  by (simp_all add: require_row_def)

lemma require_row_eq_Inr [result_simps]: "require_row x e = Inr r \<longleftrightarrow> x = Some r"
  by (cases x) auto

lemma require_row_eq_Inl [result_simps]: "require_row x e = Inl e' \<longleftrightarrow> x = None \<and> e' = e"
  by (cases x) auto

section \<open>Transactions\<close>

text \<open>
  The body of a \<open>with transaction_scope(database)\<close> block works on a copy of the database.
  An exception that leaves it before its \<open>commit()\<close> rolls back: the body's value is
  \<open>Inl e\<close> and \<open>transaction\<close> keeps the old state. A body that commits returns the new state;
  when it raises after that commit, its value is \<open>Inr (Inl e, s)\<close>.
\<close>

type_synonym ('s, 'a) body = "'s \<Rightarrow> ('a result \<times> 's) result"
type_synonym ('s, 'a) outcome = "'a result \<times> 's"

definition transaction :: "('s, 'a) body \<Rightarrow> 's \<Rightarrow> ('s, 'a) outcome" where
  "transaction f s = (case f s of Inl e \<Rightarrow> (Inl e, s) | Inr (r, s') \<Rightarrow> (r, s'))"

definition committed :: "'a \<Rightarrow> 's \<Rightarrow> ('a result \<times> 's) result" where
  "committed a s = Inr (Inr a, s)"

definition commit_raise :: "exn \<Rightarrow> 's \<Rightarrow> ('a result \<times> 's) result" where
  "commit_raise e s = Inr (Inl e, s)"

lemma transaction_cases:
  assumes "\<And>e. f s = Inl e \<Longrightarrow> P (Inl e, s)"
    and "\<And>r s'. f s = Inr (r, s') \<Longrightarrow> P (r, s')"
  shows "P (transaction f s)"
  using assms by (auto simp: transaction_def split: sum.split prod.split)

lemma transaction_eq_Inr [result_simps]:
  "transaction f s = (Inr a, s') \<longleftrightarrow> f s = committed a s'"
  by (auto simp: transaction_def committed_def split: sum.splits prod.splits)

lemma transaction_eq_Inl [result_simps]:
  "transaction f s = (Inl e, s') \<longleftrightarrow> f s = Inl e \<and> s' = s \<or> f s = commit_raise e s'"
  by (auto simp: transaction_def commit_raise_def split: sum.splits prod.splits)

lemma committed_eq [result_simps]:
  "committed a s = Inr (r, s') \<longleftrightarrow> r = Inr a \<and> s' = s"
  "committed a s = committed a' s' \<longleftrightarrow> a = a' \<and> s = s'"
  "commit_raise e s = Inr (r, s') \<longleftrightarrow> r = Inl e \<and> s' = s"
  "commit_raise e s = commit_raise e' s' \<longleftrightarrow> e = e' \<and> s = s'"
  "committed a s \<noteq> Inl e'" "commit_raise e s \<noteq> (Inl e' :: ('a result \<times> 's) result)"
  "committed a s \<noteq> commit_raise e s'" "commit_raise e s \<noteq> committed a s'"
  by (auto simp: committed_def commit_raise_def)

lemma and_then_eq_committed [result_simps]:
  "and_then m f = committed a s \<longleftrightarrow> (\<exists>x. m = Inr x \<and> f x = committed a s)"
  "and_then m f = commit_raise e s \<longleftrightarrow> (\<exists>x. m = Inr x \<and> f x = commit_raise e s)"
  by (simp_all add: committed_def commit_raise_def and_then_eq_Inr)

text \<open>A property of states that every committed body keeps is kept by the transaction.\<close>

lemma transaction_preserves:
  assumes "I s" and "\<And>r s'. f s = Inr (r, s') \<Longrightarrow> I s'"
  shows "I (snd (transaction f s))"
  by (rule transaction_cases) (use assms in auto)

lemma transaction_rollback:
  assumes "f s = Inl e"
  shows "transaction f s = (Inl e, s)"
  using assms by (simp add: transaction_def)

section \<open>Tables of rows\<close>

text \<open>
  A table is the list of its rows in insertion order; \<open>key\<close> reads a row's primary key.
  \<open>row_get\<close> is \<open>session.get\<close>, \<open>row_put\<close> writes an attached row back or inserts a new one,
  \<open>row_del\<close> deletes the rows that satisfy a condition.
\<close>

definition row_get :: "('r \<Rightarrow> 'k) \<Rightarrow> 'k \<Rightarrow> 'r list \<Rightarrow> 'r option" where
  "row_get key k rows = find (\<lambda>r. key r = k) rows"

definition row_put :: "('r \<Rightarrow> 'k) \<Rightarrow> 'r \<Rightarrow> 'r list \<Rightarrow> 'r list" where
  "row_put key r rows =
     (if \<exists>x\<in>set rows. key x = key r then map (\<lambda>x. if key x = key r then r else x) rows
      else rows @ [r])"

definition row_del :: "('r \<Rightarrow> bool) \<Rightarrow> 'r list \<Rightarrow> 'r list" where
  "row_del p rows = filter (\<lambda>r. \<not> p r) rows"

definition row_insert :: "('r \<Rightarrow> 'k) \<Rightarrow> 'r \<Rightarrow> 'r list \<Rightarrow> 'r list result" where
  "row_insert key r rows =
     (if row_get key (key r) rows = None then Inr (rows @ [r]) else Inl (OtherError ''IntegrityError''))"

lemma row_insert_eq_Inr [result_simps]:
  "row_insert key r rows = Inr rows' \<longleftrightarrow> row_get key (key r) rows = None \<and> rows' = rows @ [r]"
  by (auto simp: row_insert_def)

lemma row_get_Some_key: "row_get key k rows = Some r \<Longrightarrow> key r = k"
  by (auto simp: row_get_def find_Some_iff)

lemma row_get_Some_mem: "row_get key k rows = Some r \<Longrightarrow> r \<in> set rows"
  by (auto simp: row_get_def find_Some_iff)

lemma row_get_None: "row_get key k rows = None \<longleftrightarrow> (\<forall>r\<in>set rows. key r \<noteq> k)"
  by (auto simp: row_get_def find_None_iff)

lemma row_get_Nil [simp]: "row_get key k [] = None"
  by (simp add: row_get_def)

lemma row_get_Cons [simp]:
  "row_get key k (r # rows) = (if key r = k then Some r else row_get key k rows)"
  by (simp add: row_get_def)

lemma row_get_append:
  "row_get key k (xs @ ys) = (case row_get key k xs of None \<Rightarrow> row_get key k ys | Some r \<Rightarrow> Some r)"
  by (induction xs) auto

lemma row_get_map_replace_other:
  "k \<noteq> key r \<Longrightarrow> row_get key k (map (\<lambda>x. if key x = key r then r else x) rows) = row_get key k rows"
  by (induction rows) auto

lemma row_get_map_replace:
  "\<exists>x\<in>set rows. key x = key r \<Longrightarrow>
   row_get key (key r) (map (\<lambda>x. if key x = key r then r else x) rows) = Some r"
  by (induction rows) auto

lemma row_get_put [table_simps]:
  "row_get key k (row_put key r rows) = (if k = key r then Some r else row_get key k rows)"
proof (cases "\<exists>x\<in>set rows. key x = key r")
  case True
  then show ?thesis
    by (cases "k = key r") (simp_all add: row_put_def row_get_map_replace row_get_map_replace_other)
next
  case False
  then have "row_get key (key r) rows = None" by (simp add: row_get_None)
  with False show ?thesis
    by (auto simp: row_put_def row_get_append split: option.splits)
qed

lemma row_get_put_same [simp]: "row_get key (key r) (row_put key r rows) = Some r"
  by (simp add: row_get_put)

lemma row_get_del [table_simps]:
  assumes "\<And>r. r \<in> set rows \<Longrightarrow> key r = k \<Longrightarrow> p r"
  shows "row_get key k (row_del p rows) = None"
  using assms by (auto simp: row_get_None row_del_def)

lemma set_row_put_subset: "set (row_put key r rows) \<subseteq> insert r (set rows)"
  by (auto simp: row_put_def)

lemma set_row_put_mem: "r \<in> set (row_put key r rows)"
  by (auto simp: row_put_def)

lemma set_row_put_distinct:
  "distinct (map key rows) \<Longrightarrow>
   set (row_put key r rows) = insert r {x \<in> set rows. key x \<noteq> key r}"
  by (auto simp: row_put_def)

lemma row_put_new: "row_get key (key r) rows = None \<Longrightarrow> row_put key r rows = rows @ [r]"
  by (auto simp: row_put_def row_get_None)

lemma map_key_row_put:
  "map key (row_put key r rows) =
     (if \<exists>x\<in>set rows. key x = key r then map key rows else map key rows @ [key r])"
  by (auto simp: row_put_def)

lemma distinct_row_put [intro]: "distinct (map key rows) \<Longrightarrow> distinct (map key (row_put key r rows))"
  by (auto simp: map_key_row_put)

lemma distinct_row_del [intro]: "distinct (map key rows) \<Longrightarrow> distinct (map key (row_del p rows))"
  by (simp add: row_del_def distinct_map_filter)

lemma distinct_key_eq:
  "distinct (map key rows) \<Longrightarrow> a \<in> set rows \<Longrightarrow> b \<in> set rows \<Longrightarrow> key a = key b \<Longrightarrow> a = b"
  by (simp add: distinct_map inj_on_def)

lemma row_get_distinct:
  "distinct (map key rows) \<Longrightarrow> r \<in> set rows \<Longrightarrow> row_get key (key r) rows = Some r"
  by (induction rows) (auto simp: rev_image_eqI)

lemma row_put_same: "distinct (map key rows) \<Longrightarrow> r \<in> set rows \<Longrightarrow> row_put key r rows = rows"
  by (auto simp: row_put_def distinct_map inj_on_eq_iff intro!: map_idI)

lemma in_row_del [simp]: "r \<in> set (row_del p rows) \<longleftrightarrow> r \<in> set rows \<and> \<not> p r"
  by (auto simp: row_del_def)

text \<open>
  The interface the services rely on: what a read returns after a write, as
  SQLAlchemy's identity map gives it inside one transaction.
\<close>

locale keyed_store =
  fixes get :: "'k \<Rightarrow> 't \<Rightarrow> 'r option"
    and put :: "'r \<Rightarrow> 't \<Rightarrow> 't"
    and key :: "'r \<Rightarrow> 'k"
  assumes get_put: "get k (put r t) = (if k = key r then Some r else get k t)"
    and get_key: "get k t = Some r \<Longrightarrow> key r = k"
begin

lemma get_put_same: "get (key r) (put r t) = Some r"
  by (simp add: get_put)

lemma get_put_other: "k \<noteq> key r \<Longrightarrow> get k (put r t) = get k t"
  by (simp add: get_put)

lemma put_commute_reads:
  "key r \<noteq> key r' \<Longrightarrow> get k (put r (put r' t)) = get k (put r' (put r t))"
  by (simp add: get_put)

lemma put_put_reads: "key r = key r' \<Longrightarrow> get k (put r (put r' t)) = get k (put r t)"
  by (simp add: get_put)

end

interpretation rows: keyed_store "row_get key" "row_put key" key for key :: "'r \<Rightarrow> 'k"
  by unfold_locales (rule row_get_put, erule row_get_Some_key)

end
