(* ===== verification/Json.thy ===== *)
theory Json
  imports Prelude "HOL-Library.Multiset"
begin

text \<open>
  Text and JSON as the services use them: \<open>str.strip\<close>, \<open>str(int)\<close>, \<open>str(uuid)\<close>, the UTF-8
  length of a string, \<open>json.dumps\<close> with its escapes, and \<open>bounded_json\<close> of
  \<open>src/app/core/serialization.py\<close>. A dictionary is the list of its items in insertion
  order. A float is kept as the text Python prints for it.
\<close>

section \<open>Text\<close>

definition digit_char :: "nat \<Rightarrow> char" where
  "digit_char d = char_of (if d < 10 then 48 + d else 87 + d)"

fun show_nat :: "nat \<Rightarrow> string" where
  "show_nat n = (if n < 10 then [digit_char n] else show_nat (n div 10) @ [digit_char (n mod 10)])"

declare show_nat.simps [simp del]

definition show_int :: "int \<Rightarrow> string" where
  "show_int i = (if i < 0 then CHR ''-'' # show_nat (nat (- i)) else show_nat (nat i))"

text \<open>The last \<open>w\<close> hexadecimal digits of a number.\<close>

fun hex_digits :: "nat \<Rightarrow> nat \<Rightarrow> string" where
  "hex_digits 0 n = []"
| "hex_digits (Suc w) n = hex_digits w (n div 16) @ [digit_char (n mod 16)]"

text \<open>\<open>str(uuid)\<close>: 32 hexadecimal digits in groups of 8, 4, 4, 4 and 12.\<close>

definition uuid_str :: "uuid \<Rightarrow> string" where
  "uuid_str u = (let h = hex_digits 32 u in
     take 8 h @ ''-'' @ take 4 (drop 8 h) @ ''-'' @ take 4 (drop 12 h) @ ''-'' @
     take 4 (drop 16 h) @ ''-'' @ drop 20 h)"

definition py_space :: "char \<Rightarrow> bool" where
  "py_space c = (let n = (of_char c :: nat) in
     n \<in> {9, 10, 11, 12, 13, 28, 29, 30, 31, 32, 133, 160})"

definition lstrip :: "string \<Rightarrow> string" where
  "lstrip s = dropWhile py_space s"

definition rstrip :: "string \<Rightarrow> string" where
  "rstrip s = rev (dropWhile py_space (rev s))"

definition strip :: "string \<Rightarrow> string" where
  "strip s = rstrip (lstrip s)"

definition utf8_len :: "string \<Rightarrow> nat" where
  "utf8_len s = sum_list (map (\<lambda>c. if (of_char c :: nat) < 128 then 1 else 2) s)"

fun joined :: "string \<Rightarrow> string list \<Rightarrow> string" where
  "joined sep [] = []"
| "joined sep [x] = x"
| "joined sep (x # y # xs) = x @ sep @ joined sep (y # xs)"

lemma length_hex_digits [simp]: "length (hex_digits w n) = w"
  by (induction w arbitrary: n) simp_all

lemma length_uuid_str: "length (uuid_str u) = 36"
  by (simp add: uuid_str_def Let_def)

lemma lstrip_idem: "lstrip (lstrip s) = lstrip s"
  by (simp add: lstrip_def)

lemma lstrip_Nil_iff: "lstrip s = [] \<longleftrightarrow> (\<forall>c\<in>set s. py_space c)"
  by (simp add: lstrip_def dropWhile_eq_Nil_conv)

lemma length_dropWhile_le: "length (dropWhile p xs) \<le> length xs"
  by (induction xs) auto

lemma length_strip_le: "length (strip s) \<le> length s"
proof -
  have "length (strip s) \<le> length (lstrip s)"
    by (simp add: strip_def rstrip_def) (metis length_dropWhile_le length_rev)
  also have "\<dots> \<le> length s" by (simp add: lstrip_def length_dropWhile_le)
  finally show ?thesis .
qed

lemma utf8_len_ge: "length s \<le> utf8_len s"
  by (induction s) (auto simp: utf8_len_def)

lemma utf8_len_append [simp]: "utf8_len (s @ t) = utf8_len s + utf8_len t"
  by (simp add: utf8_len_def)

section \<open>JSON values\<close>

datatype json =
    JNull
  | JBool bool
  | JInt int
  | JFloat string
  | JStr string
  | JArr "json list"
  | JObj "(string \<times> json) list"

type_synonym dict = "(string \<times> json) list"

definition dict_get :: "dict \<Rightarrow> string \<Rightarrow> json option" where
  "dict_get d k = map_of d k"

definition get_or_null :: "dict \<Rightarrow> string \<Rightarrow> json" where
  "get_or_null d k = (case dict_get d k of None \<Rightarrow> JNull | Some v \<Rightarrow> v)"

text \<open>\<open>d[k] = v\<close>: an existing key keeps its position, a new one goes to the end.\<close>

fun dict_set :: "string \<Rightarrow> json \<Rightarrow> dict \<Rightarrow> dict" where
  "dict_set k v [] = [(k, v)]"
| "dict_set k v ((k', v') # d) = (if k' = k then (k, v) # d else (k', v') # dict_set k v d)"

definition dict_pop :: "string \<Rightarrow> dict \<Rightarrow> dict" where
  "dict_pop k d = filter (\<lambda>(k', _). k' \<noteq> k) d"

text \<open>\<open>{**d, **e}\<close> and \<open>d.update(e)\<close>.\<close>

definition dict_update :: "dict \<Rightarrow> dict \<Rightarrow> dict" where
  "dict_update d e = fold (\<lambda>(k, v) acc. dict_set k v acc) e d"

lemma dict_get_set [simp]: "dict_get (dict_set k v d) k' = (if k' = k then Some v else dict_get d k')"
  by (induction k v d rule: dict_set.induct) (auto simp: dict_get_def)

lemma dict_get_pop [simp]: "dict_get (dict_pop k d) k' = (if k' = k then None else dict_get d k')"
  unfolding dict_get_def dict_pop_def
  by (induction d) (auto simp: map_of_eq_None_iff)

lemma dict_get_update_notin:
  "k \<notin> fst ` set e \<Longrightarrow> dict_get (dict_update d e) k = dict_get d k"
  unfolding dict_update_def by (induction e arbitrary: d) auto

fun as_obj :: "json \<Rightarrow> dict option" where
  "as_obj (JObj d) = Some d"
| "as_obj _ = None"

fun as_str :: "json \<Rightarrow> string option" where
  "as_str (JStr s) = Some s"
| "as_str _ = None"

fun as_arr :: "json \<Rightarrow> json list option" where
  "as_arr (JArr xs) = Some xs"
| "as_arr _ = None"

text \<open>\<open>d.get(k, {})\<close> for an inner dictionary; a missing key or another value is empty.\<close>

definition sub_dict :: "dict \<Rightarrow> string \<Rightarrow> dict" where
  "sub_dict d k = (case dict_get d k of Some (JObj e) \<Rightarrow> e | _ \<Rightarrow> [])"

text \<open>Python's truth value of a JSON value.\<close>

fun truthy :: "json \<Rightarrow> bool" where
  "truthy JNull = False"
| "truthy (JBool b) = b"
| "truthy (JInt i) = (i \<noteq> 0)"
| "truthy (JFloat s) = (s \<noteq> ''0.0'' \<and> s \<noteq> ''-0.0'')"
| "truthy (JStr s) = (s \<noteq> [])"
| "truthy (JArr xs) = (xs \<noteq> [])"
| "truthy (JObj d) = (d \<noteq> [])"

definition opt_str :: "string option \<Rightarrow> json" where
  "opt_str x = (case x of None \<Rightarrow> JNull | Some s \<Rightarrow> JStr s)"

definition opt_int :: "int option \<Rightarrow> json" where
  "opt_int x = (case x of None \<Rightarrow> JNull | Some i \<Rightarrow> JInt i)"

section \<open>Timestamps\<close>

text \<open>
  \<open>datetime.isoformat\<close> of an aware UTC time: the date of the proleptic Gregorian calendar,
  the time of day, six digits of microseconds when there are any, and the offset.
  \<open>str(datetime)\<close> is the same text with a blank between date and time.
\<close>

fun pad_digits :: "nat \<Rightarrow> nat \<Rightarrow> string" where
  "pad_digits 0 n = []"
| "pad_digits (Suc w) n = pad_digits w (n div 10) @ [digit_char (n mod 10)]"

definition civil_date :: "int \<Rightarrow> int \<times> int \<times> int" where
  "civil_date days =
     (let z = days + 719468; era = z div 146097; doe = z mod 146097;
          yoe = (doe - doe div 1460 + doe div 36524 - doe div 146096) div 365;
          doy = doe - (365 * yoe + yoe div 4 - yoe div 100);
          mp = (5 * doy + 2) div 153;
          m = (if mp < 10 then mp + 3 else mp - 9)
      in (yoe + era * 400 + (if m \<le> 2 then 1 else 0), m, doy - (153 * mp + 2) div 5 + 1))"

definition iso_text :: "char \<Rightarrow> time \<Rightarrow> string" where
  "iso_text sep t =
     (let us = t mod 1000000; s = t div 1000000; sod = s mod 86400;
          (y, m, d) = civil_date (s div 86400)
      in pad_digits 4 (nat y) @ ''-'' @ pad_digits 2 (nat m) @ ''-'' @ pad_digits 2 (nat d) @ [sep] @
         pad_digits 2 (nat (sod div 3600)) @ '':'' @ pad_digits 2 (nat (sod div 60 mod 60)) @ '':'' @
         pad_digits 2 (nat (sod mod 60)) @
         (if us = 0 then [] else ''.'' @ pad_digits 6 (nat us)) @ ''+00:00'')"

definition isoformat :: "time \<Rightarrow> string" where
  "isoformat t = iso_text CHR ''T'' t"

definition datetime_str :: "time \<Rightarrow> string" where
  "datetime_str t = iso_text CHR '' '' t"

text \<open>
  \<open>round(x, 2)\<close> of a duration in milliseconds as Python prints it; the duration is a whole
  number of microseconds, and a tie goes to the even hundredth.
\<close>

definition round_ms :: "time \<Rightarrow> json" where
  "round_ms us =
     (let q = us div 10; r = us mod 10;
          h = nat (if 5 < r \<or> r = 5 \<and> odd q then q + 1 else q);
          frac = pad_digits 2 (h mod 100)
      in JFloat (show_nat (h div 100) @ ''.'' @
           (if h mod 10 = 0 then take 1 frac else frac)))"

lemma length_pad_digits [simp]: "length (pad_digits w n) = w"
  by (induction w arbitrary: n) simp_all

lemma length_iso_text: "length (iso_text sep t) \<le> 32"
  by (simp add: iso_text_def Let_def case_prod_unfold)

section \<open>json.dumps\<close>

definition esc_u :: "nat \<Rightarrow> string" where
  "esc_u n = CHR 0x5C # CHR ''u'' # hex_digits 4 n"

definition esc_char :: "bool \<Rightarrow> char \<Rightarrow> string" where
  "esc_char ascii c = (let n = (of_char c :: nat) in
     if n = 34 then [CHR 0x5C, CHR 0x22]
     else if n = 92 then [CHR 0x5C, CHR 0x5C]
     else if n = 10 then [CHR 0x5C, CHR ''n'']
     else if n = 13 then [CHR 0x5C, CHR ''r'']
     else if n = 9 then [CHR 0x5C, CHR ''t'']
     else if n = 12 then [CHR 0x5C, CHR ''f'']
     else if n = 8 then [CHR 0x5C, CHR ''b'']
     else if n < 32 \<or> ascii \<and> 126 < n then esc_u n
     else [c])"

definition dumps_str :: "bool \<Rightarrow> string \<Rightarrow> string" where
  "dumps_str ascii s = CHR 0x22 # concat (map (esc_char ascii) s) @ [CHR 0x22]"

text \<open>Default separators; \<open>ascii\<close> is the argument \<open>ensure_ascii\<close>.\<close>

fun dumps :: "bool \<Rightarrow> json \<Rightarrow> string"
  and dumps_item :: "bool \<Rightarrow> string \<times> json \<Rightarrow> string" where
  "dumps ascii JNull = ''null''"
| "dumps ascii (JBool b) = (if b then ''true'' else ''false'')"
| "dumps ascii (JInt i) = show_int i"
| "dumps ascii (JFloat s) = s"
| "dumps ascii (JStr s) = dumps_str ascii s"
| "dumps ascii (JArr xs) = ''['' @ joined '', '' (map (dumps ascii) xs) @ '']''"
| "dumps ascii (JObj d) = ''{'' @ joined '', '' (map (dumps_item ascii) d) @ ''}''"
| "dumps_item ascii (k, v) = dumps_str ascii k @ '': '' @ dumps ascii v"

text \<open>\<open>sort_keys=True\<close>.\<close>

fun sort_keys :: "json \<Rightarrow> json"
  and sort_item :: "string \<times> json \<Rightarrow> string \<times> json" where
  "sort_keys (JArr xs) = JArr (map sort_keys xs)"
| "sort_keys (JObj d) = JObj (sort_key fst (map sort_item d))"
| "sort_keys v = v"
| "sort_item (k, v) = (k, sort_keys v)"

text \<open>\<open>bounded_json\<close>: the value as the encoder sorts it, or the checkpoint limit error.\<close>

definition bounded_json :: "json \<Rightarrow> nat \<Rightarrow> json result" where
  "bounded_json v max_bytes =
     (if utf8_len (dumps False (sort_keys v)) > max_bytes
      then Inl (AppError ''RUN_CHECKPOINT_LIMIT'' 413)
      else Inr (sort_keys v))"

lemma bounded_json_eq_Inr [result_simps]:
  "bounded_json v n = Inr w \<longleftrightarrow> utf8_len (dumps False (sort_keys v)) \<le> n \<and> w = sort_keys v"
  by (auto simp: bounded_json_def)

lemma sort_item_fst [simp]: "fst (sort_item kv) = fst kv"
  by (cases kv) simp

lemma sort_keys_obj_get:
  "distinct (map fst d) \<Longrightarrow>
   dict_get (case sort_keys (JObj d) of JObj e \<Rightarrow> e | _ \<Rightarrow> []) k = map_option sort_keys (dict_get d k)"
proof -
  assume d: "distinct (map fst d)"
  let ?m = "map sort_item d"
  have fsts: "map fst ?m = map fst d" by simp
  have "mset (map fst (sort_key fst ?m)) = mset (map fst ?m)"
    by (metis mset_map mset_sort)
  then have ds: "distinct (map fst (sort_key fst ?m))" and dm: "distinct (map fst ?m)"
    using d fsts by (metis mset_eq_imp_distinct_iff)+
  have "map_of (sort_key fst ?m) k = Some v \<longleftrightarrow> map_of ?m k = Some v" for v
    by (simp only: map_of_eq_Some_iff [OF ds] map_of_eq_Some_iff [OF dm] set_sort)
  then have "map_of (sort_key fst ?m) k = map_of ?m k"
    by (metis option.exhaust)
  moreover have "map_of ?m k = map_option sort_keys (map_of d k)"
    by (induction d) auto
  ultimately show ?thesis by (simp add: dict_get_def)
qed

section \<open>Bounds on encodings\<close>

text \<open>An upper bound of the encoded size that is easy to evaluate and does not see key order.\<close>

fun jsize :: "json \<Rightarrow> nat" where
  "jsize JNull = 4"
| "jsize (JBool b) = 5"
| "jsize (JInt i) = length (show_int i)"
| "jsize (JFloat s) = 2 * length s"
| "jsize (JStr s) = 6 * length s + 2"
| "jsize (JArr xs) = 2 + sum_list (map (\<lambda>x. jsize x + 2) xs)"
| "jsize (JObj d) = 2 + sum_list (map (\<lambda>(k, v). 6 * length k + jsize v + 6) d)"

lemma utf8_len_le: "utf8_len s \<le> 2 * length s"
  by (induction s) (auto simp: utf8_len_def)

lemma utf8_len_digits:
  "(\<And>c. c \<in> set s \<Longrightarrow> (of_char c :: nat) < 128) \<Longrightarrow> utf8_len s = length s"
  by (induction s) (auto simp: utf8_len_def)

lemma digit_char_ascii: "d < 16 \<Longrightarrow> (of_char (digit_char d) :: nat) < 128"
  by (simp add: digit_char_def)

lemma show_nat_ascii: "c \<in> set (show_nat n) \<Longrightarrow> (of_char c :: nat) < 128"
proof (induction n rule: show_nat.induct)
  case (1 n)
  then show ?case
    by (subst (asm) (2) show_nat.simps) (auto simp: digit_char_ascii split: if_splits)
qed

lemma show_int_ascii: "c \<in> set (show_int i) \<Longrightarrow> (of_char c :: nat) < 128"
  by (auto simp: show_int_def dest: show_nat_ascii split: if_splits)

lemma hex_digits_ascii: "c \<in> set (hex_digits w n) \<Longrightarrow> (of_char c :: nat) < 128"
  by (induction w arbitrary: n) (auto simp: digit_char_ascii)

lemma utf8_len_esc_char: "utf8_len (esc_char False c) \<le> 6"
proof -
  have "utf8_len (esc_u n) = 6" for n
    using hex_digits_ascii [of _ 4 n] by (subst utf8_len_digits) (auto simp: esc_u_def)
  then show ?thesis by (auto simp: esc_char_def Let_def) (auto simp: utf8_len_def)
qed

lemma utf8_len_Cons: "utf8_len (c # s) = (if (of_char c :: nat) < 128 then 1 else 2) + utf8_len s"
  by (simp add: utf8_len_def)

lemma utf8_len_Nil [simp]: "utf8_len [] = 0"
  by (simp add: utf8_len_def)

lemma utf8_len_concat: "utf8_len (concat xs) = sum_list (map utf8_len xs)"
  by (induction xs) simp_all

lemma utf8_len_dumps_str: "utf8_len (dumps_str False s) \<le> 6 * length s + 2"
proof -
  have "sum_list (map (utf8_len \<circ> esc_char False) s) \<le> 6 * length s"
    using utf8_len_esc_char by (induction s) (simp_all add: add_mono)
  then show ?thesis by (simp add: dumps_str_def utf8_len_Cons utf8_len_concat)
qed

lemma utf8_len_joined: "utf8_len (joined '', '' xs) \<le> sum_list (map (\<lambda>x. utf8_len x + 2) xs)"
  by (induction "'', ''" xs rule: joined.induct) (simp_all add: utf8_len_Cons)

lemma sum_list_le: "(\<And>x. x \<in> set xs \<Longrightarrow> f x \<le> g x) \<Longrightarrow> sum_list (map f xs) \<le> sum_list (map g (xs :: 'a list) :: nat list)"
  by (induction xs) (simp_all add: add_mono)

lemma utf8_len_dumps_bound:
  "\<not> ascii \<Longrightarrow> utf8_len (dumps ascii j) \<le> jsize j"
  "\<not> ascii \<Longrightarrow> utf8_len (dumps_item ascii kv) \<le> 6 * length (fst kv) + jsize (snd kv) + 4"
proof (induction ascii j and ascii kv rule: dumps_dumps_item.induct)
  case (3 ascii i)
  then show ?case using utf8_len_digits [of "show_int i"] show_int_ascii by simp
next
  case (4 ascii s)
  then show ?case by (simp add: utf8_len_le)
next
  case (5 ascii s)
  then show ?case using utf8_len_dumps_str [of s] by simp
next
  case (6 ascii xs)
  have "utf8_len (joined '', '' (map (dumps ascii) xs)) \<le> sum_list (map (\<lambda>x. utf8_len (dumps ascii x) + 2) xs)"
    using utf8_len_joined [of "map (dumps ascii) xs"] by (simp add: o_def)
  also have "\<dots> \<le> sum_list (map (\<lambda>x. jsize x + 2) xs)"
    using 6 by (intro sum_list_le) auto
  finally show ?case by (simp add: utf8_len_Cons)
next
  case (7 ascii d)
  have "utf8_len (joined '', '' (map (dumps_item ascii) d)) \<le> sum_list (map (\<lambda>x. utf8_len (dumps_item ascii x) + 2) d)"
    using utf8_len_joined [of "map (dumps_item ascii) d"] by (simp add: o_def)
  also have "\<dots> \<le> sum_list (map (\<lambda>(k, v). 6 * length k + jsize v + 6) d)"
    using 7 by (intro sum_list_le) fastforce
  finally show ?case by (simp add: utf8_len_Cons)
next
  case (8 ascii k v)
  then show ?case using utf8_len_dumps_str [of k] by (simp add: utf8_len_Cons)
qed (auto simp: utf8_len_Cons)

lemma utf8_len_dumps: "utf8_len (dumps False j) \<le> jsize j"
  by (rule utf8_len_dumps_bound) simp

lemma sum_list_sort_key: "sum_list (map f (sort_key g xs)) = (sum_list (map f xs) :: nat)"
  by (metis mset_map mset_sort sum_mset_sum_list)

lemma jsize_sort_keys [simp]:
  "jsize (sort_keys j) = jsize j"
  "fst (sort_item kv) = fst kv \<and> jsize (snd (sort_item kv)) = jsize (snd kv)"
proof (induction j and kv rule: sort_keys_sort_item.induct)
  case (1 xs)
  then show ?case by (simp add: o_def cong: map_cong)
next
  case (2 d)
  have "map (\<lambda>(k, v). 6 * length k + jsize v + 6) (map sort_item d) = map (\<lambda>(k, v). 6 * length k + jsize v + 6) d"
    using 2 by (auto simp: case_prod_unfold)
  then show ?case by (simp add: sum_list_sort_key del: map_map)
qed simp_all

lemma bounded_json_small: "jsize v \<le> n \<Longrightarrow> bounded_json v n = Inr (sort_keys v)"
  using utf8_len_dumps [of "sort_keys v"] by (simp add: bounded_json_def)

lemma jsize_dict_set: "jsize (JObj (dict_set k v d)) \<le> jsize (JObj d) + 6 * length k + jsize v + 6"
  by (induction k v d rule: dict_set.induct) auto

lemma jsize_dict_update:
  "jsize (JObj (dict_update d e)) \<le> jsize (JObj d) + sum_list (map (\<lambda>(k, v). 6 * length k + jsize v + 6) e)"
proof (induction e arbitrary: d)
  case (Cons kv e)
  obtain k v where kv: "kv = (k, v)" by fastforce
  have "jsize (JObj (dict_update (dict_set k v d) e)) \<le> jsize (JObj (dict_set k v d)) +
      sum_list (map (\<lambda>(k, v). 6 * length k + jsize v + 6) e)"
    by (rule Cons.IH)
  then show ?case using jsize_dict_set [of k v d] by (simp add: dict_update_def kv)
qed (simp add: dict_update_def)

lemma length_show_nat: "n < 10 ^ k \<Longrightarrow> 0 < k \<Longrightarrow> length (show_nat n) \<le> k"
proof (induction n arbitrary: k rule: show_nat.induct)
  case (1 n)
  show ?case
  proof (cases "n < 10")
    case True
    then show ?thesis using "1.prems" by (subst show_nat.simps) simp
  next
    case False
    obtain j where k: "k = Suc j" using "1.prems"(2) by (cases k) auto
    have "0 < j" using False "1.prems"(1) k by (cases j) auto
    moreover have "n div 10 < 10 ^ j" using "1.prems"(1) k by (simp add: less_mult_imp_div_less mult.commute)
    ultimately have "length (show_nat (n div 10)) \<le> j" using "1.IH" [OF False] by simp
    then show ?thesis using False k by (subst show_nat.simps) simp
  qed
qed

lemma length_show_int: "0 \<le> i \<Longrightarrow> i < 10 ^ k \<Longrightarrow> 0 < k \<Longrightarrow> length (show_int i) \<le> k"
  using length_show_nat [of "nat i" k] by (simp add: show_int_def nat_less_iff)

section \<open>Dictionaries with distinct keys\<close>

lemma fst_dict_set: "fst ` set (dict_set k v d) = insert k (fst ` set d)"
  by (induction k v d rule: dict_set.induct) auto

lemma distinct_dict_set: "distinct (map fst d) \<Longrightarrow> distinct (map fst (dict_set k v d))"
proof (induction k v d rule: dict_set.induct)
  case (2 k v k' v' d)
  then show ?case using fst_dict_set [of k v d] by auto
qed simp

lemma sort_keys_idem:
  "sort_keys (sort_keys j) = sort_keys j"
  "sort_item (sort_item kv) = sort_item kv"
proof (induction j and kv rule: sort_keys_sort_item.induct)
  case (2 d)
  let ?s = "sort_key fst (map sort_item d)"
  have "map sort_item ?s = ?s"
    using 2 by (intro map_idI) auto
  moreover have "sort_key fst ?s = ?s"
    by (rule sort_key_id_if_sorted) (rule sorted_sort_key)
  ultimately show ?case by simp
qed simp_all

end
