(* ===== verification/Identifiers.thy ===== *)
theory Identifiers
  imports Json
begin

text \<open>
  Text that names things: Python's \<open>UUID(text)\<close>, \<open>str.split\<close> at a character,
  \<open>str.replace\<close> and \<open>urllib.parse.unquote\<close>, as the services read identifiers and
  addresses that come from outside.
\<close>

section \<open>Splitting and replacing\<close>

fun split_on :: "char \<Rightarrow> string \<Rightarrow> string list" where
  "split_on c [] = [[]]"
| "split_on c (x # xs) = (if x = c then [] # split_on c xs
     else (case split_on c xs of [] \<Rightarrow> [[x]] | y # ys \<Rightarrow> (x # y) # ys))"

text \<open>\<open>s.replace(old, new)\<close> for a pattern that is not empty, from left to right.\<close>

function (sequential) replace_all :: "string \<Rightarrow> string \<Rightarrow> string \<Rightarrow> string" where
  "replace_all old new [] = []"
| "replace_all old new (c # s) =
     (if old \<noteq> [] \<and> prefix old (c # s) then new @ replace_all old new (drop (length old) (c # s))
      else c # replace_all old new s)"
  by pat_completeness auto
termination
  by (relation "measure (\<lambda>(old, new, s). length s)") (auto simp: neq_Nil_conv)

text \<open>\<open>s.replace(old, new, 1)\<close>.\<close>

fun replace_first :: "string \<Rightarrow> string \<Rightarrow> string \<Rightarrow> string" where
  "replace_first old new [] = []"
| "replace_first old new (c # s) =
     (if prefix old (c # s) then new @ drop (length old) (c # s) else c # replace_first old new s)"

definition remove_prefix :: "string \<Rightarrow> string \<Rightarrow> string" where
  "remove_prefix p s = (if prefix p s then drop (length p) s else s)"

definition strip_chars :: "char list \<Rightarrow> string \<Rightarrow> string" where
  "strip_chars cs s = rev (dropWhile (\<lambda>c. c \<in> set cs) (rev (dropWhile (\<lambda>c. c \<in> set cs) s)))"

definition lower :: "char \<Rightarrow> char" where
  "lower c = (let n = (of_char c :: nat) in
     if 65 \<le> n \<and> n \<le> 90 \<or> 192 \<le> n \<and> n \<le> 222 \<and> n \<noteq> 215 then char_of (n + 32) else c)"

section \<open>Numbers\<close>

definition hex_value :: "char \<Rightarrow> nat option" where
  "hex_value c = (let n = (of_char c :: nat) in
     if 48 \<le> n \<and> n \<le> 57 then Some (n - 48)
     else if 97 \<le> n \<and> n \<le> 102 then Some (n - 87)
     else if 65 \<le> n \<and> n \<le> 70 then Some (n - 55) else None)"

text \<open>\<open>int(s, 16)\<close>: blanks around it, a sign, the prefix \<open>0x\<close>, and single underscores between digits.\<close>

fun hex_number :: "nat \<Rightarrow> bool \<Rightarrow> string \<Rightarrow> nat option" where
  "hex_number acc after_digit [] = (if after_digit then Some acc else None)"
| "hex_number acc after_digit (c # s) =
     (if c = CHR ''_'' then (if after_digit then hex_number acc False s else None)
      else (case hex_value c of None \<Rightarrow> None | Some v \<Rightarrow> hex_number (16 * acc + v) True s))"

definition hex_body :: "string \<Rightarrow> nat option" where
  "hex_body s =
     (if prefix ''0x'' s \<or> prefix ''0X'' s
      then hex_number 0 False (let t = drop 2 s in if prefix ''_'' t then drop 1 t else t)
      else hex_number 0 False s)"

definition int_hex :: "string \<Rightarrow> int option" where
  "int_hex s = (let t = strip s in
     case t of
       [] \<Rightarrow> None
     | c # u \<Rightarrow> if c = CHR ''-'' then map_option (\<lambda>n. - int n) (hex_body u)
               else if c = CHR ''+'' then map_option int (hex_body u)
               else map_option int (hex_body t))"

text \<open>\<open>UUID(text)\<close>; \<open>None\<close> is its \<open>ValueError\<close>.\<close>

definition parse_uuid :: "string \<Rightarrow> uuid option" where
  "parse_uuid text =
     (let h = filter (\<lambda>c. c \<noteq> CHR ''-'') (strip_chars ''{}'' (replace_all ''uuid:'' [] (replace_all ''urn:'' [] text)))
      in if length h \<noteq> 32 then None
         else (case int_hex h of None \<Rightarrow> None | Some i \<Rightarrow> if i < 0 then None else Some (nat i)))"

section \<open>Percent encoding\<close>

text \<open>
  \<open>unquote\<close>. A byte above 127 becomes the character of that number: what UTF-8 makes of such bytes is
  never an ASCII character and never nothing, which is all that the callers look at.
\<close>

fun unquote :: "string \<Rightarrow> string" where
  "unquote (p # a # b # s) =
     (if p = CHR ''%'' then
        (case (hex_value a, hex_value b) of
           (Some x, Some y) \<Rightarrow> char_of (16 * x + y) # unquote s
         | _ \<Rightarrow> p # unquote (a # b # s))
      else p # unquote (a # b # s))"
| "unquote s = s"

section \<open>An identifier as text is read back\<close>

lemma hex_value_digit: "d < 16 \<Longrightarrow> hex_value (digit_char d) = Some d"
  by (auto simp: hex_value_def digit_char_def Let_def)

lemma digit_char_cases:
  assumes "d < 16"
  shows "(of_char (digit_char d) :: nat) \<in> {48..57} \<union> {97..102}"
  using assms by (auto simp: digit_char_def)

definition hex_text :: "string \<Rightarrow> bool" where
  "hex_text s \<longleftrightarrow> (\<forall>c\<in>set s. (of_char c :: nat) \<in> {48..57} \<union> {97..102})"

lemma hex_text_digits [simp]: "hex_text (hex_digits w n)"
proof (induction w arbitrary: n)
  case (Suc w)
  have "(of_char (digit_char (n mod 16)) :: nat) \<in> {48..57} \<union> {97..102}" by (rule digit_char_cases) simp
  then show ?case using Suc by (auto simp: hex_text_def)
qed (simp add: hex_text_def)

lemma hex_text_not: "hex_text s \<Longrightarrow> (of_char c :: nat) \<notin> {48..57} \<union> {97..102} \<Longrightarrow> c \<notin> set s"
  by (auto simp: hex_text_def)

lemma hex_number_snoc:
  "(\<forall>c\<in>set s. hex_value c \<noteq> None \<and> c \<noteq> CHR ''_'') \<Longrightarrow> hex_value c = Some v \<Longrightarrow> c \<noteq> CHR ''_'' \<Longrightarrow>
   s = [] \<or> hex_number acc b s = Some m \<Longrightarrow>
   hex_number acc b (s @ [c]) = Some (16 * (if s = [] then acc else m) + v)"
proof (induction s arbitrary: acc b)
  case (Cons x s)
  then show ?case by (cases "s = []") (auto split: option.splits)
qed simp

lemma hex_number_digits: "hex_number 0 False (hex_digits (Suc w) n) = Some (n mod 16 ^ Suc w)"
proof (induction w arbitrary: n)
  case 0
  have "digit_char (n mod 16) \<noteq> CHR ''_''" using digit_char_cases [of "n mod 16"] by auto
  then show ?case by (simp add: hex_value_digit)
next
  case (Suc w)
  have g: "\<forall>c\<in>set (hex_digits (Suc w) (n div 16)). hex_value c \<noteq> None \<and> c \<noteq> CHR ''_''"
    using hex_text_digits [of "Suc w" "n div 16"] by (auto simp: hex_text_def hex_value_def Let_def)
  have d: "hex_value (digit_char (n mod 16)) = Some (n mod 16)" by (simp add: hex_value_digit)
  have u: "digit_char (n mod 16) \<noteq> CHR ''_''"
    using digit_char_cases [of "n mod 16"] by auto
  have ne: "hex_digits (Suc w) (n div 16) \<noteq> []" by simp
  have "hex_number 0 False (hex_digits (Suc w) (n div 16) @ [digit_char (n mod 16)]) =
      Some (16 * (n div 16 mod 16 ^ Suc w) + n mod 16)"
    using hex_number_snoc [OF g d u, of 0 False] Suc [of "n div 16"] ne by simp
  moreover have "16 * (n div 16 mod 16 ^ Suc w) + n mod 16 = n mod 16 ^ Suc (Suc w)"
    using mod_mult2_eq [of n 16 "16 ^ Suc w"] by simp
  ultimately show ?case by (metis hex_digits.simps(2))
qed

lemma replace_all_absent: "hd old \<notin> set s \<Longrightarrow> replace_all old new s = s"
proof (induction s)
  case (Cons c s)
  then show ?case by (cases old) auto
qed simp

lemma dropWhile_none: "(\<forall>c\<in>set s. \<not> P c) \<Longrightarrow> dropWhile P s = s"
  by (cases s) auto

lemma strip_hex:
  assumes "hex_text s"
  shows "strip s = s"
proof -
  have n: "\<forall>c\<in>set s. \<not> py_space c" using assms by (auto simp: hex_text_def py_space_def Let_def)
  then have "dropWhile py_space s = s" "dropWhile py_space (rev s) = rev s" by (simp_all add: dropWhile_none)
  then show ?thesis by (simp add: strip_def rstrip_def lstrip_def)
qed

lemma int_hex_digits: "int_hex (hex_digits (Suc (Suc w)) n) = Some (int (n mod 16 ^ Suc (Suc w)))"
proof -
  let ?s = "hex_digits (Suc (Suc w)) n"
  have h: "hex_text ?s" by (rule hex_text_digits)
  obtain c u where s: "?s = c # u" by (cases ?s) auto
  have c: "c \<noteq> CHR ''-''" "c \<noteq> CHR ''+''" using h unfolding s by (auto simp: hex_text_def)
  have x: "CHR ''x'' \<notin> set ?s" "CHR ''X'' \<notin> set ?s" using hex_text_not [OF h] by auto
  have "\<not> prefix ''0x'' ?s" "\<not> prefix ''0X'' ?s" using x by (auto dest!: set_mono_prefix)
  then have b: "hex_body (c # u) = Some (n mod 16 ^ Suc (Suc w))" by (simp only: hex_body_def if_False simp_thms hex_number_digits flip: s)
  show ?thesis using c unfolding int_hex_def strip_hex [OF h] Let_def unfolding s by (simp only: list.case if_False b option.map)
qed

lemma groups_join: "take 8 h @ take 4 (drop 8 h) @ take 4 (drop 12 h) @ take 4 (drop 16 h) @ drop 20 h = h"
proof -
  have "take 4 (drop 16 h) @ drop 20 h = drop 16 h" using append_take_drop_id [of 4 "drop 16 h"] by simp
  moreover have "take 4 (drop 12 h) @ drop 16 h = drop 12 h" using append_take_drop_id [of 4 "drop 12 h"] by simp
  moreover have "take 4 (drop 8 h) @ drop 12 h = drop 8 h" using append_take_drop_id [of 4 "drop 8 h"] by simp
  ultimately show ?thesis by simp
qed

lemma parse_uuid_str:
  assumes "u < 2 ^ 128"
  shows "parse_uuid (uuid_str u) = Some u"
proof -
  let ?h = "hex_digits 32 u"
  have h: "hex_text ?h" by (rule hex_text_digits)
  have sub: "set (uuid_str u) \<subseteq> insert (CHR ''-'') (set ?h)"
    by (auto simp: uuid_str_def Let_def dest: in_set_takeD in_set_dropD)
  have no: "CHR ''u'' \<notin> set (uuid_str u)" "CHR ''{'' \<notin> set (uuid_str u)" "CHR ''}'' \<notin> set (uuid_str u)"
    using sub hex_text_not [OF h, of "CHR ''u''"] hex_text_not [OF h, of "CHR ''{''"] hex_text_not [OF h, of "CHR ''}''"] by auto
  have strip: "strip_chars ''{}'' (uuid_str u) = uuid_str u"
    using no(2,3) by (simp add: strip_chars_def) (subst dropWhile_none, force, subst dropWhile_none, force, simp)
  have dash: "filter (\<lambda>c. c \<noteq> CHR ''-'') xs = xs" if "set xs \<subseteq> set ?h" for xs
    using that hex_text_not [OF h, of "CHR ''-''"] by (auto intro!: filter_True)
  have f: "filter (\<lambda>c. c \<noteq> CHR ''-'') (uuid_str u) = ?h"
    unfolding uuid_str_def Let_def
    by (simp add: dash set_take_subset set_drop_subset order_trans [OF set_take_subset set_drop_subset] groups_join)
  show ?thesis
    using int_hex_digits [of 30 u] assms
    by (simp add: parse_uuid_def Let_def replace_all_absent no strip f del: hex_digits.simps)
qed

end
