(* ===== verification/Capabilities.thy ===== *)
theory Capabilities
  imports Identifiers
begin

text \<open>
  The declarations of \<open>src/app/entity/bo/capabilities.py\<close> and
  \<open>src/app/entity/bo/tool_approvals.py\<close>: skills, public HTTP tools, the SQL, web and sandbox
  policies, the catalog that holds them, the execution scope frozen into a run, and the
  approval bound to that run. A pydantic model is a \<open>record\<close>; its validators are
  bool-valued functions. What pydantic serializes is a parameter: the size of a catalog's
  JSON and its SHA-256 digest. The syntax of a tool's endpoint
  (\<open>public_https_endpoint\<close>) is not modelled.
\<close>

datatype platform_role = RoleUser | RoleAdmin
datatype search_mode = Knowledge | Web | Sql | Auto

section \<open>Names\<close>

definition lower_char :: "char \<Rightarrow> bool" where
  "lower_char c = (let n = (of_char c :: nat) in 97 \<le> n \<and> n \<le> 122)"

definition upper_char :: "char \<Rightarrow> bool" where
  "upper_char c = (let n = (of_char c :: nat) in 65 \<le> n \<and> n \<le> 90)"

definition digit_char_p :: "char \<Rightarrow> bool" where
  "digit_char_p c = (let n = (of_char c :: nat) in 48 \<le> n \<and> n \<le> 57)"

definition to_lower :: "string \<Rightarrow> string" where
  "to_lower s = map (\<lambda>c. if upper_char c then char_of ((of_char c :: nat) + 32) else c) s"

definition skill_name_ok :: "string \<Rightarrow> bool" where
  "skill_name_ok s = (length s \<le> 64 \<and>
     (\<forall>w\<in>set (split_on CHR ''-'' s). w \<noteq> [] \<and> (\<forall>c\<in>set w. lower_char c \<or> digit_char_p c)))"

definition tool_name_ok :: "string \<Rightarrow> bool" where
  "tool_name_ok s = (case s of [] \<Rightarrow> False | c # cs \<Rightarrow>
     lower_char c \<and> length cs \<le> 127 \<and>
     (\<forall>x\<in>set cs. lower_char x \<or> digit_char_p x \<or> x \<in> set ''_.-''))"

definition secret_name_ok :: "string \<Rightarrow> bool" where
  "secret_name_ok s = (case s of [] \<Rightarrow> False | c # cs \<Rightarrow>
     upper_char c \<and> length cs \<le> 127 \<and>
     (\<forall>x\<in>set cs. upper_char x \<or> digit_char_p x \<or> x = CHR ''_''))"

definition hex64 :: "string \<Rightarrow> bool" where
  "hex64 s = (length s = 64 \<and> (\<forall>c\<in>set s. digit_char_p c \<or> c \<in> set ''abcdef''))"

section \<open>Skills\<close>

record skill =
  sk_name :: string
  sk_description :: string
  sk_instructions :: string
  sk_tools :: "string list"
  sk_roles :: "platform_role list"
  sk_secrets :: "string list"
  sk_enabled :: bool

definition skill_ok :: "skill \<Rightarrow> bool" where
  "skill_ok s =
     (skill_name_ok (sk_name s) \<and>
      1 \<le> length (sk_description s) \<and> length (sk_description s) \<le> 500 \<and>
      1 \<le> length (sk_instructions s) \<and> length (sk_instructions s) \<le> 262144 \<and>
      length (sk_tools s) \<le> 128 \<and> list_all tool_name_ok (sk_tools s) \<and>
      length (sk_roles s) \<le> 2 \<and>
      length (sk_secrets s) \<le> 32 \<and> list_all secret_name_ok (sk_secrets s) \<and>
      strip (sk_description s) \<noteq> [] \<and> strip (sk_instructions s) \<noteq> [] \<and>
      distinct (sk_tools s) \<and> distinct (sk_roles s) \<and> distinct (sk_secrets s))"

section \<open>Tool input schemas\<close>

definition schema_item_ok :: "string \<times> json \<Rightarrow> bool" where
  "schema_item_ok kv = (case kv of (k, v) \<Rightarrow>
     \<not> (k \<in> {''$ref'', ''$dynamicRef'', ''$recursiveRef''} \<and>
         (case v of JStr s \<Rightarrow> \<not> prefix ''#'' s | _ \<Rightarrow> True)) \<and>
     \<not> (k = ''$id'' \<and> truthy v) \<and>
     \<not> (k = ''$schema'' \<and> v \<noteq> JStr ''https://json-schema.org/draft/2020-12/schema''))"

fun json_nodes :: "json \<Rightarrow> nat" where
  "json_nodes (JArr xs) = Suc (sum_list (map json_nodes xs))"
| "json_nodes (JObj d) = Suc (sum_list (map (\<lambda>(_, v). json_nodes v) d))"
| "json_nodes _ = 1"

fun json_depth :: "json \<Rightarrow> nat" where
  "json_depth (JArr xs) = foldr (\<lambda>x m. max (Suc (json_depth x)) m) xs 0"
| "json_depth (JObj d) = foldr (\<lambda>(_, v) m. max (Suc (json_depth v)) m) d 0"
| "json_depth _ = 0"

fun refs_local :: "json \<Rightarrow> bool" where
  "refs_local (JArr xs) = list_all refs_local xs"
| "refs_local (JObj d) = list_all (\<lambda>(k, v). schema_item_ok (k, v) \<and> refs_local v) d"
| "refs_local _ = True"

fun children :: "json \<Rightarrow> json list" where
  "children (JArr xs) = xs"
| "children (JObj d) = map snd d"
| "children _ = []"

lemma json_nodes_children: "json_nodes j = Suc (sum_list (map json_nodes (children j)))"
  by (cases j) (simp_all add: case_prod_unfold o_def)

lemma sum_nodes_pushed:
  "sum_list (map (\<lambda>(j, d). json_nodes j) (rev (map (\<lambda>v. (v, k)) vs))) = sum_list (map json_nodes vs)"
  by (induction vs) auto

text \<open>The loop of \<open>bounded_input_schema\<close>; the head of the list is the top of the stack.\<close>

function schema_walk :: "(json \<times> nat) list \<Rightarrow> nat \<Rightarrow> bool" where
  "schema_walk [] nodes = True"
| "schema_walk ((item, depth) # stack) nodes =
     (if 32 < depth \<or> 4096 < Suc nodes then False
      else if (case item of JObj d \<Rightarrow> list_all schema_item_ok d | _ \<Rightarrow> True)
      then schema_walk (rev (map (\<lambda>v. (v, Suc depth)) (children item)) @ stack) (Suc nodes)
      else False)"
  by pat_completeness auto

termination
proof (relation "measure (\<lambda>(stack, n). sum_list (map (\<lambda>(j, d). json_nodes j) stack))", goal_cases)
  case (2 item depth stack nodes)
  have "sum_list (map json_nodes (children item)) < json_nodes item"
    by (simp add: json_nodes_children [of item])
  then show ?case by (simp only: in_measure prod.case map_append sum_list_append sum_nodes_pushed) simp
qed simp

declare schema_walk.simps [simp del]

text \<open>\<open>check_schema\<close> stands for the validator of the \<open>jsonschema\<close> package.\<close>

definition bounded_input_schema :: "(json \<Rightarrow> bool) \<Rightarrow> dict \<Rightarrow> bool" where
  "bounded_input_schema check_schema schema =
     (schema_walk [(JObj schema, 0)] 0 \<and>
      utf8_len (dumps False (JObj schema)) \<le> 65536 \<and>
      dict_get schema ''type'' = Some (JStr ''object'') \<and>
      (case dict_get schema ''properties'' of None \<Rightarrow> True | Some (JObj _) \<Rightarrow> True | _ \<Rightarrow> False) \<and>
      check_schema (JObj schema))"

section \<open>HTTP tools\<close>

datatype http_method = GET | POST

record http_tool =
  ht_name :: string
  ht_description :: string
  ht_group :: string
  ht_endpoint :: string
  ht_method :: http_method
  ht_schema :: dict
  ht_headers :: "(string \<times> string) list"
  ht_secret_headers :: "(string \<times> string) list"
  ht_roles :: "platform_role list"
  ht_approval :: bool
  ht_idempotent :: bool
  ht_timeout :: time
  ht_max_bytes :: int
  ht_enabled :: bool

definition blocked_headers :: "string list" where
  "blocked_headers = [''host'', ''cookie'', ''set-cookie'', ''connection'', ''proxy-connection'',
     ''proxy-authorization'', ''content-type'', ''content-length'', ''transfer-encoding'',
     ''accept-encoding'', ''upgrade'', ''te'', ''trailer'']"

definition sensitive_markers :: "string list" where
  "sensitive_markers = [''authorization'', ''api-key'', ''apikey'', ''token'', ''credential'',
     ''password'', ''secret'', ''signature'']"

definition header_name_ok :: "string \<Rightarrow> bool" where
  "header_name_ok s = (case s of [] \<Rightarrow> False | c # cs \<Rightarrow>
     (lower_char c \<or> upper_char c) \<and> length cs \<le> 126 \<and>
     (\<forall>x\<in>set cs. lower_char x \<or> upper_char x \<or> digit_char_p x \<or> x = CHR ''-''))"

definition header_value_ok :: "string \<Rightarrow> bool" where
  "header_value_ok v = (v \<noteq> [] \<and> length v \<le> 4096 \<and>
     (\<forall>c\<in>set v. let n = (of_char c :: nat) in \<not> (n < 32 \<or> n = 127)))"

text \<open>The loop over one dictionary of headers; \<open>Some seen\<close> when every header passes.\<close>

fun check_headers :: "bool \<Rightarrow> string list \<Rightarrow> (string \<times> string) list \<Rightarrow> string list option" where
  "check_headers is_secret seen [] = Some seen"
| "check_headers is_secret seen ((name, value) # hs) =
     (let lowered = to_lower name in
      if \<not> header_name_ok name \<or> lowered \<in> set blocked_headers \<or> lowered \<in> set seen then None
      else if \<not> is_secret \<and> (list_ex (\<lambda>m. sublist m lowered) sensitive_markers
                \<or> prefix ''bearer '' (to_lower value) \<or> prefix ''basic '' (to_lower value)) then None
      else if \<not> header_value_ok value then None
      else check_headers is_secret (lowered # seen) hs)"

definition safe_headers_and_roles :: "http_tool \<Rightarrow> bool" where
  "safe_headers_and_roles t =
     (strip (ht_description t) \<noteq> [] \<and> distinct (ht_roles t) \<and>
      (case check_headers False [] (ht_headers t) of
         None \<Rightarrow> False | Some seen \<Rightarrow> check_headers True seen (ht_secret_headers t) \<noteq> None))"

section \<open>Policies\<close>

record sql_policy =
  sp_enabled :: bool
  sp_tables :: "string list"
  sp_source :: string
  sp_timeout :: time
  sp_max_rows :: int

definition safe_tables :: "sql_policy \<Rightarrow> bool" where
  "safe_tables p =
     (strip (sp_source p) \<noteq> [] \<and> distinct (sp_tables p) \<and>
      (\<forall>t\<in>set (sp_tables p). hd (split_on CHR ''.'' t) \<notin> {''rag'', ''information_schema''}
          \<and> \<not> prefix ''pg_'' (hd (split_on CHR ''.'' t))) \<and>
      (sp_enabled p \<longrightarrow> sp_tables p \<noteq> []))"

record sandbox_policy =
  sb_enabled :: bool
  sb_image :: string
  sb_limits :: dict

section \<open>The catalog\<close>

datatype skill_source = Builtin | Custom

record registered_skill =
  rs_version :: int
  rs_source :: skill_source
  rs_decl :: skill

record registered_tool =
  rt_version :: int
  rt_decl :: http_tool

record catalog =
  c_skills :: "(string \<times> registered_skill) list"
  c_tools :: "(string \<times> registered_tool) list"
  c_retired_skills :: "string list"
  c_retired_tools :: "string list"
  c_sql :: "(int \<times> sql_policy) option"
  c_web :: "(int \<times> bool) option"
  c_sandbox :: "(int \<times> sandbox_policy) option"

text \<open>What pydantic computes of a catalog: the bytes of its JSON and its digest.\<close>

record catalog_codec =
  cc_bytes :: "catalog \<Rightarrow> nat"
  cc_digest :: "catalog \<Rightarrow> string"

definition BUILTIN_TOOLS :: "string list" where
  "BUILTIN_TOOLS = [''delegate_rag'', ''delegate_sql'', ''delegate_web'']"

definition RESERVED_TOOL_NAMES :: "string list" where
  "RESERVED_TOOL_NAMES = BUILTIN_TOOLS @ [''search_tools'', ''describe_skill'', ''invoke_public_tool'',
     ''call_http_tool'', ''save_memory'', ''search_knowledge'', ''search_rewritten_knowledge'',
     ''search_web'', ''read_web_page'', ''crawl_fixed_sites'', ''describe_sql_schema'', ''execute_sql'']"

definition SANDBOX_TOOL :: string where
  "SANDBOX_TOOL = ''sandbox_execute''"

definition builtin_tools :: "catalog \<Rightarrow> string list" where
  "builtin_tools c = (if c_sandbox c = None then BUILTIN_TOOLS else BUILTIN_TOOLS @ [SANDBOX_TOOL])"

definition tool_of :: "catalog \<Rightarrow> string \<Rightarrow> registered_tool option" where
  "tool_of c name = map_of (c_tools c) name"

definition skill_of :: "catalog \<Rightarrow> string \<Rightarrow> registered_skill option" where
  "skill_of c name = map_of (c_skills c) name"

definition requires_tool_approval :: "catalog \<Rightarrow> string \<Rightarrow> bool" where
  "requires_tool_approval c name =
     (name = SANDBOX_TOOL \<and> c_sandbox c \<noteq> None \<or>
      (case tool_of c name of None \<Rightarrow> False | Some r \<Rightarrow> ht_approval (rt_decl r)))"

definition catalog_coherent :: "catalog_codec \<Rightarrow> catalog \<Rightarrow> bool" where
  "catalog_coherent cc c =
     (length (c_skills c) \<le> 128 \<and> length (c_tools c) \<le> 128 \<and>
      distinct (map fst (c_skills c)) \<and> distinct (map fst (c_tools c)) \<and>
      length (c_retired_skills c) \<le> 4096 \<and> length (c_retired_tools c) \<le> 4096 \<and>
      list_all (\<lambda>(_, r). skill_ok (rs_decl r) \<and> 1 \<le> rs_version r) (c_skills c) \<and>
      list_all (\<lambda>(_, r). safe_headers_and_roles (rt_decl r) \<and> 1 \<le> rt_version r) (c_tools c) \<and>
      set (map fst (c_skills c)) \<inter> set (c_retired_skills c) = {} \<and>
      set (map fst (c_tools c)) \<inter> set (c_retired_tools c) = {} \<and>
      set (map fst (c_tools c)) \<inter> set RESERVED_TOOL_NAMES = {} \<and>
      (c_sandbox c \<noteq> None \<longrightarrow>
         SANDBOX_TOOL \<notin> set (map fst (c_tools c)) \<and> SANDBOX_TOOL \<notin> set (c_retired_tools c)) \<and>
      (\<forall>(name, r)\<in>set (c_tools c). name = ht_name (rt_decl r)) \<and>
      (\<forall>(name, r)\<in>set (c_skills c).
         name = sk_name (rs_decl r) \<and>
         set (sk_tools (rs_decl r)) \<subseteq> set (map fst (c_tools c)) \<union> set (builtin_tools c) \<and>
         (sk_enabled (rs_decl r) \<longrightarrow>
            (\<forall>t\<in>set (sk_tools (rs_decl r)). case tool_of c t of
               None \<Rightarrow> True | Some x \<Rightarrow> ht_enabled (rt_decl x)))) \<and>
      (case c_sql c of None \<Rightarrow> True | Some (v, p) \<Rightarrow> 1 \<le> v \<and> safe_tables p) \<and>
      cc_bytes cc c \<le> 2 * 1024 * 1024)"

section \<open>The frozen execution scope\<close>

record execution =
  x_revision :: int
  x_catalog :: catalog
  x_hash :: string
  x_skill :: "string option"
  x_mode :: search_mode
  x_allowed :: "string list"
  x_approved :: "string list"
  x_sql :: "sql_policy option"
  x_sql_sha :: "string option"

fun mode_tools :: "catalog \<Rightarrow> search_mode \<Rightarrow> string list" where
  "mode_tools c Knowledge = [''delegate_rag'']"
| "mode_tools c Sql = [''delegate_sql'']"
| "mode_tools c Web = [''delegate_web'']"
| "mode_tools c Auto = builtin_tools c"

text \<open>The condition both \<open>freeze\<close> and the frozen scope's validator apply to one tool.\<close>

definition mode_excludes :: "catalog \<Rightarrow> search_mode \<Rightarrow> string \<Rightarrow> bool" where
  "mode_excludes c mode name =
     (name \<in> set (builtin_tools c) \<and> name \<notin> set (mode_tools c mode) \<or>
      name \<notin> set (builtin_tools c) \<and> mode \<noteq> Web \<and> mode \<noteq> Auto)"

definition execution_coherent :: "catalog_codec \<Rightarrow> execution \<Rightarrow> bool" where
  "execution_coherent cc x =
     (1 \<le> x_revision x \<and> hex64 (x_hash x) \<and> catalog_coherent cc (x_catalog x) \<and>
      length (x_allowed x) \<le> 132 \<and> length (x_approved x) \<le> 129 \<and>
      x_hash x = cc_digest cc (x_catalog x) \<and>
      (case x_skill x of None \<Rightarrow> True | Some s \<Rightarrow> skill_of (x_catalog x) s \<noteq> None) \<and>
      distinct (x_allowed x) \<and>
      set (x_allowed x) \<subseteq> set (builtin_tools (x_catalog x)) \<union> set (map fst (c_tools (x_catalog x))) \<and>
      set (x_approved x) = {n \<in> set (x_allowed x). requires_tool_approval (x_catalog x) n} \<and>
      distinct (x_approved x) \<and>
      (\<forall>n\<in>set (x_allowed x). \<not> mode_excludes (x_catalog x) (x_mode x) n) \<and>
      (SANDBOX_TOOL \<in> set (x_allowed x) \<longrightarrow>
         (case c_sandbox (x_catalog x) of None \<Rightarrow> True | Some (_, p) \<Rightarrow> sb_enabled p)) \<and>
      (case x_skill x of None \<Rightarrow> True | Some s \<Rightarrow> (case skill_of (x_catalog x) s of
         None \<Rightarrow> True | Some r \<Rightarrow> set (x_allowed x) \<subseteq> set (sk_tools (rs_decl r)))) \<and>
      (''delegate_sql'' \<in> set (x_allowed x) \<longrightarrow>
         (case x_sql x of None \<Rightarrow> False | Some p \<Rightarrow> sp_enabled p) \<and> x_sql_sha x \<noteq> None) \<and>
      (''delegate_sql'' \<in> set (x_allowed x) \<longrightarrow>
         (case c_sql (x_catalog x) of None \<Rightarrow> True | Some (_, p) \<Rightarrow> x_sql x = Some p)))"

section \<open>Approvals bound to one run\<close>

record tool_approval =
  ap_user :: uuid
  ap_session :: uuid
  ap_run :: uuid
  ap_org :: "uuid option"
  ap_hash :: string
  ap_tools :: "string list"

record run_identity =
  id_user :: uuid
  id_session :: uuid
  id_run :: uuid
  id_org :: "uuid option"
  id_hash :: string

definition unique_tools :: "tool_approval \<Rightarrow> bool" where
  "unique_tools g = (1 \<le> length (ap_tools g) \<and> length (ap_tools g) \<le> 131 \<and> hex64 (ap_hash g)
     \<and> distinct (ap_tools g))"

definition allows :: "tool_approval \<Rightarrow> string \<Rightarrow> run_identity \<Rightarrow> bool" where
  "allows g name i = (name \<in> set (ap_tools g) \<and> ap_user g = id_user i \<and> ap_session g = id_session i
     \<and> ap_run g = id_run i \<and> ap_org g = id_org i \<and> ap_hash g = id_hash i)"

text \<open>\<open>Inr None\<close>: no approval and none needed; \<open>Inl\<close>: the \<open>ValueError\<close>.\<close>

definition validate_run_approval ::
    "tool_approval option \<Rightarrow> string list \<Rightarrow> run_identity \<Rightarrow> tool_approval option result" where
  "validate_run_approval raw names i = (case raw of
     None \<Rightarrow> if names \<noteq> [] then Inl (OtherError ''ValueError'') else Inr None
   | Some g \<Rightarrow>
       if \<not> unique_tools g \<or> set (ap_tools g) \<noteq> set names \<or> (\<exists>n\<in>set (ap_tools g). \<not> allows g n i)
       then Inl (OtherError ''ValueError'') else Inr (Some g))"

section \<open>The schema loop against the recursive reading\<close>

lemma foldr_max_le: "foldr (\<lambda>x m. max (f x) m) xs 0 \<le> (n::nat) \<longleftrightarrow> (\<forall>x\<in>set xs. f x \<le> n)"
  by (induction xs) auto

lemma json_depth_le:
  "k + json_depth j \<le> n \<longleftrightarrow> k \<le> n \<and> (\<forall>v\<in>set (children j). Suc k + json_depth v \<le> n)"
proof -
  have "json_depth j \<le> m \<longleftrightarrow> (\<forall>v\<in>set (children j). Suc (json_depth v) \<le> m)" for m
    by (cases j) (auto simp: foldr_max_le case_prod_unfold)
  from this [of "n - k"] show ?thesis by (cases "k \<le> n") auto
qed

lemma refs_local_children:
  "refs_local j \<longleftrightarrow> (case j of JObj d \<Rightarrow> list_all schema_item_ok d | _ \<Rightarrow> True)
     \<and> (\<forall>v\<in>set (children j). refs_local v)"
  by (cases j) (auto simp: list_all_iff)

lemma schema_walk_iff:
  "nodes \<le> 4096 \<Longrightarrow> schema_walk stack nodes \<longleftrightarrow>
     (\<forall>(j, k)\<in>set stack. k + json_depth j \<le> 32 \<and> refs_local j) \<and>
     nodes + sum_list (map (\<lambda>(j, k). json_nodes j) stack) \<le> 4096"
proof (induction stack nodes rule: schema_walk.induct)
  case (1 nodes)
  then show ?case by (simp add: schema_walk.simps)
next
  case (2 item k stack nodes)
  let ?ok = "case item of JObj d \<Rightarrow> list_all schema_item_ok d | _ \<Rightarrow> True"
  let ?kids = "rev (map (\<lambda>v. (v, Suc k)) (children item))"
  have nodes: "json_nodes item = Suc (sum_list (map json_nodes (children item)))"
    by (rule json_nodes_children)
  show ?case
  proof (cases "32 < k \<or> 4096 < Suc nodes \<or> \<not> ?ok")
    case True
    then have "\<not> schema_walk ((item, k) # stack) nodes" by (auto simp: schema_walk.simps)
    moreover have "\<not> (k + json_depth item \<le> 32 \<and> refs_local item \<and> nodes + json_nodes item \<le> 4096)"
      using True nodes refs_local_children [of item] by auto
    ultimately show ?thesis by auto
  next
    case False
    then have "schema_walk ((item, k) # stack) nodes = schema_walk (?kids @ stack) (Suc nodes)"
      by (simp add: schema_walk.simps)
    also have "\<dots> \<longleftrightarrow> (\<forall>(j, k)\<in>set (?kids @ stack). k + json_depth j \<le> 32 \<and> refs_local j) \<and>
        Suc nodes + sum_list (map (\<lambda>(j, k). json_nodes j) (?kids @ stack)) \<le> 4096"
      using False by (intro "2.IH") auto
    also have "\<dots> \<longleftrightarrow> (\<forall>v\<in>set (children item). Suc k + json_depth v \<le> 32 \<and> refs_local v) \<and>
        (\<forall>(j, k)\<in>set stack. k + json_depth j \<le> 32 \<and> refs_local j) \<and>
        nodes + json_nodes item + sum_list (map (\<lambda>(j, k). json_nodes j) stack) \<le> 4096"
      unfolding map_append sum_list_append sum_nodes_pushed nodes by (auto simp: ball_Un)
    also have "\<dots> \<longleftrightarrow> k + json_depth item \<le> 32 \<and> refs_local item \<and>
        (\<forall>(j, k)\<in>set stack. k + json_depth j \<le> 32 \<and> refs_local j) \<and>
        nodes + json_nodes item + sum_list (map (\<lambda>(j, k). json_nodes j) stack) \<le> 4096"
      using False json_depth_le [of k item 32] refs_local_children [of item] by auto
    finally show ?thesis by auto
  qed
qed

section \<open>Lemmas on names, modes and approvals\<close>

lemma coherent_skill:
  assumes "catalog_coherent cc c" "(n, r) \<in> set (c_skills c)"
  shows "skill_ok (rs_decl r)" "n = sk_name (rs_decl r)"
    "set (sk_tools (rs_decl r)) \<subseteq> set (map fst (c_tools c)) \<union> set (builtin_tools c)"
proof -
  have "list_all (\<lambda>(_, r). skill_ok (rs_decl r) \<and> 1 \<le> rs_version r) (c_skills c)"
    using assms(1) by (simp only: catalog_coherent_def)
  with assms(2) show "skill_ok (rs_decl r)" by (auto simp: list_all_iff)
  have "\<forall>(n, r)\<in>set (c_skills c). n = sk_name (rs_decl r) \<and>
      set (sk_tools (rs_decl r)) \<subseteq> set (map fst (c_tools c)) \<union> set (builtin_tools c)"
    using assms(1) by (auto simp only: catalog_coherent_def)
  with assms(2) show "n = sk_name (rs_decl r)"
    "set (sk_tools (rs_decl r)) \<subseteq> set (map fst (c_tools c)) \<union> set (builtin_tools c)"
    by auto
qed

lemma builtin_not_tool:
  assumes "catalog_coherent cc c"
  shows "set (builtin_tools c) \<inter> set (map fst (c_tools c)) = {}"
  using assms by (auto simp: catalog_coherent_def builtin_tools_def RESERVED_TOOL_NAMES_def BUILTIN_TOOLS_def
      split: if_splits)

lemma validate_run_approval_Some:
  assumes "validate_run_approval (Some g) names i = Inr r"
  shows "r = Some g \<and> set (ap_tools g) = set names \<and> (\<forall>n\<in>set names. allows g n i)"
  using assms by (auto simp: validate_run_approval_def split: if_splits)

lemma validate_run_approval_bound:
  assumes "validate_run_approval (Some g) names i = Inr r"
  shows "ap_user g = id_user i \<and> ap_session g = id_session i \<and> ap_run g = id_run i
    \<and> ap_org g = id_org i \<and> ap_hash g = id_hash i"
proof -
  from assms have "unique_tools g" "\<forall>n\<in>set (ap_tools g). allows g n i"
    by (auto simp: validate_run_approval_def split: if_splits)
  moreover from this obtain n where "n \<in> set (ap_tools g)"
    by (cases "ap_tools g") (auto simp: unique_tools_def)
  ultimately show ?thesis by (auto simp: allows_def)
qed

text \<open>
  The stack loop that bounds a tool's input schema accepts exactly the schemas of depth
  at most 32 and at most 4096 nodes whose references all stay local, at every nesting
  level; the remaining checks concern the size and the root of the schema.
\<close>

lemma bounded_input_schema_iff:
  "bounded_input_schema check_schema schema \<longleftrightarrow>
     json_depth (JObj schema) \<le> 32 \<and> json_nodes (JObj schema) \<le> 4096 \<and> refs_local (JObj schema) \<and>
     utf8_len (dumps False (JObj schema)) \<le> 65536 \<and>
     dict_get schema ''type'' = Some (JStr ''object'') \<and>
     (case dict_get schema ''properties'' of None \<Rightarrow> True | Some (JObj _) \<Rightarrow> True | _ \<Rightarrow> False) \<and>
     check_schema (JObj schema)"
  using schema_walk_iff [of 0 "[(JObj schema, 0)]"]
  by (simp only: bounded_input_schema_def list.map sum_list.Cons sum_list.Nil prod.case list.set ball_simps)
     (simp only: add_0 add_0_right conj_ac le0 simp_thms)

end
