(* ===== verification/Tables.thy ===== *)
theory Tables
  imports Capabilities
begin

text \<open>
  The persistent state: one \<open>record\<close> per table of \<open>src/app/entity/do/models.py\<close> and
  \<open>src/app/entity/do/automatic_memory.py\<close> that the modelled services read or write, and the
  database they share. A column whose \<open>CheckConstraint\<close> lists its values is a
  \<open>datatype\<close>; a JSON column is a dictionary. The columns \<open>updated_at\<close> (written by the
  mapper's \<open>onupdate\<close> hook) and \<open>created_at\<close> are kept where a modelled query or
  operation reads them.
\<close>

section \<open>Accounts\<close>

record user =
  u_id :: uuid
  u_name :: string
  u_password_hash :: string
  u_role :: platform_role
  u_active :: bool

record auth_session =
  as_id :: uuid
  as_user :: uuid
  as_refresh_hash :: string
  as_expires :: time
  as_last_refreshed :: time
  as_revoked :: "time option"

section \<open>Documents\<close>

datatype doc_status = DocProcessing | DocReady | DocFailed | DocDeleting | DocRetired

record document =
  d_id :: uuid
  d_user :: uuid
  d_name :: string
  d_org :: "uuid option"
  d_file_type :: string
  d_file_path :: string
  d_content_hash :: string
  d_fingerprint :: string
  d_size :: "int option"
  d_status :: doc_status
  d_chunk_count :: int
  d_embedding_model :: string
  d_error :: "string option"
  d_metadata :: dict
  d_created :: time

datatype index_state =
  IxBuilding | IxVerified | IxPublished | IxSuperseded | IxRetiring | IxCleaned | IxFailed

record doc_index =
  ix_document :: uuid
  ix_collection :: string
  ix_database :: string
  ix_model :: string
  ix_dimension :: int
  ix_connection :: string
  ix_fingerprint :: string
  ix_source :: string
  ix_leaf_sha :: "string option"
  ix_leaf_count :: int
  ix_state :: index_state
  ix_verified_at :: "time option"

datatype task_kind = KIngest | KHierarchy | KDelete | KDeleteSeries
datatype task_state = TQueued | TRunning | TSucceeded | TFailed | TCancelled

record doc_task =
  t_id :: uuid
  t_document :: "uuid option"
  t_parent :: "uuid option"
  t_user :: uuid
  t_name :: string
  t_org :: "uuid option"
  t_kind :: task_kind
  t_state :: task_state
  t_phase :: string
  t_processed :: int
  t_total :: "int option"
  t_attempts :: int
  t_max_attempts :: int
  t_error :: "string option"
  t_details :: dict
  t_created :: time
  t_updated :: time

record ingestion_job =
  j_document :: uuid
  j_task :: "uuid option"
  j_user :: uuid
  j_kind :: task_kind
  j_state :: task_state
  j_attempts :: int
  j_max_attempts :: int
  j_available :: time
  j_lease :: "time option"
  j_token :: "uuid option"
  j_error :: "string option"

record doc_series =
  s_id :: uuid
  s_user :: uuid
  s_current :: "uuid option"
  s_next :: int
  s_retirement :: "uuid option"

record doc_version =
  v_document :: uuid
  v_series :: uuid
  v_number :: int

record hierarchy_node =
  n_id :: uuid
  n_document :: uuid
  n_user :: uuid
  n_parent :: "uuid option"
  n_level :: int
  n_leaf_index :: "int option"
  n_text :: string
  n_hash :: string
  n_fingerprint :: string
  n_metadata :: dict

section \<open>Organizations and shared libraries\<close>

record organization =
  o_id :: uuid
  o_name :: string
  o_owner :: uuid
  o_archived :: "time option"

datatype org_role = Owner | OrgAdmin | Member

record org_member =
  m_org :: uuid
  m_user :: uuid
  m_role :: org_role

record knowledge_base =
  kb_id :: uuid
  kb_org :: uuid
  kb_name :: string

datatype grant_role = Viewer | Editor

record knowledge_grant =
  g_kb :: uuid
  g_user :: uuid
  g_org :: uuid
  g_role :: grant_role

record knowledge_document =
  kd_kb :: uuid
  kd_document :: uuid
  kd_series :: uuid
  kd_current :: bool

section \<open>Sessions, messages and runs\<close>

datatype run_kind = Chat | Evaluation

record chat_session =
  cs_id :: uuid
  cs_user :: uuid
  cs_org :: "uuid option"
  cs_title :: string
  cs_kind :: run_kind
  cs_summary :: string
  cs_summarized :: "uuid option"
  cs_updated :: time

datatype msg_role = MsgUser | MsgAssistant | MsgSystem

record chat_message =
  msg_id :: uuid
  msg_user :: uuid
  msg_session :: uuid
  msg_role :: msg_role
  msg_content :: string
  msg_provider :: "string option"
  msg_model :: "string option"
  msg_citations :: "dict list"
  msg_tokens :: json
  msg_metadata :: "dict option"
  msg_created :: time

datatype run_state =
  Queued | Running | Waiting | Cancelling | Cancelled | Succeeded | Failed | Interrupted

record chat_run =
  r_id :: uuid
  r_user :: uuid
  r_session :: uuid
  r_client_key :: uuid
  r_fingerprint :: string
  r_state :: run_state
  r_kind :: run_kind
  r_result :: dict
  r_sequence :: int
  r_bytes :: int
  r_request :: string
  r_expires :: time
  r_message :: "uuid option"
  r_user_message :: "uuid option"
  r_payload :: json
  r_snapshot :: dict
  r_owner :: "uuid option"
  r_generation :: int
  r_lease :: "time option"
  r_remaining :: "time option"
  r_active :: "time option"
  r_resume :: "uuid option"
  r_created :: time

record run_pin =
  pin_run :: uuid
  pin_document :: uuid

record run_event =
  ev_run :: uuid
  ev_sequence :: int
  ev_event :: string
  ev_payload :: dict

record run_checkpoint =
  ck_run :: uuid
  ck_revision :: int
  ck_payload :: dict

datatype op_state = OpStarted | OpSucceeded | OpUncertain

record run_operation =
  op_run :: uuid
  op_key :: string
  op_input_hash :: string
  op_state :: op_state
  op_readonly :: bool
  op_generation :: int
  op_attempts :: int
  op_result :: json
  op_updated :: time

record run_artifact =
  a_id :: uuid
  a_run :: uuid
  a_op_key :: string
  a_user :: uuid
  a_session :: uuid
  a_org :: "uuid option"
  a_tool :: string
  a_tool_version :: int
  a_name :: string
  a_size :: int
  a_sha :: string
  a_media :: string
  a_preview :: string
  a_content :: string

record event_outbox =
  ob_run :: uuid
  ob_sequence :: int
  ob_dispatched :: "time option"

section \<open>Memories\<close>

datatype memory_status = MemProcessing | MemReady | MemFailed | MemDeleting

record user_memory =
  um_id :: uuid
  um_user :: uuid
  um_content :: string
  um_hash :: string
  um_version :: int
  um_status :: memory_status
  um_via :: string
  um_source_session :: "uuid option"
  um_source_message :: "uuid option"
  um_vector_updated :: "time option"
  um_error :: "string option"
  um_updated :: time

record memory_settings =
  ms_user :: uuid
  ms_enabled :: bool
  ms_generation :: int
  ms_enabled_since :: "time option"

datatype auto_state = AutoReady | AutoDeleting | AutoDeleted

record auto_memory =
  am_id :: uuid
  am_user :: uuid
  am_generation :: int
  am_uri :: string
  am_content :: string
  am_hash :: string
  am_version :: int
  am_state :: auto_state
  am_source_session :: "uuid option"
  am_source_message :: "uuid option"
  am_updated :: time

datatype sync_kind = SyncCapture | SyncDelete | SyncPurge
datatype sync_state =
  SyncPending | SyncRunning | SyncWaiting | SyncSucceeded | SyncFailed | SyncUncertain | SyncCancelled

record sync_job =
  sj_id :: uuid
  sj_user :: uuid
  sj_generation :: int
  sj_dedup :: string
  sj_kind :: sync_kind
  sj_state :: sync_state
  sj_receipt :: dict
  sj_owner :: "uuid option"
  sj_lease :: "time option"
  sj_available :: time
  sj_attempts :: int
  sj_error :: "string option"
  sj_created :: time

section \<open>The database\<close>

record db =
  users :: "user list"
  auth_sessions :: "auth_session list"
  documents :: "document list"
  doc_indexes :: "doc_index list"
  doc_tasks :: "doc_task list"
  jobs :: "ingestion_job list"
  series_rows :: "doc_series list"
  versions :: "doc_version list"
  nodes :: "hierarchy_node list"
  orgs :: "organization list"
  members :: "org_member list"
  kbs :: "knowledge_base list"
  grants :: "knowledge_grant list"
  kdocs :: "knowledge_document list"
  sessions :: "chat_session list"
  messages :: "chat_message list"
  runs :: "chat_run list"
  pins :: "run_pin list"
  events :: "run_event list"
  checkpoints :: "run_checkpoint list"
  operations :: "run_operation list"
  artifacts :: "run_artifact list"
  outbox :: "event_outbox list"

text \<open>The memory tables have a record of their own, the services over them touch no other.\<close>

text \<open>
  The capability catalog: the one row of \<open>capability_configuration\<close> and its retained
  revisions. The JSON column holds a catalog as pydantic reads it; \<open>None\<close> stands for JSON
  that \<open>CapabilityCatalog.model_validate_json\<close> rejects.
\<close>

record cap_row =
  cr_revision :: int
  cr_catalog :: "catalog option"

record cap_version =
  cv_revision :: int
  cv_catalog :: "catalog option"
  cv_by :: "uuid option"
  cv_operation :: string
  cv_kind :: string
  cv_name :: string

record cap_db =
  cap_users :: "user list"
  cap_config :: "cap_row option"
  cap_history :: "cap_version list"

record memory_db =
  user_memories :: "user_memory list"
  consents :: "memory_settings list"
  auto_memories :: "auto_memory list"
  sync_jobs :: "sync_job list"

definition empty_db :: db where
  "empty_db = \<lparr>users = [], auth_sessions = [], documents = [], doc_indexes = [], doc_tasks = [],
     jobs = [], series_rows = [], versions = [], nodes = [], orgs = [], members = [], kbs = [],
     grants = [], kdocs = [], sessions = [], messages = [], runs = [], pins = [], events = [],
     checkpoints = [], operations = [], artifacts = [], outbox = []\<rparr>"

definition empty_memory_db :: memory_db where
  "empty_memory_db = \<lparr>user_memories = [], consents = [], auto_memories = [], sync_jobs = []\<rparr>"

section \<open>Rows by primary key\<close>

abbreviation get_user where "get_user i d \<equiv> row_get u_id i (users d)"
abbreviation get_document where "get_document i d \<equiv> row_get d_id i (documents d)"
abbreviation get_index where "get_index i d \<equiv> row_get ix_document i (doc_indexes d)"
abbreviation get_task_row where "get_task_row i d \<equiv> row_get t_id i (doc_tasks d)"
abbreviation get_job_row where "get_job_row i d \<equiv> row_get j_document i (jobs d)"
abbreviation get_org where "get_org i d \<equiv> row_get o_id i (orgs d)"
abbreviation get_run_row where "get_run_row i d \<equiv> row_get r_id i (runs d)"
abbreviation get_message where "get_message i d \<equiv> row_get msg_id i (messages d)"
abbreviation get_session where "get_session i d \<equiv> row_get cs_id i (sessions d)"
abbreviation get_checkpoint where "get_checkpoint i d \<equiv> row_get ck_run i (checkpoints d)"

definition op_pk :: "run_operation \<Rightarrow> uuid \<times> string" where
  "op_pk o' = (op_run o', op_key o')"

definition event_pk :: "run_event \<Rightarrow> uuid \<times> int" where
  "event_pk e = (ev_run e, ev_sequence e)"

definition put_run :: "chat_run \<Rightarrow> db \<Rightarrow> db" where
  "put_run r d = d\<lparr>runs := row_put r_id r (runs d)\<rparr>"

definition put_task :: "doc_task \<Rightarrow> db \<Rightarrow> db" where
  "put_task t d = d\<lparr>doc_tasks := row_put t_id t (doc_tasks d)\<rparr>"

definition put_job :: "ingestion_job \<Rightarrow> db \<Rightarrow> db" where
  "put_job j d = d\<lparr>jobs := row_put j_document j (jobs d)\<rparr>"

definition put_document :: "document \<Rightarrow> db \<Rightarrow> db" where
  "put_document x d = d\<lparr>documents := row_put d_id x (documents d)\<rparr>"

definition put_index :: "doc_index \<Rightarrow> db \<Rightarrow> db" where
  "put_index x d = d\<lparr>doc_indexes := row_put ix_document x (doc_indexes d)\<rparr>"

definition put_series :: "doc_series \<Rightarrow> db \<Rightarrow> db" where
  "put_series x d = d\<lparr>series_rows := row_put s_id x (series_rows d)\<rparr>"

definition put_checkpoint :: "run_checkpoint \<Rightarrow> db \<Rightarrow> db" where
  "put_checkpoint c d = d\<lparr>checkpoints := row_put ck_run c (checkpoints d)\<rparr>"

definition put_operation :: "run_operation \<Rightarrow> db \<Rightarrow> db" where
  "put_operation c d = d\<lparr>operations := row_put op_pk c (operations d)\<rparr>"

lemmas put_defs = put_run_def put_task_def put_job_def put_document_def put_index_def
  put_series_def put_checkpoint_def put_operation_def

end
