(* ===== verification/Repository.thy ===== *)
theory Repository
  imports Tables
begin

text \<open>
  The queries and row operations of \<open>src/app/dao/postgres/repository.py\<close> that the services
  share: organization membership, sessions, the readability of a document's index and the
  version series of a document. A row lock is not part of the model: a transaction is one
  step. \<open>schema\<close> says which of the optional tables a migration has created
  (\<open>inspect(connection).has_table\<close>).
\<close>

record schema =
  has_document_indexes :: bool
  has_document_versions :: bool

section \<open>Membership and sessions\<close>

definition org_live :: "uuid \<Rightarrow> db \<Rightarrow> bool" where
  "org_live oid d = (case get_org oid d of None \<Rightarrow> False | Some org \<Rightarrow> o_archived org = None)"

definition workspace_member :: "uuid \<Rightarrow> uuid \<Rightarrow> db \<Rightarrow> org_member result" where
  "workspace_member uid oid d =
     require_row (find (\<lambda>m. m_org m = oid \<and> m_user m = uid \<and> org_live oid d) (members d)) not_found"

definition chat_session_of :: "uuid \<Rightarrow> uuid \<Rightarrow> run_kind option \<Rightarrow> db \<Rightarrow> chat_session result" where
  "chat_session_of uid sid kind d =
     and_then (require_row (find (\<lambda>s. cs_id s = sid \<and> cs_user s = uid \<and>
         (case kind of None \<Rightarrow> True | Some k \<Rightarrow> cs_kind s = k)) (sessions d)) not_found)
       (\<lambda>s. case cs_org s of None \<Rightarrow> Inr s
            | Some oid \<Rightarrow> and_then (workspace_member uid oid d) (\<lambda>_. Inr s))"

definition user_by_username :: "string \<Rightarrow> db \<Rightarrow> user option" where
  "user_by_username name d = find (\<lambda>u. u_name u = name) (users d)"

definition auth_session_row :: "uuid \<Rightarrow> db \<Rightarrow> auth_session option" where
  "auth_session_row sid d = row_get as_id sid (auth_sessions d)"

definition active_auth_session :: "time \<Rightarrow> uuid \<Rightarrow> uuid \<Rightarrow> db \<Rightarrow> auth_session option" where
  "active_auth_session now uid sid d =
     find (\<lambda>s. as_id s = sid \<and> as_user s = uid \<and> as_revoked s = None \<and> now < as_expires s \<and>
        (case get_user (as_user s) d of None \<Rightarrow> False | Some u \<Rightarrow> u_active u)) (auth_sessions d)"

definition revoke_user_sessions :: "time \<Rightarrow> uuid \<Rightarrow> db \<Rightarrow> db" where
  "revoke_user_sessions now uid d = d\<lparr>auth_sessions :=
     map (\<lambda>s. if as_user s = uid \<and> as_revoked s = None then s\<lparr>as_revoked := Some now\<rparr> else s)
       (auth_sessions d)\<rparr>"

section \<open>Documents and their indexes\<close>

definition document_of :: "uuid \<Rightarrow> uuid \<Rightarrow> db \<Rightarrow> document result" where
  "document_of uid did d =
     require_row (find (\<lambda>x. d_id x = did \<and> d_user x = uid) (documents d)) not_found"

definition duplicate_document ::
    "uuid \<Rightarrow> string \<Rightarrow> string \<Rightarrow> uuid option \<Rightarrow> db \<Rightarrow> document option" where
  "duplicate_document uid hash fp oid d =
     find (\<lambda>x. d_user x = uid \<and> d_content_hash x = hash \<and> d_fingerprint x = fp \<and> d_org x = oid
        \<and> d_status x \<noteq> DocRetired) (documents d)"

definition index_readable :: "doc_index \<Rightarrow> bool" where
  "index_readable ix = ((ix_state ix = IxPublished \<or> ix_state ix = IxSuperseded) \<and>
     ix_verified_at ix \<noteq> None \<and> (case ix_leaf_sha ix of None \<Rightarrow> False | Some s \<Rightarrow> s \<noteq> [])
     \<and> 0 < ix_leaf_count ix)"

definition readable_index_ids :: "schema \<Rightarrow> bool \<Rightarrow> uuid list \<Rightarrow> db \<Rightarrow> uuid list" where
  "readable_index_ids sch require_index ids d =
     (if ids = [] then []
      else if \<not> has_document_indexes sch then (if require_index then [] else ids)
      else filter (\<lambda>did. case get_index did d of
             None \<Rightarrow> \<not> require_index | Some ix \<Rightarrow> index_readable ix) ids)"

text \<open>
  \<open>requested = None\<close> asks for every document of the user in the workspace, and then for
  the current version of each series when \<open>current_only\<close> says so (\<open>None\<close>: when the
  version tables exist).
\<close>

definition ready_document_ids ::
    "schema \<Rightarrow> uuid \<Rightarrow> uuid list option \<Rightarrow> string \<Rightarrow> bool option \<Rightarrow> bool \<Rightarrow> uuid option \<Rightarrow> db
     \<Rightarrow> uuid list result" where
  "ready_document_ids sch uid requested model current_only require_index oid d =
     (let base = filter (\<lambda>x. d_user x = uid \<and> d_org x = oid) (documents d);
          versioned = (case current_only of None \<Rightarrow> has_document_versions sch | Some b \<Rightarrow> b);
          docs = (case requested of
              Some ids \<Rightarrow> filter (\<lambda>x. d_id x \<in> set ids) base
            | None \<Rightarrow> if versioned
                then filter (\<lambda>x. row_get v_document (d_id x) (versions d) = None \<or>
                       (\<exists>s\<in>set (series_rows d). s_user s = uid \<and> s_current s = Some (d_id x))) base
                else base);
          readable = readable_index_ids sch require_index (map d_id docs) d;
          answer = map d_id (filter (\<lambda>x. d_status x = DocReady \<and>
             (require_index \<or> d_embedding_model x = model) \<and> d_id x \<in> set readable) docs)
      in case requested of
           None \<Rightarrow> Inr answer
         | Some ids \<Rightarrow>
             and_then (raise_if (set (map d_id docs) \<noteq> set ids) not_found) (\<lambda>_.
             and_then (raise_if (\<exists>x\<in>set docs. d_status x \<noteq> DocReady)
                         (AppError ''DOCUMENT_NOT_READY'' 409)) (\<lambda>_.
             and_then (raise_if (\<not> require_index \<and> (\<exists>x\<in>set docs. d_embedding_model x \<noteq> model))
                         (AppError ''EMBEDDING_MODEL_MISMATCH'' 409)) (\<lambda>_.
             and_then (raise_if (\<exists>x\<in>set docs. d_id x \<notin> set readable)
                         (AppError ''DOCUMENT_INDEX_UNPUBLISHED'' 409)) (\<lambda>_.
             Inr answer)))))"

section \<open>Version series\<close>

definition get_version :: "uuid \<Rightarrow> db \<Rightarrow> doc_version option" where
  "get_version did d = row_get v_document did (versions d)"

definition series_of :: "uuid \<Rightarrow> doc_version \<Rightarrow> db \<Rightarrow> doc_series result" where
  "series_of uid v d =
     require_row (find (\<lambda>s. s_id s = v_series v \<and> s_user s = uid) (series_rows d)) not_found"

text \<open>\<open>bind_document_version\<close> with \<open>base_id is None\<close>: the document opens a series of its own.\<close>

definition bind_first_version :: "uuid \<Rightarrow> document \<Rightarrow> db \<Rightarrow> db result" where
  "bind_first_version uid doc d =
     and_then (row_insert s_id \<lparr>s_id = d_id doc, s_user = uid, s_current = Some (d_id doc),
                 s_next = 2, s_retirement = None\<rparr> (series_rows d)) (\<lambda>rows.
     and_then (row_insert v_document \<lparr>v_document = d_id doc, v_series = d_id doc, v_number = 1\<rparr>
                 (versions d)) (\<lambda>vs.
     Inr (d\<lparr>series_rows := rows, versions := vs\<rparr>)))"

definition ensure_version :: "uuid \<Rightarrow> document \<Rightarrow> db \<Rightarrow> (doc_version \<times> db) result" where
  "ensure_version uid doc d = (case get_version (d_id doc) d of
     Some v \<Rightarrow> Inr (v, d)
   | None \<Rightarrow> and_then (bind_first_version uid doc d) (\<lambda>d'.
       and_then (require_row (get_version (d_id doc) d') (OtherError ''AttributeError'')) (\<lambda>v.
       Inr (v, d'))))"

definition bind_document_version :: "uuid \<Rightarrow> document \<Rightarrow> uuid option \<Rightarrow> db \<Rightarrow> db result" where
  "bind_document_version uid doc base_id d = (case base_id of
     None \<Rightarrow> bind_first_version uid doc d
   | Some bid \<Rightarrow>
       and_then (document_of uid bid d) (\<lambda>base.
       and_then (raise_if (d_org base \<noteq> d_org doc) (AppError ''INVALID_WORKSPACE_SCOPE'' 409)) (\<lambda>_.
       and_then (raise_if (d_status base = DocDeleting) (AppError ''DOCUMENT_DELETING'' 409)) (\<lambda>_.
       and_then (ensure_version uid base d) (\<lambda>(binding, d1).
       and_then (series_of uid binding d1) (\<lambda>s.
       and_then (raise_if (s_retirement s \<noteq> None) (AppError ''DOCUMENT_SERIES_RETIRED'' 409)) (\<lambda>_.
       and_then (row_insert v_document \<lparr>v_document = d_id doc, v_series = s_id s, v_number = s_next s\<rparr>
                   (versions d1)) (\<lambda>vs.
       Inr ((put_series (s\<lparr>s_next := s_next s + 1\<rparr>) d1)\<lparr>versions := vs\<rparr>)))))))))"

definition activate_document_version ::
    "uuid \<Rightarrow> uuid \<Rightarrow> uuid option \<Rightarrow> string \<Rightarrow> db \<Rightarrow> (document \<times> db) result" where
  "activate_document_version uid did expected model d =
     and_then (document_of uid did d) (\<lambda>doc.
     and_then (raise_if (d_status doc \<noteq> DocReady \<or> d_embedding_model doc \<noteq> model)
                 (AppError ''DOCUMENT_NOT_READY'' 409)) (\<lambda>_.
     and_then (ensure_version uid doc d) (\<lambda>(binding, d1).
     and_then (series_of uid binding d1) (\<lambda>s.
     and_then (raise_if (s_current s \<noteq> expected) (AppError ''DOCUMENT_VERSION_CONFLICT'' 409)) (\<lambda>_.
     and_then (raise_if (s_retirement s \<noteq> None) (AppError ''DOCUMENT_SERIES_RETIRED'' 409)) (\<lambda>_.
     Inr (doc, put_series (s\<lparr>s_current := Some (d_id doc)\<rparr>) d1)))))))"

definition prepare_version_delete :: "uuid \<Rightarrow> uuid \<Rightarrow> db \<Rightarrow> db result" where
  "prepare_version_delete uid did d = (case get_version did d of
     None \<Rightarrow> Inr d
   | Some v \<Rightarrow> and_then (series_of uid v d) (\<lambda>s.
       Inr (if s_current s = Some did then put_series (s\<lparr>s_current := None\<rparr>) d else d)))"

definition finish_version_delete :: "uuid \<Rightarrow> db \<Rightarrow> db" where
  "finish_version_delete did d = (case get_version did d of
     None \<Rightarrow> d | Some v \<Rightarrow> d\<lparr>versions := row_del (\<lambda>x. v_document x = did) (versions d)\<rparr>)"

record version_info =
  vi_series :: uuid
  vi_number :: int
  vi_current :: "uuid option"
  vi_is_current :: bool
  vi_retirement :: "uuid option"
  vi_hash :: string

definition version_info_of :: "uuid \<Rightarrow> document \<Rightarrow> db \<Rightarrow> version_info" where
  "version_info_of uid doc d =
     (case (case get_version (d_id doc) d of None \<Rightarrow> None
            | Some v \<Rightarrow> map_option (\<lambda>s. (v, s)) (find (\<lambda>s. s_id s = v_series v \<and> s_user s = uid) (series_rows d))) of
        Some (v, s) \<Rightarrow> \<lparr>vi_series = s_id s, vi_number = v_number v, vi_current = s_current s,
           vi_is_current = (s_current s = Some (d_id doc)), vi_retirement = s_retirement s,
           vi_hash = d_content_hash doc\<rparr>
      | None \<Rightarrow> \<lparr>vi_series = d_id doc, vi_number = 1, vi_current = Some (d_id doc),
           vi_is_current = True, vi_retirement = None, vi_hash = d_content_hash doc\<rparr>)"

section \<open>Lemmas\<close>

lemma find_Some_mem: "find p xs = Some x \<Longrightarrow> x \<in> set xs \<and> p x"
  by (auto simp: find_Some_iff)

lemma workspace_member_Inr:
  "workspace_member uid oid d = Inr m \<Longrightarrow>
   m \<in> set (members d) \<and> m_org m = oid \<and> m_user m = uid \<and> org_live oid d"
  by (auto simp: workspace_member_def result_simps dest: find_Some_mem)

lemma workspace_member_archived:
  "\<not> org_live oid d \<Longrightarrow> workspace_member uid oid d = Inl not_found"
  by (auto simp: workspace_member_def find_None_iff require_row_def split: option.split)

lemma chat_session_of_Inr:
  assumes "chat_session_of uid sid kind d = Inr s"
  shows "s \<in> set (sessions d) \<and> cs_id s = sid \<and> cs_user s = uid
    \<and> (\<forall>oid. cs_org s = Some oid \<longrightarrow> (\<exists>m\<in>set (members d). m_org m = oid \<and> m_user m = uid \<and> org_live oid d))"
  using assms by (auto simp: chat_session_of_def result_simps split: option.splits
      dest!: find_Some_mem workspace_member_Inr)

lemma document_of_Inr:
  "document_of uid did d = Inr x \<Longrightarrow> x \<in> set (documents d) \<and> d_id x = did \<and> d_user x = uid"
  by (auto simp: document_of_def result_simps dest: find_Some_mem)

lemma set_readable_index_ids: "set (readable_index_ids sch req ids d) \<subseteq> set ids"
  by (auto simp: readable_index_ids_def)

lemma readable_index_ids_published:
  assumes "did \<in> set (readable_index_ids sch True ids d)"
  shows "\<exists>ix. get_index did d = Some ix \<and> index_readable ix"
  using assms by (auto simp: readable_index_ids_def split: if_splits option.splits)

text \<open>
  A series' numbers: every version of a series is numbered below the series' next number
  and no two versions of one series share a number.
\<close>

definition versions_ok :: "db \<Rightarrow> bool" where
  "versions_ok d \<longleftrightarrow>
     distinct (map s_id (series_rows d)) \<and> distinct (map v_document (versions d)) \<and>
     (\<forall>s\<in>set (series_rows d). 2 \<le> s_next s) \<and>
     (\<forall>v\<in>set (versions d). \<exists>s\<in>set (series_rows d). s_id s = v_series v \<and> 1 \<le> v_number v \<and> v_number v < s_next s) \<and>
     (\<forall>v\<in>set (versions d). \<forall>w\<in>set (versions d).
        v_series v = v_series w \<and> v_number v = v_number w \<longrightarrow> v = w)"

lemma bind_first_version_ok:
  assumes "bind_first_version uid doc d = Inr d'" "versions_ok d"
  shows "versions_ok d'"
proof -
  let ?s = "\<lparr>s_id = d_id doc, s_user = uid, s_current = Some (d_id doc), s_next = 2, s_retirement = None\<rparr>"
  let ?v = "\<lparr>v_document = d_id doc, v_series = d_id doc, v_number = 1\<rparr>"
  have d': "d' = d\<lparr>series_rows := series_rows d @ [?s], versions := versions d @ [?v]\<rparr>"
    and new: "\<forall>s\<in>set (series_rows d). s_id s \<noteq> d_id doc" "\<forall>v\<in>set (versions d). v_document v \<noteq> d_id doc"
    using assms(1) by (auto simp: bind_first_version_def result_simps row_get_None)
  have "v_series v \<noteq> d_id doc" if "v \<in> set (versions d)" for v
    using that new(1) assms(2) unfolding versions_ok_def by metis
  with new assms(2) show ?thesis by (auto simp: versions_ok_def d')
qed

lemma series_of_Inr:
  "series_of uid v d = Inr s \<Longrightarrow> s \<in> set (series_rows d) \<and> s_id s = v_series v \<and> s_user s = uid"
  by (auto simp: series_of_def result_simps dest: find_Some_mem)

lemma ensure_version_ok:
  assumes "ensure_version uid doc d = Inr (v, d')" "versions_ok d"
  shows "versions_ok d' \<and> get_version (d_id doc) d' = Some v"
  using assms by (auto simp: ensure_version_def result_simps intro: bind_first_version_ok split: option.splits)

lemma versions_ok_put_series:
  assumes "versions_ok d" "s \<in> set (series_rows d)" "s_id s' = s_id s" "s_next s' = s_next s"
  shows "versions_ok (put_series s' d)"
proof -
  have ds: "distinct (map s_id (series_rows d))" using assms(1) by (simp add: versions_ok_def)
  have set: "set (series_rows (put_series s' d)) = insert s' {x \<in> set (series_rows d). s_id x \<noteq> s_id s}"
    using set_row_put_distinct [OF ds, of s'] assms(3) by (simp add: put_series_def)
  have "\<exists>t\<in>set (series_rows (put_series s' d)). s_id t = v_series v \<and> 1 \<le> v_number v \<and> v_number v < s_next t"
    if v: "v \<in> set (versions d)" for v
  proof -
    obtain t where t: "t \<in> set (series_rows d)" "s_id t = v_series v" "1 \<le> v_number v" "v_number v < s_next t"
      using assms(1) v unfolding versions_ok_def by metis
    show ?thesis
    proof (cases "s_id t = s_id s")
      case True
      then have "t = s" using distinct_key_eq [OF ds t(1) assms(2)] by simp
      with t assms(3,4) show ?thesis by (auto simp: set)
    next
      case False
      with t show ?thesis by (auto simp: set)
    qed
  qed
  moreover have "\<forall>x\<in>set (series_rows (put_series s' d)). 2 \<le> s_next x"
    using assms(1,2,4) by (auto simp: set versions_ok_def)
  moreover have "distinct (map s_id (series_rows (put_series s' d)))"
    using ds by (simp add: put_series_def distinct_row_put)
  ultimately show ?thesis using assms(1) by (simp add: versions_ok_def put_series_def)
qed

lemma versions_ok_add_version:
  assumes ok: "versions_ok d" and s: "s \<in> set (series_rows d)"
    and new: "row_get v_document did (versions d) = None"
  shows "versions_ok ((put_series (s\<lparr>s_next := s_next s + 1\<rparr>) d)\<lparr>versions :=
     versions d @ [\<lparr>v_document = did, v_series = s_id s, v_number = s_next s\<rparr>]\<rparr>)"
    (is "versions_ok ?d'")
proof -
  let ?s' = "s\<lparr>s_next := s_next s + 1\<rparr>"
  have ds: "distinct (map s_id (series_rows d))" using ok by (simp add: versions_ok_def)
  have set: "set (series_rows (put_series ?s' d)) = insert ?s' {x \<in> set (series_rows d). s_id x \<noteq> s_id s}"
    using set_row_put_distinct [OF ds, of ?s'] by (simp add: put_series_def)
  have old: "\<exists>t\<in>set (series_rows ?d'). s_id t = v_series v \<and> 1 \<le> v_number v \<and> v_number v < s_next t"
    and below: "v_series v = s_id s \<longrightarrow> v_number v < s_next s" if v: "v \<in> set (versions d)" for v
  proof -
    obtain t where t: "t \<in> set (series_rows d)" "s_id t = v_series v" "1 \<le> v_number v" "v_number v < s_next t"
      using ok v unfolding versions_ok_def by metis
    have ts: "s_id t = s_id s \<Longrightarrow> t = s" using distinct_key_eq [OF ds t(1) s] by simp
    show "\<exists>t\<in>set (series_rows ?d'). s_id t = v_series v \<and> 1 \<le> v_number v \<and> v_number v < s_next t"
      using t ts by (cases "s_id t = s_id s") (auto simp: set intro: bexI [of _ t])
    show "v_series v = s_id s \<longrightarrow> v_number v < s_next s"
      using t ts by auto
  qed
  have next2: "2 \<le> s_next s" using ok s by (simp add: versions_ok_def)
  let ?v = "\<lparr>v_document = did, v_series = s_id s, v_number = s_next s\<rparr>"
  have vs: "set (versions ?d') = insert ?v (set (versions d))" by simp
  have "\<exists>t\<in>set (series_rows ?d'). s_id t = v_series v \<and> 1 \<le> v_number v \<and> v_number v < s_next t"
    if "v \<in> set (versions ?d')" for v
    using that old next2 by (auto simp: set)
  moreover have "v = w" if "v \<in> set (versions ?d')" "w \<in> set (versions ?d')"
    "v_series v = v_series w" "v_number v = v_number w" for v w
  proof -
    have fresh: "\<not> (v_series x = s_id s \<and> v_number x = s_next s)" if "x \<in> set (versions d)" for x
      using below [OF that] by auto
    have "v = ?v \<longleftrightarrow> w = ?v"
      using that fresh [of v] fresh [of w] unfolding vs by (metis doc_version.select_convs insertE)
    moreover have "v = w" if "v \<in> set (versions d)" "w \<in> set (versions d)"
      using that ok \<open>v_series v = v_series w\<close> \<open>v_number v = v_number w\<close>
      unfolding versions_ok_def by blast
    ultimately show ?thesis using that(1,2) by (auto simp: vs)
  qed
  moreover have "distinct (map v_document (versions ?d'))"
    using ok new by (auto simp: versions_ok_def row_get_None)
  moreover have "distinct (map s_id (series_rows ?d'))"
    using ds by (simp add: put_series_def distinct_row_put)
  moreover have "\<forall>x\<in>set (series_rows ?d'). 2 \<le> s_next x"
    using ok next2 by (auto simp: set versions_ok_def)
  ultimately show ?thesis unfolding versions_ok_def by blast
qed

theorem bind_document_version_ok:
  assumes "bind_document_version uid doc base d = Inr d'" "versions_ok d"
  shows "versions_ok d'"
proof (cases base)
  case None
  with assms show ?thesis by (simp add: bind_document_version_def bind_first_version_ok)
next
  case (Some bid)
  with assms(1) obtain b v d1 s where
    e: "ensure_version uid b d = Inr (v, d1)" and s: "series_of uid v d1 = Inr s"
    and new: "row_get v_document (d_id doc) (versions d1) = None"
    and d': "d' = (put_series (s\<lparr>s_next := s_next s + 1\<rparr>) d1)\<lparr>versions :=
      versions d1 @ [\<lparr>v_document = d_id doc, v_series = s_id s, v_number = s_next s\<rparr>]\<rparr>"
    by (auto simp: bind_document_version_def result_simps)
  have "versions_ok d1" using ensure_version_ok [OF e assms(2)] by simp
  then show ?thesis unfolding d'
    using series_of_Inr [OF s] new by (intro versions_ok_add_version) auto
qed

theorem activate_document_version_ok:
  assumes "activate_document_version uid did expected model d = Inr (doc, d')" "versions_ok d"
  shows "versions_ok d' \<and> d_status doc = DocReady \<and> d_embedding_model doc = model"
proof -
  from assms(1) obtain v d1 s where
    e: "ensure_version uid doc d = Inr (v, d1)" and s: "series_of uid v d1 = Inr s"
    and d': "d' = put_series (s\<lparr>s_current := Some (d_id doc)\<rparr>) d1"
    and doc: "d_status doc = DocReady" "d_embedding_model doc = model"
    by (auto simp: activate_document_version_def result_simps)
  have "versions_ok d1" using ensure_version_ok [OF e assms(2)] by simp
  then have "versions_ok d'" unfolding d'
    using series_of_Inr [OF s] by (auto intro: versions_ok_put_series)
  with doc show ?thesis by simp
qed

end
