(* ===== verification/CapabilityService.thy ===== *)
theory CapabilityService
  imports Repository
begin

text \<open>
  The capability centre of \<open>src/app/service/capabilities.py\<close>: registering and retiring skills
  and tools in one revisioned catalog, the reason a tool or a skill is unavailable, the
  scope \<open>freeze\<close> fixes for a run and \<open>validate_execution\<close> checks again later. The identity of
  the SQL connection (\<open>make_url\<close> of SQLAlchemy) and the process environment are parameters.
  \<open>sql_policy\<close> builds its record from the settings; settings whose SQL fields violate
  \<open>safe_tables\<close>, for which the constructor raises, are left out.
\<close>

record cap_env =
  ce_codec :: catalog_codec
  ce_enabled :: bool
  ce_chat_runs :: bool
  ce_approvals :: bool
  ce_sandbox :: bool
  ce_sql_url :: string
  ce_sql_default :: sql_policy
  ce_secret_names :: "string list"
  ce_environ :: "string \<Rightarrow> bool"
  ce_sql_identity :: "string option"

section \<open>Reading the catalog\<close>

definition cap_require :: "cap_env \<Rightarrow> unit result" where
  "cap_require e = raise_if (\<not> ce_enabled e) (AppError ''CAPABILITIES_DISABLED'' 503)"

definition cap_user :: "uuid \<Rightarrow> bool \<Rightarrow> cap_db \<Rightarrow> user result" where
  "cap_user uid admin s = (case row_get u_id uid (cap_users s) of
     None \<Rightarrow> Inl (AppError ''FORBIDDEN'' 403)
   | Some u \<Rightarrow> if \<not> u_active u \<or> admin \<and> u_role u \<noteq> RoleAdmin
       then Inl (AppError ''FORBIDDEN'' 403) else Inr u)"

definition read_catalog :: "cap_env \<Rightarrow> cap_db \<Rightarrow> (cap_row \<times> catalog) result" where
  "read_catalog e s = (case cap_config s of
     None \<Rightarrow> Inl (AppError ''CAPABILITY_MIGRATION_REQUIRED'' 503)
   | Some row \<Rightarrow> (case cr_catalog row of
       None \<Rightarrow> Inl (AppError ''INVALID_CAPABILITY_CATALOG'' 503)
     | Some c \<Rightarrow> if catalog_coherent (ce_codec e) c then Inr (row, c)
         else Inl (AppError ''INVALID_CAPABILITY_CATALOG'' 503)))"

definition snapshot_catalog :: "cap_env \<Rightarrow> cap_db \<Rightarrow> (int \<times> catalog) result" where
  "snapshot_catalog e s =
     and_then (cap_require e) (\<lambda>_.
     and_then (read_catalog e s) (\<lambda>(row, c).
     Inr (cr_revision row, c)))"

definition persist_catalog ::
    "cap_row \<Rightarrow> uuid \<Rightarrow> catalog \<Rightarrow> string \<Rightarrow> string \<Rightarrow> string \<Rightarrow> cap_db \<Rightarrow> cap_db" where
  "persist_catalog row uid c operation kind name s =
     (let rev = cr_revision row + 1 in
      s\<lparr>cap_config := Some \<lparr>cr_revision = rev, cr_catalog = Some c\<rparr>,
        cap_history := cap_history s @ [\<lparr>cv_revision = rev, cv_catalog = Some c, cv_by = Some uid,
          cv_operation = operation, cv_kind = kind, cv_name = name\<rparr>]\<rparr>)"

definition sql_policy_of :: "cap_env \<Rightarrow> catalog \<Rightarrow> sql_policy" where
  "sql_policy_of e c = (case c_sql c of Some (_, p) \<Rightarrow> p
     | None \<Rightarrow> (ce_sql_default e)\<lparr>sp_enabled := ce_sql_url e \<noteq> [] \<and> sp_tables (ce_sql_default e) \<noteq> []\<rparr>)"

definition sql_connection_identity :: "cap_env \<Rightarrow> string result" where
  "sql_connection_identity e = require_row (ce_sql_identity e) (AppError ''SQL_CONFIGURATION_ERROR'' 503)"

section \<open>Changing the catalog\<close>

datatype cap_decl = DeclSkill skill | DeclTool http_tool
datatype cap_kind = KSkills | KTools

fun kind_str :: "cap_kind \<Rightarrow> string" where
  "kind_str KSkills = ''skills''"
| "kind_str KTools = ''tools''"

fun decl_matches :: "cap_kind \<Rightarrow> string \<Rightarrow> cap_decl \<Rightarrow> bool" where
  "decl_matches KSkills name (DeclSkill d) = (sk_name d = name)"
| "decl_matches KTools name (DeclTool d) = (ht_name d = name)"
| "decl_matches _ name _ = False"

fun decl_secrets :: "cap_decl \<Rightarrow> string list" where
  "decl_secrets (DeclSkill d) = sk_secrets d"
| "decl_secrets (DeclTool d) = map snd (ht_secret_headers d)"

fun alist_set :: "string \<Rightarrow> 'v \<Rightarrow> (string \<times> 'v) list \<Rightarrow> (string \<times> 'v) list" where
  "alist_set k v [] = [(k, v)]"
| "alist_set k v ((k', v') # xs) = (if k' = k then (k, v) # xs else (k', v') # alist_set k v xs)"

definition known_name :: "cap_kind \<Rightarrow> string \<Rightarrow> catalog \<Rightarrow> bool" where
  "known_name kind name c = (case kind of
     KSkills \<Rightarrow> skill_of c name \<noteq> None | KTools \<Rightarrow> tool_of c name \<noteq> None)"

definition retired_name :: "cap_kind \<Rightarrow> string \<Rightarrow> catalog \<Rightarrow> bool" where
  "retired_name kind name c = (case kind of
     KSkills \<Rightarrow> name \<in> set (c_retired_skills c) | KTools \<Rightarrow> name \<in> set (c_retired_tools c))"

text \<open>\<open>del raw[kind][name]; raw["retired_" + kind].append(name)\<close>.\<close>

fun retire_name :: "cap_kind \<Rightarrow> string \<Rightarrow> catalog \<Rightarrow> catalog" where
  "retire_name KSkills name c = c\<lparr>c_skills := filter (\<lambda>(k, _). k \<noteq> name) (c_skills c),
     c_retired_skills := c_retired_skills c @ [name]\<rparr>"
| "retire_name KTools name c = c\<lparr>c_tools := filter (\<lambda>(k, _). k \<noteq> name) (c_tools c),
     c_retired_tools := c_retired_tools c @ [name]\<rparr>"

fun register_decl :: "string \<Rightarrow> cap_decl \<Rightarrow> catalog \<Rightarrow> catalog" where
  "register_decl name (DeclSkill d) c = (let current = skill_of c name in
     c\<lparr>c_skills := alist_set name \<lparr>rs_version = (case current of None \<Rightarrow> 1 | Some r \<Rightarrow> rs_version r + 1),
        rs_source = (case current of None \<Rightarrow> Custom | Some r \<Rightarrow> rs_source r), rs_decl = d\<rparr> (c_skills c)\<rparr>)"
| "register_decl name (DeclTool d) c = (let current = tool_of c name in
     c\<lparr>c_tools := alist_set name \<lparr>rt_version = (case current of None \<Rightarrow> 1 | Some r \<Rightarrow> rt_version r + 1),
        rt_decl = d\<rparr> (c_tools c)\<rparr>)"

text \<open>\<open>declaration = None\<close> with \<open>del = True\<close> is a deletion.\<close>

definition change_catalog ::
    "cap_env \<Rightarrow> uuid \<Rightarrow> cap_kind \<Rightarrow> string \<Rightarrow> int \<Rightarrow> cap_decl option \<Rightarrow> bool \<Rightarrow> bool
     \<Rightarrow> (cap_db, int \<times> catalog) body" where
  "change_catalog e uid kind name expected decl del create s =
     and_then (cap_require e) (\<lambda>_.
     and_then (raise_if (\<not> del \<and> (case decl of None \<Rightarrow> True | Some x \<Rightarrow> \<not> decl_matches kind name x))
                 (AppError ''INVALID_CAPABILITY'' 422)) (\<lambda>_.
     and_then (raise_if (kind = KTools \<and> name \<in> set RESERVED_TOOL_NAMES)
                 (AppError ''BUILTIN_TOOL_PROTECTED'' 409)) (\<lambda>_.
     and_then (cap_user uid True s) (\<lambda>_.
     and_then (read_catalog e s) (\<lambda>(row, c).
     and_then (raise_if (cr_revision row \<noteq> expected) (AppError ''CAPABILITY_REVISION_CONFLICT'' 409)) (\<lambda>_.
     and_then (raise_if (kind = KTools \<and> name = SANDBOX_TOOL \<and> c_sandbox c \<noteq> None)
                 (AppError ''BUILTIN_TOOL_PROTECTED'' 409)) (\<lambda>_.
     and_then (raise_if (\<not> del \<and> create \<and> known_name kind name c)
                 (AppError ''CAPABILITY_EXISTS'' 409)) (\<lambda>_.
     and_then (raise_if (\<not> del \<and> \<not> create \<and> \<not> known_name kind name c)
                 (AppError ''NOT_FOUND'' 404)) (\<lambda>_.
     and_then
       (if del then
          and_then (raise_if (\<not> known_name kind name c) (AppError ''NOT_FOUND'' 404)) (\<lambda>_.
          and_then (raise_if (kind = KTools \<and>
              (\<exists>x\<in>set (c_skills c). name \<in> set (sk_tools (rs_decl (snd x)))))
              (AppError ''CAPABILITY_IN_USE'' 409)) (\<lambda>_.
          Inr (retire_name kind name c, ''delete'')))
        else
          and_then (raise_if (retired_name kind name c) (AppError ''CAPABILITY_RETIRED'' 409)) (\<lambda>_.
          and_then (raise_if (\<not> set (decl_secrets (the decl)) \<subseteq> set (ce_secret_names e))
              (AppError ''CAPABILITY_SECRET_NOT_ALLOWED'' 422)) (\<lambda>_.
          Inr (register_decl name (the decl) c, if known_name kind name c then ''update'' else ''create''))))
       (\<lambda>(updated, operation).
     and_then (raise_if (\<not> catalog_coherent (ce_codec e) updated)
                 (AppError ''INVALID_CAPABILITY_DEPENDENCIES'' 409)) (\<lambda>_.
     committed (cr_revision row + 1, updated)
       (persist_catalog row uid updated operation (kind_str kind) name s))))))))))))"

datatype runtime_policy = RtSql sql_policy | RtWeb bool | RtSandbox sandbox_policy

fun runtime_name :: "runtime_policy \<Rightarrow> string" where
  "runtime_name (RtSql p) = ''sql''"
| "runtime_name (RtWeb b) = ''web''"
| "runtime_name (RtSandbox p) = ''sandbox''"

definition next_version :: "(int \<times> 'a) option \<Rightarrow> int" where
  "next_version x = (case x of None \<Rightarrow> 1 | Some (v, _) \<Rightarrow> v + 1)"

fun set_runtime :: "runtime_policy \<Rightarrow> catalog \<Rightarrow> catalog" where
  "set_runtime (RtSql p) c = c\<lparr>c_sql := Some (next_version (c_sql c), p)\<rparr>"
| "set_runtime (RtWeb b) c = c\<lparr>c_web := Some (next_version (c_web c), b)\<rparr>"
| "set_runtime (RtSandbox p) c = c\<lparr>c_sandbox := Some (next_version (c_sandbox c), p)\<rparr>"

text \<open>\<open>probe\<close> is the read-only check of the SQL role and tables (\<open>ReadOnlySQL.schema\<close>).\<close>

definition update_runtime ::
    "cap_env \<Rightarrow> (sql_policy \<Rightarrow> unit result) \<Rightarrow> uuid \<Rightarrow> runtime_policy \<Rightarrow> int \<Rightarrow> (cap_db, int \<times> catalog) body" where
  "update_runtime e probe uid policy expected s =
     and_then (cap_require e) (\<lambda>_.
     and_then (cap_user uid True s) (\<lambda>_.
     and_then (read_catalog e s) (\<lambda>(row, c).
     and_then (raise_if (cr_revision row \<noteq> expected) (AppError ''CAPABILITY_REVISION_CONFLICT'' 409)) (\<lambda>_.
     and_then (raise_if ((case policy of RtSandbox _ \<Rightarrow> True | _ \<Rightarrow> False) \<and>
          (tool_of c SANDBOX_TOOL \<noteq> None \<or> SANDBOX_TOOL \<in> set (c_retired_tools c)))
          (AppError ''SANDBOX_IDENTITY_CONFLICT'' 409)) (\<lambda>_.
     and_then (case policy of RtSql p \<Rightarrow> if sp_enabled p then probe p else Inr () | _ \<Rightarrow> Inr ()) (\<lambda>_.
     and_then (raise_if (\<not> catalog_coherent (ce_codec e) (set_runtime policy c))
                 (OtherError ''ValidationError'')) (\<lambda>_.
     committed (cr_revision row + 1, set_runtime policy c)
       (persist_catalog row uid (set_runtime policy c) ''update'' ''runtime'' (runtime_name policy) s))))))))"

section \<open>Availability\<close>

definition secret_available :: "cap_env \<Rightarrow> string \<Rightarrow> bool" where
  "secret_available e name = (name \<in> set (ce_secret_names e) \<and> ce_environ e name)"

definition tool_reason :: "cap_env \<Rightarrow> catalog \<Rightarrow> platform_role \<Rightarrow> string \<Rightarrow> string option" where
  "tool_reason e c role name =
     (case (if name = SANDBOX_TOOL then c_sandbox c else None) of
        Some (_, p) \<Rightarrow>
          if \<not> ce_sandbox e \<or> \<not> sb_enabled p then Some ''disabled''
          else if \<not> ce_approvals e \<or> \<not> ce_chat_runs e then Some ''approval_not_available''
          else if role \<noteq> RoleAdmin then Some ''permission_required'' else None
      | None \<Rightarrow>
          if name \<in> set BUILTIN_TOOLS then
            (if name = ''delegate_sql'' \<and> \<not> sp_enabled (sql_policy_of e c)
             then Some (if c_sql c \<noteq> None then ''disabled'' else ''not_configured'')
             else if name = ''delegate_sql'' \<and> ce_sql_url e = [] then Some ''not_configured''
             else if name = ''delegate_web'' \<and> (case c_web c of None \<Rightarrow> False | Some (_, on) \<Rightarrow> \<not> on)
             then Some ''disabled'' else None)
          else (case tool_of c name of
              None \<Rightarrow> Some ''deleted''
            | Some item \<Rightarrow> let tool = rt_decl item in
                if \<not> ht_enabled tool then Some ''disabled''
                else if ht_roles tool \<noteq> [] \<and> role \<notin> set (ht_roles tool) then Some ''permission_required''
                else if \<not> list_all (secret_available e) (map snd (ht_secret_headers tool)) then Some ''not_configured''
                else if ht_approval tool then
                  (if \<not> ce_approvals e then Some ''approval_not_available''
                   else if role \<noteq> RoleAdmin then Some ''permission_required'' else None)
                else None))"

fun first_reason :: "('a \<Rightarrow> string option) \<Rightarrow> 'a list \<Rightarrow> string option" where
  "first_reason f [] = None"
| "first_reason f (x # xs) = (case f x of None \<Rightarrow> first_reason f xs | Some r \<Rightarrow> Some r)"

definition skill_reason :: "cap_env \<Rightarrow> catalog \<Rightarrow> platform_role \<Rightarrow> string \<Rightarrow> string option" where
  "skill_reason e c role name = (case skill_of c name of
     None \<Rightarrow> Some ''deleted''
   | Some item \<Rightarrow> let sk = rs_decl item in
       if \<not> sk_enabled sk then Some ''disabled''
       else if sk_roles sk \<noteq> [] \<and> role \<notin> set (sk_roles sk) then Some ''permission_required''
       else if \<not> list_all (secret_available e) (sk_secrets sk) then Some ''not_configured''
       else first_reason (tool_reason e c role) (sk_tools sk))"

section \<open>Freezing a run's scope\<close>

text \<open>The loop over the candidate tools; the accumulator is \<open>allowed\<close>.\<close>

fun collect_tools ::
    "cap_env \<Rightarrow> catalog \<Rightarrow> platform_role \<Rightarrow> search_mode \<Rightarrow> bool \<Rightarrow> bool \<Rightarrow> string list
     \<Rightarrow> string list \<Rightarrow> string list \<Rightarrow> string list result" where
  "collect_tools e c role mode with_skill has_query approved [] allowed = Inr allowed"
| "collect_tools e c role mode with_skill has_query approved (name # names) allowed =
     (if mode_excludes c mode name then
        (if with_skill then Inl (AppError ''SKILL_MODE_CONFLICT'' 422)
         else collect_tools e c role mode with_skill has_query approved names allowed)
      else if tool_reason e c role name \<noteq> None then
        collect_tools e c role mode with_skill has_query approved names allowed
      else if requires_tool_approval c name \<and> name \<notin> set approved then
        (if with_skill then Inl (AppError ''TOOL_APPROVAL_REQUIRED'' 403)
         else collect_tools e c role mode with_skill has_query approved names allowed)
      else if tool_of c name \<noteq> None \<and> \<not> has_query then
        (if with_skill then Inl (AppError ''HTTP_TOOL_PUBLIC_QUERY_REQUIRED'' 422)
         else collect_tools e c role mode with_skill has_query approved names allowed)
      else collect_tools e c role mode with_skill has_query approved names (allowed @ [name]))"

definition candidates :: "catalog \<Rightarrow> string option \<Rightarrow> string list" where
  "candidates c skill = (case skill of
     None \<Rightarrow> builtin_tools c @ map fst (c_tools c)
   | Some name \<Rightarrow> (case skill_of c name of None \<Rightarrow> [] | Some r \<Rightarrow> sk_tools (rs_decl r)))"

definition check_approvals ::
    "cap_env \<Rightarrow> platform_role \<Rightarrow> int \<Rightarrow> catalog \<Rightarrow> string list \<Rightarrow> int option \<Rightarrow> unit result" where
  "check_approvals e role revision c approved approval_revision =
     and_then (raise_if (\<not> distinct approved) (AppError ''INVALID_TOOL_APPROVAL'' 422)) (\<lambda>_.
     and_then (raise_if ((approved \<noteq> []) \<noteq> (approval_revision \<noteq> None))
                 (AppError ''INVALID_TOOL_APPROVAL'' 422)) (\<lambda>_.
     if approved = [] then Inr () else
     and_then (raise_if (\<not> ce_chat_runs e) (AppError ''CAPABILITY_DURABLE_RUN_REQUIRED'' 503)) (\<lambda>_.
     and_then (raise_if (\<not> ce_approvals e) (AppError ''TOOL_APPROVALS_DISABLED'' 503)) (\<lambda>_.
     and_then (raise_if (role \<noteq> RoleAdmin) (AppError ''FORBIDDEN'' 403)) (\<lambda>_.
     and_then (raise_if (approval_revision \<noteq> Some revision)
                 (AppError ''CAPABILITY_REVISION_CONFLICT'' 409)) (\<lambda>_.
     raise_if (\<exists>n\<in>set approved. \<not> requires_tool_approval c n)
       (AppError ''INVALID_TOOL_APPROVAL'' 422)))))))"

definition frozen_sql_identity :: "cap_env \<Rightarrow> string list \<Rightarrow> string option result" where
  "frozen_sql_identity e allowed =
     (if ''delegate_sql'' \<in> set allowed
      then and_then (sql_connection_identity e) (\<lambda>i. Inr (Some i)) else Inr None)"

definition frozen_scope ::
    "cap_env \<Rightarrow> string option \<Rightarrow> search_mode \<Rightarrow> string list \<Rightarrow> cap_row \<Rightarrow> catalog \<Rightarrow> string list
     \<Rightarrow> string option \<Rightarrow> execution" where
  "frozen_scope e skill mode approved row c allowed sha =
     \<lparr>x_revision = cr_revision row, x_catalog = c, x_hash = cc_digest (ce_codec e) c,
      x_skill = skill, x_mode = mode, x_allowed = allowed, x_approved = sort approved,
      x_sql = (if ''delegate_sql'' \<in> set allowed then Some (sql_policy_of e c) else None),
      x_sql_sha = sha\<rparr>"

text \<open>The constructor \<open>CapabilityExecution(...)\<close> validates what it is given.\<close>

definition construct_execution :: "catalog_codec \<Rightarrow> execution \<Rightarrow> execution result" where
  "construct_execution cc x =
     (if execution_coherent cc x then Inr x else Inl (OtherError ''ValidationError''))"

lemma construct_execution_eq_Inr [result_simps]:
  "construct_execution cc x = Inr y \<longleftrightarrow> execution_coherent cc x \<and> y = x"
  by (auto simp: construct_execution_def)

definition freeze ::
    "cap_env \<Rightarrow> uuid \<Rightarrow> string option \<Rightarrow> search_mode \<Rightarrow> string option \<Rightarrow> string list \<Rightarrow> int option
     \<Rightarrow> cap_db \<Rightarrow> execution result" where
  "freeze e uid skill mode public_query approved approval_revision s =
     and_then (cap_require e) (\<lambda>_.
     and_then (cap_user uid False s) (\<lambda>u.
     and_then (read_catalog e s) (\<lambda>(row, c).
     and_then (check_approvals e (u_role u) (cr_revision row) c approved approval_revision) (\<lambda>_.
     and_then (raise_if (case skill of None \<Rightarrow> False | Some n \<Rightarrow> skill_reason e c (u_role u) n \<noteq> None)
                 (AppError ''SKILL_UNAVAILABLE'' 403)) (\<lambda>_.
     and_then (collect_tools e c (u_role u) mode (skill \<noteq> None)
                 (case public_query of None \<Rightarrow> False | Some q \<Rightarrow> q \<noteq> []) approved (candidates c skill) []) (\<lambda>allowed.
     and_then (raise_if (\<not> set approved \<subseteq> set allowed) (AppError ''INVALID_TOOL_APPROVAL'' 422)) (\<lambda>_.
     and_then (frozen_sql_identity e allowed) (\<lambda>sha.
     construct_execution (ce_codec e) (frozen_scope e skill mode approved row c allowed sha)))))))))"

definition scope_changed :: exn where
  "scope_changed = AppError ''CAPABILITY_SCOPE_CHANGED'' 409"

text \<open>Every condition of the \<open>try\<close> block; any failure of it is the scope error.\<close>

definition execution_valid ::
    "cap_env \<Rightarrow> uuid \<Rightarrow> execution \<Rightarrow> string option \<Rightarrow> cap_db \<Rightarrow> bool" where
  "execution_valid e uid x tool s =
     (ce_enabled e \<and> execution_coherent (ce_codec e) x \<and>
      (case cap_user uid False s of Inl _ \<Rightarrow> False | Inr u \<Rightarrow>
      \<not> (x_approved x \<noteq> [] \<and> (\<not> ce_approvals e \<or> u_role u \<noteq> RoleAdmin)) \<and>
      (case read_catalog e s of Inl _ \<Rightarrow> False | Inr (row, current) \<Rightarrow>
      (case row_get cv_revision (x_revision x) (cap_history s) of None \<Rightarrow> False | Some h \<Rightarrow>
         (case cv_catalog h of None \<Rightarrow> False
          | Some hc \<Rightarrow> catalog_coherent (ce_codec e) hc \<and> cc_digest (ce_codec e) hc = x_hash x)) \<and>
      (case x_skill x of None \<Rightarrow> True | Some n \<Rightarrow>
         skill_reason e (x_catalog x) (u_role u) n = None \<and> skill_reason e current (u_role u) n = None) \<and>
      (''delegate_sql'' \<in> set (x_allowed x) \<longrightarrow>
         sp_enabled (sql_policy_of e current) \<and>
         (case sql_connection_identity e of Inl _ \<Rightarrow> False | Inr i \<Rightarrow> x_sql_sha x = Some i) \<and>
         (case x_sql x of None \<Rightarrow> False
          | Some p \<Rightarrow> set (sp_tables p) \<subseteq> set (sp_tables (sql_policy_of e current)))) \<and>
      list_all (\<lambda>n. tool_reason e current (u_role u) n = None) (x_allowed x) \<and>
      list_all (\<lambda>n. requires_tool_approval current n \<longrightarrow> n \<in> set (x_approved x)) (x_allowed x) \<and>
      (case tool of None \<Rightarrow> True | Some n \<Rightarrow>
         n \<in> set (x_allowed x) \<and> tool_reason e (x_catalog x) (u_role u) n = None \<and>
         tool_reason e current (u_role u) n = None))))"

definition validate_execution ::
    "cap_env \<Rightarrow> uuid \<Rightarrow> execution \<Rightarrow> string option \<Rightarrow> cap_db \<Rightarrow> execution result" where
  "validate_execution e uid x tool s =
     (if execution_valid e uid x tool s then Inr x else Inl scope_changed)"

definition validate_approval ::
    "execution \<Rightarrow> tool_approval option \<Rightarrow> run_identity \<Rightarrow> tool_approval option result" where
  "validate_approval x approval i =
     (case validate_run_approval approval (x_approved x) (i\<lparr>id_hash := x_hash x\<rparr>) of
        Inl _ \<Rightarrow> Inl scope_changed | Inr g \<Rightarrow> Inr g)"

text \<open>\<open>describe_skill\<close>: the version, the instructions and the tools of a skill.\<close>

definition describe_skill ::
    "cap_env \<Rightarrow> uuid \<Rightarrow> string \<Rightarrow> execution option \<Rightarrow> cap_db \<Rightarrow> registered_skill result" where
  "describe_skill e uid name frozen s =
     and_then (cap_require e) (\<lambda>_.
     and_then (cap_user uid False s) (\<lambda>u.
     and_then (read_catalog e s) (\<lambda>(row, current).
     and_then (case frozen of None \<Rightarrow> Inr current
        | Some x \<Rightarrow> and_then (validate_execution e uid x None s) (\<lambda>x'.
            and_then (raise_if (case x_skill x' of None \<Rightarrow> False | Some n \<Rightarrow> n \<noteq> name)
                        (AppError ''TOOL_NOT_ALLOWED'' 403)) (\<lambda>_. Inr (x_catalog x')))) (\<lambda>c.
     and_then (raise_if (skill_reason e c (u_role u) name \<noteq> None \<or> skill_reason e current (u_role u) name \<noteq> None)
                 (AppError ''SKILL_UNAVAILABLE'' 403)) (\<lambda>_.
     require_row (skill_of c name) (OtherError ''KeyError''))))))"

text \<open>\<open>activation\<close>: the slash command at the start of a question.\<close>

definition activation ::
    "string \<Rightarrow> string option \<Rightarrow> bool \<Rightarrow> (string \<times> string option) result" where
  "activation question skill allow_empty =
     (let text = strip question in
      case text of
        [] \<Rightarrow> Inr (question, skill)
      | c # rest \<Rightarrow>
          if c \<noteq> CHR ''/'' then Inr (question, skill) else
          let word = takeWhile (\<lambda>x. lower_char x \<or> digit_char_p x \<or> x = CHR ''-'') rest;
              after = drop (length word) rest in
          if \<not> (\<forall>w\<in>set (split_on CHR ''-'' word). w \<noteq> []) \<or> \<not> (after = [] \<or> py_space (hd after))
             \<or> word = ''remember'' then Inr (question, skill)
          else if skill \<noteq> None \<and> skill \<noteq> Some word then Inl (AppError ''SKILL_ACTIVATION_CONFLICT'' 422)
          else let q = strip after in
            if q = [] \<and> \<not> allow_empty then Inl (AppError ''SKILL_QUERY_REQUIRED'' 422)
            else Inr (q, Some word))"

section \<open>Lemmas\<close>

definition admits ::
    "cap_env \<Rightarrow> catalog \<Rightarrow> platform_role \<Rightarrow> search_mode \<Rightarrow> bool \<Rightarrow> string list \<Rightarrow> string \<Rightarrow> bool" where
  "admits e c role mode has_query approved n \<longleftrightarrow>
     \<not> mode_excludes c mode n \<and> tool_reason e c role n = None \<and>
     (requires_tool_approval c n \<longrightarrow> n \<in> set approved) \<and> (tool_of c n \<noteq> None \<longrightarrow> has_query)"

lemma collect_tools_filter:
  "collect_tools e c role mode sk q approved names acc = Inr allowed \<Longrightarrow>
   allowed = acc @ filter (admits e c role mode q approved) names"
proof (induction names arbitrary: acc)
  case (Cons n names)
  show ?case
    using Cons.prems Cons.IH [of acc] Cons.IH [of "acc @ [n]"]
    by (simp add: admits_def split: if_splits)
qed simp

lemma collect_tools_no_validation_error:
  "collect_tools e c role mode sk q approved names acc \<noteq> Inl (OtherError z)"
  by (induction names arbitrary: acc) auto

lemma check_approvals_Inr:
  assumes "check_approvals e role rv c approved ar = Inr ()"
  shows "distinct approved \<and> (\<forall>n\<in>set approved. requires_tool_approval c n) \<and>
    (approved \<noteq> [] \<longrightarrow> ce_approvals e \<and> ce_chat_runs e \<and> role = RoleAdmin \<and> ar = Some rv)"
  using assms by (auto simp: check_approvals_def result_simps split: if_splits)

lemma read_catalog_Inr [dest]:
  "read_catalog e s = Inr (row, c) \<Longrightarrow>
   cap_config s = Some row \<and> cr_catalog row = Some c \<and> catalog_coherent (ce_codec e) c"
  by (auto simp: read_catalog_def split: option.splits if_splits)

lemma coherent_candidates:
  assumes "catalog_coherent cc c" "skill = None \<or> (\<exists>n r. skill = Some n \<and> skill_of c n = Some r)"
  shows "distinct (candidates c skill)"
    and "length (candidates c skill) \<le> 132"
    and "set (candidates c skill) \<subseteq> set (builtin_tools c) \<union> set (map fst (c_tools c))"
proof -
  have b: "distinct (builtin_tools c)" "length (builtin_tools c) \<le> 4"
    by (auto simp: builtin_tools_def BUILTIN_TOOLS_def SANDBOX_TOOL_def)
  have t: "length (c_tools c) \<le> 128" "distinct (map fst (c_tools c))"
    using assms(1) by (auto simp: catalog_coherent_def)
  have sk: "skill_ok (rs_decl r) \<and> set (sk_tools (rs_decl r)) \<subseteq> set (map fst (c_tools c)) \<union> set (builtin_tools c)"
    if "skill_of c n = Some r" for n r
  proof -
    from that have "(n, r) \<in> set (c_skills c)" by (simp add: skill_of_def map_of_SomeD)
    with coherent_skill [OF assms(1) this] show ?thesis by simp
  qed
  have "distinct (candidates c skill) \<and> length (candidates c skill) \<le> 132 \<and>
      set (candidates c skill) \<subseteq> set (builtin_tools c) \<union> set (map fst (c_tools c))"
  proof (cases skill)
    case None
    then show ?thesis using b t builtin_not_tool [OF assms(1)] by (simp add: candidates_def)
  next
    case (Some n)
    then obtain r where r: "skill_of c n = Some r" using assms(2) by auto
    then show ?thesis using sk [OF r] Some by (auto simp: candidates_def skill_ok_def)
  qed
  then show "distinct (candidates c skill)" "length (candidates c skill) \<le> 132"
    "set (candidates c skill) \<subseteq> set (builtin_tools c) \<union> set (map fst (c_tools c))"
    by blast+
qed

text \<open>What a frozen scope is made of.\<close>

lemma freeze_Inr:
  assumes "freeze e uid skill mode query approved ar s = Inr x"
  obtains u row c where "cap_user uid False s = Inr u" "read_catalog e s = Inr (row, c)"
    "check_approvals e (u_role u) (cr_revision row) c approved ar = Inr ()"
    "skill = None \<or> (\<exists>n. skill = Some n \<and> skill_reason e c (u_role u) n = None)"
    "x_allowed x = filter (admits e c (u_role u) mode (case query of None \<Rightarrow> False | Some q \<Rightarrow> q \<noteq> []) approved)
       (candidates c skill)"
    "set approved \<subseteq> set (x_allowed x)" "x_approved x = sort approved"
    "x_revision x = cr_revision row" "x_catalog x = c" "x_hash x = cc_digest (ce_codec e) c"
    "x_skill x = skill" "x_mode x = mode" "ce_enabled e" "execution_coherent (ce_codec e) x"
    "''delegate_sql'' \<in> set (x_allowed x) \<Longrightarrow>
       x_sql x = Some (sql_policy_of e c) \<and> x_sql_sha x \<noteq> None \<and> x_sql_sha x = ce_sql_identity e"
proof -
  obtain u row c allowed sha where
    basic: "ce_enabled e" "cap_user uid False s = Inr u" "read_catalog e s = Inr (row, c)"
    and ca: "check_approvals e (u_role u) (cr_revision row) c approved ar = Inr ()"
    and sr: "\<not> (case skill of None \<Rightarrow> False | Some n \<Rightarrow> skill_reason e c (u_role u) n \<noteq> None)"
    and co: "collect_tools e c (u_role u) mode (skill \<noteq> None)
        (case query of None \<Rightarrow> False | Some q \<Rightarrow> q \<noteq> []) approved (candidates c skill) [] = Inr allowed"
    and sub: "set approved \<subseteq> set allowed"
    and sha: "frozen_sql_identity e allowed = Inr sha"
    and coh: "execution_coherent (ce_codec e) x"
    and x: "x = frozen_scope e skill mode approved row c allowed sha"
    using assms unfolding freeze_def cap_require_def
    by (simp only: result_simps prod.case split_paired_Ex not_not) blast
  have sql: "sha = ce_sql_identity e \<and> sha \<noteq> None" if "''delegate_sql'' \<in> set allowed"
    using sha that by (auto simp: frozen_sql_identity_def sql_connection_identity_def result_simps)
  have fields: "x_allowed x = allowed" "x_approved x = sort approved" "x_revision x = cr_revision row"
    "x_catalog x = c" "x_hash x = cc_digest (ce_codec e) c" "x_skill x = skill" "x_mode x = mode"
    "x_sql x = (if ''delegate_sql'' \<in> set allowed then Some (sql_policy_of e c) else None)" "x_sql_sha x = sha"
    by (simp_all add: x frozen_scope_def)
  show thesis
  proof (rule that [of u row c])
    show "x_allowed x = filter (admits e c (u_role u) mode (case query of None \<Rightarrow> False | Some q \<Rightarrow> q \<noteq> []) approved)
       (candidates c skill)"
      using collect_tools_filter [OF co] fields(1) by simp
    show "skill = None \<or> (\<exists>n. skill = Some n \<and> skill_reason e c (u_role u) n = None)"
      using sr by (cases skill) auto
    show "x_sql x = Some (sql_policy_of e c) \<and> x_sql_sha x \<noteq> None \<and> x_sql_sha x = ce_sql_identity e"
      if "''delegate_sql'' \<in> set (x_allowed x)"
      using sql that fields by metis
  qed (use basic ca sub coh fields in \<open>simp_all\<close>)
qed

lemma tool_reason_sandbox:
  "tool_reason e c role SANDBOX_TOOL = None \<Longrightarrow> c_sandbox c = Some (v, p) \<Longrightarrow> sb_enabled p"
  by (auto simp: tool_reason_def split: if_splits)

lemma tool_reason_sql:
  "tool_reason e c role ''delegate_sql'' = None \<Longrightarrow> sp_enabled (sql_policy_of e c)"
  by (auto simp: tool_reason_def BUILTIN_TOOLS_def SANDBOX_TOOL_def split: if_splits)

lemma frozen_scope_coherent:
  assumes c: "catalog_coherent (ce_codec e) c" and hex: "hex64 (cc_digest (ce_codec e) c)"
    and rev: "1 \<le> cr_revision row" and dist: "distinct approved"
    and appr: "\<forall>n\<in>set approved. requires_tool_approval c n"
    and sk: "skill = None \<or> (\<exists>n r. skill = Some n \<and> skill_of c n = Some r)"
    and allowed: "allowed = filter (admits e c role mode q approved) (candidates c skill)"
    and sub: "set approved \<subseteq> set allowed"
    and sha: "''delegate_sql'' \<in> set allowed \<Longrightarrow> sha \<noteq> None"
  shows "execution_coherent (ce_codec e) (frozen_scope e skill mode approved row c allowed sha)"
proof -
  note cand = coherent_candidates [OF c sk]
  have la: "length allowed \<le> 132" using cand(2) unfolding allowed by (meson le_trans length_filter_le)
  have da: "distinct allowed" using cand(1) by (simp add: allowed)
  have lp: "length approved \<le> 129"
  proof -
    have "n = SANDBOX_TOOL \<or> n \<in> set (map fst (c_tools c))" if "requires_tool_approval c n" for n
      using that by (cases "tool_of c n")
        (auto simp: requires_tool_approval_def tool_of_def intro: rev_image_eqI dest!: map_of_SomeD)
    then have "set approved \<subseteq> set (SANDBOX_TOOL # map fst (c_tools c))"
      using appr by auto
    then have "card (set approved) \<le> card (set (SANDBOX_TOOL # map fst (c_tools c)))"
      by (rule card_mono [OF finite_set])
    also have "\<dots> \<le> Suc (length (c_tools c))"
      using card_length [of "SANDBOX_TOOL # map fst (c_tools c)"] by simp
    also have "\<dots> \<le> 129" using c by (simp add: catalog_coherent_def)
    finally show ?thesis using dist by (simp add: distinct_card)
  qed
  have req: "set approved = {n \<in> set allowed. requires_tool_approval c n}"
    using appr sub by (auto simp: allowed admits_def)
  have sand: "SANDBOX_TOOL \<in> set allowed \<longrightarrow> (case c_sandbox c of None \<Rightarrow> True | Some (_, p) \<Rightarrow> sb_enabled p)"
    by (auto simp: allowed admits_def split: option.splits dest: tool_reason_sandbox)
  have skl: "case skill of None \<Rightarrow> True | Some s \<Rightarrow> (case skill_of c s of
         None \<Rightarrow> True | Some r \<Rightarrow> set allowed \<subseteq> set (sk_tools (rs_decl r)))"
    by (auto simp: allowed candidates_def split: option.splits)
  have sql: "''delegate_sql'' \<in> set allowed \<Longrightarrow> sp_enabled (sql_policy_of e c)"
    by (auto simp: allowed admits_def dest: tool_reason_sql)
  have pol: "case c_sql c of None \<Rightarrow> True | Some (_, p) \<Rightarrow> Some (sql_policy_of e c) = Some p"
    by (auto simp: sql_policy_of_def split: option.splits)
  have mode: "\<forall>n\<in>set allowed. \<not> mode_excludes c mode n" by (auto simp: allowed admits_def)
  have known: "set allowed \<subseteq> set (builtin_tools c) \<union> set (map fst (c_tools c))"
    using cand(3) by (auto simp: allowed)
  have ske: "case skill of None \<Rightarrow> True | Some s \<Rightarrow> skill_of c s \<noteq> None" using sk by auto
  show ?thesis
    unfolding execution_coherent_def frozen_scope_def execution.select_convs
    using c hex rev la lp da known req dist mode sand skl sql sha pol ske
    by (cases "''delegate_sql'' \<in> set allowed")
       (simp_all only: set_sort length_sort distinct_sort simp_thms option.case if_True if_False ball_simps)
qed

lemma cap_user_error: "cap_user uid admin s = Inl err \<Longrightarrow> \<exists>code st. err = AppError code st"
  by (auto simp: cap_user_def split: option.splits if_splits)

lemma read_catalog_error: "read_catalog e s = Inl err \<Longrightarrow> \<exists>code st. err = AppError code st"
  by (auto simp: read_catalog_def split: option.splits if_splits)

lemma check_approvals_error:
  "check_approvals e role rv c approved ar = Inl err \<Longrightarrow> \<exists>code st. err = AppError code st"
  by (auto simp: check_approvals_def result_simps split: if_splits)

lemma collect_tools_error:
  "collect_tools e c role mode sk q approved names acc = Inl err \<Longrightarrow> \<exists>code st. err = AppError code st"
  by (induction names arbitrary: acc) (auto split: if_splits)

lemmas freeze_errors = cap_user_error read_catalog_error check_approvals_error collect_tools_error

lemma frozen_sql_error: "frozen_sql_identity e allowed = Inl err \<Longrightarrow> \<exists>code st. err = AppError code st"
  by (auto simp: frozen_sql_identity_def sql_connection_identity_def result_simps split: if_splits)

text \<open>Where a failure of \<open>freeze\<close> comes from.\<close>

lemma freeze_Inl:
  assumes "freeze e uid skill mode query approved ar s = Inl err"
    and app: "\<And>code st. err = AppError code st \<Longrightarrow> thesis"
    and built: "\<And>role row c allowed sha. read_catalog e s = Inr (row, c) \<Longrightarrow>
      check_approvals e role (cr_revision row) c approved ar = Inr () \<Longrightarrow>
      \<not> (case skill of None \<Rightarrow> False | Some n \<Rightarrow> skill_reason e c role n \<noteq> None) \<Longrightarrow>
      collect_tools e c role mode (skill \<noteq> None)
          (case query of None \<Rightarrow> False | Some q \<Rightarrow> q \<noteq> []) approved (candidates c skill) [] = Inr allowed \<Longrightarrow>
      set approved \<subseteq> set allowed \<Longrightarrow> frozen_sql_identity e allowed = Inr sha \<Longrightarrow>
      construct_execution (ce_codec e) (frozen_scope e skill mode approved row c allowed sha) = Inl err \<Longrightarrow> thesis"
  shows thesis
  using assms(1) unfolding freeze_def cap_require_def
  apply (simp only: result_simps prod.case split_paired_Ex not_not)
  apply (elim disjE exE conjE)
  apply ((erule app | (drule freeze_errors, elim exE, erule app) | (drule frozen_sql_error, elim exE, erule app)
     | (rule built, assumption+))+)
  done

section \<open>The catalog over time\<close>

text \<open>
  One step of the system: an administrator's change or runtime update (committed or rolled
  back), or a change of the accounts by another service.
\<close>

inductive cap_step :: "cap_env \<Rightarrow> cap_db \<Rightarrow> cap_db \<Rightarrow> bool" for e where
  change: "s' = snd (transaction (change_catalog e uid kind name expected decl del create) s) \<Longrightarrow> cap_step e s s'"
| runtime: "s' = snd (transaction (update_runtime e probe uid policy expected) s) \<Longrightarrow> cap_step e s s'"
| accounts: "s' = s\<lparr>cap_users := us\<rparr> \<Longrightarrow> cap_step e s s'"

definition cap_inv :: "cap_db \<Rightarrow> bool" where
  "cap_inv s \<longleftrightarrow> (case cap_config s of None \<Rightarrow> True | Some row \<Rightarrow>
     1 \<le> cr_revision row \<and> distinct (map cv_revision (cap_history s)) \<and>
     (\<forall>h\<in>set (cap_history s). cv_revision h \<le> cr_revision row) \<and>
     (\<exists>h\<in>set (cap_history s). cv_revision h = cr_revision row \<and> cv_catalog h = cr_catalog row))"

lemma change_committed:
  assumes "change_catalog e uid kind name expected decl del create s = Inr (r, s')"
  obtains row c updated operation where
    "read_catalog e s = Inr (row, c)" "cr_revision row = expected"
    "catalog_coherent (ce_codec e) updated"
    "s' = persist_catalog row uid updated operation (kind_str kind) name s"
    "r = Inr (cr_revision row + 1, updated)"
    "(del \<and> known_name kind name c \<and> updated = retire_name kind name c) \<or>
     (\<not> del \<and> \<not> retired_name kind name c \<and> decl \<noteq> None \<and> decl_matches kind name (the decl)
        \<and> updated = register_decl name (the decl) c)"
    "\<exists>u. cap_user uid True s = Inr u"
  using assms unfolding change_catalog_def cap_require_def
  by (cases del; cases decl)
     (auto simp: result_simps split: if_splits)

lemma runtime_committed:
  assumes "update_runtime e probe uid policy expected s = Inr (r, s')"
  obtains row c where
    "read_catalog e s = Inr (row, c)" "cr_revision row = expected"
    "catalog_coherent (ce_codec e) (set_runtime policy c)"
    "s' = persist_catalog row uid (set_runtime policy c) ''update'' ''runtime'' (runtime_name policy) s"
    "r = Inr (cr_revision row + 1, set_runtime policy c)"
  using assms unfolding update_runtime_def cap_require_def
  by (auto simp: result_simps)

lemma cap_inv_persist:
  assumes "cap_inv s" "cap_config s = Some row"
  shows "cap_inv (persist_catalog row uid c operation kind name s)"
  using assms by (force simp: cap_inv_def persist_catalog_def Let_def)

theorem cap_step_inv: "cap_step e s s' \<Longrightarrow> cap_inv s \<Longrightarrow> cap_inv s'"
proof (induction rule: cap_step.induct)
  case (change s' uid kind name expected decl del create s)
  have "cap_inv t" if "change_catalog e uid kind name expected decl del create s = Inr (r, t)" for r t
    using that change.prems by (elim change_committed) (auto intro: cap_inv_persist)
  with change show ?case by (auto intro: transaction_preserves)
next
  case (runtime s' probe uid policy expected s)
  have "cap_inv t" if "update_runtime e probe uid policy expected s = Inr (r, t)" for r t
    using that runtime.prems by (elim runtime_committed) (auto intro: cap_inv_persist)
  with runtime show ?case by (auto intro: transaction_preserves)
qed (simp add: cap_inv_def split: option.splits)

definition is_retired :: "cap_kind \<Rightarrow> string \<Rightarrow> cap_db \<Rightarrow> bool" where
  "is_retired kind name s \<longleftrightarrow> (\<exists>row c. cap_config s = Some row \<and> cr_catalog row = Some c \<and> retired_name kind name c)"

lemma retired_register: "retired_name k n (register_decl name d c) = retired_name k n c"
  by (cases d; cases k) (simp_all add: retired_name_def Let_def)

lemma retired_retire: "retired_name k n c \<Longrightarrow> retired_name k n (retire_name kind name c)"
  by (cases kind; cases k) (simp_all add: retired_name_def)

lemma retired_runtime: "retired_name k n (set_runtime policy c) = retired_name k n c"
  by (cases policy; cases k) (simp_all add: retired_name_def)

lemma is_retired_persist:
  "is_retired k n (persist_catalog row uid c operation kind name s) = retired_name k n c"
  by (simp add: is_retired_def persist_catalog_def Let_def)

lemma is_retired_read:
  "is_retired k n s \<Longrightarrow> read_catalog e s = Inr (row, c) \<Longrightarrow> retired_name k n c"
  by (auto simp: is_retired_def dest!: read_catalog_Inr)

lemma cap_step_retired: "cap_step e s s' \<Longrightarrow> is_retired k n s \<Longrightarrow> is_retired k n s'"
proof (induction rule: cap_step.induct)
  case (change s' uid kind name expected decl del create s)
  have "is_retired k n t" if "change_catalog e uid kind name expected decl del create s = Inr (r, t)" for r t
    using that change.prems
    by (elim change_committed)
       (auto simp: is_retired_persist retired_register intro: retired_retire dest: is_retired_read)
  with change show ?case by (auto intro: transaction_preserves)
next
  case (runtime s' probe uid policy expected s)
  have "is_retired k n t" if "update_runtime e probe uid policy expected s = Inr (r, t)" for r t
    using that runtime.prems
    by (elim runtime_committed)
       (auto simp: is_retired_persist retired_runtime dest: is_retired_read)
  with runtime show ?case by (auto intro: transaction_preserves)
qed (simp add: is_retired_def)

lemma coherent_retired_unknown:
  "catalog_coherent cc c \<Longrightarrow> retired_name k n c \<Longrightarrow> \<not> known_name k n c"
  by (cases k) (auto simp: catalog_coherent_def retired_name_def known_name_def skill_of_def tool_of_def
      dest!: map_of_SomeD)

section \<open>Properties\<close>

text \<open>A small deployment, for the witnesses.\<close>

definition demo_codec :: catalog_codec where
  "demo_codec = \<lparr>cc_bytes = (\<lambda>_. 100), cc_digest = (\<lambda>_. replicate 64 CHR ''a'')\<rparr>"

definition demo_env :: cap_env where
  "demo_env = \<lparr>ce_codec = demo_codec, ce_enabled = True, ce_chat_runs = True, ce_approvals = True,
     ce_sandbox = True, ce_sql_url = [], ce_sql_default = \<lparr>sp_enabled = False, sp_tables = [],
     sp_source = ''db'', sp_timeout = 5000000, sp_max_rows = 100\<rparr>, ce_secret_names = [],
     ce_environ = (\<lambda>_. True), ce_sql_identity = None\<rparr>"

definition demo_catalog :: catalog where
  "demo_catalog = \<lparr>c_skills = [], c_tools = [], c_retired_skills = [''old''], c_retired_tools = [],
     c_sql = None, c_web = None,
     c_sandbox = Some (1, \<lparr>sb_enabled = True, sb_image = ''img'', sb_limits = []\<rparr>)\<rparr>"

definition demo_caps :: cap_db where
  "demo_caps = \<lparr>cap_users = [\<lparr>u_id = 1, u_name = ''root'', u_password_hash = ''h'', u_role = RoleAdmin, u_active = True\<rparr>],
     cap_config = Some \<lparr>cr_revision = 3, cr_catalog = Some demo_catalog\<rparr>,
     cap_history = [\<lparr>cv_revision = 3, cv_catalog = Some demo_catalog, cv_by = None, cv_operation = ''update'',
       cv_kind = ''runtime'', cv_name = ''sandbox''\<rparr>]\<rparr>"

lemma hex64_demo: "hex64 (replicate 64 CHR ''a'')"
  by (simp add: hex64_def)

lemma demo_coherent: "catalog_coherent demo_codec demo_catalog"
  by (simp add: catalog_coherent_def demo_catalog_def demo_codec_def)

lemma demo_read: "read_catalog demo_env demo_caps = Inr (\<lparr>cr_revision = 3, cr_catalog = Some demo_catalog\<rparr>, demo_catalog)"
  using demo_coherent by (simp add: read_catalog_def demo_caps_def demo_env_def)

lemma demo_inv: "cap_inv demo_caps"
  by (simp add: cap_inv_def demo_caps_def)

lemma demo_freeze:
  "\<exists>x. freeze demo_env 1 None Auto None [SANDBOX_TOOL] (Some 3) demo_caps = Inr x
     \<and> x_allowed x = [''delegate_rag'', ''delegate_web'', SANDBOX_TOOL]"
proof -
  let ?row = "\<lparr>cr_revision = 3, cr_catalog = Some demo_catalog\<rparr>"
  let ?allowed = "[''delegate_rag'', ''delegate_web'', SANDBOX_TOOL]"
  have u: "cap_user 1 False demo_caps = Inr \<lparr>u_id = 1, u_name = ''root'', u_password_hash = ''h'', u_role = RoleAdmin, u_active = True\<rparr>"
    by (simp add: cap_user_def demo_caps_def)
  have req: "requires_tool_approval demo_catalog SANDBOX_TOOL"
    by (simp add: requires_tool_approval_def demo_catalog_def)
  have flt: "filter (admits demo_env demo_catalog RoleAdmin Auto False [SANDBOX_TOOL]) (candidates demo_catalog None) = ?allowed"
    by (simp add: candidates_def admits_def builtin_tools_def BUILTIN_TOOLS_def SANDBOX_TOOL_def demo_catalog_def
        demo_env_def mode_excludes_def tool_reason_def requires_tool_approval_def tool_of_def sql_policy_of_def)
  have col: "collect_tools demo_env demo_catalog RoleAdmin Auto False False [SANDBOX_TOOL] (candidates demo_catalog None) [] = Inr ?allowed"
    by (simp add: candidates_def builtin_tools_def BUILTIN_TOOLS_def SANDBOX_TOOL_def demo_catalog_def
        demo_env_def mode_excludes_def tool_reason_def requires_tool_approval_def tool_of_def sql_policy_of_def)
  have sql: "frozen_sql_identity demo_env ?allowed = Inr None"
    by (simp add: frozen_sql_identity_def SANDBOX_TOOL_def)
  have coh: "execution_coherent demo_codec (frozen_scope demo_env None Auto [SANDBOX_TOOL] ?row demo_catalog ?allowed None)"
  proof -
    have codec: "ce_codec demo_env = demo_codec" by (simp add: demo_env_def)
    have hex: "hex64 (cc_digest (ce_codec demo_env) demo_catalog)"
      by (simp add: demo_env_def demo_codec_def hex64_demo)
    show ?thesis
      unfolding codec [symmetric]
      by (rule frozen_scope_coherent [OF _ hex _ _ _ _ flt [symmetric]])
         (use req in \<open>simp_all add: codec demo_coherent SANDBOX_TOOL_def\<close>)
  qed
  have "freeze demo_env 1 None Auto None [SANDBOX_TOOL] (Some 3) demo_caps
      = Inr (frozen_scope demo_env None Auto [SANDBOX_TOOL] ?row demo_catalog ?allowed None)"
    using u col sql coh req demo_read
    by (simp add: freeze_def cap_require_def check_approvals_def construct_execution_def demo_env_def SANDBOX_TOOL_def)
  then show ?thesis by (simp add: frozen_scope_def)
qed

text \<open>
  Freezing a run's scope either gives a scope that satisfies every rule of the frozen
  model or fails with an application error; it never builds a scope its own validator
  rejects.
\<close>

lemma freeze_outcome:
  assumes "\<forall>c. hex64 (cc_digest (ce_codec e) c)"
    and "\<forall>row. cap_config s = Some row \<longrightarrow> 1 \<le> cr_revision row"
  shows "(\<exists>x. freeze e uid skill mode query approved ar s = Inr x \<and> execution_coherent (ce_codec e) x)
    \<or> (\<exists>code st. freeze e uid skill mode query approved ar s = Inl (AppError code st))"
proof (cases "freeze e uid skill mode query approved ar s")
  case (Inr x)
  then show ?thesis by (auto elim: freeze_Inr)
next
  case (Inl err)
  show ?thesis
  proof (rule freeze_Inl [OF Inl])
    fix code st assume "err = AppError code st"
    with Inl show ?thesis by simp
  next
    fix role row c allowed sha
    assume read: "read_catalog e s = Inr (row, c)"
      and ca: "check_approvals e role (cr_revision row) c approved ar = Inr ()"
      and sr: "\<not> (case skill of None \<Rightarrow> False | Some n \<Rightarrow> skill_reason e c role n \<noteq> None)"
      and co: "collect_tools e c role mode (skill \<noteq> None)
          (case query of None \<Rightarrow> False | Some q \<Rightarrow> q \<noteq> []) approved (candidates c skill) [] = Inr allowed"
      and sub: "set approved \<subseteq> set allowed" and sha: "frozen_sql_identity e allowed = Inr sha"
      and bad: "construct_execution (ce_codec e) (frozen_scope e skill mode approved row c allowed sha) = Inl err"
    have "skill = None \<or> (\<exists>n r. skill = Some n \<and> skill_of c n = Some r)"
      using sr by (cases skill) (auto simp: skill_reason_def split: option.splits)
    moreover have "''delegate_sql'' \<in> set allowed \<Longrightarrow> sha \<noteq> None"
      using sha by (auto simp: frozen_sql_identity_def result_simps)
    moreover have "allowed = filter (admits e c role mode (case query of None \<Rightarrow> False | Some q \<Rightarrow> q \<noteq> []) approved)
        (candidates c skill)"
      using collect_tools_filter [OF co] by simp
    ultimately have "execution_coherent (ce_codec e) (frozen_scope e skill mode approved row c allowed sha)"
      using assms read_catalog_Inr [OF read] check_approvals_Inr [OF ca] sub
      by (intro frozen_scope_coherent) auto
    with bad show ?thesis by (simp add: construct_execution_def)
  qed
qed

theorem freeze_outcome_witness:
  "\<exists>x. freeze demo_env 1 None Auto None [SANDBOX_TOOL] (Some 3) demo_caps = Inr x
     \<and> execution_coherent (ce_codec demo_env) x"
proof -
  have "\<forall>c. hex64 (cc_digest (ce_codec demo_env) c)"
    by (simp add: demo_env_def demo_codec_def hex64_demo)
  moreover have "\<forall>row. cap_config demo_caps = Some row \<longrightarrow> 1 \<le> cr_revision row"
    by (simp add: demo_caps_def)
  ultimately show ?thesis
    using freeze_outcome [of demo_env demo_caps 1 None Auto None "[SANDBOX_TOOL]" "Some 3"] demo_freeze by auto
qed

lemma freeze_execution_valid:
  assumes f: "freeze e uid skill mode query approved ar s = Inr x" and i: "cap_inv s"
    and t: "t = None \<or> (\<exists>n. t = Some n \<and> n \<in> set (x_allowed x))"
  shows "execution_valid e uid x t s"
proof -
  from f obtain u row c where
    u: "cap_user uid False s = Inr u" and read: "read_catalog e s = Inr (row, c)"
    and ca: "check_approvals e (u_role u) (cr_revision row) c approved ar = Inr ()"
    and sk: "skill = None \<or> (\<exists>n. skill = Some n \<and> skill_reason e c (u_role u) n = None)"
    and al: "x_allowed x = filter (admits e c (u_role u) mode (case query of None \<Rightarrow> False | Some q \<Rightarrow> q \<noteq> []) approved)
       (candidates c skill)"
    and ap: "x_approved x = sort approved"
    and x: "x_revision x = cr_revision row" "x_catalog x = c" "x_hash x = cc_digest (ce_codec e) c" "x_skill x = skill"
    and en: "ce_enabled e" "execution_coherent (ce_codec e) x"
    and sql: "''delegate_sql'' \<in> set (x_allowed x) \<Longrightarrow>
       x_sql x = Some (sql_policy_of e c) \<and> x_sql_sha x \<noteq> None \<and> x_sql_sha x = ce_sql_identity e"
    by (rule freeze_Inr) blast
  have cfg: "cap_config s = Some row" "cr_catalog row = Some c" "catalog_coherent (ce_codec e) c"
    using read_catalog_Inr [OF read] by auto
  obtain h where h: "row_get cv_revision (cr_revision row) (cap_history s) = Some h" "cv_catalog h = Some c"
    using i cfg row_get_distinct [of cv_revision "cap_history s"]
    by (simp add: cap_inv_def) (metis)
  have tools: "tool_reason e c (u_role u) n = None" "requires_tool_approval c n \<Longrightarrow> n \<in> set approved"
    if "n \<in> set (x_allowed x)" for n
    using that al by (auto simp: admits_def)
  have adm: "x_approved x \<noteq> [] \<Longrightarrow> ce_approvals e \<and> u_role u = RoleAdmin"
    using check_approvals_Inr [OF ca] ap by auto
  have sqlp: "''delegate_sql'' \<in> set (x_allowed x) \<Longrightarrow> sp_enabled (sql_policy_of e c)"
    using tools(1) tool_reason_sql by blast
  have sqli: "''delegate_sql'' \<in> set (x_allowed x) \<Longrightarrow> \<exists>i. sql_connection_identity e = Inr i \<and> x_sql_sha x = Some i"
    using sql by (cases "ce_sql_identity e") (auto simp: sql_connection_identity_def)
  show ?thesis
    unfolding execution_valid_def u read sum.case prod.case x h option.case
    using t en h cfg tools adm sqlp sqli sql sk ap by (auto simp: x list_all_iff split: option.splits)
qed

text \<open>
  C25: what \<open>freeze\<close> hands to a run, the check before every later call accepts while nothing has
  changed, for the run as a whole and for each tool of its scope.
\<close>

theorem freeze_then_validate:
  assumes "freeze e uid skill mode query approved ar s = Inr x" and "cap_inv s"
  shows "validate_execution e uid x None s = Inr x \<and>
    (\<forall>n\<in>set (x_allowed x). validate_execution e uid x (Some n) s = Inr x)"
  using freeze_execution_valid [OF assms] by (simp add: validate_execution_def)

theorem freeze_then_validate_witness:
  "\<exists>x. freeze demo_env 1 None Auto None [SANDBOX_TOOL] (Some 3) demo_caps = Inr x \<and>
     validate_execution demo_env 1 x (Some SANDBOX_TOOL) demo_caps = Inr x"
proof -
  obtain x where f: "freeze demo_env 1 None Auto None [SANDBOX_TOOL] (Some 3) demo_caps = Inr x"
    and m: "SANDBOX_TOOL \<in> set (x_allowed x)"
    using demo_freeze by auto
  with freeze_then_validate [OF f demo_inv] show ?thesis by auto
qed

text \<open>
  C32: at every accepted check, a tool of the run's scope that needs approval in the current
  catalog was approved for this run, the account is an active platform administrator now,
  and approvals are switched on now. Revoking any of the three stops the run's calls.
\<close>

theorem approval_guard:
  assumes "validate_execution e uid x t s = Inr y" and "n \<in> set (x_allowed x)"
    and "read_catalog e s = Inr (row, c)" and "requires_tool_approval c n"
  shows "n \<in> set (x_approved x) \<and> ce_approvals e \<and>
    (\<exists>u. cap_user uid False s = Inr u \<and> u_active u \<and> u_role u = RoleAdmin)"
proof -
  have v: "execution_valid e uid x t s" using assms(1) by (simp add: validate_execution_def split: if_splits)
  then obtain u where u: "cap_user uid False s = Inr u"
    by (auto simp: execution_valid_def split: sum.splits)
  then have "u_active u" by (auto simp: cap_user_def split: option.splits if_splits)
  moreover have "n \<in> set (x_approved x)"
    using v u assms(2-4) by (auto simp: execution_valid_def list_all_iff)
  moreover from this have "ce_approvals e \<and> u_role u = RoleAdmin"
    using v u by (auto simp: execution_valid_def)
  ultimately show ?thesis using u by auto
qed

theorem approval_guard_witness:
  "\<exists>x. freeze demo_env 1 None Auto None [SANDBOX_TOOL] (Some 3) demo_caps = Inr x \<and>
     SANDBOX_TOOL \<in> set (x_approved x)"
proof -
  obtain x where f: "freeze demo_env 1 None Auto None [SANDBOX_TOOL] (Some 3) demo_caps = Inr x"
    and m: "SANDBOX_TOOL \<in> set (x_allowed x)"
    using demo_freeze by auto
  have v: "validate_execution demo_env 1 x None demo_caps = Inr x"
    using freeze_execution_valid [OF f demo_inv, of None] by (simp add: validate_execution_def)
  have "requires_tool_approval demo_catalog SANDBOX_TOOL"
    by (simp add: requires_tool_approval_def demo_catalog_def)
  with approval_guard [OF v m demo_read] f show ?thesis by blast
qed

text \<open>
  C33: a retired identity stays retired through every later change of the catalog, and no
  catalog that can be read afterwards knows a live skill or tool of that name.
\<close>

theorem retired_forever:
  assumes "(cap_step e)\<^sup>*\<^sup>* s s'" and "is_retired kind name s" and "read_catalog e s' = Inr (row, c)"
  shows "retired_name kind name c \<and> \<not> known_name kind name c"
proof -
  from assms(1,2) have "is_retired kind name s'"
    by (induction rule: rtranclp_induct) (auto intro: cap_step_retired)
  then have "retired_name kind name c" using assms(3) by (rule is_retired_read)
  then show ?thesis using read_catalog_Inr [OF assms(3)] coherent_retired_unknown by blast
qed

theorem retired_forever_witness:
  "retired_name KSkills ''old'' demo_catalog \<and> \<not> known_name KSkills ''old'' demo_catalog"
proof -
  let ?s' = "demo_caps\<lparr>cap_users := []\<rparr>"
  have "(cap_step demo_env)\<^sup>*\<^sup>* demo_caps ?s'"
    by (rule r_into_rtranclp) (rule cap_step.accounts, rule refl)
  moreover have "is_retired KSkills ''old'' demo_caps"
    by (simp add: is_retired_def demo_caps_def demo_catalog_def retired_name_def)
  moreover have "read_catalog demo_env ?s' = Inr (\<lparr>cr_revision = 3, cr_catalog = Some demo_catalog\<rparr>, demo_catalog)"
    using demo_read by (simp add: read_catalog_def)
  ultimately show ?thesis by (rule retired_forever)
qed

text \<open>
  An accepted approval belongs to exactly this run: its user, session, run, organization
  and catalog digest are the run's own, and it names exactly the tools approved in the
  frozen scope. An approval of another run is never accepted.
\<close>

lemma approval_bound_to_run:
  assumes "validate_approval x (Some g) i = Inr r"
  shows "ap_user g = id_user i \<and> ap_session g = id_session i \<and> ap_run g = id_run i \<and>
    ap_org g = id_org i \<and> ap_hash g = x_hash x \<and> set (ap_tools g) = set (x_approved x)"
proof -
  from assms obtain r' where "validate_run_approval (Some g) (x_approved x) (i\<lparr>id_hash := x_hash x\<rparr>) = Inr r'"
    by (auto simp: validate_approval_def split: sum.splits)
  from validate_run_approval_bound [OF this] validate_run_approval_Some [OF this] show ?thesis by simp
qed

definition demo_grant :: tool_approval where
  "demo_grant = \<lparr>ap_user = 1, ap_session = 2, ap_run = 3, ap_org = None,
     ap_hash = replicate 64 CHR ''a'', ap_tools = [SANDBOX_TOOL]\<rparr>"

theorem approval_bound_to_run_witness:
  "\<exists>x. validate_approval x (Some demo_grant) \<lparr>id_user = 1, id_session = 2, id_run = 3, id_org = None, id_hash = []\<rparr>
     = Inr (Some demo_grant) \<and> ap_run demo_grant = 3 \<and> set (x_approved x) = {SANDBOX_TOOL}"
proof -
  let ?i = "\<lparr>id_user = 1, id_session = 2, id_run = 3, id_org = None, id_hash = []\<rparr>"
  obtain x where f: "freeze demo_env 1 None Auto None [SANDBOX_TOOL] (Some 3) demo_caps = Inr x"
    using demo_freeze by auto
  then have h: "x_hash x = replicate 64 CHR ''a''" "x_approved x = [SANDBOX_TOOL]"
    by (auto elim!: freeze_Inr simp: demo_env_def demo_codec_def)
  have v: "validate_approval x (Some demo_grant) ?i = Inr (Some demo_grant)"
    using hex64_demo by (simp add: validate_approval_def validate_run_approval_def demo_grant_def h unique_tools_def allows_def)
  with approval_bound_to_run [OF v] show ?thesis by (auto simp: demo_grant_def)
qed

end
