(* ===== verification/PublicQuery.thy ===== *)
theory PublicQuery
  imports Capabilities
begin

text \<open>
  What may leave for a public search service: \<open>prepare_public_query\<close> of
  \<open>src/app/service/chat.py\<close> and the pattern \<open>_SENSITIVE_PUBLIC_QUERY\<close> that blocks a query
  holding a connection string, a private key, a bearer token or a credential. The pattern's
  four alternatives are searched at every position; \<open>prev\<close> is the character in front of
  the position, for \<open>\b\<close>.
\<close>

record agent_input =
  in_question :: string
  in_mode :: search_mode
  in_documents :: "uuid list option"
  in_web_query :: "string option"
  in_provider :: "string option"
  in_urls :: "string list"
  in_kbs :: "uuid list"
  in_profile :: "string option"
  in_skill :: "string option"
  in_approved :: "string list"
  in_approval_revision :: "int option"

definition plain_input :: "string \<Rightarrow> search_mode \<Rightarrow> agent_input" where
  "plain_input q mode = \<lparr>in_question = q, in_mode = mode, in_documents = None, in_web_query = None,
     in_provider = None, in_urls = [], in_kbs = [], in_profile = None, in_skill = None,
     in_approved = [], in_approval_revision = None\<rparr>"

text \<open>\<open>\w\<close> for the characters up to U+00FF.\<close>

definition word_char :: "char \<Rightarrow> bool" where
  "word_char c = (let n = (of_char c :: nat) in
     lower_char c \<or> upper_char c \<or> digit_char_p c \<or> c = CHR ''_'' \<or>
     n \<in> {170, 178, 179, 181, 185, 186, 188, 189, 190} \<or> 192 \<le> n \<and> n \<noteq> 215 \<and> n \<noteq> 247)"

definition boundary :: "char option \<Rightarrow> string \<Rightarrow> bool" where
  "boundary prev s =
     ((case prev of None \<Rightarrow> False | Some c \<Rightarrow> word_char c) \<noteq>
      (case s of [] \<Rightarrow> False | c # _ \<Rightarrow> word_char c))"

definition url_schemes :: "string list" where
  "url_schemes = [''postgres://'', ''postgresql://'', ''mysql://'', ''mongodb://'', ''mongodb+srv://'',
     ''redis://'']"

definition credential_names :: "string list" where
  "credential_names = [''apikey'', ''api_key'', ''api-key'', ''accesstoken'', ''access_token'', ''access-token'',
     ''secret'', ''password'']"

definition private_key_at :: "string \<Rightarrow> bool" where
  "private_key_at s =
     (let pre = ''-----begin ''; rest = drop (length pre) s in
      prefix pre (to_lower s) \<and>
      list_ex (\<lambda>k. prefix ''private key-----'' (to_lower (drop k rest)))
        [0..<Suc (length (takeWhile (\<lambda>c. lower_char c \<or> upper_char c \<or> c = CHR '' '') rest))])"

definition bearer_at :: "char option \<Rightarrow> string \<Rightarrow> bool" where
  "bearer_at prev s =
     (let rest = drop 6 s; body = dropWhile py_space rest in
      boundary prev s \<and> prefix ''bearer'' (to_lower s) \<and>
      (case rest of [] \<Rightarrow> False | c # _ \<Rightarrow> py_space c) \<and>
      16 \<le> length (takeWhile (\<lambda>c. lower_char c \<or> upper_char c \<or> digit_char_p c \<or> c \<in> set ''._~+/=-'') body))"

definition credential_at :: "char option \<Rightarrow> string \<Rightarrow> bool" where
  "credential_at prev s =
     (boundary prev s \<and>
      list_ex (\<lambda>name. prefix name (to_lower s) \<and>
         (case dropWhile py_space (drop (length name) s) of
            [] \<Rightarrow> False
          | c # rest \<Rightarrow> c \<in> set '':='' \<and>
              8 \<le> length (takeWhile (\<lambda>c. \<not> py_space c) (dropWhile py_space rest))))
        credential_names)"

fun sensitive_from :: "char option \<Rightarrow> string \<Rightarrow> bool" where
  "sensitive_from prev [] = False"
| "sensitive_from prev (c # s) =
     (list_ex (\<lambda>u. prefix u (to_lower (c # s))) url_schemes \<or> private_key_at (c # s) \<or>
      bearer_at prev (c # s) \<or> credential_at prev (c # s) \<or> sensitive_from (Some c) s)"

definition sensitive_public_query :: "string \<Rightarrow> bool" where
  "sensitive_public_query q = sensitive_from None q"

text \<open>The query to publish, whether the web is enabled, and the warnings.\<close>

definition prepare_public_query ::
    "agent_input \<Rightarrow> bool \<Rightarrow> (string option \<times> bool \<times> string list) result" where
  "prepare_public_query p web =
     (if in_mode p = Knowledge \<or> in_mode p = Sql then Inr (None, False, [])
      else
        let query = strip (case in_web_query p of Some q \<Rightarrow> if q = [] then in_question p else q
                           | None \<Rightarrow> in_question p);
            blocked = 400 < length query \<or> sensitive_public_query query
        in if in_urls p \<noteq> [] \<and> in_web_query p = None then Inr (None, web, [])
           else if in_mode p = Web then
             (if blocked then Inl (AppError ''WEB_QUERY_REQUIRED'' 422) else Inr (Some query, web, []))
           else if blocked then Inr (None, False, [''WEB_QUERY_BLOCKED''])
           else Inr (Some query, web, if web then [] else [''WEB_SEARCH_DISABLED'']))"

text \<open>Whatever is published is at most 400 characters long and matches no blocked pattern.\<close>

lemma prepare_public_query_safe:
  "prepare_public_query p web = Inr (Some q, w, ws) \<Longrightarrow>
   length q \<le> 400 \<and> \<not> sensitive_public_query q \<and> (in_mode p = Web \<or> in_mode p = Auto)"
  by (cases "in_mode p") (auto simp: prepare_public_query_def Let_def split: if_splits)

lemma prepare_public_query_plain:
  "prepare_public_query (plain_input q Web) web =
     (if 400 < length (strip q) \<or> sensitive_public_query (strip q)
      then Inl (AppError ''WEB_QUERY_REQUIRED'' 422) else Inr (Some (strip q), web, []))"
  by (simp add: prepare_public_query_def plain_input_def Let_def)

end
