(* ===== verification/Runs.thy ===== *)
theory Runs
  imports CapabilityService PublicQuery
begin

text \<open>
  The durable runs of \<open>src/app/service/runs.py\<close> with the queries of
  \<open>src/app/dao/queries/runs.py\<close>: creation under an idempotency key, the journal of public
  events with its outbox, leases with fencing tokens, cancellation, human pauses and
  resumes, checkpoints, and the receipts of the calls a run makes.

  Every operation is one transaction over \<open>db\<close>. It takes its clock reads from \<open>clk\<close> in the
  order of the code; a read that a branch skips leaves its index unused. A fresh \<open>uuid4()\<close>
  is an argument. A \<open>LIMIT\<close> without \<open>ORDER BY\<close> takes the first rows of the table.
  \<open>re_text\<close> gives the user-facing text of an error code, which the journal stores;
  \<open>re_decode\<close> and \<open>re_approval\<close> are pydantic's reading of a frozen scope and of an approval.
\<close>

record run_env =
  re_kind :: run_kind
  re_timeout :: time
  re_queue_limit :: int
  re_lease :: time
  re_wait :: time
  re_sandbox :: bool
  re_sha256 :: "string \<Rightarrow> string"
  re_text :: "string \<Rightarrow> string"
  re_decode :: "json \<Rightarrow> execution option"
  re_approval :: "json \<Rightarrow> tool_approval option"

record run_claim =
  cl_run :: uuid
  cl_user :: uuid
  cl_token :: uuid
  cl_generation :: int

definition seconds :: "int \<Rightarrow> time" where
  "seconds n = n * 1000000"

definition active_states :: "run_state list" where
  "active_states = [Queued, Running, Waiting, Cancelling]"

definition terminal_states :: "run_state list" where
  "terminal_states = [Cancelled, Succeeded, Failed, Interrupted]"

fun run_state_str :: "run_state \<Rightarrow> string" where
  "run_state_str Queued = ''queued''"
| "run_state_str Running = ''running''"
| "run_state_str Waiting = ''waiting''"
| "run_state_str Cancelling = ''cancelling''"
| "run_state_str Cancelled = ''cancelled''"
| "run_state_str Succeeded = ''succeeded''"
| "run_state_str Failed = ''failed''"
| "run_state_str Interrupted = ''interrupted''"

definition lease_lost :: exn where
  "lease_lost = AppError ''RUN_LEASE_LOST'' 409"

definition diverged :: exn where
  "diverged = AppError ''RUN_CHECKPOINT_DIVERGED'' 409"

definition agent_timeout_error :: exn where
  "agent_timeout_error = AppError ''AGENT_TIMEOUT'' 504"

definition event_limit :: exn where
  "event_limit = AppError ''RUN_EVENT_LIMIT'' 413"

definition integrity_error :: exn where
  "integrity_error = OtherError ''IntegrityError''"

section \<open>Rows and queries\<close>

definition get_run_of :: "run_kind \<Rightarrow> uuid \<Rightarrow> uuid \<Rightarrow> db \<Rightarrow> chat_run option" where
  "get_run_of kind uid rid d =
     find (\<lambda>r. r_id r = rid \<and> r_user r = uid \<and> r_kind r = kind) (runs d)"

definition find_idempotent_run :: "uuid \<Rightarrow> uuid \<Rightarrow> db \<Rightarrow> chat_run option" where
  "find_idempotent_run key uid d = find (\<lambda>r. r_user r = uid \<and> r_client_key r = key) (runs d)"

definition active_session_run :: "uuid \<Rightarrow> db \<Rightarrow> chat_run option" where
  "active_session_run sid d = find (\<lambda>r. r_session r = sid \<and> r_state r \<in> set active_states) (runs d)"

definition count_active_runs :: "run_kind \<Rightarrow> uuid \<Rightarrow> db \<Rightarrow> int" where
  "count_active_runs kind uid d =
     int (length (filter (\<lambda>r. r_user r = uid \<and> r_kind r = kind \<and> r_state r \<in> set active_states) (runs d)))"

definition list_events_after :: "int \<Rightarrow> uuid \<Rightarrow> db \<Rightarrow> run_event list" where
  "list_events_after after rid d =
     take 100 (sort_key ev_sequence (filter (\<lambda>v. ev_run v = rid \<and> after < ev_sequence v) (events d)))"

definition lock_expired_cancellations :: "time \<Rightarrow> run_kind \<Rightarrow> db \<Rightarrow> chat_run list" where
  "lock_expired_cancellations now kind d =
     take 10 (filter (\<lambda>r. r_kind r = kind \<and> r_state r = Cancelling \<and>
        ((case r_lease r of None \<Rightarrow> False | Some l \<Rightarrow> l \<le> now) \<or> r_owner r = None)) (runs d))"

definition lock_expired_waiting_runs :: "time \<Rightarrow> run_kind \<Rightarrow> db \<Rightarrow> chat_run list" where
  "lock_expired_waiting_runs now kind d =
     take 10 (filter (\<lambda>r. r_kind r = kind \<and> r_state r = Waiting \<and> r_expires r \<le> now) (runs d))"

definition claimable :: "time \<Rightarrow> run_kind \<Rightarrow> chat_run \<Rightarrow> bool" where
  "claimable now kind r =
     (r_kind r = kind \<and>
      (r_state r = Queued \<and> (case r_lease r of None \<Rightarrow> True | Some l \<Rightarrow> l \<le> now) \<or>
       r_state r = Running \<and> 0 < r_generation r \<and> (case r_lease r of None \<Rightarrow> False | Some l \<Rightarrow> l \<le> now)))"

text \<open>Ordered by creation time, then by id: a stable sort by id, then by creation time.\<close>

definition lock_next_run :: "time \<Rightarrow> uuid option \<Rightarrow> run_kind \<Rightarrow> db \<Rightarrow> chat_run option" where
  "lock_next_run now rid kind d =
     (case sort_key r_created (sort_key r_id (filter (\<lambda>r. claimable now kind r \<and>
         (case rid of None \<Rightarrow> True | Some i \<Rightarrow> r_id r = i)) (runs d))) of
        [] \<Rightarrow> None | r # _ \<Rightarrow> Some r)"

definition operation_count :: "uuid \<Rightarrow> db \<Rightarrow> int" where
  "operation_count rid d = int (length (filter (\<lambda>x. op_run x = rid) (operations d)))"

definition operation_artifacts :: "string \<Rightarrow> uuid \<Rightarrow> db \<Rightarrow> run_artifact list" where
  "operation_artifacts key rid d =
     sort_key a_name (filter (\<lambda>a. a_run a = rid \<and> a_op_key a = key) (artifacts d))"

text \<open>\<open>get_row\<close> with \<open>authorize\<close>; \<open>guard\<close>.\<close>

definition get_row :: "run_env \<Rightarrow> uuid \<Rightarrow> uuid \<Rightarrow> bool \<Rightarrow> db \<Rightarrow> chat_run result" where
  "get_row e uid rid authorize d =
     and_then (require_row (get_run_of (re_kind e) uid rid d) not_found) (\<lambda>r.
     and_then (if authorize then and_then (chat_session_of uid (r_session r) None d) (\<lambda>_. Inr ()) else Inr ())
       (\<lambda>_. Inr r))"

definition guard :: "run_env \<Rightarrow> uuid \<Rightarrow> uuid \<Rightarrow> time \<Rightarrow> db \<Rightarrow> chat_run result" where
  "guard e uid rid now d =
     and_then (get_row e uid rid True d) (\<lambda>r.
     and_then (raise_if (r_state r \<noteq> Running \<or> r_expires r \<le> now) (AppError ''RUN_INTERRUPTED'' 409))
       (\<lambda>_. Inr r))"

text \<open>\<open>public_input_allowed\<close>: a frozen scope that uses a registered HTTP tool.\<close>

definition capability_snapshot :: "chat_run \<Rightarrow> json option" where
  "capability_snapshot r = (case dict_get (sub_dict (r_snapshot r) ''context'') ''capability_snapshot'' of
     Some JNull \<Rightarrow> None | x \<Rightarrow> x)"

definition public_input_allowed :: "run_env \<Rightarrow> chat_run \<Rightarrow> bool" where
  "public_input_allowed e r = (case capability_snapshot r of
     None \<Rightarrow> False
   | Some frozen \<Rightarrow> (case re_decode e frozen of
       None \<Rightarrow> False
     | Some x \<Rightarrow> list_ex (\<lambda>name. tool_of (x_catalog x) name \<noteq> None) (x_allowed x)))"

section \<open>The journal\<close>

text \<open>
  \<open>_event\<close>: the payload with its bookkeeping keys, the budget of a run's journal, the event
  row and its outbox row. \<open>at\<close> is \<open>datetime.now\<close>. The room above the limits of an ordinary
  event is kept for terminal ones.
\<close>

definition event_payload :: "chat_run \<Rightarrow> dict \<Rightarrow> time \<Rightarrow> dict" where
  "event_payload r data at = dict_update data
     [(''recorded_at'', JStr (isoformat at)), (''run_id'', JStr (uuid_str (r_id r))),
      (''sequence'', JInt (r_sequence r + 1))]"

definition payload_size :: "dict \<Rightarrow> int" where
  "payload_size p = int (utf8_len (dumps False (JObj p)))"

definition over_budget :: "chat_run \<Rightarrow> int \<Rightarrow> bool \<Rightarrow> bool" where
  "over_budget r sz terminal =
     (2000000 < sz \<or> (if terminal then 8200 else 8192) \<le> r_sequence r \<or>
      (if terminal then 8000000 else 6000000) < r_bytes r + sz)"

definition count_event :: "chat_run \<Rightarrow> int \<Rightarrow> chat_run" where
  "count_event r sz = r\<lparr>r_sequence := r_sequence r + 1, r_bytes := r_bytes r + sz\<rparr>"

definition ob_pk :: "event_outbox \<Rightarrow> uuid \<times> int" where
  "ob_pk x = (ob_run x, ob_sequence x)"

definition journal_insert :: "run_event \<Rightarrow> db \<Rightarrow> db result" where
  "journal_insert ev d =
     and_then (row_insert event_pk ev (events d)) (\<lambda>evs.
     and_then (row_insert ob_pk \<lparr>ob_run = ev_run ev, ob_sequence = ev_sequence ev, ob_dispatched = None\<rparr>
         (outbox d)) (\<lambda>obs. Inr (d\<lparr>events := evs, outbox := obs\<rparr>)))"

definition emit_event :: "chat_run \<Rightarrow> string \<Rightarrow> dict \<Rightarrow> bool \<Rightarrow> time \<Rightarrow> db \<Rightarrow> (chat_run \<times> db) result" where
  "emit_event r name data terminal at d =
     (let payload = event_payload r data at; sz = payload_size payload; r' = count_event r sz in
      and_then (raise_if (over_budget r sz terminal) event_limit) (\<lambda>_.
      and_then (journal_insert \<lparr>ev_run = r_id r, ev_sequence = r_sequence r + 1, ev_event = name,
           ev_payload = payload\<rparr> (put_run r' d)) (\<lambda>d'. Inr (r', d'))))"

text \<open>\<open>message_state\<close>: the run's assistant message carries the run's state.\<close>

definition own_message :: "chat_run \<Rightarrow> chat_message \<Rightarrow> bool" where
  "own_message r m = (msg_user m = r_user r \<and> msg_session m = r_session r \<and> msg_role m = MsgAssistant)"

definition message_state :: "chat_run \<Rightarrow> db \<Rightarrow> db" where
  "message_state r d =
     (case r_message r of
        None \<Rightarrow> d
      | Some mid \<Rightarrow>
          if r_snapshot r = [] then d
          else (case get_message mid d of
             None \<Rightarrow> d
           | Some m \<Rightarrow>
               if own_message r m
               then d\<lparr>messages := row_put msg_id (m\<lparr>msg_metadata := Some (dict_update
                   (case msg_metadata m of None \<Rightarrow> [] | Some x \<Rightarrow> x)
                   [(''run_id'', JStr (uuid_str (r_id r))), (''state'', JStr (run_state_str (r_state r)))])\<rparr>)
                   (messages d)\<rparr>
               else d))"

text \<open>The row and its message after a change of state.\<close>

definition settle :: "chat_run \<Rightarrow> db \<Rightarrow> db" where
  "settle r d = message_state r (put_run r d)"

definition error_data :: "run_env \<Rightarrow> string \<Rightarrow> nat \<Rightarrow> dict" where
  "error_data e code status = [(''code'', JStr code), (''message'', JStr (re_text e code)),
     (''status'', JInt (int status))]"

definition expire :: "run_env \<Rightarrow> chat_run \<Rightarrow> time \<Rightarrow> time \<Rightarrow> db \<Rightarrow> (chat_run \<times> db) result" where
  "expire e r now at d =
     (if r_state r = Waiting \<and> r_expires r \<le> now then
        and_then (emit_event r ''error'' (error_data e ''HITL_EXPIRED'' 409) True at d) (\<lambda>(r1, d1).
          let r2 = r1\<lparr>r_state := Interrupted, r_resume := None\<rparr> in Inr (r2, settle r2 d1))
      else if r_state r = Running \<and> r_generation r = 0 \<and> r_expires r \<le> now then
        and_then (emit_event r ''error'' (error_data e ''RUN_INTERRUPTED'' 409) True at d) (\<lambda>(r1, d1).
          let r2 = r1\<lparr>r_state := Interrupted\<rparr> in Inr (r2, put_run r2 d1))
      else Inr (r, d))"

section \<open>Creation\<close>

fun mode_str :: "search_mode \<Rightarrow> string" where
  "mode_str Knowledge = ''knowledge''"
| "mode_str Web = ''web''"
| "mode_str Sql = ''sql''"
| "mode_str Auto = ''auto''"

definition uuids_json :: "uuid list \<Rightarrow> json" where
  "uuids_json ids = JArr (map (\<lambda>i. JStr (uuid_str i)) ids)"

text \<open>\<open>asdict(payload)\<close> with the UUIDs as the encoder writes them.\<close>

definition input_dict :: "agent_input \<Rightarrow> dict" where
  "input_dict p =
     [(''question'', JStr (in_question p)), (''search_mode'', JStr (mode_str (in_mode p))),
      (''document_ids'', case in_documents p of None \<Rightarrow> JNull | Some ids \<Rightarrow> uuids_json ids),
      (''web_query'', opt_str (in_web_query p)), (''model_provider'', opt_str (in_provider p)),
      (''web_urls'', JArr (map JStr (in_urls p))), (''knowledge_base_ids'', uuids_json (in_kbs p)),
      (''model_profile_id'', opt_str (in_profile p)), (''skill_name'', opt_str (in_skill p)),
      (''approved_tools'', JArr (map JStr (in_approved p))),
      (''approval_catalog_revision'', opt_int (in_approval_revision p))]"

text \<open>The keys that an absent optional field leaves out of a request's identity.\<close>

definition run_inputs :: "agent_input \<Rightarrow> dict" where
  "run_inputs p =
     (let i0 = input_dict p;
          i1 = (if in_profile p = None then dict_pop ''model_profile_id'' i0 else i0);
          i2 = (if in_skill p = None then dict_pop ''skill_name'' i1 else i1);
          i3 = (if in_approved p = [] \<and> in_approval_revision p = None
                then dict_pop ''approval_catalog_revision'' (dict_pop ''approved_tools'' i2)
                else if in_approved p \<noteq> []
                then dict_set ''approved_tools'' (JArr (map JStr (sort (in_approved p)))) i2
                else i2)
      in if in_kbs p = [] then dict_pop ''knowledge_base_ids'' i3 else i3)"

definition run_fingerprint :: "run_env \<Rightarrow> uuid \<Rightarrow> agent_input \<Rightarrow> string" where
  "run_fingerprint e sid p = re_sha256 e (dumps True (sort_keys (JObj
     [(''session_id'', JStr (uuid_str sid)), (''input'', JObj (run_inputs p))])))"

type_synonym preparation = "chat_run \<Rightarrow> agent_input \<Rightarrow> db \<Rightarrow> (chat_run \<times> db) result"

text \<open>
  The unique constraints of \<open>chat_runs\<close>: the id, a user's request keys, and one active run
  per session (\<open>ix_chat_runs_session_active\<close>).
\<close>

definition insert_run :: "chat_run \<Rightarrow> db \<Rightarrow> db result" where
  "insert_run r d =
     (if get_run_row (r_id r) d \<noteq> None \<or> find_idempotent_run (r_client_key r) (r_user r) d \<noteq> None \<or>
         (r_state r \<in> set active_states \<and> active_session_run (r_session r) d \<noteq> None)
      then Inl integrity_error else Inr (d\<lparr>runs := runs d @ [r]\<rparr>))"

definition new_run ::
    "run_env \<Rightarrow> uuid \<Rightarrow> uuid \<Rightarrow> uuid \<Rightarrow> agent_input \<Rightarrow> string \<Rightarrow> uuid \<Rightarrow> bool \<Rightarrow> json \<Rightarrow> time \<Rightarrow> time \<Rightarrow> chat_run" where
  "new_run e rid uid sid p request_id key queued inputs now created =
     \<lparr>r_id = rid, r_user = uid, r_session = sid, r_client_key = key, r_fingerprint = run_fingerprint e sid p,
      r_state = (if queued then Queued else Running), r_kind = re_kind e, r_result = [], r_sequence = 0,
      r_bytes = 0, r_request = request_id, r_expires = now + re_timeout e + seconds 30, r_message = None,
      r_user_message = None, r_payload = inputs, r_snapshot = [], r_owner = None, r_generation = 0,
      r_lease = None, r_remaining = (if queued then Some (re_timeout e) else None), r_active = None,
      r_resume = None, r_created = created\<rparr>"

definition bounded_dict :: "dict \<Rightarrow> nat \<Rightarrow> dict result" where
  "bounded_dict d n = and_then (bounded_json (JObj d) n) (\<lambda>j. Inr (case j of JObj x \<Rightarrow> x | _ \<Rightarrow> []))"

definition prepare_run_row ::
    "preparation option \<Rightarrow> agent_input \<Rightarrow> chat_run \<Rightarrow> db \<Rightarrow> (chat_run \<times> db) result" where
  "prepare_run_row prepare p r d = (case prepare of
     None \<Rightarrow> Inr (r, d)
   | Some f \<Rightarrow>
       and_then (f r p d) (\<lambda>(r1, d1).
       and_then (bounded_dict (r_snapshot r1) 4000000) (\<lambda>snap.
         let r2 = r1\<lparr>r_snapshot := snap\<rparr> in Inr (r2, put_run r2 d1))))"

definition key_of :: "json \<Rightarrow> string \<Rightarrow> json result" where
  "key_of j k = (case j of
     JObj d \<Rightarrow> require_row (dict_get d k) (OtherError ''KeyError'')
   | _ \<Rightarrow> Inl (OtherError ''TypeError''))"

definition tool_approval_of :: "chat_run \<Rightarrow> json" where
  "tool_approval_of r = (case dict_get (sub_dict (r_snapshot r) ''context'') ''tool_approval'' of
     None \<Rightarrow> JNull | Some a \<Rightarrow> a)"

definition emit_approval :: "chat_run \<Rightarrow> time \<Rightarrow> db \<Rightarrow> (chat_run \<times> db) result" where
  "emit_approval r at d =
     (let a = tool_approval_of r in
      if truthy a then
        and_then (key_of a ''tool_names'') (\<lambda>names.
        and_then (key_of a ''catalog_hash'') (\<lambda>h.
          emit_event r ''tool_approval_granted'' [(''tool_names'', names), (''catalog_hash'', h)] False at d))
      else Inr (r, d))"

text \<open>An exact retry of the request: \<open>Some\<close> the stored run.\<close>

definition retry_run ::
    "run_env \<Rightarrow> string \<Rightarrow> chat_run \<Rightarrow> clock \<Rightarrow> (db, chat_run \<times> bool) body" where
  "retry_run e fp existing clk d =
     and_then (raise_if (r_fingerprint existing \<noteq> fp \<or> r_kind existing \<noteq> re_kind e)
        (AppError ''IDEMPOTENCY_CONFLICT'' 409)) (\<lambda>_.
     and_then (expire e existing (clk 0) (clk 1) d) (\<lambda>(r, d1). committed (r, False) d1))"

text \<open>The session must have no active run left once an overdue one is expired.\<close>

definition clear_session :: "run_env \<Rightarrow> uuid \<Rightarrow> clock \<Rightarrow> db \<Rightarrow> db result" where
  "clear_session e sid clk d = (case active_session_run sid d of
     None \<Rightarrow> Inr d
   | Some a \<Rightarrow>
       and_then (expire e a (clk 0) (clk 1) d) (\<lambda>(a', d1).
       and_then (raise_if (r_state a' \<in> set active_states) (AppError ''RESOURCE_BUSY'' 409)) (\<lambda>_. Inr d1)))"

definition admit_user :: "bool \<Rightarrow> uuid \<Rightarrow> db \<Rightarrow> unit result" where
  "admit_user queued uid d =
     raise_if (queued \<and> (case get_user uid d of None \<Rightarrow> True | Some u \<Rightarrow> \<not> u_active u)) (AppError ''FORBIDDEN'' 403)"

definition start_run ::
    "run_env \<Rightarrow> uuid \<Rightarrow> uuid \<Rightarrow> agent_input \<Rightarrow> string \<Rightarrow> uuid \<Rightarrow> bool \<Rightarrow> preparation option \<Rightarrow> uuid \<Rightarrow> clock
     \<Rightarrow> (db, chat_run \<times> bool) body" where
  "start_run e uid sid p request_id key queued prepare rid clk d =
     and_then (chat_session_of uid sid (Some (re_kind e)) d) (\<lambda>_.
     and_then (clear_session e sid clk d) (\<lambda>d1.
     and_then (raise_if (queued \<and> re_queue_limit e \<le> count_active_runs (re_kind e) uid d1)
        (AppError ''RUN_CAPACITY_EXCEEDED'' 429)) (\<lambda>_.
     and_then (bounded_json (JObj (run_inputs p)) 100000) (\<lambda>inputs.
       let r = new_run e rid uid sid p request_id key queued inputs (clk 2) (clk 3) in
     and_then (insert_run r d1) (\<lambda>d2.
     and_then (prepare_run_row prepare p r d2) (\<lambda>(r1, d3).
     and_then (emit_event r1 ''run_started'' [(''request_id'', JStr request_id),
        (''search_mode'', JStr (mode_str (in_mode p)))] False (clk 4) d3) (\<lambda>(r2, d4).
     and_then (emit_approval r2 (clk 5) d4) (\<lambda>(r3, d5). committed (r3, True) d5))))))))"

definition create_body ::
    "run_env \<Rightarrow> uuid \<Rightarrow> uuid \<Rightarrow> agent_input \<Rightarrow> string \<Rightarrow> uuid \<Rightarrow> bool \<Rightarrow> preparation option \<Rightarrow> uuid \<Rightarrow> clock
     \<Rightarrow> (db, chat_run \<times> bool) body" where
  "create_body e uid sid p request_id key queued prepare rid clk d =
     and_then (admit_user queued uid d) (\<lambda>_.
       case find_idempotent_run key uid d of
         Some existing \<Rightarrow> retry_run e (run_fingerprint e sid p) existing clk d
       | None \<Rightarrow> start_run e uid sid p request_id key queued prepare rid clk d)"

definition create_run ::
    "run_env \<Rightarrow> uuid \<Rightarrow> uuid \<Rightarrow> agent_input \<Rightarrow> string \<Rightarrow> uuid \<Rightarrow> bool \<Rightarrow> preparation option \<Rightarrow> uuid \<Rightarrow> clock
     \<Rightarrow> db \<Rightarrow> (db, chat_run \<times> bool) outcome" where
  "create_run e uid sid p request_id key queued prepare rid clk d =
     (if queued \<and> prepare = None then (Inl (OtherError ''ValueError''), d)
      else case transaction (create_body e uid sid p request_id key queued prepare rid clk) d of
        (Inl err, d') \<Rightarrow> (Inl (if err = integrity_error then AppError ''IDEMPOTENCY_CONFLICT'' 409 else err), d')
      | ok \<Rightarrow> ok)"

section \<open>Events of a running answer\<close>

text \<open>\<open>owned\<close>: the claim is the run's present lease; \<open>t1\<close> and \<open>t2\<close> are its clock reads.\<close>

definition owned ::
    "run_env \<Rightarrow> run_claim \<Rightarrow> bool \<Rightarrow> bool \<Rightarrow> time \<Rightarrow> time \<Rightarrow> db \<Rightarrow> chat_run result" where
  "owned e c allow_cancelling check_deadline t1 t2 d =
     and_then (get_row e (cl_user c) (cl_run c) False d) (\<lambda>r.
     and_then (raise_if (r_owner r \<noteq> Some (cl_token c) \<or> r_generation r \<noteq> cl_generation c \<or>
         (case r_lease r of None \<Rightarrow> True | Some l \<Rightarrow> l \<le> t1) \<or>
         (r_state r \<noteq> Running \<and> r_state r \<noteq> Cancelling)) lease_lost) (\<lambda>_.
     and_then (raise_if (r_state r = Cancelling \<and> \<not> allow_cancelling)
         (AppError ''RUN_CANCEL_REQUESTED'' 409)) (\<lambda>_.
     and_then (raise_if (check_deadline \<and> r_expires r \<le> t2) agent_timeout_error) (\<lambda>_. Inr r))))"

definition owned_or_guard ::
    "run_env \<Rightarrow> uuid \<Rightarrow> uuid \<Rightarrow> run_claim option \<Rightarrow> clock \<Rightarrow> db \<Rightarrow> chat_run result" where
  "owned_or_guard e uid rid claim clk d = (case claim of
     Some c \<Rightarrow> owned e c False True (clk 0) (clk 1) d
   | None \<Rightarrow> guard e uid rid (clk 0) d)"

definition append_data :: "string \<Rightarrow> json \<Rightarrow> json result" where
  "append_data event value =
     (if event = ''answer_delta'' then Inr (JObj [(''delta'', value)])
      else if event \<in> {''agent_started'', ''agent_finished'', ''agent_failed''} then Inr value
      else if event = ''answer_start'' then Inr (JObj [])
      else Inl (AppError ''RUN_EVENT_INVALID'' 500))"

definition append_event ::
    "run_env \<Rightarrow> uuid \<Rightarrow> uuid \<Rightarrow> string \<Rightarrow> json \<Rightarrow> run_claim option \<Rightarrow> clock \<Rightarrow> db \<Rightarrow> (db, unit) outcome" where
  "append_event e uid rid event value claim clk =
     transaction (\<lambda>d.
       and_then (append_data event value) (\<lambda>data.
       and_then (owned_or_guard e uid rid claim clk d) (\<lambda>r.
       and_then (raise_if (r_id r \<noteq> rid \<or> r_user r \<noteq> uid) lease_lost) (\<lambda>_.
       and_then (require_row (as_obj data) (OtherError ''TypeError'')) (\<lambda>fields.
       and_then (emit_event r event fields False (clk 2) d) (\<lambda>(r', d'). committed () d'))))))"

text \<open>
  \<open>complete\<close> runs inside the caller's transaction: the usage and the final answer are
  journaled and the run succeeds with its message.
\<close>

definition metadata_of :: "chat_message \<Rightarrow> dict" where
  "metadata_of m = (case msg_metadata m of None \<Rightarrow> [] | Some x \<Rightarrow> x)"

definition done_data :: "chat_message \<Rightarrow> dict" where
  "done_data m =
     [(''message_id'', JStr (uuid_str (msg_id m))), (''answer'', JStr (msg_content m)),
      (''model_provider'', opt_str (msg_provider m)), (''model_name'', opt_str (msg_model m)),
      (''search_mode'', case dict_get (metadata_of m) ''search_mode'' of None \<Rightarrow> JStr ''auto'' | Some v \<Rightarrow> v),
      (''citations'', JArr (map JObj (msg_citations m))), (''token_usage'', msg_tokens m),
      (''run_metadata'', JObj (metadata_of m))]"

definition emit_context :: "chat_run \<Rightarrow> chat_message \<Rightarrow> time \<Rightarrow> db \<Rightarrow> (chat_run \<times> db) result" where
  "emit_context r m at d =
     (let context = get_or_null (sub_dict (metadata_of m) ''metrics'') ''context'' in
      if truthy context then emit_event r ''context_usage'' [(''context'', context)] True at d else Inr (r, d))"

definition complete_run ::
    "run_env \<Rightarrow> uuid \<Rightarrow> uuid \<Rightarrow> chat_message \<Rightarrow> run_claim option \<Rightarrow> clock \<Rightarrow> db \<Rightarrow> (chat_run \<times> db) result" where
  "complete_run e uid rid m claim clk d =
     and_then (owned_or_guard e uid rid claim clk d) (\<lambda>r.
     and_then (raise_if (r_id r \<noteq> rid \<or> r_user r \<noteq> uid \<or> msg_user m \<noteq> uid \<or> msg_session m \<noteq> r_session r \<or>
         msg_role m \<noteq> MsgAssistant \<or> (claim \<noteq> None \<and> r_message r \<noteq> Some (msg_id m))) diverged) (\<lambda>_.
     and_then (emit_context r m (clk 2) d) (\<lambda>(r1, d1).
     and_then (emit_event r1 ''usage'' [(''token_usage'', msg_tokens m),
         (''cache'', get_or_null (sub_dict (metadata_of m) ''metrics'') ''cache'')] True (clk 3) d1) (\<lambda>(r2, d2).
     and_then (emit_event r2 ''done'' (done_data m) True (clk 4) d2) (\<lambda>(r3, d3).
       let r4 = r3\<lparr>r_state := Succeeded, r_message := Some (msg_id m), r_owner := None, r_lease := None,
           r_active := None\<rparr>
       in Inr (r4, put_run r4 d3))))))"

definition failure_code :: "string \<Rightarrow> exn \<Rightarrow> string" where
  "failure_code fallback err = (case exn_code err of Some c \<Rightarrow> c | None \<Rightarrow> fallback)"

definition failure_status :: "exn \<Rightarrow> nat" where
  "failure_status err = (case exn_status err of Some n \<Rightarrow> n | None \<Rightarrow> 500)"

definition failure_data :: "run_env \<Rightarrow> string \<Rightarrow> exn \<Rightarrow> dict" where
  "failure_data e fallback err = error_data e (failure_code fallback err) (failure_status err)"

definition fail_run :: "run_env \<Rightarrow> uuid \<Rightarrow> uuid \<Rightarrow> exn \<Rightarrow> clock \<Rightarrow> db \<Rightarrow> (db, unit) outcome" where
  "fail_run e uid rid err clk =
     transaction (\<lambda>d.
       and_then (get_row e uid rid True d) (\<lambda>r.
       if r_state r \<noteq> Running then committed () d
       else
         and_then (expire e r (clk 0) (clk 1) d) (\<lambda>(r1, d1).
         if r_state r1 \<noteq> Running then committed () d1
         else
           and_then (emit_event r1 ''error'' (failure_data e ''INTERNAL_ERROR'' err @
               [(''request_id'', JStr (r_request r1))]) True (clk 2) d1) (\<lambda>(r2, d2).
             committed () (put_run (r2\<lparr>r_state := Failed\<rparr>) d2)))))"

text \<open>\<open>read\<close>: the run, the question it waits with, and the events after the cursor.\<close>

definition waiting_payload :: "chat_run \<Rightarrow> db \<Rightarrow> dict option" where
  "waiting_payload r d =
     (if r_state r = Waiting then
        (case row_get event_pk (r_id r, r_sequence r) (events d) of
           None \<Rightarrow> None
         | Some ev \<Rightarrow> if ev_event ev = ''run_waiting'' then Some (ev_payload ev) else None)
      else None)"

definition read_run ::
    "run_env \<Rightarrow> uuid \<Rightarrow> uuid \<Rightarrow> int \<Rightarrow> clock \<Rightarrow> db \<Rightarrow> (db, chat_run \<times> dict option \<times> run_event list) outcome" where
  "read_run e uid rid after clk =
     transaction (\<lambda>d.
       and_then (get_row e uid rid True d) (\<lambda>r.
       and_then (expire e r (clk 0) (clk 1) d) (\<lambda>(r1, d1).
       and_then (raise_if (r_sequence r1 < after) (AppError ''INVALID_EVENT_CURSOR'' 422)) (\<lambda>_.
         committed (r1, waiting_payload r1 d1, list_events_after after rid d1) d1))))"

section \<open>The worker's claims\<close>

fun expire_all :: "run_env \<Rightarrow> chat_run list \<Rightarrow> clock \<Rightarrow> nat \<Rightarrow> db \<Rightarrow> db result" where
  "expire_all e [] clk i d = Inr d"
| "expire_all e (r # rs) clk i d =
     and_then (expire e r (clk i) (clk (i + 1)) d) (\<lambda>(r', d'). expire_all e rs clk (i + 2) d')"

definition release_lease :: "chat_run \<Rightarrow> chat_run" where
  "release_lease r = r\<lparr>r_owner := None, r_lease := None, r_active := None\<rparr>"

definition cancel_abandoned :: "chat_run \<Rightarrow> time \<Rightarrow> db \<Rightarrow> (chat_run \<times> db) result" where
  "cancel_abandoned r at d =
     (let r1 = r\<lparr>r_state := Cancelled\<rparr>; r2 = release_lease r1 in
      emit_event r2 ''run_cancelled'' [] True at (put_run r2 (settle r1 d)))"

fun cancel_all :: "chat_run list \<Rightarrow> clock \<Rightarrow> nat \<Rightarrow> db \<Rightarrow> db result" where
  "cancel_all [] clk i d = Inr d"
| "cancel_all (r # rs) clk i d =
     and_then (cancel_abandoned r (clk i) d) (\<lambda>(r', d'). cancel_all rs clk (i + 1) d')"

definition settle_cancellations :: "run_env \<Rightarrow> clock \<Rightarrow> nat \<Rightarrow> db \<Rightarrow> db result" where
  "settle_cancellations e clk i d =
     cancel_all (lock_expired_cancellations (clk i) (re_kind e) d) clk (i + 1) d"

text \<open>The time a run has left, less what an abandoned attempt used of it until its lease ended.\<close>

definition used_time :: "time \<Rightarrow> chat_run \<Rightarrow> time result" where
  "used_time now r = (case r_active r of
     None \<Rightarrow> Inr 0
   | Some since \<Rightarrow> (case r_lease r of
       None \<Rightarrow> Inl (OtherError ''AttributeError'')
     | Some l \<Rightarrow> Inr (max 0 (min now l - since))))"

definition remaining_time :: "run_env \<Rightarrow> time \<Rightarrow> chat_run \<Rightarrow> time result" where
  "remaining_time e now r =
     and_then (used_time now r) (\<lambda>used.
       Inr ((case r_remaining r of None \<Rightarrow> re_timeout e | Some x \<Rightarrow> x) - used))"

definition fail_budget :: "run_env \<Rightarrow> chat_run \<Rightarrow> time \<Rightarrow> (db, run_claim option) body" where
  "fail_budget e r at d =
     (let r1 = r\<lparr>r_state := Failed\<rparr> in
      and_then (emit_event r1 ''error'' (error_data e ''AGENT_TIMEOUT'' 504) True at (settle r1 d))
        (\<lambda>(r2, d2). committed None d2))"

definition lease_run :: "run_env \<Rightarrow> chat_run \<Rightarrow> uuid \<Rightarrow> time \<Rightarrow> time \<Rightarrow> chat_run" where
  "lease_run e r token now left = r\<lparr>r_state := Running, r_owner := Some token,
     r_generation := r_generation r + 1, r_remaining := Some left, r_active := Some now,
     r_expires := now + left, r_lease := Some (now + re_lease e)\<rparr>"

definition claim_of :: "chat_run \<Rightarrow> uuid \<Rightarrow> run_claim" where
  "claim_of r token =
     \<lparr>cl_run = r_id r, cl_user = r_user r, cl_token = token, cl_generation = r_generation r\<rparr>"

definition take_run ::
    "run_env \<Rightarrow> chat_run \<Rightarrow> uuid \<Rightarrow> time \<Rightarrow> time \<Rightarrow> time \<Rightarrow> (db, run_claim option) body" where
  "take_run e r token now left at d =
     (let r1 = lease_run e r token now left in
      and_then (emit_event r1 ''run_claimed'' [(''generation'', JInt (r_generation r1))] False at (settle r1 d))
        (\<lambda>(r2, d2). committed (Some (claim_of r2 token)) d2))"

definition claim_next ::
    "run_env \<Rightarrow> uuid option \<Rightarrow> uuid \<Rightarrow> clock \<Rightarrow> db \<Rightarrow> (db, run_claim option) outcome" where
  "claim_next e rid token clk =
     transaction (\<lambda>d.
       let now = clk 0 in
       and_then (expire_all e (lock_expired_waiting_runs now (re_kind e) d) clk 1 d) (\<lambda>d1.
       and_then (settle_cancellations e clk 21 d1) (\<lambda>d2.
       case lock_next_run now rid (re_kind e) d2 of
         None \<Rightarrow> committed None d2
       | Some r \<Rightarrow>
           and_then (remaining_time e now r) (\<lambda>left.
             if left \<le> 0 then fail_budget e r (clk 32) d2 else take_run e r token now left (clk 32) d2))))"

definition spent :: "time \<Rightarrow> chat_run \<Rightarrow> time result" where
  "spent now r = (case (r_remaining r, r_active r) of
     (Some x, Some since) \<Rightarrow> Inr (x - max 0 (now - since))
   | _ \<Rightarrow> Inl (OtherError ''TypeError''))"

definition release_busy :: "run_env \<Rightarrow> run_claim \<Rightarrow> clock \<Rightarrow> db \<Rightarrow> (db, unit) outcome" where
  "release_busy e c clk =
     transaction (\<lambda>d.
       and_then (owned e c False True (clk 0) (clk 1) d) (\<lambda>r.
       and_then (spent (clk 2) r) (\<lambda>left.
         let r1 = r\<lparr>r_remaining := Some left, r_state := Queued, r_owner := None, r_active := None\<rparr> in
         committed () (put_run (r1\<lparr>r_lease := Some (clk 2 + seconds 1)\<rparr>) (settle r1 d)))))"

definition heartbeat :: "run_env \<Rightarrow> run_claim \<Rightarrow> clock \<Rightarrow> db \<Rightarrow> (db, unit) outcome" where
  "heartbeat e c clk =
     transaction (\<lambda>d.
       and_then (owned e c False True (clk 0) (clk 1) d) (\<lambda>r.
         committed () (put_run (r\<lparr>r_lease := Some (clk 2 + re_lease e)\<rparr>) d)))"

definition check_owned :: "run_env \<Rightarrow> run_claim \<Rightarrow> clock \<Rightarrow> db \<Rightarrow> unit result" where
  "check_owned e c clk d = and_then (owned e c False True (clk 0) (clk 1) d) (\<lambda>_. Inr ())"

section \<open>Checkpoints\<close>

definition save_checkpoint :: "chat_run \<Rightarrow> json \<Rightarrow> db \<Rightarrow> (run_checkpoint \<times> db) result" where
  "save_checkpoint r payload d =
     and_then (require_row (as_obj payload) (OtherError ''ValueError'')) (\<lambda>fields.
     and_then (bounded_dict fields 4000000) (\<lambda>p.
       let row = (case get_checkpoint (r_id r) d of
             None \<Rightarrow> \<lparr>ck_run = r_id r, ck_revision = 1, ck_payload = p\<rparr>
           | Some old \<Rightarrow> old\<lparr>ck_revision := ck_revision old + 1, ck_payload := p\<rparr>)
       in Inr (row, put_checkpoint row d)))"

definition write_checkpoint ::
    "run_env \<Rightarrow> run_claim \<Rightarrow> json \<Rightarrow> clock \<Rightarrow> db \<Rightarrow> (db, int) outcome" where
  "write_checkpoint e c payload clk =
     transaction (\<lambda>d.
       and_then (owned e c False True (clk 0) (clk 1) d) (\<lambda>r.
       and_then (save_checkpoint r payload d) (\<lambda>(row, d'). committed (ck_revision row) d')))"

definition load_checkpoint :: "run_env \<Rightarrow> run_claim \<Rightarrow> clock \<Rightarrow> db \<Rightarrow> (int \<times> dict) result" where
  "load_checkpoint e c clk d =
     and_then (owned e c False True (clk 0) (clk 1) d) (\<lambda>_.
       Inr (case get_checkpoint (cl_run c) d of
          None \<Rightarrow> (0, []) | Some row \<Rightarrow> (ck_revision row, ck_payload row)))"

section \<open>Cancelling, failing, pausing and resuming\<close>

definition cancels_at_once :: "chat_run \<Rightarrow> time \<Rightarrow> bool" where
  "cancels_at_once r now =
     (r_state r = Queued \<or> r_state r = Waiting \<or> r_owner r = None \<or>
      (case r_lease r of None \<Rightarrow> False | Some l \<Rightarrow> l \<le> now))"

definition request_cancel ::
    "run_env \<Rightarrow> uuid \<Rightarrow> uuid \<Rightarrow> clock \<Rightarrow> db \<Rightarrow> (db, chat_run) outcome" where
  "request_cancel e uid rid clk =
     transaction (\<lambda>d.
       and_then (get_row e uid rid True d) (\<lambda>r.
       if r_state r \<in> set terminal_states \<or> r_state r = Cancelling then committed r d
       else
         let now_too = cancels_at_once r (clk 0);
             r1 = r\<lparr>r_state := (if now_too then Cancelled else Cancelling), r_resume := None\<rparr> in
         and_then (emit_event r1 (if now_too then ''run_cancelled'' else ''cancel_requested'') [] now_too
             (clk 1) (settle r1 d)) (\<lambda>(r2, d2). committed r2 d2)))"

definition cleanup_failed :: "exn \<Rightarrow> bool" where
  "cleanup_failed err = (exn_code err = Some ''SANDBOX_CLEANUP_FAILED'')"

definition finish_failure :: "run_env \<Rightarrow> run_claim \<Rightarrow> exn \<Rightarrow> clock \<Rightarrow> db \<Rightarrow> (db, unit) outcome" where
  "finish_failure e c err clk =
     transaction (\<lambda>d.
       and_then (owned e c True False (clk 0) (clk 1) d) (\<lambda>r.
       and_then
         (if r_state r = Cancelling \<and> \<not> cleanup_failed err
          then emit_event (r\<lparr>r_state := Cancelled\<rparr>) ''run_cancelled'' [] True (clk 2) d
          else emit_event (r\<lparr>r_state := Failed\<rparr>) ''error'' (failure_data e ''RUN_EXECUTION_FAILED'' err)
                 True (clk 2) d) (\<lambda>(r1, d1).
         committed () (settle (release_lease r1) d1))))"

definition pause_body ::
    "run_env \<Rightarrow> run_claim \<Rightarrow> json \<Rightarrow> string \<Rightarrow> uuid \<Rightarrow> clock \<Rightarrow> db \<Rightarrow> (chat_run \<times> db) result" where
  "pause_body e c payload question key clk d =
     and_then (owned e c False True (clk 0) (clk 1) d) (\<lambda>r.
     and_then (save_checkpoint r payload d) (\<lambda>(row, d1).
     and_then (spent (clk 2) r) (\<lambda>left.
     and_then (raise_if (left \<le> 0) agent_timeout_error) (\<lambda>_.
       let r1 = release_lease (r\<lparr>r_state := Waiting, r_remaining := Some left, r_resume := Some key,
             r_expires := clk 2 + re_wait e\<rparr>) in
       emit_event r1 ''run_waiting'' ([(''question'', JStr (strip question)),
           (''checkpoint_revision'', JInt (ck_revision row)), (''resume_token'', JStr (uuid_str key)),
           (''expires_at'', JStr (datetime_str (r_expires r1)))] @
           (if public_input_allowed e r1 then [(''public_input_allowed'', JBool True)] else []))
         False (clk 3) (settle r1 d1)))))"

definition pause_run ::
    "run_env \<Rightarrow> run_claim \<Rightarrow> json \<Rightarrow> string \<Rightarrow> uuid \<Rightarrow> clock \<Rightarrow> db \<Rightarrow> (db, chat_run) outcome" where
  "pause_run e c payload question key clk =
     transaction (\<lambda>d.
       and_then (raise_if (strip question = [] \<or> 4000 < length (strip question))
         (AppError ''INVALID_CLARIFICATION'' 422)) (\<lambda>_.
       and_then (pause_body e c payload question key clk d) (\<lambda>(r, d'). committed r d')))"

definition resume_public_query :: "string option \<Rightarrow> string option result" where
  "resume_public_query q = (case q of
     None \<Rightarrow> Inr None
   | Some s \<Rightarrow>
       and_then (raise_if (strip s = [] \<or> 400 < length (strip s)) (AppError ''INVALID_PUBLIC_INPUT'' 422)) (\<lambda>_.
       and_then (prepare_public_query (plain_input (strip s) Web) False) (\<lambda>(query, _, _). Inr query)))"

definition resume_hash :: "run_env \<Rightarrow> string \<Rightarrow> string option \<Rightarrow> string" where
  "resume_hash e supplement public_query = (case public_query of
     None \<Rightarrow> re_sha256 e supplement
   | Some q \<Rightarrow> re_sha256 e (dumps False (sort_keys (JObj
       [(''supplement'', JStr supplement), (''public_query'', JStr q)]))))"

definition resume_receipt :: "run_checkpoint option \<Rightarrow> dict" where
  "resume_receipt row = (case row of None \<Rightarrow> [] | Some ck \<Rightarrow> sub_dict (ck_payload ck) ''resume_receipt'')"

definition receipt_of :: "uuid \<Rightarrow> string \<Rightarrow> int \<Rightarrow> dict" where
  "receipt_of key h revision =
     [(''key'', JStr (uuid_str key)), (''input_hash'', JStr h), (''revision'', JInt revision)]"

text \<open>The frozen scope and the approval of a paused run are checked against the present.\<close>

definition frozen_execution ::
    "run_env \<Rightarrow> cap_env \<Rightarrow> cap_db \<Rightarrow> uuid \<Rightarrow> chat_run \<Rightarrow> db \<Rightarrow> execution result" where
  "frozen_execution e ce caps uid r d =
     (case capability_snapshot r of
        None \<Rightarrow> Inl scope_changed
      | Some raw \<Rightarrow> (case re_decode e raw of
          None \<Rightarrow> Inl scope_changed
        | Some x \<Rightarrow> validate_execution ce uid x None (caps\<lparr>cap_users := users d\<rparr>)))"

definition check_resume_approval ::
    "run_env \<Rightarrow> cap_env \<Rightarrow> cap_db \<Rightarrow> uuid \<Rightarrow> chat_run \<Rightarrow> db \<Rightarrow> unit result" where
  "check_resume_approval e ce caps uid r d =
     (if tool_approval_of r = JNull then Inr ()
      else
        and_then (frozen_execution e ce caps uid r d) (\<lambda>x.
        and_then (chat_session_of uid (r_session r) None d) (\<lambda>parent.
        and_then (require_row (re_approval e (tool_approval_of r)) scope_changed) (\<lambda>g.
        and_then (validate_approval x (Some g) \<lparr>id_user = uid, id_session = r_session r, id_run = r_id r,
            id_org = cs_org parent, id_hash = []\<rparr>) (\<lambda>_. Inr ())))))"

definition check_resume_public ::
    "run_env \<Rightarrow> cap_env \<Rightarrow> cap_db \<Rightarrow> uuid \<Rightarrow> chat_run \<Rightarrow> string option \<Rightarrow> db \<Rightarrow> unit result" where
  "check_resume_public e ce caps uid r public_query d =
     (if public_query = None then Inr ()
      else
        and_then (raise_if (\<not> public_input_allowed e r) (AppError ''PUBLIC_INPUT_NOT_ALLOWED'' 409)) (\<lambda>_.
        and_then (frozen_execution e ce caps uid r d) (\<lambda>_. Inr ())))"

definition arr_or_empty :: "dict \<Rightarrow> string \<Rightarrow> json list" where
  "arr_or_empty p k = (case dict_get p k of Some (JArr xs) \<Rightarrow> xs | _ \<Rightarrow> [])"

definition resume_public_inputs :: "dict \<Rightarrow> string option \<Rightarrow> dict result" where
  "resume_public_inputs p public_query =
     (if public_query = None \<and> dict_get p ''public_inputs'' = None then Inr p
      else
        let humans = arr_or_empty p ''human_inputs'';
            previous = (case dict_get p ''public_inputs'' of
                None \<Rightarrow> JArr (replicate (length humans) JNull) | Some v \<Rightarrow> v)
        in (case as_arr previous of
              None \<Rightarrow> Inl diverged
            | Some xs \<Rightarrow>
                if length xs \<noteq> length humans then Inl diverged
                else Inr (dict_set ''public_inputs'' (JArr (xs @ [opt_str public_query])) p)))"

definition resume_payload ::
    "dict \<Rightarrow> string option \<Rightarrow> string \<Rightarrow> uuid \<Rightarrow> string \<Rightarrow> int \<Rightarrow> dict result" where
  "resume_payload p public_query supplement key h revision =
     and_then (resume_public_inputs p public_query) (\<lambda>p1.
       bounded_dict (dict_set ''resume_receipt'' (JObj (receipt_of key h revision))
         (dict_set ''human_inputs'' (JArr (arr_or_empty p1 ''human_inputs'' @ [JStr supplement])) p1)) 4000000)"

definition expire_resume :: "run_env \<Rightarrow> chat_run \<Rightarrow> time \<Rightarrow> (db, chat_run) body" where
  "expire_resume e r at d =
     (let r1 = r\<lparr>r_state := Interrupted, r_resume := None\<rparr> in
      and_then (emit_event r1 ''error'' (error_data e ''HITL_EXPIRED'' 409) True at (settle r1 d))
        (\<lambda>(r2, d2). commit_raise (AppError ''HITL_EXPIRED'' 409) d2))"

definition requeue_resumed :: "chat_run \<Rightarrow> run_checkpoint \<Rightarrow> dict \<Rightarrow> time \<Rightarrow> (db, chat_run) body" where
  "requeue_resumed r ck payload at d =
     (let ck1 = ck\<lparr>ck_payload := payload, ck_revision := ck_revision ck + 1\<rparr>;
          r1 = r\<lparr>r_state := Queued, r_resume := None\<rparr> in
      and_then (emit_event r1 ''run_resumed'' [(''checkpoint_revision'', JInt (ck_revision ck1))] False at
          (settle r1 (put_checkpoint ck1 d))) (\<lambda>(r2, d2). committed r2 d2))"

definition resume_body ::
    "run_env \<Rightarrow> cap_env \<Rightarrow> cap_db \<Rightarrow> uuid \<Rightarrow> uuid \<Rightarrow> int \<Rightarrow> uuid \<Rightarrow> string \<Rightarrow> string option \<Rightarrow> clock
     \<Rightarrow> (db, chat_run) body" where
  "resume_body e ce caps uid rid revision key supplement public_query clk d =
     and_then (get_row e uid rid True d) (\<lambda>r.
       let row = get_checkpoint (r_id r) d; h = resume_hash e supplement public_query in
       if dict_get (resume_receipt row) ''key'' = Some (JStr (uuid_str key)) then
         and_then (raise_if (dict_get (resume_receipt row) ''input_hash'' \<noteq> Some (JStr h) \<or>
             dict_get (resume_receipt row) ''revision'' \<noteq> Some (JInt revision))
             (AppError ''RESUME_CONFLICT'' 409)) (\<lambda>_. committed r d)
       else
         and_then (require_row row (AppError ''RESUME_CONFLICT'' 409)) (\<lambda>ck.
         and_then (raise_if (r_state r \<noteq> Waiting \<or> ck_revision ck \<noteq> revision \<or> r_resume r \<noteq> Some key)
             (AppError ''RESUME_CONFLICT'' 409)) (\<lambda>_.
         and_then (check_resume_approval e ce caps uid r d) (\<lambda>_.
         and_then (check_resume_public e ce caps uid r public_query d) (\<lambda>_.
         if r_expires r \<le> clk 0 then expire_resume e r (clk 1) d
         else
           and_then (resume_payload (ck_payload ck) public_query supplement key h revision) (\<lambda>payload.
             requeue_resumed r ck payload (clk 1) d))))))"

definition resume_run ::
    "run_env \<Rightarrow> cap_env \<Rightarrow> cap_db \<Rightarrow> uuid \<Rightarrow> uuid \<Rightarrow> int \<Rightarrow> uuid \<Rightarrow> string \<Rightarrow> string option \<Rightarrow> clock \<Rightarrow> db
     \<Rightarrow> (db, chat_run) outcome" where
  "resume_run e ce caps uid rid revision key supplement public_query clk =
     transaction (\<lambda>d.
       and_then (raise_if (strip supplement = [] \<or> 4000 < length (strip supplement))
         (AppError ''INVALID_RESUME_INPUT'' 422)) (\<lambda>_.
       and_then (resume_public_query public_query) (\<lambda>q.
         resume_body e ce caps uid rid revision key (strip supplement) q clk d)))"

section \<open>Receipts of calls\<close>

definition key_char :: "char \<Rightarrow> bool" where
  "key_char c = (lower_char c \<or> upper_char c \<or> digit_char_p c \<or> c \<in> set ''_.:/-'')"

definition operation_key_ok :: "string \<Rightarrow> bool" where
  "operation_key_ok k = (1 \<le> length k \<and> length k \<le> 128 \<and> list_all key_char k)"

definition event_tool_name :: "json \<Rightarrow> json" where
  "event_tool_name inputs = (case inputs of
     JObj d \<Rightarrow> (case dict_get d ''name'' of
        Some (JStr n) \<Rightarrow>
          if 1 \<le> length n \<and> length n \<le> 128 \<and>
             list_all (\<lambda>c. lower_char c \<or> upper_char c \<or> digit_char_p c \<or> c \<in> set ''_.-'') n
          then JStr n else JNull
      | _ \<Rightarrow> JNull)
   | _ \<Rightarrow> JNull)"

definition is_tool_key :: "string \<Rightarrow> bool" where
  "is_tool_key key = prefix ''tool/'' key"

definition operation_hash :: "run_env \<Rightarrow> json \<Rightarrow> string" where
  "operation_hash e inputs = re_sha256 e (dumps False (sort_keys inputs))"

definition get_operation :: "uuid \<Rightarrow> string \<Rightarrow> db \<Rightarrow> run_operation option" where
  "get_operation rid key d = row_get op_pk (rid, key) (operations d)"

text \<open>
  A receipt left by another owner: a side effect is marked uncertain and the caller gets an
  error after the commit; a read may be repeated three times in all.
\<close>

definition mark_uncertain :: "chat_run \<Rightarrow> run_operation \<Rightarrow> time \<Rightarrow> time \<Rightarrow> (db, bool \<times> json) body" where
  "mark_uncertain r row at t d =
     (let d1 = put_operation (row\<lparr>op_state := OpUncertain, op_updated := t\<rparr>) d in
      and_then (if is_tool_key (op_key row)
          then and_then (emit_event r ''tool_failed'' [(''operation_key'', JStr (op_key row)),
                 (''status'', JStr ''uncertain''), (''error_code'', JStr ''TOOL_OUTCOME_UNCERTAIN'')] False at d1)
                 (\<lambda>(_, d2). Inr d2)
          else Inr d1) (\<lambda>d2. commit_raise (AppError ''TOOL_OUTCOME_UNCERTAIN'' 409) d2))"

definition start_receipt ::
    "chat_run \<Rightarrow> run_claim \<Rightarrow> string \<Rightarrow> json \<Rightarrow> bool \<Rightarrow> run_operation \<Rightarrow> time \<Rightarrow> (db, bool \<times> json) body" where
  "start_receipt r c key inputs readonly row at d =
     (let d1 = put_operation row d in
      and_then (if is_tool_key key
          then and_then (emit_event r ''tool_started'' [(''operation_key'', JStr key),
                 (''name'', event_tool_name inputs), (''generation'', JInt (cl_generation c)),
                 (''readonly'', JBool readonly)] False at d1) (\<lambda>(_, d2). Inr d2)
          else Inr d1) (\<lambda>d2. committed (False, JNull) d2))"

definition reopen_operation ::
    "chat_run \<Rightarrow> run_claim \<Rightarrow> string \<Rightarrow> json \<Rightarrow> string \<Rightarrow> bool \<Rightarrow> run_operation \<Rightarrow> clock
     \<Rightarrow> (db, bool \<times> json) body" where
  "reopen_operation r c key inputs h readonly row clk d =
     (if op_input_hash row \<noteq> h \<or> op_readonly row \<noteq> readonly then Inl diverged
      else if op_state row = OpSucceeded then committed (True, op_result row) d
      else if op_generation row = cl_generation c \<and> op_state row = OpStarted
      then Inl (AppError ''OPERATION_ALREADY_RUNNING'' 409)
      else if \<not> readonly then mark_uncertain r row (clk 2) (clk 3) d
      else if 3 \<le> op_attempts row then Inl (AppError ''RUN_RECOVERY_LIMIT'' 409)
      else start_receipt r c key inputs readonly
        (row\<lparr>op_state := OpStarted, op_generation := cl_generation c, op_attempts := op_attempts row + 1,
          op_updated := clk 3\<rparr>) (clk 2) d)"

definition open_operation ::
    "chat_run \<Rightarrow> run_claim \<Rightarrow> string \<Rightarrow> json \<Rightarrow> string \<Rightarrow> bool \<Rightarrow> clock \<Rightarrow> (db, bool \<times> json) body" where
  "open_operation r c key inputs h readonly clk d =
     (if 128 \<le> operation_count (cl_run c) d then Inl (AppError ''RUN_CHECKPOINT_LIMIT'' 413)
      else start_receipt r c key inputs readonly
        \<lparr>op_run = cl_run c, op_key = key, op_input_hash = h, op_state = OpStarted, op_readonly = readonly,
          op_generation = cl_generation c, op_attempts = 1, op_result = JNull, op_updated = clk 3\<rparr> (clk 2) d)"

definition begin_operation ::
    "run_env \<Rightarrow> run_claim \<Rightarrow> string \<Rightarrow> json \<Rightarrow> bool \<Rightarrow> clock \<Rightarrow> db \<Rightarrow> (db, bool \<times> json) outcome" where
  "begin_operation e c key inputs readonly clk =
     transaction (\<lambda>d.
       and_then (raise_if (\<not> operation_key_ok key) (OtherError ''ValueError'')) (\<lambda>_.
       and_then (bounded_json inputs 2000000) (\<lambda>inputs'.
       and_then (owned e c False True (clk 0) (clk 1) d) (\<lambda>r.
         case get_operation (cl_run c) key d of
           Some row \<Rightarrow> reopen_operation r c key inputs' (operation_hash e inputs') readonly row clk d
         | None \<Rightarrow> open_operation r c key inputs' (operation_hash e inputs') readonly clk d))))"

text \<open>What the journal shows of a finished tool call.\<close>

definition json_or :: "json \<Rightarrow> json \<Rightarrow> json" where
  "json_or a b = (if truthy a then a else b)"

definition error_code_ok :: "string \<Rightarrow> bool" where
  "error_code_ok s = (1 \<le> length s \<and> length s \<le> 80 \<and>
     list_all (\<lambda>c. upper_char c \<or> digit_char_p c \<or> c = CHR ''_'') s)"

definition tool_failed :: "dict \<Rightarrow> bool" where
  "tool_failed receipt =
     (let val = sub_dict receipt ''value''; out = sub_dict val ''value'' in
      dict_get receipt ''ok'' = Some (JBool False) \<or> sub_dict val ''error'' \<noteq> [] \<or>
      dict_get out ''status'' = Some (JStr ''failed'') \<or> dict_get out ''success'' = Some (JBool False))"

definition tool_error_code :: "dict \<Rightarrow> json" where
  "tool_error_code receipt =
     (let val = sub_dict receipt ''value''; out = sub_dict val ''value'';
          code = (if dict_get receipt ''ok'' = Some (JBool False) then get_or_null receipt ''code''
            else json_or (get_or_null (sub_dict val ''error'') ''code'') (get_or_null out ''error_code''))
      in case code of JStr s \<Rightarrow> if error_code_ok s then JStr s else JNull | _ \<Rightarrow> JNull)"

definition emit_tool_result ::
    "chat_run \<Rightarrow> string \<Rightarrow> json \<Rightarrow> time \<Rightarrow> time \<Rightarrow> db \<Rightarrow> (chat_run \<times> db) result" where
  "emit_tool_result r key result elapsed at d =
     (if is_tool_key key then
        let receipt = (case result of JObj x \<Rightarrow> x | _ \<Rightarrow> []); failed = tool_failed receipt in
        emit_event r (if failed then ''tool_failed'' else ''tool_finished'')
          [(''operation_key'', JStr key), (''status'', JStr (if failed then ''failed'' else ''completed'')),
           (''error_code'', tool_error_code receipt), (''elapsed_ms'', round_ms (max 0 elapsed))] False at d
      else Inr (r, d))"

definition artifact_item :: "run_artifact \<Rightarrow> json" where
  "artifact_item a = JObj [(''id'', JStr (uuid_str (a_id a))), (''name'', JStr (a_name a)),
     (''size_bytes'', JInt (a_size a)), (''sha256'', JStr (a_sha a)), (''media_type'', JStr (a_media a)),
     (''preview_kind'', JStr (a_preview a)), (''tool_name'', JStr (a_tool a)),
     (''tool_version'', JInt (a_tool_version a))]"

definition emit_artifacts ::
    "run_env \<Rightarrow> chat_run \<Rightarrow> run_operation \<Rightarrow> time \<Rightarrow> db \<Rightarrow> (chat_run \<times> db) result" where
  "emit_artifacts e r row at d =
     (let items = operation_artifacts (op_key row) (r_id r) d in
      if re_sandbox e \<and> \<not> op_readonly row \<and> items \<noteq> []
      then emit_event r ''artifacts_ready'' [(''items'', JArr (map artifact_item items))] False at d
      else Inr (r, d))"

definition checkpoint_after :: "chat_run \<Rightarrow> json option \<Rightarrow> db \<Rightarrow> db result" where
  "checkpoint_after r payload d = (case payload of
     None \<Rightarrow> Inr d | Some p \<Rightarrow> and_then (save_checkpoint r p d) (\<lambda>(_, d'). Inr d'))"

definition complete_operation ::
    "run_env \<Rightarrow> run_claim \<Rightarrow> string \<Rightarrow> json \<Rightarrow> json option \<Rightarrow> clock \<Rightarrow> db \<Rightarrow> (db, unit) outcome" where
  "complete_operation e c key result checkpoint_payload clk =
     transaction (\<lambda>d.
       and_then (bounded_json result 2000000) (\<lambda>result'.
       and_then (owned e c False True (clk 0) (clk 1) d) (\<lambda>r.
       and_then (require_row (get_operation (cl_run c) key d) diverged) (\<lambda>row.
       and_then (raise_if (op_state row \<noteq> OpStarted \<or> op_generation row \<noteq> cl_generation c) diverged) (\<lambda>_.
       and_then (emit_tool_result r key result' (clk 2 - op_updated row) (clk 3)
          (put_operation (row\<lparr>op_state := OpSucceeded, op_result := result', op_updated := clk 4\<rparr>) d))
          (\<lambda>(r1, d1).
       and_then (emit_artifacts e r1 row (clk 5) d1) (\<lambda>(r2, d2).
       and_then (checkpoint_after r2 checkpoint_payload d2) (\<lambda>d3. committed () d3))))))))"

section \<open>The outbox\<close>

definition lock_pending_events :: "nat \<Rightarrow> db \<Rightarrow> event_outbox list" where
  "lock_pending_events limit d =
     take limit (sort_key ob_run (sort_key ob_sequence (filter (\<lambda>x. ob_dispatched x = None) (outbox d))))"

fun mark_dispatched :: "event_outbox list \<Rightarrow> clock \<Rightarrow> nat \<Rightarrow> db \<Rightarrow> db" where
  "mark_dispatched [] clk i d = d"
| "mark_dispatched (x # xs) clk i d =
     mark_dispatched xs clk (i + 1) (d\<lparr>outbox := row_put ob_pk (x\<lparr>ob_dispatched := Some (clk i)\<rparr>) (outbox d)\<rparr>)"

text \<open>The number of rows, and the notifications sent when the database supports them.\<close>

definition dispatch_outbox ::
    "bool \<Rightarrow> int \<Rightarrow> clock \<Rightarrow> db \<Rightarrow> (db, int \<times> (uuid \<times> int) list) outcome" where
  "dispatch_outbox notifies limit clk =
     transaction (\<lambda>d.
       if \<not> (1 \<le> limit \<and> limit \<le> 100) then Inl (OtherError ''ValueError'')
       else
         let rows = lock_pending_events (nat limit) d in
         committed (int (length rows), if notifies then map ob_pk rows else []) (mark_dispatched rows clk 0 d))"

end
