(* ===== verification/RunLifecycle.thy ===== *)
theory RunLifecycle
  imports Runs
begin

text \<open>
  The life of a run, as an abstract machine and as what the operations of \<open>Runs\<close> do.

  \<open>run_move\<close> is the abstract machine: one run changes along the state diagram \<open>transition\<close>
  while its journal grows, a run is created, a checkpoint or a receipt is written, the
  outbox is dispatched, or another service writes tables that are not the runs'. Every operation is a sequence of such moves (the simulation lemmas
  \<open>..._moves\<close>), so that an invariant is proved once for the moves: \<open>runs_inv\<close> with the
  uniqueness of ids and keys, one active run per session, the journal of a run numbered
  1 to its sequence, its budget, and what each state says of the lease.
\<close>

named_theorems moves \<open>operations as sequences of abstract moves\<close>

section \<open>Tables\<close>

lemma row_put_row_put:
  assumes "key r = key r'"
  shows "row_put key r' (row_put key r rows) = row_put key r' rows"
proof (cases "\<exists>x\<in>set rows. key x = key r'")
  case True
  then have "row_put key r rows = map (\<lambda>x. if key x = key r' then r else x) rows"
    using assms by (simp add: row_put_def)
  moreover have "\<exists>x\<in>set (row_put key r rows). key x = key r'"
    using assms set_row_put_mem [of r key rows] by blast
  ultimately show ?thesis using True assms by (simp add: row_put_def)
next
  case False
  then have "row_put key r rows = rows @ [r]" using assms by (simp add: row_put_def)
  with False assms show ?thesis by (auto simp: row_put_def intro: map_idI)
qed

lemma row_put_id: "row_get key (key r) rows = Some r \<Longrightarrow> distinct (map key rows) \<Longrightarrow> row_put key r rows = rows"
  by (rule row_put_same) (auto dest: row_get_Some_mem)

lemma row_get_put_key: "key r = k \<Longrightarrow> row_get key k (row_put key r rows) = Some r"
  by (auto simp: row_get_put)

lemma put_run_found: "get_run_row (r_id r) (put_run r d) = Some r"
  by (simp add: put_run_def)

lemma find_Some_D: "find p xs = Some x \<Longrightarrow> x \<in> set xs \<and> p x"
  by (auto simp: find_Some_iff)

section \<open>The state diagram\<close>

fun transition :: "run_state \<Rightarrow> run_state \<Rightarrow> bool" where
  "transition Queued t = (t \<in> {Running, Cancelled, Failed})"
| "transition Running t = (t \<in> {Queued, Waiting, Cancelling, Cancelled, Succeeded, Failed, Interrupted})"
| "transition Waiting t = (t \<in> {Queued, Cancelled, Interrupted})"
| "transition Cancelling t = (t \<in> {Cancelled, Failed})"
| "transition _ t = False"

definition terminal :: "chat_run \<Rightarrow> bool" where
  "terminal r = (r_state r \<in> set terminal_states)"

definition active :: "chat_run \<Rightarrow> bool" where
  "active r = (r_state r \<in> set active_states)"

lemma terminal_iff: "terminal r \<longleftrightarrow> \<not> active r"
  by (cases "r_state r") (auto simp: terminal_def active_def terminal_states_def active_states_def)

lemma terminal_simps [simp]:
  "terminal r \<longleftrightarrow> r_state r = Cancelled \<or> r_state r = Succeeded \<or> r_state r = Failed \<or> r_state r = Interrupted"
  by (auto simp: terminal_def terminal_states_def)

lemma active_simps [simp]:
  "active r \<longleftrightarrow> r_state r = Queued \<or> r_state r = Running \<or> r_state r = Waiting \<or> r_state r = Cancelling"
  by (auto simp: active_def active_states_def)

text \<open>What the state of a run says of its lease and its key; the bounds of its journal.\<close>

definition lease_shape :: "chat_run \<Rightarrow> bool" where
  "lease_shape r = (case r_state r of
     Queued \<Rightarrow> r_owner r = None \<and> r_active r = None \<and> r_resume r = None \<and> r_remaining r \<noteq> None
   | Running \<Rightarrow> r_resume r = None \<and>
       (if r_generation r = 0 then r_owner r = None \<and> r_lease r = None \<and> r_active r = None
        else r_owner r \<noteq> None \<and> r_lease r \<noteq> None \<and> r_active r \<noteq> None \<and> r_remaining r \<noteq> None)
   | Waiting \<Rightarrow> r_owner r = None \<and> r_lease r = None \<and> r_active r = None \<and> r_resume r \<noteq> None \<and>
       (case r_remaining r of None \<Rightarrow> False | Some x \<Rightarrow> 0 < x)
   | Cancelling \<Rightarrow> 0 < r_generation r \<and> r_owner r \<noteq> None \<and> r_lease r \<noteq> None \<and> r_active r \<noteq> None \<and>
       r_resume r = None
   | _ \<Rightarrow> r_resume r = None)"

definition journal_bounds :: "chat_run \<Rightarrow> bool" where
  "journal_bounds r = (0 \<le> r_sequence r \<and> 0 \<le> r_bytes r \<and> 0 \<le> r_generation r \<and>
     (if terminal r then r_sequence r \<le> 8200 \<and> r_bytes r \<le> 8000000
      else r_sequence r \<le> 8192 \<and> r_bytes r \<le> 6000000))"

definition row_ok :: "chat_run \<Rightarrow> bool" where
  "row_ok r = (lease_shape r \<and> journal_bounds r)"

section \<open>One run changes\<close>

definition same_run :: "chat_run \<Rightarrow> chat_run \<Rightarrow> bool" where
  "same_run r r' = (r_id r' = r_id r \<and> r_user r' = r_user r \<and> r_session r' = r_session r \<and>
     r_client_key r' = r_client_key r \<and> r_fingerprint r' = r_fingerprint r \<and> r_kind r' = r_kind r)"

text \<open>
  \<open>touch r d r' d'\<close>: the row \<open>r\<close> becomes \<open>r'\<close>, its new events and their outbox rows are
  appended under the next numbers, and the rows of messages stay the same messages.
\<close>

definition touch :: "chat_run \<Rightarrow> db \<Rightarrow> chat_run \<Rightarrow> db \<Rightarrow> bool" where
  "touch r d r' d' \<longleftrightarrow>
     same_run r r' \<and> r_sequence r \<le> r_sequence r' \<and>
     runs d' = row_put r_id r' (runs d) \<and>
     (\<exists>evs. events d' = events d @ evs \<and> map event_pk evs = map (Pair (r_id r)) [r_sequence r + 1..r_sequence r']) \<and>
     (\<exists>obs. outbox d' = outbox d @ obs \<and> map ob_pk obs = map (Pair (r_id r)) [r_sequence r + 1..r_sequence r']) \<and>
     map msg_id (messages d') = map msg_id (messages d) \<and>
     d' = d\<lparr>runs := runs d', events := events d', outbox := outbox d', messages := messages d'\<rparr>"

lemma touch_same_run: "touch r d r' d' \<Longrightarrow> same_run r r'"
  by (simp add: touch_def)

lemma touch_row: "touch r d r' d' \<Longrightarrow> get_run_row (r_id r) d' = Some r'"
  by (auto simp: touch_def same_run_def row_get_put)

lemma touch_frame:
  "touch r d r' d' \<Longrightarrow> operations d' = operations d \<and> checkpoints d' = checkpoints d \<and> users d' = users d
     \<and> sessions d' = sessions d \<and> members d' = members d \<and> orgs d' = orgs d \<and> artifacts d' = artifacts d"
  unfolding touch_def by (elim conjE) (erule ssubst, simp)

lemma upto_join: "i \<le> j \<Longrightarrow> j \<le> k \<Longrightarrow> [i + 1..j] @ [j + 1..k] = [i + 1..(k::int)]"
  by (cases "i = j") (auto simp: upto_split2 [of "i + 1" j k])

lemma touch_trans:
  assumes "touch r d r1 d1" and "touch r1 d1 r2 d2"
  shows "touch r d r2 d2"
proof -
  have id: "r_id r1 = r_id r" "r_id r2 = r_id r" and s: "r_sequence r \<le> r_sequence r1" "r_sequence r1 \<le> r_sequence r2"
    using assms by (auto simp: touch_def same_run_def)
  from assms(1) obtain e1 o1 where a:
    "events d1 = events d @ e1" "map event_pk e1 = map (Pair (r_id r)) [r_sequence r + 1..r_sequence r1]"
    "outbox d1 = outbox d @ o1" "map ob_pk o1 = map (Pair (r_id r)) [r_sequence r + 1..r_sequence r1]"
    by (auto simp: touch_def)
  from assms(2) obtain e2 o2 where b:
    "events d2 = events d1 @ e2" "map event_pk e2 = map (Pair (r_id r)) [r_sequence r1 + 1..r_sequence r2]"
    "outbox d2 = outbox d1 @ o2" "map ob_pk o2 = map (Pair (r_id r)) [r_sequence r1 + 1..r_sequence r2]"
    by (auto simp: touch_def id)
  have "runs d2 = row_put r_id r2 (runs d)"
    using assms by (simp add: touch_def row_put_row_put id)
  moreover have "d2 = d\<lparr>runs := runs d2, events := events d2, outbox := outbox d2, messages := messages d2\<rparr>"
  proof -
    have d1: "d1 = d\<lparr>runs := runs d1, events := events d1, outbox := outbox d1, messages := messages d1\<rparr>"
      and d2: "d2 = d1\<lparr>runs := runs d2, events := events d2, outbox := outbox d2, messages := messages d2\<rparr>"
      using assms unfolding touch_def by blast+
    show ?thesis by (subst d2, subst d1) simp
  qed
  moreover have "map msg_id (messages d2) = map msg_id (messages d)"
    using assms by (simp add: touch_def)
  moreover have "\<exists>evs. events d2 = events d @ evs \<and> map event_pk evs = map (Pair (r_id r)) [r_sequence r + 1..r_sequence r2]"
    using a(1,2) b(1,2) upto_join [OF s] by (intro exI [of _ "e1 @ e2"]) (metis append.assoc map_append)
  moreover have "\<exists>obs. outbox d2 = outbox d @ obs \<and> map ob_pk obs = map (Pair (r_id r)) [r_sequence r + 1..r_sequence r2]"
    using a(3,4) b(3,4) upto_join [OF s] by (intro exI [of _ "o1 @ o2"]) (metis append.assoc map_append)
  ultimately show ?thesis
    using assms s id unfolding touch_def same_run_def by (metis order_trans)
qed

lemma touch_from:
  "touch r1 d r' d' \<Longrightarrow> same_run r r1 \<Longrightarrow> r_sequence r1 = r_sequence r \<Longrightarrow> touch r d r' d'"
  by (auto simp: touch_def same_run_def)

lemma same_run_refl [simp]: "same_run r r"
  by (simp add: same_run_def)

lemma touch_put: "same_run r r' \<Longrightarrow> r_sequence r' = r_sequence r \<Longrightarrow> touch r d r' (put_run r' d)"
  by (simp add: touch_def put_run_def)


lemma map_key_row_put_found:
  "row_get key (key r) rows = Some x \<Longrightarrow> map key (row_put key r rows) = map key rows"
  by (auto simp: map_key_row_put dest: row_get_Some_mem row_get_Some_key)

lemma message_state_frame:
  "\<exists>ms. message_state r d = d\<lparr>messages := ms\<rparr> \<and> map msg_id ms = map msg_id (messages d)"
proof -
  have same: "\<exists>ms. d = d\<lparr>messages := ms\<rparr> \<and> map msg_id ms = map msg_id (messages d)"
    by (rule exI [of _ "messages d"]) simp
  have upd: "\<exists>ms. d\<lparr>messages := row_put msg_id (m\<lparr>msg_metadata := x\<rparr>) (messages d)\<rparr> = d\<lparr>messages := ms\<rparr>
      \<and> map msg_id ms = map msg_id (messages d)" if "get_message mid d = Some m" for mid m x
    using row_get_Some_key [OF that] that
    by (intro exI [of _ "row_put msg_id (m\<lparr>msg_metadata := x\<rparr>) (messages d)"])
      (auto intro!: map_key_row_put_found)
  show ?thesis
    using same upd by (simp add: message_state_def split: option.split)
qed

lemma touch_settle:
  assumes "same_run r r'" "r_sequence r' = r_sequence r"
  shows "touch r d r' (settle r' d)"
proof -
  obtain ms where "message_state r' (put_run r' d) = (put_run r' d)\<lparr>messages := ms\<rparr>"
    and "map msg_id ms = map msg_id (messages d)"
    using message_state_frame [of r' "put_run r' d"] by (auto simp: put_run_def)
  then show ?thesis using assms by (simp add: touch_def settle_def put_run_def)
qed

lemma touch_emit:
  assumes "emit_event r name data term at d = Inr (r', d')"
  shows "touch r d r' d'"
  using assms
  by (auto simp: emit_event_def Let_def result_simps journal_insert_def touch_def count_event_def
      same_run_def put_run_def event_pk_def ob_pk_def)

lemma emit_event_count:
  assumes "emit_event r name data term at d = Inr (r', d')"
  shows "r' = count_event r (payload_size (event_payload r data at))"
  using assms by (simp add: emit_event_def Let_def result_simps)

lemma emit_event_row:
  assumes "emit_event r name data term at d = Inr (r', d')"
  shows "\<exists>n. r' = count_event r n \<and> 0 \<le> n \<and> \<not> over_budget r n term"
  using assms by (auto simp: emit_event_def Let_def result_simps payload_size_def)

section \<open>The abstract machine\<close>

text \<open>A legal change of a live run: along the diagram, fencing, and a budget that only shrinks.\<close>

definition budget_shrinks :: "chat_run \<Rightarrow> chat_run \<Rightarrow> bool" where
  "budget_shrinks r r' = (case r_remaining r of
     None \<Rightarrow> True | Some x \<Rightarrow> (case r_remaining r' of None \<Rightarrow> False | Some y \<Rightarrow> y \<le> x))"

definition legal :: "chat_run \<Rightarrow> chat_run \<Rightarrow> bool" where
  "legal r r' \<longleftrightarrow>
     same_run r r' \<and> active r \<and>
     (r_state r' = r_state r \<or> transition (r_state r) (r_state r')) \<and>
     (r_generation r' = r_generation r \<or>
      r_generation r' = r_generation r + 1 \<and> r_state r' = Running) \<and>
     budget_shrinks r r' \<and> row_ok r'"

definition fresh_run :: "chat_run \<Rightarrow> bool" where
  "fresh_run r = ((r_state r = Queued \<or> r_state r = Running) \<and> r_sequence r = 0 \<and> r_bytes r = 0 \<and>
     r_generation r = 0 \<and> row_ok r)"

text \<open>What the preparation callback may do to the new run: fix its snapshot and its messages.\<close>

definition prepared :: "chat_run \<Rightarrow> chat_run \<Rightarrow> bool" where
  "prepared r r' = (r' = r\<lparr>r_snapshot := r_snapshot r', r_message := r_message r',
     r_user_message := r_user_message r'\<rparr>)"

definition run_tables_same :: "db \<Rightarrow> db \<Rightarrow> bool" where
  "run_tables_same d d' = (runs d' = runs d \<and> events d' = events d \<and> outbox d' = outbox d \<and>
     operations d' = operations d \<and> checkpoints d' = checkpoints d)"

definition preparation_ok :: "preparation \<Rightarrow> bool" where
  "preparation_ok f \<longleftrightarrow> (\<forall>r p d r' d'. f r p d = Inr (r', d') \<longrightarrow> prepared r r' \<and> run_tables_same d d')"

text \<open>The moves of a receipt: confirmed once, uncertain for a side effect, repeated for a read.\<close>

definition receipt_new :: "db \<Rightarrow> run_operation \<Rightarrow> bool" where
  "receipt_new d x = (get_operation (op_run x) (op_key x) d = None \<and> op_state x = OpStarted \<and>
     op_attempts x = 1 \<and> operation_count (op_run x) d < 128 \<and> get_run_row (op_run x) d \<noteq> None)"

definition receipt_change :: "run_operation \<Rightarrow> run_operation \<Rightarrow> bool" where
  "receipt_change x y =
     (op_pk y = op_pk x \<and> op_input_hash y = op_input_hash x \<and> op_readonly y = op_readonly x \<and>
      op_state x \<noteq> OpSucceeded \<and>
      (op_state x = OpStarted \<and> op_state y = OpSucceeded \<and> op_attempts y = op_attempts x \<or>
       \<not> op_readonly x \<and> op_state y = OpUncertain \<and> op_attempts y = op_attempts x \<or>
       op_readonly x \<and> op_state y = OpStarted \<and> op_attempts y = op_attempts x + 1 \<and> op_attempts x < 3))"

inductive run_move :: "db \<Rightarrow> db \<Rightarrow> bool" where
  m_touch: "get_run_row (r_id r) d = Some r \<Longrightarrow> touch r d r' d' \<Longrightarrow> legal r r' \<Longrightarrow> run_move d d'"
| m_insert: "insert_run r d = Inr d' \<Longrightarrow> fresh_run r \<Longrightarrow> run_move d d'"
| m_prepare: "get_run_row (r_id r) d = Some r \<Longrightarrow> fresh_run r \<Longrightarrow> prepared r r' \<Longrightarrow> run_tables_same (put_run r' d) d'
    \<Longrightarrow> run_move d d'"
| m_checkpoint: "get_run_row (ck_run c) d \<noteq> None \<Longrightarrow>
    ck_revision c = (case get_checkpoint (ck_run c) d of None \<Rightarrow> 1 | Some old \<Rightarrow> ck_revision old + 1) \<Longrightarrow>
    run_move d (put_checkpoint c d)"
| m_receipt_new: "receipt_new d x \<Longrightarrow> run_move d (put_operation x d)"
| m_receipt: "get_operation (op_run x) (op_key x) d = Some x \<Longrightarrow> receipt_change x y \<Longrightarrow>
    run_move d (put_operation y d)"
| m_dispatch: "map ob_pk obs = map ob_pk (outbox d) \<Longrightarrow> run_move d (d\<lparr>outbox := obs\<rparr>)"
| m_other: "run_tables_same d d' \<Longrightarrow> run_move d d'"

inductive_cases run_move_cases: "run_move d d'"

abbreviation run_moves :: "db \<Rightarrow> db \<Rightarrow> bool" where
  "run_moves \<equiv> run_move\<^sup>*\<^sup>*"

section \<open>Invariants\<close>

definition one_active :: "db \<Rightarrow> bool" where
  "one_active d \<longleftrightarrow> (\<forall>r\<in>set (runs d). \<forall>s\<in>set (runs d).
     active r \<and> active s \<and> r_session r = r_session s \<longrightarrow> r_id r = r_id s)"

definition run_key :: "chat_run \<Rightarrow> uuid \<times> uuid" where
  "run_key r = (r_user r, r_client_key r)"

definition runs_ok :: "db \<Rightarrow> bool" where
  "runs_ok d \<longleftrightarrow> distinct (map r_id (runs d)) \<and> distinct (map run_key (runs d)) \<and>
     (\<forall>r\<in>set (runs d). row_ok r) \<and> one_active d"

definition journal_of :: "uuid \<Rightarrow> db \<Rightarrow> run_event list" where
  "journal_of rid d = filter (\<lambda>v. ev_run v = rid) (events d)"

definition journal_ok :: "db \<Rightarrow> bool" where
  "journal_ok d \<longleftrightarrow>
     (\<forall>r\<in>set (runs d). map ev_sequence (journal_of (r_id r) d) = [1..r_sequence r]) \<and>
     (\<forall>v\<in>set (events d). get_run_row (ev_run v) d \<noteq> None) \<and>
     map ob_pk (outbox d) = map event_pk (events d)"

definition receipt_ok :: "run_operation \<Rightarrow> bool" where
  "receipt_ok x = (1 \<le> op_attempts x \<and> op_attempts x \<le> 3 \<and> (\<not> op_readonly x \<longrightarrow> op_attempts x = 1) \<and>
     (op_state x = OpUncertain \<longrightarrow> \<not> op_readonly x))"

definition receipts_ok :: "db \<Rightarrow> bool" where
  "receipts_ok d \<longleftrightarrow> distinct (map op_pk (operations d)) \<and> (\<forall>x\<in>set (operations d). receipt_ok x) \<and>
     (\<forall>rid. operation_count rid d \<le> 128)"

definition checkpoints_ok :: "db \<Rightarrow> bool" where
  "checkpoints_ok d \<longleftrightarrow> distinct (map ck_run (checkpoints d)) \<and> (\<forall>c\<in>set (checkpoints d). 1 \<le> ck_revision c)"

definition runs_inv :: "db \<Rightarrow> bool" where
  "runs_inv d \<longleftrightarrow> runs_ok d \<and> journal_ok d \<and> receipts_ok d \<and> checkpoints_ok d"

lemma get_run_row_mem: "get_run_row i d = Some r \<Longrightarrow> r \<in> set (runs d) \<and> r_id r = i"
  by (auto dest: row_get_Some_mem row_get_Some_key)

lemma runs_ok_get: "runs_ok d \<Longrightarrow> r \<in> set (runs d) \<Longrightarrow> get_run_row (r_id r) d = Some r"
  by (simp add: runs_ok_def row_get_distinct)

text \<open>A row that takes the place of one with the same identity.\<close>

lemma runs_ok_replace:
  assumes ok: "runs_ok d" and r: "get_run_row (r_id r) d = Some r" and same: "same_run r r'"
    and new: "row_ok r'" "active r' \<longrightarrow> active r" and d': "runs d' = row_put r_id r' (runs d)"
  shows "runs_ok d'"
proof -
  have id: "r_id r' = r_id r" using same by (simp add: same_run_def)
  have rin: "r \<in> set (runs d)" using r by (auto dest: get_run_row_mem)
  have dist: "distinct (map r_id (runs d))" using ok by (simp add: runs_ok_def)
  have set': "set (runs d') = insert r' {x \<in> set (runs d). r_id x \<noteq> r_id r}"
    using set_row_put_distinct [OF dist, of r'] id d' by simp
  have map': "runs d' = map (\<lambda>x. if r_id x = r_id r then r' else x) (runs d)"
    using rin id d' by (auto simp: row_put_def)
  have only: "x = r" if "x \<in> set (runs d)" "r_id x = r_id r" for x
    using distinct_key_eq [OF dist that(1) rin that(2)] .
  have keys: "map run_key (runs d') = map run_key (runs d)"
    using only same by (auto simp: map' run_key_def same_run_def)
  have ids: "map r_id (runs d') = map r_id (runs d)"
    using id by (auto simp: map')
  have "one_active d'"
    unfolding one_active_def set'
    using ok rin new(2) same id unfolding runs_ok_def one_active_def same_run_def
    by (smt (verit, best) insert_iff mem_Collect_eq)
  moreover have "\<forall>x\<in>set (runs d'). row_ok x"
    using ok new(1) by (auto simp: set' runs_ok_def)
  ultimately show ?thesis using ok keys ids by (simp add: runs_ok_def)
qed

lemma journal_ok_touch:
  assumes ok: "runs_ok d" "journal_ok d" and r: "get_run_row (r_id r) d = Some r" and t: "touch r d r' d'"
  shows "journal_ok d'"
proof -
  have id: "r_id r' = r_id r" and seq: "r_sequence r \<le> r_sequence r'"
    and runs': "runs d' = row_put r_id r' (runs d)"
    using t by (simp_all add: touch_def same_run_def)
  have rin: "r \<in> set (runs d)" using r by (auto dest: get_run_row_mem)
  have seq0: "0 \<le> r_sequence r" using ok(1) rin by (auto simp: runs_ok_def row_ok_def journal_bounds_def)
  have dist: "distinct (map r_id (runs d))" using ok by (simp add: runs_ok_def)
  have set': "set (runs d') = insert r' {x \<in> set (runs d). r_id x \<noteq> r_id r}"
    using set_row_put_distinct [OF dist, of r'] id runs' by simp
  obtain evs obs where e: "events d' = events d @ evs" "map event_pk evs = map (Pair (r_id r)) [r_sequence r + 1..r_sequence r']"
    and o': "outbox d' = outbox d @ obs" "map ob_pk obs = map event_pk evs"
    using t by (auto simp: touch_def)
  have runs_of: "ev_run v = r_id r" if "v \<in> set evs" for v
  proof -
    have "event_pk v \<in> set (map (Pair (r_id r)) [r_sequence r + 1..r_sequence r'])"
      using that e(2) by (metis image_eqI list.set_map)
    then show ?thesis by (auto simp: event_pk_def)
  qed
  have seqs: "map ev_sequence evs = [r_sequence r + 1..r_sequence r']"
  proof -
    have "map snd (map event_pk evs) = map snd (map (Pair (r_id r)) [r_sequence r + 1..r_sequence r'])"
      using e(2) by simp
    then show ?thesis by (simp add: event_pk_def o_def)
  qed
  have mine: "journal_of (r_id r) d' = journal_of (r_id r) d @ evs"
    using runs_of by (auto simp: journal_of_def e(1) intro: filter_True)
  have other: "journal_of i d' = journal_of i d" if "i \<noteq> r_id r" for i
    using runs_of that by (auto simp: journal_of_def e(1) filter_empty_conv)
  have "map ev_sequence (journal_of (r_id x) d') = [1..r_sequence x]" if x: "x \<in> set (runs d')" for x
  proof (cases "x = r'")
    case True
    have "map ev_sequence (journal_of (r_id r) d) = [1..r_sequence r]"
      using ok(2) rin by (simp add: journal_ok_def)
    then show ?thesis
      using True mine seqs upto_join [OF seq0 seq] id by simp
  next
    case False
    then have "x \<in> set (runs d)" "r_id x \<noteq> r_id r" using x by (auto simp: set')
    then show ?thesis using ok(2) other by (simp add: journal_ok_def)
  qed
  moreover have "get_run_row (ev_run v) d' \<noteq> None" if "v \<in> set (events d')" for v
    using that ok(2) runs_of id by (auto simp: e(1) runs' row_get_put journal_ok_def)
  moreover have "map ob_pk (outbox d') = map event_pk (events d')"
    using ok(2) e o' by (simp add: journal_ok_def)
  ultimately show ?thesis by (simp add: journal_ok_def)
qed

section \<open>Every move keeps the invariants\<close>

lemma same_run_prepared:
  assumes "prepared r r'"
  shows "same_run r r' \<and> r_state r' = r_state r \<and> r_sequence r' = r_sequence r \<and> (row_ok r \<longrightarrow> row_ok r')"
proof -
  have "row_ok (r\<lparr>r_snapshot := a, r_message := b, r_user_message := c\<rparr>) = row_ok r" for a b c
    by (cases "r_state r") (simp_all add: row_ok_def lease_shape_def journal_bounds_def)
  with assms show ?thesis
    unfolding prepared_def by (elim ssubst) (simp add: same_run_def)
qed

lemma legal_row: "legal r r' \<Longrightarrow> same_run r r' \<and> row_ok r' \<and> (active r' \<longrightarrow> active r)"
  by (auto simp: legal_def)

lemma runs_ok_same: "runs d' = runs d \<Longrightarrow> runs_ok d' = runs_ok d"
  by (simp add: runs_ok_def one_active_def)

lemma journal_ok_same:
  "runs d' = runs d \<Longrightarrow> events d' = events d \<Longrightarrow> map ob_pk (outbox d') = map ob_pk (outbox d)
   \<Longrightarrow> journal_ok d' = journal_ok d"
  by (simp add: journal_ok_def journal_of_def)

lemma receipts_ok_same: "operations d' = operations d \<Longrightarrow> receipts_ok d' = receipts_ok d"
  by (simp add: receipts_ok_def operation_count_def)

lemma checkpoints_ok_same: "checkpoints d' = checkpoints d \<Longrightarrow> checkpoints_ok d' = checkpoints_ok d"
  by (simp add: checkpoints_ok_def)

lemma insert_run_Inr:
  assumes "insert_run r d = Inr d'"
  shows "d' = d\<lparr>runs := runs d @ [r]\<rparr> \<and> get_run_row (r_id r) d = None \<and>
    find_idempotent_run (r_client_key r) (r_user r) d = None \<and>
    (active r \<longrightarrow> active_session_run (r_session r) d = None)"
  using assms unfolding insert_run_def active_def by (auto split: if_splits)

lemma insert_keeps:
  assumes i: "insert_run r d = Inr d'" and f: "fresh_run r" and ok: "runs_ok d" "journal_ok d"
  shows "runs_ok d' \<and> journal_ok d'"
proof -
  note I = insert_run_Inr [OF i]
  have d': "runs d' = runs d @ [r]" "events d' = events d" "outbox d' = outbox d" using I by simp_all
  have new: "r_id r \<notin> set (map r_id (runs d))" using I by (auto simp: row_get_None)
  have key: "run_key r \<notin> set (map run_key (runs d))"
    using I by (auto simp: find_idempotent_run_def find_None_iff run_key_def)
  have free: "\<not> (active s \<and> r_session s = r_session r)" if "s \<in> set (runs d)" for s
  proof -
    have "active r" using f by (auto simp: fresh_run_def)
    then have "active_session_run (r_session r) d = None" using I by blast
    with that show ?thesis
      by (auto simp: active_session_run_def find_None_iff active_def simp del: active_simps)
  qed
  have "one_active d'"
  proof -
    have "one_active d" using ok(1) by (simp add: runs_ok_def)
    then show ?thesis
      using free unfolding one_active_def d'(1) set_append list.set by (metis UnE empty_iff insertE)
  qed
  moreover have "\<forall>x\<in>set (runs d'). row_ok x"
    using ok(1) f by (simp add: runs_ok_def fresh_run_def d'(1))
  ultimately have "runs_ok d'"
    using ok(1) new key by (simp add: runs_ok_def d'(1))
  moreover have "journal_of (r_id r) d' = []"
  proof -
    have "get_run_row (r_id r) d = None" "\<forall>v\<in>set (events d). get_run_row (ev_run v) d \<noteq> None"
      using ok(2) I by (simp_all add: journal_ok_def)
    then show ?thesis by (auto simp: journal_of_def d'(2) filter_empty_conv)
  qed
  then have "journal_ok d'"
    using ok(2) f by (auto simp: journal_ok_def d' journal_of_def fresh_run_def row_get_append split: option.split)
  ultimately show ?thesis ..
qed

lemma prepare_keeps:
  assumes "get_run_row (r_id r) d = Some r" "prepared r r'" "run_tables_same (put_run r' d) d'"
    and ok: "runs_ok d" "journal_ok d"
  shows "runs_ok d' \<and> journal_ok d'"
proof -
  have s: "same_run r r'" "r_sequence r' = r_sequence r" "active r' \<longrightarrow> active r" "row_ok r'"
    using same_run_prepared [OF assms(2)] ok(1) get_run_row_mem [OF assms(1)] by (auto simp: runs_ok_def)
  have d': "runs d' = row_put r_id r' (runs d)" "events d' = events d" "outbox d' = outbox d"
    using assms(3) by (simp_all add: run_tables_same_def put_run_def)
  have "runs_ok d'" using runs_ok_replace [OF ok(1) assms(1) s(1) s(4) s(3) d'(1)] .
  moreover have "journal_ok (put_run r' d)"
    using journal_ok_touch [OF ok assms(1) touch_put [OF s(1,2)]] .
  then have "journal_ok d'"
    using d' by (subst journal_ok_same [of _ "put_run r' d"]) (simp_all add: put_run_def)
  ultimately show ?thesis ..
qed

lemma length_filter_row_put:
  "length (filter (\<lambda>x. op_run x = i) (row_put op_pk y xs)) \<le>
   (if \<exists>x\<in>set xs. op_pk x = op_pk y then length (filter (\<lambda>x. op_run x = i) xs)
    else length (filter (\<lambda>x. op_run x = i) xs) + (if op_run y = i then 1 else 0))"
proof -
  have same: "op_pk x = op_pk y \<Longrightarrow> op_run x = op_run y" for x by (simp add: op_pk_def)
  have "length (filter (\<lambda>x. op_run x = i) (map (\<lambda>x. if op_pk x = op_pk y then y else x) xs))
      = length (filter (\<lambda>x. op_run x = i) xs)"
    by (induction xs) (auto dest: same)
  then show ?thesis by (auto simp: row_put_def)
qed

lemma receipts_put:
  assumes ok: "receipts_ok d" and y: "receipt_ok y"
    and room: "get_operation (op_run y) (op_key y) d = None \<longrightarrow> operation_count (op_run y) d < 128"
  shows "receipts_ok (put_operation y d)"
proof -
  have "\<forall>x\<in>set (operations (put_operation y d)). receipt_ok x"
    using ok y set_row_put_subset [of op_pk y "operations d"]
    by (auto simp: receipts_ok_def put_operation_def)
  moreover have "operation_count rid (put_operation y d) \<le> 128" for rid
  proof -
    have "operation_count rid d \<le> 128" using ok by (simp add: receipts_ok_def)
    moreover have "\<not> (\<exists>x\<in>set (operations d). op_pk x = op_pk y) \<Longrightarrow> operation_count (op_run y) d < 128"
      using room by (auto simp: get_operation_def row_get_None op_pk_def)
    ultimately show ?thesis
      using length_filter_row_put [of rid y "operations d"]
      by (auto simp: operation_count_def put_operation_def split: if_splits)
  qed
  ultimately show ?thesis
    using ok by (auto simp: receipts_ok_def put_operation_def)
qed

lemma receipt_change_ok: "receipt_change x y \<Longrightarrow> receipt_ok x \<Longrightarrow> receipt_ok y"
  by (auto simp: receipt_change_def receipt_ok_def)

lemma op_pk_parts: "op_pk y = op_pk x \<longleftrightarrow> op_run y = op_run x \<and> op_key y = op_key x"
  by (simp add: op_pk_def)

lemma checkpoints_put:
  assumes "checkpoints_ok d"
    and "ck_revision c = (case get_checkpoint (ck_run c) d of None \<Rightarrow> 1 | Some old \<Rightarrow> ck_revision old + 1)"
  shows "checkpoints_ok (put_checkpoint c d)"
proof -
  have "1 \<le> ck_revision c"
  proof (cases "get_checkpoint (ck_run c) d")
    case (Some old)
    then have "1 \<le> ck_revision old"
      using assms(1) row_get_Some_mem [OF Some] by (simp add: checkpoints_ok_def)
    with Some assms(2) show ?thesis by simp
  qed (use assms(2) in simp)
  then show ?thesis
    using assms(1) set_row_put_subset [of ck_run c "checkpoints d"]
    by (auto simp: checkpoints_ok_def put_checkpoint_def)
qed

theorem run_move_keeps:
  assumes "run_move d d'" and "runs_inv d"
  shows "runs_inv d'"
  using assms
proof (induction rule: run_move.induct)
  case (m_touch r d r' d')
  then have ok: "runs_ok d" "journal_ok d" by (simp_all add: runs_inv_def)
  note L = legal_row [OF m_touch.hyps(3)]
  have runs': "runs d' = row_put r_id r' (runs d)" using m_touch.hyps(2) by (simp add: touch_def)
  have "runs_ok d'" using runs_ok_replace [OF ok(1) m_touch.hyps(1) _ _ _ runs'] L by blast
  moreover have "journal_ok d'" using journal_ok_touch [OF ok m_touch.hyps(1,2)] .
  ultimately show ?case
    using m_touch.prems touch_frame [OF m_touch.hyps(2)] receipts_ok_same [of d' d] checkpoints_ok_same [of d' d]
    by (simp add: runs_inv_def)
next
  case (m_insert r d d')
  then show ?case
    using insert_keeps [OF m_insert.hyps] insert_run_Inr [OF m_insert.hyps(1)]
      receipts_ok_same [of d' d] checkpoints_ok_same [of d' d]
    by (simp add: runs_inv_def)
next
  case (m_prepare r d r' d')
  then have ok: "runs_ok d" "journal_ok d" by (simp_all add: runs_inv_def)
  have "operations d' = operations d" "checkpoints d' = checkpoints d"
    using m_prepare.hyps(4) by (simp_all add: run_tables_same_def put_run_def)
  then show ?case
    using m_prepare.prems prepare_keeps [OF m_prepare.hyps(1,3,4) ok] receipts_ok_same [of d' d] checkpoints_ok_same [of d' d]
    by (simp add: runs_inv_def)
next
  case (m_checkpoint c d)
  then show ?case
    using checkpoints_put [of d c] runs_ok_same [of "put_checkpoint c d" d]
      journal_ok_same [of "put_checkpoint c d" d] receipts_ok_same [of "put_checkpoint c d" d]
    by (simp add: runs_inv_def put_checkpoint_def)
next
  case (m_receipt_new d x)
  have "receipts_ok (put_operation x d)"
    using m_receipt_new by (intro receipts_put) (simp_all add: runs_inv_def receipt_new_def receipt_ok_def)
  then show ?case
    using m_receipt_new.prems runs_ok_same [of "put_operation x d" d]
      journal_ok_same [of "put_operation x d" d] checkpoints_ok_same [of "put_operation x d" d]
    by (simp add: runs_inv_def put_operation_def)
next
  case (m_receipt x d y)
  have "receipt_ok x"
    using m_receipt.prems row_get_Some_mem [OF m_receipt.hyps(1) [unfolded get_operation_def]]
    by (simp add: runs_inv_def receipts_ok_def)
  then have "receipts_ok (put_operation y d)"
    using m_receipt receipt_change_ok [OF m_receipt.hyps(2)]
    by (intro receipts_put) (auto simp: runs_inv_def receipt_change_def op_pk_parts)
  then show ?case
    using m_receipt.prems runs_ok_same [of "put_operation y d" d]
      journal_ok_same [of "put_operation y d" d] checkpoints_ok_same [of "put_operation y d" d]
    by (simp add: runs_inv_def put_operation_def)
next
  case (m_dispatch obs d)
  then show ?case
    using runs_ok_same [of "d\<lparr>outbox := obs\<rparr>" d] journal_ok_same [of "d\<lparr>outbox := obs\<rparr>" d]
      receipts_ok_same [of "d\<lparr>outbox := obs\<rparr>" d] checkpoints_ok_same [of "d\<lparr>outbox := obs\<rparr>" d]
    by (simp add: runs_inv_def)
next
  case (m_other d d')
  then show ?case
    using runs_ok_same [of d' d] journal_ok_same [of d' d] receipts_ok_same [of d' d] checkpoints_ok_same [of d' d]
    by (simp add: runs_inv_def run_tables_same_def)
qed

lemma run_moves_keep:
  assumes "run_moves d d'" and "runs_inv d"
  shows "runs_inv d'"
  using assms by (induction rule: rtranclp_induct) (auto intro: run_move_keeps)

section \<open>How a run evolves\<close>

definition evolves :: "chat_run \<Rightarrow> chat_run \<Rightarrow> bool" where
  "evolves r r' \<longleftrightarrow> same_run r r' \<and> r_generation r \<le> r_generation r' \<and> r_sequence r \<le> r_sequence r' \<and>
     transition\<^sup>*\<^sup>* (r_state r) (r_state r') \<and> (terminal r \<longrightarrow> r' = r) \<and> budget_shrinks r r'"

lemma budget_shrinks_refl: "budget_shrinks r r"
  by (simp add: budget_shrinks_def split: option.split)

lemma budget_shrinks_trans: "budget_shrinks a b \<Longrightarrow> budget_shrinks b c \<Longrightarrow> budget_shrinks a c"
  by (auto simp: budget_shrinks_def split: option.splits)

lemma evolves_refl: "evolves r r"
  by (simp add: evolves_def budget_shrinks_refl)

lemma same_run_trans: "same_run a b \<Longrightarrow> same_run b c \<Longrightarrow> same_run a c"
  by (simp add: same_run_def)

lemma evolves_trans:
  assumes "evolves a b" "evolves b c"
  shows "evolves a c"
proof -
  have "terminal a \<longrightarrow> c = a" using assms unfolding evolves_def by metis
  then show ?thesis
    using assms same_run_trans [of a b c] budget_shrinks_trans [of a b c] rtranclp_trans [of transition]
    unfolding evolves_def by (metis order_trans)
qed

lemma legal_evolves:
  assumes "legal r r'" "touch r d r' d'"
  shows "evolves r r'"
proof -
  have "transition\<^sup>*\<^sup>* (r_state r) (r_state r')" using assms(1) by (auto simp: legal_def)
  moreover have "\<not> terminal r" using assms(1) by (auto simp: legal_def)
  ultimately show ?thesis using assms unfolding legal_def touch_def evolves_def by auto
qed

definition journal_grows :: "uuid \<Rightarrow> chat_run \<Rightarrow> db \<Rightarrow> db \<Rightarrow> bool" where
  "journal_grows i r d d' \<longleftrightarrow> prefix (journal_of i d) (journal_of i d') \<and>
     (terminal r \<longrightarrow> journal_of i d' = journal_of i d)"

lemma touch_journal:
  assumes "touch r d r' d'"
  shows "prefix (journal_of i d) (journal_of i d') \<and> (i \<noteq> r_id r \<longrightarrow> journal_of i d' = journal_of i d)"
proof -
  obtain evs where e: "events d' = events d @ evs" "map event_pk evs = map (Pair (r_id r)) [r_sequence r + 1..r_sequence r']"
    using assms by (auto simp: touch_def)
  have "ev_run v = r_id r" if "v \<in> set evs" for v
  proof -
    have "event_pk v \<in> set (map (Pair (r_id r)) [r_sequence r + 1..r_sequence r'])"
      using that e(2) by (metis image_eqI list.set_map)
    then show ?thesis by (auto simp: event_pk_def)
  qed
  then show ?thesis by (auto simp: journal_of_def e(1) filter_empty_conv)
qed

lemma fresh_prepared_evolves:
  assumes "fresh_run r" "prepared r r'"
  shows "evolves r r'"
proof -
  have "r_generation r' = r_generation r \<and> r_remaining r' = r_remaining r"
    using assms(2) unfolding prepared_def by (elim ssubst) simp
  moreover have "\<not> terminal r" using assms(1) by (auto simp: fresh_run_def)
  ultimately show ?thesis
    using same_run_prepared [OF assms(2)] by (auto simp: evolves_def budget_shrinks_def split: option.split)
qed

lemma journal_grows_refl: "events d' = events d \<Longrightarrow> journal_grows i r d d'"
  by (simp add: journal_grows_def journal_of_def)

lemma same_rows_evolve:
  "runs d' = runs d \<Longrightarrow> events d' = events d \<Longrightarrow> get_run_row i d = Some r \<Longrightarrow>
   \<exists>r'. get_run_row i d' = Some r' \<and> evolves r r' \<and> journal_grows i r d d'"
  by (simp add: evolves_refl journal_grows_def journal_of_def)

lemma row_put_evolves:
  assumes "get_run_row (r_id r0) d = Some r0" "runs d' = row_put r_id r0' (runs d)" "evolves r0 r0'"
    and "\<And>i. prefix (journal_of i d) (journal_of i d')" "\<And>i. i \<noteq> r_id r0 \<Longrightarrow> journal_of i d' = journal_of i d"
    and "\<not> terminal r0" and "get_run_row i d = Some r"
  shows "\<exists>r'. get_run_row i d' = Some r' \<and> evolves r r' \<and> journal_grows i r d d'"
proof (cases "i = r_id r0")
  case True
  then have "r = r0" using assms(1,7) by simp
  with True assms show ?thesis
    by (simp add: row_get_put journal_grows_def evolves_def same_run_def del: terminal_simps)
next
  case False
  then show ?thesis
    using assms evolves_refl [of r]
    by (simp add: row_get_put journal_grows_def same_run_def evolves_def [of r0] del: terminal_simps)
qed

theorem run_move_evolves:
  assumes "run_move d d'" and "get_run_row i d = Some r"
  shows "\<exists>r'. get_run_row i d' = Some r' \<and> evolves r r' \<and> journal_grows i r d d'"
  using assms
proof (induction rule: run_move.induct)
  case (m_touch r0 d r0' d')
  have "runs d' = row_put r_id r0' (runs d)" using m_touch.hyps(2) by (simp add: touch_def)
  moreover have "\<not> terminal r0" using m_touch.hyps(3) by (auto simp: legal_def)
  ultimately show ?case
    using m_touch touch_journal [OF m_touch.hyps(2)] legal_evolves [OF m_touch.hyps(3,2)]
    by (intro row_put_evolves [of r0]) auto
next
  case (m_insert r0 d d')
  then have "runs d' = runs d @ [r0]" "events d' = events d"
    using insert_run_Inr [OF m_insert.hyps(1)] by simp_all
  then show ?case
    using m_insert.prems by (simp add: row_get_append evolves_refl journal_grows_def journal_of_def)
next
  case (m_prepare r0 d r0' d')
  have d': "runs d' = row_put r_id r0' (runs d)" "events d' = events d"
    using m_prepare.hyps(4) by (simp_all add: run_tables_same_def put_run_def)
  moreover have "\<not> terminal r0" using m_prepare.hyps(2) by (auto simp: fresh_run_def)
  ultimately show ?case
    using m_prepare fresh_prepared_evolves [OF m_prepare.hyps(2,3)]
    by (intro row_put_evolves [of r0 d d' r0' i r]) (auto simp: journal_of_def)
qed (auto intro: evolves_refl journal_grows_refl simp: put_checkpoint_def put_operation_def run_tables_same_def)

lemma run_moves_evolve:
  assumes "run_moves d d'" and "get_run_row i d = Some r"
  shows "\<exists>r'. get_run_row i d' = Some r' \<and> evolves r r' \<and> journal_grows i r d d'"
  using assms
proof (induction rule: rtranclp_induct)
  case base
  then show ?case by (auto intro: evolves_refl journal_grows_refl)
next
  case (step y z)
  then obtain r1 where r1: "get_run_row i y = Some r1" "evolves r r1" "journal_grows i r d y" by auto
  obtain r2 where r2: "get_run_row i z = Some r2" "evolves r1 r2" "journal_grows i r1 y z"
    using run_move_evolves [OF step.hyps(2) r1(1)] by auto
  have "terminal r \<longrightarrow> r1 = r" using r1(2) by (simp add: evolves_def)
  then have "journal_grows i r d z"
    using r1(3) r2(3) unfolding journal_grows_def by (metis prefix_order.trans)
  then show ?case using r2(1) evolves_trans [OF r1(2) r2(2)] by blast
qed

section \<open>Legal changes of a row\<close>

definition legal_change :: "chat_run \<Rightarrow> chat_run \<Rightarrow> bool" where
  "legal_change r r' \<longleftrightarrow>
     same_run r r' \<and> active r \<and>
     (r_state r' = r_state r \<or> transition (r_state r) (r_state r')) \<and>
     (r_generation r' = r_generation r \<or>
      r_generation r' = r_generation r + 1 \<and> r_state r' = Running) \<and>
     budget_shrinks r r' \<and> lease_shape r' \<and> r_sequence r' = r_sequence r \<and> r_bytes r' = r_bytes r"

lemma legal_put: "legal_change r r' \<Longrightarrow> row_ok r \<Longrightarrow> legal r r'"
  by (auto simp: legal_change_def legal_def row_ok_def journal_bounds_def)

lemma count_event_simps [simp]:
  "r_id (count_event r n) = r_id r" "r_user (count_event r n) = r_user r"
  "r_session (count_event r n) = r_session r" "r_state (count_event r n) = r_state r"
  "r_generation (count_event r n) = r_generation r" "r_sequence (count_event r n) = r_sequence r + 1"
  "r_bytes (count_event r n) = r_bytes r + n" "r_owner (count_event r n) = r_owner r"
  "r_lease (count_event r n) = r_lease r" "r_active (count_event r n) = r_active r"
  "r_remaining (count_event r n) = r_remaining r" "r_resume (count_event r n) = r_resume r"
  "r_expires (count_event r n) = r_expires r" "r_kind (count_event r n) = r_kind r"
  "r_message (count_event r n) = r_message r" "r_snapshot (count_event r n) = r_snapshot r"
  "r_client_key (count_event r n) = r_client_key r" "r_fingerprint (count_event r n) = r_fingerprint r"
  "same_run r (count_event r n)" "same_run s (count_event r n) = same_run s r"
  by (simp_all add: count_event_def same_run_def)

lemma budget_shrinks_count [simp]: "budget_shrinks s (count_event r n) = budget_shrinks s r"
  by (simp add: budget_shrinks_def split: option.split)

lemma lease_shape_count [simp]: "lease_shape (count_event r n) = lease_shape r"
  by (cases "r_state r") (simp_all add: lease_shape_def)

lemma legal_count:
  assumes "legal_change r r1" "row_ok r" "0 \<le> n" "\<not> over_budget r1 n term" "term \<longrightarrow> terminal r1"
  shows "legal r (count_event r1 n)"
proof -
  have r: "0 \<le> r_sequence r1" "0 \<le> r_bytes r1" "0 \<le> r_generation r1"
    using assms(1,2) by (auto simp: legal_change_def row_ok_def journal_bounds_def)
  have b: "r_sequence r1 < (if term then 8200 else 8192)" "r_bytes r1 + n \<le> (if term then 8000000 else 6000000)"
    using assms(4) by (simp_all add: over_budget_def not_le not_less del: terminal_simps)
  have "journal_bounds (count_event r1 n)"
  proof (cases "term")
    case True
    with assms(5) have "terminal r1" by blast
    with b r True assms(3) show ?thesis by (simp add: journal_bounds_def terminal_def)
  next
    case False
    then show ?thesis using b r assms(3) by (simp add: journal_bounds_def)
  qed
  moreover have "lease_shape (count_event r1 n)" using assms(1) by (simp add: legal_change_def)
  ultimately show ?thesis
    using assms(1) by (simp add: legal_change_def legal_def row_ok_def del: active_simps)
qed

end
