(* ===== verification/RunSimulation.thy ===== *)
theory RunSimulation
  imports RunLifecycle
begin

text \<open>
  Every operation of \<open>Runs\<close> is a sequence of moves of the abstract machine of
  \<open>RunLifecycle\<close>: the operation's effect on the database, on success and on every error, is
  reachable by \<open>run_moves\<close>. \<open>run_step\<close> collects the operations, and what the moves keep
  holds in every state they reach.
\<close>

lemma moves_transaction:
  assumes "\<And>res d'. f d = Inr (res, d') \<Longrightarrow> run_moves d d'"
  shows "run_moves d (snd (transaction f d))"
  by (rule transaction_cases) (use assms in auto)

lemma inv_runs: "runs_inv d \<Longrightarrow> runs_ok d"
  by (simp add: runs_inv_def)

lemma inv_row: "runs_inv d \<Longrightarrow> get_run_row i d = Some r \<Longrightarrow> row_ok r \<and> r_id r = i"
  using get_run_row_mem [of i d r] by (simp add: runs_inv_def runs_ok_def)

section \<open>Rows that the operations find\<close>

lemma get_run_of_row:
  assumes "get_run_of k uid rid d = Some r" "runs_inv d"
  shows "get_run_row rid d = Some r \<and> r_id r = rid \<and> r_user r = uid \<and> r_kind r = k \<and> row_ok r"
proof -
  have "r \<in> set (runs d)" "r_id r = rid" "r_user r = uid" "r_kind r = k"
    using find_Some_D [OF assms(1) [unfolded get_run_of_def]] by auto
  then show ?thesis
    using assms(2) runs_ok_get [OF inv_runs [OF assms(2)], of r] by (auto simp: runs_inv_def runs_ok_def)
qed

lemma get_row_row:
  assumes "get_row e uid rid a d = Inr r" "runs_inv d"
  shows "get_run_row (r_id r) d = Some r \<and> r_id r = rid \<and> r_user r = uid \<and> r_kind r = re_kind e \<and> row_ok r"
  using assms get_run_of_row by (auto simp: get_row_def result_simps)

lemma owned_row:
  assumes "owned e c allow dl t1 t2 d = Inr r" "runs_inv d"
  shows "get_run_row (r_id r) d = Some r \<and> r_id r = cl_run c \<and> r_user r = cl_user c \<and> row_ok r \<and>
    r_owner r = Some (cl_token c) \<and> r_generation r = cl_generation c \<and>
    (\<exists>l. r_lease r = Some l \<and> t1 < l) \<and> (r_state r = Running \<or> allow \<and> r_state r = Cancelling) \<and>
    (dl \<longrightarrow> t2 < r_expires r)"
proof -
  have g: "get_row e (cl_user c) (cl_run c) False d = Inr r"
    and "r_owner r = Some (cl_token c)" "r_generation r = cl_generation c"
    and "r_state r = Running \<or> r_state r = Cancelling" "r_state r = Cancelling \<longrightarrow> allow"
    and "\<not> (case r_lease r of None \<Rightarrow> True | Some l \<Rightarrow> l \<le> t1)" "dl \<longrightarrow> t2 < r_expires r"
    using assms(1) by (auto simp: owned_def result_simps)
  then show ?thesis
    using get_row_row [OF g assms(2)] by (auto split: option.splits)
qed

lemma owned_or_guard_row:
  assumes "owned_or_guard e uid rid claim clk d = Inr r" "runs_inv d"
  shows "get_run_row (r_id r) d = Some r \<and> row_ok r \<and> r_state r = Running"
proof (cases claim)
  case None
  then have "get_row e uid rid True d = Inr r" "r_state r = Running"
    using assms(1) by (auto simp: owned_or_guard_def guard_def result_simps)
  then show ?thesis using get_row_row assms(2) by blast
next
  case (Some c)
  then show ?thesis using assms owned_row [of e c False True "clk 0" "clk 1" d r]
    by (auto simp: owned_or_guard_def)
qed

section \<open>One event, one change\<close>

lemma emit_step:
  assumes r: "get_run_row (r_id r) d = Some r" "row_ok r" and ch: "legal_change r r1"
    and d1: "d1 = d \<or> touch r d r1 d1"
    and e: "emit_event r1 name data term at d1 = Inr (r', d')" and t: "term \<longrightarrow> terminal r1"
  shows "run_move d d' \<and> get_run_row (r_id r) d' = Some r' \<and> legal r r' \<and> touch r d r' d' \<and>
    (\<exists>n. r' = count_event r1 n)"
proof -
  have s: "same_run r r1" "r_sequence r1 = r_sequence r" using ch by (auto simp: legal_change_def)
  have t1: "touch r1 d1 r' d'" using touch_emit [OF e] .
  have touch: "touch r d r' d'"
  proof (rule disjE [OF d1])
    assume "d1 = d"
    then show ?thesis using touch_from [OF t1 s] by simp
  next
    assume "touch r d r1 d1"
    then show ?thesis using touch_trans t1 by blast
  qed
  obtain n where n: "r' = count_event r1 n" "0 \<le> n" "\<not> over_budget r1 n term"
    using emit_event_row [OF e] by auto
  have l: "legal r r'" using legal_count [OF ch r(2) n(2,3) t] n(1) by simp
  show ?thesis
    using m_touch [OF r(1) touch l] touch_row [OF touch] l touch n(1) by blast
qed

lemma put_step:
  assumes r: "get_run_row (r_id r) d = Some r" "row_ok r" and ch: "legal_change r r1" and d1: "touch r d r1 d1"
  shows "run_move d d1 \<and> get_run_row (r_id r) d1 = Some r1"
  using m_touch [OF r(1) d1 legal_put [OF ch r(2)]] touch_row [OF d1] by simp

text \<open>Changes of the fields of a row that has the shape its state asks for.\<close>

lemmas change_simps = legal_change_def same_run_def lease_shape_def row_ok_def release_lease_def
  budget_shrinks_def

lemma keep_change: "row_ok r \<Longrightarrow> active r \<Longrightarrow> legal_change r r"
  by (auto simp: legal_change_def row_ok_def budget_shrinks_refl)

lemma interrupt_change:
  "row_ok r \<Longrightarrow> r_state r = Waiting \<or> r_state r = Running \<Longrightarrow>
   legal_change r (r\<lparr>r_state := Interrupted, r_resume := None\<rparr>)"
  by (auto simp: change_simps split: option.split)

lemma interrupt_running_change:
  "row_ok r \<Longrightarrow> r_state r = Running \<Longrightarrow> legal_change r (r\<lparr>r_state := Interrupted\<rparr>)"
  by (auto simp: change_simps split: option.split)

lemma fail_change:
  "row_ok r \<Longrightarrow> r_state r = Running \<or> r_state r = Queued \<or> r_state r = Cancelling \<Longrightarrow>
   legal_change r (r\<lparr>r_state := Failed\<rparr>)"
  by (auto simp: change_simps split: option.split)

lemma cancel_change:
  "row_ok r \<Longrightarrow> active r \<Longrightarrow> legal_change r (r\<lparr>r_state := Cancelled, r_resume := None\<rparr>)"
  by (auto simp: change_simps split: option.split)

lemma touch_refl:
  assumes "get_run_row (r_id r) d = Some r" "runs_inv d"
  shows "touch r d r d"
  using row_put_id [OF assms(1)] assms(2) by (simp add: touch_def runs_inv_def runs_ok_def)

section \<open>Expiry, events and the end of an answer\<close>

lemma count_event_state [simp]:
  "(count_event r n)\<lparr>r_state := s\<rparr> = count_event (r\<lparr>r_state := s\<rparr>) n"
  "(count_event r n)\<lparr>r_resume := k\<rparr> = count_event (r\<lparr>r_resume := k\<rparr>) n"
  by (simp_all add: count_event_def)

lemma over_budget_state [simp]:
  "over_budget (r\<lparr>r_state := s\<rparr>) n term = over_budget r n term"
  "over_budget (r\<lparr>r_resume := k\<rparr>) n term = over_budget r n term"
  by (simp_all add: over_budget_def)

text \<open>An event of the live row, then the change that ends the run.\<close>

lemma emit_then_end:
  assumes r: "get_run_row (r_id r) d = Some r" "row_ok r" and ch: "legal_change r r1" "terminal r1"
    and e: "emit_event r name data True at d = Inr (q, d1)"
    and q': "\<And>n. q = count_event r n \<Longrightarrow> q' = count_event r1 n" and ob: "\<And>n. over_budget r1 n True = over_budget r n True"
    and d': "d' = settle q' d1 \<or> d' = put_run q' d1"
  shows "run_move d d' \<and> get_run_row (r_id r) d' = Some q' \<and> legal r q' \<and> touch r d q' d'"
proof -
  obtain n where n: "q = count_event r n" "0 \<le> n" "\<not> over_budget r n True"
    using emit_event_row [OF e] by auto
  have q: "q' = count_event r1 n" by (rule q' [OF n(1)])
  have l: "legal r q'" using legal_count [OF ch(1) r(2) n(2), of True] n(3) ob ch(2) by (simp add: q)
  have "same_run q q'" "r_sequence q' = r_sequence q"
    using ch(1) by (auto simp: q n(1) legal_change_def same_run_def)
  then have "touch q d1 q' d'" using d' touch_settle touch_put by blast
  then have touch: "touch r d q' d'" using touch_trans [OF touch_emit [OF e]] by blast
  show ?thesis using m_touch [OF r(1) touch l] touch_row [OF touch] l touch by blast
qed

lemma touch_others: "touch r d r' d' \<Longrightarrow> i \<noteq> r_id r \<Longrightarrow> get_run_row i d' = get_run_row i d"
  by (simp add: touch_def same_run_def row_get_put)

lemma touch_ids:
  assumes "touch r d r' d'" "get_run_row (r_id r) d = Some q"
  shows "map r_id (runs d') = map r_id (runs d)"
proof -
  have "runs d' = row_put r_id r' (runs d)" "r_id r' = r_id r"
    using assms(1) by (simp_all add: touch_def same_run_def)
  then show ?thesis using map_key_row_put_found [of r_id r' "runs d" q] assms(2) by simp
qed

lemma expire_step:
  assumes e: "expire e r now at d = Inr (r', d')" and inv: "runs_inv d"
    and r: "get_run_row (r_id r) d = Some r"
  shows "run_moves d d' \<and> get_run_row (r_id r) d' = Some r' \<and> runs_inv d' \<and> r_id r' = r_id r
    \<and> r_user r' = r_user r \<and> (r_state r' = r_state r \<longrightarrow> r' = r \<and> d' = d) \<and>
    (r_state r' = r_state r \<or> r_state r' = Interrupted) \<and>
    (\<forall>i. i \<noteq> r_id r \<longrightarrow> get_run_row i d' = get_run_row i d) \<and> map r_id (runs d') = map r_id (runs d)"
proof -
  have ok: "row_ok r" using inv_row [OF inv r] by simp
  consider (same) "r' = r" "d' = d"
    | (waiting) r1 d1 where "r_state r = Waiting" "emit_event r ''error'' (error_data e ''HITL_EXPIRED'' 409) True at d = Inr (r1, d1)"
        "r' = r1\<lparr>r_state := Interrupted, r_resume := None\<rparr>" "d' = settle r' d1"
    | (running) r1 d1 where "r_state r = Running" "emit_event r ''error'' (error_data e ''RUN_INTERRUPTED'' 409) True at d = Inr (r1, d1)"
        "r' = r1\<lparr>r_state := Interrupted\<rparr>" "d' = put_run r' d1"
    using e by (auto simp: expire_def result_simps Let_def split: if_splits)
  then show ?thesis
  proof cases
    case same
    then show ?thesis using inv r by simp
  next
    case waiting
    have "run_move d d' \<and> get_run_row (r_id r) d' = Some r' \<and> legal r r' \<and> touch r d r' d'"
      by (rule emit_then_end [OF r ok interrupt_change [OF ok] _ waiting(2)]) (use waiting(1,3,4) in simp_all)
    moreover have "r_id r' = r_id r" "r_user r' = r_user r" "r_state r' = Interrupted"
      using emit_event_row [OF waiting(2)] waiting(3) by auto
    ultimately show ?thesis using run_move_keeps [OF _ inv] waiting(1) touch_others touch_ids [OF _ r] by auto
  next
    case running
    have "run_move d d' \<and> get_run_row (r_id r) d' = Some r' \<and> legal r r' \<and> touch r d r' d'"
      by (rule emit_then_end [OF r ok interrupt_running_change [OF ok] _ running(2)]) (use running(1,3,4) in simp_all)
    moreover have "r_id r' = r_id r" "r_user r' = r_user r" "r_state r' = Interrupted"
      using emit_event_row [OF running(2)] running(3) by auto
    ultimately show ?thesis using run_move_keeps [OF _ inv] running(1) touch_others touch_ids [OF _ r] by auto
  qed
qed

lemma append_event_moves:
  assumes inv: "runs_inv d"
  shows "run_moves d (snd (append_event e uid rid event value claim clk d))"
  unfolding append_event_def
proof (rule moves_transaction)
  fix res d'
  assume "and_then (append_data event value) (\<lambda>data.
       and_then (owned_or_guard e uid rid claim clk d) (\<lambda>r.
       and_then (raise_if (r_id r \<noteq> rid \<or> r_user r \<noteq> uid) lease_lost) (\<lambda>_.
       and_then (require_row (as_obj data) (OtherError ''TypeError'')) (\<lambda>fields.
       and_then (emit_event r event fields False (clk 2) d) (\<lambda>(r', d'). committed () d'))))) = Inr (res, d')"
  then obtain r fields r' where r: "owned_or_guard e uid rid claim clk d = Inr r"
    and em: "emit_event r event fields False (clk 2) d = Inr (r', d')"
    by (auto simp: result_simps)
  have g: "get_run_row (r_id r) d = Some r" "row_ok r" "r_state r = Running"
    using owned_or_guard_row [OF r inv] by auto
  show "run_moves d d'"
    using emit_step [OF g(1,2) keep_change [OF g(2)] _ em] g(3) by auto
qed

lemma complete_run_moves:
  assumes c: "complete_run e uid rid m claim clk d = Inr (r', d')" and inv: "runs_inv d"
  shows "run_moves d d' \<and> get_run_row (r_id r') d' = Some r' \<and> r_id r' = rid \<and> r_state r' = Succeeded"
proof -
  from c obtain r r1 d1 r2 d2 r3 where
    r: "owned_or_guard e uid rid claim clk d = Inr r" "r_id r = rid"
    and e1: "emit_context r m (clk 2) d = Inr (r1, d1)"
    and e2: "emit_event r1 ''usage'' [(''token_usage'', msg_tokens m),
         (''cache'', get_or_null (sub_dict (metadata_of m) ''metrics'') ''cache'')] True (clk 3) d1 = Inr (r2, d2)"
    and e3: "\<exists>d3. emit_event r2 ''done'' (done_data m) True (clk 4) d2 = Inr (r3, d3) \<and> d' = put_run r' d3"
    and r': "r' = r3\<lparr>r_state := Succeeded, r_message := Some (msg_id m), r_owner := None, r_lease := None,
           r_active := None\<rparr>"
    unfolding complete_run_def
    by (simp only: result_simps prod.case split_paired_Ex Let_def not_not prod.inject) blast
  obtain d3 where e3: "emit_event r2 ''done'' (done_data m) True (clk 4) d2 = Inr (r3, d3)" "d' = put_run r' d3"
    using e3 by blast
  have g: "get_run_row (r_id r) d = Some r" "row_ok r" "r_state r = Running"
    using owned_or_guard_row [OF r(1) inv] by auto
  have t1: "touch r d r1 d1 \<and> (r1 = r \<or> (\<exists>n. 0 \<le> n \<and> r1 = count_event r n))"
  proof (cases "truthy (get_or_null (sub_dict (metadata_of m) ''metrics'') ''context'')")
    case True
    then show ?thesis using e1 touch_emit emit_event_row by (simp add: emit_context_def Let_def) blast
  next
    case False
    then show ?thesis using e1 touch_refl [OF g(1) inv] by (simp add: emit_context_def Let_def)
  qed
  obtain n2 n3 where n: "r2 = count_event r1 n2" "0 \<le> n2" "r3 = count_event r2 n3" "0 \<le> n3"
    "\<not> over_budget r2 n3 True"
    using emit_event_row [OF e2] emit_event_row [OF e3(1)] by auto
  have same: "same_run r3 r'" "r_sequence r' = r_sequence r3" by (simp_all add: r' same_run_def)
  have touch: "touch r d r' d'"
    using t1 touch_emit [OF e2] touch_emit [OF e3(1)] touch_put [OF same, of d3] e3(2)
      touch_trans [of r d r1 d1 r2 d2] touch_trans [of r d r2 d2 r3 d3] touch_trans [of r d r3 d3 r' d'] by simp
  obtain k b where k: "0 \<le> k" "0 \<le> b" "r3 = r\<lparr>r_sequence := r_sequence r + k, r_bytes := r_bytes r + b\<rparr>"
    "r_sequence r + k \<le> 8200" "r_bytes r + b \<le> 8000000"
  proof -
    obtain k1 b1 where "0 \<le> k1" "0 \<le> b1" "r1 = r\<lparr>r_sequence := r_sequence r + k1, r_bytes := r_bytes r + b1\<rparr>"
    proof -
      have "r = r\<lparr>r_sequence := r_sequence r + 0, r_bytes := r_bytes r + 0\<rparr>" by simp
      then show ?thesis using t1 that [of 0 0] that [of 1] by (auto simp: count_event_def)
    qed
    then show ?thesis
      using n by (intro that [of "k1 + 2" "b1 + n2 + n3"]) (auto simp: count_event_def over_budget_def)
  qed
  have "legal r r'"
    using g(2,3) k(1,2,4,5)
    by (auto simp: r' k(3) legal_def same_run_def row_ok_def lease_shape_def journal_bounds_def budget_shrinks_def
        split: option.split)
  then show ?thesis
    using m_touch [OF g(1) touch] touch_row [OF touch] r(2) by (auto simp: r' k(3))
qed

lemma fail_run_moves:
  assumes inv: "runs_inv d"
  shows "run_moves d (snd (fail_run e uid rid err clk d))"
  unfolding fail_run_def
proof (rule moves_transaction)
  fix res d'
  assume "and_then (get_row e uid rid True d) (\<lambda>r.
       if r_state r \<noteq> Running then committed () d
       else
         and_then (expire e r (clk 0) (clk 1) d) (\<lambda>(r1, d1).
         if r_state r1 \<noteq> Running then committed () d1
         else
           and_then (emit_event r1 ''error'' (failure_data e ''INTERNAL_ERROR'' err @
               [(''request_id'', JStr (r_request r1))]) True (clk 2) d1) (\<lambda>(r2, d2).
             committed () (put_run (r2\<lparr>r_state := Failed\<rparr>) d2)))) = Inr (res, d')"
  then consider (idle) "d' = d"
    | (expired) r r1 where "get_row e uid rid True d = Inr r" "expire e r (clk 0) (clk 1) d = Inr (r1, d')"
    | (failed) r r1 d1 data r2 d2 where "get_row e uid rid True d = Inr r" "r_state r = Running"
        "expire e r (clk 0) (clk 1) d = Inr (r1, d1)" "r_state r1 = Running"
        "emit_event r1 ''error'' data True (clk 2) d1 = Inr (r2, d2)" "d' = put_run (r2\<lparr>r_state := Failed\<rparr>) d2"
    by (auto simp: result_simps split: if_splits)
  then show "run_moves d d'"
  proof cases
    case expired
    then show ?thesis using get_row_row [OF expired(1) inv] expire_step [OF expired(2) inv] by blast
  next
    case failed
    have "r1 = r" "d1 = d"
      using expire_step [OF failed(3) inv] get_row_row [OF failed(1) inv] failed(2,4) by auto
    then have em: "emit_event r ''error'' data True (clk 2) d = Inr (r2, d2)" using failed(5) by simp
    have g: "get_run_row (r_id r) d = Some r" "row_ok r" using get_row_row [OF failed(1) inv] by auto
    have "run_move d d' \<and> get_run_row (r_id r) d' = Some (r2\<lparr>r_state := Failed\<rparr>) \<and>
        legal r (r2\<lparr>r_state := Failed\<rparr>) \<and> touch r d (r2\<lparr>r_state := Failed\<rparr>) d'"
      by (rule emit_then_end [OF g fail_change [OF g(2)] _ em]) (use failed(2,6) in simp_all)
    then show ?thesis by auto
  qed simp
qed

lemma read_run_moves:
  assumes inv: "runs_inv d"
  shows "run_moves d (snd (read_run e uid rid after clk d))"
  unfolding read_run_def
proof (rule moves_transaction)
  fix res d'
  assume "and_then (get_row e uid rid True d) (\<lambda>r.
       and_then (expire e r (clk 0) (clk 1) d) (\<lambda>(r1, d1).
       and_then (raise_if (r_sequence r1 < after) (AppError ''INVALID_EVENT_CURSOR'' 422)) (\<lambda>_.
         committed (r1, waiting_payload r1 d1, list_events_after after rid d1) d1))) = Inr (res, d')"
  then obtain r r1 where "get_row e uid rid True d = Inr r" "expire e r (clk 0) (clk 1) d = Inr (r1, d')"
    by (auto simp: result_simps)
  then show "run_moves d d'" using get_row_row [OF _ inv] expire_step [OF _ inv] by blast
qed

section \<open>The worker's claims\<close>

definition current :: "chat_run list \<Rightarrow> db \<Rightarrow> bool" where
  "current rs d \<longleftrightarrow> distinct (map r_id rs) \<and> (\<forall>r\<in>set rs. get_run_row (r_id r) d = Some r)"

lemma current_filter:
  assumes "runs_inv d"
  shows "current (take n (filter p (runs d))) d"
proof -
  have d: "distinct (map r_id (runs d))" using assms by (simp add: runs_inv_def runs_ok_def)
  have "set (take n (filter p (runs d))) \<subseteq> set (runs d)"
    using set_take_subset [of n "filter p (runs d)"] by auto
  moreover have "distinct (map r_id (take n (filter p (runs d))))"
    using distinct_take [OF distinct_map_filter [OF d], of n p] by (simp add: take_map)
  ultimately show ?thesis using row_get_distinct [OF d] by (auto simp: current_def)
qed

lemma current_step:
  "current (r # rs) d \<Longrightarrow> \<forall>i. i \<noteq> r_id r \<longrightarrow> get_run_row i d' = get_run_row i d \<Longrightarrow> current rs d'"
  by (auto simp: current_def image_iff)

lemma expire_all_moves:
  assumes "expire_all e rs clk i d = Inr d'" "runs_inv d" "current rs d"
  shows "run_moves d d' \<and> runs_inv d'"
  using assms
proof (induction rs arbitrary: i d)
  case (Cons r rs)
  then obtain r' d1 where e: "expire e r (clk i) (clk (i + 1)) d = Inr (r', d1)"
    and rest: "expire_all e rs clk (i + 2) d1 = Inr d'"
    by (auto simp: result_simps)
  have s: "run_moves d d1 \<and> runs_inv d1 \<and> (\<forall>i. i \<noteq> r_id r \<longrightarrow> get_run_row i d1 = get_run_row i d)"
    using expire_step [OF e Cons.prems(2)] Cons.prems(3) by (auto simp: current_def)
  have "run_moves d1 d' \<and> runs_inv d'"
    using Cons.IH [OF rest] s current_step [OF Cons.prems(3)] by simp
  with s show ?case by (metis rtranclp_trans)
qed simp

lemma cancel_released_change:
  "row_ok r \<Longrightarrow> r_state r = Cancelling \<Longrightarrow> legal_change r (release_lease (r\<lparr>r_state := Cancelled\<rparr>))"
  by (auto simp: change_simps split: option.split)

lemma release_lease_same [simp]:
  "same_run r (release_lease q) = same_run r q" "r_sequence (release_lease q) = r_sequence q"
  "r_id (release_lease q) = r_id q" "r_state (release_lease q) = r_state q"
  by (simp_all add: release_lease_def same_run_def)

lemma cancel_abandoned_step:
  assumes c: "cancel_abandoned r at d = Inr (r', d')" and inv: "runs_inv d"
    and r: "get_run_row (r_id r) d = Some r" "r_state r = Cancelling"
  shows "run_move d d' \<and> runs_inv d' \<and> (\<forall>i. i \<noteq> r_id r \<longrightarrow> get_run_row i d' = get_run_row i d)"
proof -
  let ?r1 = "r\<lparr>r_state := Cancelled\<rparr>"
  have ok: "row_ok r" using inv_row [OF inv r(1)] by simp
  have "touch r d ?r1 (settle ?r1 d)" by (rule touch_settle) (simp_all add: same_run_def)
  moreover have "touch ?r1 (settle ?r1 d) (release_lease ?r1) (put_run (release_lease ?r1) (settle ?r1 d))"
    by (rule touch_put) simp_all
  ultimately have t: "touch r d (release_lease ?r1) (put_run (release_lease ?r1) (settle ?r1 d))"
    by (rule touch_trans)
  have em: "emit_event (release_lease ?r1) ''run_cancelled'' [] True at
      (put_run (release_lease ?r1) (settle ?r1 d)) = Inr (r', d')"
    using c by (simp add: cancel_abandoned_def Let_def)
  have s: "run_move d d' \<and> touch r d r' d'"
    using emit_step [OF r(1) ok cancel_released_change [OF ok r(2)] disjI2 [OF t] em] by simp
  then show ?thesis using run_move_keeps [OF _ inv] touch_others by blast
qed

lemma cancel_all_moves:
  assumes "cancel_all rs clk i d = Inr d'" "runs_inv d" "current rs d" "\<forall>r\<in>set rs. r_state r = Cancelling"
  shows "run_moves d d' \<and> runs_inv d'"
  using assms
proof (induction rs arbitrary: i d)
  case (Cons r rs)
  then obtain r' d1 where e: "cancel_abandoned r (clk i) d = Inr (r', d1)"
    and rest: "cancel_all rs clk (i + 1) d1 = Inr d'"
    by (auto simp: result_simps)
  have s: "run_move d d1 \<and> runs_inv d1 \<and> (\<forall>i. i \<noteq> r_id r \<longrightarrow> get_run_row i d1 = get_run_row i d)"
    using cancel_abandoned_step [OF e Cons.prems(2)] Cons.prems(3,4) by (auto simp: current_def)
  have "run_moves d1 d' \<and> runs_inv d'"
    using Cons.IH [OF rest] s current_step [OF Cons.prems(3)] Cons.prems(4) by simp
  with s show ?case by (metis converse_rtranclp_into_rtranclp)
qed simp

lemma settle_cancellations_moves:
  assumes "settle_cancellations e clk i d = Inr d'" "runs_inv d"
  shows "run_moves d d' \<and> runs_inv d'"
proof (rule cancel_all_moves [OF assms(1) [unfolded settle_cancellations_def] assms(2)])
  show "current (lock_expired_cancellations (clk i) (re_kind e) d) d"
    unfolding lock_expired_cancellations_def by (rule current_filter [OF assms(2)])
  show "\<forall>r\<in>set (lock_expired_cancellations (clk i) (re_kind e) d). r_state r = Cancelling"
    unfolding lock_expired_cancellations_def using set_take_subset by fastforce
qed

lemma lock_next_run_Some:
  assumes "lock_next_run now rid k d = Some r"
  shows "r \<in> set (runs d) \<and> claimable now k r \<and> (\<forall>i. rid = Some i \<longrightarrow> r_id r = i)"
proof -
  have "r \<in> set (sort_key r_created (sort_key r_id (filter (\<lambda>r. claimable now k r \<and>
      (case rid of None \<Rightarrow> True | Some i \<Rightarrow> r_id r = i)) (runs d))))"
    using assms list.set_intros(1) unfolding lock_next_run_def
    by (metis (no_types, lifting) list.case_eq_if list.set_sel(1) option.distinct(1) option.inject)
  then show ?thesis by (auto split: option.splits)
qed

lemma lease_run_change:
  assumes "row_ok r" "r_state r = Queued \<or> r_state r = Running \<and> 0 < r_generation r"
    and "remaining_time e now r = Inr left" "0 < left"
  shows "legal_change r (lease_run e r token now left)"
proof -
  have used: "\<exists>u. 0 \<le> u \<and> left = (case r_remaining r of None \<Rightarrow> re_timeout e | Some x \<Rightarrow> x) - u"
    using assms(3) by (auto simp: remaining_time_def used_time_def result_simps split: option.splits)
  have g: "0 \<le> r_generation r" using assms(1) by (simp add: row_ok_def journal_bounds_def)
  have "r_resume r = None" using assms(1,2) by (auto simp: row_ok_def lease_shape_def)
  then show ?thesis
    using assms(2) used g
    by (auto simp: legal_change_def same_run_def lease_run_def lease_shape_def budget_shrinks_def split: option.splits)
qed

lemma take_or_fail_moves:
  assumes inv: "runs_inv d" and r: "get_run_row (r_id r) d = Some r"
    and st: "r_state r = Queued \<or> r_state r = Running \<and> 0 < r_generation r"
    and left: "remaining_time e now r = Inr left"
    and b: "(if left \<le> 0 then fail_budget e r at d else take_run e r token now left at d) = Inr (res, d')"
  shows "run_moves d d'"
proof (cases "left \<le> 0")
  case True
  let ?r = "r\<lparr>r_state := Failed\<rparr>"
  have ok: "row_ok r" using inv_row [OF inv r] by simp
  obtain r2 where em: "emit_event ?r ''error'' (error_data e ''AGENT_TIMEOUT'' 504) True at (settle ?r d) = Inr (r2, d')"
    using b True by (auto simp: fail_budget_def result_simps Let_def)
  have "touch r d ?r (settle ?r d)" by (rule touch_settle) (simp_all add: same_run_def)
  then show ?thesis
    using emit_step [OF r ok fail_change [OF ok] disjI2 em] st by auto
next
  case False
  let ?r = "lease_run e r token now left"
  have ok: "row_ok r" using inv_row [OF inv r] by simp
  obtain r2 where em: "emit_event ?r ''run_claimed'' [(''generation'', JInt (r_generation ?r))] False at (settle ?r d)
      = Inr (r2, d')"
    using b False by (auto simp: take_run_def result_simps Let_def)
  have "touch r d ?r (settle ?r d)" by (rule touch_settle) (simp_all add: same_run_def lease_run_def)
  then show ?thesis
    using emit_step [OF r ok lease_run_change [OF ok st left] disjI2 em] False by auto
qed

text \<open>The body of \<open>claim_next\<close> after its clean-up, and what the clean-up reaches.\<close>

lemma claim_next_body:
  assumes inv: "runs_inv d"
    and b: "and_then (expire_all e (lock_expired_waiting_runs (clk 0) (re_kind e) d) clk 1 d) (\<lambda>d1.
       and_then (settle_cancellations e clk 21 d1) (\<lambda>d2.
       case lock_next_run (clk 0) rid (re_kind e) d2 of
         None \<Rightarrow> committed None d2
       | Some r \<Rightarrow>
           and_then (remaining_time e (clk 0) r) (\<lambda>left.
             if left \<le> 0 then fail_budget e r (clk 32) d2 else take_run e r token (clk 0) left (clk 32) d2)))
      = Inr (res, d')"
  obtains d2 where "run_moves d d2" "runs_inv d2"
    "d' = d2 \<and> res = Inr None \<and> lock_next_run (clk 0) rid (re_kind e) d2 = None \<or>
     (\<exists>r left. lock_next_run (clk 0) rid (re_kind e) d2 = Some r \<and> get_run_row (r_id r) d2 = Some r \<and>
        (r_state r = Queued \<or> r_state r = Running \<and> 0 < r_generation r) \<and>
        remaining_time e (clk 0) r = Inr left \<and>
        (if left \<le> 0 then fail_budget e r (clk 32) d2 else take_run e r token (clk 0) left (clk 32) d2) = Inr (res, d'))"
proof -
  obtain d1 d2 where
    e: "expire_all e (lock_expired_waiting_runs (clk 0) (re_kind e) d) clk 1 d = Inr d1"
    and s: "settle_cancellations e clk 21 d1 = Inr d2"
    and c: "(case lock_next_run (clk 0) rid (re_kind e) d2 of
         None \<Rightarrow> committed None d2
       | Some r \<Rightarrow>
           and_then (remaining_time e (clk 0) r) (\<lambda>left.
             if left \<le> 0 then fail_budget e r (clk 32) d2 else take_run e r token (clk 0) left (clk 32) d2))
      = Inr (res, d')"
    using b by (simp only: result_simps) blast
  have m1: "run_moves d d1 \<and> runs_inv d1"
    using expire_all_moves [OF e inv] current_filter [OF inv] by (simp add: lock_expired_waiting_runs_def)
  then have m2: "run_moves d1 d2 \<and> runs_inv d2" using settle_cancellations_moves [OF s] by simp
  have m: "run_moves d d2" "runs_inv d2" using m1 m2 by (auto intro: rtranclp_trans)
  show ?thesis
  proof (cases "lock_next_run (clk 0) rid (re_kind e) d2")
    case None
    with c have "d' = d2 \<and> res = Inr None" by (simp add: committed_def)
    with None show ?thesis using that [OF m] by blast
  next
    case (Some r)
    then obtain left where l: "remaining_time e (clk 0) r = Inr left"
      and b: "(if left \<le> 0 then fail_budget e r (clk 32) d2 else take_run e r token (clk 0) left (clk 32) d2) = Inr (res, d')"
      using c by (auto simp: result_simps)
    have r: "r \<in> set (runs d2)" "r_state r = Queued \<or> r_state r = Running \<and> 0 < r_generation r"
      using lock_next_run_Some [OF Some] by (auto simp: claimable_def)
    have "get_run_row (r_id r) d2 = Some r" using m(2) runs_ok_get [OF inv_runs r(1)] by blast
    then show ?thesis using that [OF m] Some l b r(2) by blast
  qed
qed

lemma claim_next_moves:
  assumes inv: "runs_inv d"
  shows "run_moves d (snd (claim_next e rid token clk d))"
  unfolding claim_next_def Let_def
proof (rule moves_transaction, erule claim_next_body [OF inv])
  fix res d' d2
  assume m: "run_moves d d2" "runs_inv d2" and
    "d' = d2 \<and> res = Inr None \<and> lock_next_run (clk 0) rid (re_kind e) d2 = None \<or>
     (\<exists>r left. lock_next_run (clk 0) rid (re_kind e) d2 = Some r \<and> get_run_row (r_id r) d2 = Some r \<and>
        (r_state r = Queued \<or> r_state r = Running \<and> 0 < r_generation r) \<and>
        remaining_time e (clk 0) r = Inr left \<and>
        (if left \<le> 0 then fail_budget e r (clk 32) d2 else take_run e r token (clk 0) left (clk 32) d2) = Inr (res, d'))"
  then have "run_moves d2 d'" using take_or_fail_moves [OF m(2)] by blast
  then show "run_moves d d'" using m(1) by (meson rtranclp_trans)
qed

text \<open>A returned claim is the run's lease, one generation above the row it was taken from.\<close>

lemma claim_next_Some:
  assumes inv: "runs_inv d" and c: "claim_next e rid token clk d = (Inr (Some c), d')"
  shows "\<exists>r' r d2. get_run_row (cl_run c) d' = Some r' \<and> r_generation r' = cl_generation c \<and>
    r_owner r' = Some (cl_token c) \<and> r_user r' = cl_user c \<and> r_state r' = Running \<and> cl_token c = token \<and>
    r_lease r' = Some (clk 0 + re_lease e) \<and> (\<exists>x. r_remaining r' = Some x \<and> 0 < x \<and> r_expires r' = clk 0 + x) \<and>
    run_moves d d2 \<and> lock_next_run (clk 0) rid (re_kind e) d2 = Some r \<and> get_run_row (cl_run c) d2 = Some r \<and>
    cl_generation c = r_generation r + 1"
proof -
  have "and_then (expire_all e (lock_expired_waiting_runs (clk 0) (re_kind e) d) clk 1 d) (\<lambda>d1.
       and_then (settle_cancellations e clk 21 d1) (\<lambda>d2.
       case lock_next_run (clk 0) rid (re_kind e) d2 of
         None \<Rightarrow> committed None d2
       | Some r \<Rightarrow>
           and_then (remaining_time e (clk 0) r) (\<lambda>left.
             if left \<le> 0 then fail_budget e r (clk 32) d2 else take_run e r token (clk 0) left (clk 32) d2)))
      = Inr (Inr (Some c), d')"
    using c unfolding claim_next_def Let_def by (simp add: result_simps committed_def)
  then show ?thesis
  proof (rule claim_next_body [OF inv])
    fix d2
    assume m: "run_moves d d2" "runs_inv d2" and
      "d' = d2 \<and> Inr (Some c) = Inr None \<and> lock_next_run (clk 0) rid (re_kind e) d2 = None \<or>
       (\<exists>r left. lock_next_run (clk 0) rid (re_kind e) d2 = Some r \<and> get_run_row (r_id r) d2 = Some r \<and>
        (r_state r = Queued \<or> r_state r = Running \<and> 0 < r_generation r) \<and>
        remaining_time e (clk 0) r = Inr left \<and>
        (if left \<le> 0 then fail_budget e r (clk 32) d2 else take_run e r token (clk 0) left (clk 32) d2) =
          Inr (Inr (Some c), d'))"
    then obtain r left where r: "lock_next_run (clk 0) rid (re_kind e) d2 = Some r" "get_run_row (r_id r) d2 = Some r"
      and t: "(if left \<le> 0 then fail_budget e r (clk 32) d2 else take_run e r token (clk 0) left (clk 32) d2) =
          Inr (Inr (Some c), d')" by auto
    have pos: "\<not> left \<le> 0"
    proof
      assume "left \<le> 0"
      with t show False by (auto simp: fail_budget_def Let_def result_simps)
    qed
    let ?r = "lease_run e r token (clk 0) left"
    obtain r2 where em: "emit_event ?r ''run_claimed'' [(''generation'', JInt (r_generation ?r))] False (clk 32)
        (settle ?r d2) = Inr (r2, d')" and cl: "c = claim_of r2 token"
      using t pos by (auto simp: take_run_def Let_def result_simps)
    obtain n where n: "r2 = count_event ?r n" using emit_event_row [OF em] by auto
    have "get_run_row (r_id ?r) d' = Some r2" using touch_row [OF touch_emit [OF em]] by simp
    then show ?thesis
      using m(1) r cl pos by (auto simp: n claim_of_def lease_run_def)
  qed
qed

section \<open>Leases and checkpoints\<close>

lemma release_busy_change:
  assumes "row_ok r" "r_state r = Running" "spent now r = Inr left"
  shows "legal_change r (r\<lparr>r_remaining := Some left, r_state := Queued, r_owner := None, r_active := None,
    r_lease := l\<rparr>)"
  using assms by (auto simp: change_simps spent_def split: option.splits)

lemma release_busy_moves:
  assumes inv: "runs_inv d"
  shows "run_moves d (snd (release_busy e c clk d))"
  unfolding release_busy_def
proof (rule moves_transaction)
  fix res d'
  assume "and_then (owned e c False True (clk 0) (clk 1) d) (\<lambda>r.
       and_then (spent (clk 2) r) (\<lambda>left.
         let r1 = r\<lparr>r_remaining := Some left, r_state := Queued, r_owner := None, r_active := None\<rparr> in
         committed () (put_run (r1\<lparr>r_lease := Some (clk 2 + seconds 1)\<rparr>) (settle r1 d)))) = Inr (res, d')"
  then obtain r left where o': "owned e c False True (clk 0) (clk 1) d = Inr r" and s: "spent (clk 2) r = Inr left"
    and d': "d' = put_run (r\<lparr>r_remaining := Some left, r_state := Queued, r_owner := None, r_active := None,
        r_lease := Some (clk 2 + seconds 1)\<rparr>)
      (settle (r\<lparr>r_remaining := Some left, r_state := Queued, r_owner := None, r_active := None\<rparr>) d)"
    by (auto simp: result_simps Let_def)
  let ?r1 = "r\<lparr>r_remaining := Some left, r_state := Queued, r_owner := None, r_active := None\<rparr>"
  let ?r2 = "r\<lparr>r_remaining := Some left, r_state := Queued, r_owner := None, r_active := None,
        r_lease := Some (clk 2 + seconds 1)\<rparr>"
  have g: "get_run_row (r_id r) d = Some r" "row_ok r" "r_state r = Running"
    using owned_row [OF o' inv] by auto
  have "touch r d ?r1 (settle ?r1 d)" by (rule touch_settle) (simp_all add: same_run_def)
  moreover have "touch ?r1 (settle ?r1 d) ?r2 (put_run ?r2 (settle ?r1 d))"
    by (rule touch_put) (simp_all add: same_run_def)
  ultimately have "touch r d ?r2 d'" unfolding d' by (rule touch_trans)
  then show "run_moves d d'"
    using put_step [OF g(1,2) release_busy_change [OF g(2,3) s]] by blast
qed

lemma heartbeat_moves:
  assumes inv: "runs_inv d"
  shows "run_moves d (snd (heartbeat e c clk d))"
  unfolding heartbeat_def
proof (rule moves_transaction)
  fix res d'
  assume "and_then (owned e c False True (clk 0) (clk 1) d) (\<lambda>r.
         committed () (put_run (r\<lparr>r_lease := Some (clk 2 + re_lease e)\<rparr>) d)) = Inr (res, d')"
  then obtain r where o': "owned e c False True (clk 0) (clk 1) d = Inr r"
    and d': "d' = put_run (r\<lparr>r_lease := Some (clk 2 + re_lease e)\<rparr>) d"
    by (auto simp: result_simps)
  have g: "get_run_row (r_id r) d = Some r" "row_ok r" "r_state r = Running" "r_lease r \<noteq> None"
    using owned_row [OF o' inv] by auto
  have "legal_change r (r\<lparr>r_lease := Some (clk 2 + re_lease e)\<rparr>)"
    using g by (auto simp: change_simps split: option.splits)
  moreover have "touch r d (r\<lparr>r_lease := Some (clk 2 + re_lease e)\<rparr>) d'"
    unfolding d' by (rule touch_put) (simp_all add: same_run_def)
  ultimately show "run_moves d d'" using put_step [OF g(1,2)] by blast
qed

lemma save_checkpoint_move:
  assumes s: "save_checkpoint r payload d = Inr (row, d')" and r: "get_run_row (r_id r) d = Some q"
  shows "run_move d d' \<and> runs d' = runs d \<and> get_checkpoint (r_id r) d' = Some row \<and> ck_run row = r_id r
    \<and> operations d' = operations d \<and> artifacts d' = artifacts d"
proof -
  obtain fields p where f: "bounded_dict fields 4000000 = Inr p"
    and row: "row = (case get_checkpoint (r_id r) d of
             None \<Rightarrow> \<lparr>ck_run = r_id r, ck_revision = 1, ck_payload = p\<rparr>
           | Some old \<Rightarrow> old\<lparr>ck_revision := ck_revision old + 1, ck_payload := p\<rparr>)"
    and d': "d' = put_checkpoint row d"
    using s by (auto simp: save_checkpoint_def result_simps Let_def)
  have k: "ck_run row = r_id r"
    using row by (cases "get_checkpoint (r_id r) d") (auto dest: row_get_Some_key)
  have "ck_revision row = (case get_checkpoint (ck_run row) d of None \<Rightarrow> 1 | Some old \<Rightarrow> ck_revision old + 1)"
    unfolding k using row by (cases "get_checkpoint (r_id r) d") auto
  then have "run_move d d'" unfolding d' using r k by (intro m_checkpoint) auto
  then show ?thesis using k by (simp add: d' put_checkpoint_def row_get_put)
qed

lemma write_checkpoint_moves:
  assumes inv: "runs_inv d"
  shows "run_moves d (snd (write_checkpoint e c payload clk d))"
  unfolding write_checkpoint_def
proof (rule moves_transaction)
  fix res d'
  assume "and_then (owned e c False True (clk 0) (clk 1) d) (\<lambda>r.
       and_then (save_checkpoint r payload d) (\<lambda>(row, d'). committed (ck_revision row) d')) = Inr (res, d')"
  then obtain r row where o': "owned e c False True (clk 0) (clk 1) d = Inr r"
    and s: "save_checkpoint r payload d = Inr (row, d')"
    by (auto simp: result_simps)
  then show "run_moves d d'" using owned_row [OF o' inv] save_checkpoint_move [OF s] by blast
qed

section \<open>Cancelling, failing, pausing and resuming\<close>

lemma request_cancel_change:
  assumes "row_ok r" "\<not> terminal r" "r_state r \<noteq> Cancelling"
  shows "legal_change r (r\<lparr>r_state := (if cancels_at_once r now then Cancelled else Cancelling), r_resume := None\<rparr>)"
proof -
  have "0 \<le> r_generation r" using assms(1) by (simp add: row_ok_def journal_bounds_def)
  then show ?thesis
    using assms by (cases "r_state r") (auto simp: change_simps cancels_at_once_def split: option.splits if_splits)
qed

lemma request_cancel_moves:
  assumes inv: "runs_inv d"
  shows "run_moves d (snd (request_cancel e uid rid clk d))"
  unfolding request_cancel_def
proof (rule moves_transaction)
  fix res d'
  assume a: "and_then (get_row e uid rid True d) (\<lambda>r.
       if r_state r \<in> set terminal_states \<or> r_state r = Cancelling then committed r d
       else
         let now_too = cancels_at_once r (clk 0);
             r1 = r\<lparr>r_state := (if now_too then Cancelled else Cancelling), r_resume := None\<rparr> in
         and_then (emit_event r1 (if now_too then ''run_cancelled'' else ''cancel_requested'') [] now_too
             (clk 1) (settle r1 d)) (\<lambda>(r2, d2). committed r2 d2)) = Inr (res, d')"
  then obtain r where r: "get_row e uid rid True d = Inr r" by (auto simp: result_simps)
  have g: "get_run_row (r_id r) d = Some r" "row_ok r" using get_row_row [OF r inv] by auto
  show "run_moves d d'"
  proof (cases "terminal r \<or> r_state r = Cancelling")
    case True
    with a r show ?thesis by (auto simp: terminal_def result_simps simp del: terminal_simps)
  next
    case False
    let ?c = "cancels_at_once r (clk 0)"
    let ?r1 = "r\<lparr>r_state := (if ?c then Cancelled else Cancelling), r_resume := None\<rparr>"
    obtain r2 where em: "emit_event ?r1 (if ?c then ''run_cancelled'' else ''cancel_requested'') [] ?c
             (clk 1) (settle ?r1 d) = Inr (r2, d')"
      using a r False by (auto simp: terminal_def Let_def result_simps simp del: terminal_simps)
    have "touch r d ?r1 (settle ?r1 d)" by (rule touch_settle) (simp_all add: same_run_def)
    moreover have "legal_change r ?r1" using request_cancel_change [OF g(2)] False by blast
    ultimately show ?thesis using emit_step [OF g _ disjI2 em] by auto
  qed
qed

lemma release_count [simp]: "release_lease (count_event r n) = count_event (release_lease r) n"
  by (simp add: release_lease_def count_event_def)

lemma over_budget_release [simp]: "over_budget (release_lease r) n term = over_budget r n term"
  by (simp add: over_budget_def release_lease_def)

lemma fail_released_change:
  assumes "row_ok r" "active r" "r_state r = Running \<or> r_state r = Cancelling"
    and "s = Failed \<or> s = Cancelled"
  shows "legal_change r (release_lease (r\<lparr>r_state := s\<rparr>))"
  using assms by (auto simp: change_simps split: option.splits)

lemma emit_then_release:
  assumes inv: "get_run_row (r_id r) d = Some r" "row_ok r" "r_state r = Running \<or> r_state r = Cancelling"
    and s: "s = Failed \<or> s = Cancelled"
    and e: "emit_event (r\<lparr>r_state := s\<rparr>) name data True at d = Inr (q, d1)"
  shows "run_move d (settle (release_lease q) d1) \<and>
    get_run_row (r_id r) (settle (release_lease q) d1) = Some (release_lease q) \<and> r_state q = s"
proof -
  let ?r = "r\<lparr>r_state := s\<rparr>"
  obtain n where n: "q = count_event ?r n" "0 \<le> n" "\<not> over_budget ?r n True"
    using emit_event_row [OF e] by auto
  have ch: "legal_change r (release_lease ?r)" using fail_released_change [OF inv(2) _ inv(3) s] inv(3) by auto
  have t: "terminal (release_lease ?r)" using s by auto
  have l: "legal r (release_lease q)"
    using legal_count [OF ch inv(2) n(2), of True] n(3) t by (simp add: n(1) del: over_budget_state terminal_simps)
  have "touch ?r d q d1" using touch_emit [OF e] .
  then have "touch r d q d1" by (rule touch_from) (simp_all add: same_run_def)
  moreover have "touch q d1 (release_lease q) (settle (release_lease q) d1)" by (rule touch_settle) simp_all
  ultimately have t: "touch r d (release_lease q) (settle (release_lease q) d1)" by (rule touch_trans)
  show ?thesis using m_touch [OF inv(1) t l] touch_row [OF t] n(1) by simp
qed

lemma finish_failure_moves:
  assumes inv: "runs_inv d"
  shows "run_moves d (snd (finish_failure e c err clk d))"
  unfolding finish_failure_def
proof (rule moves_transaction)
  fix res d'
  assume "and_then (owned e c True False (clk 0) (clk 1) d) (\<lambda>r.
       and_then
         (if r_state r = Cancelling \<and> \<not> cleanup_failed err
          then emit_event (r\<lparr>r_state := Cancelled\<rparr>) ''run_cancelled'' [] True (clk 2) d
          else emit_event (r\<lparr>r_state := Failed\<rparr>) ''error'' (failure_data e ''RUN_EXECUTION_FAILED'' err)
                 True (clk 2) d) (\<lambda>(r1, d1).
         committed () (settle (release_lease r1) d1))) = Inr (res, d')"
  then obtain r r1 d1 where o': "owned e c True False (clk 0) (clk 1) d = Inr r"
    and em: "(if r_state r = Cancelling \<and> \<not> cleanup_failed err
          then emit_event (r\<lparr>r_state := Cancelled\<rparr>) ''run_cancelled'' [] True (clk 2) d
          else emit_event (r\<lparr>r_state := Failed\<rparr>) ''error'' (failure_data e ''RUN_EXECUTION_FAILED'' err)
                 True (clk 2) d) = Inr (r1, d1)"
    and d': "d' = settle (release_lease r1) d1"
    by (auto simp only: result_simps prod.case split_paired_Ex)
  obtain s name data where s: "s = Failed \<or> s = Cancelled"
    and em: "emit_event (r\<lparr>r_state := s\<rparr>) name data True (clk 2) d = Inr (r1, d1)"
    using em by (metis (full_types))
  have g: "get_run_row (r_id r) d = Some r" "row_ok r" "r_state r = Running \<or> r_state r = Cancelling"
    using owned_row [OF o' inv] by auto
  show "run_moves d d'" using emit_then_release [OF g s em] d' by auto
qed

lemma pause_change:
  assumes "row_ok r" "r_state r = Running" "spent now r = Inr left" "0 < left"
  shows "legal_change r (release_lease (r\<lparr>r_state := Waiting, r_remaining := Some left, r_resume := Some key,
     r_expires := x\<rparr>))"
  using assms by (auto simp: change_simps spent_def split: option.splits)

lemma pause_body_moves:
  assumes p: "pause_body e c payload question key clk d = Inr (r', d')" and inv: "runs_inv d"
  shows "run_moves d d' \<and> get_run_row (r_id r') d' = Some r' \<and> r_state r' = Waiting \<and> r_resume r' = Some key"
proof -
  from p obtain r row d1 left data where o': "owned e c False True (clk 0) (clk 1) d = Inr r"
    and s: "save_checkpoint r payload d = Inr (row, d1)"
    and sp: "spent (clk 2) r = Inr left" and pos: "\<not> left \<le> 0"
    and em: "emit_event (release_lease (r\<lparr>r_state := Waiting, r_remaining := Some left, r_resume := Some key,
             r_expires := clk 2 + re_wait e\<rparr>)) ''run_waiting'' data False (clk 3)
         (settle (release_lease (r\<lparr>r_state := Waiting, r_remaining := Some left, r_resume := Some key,
             r_expires := clk 2 + re_wait e\<rparr>)) d1) = Inr (r', d')"
    unfolding pause_body_def by (simp only: result_simps prod.case split_paired_Ex Let_def) blast
  let ?r1 = "release_lease (r\<lparr>r_state := Waiting, r_remaining := Some left, r_resume := Some key,
             r_expires := clk 2 + re_wait e\<rparr>)"
  have g: "get_run_row (r_id r) d = Some r" "row_ok r" "r_state r = Running"
    using owned_row [OF o' inv] by auto
  have m: "run_move d d1" "get_run_row (r_id r) d1 = Some r"
    using save_checkpoint_move [OF s g(1)] g(1) by auto
  have "touch r d1 ?r1 (settle ?r1 d1)" by (rule touch_settle) (simp_all, simp add: same_run_def)
  then have m2: "run_move d1 d' \<and> get_run_row (r_id r) d' = Some r' \<and> (\<exists>n. r' = count_event ?r1 n)"
    using emit_step [OF m(2) g(2) pause_change [OF g(2,3) sp] disjI2 em] pos by simp
  then obtain n where "r' = count_event ?r1 n" by auto
  then have "r_id r' = r_id r" "r_state r' = Waiting" "r_resume r' = Some key"
    by (simp_all add: release_lease_def)
  with m(1) m2 show ?thesis by (auto intro: rtranclp.intros)
qed

lemma pause_run_moves:
  assumes inv: "runs_inv d"
  shows "run_moves d (snd (pause_run e c payload question key clk d))"
  unfolding pause_run_def
proof (rule moves_transaction)
  fix res d'
  assume "and_then (raise_if (strip question = [] \<or> 4000 < length (strip question))
         (AppError ''INVALID_CLARIFICATION'' 422)) (\<lambda>_.
       and_then (pause_body e c payload question key clk d) (\<lambda>(r, d'). committed r d')) = Inr (res, d')"
  then obtain r where "pause_body e c payload question key clk d = Inr (r, d')"
    by (auto simp: result_simps)
  then show "run_moves d d'" using pause_body_moves [OF _ inv] by blast
qed

lemma requeue_change:
  "row_ok r \<Longrightarrow> r_state r = Waiting \<Longrightarrow> legal_change r (r\<lparr>r_state := Queued, r_resume := None\<rparr>)"
  by (auto simp: change_simps split: option.splits)

lemma requeue_resumed_moves:
  assumes q: "requeue_resumed r ck payload at d = Inr (res, d')" and inv: "runs_inv d"
    and r: "get_run_row (r_id r) d = Some r" "r_state r = Waiting" and ck: "get_checkpoint (r_id r) d = Some ck"
  shows "run_moves d d' \<and> (\<exists>r'. res = Inr r' \<and> get_run_row (r_id r) d' = Some r' \<and> r_id r' = r_id r \<and>
    r_user r' = r_user r \<and> r_session r' = r_session r \<and> r_kind r' = r_kind r) \<and>
    get_checkpoint (r_id r) d' = Some (ck\<lparr>ck_payload := payload, ck_revision := ck_revision ck + 1\<rparr>)
    \<and> sessions d' = sessions d \<and> members d' = members d \<and> orgs d' = orgs d"
proof -
  let ?ck = "ck\<lparr>ck_payload := payload, ck_revision := ck_revision ck + 1\<rparr>"
  let ?r1 = "r\<lparr>r_state := Queued, r_resume := None\<rparr>"
  obtain r2 where em: "emit_event ?r1 ''run_resumed'' [(''checkpoint_revision'', JInt (ck_revision ?ck))] False at
      (settle ?r1 (put_checkpoint ?ck d)) = Inr (r2, d')" and res: "res = Inr r2"
    using q by (auto simp: requeue_resumed_def Let_def result_simps)
  have ok: "row_ok r" using inv_row [OF inv r(1)] by simp
  have k: "ck_run ck = r_id r" using row_get_Some_key [OF ck] .
  have m: "run_move d (put_checkpoint ?ck d)" using r(1) ck k by (intro m_checkpoint) auto
  have g: "get_run_row (r_id r) (put_checkpoint ?ck d) = Some r" using r(1) by (simp add: put_checkpoint_def)
  have "touch r (put_checkpoint ?ck d) ?r1 (settle ?r1 (put_checkpoint ?ck d))"
    by (rule touch_settle) (simp_all add: same_run_def)
  then have s: "run_move (put_checkpoint ?ck d) d' \<and> get_run_row (r_id r) d' = Some r2 \<and>
      touch r (put_checkpoint ?ck d) r2 d'"
    using emit_step [OF g ok requeue_change [OF ok r(2)] disjI2 em] by simp
  have "get_checkpoint (r_id r) d' = Some ?ck"
    using touch_frame [of r "put_checkpoint ?ck d" r2 d'] s k by (auto simp: put_checkpoint_def row_get_put)
  moreover have "same_run r r2" using s touch_same_run by blast
  moreover have "sessions d' = sessions d \<and> members d' = members d \<and> orgs d' = orgs d"
    using touch_frame [of r "put_checkpoint ?ck d" r2 d'] s by (simp add: put_checkpoint_def)
  ultimately show ?thesis using m s res by (auto simp: same_run_def intro: rtranclp.intros)
qed

lemma expire_resume_moves:
  assumes q: "expire_resume e r at d = Inr (res, d')" and inv: "runs_inv d"
    and r: "get_run_row (r_id r) d = Some r" "r_state r = Waiting"
  shows "run_moves d d'"
proof -
  let ?r1 = "r\<lparr>r_state := Interrupted, r_resume := None\<rparr>"
  obtain r2 where em: "emit_event ?r1 ''error'' (error_data e ''HITL_EXPIRED'' 409) True at (settle ?r1 d) = Inr (r2, d')"
    using q by (auto simp: expire_resume_def Let_def result_simps)
  have ok: "row_ok r" using inv_row [OF inv r(1)] by simp
  have "touch r d ?r1 (settle ?r1 d)" by (rule touch_settle) (simp_all add: same_run_def)
  then show ?thesis
    using emit_step [OF r(1) ok interrupt_change [OF ok] disjI2 em] r(2) by auto
qed

lemma resume_body_cases:
  assumes "resume_body e ce caps uid rid revision key supplement q clk d = Inr (res, d')"
  obtains (replay) r where "get_row e uid rid True d = Inr r" "d' = d" "res = Inr r"
      "dict_get (resume_receipt (get_checkpoint (r_id r) d)) ''key'' = Some (JStr (uuid_str key))"
      "dict_get (resume_receipt (get_checkpoint (r_id r) d)) ''input_hash'' = Some (JStr (resume_hash e supplement q))"
      "dict_get (resume_receipt (get_checkpoint (r_id r) d)) ''revision'' = Some (JInt revision)"
  | (live) r ck where "get_row e uid rid True d = Inr r" "get_checkpoint (r_id r) d = Some ck"
      "r_state r = Waiting" "ck_revision ck = revision" "r_resume r = Some key"
      "dict_get (resume_receipt (get_checkpoint (r_id r) d)) ''key'' \<noteq> Some (JStr (uuid_str key))"
      "check_resume_approval e ce caps uid r d = Inr ()" "check_resume_public e ce caps uid r q d = Inr ()"
      "r_expires r \<le> clk 0 \<and> expire_resume e r (clk 1) d = Inr (res, d') \<or>
       clk 0 < r_expires r \<and> (\<exists>payload. resume_payload (ck_payload ck) q supplement key
           (resume_hash e supplement q) revision = Inr payload \<and>
         requeue_resumed r ck payload (clk 1) d = Inr (res, d'))"
proof -
  obtain r where g: "get_row e uid rid True d = Inr r"
    and b: "(let row = get_checkpoint (r_id r) d; h = resume_hash e supplement q in
       if dict_get (resume_receipt row) ''key'' = Some (JStr (uuid_str key)) then
         and_then (raise_if (dict_get (resume_receipt row) ''input_hash'' \<noteq> Some (JStr h) \<or>
             dict_get (resume_receipt row) ''revision'' \<noteq> Some (JInt revision))
             (AppError ''RESUME_CONFLICT'' 409)) (\<lambda>_. committed r d)
       else
         and_then (require_row row (AppError ''RESUME_CONFLICT'' 409)) (\<lambda>ck.
         and_then (raise_if (r_state r \<noteq> Waiting \<or> ck_revision ck \<noteq> revision \<or> r_resume r \<noteq> Some key)
             (AppError ''RESUME_CONFLICT'' 409)) (\<lambda>_.
         and_then (check_resume_approval e ce caps uid r d) (\<lambda>_.
         and_then (check_resume_public e ce caps uid r q d) (\<lambda>_.
         if r_expires r \<le> clk 0 then expire_resume e r (clk 1) d
         else
           and_then (resume_payload (ck_payload ck) q supplement key h revision) (\<lambda>payload.
             requeue_resumed r ck payload (clk 1) d)))))) = Inr (res, d')"
    using assms unfolding resume_body_def by (simp only: result_simps) blast
  show ?thesis
  proof (cases "dict_get (resume_receipt (get_checkpoint (r_id r) d)) ''key'' = Some (JStr (uuid_str key))")
    case True
    with b have "res = Inr r \<and> d' = d"
      "dict_get (resume_receipt (get_checkpoint (r_id r) d)) ''input_hash'' = Some (JStr (resume_hash e supplement q))"
      "dict_get (resume_receipt (get_checkpoint (r_id r) d)) ''revision'' = Some (JInt revision)"
      by (simp_all add: Let_def result_simps)
    then show ?thesis using that(1) [OF g] True by blast
  next
    case False
    with b obtain ck where f: "get_checkpoint (r_id r) d = Some ck" "r_state r = Waiting" "ck_revision ck = revision"
      "r_resume r = Some key" "check_resume_approval e ce caps uid r d = Inr ()"
      "check_resume_public e ce caps uid r q d = Inr ()"
      and last: "(if r_expires r \<le> clk 0 then expire_resume e r (clk 1) d
         else
           and_then (resume_payload (ck_payload ck) q supplement key (resume_hash e supplement q) revision) (\<lambda>payload.
             requeue_resumed r ck payload (clk 1) d)) = Inr (res, d')"
      by (simp only: Let_def if_False result_simps de_Morgan_disj not_not) blast
    have "r_expires r \<le> clk 0 \<and> expire_resume e r (clk 1) d = Inr (res, d') \<or>
       clk 0 < r_expires r \<and> (\<exists>payload. resume_payload (ck_payload ck) q supplement key
           (resume_hash e supplement q) revision = Inr payload \<and>
         requeue_resumed r ck payload (clk 1) d = Inr (res, d'))"
      using last by (cases "r_expires r \<le> clk 0") (simp_all add: result_simps)
    then show ?thesis by (rule that(2) [OF g f(1-4) False f(5,6)])
  qed
qed

lemma resume_run_moves:
  assumes inv: "runs_inv d"
  shows "run_moves d (snd (resume_run e ce caps uid rid revision key supplement q clk d))"
  unfolding resume_run_def
proof (rule moves_transaction)
  fix res d'
  assume "and_then (raise_if (strip supplement = [] \<or> 4000 < length (strip supplement))
         (AppError ''INVALID_RESUME_INPUT'' 422)) (\<lambda>_.
       and_then (resume_public_query q) (\<lambda>q.
         resume_body e ce caps uid rid revision key (strip supplement) q clk d)) = Inr (res, d')"
  then obtain q' where "resume_body e ce caps uid rid revision key (strip supplement) q' clk d = Inr (res, d')"
    by (auto simp: result_simps)
  then show "run_moves d d'"
  proof (cases rule: resume_body_cases)
    case (live r ck)
    have r: "get_run_row (r_id r) d = Some r" using get_row_row [OF live(1) inv] by blast
    show ?thesis
      using live(9) expire_resume_moves [OF _ inv r live(3)] requeue_resumed_moves [OF _ inv r live(3,2)] by blast
  qed simp
qed

section \<open>Receipts\<close>

lemma put_operation_frame [simp]:
  "runs (put_operation x d) = runs d" "checkpoints (put_operation x d) = checkpoints d"
  "artifacts (put_operation x d) = artifacts d" "events (put_operation x d) = events d"
  by (simp_all add: put_operation_def)

text \<open>An optional event on the live row after a write that leaves the runs alone.\<close>

lemma optional_emit_moves:
  assumes m: "run_move d d1" and r: "get_run_row (r_id r) d1 = Some r" "row_ok r" "active r"
    and e: "d1 = d2 \<or> (\<exists>name data at r'. emit_event r name data False at d1 = Inr (r', d2))"
  shows "run_moves d d2"
proof -
  have "run_moves d1 d2"
    using e emit_step [OF r(1,2) keep_change [OF r(2,3)] disjI1 [OF refl]] by blast
  with m show ?thesis by (rule converse_rtranclp_into_rtranclp)
qed

lemma start_receipt_moves:
  assumes s: "start_receipt r c key inputs ro row at d = Inr (res, d')"
    and m: "run_move d (put_operation row d)" and r: "get_run_row (r_id r) d = Some r" "row_ok r" "active r"
  shows "run_moves d d' \<and> res = Inr (False, JNull)"
proof -
  have "put_operation row d = d' \<or> (\<exists>name data at r'. emit_event r name data False at (put_operation row d) = Inr (r', d'))"
    and "res = Inr (False, JNull)"
    using s by (auto simp: start_receipt_def Let_def result_simps split: if_splits)
  then show ?thesis using optional_emit_moves [OF m _ r(2,3)] r(1) by simp
qed

lemma mark_uncertain_moves:
  assumes s: "mark_uncertain r row at t d = Inr (res, d')"
    and m: "run_move d (put_operation (row\<lparr>op_state := OpUncertain, op_updated := t\<rparr>) d)"
    and r: "get_run_row (r_id r) d = Some r" "row_ok r" "active r"
  shows "run_moves d d'"
proof -
  let ?d1 = "put_operation (row\<lparr>op_state := OpUncertain, op_updated := t\<rparr>) d"
  have "?d1 = d' \<or> (\<exists>name data at r'. emit_event r name data False at ?d1 = Inr (r', d'))"
    using s by (auto simp: mark_uncertain_def Let_def result_simps split: if_splits)
  then show ?thesis using optional_emit_moves [OF m _ r(2,3)] r(1) by simp
qed

lemma get_operation_key: "get_operation rid key d = Some x \<Longrightarrow> op_run x = rid \<and> op_key x = key"
  by (auto simp: get_operation_def op_pk_def dest: row_get_Some_key)

lemma reopen_operation_moves:
  assumes b: "reopen_operation r c key inputs h ro row clk d = Inr (res, d')"
    and row: "get_operation (cl_run c) key d = Some row"
    and r: "get_run_row (r_id r) d = Some r" "row_ok r" "active r"
  shows "run_moves d d'"
proof -
  have k: "get_operation (op_run row) (op_key row) d = Some row" using row get_operation_key [OF row] by simp
  have c: "op_readonly row = ro" using b by (auto simp: reopen_operation_def split: if_splits)
  consider "d' = d"
    | (uncertain) "\<not> ro" "op_state row \<noteq> OpSucceeded" "mark_uncertain r row (clk 2) (clk 3) d = Inr (res, d')"
    | (again) "ro" "op_state row \<noteq> OpSucceeded" "op_attempts row < 3" "start_receipt r c key inputs ro
        (row\<lparr>op_state := OpStarted, op_generation := cl_generation c, op_attempts := op_attempts row + 1,
          op_updated := clk 3\<rparr>) (clk 2) d = Inr (res, d')"
    using b by (auto simp: reopen_operation_def result_simps split: if_splits)
  then show ?thesis
  proof cases
    case uncertain
    have "run_move d (put_operation (row\<lparr>op_state := OpUncertain, op_updated := clk 3\<rparr>) d)"
      by (rule m_receipt [OF k]) (use uncertain c in \<open>simp add: receipt_change_def op_pk_def\<close>)
    then show ?thesis using mark_uncertain_moves [OF uncertain(3) _ r] by blast
  next
    case again
    have "run_move d (put_operation (row\<lparr>op_state := OpStarted, op_generation := cl_generation c,
        op_attempts := op_attempts row + 1, op_updated := clk 3\<rparr>) d)"
      by (rule m_receipt [OF k]) (use again c in \<open>simp add: receipt_change_def op_pk_def\<close>)
    then show ?thesis using start_receipt_moves [OF again(4) _ r] by blast
  qed simp
qed

lemma open_operation_moves:
  assumes b: "open_operation r c key inputs h ro clk d = Inr (res, d')"
    and row: "get_operation (cl_run c) key d = None"
    and r: "get_run_row (r_id r) d = Some r" "row_ok r" "active r" "r_id r = cl_run c"
  shows "run_moves d d' \<and> res = Inr (False, JNull)"
proof -
  let ?x = "\<lparr>op_run = cl_run c, op_key = key, op_input_hash = h, op_state = OpStarted, op_readonly = ro,
          op_generation = cl_generation c, op_attempts = 1, op_result = JNull, op_updated = clk 3\<rparr>"
  have s: "start_receipt r c key inputs ro ?x (clk 2) d = Inr (res, d')" and n: "operation_count (cl_run c) d < 128"
    using b by (auto simp: open_operation_def split: if_splits)
  have "run_move d (put_operation ?x d)"
    using row n r(1,4) by (intro m_receipt_new) (simp add: receipt_new_def)
  then show ?thesis using start_receipt_moves [OF s _ r(1,2,3)] by blast
qed

lemma begin_operation_cases:
  assumes "begin_operation e c key inputs ro clk d = (res, d')" "runs_inv d"
  obtains (rejected) err where "res = Inl err" "d' = d"
  | (body) r inputs' where "bounded_json inputs 2000000 = Inr inputs'" "owned e c False True (clk 0) (clk 1) d = Inr r"
      "(case get_operation (cl_run c) key d of
           Some row \<Rightarrow> reopen_operation r c key inputs' (operation_hash e inputs') ro row clk d
         | None \<Rightarrow> open_operation r c key inputs' (operation_hash e inputs') ro clk d) = Inr (res, d')"
proof -
  consider err where "res = Inl err" "d' = d" | x where "res = x"
    "and_then (raise_if (\<not> operation_key_ok key) (OtherError ''ValueError'')) (\<lambda>_.
       and_then (bounded_json inputs 2000000) (\<lambda>inputs'.
       and_then (owned e c False True (clk 0) (clk 1) d) (\<lambda>r.
         case get_operation (cl_run c) key d of
           Some row \<Rightarrow> reopen_operation r c key inputs' (operation_hash e inputs') ro row clk d
         | None \<Rightarrow> open_operation r c key inputs' (operation_hash e inputs') ro clk d))) = Inr (x, d')"
    using assms(1) unfolding begin_operation_def transaction_def by (auto split: sum.splits prod.splits)
  then show ?thesis
  proof cases
    case 2
    then show ?thesis using that(2) by (simp only: result_simps) blast
  qed (use that(1) in blast)
qed

lemma begin_operation_moves:
  assumes inv: "runs_inv d"
  shows "run_moves d (snd (begin_operation e c key inputs ro clk d))"
proof -
  obtain res d' where b: "begin_operation e c key inputs ro clk d = (res, d')" by fastforce
  from b inv have "run_moves d d'"
  proof (cases rule: begin_operation_cases)
    case (body r inputs')
    have r: "get_run_row (r_id r) d = Some r" "row_ok r" "active r" "r_id r = cl_run c"
      using owned_row [OF body(2) inv] by auto
    show ?thesis
      using body(3) reopen_operation_moves [OF _ _ r(1,2,3)] open_operation_moves [OF _ _ r]
      by (cases "get_operation (cl_run c) key d") auto
  qed simp
  then show ?thesis by (simp add: b)
qed

text \<open>Emissions of a run that stays live.\<close>

lemma live_emit:
  assumes "emit_event r name data False at d = Inr (r', d')" "get_run_row (r_id r) d = Some r" "row_ok r" "active r"
  shows "run_moves d d' \<and> get_run_row (r_id r') d' = Some r' \<and> row_ok r' \<and> active r' \<and> r_id r' = r_id r"
proof -
  have "run_move d d' \<and> get_run_row (r_id r) d' = Some r' \<and> legal r r' \<and> (\<exists>n. r' = count_event r n)"
    using emit_step [OF assms(2,3) keep_change [OF assms(3,4)] disjI1 [OF refl] assms(1)] by simp
  then show ?thesis using assms(4) by (auto simp: legal_def)
qed

lemma emit_tool_result_moves:
  assumes "emit_tool_result r key result el at d = Inr (r', d')" "get_run_row (r_id r) d = Some r" "row_ok r" "active r"
  shows "run_moves d d' \<and> get_run_row (r_id r') d' = Some r' \<and> row_ok r' \<and> active r' \<and> r_id r' = r_id r"
proof (cases "is_tool_key key")
  case True
  then have "\<exists>name data. emit_event r name data False at d = Inr (r', d')"
    using assms(1) unfolding emit_tool_result_def Let_def by (metis (full_types))
  then show ?thesis using live_emit [OF _ assms(2,3,4)] by blast
next
  case False
  then show ?thesis using assms by (simp add: emit_tool_result_def)
qed

lemma emit_artifacts_moves:
  assumes "emit_artifacts e r row at d = Inr (r', d')" "get_run_row (r_id r) d = Some r" "row_ok r" "active r"
  shows "run_moves d d' \<and> get_run_row (r_id r') d' = Some r' \<and> row_ok r' \<and> active r' \<and> r_id r' = r_id r"
proof (cases "re_sandbox e \<and> \<not> op_readonly row \<and> operation_artifacts (op_key row) (r_id r) d \<noteq> []")
  case True
  then have "\<exists>name data. emit_event r name data False at d = Inr (r', d')"
    using assms(1) unfolding emit_artifacts_def Let_def by (metis (full_types))
  then show ?thesis using live_emit [OF _ assms(2,3,4)] by blast
next
  case False
  then have "r' = r \<and> d' = d" using assms(1) by (auto simp: emit_artifacts_def Let_def)
  then show ?thesis using assms(2,3,4) by blast
qed

lemma checkpoint_after_moves:
  assumes "checkpoint_after r payload d = Inr d'" "get_run_row (r_id r) d = Some r"
  shows "run_moves d d' \<and> operations d' = operations d"
  using assms save_checkpoint_move [of r _ d _ d' r]
  by (cases payload) (auto simp: checkpoint_after_def result_simps)

lemma complete_operation_moves:
  assumes inv: "runs_inv d"
  shows "run_moves d (snd (complete_operation e c key result ck clk d))"
  unfolding complete_operation_def
proof (rule moves_transaction)
  fix res d'
  assume "and_then (bounded_json result 2000000) (\<lambda>result'.
       and_then (owned e c False True (clk 0) (clk 1) d) (\<lambda>r.
       and_then (require_row (get_operation (cl_run c) key d) diverged) (\<lambda>row.
       and_then (raise_if (op_state row \<noteq> OpStarted \<or> op_generation row \<noteq> cl_generation c) diverged) (\<lambda>_.
       and_then (emit_tool_result r key result' (clk 2 - op_updated row) (clk 3)
          (put_operation (row\<lparr>op_state := OpSucceeded, op_result := result', op_updated := clk 4\<rparr>) d))
          (\<lambda>(r1, d1).
       and_then (emit_artifacts e r1 row (clk 5) d1) (\<lambda>(r2, d2).
       and_then (checkpoint_after r2 ck d2) (\<lambda>d3. committed () d3))))))) = Inr (res, d')"
  then obtain r row result' r1 d1 r2 d2 where o': "owned e c False True (clk 0) (clk 1) d = Inr r"
    and row: "get_operation (cl_run c) key d = Some row" "op_state row = OpStarted"
    and e1: "emit_tool_result r key result' (clk 2 - op_updated row) (clk 3)
          (put_operation (row\<lparr>op_state := OpSucceeded, op_result := result', op_updated := clk 4\<rparr>) d) = Inr (r1, d1)"
    and e2: "emit_artifacts e r1 row (clk 5) d1 = Inr (r2, d2)"
    and e3: "checkpoint_after r2 ck d2 = Inr d'"
    by (simp only: result_simps prod.case split_paired_Ex not_not de_Morgan_disj) blast
  let ?d0 = "put_operation (row\<lparr>op_state := OpSucceeded, op_result := result', op_updated := clk 4\<rparr>) d"
  have r: "get_run_row (r_id r) d = Some r" "row_ok r" "active r"
    using owned_row [OF o' inv] by auto
  have k: "get_operation (op_run row) (op_key row) d = Some row" using row(1) get_operation_key [OF row(1)] by simp
  have m: "run_move d ?d0"
    by (rule m_receipt [OF k]) (use row(2) in \<open>simp add: receipt_change_def op_pk_def\<close>)
  have r0: "get_run_row (r_id r) ?d0 = Some r" using r(1) by simp
  have s1: "run_moves ?d0 d1 \<and> get_run_row (r_id r1) d1 = Some r1 \<and> row_ok r1 \<and> active r1"
    using emit_tool_result_moves [OF e1 r0 r(2,3)] by blast
  have s2: "run_moves d1 d2 \<and> get_run_row (r_id r2) d2 = Some r2"
    using emit_artifacts_moves [OF e2] s1 by blast
  have s3: "run_moves d2 d'" using checkpoint_after_moves [OF e3] s2 by blast
  show "run_moves d d'"
    using m s1 s2 s3 by (meson converse_rtranclp_into_rtranclp rtranclp_trans)
qed

section \<open>The outbox\<close>

lemma mark_dispatched_outbox:
  "set (map ob_pk rows) \<subseteq> set (map ob_pk (outbox d)) \<Longrightarrow>
   map ob_pk (outbox (mark_dispatched rows clk i d)) = map ob_pk (outbox d) \<and>
   mark_dispatched rows clk i d = d\<lparr>outbox := outbox (mark_dispatched rows clk i d)\<rparr>"
proof (induction rows arbitrary: i d)
  case (Cons x rows)
  let ?d = "d\<lparr>outbox := row_put ob_pk (x\<lparr>ob_dispatched := Some (clk i)\<rparr>) (outbox d)\<rparr>"
  have "\<exists>y\<in>set (outbox d). ob_pk y = ob_pk (x\<lparr>ob_dispatched := Some (clk i)\<rparr>)"
    using Cons.prems by (auto simp: ob_pk_def)
  then have "map ob_pk (outbox ?d) = map ob_pk (outbox d)"
    by (simp add: map_key_row_put)
  moreover from this have "map ob_pk (outbox (mark_dispatched rows clk (i + 1) ?d)) = map ob_pk (outbox ?d) \<and>
      mark_dispatched rows clk (i + 1) ?d = ?d\<lparr>outbox := outbox (mark_dispatched rows clk (i + 1) ?d)\<rparr>"
    using Cons.prems by (intro Cons.IH) simp
  ultimately show ?case by simp
qed simp

lemma dispatch_outbox_moves:
  "run_moves d (snd (dispatch_outbox notifies limit clk d))"
  unfolding dispatch_outbox_def
proof (rule moves_transaction)
  fix res d'
  let ?rows = "lock_pending_events (nat limit) d"
  assume "(if \<not> (1 \<le> limit \<and> limit \<le> 100) then Inl (OtherError ''ValueError'')
       else
         let rows = ?rows in
         committed (int (length rows), if notifies then map ob_pk rows else []) (mark_dispatched rows clk 0 d))
    = Inr (res, d')"
  then have d': "d' = mark_dispatched ?rows clk 0 d" by (auto simp: Let_def result_simps split: if_splits)
  have "set ?rows \<subseteq> set (outbox d)"
    unfolding lock_pending_events_def using set_take_subset by fastforce
  then have "map ob_pk (outbox d') = map ob_pk (outbox d)" "d' = d\<lparr>outbox := outbox d'\<rparr>"
    using mark_dispatched_outbox [of ?rows d clk 0] by (auto simp: d')
  then show "run_moves d d'" by (metis m_dispatch r_into_rtranclp)
qed

section \<open>Creation\<close>

lemma new_run_fresh: "fresh_run (new_run e rid uid sid p req key queued inputs now created)"
  by (simp add: fresh_run_def new_run_def row_ok_def lease_shape_def journal_bounds_def)

lemma insert_run_row:
  assumes "insert_run r d = Inr d'"
  shows "get_run_row (r_id r) d' = Some r"
  using insert_run_Inr [OF assms] by (simp add: row_get_append)

lemma fresh_live: "fresh_run r \<Longrightarrow> row_ok r \<and> active r"
  by (auto simp: fresh_run_def)

lemma prepare_run_row_moves:
  assumes p: "prepare_run_row prepare p r d = Inr (r', d')" and r: "get_run_row (r_id r) d = Some r" "fresh_run r"
    and ok: "\<And>f. prepare = Some f \<Longrightarrow> preparation_ok f"
  shows "run_moves d d' \<and> get_run_row (r_id r') d' = Some r' \<and> row_ok r' \<and> active r' \<and> same_run r r'
    \<and> r_sequence r' = 0"
proof (cases prepare)
  case None
  then show ?thesis using p r fresh_live [OF r(2)] by (auto simp: prepare_run_row_def fresh_run_def)
next
  case (Some f)
  then obtain r1 d1 snap where f: "f r p d = Inr (r1, d1)" and r': "r' = r1\<lparr>r_snapshot := snap\<rparr>"
    and d': "d' = put_run r' d1"
    using p by (auto simp: prepare_run_row_def result_simps Let_def)
  have pr: "prepared r r1" and same: "run_tables_same d d1"
    using ok [OF Some] f by (auto simp: preparation_ok_def)
  have pr': "prepared r r'"
  proof -
    obtain a b c where "r1 = r\<lparr>r_snapshot := a, r_message := b, r_user_message := c\<rparr>"
      using pr unfolding prepared_def by blast
    then show ?thesis by (simp add: r' prepared_def)
  qed
  have "run_tables_same (put_run r' d) d'"
    using same by (simp add: d' run_tables_same_def put_run_def)
  then have "run_move d d'" using r pr' by (intro m_prepare)
  moreover have s: "same_run r r'" "r_state r' = r_state r" "r_sequence r' = r_sequence r" "row_ok r'"
    using same_run_prepared [OF pr'] fresh_live [OF r(2)] by auto
  moreover have "get_run_row (r_id r') d' = Some r'" by (simp add: d' put_run_def)
  ultimately show ?thesis using r(2) by (auto simp: fresh_run_def)
qed

lemma emit_approval_moves:
  assumes "emit_approval r at d = Inr (r', d')" "get_run_row (r_id r) d = Some r" "row_ok r" "active r"
  shows "run_moves d d' \<and> get_run_row (r_id r') d' = Some r' \<and> row_ok r' \<and> active r' \<and> r_id r' = r_id r"
proof (cases "truthy (tool_approval_of r)")
  case True
  then have "\<exists>name data. emit_event r name data False at d = Inr (r', d')"
    using assms(1) by (auto simp: emit_approval_def Let_def result_simps)
  then show ?thesis using live_emit [OF _ assms(2,3,4)] by blast
next
  case False
  then have "r' = r \<and> d' = d" using assms(1) by (auto simp: emit_approval_def Let_def)
  then show ?thesis using assms(2,3,4) by blast
qed

lemma clear_session_moves:
  assumes c: "clear_session e sid clk d = Inr d'" and inv: "runs_inv d"
  shows "run_moves d d' \<and> runs_inv d'"
proof (cases "active_session_run sid d")
  case (Some a)
  then obtain a' where e: "expire e a (clk 0) (clk 1) d = Inr (a', d')"
    using c by (auto simp: clear_session_def result_simps)
  have "a \<in> set (runs d)" using find_Some_D [OF Some [unfolded active_session_run_def]] by simp
  then show ?thesis using expire_step [OF e inv] runs_ok_get [OF inv_runs [OF inv]] by blast
qed (use c inv in \<open>simp add: clear_session_def\<close>)

lemma start_run_moves:
  assumes s: "start_run e uid sid p req key queued prepare rid clk d = Inr (res, d')" and inv: "runs_inv d"
    and ok: "\<And>f. prepare = Some f \<Longrightarrow> preparation_ok f"
  shows "run_moves d d' \<and> runs_inv d' \<and> (\<exists>r. res = Inr (r, True) \<and> get_run_row rid d' = Some r \<and> r_id r = rid \<and>
    r_user r = uid \<and> r_session r = sid \<and> r_client_key r = key \<and> r_fingerprint r = run_fingerprint e sid p \<and>
    r_kind r = re_kind e \<and> get_run_row rid d = None)"
proof -
  from s obtain d1 inputs d2 r1 d3 r2 d4 r3 where
    c: "clear_session e sid clk d = Inr d1"
    and i: "insert_run (new_run e rid uid sid p req key queued inputs (clk 2) (clk 3)) d1 = Inr d2"
    and pr: "prepare_run_row prepare p (new_run e rid uid sid p req key queued inputs (clk 2) (clk 3)) d2 = Inr (r1, d3)"
    and e1: "emit_event r1 ''run_started'' [(''request_id'', JStr req),
        (''search_mode'', JStr (mode_str (in_mode p)))] False (clk 4) d3 = Inr (r2, d4)"
    and e2: "emit_approval r2 (clk 5) d4 = Inr (r3, d')" and res: "res = Inr (r3, True)"
    unfolding start_run_def by (simp only: result_simps prod.case split_paired_Ex Let_def) blast
  let ?r = "new_run e rid uid sid p req key queued inputs (clk 2) (clk 3)"
  have m1: "run_moves d d1 \<and> runs_inv d1" using clear_session_moves [OF c inv] .
  have m2: "run_move d1 d2" by (rule m_insert [OF i new_run_fresh])
  have m3: "run_moves d2 d3 \<and> get_run_row (r_id r1) d3 = Some r1 \<and> row_ok r1 \<and> active r1 \<and> same_run ?r r1"
    using prepare_run_row_moves [OF pr insert_run_row [OF i] new_run_fresh ok] by blast
  have m4: "run_moves d3 d4 \<and> get_run_row (r_id r2) d4 = Some r2 \<and> row_ok r2 \<and> active r2 \<and> same_run r1 r2"
  proof -
    have "same_run r1 r2" using emit_event_row [OF e1] by auto
    then show ?thesis using live_emit [OF e1] m3 by metis
  qed
  have m5: "run_moves d4 d' \<and> get_run_row (r_id r3) d' = Some r3"
    using emit_approval_moves [OF e2] m4 by blast
  have "same_run r2 r3"
  proof (cases "truthy (tool_approval_of r2)")
    case True
    then obtain name data where "emit_event r2 name data False (clk 5) d4 = Inr (r3, d')"
      using e2 by (auto simp: emit_approval_def Let_def result_simps)
    then show ?thesis using emit_event_row by fastforce
  qed (use e2 in \<open>simp add: emit_approval_def Let_def\<close>)
  then have same: "same_run ?r r3" using m3 m4 same_run_trans by blast
  have all: "run_moves d d'"
    using m1 m2 m3 m4 m5 by (meson r_into_rtranclp rtranclp_trans)
  have "get_run_row rid d1 = None" using insert_run_Inr [OF i] by (simp add: new_run_def)
  then have "get_run_row rid d = None"
    using run_moves_evolve [of d d1 rid] m1 by (cases "get_run_row rid d") auto
  then show ?thesis
    using all run_moves_keep [OF all inv] m5 res same by (auto simp: same_run_def new_run_def)
qed

lemma retry_run_moves:
  assumes s: "retry_run e fp existing clk d = Inr (res, d')" and inv: "runs_inv d"
    and r: "get_run_row (r_id existing) d = Some existing"
  shows "run_moves d d' \<and> (\<exists>r. res = Inr (r, False) \<and> r_id r = r_id existing)"
proof -
  obtain r where e: "expire e existing (clk 0) (clk 1) d = Inr (r, d')" "res = Inr (r, False)"
    using s by (auto simp: retry_run_def result_simps)
  then show ?thesis using expire_step [OF e(1) inv r] by blast
qed

lemma find_idempotent_row:
  assumes "find_idempotent_run key uid d = Some r" "runs_inv d"
  shows "get_run_row (r_id r) d = Some r \<and> r_user r = uid \<and> r_client_key r = key"
proof -
  have "r \<in> set (runs d)" "r_user r = uid" "r_client_key r = key"
    using find_Some_D [OF assms(1) [unfolded find_idempotent_run_def]] by auto
  then show ?thesis using runs_ok_get [OF inv_runs [OF assms(2)]] by blast
qed

lemma create_body_moves:
  assumes b: "create_body e uid sid p req key queued prepare rid clk d = Inr (res, d')" and inv: "runs_inv d"
    and ok: "\<And>f. prepare = Some f \<Longrightarrow> preparation_ok f"
  shows "run_moves d d'"
proof (cases "find_idempotent_run key uid d")
  case None
  then have "start_run e uid sid p req key queued prepare rid clk d = Inr (res, d')"
    using b by (simp add: create_body_def result_simps)
  then show ?thesis using start_run_moves [OF _ inv ok] by blast
next
  case (Some existing)
  then have "retry_run e (run_fingerprint e sid p) existing clk d = Inr (res, d')"
    using b by (simp add: create_body_def result_simps)
  then show ?thesis using retry_run_moves [OF _ inv] find_idempotent_row [OF Some inv] by blast
qed

lemma create_run_state:
  "snd (create_run e uid sid p req key queued prepare rid clk d) =
   (if queued \<and> prepare = None then d
    else snd (transaction (create_body e uid sid p req key queued prepare rid clk) d))"
  by (auto simp: create_run_def split: prod.split sum.split)

lemma create_run_moves:
  assumes inv: "runs_inv d" and ok: "\<And>f. prepare = Some f \<Longrightarrow> preparation_ok f"
  shows "run_moves d (snd (create_run e uid sid p req key queued prepare rid clk d))"
  unfolding create_run_state
  using moves_transaction [of "create_body e uid sid p req key queued prepare rid clk" d]
    create_body_moves [OF _ inv ok] by (auto split: if_splits)

section \<open>When an event fits\<close>

lemma length_isoformat: "length (isoformat t) \<le> 32"
  by (simp add: isoformat_def length_iso_text)

lemma payload_bound:
  assumes "0 \<le> r_sequence r" "r_sequence r \<le> 8200"
  shows "payload_size (event_payload r data at) \<le> int (jsize (JObj data)) + 600"
proof -
  have "length (show_int (r_sequence r + 1)) \<le> 4"
    using assms by (intro length_show_int) simp_all
  then have "sum_list (map (\<lambda>(k, v). 6 * length k + jsize v + 6)
     [(''recorded_at'', JStr (isoformat at)), (''run_id'', JStr (uuid_str (r_id r))),
      (''sequence'', JInt (r_sequence r + 1))]) \<le> 600"
    using length_isoformat [of at] by (simp add: length_uuid_str)
  then have "jsize (JObj (event_payload r data at)) \<le> jsize (JObj data) + 600"
    using jsize_dict_update [of data "[(''recorded_at'', JStr (isoformat at)), (''run_id'', JStr (uuid_str (r_id r))),
      (''sequence'', JInt (r_sequence r + 1))]"] unfolding event_payload_def by linarith
  then show ?thesis
    using utf8_len_dumps [of "JObj (event_payload r data at)"] by (simp add: payload_size_def)
qed

text \<open>The number after the last one is free in the journal and in the outbox.\<close>

lemma journal_insert_free:
  assumes inv: "runs_inv d" and q: "get_run_row (ev_run v) d = Some q" "ev_sequence v = r_sequence q + 1"
    and same: "events d1 = events d" "outbox d1 = outbox d"
  shows "\<exists>d'. journal_insert v d1 = Inr d'"
proof -
  have j: "journal_ok d" using inv by (simp add: runs_inv_def)
  have qin: "q \<in> set (runs d)" "r_id q = ev_run v" using get_run_row_mem [OF q(1)] by auto
  have "event_pk x \<noteq> event_pk v" if x: "x \<in> set (events d)" for x
  proof
    assume e: "event_pk x = event_pk v"
    then have "x \<in> set (journal_of (r_id q) d)" using x qin(2) by (simp add: journal_of_def event_pk_def)
    then have "ev_sequence x \<in> set (map ev_sequence (journal_of (r_id q) d))" by simp
    moreover have "map ev_sequence (journal_of (r_id q) d) = [1..r_sequence q]"
      using j qin(1) by (simp add: journal_ok_def)
    ultimately have "ev_sequence x \<in> set [1..r_sequence q]" by metis
    then show False using e q(2) by (simp add: event_pk_def)
  qed
  then have free: "event_pk v \<notin> set (map event_pk (events d))" by (metis imageE list.set_map)
  then have "event_pk v \<notin> set (map ob_pk (outbox d))" using j by (simp add: journal_ok_def)
  with free have "\<forall>x\<in>set (events d). event_pk x \<noteq> event_pk v" "\<forall>x\<in>set (outbox d). ob_pk x \<noteq> event_pk v"
    by (metis image_eqI list.set_map)+
  then have "row_get event_pk (event_pk v) (events d1) = None"
    "row_get ob_pk (event_pk v) (outbox d1) = None"
    by (simp_all only: row_get_None same)
  then show ?thesis
    by (simp add: journal_insert_def row_insert_def same event_pk_def ob_pk_def)
qed

lemma emit_succeeds:
  assumes inv: "runs_inv d" and q: "get_run_row (r_id r) d = Some q" "r_sequence r = r_sequence q"
    and same: "events d1 = events d" "outbox d1 = outbox d"
    and fits: "\<not> over_budget r (payload_size (event_payload r data at)) term"
  shows "\<exists>r' d'. emit_event r name data term at d1 = Inr (r', d')"
proof -
  let ?v = "\<lparr>ev_run = r_id r, ev_sequence = r_sequence r + 1, ev_event = name, ev_payload = event_payload r data at\<rparr>"
  have "\<exists>d'. journal_insert ?v (put_run (count_event r (payload_size (event_payload r data at))) d1) = Inr d'"
    by (rule journal_insert_free [OF inv, of ?v q]) (use q same in \<open>simp_all add: put_run_def\<close>)
  then show ?thesis using fits by (auto simp: emit_event_def Let_def)
qed

text \<open>A terminal event of a live run always fits.\<close>

lemma terminal_fits:
  assumes "row_ok q" "active q" "r_sequence r = r_sequence q" "r_bytes r = r_bytes q"
    and "jsize (JObj data) \<le> 1000000"
  shows "\<not> over_budget r (payload_size (event_payload r data at)) True"
proof -
  have b: "0 \<le> r_sequence r" "r_sequence r \<le> 8192" "r_bytes r \<le> 6000000"
    using assms(1-4) by (auto simp: row_ok_def journal_bounds_def split: if_splits)
  have "payload_size (event_payload r data at) \<le> int (jsize (JObj data)) + 600"
    using b by (intro payload_bound) simp_all
  also have "\<dots> \<le> 1000600" using assms(5) by simp
  finally have "payload_size (event_payload r data at) \<le> 1000600" .
  then show ?thesis using b by (simp add: over_budget_def)
qed

lemma settle_frame [simp]:
  "events (settle r d) = events d" "outbox (settle r d) = outbox d"
  "events (put_run r d) = events d" "outbox (put_run r d) = outbox d"
proof -
  obtain ms where "message_state r (put_run r d) = (put_run r d)\<lparr>messages := ms\<rparr>"
    using message_state_frame [of r "put_run r d"] by auto
  then show "events (settle r d) = events d" "outbox (settle r d) = outbox d"
    by (simp_all add: settle_def put_run_def)
qed (simp_all add: put_run_def)

lemma emit_over_budget:
  "over_budget r (payload_size (event_payload r data at)) term \<Longrightarrow> emit_event r name data term at d = Inl event_limit"
  by (simp add: emit_event_def Let_def)

lemma over_budget_same [simp]:
  "over_budget (release_lease r) n b = over_budget r n b"
  by (simp add: over_budget_def release_lease_def)

end
