(* ===== verification/RunProperties.thy ===== *)
theory RunProperties
  imports RunSimulation
begin

text \<open>
  What the run store promises. \<open>run_step\<close> is one committed or rolled-back operation of the
  store, or a step of another service that leaves the tables of runs alone; \<open>run_reach\<close>
  are the states reachable from a database without runs.
\<close>

section \<open>Steps of the store\<close>

inductive run_step :: "db \<Rightarrow> db \<Rightarrow> bool" where
  step_create: "(\<And>f. prepare = Some f \<Longrightarrow> preparation_ok f) \<Longrightarrow>
    run_step d (snd (create_run e uid sid p req key queued prepare rid clk d))"
| step_append: "run_step d (snd (append_event e uid rid event value claim clk d))"
| step_complete: "complete_run e uid rid m claim clk d = Inr (r, d') \<Longrightarrow> run_step d d'"
| step_fail: "run_step d (snd (fail_run e uid rid err clk d))"
| step_read: "run_step d (snd (read_run e uid rid after clk d))"
| step_claim: "run_step d (snd (claim_next e rid' token clk d))"
| step_release: "run_step d (snd (release_busy e c clk d))"
| step_heartbeat: "run_step d (snd (heartbeat e c clk d))"
| step_checkpoint: "run_step d (snd (write_checkpoint e c payload clk d))"
| step_cancel: "run_step d (snd (request_cancel e uid rid clk d))"
| step_finish: "run_step d (snd (finish_failure e c err clk d))"
| step_pause: "run_step d (snd (pause_run e c payload question key clk d))"
| step_resume: "run_step d (snd (resume_run e ce caps uid rid revision key supplement q clk d))"
| step_begin: "run_step d (snd (begin_operation e c okey inputs ro clk d))"
| step_end: "run_step d (snd (complete_operation e c okey result ck clk d))"
| step_dispatch: "run_step d (snd (dispatch_outbox notifies limit clk d))"
| step_other: "run_tables_same d d' \<Longrightarrow> run_step d d'"

inductive_cases run_step_cases: "run_step d d'"

abbreviation run_steps :: "db \<Rightarrow> db \<Rightarrow> bool" where
  "run_steps \<equiv> run_step\<^sup>*\<^sup>*"

definition no_runs :: "db \<Rightarrow> bool" where
  "no_runs d = (runs d = [] \<and> events d = [] \<and> outbox d = [] \<and> operations d = [] \<and> checkpoints d = [])"

definition run_reach :: "db \<Rightarrow> bool" where
  "run_reach d = (\<exists>d0. no_runs d0 \<and> run_steps d0 d)"

lemma run_step_moves:
  assumes "run_step d d'" and "runs_inv d"
  shows "run_moves d d'"
  using assms
proof (induction rule: run_step.induct)
  case (step_create prepare d e uid sid p req key queued rid clk)
  then show ?case by (intro create_run_moves)
next
  case (step_complete e uid rid m claim clk d r d')
  then show ?case using complete_run_moves by blast
next
  case (step_other d d')
  then show ?case by (intro r_into_rtranclp m_other)
qed (rule append_event_moves fail_run_moves read_run_moves claim_next_moves release_busy_moves
    heartbeat_moves write_checkpoint_moves request_cancel_moves finish_failure_moves pause_run_moves
    resume_run_moves begin_operation_moves complete_operation_moves dispatch_outbox_moves; assumption)+

lemma run_steps_moves:
  assumes "run_steps d d'" and "runs_inv d"
  shows "run_moves d d' \<and> runs_inv d'"
  using assms(1)
proof (induction rule: rtranclp_induct)
  case (step y z)
  then show ?case using run_step_moves [of y z] run_moves_keep [of y z] by (meson rtranclp_trans)
qed (simp add: assms(2))

lemma no_runs_inv: "no_runs d \<Longrightarrow> runs_inv d"
  by (simp add: no_runs_def runs_inv_def runs_ok_def one_active_def journal_ok_def receipts_ok_def
      operation_count_def checkpoints_ok_def)

lemma run_reach_inv: "run_reach d \<Longrightarrow> runs_inv d"
  using run_steps_moves no_runs_inv by (auto simp: run_reach_def)

lemma run_reach_step: "run_reach d \<Longrightarrow> run_steps d d' \<Longrightarrow> run_reach d'"
  by (meson run_reach_def rtranclp_trans)

section \<open>What every reachable state satisfies\<close>

text \<open>
  A database in the middle of a run's life, on which the properties are applied: run 500 of
  session 7 is queued with one event in its journal.
\<close>

definition demo_run_env :: run_env where
  "demo_run_env = \<lparr>re_kind = Chat, re_timeout = seconds 300, re_queue_limit = 5, re_lease = seconds 30,
     re_wait = seconds 3600, re_sandbox = False, re_sha256 = (\<lambda>s. take 64 s), re_text = (\<lambda>_. ''text''),
     re_decode = (\<lambda>_. None), re_approval = (\<lambda>_. None)\<rparr>"

definition demo_session :: chat_session where
  "demo_session = \<lparr>cs_id = 7, cs_user = 1, cs_org = None, cs_title = ''t'', cs_kind = Chat, cs_summary = [],
     cs_summarized = None, cs_updated = 0\<rparr>"

definition demo_db :: db where
  "demo_db = empty_db\<lparr>users := [\<lparr>u_id = 1, u_name = ''ann'', u_password_hash = [], u_role = RoleUser,
     u_active = True\<rparr>], sessions := [demo_session]\<rparr>"

definition demo_clock :: clock where
  "demo_clock n = 1000000 * int n"

definition demo_prepare :: preparation where
  "demo_prepare r p d = Inr (r\<lparr>r_snapshot := [(''version'', JInt 1)]\<rparr>, d)"

definition demo_input :: agent_input where
  "demo_input = plain_input ''hi'' Auto"

definition demo_create :: "db \<Rightarrow> (db, chat_run \<times> bool) outcome" where
  "demo_create d = create_run demo_run_env 1 7 demo_input ''req'' 100 True (Some demo_prepare) 500 demo_clock d"

lemma demo_prepare_ok: "preparation_ok demo_prepare"
  by (simp add: preparation_ok_def demo_prepare_def prepared_def run_tables_same_def)

lemma demo_db_reach: "run_reach demo_db"
  unfolding run_reach_def
  by (rule exI [of _ demo_db]) (simp add: no_runs_def demo_db_def empty_db_def)

lemma demo_inputs_small: "jsize (JObj (run_inputs demo_input)) \<le> 1000"
  by (simp add: run_inputs_def demo_input_def plain_input_def input_dict_def dict_pop_def Let_def uuids_json_def
      opt_str_def opt_int_def)

lemma demo_created:
  "\<exists>r d. demo_create demo_db = (Inr (r, True), d) \<and> r_state r = Queued \<and> r_sequence r = 1 \<and> r_bytes r \<le> 1600 \<and>
     r_owner r = None \<and> r_lease r = None \<and> r_active r = None \<and> r_remaining r = Some (seconds 300) \<and>
     r_generation r = 0 \<and> r_created r = demo_clock 3 \<and> sessions d = [demo_session] \<and> users d = users demo_db \<and>
     runs d = [r] \<and> checkpoints d = [] \<and> operations d = [] \<and> r_resume r = None"
proof -
  let ?p = "demo_input"
  have i: "bounded_json (JObj (run_inputs ?p)) 100000 = Inr (sort_keys (JObj (run_inputs ?p)))"
    using demo_inputs_small by (intro bounded_json_small) simp
  let ?r = "new_run demo_run_env 500 1 7 ?p ''req'' 100 True (sort_keys (JObj (run_inputs ?p))) (demo_clock 2) (demo_clock 3)"
  let ?d2 = "demo_db\<lparr>runs := [?r]\<rparr>"
  have ins: "insert_run ?r demo_db = Inr ?d2"
    by (simp add: insert_run_def demo_db_def empty_db_def find_idempotent_run_def active_session_run_def)
  let ?r1 = "?r\<lparr>r_snapshot := [(''version'', JInt 1)]\<rparr>"
  have snap: "bounded_dict [(''version'', JInt 1)] 4000000 = Inr [(''version'', JInt 1)]"
    using bounded_json_small [of "JObj [(''version'', JInt 1)]" 4000000] length_show_int [of 1 1]
    by (simp add: bounded_dict_def)
  have prep: "prepare_run_row (Some demo_prepare) ?p ?r ?d2 = Inr (?r1, put_run ?r1 ?d2)"
    by (simp add: prepare_run_row_def demo_prepare_def snap Let_def)
  let ?d3 = "put_run ?r1 ?d2"
  have "run_move demo_db ?d2" by (rule m_insert [OF ins new_run_fresh])
  then have "runs_inv ?d2" using run_move_keeps run_reach_inv [OF demo_db_reach] by blast
  moreover have "run_moves ?d2 ?d3"
    using prepare_run_row_moves [OF prep insert_run_row [OF ins] new_run_fresh] demo_prepare_ok by simp
  ultimately have inv: "runs_inv ?d3" using run_moves_keep by blast
  have "jsize (JObj [(''request_id'', JStr ''req''), (''search_mode'', JStr (mode_str Auto))]) \<le> 1000" by simp
  then have small: "payload_size (event_payload ?r1 [(''request_id'', JStr ''req''), (''search_mode'', JStr (mode_str Auto))]
      (demo_clock 4)) \<le> 1600"
    using payload_bound [of ?r1 "[(''request_id'', JStr ''req''), (''search_mode'', JStr (mode_str Auto))]" "demo_clock 4"]
    by (simp add: new_run_def)
  from small have fits: "\<not> over_budget ?r1 (payload_size (event_payload ?r1 [(''request_id'', JStr ''req''),
      (''search_mode'', JStr (mode_str Auto))] (demo_clock 4))) False"
    by (simp add: over_budget_def new_run_def)
  have found: "get_run_row (r_id ?r1) ?d3 = Some ?r1" by (rule put_run_found)
  obtain r2 d4 where em: "emit_event ?r1 ''run_started'' [(''request_id'', JStr ''req''),
      (''search_mode'', JStr (mode_str Auto))] False (demo_clock 4) ?d3 = Inr (r2, d4)"
    using emit_succeeds [OF inv found refl refl refl fits] by blast
  have r2: "r2 = count_event ?r1 (payload_size (event_payload ?r1 [(''request_id'', JStr ''req''),
      (''search_mode'', JStr (mode_str Auto))] (demo_clock 4)))"
    using em by (auto simp: emit_event_def Let_def result_simps)
  then have shape: "r_state r2 = Queued \<and> r_sequence r2 = 1 \<and> r_bytes r2 \<le> 1600 \<and>
     r_owner r2 = None \<and> r_lease r2 = None \<and> r_active r2 = None \<and> r_remaining r2 = Some (seconds 300) \<and>
     r_generation r2 = 0 \<and> r_created r2 = demo_clock 3 \<and> r_resume r2 = None"
    using small by (simp add: count_event_def new_run_def demo_run_env_def)
  obtain n where "r2 = count_event ?r1 n" using r2 by blast
  then have "truthy (tool_approval_of r2) = False"
    by (simp add: tool_approval_of_def sub_dict_def dict_get_def)
  then have ap: "emit_approval r2 (demo_clock 5) d4 = Inr (r2, d4)"
    by (simp add: emit_approval_def)
  have sess: "chat_session_of 1 7 (Some (re_kind demo_run_env)) demo_db = Inr demo_session"
    by (simp add: chat_session_of_def demo_db_def demo_session_def demo_run_env_def)
  have clear: "clear_session demo_run_env 7 demo_clock demo_db = Inr demo_db"
    by (simp add: clear_session_def active_session_run_def demo_db_def empty_db_def)
  have room: "raise_if (True \<and> re_queue_limit demo_run_env \<le> count_active_runs (re_kind demo_run_env) 1 demo_db)
      (AppError ''RUN_CAPACITY_EXCEEDED'' 429) = Inr ()"
    by (simp add: count_active_runs_def demo_db_def empty_db_def demo_run_env_def)
  have mode: "in_mode ?p = Auto" by (simp add: demo_input_def plain_input_def)
  have "start_run demo_run_env 1 7 ?p ''req'' 100 True (Some demo_prepare) 500 demo_clock demo_db =
      committed (r2, True) d4"
    unfolding start_run_def Let_def mode sess clear room i ins prep em ap and_then_Inr prod.case by (rule refl)
  then have "create_body demo_run_env 1 7 ?p ''req'' 100 True (Some demo_prepare) 500 demo_clock demo_db =
      committed (r2, True) d4"
  proof -
    have "admit_user True 1 demo_db = Inr ()" "find_idempotent_run 100 1 demo_db = None"
      by (simp_all add: admit_user_def find_idempotent_run_def demo_db_def empty_db_def)
    then show "start_run demo_run_env 1 7 ?p ''req'' 100 True (Some demo_prepare) 500 demo_clock demo_db =
      committed (r2, True) d4 \<Longrightarrow> ?thesis"
      by (simp only: create_body_def and_then_Inr option.case)
  qed
  then have "demo_create demo_db = (Inr (r2, True), d4)"
    by (simp add: demo_create_def create_run_def transaction_def committed_def)
  moreover have "sessions d4 = [demo_session]" "users d4 = users demo_db"
    using touch_frame [OF touch_emit [OF em]] by (simp_all add: put_run_def demo_db_def)
  moreover have "runs d4 = [r2]"
  proof -
    have "r_id r2 = 500" "r_id ?r1 = 500" "r_id ?r = 500" by (simp_all add: r2 new_run_def)
    moreover have "runs d4 = row_put r_id r2 (row_put r_id ?r1 [?r])"
      using touch_emit [OF em] unfolding touch_def by (simp add: put_run_def)
    ultimately show ?thesis by (simp add: row_put_def)
  qed
  moreover have "checkpoints d4 = []" "operations d4 = []"
    using touch_frame [OF touch_emit [OF em]] by (simp_all add: put_run_def demo_db_def empty_db_def)
  ultimately show ?thesis using shape by blast
qed

definition demo_state :: db where
  "demo_state = snd (demo_create demo_db)"

lemma demo_state_step: "run_steps demo_db demo_state"
  unfolding demo_state_def demo_create_def
  by (rule r_into_rtranclp, rule step_create) (auto simp: demo_prepare_ok)

lemma demo_state_reach: "run_reach demo_state"
  by (rule run_reach_step [OF demo_db_reach demo_state_step])

lemma create_run_new_row:
  assumes "create_run e uid sid p req key queued prepare rid clk d = (Inr (r, True), d')" "runs_inv d"
    and "\<And>f. prepare = Some f \<Longrightarrow> preparation_ok f"
  shows "get_run_row (r_id r) d' = Some r \<and> r_id r = rid \<and> r_user r = uid \<and> r_session r = sid \<and>
    r_client_key r = key \<and> r_fingerprint r = run_fingerprint e sid p \<and> r_kind r = re_kind e \<and>
    get_run_row rid d = None \<and> runs_inv d'"
proof -
  have b: "create_body e uid sid p req key queued prepare rid clk d = Inr (Inr (r, True), d')"
    using assms(1) unfolding create_run_def transaction_def
    by (auto split: if_splits sum.splits prod.splits)
  show ?thesis
  proof (cases "find_idempotent_run key uid d")
    case None
    then have "start_run e uid sid p req key queued prepare rid clk d = Inr (Inr (r, True), d')"
      using b by (simp add: create_body_def result_simps)
    then show ?thesis using start_run_moves [OF _ assms(2,3)] by blast
  next
    case (Some x)
    then have "retry_run e (run_fingerprint e sid p) x clk d = Inr (Inr (r, True), d')"
      using b by (simp add: create_body_def result_simps)
    then show ?thesis using retry_run_moves [OF _ assms(2)] find_idempotent_row [OF Some assms(2)] by blast
  qed
qed

lemma demo_row:
  obtains r where "get_run_row 500 demo_state = Some r" "r_id r = 500" "r_user r = 1" "r_client_key r = 100" "r_session r = 7"
    "r_kind r = Chat" "r_fingerprint r = run_fingerprint demo_run_env 7 demo_input" "r_state r = Queued"
    "r_sequence r = 1" "r_bytes r \<le> 1600" "r_owner r = None" "r_lease r = None" "r_active r = None"
    "r_remaining r = Some (seconds 300)" "r_generation r = 0" "demo_create demo_db = (Inr (r, True), demo_state)" "sessions demo_state = [demo_session]"
    "users demo_state = users demo_db" "runs demo_state = [r]" "checkpoints demo_state = []" "operations demo_state = []"
    "r_resume r = None"
proof -
  obtain r d where c: "demo_create demo_db = (Inr (r, True), d)" and s: "r_state r = Queued" "r_sequence r = 1"
    "r_bytes r \<le> 1600" "r_owner r = None" "r_lease r = None" "r_active r = None"
    "r_remaining r = Some (seconds 300)" "r_generation r = 0" "sessions d = [demo_session]" "users d = users demo_db"
    "runs d = [r]" "checkpoints d = []" "operations d = []" "r_resume r = None"
    using demo_created by blast
  have d: "d = demo_state" using c by (simp add: demo_state_def)
  have inv: "runs_inv demo_db" using run_reach_inv [OF demo_db_reach] .
  have "get_run_row (r_id r) d = Some r \<and> r_id r = 500 \<and> r_user r = 1 \<and> r_session r = 7 \<and>
    r_client_key r = 100 \<and> r_fingerprint r = run_fingerprint demo_run_env 7 demo_input \<and> r_kind r = re_kind demo_run_env"
    using create_run_new_row [OF c [unfolded demo_create_def] inv] demo_prepare_ok by blast
  then show ?thesis using that [of r] s c d by (auto simp: demo_run_env_def)
qed

text \<open>
  C1: in every state the store can reach, run ids and the request keys of a user are unique,
  a session has at most one run that is queued, running, waiting or cancelling, the events of
  a run are stored in order and numbered 1, 2, ... up to the run's sequence, every event has
  its outbox row, and a journal never exceeds 8200 events or 8,000,000 bytes.
\<close>

theorem run_store_invariant:
  assumes "run_reach d"
  shows "distinct (map r_id (runs d)) \<and> distinct (map (\<lambda>r. (r_user r, r_client_key r)) (runs d)) \<and>
    (\<forall>r\<in>set (runs d). \<forall>s\<in>set (runs d). r_state r \<in> set active_states \<and> r_state s \<in> set active_states \<and>
       r_session r = r_session s \<longrightarrow> r = s) \<and>
    (\<forall>r\<in>set (runs d). map ev_sequence (filter (\<lambda>v. ev_run v = r_id r) (events d)) = [1..r_sequence r] \<and>
       0 \<le> r_sequence r \<and> r_sequence r \<le> 8200 \<and> r_bytes r \<le> 8000000) \<and>
    map ob_pk (outbox d) = map event_pk (events d)"
proof -
  have inv: "runs_inv d" using run_reach_inv [OF assms] .
  then have ok: "runs_ok d" "journal_ok d" by (simp_all add: runs_inv_def)
  have "distinct (map (\<lambda>r. (r_user r, r_client_key r)) (runs d))"
    using ok(1) by (simp add: runs_ok_def run_key_def [abs_def])
  moreover have "r = s" if "r \<in> set (runs d)" "s \<in> set (runs d)" "active r" "active s" "r_session r = r_session s" for r s
    using ok(1) that distinct_key_eq [of r_id "runs d" r s] unfolding runs_ok_def one_active_def by blast
  moreover have "0 \<le> r_sequence r \<and> r_sequence r \<le> 8200 \<and> r_bytes r \<le> 8000000" if "r \<in> set (runs d)" for r
    using ok(1) that by (fastforce simp: runs_ok_def row_ok_def journal_bounds_def split: if_splits)
  ultimately show ?thesis
    using ok unfolding runs_ok_def journal_ok_def journal_of_def active_def by blast
qed

theorem run_store_invariant_witness:
  "run_reach demo_state \<and> runs demo_state \<noteq> [] \<and> distinct (map r_id (runs demo_state)) \<and>
   map ob_pk (outbox demo_state) = map event_pk (events demo_state)"
proof -
  obtain r where "get_run_row 500 demo_state = Some r" by (rule demo_row)
  then have "runs demo_state \<noteq> []" by auto
  then show ?thesis using run_store_invariant [OF demo_state_reach] demo_state_reach by blast
qed

text \<open>
  Between any two moments a run keeps its identity, its state moves along the diagram of
  the life cycle, its fencing generation and its sequence never decrease, its journal is only
  appended to, and the time it has left is never given back.
\<close>

lemma run_progress:
  assumes "run_reach d" and "run_steps d d'" and "get_run_row rid d = Some r"
  shows "\<exists>r'. get_run_row rid d' = Some r' \<and>
    r_user r' = r_user r \<and> r_session r' = r_session r \<and> r_client_key r' = r_client_key r \<and>
    r_fingerprint r' = r_fingerprint r \<and>
    transition\<^sup>*\<^sup>* (r_state r) (r_state r') \<and> r_generation r \<le> r_generation r' \<and> r_sequence r \<le> r_sequence r' \<and>
    prefix (filter (\<lambda>v. ev_run v = rid) (events d)) (filter (\<lambda>v. ev_run v = rid) (events d')) \<and>
    (\<forall>x. r_remaining r = Some x \<longrightarrow> (\<exists>y. r_remaining r' = Some y \<and> y \<le> x))"
proof -
  have "run_moves d d'" using run_steps_moves [OF assms(2)] run_reach_inv [OF assms(1)] by blast
  then obtain r' where "get_run_row rid d' = Some r'" "evolves r r'" "journal_grows rid r d d'"
    using run_moves_evolve assms(3) by blast
  then show ?thesis
    by (intro exI [of _ r'])
      (auto simp: evolves_def same_run_def journal_grows_def journal_of_def budget_shrinks_def split: option.splits)
qed

section \<open>Cancellation\<close>

lemma get_row_demo:
  assumes "get_run_row 500 demo_state = Some r" "r_user r = 1" "r_kind r = Chat" "r_session r = 7"
    and "sessions demo_state = [demo_session]"
  shows "get_row demo_run_env 1 500 True demo_state = Inr r"
proof -
  have inv: "runs_inv demo_state" using run_reach_inv [OF demo_state_reach] .
  have "get_run_of Chat 1 500 demo_state = Some r"
  proof (cases "get_run_of Chat 1 500 demo_state")
    case None
    moreover have "r \<in> set (runs demo_state)" "r_id r = 500" using get_run_row_mem [OF assms(1)] by auto
    ultimately show ?thesis using assms(2,3) by (auto simp: get_run_of_def find_None_iff)
  next
    case (Some q)
    then show ?thesis using get_run_of_row [OF Some inv] assms(1) by simp
  qed
  moreover have "chat_session_of 1 7 None demo_state = Inr demo_session"
    using assms(5) by (simp add: chat_session_of_def demo_session_def)
  ultimately show ?thesis using assms(4) by (simp add: get_row_def demo_run_env_def)
qed

lemma request_cancel_result:
  assumes inv: "runs_inv d" and "get_row e uid rid True d = Inr r"
  shows "(r_state r \<in> set terminal_states \<or> r_state r = Cancelling \<longrightarrow>
      request_cancel e uid rid clk d = (Inr r, d)) \<and>
    (r_state r \<notin> set terminal_states \<and> r_state r \<noteq> Cancelling \<and> cancels_at_once r (clk 0) \<longrightarrow>
      (\<exists>r' d'. request_cancel e uid rid clk d = (Inr r', d') \<and> r_state r' = Cancelled \<and>
         get_run_row rid d' = Some r')) \<and>
    (r_state r \<notin> set terminal_states \<and> r_state r \<noteq> Cancelling \<and> \<not> cancels_at_once r (clk 0) \<longrightarrow>
      (\<exists>r' d'. request_cancel e uid rid clk d = (Inr r', d') \<and> r_state r' = Cancelling \<and>
         get_run_row rid d' = Some r') \<or>
      request_cancel e uid rid clk d = (Inl event_limit, d))"
proof -
  have g: "get_run_row (r_id r) d = Some r" "r_id r = rid" "row_ok r"
    using get_row_row [OF assms(2) inv] by blast+
  let ?c = "cancels_at_once r (clk 0)"
  let ?r1 = "r\<lparr>r_state := (if ?c then Cancelled else Cancelling), r_resume := None\<rparr>"
  let ?name = "if ?c then ''run_cancelled'' else ''cancel_requested''"
  have settled: "request_cancel e uid rid clk d = (Inr r', d') \<and> r_state r' = r_state ?r1 \<and> get_run_row rid d' = Some r'"
    if live: "\<not> (r_state r \<in> set terminal_states \<or> r_state r = Cancelling)"
    and em: "emit_event ?r1 ?name [] ?c (clk 1) (settle ?r1 d) = Inr (r', d')" for r' d'
  proof -
    have "request_cancel e uid rid clk d = (Inr r', d')"
      using live em assms(2) by (simp add: request_cancel_def transaction_def committed_def Let_def)
    moreover have "get_run_row (r_id r) d' = Some r'" using touch_row [OF touch_emit [OF em]] by simp
    moreover have "r_state r' = r_state ?r1" using emit_event_row [OF em] by auto
    ultimately show ?thesis using g(2) by simp
  qed
  have ev: "\<exists>r' d'. emit_event ?r1 ?name [] ?c (clk 1) (settle ?r1 d) = Inr (r', d')"
    if "\<not> over_budget ?r1 (payload_size (event_payload ?r1 [] (clk 1))) ?c"
    using emit_succeeds [OF inv _ _ _ _ that, of r] g(1) by simp
  have "r_state r \<in> set terminal_states \<or> r_state r = Cancelling \<longrightarrow> request_cancel e uid rid clk d = (Inr r, d)"
    using assms(2) by (simp add: request_cancel_def transaction_def committed_def)
  moreover have "\<exists>r' d'. request_cancel e uid rid clk d = (Inr r', d') \<and> r_state r' = Cancelled \<and> get_run_row rid d' = Some r'"
    if live: "\<not> (r_state r \<in> set terminal_states \<or> r_state r = Cancelling)" and c: "?c"
  proof -
    have "active r" using live by (auto simp: terminal_iff [unfolded terminal_def] simp del: active_simps)
    then have "\<not> over_budget ?r1 (payload_size (event_payload ?r1 [] (clk 1))) True"
      using terminal_fits [OF g(3), of ?r1 "[]"] by simp
    then show ?thesis using ev settled [OF live] c by fastforce
  qed
  moreover have "(\<exists>r' d'. request_cancel e uid rid clk d = (Inr r', d') \<and> r_state r' = Cancelling \<and>
      get_run_row rid d' = Some r') \<or> request_cancel e uid rid clk d = (Inl event_limit, d)"
    if live: "\<not> (r_state r \<in> set terminal_states \<or> r_state r = Cancelling)" and c: "\<not> ?c"
  proof (cases "over_budget ?r1 (payload_size (event_payload ?r1 [] (clk 1))) ?c")
    case True
    have "request_cancel e uid rid clk d = (Inl event_limit, d)"
      using live c assms(2) emit_over_budget [OF True]
      by (simp add: request_cancel_def transaction_def Let_def)
    then show ?thesis ..
  next
    case False
    then show ?thesis using ev settled [OF live] c by fastforce
  qed
  ultimately show ?thesis by blast
qed

text \<open>
  a cancel request of the owner is answered by the state of the run. A terminal run and one
  that is already being cancelled are returned unchanged. A run nobody executes (queued,
  waiting, without an owner, or with an expired lease) is cancelled at once, and the
  cancellation always fits its journal. A leased run is asked to stop; only this answer can
  fail, when the journal has no room for an ordinary event, and then nothing changes.
\<close>

lemma request_cancel_outcome:
  assumes "run_reach d" and "get_row e uid rid True d = Inr r"
  shows "(r_state r \<in> set terminal_states \<or> r_state r = Cancelling \<longrightarrow>
      request_cancel e uid rid clk d = (Inr r, d)) \<and>
    (r_state r \<notin> set terminal_states \<and> r_state r \<noteq> Cancelling \<and> cancels_at_once r (clk 0) \<longrightarrow>
      (\<exists>r' d'. request_cancel e uid rid clk d = (Inr r', d') \<and> r_state r' = Cancelled \<and>
         get_run_row rid d' = Some r')) \<and>
    (r_state r \<notin> set terminal_states \<and> r_state r \<noteq> Cancelling \<and> \<not> cancels_at_once r (clk 0) \<longrightarrow>
      (\<exists>r' d'. request_cancel e uid rid clk d = (Inr r', d') \<and> r_state r' = Cancelling \<and>
         get_run_row rid d' = Some r') \<or>
      request_cancel e uid rid clk d = (Inl event_limit, d))"
  using request_cancel_result [OF run_reach_inv [OF assms(1)] assms(2)] .

lemma request_cancel_outcome_witness:
  "\<exists>r' d'. request_cancel demo_run_env 1 500 demo_clock demo_state = (Inr r', d') \<and> r_state r' = Cancelled \<and>
     get_run_row 500 d' = Some r'"
proof -
  obtain r where r: "get_run_row 500 demo_state = Some r" "r_user r = 1" "r_session r = 7" "r_kind r = Chat"
    "r_state r = Queued" "sessions demo_state = [demo_session]" by (rule demo_row)
  have "get_row demo_run_env 1 500 True demo_state = Inr r" using get_row_demo r by blast
  then show ?thesis
    using request_cancel_outcome [OF demo_state_reach, of demo_run_env 1 500 r demo_clock] r(5)
    by (auto simp: terminal_states_def cancels_at_once_def)
qed

lemma demo_cancelled:
  obtains r d where "run_reach d" "get_run_row 500 d = Some r" "r_state r = Cancelled"
    "request_cancel demo_run_env 1 500 demo_clock demo_state = (Inr r, d)"
proof -
  obtain r where r: "get_run_row 500 demo_state = Some r" "r_user r = 1" "r_session r = 7" "r_kind r = Chat"
    "r_state r = Queued" "sessions demo_state = [demo_session]" by (rule demo_row)
  have "get_row demo_run_env 1 500 True demo_state = Inr r" using get_row_demo r by blast
  then obtain r' d where c: "request_cancel demo_run_env 1 500 demo_clock demo_state = (Inr r', d)"
    and r': "r_state r' = Cancelled" "get_run_row 500 d = Some r'"
    using request_cancel_result [OF run_reach_inv [OF demo_state_reach], of demo_run_env 1 500 r demo_clock] r(5)
    by (auto simp: terminal_states_def cancels_at_once_def)
  have "run_step demo_state d" using step_cancel [of demo_state demo_run_env 1 500 demo_clock] c by simp
  then have "run_reach d" by (meson demo_state_reach run_reach_step r_into_rtranclp)
  then show ?thesis using that c r' by blast
qed

lemma run_progress_witness:
  "\<exists>r'. get_run_row 500 (snd (claim_next demo_run_env None 900 demo_clock demo_state)) = Some r' \<and>
     r_user r' = 1 \<and> transition\<^sup>*\<^sup>* Queued (r_state r') \<and> (\<exists>y. r_remaining r' = Some y \<and> y \<le> seconds 300)"
proof -
  obtain r where r: "get_run_row 500 demo_state = Some r" "r_user r = 1" "r_state r = Queued"
    "r_remaining r = Some (seconds 300)" by (rule demo_row)
  have "run_steps demo_state (snd (claim_next demo_run_env None 900 demo_clock demo_state))"
    by (rule r_into_rtranclp, rule step_claim)
  then show ?thesis using run_progress [OF demo_state_reach _ r(1)] r by auto
qed

section \<open>Fencing\<close>

text \<open>A claim that \<open>owned\<close> rejects in every mode writes nothing.\<close>

definition fenced :: "run_env \<Rightarrow> run_claim \<Rightarrow> db \<Rightarrow> bool" where
  "fenced e c d \<longleftrightarrow> (\<forall>allow dl t1 t2. \<exists>err. owned e c allow dl t1 t2 d = Inl err)"

lemma fencedD: "fenced e c d \<Longrightarrow> \<exists>err. owned e c allow dl t1 t2 d = Inl err"
  by (simp add: fenced_def)

lemma transaction_Inl: "f d = Inl err \<Longrightarrow> transaction f d = (Inl err, d)"
  by (simp add: transaction_def)

definition rejected :: "(db, 'a) outcome \<Rightarrow> db \<Rightarrow> bool" where
  "rejected out d \<longleftrightarrow> (\<exists>err. out = (Inl err, d))"

lemma rejected_transaction: "\<exists>err. f d = Inl err \<Longrightarrow> rejected (transaction f d) d"
  by (auto simp: rejected_def transaction_def)

lemma and_then_rejected: "(\<And>x. m = Inr x \<Longrightarrow> \<exists>err. f x = Inl err) \<Longrightarrow> \<exists>err. and_then m f = Inl err"
  by (cases m) auto

lemma fenced_rejects:
  assumes "fenced e c d"
  shows "rejected (append_event e uid rid event value (Some c) clk d) d"
    and "rejected (release_busy e c clk d) d" and "rejected (heartbeat e c clk d) d"
    and "rejected (write_checkpoint e c payload clk d) d" and "rejected (finish_failure e c err clk d) d"
    and "rejected (pause_run e c payload question key clk d) d"
    and "rejected (begin_operation e c okey inputs ro clk d) d"
    and "rejected (complete_operation e c okey inputs ck clk d) d"
    and "\<exists>x. complete_run e uid rid m (Some c) clk d = Inl x"
proof -
  note o' = fencedD [OF assms]
  have own: "\<exists>x. and_then (owned e c allow dl t1 t2 d) f = Inl x" for allow dl t1 t2 and f :: "chat_run \<Rightarrow> 'z result"
    using o' [of allow dl t1 t2] by auto
  show "rejected (append_event e uid rid event value (Some c) clk d) d"
    unfolding append_event_def owned_or_guard_def option.case
    by (rule rejected_transaction, rule and_then_rejected) (rule own)
  show "rejected (release_busy e c clk d) d" unfolding release_busy_def by (rule rejected_transaction, rule own)
  show "rejected (heartbeat e c clk d) d" unfolding heartbeat_def by (rule rejected_transaction, rule own)
  show "rejected (write_checkpoint e c payload clk d) d"
    unfolding write_checkpoint_def by (rule rejected_transaction, rule own)
  show "rejected (finish_failure e c err clk d) d" unfolding finish_failure_def by (rule rejected_transaction, rule own)
  show "rejected (pause_run e c payload question key clk d) d"
    unfolding pause_run_def pause_body_def
    by (rule rejected_transaction, rule and_then_rejected) (use own in \<open>fastforce simp: and_then_eq_Inl\<close>)
  show "rejected (begin_operation e c okey inputs ro clk d) d"
    unfolding begin_operation_def
    by (rule rejected_transaction, rule and_then_rejected, rule and_then_rejected) (rule own)
  show "rejected (complete_operation e c okey inputs ck clk d) d"
    unfolding complete_operation_def by (rule rejected_transaction, rule and_then_rejected) (rule own)
  show "\<exists>x. complete_run e uid rid m (Some c) clk d = Inl x"
    unfolding complete_run_def owned_or_guard_def option.case by (rule own)
qed

lemma older_generation_fenced:
  assumes inv: "runs_inv d" and r: "get_run_row (cl_run c) d = Some r" "cl_generation c < r_generation r"
  shows "fenced e c d"
  unfolding fenced_def
proof (intro allI)
  fix allow dl t1 t2
  show "\<exists>err. owned e c allow dl t1 t2 d = Inl err"
  proof (cases "owned e c allow dl t1 t2 d")
    case (Inr q)
    then show ?thesis using owned_row [OF Inr inv] r by auto
  qed simp
qed

lemma fenced_forever:
  assumes inv: "runs_inv d" and held: "owned e c allow dl t1 t2 d = Inr r"
    and taken: "claim_next e' rid token clk d = (Inr (Some c'), d1)" "cl_run c' = cl_run c"
    and later: "run_steps d1 d2"
  shows "cl_generation c < cl_generation c' \<and> fenced e c d2"
proof -
  obtain r' q m where r': "get_run_row (cl_run c) d1 = Some r'" "r_generation r' = cl_generation c'"
    and q: "run_moves d m" "get_run_row (cl_run c) m = Some q" "cl_generation c' = r_generation q + 1"
    using claim_next_Some [OF inv taken(1)] taken(2) by auto
  have h: "get_run_row (cl_run c) d = Some r" "r_generation r = cl_generation c"
    using owned_row [OF held inv] by auto
  have "r_generation r \<le> r_generation q"
    using run_moves_evolve [OF q(1) h(1)] q(2) by (auto simp: evolves_def)
  then have g: "cl_generation c < cl_generation c'" using h(2) q(3) by simp
  have "runs_inv d1" using run_moves_keep [OF claim_next_moves [OF inv] inv] taken(1) by (metis snd_conv)
  then have l: "run_moves d1 d2" "runs_inv d2" using run_steps_moves [OF later] by auto
  obtain r2 where "get_run_row (cl_run c) d2 = Some r2" "evolves r' r2"
    using run_moves_evolve [OF l(1) r'(1)] by auto
  then show ?thesis using g r'(2) older_generation_fenced [OF l(2)] by (auto simp: evolves_def)
qed

text \<open>
  C2: fencing. When a worker takes over a run, the claim that held it before is rejected by
  every operation from then on, whatever happens in between: it cannot journal an event, renew
  its lease, write a checkpoint, record or finish a call, pause, fail or complete the run, and
  its attempts leave the database unchanged.
\<close>

theorem stale_claim_fenced:
  assumes "run_reach d" and "owned e c allow dl t1 t2 d = Inr r"
    and "claim_next e' rid token clk d = (Inr (Some c'), d1)" and "cl_run c' = cl_run c"
    and "run_steps d1 d2"
  shows "cl_generation c < cl_generation c' \<and>
    rejected (append_event e uid rid' event value (Some c) clk' d2) d2 \<and>
    rejected (heartbeat e c clk' d2) d2 \<and> rejected (release_busy e c clk' d2) d2 \<and>
    rejected (write_checkpoint e c payload clk' d2) d2 \<and> rejected (finish_failure e c err clk' d2) d2 \<and>
    rejected (pause_run e c payload question key clk' d2) d2 \<and>
    rejected (begin_operation e c okey inputs ro clk' d2) d2 \<and>
    rejected (complete_operation e c okey inputs ck clk' d2) d2 \<and>
    (\<exists>x. complete_run e uid rid' m (Some c) clk' d2 = Inl x)"
proof -
  have f: "cl_generation c < cl_generation c'" "fenced e c d2"
    using fenced_forever [OF run_reach_inv [OF assms(1)] assms(2-5)] by auto
  show ?thesis by (intro conjI fenced_rejects [OF f(2)] f(1))
qed

section \<open>The worker is never stuck\<close>

definition short_texts :: "run_env \<Rightarrow> bool" where
  "short_texts e \<longleftrightarrow> (\<forall>code. length (re_text e code) \<le> 100000)"

lemma error_data_small:
  assumes "short_texts e" "length code \<le> 100" "status < 1000"
  shows "jsize (JObj (error_data e code status)) \<le> 1000000"
proof -
  have "length (show_int (int status)) \<le> 3" using assms(3) by (intro length_show_int) simp_all
  moreover have "length (re_text e code) \<le> 100000" using assms(1) by (simp add: short_texts_def)
  ultimately show ?thesis using assms(2) by (simp add: error_data_def)
qed

text \<open>A terminal event on a live row of a consistent state is accepted.\<close>

lemma terminal_emit_succeeds:
  assumes inv: "runs_inv d" and q: "get_run_row (r_id r) d = Some q" "active q" "r_sequence r = r_sequence q"
    "r_bytes r = r_bytes q" and same: "events d1 = events d" "outbox d1 = outbox d"
    and small: "jsize (JObj data) \<le> 1000000"
  shows "\<exists>r' d'. emit_event r name data True at d1 = Inr (r', d')"
  using emit_succeeds [OF inv q(1,3) same terminal_fits [OF _ q(2,3,4) small]] inv_row [OF inv q(1)] by blast

lemma expire_succeeds:
  assumes inv: "runs_inv d" and r: "get_run_row (r_id r) d = Some r" and s: "short_texts e"
  shows "\<exists>r' d'. expire e r now at d = Inr (r', d')"
proof -
  have em: "\<exists>r' d'. emit_event r ''error'' (error_data e code 409) True at d = Inr (r', d')"
    if "active r" "length code \<le> 100" for code
    using terminal_emit_succeeds [OF inv r that(1) refl refl refl refl error_data_small [OF s that(2)]] by simp
  have "\<exists>r' d'. emit_event r ''error'' (error_data e ''HITL_EXPIRED'' 409) True at d = Inr (r', d')" if "r_state r = Waiting"
    using em [of "''HITL_EXPIRED''"] that by simp
  moreover have "\<exists>r' d'. emit_event r ''error'' (error_data e ''RUN_INTERRUPTED'' 409) True at d = Inr (r', d')"
    if "r_state r = Running"
    using em [of "''RUN_INTERRUPTED''"] that by simp
  ultimately show ?thesis unfolding expire_def by (auto simp: Let_def)
qed

definition keeps_live :: "db \<Rightarrow> db \<Rightarrow> bool" where
  "keeps_live d d' \<longleftrightarrow> (\<forall>i q. get_run_row i d' = Some q \<longrightarrow> active q \<longrightarrow> get_run_row i d = Some q)"

lemma keeps_live_trans: "keeps_live d d1 \<Longrightarrow> keeps_live d1 d2 \<Longrightarrow> keeps_live d d2"
  unfolding keeps_live_def by blast

lemma keeps_live_one:
  assumes "get_run_row (r_id r) d = Some r" "get_run_row (r_id r) d' = Some r'" "r' = r \<or> terminal r'"
    and "\<forall>i. i \<noteq> r_id r \<longrightarrow> get_run_row i d' = get_run_row i d"
  shows "keeps_live d d'"
  unfolding keeps_live_def using assms terminal_iff by (metis option.inject)

lemma expire_all_succeeds:
  assumes "runs_inv d" "current rs d" "short_texts e"
  shows "\<exists>d'. expire_all e rs clk i d = Inr d' \<and> keeps_live d d'"
  using assms
proof (induction rs arbitrary: i d)
  case (Cons r rs)
  have r: "get_run_row (r_id r) d = Some r" using Cons.prems(2) by (simp add: current_def)
  obtain r' d1 where e: "expire e r (clk i) (clk (i + 1)) d = Inr (r', d1)"
    using expire_succeeds [OF Cons.prems(1) r Cons.prems(3)] by blast
  have s: "runs_inv d1" "get_run_row (r_id r) d1 = Some r'" "r' = r \<or> r_state r' = Interrupted"
    "\<forall>i. i \<noteq> r_id r \<longrightarrow> get_run_row i d1 = get_run_row i d"
    using expire_step [OF e Cons.prems(1) r] by auto
  obtain d' where "expire_all e rs clk (i + 2) d1 = Inr d'" "keeps_live d1 d'"
    using Cons.IH [OF s(1) current_step [OF Cons.prems(2) s(4)] Cons.prems(3)] by blast
  moreover have "keeps_live d d1" using keeps_live_one [OF r s(2) _ s(4)] s(3) by auto
  ultimately show ?case using e keeps_live_trans by auto
qed (simp add: keeps_live_def)

lemma cancel_all_succeeds:
  assumes "runs_inv d" "current rs d" "\<forall>r\<in>set rs. r_state r = Cancelling"
  shows "\<exists>d'. cancel_all rs clk i d = Inr d' \<and> keeps_live d d'"
  using assms
proof (induction rs arbitrary: i d)
  case (Cons r rs)
  have r: "get_run_row (r_id r) d = Some r" "r_state r = Cancelling" using Cons.prems by (simp_all add: current_def)
  let ?r2 = "release_lease (r\<lparr>r_state := Cancelled\<rparr>)"
  have "\<exists>r' d'. emit_event ?r2 ''run_cancelled'' [] True (clk i)
      (put_run ?r2 (settle (r\<lparr>r_state := Cancelled\<rparr>) d)) = Inr (r', d')"
    by (rule terminal_emit_succeeds [OF Cons.prems(1), of _ r]) (use r in \<open>simp_all add: release_lease_def\<close>)
  then obtain r' d1 where e: "cancel_abandoned r (clk i) d = Inr (r', d1)"
    by (auto simp: cancel_abandoned_def Let_def)
  have s: "runs_inv d1" "\<forall>i. i \<noteq> r_id r \<longrightarrow> get_run_row i d1 = get_run_row i d"
    using cancel_abandoned_step [OF e Cons.prems(1) r] by auto
  have e': "emit_event ?r2 ''run_cancelled'' [] True (clk i)
      (put_run ?r2 (settle (r\<lparr>r_state := Cancelled\<rparr>) d)) = Inr (r', d1)"
    using e by (simp add: cancel_abandoned_def Let_def)
  have "get_run_row (r_id ?r2) d1 = Some r'" using touch_row [OF touch_emit [OF e']] .
  then have r': "get_run_row (r_id r) d1 = Some r'" by simp
  have t: "r_state r' = Cancelled" using emit_event_row [OF e'] by auto
  obtain d' where "cancel_all rs clk (i + 1) d1 = Inr d'" "keeps_live d1 d'"
    using Cons.IH [OF s(1) current_step [OF Cons.prems(2) s(2)]] Cons.prems(3) by auto
  moreover have "keeps_live d d1" using keeps_live_one [OF r(1) r' _ s(2)] t by simp
  ultimately show ?case using e keeps_live_trans by auto
qed (simp add: keeps_live_def)

text \<open>Room for the event of one more claim.\<close>

definition has_room :: "chat_run \<Rightarrow> bool" where
  "has_room r = (r_sequence r < 8192 \<and> r_bytes r + 1000 \<le> 6000000 \<and> r_generation r < 1000000000)"

lemma claim_event_fits:
  assumes "row_ok r" "has_room r"
  shows "\<not> over_budget (lease_run e r token now left)
    (payload_size (event_payload (lease_run e r token now left) [(''generation'', JInt (r_generation r + 1))] at)) False"
proof -
  let ?r = "lease_run e r token now left"
  have b: "0 \<le> r_sequence ?r" "r_sequence ?r < 8192" "r_bytes ?r + 1000 \<le> 6000000" "0 \<le> r_generation r"
    using assms by (auto simp: lease_run_def has_room_def row_ok_def journal_bounds_def)
  have "length (show_int (r_generation r + 1)) \<le> 10"
    using b(4) assms(2) by (intro length_show_int) (simp_all add: has_room_def)
  then have "jsize (JObj [(''generation'', JInt (r_generation r + 1))]) \<le> 100" by simp
  moreover have "payload_size (event_payload ?r [(''generation'', JInt (r_generation r + 1))] at)
      \<le> int (jsize (JObj [(''generation'', JInt (r_generation r + 1))])) + 600"
    using b by (intro payload_bound) simp_all
  ultimately have "payload_size (event_payload ?r [(''generation'', JInt (r_generation r + 1))] at) \<le> 700" by linarith
  then show ?thesis using b by (simp add: over_budget_def)
qed

lemma take_or_fail_succeeds:
  assumes inv: "runs_inv d" and r: "get_run_row (r_id r) d = Some r" "r_state r = Queued \<or> r_state r = Running \<and> 0 < r_generation r"
    and room: "has_room r" and s: "short_texts e"
  shows "\<exists>left v d'. remaining_time e now r = Inr left \<and>
    (if left \<le> 0 then fail_budget e r at d else take_run e r token now left at d) = Inr (Inr v, d') \<and>
    (0 < left \<longrightarrow> v \<noteq> None)"
proof -
  have ok: "row_ok r" using inv_row [OF inv r(1)] by simp
  have "\<exists>left. remaining_time e now r = Inr left"
    using ok r(2) by (auto simp: remaining_time_def used_time_def row_ok_def lease_shape_def result_simps split: option.split)
  then obtain left where l: "remaining_time e now r = Inr left" by blast
  show ?thesis
  proof (cases "left \<le> 0")
    case True
    let ?r = "r\<lparr>r_state := Failed\<rparr>"
    have "\<exists>r' d'. emit_event ?r ''error'' (error_data e ''AGENT_TIMEOUT'' 504) True at (settle ?r d) = Inr (r', d')"
      by (rule terminal_emit_succeeds [OF inv, of _ r]) (use r error_data_small [OF s, of "''AGENT_TIMEOUT''" 504] in auto)
    then have "\<exists>d'. fail_budget e r at d = Inr (Inr None, d')"
      by (auto simp: fail_budget_def Let_def committed_def)
    then show ?thesis using l True by auto
  next
    case False
    let ?r = "lease_run e r token now left"
    have "\<exists>r' d'. emit_event ?r ''run_claimed'' [(''generation'', JInt (r_generation r + 1))] False at (settle ?r d) = Inr (r', d')"
      by (rule emit_succeeds [OF inv, of _ r]) (use r claim_event_fits [OF ok room] in \<open>auto simp: lease_run_def\<close>)
    moreover have "r_generation ?r = r_generation r + 1" by (simp add: lease_run_def)
    ultimately have "\<exists>v d'. take_run e r token now left at d = Inr (Inr (Some v), d')"
      by (auto simp: take_run_def Let_def committed_def)
    then show ?thesis using l False by auto
  qed
qed

lemma claim_next_result:
  assumes inv: "runs_inv d" and s: "short_texts e"
    and room: "\<forall>r\<in>set (runs d). r_state r = Queued \<or> r_state r = Running \<longrightarrow> has_room r"
  shows "\<exists>v d'. claim_next e rid token clk d = (Inr v, d')"
proof -
  obtain d1 where e: "expire_all e (lock_expired_waiting_runs (clk 0) (re_kind e) d) clk 1 d = Inr d1" "keeps_live d d1"
    using expire_all_succeeds [OF inv current_filter [OF inv] s] unfolding lock_expired_waiting_runs_def by blast
  have inv1: "runs_inv d1"
    using expire_all_moves [OF e(1) inv] current_filter [OF inv] by (simp add: lock_expired_waiting_runs_def)
  let ?rs = "lock_expired_cancellations (clk 21) (re_kind e) d1"
  have cur: "current ?rs d1" unfolding lock_expired_cancellations_def by (rule current_filter [OF inv1])
  have all: "\<forall>r\<in>set ?rs. r_state r = Cancelling"
    unfolding lock_expired_cancellations_def using set_take_subset by fastforce
  obtain d2 where c: "settle_cancellations e clk 21 d1 = Inr d2" "keeps_live d1 d2"
    using cancel_all_succeeds [OF inv1 cur all] unfolding settle_cancellations_def by blast
  have inv2: "runs_inv d2" using settle_cancellations_moves [OF c(1) inv1] by simp
  have live: "keeps_live d d2" using keeps_live_trans [OF e(2) c(2)] .
  show ?thesis
  proof (cases "lock_next_run (clk 0) rid (re_kind e) d2")
    case None
    then show ?thesis using e(1) c(1) by (simp add: claim_next_def transaction_def committed_def Let_def)
  next
    case (Some r)
    have r: "r \<in> set (runs d2)" "r_state r = Queued \<or> r_state r = Running \<and> 0 < r_generation r"
      using lock_next_run_Some [OF Some] by (auto simp: claimable_def)
    then have g: "get_run_row (r_id r) d2 = Some r" using runs_ok_get [OF inv_runs [OF inv2]] by simp
    then have "get_run_row (r_id r) d = Some r" using live r(2) unfolding keeps_live_def by auto
    then have "has_room r" using room r(2) get_run_row_mem by blast
    then obtain left v d' where "remaining_time e (clk 0) r = Inr left"
      "(if left \<le> 0 then fail_budget e r (clk 32) d2 else take_run e r token (clk 0) left (clk 32) d2) = Inr (Inr v, d')"
      using take_or_fail_succeeds [OF inv2 g r(2) _ s] by blast
    then show ?thesis using e(1) c(1) Some by (simp add: claim_next_def transaction_def Let_def)
  qed
qed

text \<open>
  Polling for work always returns. As long as the texts of errors are short and every run
  that could be claimed has room for the event of its claim, \<open>claim_next\<close> raises nothing: the
  events that end an expired or abandoned run fit in the part of its journal that is kept for
  terminal events, so no such run can block the queue.
\<close>

lemma claim_next_returns:
  assumes "run_reach d" and "short_texts e"
    and "\<forall>r\<in>set (runs d). r_state r = Queued \<or> r_state r = Running \<longrightarrow> has_room r"
  shows "\<exists>v d'. claim_next e rid token clk d = (Inr v, d')"
  by (rule claim_next_result [OF run_reach_inv [OF assms(1)] assms(2,3)])

lemma demo_run_env_texts: "short_texts demo_run_env"
  by (simp add: short_texts_def demo_run_env_def)

theorem claim_next_returns_witness:
  "run_reach demo_state \<and> runs demo_state \<noteq> [] \<and> (\<exists>v d'. claim_next demo_run_env None 900 demo_clock demo_state = (Inr v, d'))"
proof -
  obtain r where r: "runs demo_state = [r]" "r_sequence r = 1" "r_bytes r \<le> 1600" "r_generation r = 0" by (rule demo_row)
  then have "\<forall>r\<in>set (runs demo_state). r_state r = Queued \<or> r_state r = Running \<longrightarrow> has_room r"
    by (simp add: has_room_def)
  then show ?thesis
    using claim_next_returns [OF demo_state_reach demo_run_env_texts] demo_state_reach r(1) by simp
qed

text \<open>The demonstration run claimed by a worker.\<close>

lemma demo_claimed:
  obtains c d r where "claim_next demo_run_env None 900 demo_clock demo_state = (Inr (Some c), d)" "run_reach d"
    "cl_run c = 500" "cl_user c = 1" "cl_generation c = 1" "cl_token c = 900" "get_run_row 500 d = Some r" "r_state r = Running"
    "r_owner r = Some 900" "r_generation r = 1" "r_lease r = Some (seconds 30)" "r_expires r = seconds 300"
    "r_remaining r = Some (seconds 300)" "r_active r = Some 0" "checkpoints d = []" "operations d = []" "r_kind r = Chat"
    "r_user r = 1" "r_sequence r = 2" "runs d = [r]" "r_bytes r \<le> 2400"
proof -
  obtain r where r: "runs demo_state = [r]" "r_sequence r = 1" "r_bytes r \<le> 1600" "r_generation r = 0" "r_state r = Queued"
    "r_kind r = Chat" "r_lease r = None" "r_remaining r = Some (seconds 300)" "r_active r = None" "r_id r = 500" "r_user r = 1"
    "get_run_row 500 demo_state = Some r" "checkpoints demo_state = []" "operations demo_state = []"
    by (rule demo_row)
  have k: "re_kind demo_run_env = Chat" by (simp add: demo_run_env_def)
  have w: "lock_expired_waiting_runs (demo_clock 0) Chat demo_state = []"
    and c: "lock_expired_cancellations (demo_clock 21) Chat demo_state = []"
    and n: "lock_next_run (demo_clock 0) None Chat demo_state = Some r"
    using r(5-7) by (simp_all add: lock_expired_waiting_runs_def lock_expired_cancellations_def lock_next_run_def
        claimable_def r(1))
  have inv: "runs_inv demo_state" using run_reach_inv [OF demo_state_reach] .
  have ok: "row_ok r" "has_room r" using inv_row [OF inv r(12)] r(2-4) by (simp_all add: has_room_def)
  have left: "remaining_time demo_run_env (demo_clock 0) r = Inr (seconds 300)"
    using r(8,9) by (simp add: remaining_time_def used_time_def)
  let ?r = "lease_run demo_run_env r 900 (demo_clock 0) (seconds 300)"
  have "\<exists>r' d'. emit_event ?r ''run_claimed'' [(''generation'', JInt (r_generation ?r))] False (demo_clock 32)
      (settle ?r demo_state) = Inr (r', d')"
    by (rule emit_succeeds [OF inv, of _ r])
      (use r(10,12) claim_event_fits [OF ok] in \<open>auto simp: lease_run_def\<close>)
  then obtain r' d' where em: "emit_event ?r ''run_claimed'' [(''generation'', JInt (r_generation ?r))] False
      (demo_clock 32) (settle ?r demo_state) = Inr (r', d')" by blast
  have cl: "claim_next demo_run_env None 900 demo_clock demo_state = (Inr (Some (claim_of r' 900)), d')"
    using left em
    by (simp add: claim_next_def settle_cancellations_def k w c n transaction_def committed_def Let_def take_run_def seconds_def)
  obtain m where m: "r' = count_event ?r m"
    and m': "m = payload_size (event_payload ?r [(''generation'', JInt (r_generation ?r))] (demo_clock 32))"
    using emit_event_count [OF em] by blast
  have "jsize (JObj [(''generation'', JInt (r_generation ?r))]) \<le> 100"
    using length_show_int [of 1 1] r(4) by (simp add: lease_run_def)
  moreover have "payload_size (event_payload ?r [(''generation'', JInt (r_generation ?r))] (demo_clock 32))
      \<le> int (jsize (JObj [(''generation'', JInt (r_generation ?r))])) + 600"
    using r(2) by (intro payload_bound) (simp_all add: lease_run_def)
  ultimately have m8: "m \<le> 700" using m' by linarith
  have t: "touch ?r (settle ?r demo_state) r' d'" using touch_emit [OF em] .
  have rid: "r_id r' = 500" using r(10) by (simp add: m lease_run_def)
  have ts: "touch r demo_state ?r (settle ?r demo_state)" by (rule touch_settle) (simp_all add: same_run_def lease_run_def)
  have tt: "touch r demo_state r' d'" by (rule touch_trans [OF ts t])
  have g: "get_run_row 500 d' = Some r'" using touch_row [OF tt] r(10) by simp
  have runs': "runs d' = [r']" using tt rid r(10) by (simp add: touch_def r(1) row_put_def)
  have fr: "checkpoints d' = [] \<and> operations d' = []" using touch_frame [OF tt] r(13,14) by simp
  have "run_step demo_state d'" using step_claim [of demo_state demo_run_env None 900 demo_clock] cl by simp
  then have "run_reach d'" by (meson demo_state_reach run_reach_step r_into_rtranclp)
  then show ?thesis
    by (rule that [OF cl _ _ _ _ _ g])
      (use fr runs' rid r(2,3,4,6,11) m8 in \<open>simp_all add: claim_of_def m lease_run_def demo_run_env_def demo_clock_def\<close>)
qed

text \<open>A store with a single claimable run hands it out.\<close>

lemma claim_single:
  assumes inv: "runs_inv d" and s: "short_texts e" and one: "runs d = [r]"
    and c: "claimable (clk 0) (re_kind e) r" "has_room r"
    and left: "remaining_time e (clk 0) r = Inr left" "0 < left"
  shows "\<exists>c d'. claim_next e None token clk d = (Inr (Some c), d') \<and> cl_run c = r_id r"
proof -
  have w: "lock_expired_waiting_runs (clk 0) (re_kind e) d = []"
    and x: "lock_expired_cancellations (clk 21) (re_kind e) d = []"
    and n: "lock_next_run (clk 0) None (re_kind e) d = Some r"
    using c(1) by (auto simp: lock_expired_waiting_runs_def lock_expired_cancellations_def lock_next_run_def
        claimable_def one)
  have g: "get_run_row (r_id r) d = Some r" by (simp add: one)
  have st: "r_state r = Queued \<or> r_state r = Running \<and> 0 < r_generation r"
    using c(1) by (auto simp: claimable_def)
  obtain v d' where t: "take_run e r token (clk 0) left (clk 32) d = Inr (Inr (Some v), d')"
    using take_or_fail_succeeds [OF inv g st c(2) s, of "clk 0" "clk 32" token] left by auto
  then have cl: "claim_next e None token clk d = (Inr (Some v), d')"
    using left by (simp add: claim_next_def settle_cancellations_def w x n transaction_def Let_def)
  have "cl_run v = r_id r"
    using t by (auto simp: take_run_def Let_def result_simps claim_of_def lease_run_def dest!: emit_event_count)
  with cl show ?thesis by blast
qed

theorem stale_claim_fenced_witness:
  "\<exists>c d d2. cl_generation c = 1 \<and> run_reach d \<and>
     rejected (complete_operation demo_run_env c ''tool/x'' JNull None demo_clock d2) d2 \<and>
     rejected (heartbeat demo_run_env c demo_clock d2) d2"
proof -
  obtain c d r where "claim_next demo_run_env None 900 demo_clock demo_state = (Inr (Some c), d)"
    and d: "run_reach d" "cl_run c = 500" "cl_user c = 1" "cl_generation c = 1" "cl_token c = 900"
    "get_run_row 500 d = Some r" "r_state r = Running" "r_owner r = Some 900" "r_generation r = 1"
    "r_lease r = Some (seconds 30)" "r_expires r = seconds 300" "r_remaining r = Some (seconds 300)" "r_active r = Some 0"
    "checkpoints d = []" "operations d = []"
    "r_kind r = Chat" "r_user r = 1" "r_sequence r = 2" "runs d = [r]" "r_bytes r \<le> 2400"
    by (rule demo_claimed)
  have inv: "runs_inv d" using run_reach_inv [OF d(1)] .
  have rid: "r_id r = 500" using get_run_row_mem [OF d(6)] by simp
  have k: "re_kind demo_run_env = Chat" by (simp add: demo_run_env_def)
  have held: "owned demo_run_env c False True 0 0 d = Inr r"
    using d rid k by (simp add: owned_def get_row_def get_run_of_def seconds_def)
  have left: "remaining_time demo_run_env (seconds 100) r = Inr (seconds 270)"
    using d(10,12,13) by (simp add: remaining_time_def used_time_def seconds_def)
  have "\<exists>c' d1. claim_next demo_run_env None 901 (\<lambda>n. seconds 100) d = (Inr (Some c'), d1) \<and> cl_run c' = r_id r"
    by (rule claim_single [OF inv demo_run_env_texts d(19) _ _ left])
      (use d(7,9,10,16,18,20) k in \<open>simp_all add: claimable_def has_room_def seconds_def\<close>)
  then obtain c' d1 where c': "claim_next demo_run_env None 901 (\<lambda>n. seconds 100) d = (Inr (Some c'), d1)"
    "cl_run c' = cl_run c" using rid d(2) by auto
  have "rejected (complete_operation demo_run_env c ''tool/x'' JNull None demo_clock d1) d1 \<and>
     rejected (heartbeat demo_run_env c demo_clock d1) d1"
    using stale_claim_fenced [OF d(1) held c'] by blast
  then show ?thesis using d(1,4) by blast
qed

section \<open>The order of the queue\<close>

text \<open>A stable sort by \<open>g\<close>, then by \<open>f\<close>, starts with the lexicographically least element.\<close>

lemma sort_twice_head:
  fixes f :: "'a \<Rightarrow> 'c::linorder" and g :: "'a \<Rightarrow> 'b::linorder"
  assumes h: "sort_key f (sort_key g xs) = r # rest" and s: "s \<in> set xs"
  shows "f r < f s \<or> f r = f s \<and> g r \<le> g s"
proof -
  have "sorted (map f (r # rest))" using sorted_sort_key [of f "sort_key g xs"] by (simp only: h)
  moreover have "s \<in> set (r # rest)" using s by (metis h set_sort)
  ultimately have le: "f r \<le> f s" by auto
  have "g r \<le> g s" if e: "f r = f s"
  proof -
    have "filter (\<lambda>y. f y = f s) (r # rest) = filter (\<lambda>y. f y = f s) (sort_key g xs)"
      using sort_key_stable [of f "f s" "sort_key g xs"] by (simp only: h)
    then have f: "r # filter (\<lambda>y. f y = f s) rest = filter (\<lambda>y. f y = f s) (sort_key g xs)"
      using e by simp
    have "sorted (map g (filter (\<lambda>y. f y = f s) (sort_key g xs)))"
      by (rule sorted_filter) (rule sorted_sort_key)
    then have "sorted (map g (r # filter (\<lambda>y. f y = f s) rest))" by (simp only: f)
    moreover have "s \<in> set (r # filter (\<lambda>y. f y = f s) rest)"
      unfolding f using s by simp
    ultimately show ?thesis by auto
  qed
  with le show ?thesis by auto
qed

text \<open>
  the next run is the oldest. The queue answers nothing exactly when no run is claimable;
  otherwise the run it hands out is claimable, and every other claimable run was created later,
  or at the same time with a larger id.
\<close>

lemma next_run_is_oldest:
  "(lock_next_run now None k d = None \<longleftrightarrow> (\<forall>r\<in>set (runs d). \<not> claimable now k r)) \<and>
   (\<forall>r. lock_next_run now None k d = Some r \<longrightarrow> r \<in> set (runs d) \<and> claimable now k r \<and>
      (\<forall>s\<in>set (runs d). claimable now k s \<longrightarrow>
         r_created r < r_created s \<or> r_created r = r_created s \<and> r_id r \<le> r_id s))"
proof -
  let ?cs = "filter (\<lambda>r. claimable now k r) (runs d)"
  have eq: "lock_next_run now None k d = (case sort_key r_created (sort_key r_id ?cs) of [] \<Rightarrow> None | r # _ \<Rightarrow> Some r)"
    by (simp add: lock_next_run_def)
  have len: "sort_key r_created (sort_key r_id ?cs) = [] \<longleftrightarrow> ?cs = []"
    by (metis length_0_conv length_sort)
  have "lock_next_run now None k d = None \<longleftrightarrow> ?cs = []"
    unfolding eq len [symmetric] by (simp split: list.split)
  then have "lock_next_run now None k d = None \<longleftrightarrow> (\<forall>r\<in>set (runs d). \<not> claimable now k r)"
    by (simp add: filter_empty_conv)
  moreover have "r \<in> set (runs d) \<and> claimable now k r \<and> (\<forall>s\<in>set (runs d). claimable now k s \<longrightarrow>
      r_created r < r_created s \<or> r_created r = r_created s \<and> r_id r \<le> r_id s)"
    if some: "lock_next_run now None k d = Some r" for r
  proof -
    obtain rest where h: "sort_key r_created (sort_key r_id ?cs) = r # rest"
      using some unfolding eq by (auto split: list.splits)
    have "r_created r < r_created s \<or> r_created r = r_created s \<and> r_id r \<le> r_id s" if "s \<in> set ?cs" for s
      using sort_twice_head [OF h that] .
    then show ?thesis using lock_next_run_Some [OF some] by simp
  qed
  ultimately show ?thesis by blast
qed

lemma next_run_is_oldest_witness:
  "\<exists>r. lock_next_run 0 None Chat demo_state = Some r \<and> runs demo_state = [r] \<and> claimable 0 Chat r"
proof -
  obtain r where r: "runs demo_state = [r]" "r_state r = Queued" "r_kind r = Chat" "r_lease r = None" by (rule demo_row)
  then have "claimable 0 Chat r" by (simp add: claimable_def)
  then show ?thesis using next_run_is_oldest [of 0 Chat demo_state] r(1)
    by (cases "lock_next_run 0 None Chat demo_state") auto
qed

section \<open>Requests and calls are executed once\<close>

lemma create_retry:
  assumes inv: "runs_inv d" and x: "find_idempotent_run key uid d = Some x"
  shows "create_run e uid sid p req key queued prepare rid clk d =
    (if queued \<and> prepare = None then (Inl (OtherError ''ValueError''), d)
     else if queued \<and> (case get_user uid d of None \<Rightarrow> True | Some u \<Rightarrow> \<not> u_active u) then (Inl (AppError ''FORBIDDEN'' 403), d)
     else if r_fingerprint x \<noteq> run_fingerprint e sid p \<or> r_kind x \<noteq> re_kind e
     then (Inl (AppError ''IDEMPOTENCY_CONFLICT'' 409), d)
     else case expire e x (clk 0) (clk 1) d of
        Inr (r, d') \<Rightarrow> (Inr (r, False), d')
      | Inl err \<Rightarrow> (Inl (if err = integrity_error then AppError ''IDEMPOTENCY_CONFLICT'' 409 else err), d))"
  using x
  by (auto simp: create_run_def create_body_def admit_user_def retry_run_def transaction_def raise_if_def
      committed_def integrity_error_def split: sum.split)

text \<open>
  creation is idempotent. Once a request of a user has created a run, any later request of
  that user with the same key starts nothing, in every state that follows: the stored runs
  stay the same runs. A request with other content or of another kind is a conflict and
  changes nothing; an identical one is answered by the run first created, marked as not new,
  unless the account was disabled.
\<close>

lemma create_is_idempotent:
  assumes "run_reach d" and "\<And>f. prepare = Some f \<Longrightarrow> preparation_ok f"
    and "create_run e uid sid p req key queued prepare rid clk d = (Inr (r, True), d1)"
    and "run_steps d1 d2" and "short_texts e'" and "prepare' \<noteq> None"
  shows "\<exists>res d3. create_run e' uid sid' p' req' key queued' prepare' rid' clk' d2 = (res, d3) \<and>
    map r_id (runs d3) = map r_id (runs d2) \<and>
    (run_fingerprint e' sid' p' \<noteq> run_fingerprint e sid p \<or> re_kind e' \<noteq> re_kind e \<longrightarrow>
      res \<in> {Inl (AppError ''IDEMPOTENCY_CONFLICT'' 409), Inl (AppError ''FORBIDDEN'' 403)} \<and> d3 = d2) \<and>
    (run_fingerprint e' sid' p' = run_fingerprint e sid p \<and> re_kind e' = re_kind e \<longrightarrow>
      res = Inl (AppError ''FORBIDDEN'' 403) \<and> d3 = d2 \<or> (\<exists>r'. res = Inr (r', False) \<and> r_id r' = r_id r))"
proof -
  have inv: "runs_inv d" using run_reach_inv [OF assms(1)] .
  have new: "get_run_row (r_id r) d1 = Some r" "r_user r = uid" "r_client_key r = key"
    "r_fingerprint r = run_fingerprint e sid p" "r_kind r = re_kind e" "runs_inv d1"
    using create_run_new_row [OF assms(3) inv assms(2)] by auto
  have l: "run_moves d1 d2" "runs_inv d2" using run_steps_moves [OF assms(4) new(6)] by auto
  obtain x where x: "get_run_row (r_id r) d2 = Some x" "evolves r x" using run_moves_evolve [OF l(1) new(1)] by auto
  then have same: "r_id x = r_id r" "r_user x = uid" "r_client_key x = key"
    "r_fingerprint x = run_fingerprint e sid p" "r_kind x = re_kind e"
    using new(2-5) by (auto simp: evolves_def same_run_def)
  have xin: "x \<in> set (runs d2)" using get_run_row_mem [OF x(1)] by simp
  have find: "find_idempotent_run key uid d2 = Some x"
  proof (cases "find_idempotent_run key uid d2")
    case None
    then show ?thesis using xin same by (auto simp: find_idempotent_run_def find_None_iff)
  next
    case (Some y)
    have "y \<in> set (runs d2)" "run_key y = run_key x"
      using find_Some_D [OF Some [unfolded find_idempotent_run_def]] same by (auto simp: run_key_def)
    then have "y = x" using distinct_key_eq [of run_key "runs d2" y x] xin l(2) by (simp add: runs_inv_def runs_ok_def)
    then show ?thesis using Some by simp
  qed
  have xg: "get_run_row (r_id x) d2 = Some x" using x(1) same(1) by simp
  obtain r' d3 where ex: "expire e' x (clk' 0) (clk' 1) d2 = Inr (r', d3)"
    using expire_succeeds [OF l(2) xg assms(5)] by blast
  have st: "run_moves d2 d3" "r_id r' = r_id r" using expire_step [OF ex l(2) xg] same(1) by auto
  have ids: "map r_id (runs d3) = map r_id (runs d2)" using expire_step [OF ex l(2) xg] by blast
  show ?thesis
    unfolding create_retry [OF l(2) find] using assms(6) same ids ex st(2) by auto
qed

lemma create_is_idempotent_witness:
  "\<exists>r r' d3. demo_create demo_db = (Inr (r, True), demo_state) \<and>
     create_run demo_run_env 1 7 demo_input ''retry'' 100 True (Some demo_prepare) 501 demo_clock demo_state =
       (Inr (r', False), d3) \<and> r_id r' = r_id r \<and> map r_id (runs d3) = map r_id (runs demo_state)"
proof -
  obtain r where r: "demo_create demo_db = (Inr (r, True), demo_state)" "users demo_state = users demo_db"
    "r_kind r = Chat" "r_user r = 1" "r_client_key r = 100" "runs demo_state = [r]"
    "r_fingerprint r = run_fingerprint demo_run_env 7 demo_input" "r_state r = Queued"
    by (rule demo_row)
  have ex: "expire demo_run_env r (demo_clock 0) (demo_clock 1) demo_state = Inr (r, demo_state)"
    using r(8) by (simp add: expire_def)
  have u: "\<not> (case get_user 1 demo_state of None \<Rightarrow> True | Some u \<Rightarrow> \<not> u_active u)"
    using r(2) by (simp add: demo_db_def)
  have f: "find_idempotent_run 100 1 demo_state = Some r" using r(4-6) by (simp add: find_idempotent_run_def)
  have k: "re_kind demo_run_env = Chat" by (simp add: demo_run_env_def)
  obtain res d3 where c: "create_run demo_run_env 1 7 demo_input ''retry'' 100 True (Some demo_prepare) 501 demo_clock
      demo_state = (res, d3)" "map r_id (runs d3) = map r_id (runs demo_state)"
    "res = Inl (AppError ''FORBIDDEN'' 403) \<and> d3 = demo_state \<or> (\<exists>r'. res = Inr (r', False) \<and> r_id r' = r_id r)"
    using create_is_idempotent [OF demo_db_reach _ r(1) [unfolded demo_create_def] rtranclp.rtrancl_refl
        demo_run_env_texts, of "Some demo_prepare"] demo_prepare_ok by fastforce
  have "res \<noteq> Inl (AppError ''FORBIDDEN'' 403)"
  proof
    assume "res = Inl (AppError ''FORBIDDEN'' 403)"
    moreover have "create_run demo_run_env 1 7 demo_input ''retry'' 100 True (Some demo_prepare) 501 demo_clock
        demo_state = (Inr (r, False), demo_state)"
      unfolding create_retry [OF run_reach_inv [OF demo_state_reach] f] using u r(3,7) k ex by simp
    ultimately show False using c(1) by simp
  qed
  then show ?thesis using r(1) c by blast
qed

text \<open>A receipt keeps its inputs and its kind; a confirmed one keeps its result.\<close>

definition receipt_kept :: "run_operation \<Rightarrow> run_operation \<Rightarrow> bool" where
  "receipt_kept x y \<longleftrightarrow> op_pk y = op_pk x \<and> op_input_hash y = op_input_hash x \<and> op_readonly y = op_readonly x \<and>
     (op_state x = OpSucceeded \<longrightarrow> y = x)"

lemma put_operation_get:
  "get_operation rid key (put_operation y d) = (if (rid, key) = op_pk y then Some y else get_operation rid key d)"
  by (simp add: get_operation_def put_operation_def row_get_put)

lemma run_move_receipt:
  assumes "run_move d d'" and "get_operation rid key d = Some x"
  shows "\<exists>y. get_operation rid key d' = Some y \<and> receipt_kept x y"
proof -
  have same: ?thesis if "operations d' = operations d"
    using that assms(2) by (simp add: get_operation_def receipt_kept_def)
  from assms(1) show ?thesis
  proof cases
    case (m_touch r r')
    then show ?thesis using same touch_frame by blast
  next
    case (m_insert r)
    then show ?thesis using same insert_run_Inr by fastforce
  next
    case (m_prepare r r')
    then show ?thesis using same by (simp add: run_tables_same_def put_run_def)
  next
    case (m_receipt_new y)
    then have "(rid, key) \<noteq> op_pk y" using assms(2) by (auto simp: receipt_new_def op_pk_def)
    then show ?thesis using assms(2) m_receipt_new(1) by (simp add: put_operation_get receipt_kept_def)
  next
    case (m_receipt z y)
    show ?thesis
    proof (cases "(rid, key) = op_pk y")
      case True
      then have "x = z" using assms(2) m_receipt(2,3) by (simp add: receipt_change_def op_pk_def)
      then show ?thesis using True m_receipt(1,3) by (auto simp: put_operation_get receipt_kept_def receipt_change_def)
    next
      case False
      then show ?thesis using assms(2) m_receipt(1) by (simp add: put_operation_get receipt_kept_def)
    qed
  next
    case m_other
    then show ?thesis using same by (simp add: run_tables_same_def)
  qed (use same in \<open>simp_all add: put_checkpoint_def\<close>)
qed

lemma run_moves_receipt:
  assumes "run_moves d d'" and "get_operation rid key d = Some x"
  shows "\<exists>y. get_operation rid key d' = Some y \<and> receipt_kept x y"
  using assms
proof (induction rule: rtranclp_induct)
  case base
  then show ?case by (simp add: receipt_kept_def)
next
  case (step d1 d2)
  then obtain y where "get_operation rid key d1 = Some y" "receipt_kept x y" by blast
  then show ?case using run_move_receipt [OF step.hyps(2)] by (fastforce simp: receipt_kept_def)
qed

lemma start_receipt_row:
  assumes "start_receipt r c key inputs ro row at d = Inr (res, d')"
  shows "get_operation (op_run row) (op_key row) d' = Some row"
proof -
  have "operations d' = operations (put_operation row d)"
    using assms touch_frame [OF touch_emit]
    by (auto simp: start_receipt_def Let_def result_simps split: if_splits)
  then show ?thesis by (simp add: get_operation_def put_operation_def row_get_put op_pk_def)
qed

lemma begin_operation_Inr:
  assumes b: "begin_operation e c key inputs ro clk d = (Inr (cached, v), d')" and inv: "runs_inv d"
  shows "(cached \<longrightarrow> (\<exists>row. get_operation (cl_run c) key d = Some row \<and> op_state row = OpSucceeded \<and>
      op_readonly row = ro \<and> v = op_result row \<and> d' = d)) \<and>
    (\<not> cached \<longrightarrow> (\<exists>row. get_operation (cl_run c) key d' = Some row \<and> op_readonly row = ro \<and> op_state row = OpStarted \<and>
       (get_operation (cl_run c) key d = None \<or> ro)))"
  using b inv
proof (cases rule: begin_operation_cases)
  case (body r inputs')
  show ?thesis
  proof (cases "get_operation (cl_run c) key d")
    case None
    then have "open_operation r c key inputs' (operation_hash e inputs') ro clk d = Inr (Inr (cached, v), d')"
      using body(3) by simp
    then have s: "start_receipt r c key inputs' ro
        \<lparr>op_run = cl_run c, op_key = key, op_input_hash = operation_hash e inputs', op_state = OpStarted, op_readonly = ro,
          op_generation = cl_generation c, op_attempts = 1, op_result = JNull, op_updated = clk 3\<rparr> (clk 2) d =
        Inr (Inr (cached, v), d')"
      by (simp add: open_operation_def split: if_splits)
    then have "\<not> cached" by (auto simp: start_receipt_def Let_def result_simps)
    then show ?thesis using start_receipt_row [OF s] None by simp
  next
    case (Some row)
    then have re: "reopen_operation r c key inputs' (operation_hash e inputs') ro row clk d = Inr (Inr (cached, v), d')"
      using body(3) by simp
    have k: "op_run row = cl_run c" "op_key row = key" using get_operation_key [OF Some] by auto
    consider (hit) "cached" "op_state row = OpSucceeded" "op_readonly row = ro" "v = op_result row" "d' = d"
      | (again) "ro" "op_readonly row = ro" "start_receipt r c key inputs' ro
        (row\<lparr>op_state := OpStarted, op_generation := cl_generation c, op_attempts := op_attempts row + 1,
          op_updated := clk 3\<rparr>) (clk 2) d = Inr (Inr (cached, v), d')"
      using re by (auto simp: reopen_operation_def mark_uncertain_def Let_def result_simps split: if_splits)
    then show ?thesis
    proof cases
      case hit
      then show ?thesis using Some by blast
    next
      case again
      have "\<not> cached" using again(3) by (auto simp: start_receipt_def Let_def result_simps)
      then show ?thesis using start_receipt_row [OF again(3)] again(1,2) k by simp
    qed
  qed
qed simp

lemma effect_not_restarted:
  assumes "run_reach d" and "begin_operation e c key inputs False clk d = (Inr (False, v), d1)"
    and "run_steps d1 d2" and "cl_run c' = cl_run c"
  shows "fst (begin_operation e' c' key inputs' ro clk' d2) \<noteq> Inr (False, v')"
proof
  assume "fst (begin_operation e' c' key inputs' ro clk' d2) = Inr (False, v')"
  then obtain d3 where b: "begin_operation e' c' key inputs' ro clk' d2 = (Inr (False, v'), d3)"
    by (metis prod.collapse)
  have inv: "runs_inv d" using run_reach_inv [OF assms(1)] .
  have inv1: "runs_inv d1"
    using run_moves_keep [OF begin_operation_moves [OF inv] inv, of e c key inputs False clk] assms(2) by simp
  have l: "run_moves d1 d2" "runs_inv d2" using run_steps_moves [OF assms(3) inv1] by auto
  obtain x where x: "get_operation (cl_run c) key d1 = Some x" "\<not> op_readonly x"
    using begin_operation_Inr [OF assms(2) inv] by auto
  obtain y where y: "get_operation (cl_run c) key d2 = Some y" "\<not> op_readonly y"
    using run_moves_receipt [OF l(1) x(1)] x(2) by (auto simp: receipt_kept_def)
  obtain z where z: "get_operation (cl_run c) key d3 = Some z" "op_readonly z = ro" "ro"
    using begin_operation_Inr [OF b l(2)] y assms(4) by auto
  have m: "run_moves d2 d3" using begin_operation_moves [OF l(2), of e' c' key inputs' ro clk'] b by simp
  show False using run_moves_receipt [OF m y(1)] y(2) z by (auto simp: receipt_kept_def)
qed

text \<open>
  A call with a side effect is started at most once. When \<open>begin_operation\<close> has told a
  worker to execute a call that is not read-only, no later request for the same key of that run
  is ever told to execute it again, by whichever worker, with whichever inputs and after
  whatever failures: it gets the stored result or an error.
\<close>

lemma side_effect_started_once:
  assumes "run_reach d" and "begin_operation e c key inputs False clk d = (Inr (False, v), d1)"
    and "run_steps d1 d2" and "cl_run c' = cl_run c"
  shows "fst (begin_operation e' c' key inputs' ro clk' d2) \<noteq> Inr (False, v')"
  using effect_not_restarted [OF assms] .

lemma emit_tool_result_frame:
  "emit_tool_result r key result el at d = Inr (r', d') \<Longrightarrow> operations d' = operations d"
  using touch_frame [OF touch_emit] by (auto simp: emit_tool_result_def Let_def split: if_splits)

lemma emit_artifacts_frame:
  "emit_artifacts e r row at d = Inr (r', d') \<Longrightarrow> operations d' = operations d"
  using touch_frame [OF touch_emit] by (auto simp: emit_artifacts_def Let_def split: if_splits)

lemma checkpoint_after_frame: "checkpoint_after r ck d = Inr d' \<Longrightarrow> operations d' = operations d"
  by (cases ck) (auto simp: checkpoint_after_def save_checkpoint_def put_checkpoint_def result_simps Let_def)

lemma complete_operation_row:
  assumes c: "complete_operation e c key result ck clk d = (Inr (), d')" and inv: "runs_inv d"
  shows "\<exists>x. get_operation (cl_run c) key d' = Some x \<and> op_state x = OpSucceeded \<and> op_result x = sort_keys result"
proof -
  from c obtain r row r1 d1 r2 d2 where
    row: "get_operation (cl_run c) key d = Some row"
    and e1: "emit_tool_result r key (sort_keys result) (clk 2 - op_updated row) (clk 3)
          (put_operation (row\<lparr>op_state := OpSucceeded, op_result := sort_keys result, op_updated := clk 4\<rparr>) d) = Inr (r1, d1)"
    and e2: "emit_artifacts e r1 row (clk 5) d1 = Inr (r2, d2)" and e3: "checkpoint_after r2 ck d2 = Inr d'"
    unfolding complete_operation_def
    by (simp only: result_simps prod.case split_paired_Ex not_not de_Morgan_disj) blast
  have "operations d' = operations (put_operation (row\<lparr>op_state := OpSucceeded, op_result := sort_keys result, op_updated := clk 4\<rparr>) d)"
    using emit_tool_result_frame [OF e1] emit_artifacts_frame [OF e2] checkpoint_after_frame [OF e3] by simp
  then show ?thesis
    using get_operation_key [OF row] by (simp add: get_operation_def put_operation_def row_get_put op_pk_def)
qed

text \<open>The demonstration claim opens and confirms the call \<open>x\<close>.\<close>

lemma demo_owned:
  obtains c d r where "run_reach d" "owned demo_run_env c False True (demo_clock 0) (demo_clock 1) d = Inr r"
    "cl_run c = 500" "operations d = []" "get_run_row 500 d = Some r" "runs d = [r]" "row_ok r" "r_state r = Running"
    "cl_generation c = 1" "checkpoints d = []"
proof -
  obtain c d r where "claim_next demo_run_env None 900 demo_clock demo_state = (Inr (Some c), d)"
    and d: "run_reach d" "cl_run c = 500" "cl_user c = 1" "cl_generation c = 1" "cl_token c = 900"
    "get_run_row 500 d = Some r" "r_state r = Running" "r_owner r = Some 900" "r_generation r = 1"
    "r_lease r = Some (seconds 30)" "r_expires r = seconds 300" "r_remaining r = Some (seconds 300)" "r_active r = Some 0"
    "checkpoints d = []" "operations d = []"
    "r_kind r = Chat" "r_user r = 1" "r_sequence r = 2" "runs d = [r]" "r_bytes r \<le> 2400"
    by (rule demo_claimed)
  have inv: "runs_inv d" using run_reach_inv [OF d(1)] .
  have rid: "r_id r = 500" "row_ok r" using inv_row [OF inv d(6)] by auto
  have "owned demo_run_env c False True (demo_clock 0) (demo_clock 1) d = Inr r"
    using d rid by (simp add: owned_def get_row_def get_run_of_def seconds_def demo_clock_def demo_run_env_def)
  then show ?thesis using that d(1,2,4,6,7,14,15,19) rid(2) by blast
qed

lemma begin_fresh:
  assumes o': "owned e c False True (clk 0) (clk 1) d = Inr r" and n: "operations d = []"
    and k: "operation_key_ok key" "\<not> is_tool_key key"
  shows "\<exists>row. begin_operation e c key JNull ro clk d = (Inr (False, JNull), put_operation row d) \<and>
     op_pk row = (cl_run c, key) \<and> op_state row = OpStarted \<and> op_generation row = cl_generation c \<and> op_readonly row = ro \<and>
     op_input_hash row = operation_hash e JNull"
proof -
  let ?row = "\<lparr>op_run = cl_run c, op_key = key, op_input_hash = operation_hash e JNull, op_state = OpStarted,
    op_readonly = ro, op_generation = cl_generation c, op_attempts = 1, op_result = JNull, op_updated = clk 3\<rparr>"
  have "begin_operation e c key JNull ro clk d = (Inr (False, JNull), put_operation ?row d)"
    using assms
    by (simp add: begin_operation_def transaction_def get_operation_def open_operation_def operation_count_def
        start_receipt_def Let_def committed_def bounded_json_small)
  then show ?thesis by (intro exI [of _ ?row]) (simp add: op_pk_def)
qed

lemma side_effect_started_once_witness:
  "\<exists>c d d1. begin_operation demo_run_env c ''x'' JNull False demo_clock d = (Inr (False, JNull), d1) \<and>
     fst (begin_operation demo_run_env c ''x'' JNull False demo_clock d1) \<noteq> Inr (False, JNull)"
proof -
  obtain c d r where d: "run_reach d" "owned demo_run_env c False True (demo_clock 0) (demo_clock 1) d = Inr r"
    "cl_run c = 500" "operations d = []" by (rule demo_owned)
  have k: "operation_key_ok ''x''" "\<not> is_tool_key ''x''"
    by (simp_all add: operation_key_ok_def key_char_def lower_char_def is_tool_key_def)
  obtain d1 where b: "begin_operation demo_run_env c ''x'' JNull False demo_clock d = (Inr (False, JNull), d1)"
    using begin_fresh [of demo_run_env c demo_clock d r "''x''" False] d(2,4) k by blast
  then show ?thesis using side_effect_started_once [OF d(1) b rtranclp.rtrancl_refl] by blast
qed

end
