(* ===== verification/RunResume.thy ===== *)
theory RunResume
  imports RunProperties
begin

text \<open>
  What a later worker and a repeated request see of a run: the receipt of a confirmed call is
  replayed, a resume counts once, and a full journal stops \<open>claim_next\<close>.
\<close>

section \<open>Confirmed calls\<close>

lemma confirmed_stays:
  assumes "run_reach d" and "complete_operation e c key result ck clk d = (Inr (), d1)"
    and "run_steps d1 d2" and "cl_run c' = cl_run c"
    and "begin_operation e' c' key inputs ro clk' d2 = (Inr (cached, v), d3)"
  shows "cached \<and> v = sort_keys result \<and> d3 = d2"
proof -
  have inv: "runs_inv d" using run_reach_inv [OF assms(1)] .
  have inv1: "runs_inv d1"
    using run_moves_keep [OF complete_operation_moves [OF inv] inv, of e c key result ck clk] assms(2) by simp
  have l: "run_moves d1 d2" "runs_inv d2" using run_steps_moves [OF assms(3) inv1] by auto
  have "\<exists>x. get_operation (cl_run c) key d1 = Some x \<and> op_state x = OpSucceeded \<and> op_result x = sort_keys result"
    by (rule complete_operation_row [OF assms(2) inv])
  then obtain x where x: "get_operation (cl_run c) key d1 = Some x" "op_state x = OpSucceeded" "op_result x = sort_keys result"
    by blast
  have y: "get_operation (cl_run c) key d2 = Some x"
    using run_moves_receipt [OF l(1) x(1)] x(2) by (auto simp: receipt_kept_def)
  have "cached"
  proof (rule ccontr)
    assume "\<not> cached"
    then obtain z where z: "get_operation (cl_run c) key d3 = Some z" "op_state z = OpStarted"
      using begin_operation_Inr [OF assms(5) l(2)] assms(4) by auto
    have m: "run_moves d2 d3" using begin_operation_moves [OF l(2), of e' c' key inputs ro clk'] assms(5) by simp
    show False using run_moves_receipt [OF m y] z x(2) by (auto simp: receipt_kept_def)
  qed
  then show ?thesis using begin_operation_Inr [OF assms(5) l(2)] y x(3) assms(4) by auto
qed

text \<open>
  a confirmed call is replayed. After \<open>complete_operation\<close> has stored the result of a call,
  every later \<open>begin_operation\<close> for its key that succeeds answers from the receipt, with the
  stored result, and changes nothing.
\<close>

lemma confirmed_result_replayed:
  assumes "run_reach d" and "complete_operation e c key result ck clk d = (Inr (), d1)"
    and "run_steps d1 d2" and "cl_run c' = cl_run c"
    and "begin_operation e' c' key inputs ro clk' d2 = (Inr (cached, v), d3)"
  shows "cached \<and> v = sort_keys result \<and> d3 = d2"
  using confirmed_stays [OF assms] .

lemma complete_fresh:
  assumes "owned e c False True (clk 0) (clk 1) d = Inr r" "get_operation (cl_run c) key d = Some row"
    and "op_state row = OpStarted" "op_generation row = cl_generation c" "\<not> is_tool_key key" "\<not> re_sandbox e"
  shows "\<exists>row'. complete_operation e c key JNull None clk d = (Inr (), put_operation row' d) \<and> op_pk row' = op_pk row \<and>
    op_state row' = OpSucceeded \<and> op_result row' = JNull \<and> op_input_hash row' = op_input_hash row \<and>
    op_readonly row' = op_readonly row"
proof -
  let ?row = "row\<lparr>op_state := OpSucceeded, op_result := JNull, op_updated := clk 4\<rparr>"
  have "complete_operation e c key JNull None clk d = (Inr (), put_operation ?row d)"
    using assms
    by (simp add: complete_operation_def transaction_def emit_tool_result_def emit_artifacts_def checkpoint_after_def
        Let_def committed_def bounded_json_small)
  then show ?thesis by (intro exI [of _ ?row]) (simp add: op_pk_def)
qed

lemma owned_put_operation [simp]: "owned e c a b t1 t2 (put_operation x d) = owned e c a b t1 t2 d"
  by (simp add: owned_def get_row_def get_run_of_def put_operation_def)

lemma get_put_operation: "op_pk x = (rid, key) \<Longrightarrow> get_operation rid key (put_operation x d) = Some x"
  by (simp add: get_operation_def put_operation_def row_get_put)

lemma begin_replay:
  assumes "owned e c False True (clk 0) (clk 1) d = Inr r" "get_operation (cl_run c) key d = Some row"
    and "op_state row = OpSucceeded" "op_input_hash row = operation_hash e JNull" "op_readonly row = ro"
    and "operation_key_ok key"
  shows "begin_operation e c key JNull ro clk d = (Inr (True, op_result row), d)"
  using assms by (simp add: begin_operation_def transaction_def reopen_operation_def committed_def bounded_json_small)

lemma confirmed_result_replayed_witness:
  "\<exists>c d d1. complete_operation demo_run_env c ''x'' JNull None demo_clock d = (Inr (), d1) \<and>
     begin_operation demo_run_env c ''x'' JNull False demo_clock d1 = (Inr (True, JNull), d1)"
proof -
  obtain c d0 r where d0: "run_reach d0" "owned demo_run_env c False True (demo_clock 0) (demo_clock 1) d0 = Inr r"
    "operations d0 = []" by (rule demo_owned)
  have k: "operation_key_ok ''x''" "\<not> is_tool_key ''x''" "\<not> re_sandbox demo_run_env"
    by (simp_all add: operation_key_ok_def key_char_def lower_char_def is_tool_key_def demo_run_env_def)
  obtain row where b: "begin_operation demo_run_env c ''x'' JNull False demo_clock d0 = (Inr (False, JNull), put_operation row d0)"
    and row: "op_pk row = (cl_run c, ''x'')" "op_state row = OpStarted" "op_generation row = cl_generation c"
      "op_readonly row = False" "op_input_hash row = operation_hash demo_run_env JNull"
    using begin_fresh [of demo_run_env c demo_clock d0 r "''x''" False] d0 k by blast
  let ?d = "put_operation row d0"
  have o1: "owned demo_run_env c False True (demo_clock 0) (demo_clock 1) ?d = Inr r" using d0(2) by simp
  obtain row' where e: "complete_operation demo_run_env c ''x'' JNull None demo_clock ?d = (Inr (), put_operation row' ?d)"
    and row': "op_pk row' = op_pk row" "op_state row' = OpSucceeded" "op_input_hash row' = op_input_hash row" "op_readonly row' = op_readonly row"
    using complete_fresh [of demo_run_env c demo_clock ?d r "''x''" row] o1 get_put_operation [OF row(1)] row k by auto
  have reach: "run_reach ?d"
    using run_reach_step [OF d0(1) r_into_rtranclp] step_begin [of d0 demo_run_env c "''x''" JNull False demo_clock] b by simp
  have o2: "owned demo_run_env c False True (demo_clock 0) (demo_clock 1) (put_operation row' ?d) = Inr r" using d0(2) by simp
  have g: "get_operation (cl_run c) ''x'' (put_operation row' ?d) = Some row'"
    by (rule get_put_operation) (simp add: row' row)
  have q: "begin_operation demo_run_env c ''x'' JNull False demo_clock (put_operation row' ?d) =
      (Inr (True, op_result row'), put_operation row' ?d)"
    by (rule begin_replay [OF o2 g]) (simp_all add: row' row k)
  then show ?thesis using confirmed_result_replayed [OF reach e rtranclp.rtrancl_refl refl q] e q by auto
qed

section \<open>A resume counts once\<close>

lemma bounded_dict_get:
  assumes "bounded_dict p n = Inr q" "distinct (map fst p)"
  shows "dict_get q k = map_option sort_keys (dict_get p k)"
proof -
  have "q = (case sort_keys (JObj p) of JObj x \<Rightarrow> x | _ \<Rightarrow> [])"
    using assms(1) by (auto simp: bounded_dict_def result_simps)
  then show ?thesis using sort_keys_obj_get [OF assms(2), of k] by simp
qed

lemma resume_public_inputs_distinct:
  "resume_public_inputs p q = Inr p' \<Longrightarrow> distinct (map fst p) \<Longrightarrow> distinct (map fst p')"
  by (auto simp: resume_public_inputs_def Let_def distinct_dict_set split: if_splits option.splits)

lemma resume_payload_receipt:
  assumes "resume_payload p q s key h revision = Inr payload" "distinct (map fst p)"
  shows "dict_get (sub_dict payload ''resume_receipt'') ''key'' = Some (JStr (uuid_str key)) \<and>
    dict_get (sub_dict payload ''resume_receipt'') ''input_hash'' = Some (JStr h) \<and>
    dict_get (sub_dict payload ''resume_receipt'') ''revision'' = Some (JInt revision)"
proof -
  obtain p1 where p1: "resume_public_inputs p q = Inr p1"
    and b: "bounded_dict (dict_set ''resume_receipt'' (JObj (receipt_of key h revision))
         (dict_set ''human_inputs'' (JArr (arr_or_empty p1 ''human_inputs'' @ [JStr s])) p1)) 4000000 = Inr payload"
    using assms(1) by (auto simp: resume_payload_def result_simps)
  have "distinct (map fst p1)" by (rule resume_public_inputs_distinct [OF p1 assms(2)])
  then have d: "dict_get payload ''resume_receipt'' = Some (sort_keys (JObj (receipt_of key h revision)))"
    using bounded_dict_get [OF b] by (simp add: distinct_dict_set)
  have "distinct (map fst (receipt_of key h revision))" by (simp add: receipt_of_def)
  from sort_keys_obj_get [OF this]
  have "dict_get (sub_dict payload ''resume_receipt'') k = map_option sort_keys (dict_get (receipt_of key h revision) k)" for k
    unfolding sub_dict_def d by simp
  then show ?thesis by (simp add: receipt_of_def dict_get_def)
qed

lemma workspace_member_frame:
  "members d' = members d \<Longrightarrow> orgs d' = orgs d \<Longrightarrow> workspace_member uid oid d' = workspace_member uid oid d"
  by (simp add: workspace_member_def org_live_def)

lemma chat_session_of_frame:
  assumes "sessions d' = sessions d" "members d' = members d" "orgs d' = orgs d"
  shows "chat_session_of uid sid k d' = chat_session_of uid sid k d"
  using assms(1) by (simp add: chat_session_of_def workspace_member_frame [OF assms(2,3)] cong: option.case_cong)

lemma get_run_of_found:
  assumes "runs_inv d" "get_run_row rid d = Some r" "r_user r = uid" "r_kind r = k"
  shows "get_run_of k uid rid d = Some r"
proof (cases "get_run_of k uid rid d")
  case None
  moreover have "r \<in> set (runs d)" "r_id r = rid" using get_run_row_mem [OF assms(2)] by auto
  ultimately show ?thesis using assms(3,4) by (auto simp: get_run_of_def find_None_iff)
next
  case (Some q)
  then show ?thesis using get_run_of_row [OF Some assms(1)] assms(2) by simp
qed

text \<open>The state after an accepted resume holds its receipt, and the run is found as before.\<close>

lemma resume_body_receipt:
  assumes b: "resume_body e ce caps uid rid revision key s q clk d = Inr (Inr r, d1)" and inv: "runs_inv d"
    and dist: "\<forall>ck\<in>set (checkpoints d). distinct (map fst (ck_payload ck))"
  shows "get_row e uid rid True d1 = Inr r \<and>
    dict_get (resume_receipt (get_checkpoint (r_id r) d1)) ''key'' = Some (JStr (uuid_str key)) \<and>
    dict_get (resume_receipt (get_checkpoint (r_id r) d1)) ''input_hash'' = Some (JStr (resume_hash e s q)) \<and>
    dict_get (resume_receipt (get_checkpoint (r_id r) d1)) ''revision'' = Some (JInt revision)"
  using b
proof (cases rule: resume_body_cases)
  case (replay r')
  then show ?thesis by simp
next
  case (live r0 ck)
  have g: "get_run_row (r_id r0) d = Some r0" "r_id r0 = rid" "r_user r0 = uid" "r_kind r0 = re_kind e"
    using get_row_row [OF live(1) inv] by auto
  have "\<not> expire_resume e r0 (clk 1) d = Inr (Inr r, d1)"
    by (auto simp: expire_resume_def Let_def result_simps)
  then obtain payload where p: "resume_payload (ck_payload ck) q s key (resume_hash e s q) revision = Inr payload"
    and rq: "requeue_resumed r0 ck payload (clk 1) d = Inr (Inr r, d1)"
    using live(9) by blast
  have m: "get_run_row (r_id r0) d1 = Some r" "r_id r = r_id r0" "r_user r = r_user r0" "r_session r = r_session r0"
    "r_kind r = r_kind r0" "get_checkpoint (r_id r0) d1 = Some (ck\<lparr>ck_payload := payload, ck_revision := ck_revision ck + 1\<rparr>)"
    "sessions d1 = sessions d" "members d1 = members d" "orgs d1 = orgs d" "run_moves d d1"
    using requeue_resumed_moves [OF rq inv g(1) live(3,2)] by auto
  have inv1: "runs_inv d1" using run_moves_keep [OF m(10) inv] .
  have "get_run_of (re_kind e) uid rid d1 = Some r"
    by (rule get_run_of_found [OF inv1]) (use m g in simp_all)
  moreover have "\<exists>x. chat_session_of uid (r_session r) None d1 = Inr x"
    using live(1) m(4) chat_session_of_frame [OF m(7-9)] by (auto simp: get_row_def result_simps)
  ultimately have row: "get_row e uid rid True d1 = Inr r" by (auto simp: get_row_def)
  have "distinct (map fst (ck_payload ck))" using dist row_get_Some_mem [OF live(2)] by blast
  from resume_payload_receipt [OF p this] show ?thesis
    using row m(2,6) by (simp add: resume_receipt_def)
qed

lemma resume_body_replay:
  assumes "get_row e uid rid True d = Inr r"
    and "dict_get (resume_receipt (get_checkpoint (r_id r) d)) ''key'' = Some (JStr (uuid_str key))"
  shows "resume_body e ce caps uid rid revision key s q clk d =
    (if dict_get (resume_receipt (get_checkpoint (r_id r) d)) ''input_hash'' = Some (JStr (resume_hash e s q)) \<and>
        dict_get (resume_receipt (get_checkpoint (r_id r) d)) ''revision'' = Some (JInt revision)
     then committed r d else Inl (AppError ''RESUME_CONFLICT'' 409))"
  using assms by (auto simp: resume_body_def Let_def raise_if_def)

lemma resume_run_Inr:
  assumes "resume_run e ce caps uid rid revision key s q clk d = (Inr r, d1)"
  obtains q0 where "strip s \<noteq> []" "length (strip s) \<le> 4000" "resume_public_query q = Inr q0"
    "resume_body e ce caps uid rid revision key (strip s) q0 clk d = Inr (Inr r, d1)"
  using assms unfolding resume_run_def by (auto simp: result_simps committed_def not_less)

lemma resume_run_body:
  assumes "strip s \<noteq> []" "length (strip s) \<le> 4000" "resume_public_query q = Inr q0"
  shows "resume_run e ce caps uid rid revision key s q clk d =
    transaction (resume_body e ce caps uid rid revision key (strip s) q0 clk) d"
  using assms by (simp add: resume_run_def transaction_def)

text \<open>
  a resume counts once. When a waiting run has been resumed, sending the same supplement
  with the same key and revision again returns the run as it is and changes nothing, so a
  lost reply can be retried; another supplement, another public query or another revision
  under that key is a conflict and changes nothing.
\<close>

lemma resume_counts_once:
  assumes "runs_inv d" and "\<forall>ck\<in>set (checkpoints d). distinct (map fst (ck_payload ck))"
    and "resume_run e ce caps uid rid revision key s q clk d = (Inr r, d1)" and "resume_public_query q = Inr q0"
  shows "resume_run e ce caps uid rid revision key s q clk' d1 = (Inr r, d1) \<and>
    (\<forall>s' q' q0' revision'. strip s' \<noteq> [] \<and> length (strip s') \<le> 4000 \<and> resume_public_query q' = Inr q0' \<and>
       (resume_hash e (strip s') q0' \<noteq> resume_hash e (strip s) q0 \<or> revision' \<noteq> revision) \<longrightarrow>
       resume_run e ce caps uid rid revision' key s' q' clk' d1 = (Inl (AppError ''RESUME_CONFLICT'' 409), d1))"
proof -
  have b: "resume_body e ce caps uid rid revision key (strip s) q0 clk d = Inr (Inr r, d1)"
    and v: "strip s \<noteq> []" "length (strip s) \<le> 4000"
    using resume_run_Inr [OF assms(3)] assms(4) by auto
  note R = resume_body_receipt [OF b assms(1,2)]
  have replay: "resume_body e ce caps uid rid rev' key x y clk' d1 =
      (if resume_hash e x y = resume_hash e (strip s) q0 \<and> rev' = revision then committed r d1
       else Inl (AppError ''RESUME_CONFLICT'' 409))" for rev' x y
    using R by (simp add: resume_body_replay [of e uid rid d1 r key])
  have "resume_run e ce caps uid rid revision key s q clk' d1 = (Inr r, d1)"
    by (simp add: resume_run_body [OF v assms(4)] transaction_def replay committed_def)
  moreover have "resume_run e ce caps uid rid revision' key s' q' clk' d1 = (Inl (AppError ''RESUME_CONFLICT'' 409), d1)"
    if "strip s' \<noteq> []" "length (strip s') \<le> 4000" "resume_public_query q' = Inr q0'"
      "resume_hash e (strip s') q0' \<noteq> resume_hash e (strip s) q0 \<or> revision' \<noteq> revision" for s' q' q0' revision'
    using that(4) by (auto simp: resume_run_body [OF that(1-3)] transaction_def replay)
  ultimately show ?thesis by blast
qed

text \<open>A waiting run, with its checkpoint, whose resume is accepted.\<close>

definition waiting_run :: chat_run where
  "waiting_run = \<lparr>r_id = 500, r_user = 1, r_session = 7, r_client_key = 100, r_fingerprint = [], r_state = Waiting,
     r_kind = Chat, r_result = [], r_sequence = 0, r_bytes = 0, r_request = [], r_expires = seconds 3600,
     r_message = None, r_user_message = None, r_payload = JNull, r_snapshot = [], r_owner = None, r_generation = 1,
     r_lease = None, r_remaining = Some 1, r_active = None, r_resume = Some 900, r_created = 0\<rparr>"

definition waiting_db :: db where
  "waiting_db = demo_db\<lparr>runs := [waiting_run], checkpoints := [\<lparr>ck_run = 500, ck_revision = 1, ck_payload = []\<rparr>]\<rparr>"

lemma waiting_db_inv: "runs_inv waiting_db"
  by (simp add: runs_inv_def runs_ok_def one_active_def journal_ok_def receipts_ok_def operation_count_def
      checkpoints_ok_def row_ok_def lease_shape_def journal_bounds_def waiting_db_def waiting_run_def demo_db_def
      empty_db_def journal_of_def)

lemma waiting_db_resumes:
  "\<exists>r d1. resume_run demo_run_env demo_env demo_caps 1 500 1 900 ''yes'' None demo_clock waiting_db = (Inr r, d1)"
proof -
  let ?ck = "\<lparr>ck_run = 500, ck_revision = 1, ck_payload = []\<rparr>"
  let ?p = "dict_set ''resume_receipt'' (JObj (receipt_of 900 ''yes'' 1))
       (dict_set ''human_inputs'' (JArr [JStr ''yes'']) [])"
  have row: "get_row demo_run_env 1 500 True waiting_db = Inr waiting_run"
    by (simp add: get_row_def get_run_of_def chat_session_of_def waiting_db_def waiting_run_def demo_run_env_def
        demo_db_def demo_session_def)
  have ck: "get_checkpoint (r_id waiting_run) waiting_db = Some ?ck"
    by (simp add: waiting_db_def waiting_run_def)
  have "jsize (JObj ?p) \<le> 4000000"
    using length_uuid_str [of 900] length_show_int [of 1 1] by (simp add: receipt_of_def)
  then have b: "bounded_json (JObj ?p) 4000000 = Inr (sort_keys (JObj ?p))" by (rule bounded_json_small)
  have "resume_payload [] None ''yes'' 900 ''yes'' 1 = bounded_dict ?p 4000000"
    by (simp add: resume_payload_def resume_public_inputs_def arr_or_empty_def dict_get_def)
  then obtain payload where p: "resume_payload [] None ''yes'' 900 ''yes'' 1 = Inr payload"
    unfolding bounded_dict_def b by simp
  let ?r = "waiting_run\<lparr>r_state := Queued, r_resume := None\<rparr>"
  let ?d = "settle ?r (put_checkpoint (?ck\<lparr>ck_payload := payload, ck_revision := 2\<rparr>) waiting_db)"
  have "\<exists>r' d'. emit_event ?r ''run_resumed'' [(''checkpoint_revision'', JInt 2)] False (demo_clock 1) ?d = Inr (r', d')"
  proof (rule emit_succeeds [OF waiting_db_inv])
    show "get_run_row (r_id ?r) waiting_db = Some waiting_run" by (simp add: waiting_db_def waiting_run_def)
    have "payload_size (event_payload ?r [(''checkpoint_revision'', JInt 2)] (demo_clock 1)) \<le> 2000"
      using payload_bound [of ?r "[(''checkpoint_revision'', JInt 2)]" "demo_clock 1"] length_show_int [of 2 1]
      by (simp add: waiting_run_def)
    then show "\<not> over_budget ?r (payload_size (event_payload ?r [(''checkpoint_revision'', JInt 2)] (demo_clock 1))) False"
      by (simp add: over_budget_def waiting_run_def)
  qed (simp_all add: settle_def message_state_def put_checkpoint_def put_run_def waiting_run_def waiting_db_def)
  then obtain r' d' where "requeue_resumed waiting_run ?ck payload (demo_clock 1) waiting_db = Inr (Inr r', d')"
    by (auto simp: requeue_resumed_def Let_def committed_def)
  moreover have "resume_hash demo_run_env ''yes'' None = ''yes''" by (simp add: resume_hash_def demo_run_env_def)
  ultimately have "resume_body demo_run_env demo_env demo_caps 1 500 1 900 ''yes'' None demo_clock waiting_db = Inr (Inr r', d')"
    using row ck p
    by (simp add: resume_body_def resume_receipt_def check_resume_approval_def check_resume_public_def tool_approval_of_def
        sub_dict_def dict_get_def waiting_run_def demo_clock_def seconds_def)
  moreover have "strip ''yes'' = ''yes''" by (simp add: strip_def lstrip_def rstrip_def py_space_def)
  ultimately show ?thesis
    by (simp add: resume_run_def transaction_def resume_public_query_def)
qed

lemma resume_counts_once_witness:
  "\<exists>r d1. resume_run demo_run_env demo_env demo_caps 1 500 1 900 ''yes'' None demo_clock waiting_db = (Inr r, d1) \<and>
     resume_run demo_run_env demo_env demo_caps 1 500 1 900 ''yes'' None demo_clock d1 = (Inr r, d1)"
proof -
  obtain r d1 where "resume_run demo_run_env demo_env demo_caps 1 500 1 900 ''yes'' None demo_clock waiting_db = (Inr r, d1)"
    using waiting_db_resumes by blast
  then show ?thesis
    using resume_counts_once [OF waiting_db_inv, of demo_run_env demo_env demo_caps 1 500 1 900 "''yes''" None demo_clock r d1 None demo_clock]
    by (auto simp: waiting_db_def resume_public_query_def)
qed

section \<open>A full journal at the head of the queue\<close>

text \<open>
  a run whose journal is full stops the queue. When nothing is to be expired or cancelled
  and the oldest claimable run has time left but 8192 events in its journal, \<open>claim_next\<close> cannot
  journal the claim: it fails with \<open>RUN_EVENT_LIMIT\<close>, rolls everything back and leaves that
  run at the head, so every other poll of the same kind meets the same run.
\<close>

lemma claim_next_full_journal:
  assumes "lock_expired_waiting_runs (clk 0) (re_kind e) d = []"
    and "lock_expired_cancellations (clk 21) (re_kind e) d = []"
    and "lock_next_run (clk 0) None (re_kind e) d = Some r"
    and "remaining_time e (clk 0) r = Inr left" and "0 < left" and "8192 \<le> r_sequence r"
  shows "claim_next e None token clk d = (Inl event_limit, d)"
proof -
  have "over_budget (lease_run e r token (clk 0) left) sz False" for sz
    using assms(6) by (simp add: over_budget_def lease_run_def)
  then have "take_run e r token (clk 0) left (clk 32) d = Inl event_limit"
    by (simp add: take_run_def emit_event_def Let_def)
  then show ?thesis
    using assms(1-5) by (simp add: claim_next_def transaction_def settle_cancellations_def)
qed

definition full_run :: chat_run where
  "full_run = waiting_run\<lparr>r_state := Queued, r_resume := None, r_sequence := 8192\<rparr>"

lemma claim_next_full_journal_witness:
  "claim_next demo_run_env None 900 demo_clock (demo_db\<lparr>runs := [full_run]\<rparr>) =
     (Inl event_limit, demo_db\<lparr>runs := [full_run]\<rparr>)"
proof (rule claim_next_full_journal [where r = full_run and left = 1])
  show "lock_next_run (demo_clock 0) None (re_kind demo_run_env) (demo_db\<lparr>runs := [full_run]\<rparr>) = Some full_run"
    by (simp add: lock_next_run_def claimable_def full_run_def waiting_run_def demo_clock_def demo_run_env_def)
  show "remaining_time demo_run_env (demo_clock 0) full_run = Inr 1"
    by (simp add: remaining_time_def used_time_def full_run_def waiting_run_def)
qed (simp_all add: lock_expired_waiting_runs_def lock_expired_cancellations_def full_run_def waiting_run_def)

end
