(* ===== verification/RunCheckpoint.thy ===== *)
theory RunCheckpoint
  imports RunResume
begin

text \<open>
  The call boundary of a run (\<open>app/manager/run_checkpoint.py\<close>) and the worker's execution
  slot (\<open>app/manager/run_execution.py\<close>). A call of a model or a tool goes through \<open>invoke\<close>:
  the claim is checked, the receipt is opened, the call runs, its outcome is stored and a
  repeated call is answered from the receipt. The world outside the database is the second
  component of the state, of any type; a call may change both.
\<close>

section \<open>The state of a round\<close>

definition control_errors :: "string list" where
  "control_errors = [''RUN_LEASE_LOST'', ''RUN_CANCEL_REQUESTED'', ''AGENT_TIMEOUT'', ''RUN_CHECKPOINT_DIVERGED'',
     ''RUN_CHECKPOINT_LIMIT'', ''TOOL_OUTCOME_UNCERTAIN'', ''RUN_RECOVERY_LIMIT'', ''EVALUATION_LEASE_LOST'',
     ''EVALUATION_CANCEL_REQUESTED'', ''DOCUMENT_SCOPE_CHANGED'', ''CAPABILITY_SCOPE_CHANGED'',
     ''SANDBOX_CLEANUP_FAILED'']"

definition control_error :: "exn \<Rightarrow> bool" where
  "control_error x = (case exn_code x of None \<Rightarrow> False | Some c \<Rightarrow> c \<in> set control_errors)"

text \<open>Python's \<open>len\<close> of a JSON value; a number or a null has none.\<close>

fun py_len :: "json \<Rightarrow> nat result" where
  "py_len (JStr s) = Inr (length s)"
| "py_len (JArr xs) = Inr (length xs)"
| "py_len (JObj d) = Inr (length d)"
| "py_len _ = Inl (OtherError ''TypeError'')"

definition human_count :: "dict \<Rightarrow> nat result" where
  "human_count state = py_len (case dict_get state ''human_inputs'' of None \<Rightarrow> JArr [] | Some v \<Rightarrow> v)"

definition public_input_ok :: "json \<Rightarrow> bool" where
  "public_input_ok v = (case v of
     JNull \<Rightarrow> True
   | JStr s \<Rightarrow> 1 \<le> length (strip s) \<and> length (strip s) \<le> 400
   | _ \<Rightarrow> False)"

definition check_public_inputs :: "dict \<Rightarrow> unit result" where
  "check_public_inputs state = (case dict_get state ''public_inputs'' of
     None \<Rightarrow> Inr ()
   | Some (JArr inputs) \<Rightarrow>
       and_then (human_count state) (\<lambda>n.
         raise_if (length inputs \<noteq> n \<or> \<not> list_all public_input_ok inputs) diverged)
   | Some _ \<Rightarrow> Inl diverged)"

text \<open>The constructor: the state of the round and the first frame.\<close>

definition open_checkpoint ::
    "run_env \<Rightarrow> run_claim \<Rightarrow> dict option \<Rightarrow> clock \<Rightarrow> db \<Rightarrow> (dict \<times> string) result" where
  "open_checkpoint e c given clk d =
     and_then (case given of
         Some state \<Rightarrow> Inr state
       | None \<Rightarrow> and_then (load_checkpoint e c clk d) (\<lambda>(_, state). Inr state)) (\<lambda>state.
     and_then (check_public_inputs state) (\<lambda>_.
     and_then (human_count state) (\<lambda>n. Inr (state, ''round/'' @ show_nat n))))"

definition scope_frame :: "string \<Rightarrow> string \<Rightarrow> string" where
  "scope_frame frame label = frame @ ''/'' @ label"

definition call_key :: "run_env \<Rightarrow> string \<Rightarrow> json \<Rightarrow> string option \<Rightarrow> string \<Rightarrow> string result" where
  "call_key e kind identity frame now_in =
     and_then (bounded_json (JObj [(''frame'', JStr (case frame of Some (x # xs) \<Rightarrow> x # xs | _ \<Rightarrow> now_in)),
         (''identity'', identity)]) 2000000) (\<lambda>v.
       Inr (kind @ ''/'' @ re_sha256 e (dumps False (sort_keys v))))"

definition is_model_key :: "string \<Rightarrow> bool" where
  "is_model_key key = prefix ''model/'' key"

definition model_attempts :: "run_env \<Rightarrow> run_claim \<Rightarrow> clock \<Rightarrow> db \<Rightarrow> int result" where
  "model_attempts e c clk d =
     and_then (check_owned e c clk d) (\<lambda>_.
       Inr (sum_list (map op_attempts
         (filter (\<lambda>x. op_run x = cl_run c \<and> is_model_key (op_key x)) (operations d)))))"

section \<open>Calls\<close>

text \<open>The callback that checks the frozen scope reads the database only.\<close>

type_synonym validator = "(db \<Rightarrow> unit result) option"
type_synonym 'w world = "db \<times> 'w"
type_synonym 'w call = "string \<Rightarrow> 'w world \<Rightarrow> json result \<times> 'w world"

definition checked :: "run_env \<Rightarrow> run_claim \<Rightarrow> validator \<Rightarrow> clock \<Rightarrow> db \<Rightarrow> unit result" where
  "checked e c validate clk d =
     and_then (check_owned e c clk d) (\<lambda>_. case validate of None \<Rightarrow> Inr () | Some v \<Rightarrow> v d)"

text \<open>What is stored of a call: its value, or an application error that is not a control error.\<close>

definition outcome_json :: "run_env \<Rightarrow> json result \<Rightarrow> json result" where
  "outcome_json e r = (case r of
     Inr v \<Rightarrow> Inr (JObj [(''ok'', JBool True), (''value'', v)])
   | Inl x \<Rightarrow>
       (case (exn_code x, exn_status x) of
          (Some code, Some status) \<Rightarrow>
            if code \<in> set control_errors then Inl x
            else Inr (JObj [(''ok'', JBool False), (''code'', JStr code), (''message'', JStr (re_text e code)),
              (''status'', JInt (int status))])
        | _ \<Rightarrow> Inl x))"

text \<open>
  What the caller gets of a stored outcome. A receipt always holds what \<open>outcome_json\<close> built;
  a value of another shape, which no code writes, is a lookup error.
\<close>

definition read_outcome :: "json \<Rightarrow> json result" where
  "read_outcome v = (case v of
     JObj d \<Rightarrow>
       (case dict_get d ''ok'' of
          None \<Rightarrow> Inl (OtherError ''KeyError'')
        | Some flag \<Rightarrow>
            if truthy flag then (case dict_get d ''value'' of None \<Rightarrow> Inl (OtherError ''KeyError'') | Some x \<Rightarrow> Inr x)
            else (case (dict_get d ''code'', dict_get d ''status'') of
                (Some (JStr code), Some (JInt status)) \<Rightarrow> Inl (AppError code (nat status))
              | _ \<Rightarrow> Inl (OtherError ''KeyError'')))
   | _ \<Rightarrow> Inl (OtherError ''TypeError''))"

text \<open>
  A fresh call: the second check, the call, its outcome, and the receipt that confirms it. An
  error before \<open>complete_operation\<close> leaves the receipt unconfirmed.
\<close>

definition run_call ::
    "run_env \<Rightarrow> run_claim \<Rightarrow> validator \<Rightarrow> string \<Rightarrow> 'w call \<Rightarrow> (nat \<Rightarrow> clock) \<Rightarrow> 'w world \<Rightarrow> json result \<times> 'w world" where
  "run_call e c validate key call clks s =
     (case checked e c validate (clks 2) (fst s) of
        Inl x \<Rightarrow> (Inl x, s)
      | Inr _ \<Rightarrow>
          (case call key s of (r, s1) \<Rightarrow>
            (case and_then (outcome_json e r) (\<lambda>o'. bounded_json o' 2000000) of
               Inl x \<Rightarrow> (Inl x, s1)
             | Inr outcome \<Rightarrow>
                 (case complete_operation e c key outcome None (clks 3) (fst s1) of
                    (Inl x, d2) \<Rightarrow> (Inl x, (d2, snd s1))
                  | (Inr _, d2) \<Rightarrow> (read_outcome outcome, (d2, snd s1))))))"

definition invoke ::
    "run_env \<Rightarrow> run_claim \<Rightarrow> validator \<Rightarrow> string \<Rightarrow> json \<Rightarrow> 'w call \<Rightarrow> bool \<Rightarrow> (nat \<Rightarrow> clock) \<Rightarrow> 'w world
     \<Rightarrow> json result \<times> 'w world" where
  "invoke e c validate key inputs call readonly clks s =
     (case checked e c validate (clks 0) (fst s) of
        Inl x \<Rightarrow> (Inl x, s)
      | Inr _ \<Rightarrow>
          (case begin_operation e c key inputs readonly (clks 1) (fst s) of
             (Inl x, d1) \<Rightarrow> (Inl x, (d1, snd s))
           | (Inr (cached, outcome), d1) \<Rightarrow>
               if cached then (read_outcome outcome, (d1, snd s))
               else run_call e c validate key call clks (d1, snd s)))"

text \<open>A call may use the store, through its operations only.\<close>

definition call_in_store :: "'w call \<Rightarrow> bool" where
  "call_in_store call \<longleftrightarrow> (\<forall>key s. run_steps (fst s) (fst (snd (call key s))))"

lemma run_call_steps:
  assumes "call_in_store call"
  shows "run_steps (fst s) (fst (snd (run_call e c validate key call clks s)))"
proof (cases "checked e c validate (clks 2) (fst s)")
  case (Inr u)
  obtain r s1 where k: "call key s = (r, s1)" by (cases "call key s") auto
  have s1: "run_steps (fst s) (fst s1)" using assms k by (metis call_in_store_def snd_conv)
  have "run_steps (fst s1) (snd (complete_operation e c key o' None (clks 3) (fst s1)))" for o'
    by (rule r_into_rtranclp) (rule step_end)
  with s1 have "run_steps (fst s) (snd (complete_operation e c key o' None (clks 3) (fst s1)))" for o'
    by (metis rtranclp_trans)
  then show ?thesis using s1 Inr k
    by (auto simp: run_call_def split: sum.splits prod.splits) (metis snd_conv)+
qed (simp add: run_call_def)

lemma invoke_steps:
  assumes "call_in_store call"
  shows "run_steps (fst s) (fst (snd (invoke e c validate key inputs call ro clks s)))"
proof -
  have b: "run_steps (fst s) (snd (begin_operation e c key inputs ro (clks 1) (fst s)))"
    by (rule r_into_rtranclp) (rule step_begin)
  have "run_steps (fst s) (fst (snd (run_call e c validate key call clks (d1, snd s))))"
    if "begin_operation e c key inputs ro (clks 1) (fst s) = (x, d1)" for x d1
    using b that run_call_steps [OF assms, of "(d1, snd s)" e c validate key clks] by auto
  then show ?thesis using b
    by (auto simp: invoke_def split: sum.splits prod.splits)
qed

section \<open>A call with a side effect runs once, a result is replayed\<close>

lemma invoke_world_changed:
  assumes "invoke e c validate key inputs call ro clks (d, w) = (res, d1, w1)" "w1 \<noteq> w"
  obtains v d0 where "begin_operation e c key inputs ro (clks 1) d = (Inr (False, v), d0)"
    "run_call e c validate key call clks (d0, w) = (res, d1, w1)"
  using assms by (auto simp: invoke_def split: sum.splits prod.splits if_splits)

lemma invoke_not_fresh:
  assumes "\<And>v. fst (begin_operation e c key inputs ro (clks 1) d) \<noteq> Inr (False, v)"
  shows "invoke e c validate key inputs call ro clks (d, w) = invoke e c validate key inputs call' ro clks (d, w) \<and>
    snd (snd (invoke e c validate key inputs call ro clks (d, w))) = w"
proof -
  obtain r d1 where b: "begin_operation e c key inputs ro (clks 1) d = (r, d1)" by fastforce
  then have "r \<noteq> Inr (False, v)" for v using assms by (metis fst_conv)
  then show ?thesis using b
    by (auto simp: invoke_def split: sum.splits)
qed

text \<open>
  C4: a call with a side effect runs at most once. When \<open>invoke\<close> has run a call that is not
  read-only (the world outside the database has changed), then in every later state of the
  store, for every worker, inputs and call body under the same key of that run, \<open>invoke\<close> does
  not run the body: its answer does not depend on the body and the world stays as it is.
\<close>

theorem side_effect_runs_once:
  assumes "run_reach d" and "call_in_store call"
    and "invoke e c validate key inputs call False clks (d, w) = (res, d1, w1)" and "w1 \<noteq> w"
    and "run_steps d1 d2" and "cl_run c' = cl_run c"
  shows "snd (snd (invoke e' c' validate' key inputs' call' ro' clks' (d2, w2))) = w2 \<and>
    invoke e' c' validate' key inputs' call' ro' clks' (d2, w2) =
    invoke e' c' validate' key inputs' call'' ro' clks' (d2, w2)"
proof -
  obtain v d0 where b: "begin_operation e c key inputs False (clks 1) d = (Inr (False, v), d0)"
    and r: "run_call e c validate key call clks (d0, w) = (res, d1, w1)"
    by (rule invoke_world_changed [OF assms(3,4)])
  have "run_steps d0 d1" using run_call_steps [OF assms(2), of "(d0, w)" e c validate key clks] r by simp
  then have "run_steps d0 d2" using assms(5) by simp
  from effect_not_restarted [OF assms(1) b this assms(6)]
  have "fst (begin_operation e' c' key inputs' ro' (clks' 1) d2) \<noteq> Inr (False, v')" for v' .
  then show ?thesis using invoke_not_fresh by metis
qed

lemma read_outcome_sorted:
  assumes "outcome_json e r = Inr o'"
  shows "read_outcome (sort_keys o') = (case r of Inr v \<Rightarrow> Inr (sort_keys v)
    | Inl x \<Rightarrow> Inl (AppError (the (exn_code x)) (the (exn_status x))))"
proof (cases r)
  case (Inr v)
  then have "o' = JObj [(''ok'', JBool True), (''value'', v)]" using assms by (simp add: outcome_json_def)
  then show ?thesis using Inr by (simp add: read_outcome_def dict_get_def)
next
  case (Inl x)
  then obtain code st where c: "exn_code x = Some code" "exn_status x = Some st"
    using assms by (auto simp: outcome_json_def split: option.splits)
  then have "o' = JObj [(''ok'', JBool False), (''code'', JStr code), (''message'', JStr (re_text e code)), (''status'', JInt (int st))]"
    using assms Inl by (auto simp: outcome_json_def split: if_splits)
  then show ?thesis using Inl c by (simp add: read_outcome_def dict_get_def)
qed

text \<open>When \<open>invoke\<close> has answered with a value, a confirmed receipt holds that value.\<close>

lemma begin_operation_cached:
  assumes "begin_operation e c key inputs ro clk d = (Inr (True, v), d1)" and "runs_inv d"
  shows "d1 = d \<and> (\<exists>x. get_operation (cl_run c) key d = Some x \<and> op_state x = OpSucceeded \<and> op_result x = v)"
  using begin_operation_Inr [OF assms] by auto

lemma run_call_confirms:
  assumes "run_call e c validate key call clks s = (Inr v, d1, w1)" and "call_in_store call" and "run_reach (fst s)"
  shows "\<exists>x. get_operation (cl_run c) key d1 = Some x \<and> op_state x = OpSucceeded \<and> read_outcome (op_result x) = Inr v"
proof -
  obtain r s1 where k: "call key s = (r, s1)" by (cases "call key s") auto
  from assms(1) k obtain o' where o': "outcome_json e r = Inr o'"
    and f: "complete_operation e c key (sort_keys o') None (clks 3) (fst s1) = (Inr (), d1)"
    and v: "read_outcome (sort_keys o') = Inr v"
    by (auto simp: run_call_def result_simps split: sum.splits prod.splits)
  have "run_steps (fst s) (fst s1)" using assms(2) k by (metis call_in_store_def snd_conv)
  then have "runs_inv (fst s1)" using run_reach_inv [OF run_reach_step [OF assms(3)]] by blast
  from complete_operation_row [OF f this] show ?thesis using v by (auto simp: sort_keys_idem)
qed

lemma invoke_Inr:
  assumes "invoke e c validate key inputs call ro clks (d, w) = (Inr v, d1, w1)"
  shows "\<exists>cached out d0. begin_operation e c key inputs ro (clks 1) d = (Inr (cached, out), d0) \<and>
    (if cached then (read_outcome out, d0, w) else run_call e c validate key call clks (d0, w)) = (Inr v, d1, w1)"
proof -
  obtain u where u: "checked e c validate (clks 0) d = Inr u" using assms by (cases "checked e c validate (clks 0) d") (simp_all add: invoke_def)
  obtain r d0 where b: "begin_operation e c key inputs ro (clks 1) d = (r, d0)" by (rule prod.exhaust)
  have "r \<noteq> Inl x" for x using assms b u by (auto simp: invoke_def)
  then obtain p where r: "r = Inr p" by (cases r) auto
  obtain cached out where p: "p = (cached, out)" by (rule prod.exhaust)
  show ?thesis using assms b u r p by (intro exI [of _ cached] exI [of _ out] exI [of _ d0]) (simp add: invoke_def split: if_splits)
qed

lemma invoke_confirms:
  assumes "invoke e c validate key inputs call ro clks (d, w) = (Inr v, d1, w1)"
    and "call_in_store call" and "run_reach d"
  shows "\<exists>x. get_operation (cl_run c) key d1 = Some x \<and> op_state x = OpSucceeded \<and> read_outcome (op_result x) = Inr v"
proof -
  from assms(1) obtain cached out d0 where b: "begin_operation e c key inputs ro (clks 1) d = (Inr (cached, out), d0)"
    and res: "(if cached then (read_outcome out, d0, w) else run_call e c validate key call clks (d0, w)) = (Inr v, d1, w1)"
    using invoke_Inr [OF assms(1)] by blast
  show ?thesis
  proof (cases cached)
    case True
    then show ?thesis using begin_operation_cached [of e c key inputs ro "clks 1" d out d0] b res run_reach_inv [OF assms(3)] by auto
  next
    case False
    have "run_reach d0"
      using run_reach_step [OF assms(3) r_into_rtranclp] step_begin [of d e c key inputs ro "clks 1"] b by simp
    then show ?thesis using run_call_confirms [of e c validate key call clks "(d0, w)" v d1 w1] res False assms(2) by simp
  qed
qed

lemma invoke_steps_to:
  "invoke e c validate key inputs call ro clks (d, w) = (res, d1, w1) \<Longrightarrow> call_in_store call \<Longrightarrow> run_steps d d1"
  using invoke_steps [of call "(d, w)" e c validate key inputs ro clks] by simp

text \<open>
  A replay gives the value the first execution gave. When \<open>invoke\<close> has answered with a
  value, every later \<open>invoke\<close> under the same key of that run, by whichever worker and with
  whichever body, either fails or answers with the same value, and then changes neither the
  store nor the world.
\<close>

lemma invoke_replays_value:
  assumes "run_reach d" and "call_in_store call"
    and "invoke e c validate key inputs call ro clks (d, w) = (Inr v, d1, w1)"
    and "run_steps d1 d2" and "cl_run c' = cl_run c"
    and "invoke e' c' validate' key inputs' call' ro' clks' (d2, w2) = (Inr v', d3, w3)"
  shows "v' = v \<and> d3 = d2 \<and> w3 = w2"
proof -
  have reach1: "run_reach d1" by (rule run_reach_step [OF assms(1) invoke_steps_to [OF assms(3,2)]])
  then have inv: "runs_inv d1" "runs_inv d2"
    using run_reach_inv run_reach_step [OF reach1 assms(4)] by auto
  obtain x where x: "get_operation (cl_run c) key d1 = Some x" "op_state x = OpSucceeded" "read_outcome (op_result x) = Inr v"
    using invoke_confirms [OF assms(3,2,1)] by blast
  have y: "get_operation (cl_run c) key d2 = Some x"
    using run_moves_receipt [of d1 d2] run_steps_moves [OF assms(4) inv(1)] x(1,2) by (auto simp: receipt_kept_def)
  from assms(6) obtain cached out d0 where b: "begin_operation e' c' key inputs' ro' (clks' 1) d2 = (Inr (cached, out), d0)"
    and res: "(if cached then (read_outcome out, d0, w2) else run_call e' c' validate' key call' clks' (d0, w2)) = (Inr v', d3, w3)"
    using invoke_Inr [OF assms(6)] by blast
  have "cached"
  proof (rule ccontr)
    assume "\<not> cached"
    then obtain z where z: "get_operation (cl_run c) key d0 = Some z" "op_state z = OpStarted"
      using begin_operation_Inr [OF b inv(2)] assms(5) by auto
    show False
      using run_moves_receipt [OF _ y, of d0] begin_operation_moves [OF inv(2), of e' c' key inputs' ro' "clks' 1"] b z x(2)
      by (auto simp: receipt_kept_def)
  qed
  then show ?thesis using begin_operation_cached [of e' c' key inputs' ro' "clks' 1" d2 out d0] b res inv(2) y x(3) assms(5) by auto
qed

text \<open>A call that counts its executions in the world.\<close>

definition demo_call :: "nat call" where
  "demo_call key s = (Inr JNull, (fst s, snd s + 1))"

lemma demo_call_in_store: "call_in_store demo_call"
  by (simp add: call_in_store_def demo_call_def)

lemma demo_invoke:
  "\<exists>c d d1. run_reach d \<and> invoke demo_run_env c None ''x'' JNull demo_call False (\<lambda>_. demo_clock) (d, 0) = (Inr JNull, d1, 1) \<and>
     invoke demo_run_env c None ''x'' JNull demo_call False (\<lambda>_. demo_clock) (d1, 1) = (Inr JNull, d1, 1)"
proof -
  let ?o = "JObj [(''ok'', JBool True), (''value'', JNull)]"
  obtain c d0 r where d0: "run_reach d0" "owned demo_run_env c False True (demo_clock 0) (demo_clock 1) d0 = Inr r"
    "operations d0 = []" by (rule demo_owned)
  have k: "operation_key_ok ''x''" "\<not> is_tool_key ''x''" "\<not> re_sandbox demo_run_env"
    by (simp_all add: operation_key_ok_def key_char_def lower_char_def is_tool_key_def demo_run_env_def)
  obtain row where b: "begin_operation demo_run_env c ''x'' JNull False demo_clock d0 = (Inr (False, JNull), put_operation row d0)"
    and row: "op_pk row = (cl_run c, ''x'')" "op_state row = OpStarted" "op_generation row = cl_generation c"
      "op_readonly row = False" "op_input_hash row = operation_hash demo_run_env JNull"
    using begin_fresh [of demo_run_env c demo_clock d0 r "''x''" False] d0 k by blast
  let ?row = "row\<lparr>op_state := OpSucceeded, op_result := ?o, op_updated := demo_clock 4\<rparr>"
  let ?d = "put_operation row d0" let ?d1 = "put_operation ?row ?d"
  have s: "sort_keys ?o = ?o" "jsize ?o \<le> 2000000" by simp_all
  have own: "owned demo_run_env c False True (demo_clock 0) (demo_clock 1) ?d = Inr r"
    "owned demo_run_env c False True (demo_clock 0) (demo_clock 1) ?d1 = Inr r"
    using d0(2) by simp_all
  have f: "complete_operation demo_run_env c ''x'' ?o None demo_clock ?d = (Inr (), ?d1)"
    using own(1) get_put_operation [OF row(1)] row k bounded_json_small [OF s(2)] s(1)
    by (simp add: complete_operation_def transaction_def emit_tool_result_def emit_artifacts_def checkpoint_after_def
        Let_def committed_def)
  have g: "get_operation (cl_run c) ''x'' ?d1 = Some ?row"
    by (rule get_put_operation) (use row in \<open>simp add: op_pk_def\<close>)
  have rp: "begin_operation demo_run_env c ''x'' JNull False demo_clock ?d1 = (Inr (True, ?o), ?d1)"
    using begin_replay [OF own(2) g] row k by simp
  have "invoke demo_run_env c None ''x'' JNull demo_call False (\<lambda>_. demo_clock) (d0, 0) = (Inr JNull, ?d1, 1)"
    using d0(2) own(1) b f bounded_json_small [OF s(2)] s(1)
    by (simp add: invoke_def run_call_def checked_def check_owned_def demo_call_def outcome_json_def read_outcome_def dict_get_def)
  moreover have "invoke demo_run_env c None ''x'' JNull demo_call False (\<lambda>_. demo_clock) (?d1, 1) = (Inr JNull, ?d1, 1)"
    using own(2) rp by (simp add: invoke_def checked_def check_owned_def read_outcome_def dict_get_def)
  ultimately show ?thesis using d0(1) by blast
qed

theorem side_effect_runs_once_witness:
  "\<exists>c d d1. invoke demo_run_env c None ''x'' JNull demo_call False (\<lambda>_. demo_clock) (d, 0) = (Inr JNull, d1, 1) \<and>
     snd (snd (invoke demo_run_env c None ''x'' JNull demo_call False (\<lambda>_. demo_clock) (d1, 1))) = 1"
proof -
  obtain c d d1 where r: "run_reach d"
    and i: "invoke demo_run_env c None ''x'' JNull demo_call False (\<lambda>_. demo_clock) (d, 0) = (Inr JNull, d1, 1)"
    using demo_invoke by blast
  from side_effect_runs_once [OF r demo_call_in_store i _ rtranclp.rtrancl_refl refl] show ?thesis using i by (metis zero_neq_one)
qed

lemma invoke_replays_value_witness:
  "\<exists>c d d1 v. invoke demo_run_env c None ''x'' JNull demo_call False (\<lambda>_. demo_clock) (d, 0) = (Inr JNull, d1, 1) \<and>
     invoke demo_run_env c None ''x'' JNull demo_call False (\<lambda>_. demo_clock) (d1, 1) = (Inr v, d1, 1) \<and> v = JNull"
proof -
  obtain c d d1 where r: "run_reach d"
    and i: "invoke demo_run_env c None ''x'' JNull demo_call False (\<lambda>_. demo_clock) (d, 0) = (Inr JNull, d1, 1)"
    and j: "invoke demo_run_env c None ''x'' JNull demo_call False (\<lambda>_. demo_clock) (d1, 1) = (Inr JNull, d1, 1)"
    using demo_invoke by blast
  from invoke_replays_value [OF r demo_call_in_store i rtranclp.rtrancl_refl refl j] show ?thesis using i j by blast
qed

end
