(* ===== verification/RunWorker.thy ===== *)
theory RunWorker
  imports RunCheckpoint
begin

text \<open>
  The order of the calls of one model turn (\<open>RunCheckpoint.ordered\<close>) and the worker's slot
  (\<open>app/manager/run_execution.py\<close>): it claims a run, executes it, buffers the answer text it
  appends to the journal, and settles an attempt that failed.
\<close>

section \<open>The calls of a turn keep the model's order\<close>

text \<open>
  Threads that wait in \<open>ordered(group, index)\<close>: a thread enters when all lower indices are
  finished, and its index is finished when it leaves, whether it succeeded or raised.
\<close>

record turn =
  t_entered :: "nat list"
  t_inside :: "nat list"
  t_finished :: "nat list"

definition may_enter :: "nat \<Rightarrow> turn \<Rightarrow> bool" where
  "may_enter i t = list_all (\<lambda>p. p \<in> set (t_finished t)) [0..<i]"

inductive turn_step :: "turn \<Rightarrow> turn \<Rightarrow> bool" where
  turn_enter: "i \<notin> set (t_entered t) \<Longrightarrow> may_enter i t \<Longrightarrow>
    turn_step t (t\<lparr>t_entered := t_entered t @ [i], t_inside := i # t_inside t\<rparr>)"
| turn_leave: "i \<in> set (t_inside t) \<Longrightarrow>
    turn_step t (t\<lparr>t_inside := removeAll i (t_inside t), t_finished := i # t_finished t\<rparr>)"

definition turn_start :: turn where
  "turn_start = \<lparr>t_entered = [], t_inside = [], t_finished = []\<rparr>"

definition turn_ok :: "turn \<Rightarrow> bool" where
  "turn_ok t \<longleftrightarrow> (\<exists>n. t_entered t = [0..<n] \<and>
     (t_inside t = [] \<and> set (t_finished t) = {..<n} \<or>
      (\<exists>m. n = Suc m \<and> t_inside t = [m] \<and> set (t_finished t) = {..<m})))"

lemma turn_step_ok:
  assumes "turn_step t t'" "turn_ok t"
  shows "turn_ok t'"
proof -
  obtain n where n: "t_entered t = [0..<n]"
    and c: "t_inside t = [] \<and> set (t_finished t) = {..<n} \<or>
      (\<exists>m. n = Suc m \<and> t_inside t = [m] \<and> set (t_finished t) = {..<m})"
    using assms(2) by (auto simp: turn_ok_def)
  from assms(1) show ?thesis
  proof cases
    case (turn_enter i)
    have i: "n \<le> i" using turn_enter(2) unfolding n by simp
    have below: "\<forall>p<i. p \<in> set (t_finished t)" using turn_enter(3) by (simp add: may_enter_def list_all_iff)
    have idle: "t_inside t = []"
    proof (rule ccontr)
      assume "t_inside t \<noteq> []"
      then obtain m where "n = Suc m" "set (t_finished t) = {..<m}" using c by blast
      then have "m < i" "m \<notin> set (t_finished t)" using i by auto
      then show False using below by blast
    qed
    then have f: "set (t_finished t) = {..<n}" using c by simp
    have "n \<notin> set (t_finished t)" using f by simp
    then have "\<not> n < i" using below by blast
    then have "i = n" using i by simp
    then show ?thesis unfolding turn_ok_def turn_enter(1) using idle f n by (intro exI [of _ "Suc n"]) simp
  next
    case (turn_leave i)
    have "t_inside t \<noteq> []" using turn_leave(2) by auto
    with c obtain m where m: "n = Suc m" "t_inside t = [m]" "set (t_finished t) = {..<m}" by blast
    have "i = m" using turn_leave(2) m(2) by simp
    moreover have "insert m {..<m} = {..<Suc m}" by auto
    ultimately show ?thesis unfolding turn_ok_def turn_leave(1) using m n by (intro exI [of _ "Suc m"]) simp
  qed
qed

text \<open>
  C34: the tool calls of a turn run one at a time and in the order the model gave them. In
  every state the waiting threads can reach the entered indices are 0, 1, 2, ... in that order,
  at most one call is inside, and all calls before it have finished.
\<close>

theorem ordered_calls_in_order:
  assumes "turn_step\<^sup>*\<^sup>* turn_start t"
  shows "t_entered t = [0..<length (t_entered t)] \<and> length (t_inside t) \<le> 1 \<and>
    (\<forall>i\<in>set (t_inside t). \<forall>p<i. p \<in> set (t_finished t))"
proof -
  have "turn_ok t"
    using assms
  proof (induction rule: rtranclp_induct)
    case base
    show ?case by (auto simp: turn_start_def turn_ok_def intro: exI [of _ 0])
  next
    case (step y z)
    then show ?case by (blast intro: turn_step_ok)
  qed
  then obtain n where n: "t_entered t = [0..<n]"
    and c: "t_inside t = [] \<and> set (t_finished t) = {..<n} \<or>
      (\<exists>m. n = Suc m \<and> t_inside t = [m] \<and> set (t_finished t) = {..<m})"
    unfolding turn_ok_def by blast
  have "length (t_entered t) = n" using n by simp
  then show ?thesis using n c by (metis (no_types, lifting) One_nat_def empty_iff empty_set
      length_Cons lessThan_iff less_or_eq_imp_le list.size(3) order_refl set_ConsD zero_le_one)
qed

theorem ordered_calls_in_order_witness:
  "\<exists>t. turn_step\<^sup>*\<^sup>* turn_start t \<and> t_entered t = [0, 1] \<and> length (t_inside t) \<le> 1"
proof -
  have a: "turn_step turn_start \<lparr>t_entered = [0], t_inside = [0], t_finished = []\<rparr>"
    using turn_enter [of 0 turn_start] by (simp add: turn_start_def may_enter_def)
  have b: "turn_step \<lparr>t_entered = [0], t_inside = [0], t_finished = []\<rparr> \<lparr>t_entered = [0], t_inside = [], t_finished = [0]\<rparr>"
    using turn_leave [of 0 "\<lparr>t_entered = [0], t_inside = [0], t_finished = []\<rparr>"] by simp
  have c: "turn_step \<lparr>t_entered = [0], t_inside = [], t_finished = [0]\<rparr> \<lparr>t_entered = [0, 1], t_inside = [1], t_finished = [0]\<rparr>"
    using turn_enter [of 1 "\<lparr>t_entered = [0], t_inside = [], t_finished = [0]\<rparr>"] by (simp add: may_enter_def)
  have "turn_step\<^sup>*\<^sup>* turn_start \<lparr>t_entered = [0, 1], t_inside = [1], t_finished = [0]\<rparr>"
    using a b c by (meson converse_rtranclp_into_rtranclp rtranclp.rtrancl_refl)
  from ordered_calls_in_order [OF this] this show ?thesis by fastforce
qed

section \<open>The answer buffer\<close>

datatype signal = Delta string | Signal string json

record answer_buffer =
  ab_pending :: string
  ab_flushed :: time
  ab_sent :: "signal list"

definition flush_answer :: "time \<Rightarrow> answer_buffer \<Rightarrow> answer_buffer" where
  "flush_answer t b =
     (if ab_pending b \<noteq> []
      then b\<lparr>ab_sent := ab_sent b @ [Delta (ab_pending b)], ab_pending := [], ab_flushed := t\<rparr> else b)"

text \<open>\<open>emit\<close>: answer text is held back for 512 characters or 200 ms, other events flush it.\<close>

fun emit_answer :: "signal \<Rightarrow> time \<times> time \<Rightarrow> answer_buffer \<Rightarrow> answer_buffer" where
  "emit_answer (Delta s) (t1, t2) b =
     (let b1 = b\<lparr>ab_pending := ab_pending b @ s\<rparr> in
      if 512 \<le> length (ab_pending b1) \<or> 200000 \<le> t1 - ab_flushed b1 then flush_answer t2 b1 else b1)"
| "emit_answer (Signal n v) (t1, t2) b =
     (let b1 = flush_answer t2 b in b1\<lparr>ab_sent := ab_sent b1 @ [Signal n v]\<rparr>)"

definition emit_answers :: "(signal \<times> time \<times> time) list \<Rightarrow> answer_buffer \<Rightarrow> answer_buffer" where
  "emit_answers xs b = fold (\<lambda>(s, t). emit_answer s t) xs b"

definition new_answer :: answer_buffer where
  "new_answer = \<lparr>ab_pending = [], ab_flushed = 0, ab_sent = []\<rparr>"

text \<open>Adjacent pieces of the answer joined: what a reader of the journal sees.\<close>

fun join_deltas :: "string \<Rightarrow> signal list \<Rightarrow> signal list" where
  "join_deltas acc [] = (if acc = [] then [] else [Delta acc])"
| "join_deltas acc (Delta s # xs) = join_deltas (acc @ s) xs"
| "join_deltas acc (Signal n v # xs) = (if acc = [] then [] else [Delta acc]) @ Signal n v # join_deltas [] xs"

lemma join_deltas_delta:
  "join_deltas acc (xs @ Delta a # Delta b # ys) = join_deltas acc (xs @ Delta (a @ b) # ys)"
  by (induction acc xs rule: join_deltas.induct) simp_all

lemma join_deltas_empty: "join_deltas acc (xs @ Delta [] # ys) = join_deltas acc (xs @ ys)"
  by (induction acc xs rule: join_deltas.induct) simp_all

definition sent_view :: "answer_buffer \<Rightarrow> signal list" where
  "sent_view b = ab_sent b @ [Delta (ab_pending b)]"

lemma flush_view: "join_deltas [] (sent_view (flush_answer t b) @ ys) = join_deltas [] (sent_view b @ ys)"
  using join_deltas_empty [of "[]" "ab_sent b @ [Delta (ab_pending b)]" ys]
  by (simp add: sent_view_def flush_answer_def)

lemma emit_view: "join_deltas [] (sent_view (emit_answer s t b) @ ys) = join_deltas [] (sent_view b @ s # ys)"
proof (cases s)
  case (Delta a)
  have "join_deltas [] (sent_view (b\<lparr>ab_pending := ab_pending b @ a\<rparr>) @ ys) = join_deltas [] (sent_view b @ Delta a # ys)"
    using join_deltas_delta [of "[]" "ab_sent b" "ab_pending b" a ys] by (simp add: sent_view_def)
  then show ?thesis using Delta flush_view [of "snd t" "b\<lparr>ab_pending := ab_pending b @ a\<rparr>" ys]
    by (cases t) (simp add: Let_def)
next
  case (Signal n v)
  have p: "ab_pending (flush_answer u b) = []" for u by (simp add: flush_answer_def)
  have "sent_view (emit_answer s t b) @ ys = (ab_sent (flush_answer (snd t) b) @ [Signal n v]) @ Delta [] # ys"
    using Signal p by (cases t) (simp add: sent_view_def Let_def)
  then have "join_deltas [] (sent_view (emit_answer s t b) @ ys) = join_deltas [] (ab_sent (flush_answer (snd t) b) @ s # ys)"
    using join_deltas_empty [of "[]" "ab_sent (flush_answer (snd t) b) @ [Signal n v]" ys] Signal by simp
  also have "\<dots> = join_deltas [] (sent_view (flush_answer (snd t) b) @ s # ys)"
    using join_deltas_empty [of "[]" "ab_sent (flush_answer (snd t) b)" "s # ys"] p by (simp add: sent_view_def)
  finally show ?thesis by (simp add: flush_view)
qed

lemma emit_all_view:
  "join_deltas [] (sent_view (emit_answers xs b) @ ys) = join_deltas [] (sent_view b @ map fst xs @ ys)"
proof (induction xs arbitrary: b)
  case (Cons x xs)
  obtain s t where x: "x = (s, t)" by (cases x) auto
  then show ?case using Cons [of "emit_answer s t b"] emit_view [of s t b "map fst xs @ ys"]
    by (simp add: emit_answers_def)
qed (simp add: emit_answers_def)

text \<open>
  C35: buffering loses and reorders nothing. Whatever the answer stream and the clock, after
  the last flush the events sent to the journal, with adjacent pieces of the answer joined, are
  the events of the stream, and nothing is held back.
\<close>

theorem buffered_answer_complete:
  "join_deltas [] (ab_sent (flush_answer t (emit_answers xs new_answer))) = join_deltas [] (map fst xs) \<and>
   ab_pending (flush_answer t (emit_answers xs new_answer)) = []"
proof -
  let ?b = "flush_answer t (emit_answers xs new_answer)"
  have p: "ab_pending ?b = []" by (simp add: flush_answer_def)
  then have "join_deltas [] (ab_sent ?b) = join_deltas [] (sent_view ?b)"
    using join_deltas_empty [of "[]" "ab_sent ?b" "[]"] by (simp add: sent_view_def)
  also have "\<dots> = join_deltas [] (sent_view new_answer @ map fst xs)"
    using flush_view [of t "emit_answers xs new_answer" "[]"] emit_all_view [of xs new_answer "[]"] by simp
  also have "\<dots> = join_deltas [] (map fst xs)" by (simp add: sent_view_def new_answer_def)
  finally show ?thesis using p by simp
qed

section \<open>The execution slot\<close>

text \<open>
  \<open>exec\<close> is \<open>chat.execute_prepared\<close>: it works for the claim on the store and the world. The
  heartbeat runs beside it and is part of \<open>exec\<close>'s steps. An error of the settlement itself is
  logged.
\<close>

definition settle_attempt ::
    "run_env \<Rightarrow> run_claim \<Rightarrow> unit result \<Rightarrow> clock \<Rightarrow> db \<Rightarrow> db" where
  "settle_attempt e c r clk d = (case r of
     Inr _ \<Rightarrow> d
   | Inl x \<Rightarrow> if exn_code x = Some ''RESOURCE_BUSY'' then snd (release_busy e c clk d)
             else snd (finish_failure e c x clk d))"

definition run_once ::
    "run_env \<Rightarrow> uuid \<Rightarrow> (run_claim \<Rightarrow> 'w world \<Rightarrow> unit result \<times> 'w world) \<Rightarrow> (nat \<Rightarrow> clock) \<Rightarrow> 'w world
     \<Rightarrow> bool result \<times> 'w world" where
  "run_once e token exec clks s =
     (case claim_next e None token (clks 0) (fst s) of
        (Inl x, d1) \<Rightarrow> (Inl x, (d1, snd s))
      | (Inr None, d1) \<Rightarrow> (Inr False, (d1, snd s))
      | (Inr (Some c), d1) \<Rightarrow>
          (case exec c (d1, snd s) of (r, s2) \<Rightarrow>
            (Inr True, (settle_attempt e c r (clks 1) (fst s2), snd s2))))"

lemma owned_weaker:
  "owned e c False True t1 t2 d = Inr r \<Longrightarrow> owned e c True False t1 t2 d = Inr r"
  by (auto simp: owned_def result_simps)

lemma finish_failure_result:
  assumes inv: "runs_inv d" and o': "owned e c True False (clk 0) (clk 1) d = Inr r"
    and "jsize (JObj (failure_data e ''RUN_EXECUTION_FAILED'' x)) \<le> 1000000"
  shows "\<exists>r' d'. finish_failure e c x clk d = (Inr (), d') \<and> get_run_row (cl_run c) d' = Some r' \<and>
    r_state r' = (if r_state r = Cancelling \<and> \<not> cleanup_failed x then Cancelled else Failed) \<and>
    r_owner r' = None \<and> r_lease r' = None \<and> r_active r' = None"
proof -
  let ?c = "r_state r = Cancelling \<and> \<not> cleanup_failed x"
  let ?r1 = "r\<lparr>r_state := (if ?c then Cancelled else Failed)\<rparr>"
  let ?name = "if ?c then ''run_cancelled'' else ''error''"
  let ?data = "if ?c then [] else failure_data e ''RUN_EXECUTION_FAILED'' x"
  have g: "get_run_row (r_id r) d = Some r" "r_id r = cl_run c" "row_ok r" "r_state r = Running \<or> r_state r = Cancelling"
    using owned_row [OF o' inv] by auto
  have "\<not> over_budget ?r1 (payload_size (event_payload ?r1 ?data (clk 2))) True"
    by (rule terminal_fits [OF g(3)]) (use g(4) assms(3) in \<open>auto simp: active_def active_states_def\<close>)
  then obtain r2 d2 where em: "emit_event ?r1 ?name ?data True (clk 2) d = Inr (r2, d2)"
    using emit_succeeds [OF inv _ _ _ _, of ?r1 r] g(1) by fastforce
  have f: "finish_failure e c x clk d = (Inr (), settle (release_lease r2) d2)"
    using em o' by (cases ?c) (auto simp: finish_failure_def transaction_def committed_def)
  have s: "r_state r2 = r_state ?r1" "r_id r2 = r_id r" using emit_event_row [OF em] by auto
  have "touch r2 d2 (release_lease r2) (settle (release_lease r2) d2)" by (rule touch_settle) simp_all
  from touch_row [OF this] have "get_run_row (r_id r2) (settle (release_lease r2) d2) = Some (release_lease r2)"
    by (simp add: release_lease_def)
  then show ?thesis using f s g(2)
    by (intro exI [of _ "release_lease r2"] exI [of _ "settle (release_lease r2) d2"]) (simp add: release_lease_def)
qed

text \<open>A run whose resources are busy goes back to the queue: its lease holds it for another second, and its time is counted.\<close>

lemma release_busy_result:
  assumes inv: "runs_inv d" and o': "owned e c False True (clk 0) (clk 1) d = Inr r"
  shows "\<exists>r' d' left. release_busy e c clk d = (Inr (), d') \<and> get_run_row (cl_run c) d' = Some r' \<and> r_state r' = Queued \<and>
    r_owner r' = None \<and> r_active r' = None \<and> r_lease r' = Some (clk 2 + seconds 1) \<and> spent (clk 2) r = Inr left \<and> r_remaining r' = Some left"
proof -
  have g: "get_run_row (r_id r) d = Some r" "r_id r = cl_run c" "row_ok r" "r_state r = Running"
    "r_owner r = Some (cl_token c)"
    using owned_row [OF o' inv] by auto
  then have "r_active r \<noteq> None" "r_remaining r \<noteq> None" by (auto simp: row_ok_def lease_shape_def split: if_splits)
  then obtain left where s: "spent (clk 2) r = Inr left" by (auto simp: spent_def)
  let ?r1 = "r\<lparr>r_remaining := Some left, r_state := Queued, r_owner := None, r_active := None\<rparr>"
  let ?r2 = "?r1\<lparr>r_lease := Some (clk 2 + seconds 1)\<rparr>" and ?d = "settle ?r1 d"
  have "touch r d ?r1 ?d" by (rule touch_settle) (simp_all add: same_run_def)
  moreover have "touch ?r1 ?d ?r2 (put_run ?r2 ?d)" by (rule touch_put) (simp_all add: same_run_def)
  ultimately have "touch r d ?r2 (put_run ?r2 ?d)" by (rule touch_trans)
  from touch_row [OF this] have "get_run_row (r_id r) (put_run ?r2 ?d) = Some ?r2" .
  moreover have "release_busy e c clk d = (Inr (), put_run ?r2 ?d)"
    using o' s by (simp add: release_busy_def transaction_def committed_def Let_def)
  ultimately show ?thesis using g(2) s by simp
qed

text \<open>
  C36: a failed attempt of a worker that still owns its run is settled. When the execution of a claimed run raises
  \<open>RESOURCE_BUSY\<close>, and the run is neither being cancelled nor past its deadline, the run goes back to the queue with the
  time it has left. When it raises any other error, whose message fits the row of an event, the worker's slot ends with the
  run cancelled or failed and no longer leased: the terminal event always fits the journal.
\<close>

theorem failed_attempt_settled:
  assumes "run_reach d" and "claim_next e None token (clks 0) d = (Inr (Some c), d1)"
    and "exec c (d1, w) = (Inl x, d2, w2)" and "run_steps d1 d2"
    and "owned e c True False (clks 1 0) (clks 1 1) d2 = Inr r"
    and "jsize (JObj (failure_data e ''RUN_EXECUTION_FAILED'' x)) \<le> 1000000"
  shows "\<exists>d3. run_once e token exec clks (d, w) = (Inr True, d3, w2) \<and>
    (exn_code x \<noteq> Some ''RESOURCE_BUSY'' \<longrightarrow>
       (\<exists>r'. get_run_row (cl_run c) d3 = Some r' \<and> r_state r' \<in> {Cancelled, Failed} \<and> r_owner r' = None \<and> r_lease r' = None \<and> r_active r' = None)) \<and>
    (exn_code x = Some ''RESOURCE_BUSY'' \<and> r_state r = Running \<and> clks 1 1 < r_expires r \<longrightarrow>
       (\<exists>r' since rest. get_run_row (cl_run c) d3 = Some r' \<and> r_state r' = Queued \<and> r_owner r' = None \<and> r_active r' = None \<and>
          r_lease r' = Some (clks 1 2 + seconds 1) \<and> r_active r = Some since \<and> r_remaining r = Some rest \<and>
          r_remaining r' = Some (rest - max 0 (clks 1 2 - since))))"
proof -
  have "run_reach d1" using run_reach_step [OF assms(1) r_into_rtranclp] step_claim [of d e None token "clks 0"] assms(2) by simp
  then have inv: "runs_inv d2" using run_reach_inv run_reach_step [OF _ assms(4)] by blast
  let ?d3 = "settle_attempt e c (Inl x) (clks 1) d2"
  have run: "run_once e token exec clks (d, w) = (Inr True, ?d3, w2)" using assms(2,3) by (simp add: run_once_def)
  have failed: "\<exists>r'. get_run_row (cl_run c) ?d3 = Some r' \<and> r_state r' \<in> {Cancelled, Failed} \<and> r_owner r' = None \<and> r_lease r' = None \<and> r_active r' = None"
    if "exn_code x \<noteq> Some ''RESOURCE_BUSY''"
    using finish_failure_result [OF inv assms(5,6)] that by (auto simp: settle_attempt_def)
  have busy: "\<exists>r' since rest. get_run_row (cl_run c) ?d3 = Some r' \<and> r_state r' = Queued \<and> r_owner r' = None \<and> r_active r' = None \<and>
          r_lease r' = Some (clks 1 2 + seconds 1) \<and> r_active r = Some since \<and> r_remaining r = Some rest \<and>
          r_remaining r' = Some (rest - max 0 (clks 1 2 - since))"
    if b: "exn_code x = Some ''RESOURCE_BUSY''" "r_state r = Running" "clks 1 1 < r_expires r"
  proof -
    have "owned e c False True (clks 1 0) (clks 1 1) d2 = Inr r"
      using assms(5) b(2,3) by (auto simp: owned_def result_simps)
    from release_busy_result [OF inv this] b(1) show ?thesis
      by (auto simp: settle_attempt_def spent_def split: option.splits)
  qed
  show ?thesis using run failed busy by blast
qed

theorem failed_attempt_settled_witness:
  "\<exists>c d1 d3 r'. claim_next demo_run_env None 900 demo_clock demo_state = (Inr (Some c), d1) \<and>
     run_once demo_run_env 900 (\<lambda>_ s. (Inl (OtherError ''KeyError''), s)) (\<lambda>_. demo_clock) (demo_state, ()) =
       (Inr True, d3, ()) \<and>
     get_run_row (cl_run c) d3 = Some r' \<and> r_state r' \<in> {Cancelled, Failed}"
proof -
  obtain c d r where c: "claim_next demo_run_env None 900 demo_clock demo_state = (Inr (Some c), d)"
    and d: "run_reach d" "cl_run c = 500" "cl_user c = 1" "cl_generation c = 1" "cl_token c = 900"
    "get_run_row 500 d = Some r" "r_state r = Running" "r_owner r = Some 900" "r_generation r = 1"
    "r_lease r = Some (seconds 30)" "r_expires r = seconds 300" "r_remaining r = Some (seconds 300)" "r_active r = Some 0"
    "checkpoints d = []" "operations d = []"
    "r_kind r = Chat" "r_user r = 1" "r_sequence r = 2" "runs d = [r]" "r_bytes r \<le> 2400"
    by (rule demo_claimed)
  have "r_id r = 500" using inv_row [OF run_reach_inv [OF d(1)] d(6)] by auto
  then have o': "owned demo_run_env c False True (demo_clock 0) (demo_clock 1) d = Inr r"
    using d by (simp add: owned_def get_row_def get_run_of_def seconds_def demo_clock_def demo_run_env_def)
  have s: "jsize (JObj (failure_data demo_run_env ''RUN_EXECUTION_FAILED'' (OtherError ''KeyError''))) \<le> 1000000"
    using length_show_int [of 500 3] by (simp add: failure_data_def error_data_def failure_code_def failure_status_def demo_run_env_def)
  from failed_attempt_settled [OF demo_state_reach, of demo_run_env 900 "\<lambda>_. demo_clock" c d
      "\<lambda>_ s. (Inl (OtherError ''KeyError''), s)" "()" "OtherError ''KeyError''" d "()" r]
  show ?thesis using c owned_weaker [OF o'] s by auto
qed

end
