(* ===== verification/Jobs.thy ===== *)
theory Jobs
  imports CapabilityService
begin

text \<open>
  The ingestion queue (\<open>app/service/ingestion_jobs.py\<close> and its queries): one job per document,
  one task as the receipt of each request, leases for the workers, retries with back-off, and
  the parent task of a series that is being retired.
\<close>

section \<open>Settings, claims and reads\<close>

record job_env =
  je_max_attempts :: int
  je_lease :: time
  je_poll :: time
  je_hierarchy :: string
  je_text :: "string \<Rightarrow> string"

record job_claim =
  jc_document :: uuid
  jc_user :: uuid
  jc_token :: uuid
  jc_exhausted :: bool
  jc_kind :: task_kind

definition lease_gone :: exn where
  "lease_gone = AppError ''INGESTION_LEASE_LOST'' 409"

definition task_diverged :: exn where
  "task_diverged = AppError ''INGESTION_TASK_DIVERGED'' 409"

definition job_seconds :: "int \<Rightarrow> time" where
  "job_seconds n = n * 1000000"

text \<open>The current receipt of each child: the tasks that some job points to.\<close>

definition child_tasks :: "uuid \<Rightarrow> db \<Rightarrow> doc_task list" where
  "child_tasks parent d =
     filter (\<lambda>t. t_parent t = Some parent \<and> (\<exists>j\<in>set (jobs d). j_task j = Some (t_id t))) (doc_tasks d)"

definition lock_unqueued_documents :: "nat \<Rightarrow> db \<Rightarrow> document list" where
  "lock_unqueued_documents limit d =
     take limit (sort_key d_created (filter (\<lambda>x. d_status x = DocProcessing \<and> get_job_row (d_id x) d = None) (documents d)))"

definition job_ready :: "time \<Rightarrow> ingestion_job \<Rightarrow> bool" where
  "job_ready now j = (j_state j = TQueued \<and> j_available j \<le> now \<or>
     j_state j = TRunning \<and> (case j_lease j of None \<Rightarrow> False | Some l \<Rightarrow> l \<le> now))"

definition lock_next_job :: "time \<Rightarrow> db \<Rightarrow> ingestion_job option" where
  "lock_next_job now d =
     (case sort_key j_available (sort_key j_document (filter (job_ready now) (jobs d))) of
        [] \<Rightarrow> None | j # _ \<Rightarrow> Some j)"

section \<open>The receipts\<close>

text \<open>The state of a parent task follows the current receipts of its versions.\<close>

definition retired_before :: "doc_task \<Rightarrow> int" where
  "retired_before parent = (case dict_get (t_details parent) ''already_retired'' of Some (JInt n) \<Rightarrow> n | _ \<Rightarrow> 0)"

definition parent_state :: "doc_task list \<Rightarrow> doc_task \<Rightarrow> doc_task" where
  "parent_state kids p =
     (if Some (t_processed p) = t_total p
      then p\<lparr>t_state := TSucceeded, t_phase := ''done'', t_error := None\<rparr>
      else if list_ex (\<lambda>c. t_state c = TFailed \<or> t_state c = TCancelled) kids
      then p\<lparr>t_state := TFailed, t_phase := ''failed'', t_error := Some ''DOCUMENT_SERIES_CLEANUP_INCOMPLETE''\<rparr>
      else if list_ex (\<lambda>c. t_phase c = ''waiting_runs'') kids
      then p\<lparr>t_state := TQueued, t_phase := ''waiting_runs'', t_error := None\<rparr>
      else p\<lparr>t_state := TRunning, t_phase := ''cleaning_versions'', t_error := None\<rparr>)"

definition sync_parent :: "uuid option \<Rightarrow> time \<Rightarrow> db \<Rightarrow> db result" where
  "sync_parent parent_id now d = (case parent_id of
     None \<Rightarrow> Inr d
   | Some pid \<Rightarrow>
       (case get_task_row pid d of
          None \<Rightarrow> Inl task_diverged
        | Some parent \<Rightarrow>
            and_then (raise_if (t_kind parent \<noteq> KDeleteSeries) task_diverged) (\<lambda>_.
              let kids = child_tasks pid d;
                  p = parent\<lparr>t_processed := retired_before parent +
                        int (length (filter (\<lambda>c. t_state c = TSucceeded) kids)), t_updated := now\<rparr>
              in Inr (put_task (parent_state kids p) d))))"

definition sync_task ::
    "ingestion_job \<Rightarrow> string option \<Rightarrow> int option \<Rightarrow> int option \<Rightarrow> clock \<Rightarrow> db \<Rightarrow> db result" where
  "sync_task j phase processed units clk d = (case j_task j of
     None \<Rightarrow> Inr d
   | Some tid \<Rightarrow>
       (case get_task_row tid d of
          None \<Rightarrow> Inl task_diverged
        | Some t \<Rightarrow>
            and_then (raise_if (t_document t \<noteq> Some (j_document j) \<or> t_user t \<noteq> j_user j \<or> t_kind t \<noteq> j_kind j)
              task_diverged) (\<lambda>_.
              let t1 = t\<lparr>t_state := j_state j, t_attempts := j_attempts j, t_max_attempts := j_max_attempts j,
                    t_error := j_error j, t_updated := clk 0\<rparr>;
                  t2 = t1\<lparr>t_phase := (case phase of None \<Rightarrow> t_phase t1 | Some p \<Rightarrow> p),
                    t_processed := (case processed of None \<Rightarrow> t_processed t1 | Some n \<Rightarrow> n),
                    t_total := (case units of None \<Rightarrow> t_total t1 | Some n \<Rightarrow> Some n)\<rparr>
              in sync_parent (t_parent t2) (clk 1) (put_task t2 d))))"

definition job_progress ::
    "uuid \<Rightarrow> string \<Rightarrow> int option \<Rightarrow> int option \<Rightarrow> clock \<Rightarrow> db \<Rightarrow> db result" where
  "job_progress did phase processed units clk d = (case get_job_row did d of
     None \<Rightarrow> Inr d
   | Some j \<Rightarrow> sync_task j (Some phase) processed units clk d)"

section \<open>Requests\<close>

definition supersede_task :: "ingestion_job \<Rightarrow> task_kind \<Rightarrow> time \<Rightarrow> db \<Rightarrow> db" where
  "supersede_task j kind now d = (case j_task j of
     None \<Rightarrow> d
   | Some tid \<Rightarrow>
       (case get_task_row tid d of
          None \<Rightarrow> d
        | Some t \<Rightarrow>
            if t_state t = TQueued \<or> t_state t = TRunning
            then put_task (t\<lparr>t_state := TCancelled, t_phase := ''cancelled'',
              t_error := Some (if kind = KDelete then ''SUPERSEDED_BY_RETIREMENT'' else ''SUPERSEDED_BY_RETRY''),
              t_updated := now\<rparr>) d
            else d))"

definition new_task ::
    "job_env \<Rightarrow> uuid \<Rightarrow> document \<Rightarrow> task_kind \<Rightarrow> dict \<Rightarrow> uuid option \<Rightarrow> time \<Rightarrow> doc_task" where
  "new_task e tid doc kind details parent now =
     \<lparr>t_id = tid, t_document = Some (d_id doc), t_parent = parent, t_user = d_user doc, t_name = d_name doc,
      t_org = d_org doc, t_kind = kind, t_state = TQueued, t_phase = ''queued'', t_processed = 0, t_total = None,
      t_attempts = 0, t_max_attempts = je_max_attempts e, t_error = None, t_details = details,
      t_created = now, t_updated = now\<rparr>"

definition new_job :: "document \<Rightarrow> ingestion_job" where
  "new_job doc = \<lparr>j_document = d_id doc, j_task = None, j_user = d_user doc, j_kind = KIngest, j_state = TQueued,
     j_attempts = 0, j_max_attempts = 0, j_available = 0, j_lease = None, j_token = None, j_error = None\<rparr>"

definition requeue_job ::
    "job_env \<Rightarrow> uuid \<Rightarrow> document \<Rightarrow> task_kind \<Rightarrow> dict \<Rightarrow> uuid option \<Rightarrow> ingestion_job \<Rightarrow> clock \<Rightarrow> db
     \<Rightarrow> (doc_task option \<times> db) result" where
  "requeue_job e tid doc kind details parent j clk d =
     (let d1 = supersede_task j kind (clk 0) d; t = new_task e tid doc kind details parent (clk 1) in
      and_then (row_insert t_id t (doc_tasks d1)) (\<lambda>ts.
        let j' = j\<lparr>j_task := Some tid, j_state := TQueued, j_kind := kind, j_attempts := 0,
              j_max_attempts := je_max_attempts e, j_available := clk 2, j_token := None, j_lease := None,
              j_error := None\<rparr>
        in and_then (sync_parent parent (clk 3) (put_job j' (d1\<lparr>doc_tasks := ts\<rparr>))) (\<lambda>d2.
             Inr (Some t, d2))))"

text \<open>\<open>tid\<close> is the id drawn for the task; an existing job is kept unless \<open>reset\<close> asks for a new one.\<close>

definition enqueue ::
    "job_env \<Rightarrow> uuid \<Rightarrow> document \<Rightarrow> bool \<Rightarrow> task_kind \<Rightarrow> dict \<Rightarrow> uuid option \<Rightarrow> clock \<Rightarrow> db
     \<Rightarrow> (doc_task option \<times> db) result" where
  "enqueue e tid doc reset kind details parent clk d = (case get_job_row (d_id doc) d of
     None \<Rightarrow> requeue_job e tid doc kind details parent (new_job doc) clk d
   | Some j \<Rightarrow> if reset then requeue_job e tid doc kind details parent j clk d else Inr (None, d))"

fun enqueue_all :: "job_env \<Rightarrow> (nat \<Rightarrow> uuid) \<Rightarrow> document list \<Rightarrow> clock \<Rightarrow> nat \<Rightarrow> db \<Rightarrow> db result" where
  "enqueue_all e ids [] clk i d = Inr d"
| "enqueue_all e ids (x # xs) clk i d =
     and_then (enqueue e (ids i) x False KIngest [] None (\<lambda>n. clk (4 * i + n)) d) (\<lambda>(_, d').
       enqueue_all e ids xs clk (i + 1) d')"

definition reconcile :: "job_env \<Rightarrow> (nat \<Rightarrow> uuid) \<Rightarrow> nat \<Rightarrow> clock \<Rightarrow> db \<Rightarrow> (db, nat) outcome" where
  "reconcile e ids limit clk =
     transaction (\<lambda>d. let xs = lock_unqueued_documents limit d in
       and_then (enqueue_all e ids xs clk 0 d) (\<lambda>d'. committed (length xs) d'))"

section \<open>Workers\<close>

definition claim_job :: "job_env \<Rightarrow> uuid \<Rightarrow> clock \<Rightarrow> db \<Rightarrow> (db, job_claim option) outcome" where
  "claim_job e token clk =
     transaction (\<lambda>d.
       let now = clk 0 in
       (case lock_next_job now d of
          None \<Rightarrow> committed None d
        | Some j \<Rightarrow>
            let exhausted = j_max_attempts j \<le> j_attempts j;
                j1 = j\<lparr>j_attempts := (if exhausted then j_attempts j else j_attempts j + 1), j_state := TRunning,
                  j_token := Some token, j_lease := Some (now + je_lease e)\<rparr>;
                receipt = (case j_task j of None \<Rightarrow> None | Some tid \<Rightarrow> get_task_row tid d);
                phase = (case receipt of
                    None \<Rightarrow> ''running''
                  | Some t \<Rightarrow> if j_kind j = KDelete \<and> t_phase t = ''waiting_runs'' then ''waiting_runs'' else ''running'')
            in and_then (sync_task j1 (Some phase) None None (\<lambda>n. clk (n + 1)) (put_job j1 d)) (\<lambda>d'.
                 committed (Some \<lparr>jc_document = j_document j, jc_user = j_user j, jc_token = token,
                   jc_exhausted = exhausted, jc_kind = j_kind j\<rparr>) d')))"

definition job_owned :: "job_claim \<Rightarrow> time \<Rightarrow> db \<Rightarrow> ingestion_job result" where
  "job_owned c now d = (case get_job_row (jc_document c) d of
     None \<Rightarrow> Inl lease_gone
   | Some j \<Rightarrow>
       if j_state j \<noteq> TRunning \<or> j_token j \<noteq> Some (jc_token c) \<or>
          (case j_lease j of None \<Rightarrow> True | Some l \<Rightarrow> l \<le> now)
       then Inl lease_gone else Inr j)"

definition job_heartbeat :: "job_env \<Rightarrow> job_claim \<Rightarrow> clock \<Rightarrow> db \<Rightarrow> (db, unit) outcome" where
  "job_heartbeat e c clk =
     transaction (\<lambda>d. and_then (job_owned c (clk 0) d) (\<lambda>j.
       committed () (put_job (j\<lparr>j_lease := Some (clk 1 + je_lease e)\<rparr>) d)))"

definition lease_over :: "ingestion_job \<Rightarrow> time \<Rightarrow> bool" where
  "lease_over j now = (case j_lease j of None \<Rightarrow> True | Some l \<Rightarrow> l \<le> now)"

definition end_lease :: "ingestion_job \<Rightarrow> ingestion_job" where
  "end_lease j = j\<lparr>j_token := None, j_lease := None\<rparr>"

definition job_release :: "job_env \<Rightarrow> job_claim \<Rightarrow> clock \<Rightarrow> db \<Rightarrow> (db, unit) outcome" where
  "job_release e c clk =
     transaction (\<lambda>d. and_then (job_owned c (clk 0) d) (\<lambda>j.
       let j1 = j\<lparr>j_attempts := (if jc_exhausted c then j_attempts j else j_attempts j - 1), j_state := TQueued,
             j_available := clk 1 + je_poll e\<rparr>
       in and_then (raise_if (lease_over j1 (clk 2)) lease_gone) (\<lambda>_.
          and_then (sync_task (end_lease j1) (Some ''queued'') None None (\<lambda>n. clk (n + 3)) (put_job (end_lease j1) d))
            (\<lambda>d'. committed () d'))))"

section \<open>The end of an attempt\<close>

definition retryable :: "exn \<Rightarrow> bool" where
  "retryable x = ((case x of UpstreamError _ retry \<Rightarrow> retry | _ \<Rightarrow> False) \<or>
     (case exn_code x of None \<Rightarrow> False | Some c \<Rightarrow> c \<in> set [''MINERU_RATE_LIMITED'', ''MINERU_UPSTREAM_UNAVAILABLE'',
        ''MINERU_PARSE_TIMEOUT'', ''MINERU_DOWNLOAD_TIMEOUT'', ''MINERU_DOWNLOAD_FAILED'', ''MILVUS_UNAVAILABLE'']))"

text \<open>\<open>min(300, 5 * 2 ** (attempts - 1))\<close> seconds, with Python's fraction below one attempt.\<close>

definition backoff :: "int \<Rightarrow> time" where
  "backoff attempts =
     (if 1 \<le> attempts then min (job_seconds 300) (job_seconds 5 * 2 ^ nat (attempts - 1))
      else job_seconds 5 div 2 ^ nat (1 - attempts))"

text \<open>\<open>int(v)\<close> of the stored generation, which is only ever written as an integer.\<close>

fun py_int :: "json \<Rightarrow> int result" where
  "py_int (JInt i) = Inr i"
| "py_int (JBool b) = Inr (if b then 1 else 0)"
| "py_int _ = Inl (OtherError ''TypeError'')"

definition restart_codes :: "string list" where
  "restart_codes = [''MINERU_SUBMISSION_UNKNOWN'', ''MINERU_SUBMISSION_FAILED'', ''MINERU_UPLOAD_FAILED'',
     ''MINERU_UPLOAD_AUTH_FAILED'', ''MINERU_UPLOAD_TIMEOUT'', ''MINERU_RATE_LIMITED'',
     ''MINERU_UPSTREAM_UNAVAILABLE'', ''MINERU_PARSE_FAILED'', ''MINERU_OUTPUT_UNSUPPORTED'']"

definition prepare_retry_metadata :: "uuid \<Rightarrow> dict \<Rightarrow> dict result" where
  "prepare_retry_metadata attempt m =
     (let restart = (dict_get m ''provider'' = Some (JStr ''mineru'') \<and>
            ((\<exists>c\<in>set restart_codes. dict_get m ''error_code'' = Some (JStr c)) \<or>
             dict_get m ''phase'' = Some (JStr ''uploading'')))
      in and_then (if restart
            then and_then (py_int (case dict_get m ''generation'' of None \<Rightarrow> JInt 0 | Some v \<Rightarrow> v)) (\<lambda>g.
                 Inr (dict_update m [(''generation'', JInt (g + 1)), (''attempt_id'', JStr (uuid_str attempt)),
                   (''batch_id'', JNull)]))
            else Inr m) (\<lambda>m1.
         Inr (dict_pop ''retryable'' (dict_update m1 [(''phase'', JStr ''validating''), (''failed_phase'', JNull),
           (''error_code'', JNull)]))))"

definition error_code_of :: "exn option \<Rightarrow> string" where
  "error_code_of err = (case err of None \<Rightarrow> ''INGESTION_FAILED''
     | Some x \<Rightarrow> (case exn_code x of None \<Rightarrow> ''INGESTION_FAILED'' | Some c \<Rightarrow> c))"

definition may_retry :: "exn option \<Rightarrow> ingestion_job \<Rightarrow> bool" where
  "may_retry err j = (case err of None \<Rightarrow> False | Some x \<Rightarrow> retryable x \<and> j_attempts j < j_max_attempts j)"

definition job_failed :: "job_claim \<Rightarrow> exn option \<Rightarrow> ingestion_job \<Rightarrow> ingestion_job" where
  "job_failed c err j = j\<lparr>j_state := TFailed,
     j_error := Some (if jc_exhausted c then ''INGESTION_ATTEMPTS_EXHAUSTED'' else error_code_of err)\<rparr>"

definition job_succeeded :: "ingestion_job \<Rightarrow> ingestion_job" where
  "job_succeeded j = j\<lparr>j_state := TSucceeded, j_error := None\<rparr>"

definition job_retried :: "exn option \<Rightarrow> time \<Rightarrow> ingestion_job \<Rightarrow> ingestion_job" where
  "job_retried err now j = j\<lparr>j_state := TQueued, j_error := Some (error_code_of err),
     j_available := now + backoff (j_attempts j)\<rparr>"

text \<open>A retirement: the job, the phase of its receipt, and the document's message.\<close>

definition finish_delete ::
    "job_env \<Rightarrow> job_claim \<Rightarrow> exn option \<Rightarrow> document \<Rightarrow> time \<Rightarrow> ingestion_job \<Rightarrow> ingestion_job \<times> string \<times> document" where
  "finish_delete e c err doc now j =
     (let (j1, phase) =
        (if d_status doc = DocRetired then (job_succeeded j, ''done'')
         else if (case err of None \<Rightarrow> False | Some x \<Rightarrow> exn_code x = Some ''DOCUMENT_INDEX_PINNED'')
         then (j\<lparr>j_state := TQueued, j_error := None, j_attempts := max 0 (j_attempts j - 1),
                j_available := now + job_seconds 5\<rparr>, ''waiting_runs'')
         else if may_retry err j then (job_retried err now j, ''retry_wait'')
         else (job_failed c err j, ''failed''))
      in (j1, phase, doc\<lparr>d_error :=
            (if j_state j1 = TSucceeded then None
             else if phase = ''waiting_runs'' then Some (je_text e ''WAITING_RUNS'')
             else Some (je_text e ''CLEANUP_INCOMPLETE''))\<rparr>))"

definition manifest_valid :: "job_env \<Rightarrow> document \<Rightarrow> bool" where
  "manifest_valid e doc =
     (let m = sub_dict (d_metadata doc) ''hierarchy'' in
      dict_get m ''fingerprint'' = Some (JStr (je_hierarchy e)) \<and>
      dict_get m ''source_hash'' = Some (JStr (d_content_hash doc)) \<and>
      dict_get m ''leaf_count'' = Some (JInt (d_chunk_count doc)) \<and>
      dict_get m ''generation'' =
        Some (case dict_get (d_metadata doc) ''generation'' of None \<Rightarrow> JInt 0 | Some v \<Rightarrow> v))"

definition finish_hierarchy ::
    "job_env \<Rightarrow> job_claim \<Rightarrow> exn option \<Rightarrow> document \<Rightarrow> time \<Rightarrow> ingestion_job \<Rightarrow> ingestion_job" where
  "finish_hierarchy e c err doc now j =
     (if d_status doc = DocDeleting then j\<lparr>j_state := TCancelled\<rparr>
      else if d_status doc = DocReady \<and> manifest_valid e doc then job_succeeded j
      else if may_retry err j then job_retried err now j
      else job_failed c err j)"

definition finish_ingest ::
    "job_env \<Rightarrow> job_claim \<Rightarrow> exn option \<Rightarrow> document \<Rightarrow> uuid \<Rightarrow> time \<Rightarrow> ingestion_job
     \<Rightarrow> (ingestion_job \<times> document) result" where
  "finish_ingest e c err doc attempt now j =
     (if d_status doc = DocReady then Inr (job_succeeded j, doc)
      else if d_status doc = DocDeleting then Inr (j\<lparr>j_state := TCancelled\<rparr>, doc)
      else if may_retry err j then
        and_then (prepare_retry_metadata attempt (d_metadata doc)) (\<lambda>m.
          Inr (job_retried err now j, doc\<lparr>d_status := DocProcessing, d_error := Some (je_text e ''RETRY_WAIT''),
            d_metadata := dict_update m [(''phase'', JStr ''retry_wait''), (''error_code'', JStr (error_code_of err))],
            d_chunk_count := 0\<rparr>))
      else
        let j1 = job_failed c err j in
        Inr (j1, doc\<lparr>d_status := DocFailed, d_chunk_count := 0, d_error := Some (je_text e ''FAILED''),
          d_metadata := dict_update (d_metadata doc) [(''phase'', JStr ''failed''), (''error_code'', opt_str (j_error j1))]\<rparr>))"

definition state_phase :: "task_state \<Rightarrow> string" where
  "state_phase s = (case s of TSucceeded \<Rightarrow> ''done'' | TQueued \<Rightarrow> ''retry_wait'' | TRunning \<Rightarrow> ''running''
     | TFailed \<Rightarrow> ''failed'' | TCancelled \<Rightarrow> ''cancelled'')"

definition finish_verdict ::
    "job_env \<Rightarrow> job_claim \<Rightarrow> exn option \<Rightarrow> document \<Rightarrow> uuid \<Rightarrow> time \<Rightarrow> ingestion_job
     \<Rightarrow> (ingestion_job \<times> string \<times> document) result" where
  "finish_verdict e c err doc attempt now j = (case jc_kind c of
     KDelete \<Rightarrow> Inr (finish_delete e c err doc now j)
   | KHierarchy \<Rightarrow> (let j1 = finish_hierarchy e c err doc now j in Inr (j1, state_phase (j_state j1), doc))
   | _ \<Rightarrow> and_then (finish_ingest e c err doc attempt now j) (\<lambda>(j1, doc1).
       Inr (j1, state_phase (j_state j1), doc1)))"

definition finish_job ::
    "job_env \<Rightarrow> job_claim \<Rightarrow> exn option \<Rightarrow> uuid \<Rightarrow> clock \<Rightarrow> db \<Rightarrow> (db, unit) outcome" where
  "finish_job e c err attempt clk =
     transaction (\<lambda>d.
       and_then (document_of (jc_user c) (jc_document c) d) (\<lambda>doc.
       and_then (job_owned c (clk 0) d) (\<lambda>j.
       and_then (finish_verdict e c err doc attempt (clk 1) j) (\<lambda>(j1, phase, doc1).
       and_then (raise_if (lease_over j1 (clk 2)) lease_gone) (\<lambda>_.
       and_then (sync_task (end_lease j1) (Some phase) None None (\<lambda>n. clk (n + 3))
           (put_job (end_lease j1) (put_document doc1 d))) (\<lambda>d'. committed () d'))))))"

record job_status =
  js_kind :: task_kind
  js_state :: task_state
  js_attempts :: int
  js_max_attempts :: int
  js_available :: time
  js_error :: "string option"

definition job_status_of :: "uuid \<Rightarrow> uuid \<Rightarrow> db \<Rightarrow> job_status option result" where
  "job_status_of uid did d =
     and_then (document_of uid did d) (\<lambda>_.
       Inr (case find (\<lambda>j. j_document j = did \<and> j_user j = uid) (jobs d) of
          None \<Rightarrow> None
        | Some j \<Rightarrow> Some \<lparr>js_kind = j_kind j, js_state = j_state j, js_attempts = j_attempts j,
            js_max_attempts = j_max_attempts j, js_available = j_available j, js_error = j_error j\<rparr>))"

end
