(* ===== verification/Contracts.thy ===== *)
theory Contracts
  imports CapabilityService
begin

text \<open>
  The value objects of a run (\<open>app/entity/bo/contracts.py\<close> and
  \<open>app/entity/bo/retrieval_scope.py\<close>): chunks and their Excel sources, the two kinds of
  context that may stand for several chunks, the frozen identity of an index, and the checks
  of a run's context. A dataclass whose \<open>__post_init__\<close> raises is a record and a predicate.
\<close>

section \<open>Chunks\<close>

definition url_safe :: "char \<Rightarrow> bool" where
  "url_safe c = (lower_char c \<or> upper_char c \<or> digit_char_p c \<or> c \<in> set ''_.-~'')"

definition upper_hex :: "nat \<Rightarrow> char" where
  "upper_hex d = (if d < 10 then char_of (48 + d) else char_of (55 + d))"

definition quote_byte :: "nat \<Rightarrow> string" where
  "quote_byte n = [CHR ''%'', upper_hex (n div 16), upper_hex (n mod 16)]"

text \<open>\<open>urllib.parse.quote(s, safe='')\<close> of the UTF-8 bytes.\<close>

definition quote_char :: "char \<Rightarrow> string" where
  "quote_char c = (let n = (of_char c :: nat) in
     if url_safe c then [c]
     else if n < 128 then quote_byte n
     else quote_byte (192 + n div 64) @ quote_byte (128 + n mod 64))"

definition url_quote :: "string \<Rightarrow> string" where
  "url_quote s = concat (map quote_char s)"

record excel_source =
  xs_sheet :: string
  xs_start :: int
  xs_end :: int
  xs_anchor :: string

definition excel_anchor :: "string \<Rightarrow> int \<Rightarrow> int \<Rightarrow> string" where
  "excel_anchor sheet a b = ''sheet:'' @ url_quote sheet @ '':row:'' @ show_int a @
     (if b = a then [] else ''-'' @ show_int b)"

definition excel_source_ok :: "excel_source \<Rightarrow> bool" where
  "excel_source_ok x = (1 \<le> length (xs_sheet x) \<and> length (xs_sheet x) \<le> 31 \<and>
     2 \<le> xs_start x \<and> xs_start x \<le> xs_end x \<and> xs_end x \<le> 10000 \<and>
     xs_anchor x = excel_anchor (xs_sheet x) (xs_start x) (xs_end x))"

record chunk =
  ch_id :: string
  ch_user :: string
  ch_document :: string
  ch_index :: int
  ch_content :: string
  ch_source :: string
  ch_page :: "int option"
  ch_section :: "string option"
  ch_excel :: "excel_source option"

definition excel_json :: "excel_source \<Rightarrow> json" where
  "excel_json x = JObj [(''sheet_name'', JStr (xs_sheet x)), (''row_start'', JInt (xs_start x)),
     (''row_end'', JInt (xs_end x)), (''source_anchor'', JStr (xs_anchor x))]"

text \<open>\<open>asdict(chunk)\<close>.\<close>

definition chunk_json :: "chunk \<Rightarrow> json" where
  "chunk_json c = JObj [(''chunk_id'', JStr (ch_id c)), (''user_id'', JStr (ch_user c)),
     (''document_id'', JStr (ch_document c)), (''chunk_index'', JInt (ch_index c)), (''content'', JStr (ch_content c)),
     (''source_name'', JStr (ch_source c)), (''page_number'', opt_int (ch_page c)), (''section'', opt_str (ch_section c)),
     (''excel_source'', (case ch_excel c of None \<Rightarrow> JNull | Some x \<Rightarrow> excel_json x))]"

section \<open>Contexts\<close>

definition source_boundary ::
    "chunk \<Rightarrow> string \<times> string \<times> string \<times> int option \<times> string option \<times> string option" where
  "source_boundary c = (ch_user c, ch_document c, ch_source c, ch_page c, ch_section c, map_option xs_sheet (ch_excel c))"

definition joined_content :: "chunk list \<Rightarrow> string" where
  "joined_content cs = joined [CHR 0x0A, CHR 0x0A] (map ch_content cs)"

text \<open>\<open>positions != sorted(set(positions))\<close>, and no negative position.\<close>

definition positions_ok :: "int list \<Rightarrow> bool" where
  "positions_ok ps = (list_all (\<lambda>i. 0 \<le> i) ps \<and> ps = sort (remdups ps))"

definition same_source :: "chunk list \<Rightarrow> bool" where
  "same_source cs = (case cs of [] \<Rightarrow> True
     | c # _ \<Rightarrow> list_all (\<lambda>x. source_boundary x = source_boundary c) cs)"

definition parent_context_ok :: "chunk list \<Rightarrow> bool" where
  "parent_context_ok cs = (2 \<le> length cs \<and> length cs \<le> 8 \<and> length (joined_content cs) \<le> 12000 \<and>
     positions_ok (map ch_index cs) \<and> distinct (map ch_id cs) \<and> same_source cs)"

text \<open>The id of a parent context; \<open>uuid5\<close> takes the document's id and a name.\<close>

definition parent_context_id :: "(string \<Rightarrow> string) \<Rightarrow> (string \<Rightarrow> string \<Rightarrow> string) \<Rightarrow> chunk list \<Rightarrow> string" where
  "parent_context_id sha256 uuid5 cs =
     uuid5 (case cs of [] \<Rightarrow> [] | c # _ \<Rightarrow> ch_document c)
       (''parent-context:v1:'' @ sha256 (dumps False (sort_keys (JArr (map chunk_json cs)))))"

record hierarchy_context =
  hc_node :: string
  hc_level :: int
  hc_text :: string
  hc_children :: "chunk list"

fun substring :: "string \<Rightarrow> string \<Rightarrow> bool" where
  "substring s [] = (s = [])"
| "substring s (c # t) = (prefix s (c # t) \<or> substring s t)"

text \<open>\<open>is_uuid\<close> stands for the constructor \<open>UUID(node_id)\<close>, which raises on other text.\<close>

definition hierarchy_context_ok :: "(string \<Rightarrow> bool) \<Rightarrow> hierarchy_context \<Rightarrow> bool" where
  "hierarchy_context_ok is_uuid h =
     (let cs = hc_children h in
      is_uuid (hc_node h) \<and> (hc_level h = 1 \<or> hc_level h = 2) \<and> 2 \<le> length cs \<and> length cs \<le> 64 \<and>
      1 \<le> length (hc_text h) \<and> length (hc_text h) \<le> 48000 \<and> positions_ok (map ch_index cs) \<and>
      distinct (map ch_id cs) \<and> same_source cs \<and> list_all (\<lambda>c. substring (ch_content c) (hc_text h)) cs)"

lemma positions_ok_iff: "positions_ok ps \<longleftrightarrow> (\<forall>i\<in>set ps. 0 \<le> i) \<and> sorted_wrt (<) ps"
proof -
  have "ps = sort (remdups ps) \<longleftrightarrow> sorted_wrt (<) ps"
  proof
    assume h: "ps = sort (remdups ps)"
    have "distinct (sort (remdups ps))" "sorted (sort (remdups ps))" by simp_all
    then show "sorted_wrt (<) ps" using h strict_sorted_iff [of ps] by simp
  next
    assume "sorted_wrt (<) ps"
    then have "sorted ps" "distinct ps" by (simp_all add: strict_sorted_iff)
    then show "ps = sort (remdups ps)" by (simp add: distinct_remdups_id sort_key_id_if_sorted)
  qed
  then show ?thesis by (simp add: positions_ok_def list_all_iff)
qed

lemma same_source_pair: "same_source cs \<Longrightarrow> a \<in> set cs \<Longrightarrow> b \<in> set cs \<Longrightarrow> source_boundary a = source_boundary b"
  by (cases cs) (auto simp: same_source_def list_all_iff)

lemma substring_iff: "substring s t \<longleftrightarrow> (\<exists>u v. t = u @ s @ v)"
proof (induction s t rule: substring.induct)
  case (2 s c t)
  have "(\<exists>u v. c # t = u @ s @ v) \<longleftrightarrow> (\<exists>v. c # t = s @ v) \<or> (\<exists>u v. t = u @ s @ v)"
  proof
    assume "\<exists>u v. c # t = u @ s @ v"
    then obtain u v where "c # t = u @ s @ v" by blast
    then show "(\<exists>v. c # t = s @ v) \<or> (\<exists>u v. t = u @ s @ v)" by (cases u) auto
  next
    assume "(\<exists>v. c # t = s @ v) \<or> (\<exists>u v. t = u @ s @ v)"
    then show "\<exists>u v. c # t = u @ s @ v" by (metis append_Cons append_Nil)
  qed
  then show ?case using 2 by (simp add: prefix_def)
qed simp

section \<open>The identity of a frozen index\<close>

record retrieval_index =
  ri_document :: uuid
  ri_user :: uuid
  ri_collection :: string
  ri_database :: string
  ri_model :: string
  ri_dimension :: int
  ri_connection :: string
  ri_fingerprint :: string
  ri_source :: string
  ri_leaf_sha :: "string option"
  ri_leaf_count :: int

definition target_name_ok :: "nat \<Rightarrow> string \<Rightarrow> bool" where
  "target_name_ok limit s = (case s of [] \<Rightarrow> False
     | c # cs \<Rightarrow> (lower_char c \<or> upper_char c \<or> c = CHR ''_'') \<and>
         list_all (\<lambda>x. lower_char x \<or> upper_char x \<or> digit_char_p x \<or> x = CHR ''_'') cs \<and> length s \<le> limit)"

definition embedding_name_ok :: "string \<Rightarrow> bool" where
  "embedding_name_ok s = (1 \<le> length s \<and> length s \<le> 200 \<and>
     list_all (\<lambda>c. lower_char c \<or> upper_char c \<or> digit_char_p c \<or> c \<in> set ''._:/-'') s)"

definition retrieval_index_ok :: "retrieval_index \<Rightarrow> bool" where
  "retrieval_index_ok r =
     (target_name_ok 160 (ri_collection r) \<and> target_name_ok 128 (ri_database r) \<and> embedding_name_ok (ri_model r) \<and>
      64 \<le> ri_dimension r \<and> ri_dimension r \<le> 4096 \<and> 1 \<le> ri_leaf_count r \<and> ri_leaf_count r \<le> 100000 \<and>
      hex64 (ri_connection r) \<and> hex64 (ri_source r) \<and>
      (case ri_leaf_sha r of None \<Rightarrow> False | Some s \<Rightarrow> hex64 s) \<and>
      (ri_fingerprint r = ''legacy'' \<or> hex64 (ri_fingerprint r)))"

text \<open>\<open>json.dumps(value, ensure_ascii=False, sort_keys=True, separators=(",", ":"))\<close>.\<close>

fun dumps_compact :: "json \<Rightarrow> string" where
  "dumps_compact (JArr xs) = ''['' @ joined '','' (map dumps_compact xs) @ '']''"
| "dumps_compact (JObj d) = ''{'' @ joined '','' (map (\<lambda>(k, v). dumps_str False k @ '':'' @ dumps_compact v) d) @ ''}''"
| "dumps_compact v = dumps False v"

definition fingerprint :: "(string \<Rightarrow> string) \<Rightarrow> json \<Rightarrow> string" where
  "fingerprint sha256 v = sha256 (dumps_compact (sort_keys v))"

text \<open>The settings a published index is bound to.\<close>

record index_settings =
  is_sha256 :: "string \<Rightarrow> string"
  is_uri :: string
  is_database :: string
  is_collection :: string
  is_model :: string
  is_dimension :: int
  is_base_url :: string
  is_mineru_model :: string
  is_chunk_size :: int
  is_chunk_overlap :: int
  is_hierarchy :: bool

definition retrieval_index_identity :: "index_settings \<Rightarrow> string" where
  "retrieval_index_identity s = fingerprint (is_sha256 s) (JObj [(''milvus_uri'', JStr (is_uri s)),
     (''milvus_database'', JStr (is_database s)), (''milvus_collection'', JStr (is_collection s)),
     (''embedding_model'', JStr (is_model s)), (''embedding_dimension'', JInt (is_dimension s))])"

definition index_connection_identity :: "index_settings \<Rightarrow> string" where
  "index_connection_identity s = fingerprint (is_sha256 s) (JObj [(''milvus_uri'', JStr (is_uri s)),
     (''milvus_database'', JStr (is_database s)), (''dashscope_base_url'', JStr (is_base_url s))])"

section \<open>The context of a run\<close>

record run_context =
  rx_user :: uuid
  rx_session :: uuid
  rx_mode :: search_mode
  rx_allowed :: "uuid list"
  rx_owners :: "(uuid \<times> uuid) list"
  rx_indexes :: "retrieval_index list"
  rx_org :: "uuid option"
  rx_shared_only :: bool
  rx_execution :: "execution option"
  rx_run :: "uuid option"
  rx_approval :: "tool_approval option"

definition owner_map :: "run_context \<Rightarrow> (uuid \<times> uuid) list" where
  "owner_map x = (if rx_owners x = [] then map (\<lambda>did. (did, rx_user x)) (rx_allowed x) else rev (rx_owners x))"

definition run_indexes_ok :: "run_context \<Rightarrow> bool" where
  "run_indexes_ok x = (rx_indexes x = [] \<or>
     length (rx_indexes x) = length (remdups (rx_allowed x)) \<and>
     set (map fst (owner_map x)) = set (rx_allowed x) \<and>
     (\<forall>did\<in>set (rx_allowed x) \<union> set (map ri_document (rx_indexes x)).
        map_of (rev (map (\<lambda>t. (ri_document t, ri_user t)) (rx_indexes x))) did = map_of (owner_map x) did))"

text \<open>
  \<open>RunContext.__post_init__\<close>: the frozen scope (already decoded) is of the run's mode, the
  approval belongs to it, a team context is shared only, and the indexes are those of the
  authorized documents. The last pair for a document wins, as in \<open>dict(...)\<close>.
\<close>

definition run_context_ok :: "run_context \<Rightarrow> bool" where
  "run_context_ok x =
     ((case rx_execution x of
         Some ex \<Rightarrow> x_mode ex = rx_mode x \<and> (rx_run x = None \<longrightarrow> rx_approval x = None) \<and>
           (\<exists>g. validate_run_approval (rx_approval x) (x_approved ex) \<lparr>id_user = rx_user x, id_session = rx_session x,
             id_run = (case rx_run x of None \<Rightarrow> 0 | Some r \<Rightarrow> r), id_org = rx_org x, id_hash = x_hash ex\<rparr> = Inr g)
       | None \<Rightarrow> rx_approval x = None) \<and>
      (rx_org x \<noteq> None \<longrightarrow> rx_shared_only x) \<and> run_indexes_ok x)"

end
