(* ===== verification/Publication.thy ===== *)
theory Publication
  imports Contracts
begin

text \<open>
  Publication of document indexes (\<open>app/service/document_publication.py\<close>): the identity of a
  build, the reservation, verification and freezing of an index. The vector store is outside
  the program: reading the chunks of a document is an argument.
\<close>

section \<open>Fingerprints\<close>

definition build_fingerprint :: "index_settings \<Rightarrow> string \<Rightarrow> string \<Rightarrow> string" where
  "build_fingerprint s extension provider = fingerprint (is_sha256 s) (JObj [
     (''protocol'', JInt 1), (''index'', JStr (retrieval_index_identity s)),
     (''embedding_connection'', JStr (is_base_url s)), (''extension'', JStr extension), (''provider'', JStr provider),
     (''parser'', JStr (if provider = ''mineru'' then is_mineru_model s else ''local-v2-html-xlsx-row-v1'')),
     (''chunk_size'', JInt (is_chunk_size s)), (''chunk_overlap'', JInt (is_chunk_overlap s)),
     (''hierarchy'', JBool (is_hierarchy s)), (''hierarchy_factors'', JArr [JInt 4, JInt 2, JInt 1]),
     (''encoding'', JStr ''cl100k_base'')])"

definition leaf_fingerprint :: "index_settings \<Rightarrow> chunk list \<Rightarrow> uuid \<Rightarrow> uuid \<Rightarrow> string result" where
  "leaf_fingerprint s chunks uid did =
     (let rows = sort_key ch_index chunks in
      if rows = [] \<or> map ch_index rows \<noteq> [0..int (length rows) - 1] \<or> \<not> distinct (map ch_id rows) \<or>
         list_ex (\<lambda>r. ch_user r \<noteq> uuid_str uid \<or> ch_document r \<noteq> uuid_str did) rows
      then Inl (AppError ''INDEX_VERIFICATION_FAILED'' 409)
      else Inr (fingerprint (is_sha256 s) (JArr (map chunk_json rows))))"

section \<open>Operations\<close>

definition scope_gone :: exn where
  "scope_gone = AppError ''DOCUMENT_SCOPE_CHANGED'' 409"

definition reserved_index :: "index_settings \<Rightarrow> document \<Rightarrow> doc_index" where
  "reserved_index s doc = \<lparr>ix_document = d_id doc, ix_collection = is_collection s, ix_database = is_database s,
     ix_model = d_embedding_model doc, ix_dimension = is_dimension s, ix_connection = index_connection_identity s,
     ix_fingerprint = d_fingerprint doc, ix_source = d_content_hash doc, ix_leaf_sha = None, ix_leaf_count = 0,
     ix_state = IxBuilding, ix_verified_at = None\<rparr>"

definition reserve_index :: "index_settings \<Rightarrow> document \<Rightarrow> db \<Rightarrow> db result" where
  "reserve_index s doc d =
     and_then (row_insert ix_document (reserved_index s doc) (doc_indexes d)) (\<lambda>rows. Inr (d\<lparr>doc_indexes := rows\<rparr>))"

text \<open>The conditions under which a document's index can be frozen for a run, and the frozen value.\<close>

definition index_current :: "index_settings \<Rightarrow> uuid option \<Rightarrow> document \<Rightarrow> doc_index \<Rightarrow> bool" where
  "index_current s owner doc row =
     (owner = Some (d_user doc) \<and> d_status doc = DocReady \<and> (ix_state row = IxPublished \<or> ix_state row = IxSuperseded) \<and>
      ix_verified_at row \<noteq> None \<and> ix_source row = d_content_hash doc \<and> ix_fingerprint row = d_fingerprint doc \<and>
      ix_model row = d_embedding_model doc \<and> ix_leaf_count row = d_chunk_count doc \<and>
      ix_database row = is_database s \<and> ix_connection row = index_connection_identity s)"

definition target_of :: "document \<Rightarrow> doc_index \<Rightarrow> retrieval_index" where
  "target_of doc row = \<lparr>ri_document = ix_document row, ri_user = d_user doc, ri_collection = ix_collection row,
     ri_database = ix_database row, ri_model = ix_model row, ri_dimension = ix_dimension row,
     ri_connection = ix_connection row, ri_fingerprint = ix_fingerprint row, ri_source = ix_source row,
     ri_leaf_sha = ix_leaf_sha row, ri_leaf_count = ix_leaf_count row\<rparr>"

fun freeze_documents ::
    "index_settings \<Rightarrow> (uuid \<times> uuid) list \<Rightarrow> db \<Rightarrow> document list \<Rightarrow> retrieval_index list result" where
  "freeze_documents s owners d [] = Inr []"
| "freeze_documents s owners d (doc # docs) = (case get_index (d_id doc) d of
     None \<Rightarrow> Inl scope_gone
   | Some row \<Rightarrow>
       and_then (raise_if (\<not> index_current s (map_of owners (d_id doc)) doc row \<or>
           \<not> retrieval_index_ok (target_of doc row)) scope_gone) (\<lambda>_.
       and_then (freeze_documents s owners d docs) (\<lambda>ts. Inr (target_of doc row # ts))))"

text \<open>\<open>owners\<close> is a dictionary: its keys are distinct.\<close>

definition freeze_indexes :: "index_settings \<Rightarrow> (uuid \<times> uuid) list \<Rightarrow> db \<Rightarrow> retrieval_index list result" where
  "freeze_indexes s owners d =
     (if owners = [] then Inr []
      else
        let docs = sort_key d_id (filter (\<lambda>x. d_id x \<in> fst ` set owners) (documents d)) in
        if length docs \<noteq> length owners then Inl scope_gone else freeze_documents s owners d docs)"

definition target_owners :: "retrieval_index list \<Rightarrow> (uuid \<times> uuid) list" where
  "target_owners ts = fold (\<lambda>t acc. row_put fst (ri_document t, ri_user t) acc) ts []"

definition validate_targets :: "index_settings \<Rightarrow> retrieval_index list \<Rightarrow> db \<Rightarrow> unit result" where
  "validate_targets s ts d =
     (let owners = target_owners ts in
      if length owners \<noteq> length ts then Inl scope_gone
      else and_then (freeze_indexes s owners d) (\<lambda>frozen.
        raise_if (frozen \<noteq> sort_key ri_document ts) scope_gone))"

definition bound_index :: "index_settings \<Rightarrow> document \<Rightarrow> bool \<Rightarrow> db \<Rightarrow> doc_index result" where
  "bound_index s doc allow_bound_model d =
     and_then (require_row (get_index (d_id doc) d) (AppError ''DOCUMENT_INDEX_NOT_ADOPTED'' 409)) (\<lambda>row.
     and_then (raise_if (ix_source row \<noteq> d_content_hash doc \<or> ix_fingerprint row \<noteq> d_fingerprint doc \<or>
         ix_model row \<noteq> d_embedding_model doc) (AppError ''DOCUMENT_INDEX_CHANGED'' 409)) (\<lambda>_.
     and_then (raise_if (ix_connection row \<noteq> index_connection_identity s \<or> ix_database row \<noteq> is_database s \<or>
         \<not> allow_bound_model \<and> (ix_model row \<noteq> is_model s \<or> ix_dimension row \<noteq> is_dimension s))
         (AppError ''DOCUMENT_INDEX_UNAVAILABLE'' 409)) (\<lambda>_. Inr row)))"

definition document_provider :: "document \<Rightarrow> string" where
  "document_provider doc = (case dict_get (d_metadata doc) ''provider'' of Some (JStr p) \<Rightarrow> p | _ \<Rightarrow> ''local'')"

definition immutable_index :: "index_state \<Rightarrow> bool" where
  "immutable_index st = (st = IxPublished \<or> st = IxSuperseded \<or> st = IxRetiring \<or> st = IxCleaned)"

definition assert_build :: "index_settings \<Rightarrow> document \<Rightarrow> db \<Rightarrow> db result" where
  "assert_build s doc d =
     and_then (bound_index s doc False d) (\<lambda>row.
     and_then (raise_if (ix_fingerprint row \<noteq> build_fingerprint s (d_file_type doc) (document_provider doc) \<or>
         ix_collection row \<noteq> is_collection s) (AppError ''INDEX_BUILD_CONFIGURATION_CHANGED'' 409)) (\<lambda>_.
     and_then (raise_if (immutable_index (ix_state row)) (AppError ''DOCUMENT_INDEX_IMMUTABLE'' 409)) (\<lambda>_.
       Inr (put_index (row\<lparr>ix_state := IxBuilding\<rparr>) d))))"

text \<open>Reading a document's chunks back: collection, model, dimension, owner, document and their number.\<close>

type_synonym chunk_reader = "string \<Rightarrow> string \<Rightarrow> int \<Rightarrow> uuid \<Rightarrow> uuid \<Rightarrow> int \<Rightarrow> chunk list result"

definition verify_index :: "index_settings \<Rightarrow> chunk_reader \<Rightarrow> document \<Rightarrow> chunk list \<Rightarrow> string result" where
  "verify_index s rd doc chunks =
     and_then (leaf_fingerprint s chunks (d_user doc) (d_id doc)) (\<lambda>expected.
     and_then (rd (is_collection s) (is_model s) (is_dimension s) (d_user doc) (d_id doc) (int (length chunks))) (\<lambda>leaves.
     and_then (leaf_fingerprint s leaves (d_user doc) (d_id doc)) (\<lambda>got.
     and_then (raise_if (got \<noteq> expected) (AppError ''INDEX_VERIFICATION_FAILED'' 409)) (\<lambda>_. Inr expected))))"

definition is_current_version :: "document \<Rightarrow> db \<Rightarrow> bool" where
  "is_current_version doc d = (case get_version (d_id doc) d of
     None \<Rightarrow> False
   | Some v \<Rightarrow> (case row_get s_id (v_series v) (series_rows d) of
       None \<Rightarrow> False | Some s \<Rightarrow> s_current s = Some (d_id doc)))"

definition index_verified :: "index_settings \<Rightarrow> document \<Rightarrow> int \<Rightarrow> string option \<Rightarrow> time \<Rightarrow> db \<Rightarrow> db result" where
  "index_verified s doc n leaf_sha now d =
     and_then (bound_index s doc False d) (\<lambda>row.
       Inr (put_index (row\<lparr>ix_leaf_count := n, ix_leaf_sha := leaf_sha, ix_verified_at := Some now,
         ix_state := (if is_current_version doc d then IxPublished else IxVerified)\<rparr>) d))"

definition verify_for_publish :: "index_settings \<Rightarrow> chunk_reader \<Rightarrow> document \<Rightarrow> db \<Rightarrow> doc_index result" where
  "verify_for_publish s rd doc d =
     and_then (bound_index s doc True d) (\<lambda>row.
     and_then (raise_if (\<not> (ix_state row = IxVerified \<or> ix_state row = IxPublished \<or> ix_state row = IxSuperseded) \<or>
         ix_verified_at row = None \<or> (case ix_leaf_sha row of None \<Rightarrow> True | Some x \<Rightarrow> x = []) \<or>
         ix_leaf_count row \<noteq> d_chunk_count doc) (AppError ''DOCUMENT_INDEX_NOT_VERIFIED'' 409)) (\<lambda>_.
     and_then (rd (ix_collection row) (ix_model row) (ix_dimension row) (d_user doc) (d_id doc) (ix_leaf_count row)) (\<lambda>leaves.
     and_then (leaf_fingerprint s leaves (d_user doc) (d_id doc)) (\<lambda>got.
     and_then (raise_if (Some got \<noteq> ix_leaf_sha row) (AppError ''INDEX_VERIFICATION_FAILED'' 409)) (\<lambda>_. Inr row)))))"

section \<open>What a frozen scope promises\<close>

text \<open>A target points to a ready document of its owner and to the index it was frozen from.\<close>

definition target_backed :: "index_settings \<Rightarrow> db \<Rightarrow> retrieval_index \<Rightarrow> bool" where
  "target_backed s d t \<longleftrightarrow> retrieval_index_ok t \<and>
     (\<exists>doc\<in>set (documents d). d_id doc = ri_document t \<and> d_user doc = ri_user t \<and> d_status doc = DocReady \<and>
        d_content_hash doc = ri_source t \<and> d_fingerprint doc = ri_fingerprint t \<and> d_embedding_model doc = ri_model t \<and>
        d_chunk_count doc = ri_leaf_count t \<and>
        (\<exists>row. get_index (ri_document t) d = Some row \<and> ix_state row \<in> {IxPublished, IxSuperseded} \<and> ix_verified_at row \<noteq> None \<and>
           ix_collection row = ri_collection t \<and> ix_database row = ri_database t \<and> ix_model row = ri_model t \<and>
           ix_dimension row = ri_dimension t \<and> ix_connection row = ri_connection t \<and> ix_fingerprint row = ri_fingerprint t \<and>
           ix_source row = ri_source t \<and> ix_leaf_sha row = ri_leaf_sha t \<and> ix_leaf_count row = ri_leaf_count t)) \<and>
     ri_database t = is_database s \<and> ri_connection t = index_connection_identity s"

lemma freeze_documents_backed:
  assumes "freeze_documents s owners d docs = Inr ts" "set docs \<subseteq> set (documents d)"
  shows "map ri_document ts = map d_id docs \<and>
    (\<forall>t\<in>set ts. target_backed s d t \<and> map_of owners (ri_document t) = Some (ri_user t))"
  using assms
proof (induction docs arbitrary: ts)
  case (Cons doc docs)
  then obtain row us where row: "get_index (d_id doc) d = Some row" and ok: "index_current s (map_of owners (d_id doc)) doc row"
    "retrieval_index_ok (target_of doc row)" and us: "freeze_documents s owners d docs = Inr us" "ts = target_of doc row # us"
    by (auto simp: result_simps split: option.splits)
  have id: "ix_document row = d_id doc" using row by (rule row_get_Some_key)
  have "map_of owners (d_id doc) = Some (d_user doc)" using ok(1) by (simp add: index_current_def)
  moreover have "target_backed s d (target_of doc row)"
    unfolding target_backed_def
    by (intro conjI bexI [of _ doc] exI [of _ row]) (use Cons.prems(2) row ok id in \<open>auto simp: target_of_def index_current_def\<close>)
  ultimately show ?case using Cons.IH [OF us(1)] Cons.prems(2) us(2) id by (simp add: target_of_def)
qed simp

lemma freeze_indexes_backed:
  assumes "freeze_indexes s owners d = Inr ts"
  shows "sorted (map ri_document ts) \<and> (\<forall>t\<in>set ts. target_backed s d t \<and> map_of owners (ri_document t) = Some (ri_user t))"
proof (cases "owners = []")
  case False
  let ?docs = "sort_key d_id (filter (\<lambda>x. d_id x \<in> fst ` set owners) (documents d))"
  have f: "freeze_documents s owners d ?docs = Inr ts"
    using assms False by (simp add: freeze_indexes_def Let_def split: if_splits)
  have "set ?docs \<subseteq> set (documents d)" by auto
  from freeze_documents_backed [OF f this] show ?thesis by simp
qed (use assms in \<open>simp add: freeze_indexes_def\<close>)

lemma target_owners_keys:
  "distinct (map fst (target_owners ts)) \<and> fst ` set (target_owners ts) = ri_document ` set ts"
proof -
  have "distinct (map fst (fold (\<lambda>t acc. row_put fst (ri_document t, ri_user t) acc) ts acc)) \<and>
      fst ` set (fold (\<lambda>t acc. row_put fst (ri_document t, ri_user t) acc) ts acc) = fst ` set acc \<union> ri_document ` set ts"
    if "distinct (map fst acc)" for acc
    using that
  proof (induction ts arbitrary: acc)
    case (Cons t ts)
    let ?acc = "row_put fst (ri_document t, ri_user t) acc"
    have "distinct (map fst ?acc)" using Cons.prems by (rule distinct_row_put)
    moreover have "fst ` set ?acc = insert (ri_document t) (fst ` set acc)"
      using arg_cong [OF map_key_row_put [of fst "(ri_document t, ri_user t)" acc], of set]
      by (force simp: image_iff split: if_splits)
    ultimately show ?case using Cons.IH [of ?acc] by auto
  qed simp
  from this [of "[]"] show ?thesis by (simp add: target_owners_def)
qed

lemma target_owners_length: "length (target_owners ts) = length ts \<longleftrightarrow> distinct (map ri_document ts)"
proof -
  have "length (target_owners ts) = card (fst ` set (target_owners ts))"
    using target_owners_keys [of ts] distinct_card [of "map fst (target_owners ts)"] by simp
  also have "\<dots> = card (set (map ri_document ts))" using target_owners_keys [of ts] by simp
  finally show ?thesis using card_distinct [of "map ri_document ts"] distinct_card [of "map ri_document ts"] by auto
qed

lemma target_owners_distinct:
  assumes "distinct (map ri_document ts)"
  shows "target_owners ts = map (\<lambda>t. (ri_document t, ri_user t)) ts"
proof -
  have "fold (\<lambda>t acc. row_put fst (ri_document t, ri_user t) acc) ts acc = acc @ map (\<lambda>t. (ri_document t, ri_user t)) ts"
    if "distinct (map fst acc @ map ri_document ts)" for acc
    using that
  proof (induction ts arbitrary: acc)
    case (Cons t ts)
    have "row_get fst (ri_document t) acc = None" using Cons.prems by (force simp: row_get_None)
    then have "row_put fst (ri_document t, ri_user t) acc = acc @ [(ri_document t, ri_user t)]"
      using row_put_new [of fst "(ri_document t, ri_user t)" acc] by simp
    then show ?case using Cons.IH [of "acc @ [(ri_document t, ri_user t)]"] Cons.prems by simp
  qed simp
  from this [of "[]"] show ?thesis using assms by (simp add: target_owners_def)
qed

text \<open>
  C18: accepted targets are backed. When \<open>validate_targets\<close> accepts the frozen indexes of a run, no document appears twice, and
  every target names a document that is ready, belongs to the owner the target names and has the source, build, model and
  number of leaves of the target, and the index of that document is verified, is published or superseded by a later version,
  and agrees with the target in every field; the database and the connection are the configured ones.
\<close>

theorem validated_targets_backed:
  assumes "validate_targets s ts d = Inr ()"
  shows "distinct (map ri_document ts) \<and> (\<forall>t\<in>set ts. target_backed s d t)"
proof -
  from assms have len: "length (target_owners ts) = length ts"
    and f: "freeze_indexes s (target_owners ts) d = Inr (sort_key ri_document ts)"
    by (auto simp: validate_targets_def Let_def result_simps split: if_splits)
  show ?thesis using freeze_indexes_backed [OF f] len target_owners_length by simp
qed

lemma freeze_documents_owners:
  assumes "freeze_documents s owners d docs = Inr ts"
    and "\<And>doc. doc \<in> set docs \<Longrightarrow> map_of owners' (d_id doc) = map_of owners (d_id doc)"
  shows "freeze_documents s owners' d docs = Inr ts"
  using assms by (induction docs arbitrary: ts) (auto simp: result_simps split: option.splits)

text \<open>
  What is frozen validates. The indexes frozen for a set of documents and owners are
  accepted by \<open>validate_targets\<close> in the same state, with one target for each requested
  document, in the order of their ids.
\<close>

lemma frozen_indexes_validate:
  assumes "freeze_indexes s owners d = Inr ts" and "distinct (map fst owners)" and "distinct (map d_id (documents d))"
  shows "validate_targets s ts d = Inr () \<and> set (map ri_document ts) = fst ` set owners \<and> sorted (map ri_document ts)"
proof (cases "owners = []")
  case True
  then have "ts = []" using assms(1) by (simp add: freeze_indexes_def)
  then show ?thesis using True by (simp add: validate_targets_def target_owners_def freeze_indexes_def)
next
  case False
  let ?docs = "sort_key d_id (filter (\<lambda>x. d_id x \<in> fst ` set owners) (documents d))"
  have len: "length ?docs = length owners" and f: "freeze_documents s owners d ?docs = Inr ts"
    using assms(1) False by (simp_all add: freeze_indexes_def Let_def split: if_splits)
  have ids: "map ri_document ts = map d_id ?docs"
    and own: "\<forall>t\<in>set ts. map_of owners (ri_document t) = Some (ri_user t)"
    using freeze_documents_backed [OF f] by auto
  have "distinct (map d_id (filter (\<lambda>x. d_id x \<in> fst ` set owners) (documents d)))"
    using assms(3) by (rule distinct_map_filter)
  then have dist: "distinct (map ri_document ts)" unfolding ids by (simp add: distinct_map)
  have sorted: "sorted (map ri_document ts)" unfolding ids by simp
  have sub: "set (map ri_document ts) \<subseteq> fst ` set owners" unfolding ids by auto
  have "card (set (map ri_document ts)) = length owners"
    using distinct_card [OF dist] ids len by (metis length_map)
  moreover have "card (fst ` set owners) = length owners" using distinct_card [OF assms(2)] by simp
  ultimately have ids_set: "set (map ri_document ts) = fst ` set owners"
    using sub by (intro card_subset_eq) simp_all
  let ?own = "target_owners ts"
  have eq: "?own = map (\<lambda>t. (ri_document t, ri_user t)) ts" by (rule target_owners_distinct [OF dist])
  have keys: "fst ` set ?own = fst ` set owners" using ids_set target_owners_keys [of ts] by simp
  have look: "map_of ?own (d_id doc) = map_of owners (d_id doc)" if "doc \<in> set ?docs" for doc
  proof -
    have "d_id doc \<in> set (map ri_document ts)" unfolding ids using that by force
    then obtain t where t: "t \<in> set ts" "ri_document t = d_id doc" by auto
    have "map_of ?own (ri_document t) = Some (ri_user t)"
      using t(1) target_owners_keys [of ts] by (intro map_of_is_SomeI) (auto simp: eq)
    then show ?thesis using own t by auto
  qed
  have "freeze_documents s ?own d ?docs = Inr ts" by (rule freeze_documents_owners [OF f look])
  moreover have "?own \<noteq> []" using keys False by auto
  moreover have "length ?own = length ts" "length ts = length ?docs"
    using eq ids by (simp, metis length_map)
  ultimately have "freeze_indexes s ?own d = Inr ts" using keys by (simp add: freeze_indexes_def)
  moreover have "sort_key ri_document ts = ts" by (rule sort_key_id_if_sorted [OF sorted])
  ultimately show ?thesis using ids_set sorted \<open>length ?own = length ts\<close> by (simp add: validate_targets_def Let_def)
qed

text \<open>A published document and its index.\<close>

definition demo_index_settings :: index_settings where
  "demo_index_settings = \<lparr>is_sha256 = (\<lambda>_. replicate 64 CHR ''a''), is_uri = ''u'', is_database = ''d'',
     is_collection = ''c'', is_model = ''m'', is_dimension = 64, is_base_url = ''b'', is_mineru_model = ''v'',
     is_chunk_size = 500, is_chunk_overlap = 50, is_hierarchy = False\<rparr>"

definition demo_document :: document where
  "demo_document = \<lparr>d_id = 20, d_user = 1, d_name = ''n'', d_org = None, d_file_type = ''.txt'', d_file_path = ''p'',
     d_content_hash = replicate 64 CHR ''a'', d_fingerprint = replicate 64 CHR ''a'', d_size = Some 1,
     d_status = DocReady, d_chunk_count = 1, d_embedding_model = ''m'', d_error = None, d_metadata = [], d_created = 0\<rparr>"

definition demo_index :: doc_index where
  "demo_index = (reserved_index demo_index_settings demo_document)\<lparr>ix_leaf_sha := Some (replicate 64 CHR ''a''),
     ix_leaf_count := 1, ix_state := IxPublished, ix_verified_at := Some 5\<rparr>"

definition demo_published_db :: db where
  "demo_published_db = empty_db\<lparr>documents := [demo_document], doc_indexes := [demo_index]\<rparr>"

lemma demo_index_freeze:
  "freeze_indexes demo_index_settings [(20, 1)] demo_published_db = Inr [target_of demo_document demo_index]"
proof -
  have "retrieval_index_ok (target_of demo_document demo_index)"
    using hex64_demo
    by (simp add: retrieval_index_ok_def target_of_def demo_index_def reserved_index_def demo_document_def
        demo_index_settings_def target_name_ok_def embedding_name_ok_def lower_char_def index_connection_identity_def
        fingerprint_def)
  moreover have "index_current demo_index_settings (Some 1) demo_document demo_index"
    by (simp add: index_current_def demo_document_def demo_index_def reserved_index_def demo_index_settings_def
        index_connection_identity_def fingerprint_def)
  ultimately show ?thesis
    by (simp add: freeze_indexes_def demo_published_db_def demo_document_def [THEN arg_cong, of d_id]
        demo_index_def [THEN arg_cong, of ix_document] reserved_index_def)
qed

theorem frozen_indexes_validate_witness:
  "validate_targets demo_index_settings [target_of demo_document demo_index] demo_published_db = Inr ()"
  using frozen_indexes_validate [OF demo_index_freeze] by (simp add: demo_published_db_def)

lemma demo_targets_validate:
  "validate_targets demo_index_settings [target_of demo_document demo_index] demo_published_db = Inr ()"
  using demo_index_freeze
  by (simp add: validate_targets_def target_owners_def target_of_def demo_index_def reserved_index_def demo_document_def row_put_def)

theorem validated_targets_backed_witness:
  "target_backed demo_index_settings demo_published_db (target_of demo_document demo_index)"
  using validated_targets_backed [OF demo_targets_validate] by simp

end
