(* ===== verification/Effects.thy ===== *)
theory Effects
  imports Tables
begin

text \<open>
  Actions that interleave database transactions with calls of outside services, as the workers
  run them (\<open>process\<close> in \<open>app/service/ingestion.py\<close>, \<open>process_retirement\<close> in
  \<open>app/service/document_tasks.py\<close>, \<open>run_once\<close> in \<open>app/worker.py\<close>). A state is the committed
  database (of type \<open>'s\<close>, mostly \<open>db\<close>) and the world outside it; an exception keeps what was committed before it.
\<close>

type_synonym ('s, 'w, 'a) action = "'s \<times> 'w \<Rightarrow> 'a result \<times> 's \<times> 'w"
type_synonym ('w, 'a) act = "(db, 'w, 'a) action"

named_theorems act_simps \<open>execution of actions\<close>

definition ret :: "'a \<Rightarrow> ('s, 'w, 'a) action" where
  "ret a s = (Inr a, s)"

definition raising :: "exn \<Rightarrow> ('s, 'w, 'a) action" where
  "raising x s = (Inl x, s)"

definition bind_act :: "('s, 'w, 'a) action \<Rightarrow> ('a \<Rightarrow> ('s, 'w, 'b) action) \<Rightarrow> ('s, 'w, 'b) action" where
  "bind_act m f s = (case m s of (Inl x, s') \<Rightarrow> (Inl x, s') | (Inr a, s') \<Rightarrow> f a s')"

definition except_act :: "('s, 'w, 'a) action \<Rightarrow> (exn \<Rightarrow> ('s, 'w, 'a) action) \<Rightarrow> ('s, 'w, 'a) action" where
  "except_act m h s = (case m s of (Inl x, s') \<Rightarrow> h x s' | (Inr a, s') \<Rightarrow> (Inr a, s'))"

text \<open>A pure check between two actions, and a call that only reads.\<close>

definition lift_result :: "'a result \<Rightarrow> ('s, 'w, 'a) action" where
  "lift_result r s = (r, s)"

definition read_db :: "('s \<Rightarrow> 'a result) \<Rightarrow> ('s, 'w, 'a) action" where
  "read_db q s = (q (fst s), s)"

text \<open>
  What every worker is given: the guard that checks its lease, a draw of clock readings and
  fresh identifiers for one transaction, and the lock of a document. The guard reads the
  committed database.
\<close>

record 'w worker_world =
  ww_guard :: "db \<times> 'w \<Rightarrow> unit result \<times> 'w"
  ww_draw :: "'w \<Rightarrow> (clock \<times> (nat \<Rightarrow> uuid)) \<times> 'w"
  ww_lock :: "uuid \<Rightarrow> 'w \<Rightarrow> unit result \<times> 'w"
  ww_unlock :: "uuid \<Rightarrow> 'w \<Rightarrow> 'w"

definition run_guard :: "('w, 'z) worker_world_scheme \<Rightarrow> ('w, unit) act" where
  "run_guard ww s = (case ww_guard ww s of (r, w) \<Rightarrow> (r, fst s, w))"

text \<open>
  A transaction of a worker: it is left without a commit (\<open>Leave\<close>), or its last step before
  the commit is the guard (\<open>Commit\<close>). An error of the body or of the guard rolls back.
\<close>

datatype 'a step = Leave 'a | Commit 'a db

type_synonym 'a step_body = "clock \<Rightarrow> (nat \<Rightarrow> uuid) \<Rightarrow> db \<Rightarrow> 'a step result"

definition guarded :: "('w, 'z) worker_world_scheme \<Rightarrow> 'a step_body \<Rightarrow> ('w, 'a) act" where
  "guarded ww body s = (case ww_draw ww (snd s) of ((clk, ids), w) \<Rightarrow>
     (case body clk ids (fst s) of
        Inl x \<Rightarrow> (Inl x, fst s, w)
      | Inr (Leave a) \<Rightarrow> (Inr a, fst s, w)
      | Inr (Commit a d') \<Rightarrow>
          (case ww_guard ww (fst s, w) of
             (Inl x, w') \<Rightarrow> (Inl x, fst s, w')
           | (Inr _, w') \<Rightarrow> (Inr a, d', w'))))"

text \<open>A transaction that ends with its own commit.\<close>

definition db_act :: "('w, 'z) worker_world_scheme \<Rightarrow> (clock \<Rightarrow> (nat \<Rightarrow> uuid) \<Rightarrow> db \<Rightarrow> 'a result \<times> db) \<Rightarrow> ('w, 'a) act" where
  "db_act ww body s = (case ww_draw ww (snd s) of ((clk, ids), w) \<Rightarrow>
     (case body clk ids (fst s) of (r, d') \<Rightarrow> (r, d', w)))"

text \<open>The same for a worker that is given nothing but clock readings and fresh identifiers.\<close>

definition transact ::
    "('w \<Rightarrow> (clock \<times> (nat \<Rightarrow> uuid)) \<times> 'w) \<Rightarrow> (clock \<Rightarrow> (nat \<Rightarrow> uuid) \<Rightarrow> 's \<Rightarrow> ('s, 'a) outcome) \<Rightarrow> ('s, 'w, 'a) action" where
  "transact draw body s = (case draw (snd s) of ((clk, ids), w) \<Rightarrow> (case body clk ids (fst s) of (r, d') \<Rightarrow> (r, d', w)))"

definition read_clock :: "('w \<Rightarrow> (clock \<times> (nat \<Rightarrow> uuid)) \<times> 'w) \<Rightarrow> ('s, 'w, time) action" where
  "read_clock draw s = (case draw (snd s) of ((clk, ids), w) \<Rightarrow> (Inr (clk 0), fst s, w))"

text \<open>\<open>with exclusive(document_id)\<close>: the lock is released however the block ends.\<close>

definition exclusive :: "('w, 'z) worker_world_scheme \<Rightarrow> uuid \<Rightarrow> ('w, 'a) act \<Rightarrow> ('w, 'a) act" where
  "exclusive ww did m s = (case ww_lock ww did (snd s) of
     (Inl x, w) \<Rightarrow> (Inl x, fst s, w)
   | (Inr _, w) \<Rightarrow> (case m (fst s, w) of (r, d', w') \<Rightarrow> (r, d', ww_unlock ww did w')))"

section \<open>Execution\<close>

lemma act_eqs [act_simps]:
  "ret a s = (r, s') \<longleftrightarrow> r = Inr a \<and> s' = s"
  "raising x s = (r, s') \<longleftrightarrow> r = Inl x \<and> s' = s"
  "lift_result v s = (r, s') \<longleftrightarrow> r = v \<and> s' = s"
  "read_db q s = (r, s') \<longleftrightarrow> r = q (fst s) \<and> s' = s"
  by (auto simp: ret_def raising_def lift_result_def read_db_def)

lemma bind_act_Inr [act_simps]:
  "bind_act m f s = (Inr b, t) \<longleftrightarrow> (\<exists>a s'. m s = (Inr a, s') \<and> f a s' = (Inr b, t))"
  by (auto simp: bind_act_def split: prod.splits sum.splits)

lemma bind_act_Inl [act_simps]:
  "bind_act m f s = (Inl x, t) \<longleftrightarrow> m s = (Inl x, t) \<or> (\<exists>a s'. m s = (Inr a, s') \<and> f a s' = (Inl x, t))"
  by (auto simp: bind_act_def split: prod.splits sum.splits)

lemma except_act_eq [act_simps]:
  "except_act m h s = (r, t) \<longleftrightarrow>
     (\<exists>a. r = Inr a \<and> m s = (Inr a, t)) \<or> (\<exists>x s'. m s = (Inl x, s') \<and> h x s' = (r, t))"
  by (auto simp: except_act_def split: prod.splits sum.splits)

text \<open>A relation between the databases before and after that every part of an action keeps.\<close>

definition act_keeps :: "('s \<Rightarrow> 's \<Rightarrow> bool) \<Rightarrow> ('s, 'w, 'a) action \<Rightarrow> bool" where
  "act_keeps R m \<longleftrightarrow> (\<forall>s. R (fst s) (fst (snd (m s))))"

lemma act_keepsD: "act_keeps R m \<Longrightarrow> m s = (r, t) \<Longrightarrow> R (fst s) (fst t)"
  by (metis act_keeps_def snd_conv)

lemma act_keeps_at: "act_keeps R m \<Longrightarrow> R (fst s) (fst (snd (m s)))"
  unfolding act_keeps_def by blast

lemma act_keeps_bind [intro]:
  assumes "transp R" "act_keeps R m" "\<And>a. act_keeps R (f a)"
  shows "act_keeps R (bind_act m f)"
  unfolding act_keeps_def
proof
  fix s
  obtain r t where m: "m s = (r, t)" by (cases "m s")
  have R: "R (fst s) (fst t)" by (rule act_keepsD [OF assms(2) m])
  show "R (fst s) (fst (snd (bind_act m f s)))"
  proof (cases r)
    case (Inr a)
    have "R (fst t) (fst (snd (f a t)))" using assms(3) by (rule act_keeps_at)
    then show ?thesis using R assms(1) by (auto simp: bind_act_def m Inr dest: transpD)
  qed (use R m in \<open>simp add: bind_act_def\<close>)
qed

lemma act_keeps_except [intro]:
  assumes "transp R" "act_keeps R m" "\<And>x. act_keeps R (h x)"
  shows "act_keeps R (except_act m h)"
  unfolding act_keeps_def
proof
  fix s
  obtain r t where m: "m s = (r, t)" by (cases "m s")
  have R: "R (fst s) (fst t)" by (rule act_keepsD [OF assms(2) m])
  show "R (fst s) (fst (snd (except_act m h s)))"
  proof (cases r)
    case (Inl x)
    have "R (fst t) (fst (snd (h x t)))" using assms(3) by (rule act_keeps_at)
    then show ?thesis using R assms(1) by (auto simp: except_act_def m Inl dest: transpD)
  qed (use R m in \<open>simp add: except_act_def\<close>)
qed

lemma act_keeps_value [intro]:
  assumes "reflp R"
  shows "act_keeps R (ret a)" "act_keeps R (raising x)" "act_keeps R (lift_result v)" "act_keeps R (read_db q)"
  using reflpD [OF assms]
  by (auto simp: act_keeps_def ret_def raising_def lift_result_def read_db_def)

lemma act_keeps_run_guard [intro]: "reflp R \<Longrightarrow> act_keeps R (run_guard ww)"
  by (auto simp: act_keeps_def run_guard_def reflpD split: prod.splits)

lemmas act_keeps_pure = act_keeps_value act_keeps_run_guard

lemma act_keeps_guarded [intro]:
  assumes "reflp R" "\<And>clk ids d a d'. body clk ids d = Inr (Commit a d') \<Longrightarrow> R d d'"
  shows "act_keeps R (guarded ww body)"
  using reflpD [OF assms(1)] assms(2)
  by (auto simp: act_keeps_def guarded_def split: prod.splits sum.splits step.splits)

lemma act_keeps_transact [intro]:
  assumes "\<And>clk ids d r d'. body clk ids d = (r, d') \<Longrightarrow> R d d'"
  shows "act_keeps R (transact draw body)"
  using assms by (auto simp: act_keeps_def transact_def split: prod.splits)

lemma act_keeps_read_clock [intro]: "reflp R \<Longrightarrow> act_keeps R (read_clock draw)"
  by (auto simp: act_keeps_def read_clock_def reflpD split: prod.splits)

lemma guarded_Inr:
  assumes "guarded ww body s = (Inr a, t)"
  shows "\<exists>clk ids. body clk ids (fst s) = Inr (Leave a) \<and> fst t = fst s \<or> body clk ids (fst s) = Inr (Commit a (fst t))"
proof -
  obtain clk ids w where d: "ww_draw ww (snd s) = ((clk, ids), w)" by (metis prod.exhaust)
  show ?thesis
    using assms d by (intro exI [of _ clk] exI [of _ ids]) (auto simp: guarded_def split: prod.splits sum.splits step.splits)
qed

lemma guarded_Inl: "guarded ww body s = (Inl x, t) \<Longrightarrow> fst t = fst s"
  by (auto simp: guarded_def split: prod.splits sum.splits step.splits)

end
