(* ===== verification/DocumentTasks.thy ===== *)
theory DocumentTasks
  imports Jobs Publication Effects
begin

text \<open>
  The task history of a user and the retirement of documents
  (\<open>app/service/document_tasks.py\<close>, its queries and filters): a document or a whole version
  series is first retired logically, in one transaction, and its index and files are cleaned
  by a worker afterwards, when no run pins them any more.
\<close>

record docs_env =
  de_jobs :: job_env
  de_index :: index_settings
  de_queue :: bool
  de_publication :: bool
  de_versions :: bool
  de_workspaces :: bool

section \<open>Reading the history\<close>

definition cleanup_identity :: "doc_index \<Rightarrow> json" where
  "cleanup_identity ix = JObj [(''collection_name'', JStr (ix_collection ix)), (''database_name'', JStr (ix_database ix)),
     (''embedding_model'', JStr (ix_model ix)), (''embedding_dimension'', JInt (ix_dimension ix)),
     (''connection_sha256'', JStr (ix_connection ix)), (''build_fingerprint'', JStr (ix_fingerprint ix)),
     (''source_sha256'', JStr (ix_source ix)), (''leaf_sha256'', opt_str (ix_leaf_sha ix)),
     (''leaf_count'', JInt (ix_leaf_count ix))]"

definition tasks_enabled :: "docs_env \<Rightarrow> unit result" where
  "tasks_enabled e = raise_if (\<not> de_queue e) (AppError ''DOCUMENT_TASKS_DISABLED'' 503)"

definition require_workspace :: "docs_env \<Rightarrow> uuid \<Rightarrow> uuid option \<Rightarrow> db \<Rightarrow> unit result" where
  "require_workspace e uid org d = (case org of
     None \<Rightarrow> Inr ()
   | Some oid \<Rightarrow>
       and_then (raise_if (\<not> de_workspaces e) (AppError ''WORKSPACES_DISABLED'' 503)) (\<lambda>_.
       and_then (workspace_member uid oid d) (\<lambda>_. Inr ())))"

definition workspace_document :: "docs_env \<Rightarrow> uuid \<Rightarrow> uuid \<Rightarrow> uuid option \<Rightarrow> db \<Rightarrow> document result" where
  "workspace_document e uid did org d =
     and_then (require_workspace e uid org d) (\<lambda>_.
     and_then (document_of uid did d) (\<lambda>doc.
     and_then (raise_if (d_org doc \<noteq> org) not_found) (\<lambda>_. Inr doc)))"

definition task_of :: "uuid \<Rightarrow> uuid \<Rightarrow> db \<Rightarrow> doc_task result" where
  "task_of uid tid d = require_row (find (\<lambda>t. t_id t = tid \<and> t_user t = uid) (doc_tasks d)) not_found"

definition scoped_task :: "docs_env \<Rightarrow> uuid \<Rightarrow> uuid \<Rightarrow> uuid option \<Rightarrow> db \<Rightarrow> doc_task result" where
  "scoped_task e uid tid org d =
     and_then (require_workspace e uid org d) (\<lambda>_.
     and_then (task_of uid tid d) (\<lambda>t.
     and_then (raise_if (t_org t \<noteq> org) not_found) (\<lambda>_. Inr t)))"

definition can_retry :: "docs_env \<Rightarrow> db \<Rightarrow> doc_task \<Rightarrow> bool" where
  "can_retry e d t = (case t_document t of
     None \<Rightarrow> False
   | Some did \<Rightarrow>
       (case (get_job_row did d, get_document did d) of
          (Some j, Some doc) \<Rightarrow>
            let indexed = (get_index did d \<noteq> None) in
            j_task j = Some (t_id t) \<and> (t_state t = TFailed \<or> t_state t = TCancelled) \<and>
            (t_kind t = KIngest \<and> (d_status doc = DocFailed \<or> d_status doc = DocProcessing) \<and> (\<not> de_publication e \<or> indexed) \<or>
             t_kind t = KHierarchy \<and> d_status doc = DocReady \<and> \<not> indexed \<or>
             t_kind t = KDelete \<and> d_status doc = DocDeleting)
        | _ \<Rightarrow> False))"

record task_query =
  tq_user :: uuid
  tq_org :: "uuid option"
  tq_offset :: nat
  tq_limit :: nat
  tq_parent :: "uuid option"
  tq_state :: "task_state option"
  tq_kind :: "task_kind option"
  tq_search :: string

text \<open>\<open>ILIKE\<close> with an escaped pattern: the search text occurs in the name, ASCII case ignored.\<close>

definition ilike_contains :: "string \<Rightarrow> string \<Rightarrow> bool" where
  "ilike_contains needle s = substring (map upper needle) (map upper s)"

definition task_matches :: "task_query \<Rightarrow> doc_task \<Rightarrow> bool" where
  "task_matches q t = (t_user t = tq_user q \<and> t_org t = tq_org q \<and>
     (tq_parent q = None \<or> t_parent t = tq_parent q) \<and> (tq_state q = None \<or> tq_state q = Some (t_state t)) \<and>
     (tq_kind q = None \<or> tq_kind q = Some (t_kind t)) \<and> (tq_search q = [] \<or> ilike_contains (tq_search q) (t_name t)))"

definition page_tasks :: "task_query \<Rightarrow> db \<Rightarrow> nat \<times> doc_task list" where
  "page_tasks q d =
     (let rows = filter (task_matches q) (doc_tasks d) in
      (length rows, take (tq_limit q) (drop (tq_offset q) (sort_key (\<lambda>t. - t_created t) (sort_key t_id rows)))))"

definition list_tasks :: "docs_env \<Rightarrow> task_query \<Rightarrow> db \<Rightarrow> (nat \<times> (doc_task \<times> bool) list) result" where
  "list_tasks e q d =
     and_then (tasks_enabled e) (\<lambda>_.
     and_then (require_workspace e (tq_user q) (tq_org q) d) (\<lambda>_.
     and_then (case tq_parent q of
         None \<Rightarrow> Inr ()
       | Some pid \<Rightarrow> and_then (scoped_task e (tq_user q) pid (tq_org q) d) (\<lambda>p.
           raise_if (t_kind p \<noteq> KDeleteSeries) not_found)) (\<lambda>_.
       Inr (case page_tasks q d of (units, rows) \<Rightarrow> (units, map (\<lambda>t. (t, can_retry e d t)) rows)))))"

definition task_detail :: "docs_env \<Rightarrow> uuid \<Rightarrow> uuid \<Rightarrow> uuid option \<Rightarrow> db \<Rightarrow> (doc_task \<times> bool) result" where
  "task_detail e uid tid org d =
     and_then (tasks_enabled e) (\<lambda>_.
     and_then (scoped_task e uid tid org d) (\<lambda>t. Inr (t, can_retry e d t)))"

section \<open>Retiring one version\<close>

definition not_retryable :: exn where
  "not_retryable = AppError ''DOCUMENT_TASK_NOT_RETRYABLE'' 409"

definition retry_of :: "uuid \<Rightarrow> doc_task \<Rightarrow> bool" where
  "retry_of tid t = (dict_get (t_details t) ''retry_of'' = Some (JStr (uuid_str tid)))"

definition drop_bindings :: "uuid \<Rightarrow> db \<Rightarrow> db" where
  "drop_bindings did d = d\<lparr>kdocs := row_del (\<lambda>k. kd_document k = did) (kdocs d)\<rparr>"

definition set_phase :: "string \<Rightarrow> document \<Rightarrow> document" where
  "set_phase phase doc = doc\<lparr>d_metadata := dict_update (d_metadata doc) [(''phase'', JStr phase)]\<rparr>"

text \<open>The retirement itself: the version is unpublished, unbound, and its cleanup is queued.\<close>

definition retire_now ::
    "docs_env \<Rightarrow> uuid \<Rightarrow> uuid \<Rightarrow> document \<Rightarrow> uuid option \<Rightarrow> uuid option \<Rightarrow> clock \<Rightarrow> (db, doc_task) body" where
  "retire_now e tid uid doc expected parent clk d =
     and_then (require_row (get_index (d_id doc) d) (AppError ''DOCUMENT_INDEX_NOT_ADOPTED'' 409)) (\<lambda>ix.
     and_then (prepare_version_delete uid (d_id doc) d) (\<lambda>d1.
       let doc1 = doc\<lparr>d_status := DocDeleting, d_error := None\<rparr>;
           d2 = drop_bindings (d_id doc) (put_index (ix\<lparr>ix_state := IxRetiring\<rparr>) (put_document doc1 d1));
           details = [(''index'', cleanup_identity ix)] @
             (case expected of None \<Rightarrow> [] | Some x \<Rightarrow> [(''retry_of'', JStr (uuid_str x))])
       in and_then (enqueue (de_jobs e) tid doc1 True KDelete details parent clk d2) (\<lambda>(t, d3).
          and_then (require_row t (OtherError ''AttributeError'')) (\<lambda>task.
            committed task (put_document (set_phase ''retiring'' doc1) d3)))))"

definition retire_body ::
    "docs_env \<Rightarrow> uuid \<Rightarrow> uuid \<Rightarrow> uuid \<Rightarrow> bool \<Rightarrow> uuid option \<Rightarrow> uuid option \<Rightarrow> clock \<Rightarrow> (db, doc_task) body" where
  "retire_body e tid uid did retry_failed org expected clk d =
     and_then (workspace_document e uid did org d) (\<lambda>doc.
       case (case get_job_row did d of
               None \<Rightarrow> None | Some j \<Rightarrow> if j_kind j = KDelete then j_task j else None) of
         None \<Rightarrow> retire_now e tid uid doc expected None clk d
       | Some prior \<Rightarrow>
           and_then (task_of uid prior d) (\<lambda>t.
             if expected \<noteq> None \<and> expected \<noteq> Some (t_id t) then
               (if retry_of (the expected) t then committed t d else Inl not_retryable)
             else if d_status doc = DocRetired \<or> t_state t \<in> {TQueued, TRunning, TSucceeded} \<or> \<not> retry_failed
             then committed t d
             else retire_now e tid uid doc expected (t_parent t) clk d))"

definition retire ::
    "docs_env \<Rightarrow> uuid \<Rightarrow> uuid \<Rightarrow> uuid \<Rightarrow> bool \<Rightarrow> uuid option \<Rightarrow> uuid option \<Rightarrow> clock \<Rightarrow> db \<Rightarrow> (db, doc_task) outcome" where
  "retire e tid uid did retry_failed org expected clk =
     transaction (\<lambda>d.
       and_then (tasks_enabled e) (\<lambda>_.
       and_then (raise_if (\<not> de_publication e) (AppError ''DOCUMENT_PUBLICATION_DISABLED'' 503)) (\<lambda>_.
         retire_body e tid uid did retry_failed org expected clk d)))"

section \<open>Retiring a series\<close>

definition series_documents :: "uuid \<Rightarrow> db \<Rightarrow> document list" where
  "series_documents sid d =
     sort_key d_id (filter (\<lambda>x. \<exists>v\<in>set (versions d). v_document v = d_id x \<and> v_series v = sid) (documents d))"

fun bound_indexes :: "index_settings \<Rightarrow> db \<Rightarrow> document list \<Rightarrow> (document \<times> doc_index) list result" where
  "bound_indexes s d [] = Inr []"
| "bound_indexes s d (x # xs) =
     and_then (bound_index s x True d) (\<lambda>ix.
     and_then (bound_indexes s d xs) (\<lambda>rest. Inr ((x, ix) # rest)))"

text \<open>One version of the series: unpublished, unbound, and queued under the parent task.\<close>

definition retire_version ::
    "docs_env \<Rightarrow> uuid \<Rightarrow> uuid \<Rightarrow> document \<Rightarrow> doc_index \<Rightarrow> clock \<Rightarrow> db \<Rightarrow> db result" where
  "retire_version e pid tid doc ix clk d =
     (let doc1 = doc\<lparr>d_status := DocDeleting, d_error := None\<rparr>;
          d1 = drop_bindings (d_id doc) (put_index (ix\<lparr>ix_state := IxRetiring\<rparr>) (put_document doc1 d))
      in and_then (enqueue (de_jobs e) tid doc1 True KDelete [(''index'', cleanup_identity ix)] (Some pid) clk d1)
           (\<lambda>(_, d2). Inr (put_document (set_phase ''retiring'' doc1) d2)))"

fun retire_versions ::
    "docs_env \<Rightarrow> uuid \<Rightarrow> (nat \<Rightarrow> uuid) \<Rightarrow> (document \<times> doc_index) list \<Rightarrow> clock \<Rightarrow> nat \<Rightarrow> db \<Rightarrow> db result" where
  "retire_versions e pid ids [] clk i d = Inr d"
| "retire_versions e pid ids ((x, ix) # xs) clk i d =
     and_then (retire_version e pid (ids i) x ix (\<lambda>n. clk (4 * i + n)) d) (\<lambda>d'.
       retire_versions e pid ids xs clk (i + 1) d')"

definition series_task :: "uuid \<Rightarrow> document \<Rightarrow> uuid \<Rightarrow> uuid \<Rightarrow> uuid option \<Rightarrow> int \<Rightarrow> int \<Rightarrow> time \<Rightarrow> doc_task" where
  "series_task pid doc sid uid org units pending now =
     \<lparr>t_id = pid, t_document = Some (d_id doc), t_parent = None, t_user = uid, t_name = d_name doc, t_org = org,
      t_kind = KDeleteSeries, t_state = TQueued, t_phase = ''queued'', t_processed = 0, t_total = Some units,
      t_attempts = 0, t_max_attempts = 1, t_error = None,
      t_details = [(''series_id'', JStr (uuid_str sid)), (''already_retired'', JInt (units - pending))],
      t_created = now, t_updated = now\<rparr>"

definition retire_series_now ::
    "docs_env \<Rightarrow> uuid \<Rightarrow> (nat \<Rightarrow> uuid) \<Rightarrow> uuid \<Rightarrow> document \<Rightarrow> uuid option \<Rightarrow> doc_series \<Rightarrow> document list \<Rightarrow> clock
     \<Rightarrow> (db, doc_task) body" where
  "retire_series_now e pid ids uid doc org s docs clk d =
     (let pending = filter (\<lambda>x. d_status x \<noteq> DocRetired) docs in
      and_then (bound_indexes (de_index e) d pending) (\<lambda>indexed.
        let parent = series_task pid doc (s_id s) uid org (int (length docs)) (int (length pending)) (clk 0) in
        and_then (row_insert t_id parent (doc_tasks d)) (\<lambda>ts.
        and_then (retire_versions e pid ids indexed (\<lambda>n. clk (n + 2)) 0
            (put_series (s\<lparr>s_current := None, s_retirement := Some pid\<rparr>) (d\<lparr>doc_tasks := ts\<rparr>))) (\<lambda>d1.
        and_then (sync_parent (Some pid) (clk 1) d1) (\<lambda>d2.
        and_then (require_row (get_task_row pid d2) task_diverged) (\<lambda>p. committed p d2))))))"

definition retire_series ::
    "docs_env \<Rightarrow> uuid \<Rightarrow> (nat \<Rightarrow> uuid) \<Rightarrow> uuid \<Rightarrow> uuid \<Rightarrow> uuid option \<Rightarrow> int option \<Rightarrow> clock \<Rightarrow> db
     \<Rightarrow> (db, doc_task) outcome" where
  "retire_series e pid ids uid did org expected clk =
     transaction (\<lambda>d.
       and_then (tasks_enabled e) (\<lambda>_.
       and_then (raise_if (\<not> de_versions e) (AppError ''DOCUMENT_VERSIONS_DISABLED'' 503)) (\<lambda>_.
       and_then (raise_if (\<not> de_publication e) (AppError ''DOCUMENT_PUBLICATION_DISABLED'' 503)) (\<lambda>_.
       and_then (workspace_document e uid did org d) (\<lambda>doc.
       and_then (ensure_version uid doc d) (\<lambda>(binding, d1).
       and_then (series_of uid binding d1) (\<lambda>s.
       and_then (require_workspace e uid org d1) (\<lambda>_.
       case s_retirement s of
         Some t \<Rightarrow> and_then (task_of uid t d1) (\<lambda>task. committed task d)
       | None \<Rightarrow>
           let docs = series_documents (s_id s) d1 in
           and_then (raise_if (docs = [] \<or> list_ex (\<lambda>x. d_user x \<noteq> uid \<or> d_org x \<noteq> org) docs)
             (AppError ''INVALID_WORKSPACE_SCOPE'' 409)) (\<lambda>_.
           and_then (raise_if (expected \<noteq> None \<and> expected \<noteq> Some (int (length docs)))
             (AppError ''DOCUMENT_VERSION_CONFLICT'' 409)) (\<lambda>_.
             retire_series_now e pid ids uid doc org s docs clk d1))))))))))"

section \<open>The cleanup\<close>

text \<open>
  The world of the cleanup: deleting the vectors of a document in the index at a location
  (collection, model and dimension of the identity), and removing its files.
\<close>

record 'w cleanup_world = "'w worker_world" +
  cw_delete_vectors :: "json \<Rightarrow> uuid \<Rightarrow> uuid \<Rightarrow> ('w, unit) act"
  cw_remove_files :: "string \<Rightarrow> uuid \<Rightarrow> uuid \<Rightarrow> ('w, unit) act"

definition active_pins :: "uuid \<Rightarrow> time \<Rightarrow> db \<Rightarrow> nat" where
  "active_pins did now d =
     length (filter (\<lambda>p. pin_document p = did \<and>
       (\<exists>r\<in>set (runs d). r_id r = pin_run p \<and> r_state r \<in> {Queued, Running, Waiting, Cancelling} \<and> now < r_expires r)) (pins d))"

definition cleanup_start :: "docs_env \<Rightarrow> uuid \<Rightarrow> uuid \<Rightarrow> clock \<Rightarrow> db \<Rightarrow> (json \<times> string \<times> int) option step result" where
  "cleanup_start e uid did clk d =
     and_then (document_of uid did d) (\<lambda>doc.
       if d_status doc = DocRetired then Inr (Leave None)
       else
         and_then (case get_job_row did d of
             None \<Rightarrow> Inr None
           | Some j \<Rightarrow> (case j_task j of None \<Rightarrow> Inr None | Some tid \<Rightarrow> and_then (task_of uid tid d) (\<lambda>t. Inr (Some t)))) (\<lambda>task.
         case (get_index did d, task) of
           (Some ix, Some t) \<Rightarrow>
             and_then (raise_if (d_status doc \<noteq> DocDeleting \<or> ix_state ix \<noteq> IxRetiring \<or> t_kind t \<noteq> KDelete \<or>
                 dict_get (t_details t) ''index'' \<noteq> Some (cleanup_identity ix) \<or> ix_source ix \<noteq> d_content_hash doc \<or>
                 ix_fingerprint ix \<noteq> d_fingerprint doc) (AppError ''DOCUMENT_INDEX_CHANGED'' 409)) (\<lambda>_.
             and_then (raise_if (ix_connection ix \<noteq> index_connection_identity (de_index e) \<or>
                 ix_database ix \<noteq> is_database (de_index e)) (AppError ''DOCUMENT_INDEX_UNAVAILABLE'' 409)) (\<lambda>_.
             and_then (raise_if (0 < active_pins did (clk 0) d) (AppError ''DOCUMENT_INDEX_PINNED'' 409)) (\<lambda>_.
             and_then (job_progress did ''cleaning_index'' None (Some (d_chunk_count doc)) (\<lambda>n. clk (n + 1)) d) (\<lambda>d1.
               Inr (Commit (Some (cleanup_identity ix, d_file_path doc, d_chunk_count doc)) d1)))))
         | _ \<Rightarrow> Inl (AppError ''DOCUMENT_INDEX_CHANGED'' 409)))"

definition cleanup_end :: "uuid \<Rightarrow> uuid \<Rightarrow> json \<Rightarrow> db \<Rightarrow> db result" where
  "cleanup_end uid did location d =
     and_then (document_of uid did d) (\<lambda>doc.
     and_then (require_row (get_index did d) (AppError ''DOCUMENT_INDEX_CHANGED'' 409)) (\<lambda>ix.
     and_then (raise_if (d_status doc \<noteq> DocDeleting \<or> cleanup_identity ix \<noteq> location \<or> ix_state ix \<noteq> IxRetiring)
         (AppError ''DOCUMENT_INDEX_CHANGED'' 409)) (\<lambda>_.
       Inr (put_index (ix\<lparr>ix_state := IxCleaned\<rparr>)
         (put_document (set_phase ''retired'' (doc\<lparr>d_status := DocRetired, d_error := None\<rparr>))
           (d\<lparr>nodes := row_del (\<lambda>n. n_document n = did \<and> n_user n = uid) (nodes d)\<rparr>))))))"

definition clean_files ::
    "('w, 'z) cleanup_world_scheme \<Rightarrow> uuid \<Rightarrow> uuid \<Rightarrow> json \<Rightarrow> string \<Rightarrow> int \<Rightarrow> ('w, unit) act" where
  "clean_files cw uid did location path units =
     bind_act (run_guard cw) (\<lambda>_.
     bind_act (guarded cw (\<lambda>clk ids d.
         and_then (job_progress did ''cleaning_files'' (Some units) None clk d) (\<lambda>d1. Inr (Commit () d1)))) (\<lambda>_.
     bind_act (cw_remove_files cw path uid did) (\<lambda>_.
     bind_act (run_guard cw) (\<lambda>_.
       guarded cw (\<lambda>clk ids d. and_then (cleanup_end uid did location d) (\<lambda>d1. Inr (Commit () d1)))))))"

definition process_retirement :: "docs_env \<Rightarrow> ('w, 'z) cleanup_world_scheme \<Rightarrow> uuid \<Rightarrow> uuid \<Rightarrow> ('w, unit) act" where
  "process_retirement e cw uid did =
     bind_act (run_guard cw) (\<lambda>_.
     bind_act (guarded cw (\<lambda>clk ids. cleanup_start e uid did clk)) (\<lambda>v.
       case v of
         None \<Rightarrow> ret ()
       | Some (location, path, units) \<Rightarrow>
           bind_act (run_guard cw) (\<lambda>_.
           bind_act (cw_delete_vectors cw location uid did) (\<lambda>_.
             clean_files cw uid did location path units))))"

end
