(* ===== verification/JobProperties.thy ===== *)
theory JobProperties
  imports DocumentTasks
begin

text \<open>
  What the ingestion queue keeps: one job per document, a receipt that mirrors it, leases
  exactly on running jobs, attempts within their bound, and parent tasks that agree with the
  receipts of their versions.
\<close>

section \<open>The invariant\<close>

definition mirrors :: "doc_task \<Rightarrow> ingestion_job \<Rightarrow> bool" where
  "mirrors t j = (t_document t = Some (j_document j) \<and> t_user t = j_user j \<and> t_kind t = j_kind j \<and>
     t_state t = j_state j \<and> t_attempts t = j_attempts j \<and> t_max_attempts t = j_max_attempts j)"

definition live_task :: "doc_task \<Rightarrow> bool" where
  "live_task t = (t_kind t \<noteq> KDeleteSeries \<and> (t_state t = TQueued \<or> t_state t = TRunning))"

definition job_ok :: "ingestion_job \<Rightarrow> bool" where
  "job_ok j = (0 \<le> j_attempts j \<and> j_attempts j \<le> j_max_attempts j \<and> 1 \<le> j_max_attempts j \<and> j_kind j \<noteq> KDeleteSeries \<and>
     (if j_state j = TRunning then j_token j \<noteq> None \<and> j_lease j \<noteq> None \<and> 1 \<le> j_attempts j
      else j_token j = None \<and> j_lease j = None))"

definition synced :: "db \<Rightarrow> doc_task \<Rightarrow> bool" where
  "synced d p = (let kids = child_tasks (t_id p) d in
     t_processed p = retired_before p + int (length (filter (\<lambda>c. t_state c = TSucceeded) kids)) \<and>
     t_state p = t_state (parent_state kids p) \<and> t_phase p = t_phase (parent_state kids p) \<and>
     t_error p = t_error (parent_state kids p))"

definition receipts_mirror :: "db \<Rightarrow> bool" where
  "receipts_mirror d \<longleftrightarrow> (\<forall>did j. get_job_row did d = Some j \<longrightarrow> job_ok j \<and>
     (\<forall>tid. j_task j = Some tid \<longrightarrow> (\<exists>t. get_task_row tid d = Some t \<and> mirrors t j)))"

definition live_tasks_current :: "db \<Rightarrow> bool" where
  "live_tasks_current d \<longleftrightarrow> (\<forall>tid t. get_task_row tid d = Some t \<and> live_task t \<longrightarrow>
     (\<exists>did j. t_document t = Some did \<and> get_job_row did d = Some j \<and> j_task j = Some tid))"

definition only_deletes_nest :: "db \<Rightarrow> bool" where
  "only_deletes_nest d \<longleftrightarrow> (\<forall>tid t. get_task_row tid d = Some t \<and> t_parent t \<noteq> None \<longrightarrow> t_kind t = KDelete)"

definition parents_synced :: "uuid set \<Rightarrow> db \<Rightarrow> bool" where
  "parents_synced X d \<longleftrightarrow> (\<forall>tid p. get_task_row tid d = Some p \<and> t_kind p = KDeleteSeries \<and> tid \<notin> X \<longrightarrow> synced d p)"

definition queue_inv_but :: "uuid set \<Rightarrow> db \<Rightarrow> bool" where
  "queue_inv_but X d \<longleftrightarrow> distinct (map j_document (jobs d)) \<and> distinct (map t_id (doc_tasks d)) \<and>
     receipts_mirror d \<and> live_tasks_current d \<and> only_deletes_nest d \<and> parents_synced X d"

abbreviation queue_inv :: "db \<Rightarrow> bool" where
  "queue_inv \<equiv> queue_inv_but {}"

lemma receipts_mirrorD:
  assumes "receipts_mirror d" "get_job_row did d = Some j"
  shows "job_ok j" "j_task j = Some tid \<Longrightarrow> \<exists>t. get_task_row tid d = Some t \<and> mirrors t j"
    "j_task j = Some tid \<Longrightarrow> get_task_row tid d = Some t \<Longrightarrow> mirrors t j"
  using assms unfolding receipts_mirror_def by fastforce+

section \<open>Children of a parent\<close>

lemma jobs_put_task [simp]: "jobs (put_task t d) = jobs d" "doc_tasks (put_job j d) = doc_tasks d"
  "doc_tasks (put_task t d) = row_put t_id t (doc_tasks d)" "jobs (put_job j d) = row_put j_document j (jobs d)"
  by (simp_all add: put_task_def put_job_def)

lemma filter_row_put_out:
  assumes "distinct (map key rows)" "row_get key (key r) rows = Some r0" "\<not> P r" "\<not> P r0"
  shows "filter P (row_put key r rows) = filter P rows"
proof -
  have ex: "\<exists>x\<in>set rows. key x = key r" using assms(2) row_get_Some_mem row_get_Some_key by metis
  have "filter P (map (\<lambda>x. if key x = key r then r else x) rows) = filter P rows"
    using assms
  proof (induction rows)
    case (Cons x rows)
    show ?case
    proof (cases "key x = key r")
      case True
      then have "x = r0" using Cons.prems(2) by simp
      moreover have "map (\<lambda>x. if key x = key r then r else x) rows = rows"
        using Cons.prems(1) True by (intro map_idI) (auto simp: image_iff)
      ultimately show ?thesis using True Cons.prems(3,4) by simp
    next
      case False
      then show ?thesis using Cons by simp
    qed
  qed simp
  then show ?thesis using ex by (simp add: row_put_def)
qed

definition pointed :: "db \<Rightarrow> uuid \<Rightarrow> bool" where
  "pointed d tid \<longleftrightarrow> (\<exists>j\<in>set (jobs d). j_task j = Some tid)"

lemma child_tasks_pointed: "child_tasks P d = filter (\<lambda>t. t_parent t = Some P \<and> pointed d (t_id t)) (doc_tasks d)"
  by (simp add: child_tasks_def pointed_def)

lemma pointed_put_job:
  assumes "distinct (map j_document (jobs d))" "get_job_row (j_document j) d = Some j0" "j_task j = j_task j0"
  shows "pointed (put_job j d) tid = pointed d tid"
proof -
  have "j0 \<in> set (jobs d)" "j_document j0 = j_document j"
    using assms(2) row_get_Some_mem row_get_Some_key by metis+
  have one: "x = j0" if "x \<in> set (jobs d)" "j_document x = j_document j" for x
    using distinct_key_eq [OF assms(1) that(1) \<open>j0 \<in> set (jobs d)\<close>] that(2) \<open>j_document j0 = j_document j\<close> by simp
  have "pointed (put_job j d) tid \<longleftrightarrow> j_task j = Some tid \<or> (\<exists>x\<in>set (jobs d). j_document x \<noteq> j_document j \<and> j_task x = Some tid)"
    using assms(1) by (simp add: pointed_def set_row_put_distinct) blast
  moreover have "pointed d tid \<longleftrightarrow> j_task j0 = Some tid \<or> (\<exists>x\<in>set (jobs d). j_document x \<noteq> j_document j \<and> j_task x = Some tid)"
    unfolding pointed_def using one \<open>j0 \<in> set (jobs d)\<close> by blast
  ultimately show ?thesis using assms(3) by simp
qed

lemma child_tasks_put_job:
  assumes "distinct (map j_document (jobs d))" "get_job_row (j_document j) d = Some j0" "j_task j = j_task j0"
  shows "child_tasks P (put_job j d) = child_tasks P d"
  using pointed_put_job [OF assms] by (simp add: child_tasks_pointed)

lemma child_tasks_put_task:
  assumes "distinct (map t_id (doc_tasks d))" "get_task_row (t_id t) d = Some u" "t_parent t \<noteq> Some P" "t_parent u \<noteq> Some P"
  shows "child_tasks P (put_task t d) = child_tasks P d"
  unfolding child_tasks_pointed using assms
  by (simp add: pointed_def filter_row_put_out)

section \<open>Writes that keep the invariant\<close>

lemma sync_parent_cases:
  assumes "sync_parent pid now d = Inr d'"
  shows "(pid = None \<and> d' = d) \<or>
    (\<exists>i p kids. pid = Some i \<and> get_task_row i d = Some p \<and> t_kind p = KDeleteSeries \<and> kids = child_tasks i d \<and>
       d' = put_task (parent_state kids (p\<lparr>t_processed := retired_before p +
         int (length (filter (\<lambda>c. t_state c = TSucceeded) kids)), t_updated := now\<rparr>)) d)"
  using assms by (auto simp: sync_parent_def Let_def result_simps split: option.splits)

lemma parent_state_same [simp]:
  "t_id (parent_state kids p) = t_id p" "t_kind (parent_state kids p) = t_kind p" "t_total (parent_state kids p) = t_total p"
  "t_processed (parent_state kids p) = t_processed p" "t_details (parent_state kids p) = t_details p"
  "t_parent (parent_state kids p) = t_parent p" "t_document (parent_state kids p) = t_document p"
  by (simp_all add: parent_state_def)

lemma parent_state_idem:
  "t_state (parent_state kids (parent_state kids p)) = t_state (parent_state kids p)"
  "t_phase (parent_state kids (parent_state kids p)) = t_phase (parent_state kids p)"
  "t_error (parent_state kids (parent_state kids p)) = t_error (parent_state kids p)"
  by (simp_all add: parent_state_def)

text \<open>A parent task is no version's receipt, so writing it touches neither receipts nor children.\<close>

lemma put_parent_inv:
  assumes inv: "queue_inv_but X d" and p: "get_task_row i d = Some p" "t_kind p = KDeleteSeries"
    and q: "t_id q = i" "t_kind q = KDeleteSeries" "t_parent q = t_parent p" "synced d q"
  shows "queue_inv_but (X - {i}) (put_task q d)"
proof -
  have dist: "distinct (map t_id (doc_tasks d))" and rm: "receipts_mirror d" and lt: "live_tasks_current d"
    and nest: "only_deletes_nest d" and ps: "parents_synced X d"
    using inv by (auto simp: queue_inv_but_def)
  have par: "t_parent p = None"
    using nest [unfolded only_deletes_nest_def, rule_format, of i p] p by (cases "t_parent p") auto
  have kids: "child_tasks P (put_task q d) = child_tasks P d" for P
    by (rule child_tasks_put_task [where u = p]) (use dist p q par in simp_all)
  have "receipts_mirror (put_task q d)"
    unfolding receipts_mirror_def
  proof (intro allI impI conjI)
    fix did j assume "get_job_row did (put_task q d) = Some j"
    then have j: "get_job_row did d = Some j" by simp
    then show "job_ok j" using rm by (auto simp: receipts_mirror_def)
    fix tid assume "j_task j = Some tid"
    then obtain t where t: "get_task_row tid d = Some t" "mirrors t j" using receipts_mirrorD(2) [OF rm j] by blast
    then have "tid \<noteq> i" using p \<open>job_ok j\<close> by (auto simp: mirrors_def job_ok_def)
    then show "\<exists>t. get_task_row tid (put_task q d) = Some t \<and> mirrors t j" using t q(1) by (simp add: row_get_put)
  qed
  moreover have "live_tasks_current (put_task q d)"
    using lt q(1,2) by (auto simp: live_tasks_current_def row_get_put live_task_def)
  moreover have "only_deletes_nest (put_task q d)"
    using nest q par by (auto simp: only_deletes_nest_def row_get_put)
  moreover have "parents_synced (X - {i}) (put_task q d)"
    using ps q by (auto simp: parents_synced_def row_get_put synced_def kids)
  ultimately show ?thesis using inv by (auto simp: queue_inv_but_def)
qed

lemma sync_parent_inv:
  assumes "sync_parent pid now d = Inr d'" and "queue_inv_but X d"
  shows "queue_inv_but (X - set_option pid) d' \<and> jobs d' = jobs d"
  using sync_parent_cases [OF assms(1)]
proof (elim disjE exE conjE)
  fix i p kids
  assume pid: "pid = Some i" and p: "get_task_row i d = Some p" "t_kind p = KDeleteSeries" and kids: "kids = child_tasks i d"
    and d': "d' = put_task (parent_state kids (p\<lparr>t_processed := retired_before p +
         int (length (filter (\<lambda>c. t_state c = TSucceeded) kids)), t_updated := now\<rparr>)) d"
  have id: "t_id p = i" using p(1) by (rule row_get_Some_key)
  let ?p = "p\<lparr>t_processed := retired_before p + int (length (filter (\<lambda>c. t_state c = TSucceeded) kids)), t_updated := now\<rparr>"
  have "synced d (parent_state kids ?p)"
    using parent_state_idem [of kids ?p] id by (simp add: synced_def Let_def kids retired_before_def)
  then have "queue_inv_but (X - {i}) (put_task (parent_state kids ?p) d)"
    using id p(2) by (intro put_parent_inv [OF assms(2) p]) simp_all
  then show ?thesis using d' pid by simp
qed (use assms(2) in simp)

text \<open>The other parents do not see a change of one task that keeps its parent.\<close>

lemma synced_frame:
  assumes "child_tasks (t_id p) d' = child_tasks (t_id p) d"
  shows "synced d' p = synced d p"
  using assms by (simp add: synced_def)

text \<open>A job and its receipt written together, then the parent: the common end of the operations.\<close>

lemma write_receipt_inv:
  assumes inv: "queue_inv_but X d" and j0: "get_job_row (j_document j) d = Some j0"
    and j: "j_task j = j_task j0" "j_user j = j_user j0" "j_kind j = j_kind j0" "job_ok j" "j_task j = Some (t_id t)"
    and t0: "get_task_row (t_id t) d = Some t0" and t: "t_parent t = t_parent t0" "mirrors t j"
  shows "queue_inv_but (X \<union> set_option (t_parent t)) (put_task t (put_job j d))"
proof -
  let ?d = "put_task t (put_job j d)"
  have dist: "distinct (map t_id (doc_tasks d))" "distinct (map j_document (jobs d))" and rm: "receipts_mirror d"
    and lt: "live_tasks_current d" and nest: "only_deletes_nest d" and ps: "parents_synced X d"
    using inv by (auto simp: queue_inv_but_def)
  have m0: "mirrors t0 j0" using receipts_mirrorD(3) [OF rm j0 _ t0] j(1,5) by simp
  have kids: "child_tasks P ?d = child_tasks P d" if "t_parent t \<noteq> Some P" for P
  proof -
    have "child_tasks P ?d = child_tasks P (put_job j d)"
      by (rule child_tasks_put_task [where u = t0]) (use dist(1) t0 t(1) that in simp_all)
    also have "\<dots> = child_tasks P d" by (rule child_tasks_put_job [OF dist(2) j0 j(1)])
    finally show ?thesis .
  qed
  have "receipts_mirror ?d"
    unfolding receipts_mirror_def
  proof (intro allI impI)
    fix did k assume k: "get_job_row did ?d = Some k"
    show "job_ok k \<and> (\<forall>tid. j_task k = Some tid \<longrightarrow> (\<exists>u. get_task_row tid ?d = Some u \<and> mirrors u k))"
    proof (cases "did = j_document j")
      case True
      then have "k = j" using k by simp
      then show ?thesis using j(4,5) t(2) by simp
    next
      case False
      then have k': "get_job_row did d = Some k" using k by (simp add: row_get_put)
      have "job_ok k" using rm k' by (auto simp: receipts_mirror_def)
      moreover have "\<exists>u. get_task_row tid ?d = Some u \<and> mirrors u k" if tid: "j_task k = Some tid" for tid
      proof -
        obtain u where u: "get_task_row tid d = Some u" "mirrors u k" using receipts_mirrorD(2) [OF rm k' tid] by blast
        have "j_document k = did" using k' by (rule row_get_Some_key)
        moreover have "j_document j0 = j_document j" using j0 by (rule row_get_Some_key)
        ultimately have "tid \<noteq> t_id t" using u t0 m0 False by (auto simp: mirrors_def)
        then show ?thesis using u by (simp add: row_get_put)
      qed
      ultimately show ?thesis by blast
    qed
  qed
  moreover have "live_tasks_current ?d"
    unfolding live_tasks_current_def
  proof (intro allI impI)
    fix tid u assume u: "get_task_row tid ?d = Some u \<and> live_task u"
    show "\<exists>did k. t_document u = Some did \<and> get_job_row did ?d = Some k \<and> j_task k = Some tid"
    proof (cases "tid = t_id t")
      case True
      then have "u = t" using u by simp
      then show ?thesis using t(2) j(5) True by (auto simp: mirrors_def)
    next
      case False
      then have "get_task_row tid d = Some u" using u by (simp add: row_get_put)
      then obtain did k where k: "t_document u = Some did" "get_job_row did d = Some k" "j_task k = Some tid"
        using lt u unfolding live_tasks_current_def by blast
      have "did \<noteq> j_document j" using k j0 j(1,5) False by auto
      then show ?thesis using k by (simp add: row_get_put)
    qed
  qed
  moreover have "only_deletes_nest ?d"
    using nest t0 t m0 j(3) by (auto simp: only_deletes_nest_def row_get_put mirrors_def)
  moreover have "parents_synced (X \<union> set_option (t_parent t)) ?d"
    unfolding parents_synced_def
  proof (intro allI impI)
    fix tid p assume p: "get_task_row tid ?d = Some p \<and> t_kind p = KDeleteSeries \<and> tid \<notin> X \<union> set_option (t_parent t)"
    have "t_kind t \<noteq> KDeleteSeries" using t(2) j(4) by (auto simp: mirrors_def job_ok_def)
    then have "tid \<noteq> t_id t" using p by auto
    then have q: "get_task_row tid d = Some p" using p by (simp add: row_get_put)
    then have "synced d p" using ps p by (auto simp: parents_synced_def)
    moreover have "t_id p = tid" using q by (rule row_get_Some_key)
    then have "child_tasks (t_id p) ?d = child_tasks (t_id p) d" using p by (intro kids) auto
    from synced_frame [OF this] have "synced ?d p = synced d p" .
    ultimately show "synced ?d p" by simp
  qed
  ultimately show ?thesis using dist by (simp add: queue_inv_but_def distinct_row_put)
qed

text \<open>A job without a receipt, as an earlier version of the program may have left it.\<close>

lemma put_job_inv:
  assumes inv: "queue_inv_but X d" and j0: "get_job_row (j_document j) d = Some j0"
    and j: "j_task j = j_task j0" "j_user j = j_user j0" "j_kind j = j_kind j0" "job_ok j"
    and m: "j_task j = None \<or> j_state j = j_state j0 \<and> j_attempts j = j_attempts j0 \<and> j_max_attempts j = j_max_attempts j0"
  shows "queue_inv_but X (put_job j d)"
proof -
  have dist: "distinct (map t_id (doc_tasks d))" "distinct (map j_document (jobs d))" and rm: "receipts_mirror d"
    and lt: "live_tasks_current d" and nest: "only_deletes_nest d" and ps: "parents_synced X d"
    using inv by (auto simp: queue_inv_but_def)
  have id: "j_document j0 = j_document j" using j0 by (rule row_get_Some_key)
  have kids: "child_tasks P (put_job j d) = child_tasks P d" for P by (rule child_tasks_put_job [OF dist(2) j0 j(1)])
  have "receipts_mirror (put_job j d)"
    unfolding receipts_mirror_def
  proof (intro allI impI)
    fix did k assume k: "get_job_row did (put_job j d) = Some k"
    show "job_ok k \<and> (\<forall>tid. j_task k = Some tid \<longrightarrow> (\<exists>u. get_task_row tid (put_job j d) = Some u \<and> mirrors u k))"
    proof (cases "did = j_document j")
      case True
      then have "k = j" using k by simp
      then show ?thesis using j(1-4) m rm j0 id by (fastforce simp: receipts_mirror_def mirrors_def)
    next
      case False
      then show ?thesis using k rm by (simp add: receipts_mirror_def row_get_put)
    qed
  qed
  moreover have "live_tasks_current (put_job j d)"
    unfolding live_tasks_current_def
  proof (intro allI impI)
    fix tid u assume u: "get_task_row tid (put_job j d) = Some u \<and> live_task u"
    then have "get_task_row tid d = Some u \<and> live_task u" by simp
    then obtain did k where k: "t_document u = Some did" "get_job_row did d = Some k" "j_task k = Some tid"
      using lt unfolding live_tasks_current_def by blast
    then show "\<exists>did k. t_document u = Some did \<and> get_job_row did (put_job j d) = Some k \<and> j_task k = Some tid"
      using j0 j(1) by (cases "did = j_document j") (auto simp: row_get_put)
  qed
  moreover have "only_deletes_nest (put_job j d)" using nest by (simp add: only_deletes_nest_def)
  moreover have "parents_synced X (put_job j d)"
    using ps synced_frame [OF kids] by (simp add: parents_synced_def)
  ultimately show ?thesis using dist by (simp add: queue_inv_but_def distinct_row_put)
qed

text \<open>Writing a job and syncing its receipt keeps the invariant.\<close>

lemma sync_task_inv:
  assumes "sync_task j phase processed units clk (put_job j d) = Inr d'" and inv: "queue_inv d"
    and j0: "get_job_row (j_document j) d = Some j0"
    and j: "j_task j = j_task j0" "j_user j = j_user j0" "j_kind j = j_kind j0" "job_ok j"
  shows "queue_inv d' \<and> jobs d' = row_put j_document j (jobs d)"
proof (cases "j_task j")
  case None
  then show ?thesis using assms(1) put_job_inv [OF inv j0 j] by (auto simp: sync_task_def)
next
  case (Some tid)
  have "\<exists>t. get_task_row tid d = Some t \<and> mirrors t j0"
    using inv j(1) Some j0 receipts_mirrorD(2) [of d] by (simp add: queue_inv_but_def)
  then obtain t where t: "get_task_row tid d = Some t" "mirrors t j0" by blast
  define t2 where t2: "t2 = t\<lparr>t_state := j_state j, t_attempts := j_attempts j, t_max_attempts := j_max_attempts j,
        t_error := j_error j, t_updated := clk 0,
        t_phase := (case phase of None \<Rightarrow> t_phase t | Some p \<Rightarrow> p),
        t_processed := (case processed of None \<Rightarrow> t_processed t | Some n \<Rightarrow> n),
        t_total := (case units of None \<Rightarrow> t_total t | Some n \<Rightarrow> Some n)\<rparr>"
  have m: "t_document t = Some (j_document j) \<and> t_user t = j_user j \<and> t_kind t = j_kind j"
    using t(2) j j0 row_get_Some_key [OF j0] by (simp add: mirrors_def)
  have s: "sync_parent (t_parent t2) (clk 1) (put_task t2 (put_job j d)) = Inr d'"
    using assms(1) m by (simp add: sync_task_def Let_def Some t(1) t2 cong: option.case_cong)
  have id: "t_id t = tid" using t(1) by (rule row_get_Some_key)
  have "queue_inv_but ({} \<union> set_option (t_parent t2)) (put_task t2 (put_job j d))"
    by (rule write_receipt_inv [OF inv j0 j]) (use Some id t(1) m t2 in \<open>simp_all add: mirrors_def\<close>)
  from sync_parent_inv [OF s this] show ?thesis by simp
qed

section \<open>The operations keep the invariant\<close>

lemma job_row_ok: "queue_inv d \<Longrightarrow> get_job_row did d = Some j \<Longrightarrow> job_ok j \<and> j_document j = did"
  using receipts_mirrorD(1) [of d did j] row_get_Some_key [of j_document did "jobs d" j] by (simp add: queue_inv_but_def)

lemma job_owned_row:
  assumes "job_owned c now d = Inr j"
  shows "get_job_row (jc_document c) d = Some j \<and> j_state j = TRunning \<and> j_token j = Some (jc_token c) \<and>
    (\<exists>l. j_lease j = Some l \<and> now < l)"
  using assms by (auto simp: job_owned_def not_le split: option.splits if_splits)

lemma queue_inv_frame: "jobs d' = jobs d \<Longrightarrow> doc_tasks d' = doc_tasks d \<Longrightarrow> queue_inv_but X d' = queue_inv_but X d"
  by (simp add: queue_inv_but_def receipts_mirror_def live_tasks_current_def only_deletes_nest_def parents_synced_def
      synced_def child_tasks_def)

lemma lock_next_job_mem:
  assumes "lock_next_job now d = Some j"
  shows "j \<in> set (jobs d) \<and> job_ready now j"
proof -
  obtain js where "sort_key j_available (sort_key j_document (filter (job_ready now) (jobs d))) = j # js"
    using assms by (auto simp: lock_next_job_def split: list.splits)
  then have "j \<in> set (sort_key j_available (sort_key j_document (filter (job_ready now) (jobs d))))" by simp
  then show ?thesis by simp
qed

lemma claim_job_inv:
  assumes "queue_inv d"
  shows "queue_inv (snd (claim_job e token clk d))"
  unfolding claim_job_def
proof (rule transaction_preserves [where I = queue_inv, OF assms])
  fix r d'
  let ?now = "clk 0"
  let ?j1 = "\<lambda>j. j\<lparr>j_attempts := (if j_max_attempts j \<le> j_attempts j then j_attempts j else j_attempts j + 1),
      j_state := TRunning, j_token := Some token, j_lease := Some (?now + je_lease e)\<rparr>"
  assume a: "(let now = clk 0 in
       (case lock_next_job now d of
          None \<Rightarrow> committed None d
        | Some j \<Rightarrow>
            let exhausted = j_max_attempts j \<le> j_attempts j;
                j1 = j\<lparr>j_attempts := (if exhausted then j_attempts j else j_attempts j + 1), j_state := TRunning,
                  j_token := Some token, j_lease := Some (now + je_lease e)\<rparr>;
                receipt = (case j_task j of None \<Rightarrow> None | Some tid \<Rightarrow> get_task_row tid d);
                phase = (case receipt of
                    None \<Rightarrow> ''running''
                  | Some t \<Rightarrow> if j_kind j = KDelete \<and> t_phase t = ''waiting_runs'' then ''waiting_runs'' else ''running'')
            in and_then (sync_task j1 (Some phase) None None (\<lambda>n. clk (n + 1)) (put_job j1 d)) (\<lambda>d'.
                 committed (Some \<lparr>jc_document = j_document j, jc_user = j_user j, jc_token = token,
                   jc_exhausted = exhausted, jc_kind = j_kind j\<rparr>) d'))) = Inr (r, d')"
  show "queue_inv d'"
  proof (cases "lock_next_job ?now d")
    case None
    then show ?thesis using a assms by (simp add: committed_def)
  next
    case (Some j)
    have mem: "j \<in> set (jobs d)" using lock_next_job_mem [OF Some] by blast
    have dist: "distinct (map j_document (jobs d))" using assms by (simp add: queue_inv_but_def)
    have row: "get_job_row (j_document j) d = Some j" by (rule row_get_distinct [OF dist mem])
    have ok: "job_ok j" using job_row_ok [OF assms row] by blast
    have ok1: "job_ok (?j1 j)" using ok by (auto simp: job_ok_def)
    obtain phase where "sync_task (?j1 j) (Some phase) None None (\<lambda>n. clk (n + 1)) (put_job (?j1 j) d) = Inr d'"
      using a Some by (auto simp: Let_def result_simps)
    from sync_task_inv [OF this assms, of j] show ?thesis using row ok1 by simp
  qed
qed

lemma job_heartbeat_inv:
  assumes "queue_inv d"
  shows "queue_inv (snd (job_heartbeat e c clk d))"
  unfolding job_heartbeat_def
proof (rule transaction_preserves [where I = queue_inv, OF assms])
  fix r d'
  assume "and_then (job_owned c (clk 0) d) (\<lambda>j.
       committed () (put_job (j\<lparr>j_lease := Some (clk 1 + je_lease e)\<rparr>) d)) = Inr (r, d')"
  then obtain j where o': "job_owned c (clk 0) d = Inr j" and d': "d' = put_job (j\<lparr>j_lease := Some (clk 1 + je_lease e)\<rparr>) d"
    by (auto simp: result_simps)
  have row: "get_job_row (j_document j) d = Some j" "job_ok j" "j_state j = TRunning"
    using job_owned_row [OF o'] job_row_ok [OF assms] by auto
  show "queue_inv d'"
    unfolding d' by (rule put_job_inv [OF assms, of _ j]) (use row in \<open>auto simp: job_ok_def\<close>)
qed

lemma job_release_inv:
  assumes "queue_inv d"
  shows "queue_inv (snd (job_release e c clk d))"
  unfolding job_release_def
proof (rule transaction_preserves [where I = queue_inv, OF assms])
  fix r d'
  let ?j1 = "\<lambda>j. j\<lparr>j_attempts := (if jc_exhausted c then j_attempts j else j_attempts j - 1), j_state := TQueued,
             j_available := clk 1 + je_poll e\<rparr>"
  assume "and_then (job_owned c (clk 0) d) (\<lambda>j.
       let j1 = ?j1 j
       in and_then (raise_if (lease_over j1 (clk 2)) lease_gone) (\<lambda>_.
          and_then (sync_task (end_lease j1) (Some ''queued'') None None (\<lambda>n. clk (n + 3)) (put_job (end_lease j1) d))
            (\<lambda>d'. committed () d'))) = Inr (r, d')"
  then obtain j where o': "job_owned c (clk 0) d = Inr j"
    and s: "sync_task (end_lease (?j1 j)) (Some ''queued'') None None (\<lambda>n. clk (n + 3)) (put_job (end_lease (?j1 j)) d) = Inr d'"
    by (auto simp: result_simps Let_def)
  have row: "get_job_row (j_document j) d = Some j" "job_ok j" "j_state j = TRunning"
    using job_owned_row [OF o'] job_row_ok [OF assms] by auto
  show "queue_inv d'"
    using sync_task_inv [OF s assms, of j] row by (auto simp: job_ok_def end_lease_def)
qed

text \<open>What every verdict keeps of the job and the document.\<close>

definition same_job :: "ingestion_job \<Rightarrow> ingestion_job \<Rightarrow> bool" where
  "same_job j j1 = (j_document j1 = j_document j \<and> j_task j1 = j_task j \<and> j_user j1 = j_user j \<and> j_kind j1 = j_kind j \<and>
     j_max_attempts j1 = j_max_attempts j \<and> 0 \<le> j_attempts j1 \<and> j_attempts j1 \<le> j_attempts j \<and> j_state j1 \<noteq> TRunning)"

lemma verdict_jobs:
  assumes "0 \<le> j_attempts j"
  shows "same_job j (job_succeeded j)" "same_job j (job_failed c err j)" "same_job j (job_retried err now j)"
    "same_job j (j\<lparr>j_state := TCancelled\<rparr>)"
    "1 \<le> j_attempts j \<Longrightarrow> same_job j (j\<lparr>j_state := TQueued, j_error := None, j_attempts := max 0 (j_attempts j - 1), j_available := at\<rparr>)"
  using assms by (simp_all add: same_job_def job_succeeded_def job_failed_def job_retried_def)

lemma finish_verdict_shape:
  assumes v: "finish_verdict e c err doc attempt now j = Inr (j1, phase, doc1)" and ok: "job_ok j" "j_state j = TRunning"
  shows "same_job j j1 \<and> d_id doc1 = d_id doc \<and> d_user doc1 = d_user doc"
proof -
  have a: "0 \<le> j_attempts j" "1 \<le> j_attempts j" using ok by (simp_all add: job_ok_def)
  note V = verdict_jobs [OF a(1)]
  have ingest: "same_job j k \<and> d_id doc2 = d_id doc \<and> d_user doc2 = d_user doc"
    if "finish_ingest e c err doc attempt now j = Inr (k, doc2)" for k doc2
    using that V by (auto simp: finish_ingest_def Let_def result_simps split: if_splits)
  show ?thesis
  proof (cases "jc_kind c")
    case KDelete
    then show ?thesis using v V(1-3) V(5) [OF a(2)]
      by (auto simp: finish_verdict_def finish_delete_def Let_def split: if_splits)
  next
    case KHierarchy
    then show ?thesis using v V by (auto simp: finish_verdict_def finish_hierarchy_def Let_def split: if_splits)
  next
    case KIngest
    then show ?thesis using v ingest by (auto simp: finish_verdict_def result_simps)
  next
    case KDeleteSeries
    then show ?thesis using v ingest by (auto simp: finish_verdict_def result_simps)
  qed
qed

lemma same_job_ok: "same_job j j1 \<Longrightarrow> job_ok j \<Longrightarrow> job_ok (end_lease j1)"
  by (auto simp: same_job_def job_ok_def end_lease_def)

text \<open>What a finished attempt has done.\<close>

lemma finish_job_cases:
  assumes "finish_job e c err attempt clk d = (Inr (), d')"
  shows "\<exists>doc j j1 phase doc1. document_of (jc_user c) (jc_document c) d = Inr doc \<and> job_owned c (clk 0) d = Inr j \<and>
    finish_verdict e c err doc attempt (clk 1) j = Inr (j1, phase, doc1) \<and>
    sync_task (end_lease j1) (Some phase) None None (\<lambda>n. clk (n + 3)) (put_job (end_lease j1) (put_document doc1 d)) = Inr d'"
  using assms unfolding finish_job_def
  by (simp only: result_simps prod.case split_paired_Ex) blast

lemma put_document_frame [simp]: "jobs (put_document x d) = jobs d" "doc_tasks (put_document x d) = doc_tasks d"
  by (simp_all add: put_document_def)

lemma finish_job_moved:
  assumes "queue_inv d" and "job_owned c (clk 0) d = Inr j" and "finish_verdict e c err doc attempt (clk 1) j = Inr (j1, phase, doc1)"
    and "sync_task (end_lease j1) (Some phase) None None (\<lambda>n. clk (n + 3)) (put_job (end_lease j1) (put_document doc1 d)) = Inr d'"
  shows "queue_inv d' \<and> jobs d' = row_put j_document (end_lease j1) (jobs d) \<and> same_job j j1"
proof -
  have row: "get_job_row (j_document j) d = Some j" "job_ok j" "j_state j = TRunning"
    using job_owned_row [OF assms(2)] job_row_ok [OF assms(1)] by auto
  have same: "same_job j j1" using finish_verdict_shape [OF assms(3) row(2,3)] by blast
  have inv: "queue_inv (put_document doc1 d)" using assms(1) queue_inv_frame [of "put_document doc1 d" d] by simp
  have id: "j_document (end_lease j1) = j_document j" using same by (simp add: same_job_def end_lease_def)
  have "queue_inv d' \<and> jobs d' = row_put j_document (end_lease j1) (jobs (put_document doc1 d))"
    by (rule sync_task_inv [OF assms(4) inv, of j])
      (use row id same same_job_ok [OF same row(2)] in \<open>simp_all add: same_job_def end_lease_def\<close>)
  then show ?thesis using same by simp
qed

lemma finish_job_inv:
  assumes "queue_inv d"
  shows "queue_inv (snd (finish_job e c err attempt clk d))"
proof (cases "finish_job e c err attempt clk d")
  case (Pair r d')
  show ?thesis
  proof (cases r)
    case (Inl x)
    have "d' = d"
      using Pair Inl unfolding finish_job_def
      by (auto simp: transaction_def committed_def and_then_def split: sum.splits)
    then show ?thesis using Pair assms by simp
  next
    case (Inr u)
    then have "finish_job e c err attempt clk d = (Inr (), d')" using Pair by simp
    from finish_job_cases [OF this] finish_job_moved [OF assms] show ?thesis using Pair by auto
  qed
qed

section \<open>Requests\<close>

lemma pointed_requeue:
  assumes dist: "distinct (map j_document (jobs d))" and j: "j_document j = did"
    and other: "\<And>j0. get_job_row did d = Some j0 \<Longrightarrow> j_task j0 \<noteq> Some x" and new: "j_task j \<noteq> Some x"
  shows "pointed (put_job j d) x = pointed d x"
proof -
  have "k \<in> set (jobs d) \<Longrightarrow> j_document k = did \<Longrightarrow> j_task k \<noteq> Some x" for k
    using other row_get_distinct [OF dist, of k] by auto
  then show ?thesis using dist j new by (auto simp: pointed_def set_row_put_distinct)
qed

text \<open>
  What a caller of \<open>enqueue\<close> provides: a kind a worker executes, a document of the job's owner,
  and a parent only for a deletion, the one of the receipt it replaces if that had one.
\<close>

definition enqueue_ok :: "job_env \<Rightarrow> document \<Rightarrow> task_kind \<Rightarrow> uuid option \<Rightarrow> db \<Rightarrow> bool" where
  "enqueue_ok e doc kind parent d \<longleftrightarrow> kind \<noteq> KDeleteSeries \<and> 1 \<le> je_max_attempts e \<and> (parent \<noteq> None \<longrightarrow> kind = KDelete) \<and>
     (\<forall>j. get_job_row (d_id doc) d = Some j \<longrightarrow> j_user j = d_user doc \<and>
        (\<forall>tid t. j_task j = Some tid \<and> get_task_row tid d = Some t \<longrightarrow> t_parent t = None \<or> t_parent t = parent))"

lemma supersede_task_cases:
  "supersede_task j kind now d = d \<and>
     (\<forall>tid t. j_task j = Some tid \<and> get_task_row tid d = Some t \<longrightarrow> \<not> live_task t) \<or>
   (\<exists>tid t t'. j_task j = Some tid \<and> get_task_row tid d = Some t \<and> supersede_task j kind now d = put_task t' d \<and>
      t_id t' = tid \<and> t_parent t' = t_parent t \<and> t_kind t' = t_kind t \<and> \<not> live_task t')"
proof (cases "\<exists>tid t. j_task j = Some tid \<and> get_task_row tid d = Some t \<and> (t_state t = TQueued \<or> t_state t = TRunning)")
  case True
  then obtain tid t where t: "j_task j = Some tid" "get_task_row tid d = Some t" "t_state t = TQueued \<or> t_state t = TRunning"
    by blast
  let ?t = "t\<lparr>t_state := TCancelled, t_phase := ''cancelled'',
     t_error := Some (if kind = KDelete then ''SUPERSEDED_BY_RETIREMENT'' else ''SUPERSEDED_BY_RETRY''), t_updated := now\<rparr>"
  have "supersede_task j kind now d = put_task ?t d" "t_id ?t = tid"
    using t row_get_Some_key [OF t(2)] by (auto simp: supersede_task_def)
  then show ?thesis using t by (intro disjI2 exI [of _ tid] exI [of _ t] exI [of _ ?t]) (simp add: live_task_def)
next
  case False
  then show ?thesis by (auto simp: supersede_task_def live_task_def split: option.splits)
qed

lemma requeue_inv:
  assumes inv: "queue_inv_but X d" and j: "get_job_row (d_id doc) d = Some j \<or> get_job_row (d_id doc) d = None \<and> j = new_job doc"
    and ok: "enqueue_ok e doc kind parent d"
    and r: "requeue_job e tid doc kind details parent j clk d = Inr (res, d')"
  shows "queue_inv_but (X - set_option parent) d'"
proof -
  let ?d1 = "supersede_task j kind (clk 0) d"
  let ?t = "new_task e tid doc kind details parent (clk 1)"
  let ?j = "j\<lparr>j_task := Some tid, j_state := TQueued, j_kind := kind, j_attempts := 0, j_max_attempts := je_max_attempts e,
     j_available := clk 2, j_token := None, j_lease := None, j_error := None\<rparr>"
  let ?d2 = "put_job ?j (?d1\<lparr>doc_tasks := doc_tasks ?d1 @ [?t]\<rparr>)"
  have dist: "distinct (map t_id (doc_tasks d))" "distinct (map j_document (jobs d))" and rm: "receipts_mirror d"
    and lt: "live_tasks_current d" and nest: "only_deletes_nest d" and ps: "parents_synced X d"
    using inv by (auto simp: queue_inv_but_def)
  have fresh: "get_task_row tid ?d1 = None" and s: "sync_parent parent (clk 3) ?d2 = Inr d'"
    using r by (auto simp: requeue_job_def Let_def result_simps new_task_def)
  have id: "j_document j = d_id doc" and usr: "j_user j = d_user doc"
    using j ok row_get_Some_key [of j_document "d_id doc" "jobs d" j] by (auto simp: new_job_def enqueue_ok_def)
  have jobs1: "jobs ?d1 = jobs d" using supersede_task_cases [of j kind "clk 0" d] by auto
  have old: "get_job_row (d_id doc) d = Some j0 \<Longrightarrow> j0 = j" for j0 using j by auto
  \<comment> \<open>tasks that are not the superseded one are as before\<close>
  have other: "get_task_row x ?d1 = get_task_row x d" if "j_task j \<noteq> Some x" for x
    using supersede_task_cases [of j kind "clk 0" d] that by (auto simp: row_get_put)
  have freshd: "get_task_row tid d = None"
  proof (cases "j_task j = Some tid")
    case True
    then show ?thesis
      using supersede_task_cases [of j kind "clk 0" d] fresh by (auto split: if_splits)
  next
    case False
    then show ?thesis using other fresh by simp
  qed
  have look: "get_task_row x ?d2 = (if x = tid then Some ?t else get_task_row x ?d1)" for x
    using fresh by (auto simp: row_get_append new_task_def split: option.splits)
  have tasks: "doc_tasks ?d2 = doc_tasks ?d1 @ [?t]" by simp
  have dist1: "distinct (map t_id (doc_tasks ?d1))"
    using supersede_task_cases [of j kind "clk 0" d] dist(1) by (auto simp: distinct_row_put)
  have dist2: "distinct (map t_id (doc_tasks ?d2))"
    unfolding tasks using dist1 fresh by (auto simp: row_get_None new_task_def)
  have jrow: "get_job_row (d_id doc) ?d2 = Some ?j" using id by (simp add: row_get_put)
  have mirror2: "receipts_mirror ?d2"
    unfolding receipts_mirror_def
  proof (intro allI impI)
    fix did k assume k: "get_job_row did ?d2 = Some k"
    show "job_ok k \<and> (\<forall>x. j_task k = Some x \<longrightarrow> (\<exists>u. get_task_row x ?d2 = Some u \<and> mirrors u k))"
    proof (cases "did = d_id doc")
      case True
      then have "k = ?j" using k id by (simp add: row_get_put)
      then show ?thesis using ok usr id look by (simp add: job_ok_def enqueue_ok_def mirrors_def new_task_def)
    next
      case False
      then have k': "get_job_row did d = Some k" using k id jobs1 by (simp add: row_get_put)
      have "\<exists>u. get_task_row x ?d2 = Some u \<and> mirrors u k" if x: "j_task k = Some x" for x
      proof -
        obtain u where u: "get_task_row x d = Some u" "mirrors u k" using receipts_mirrorD(2) [OF rm k' x] by blast
        have "j_document k = did" using k' by (rule row_get_Some_key)
        have "j_task j \<noteq> Some x"
        proof
          assume a: "j_task j = Some x"
          then have "get_job_row (d_id doc) d = Some j" using j by (auto simp: new_job_def)
          from receipts_mirrorD(3) [OF rm this a u(1)] u(2) id \<open>j_document k = did\<close> False
          show False by (simp add: mirrors_def)
        qed
        then show ?thesis using look other u freshd by auto
      qed
      then show ?thesis using receipts_mirrorD(1) [OF rm k'] by blast
    qed
  qed
  have live2: "live_tasks_current ?d2"
    unfolding live_tasks_current_def
  proof (intro allI impI)
    fix x u assume u: "get_task_row x ?d2 = Some u \<and> live_task u"
    show "\<exists>did k. t_document u = Some did \<and> get_job_row did ?d2 = Some k \<and> j_task k = Some x"
    proof (cases "x = tid")
      case True
      then have "u = ?t" using u look by simp
      then show ?thesis using jrow True by (simp add: new_task_def)
    next
      case False
      then have u1: "get_task_row x ?d1 = Some u" using u look by simp
      have n: "j_task j \<noteq> Some x"
        using supersede_task_cases [of j kind "clk 0" d] u u1 by (auto simp: row_get_put)
      then have "get_task_row x d = Some u" using u1 other by simp
      then obtain did k where k: "t_document u = Some did" "get_job_row did d = Some k" "j_task k = Some x"
        using lt u unfolding live_tasks_current_def by blast
      have "did \<noteq> d_id doc" using k n old by auto
      then show ?thesis using k id jobs1 by (simp add: row_get_put)
    qed
  qed
  have nest2: "only_deletes_nest ?d2"
    unfolding only_deletes_nest_def
  proof (intro allI impI)
    fix x u assume u: "get_task_row x ?d2 = Some u \<and> t_parent u \<noteq> None"
    show "t_kind u = KDelete"
    proof (cases "x = tid")
      case True
      then show ?thesis using u look ok by (auto simp: new_task_def enqueue_ok_def)
    next
      case False
      then have "get_task_row x ?d1 = Some u" using u look by simp
      then have "\<exists>y u0. get_task_row y d = Some u0 \<and> t_parent u0 = t_parent u \<and> t_kind u0 = t_kind u"
        using supersede_task_cases [of j kind "clk 0" d] by (auto simp: row_get_put split: if_splits) blast+
      then show ?thesis using nest u unfolding only_deletes_nest_def by metis
    qed
  qed
  have par_old: "t_parent u = None \<or> t_parent u = parent" "t_kind u = j_kind j" if "j_task j = Some x" "get_task_row x d = Some u" for x u
  proof -
    have row: "get_job_row (d_id doc) d = Some j" using that j by (auto simp: new_job_def)
    then show "t_parent u = None \<or> t_parent u = parent" using ok that by (simp add: enqueue_ok_def)
    show "t_kind u = j_kind j" using receipts_mirrorD(3) [OF rm row that] by (simp add: mirrors_def)
  qed
  have kids: "child_tasks x ?d2 = child_tasks x d" if "parent \<noteq> Some x" for x
  proof -
    have "child_tasks x ?d2 = filter (\<lambda>u. t_parent u = Some x \<and> pointed ?d2 (t_id u)) (doc_tasks ?d1)"
      using that by (simp add: child_tasks_pointed new_task_def)
    also have "\<dots> = filter (\<lambda>u. t_parent u = Some x \<and> pointed d (t_id u)) (doc_tasks ?d1)"
    proof (rule filter_cong [OF refl])
      fix u assume u: "u \<in> set (doc_tasks ?d1)"
      then have u1: "get_task_row (t_id u) ?d1 = Some u" by (rule row_get_distinct [OF dist1])
      have "t_id u \<noteq> tid" using u fresh by (auto simp: row_get_None)
      moreover have "j_task j \<noteq> Some (t_id u)" if "t_parent u = Some x"
      proof
        assume a: "j_task j = Some (t_id u)"
        from supersede_task_cases [of j kind "clk 0" d]
        have "\<exists>u0. get_task_row (t_id u) d = Some u0 \<and> t_parent u0 = t_parent u"
          using a u1 by (auto simp: row_get_put)
        then show False using par_old(1) [OF a] that \<open>parent \<noteq> Some x\<close> by auto
      qed
      ultimately show "(t_parent u = Some x \<and> pointed ?d2 (t_id u)) = (t_parent u = Some x \<and> pointed d (t_id u))"
        using pointed_requeue [of "?d1\<lparr>doc_tasks := doc_tasks ?d1 @ [?t]\<rparr>" ?j "d_id doc" "t_id u"] dist(2) jobs1 id old
        by (auto simp: pointed_def)
    qed
    also have "\<dots> = child_tasks x d"
      using supersede_task_cases [of j kind "clk 0" d]
    proof (elim disjE exE conjE)
      fix y u u' assume y: "j_task j = Some y" "get_task_row y d = Some u" "?d1 = put_task u' d" "t_id u' = y" "t_parent u' = t_parent u"
      then have "t_parent u \<noteq> Some x" using par_old(1) [OF y(1,2)] that by auto
      then show ?thesis using y dist(1) by (simp add: child_tasks_pointed filter_row_put_out)
    qed (simp add: child_tasks_pointed)
    finally show ?thesis .
  qed
  have sync2: "parents_synced (X \<union> set_option parent) ?d2"
    unfolding parents_synced_def
  proof (intro allI impI)
    fix x p assume p: "get_task_row x ?d2 = Some p \<and> t_kind p = KDeleteSeries \<and> x \<notin> X \<union> set_option parent"
    have "x \<noteq> tid" using p look ok by (auto simp: new_task_def enqueue_ok_def)
    then have p1: "get_task_row x ?d1 = Some p" using p look by simp
    have "j_task j \<noteq> Some x"
    proof
      assume a: "j_task j = Some x"
      then have "get_job_row (d_id doc) d = Some j" using j by (auto simp: new_job_def)
      then have "j_kind j \<noteq> KDeleteSeries" using receipts_mirrorD(1) [OF rm] by (auto simp: job_ok_def)
      moreover have "\<exists>u0. get_task_row x d = Some u0 \<and> t_kind u0 = t_kind p"
        using supersede_task_cases [of j kind "clk 0" d] a p1 by (auto simp: row_get_put)
      ultimately show False using par_old(2) [OF a] p by auto
    qed
    then have q: "get_task_row x d = Some p" using p1 other by simp
    then have sy: "synced d p" using ps p by (auto simp: parents_synced_def)
    have "t_id p = x" using q by (rule row_get_Some_key)
    then have "child_tasks (t_id p) ?d2 = child_tasks (t_id p) d" using p by (intro kids) auto
    from synced_frame [OF this] sy show "synced ?d2 p" by simp
  qed
  have "queue_inv_but (X \<union> set_option parent) ?d2"
    using dist2 dist(2) mirror2 live2 nest2 sync2 jobs1 by (simp add: queue_inv_but_def distinct_row_put)
  from sync_parent_inv [OF s this] show ?thesis by (simp add: Un_Diff)
qed

lemma enqueue_inv:
  assumes "enqueue e tid doc reset kind details parent clk d = Inr (res, d')" and "queue_inv_but X d"
    and "enqueue_ok e doc kind parent d"
  shows "queue_inv_but X d'" "res \<noteq> None \<Longrightarrow> queue_inv_but (X - set_option parent) d'"
proof -
  have mono: "queue_inv_but (X - set_option parent) d' \<Longrightarrow> queue_inv_but X d'"
    by (auto simp: queue_inv_but_def parents_synced_def)
  show "queue_inv_but X d'" "res \<noteq> None \<Longrightarrow> queue_inv_but (X - set_option parent) d'"
    using assms requeue_inv [OF assms(2) _ assms(3)] mono by (auto simp: enqueue_def split: option.splits if_splits)
qed

section \<open>The queue as a machine\<close>

text \<open>
  Every transaction on the queue: requests with their callers' conditions, the workers'
  operations for any claim, a new parent task together with its first request, and any change
  that leaves jobs and tasks alone.
\<close>

inductive queue_step :: "db \<Rightarrow> db \<Rightarrow> bool" where
  q_enqueue: "enqueue e tid doc reset kind details parent clk d = Inr (res, d') \<Longrightarrow> enqueue_ok e doc kind parent d \<Longrightarrow>
    queue_step d d'"
| q_series: "row_insert t_id p (doc_tasks d) = Inr ts \<Longrightarrow> t_kind p = KDeleteSeries \<Longrightarrow> t_parent p = None \<Longrightarrow>
    sync_parent (Some (t_id p)) now (d\<lparr>doc_tasks := ts\<rparr>) = Inr d' \<Longrightarrow> queue_step d d'"
| q_progress: "job_progress did phase processed units clk d = Inr d' \<Longrightarrow> queue_step d d'"
| q_claim: "queue_step d (snd (claim_job e token clk d))"
| q_heartbeat: "queue_step d (snd (job_heartbeat e c clk d))"
| q_release: "queue_step d (snd (job_release e c clk d))"
| q_finish: "queue_step d (snd (finish_job e c err attempt clk d))"
| q_other: "jobs d' = jobs d \<Longrightarrow> doc_tasks d' = doc_tasks d \<Longrightarrow> queue_step d d'"

inductive_cases queue_step_cases: "queue_step d d'"

definition queue_reach :: "db \<Rightarrow> bool" where
  "queue_reach d \<longleftrightarrow> (\<exists>d0. jobs d0 = [] \<and> doc_tasks d0 = [] \<and> queue_step\<^sup>*\<^sup>* d0 d)"

lemma job_progress_inv:
  assumes "job_progress did phase processed units clk d = Inr d'" "queue_inv d"
  shows "queue_inv d'"
proof (cases "get_job_row did d")
  case (Some j)
  have row: "job_ok j" "j_document j = did" using job_row_ok [OF assms(2) Some] by auto
  have "put_job j d = d"
    using Some assms(2) row_get_Some_mem [OF Some] by (simp add: put_job_def row_put_same queue_inv_but_def)
  then have "sync_task j (Some phase) processed units clk (put_job j d) = Inr d'"
    using assms(1) Some by (simp add: job_progress_def)
  from sync_task_inv [OF this assms(2), of j] show ?thesis using Some row by simp
qed (use assms in \<open>simp add: job_progress_def\<close>)

lemma new_parent_inv:
  assumes inv: "queue_inv d" and i: "row_insert t_id p (doc_tasks d) = Inr ts" and k: "t_kind p = KDeleteSeries" "t_parent p = None"
  shows "queue_inv_but {t_id p} (d\<lparr>doc_tasks := ts\<rparr>)"
proof -
  let ?d = "d\<lparr>doc_tasks := ts\<rparr>"
  have ts: "ts = doc_tasks d @ [p]" and fresh: "get_task_row (t_id p) d = None" using i by (auto simp: result_simps)
  have dist: "distinct (map t_id (doc_tasks d))" "distinct (map j_document (jobs d))" and rm: "receipts_mirror d"
    and lt: "live_tasks_current d" and nest: "only_deletes_nest d" and ps: "parents_synced {} d"
    using inv by (auto simp: queue_inv_but_def)
  have look: "get_task_row x ?d = (if x = t_id p then Some p else get_task_row x d)" for x
    using fresh by (auto simp: ts row_get_append split: option.splits)
  have kids: "child_tasks x ?d = child_tasks x d" for x
    using k by (simp add: child_tasks_pointed pointed_def ts)
  have "receipts_mirror ?d"
    unfolding receipts_mirror_def
  proof (intro allI impI)
    fix did j assume "get_job_row did ?d = Some j"
    then have j: "get_job_row did d = Some j" by simp
    have "\<exists>u. get_task_row x ?d = Some u \<and> mirrors u j" if "j_task j = Some x" for x
      using receipts_mirrorD(2) [OF rm j that] fresh look by auto
    then show "job_ok j \<and> (\<forall>x. j_task j = Some x \<longrightarrow> (\<exists>u. get_task_row x ?d = Some u \<and> mirrors u j))"
      using receipts_mirrorD(1) [OF rm j] by blast
  qed
  moreover have "live_tasks_current ?d"
    unfolding live_tasks_current_def
  proof (intro allI impI)
    fix x u assume u: "get_task_row x ?d = Some u \<and> live_task u"
    then have "x \<noteq> t_id p" using look k by (auto simp: live_task_def)
    then have "get_task_row x d = Some u \<and> live_task u" using u look by simp
    then have "\<exists>did j. t_document u = Some did \<and> get_job_row did d = Some j \<and> j_task j = Some x"
      using lt unfolding live_tasks_current_def by blast
    then show "\<exists>did j. t_document u = Some did \<and> get_job_row did ?d = Some j \<and> j_task j = Some x" by simp
  qed
  moreover have "only_deletes_nest ?d"
    unfolding only_deletes_nest_def
  proof (intro allI impI)
    fix x u assume u: "get_task_row x ?d = Some u \<and> t_parent u \<noteq> None"
    then have "x \<noteq> t_id p" using look k by auto
    then show "t_kind u = KDelete" using u look nest unfolding only_deletes_nest_def by metis
  qed
  moreover have "parents_synced {t_id p} ?d"
    unfolding parents_synced_def
  proof (intro allI impI)
    fix x q assume q: "get_task_row x ?d = Some q \<and> t_kind q = KDeleteSeries \<and> x \<notin> {t_id p}"
    then have "get_task_row x d = Some q" using look by (auto split: if_splits)
    then have "synced d q" using ps q by (auto simp: parents_synced_def)
    then show "synced ?d q" using synced_frame [OF kids] by simp
  qed
  moreover have "distinct (map t_id ts)" using dist(1) fresh by (auto simp: ts row_get_None)
  ultimately show ?thesis using dist by (simp add: queue_inv_but_def)
qed

lemma queue_step_inv:
  assumes "queue_step d d'" "queue_inv d"
  shows "queue_inv d'"
  using assms(1)
proof cases
  case (q_enqueue e tid doc reset kind details parent clk res)
  then show ?thesis using enqueue_inv(1) assms(2) by blast
next
  case (q_series p ts now)
  show ?thesis using sync_parent_inv [OF q_series(4) new_parent_inv [OF assms(2) q_series(1-3)]] by simp
next
  case (q_progress did phase processed units clk)
  then show ?thesis using job_progress_inv assms(2) by blast
next
  case q_other
  then show ?thesis using queue_inv_frame [of d' d "{}"] assms(2) by simp
qed (simp_all only: claim_job_inv [OF assms(2)] job_heartbeat_inv [OF assms(2)] job_release_inv [OF assms(2)] finish_job_inv [OF assms(2)])

lemma queue_steps_inv: "queue_step\<^sup>*\<^sup>* d d' \<Longrightarrow> queue_inv d \<Longrightarrow> queue_inv d'"
  by (induction rule: rtranclp_induct) (auto intro: queue_step_inv)

lemma empty_queue_inv: "jobs d = [] \<Longrightarrow> doc_tasks d = [] \<Longrightarrow> queue_inv d"
  by (simp add: queue_inv_but_def receipts_mirror_def live_tasks_current_def only_deletes_nest_def parents_synced_def)

lemma queue_reach_inv: "queue_reach d \<Longrightarrow> queue_inv d"
  using queue_steps_inv empty_queue_inv unfolding queue_reach_def by blast

text \<open>A first request in an otherwise empty queue, claimed by a worker.\<close>

definition demo_job_env :: job_env where
  "demo_job_env = \<lparr>je_max_attempts = 3, je_lease = 30, je_poll = 2, je_hierarchy = ''h'', je_text = (\<lambda>_. ''text'')\<rparr>"

definition demo_docs_db :: db where
  "demo_docs_db = empty_db\<lparr>documents := [demo_document]\<rparr>"

definition demo_job :: ingestion_job where
  "demo_job = (new_job demo_document)\<lparr>j_task := Some 70, j_attempts := 0, j_max_attempts := 3, j_available := 2\<rparr>"

definition demo_task :: doc_task where
  "demo_task = new_task demo_job_env 70 demo_document KIngest [] None 1"

definition demo_queued_db :: db where
  "demo_queued_db = demo_docs_db\<lparr>doc_tasks := [demo_task], jobs := [demo_job]\<rparr>"

definition demo_running_db :: db where
  "demo_running_db = demo_docs_db\<lparr>
     doc_tasks := [demo_task\<lparr>t_state := TRunning, t_phase := ''running'', t_attempts := 1, t_updated := 101\<rparr>],
     jobs := [demo_job\<lparr>j_state := TRunning, j_attempts := 1, j_token := Some 9, j_lease := Some 130\<rparr>]\<rparr>"

lemma demo_enqueue:
  "enqueue demo_job_env 70 demo_document False KIngest [] None int demo_docs_db = Inr (Some demo_task, demo_queued_db)"
  by (simp add: enqueue_def requeue_job_def supersede_task_def Let_def row_insert_def sync_parent_def demo_docs_db_def
      demo_queued_db_def demo_job_def new_job_def demo_task_def demo_document_def demo_job_env_def empty_db_def
      put_job_def row_put_def new_task_def)

lemma demo_queued_reach: "queue_reach demo_queued_db"
proof -
  have "queue_step demo_docs_db demo_queued_db"
    by (rule q_enqueue [OF demo_enqueue]) (simp add: enqueue_ok_def demo_docs_db_def empty_db_def demo_job_env_def)
  then show ?thesis unfolding queue_reach_def
    by (intro exI [of _ demo_docs_db]) (simp add: demo_docs_db_def empty_db_def)
qed

lemma demo_claim:
  "claim_job demo_job_env 9 (\<lambda>n. 100 + int n) demo_queued_db =
     (Inr (Some \<lparr>jc_document = 20, jc_user = 1, jc_token = 9, jc_exhausted = False, jc_kind = KIngest\<rparr>), demo_running_db)"
  by (simp add: claim_job_def transaction_def lock_next_job_def job_ready_def Let_def committed_def sync_task_def sync_parent_def
      demo_queued_db_def demo_running_db_def demo_docs_db_def demo_job_def new_job_def demo_task_def new_task_def
      demo_document_def demo_job_env_def put_job_def put_task_def row_put_def)

lemma demo_running_reach: "queue_reach demo_running_db"
proof -
  have "queue_step demo_queued_db demo_running_db"
    using q_claim [of demo_queued_db demo_job_env 9 "\<lambda>n. 100 + int n"] demo_claim by simp
  then show ?thesis using demo_queued_reach unfolding queue_reach_def by (meson rtranclp.rtrancl_into_rtrancl)
qed

text \<open>
  The receipt of a series follows its versions. In every reachable state a series task
  has counted the versions retired before it and the current receipts that have succeeded, is
  itself succeeded exactly when that count is its total, and otherwise is failed exactly when
  the current receipt of some version has failed or was cancelled.
\<close>

lemma series_receipt_in_sync:
  assumes "queue_reach d" and "p \<in> set (doc_tasks d)" and "t_kind p = KDeleteSeries"
  shows "t_processed p = retired_before p + int (length (filter (\<lambda>c. t_state c = TSucceeded) (child_tasks (t_id p) d))) \<and>
    (t_state p = TSucceeded \<longleftrightarrow> Some (t_processed p) = t_total p) \<and>
    (t_state p = TFailed \<longleftrightarrow> Some (t_processed p) \<noteq> t_total p \<and>
       (\<exists>c\<in>set (child_tasks (t_id p) d). t_state c = TFailed \<or> t_state c = TCancelled))"
proof -
  have inv: "queue_inv d" by (rule queue_reach_inv [OF assms(1)])
  then have "get_task_row (t_id p) d = Some p" using row_get_distinct [of t_id, OF _ assms(2)] by (simp add: queue_inv_but_def)
  then have "synced d p" using inv assms(3) by (auto simp: queue_inv_but_def parents_synced_def)
  then show ?thesis by (auto simp: synced_def Let_def parent_state_def list_ex_iff split: if_splits)
qed



theorem series_receipt_in_sync_witness:
  "\<exists>d p. queue_reach d \<and> p \<in> set (doc_tasks d) \<and> t_kind p = KDeleteSeries \<and> t_processed p = 1 \<and> t_state p = TSucceeded"
proof -
  let ?p = "series_task 80 demo_document 20 1 None 1 0 5"
  let ?q = "?p\<lparr>t_state := TSucceeded, t_phase := ''done'', t_error := None, t_processed := 1, t_updated := 6\<rparr>"
  have s: "queue_step demo_docs_db (demo_docs_db\<lparr>doc_tasks := [?q]\<rparr>)"
    by (rule q_series [of ?p _ "[?p]" 6])
      (simp_all add: row_insert_def demo_docs_db_def empty_db_def series_task_def sync_parent_def Let_def child_tasks_def
        parent_state_def retired_before_def dict_get_def put_task_def row_put_def)
  then have r: "queue_reach (demo_docs_db\<lparr>doc_tasks := [?q]\<rparr>)"
    unfolding queue_reach_def by (intro exI [of _ demo_docs_db]) (simp add: demo_docs_db_def empty_db_def)
  have "?q \<in> set (doc_tasks (demo_docs_db\<lparr>doc_tasks := [?q]\<rparr>))" "t_kind ?q = KDeleteSeries"
    by (simp_all add: series_task_def)
  from series_receipt_in_sync [OF r this] this r show ?thesis
    by (intro exI [of _ "demo_docs_db\<lparr>doc_tasks := [?q]\<rparr>"] exI [of _ ?q]) (simp add: series_task_def)
qed

section \<open>How an attempt ends\<close>

definition document_finished :: "job_env \<Rightarrow> task_kind \<Rightarrow> document \<Rightarrow> bool" where
  "document_finished e k doc = (case k of
     KDelete \<Rightarrow> d_status doc = DocRetired
   | KHierarchy \<Rightarrow> d_status doc = DocReady \<and> manifest_valid e doc
   | _ \<Rightarrow> d_status doc = DocReady)"

definition pinned_error :: "exn option \<Rightarrow> bool" where
  "pinned_error err = (case err of None \<Rightarrow> False | Some x \<Rightarrow> exn_code x = Some ''DOCUMENT_INDEX_PINNED'')"

lemma finish_verdict_outcome:
  assumes v: "finish_verdict e c err doc attempt now j = Inr (j1, phase, doc1)" and run: "j_state j = TRunning"
  shows "(j_state j1 = TSucceeded \<longleftrightarrow> document_finished e (jc_kind c) doc) \<and>
    (j_state j1 = TQueued \<longrightarrow> may_retry err j \<or> jc_kind c = KDelete \<and> pinned_error err) \<and>
    (j_state j1 = TFailed \<longrightarrow> \<not> may_retry err j) \<and>
    (j_state j1 = TCancelled \<longrightarrow> d_status doc = DocDeleting \<and> jc_kind c \<noteq> KDelete)"
proof (cases "jc_kind c")
  case KDelete
  then show ?thesis using v
    by (auto simp: finish_verdict_def finish_delete_def Let_def document_finished_def pinned_error_def job_succeeded_def
        job_failed_def job_retried_def split: if_splits)
next
  case KHierarchy
  then show ?thesis using v
    by (auto simp: finish_verdict_def finish_hierarchy_def Let_def document_finished_def job_succeeded_def job_failed_def
        job_retried_def split: if_splits)
next
  case KIngest
  then show ?thesis using v
    by (auto simp: finish_verdict_def finish_ingest_def Let_def document_finished_def job_succeeded_def job_failed_def
        job_retried_def result_simps split: if_splits)
next
  case KDeleteSeries
  then show ?thesis using v
    by (auto simp: finish_verdict_def finish_ingest_def Let_def document_finished_def job_succeeded_def job_failed_def
        job_retried_def result_simps split: if_splits)
qed

text \<open>
  how an attempt ends. When \<open>finish\<close> commits, the job is no longer leased and its outcome
  is decided by the document, not by the error: it succeeds exactly when the document has
  reached the job's goal; it is queued again only for a retryable error with attempts left or
  for a pinned index; it fails only when no retry is left; and no other job is touched.
\<close>

lemma finish_job_outcome:
  assumes "queue_reach d" and "finish_job e c err attempt clk d = (Inr (), d')"
  shows "\<exists>doc j j'. document_of (jc_user c) (jc_document c) d = Inr doc \<and> get_job_row (jc_document c) d = Some j \<and>
    get_job_row (jc_document c) d' = Some j' \<and> j_token j' = None \<and> j_lease j' = None \<and> j_state j' \<noteq> TRunning \<and>
    (j_state j' = TSucceeded \<longleftrightarrow> document_finished e (jc_kind c) doc) \<and>
    (j_state j' = TQueued \<longrightarrow> may_retry err j \<or> jc_kind c = KDelete \<and> pinned_error err) \<and>
    (j_state j' = TFailed \<longrightarrow> \<not> may_retry err j) \<and>
    (\<forall>did. did \<noteq> jc_document c \<longrightarrow> get_job_row did d' = get_job_row did d)"
proof -
  have inv: "queue_inv d" by (rule queue_reach_inv [OF assms(1)])
  obtain doc j j1 phase doc1 where f: "document_of (jc_user c) (jc_document c) d = Inr doc" "job_owned c (clk 0) d = Inr j"
    "finish_verdict e c err doc attempt (clk 1) j = Inr (j1, phase, doc1)"
    "sync_task (end_lease j1) (Some phase) None None (\<lambda>n. clk (n + 3)) (put_job (end_lease j1) (put_document doc1 d)) = Inr d'"
    using finish_job_cases [OF assms(2)] by blast
  have m: "jobs d' = row_put j_document (end_lease j1) (jobs d)" "same_job j j1"
    using finish_job_moved [OF inv f(2-4)] by auto
  have row: "get_job_row (jc_document c) d = Some j" "j_state j = TRunning" "j_document j = jc_document c"
    using job_owned_row [OF f(2)] job_row_ok [OF inv] by auto
  have id: "j_document (end_lease j1) = jc_document c" using m(2) row(3) by (simp add: same_job_def end_lease_def)
  have "get_job_row did d' = (if did = jc_document c then Some (end_lease j1) else get_job_row did d)" for did
    using m(1) id by (simp add: row_get_put)
  then show ?thesis
    using f(1) row m(2) finish_verdict_outcome [OF f(3) row(2)]
    by (intro exI [of _ doc] exI [of _ j] exI [of _ "end_lease j1"]) (simp add: end_lease_def same_job_def)
qed

lemma finish_job_outcome_witness:
  "\<exists>d'. finish_job demo_job_env \<lparr>jc_document = 20, jc_user = 1, jc_token = 9, jc_exhausted = False, jc_kind = KIngest\<rparr>
      None 5 (\<lambda>n. 110 + int n) demo_running_db = (Inr (), d') \<and>
     (\<exists>j. get_job_row 20 d' = Some j \<and> j_state j = TSucceeded)"
proof -
  let ?c = "\<lparr>jc_document = 20, jc_user = 1, jc_token = 9, jc_exhausted = False, jc_kind = KIngest\<rparr>"
  obtain d' where f: "finish_job demo_job_env ?c None 5 (\<lambda>n. 110 + int n) demo_running_db = (Inr (), d')"
    by (simp add: finish_job_def transaction_def document_of_def job_owned_def finish_verdict_def finish_ingest_def
        job_succeeded_def state_phase_def lease_over_def end_lease_def sync_task_def sync_parent_def Let_def committed_def
        demo_running_db_def demo_docs_db_def demo_job_def new_job_def demo_task_def new_task_def demo_document_def
        put_job_def put_task_def put_document_def)
  have doc: "document_of 1 20 demo_running_db = Inr demo_document"
    by (simp add: document_of_def demo_running_db_def demo_docs_db_def demo_document_def)
  from finish_job_outcome [OF demo_running_reach f] doc f show ?thesis
    by (auto simp: document_finished_def demo_document_def)
qed

end
