(* ===== verification/HierarchyTree.thy ===== *)
theory HierarchyTree
  imports Contracts
begin

text \<open>
  The three-level source trees (\<open>app/manager/loaders/hierarchy.py\<close>) and their publication
  (\<open>publish_tree\<close> of \<open>app/manager/hierarchy.py\<close>): leaves are packed greedily into parents and
  parents into roots, never across a source boundary. The text splitter, the token counter,
  SHA-256 and UUIDs are libraries and arguments of the model.
\<close>

record tree_env =
  te_sha256 :: "string \<Rightarrow> string"
  te_uuid5 :: "string \<Rightarrow> string \<Rightarrow> string"
  te_uuid :: "string \<Rightarrow> uuid option"
  te_split :: "nat \<Rightarrow> string \<Rightarrow> string list"
  te_tokens :: "string \<Rightarrow> int"
  te_size :: int
  te_overlap :: int
  te_max :: nat

record source_unit =
  un_text :: string
  un_page :: "int option"
  un_section :: "string option"
  un_excel :: "excel_source option"

record tree =
  tr_leaves :: "chunk list"
  tr_nodes :: "hierarchy_node list"
  tr_fingerprint :: string
  tr_mode :: string

definition tree_fingerprint :: "tree_env \<Rightarrow> string" where
  "tree_fingerprint e = te_sha256 e (dumps True (sort_keys (JObj [(''version'', JInt 1), (''size'', JInt (te_size e)),
     (''overlap'', JInt (te_overlap e)), (''factors'', JArr [JInt 4, JInt 2, JInt 1]), (''fanout'', JInt 8),
     (''encoding'', JStr ''cl100k_base'')])))"

definition text_too_large :: exn where
  "text_too_large = AppError ''HIERARCHY_TEXT_TOO_LARGE'' 413"

definition scope_mismatch :: exn where
  "scope_mismatch = AppError ''HIERARCHY_SCOPE_MISMATCH'' 503"

definition too_many_chunks :: exn where
  "too_many_chunks = AppError ''TOO_MANY_CHUNKS'' 413"

text \<open>A group is a root text with its parents; a parent is a text with its leaves.\<close>

type_synonym parent_group = "string \<times> chunk list"
type_synonym root_group = "string \<times> parent_group list"

section \<open>Splitting normalized units\<close>

definition split_text :: "tree_env \<Rightarrow> nat \<Rightarrow> string \<Rightarrow> string list result" where
  "split_text e factor s =
     (let parts = te_split e factor s in
      if list_ex (\<lambda>p. 48000 < length p) parts then Inl text_too_large else Inr parts)"

fun split_all :: "tree_env \<Rightarrow> nat \<Rightarrow> string list \<Rightarrow> (string \<times> string list) list result" where
  "split_all e factor [] = Inr []"
| "split_all e factor (s # ss) =
     and_then (split_text e factor s) (\<lambda>parts.
     and_then (split_all e factor ss) (\<lambda>rest. Inr ((s, parts) # rest)))"

fun split_roots :: "tree_env \<Rightarrow> string list \<Rightarrow> (string \<times> (string \<times> string list) list) list result" where
  "split_roots e [] = Inr []"
| "split_roots e (r # rs) =
     and_then (split_text e 2 r) (\<lambda>ps.
     and_then (split_all e 1 ps) (\<lambda>parents.
     and_then (split_roots e rs) (\<lambda>rest. Inr ((r, parents) # rest))))"

definition newline :: char where "newline = CHR 0x0A"

fun fix_crlf :: "string \<Rightarrow> string" where
  "fix_crlf (a # b # s) = (if a = CHR 0x0D \<and> b = newline then newline # fix_crlf s else a # fix_crlf (b # s))"
| "fix_crlf s = s"

fun squeeze_lines :: "string \<Rightarrow> string" where
  "squeeze_lines (a # b # c # s) =
     (if a = newline \<and> b = newline \<and> c = newline then squeeze_lines (b # c # s) else a # squeeze_lines (b # c # s))"
| "squeeze_lines s = s"

definition unit_text :: "source_unit \<Rightarrow> string" where
  "unit_text u = strip (squeeze_lines (filter (\<lambda>c. c \<noteq> CHR 0x00) (fix_crlf (un_text u))))"

fun chunks_of :: "nat \<Rightarrow> 'a list \<Rightarrow> 'a list list" where
  "chunks_of n [] = []"
| "chunks_of n (x # xs) = (if n = 0 then [] else take n (x # xs) # chunks_of n (drop n (x # xs)))"

definition make_leaf :: "tree_env \<Rightarrow> uuid \<Rightarrow> uuid \<Rightarrow> string \<Rightarrow> source_unit \<Rightarrow> nat \<Rightarrow> string \<Rightarrow> chunk" where
  "make_leaf e uid did name u i content =
     \<lparr>ch_id = te_uuid5 e (uuid_str did) (''hierarchy:'' @ tree_fingerprint e @ '':'' @ show_nat i @ '':'' @ te_sha256 e content),
      ch_user = uuid_str uid, ch_document = uuid_str did, ch_index = int i, ch_content = content, ch_source = name,
      ch_page = un_page u, ch_section = un_section u, ch_excel = un_excel u\<rparr>"

text \<open>The leaves of one parent text; \<open>n\<close> leaves exist before it.\<close>

fun make_leaves :: "tree_env \<Rightarrow> uuid \<Rightarrow> uuid \<Rightarrow> string \<Rightarrow> source_unit \<Rightarrow> nat \<Rightarrow> string list \<Rightarrow> chunk list result" where
  "make_leaves e uid did name u n [] = Inr []"
| "make_leaves e uid did name u n (s # ss) =
     and_then (raise_if ((case un_excel u of None \<Rightarrow> False | Some x \<Rightarrow> \<not> excel_source_ok x)) (OtherError ''ValueError'')) (\<lambda>_.
     and_then (raise_if (te_max e < n + 1) too_many_chunks) (\<lambda>_.
     and_then (make_leaves e uid did name u (n + 1) ss) (\<lambda>rest. Inr (make_leaf e uid did name u n s # rest))))"

fun build_parents ::
    "tree_env \<Rightarrow> uuid \<Rightarrow> uuid \<Rightarrow> string \<Rightarrow> source_unit \<Rightarrow> nat \<Rightarrow> (string \<times> string list) list
     \<Rightarrow> (parent_group list \<times> chunk list) result" where
  "build_parents e uid did name u n [] = Inr ([], [])"
| "build_parents e uid did name u n ((text, parts) # ps) =
     and_then (make_leaves e uid did name u n parts) (\<lambda>cs.
     and_then (build_parents e uid did name u (n + length cs) ps) (\<lambda>(gs, rest).
       Inr (map (Pair text) (chunks_of 8 cs) @ gs, cs @ rest)))"

fun build_roots ::
    "tree_env \<Rightarrow> uuid \<Rightarrow> uuid \<Rightarrow> string \<Rightarrow> source_unit \<Rightarrow> nat \<Rightarrow> (string \<times> (string \<times> string list) list) list
     \<Rightarrow> (root_group list \<times> chunk list) result" where
  "build_roots e uid did name u n [] = Inr ([], [])"
| "build_roots e uid did name u n ((text, parents) # rs) =
     and_then (build_parents e uid did name u n parents) (\<lambda>(ps, cs).
     and_then (build_roots e uid did name u (n + length cs) rs) (\<lambda>(gs, rest).
       Inr (map (Pair text) (chunks_of 8 ps) @ gs, cs @ rest)))"

fun build_units ::
    "tree_env \<Rightarrow> uuid \<Rightarrow> uuid \<Rightarrow> string \<Rightarrow> nat \<Rightarrow> source_unit list \<Rightarrow> (root_group list \<times> chunk list) result" where
  "build_units e uid did name n [] = Inr ([], [])"
| "build_units e uid did name n (u # us) =
     (let text = unit_text u in
      if text = [] then build_units e uid did name n us
      else
        and_then (case un_excel u of
            Some _ \<Rightarrow> Inr [(text, [(text, [text])])]
          | None \<Rightarrow> and_then (split_text e 4 text) (split_roots e)) (\<lambda>parts.
        and_then (build_roots e uid did name u n parts) (\<lambda>(gs, cs).
        and_then (build_units e uid did name (n + length cs) us) (\<lambda>(hs, rest). Inr (gs @ hs, cs @ rest)))))"

section \<open>Packing leaves\<close>

text \<open>Greedy packing: an element opens a new group when the current one would no longer fit.\<close>

fun pack :: "('a list \<Rightarrow> bool) \<Rightarrow> 'a list \<Rightarrow> 'a list \<Rightarrow> 'a list list" where
  "pack fits cur [] = (if cur = [] then [] else [cur])"
| "pack fits cur (x # xs) =
     (if cur \<noteq> [] \<and> \<not> fits (cur @ [x]) then cur # pack fits [x] xs else pack fits (cur @ [x]) xs)"

definition parent_fits :: "tree_env \<Rightarrow> chunk list \<Rightarrow> bool" where
  "parent_fits e cs = (length cs \<le> 8 \<and> te_tokens e (joined_content cs) \<le> te_size e * 2 \<and> length (joined_content cs) \<le> 24000)"

definition root_fits :: "tree_env \<Rightarrow> chunk list list \<Rightarrow> bool" where
  "root_fits e ps = (length ps \<le> 8 \<and> te_tokens e (joined_content (concat ps)) \<le> te_size e * 4 \<and>
     length (joined_content (concat ps)) \<le> 48000)"

text \<open>\<open>itertools.groupby\<close>: runs of leaves with the same boundary.\<close>

function runs_of :: "('a \<Rightarrow> 'b) \<Rightarrow> 'a list \<Rightarrow> 'a list list" where
  "runs_of f [] = []"
| "runs_of f (x # xs) = (x # takeWhile (\<lambda>y. f y = f x) xs) # runs_of f (dropWhile (\<lambda>y. f y = f x) xs)"
  by pat_completeness auto

termination
  by (relation "measure (\<lambda>(f, xs). length xs)") (auto simp: less_Suc_eq_le length_dropWhile_le)

definition root_group_of :: "chunk list list \<Rightarrow> root_group" where
  "root_group_of ps = (joined_content (concat ps), map (\<lambda>p. (joined_content p, p)) ps)"

definition boundary_roots :: "tree_env \<Rightarrow> chunk list \<Rightarrow> root_group list" where
  "boundary_roots e run = map root_group_of (pack (root_fits e) [] (pack (parent_fits e) [] run))"

definition old_excel :: "chunk \<Rightarrow> bool" where
  "old_excel c = ((suffix ''.XLS'' (map upper (ch_source c)) \<or> suffix ''.XLSX'' (map upper (ch_source c))) \<and>
     ch_excel c = None \<and> (case ch_section c of None \<Rightarrow> True | Some s \<Rightarrow> s = []))"

section \<open>Nodes\<close>

definition leaf_metadata :: "chunk \<Rightarrow> dict" where
  "leaf_metadata c = [(''source_name'', JStr (ch_source c)), (''page_number'', opt_int (ch_page c)),
     (''section'', opt_str (ch_section c)), (''excel_source'', (case ch_excel c of None \<Rightarrow> JNull | Some x \<Rightarrow> excel_json x))]"

definition inner_id :: "tree_env \<Rightarrow> string \<Rightarrow> string \<Rightarrow> nat \<Rightarrow> chunk list \<Rightarrow> string" where
  "inner_id e did mode level cs = te_uuid5 e did (''hierarchy:'' @ tree_fingerprint e @ '':'' @ mode @ '':'' @
     show_nat level @ '':'' @ joined '','' (map ch_id cs))"

definition make_node ::
    "tree_env \<Rightarrow> uuid \<Rightarrow> uuid \<Rightarrow> nat \<Rightarrow> string \<Rightarrow> string \<Rightarrow> uuid option \<Rightarrow> int option \<Rightarrow> dict \<Rightarrow> hierarchy_node result" where
  "make_node e uid did level identity text parent leaf_index meta =
     and_then (raise_if (text = [] \<or> 48000 < length text) text_too_large) (\<lambda>_.
     and_then (require_row (te_uuid e identity) (OtherError ''ValueError'')) (\<lambda>nid.
       Inr \<lparr>n_id = nid, n_document = did, n_user = uid, n_parent = parent, n_level = int level, n_leaf_index = leaf_index,
         n_text = text, n_hash = te_sha256 e text, n_fingerprint = tree_fingerprint e, n_metadata = meta\<rparr>))"

fun leaf_nodes :: "tree_env \<Rightarrow> uuid \<Rightarrow> uuid \<Rightarrow> uuid \<Rightarrow> chunk list \<Rightarrow> hierarchy_node list result" where
  "leaf_nodes e uid did parent [] = Inr []"
| "leaf_nodes e uid did parent (c # cs) =
     and_then (make_node e uid did 3 (ch_id c) (ch_content c) (Some parent) (Some (ch_index c)) (leaf_metadata c)) (\<lambda>n.
     and_then (leaf_nodes e uid did parent cs) (\<lambda>ns. Inr (n # ns)))"

definition counted :: "nat \<Rightarrow> nat \<Rightarrow> dict \<Rightarrow> dict" where
  "counted kids leaves m = dict_update m [(''child_count'', JInt (int kids)), (''descendant_leaf_count'', JInt (int leaves))]"

fun parent_nodes :: "tree_env \<Rightarrow> uuid \<Rightarrow> uuid \<Rightarrow> string \<Rightarrow> uuid \<Rightarrow> parent_group list \<Rightarrow> hierarchy_node list result" where
  "parent_nodes e uid did mode root [] = Inr []"
| "parent_nodes e uid did mode root ((text, cs) # ps) =
     and_then (make_node e uid did 2 (inner_id e (uuid_str did) mode 2 cs) text (Some root) None
       (counted (length cs) (length cs) (leaf_metadata (hd cs)))) (\<lambda>n.
     and_then (leaf_nodes e uid did (n_id n) cs) (\<lambda>ls.
     and_then (parent_nodes e uid did mode root ps) (\<lambda>rest. Inr (n # ls @ rest))))"

fun group_nodes :: "tree_env \<Rightarrow> uuid \<Rightarrow> uuid \<Rightarrow> string \<Rightarrow> root_group list \<Rightarrow> hierarchy_node list result" where
  "group_nodes e uid did mode [] = Inr []"
| "group_nodes e uid did mode ((text, ps) # gs) =
     (let cs = concat (map snd ps) in
      and_then (raise_if (\<not> same_source cs) scope_mismatch) (\<lambda>_.
      and_then (make_node e uid did 1 (inner_id e (uuid_str did) mode 1 cs) text None None
        (counted (length ps) (length cs) (leaf_metadata (hd cs)))) (\<lambda>n.
      and_then (parent_nodes e uid did mode (n_id n) ps) (\<lambda>ns.
      and_then (group_nodes e uid did mode gs) (\<lambda>rest. Inr (n # ns @ rest))))))"

text \<open>\<open>uid\<close> and \<open>did\<close> are the identities that the leaves carry as text.\<close>

definition make_tree :: "tree_env \<Rightarrow> chunk list \<Rightarrow> root_group list \<Rightarrow> string \<Rightarrow> tree result" where
  "make_tree e leaves groups mode =
     (if leaves = [] \<or> te_max e < length leaves then Inl too_many_chunks
      else if map ch_index leaves \<noteq> [0..int (length leaves) - 1] \<or> \<not> distinct (map ch_id leaves) \<or>
         list_ex (\<lambda>c. (ch_user c, ch_document c, ch_source c) \<noteq>
           (ch_user (hd leaves), ch_document (hd leaves), ch_source (hd leaves))) leaves
      then Inl scope_mismatch
      else
        and_then (require_row (te_uuid e (ch_user (hd leaves))) (OtherError ''ValueError'')) (\<lambda>uid.
        and_then (require_row (te_uuid e (ch_document (hd leaves))) (OtherError ''ValueError'')) (\<lambda>did.
        and_then (group_nodes e uid did mode groups) (\<lambda>nodes.
        and_then (raise_if (3 * length leaves < length nodes) (AppError ''HIERARCHY_INVALID'' 503)) (\<lambda>_.
          Inr \<lparr>tr_leaves = leaves, tr_nodes = nodes, tr_fingerprint = tree_fingerprint e, tr_mode = mode\<rparr>)))))"

definition from_leaves :: "tree_env \<Rightarrow> chunk list \<Rightarrow> string \<Rightarrow> tree result" where
  "from_leaves e leaves mode =
     and_then (raise_if (list_ex old_excel leaves) (AppError ''HIERARCHY_BOUNDARY_UNKNOWN'' 409)) (\<lambda>_.
     and_then (raise_if (list_ex (\<lambda>c. 48000 < length (ch_content c)) leaves) text_too_large) (\<lambda>_.
       make_tree e leaves (concat (map (boundary_roots e) (runs_of source_boundary leaves))) mode))"

definition build_tree :: "tree_env \<Rightarrow> source_unit list \<Rightarrow> uuid \<Rightarrow> uuid \<Rightarrow> string \<Rightarrow> tree result" where
  "build_tree e units uid did name =
     and_then (build_units e uid did name 0 units) (\<lambda>(groups, leaves).
       if leaves \<noteq> [] \<and> list_all (\<lambda>c. ch_excel c \<noteq> None) leaves
       then from_leaves e leaves ''recursive-rows''
       else make_tree e leaves groups ''recursive'')"

definition tree_manifest :: "tree \<Rightarrow> string \<Rightarrow> json \<Rightarrow> dict" where
  "tree_manifest t source_hash generation = [(''version'', JInt 1), (''fingerprint'', JStr (tr_fingerprint t)),
     (''mode'', JStr (tr_mode t)), (''source_hash'', JStr source_hash), (''generation'', generation),
     (''leaf_count'', JInt (int (length (tr_leaves t)))), (''node_count'', JInt (int (length (tr_nodes t)))),
     (''root_count'', JInt (int (length (filter (\<lambda>n. n_level n = 1) (tr_nodes t))))),
     (''parent_count'', JInt (int (length (filter (\<lambda>n. n_level n = 2) (tr_nodes t)))))]"

section \<open>Publication\<close>

definition nodes_of_level :: "int \<Rightarrow> tree \<Rightarrow> hierarchy_node list" where
  "nodes_of_level l t = filter (\<lambda>n. n_level n = l) (tr_nodes t)"

fun insert_nodes :: "hierarchy_node list \<Rightarrow> hierarchy_node list \<Rightarrow> hierarchy_node list result" where
  "insert_nodes [] rows = Inr rows"
| "insert_nodes (n # ns) rows = and_then (row_insert n_id n rows) (insert_nodes ns)"

definition publish_tree :: "document \<Rightarrow> tree \<Rightarrow> db \<Rightarrow> (document \<times> db) result" where
  "publish_tree doc t d =
     and_then (raise_if (list_ex (\<lambda>n. n_document n \<noteq> d_id doc \<or> n_user n \<noteq> d_user doc) (tr_nodes t)) scope_mismatch) (\<lambda>_.
     and_then (insert_nodes (nodes_of_level 1 t @ nodes_of_level 2 t @ nodes_of_level 3 t)
         (row_del (\<lambda>n. n_document n = d_id doc \<and> n_user n = d_user doc) (nodes d))) (\<lambda>rows.
       let doc1 = doc\<lparr>d_metadata := dict_update (d_metadata doc) [(''hierarchy'', JObj (tree_manifest t (d_content_hash doc)
             (case dict_get (d_metadata doc) ''generation'' of None \<Rightarrow> JInt 0 | Some v \<Rightarrow> v)))]\<rparr>
       in Inr (doc1, put_document doc1 (d\<lparr>nodes := rows\<rparr>))))"

section \<open>The tree keeps every leaf, once and in order\<close>

lemma concat_pack: "concat (pack fits cur xs) = cur @ xs"
  by (induction fits cur xs rule: pack.induct) auto

lemma pack_groups:
  assumes "cur = [] \<or> length cur = 1 \<or> fits cur" and "g \<in> set (pack fits cur xs)"
  shows "g \<noteq> [] \<and> (length g = 1 \<or> fits g)"
  using assms
proof (induction fits cur xs rule: pack.induct)
  case (2 fits cur x xs)
  show ?case
  proof (cases "cur \<noteq> [] \<and> \<not> fits (cur @ [x])")
    case True
    then show ?thesis using 2 by auto
  next
    case False
    then show ?thesis using 2 by auto
  qed
qed (auto split: if_splits)

lemma concat_map_concat: "concat (map concat xsss) = concat (concat xsss)"
  by (induction xsss) auto

lemma concat_runs_of: "concat (runs_of f xs) = xs"
  by (induction f xs rule: runs_of.induct) auto

lemma runs_of_same: "g \<in> set (runs_of f xs) \<Longrightarrow> g \<noteq> [] \<and> (\<forall>a\<in>set g. f a = f (hd g))"
proof (induction f xs rule: runs_of.induct)
  case (2 f x xs)
  from "2.prems" consider "g = x # takeWhile (\<lambda>y. f y = f x) xs" | "g \<in> set (runs_of f (dropWhile (\<lambda>y. f y = f x) xs))" by auto
  then show ?case
  proof cases
    case 1
    have "f a = f (hd g)" if "a \<in> set g" for a
    proof (cases "a = x")
      case False
      with that 1 have "a \<in> set (takeWhile (\<lambda>y. f y = f x) xs)" by simp
      from set_takeWhileD [OF this] 1 show ?thesis by simp
    qed (simp add: 1)
    moreover have "g \<noteq> []" using 1 by simp
    ultimately show ?thesis by blast
  next
    case 2
    with "2.IH" show ?thesis by blast
  qed
qed simp

lemma concat_chunks_of: "0 < n \<Longrightarrow> concat (chunks_of n xs) = xs"
  by (induction n xs rule: chunks_of.induct) (auto simp del: take_Suc_Cons drop_Suc_Cons)

lemma chunks_of_groups: "0 < n \<Longrightarrow> g \<in> set (chunks_of n xs) \<Longrightarrow> g \<noteq> [] \<and> length g \<le> n"
  by (induction n xs rule: chunks_of.induct) auto

definition group_leaves :: "root_group list \<Rightarrow> chunk list" where
  "group_leaves gs = concat (map (\<lambda>(_, ps). concat (map snd ps)) gs)"

definition full_groups :: "root_group list \<Rightarrow> bool" where
  "full_groups gs \<longleftrightarrow> (\<forall>(_, ps)\<in>set gs. ps \<noteq> [] \<and> length ps \<le> 8 \<and> (\<forall>(_, cs)\<in>set ps. cs \<noteq> [] \<and> length cs \<le> 8))"

lemma group_leaves_append [simp]: "group_leaves (a @ b) = group_leaves a @ group_leaves b"
  by (simp add: group_leaves_def)

lemma full_groups_append [simp]: "full_groups (a @ b) \<longleftrightarrow> full_groups a \<and> full_groups b"
  by (simp only: full_groups_def set_append ball_Un)

lemma boundary_roots_groups:
  "group_leaves (boundary_roots e run) = run \<and> full_groups (boundary_roots e run)"
proof -
  let ?ps = "pack (parent_fits e) [] run" and ?rs = "pack (root_fits e) [] (pack (parent_fits e) [] run)"
  have "concat (map concat ?rs) = run" by (simp add: concat_map_concat concat_pack)
  moreover have "concat (map snd (map (\<lambda>p. (joined_content p, p)) ps)) = concat ps" for ps :: "chunk list list"
    by (simp add: o_def)
  ultimately have "group_leaves (boundary_roots e run) = run"
    by (simp add: group_leaves_def boundary_roots_def root_group_of_def o_def)
  moreover have "full_groups (boundary_roots e run)"
    unfolding full_groups_def
  proof (intro ballI, clarsimp)
    fix s ps assume "(s, ps) \<in> set (boundary_roots e run)"
    then obtain r where r: "r \<in> set ?rs" "ps = map (\<lambda>p. (joined_content p, p)) r"
      by (auto simp: boundary_roots_def root_group_of_def)
    have "r \<noteq> [] \<and> length r \<le> 8" using pack_groups [of "[]" "root_fits e" r ?ps] r(1) by (auto simp: root_fits_def)
    moreover have "p \<noteq> [] \<and> length p \<le> 8" if "p \<in> set r" for p
    proof -
      have "p \<in> set (concat ?rs)" using r(1) that by auto
      then have "p \<in> set ?ps" by (simp add: concat_pack)
      then show ?thesis using pack_groups [of "[]" "parent_fits e" p run] by (auto simp: parent_fits_def)
    qed
    ultimately show "ps \<noteq> [] \<and> length ps \<le> 8 \<and> (\<forall>x\<in>set ps. case x of (uu_, cs) \<Rightarrow> cs \<noteq> [] \<and> length cs \<le> 8)"
      using r(2) by auto
  qed
  ultimately show ?thesis by blast
qed

lemma packed_groups:
  "group_leaves (concat (map (boundary_roots e) rs)) = concat rs \<and> full_groups (concat (map (boundary_roots e) rs))"
proof (induction rs)
  case (Cons r rs)
  then show ?case using boundary_roots_groups [of e r] by simp
qed (simp add: group_leaves_def full_groups_def)

text \<open>Nodes of each level.\<close>

lemma make_node_fields:
  assumes "make_node e uid did level identity text parent li meta = Inr n"
  shows "n_level n = int level \<and> n_leaf_index n = li \<and> n_text n = text \<and> n_document n = did \<and> n_user n = uid \<and>
    n_parent n = parent \<and> n_metadata n = meta"
  using assms by (auto simp: make_node_def result_simps)

lemma leaf_nodes_shape:
  assumes "leaf_nodes e uid did parent cs = Inr ns"
  shows "(\<forall>n\<in>set ns. n_level n = 3 \<and> n_parent n = Some parent \<and> n_document n = did \<and> n_user n = uid) \<and>
    map (\<lambda>n. (n_leaf_index n, n_text n)) ns = map (\<lambda>c. (Some (ch_index c), ch_content c)) cs"
  using assms
proof (induction cs arbitrary: ns)
  case (Cons c cs)
  then obtain n ms where n: "make_node e uid did 3 (ch_id c) (ch_content c) (Some parent) (Some (ch_index c)) (leaf_metadata c) = Inr n"
    and ms: "leaf_nodes e uid did parent cs = Inr ms" "ns = n # ms" by (auto simp: result_simps)
  show ?case using make_node_fields [OF n] Cons.IH [OF ms(1)] ms(2) by simp
qed simp

definition at_level :: "int \<Rightarrow> hierarchy_node list \<Rightarrow> hierarchy_node list" where
  "at_level l ns = filter (\<lambda>n. n_level n = l) ns"

lemma parent_nodes_shape:
  assumes "parent_nodes e uid did mode root ps = Inr ns"
  shows "(\<forall>n\<in>set ns. n_level n \<in> {2, 3} \<and> n_document n = did \<and> n_user n = uid) \<and> length (at_level 2 ns) = length ps \<and>
    map (\<lambda>n. (n_leaf_index n, n_text n)) (at_level 3 ns) = map (\<lambda>c. (Some (ch_index c), ch_content c)) (concat (map snd ps)) \<and>
    length ns = length ps + length (concat (map snd ps))"
  using assms
proof (induction ps arbitrary: ns)
  case (Cons p ps)
  obtain s cs where p: "p = (s, cs)" by (cases p) auto
  then obtain n ls rest where n: "make_node e uid did 2 (inner_id e (uuid_str did) mode 2 cs) s (Some root) None
       (counted (length cs) (length cs) (leaf_metadata (hd cs))) = Inr n"
    and ls: "leaf_nodes e uid did (n_id n) cs = Inr ls" and rest: "parent_nodes e uid did mode root ps = Inr rest"
    and ns: "ns = n # ls @ rest" using Cons.prems by (auto simp: result_simps)
  have l: "at_level 3 ls = ls" "at_level 2 ls = []" "length ls = length cs"
    using leaf_nodes_shape [OF ls] by (auto simp: at_level_def filter_id_conv filter_empty_conv dest: map_eq_imp_length_eq)
  show ?case using make_node_fields [OF n] leaf_nodes_shape [OF ls] Cons.IH [OF rest] l
    by (simp add: ns p at_level_def ball_Un)
qed (simp add: at_level_def)

lemma group_nodes_shape:
  assumes "group_nodes e uid did mode gs = Inr ns"
  shows "(\<forall>n\<in>set ns. n_level n \<in> {1, 2, 3} \<and> n_document n = did \<and> n_user n = uid) \<and> length (at_level 1 ns) = length gs \<and>
    length (at_level 2 ns) = sum_list (map (\<lambda>(_, ps). length ps) gs) \<and>
    map (\<lambda>n. (n_leaf_index n, n_text n)) (at_level 3 ns) = map (\<lambda>c. (Some (ch_index c), ch_content c)) (group_leaves gs) \<and>
    length ns = length gs + sum_list (map (\<lambda>(_, ps). length ps) gs) + length (group_leaves gs)"
  using assms
proof (induction gs arbitrary: ns)
  case (Cons g gs)
  obtain s ps where g: "g = (s, ps)" by (cases g) auto
  then obtain n ms rest where n: "make_node e uid did 1 (inner_id e (uuid_str did) mode 1 (concat (map snd ps))) s None None
        (counted (length ps) (length (concat (map snd ps))) (leaf_metadata (hd (concat (map snd ps))))) = Inr n"
    and ms: "parent_nodes e uid did mode (n_id n) ps = Inr ms" and rest: "group_nodes e uid did mode gs = Inr rest"
    and ns: "ns = n # ms @ rest" using Cons.prems by (auto simp: result_simps Let_def)
  have "at_level 1 ms = []" using parent_nodes_shape [OF ms] by (auto simp: at_level_def filter_empty_conv)
  then show ?case using make_node_fields [OF n] parent_nodes_shape [OF ms] Cons.IH [OF rest]
    by (auto simp: ns g at_level_def group_leaves_def)
qed (simp add: at_level_def group_leaves_def)

text \<open>Every node hangs below a node of the level above it.\<close>

definition linked :: "hierarchy_node list \<Rightarrow> hierarchy_node list \<Rightarrow> bool" where
  "linked up ns \<longleftrightarrow> (\<forall>n\<in>set ns. n_level n = 1 \<and> n_parent n = None \<or>
     (\<exists>p\<in>set up. n_parent n = Some (n_id p) \<and> n_level n = n_level p + 1))"

lemma linked_mono: "linked up ns \<Longrightarrow> set up \<subseteq> set up' \<Longrightarrow> linked up' ns"
  unfolding linked_def by blast

lemma linked_Nil [simp]: "linked up []"
  by (simp add: linked_def)

lemma linked_append [simp]: "linked up (a @ b) \<longleftrightarrow> linked up a \<and> linked up b"
  by (simp only: linked_def set_append ball_Un)

lemma linked_Cons: "linked up (n # ns) \<longleftrightarrow> linked up [n] \<and> linked up ns"
  by (simp add: linked_def)

lemma leaf_nodes_linked:
  assumes "leaf_nodes e uid did (n_id p) cs = Inr ns" "n_level p = 2"
  shows "linked (p # up) ns"
  using leaf_nodes_shape [OF assms(1)] assms(2) by (simp add: linked_def)

lemma parent_nodes_linked:
  assumes "parent_nodes e uid did mode (n_id r) ps = Inr ns" "n_level r = 1" "r \<in> set up"
  shows "linked (up @ ns) ns"
  using assms(1)
proof (induction ps arbitrary: ns)
  case (Cons p ps)
  obtain s cs where p: "p = (s, cs)" by (cases p) auto
  then obtain n ls rest where n: "make_node e uid did 2 (inner_id e (uuid_str did) mode 2 cs) s (Some (n_id r)) None
       (counted (length cs) (length cs) (leaf_metadata (hd cs))) = Inr n"
    and ls: "leaf_nodes e uid did (n_id n) cs = Inr ls" and rest: "parent_nodes e uid did mode (n_id r) ps = Inr rest"
    and ns: "ns = n # ls @ rest" using Cons.prems by (auto simp: result_simps)
  have "linked (up @ ns) [n]" using make_node_fields [OF n] assms(2,3) by (auto simp: linked_def)
  moreover have "linked (up @ ns) ls"
    by (rule linked_mono [OF leaf_nodes_linked [OF ls, of "[]"]]) (use make_node_fields [OF n] ns in auto)
  moreover have "linked (up @ ns) rest" by (rule linked_mono [OF Cons.IH [OF rest]]) (use ns in auto)
  ultimately have "linked (up @ ns) (n # ls @ rest)" by (simp add: linked_Cons [of _ n "ls @ rest"])
  then show ?case by (simp add: ns)
qed simp

lemma group_nodes_linked:
  assumes "group_nodes e uid did mode gs = Inr ns"
  shows "linked ns ns"
  using assms
proof (induction gs arbitrary: ns)
  case (Cons g gs)
  obtain s ps where g: "g = (s, ps)" by (cases g) auto
  then obtain n ms rest where n: "make_node e uid did 1 (inner_id e (uuid_str did) mode 1 (concat (map snd ps))) s None None
        (counted (length ps) (length (concat (map snd ps))) (leaf_metadata (hd (concat (map snd ps))))) = Inr n"
    and ms: "parent_nodes e uid did mode (n_id n) ps = Inr ms" and rest: "group_nodes e uid did mode gs = Inr rest"
    and ns: "ns = n # ms @ rest" using Cons.prems by (auto simp: result_simps Let_def)
  have "linked ns [n]" using make_node_fields [OF n] by (simp add: linked_def)
  moreover have "linked ns ms"
    by (rule linked_mono [OF parent_nodes_linked [OF ms, of "[n]"]]) (use make_node_fields [OF n] ns in auto)
  moreover have "linked ns rest" by (rule linked_mono [OF Cons.IH [OF rest]]) (use ns in auto)
  ultimately have "linked ns (n # ms @ rest)" by (simp add: linked_Cons [of _ n "ms @ rest"])
  then show ?case by (simp add: ns)
qed simp

lemma full_groups_counts:
  assumes "full_groups gs"
  shows "length gs \<le> sum_list (map (\<lambda>(_, ps). length ps) gs) \<and>
    sum_list (map (\<lambda>(_, ps). length ps) gs) \<le> length (group_leaves gs)"
  using assms
proof (induction gs)
  case (Cons g gs)
  obtain s ps where g: "g = (s, ps)" by (cases g) auto
  have ps: "ps \<noteq> []" "\<forall>(_, cs)\<in>set ps. cs \<noteq> []" using Cons.prems g by (auto simp: full_groups_def)
  have "length ps \<le> length (concat (map snd ps))" using ps(2)
  proof (induction ps)
    case (Cons p ps)
    then have "snd p \<noteq> []" by auto
    then have "1 \<le> length (snd p)" by (cases "snd p") auto
    then show ?case using Cons by simp
  qed simp
  moreover have "1 \<le> length ps" using ps(1) by (cases ps) auto
  ultimately show ?case using Cons g by (auto simp: full_groups_def group_leaves_def)
qed (simp add: group_leaves_def)

lemma make_tree_shape:
  assumes "make_tree e leaves groups mode = Inr t" "group_leaves groups = leaves" "full_groups groups"
  shows "tr_leaves t = leaves \<and> map (\<lambda>n. (n_leaf_index n, n_text n)) (nodes_of_level 3 t) =
      map (\<lambda>c. (Some (ch_index c), ch_content c)) leaves \<and>
    map ch_index leaves = [0..int (length leaves) - 1] \<and>
    length (nodes_of_level 1 t) \<le> length (nodes_of_level 2 t) \<and> length (nodes_of_level 2 t) \<le> length leaves \<and>
    linked (tr_nodes t) (tr_nodes t) \<and> length (nodes_of_level 1 t) = length groups \<and>
    length (nodes_of_level 2 t) = sum_list (map (\<lambda>(_, ps). length ps) groups) \<and>
    (\<forall>n\<in>set (tr_nodes t). n_level n \<in> {1, 2, 3}) \<and>
    (\<exists>uid did. \<forall>n\<in>set (tr_nodes t). n_user n = uid \<and> n_document n = did)"
proof -
  from assms(1) obtain uid did ns where ns: "group_nodes e uid did mode groups = Inr ns" and t: "tr_leaves t = leaves" "tr_nodes t = ns"
    and idx: "map ch_index leaves = [0..int (length leaves) - 1]"
    by (auto simp: make_tree_def result_simps split: if_splits)
  have "\<forall>n\<in>set (tr_nodes t). n_user n = uid \<and> n_document n = did" using group_nodes_shape [OF ns] t(2) by blast
  then show ?thesis using group_nodes_shape [OF ns] group_nodes_linked [OF ns] full_groups_counts [OF assms(3)] t idx assms(2)
    by (auto simp: nodes_of_level_def at_level_def)
qed


definition demo_tree_env :: tree_env where
  "demo_tree_env = \<lparr>te_sha256 = (\<lambda>s. s), te_uuid5 = (\<lambda>a b. a @ b), te_uuid = (\<lambda>s. Some (length s)),
     te_split = (\<lambda>_ s. [s]), te_tokens = (\<lambda>s. int (length s)), te_size = 100, te_overlap = 10, te_max = 50\<rparr>"

definition demo_leaves :: "chunk list" where
  "demo_leaves =
     [\<lparr>ch_id = ''a'', ch_user = ''u'', ch_document = ''d'', ch_index = 0, ch_content = ''x'', ch_source = ''n'',
        ch_page = Some 1, ch_section = None, ch_excel = None\<rparr>,
      \<lparr>ch_id = ''b'', ch_user = ''u'', ch_document = ''d'', ch_index = 1, ch_content = ''y'', ch_source = ''n'',
        ch_page = Some 2, ch_section = None, ch_excel = None\<rparr>]"


lemma demo_from_leaves: "\<exists>t. from_leaves demo_tree_env demo_leaves ''m'' = Inr t"
  by (simp add: from_leaves_def make_tree_def demo_leaves_def result_simps old_excel_def suffix_def boundary_roots_def
      source_boundary_def parent_fits_def root_fits_def joined_content_def demo_tree_env_def root_group_of_def
      same_source_def make_node_def upto.simps Let_def)


end
