(* ===== verification/Ingestion.thy ===== *)
theory Ingestion
  imports DocumentTasks HierarchyTree
begin

text \<open>
  The ingestion of documents (\<open>app/service/ingestion.py\<close>): an attempt of a worker parses a
  document, embeds and indexes its chunks and publishes it, in short transactions that check
  the attempt's generation; retry, version activation and deletion. Files, the parser, the
  embedding model and the vector store are outside the program and arguments of the model.
\<close>

section \<open>Settings and the outside world\<close>

record ingest_env =
  ie_docs :: docs_env
  ie_schema :: schema
  ie_tree :: tree_env
  ie_in_root :: "string \<Rightarrow> bool"
  ie_batch :: nat
  ie_mineru :: bool
  ie_message :: "exn \<Rightarrow> string"
  ie_chunks :: "source_unit list \<Rightarrow> uuid \<Rightarrow> uuid \<Rightarrow> string \<Rightarrow> chunk list result"

record 'w ingest_world = "'w worker_world" +
  iw_delete :: "string \<Rightarrow> uuid \<Rightarrow> uuid \<Rightarrow> ('w, unit) act"
  iw_unlink :: "string \<Rightarrow> uuid \<Rightarrow> uuid \<Rightarrow> ('w, unit) act"
  iw_is_file :: "'w \<Rightarrow> string \<Rightarrow> bool"
  iw_hash :: "string \<Rightarrow> ('w, string) act"
  iw_load_cache :: "uuid \<Rightarrow> uuid \<Rightarrow> json \<Rightarrow> json \<Rightarrow> ('w, source_unit list option) act"
  iw_save_cache :: "uuid \<Rightarrow> uuid \<Rightarrow> json \<Rightarrow> json \<Rightarrow> source_unit list \<Rightarrow> ('w, unit) act"
  iw_parse :: "string \<Rightarrow> string \<Rightarrow> json \<Rightarrow> json \<Rightarrow> (string \<Rightarrow> ('w, unit) act) \<Rightarrow> ('w, unit) act \<Rightarrow> ('w, source_unit list) act"
  iw_load :: "string \<Rightarrow> string \<Rightarrow> ('w, source_unit list) act"
  iw_embed :: "string list \<Rightarrow> ('w, json list) act"
  iw_upsert :: "chunk list \<Rightarrow> json list \<Rightarrow> ('w, unit) act"
  iw_read :: "string \<Rightarrow> string \<Rightarrow> int \<Rightarrow> uuid \<Rightarrow> uuid \<Rightarrow> int \<Rightarrow> ('w, chunk list) act"

abbreviation "ie_queue e \<equiv> de_queue (ie_docs e)"
abbreviation "ie_publication e \<equiv> de_publication (ie_docs e)"
abbreviation "ie_versions e \<equiv> de_versions (ie_docs e)"
abbreviation "ie_index e \<equiv> de_index (ie_docs e)"
abbreviation "ie_hierarchy e \<equiv> is_hierarchy (ie_index e)"

definition stored_path :: "ingest_env \<Rightarrow> string \<Rightarrow> string result" where
  "stored_path e path =
     and_then (raise_if (\<not> ie_in_root e path) (AppError ''INVALID_STORAGE_PATH'' 500)) (\<lambda>_. Inr path)"

definition required :: "dict \<Rightarrow> string \<Rightarrow> json result" where
  "required m k = require_row (dict_get m k) (OtherError ''KeyError'')"

section \<open>Short transactions of an attempt\<close>

definition generation_of :: "dict \<Rightarrow> int result" where
  "generation_of m = py_int (case dict_get m ''generation'' of None \<Rightarrow> JInt 0 | Some v \<Rightarrow> v)"

text \<open>Another attempt has taken the document over, or it is no longer being processed.\<close>

definition stale :: "int \<Rightarrow> document \<Rightarrow> bool result" where
  "stale g doc = and_then (generation_of (d_metadata doc)) (\<lambda>n. Inr (n \<noteq> g \<or> d_status doc \<noteq> DocProcessing))"

definition queue_progress ::
    "ingest_env \<Rightarrow> uuid \<Rightarrow> string \<Rightarrow> int option \<Rightarrow> int option \<Rightarrow> clock \<Rightarrow> db \<Rightarrow> db result" where
  "queue_progress e did phase processed units clk d =
     (if ie_queue e then job_progress did phase processed units clk d else Inr d)"

text \<open>The document is written with an updated metadata when the attempt is not stale.\<close>

definition set_metadata ::
    "ingest_env \<Rightarrow> uuid \<Rightarrow> uuid \<Rightarrow> int \<Rightarrow> string \<Rightarrow> dict \<Rightarrow> unit step_body" where
  "set_metadata e uid did g phase changes clk ids d =
     and_then (document_of uid did d) (\<lambda>doc.
     and_then (stale g doc) (\<lambda>gone.
       if gone then Inr (Leave ())
       else
         and_then (queue_progress e did phase None None clk
             (put_document (doc\<lparr>d_metadata := dict_update (d_metadata doc) changes\<rparr>) d)) (\<lambda>d1.
           Inr (Commit () d1))))"

definition set_batch :: "ingest_env \<Rightarrow> ('w, 'z) ingest_world_scheme \<Rightarrow> uuid \<Rightarrow> uuid \<Rightarrow> int \<Rightarrow> string \<Rightarrow> ('w, unit) act" where
  "set_batch e iw uid did g batch =
     bind_act (run_guard iw) (\<lambda>_.
       guarded iw (set_metadata e uid did g ''uploading''
         [(''batch_id'', JStr batch), (''phase'', JStr ''uploading'')]))"

definition set_ingest_phase ::
    "ingest_env \<Rightarrow> ('w, 'z) ingest_world_scheme \<Rightarrow> uuid \<Rightarrow> uuid \<Rightarrow> int \<Rightarrow> string \<Rightarrow> nat option \<Rightarrow> ('w, unit) act" where
  "set_ingest_phase e iw uid did g phase units =
     bind_act (run_guard iw) (\<lambda>_.
       guarded iw (set_metadata e uid did g phase
         [(''phase'', JStr phase), (''parsed_unit_count'', opt_int (map_option int units))]))"

definition progress_body :: "uuid \<Rightarrow> uuid \<Rightarrow> int \<Rightarrow> nat \<Rightarrow> nat \<Rightarrow> unit step_body" where
  "progress_body uid did g processed units clk ids d =
     and_then (document_of uid did d) (\<lambda>doc.
     and_then (if d_status doc \<noteq> DocProcessing then Inr True else stale g doc) (\<lambda>gone.
       if gone then Inr (Leave ())
       else and_then (job_progress did ''indexing'' (Some (int processed)) (Some (int units)) clk d) (\<lambda>d1.
         Inr (Commit () d1))))"

definition set_progress ::
    "ingest_env \<Rightarrow> ('w, 'z) ingest_world_scheme \<Rightarrow> uuid \<Rightarrow> uuid \<Rightarrow> int \<Rightarrow> nat \<Rightarrow> nat \<Rightarrow> ('w, unit) act" where
  "set_progress e iw uid did g processed units =
     (if \<not> ie_queue e then ret ()
      else bind_act (run_guard iw) (\<lambda>_. guarded iw (progress_body uid did g processed units)))"

section \<open>A failed attempt\<close>

definition cleanup_failed :: "ingest_env \<Rightarrow> ('w, 'z) ingest_world_scheme \<Rightarrow> uuid \<Rightarrow> uuid \<Rightarrow> ('w, unit) act" where
  "cleanup_failed e iw uid did =
     bind_act (run_guard iw) (\<lambda>_.
     bind_act (if ie_publication e
         then read_db (\<lambda>d.
           and_then (document_of uid did d) (\<lambda>doc.
           and_then (bound_index (ie_index e) doc False d) (\<lambda>ix.
           and_then (raise_if (immutable_index (ix_state ix)) (AppError ''DOCUMENT_INDEX_IMMUTABLE'' 409)) (\<lambda>_.
             Inr (ix_collection ix)))))
         else ret (is_collection (ie_index e))) (\<lambda>collection.
       iw_delete iw collection uid did))"

definition fail_index :: "ingest_env \<Rightarrow> uuid \<Rightarrow> db \<Rightarrow> db" where
  "fail_index e did d =
     (if ie_publication e then
        (case get_index did d of
           None \<Rightarrow> d
         | Some ix \<Rightarrow> if ix_state ix = IxBuilding \<or> ix_state ix = IxVerified \<or> ix_state ix = IxFailed
             then put_index (ix\<lparr>ix_state := IxFailed\<rparr>) d else d)
      else d)"

definition failed_document :: "ingest_env \<Rightarrow> exn \<Rightarrow> document \<Rightarrow> document" where
  "failed_document e x doc =
     doc\<lparr>d_metadata := dict_update (d_metadata doc)
           ([(''failed_phase'', get_or_null (d_metadata doc) ''phase''), (''phase'', JStr ''failed''),
             (''error_code'', JStr (error_code_of (Some x)))] @
            (if ie_queue e then [(''retryable'', JBool (retryable x))] else [])),
         d_status := DocFailed, d_chunk_count := 0, d_error := Some (ie_message e x)\<rparr>"

definition fail_body :: "ingest_env \<Rightarrow> uuid \<Rightarrow> uuid \<Rightarrow> int \<Rightarrow> exn \<Rightarrow> unit step_body" where
  "fail_body e uid did g x clk ids d =
     and_then (document_of uid did d) (\<lambda>doc.
     and_then (stale g doc) (\<lambda>gone.
       if gone then Inr (Leave ())
       else Inr (Commit () (fail_index e did (put_document (failed_document e x doc) d)))))"

text \<open>An error of the clean-up is logged and does not stop the failure from being recorded.\<close>

definition fail_ingest ::
    "ingest_env \<Rightarrow> ('w, 'z) ingest_world_scheme \<Rightarrow> uuid \<Rightarrow> uuid \<Rightarrow> int \<Rightarrow> exn \<Rightarrow> ('w, unit) act" where
  "fail_ingest e iw uid did g x =
     bind_act (run_guard iw) (\<lambda>_.
     bind_act (read_db (\<lambda>d. and_then (document_of uid did d) (stale g))) (\<lambda>gone.
       if gone then ret ()
       else
         bind_act (except_act (cleanup_failed e iw uid did) (\<lambda>_. ret ())) (\<lambda>_.
         bind_act (run_guard iw) (\<lambda>_.
           guarded iw (fail_body e uid did g x)))))"

section \<open>An attempt\<close>

text \<open>The first transaction: the document of the attempt and its generation, or nothing to do.\<close>

definition reopened :: "ingest_env \<Rightarrow> uuid \<Rightarrow> document \<Rightarrow> document result" where
  "reopened e attempt doc =
     (if ie_queue e \<and> d_status doc = DocFailed then
        and_then (raise_if (\<not> truthy (get_or_null (d_metadata doc) ''retryable''))
          (AppError (case dict_get (d_metadata doc) ''error_code'' of
             Some (JStr c) \<Rightarrow> if c = [] then ''INGESTION_FAILED'' else c | _ \<Rightarrow> ''INGESTION_FAILED'') 409)) (\<lambda>_.
        and_then (prepare_retry_metadata attempt (d_metadata doc)) (\<lambda>m.
          Inr (doc\<lparr>d_status := DocProcessing, d_metadata := m\<rparr>)))
      else Inr doc)"

definition start_phase :: "dict \<Rightarrow> string" where
  "start_phase m = (if dict_get m ''provider'' = Some (JStr ''mineru'') then ''parsing'' else ''normalizing'')"

definition start_body :: "ingest_env \<Rightarrow> uuid \<Rightarrow> uuid \<Rightarrow> (document \<times> int) option step_body" where
  "start_body e uid did clk ids d =
     and_then (document_of uid did d) (\<lambda>doc.
     and_then (reopened e (ids 0) doc) (\<lambda>doc0.
       if d_status doc0 \<noteq> DocProcessing then Inr (Leave None)
       else
         and_then (if ie_queue e \<and> dict_get (d_metadata doc0) ''phase'' = Some (JStr ''uploading'')
             then prepare_retry_metadata (ids 1) (d_metadata doc0) else Inr (d_metadata doc0)) (\<lambda>m.
         and_then (generation_of m) (\<lambda>g.
           let doc1 = doc0\<lparr>d_metadata := dict_update m [(''phase'', JStr (start_phase m))]\<rparr>
           in and_then (queue_progress e did (start_phase m) (Some 0) None clk (put_document doc1 d)) (\<lambda>d1.
             Inr (Commit (Some (doc1, g)) d1))))))"

text \<open>The source as units: a cached parse, a parse that may resume a batch, or a local load.\<close>

definition parse_source ::
    "ingest_env \<Rightarrow> ('w, 'z) ingest_world_scheme \<Rightarrow> document \<Rightarrow> int \<Rightarrow> string \<Rightarrow> ('w, source_unit list) act" where
  "parse_source e iw doc g path =
     bind_act (lift_result (required (d_metadata doc) ''attempt_id'')) (\<lambda>attempt.
     bind_act (iw_parse iw path (d_file_type doc) attempt (get_or_null (d_metadata doc) ''batch_id'')
         (set_batch e iw (d_user doc) (d_id doc) g)
         (set_ingest_phase e iw (d_user doc) (d_id doc) g ''parsing'' None)) (\<lambda>units.
     bind_act (run_guard iw) (\<lambda>_. ret units)))"

definition load_source ::
    "ingest_env \<Rightarrow> ('w, 'z) ingest_world_scheme \<Rightarrow> document \<Rightarrow> int \<Rightarrow> string \<Rightarrow> ('w, source_unit list) act" where
  "load_source e iw doc g path =
     (if dict_get (d_metadata doc) ''provider'' = Some (JStr ''mineru'') then
        bind_act (lift_result (raise_if (\<not> ie_mineru e) (AppError ''MINERU_NOT_CONFIGURED'' 503))) (\<lambda>_.
        bind_act (lift_result (required (d_metadata doc) ''source_hash'')) (\<lambda>source.
        bind_act (lift_result (required (d_metadata doc) ''document_type'')) (\<lambda>kind.
        bind_act (iw_load_cache iw (d_user doc) (d_id doc) source kind) (\<lambda>cached.
          case cached of
            Some units \<Rightarrow> ret units
          | None \<Rightarrow>
              bind_act (parse_source e iw doc g path) (\<lambda>units.
              bind_act (iw_save_cache iw (d_user doc) (d_id doc) source kind units) (\<lambda>_. ret units))))))
      else iw_load iw path (d_file_type doc))"

definition plan_chunks ::
    "ingest_env \<Rightarrow> document \<Rightarrow> source_unit list \<Rightarrow> (tree option \<times> chunk list) result" where
  "plan_chunks e doc units =
     and_then (if ie_hierarchy e
       then and_then (build_tree (ie_tree e) units (d_user doc) (d_id doc) (d_name doc)) (\<lambda>t. Inr (Some t, tr_leaves t))
       else and_then (ie_chunks e units (d_user doc) (d_id doc) (d_name doc)) (\<lambda>cs. Inr (None, cs))) (\<lambda>(t, cs).
     and_then (raise_if (cs = []) (AppError ''EMPTY_DOCUMENT'' 400)) (\<lambda>_. Inr (t, cs)))"

fun index_batches ::
    "ingest_env \<Rightarrow> ('w, 'z) ingest_world_scheme \<Rightarrow> uuid \<Rightarrow> uuid \<Rightarrow> int \<Rightarrow> nat \<Rightarrow> nat \<Rightarrow> chunk list list \<Rightarrow> ('w, unit) act" where
  "index_batches e iw uid did g n units [] = ret ()"
| "index_batches e iw uid did g n units (b # bs) =
     bind_act (run_guard iw) (\<lambda>_.
     bind_act (iw_embed iw (map ch_content b)) (\<lambda>vs.
     bind_act (run_guard iw) (\<lambda>_.
     bind_act (iw_upsert iw b vs) (\<lambda>_.
     bind_act (run_guard iw) (\<lambda>_.
     bind_act (set_progress e iw uid did g (n + length b) units) (\<lambda>_.
       index_batches e iw uid did g (n + length b) units bs))))))"

definition verify_index_act ::
    "ingest_env \<Rightarrow> ('w, 'z) ingest_world_scheme \<Rightarrow> document \<Rightarrow> chunk list \<Rightarrow> ('w, string) act" where
  "verify_index_act e iw doc cs =
     (let s = ie_index e in
      bind_act (lift_result (leaf_fingerprint s cs (d_user doc) (d_id doc))) (\<lambda>_.
      bind_act (iw_read iw (is_collection s) (is_model s) (is_dimension s) (d_user doc) (d_id doc) (int (length cs))) (\<lambda>leaves.
        lift_result (verify_index s (\<lambda>_ _ _ _ _ _. Inr leaves) doc cs))))"

definition verify_leaves ::
    "ingest_env \<Rightarrow> ('w, 'z) ingest_world_scheme \<Rightarrow> document \<Rightarrow> int \<Rightarrow> nat \<Rightarrow> chunk list \<Rightarrow> ('w, string option) act" where
  "verify_leaves e iw doc g units cs =
     (if ie_publication e then
        bind_act (set_ingest_phase e iw (d_user doc) (d_id doc) g ''verifying'' (Some units)) (\<lambda>_.
        bind_act (verify_index_act e iw doc cs) (\<lambda>leaf.
        bind_act (run_guard iw) (\<lambda>_. ret (Some leaf))))
      else ret None)"

text \<open>The last transaction: the document, its index, its tree and its task become ready together.\<close>

definition ready_document :: "nat \<Rightarrow> nat \<Rightarrow> document \<Rightarrow> document" where
  "ready_document units chunks doc =
     doc\<lparr>d_metadata := dict_update (d_metadata doc) [(''phase'', JStr ''done''), (''normalized_schema_version'', JInt 1),
           (''parsed_unit_count'', JInt (int units)), (''failed_phase'', JNull), (''error_code'', JNull)],
         d_status := DocReady, d_chunk_count := int chunks, d_error := None\<rparr>"

definition publish_body ::
    "ingest_env \<Rightarrow> uuid \<Rightarrow> uuid \<Rightarrow> int \<Rightarrow> nat \<Rightarrow> tree option \<Rightarrow> chunk list \<Rightarrow> string option \<Rightarrow> unit step_body" where
  "publish_body e uid did g units t cs leaf clk ids d =
     and_then (document_of uid did d) (\<lambda>doc.
     and_then (stale g doc) (\<lambda>gone.
       if gone then Inr (Leave ())
       else
         let doc1 = ready_document units (length cs) doc; d1 = put_document doc1 d in
         and_then (if ie_publication e then index_verified (ie_index e) doc1 (int (length cs)) leaf (clk 0) d1 else Inr d1) (\<lambda>d2.
         and_then (case t of None \<Rightarrow> Inr d2 | Some x \<Rightarrow> and_then (publish_tree doc1 x d2) (\<lambda>(_, d3). Inr d3)) (\<lambda>d3.
         and_then (queue_progress e did ''done'' (Some (int (length cs))) (Some (int (length cs))) (\<lambda>n. clk (n + 1)) d3) (\<lambda>d4.
           Inr (Commit () d4))))))"

definition check_source :: "ingest_env \<Rightarrow> ('w, 'z) ingest_world_scheme \<Rightarrow> document \<Rightarrow> string \<Rightarrow> ('w, unit) act" where
  "check_source e iw doc path =
     (if ie_versions e \<or> ie_queue e \<or> ie_hierarchy e then
        bind_act (iw_hash iw path) (\<lambda>actual.
          lift_result (raise_if (actual \<noteq> d_content_hash doc) (AppError ''DOCUMENT_SOURCE_CHANGED'' 409)))
      else ret ())"

definition prepare_index :: "ingest_env \<Rightarrow> ('w, 'z) ingest_world_scheme \<Rightarrow> uuid \<Rightarrow> uuid \<Rightarrow> ('w, unit) act" where
  "prepare_index e iw uid did =
     bind_act (run_guard iw) (\<lambda>_.
     bind_act (if ie_publication e then guarded iw (\<lambda>clk ids d.
           and_then (document_of uid did d) (\<lambda>doc.
           and_then (assert_build (ie_index e) doc d) (\<lambda>d1. Inr (Commit () d1))))
         else ret ()) (\<lambda>_.
     bind_act (iw_delete iw (is_collection (ie_index e)) uid did) (\<lambda>_.
       run_guard iw)))"

definition ingest_document ::
    "ingest_env \<Rightarrow> ('w, 'z) ingest_world_scheme \<Rightarrow> document \<Rightarrow> int \<Rightarrow> ('w, unit) act" where
  "ingest_document e iw doc g =
     (let uid = d_user doc; did = d_id doc in
      bind_act (prepare_index e iw uid did) (\<lambda>_.
      bind_act (lift_result (stored_path e (d_file_path doc))) (\<lambda>path.
      bind_act (check_source e iw doc path) (\<lambda>_.
      bind_act (load_source e iw doc g path) (\<lambda>units.
      bind_act (set_ingest_phase e iw uid did g ''embedding'' (Some (length units))) (\<lambda>_.
      bind_act (lift_result (plan_chunks e doc units)) (\<lambda>(t, cs).
      bind_act (set_progress e iw uid did g 0 (length cs)) (\<lambda>_.
      bind_act (index_batches e iw uid did g 0 (length cs) (chunks_of (ie_batch e) cs)) (\<lambda>_.
      bind_act (verify_leaves e iw doc g (length units) cs) (\<lambda>leaf.
        guarded iw (publish_body e uid did g (length units) t cs leaf)))))))))))"

definition raise_again :: "bool \<Rightarrow> exn \<Rightarrow> ('w, unit) act" where
  "raise_again raise_errors x = (if raise_errors then raising x else ret ())"

definition attempt_document :: "ingest_env \<Rightarrow> ('w, 'z) ingest_world_scheme \<Rightarrow> uuid \<Rightarrow> uuid \<Rightarrow> bool \<Rightarrow> ('w, unit) act" where
  "attempt_document e iw uid did raise_errors =
     bind_act (run_guard iw) (\<lambda>_.
     bind_act (guarded iw (start_body e uid did)) (\<lambda>v.
       case v of
         None \<Rightarrow> ret ()
       | Some (doc, g) \<Rightarrow>
           except_act (ingest_document e iw doc g) (\<lambda>x.
             bind_act (run_guard iw) (\<lambda>_.
             bind_act (fail_ingest e iw uid did g x) (\<lambda>_.
               raise_again raise_errors x)))))"

definition process_document ::
    "ingest_env \<Rightarrow> ('w, 'z) ingest_world_scheme \<Rightarrow> uuid \<Rightarrow> uuid \<Rightarrow> bool \<Rightarrow> bool \<Rightarrow> ('w, unit) act" where
  "process_document e iw uid did already_locked raise_errors =
     except_act
       (if already_locked then attempt_document e iw uid did raise_errors
        else exclusive iw did (attempt_document e iw uid did raise_errors))
       (raise_again raise_errors)"

end
