(* ===== verification/IngestionService.thy ===== *)
theory IngestionService
  imports Ingestion
begin

text \<open>
  The operations users call on documents (\<open>app/service/ingestion.py\<close>): upload, listing,
  versions, retry and deletion; the retry of a task (\<open>app/service/document_tasks.py\<close>), the
  backfill of hierarchies (\<open>app/service/hierarchy_backfill.py\<close>), and the worker that runs the
  queue (\<open>app/worker.py\<close>).
\<close>

section \<open>Reading documents\<close>

record index_info =
  xi_state :: index_state
  xi_model :: string
  xi_leaf_count :: int
  xi_verified_at :: "time option"
  xi_fingerprint :: string

definition document_index_info :: "schema \<Rightarrow> uuid \<Rightarrow> db \<Rightarrow> index_info option" where
  "document_index_info sch did d =
     (if has_document_indexes sch then
        map_option (\<lambda>ix. \<lparr>xi_state = ix_state ix, xi_model = ix_model ix, xi_leaf_count = ix_leaf_count ix,
          xi_verified_at = ix_verified_at ix, xi_fingerprint = ix_fingerprint ix\<rparr>) (get_index did d)
      else None)"

record annotated =
  an_document :: document
  an_index :: "index_info option"
  an_queryable :: bool
  an_bound :: bool
  an_version :: "version_info option"

definition annotate_versions :: "ingest_env \<Rightarrow> uuid \<Rightarrow> document list \<Rightarrow> db \<Rightarrow> annotated list" where
  "annotate_versions e uid docs d =
     (let readable = readable_index_ids (ie_schema e) (ie_publication e) (map d_id docs) d in
      map (\<lambda>x. \<lparr>an_document = x, an_index = document_index_info (ie_schema e) (d_id x) d,
        an_queryable = (d_id x \<in> set readable), an_bound = ie_publication e,
        an_version = (if ie_versions e then Some (version_info_of uid x d) else None)\<rparr>) docs)"

definition annotated_one :: "ingest_env \<Rightarrow> uuid \<Rightarrow> document \<Rightarrow> db \<Rightarrow> annotated" where
  "annotated_one e uid doc d = hd (annotate_versions e uid [doc] d)"

text \<open>Newest first, ties by id, then the page.\<close>

definition newest_page :: "nat \<Rightarrow> nat \<Rightarrow> document list \<Rightarrow> document list" where
  "newest_page offset limit docs = take limit (drop offset (sort_key (\<lambda>x. - d_created x) (sort_key d_id docs)))"

definition documents_page :: "uuid \<Rightarrow> nat \<Rightarrow> nat \<Rightarrow> uuid option \<Rightarrow> db \<Rightarrow> document list" where
  "documents_page uid offset limit org d =
     newest_page offset limit (filter (\<lambda>x. d_user x = uid \<and> d_org x = org \<and> d_status x \<noteq> DocRetired) (documents d))"

definition search_documents ::
    "uuid \<Rightarrow> string \<Rightarrow> doc_status option \<Rightarrow> nat \<Rightarrow> nat \<Rightarrow> uuid option \<Rightarrow> db \<Rightarrow> document list \<times> nat" where
  "search_documents uid query status offset limit org d =
     (let rows = filter (\<lambda>x. d_user x = uid \<and> d_org x = org \<and> (status = Some DocRetired \<or> d_status x \<noteq> DocRetired) \<and>
            (query = [] \<or> ilike_contains query (d_name x)) \<and> (status = None \<or> status = Some (d_status x))) (documents d)
      in (newest_page offset limit rows, length rows))"

definition document_versions :: "uuid \<Rightarrow> uuid \<Rightarrow> nat \<Rightarrow> nat \<Rightarrow> db \<Rightarrow> (document list \<times> nat) result" where
  "document_versions uid did offset limit d =
     and_then (document_of uid did d) (\<lambda>doc.
       case get_version did d of
         None \<Rightarrow> Inr (if offset = 0 then [doc] else [], 1)
       | Some b \<Rightarrow>
           let number = (\<lambda>x. case get_version (d_id x) d of None \<Rightarrow> 0 | Some v \<Rightarrow> v_number v);
               rows = filter (\<lambda>x. d_user x = uid \<and>
                 (\<exists>v\<in>set (versions d). v_document v = d_id x \<and> v_series v = v_series b) \<and>
                 (\<exists>s\<in>set (series_rows d). s_id s = v_series b \<and> s_user s = uid)) (documents d)
           in Inr (take limit (drop offset (sort_key (\<lambda>x. - number x) rows)), length rows))"

definition list_documents :: "ingest_env \<Rightarrow> uuid \<Rightarrow> nat \<Rightarrow> nat \<Rightarrow> uuid option \<Rightarrow> db \<Rightarrow> annotated list result" where
  "list_documents e uid offset limit org d =
     and_then (require_workspace (ie_docs e) uid org d) (\<lambda>_.
       Inr (annotate_versions e uid (documents_page uid offset limit org d) d))"

definition search ::
    "ingest_env \<Rightarrow> uuid \<Rightarrow> string \<Rightarrow> doc_status option \<Rightarrow> nat \<Rightarrow> nat \<Rightarrow> uuid option \<Rightarrow> db \<Rightarrow> (annotated list \<times> nat) result" where
  "search e uid query status offset limit org d =
     and_then (require_workspace (ie_docs e) uid org d) (\<lambda>_.
       case search_documents uid query status offset limit org d of
         (rows, n) \<Rightarrow> Inr (annotate_versions e uid rows d, n))"

definition get_one :: "ingest_env \<Rightarrow> uuid \<Rightarrow> uuid \<Rightarrow> uuid option \<Rightarrow> db \<Rightarrow> annotated result" where
  "get_one e uid did org d =
     and_then (workspace_document (ie_docs e) uid did org d) (\<lambda>doc. Inr (annotated_one e uid doc d))"

definition require_versions :: "ingest_env \<Rightarrow> unit result" where
  "require_versions e = raise_if (\<not> ie_versions e) (AppError ''DOCUMENT_VERSIONS_DISABLED'' 503)"

definition list_versions ::
    "ingest_env \<Rightarrow> uuid \<Rightarrow> uuid \<Rightarrow> nat \<Rightarrow> nat \<Rightarrow> uuid option \<Rightarrow> db \<Rightarrow> (annotated list \<times> nat) result" where
  "list_versions e uid did offset limit org d =
     and_then (require_versions e) (\<lambda>_.
     and_then (workspace_document (ie_docs e) uid did org d) (\<lambda>_.
     and_then (document_versions uid did offset limit d) (\<lambda>(rows, n).
       Inr (annotate_versions e uid rows d, n))))"

section \<open>Activating a version\<close>

definition supersede_index :: "uuid option \<Rightarrow> uuid \<Rightarrow> db \<Rightarrow> db" where
  "supersede_index expected did d = (case expected of
     None \<Rightarrow> d
   | Some prior \<Rightarrow>
       if prior = did then d
       else (case get_index prior d of None \<Rightarrow> d | Some ix \<Rightarrow> put_index (ix\<lparr>ix_state := IxSuperseded\<rparr>) d))"

definition activate_body ::
    "ingest_env \<Rightarrow> chunk_reader \<Rightarrow> uuid \<Rightarrow> uuid \<Rightarrow> uuid option \<Rightarrow> uuid option \<Rightarrow> (db, annotated) body" where
  "activate_body e rd uid did expected org d =
     and_then (workspace_document (ie_docs e) uid did org d) (\<lambda>candidate.
     and_then (if ie_publication e then and_then (verify_for_publish (ie_index e) rd candidate d) (\<lambda>_. Inr ()) else Inr ()) (\<lambda>_.
     and_then (activate_document_version uid did expected
         (if ie_publication e then d_embedding_model candidate else is_model (ie_index e)) d) (\<lambda>(doc, d1).
     and_then (if ie_publication e then
           (let d2 = supersede_index expected did d1 in
            and_then (require_row (get_index did d2) (OtherError ''AttributeError'')) (\<lambda>ix.
              Inr (put_index (ix\<lparr>ix_state := IxPublished\<rparr>) d2)))
         else Inr d1) (\<lambda>d3.
       committed (annotated_one e uid doc d3) d3))))"

definition activate_version ::
    "ingest_env \<Rightarrow> ('w, 'z) ingest_world_scheme \<Rightarrow> chunk_reader \<Rightarrow> uuid \<Rightarrow> uuid \<Rightarrow> uuid option \<Rightarrow> uuid option
     \<Rightarrow> ('w, annotated) act" where
  "activate_version e iw rd uid did expected org =
     bind_act (lift_result (require_versions e)) (\<lambda>_.
       exclusive iw did (db_act iw (\<lambda>clk ids. transaction (activate_body e rd uid did expected org))))"

section \<open>Retrying\<close>

text \<open>Whether the retry is already running (\<open>True\<close>), may start (\<open>False\<close>), or is refused.\<close>

definition retry_settled :: "uuid \<Rightarrow> task_kind \<Rightarrow> ingestion_job option \<Rightarrow> db \<Rightarrow> bool result" where
  "retry_settled expected kind job d =
     (case (case job of None \<Rightarrow> None | Some j \<Rightarrow> (case j_task j of None \<Rightarrow> None | Some tid \<Rightarrow> get_task_row tid d)) of
        None \<Rightarrow> Inl not_retryable
      | Some t \<Rightarrow>
          if t_id t \<noteq> expected \<and> t_kind t = kind \<and> retry_of expected t then Inr True
          else if t_id t \<noteq> expected \<or> t_kind t \<noteq> kind \<or> \<not> (t_state t = TFailed \<or> t_state t = TCancelled)
          then Inl not_retryable else Inr False)"

definition retry_details :: "uuid option \<Rightarrow> dict" where
  "retry_details expected = (case expected of None \<Rightarrow> [] | Some x \<Rightarrow> [(''retry_of'', JStr (uuid_str x))])"

text \<open>A retry that is already running answers with the document as it is, not annotated.\<close>

definition retry_body ::
    "ingest_env \<Rightarrow> (string \<Rightarrow> bool) \<Rightarrow> uuid \<Rightarrow> uuid \<Rightarrow> uuid option \<Rightarrow> uuid option \<Rightarrow> clock \<Rightarrow> (nat \<Rightarrow> uuid) \<Rightarrow> (db, annotated) body" where
  "retry_body e is_file uid did org expected clk ids d =
     and_then (workspace_document (ie_docs e) uid did org d) (\<lambda>doc.
     and_then (case expected of None \<Rightarrow> Inr False | Some x \<Rightarrow> retry_settled x KIngest (get_job_row did d) d) (\<lambda>settled.
       if settled then committed \<lparr>an_document = doc, an_index = None, an_queryable = False, an_bound = False, an_version = None\<rparr> d
       else
         and_then (raise_if (d_status doc \<noteq> DocFailed \<and> d_status doc \<noteq> DocProcessing) (AppError ''INVALID_DOCUMENT_STATE'' 409)) (\<lambda>_.
         and_then (raise_if (ie_publication e \<and> get_index did d = None) (AppError ''DOCUMENT_INDEX_NOT_ADOPTED'' 409)) (\<lambda>_.
         and_then (stored_path e (d_file_path doc)) (\<lambda>path.
         and_then (raise_if (\<not> is_file path) (AppError ''SOURCE_FILE_MISSING'' 409)) (\<lambda>_.
         and_then (prepare_retry_metadata (ids 0) (d_metadata doc)) (\<lambda>m.
           let doc1 = doc\<lparr>d_metadata := m, d_status := DocProcessing, d_error := None,
                 d_embedding_model := is_model (ie_index e), d_chunk_count := 0\<rparr>;
               d1 = put_document doc1 d
           in and_then (if ie_queue e
                then and_then (enqueue (de_jobs (ie_docs e)) (ids 1) doc1 True KIngest (retry_details expected) None clk d1) (\<lambda>(_, d2). Inr d2)
                else Inr d1) (\<lambda>d2.
              committed (annotated_one e uid doc1 d2) d2))))))))"

definition retry_document ::
    "ingest_env \<Rightarrow> ('w, 'z) ingest_world_scheme \<Rightarrow> uuid \<Rightarrow> uuid \<Rightarrow> uuid option \<Rightarrow> uuid option \<Rightarrow> ('w, annotated) act" where
  "retry_document e iw uid did org expected =
     exclusive iw did (\<lambda>s. db_act iw (\<lambda>clk ids.
       transaction (retry_body e (iw_is_file iw (snd s)) uid did org expected clk ids)) s)"

section \<open>Hierarchy backfill\<close>

definition require_mutable_index :: "schema \<Rightarrow> uuid \<Rightarrow> db \<Rightarrow> unit result" where
  "require_mutable_index sch did d =
     raise_if (has_document_indexes sch \<and> get_index did d \<noteq> None) (AppError ''DOCUMENT_INDEX_IMMUTABLE'' 409)"

definition hierarchy_stale :: exn where
  "hierarchy_stale = AppError ''HIERARCHY_STALE'' 409"

definition backfill_fields :: "document \<Rightarrow> doc_status \<times> string \<times> string \<times> int \<times> string \<times> string \<times> dict" where
  "backfill_fields doc = (d_status doc, d_embedding_model doc, d_name doc, d_chunk_count doc, d_content_hash doc,
     d_fingerprint doc, d_metadata doc)"

definition backfill_source :: "ingest_env \<Rightarrow> uuid \<Rightarrow> uuid \<Rightarrow> db \<Rightarrow> document result" where
  "backfill_source e uid did d =
     and_then (document_of uid did d) (\<lambda>doc.
     and_then (require_mutable_index (ie_schema e) did d) (\<lambda>_.
     and_then (raise_if (d_status doc \<noteq> DocReady \<or> d_embedding_model doc \<noteq> is_model (ie_index e)) hierarchy_stale) (\<lambda>_. Inr doc)))"

definition backfill_tree :: "ingest_env \<Rightarrow> document \<Rightarrow> chunk list \<Rightarrow> tree result" where
  "backfill_tree e doc cs =
     and_then (raise_if (list_ex (\<lambda>c. ch_source c \<noteq> d_name doc) cs) scope_mismatch) (\<lambda>_.
       from_leaves (ie_tree e) cs ''backfilled-leaves'')"

definition backfill_body :: "ingest_env \<Rightarrow> uuid \<Rightarrow> uuid \<Rightarrow> document \<Rightarrow> tree \<Rightarrow> unit step_body" where
  "backfill_body e uid did snapshot t clk ids d =
     and_then (document_of uid did d) (\<lambda>doc.
     and_then (require_mutable_index (ie_schema e) did d) (\<lambda>_.
     and_then (raise_if (backfill_fields doc \<noteq> backfill_fields snapshot) hierarchy_stale) (\<lambda>_.
     and_then (publish_tree doc t d) (\<lambda>(_, d1). Inr (Commit () d1)))))"

text \<open>The worker holds the document's lock and passes its guard.\<close>

definition backfill :: "ingest_env \<Rightarrow> ('w, 'z) ingest_world_scheme \<Rightarrow> uuid \<Rightarrow> uuid \<Rightarrow> ('w, nat) act" where
  "backfill e iw uid did =
     bind_act (lift_result (raise_if (\<not> ie_hierarchy e) (AppError ''HIERARCHY_DISABLED'' 503))) (\<lambda>_.
     bind_act (read_db (backfill_source e uid did)) (\<lambda>doc.
     bind_act (run_guard iw) (\<lambda>_.
     bind_act (iw_read iw (is_collection (ie_index e)) (is_model (ie_index e)) (is_dimension (ie_index e)) uid did (d_chunk_count doc)) (\<lambda>cs.
     bind_act (lift_result (backfill_tree e doc cs)) (\<lambda>t.
     bind_act (run_guard iw) (\<lambda>_.
     bind_act (guarded iw (backfill_body e uid did doc t)) (\<lambda>_. ret (length (tr_nodes t)))))))))"

definition enqueue_backfill_body :: "ingest_env \<Rightarrow> uuid \<Rightarrow> uuid \<Rightarrow> uuid option \<Rightarrow> clock \<Rightarrow> (nat \<Rightarrow> uuid) \<Rightarrow> (db, unit) body" where
  "enqueue_backfill_body e uid did expected clk ids d =
     and_then (document_of uid did d) (\<lambda>doc.
     and_then (case d_org doc of None \<Rightarrow> Inr () | Some oid \<Rightarrow> and_then (workspace_member uid oid d) (\<lambda>_. Inr ())) (\<lambda>_.
     and_then (require_mutable_index (ie_schema e) did d) (\<lambda>_.
     and_then (raise_if (d_status doc \<noteq> DocReady \<or> d_embedding_model doc \<noteq> is_model (ie_index e)) hierarchy_stale) (\<lambda>_.
     and_then (case expected of None \<Rightarrow> Inr False | Some x \<Rightarrow> retry_settled x KHierarchy (get_job_row did d) d) (\<lambda>settled.
       if settled then committed () d
       else
         let busy = (case get_job_row did d of None \<Rightarrow> None
               | Some j \<Rightarrow> if j_state j = TQueued \<or> j_state j = TRunning then Some (j_kind j) else None) in
         and_then (raise_if (busy \<noteq> None \<and> busy \<noteq> Some KHierarchy) (AppError ''RESOURCE_BUSY'' 409)) (\<lambda>_.
           if busy \<noteq> None then committed () d
           else and_then (enqueue (de_jobs (ie_docs e)) (ids 0) doc True KHierarchy (retry_details expected) None clk d) (\<lambda>(_, d1).
             committed () d1)))))))"

definition enqueue_backfill ::
    "ingest_env \<Rightarrow> ('w, 'z) worker_world_scheme \<Rightarrow> uuid \<Rightarrow> uuid \<Rightarrow> uuid option \<Rightarrow> ('w, unit) act" where
  "enqueue_backfill e ww uid did expected =
     bind_act (lift_result (raise_if (\<not> ie_queue e \<or> \<not> ie_hierarchy e) (AppError ''CONFIGURATION_ERROR'' 503))) (\<lambda>_.
       db_act ww (\<lambda>clk ids. transaction (enqueue_backfill_body e uid did expected clk ids)))"

section \<open>Retrying a task\<close>

text \<open>What a retry would do: answer with the task that already replaced it, or retry its kind.\<close>

definition retry_plan ::
    "ingest_env \<Rightarrow> uuid \<Rightarrow> uuid \<Rightarrow> uuid option \<Rightarrow> db \<Rightarrow> ((doc_task \<times> bool) option \<times> uuid \<times> task_kind) result" where
  "retry_plan e uid tid org d =
     and_then (scoped_task (ie_docs e) uid tid org d) (\<lambda>t.
     and_then (raise_if (\<not> (t_state t = TFailed \<or> t_state t = TCancelled) \<or> t_document t = None \<or> t_kind t = KDeleteSeries)
       not_retryable) (\<lambda>_.
     and_then (require_row (t_document t) not_retryable) (\<lambda>did.
       case (case get_job_row did d of None \<Rightarrow> None | Some j \<Rightarrow> j_task j) of
         None \<Rightarrow> Inr (None, did, t_kind t)
       | Some latest \<Rightarrow>
           if latest = t_id t then Inr (None, did, t_kind t)
           else and_then (task_of uid latest d) (\<lambda>c.
             if t_kind c = t_kind t \<and> retry_of (t_id t) c then Inr (Some (c, can_retry (ie_docs e) d c), did, t_kind t)
             else Inl not_retryable))))"

definition latest_task :: "ingest_env \<Rightarrow> uuid \<Rightarrow> uuid \<Rightarrow> uuid option \<Rightarrow> db \<Rightarrow> (doc_task \<times> bool) result" where
  "latest_task e uid did replacement d =
     and_then (case replacement of
         Some tid \<Rightarrow> Inr tid
       | None \<Rightarrow> and_then (require_row (get_job_row did d) (OtherError ''AttributeError'')) (\<lambda>j.
           require_row (j_task j) not_found)) (\<lambda>tid.
     and_then (task_of uid tid d) (\<lambda>t. Inr (t, can_retry (ie_docs e) d t)))"

definition retry_task ::
    "ingest_env \<Rightarrow> ('w, 'z) ingest_world_scheme \<Rightarrow> uuid \<Rightarrow> uuid \<Rightarrow> uuid option \<Rightarrow> ('w, doc_task \<times> bool) act" where
  "retry_task e iw uid tid org =
     bind_act (lift_result (tasks_enabled (ie_docs e))) (\<lambda>_.
     bind_act (read_db (retry_plan e uid tid org)) (\<lambda>(replaced, did, kind).
       case replaced of
         Some answer \<Rightarrow> ret answer
       | None \<Rightarrow>
           bind_act (case kind of
               KDelete \<Rightarrow> bind_act (db_act iw (\<lambda>clk ids. retire (ie_docs e) (ids 0) uid did True org (Some tid) clk))
                 (\<lambda>t. ret (Some (t_id t)))
             | KIngest \<Rightarrow> bind_act (retry_document e iw uid did org (Some tid)) (\<lambda>_. ret None)
             | _ \<Rightarrow> bind_act (enqueue_backfill e iw uid did (Some tid)) (\<lambda>_. ret None)) (\<lambda>replacement.
             read_db (latest_task e uid did replacement))))"

section \<open>Deleting without publication\<close>

definition delete_start ::
    "ingest_env \<Rightarrow> uuid \<Rightarrow> uuid \<Rightarrow> uuid option \<Rightarrow> (db, string) body" where
  "delete_start e uid did org d =
     and_then (workspace_document (ie_docs e) uid did org d) (\<lambda>doc.
     and_then (raise_if (has_document_indexes (ie_schema e) \<and> get_index did d \<noteq> None)
         (AppError ''DOCUMENT_PUBLICATION_DISABLED'' 409)) (\<lambda>_.
     and_then (if ie_versions e then prepare_version_delete uid did d else Inr d) (\<lambda>d1.
       committed (d_file_path doc) (put_document (doc\<lparr>d_status := DocDeleting\<rparr>) d1))))"

definition delete_failed :: "ingest_env \<Rightarrow> uuid \<Rightarrow> uuid \<Rightarrow> exn \<Rightarrow> (db, unit) body" where
  "delete_failed e uid did x d =
     and_then (document_of uid did d) (\<lambda>doc. committed () (put_document (doc\<lparr>d_error := Some (ie_message e x)\<rparr>) d))"

text \<open>The row's deletion, with what the database's foreign keys do: cascade or set to null.\<close>

definition remove_document :: "uuid \<Rightarrow> db \<Rightarrow> db" where
  "remove_document did d = d\<lparr>documents := row_del (\<lambda>x. d_id x = did) (documents d),
     doc_indexes := row_del (\<lambda>x. ix_document x = did) (doc_indexes d),
     jobs := row_del (\<lambda>j. j_document j = did) (jobs d), versions := row_del (\<lambda>v. v_document v = did) (versions d),
     kdocs := row_del (\<lambda>k. kd_document k = did) (kdocs d), nodes := row_del (\<lambda>n. n_document n = did) (nodes d),
     doc_tasks := map (\<lambda>t. if t_document t = Some did then t\<lparr>t_document := None\<rparr> else t) (doc_tasks d),
     series_rows := map (\<lambda>s. if s_current s = Some did then s\<lparr>s_current := None\<rparr> else s) (series_rows d)\<rparr>"

definition delete_end :: "ingest_env \<Rightarrow> uuid \<Rightarrow> uuid \<Rightarrow> string \<Rightarrow> (db, unit) body" where
  "delete_end e uid did path d =
     and_then (document_of uid did d) (\<lambda>doc.
     and_then (raise_if (d_status doc \<noteq> DocDeleting \<or> d_file_path doc \<noteq> path) (AppError ''DOCUMENT_SCOPE_CHANGED'' 409)) (\<lambda>_.
       committed () (remove_document did (if ie_versions e then finish_version_delete did d else d))))"

definition delete_now ::
    "ingest_env \<Rightarrow> ('w, 'z) ingest_world_scheme \<Rightarrow> uuid \<Rightarrow> uuid \<Rightarrow> uuid option \<Rightarrow> ('w, unit) act" where
  "delete_now e iw uid did org =
     bind_act (db_act iw (\<lambda>clk ids. transaction (delete_start e uid did org))) (\<lambda>path.
     bind_act (except_act
         (bind_act (run_guard iw) (\<lambda>_.
          bind_act (iw_delete iw (is_collection (ie_index e)) uid did) (\<lambda>_.
          bind_act (lift_result (stored_path e path)) (\<lambda>p. iw_unlink iw p uid did))))
         (\<lambda>x. bind_act (db_act iw (\<lambda>clk ids. transaction (delete_failed e uid did x))) (\<lambda>_. raising x))) (\<lambda>_.
     bind_act (run_guard iw) (\<lambda>_.
       db_act iw (\<lambda>clk ids. transaction (delete_end e uid did path)))))"

definition delete_document ::
    "ingest_env \<Rightarrow> ('w, 'z) ingest_world_scheme \<Rightarrow> uuid \<Rightarrow> uuid \<Rightarrow> uuid option \<Rightarrow> ('w, doc_task option) act" where
  "delete_document e iw uid did org =
     (if ie_publication e
      then bind_act (db_act iw (\<lambda>clk ids. retire (ie_docs e) (ids 0) uid did False org None clk)) (\<lambda>t. ret (Some t))
      else bind_act (exclusive iw did (delete_now e iw uid did org)) (\<lambda>_. ret None))"

section \<open>The worker\<close>

definition run_claimed_job ::
    "ingest_env \<Rightarrow> ('w, 'z) ingest_world_scheme \<Rightarrow> ('w, 'y) cleanup_world_scheme \<Rightarrow> job_claim \<Rightarrow> ('w, unit) act" where
  "run_claimed_job e iw cw c = (case jc_kind c of
     KDelete \<Rightarrow> process_retirement (ie_docs e) cw (jc_user c) (jc_document c)
   | KHierarchy \<Rightarrow> bind_act (backfill e iw (jc_user c) (jc_document c)) (\<lambda>_. ret ())
   | _ \<Rightarrow> process_document e iw (jc_user c) (jc_document c) True True)"

definition run_attempt ::
    "ingest_env \<Rightarrow> ('w, 'z) ingest_world_scheme \<Rightarrow> ('w, 'y) cleanup_world_scheme \<Rightarrow> job_claim \<Rightarrow> ('w, unit) act" where
  "run_attempt e iw cw c =
     exclusive iw (jc_document c)
       (bind_act (run_guard iw) (\<lambda>_.
        bind_act (if jc_exhausted c then ret None
            else except_act (bind_act (run_claimed_job e iw cw c) (\<lambda>_. ret None)) (\<lambda>x. ret (Some x))) (\<lambda>err.
        bind_act (run_guard iw) (\<lambda>_.
          db_act iw (\<lambda>clk ids. finish_job (de_jobs (ie_docs e)) c err (ids 0) clk)))))"

definition interrupted :: "ingest_env \<Rightarrow> ('w, 'z) ingest_world_scheme \<Rightarrow> job_claim \<Rightarrow> exn \<Rightarrow> ('w, unit) act" where
  "interrupted e iw c x =
     (if exn_code x = Some ''RESOURCE_BUSY''
      then except_act (db_act iw (\<lambda>clk ids. job_release (de_jobs (ie_docs e)) c clk)) (\<lambda>_. ret ())
      else ret ())"

text \<open>\<open>iw\<close> and \<open>cw\<close> are given for each claim: their guard is the guard of its lease.\<close>

definition worker_run_once ::
    "ingest_env \<Rightarrow> ('w, 'z) worker_world_scheme \<Rightarrow> (job_claim \<Rightarrow> ('w, 'y) ingest_world_scheme)
     \<Rightarrow> (job_claim \<Rightarrow> ('w, 'x) cleanup_world_scheme) \<Rightarrow> ('w, bool) act" where
  "worker_run_once e ww iw cw =
     bind_act (db_act ww (\<lambda>clk ids. reconcile (de_jobs (ie_docs e)) ids 100 clk)) (\<lambda>_.
     bind_act (db_act ww (\<lambda>clk ids. claim_job (de_jobs (ie_docs e)) (ids 0) clk)) (\<lambda>claim.
       case claim of
         None \<Rightarrow> ret False
       | Some c \<Rightarrow> bind_act (except_act (run_attempt e (iw c) (cw c) c) (interrupted e (iw c) c)) (\<lambda>_. ret True)))"

end
