(* ===== verification/Uploads.thy ===== *)
theory Uploads
  imports IngestionService
begin

text \<open>
  Uploads (\<open>upload\<close> of \<open>app/service/ingestion.py\<close>, \<open>validate_upload\<close> of
  \<open>app/manager/loaders/local.py\<close>): the file is written block by block, checked, and registered
  in one transaction with its version, its index and its job; when anything fails, the file is
  removed. The state is the database and the files by path.
\<close>

type_synonym files = "string \<Rightarrow> string option"

record upload_env =
  ue_ingest :: ingest_env
  ue_max_bytes :: nat
  ue_mineru_enabled :: bool
  ue_mineru_token :: string
  ue_root :: string
  ue_container :: "string \<Rightarrow> string \<Rightarrow> unit result"

section \<open>Names and types\<close>

definition slash :: char where "slash = CHR 0x2F"

definition last_part :: "char \<Rightarrow> string \<Rightarrow> string" where
  "last_part x s = rev (takeWhile (\<lambda>c. c \<noteq> x) (rev s))"

text \<open>\<open>Path(name).suffix\<close> of a name without a directory.\<close>

definition suffix_of :: "string \<Rightarrow> string" where
  "suffix_of name =
     (let tail = last_part CHR ''.'' name; n = length name; k = length tail in
      if 0 < k \<and> k + 1 < n then CHR ''.'' # tail else [])"

definition mime_types :: "(string \<times> string list) list" where
  "mime_types = [(''.txt'', [''text/plain'']), (''.md'', [''text/plain'', ''text/markdown'', ''text/x-markdown'']),
     (''.html'', [''text/html'']), (''.htm'', [''text/html'']), (''.pdf'', [''application/pdf'']),
     (''.doc'', [''application/msword'']),
     (''.docx'', [''application/vnd.openxmlformats-officedocument.wordprocessingml.document'']),
     (''.ppt'', [''application/vnd.ms-powerpoint'']),
     (''.pptx'', [''application/vnd.openxmlformats-officedocument.presentationml.presentation'']),
     (''.xls'', [''application/vnd.ms-excel'']),
     (''.xlsx'', [''application/vnd.openxmlformats-officedocument.spreadsheetml.sheet''])]"

definition document_types :: "(string \<times> string) list" where
  "document_types = [(''.pdf'', ''pdf''), (''.doc'', ''word''), (''.docx'', ''word''), (''.ppt'', ''powerpoint''),
     (''.pptx'', ''powerpoint''), (''.xls'', ''excel''), (''.xlsx'', ''excel'')]"

definition base_name :: "string \<Rightarrow> string" where
  "base_name filename = last_part slash (map (\<lambda>c. if c = CHR 0x5C then slash else c) filename)"

definition validate_upload :: "string \<Rightarrow> string option \<Rightarrow> (string \<times> string) result" where
  "validate_upload filename content_type =
     (let name = base_name filename; extension = to_lower (suffix_of name);
          mime = to_lower (takeWhile (\<lambda>c. c \<noteq> CHR '';'') (case content_type of
            None \<Rightarrow> ''application/octet-stream'' | Some m \<Rightarrow> if m = [] then ''application/octet-stream'' else m)) in
      and_then (raise_if (name = [] \<or> 255 < utf8_len name \<or> list_ex (\<lambda>c. (of_char c :: nat) < 32) name)
        (AppError ''INVALID_FILENAME'' 400)) (\<lambda>_.
      and_then (require_row (map_of mime_types extension) (AppError ''UNSUPPORTED_FILE_TYPE'' 415)) (\<lambda>allowed.
      and_then (raise_if (mime \<notin> set allowed \<and> mime \<noteq> ''application/octet-stream'') (AppError ''INVALID_MIME_TYPE'' 415)) (\<lambda>_.
        Inr (name, extension)))))"

definition use_mineru :: "string \<Rightarrow> bool" where
  "use_mineru extension = (map_of document_types extension \<noteq> None \<and> extension \<noteq> ''.xlsx'')"

section \<open>The file\<close>

text \<open>Reads a block at a time until an empty one; what was written before an error stays.\<close>

fun write_blocks :: "nat \<Rightarrow> string \<Rightarrow> string list \<Rightarrow> string \<Rightarrow> files \<Rightarrow> string result \<times> files" where
  "write_blocks limit path [] written fs = (Inr written, fs)"
| "write_blocks limit path (b # bs) written fs =
     (if b = [] then (Inr written, fs)
      else if limit < length (written @ b) then (Inl (AppError ''UPLOAD_TOO_LARGE'' 413), fs)
      else write_blocks limit path bs (written @ b) (fs(path \<mapsto> written @ b)))"

definition store_file :: "upload_env \<Rightarrow> string \<Rightarrow> string \<Rightarrow> string list \<Rightarrow> files \<Rightarrow> string result \<times> files" where
  "store_file e path extension blocks fs =
     (if fs path \<noteq> None then (Inl (OtherError ''FileExistsError''), fs)
      else (case write_blocks (ue_max_bytes e) path blocks [] (fs(path \<mapsto> [])) of
         (Inl x, fs1) \<Rightarrow> (Inl x, fs1)
       | (Inr content, fs1) \<Rightarrow>
           (and_then (raise_if (content = []) (AppError ''EMPTY_FILE'' 400)) (\<lambda>_.
            and_then (ue_container e content extension) (\<lambda>_. Inr content)), fs1)))"

section \<open>The registration\<close>

definition upload_metadata :: "upload_env \<Rightarrow> string \<Rightarrow> uuid \<Rightarrow> string \<Rightarrow> dict" where
  "upload_metadata e extension attempt digest =
     [(''provider'', JStr (if use_mineru extension then ''mineru'' else ''local'')),
      (''parser_version'', if extension = ''.xlsx'' then JStr ''xlsx-row-v1'' else JNull),
      (''document_type'', JStr (case map_of document_types extension of None \<Rightarrow> ''text'' | Some k \<Rightarrow> k)),
      (''phase'', JStr ''validating''), (''generation'', JInt 1), (''attempt_id'', JStr (uuid_str attempt)), (''batch_id'', JNull),
      (''model_version'', if use_mineru extension then JStr (is_mineru_model (ie_index (ue_ingest e))) else JNull),
      (''source_hash'', JStr digest), (''normalized_schema_version'', JNull), (''parsed_unit_count'', JNull),
      (''unit_kind'', JNull), (''failed_phase'', JNull), (''error_code'', JNull)]"

definition uploaded_document ::
    "upload_env \<Rightarrow> uuid \<Rightarrow> uuid \<Rightarrow> uuid \<Rightarrow> string \<Rightarrow> string \<Rightarrow> string \<Rightarrow> string \<Rightarrow> string \<Rightarrow> uuid option \<Rightarrow> time \<Rightarrow> document" where
  "uploaded_document e uid did attempt name extension path content build org now =
     (let digest = is_sha256 (ie_index (ue_ingest e)) content in
      \<lparr>d_id = did, d_user = uid, d_name = name, d_org = org, d_file_type = extension, d_file_path = path,
       d_content_hash = digest, d_fingerprint = build, d_size = Some (int (length content)), d_status = DocProcessing,
       d_chunk_count = 0, d_embedding_model = is_model (ie_index (ue_ingest e)), d_error = None,
       d_metadata = upload_metadata e extension attempt digest, d_created = now\<rparr>)"

definition register_rows :: "ingest_env \<Rightarrow> uuid \<Rightarrow> uuid \<Rightarrow> document \<Rightarrow> uuid option \<Rightarrow> clock \<Rightarrow> db \<Rightarrow> db result" where
  "register_rows e uid tid doc base clk d =
     and_then (row_insert d_id doc (documents d)) (\<lambda>docs.
     and_then (if ie_versions e then bind_document_version uid doc base (d\<lparr>documents := docs\<rparr>) else Inr (d\<lparr>documents := docs\<rparr>)) (\<lambda>d1.
     and_then (if ie_publication e then reserve_index (ie_index e) doc d1 else Inr d1) (\<lambda>d2.
       if ie_queue e
       then and_then (enqueue (de_jobs (ie_docs e)) tid doc False KIngest [] None clk d2) (\<lambda>(_, d3). Inr d3)
       else Inr d2)))"

text \<open>After an \<open>IntegrityError\<close> the transaction is rolled back and the conflict is named.\<close>

definition conflict_of :: "ingest_env \<Rightarrow> document \<Rightarrow> db \<Rightarrow> exn" where
  "conflict_of e doc d =
     (if duplicate_document (d_user doc) (d_content_hash doc) (d_fingerprint doc) (d_org doc) d \<noteq> None
      then AppError ''DUPLICATE_DOCUMENT'' 409
      else if ie_versions e then AppError ''DOCUMENT_VERSION_CONFLICT'' 409
      else OtherError ''IntegrityError'')"

definition register_document ::
    "ingest_env \<Rightarrow> uuid \<Rightarrow> uuid \<Rightarrow> document \<Rightarrow> uuid option \<Rightarrow> clock \<Rightarrow> (db, annotated) body" where
  "register_document e uid tid doc base clk d =
     and_then (require_workspace (ie_docs e) uid (d_org doc) d) (\<lambda>_.
     and_then (raise_if (duplicate_document uid (d_content_hash doc) (d_fingerprint doc) (d_org doc) d \<noteq> None)
         (AppError ''DUPLICATE_DOCUMENT'' 409)) (\<lambda>_.
       case register_rows e uid tid doc base clk d of
         Inl x \<Rightarrow> Inl (if x = OtherError ''IntegrityError'' then conflict_of e doc d else x)
       | Inr d1 \<Rightarrow> committed (annotated_one e uid doc d1) d1))"

section \<open>The upload\<close>

definition upload_path :: "upload_env \<Rightarrow> uuid \<Rightarrow> uuid \<Rightarrow> string \<Rightarrow> string" where
  "upload_path e uid did extension = ue_root e @ [slash] @ uuid_str uid @ [slash] @ uuid_str did @ extension"

text \<open>The checks before anything is written: the name, the extension and the build.\<close>

definition upload_checks ::
    "upload_env \<Rightarrow> uuid \<Rightarrow> string \<Rightarrow> string option \<Rightarrow> uuid option \<Rightarrow> uuid option \<Rightarrow> db \<Rightarrow> (string \<times> string \<times> string) result" where
  "upload_checks e uid filename content_type base org d =
     (let i = ue_ingest e in
      and_then (require_workspace (ie_docs i) uid org d) (\<lambda>_.
      and_then (case base of None \<Rightarrow> Inr ()
         | Some bid \<Rightarrow> and_then (require_versions i) (\<lambda>_. and_then (get_one i uid bid org d) (\<lambda>_. Inr ()))) (\<lambda>_.
      and_then (validate_upload filename content_type) (\<lambda>(name, extension).
      and_then (raise_if (use_mineru extension \<and> (\<not> ue_mineru_enabled e \<or> ue_mineru_token e = []))
          (AppError ''MINERU_NOT_CONFIGURED'' 503)) (\<lambda>_.
        Inr (name, extension, if ie_publication i
          then build_fingerprint (ie_index i) extension (if use_mineru extension then ''mineru'' else ''local'')
          else ''legacy''))))))"

text \<open>The body of the \<open>try\<close>: the file is stored, then the document is registered.\<close>

definition save_upload ::
    "upload_env \<Rightarrow> uuid \<Rightarrow> uuid \<Rightarrow> uuid \<Rightarrow> uuid \<Rightarrow> clock \<Rightarrow> string \<Rightarrow> string \<Rightarrow> string \<Rightarrow> string \<Rightarrow> string list
     \<Rightarrow> uuid option \<Rightarrow> uuid option \<Rightarrow> (files, annotated) act" where
  "save_upload e uid did attempt tid clk name extension build path blocks base org s =
     (case store_file e path extension blocks (snd s) of
        (Inl x, fs) \<Rightarrow> (Inl x, fst s, fs)
      | (Inr content, fs) \<Rightarrow>
          (case transaction (register_document (ue_ingest e) uid tid
                  (uploaded_document e uid did attempt name extension path content build org (clk 0)) base (\<lambda>n. clk (n + 1)))
                (fst s) of
             (r, d') \<Rightarrow> (r, d', fs)))"

definition remove_unsaved :: "string \<Rightarrow> (files, annotated) act \<Rightarrow> (files, annotated) act" where
  "remove_unsaved path m s = (case m s of
     (Inl x, d', fs) \<Rightarrow> (Inl x, d', fs(path := None))
   | (Inr a, t) \<Rightarrow> (Inr a, t))"

definition upload ::
    "upload_env \<Rightarrow> uuid \<Rightarrow> uuid \<Rightarrow> uuid \<Rightarrow> uuid \<Rightarrow> clock \<Rightarrow> string \<Rightarrow> string option \<Rightarrow> string list
     \<Rightarrow> uuid option \<Rightarrow> uuid option \<Rightarrow> (files, annotated) act" where
  "upload e uid did attempt tid clk filename content_type blocks base org =
     bind_act (read_db (upload_checks e uid filename content_type base org)) (\<lambda>(name, extension, build).
     bind_act (lift_result (stored_path (ue_ingest e) (upload_path e uid did extension))) (\<lambda>path.
       remove_unsaved path (save_upload e uid did attempt tid clk name extension build path blocks base org)))"

end
