(* ===== verification/IngestionProperties.thy ===== *)
theory IngestionProperties
  imports Uploads
begin

text \<open>
  What the ingestion promises: a stale attempt changes nothing, an attempt never leaves its
  document half-processed, what it publishes can be searched, a pinned index is not deleted, and
  an upload leaves either a registered document or nothing.
\<close>

section \<open>Frames\<close>

lemma sync_parent_frame: "sync_parent p now d = Inr d' \<Longrightarrow> \<exists>ts. d' = d\<lparr>doc_tasks := ts\<rparr>"
  by (auto simp: sync_parent_def result_simps Let_def put_task_def split: option.splits intro: exI [of _ "doc_tasks d"])

lemma sync_task_frame: "sync_task j ph n u clk d = Inr d' \<Longrightarrow> \<exists>ts. d' = d\<lparr>doc_tasks := ts\<rparr>"
  by (auto simp: sync_task_def result_simps Let_def put_task_def split: option.splits intro: exI [of _ "doc_tasks d"]
      dest!: sync_parent_frame)

lemma job_progress_frame: "job_progress did ph n u clk d = Inr d' \<Longrightarrow> \<exists>ts. d' = d\<lparr>doc_tasks := ts\<rparr>"
  by (auto simp: job_progress_def split: option.splits intro: exI [of _ "doc_tasks d"] dest: sync_task_frame)

lemma queue_progress_frame: "queue_progress e did ph n u clk d = Inr d' \<Longrightarrow> \<exists>ts. d' = d\<lparr>doc_tasks := ts\<rparr>"
  by (auto simp: queue_progress_def split: if_splits intro: exI [of _ "doc_tasks d"] dest: job_progress_frame)

lemma document_of_tasks [simp]: "document_of uid did (d\<lparr>doc_tasks := ts\<rparr>) = document_of uid did d"
  by (simp add: document_of_def)

lemma document_of_nodes [simp]: "document_of uid did (d\<lparr>nodes := ns\<rparr>) = document_of uid did d"
  by (simp add: document_of_def)

lemma document_of_put_index [simp]: "document_of uid did (put_index ix d) = document_of uid did d"
  by (simp add: document_of_def put_index_def)

lemma document_of_put:
  assumes "document_of uid did d = Inr doc" "d_id x = did" "d_user x = uid"
  shows "document_of uid did (put_document x d) = Inr x"
proof -
  have "doc \<in> set (documents d)" "d_id doc = did" using document_of_Inr [OF assms(1)] by auto
  then have "\<exists>y\<in>set (documents d). d_id y = d_id x" using assms(2) by auto
  then have rows: "documents (put_document x d) = map (\<lambda>y. if d_id y = d_id x then x else y) (documents d)"
    by (simp add: put_document_def row_put_def)
  have "find (\<lambda>y. d_id y = did \<and> d_user y = uid) (documents (put_document x d)) = Some x"
    if "\<exists>y\<in>set ys. d_id y = did" "rows = map (\<lambda>y. if d_id y = d_id x then x else y) ys" "documents (put_document x d) = rows"
    for rows ys
    using that
    by (simp add: that(3)) (use that(1) assms(2,3) in \<open>induction ys arbitrary: rows; auto\<close>)
  then have "find (\<lambda>y. d_id y = did \<and> d_user y = uid) (documents (put_document x d)) = Some x"
    using rows \<open>doc \<in> set (documents d)\<close> \<open>d_id doc = did\<close> by blast
  then show ?thesis by (simp add: document_of_def)
qed

section \<open>A stale attempt changes nothing\<close>

lemma stale_Inr: "stale g doc = Inr gone \<longleftrightarrow>
    (\<exists>n. generation_of (d_metadata doc) = Inr n \<and> gone = (n \<noteq> g \<or> d_status doc \<noteq> DocProcessing))"
  by (auto simp: stale_def result_simps)

lemma fst_run_guard [simp]: "fst (snd (run_guard ww s)) = fst s"
  by (simp add: run_guard_def split: prod.splits)

lemma guarded_leave:
  assumes "\<And>clk ids. body clk ids (fst s) = Inr (Leave a)"
  shows "fst (snd (guarded ww body s)) = fst s"
  by (simp add: guarded_def assms split: prod.splits)

lemma guard_then:
  assumes "\<And>t. fst t = fst s \<Longrightarrow> fst (snd (m t)) = fst s"
  shows "fst (snd (bind_act (run_guard ww) (\<lambda>_. m) s)) = fst s"
proof -
  obtain r t where g: "run_guard ww s = (r, t)" by (meson surj_pair)
  then have "fst t = fst s" using fst_run_guard [of ww s] by simp
  then show ?thesis using assms g by (simp add: bind_act_def split: sum.splits)
qed

text \<open>
  C28: a stale attempt is fenced off. When the document has another generation or is no longer
  being processed (a retry or a deletion came in between), the writes of an attempt leave the
  database as it is: recording a batch, a phase, progress, the publication of the result, and
  the failure.
\<close>

theorem stale_attempt_writes_nothing:
  assumes "document_of uid did (fst s) = Inr doc" "generation_of (d_metadata doc) = Inr n"
    and "n \<noteq> g \<or> d_status doc \<noteq> DocProcessing"
  shows "fst (snd (set_batch e iw uid did g batch s)) = fst s \<and>
    fst (snd (set_ingest_phase e iw uid did g phase units s)) = fst s \<and>
    fst (snd (set_progress e iw uid did g k total_units s)) = fst s \<and>
    fst (snd (guarded iw (publish_body e uid did g m t cs leaf) s)) = fst s \<and>
    fst (snd (fail_ingest e iw uid did g x s)) = fst s"
proof -
  have gone: "stale g doc = Inr True" using assms(2,3) by (simp add: stale_def)
  have md: "fst (snd (guarded iw (set_metadata e uid did g ph ch) t)) = fst s" if "fst t = fst s" for t ph ch
    using guarded_leave [of "set_metadata e uid did g ph ch" t "()" iw] that assms(1) gone by (simp add: set_metadata_def)
  have pr: "fst (snd (guarded iw (progress_body uid did g k total_units) t)) = fst s" if "fst t = fst s" for t
    using guarded_leave [of "progress_body uid did g k total_units" t "()" iw] that assms(1) gone by (simp add: progress_body_def)
  have pu: "fst (snd (guarded iw (publish_body e uid did g m t cs leaf) s)) = fst s"
    using guarded_leave [of "publish_body e uid did g m t cs leaf" s "()" iw] assms(1) gone by (simp add: publish_body_def)
  have fa: "fst (snd (fail_ingest e iw uid did g x s)) = fst s"
    unfolding fail_ingest_def
    by (rule guard_then) (simp add: bind_act_def read_db_def ret_def assms(1) gone)
  show ?thesis
    using pu fa by (auto simp: set_batch_def set_ingest_phase_def set_progress_def ret_def intro!: guard_then md pr)
qed

section \<open>An attempt settles its document\<close>

text \<open>
  The documented behaviour of the outside services: they do not write the database themselves;
  the parser writes it through the callbacks it is given.
\<close>

definition quiet :: "('w, 'z) ingest_world_scheme \<Rightarrow> bool" where
  "quiet iw \<longleftrightarrow> (\<forall>R. reflp R \<and> transp R \<longrightarrow>
     (\<forall>c u d. act_keeps R (iw_delete iw c u d)) \<and> (\<forall>p. act_keeps R (iw_hash iw p)) \<and>
     (\<forall>u d a b. act_keeps R (iw_load_cache iw u d a b)) \<and> (\<forall>u d a b us. act_keeps R (iw_save_cache iw u d a b us)) \<and>
     (\<forall>p k a b f m. (\<forall>x. act_keeps R (f x)) \<longrightarrow> act_keeps R m \<longrightarrow> act_keeps R (iw_parse iw p k a b f m)) \<and>
     (\<forall>p k. act_keeps R (iw_load iw p k)) \<and> (\<forall>ss. act_keeps R (iw_embed iw ss)) \<and>
     (\<forall>cs vs. act_keeps R (iw_upsert iw cs vs)) \<and> (\<forall>a b c u d n. act_keeps R (iw_read iw a b c u d n)))"

definition guard_passes :: "('w, 'z) worker_world_scheme \<Rightarrow> bool" where
  "guard_passes ww \<longleftrightarrow> (\<forall>s. fst (ww_guard ww s) = Inr ())"

text \<open>The document of an attempt is being processed under its generation.\<close>

definition in_attempt :: "uuid \<Rightarrow> uuid \<Rightarrow> int \<Rightarrow> db \<Rightarrow> bool" where
  "in_attempt uid did g d \<longleftrightarrow> (\<exists>doc. document_of uid did d = Inr doc \<and> generation_of (d_metadata doc) = Inr g \<and>
     d_status doc = DocProcessing)"

definition attempt_kept :: "uuid \<Rightarrow> uuid \<Rightarrow> int \<Rightarrow> db \<Rightarrow> db \<Rightarrow> bool" where
  "attempt_kept uid did g d d' \<longleftrightarrow> (in_attempt uid did g d \<longrightarrow> in_attempt uid did g d')"

lemma attempt_kept_order [simp]: "reflp (attempt_kept uid did g)" "transp (attempt_kept uid did g)"
  by (auto simp: attempt_kept_def reflp_def transp_def)

lemma generation_update:
  "''generation'' \<notin> fst ` set ch \<Longrightarrow> generation_of (dict_update m ch) = generation_of m"
  by (simp add: generation_of_def dict_get_update_notin)

lemma in_attempt_put:
  assumes "document_of uid did d = Inr doc" "d_id x = did" "d_user x = uid" "generation_of (d_metadata x) = Inr g"
    "d_status x = DocProcessing"
  shows "in_attempt uid did g (put_document x d)"
  unfolding in_attempt_def using document_of_put [OF assms(1-3)] assms(4,5) by blast

lemma in_attempt_tasks [simp]: "in_attempt uid did g (d\<lparr>doc_tasks := ts\<rparr>) = in_attempt uid did g d"
  by (simp add: in_attempt_def)

lemma set_metadata_keeps:
  assumes "''generation'' \<notin> fst ` set ch"
  shows "act_keeps (attempt_kept uid did g) (guarded iw (set_metadata e uid did g' ph ch))"
proof (rule act_keeps_guarded)
  fix clk ids d a d' assume b: "set_metadata e uid did g' ph ch clk ids d = Inr (Commit a d')"
  then obtain doc where doc: "document_of uid did d = Inr doc" "stale g' doc = Inr False"
    and d': "queue_progress e did ph None None clk
      (put_document (doc\<lparr>d_metadata := dict_update (d_metadata doc) ch\<rparr>) d) = Inr d'"
    by (auto simp: set_metadata_def result_simps split: if_splits)
  show "attempt_kept uid did g d d'"
    unfolding attempt_kept_def
  proof
    assume "in_attempt uid did g d"
    then have "generation_of (d_metadata doc) = Inr g" "d_status doc = DocProcessing"
      using doc(1) by (auto simp: in_attempt_def)
    then have "in_attempt uid did g (put_document (doc\<lparr>d_metadata := dict_update (d_metadata doc) ch\<rparr>) d)"
      using document_of_Inr [OF doc(1)] by (intro in_attempt_put [OF doc(1)]) (simp_all add: generation_update [OF assms])
    then show "in_attempt uid did g d'" using queue_progress_frame [OF d'] by auto
  qed
qed simp

lemma phase_keeps: "act_keeps (attempt_kept uid did g) (set_ingest_phase e iw uid did g' ph n)"
  unfolding set_ingest_phase_def
  by (rule act_keeps_bind) (auto intro!: set_metadata_keeps act_keeps_pure)

lemma batch_keeps: "act_keeps (attempt_kept uid did g) (set_batch e iw uid did g' b)"
  unfolding set_batch_def
  by (rule act_keeps_bind) (auto intro!: set_metadata_keeps act_keeps_pure)

lemma progress_keeps: "act_keeps (attempt_kept uid did g) (set_progress e iw uid did g' k n)"
proof -
  have "act_keeps (attempt_kept uid did g) (guarded iw (progress_body uid did g' k n))"
  proof (rule act_keeps_guarded)
    fix clk ids d a d' assume "progress_body uid did g' k n clk ids d = Inr (Commit a d')"
    then obtain d1 where "job_progress did ''indexing'' (Some (int k)) (Some (int n)) clk d = Inr d1" "d' = d1"
      by (auto simp: progress_body_def result_simps split: if_splits)
    then show "attempt_kept uid did g d d'" by (auto simp: attempt_kept_def dest!: job_progress_frame)
  qed simp
  then show ?thesis
    unfolding set_progress_def by (auto intro!: act_keeps_bind act_keeps_pure)
qed

lemma quietD:
  assumes "quiet iw"
  shows "act_keeps (attempt_kept uid did g) (iw_delete iw c u d)" "act_keeps (attempt_kept uid did g) (iw_hash iw p)"
    "act_keeps (attempt_kept uid did g) (iw_load_cache iw u d ja jb)"
    "act_keeps (attempt_kept uid did g) (iw_save_cache iw u d ja jb us)"
    "(\<And>x. act_keeps (attempt_kept uid did g) (f x)) \<Longrightarrow> act_keeps (attempt_kept uid did g) m \<Longrightarrow>
       act_keeps (attempt_kept uid did g) (iw_parse iw p k ja jb f m)"
    "act_keeps (attempt_kept uid did g) (iw_load iw p k)" "act_keeps (attempt_kept uid did g) (iw_embed iw ss)"
    "act_keeps (attempt_kept uid did g) (iw_upsert iw cs vs)"
    "act_keeps (attempt_kept uid did g) (iw_read iw p k i u d j)"
  using assms [unfolded quiet_def, rule_format, of "attempt_kept uid did g"] by simp_all

lemmas keeps_steps = act_keeps_bind [OF attempt_kept_order(2)] act_keeps_except [OF attempt_kept_order(2)]
  act_keeps_pure [OF attempt_kept_order(1)] phase_keeps batch_keeps progress_keeps

lemma load_source_keeps:
  assumes "quiet iw"
  shows "act_keeps (attempt_kept (d_user doc) (d_id doc) g) (load_source e iw doc g' path)"
  unfolding load_source_def parse_source_def
  by (auto intro!: keeps_steps quietD [OF assms] split: option.split)

lemma index_batches_keep:
  assumes "quiet iw"
  shows "act_keeps (attempt_kept uid did g) (index_batches e iw uid did g' n k bs)"
  by (induction bs arbitrary: n) (auto intro!: keeps_steps quietD [OF assms])

lemma prepare_index_keeps:
  assumes "quiet iw"
  shows "act_keeps (attempt_kept uid did g) (prepare_index e iw uid did)"
proof -
  have "act_keeps (attempt_kept uid did g) (guarded iw (\<lambda>clk ids d.
      and_then (document_of uid did d) (\<lambda>doc.
      and_then (assert_build (ie_index e) doc d) (\<lambda>d1. Inr (Commit () d1)))))"
    by (rule act_keeps_guarded) (auto simp: result_simps assert_build_def attempt_kept_def in_attempt_def)
  then show ?thesis
    unfolding prepare_index_def by (auto intro!: keeps_steps quietD [OF assms])
qed

lemma verify_leaves_keeps:
  assumes "quiet iw"
  shows "act_keeps (attempt_kept (d_user doc) (d_id doc) g) (verify_leaves e iw doc g' n cs)"
  unfolding verify_leaves_def verify_index_act_def Let_def
  by (auto intro!: keeps_steps quietD [OF assms])

lemma check_source_keeps: "quiet iw \<Longrightarrow> act_keeps (attempt_kept uid did g) (check_source e iw doc path)"
  unfolding check_source_def by (auto intro!: keeps_steps quietD)

text \<open>An action that either fails in the attempt or makes its document ready.\<close>

definition ready_in :: "uuid \<Rightarrow> uuid \<Rightarrow> db \<Rightarrow> bool" where
  "ready_in uid did d \<longleftrightarrow> (\<exists>doc. document_of uid did d = Inr doc \<and> d_status doc = DocReady)"

definition settles :: "uuid \<Rightarrow> uuid \<Rightarrow> int \<Rightarrow> ('w, unit) act \<Rightarrow> bool" where
  "settles uid did g m \<longleftrightarrow> (\<forall>s r t. in_attempt uid did g (fst s) \<longrightarrow> m s = (r, t) \<longrightarrow>
     (case r of Inl _ \<Rightarrow> in_attempt uid did g (fst t) | Inr _ \<Rightarrow> ready_in uid did (fst t)))"

lemma settles_bind:
  assumes "act_keeps (attempt_kept uid did g) m" "\<And>a. settles uid did g (f a)"
  shows "settles uid did g (bind_act m f)"
  unfolding settles_def
proof (intro allI impI)
  fix s r t assume s: "in_attempt uid did g (fst s)" "bind_act m f s = (r, t)"
  obtain v s' where m: "m s = (v, s')" by (meson surj_pair)
  then have s': "in_attempt uid did g (fst s')" using act_keepsD [OF assms(1) m] s(1) by (simp add: attempt_kept_def)
  show "case r of Inl _ \<Rightarrow> in_attempt uid did g (fst t) | Inr _ \<Rightarrow> ready_in uid did (fst t)"
  proof (cases v)
    case (Inl x)
    then show ?thesis using s s' m by (auto simp: bind_act_def)
  next
    case (Inr a)
    then have "f a s' = (r, t)" using s m by (simp add: bind_act_def)
    then show ?thesis using assms(2) [of a] s' unfolding settles_def by blast
  qed
qed

lemma publish_body_commit:
  assumes "publish_body e uid did g n t cs leaf clk ids d = Inr (Commit () d')"
  shows "\<exists>doc d2 d3 ts. document_of uid did d = Inr doc \<and> stale g doc = Inr False \<and>
    (if ie_publication e then index_verified (ie_index e) (ready_document n (length cs) doc) (int (length cs)) leaf (clk 0)
        (put_document (ready_document n (length cs) doc) d) = Inr d2 else d2 = put_document (ready_document n (length cs) doc) d) \<and>
    (case t of None \<Rightarrow> d3 = d2 | Some x \<Rightarrow> \<exists>doc2. publish_tree (ready_document n (length cs) doc) x d2 = Inr (doc2, d3)) \<and>
    d' = d3\<lparr>doc_tasks := ts\<rparr>"
proof -
  from assms obtain doc d2 d3 where doc: "document_of uid did d = Inr doc" "stale g doc = Inr False"
    and d2: "(if ie_publication e then index_verified (ie_index e) (ready_document n (length cs) doc) (int (length cs)) leaf (clk 0)
        (put_document (ready_document n (length cs) doc) d) else Inr (put_document (ready_document n (length cs) doc) d)) = Inr d2"
    and d3: "(case t of None \<Rightarrow> Inr d2 | Some x \<Rightarrow> and_then (publish_tree (ready_document n (length cs) doc) x d2) (\<lambda>(_, d3). Inr d3)) = Inr d3"
    and d': "queue_progress e did ''done'' (Some (int (length cs))) (Some (int (length cs))) (\<lambda>n. clk (n + 1)) d3 = Inr d'"
    by (auto simp: publish_body_def result_simps Let_def split: if_splits)
  obtain ts where "d' = d3\<lparr>doc_tasks := ts\<rparr>" using queue_progress_frame [OF d'] by blast
  moreover have "case t of None \<Rightarrow> d3 = d2 | Some x \<Rightarrow> \<exists>doc2. publish_tree (ready_document n (length cs) doc) x d2 = Inr (doc2, d3)"
    using d3 by (auto simp: result_simps split: option.splits prod.splits)
  ultimately show ?thesis using doc d2 by (auto split: if_splits)
qed

lemma publish_tree_document:
  assumes "publish_tree doc x d = Inr (doc2, d')" "document_of uid did d = Inr old" "d_id doc = did" "d_user doc = uid"
  shows "document_of uid did d' = Inr doc2 \<and> (\<exists>m. doc2 = doc\<lparr>d_metadata := m\<rparr>) \<and>
    (\<exists>rows. d' = (put_document doc2 d)\<lparr>nodes := rows\<rparr>)"
proof -
  from assms(1) obtain rows m where d2: "doc2 = doc\<lparr>d_metadata := m\<rparr>" "d' = put_document doc2 (d\<lparr>nodes := rows\<rparr>)"
    by (auto simp: publish_tree_def result_simps Let_def)
  have "document_of uid did d' = Inr doc2"
    unfolding d2(2) by (rule document_of_put [of _ _ _ old]) (use assms d2(1) in simp_all)
  moreover have "d' = (put_document doc2 d)\<lparr>nodes := rows\<rparr>" by (simp add: d2(2) put_document_def)
  ultimately show ?thesis using d2(1) by blast
qed

lemma publish_ready:
  assumes "publish_body e uid did g n t cs leaf clk ids d = Inr (Commit () d')"
  shows "ready_in uid did d'"
proof -
  from publish_body_commit [OF assms] obtain doc d2 d3 ts where doc: "document_of uid did d = Inr doc"
    and d2: "if ie_publication e then index_verified (ie_index e) (ready_document n (length cs) doc) (int (length cs)) leaf (clk 0)
        (put_document (ready_document n (length cs) doc) d) = Inr d2 else d2 = put_document (ready_document n (length cs) doc) d"
    and d3: "case t of None \<Rightarrow> d3 = d2 | Some x \<Rightarrow> \<exists>doc2. publish_tree (ready_document n (length cs) doc) x d2 = Inr (doc2, d3)"
    and d': "d' = d3\<lparr>doc_tasks := ts\<rparr>" by blast
  let ?r = "ready_document n (length cs) doc"
  have r: "d_id ?r = did" "d_user ?r = uid" "d_status ?r = DocReady"
    using document_of_Inr [OF doc] by (auto simp: ready_document_def)
  have "document_of uid did (put_document ?r d) = Inr ?r" by (rule document_of_put [OF doc r(1,2)])
  then have d2': "document_of uid did d2 = Inr ?r" using d2 by (auto simp: index_verified_def result_simps split: if_splits)
  show ?thesis
  proof (cases t)
    case None
    then show ?thesis using d3 d' d2' r(3) by (auto simp: ready_in_def)
  next
    case (Some x)
    then obtain doc2 where "publish_tree ?r x d2 = Inr (doc2, d3)" using d3 by auto
    from publish_tree_document [OF this d2' r(1,2)] show ?thesis using d' r(3) by (auto simp: ready_in_def)
  qed
qed

lemma publish_settles: "settles uid did g (guarded iw (publish_body e uid did g n t cs leaf))"
  unfolding settles_def
proof (intro allI impI)
  fix s r u assume s: "in_attempt uid did g (fst s)" and m: "guarded iw (publish_body e uid did g n t cs leaf) s = (r, u)"
  show "case r of Inl _ \<Rightarrow> in_attempt uid did g (fst u) | Inr _ \<Rightarrow> ready_in uid did (fst u)"
  proof (cases r)
    case (Inl x)
    then show ?thesis using guarded_Inl m s by fastforce
  next
    case (Inr a)
    have "publish_body e uid did g n t cs leaf clk ids (fst s) \<noteq> Inr (Leave a)" for clk ids
      using s by (auto simp: publish_body_def in_attempt_def stale_def result_simps Let_def)
    then obtain clk ids where "publish_body e uid did g n t cs leaf clk ids (fst s) = Inr (Commit a (fst u))"
      using guarded_Inr [of iw _ s a u] m Inr by blast
    then show ?thesis using publish_ready Inr by fastforce
  qed
qed

lemma ingest_settles:
  assumes "quiet iw" "d_id doc = did" "d_user doc = uid"
  shows "settles uid did g (ingest_document e iw doc g)"
  unfolding ingest_document_def Let_def assms(2,3)
  by (intro settles_bind prepare_index_keeps check_source_keeps load_source_keeps [where doc = doc, unfolded assms(2,3)]
      phase_keeps progress_keeps index_batches_keep verify_leaves_keeps [where doc = doc, unfolded assms(2,3)] assms(1)
      act_keeps_pure attempt_kept_order)
    (auto split: prod.split intro!: settles_bind publish_settles progress_keeps index_batches_keep
      verify_leaves_keeps [where doc = doc, unfolded assms(2,3)] assms(1))

section \<open>The start and the failure of an attempt\<close>

lemma generation_set_phase: "generation_of (dict_update m [(''phase'', v)]) = generation_of m"
  by (rule generation_update) simp

lemma start_commit:
  assumes "start_body e uid did clk ids d = Inr (Commit (Some (doc, g)) d')"
  shows "in_attempt uid did g d' \<and> d_id doc = did \<and> d_user doc = uid"
proof -
  from assms obtain doc0 doc1 m ph where old: "document_of uid did d = Inr doc0" and re: "reopened e (ids 0) doc0 = Inr doc1"
    and st: "d_status doc1 = DocProcessing" and g: "generation_of m = Inr g"
    and doc: "doc = doc1\<lparr>d_metadata := dict_update m [(''phase'', JStr ph)]\<rparr>"
    and d': "queue_progress e did ph (Some 0) None clk (put_document doc d) = Inr d'"
    by (auto simp: start_body_def result_simps Let_def split: if_splits)
  have id: "d_id doc1 = did \<and> d_user doc1 = uid"
    using re document_of_Inr [OF old] by (auto simp: reopened_def result_simps split: if_splits)
  have "in_attempt uid did g (put_document doc d)"
    by (rule in_attempt_put [OF old]) (use id st g doc in \<open>simp_all add: generation_set_phase\<close>)
  then show ?thesis using queue_progress_frame [OF d'] id doc by auto
qed

lemma start_leave: "start_body e uid did clk ids d = Inr (Leave v) \<Longrightarrow> v = None"
  by (auto simp: start_body_def result_simps Let_def split: if_splits)

lemma start_commit_Some: "start_body e uid did clk ids d = Inr (Commit v d') \<Longrightarrow> v \<noteq> None"
  by (auto simp: start_body_def result_simps Let_def split: if_splits)

lemma start_leave_status:
  assumes "start_body e uid did clk ids d = Inr (Leave v)" "document_of uid did d = Inr doc"
  shows "d_status doc \<noteq> DocProcessing"
  using assms by (auto simp: start_body_def reopened_def result_simps Let_def split: if_splits)

definition failed_in :: "uuid \<Rightarrow> uuid \<Rightarrow> exn \<Rightarrow> db \<Rightarrow> bool" where
  "failed_in uid did x d \<longleftrightarrow> (\<exists>doc. document_of uid did d = Inr doc \<and> d_status doc = DocFailed \<and>
     dict_get (d_metadata doc) ''error_code'' = Some (JStr (error_code_of (Some x))))"

lemma fail_body_commits:
  assumes "in_attempt uid did g d"
  shows "\<exists>d'. fail_body e uid did g x clk ids d = Inr (Commit () d') \<and> failed_in uid did x d'"
proof -
  from assms obtain doc where doc: "document_of uid did d = Inr doc" "stale g doc = Inr False"
    by (auto simp: in_attempt_def stale_def)
  let ?f = "failed_document e x doc"
  have f: "d_id ?f = did" "d_user ?f = uid" "d_status ?f = DocFailed"
    "dict_get (d_metadata ?f) ''error_code'' = Some (JStr (error_code_of (Some x)))"
    using document_of_Inr [OF doc(1)] by (simp_all add: failed_document_def dict_update_def)
  have "document_of uid did (fail_index e did (put_document ?f d)) = Inr ?f"
    using document_of_put [OF doc(1) f(1,2)] by (simp add: fail_index_def split: option.split)
  then show ?thesis using f(3,4) doc by (auto simp: fail_body_def failed_in_def)
qed

lemma cleanup_keeps:
  assumes "quiet iw"
  shows "act_keeps (attempt_kept uid did g) (except_act (cleanup_failed e iw uid did) (\<lambda>_. ret ()))"
  unfolding cleanup_failed_def by (auto intro!: keeps_steps quietD [OF assms])

lemma run_guard_passes: "guard_passes ww \<Longrightarrow> \<exists>t. run_guard ww s = (Inr (), t) \<and> fst t = fst s"
  by (simp add: guard_passes_def run_guard_def split: prod.split) (metis fst_conv prod.exhaust)

lemma guarded_commit:
  assumes "guard_passes ww" "\<And>clk ids. \<exists>d'. body clk ids (fst s) = Inr (Commit a d') \<and> Q d'"
  shows "\<exists>t. guarded ww body s = (Inr a, t) \<and> Q (fst t)"
proof -
  obtain clk ids w where w: "ww_draw ww (snd s) = ((clk, ids), w)" by (metis prod.exhaust)
  obtain d' where d': "body clk ids (fst s) = Inr (Commit a d')" "Q d'" using assms(2) by blast
  obtain w' where "ww_guard ww (fst s, w) = (Inr (), w')" using assms(1) unfolding guard_passes_def by (metis prod.collapse)
  then show ?thesis using w d' by (simp add: guarded_def)
qed

lemma fail_ingest_records:
  assumes "quiet iw" "guard_passes iw" "in_attempt uid did g (fst s)"
  shows "\<exists>t. fail_ingest e iw uid did g x s = (Inr (), t) \<and> failed_in uid did x (fst t)"
proof -
  obtain s1 where g1: "run_guard iw s = (Inr (), s1)" "fst s1 = fst s" using run_guard_passes [OF assms(2)] by blast
  have alive: "and_then (document_of uid did (fst s1)) (stale g) = Inr False"
    using assms(3) g1(2) by (auto simp: in_attempt_def stale_def)
  obtain r s2 where c: "except_act (cleanup_failed e iw uid did) (\<lambda>_. ret ()) s1 = (r, s2)" by (meson surj_pair)
  have s2: "in_attempt uid did g (fst s2)"
    using act_keepsD [OF cleanup_keeps [OF assms(1)] c] assms(3) g1(2) by (simp add: attempt_kept_def)
  have r: "r = Inr ()" using c by (auto simp: act_simps)
  obtain s3 where g3: "run_guard iw s2 = (Inr (), s3)" "fst s3 = fst s2" using run_guard_passes [OF assms(2)] by blast
  have "\<exists>t. guarded iw (fail_body e uid did g x) s3 = (Inr (), t) \<and> failed_in uid did x (fst t)"
    by (rule guarded_commit [OF assms(2)]) (use s2 g3(2) fail_body_commits in metis)
  then show ?thesis
    using g1(1) alive c r g3(1) by (simp add: fail_ingest_def bind_act_def read_db_def)
qed

lemma attempt_document_changed:
  assumes "quiet iw" "guard_passes iw" "attempt_document e iw uid did True s = (r, t)" "fst t \<noteq> fst s"
  shows "case r of Inr _ \<Rightarrow> ready_in uid did (fst t) | Inl x \<Rightarrow> failed_in uid did x (fst t)"
proof -
  obtain s1 where g1: "run_guard iw s = (Inr (), s1)" "fst s1 = fst s" using run_guard_passes [OF assms(2)] by blast
  obtain v s2 where v: "guarded iw (start_body e uid did) s1 = (v, s2)" by (meson surj_pair)
  show ?thesis
  proof (cases v)
    case (Inl x)
    then have "fst s2 = fst s" using guarded_Inl v g1(2) by fastforce
    moreover have "t = s2" using assms(3) g1(1) v Inl by (simp add: attempt_document_def bind_act_def)
    ultimately show ?thesis using assms(4) by simp
  next
    case (Inr w)
    show ?thesis
    proof (cases w)
      case None
      then have "t = s2" using assms(3) g1(1) v Inr by (simp add: attempt_document_def bind_act_def ret_def)
      moreover have "fst s2 = fst s1" using guarded_Inr [OF v [unfolded Inr]] None start_commit_Some by blast
      ultimately show ?thesis using assms(4) g1(2) by simp
    next
      case (Some p)
      obtain doc1 g where p: "p = (doc1, g)" by (cases p) auto
      from guarded_Inr [OF v [unfolded Inr]] Some p start_leave
      obtain clk ids where "start_body e uid did clk ids (fst s1) = Inr (Commit (Some (doc1, g)) (fst s2))" by blast
      then have start: "in_attempt uid did g (fst s2)" "d_id doc1 = did" "d_user doc1 = uid" using start_commit by blast+
      obtain r1 s3 where i: "ingest_document e iw doc1 g s2 = (r1, s3)" by (meson surj_pair)
      have set: "case r1 of Inl _ \<Rightarrow> in_attempt uid did g (fst s3) | Inr _ \<Rightarrow> ready_in uid did (fst s3)"
        using ingest_settles [OF assms(1) start(2,3), of g e] start(1) i unfolding settles_def by blast
      have run: "(r, t) = (case r1 of Inl x \<Rightarrow> bind_act (run_guard iw) (\<lambda>_. bind_act (fail_ingest e iw uid did g x)
          (\<lambda>_. raise_again True x)) s3 | Inr _ \<Rightarrow> (Inr (), s3))"
        using assms(3) g1(1) v Inr Some p i by (cases r1) (auto simp: attempt_document_def bind_act_def except_act_def)
      show ?thesis
      proof (cases r1)
        case (Inl x)
        obtain s4 where g4: "run_guard iw s3 = (Inr (), s4)" "fst s4 = fst s3" using run_guard_passes [OF assms(2)] by blast
        obtain s5 where "fail_ingest e iw uid did g x s4 = (Inr (), s5)" "failed_in uid did x (fst s5)"
          using fail_ingest_records [OF assms(1,2), of uid did g s4 e x] set Inl g4(2) by auto
        then show ?thesis using run Inl g4(1) by (simp add: bind_act_def raise_again_def raising_def)
      qed (use run set in auto)
    qed
  qed
qed

text \<open>
  Whatever other requests and workers do to the store while an attempt is outside it (delete the document, retry it under
  a new generation), the attempt does not leave the document in progress under its own generation.
\<close>

lemma published_leaves:
  assumes "guarded iw (publish_body e uid did g n tr cs leaf) s = (Inr a, t)"
  shows "\<not> in_attempt uid did g (fst t)"
proof
  assume on: "in_attempt uid did g (fst t)"
  from guarded_Inr [OF assms] obtain clk ids where
    "publish_body e uid did g n tr cs leaf clk ids (fst s) = Inr (Leave a) \<and> fst t = fst s \<or>
     publish_body e uid did g n tr cs leaf clk ids (fst s) = Inr (Commit a (fst t))" by blast
  then show False
  proof
    assume "publish_body e uid did g n tr cs leaf clk ids (fst s) = Inr (Leave a) \<and> fst t = fst s"
    then show False using on by (auto simp: publish_body_def in_attempt_def stale_def result_simps Let_def)
  next
    assume "publish_body e uid did g n tr cs leaf clk ids (fst s) = Inr (Commit a (fst t))"
    then have "ready_in uid did (fst t)" using publish_ready by simp
    then show False using on by (auto simp: ready_in_def in_attempt_def)
  qed
qed

lemma ingest_leaves:
  assumes "ingest_document e iw doc g s = (Inr a, t)" "d_id doc = did" "d_user doc = uid"
  shows "\<not> in_attempt uid did g (fst t)"
proof -
  obtain n tr cs leaf u where "guarded iw (publish_body e uid did g n tr cs leaf) u = (Inr a, t)"
    using assms(1) unfolding ingest_document_def Let_def bind_act_Inr assms(2,3) by (auto simp: bind_act_Inr)
  then show ?thesis by (rule published_leaves)
qed

lemma guarded_cases:
  assumes "guard_passes ww" "guarded ww body s = (r, t)"
  shows "\<exists>clk ids. (\<exists>x. r = Inl x \<and> fst t = fst s \<and> body clk ids (fst s) = Inl x) \<or>
    (\<exists>a. r = Inr a \<and> body clk ids (fst s) = Inr (Leave a) \<and> fst t = fst s) \<or>
    (\<exists>a. r = Inr a \<and> body clk ids (fst s) = Inr (Commit a (fst t)))"
proof -
  obtain clk ids w where d: "ww_draw ww (snd s) = ((clk, ids), w)" by (metis prod.exhaust)
  obtain w' where "ww_guard ww (fst s, w) = (Inr (), w')" using assms(1) unfolding guard_passes_def by (metis prod.collapse)
  then show ?thesis
    using assms(2) d by (intro exI [of _ clk] exI [of _ ids]) (auto simp: guarded_def split: sum.splits step.splits)
qed

lemma fail_leaves:
  assumes "guard_passes iw" "fail_ingest e iw uid did g x s = (r, t)"
  shows "\<not> in_attempt uid did g (fst t)"
proof
  assume on: "in_attempt uid did g (fst t)"
  then have alive: "and_then (document_of uid did (fst t)) (stale g) = Inr False" by (auto simp: in_attempt_def stale_def)
  obtain s1 where g1: "run_guard iw s = (Inr (), s1)" "fst s1 = fst s" using run_guard_passes [OF assms(1)] by blast
  show False
  proof (cases "and_then (document_of uid did (fst s1)) (stale g) = Inr False")
    case False
    then have "fst t = fst s1"
      using assms(2) g1(1)
      by (cases "and_then (document_of uid did (fst s1)) (stale g)") (auto simp: fail_ingest_def bind_act_def read_db_def ret_def)
    then show False using False alive by simp
  next
    case True
    obtain q s2 where c: "except_act (cleanup_failed e iw uid did) (\<lambda>_. ret ()) s1 = (q, s2)" by (meson surj_pair)
    have q: "q = Inr ()" using c by (auto simp: act_simps)
    obtain s3 where g3: "run_guard iw s2 = (Inr (), s3)" "fst s3 = fst s2" using run_guard_passes [OF assms(1)] by blast
    have "guarded iw (fail_body e uid did g x) s3 = (r, t)"
      using assms(2) g1(1) True c q g3(1) by (simp add: fail_ingest_def bind_act_def read_db_def)
    from guarded_cases [OF assms(1) this] obtain clk ids where
      "(\<exists>y. fst t = fst s3 \<and> fail_body e uid did g x clk ids (fst s3) = Inl y) \<or>
       (\<exists>a. fst t = fst s3 \<and> fail_body e uid did g x clk ids (fst s3) = Inr (Leave a)) \<or>
       (\<exists>a. fail_body e uid did g x clk ids (fst s3) = Inr (Commit a (fst t)))" by blast
    then show False
    proof (elim disjE exE conjE)
      fix y assume 1: "fst t = fst s3" "fail_body e uid did g x clk ids (fst s3) = Inl y"
      then show False using on fail_body_commits [of uid did g "fst s3" e x clk ids] by auto
    next
      fix a assume 2: "fst t = fst s3" "fail_body e uid did g x clk ids (fst s3) = Inr (Leave a)"
      then show False using on fail_body_commits [of uid did g "fst s3" e x clk ids] by auto
    next
      fix a assume "fail_body e uid did g x clk ids (fst s3) = Inr (Commit a (fst t))"
      then obtain doc where doc: "document_of uid did (fst s3) = Inr doc"
        and d': "fst t = fail_index e did (put_document (failed_document e x doc) (fst s3))"
        by (auto simp: fail_body_def result_simps split: if_splits)
      have f: "d_id (failed_document e x doc) = did" "d_user (failed_document e x doc) = uid" "d_status (failed_document e x doc) = DocFailed"
        using document_of_Inr [OF doc] by (simp_all add: failed_document_def)
      have "document_of uid did (fst t) = Inr (failed_document e x doc)"
        unfolding d' using document_of_put [OF doc f(1,2)] by (simp add: fail_index_def split: option.split)
      then show False using on f(3) by (simp add: in_attempt_def)
    qed
  qed
qed

text \<open>The first transaction of an attempt opens it at a generation.\<close>

definition opens :: "ingest_env \<Rightarrow> uuid \<Rightarrow> uuid \<Rightarrow> int \<Rightarrow> db \<Rightarrow> bool" where
  "opens e uid did g d \<longleftrightarrow> (\<exists>clk ids doc d'. start_body e uid did clk ids d = Inr (Commit (Some (doc, g)) d') \<and> in_attempt uid did g d')"

lemma attempt_leaves:
  assumes guard: "guard_passes iw" and run: "attempt_document e iw uid did re s = (r, t)"
  shows "fst t = fst s \<and> (r = Inr () \<longrightarrow> (\<forall>doc. document_of uid did (fst s) = Inr doc \<longrightarrow> d_status doc \<noteq> DocProcessing)) \<or>
    (\<exists>g. opens e uid did g (fst s) \<and> \<not> in_attempt uid did g (fst t))"
proof -
  obtain s1 where g1: "run_guard iw s = (Inr (), s1)" "fst s1 = fst s" using run_guard_passes [OF guard] by blast
  obtain v s2 where v: "guarded iw (start_body e uid did) s1 = (v, s2)" by (meson surj_pair)
  from guarded_cases [OF guard v] obtain clk ids where
    "(\<exists>x. v = Inl x \<and> fst s2 = fst s1 \<and> start_body e uid did clk ids (fst s1) = Inl x) \<or>
     (\<exists>a. v = Inr a \<and> start_body e uid did clk ids (fst s1) = Inr (Leave a) \<and> fst s2 = fst s1) \<or>
     (\<exists>a. v = Inr a \<and> start_body e uid did clk ids (fst s1) = Inr (Commit a (fst s2)))" by blast
  then show ?thesis
  proof (elim disjE exE conjE)
    fix x assume 1: "v = Inl x" "fst s2 = fst s1"
    then have "r = Inl x \<and> t = s2" using run g1(1) v by (simp add: attempt_document_def bind_act_def)
    then show ?thesis using 1 g1(2) by simp
  next
    fix a assume 2: "v = Inr a" "start_body e uid did clk ids (fst s1) = Inr (Leave a)" "fst s2 = fst s1"
    then have "a = None" using start_leave by simp
    then have "r = Inr () \<and> t = s2" using run g1(1) v 2(1) by (simp add: attempt_document_def bind_act_def ret_def)
    then show ?thesis using 2 g1(2) start_leave_status [of e uid did clk ids "fst s" a] by simp
  next
    fix a assume 3: "v = Inr a" "start_body e uid did clk ids (fst s1) = Inr (Commit a (fst s2))"
    then obtain doc g where a: "a = Some (doc, g)" using start_commit_Some by (metis option.exhaust prod.exhaust)
    have start: "in_attempt uid did g (fst s2)" "d_id doc = did" "d_user doc = uid" using start_commit 3(2) a by blast+
    have "opens e uid did g (fst s)" using 3(2) a start(1) g1(2) unfolding opens_def by metis
    moreover have "\<not> in_attempt uid did g (fst t)"
    proof -
      obtain r1 s3 where i: "ingest_document e iw doc g s2 = (r1, s3)" by (meson surj_pair)
      have m: "(r, t) = (case r1 of Inl x \<Rightarrow> bind_act (run_guard iw) (\<lambda>_. bind_act (fail_ingest e iw uid did g x)
          (\<lambda>_. raise_again re x)) s3 | Inr _ \<Rightarrow> (Inr (), s3))"
        using run g1(1) v 3(1) a i by (cases r1) (auto simp: attempt_document_def bind_act_def except_act_def)
      show ?thesis
      proof (cases r1)
        case (Inr b)
        then show ?thesis using ingest_leaves [OF _ start(2,3), of e iw g s2 b s3] i m by simp
      next
        case (Inl x)
        obtain s4 where g4: "run_guard iw s3 = (Inr (), s4)" using run_guard_passes [OF guard] by blast
        obtain q s5 where f: "fail_ingest e iw uid did g x s4 = (q, s5)" by (meson surj_pair)
        have "t = s5" using m Inl g4 f by (cases q) (simp_all add: bind_act_def raise_again_def raising_def ret_def split: if_splits)
        then show ?thesis using fail_leaves [OF guard f] by simp
      qed
    qed
    ultimately show ?thesis by blast
  qed
qed

text \<open>
  C7: no attempt leaves its document in progress, as long as its worker keeps its lease. Whatever the services answer and
  whatever other requests do to the store meanwhile, in the background as in the queue's worker, an attempt either did not
  start and changed nothing (and then, when it returns without logging an error, there was nothing to do), or it opened the
  document at a generation and afterwards the document is not being processed at that generation any more: it became ready,
  failed, was deleted or was retried. If no one else changes the store meanwhile, an attempt that reports its errors has made the
  document ready when it returns, and has recorded that very error on the failed document when it raises.
\<close>

theorem attempt_settles:
  assumes "guard_passes iw" "process_document e iw uid did locked raise_errors s = (r, t)"
  shows "(fst t = fst s \<and> (raise_errors \<and> r = Inr () \<longrightarrow> (\<forall>doc. document_of uid did (fst s) = Inr doc \<longrightarrow> d_status doc \<noteq> DocProcessing)) \<or>
      (\<exists>g. opens e uid did g (fst s) \<and> \<not> in_attempt uid did g (fst t))) \<and>
    (quiet iw \<and> raise_errors \<and> fst t \<noteq> fst s \<longrightarrow> (case r of Inr _ \<Rightarrow> ready_in uid did (fst t) | Inl x \<Rightarrow> failed_in uid did x (fst t)))"
proof -
  let ?attempt = "attempt_document e iw uid did raise_errors"
  let ?m = "if locked then ?attempt else exclusive iw did ?attempt"
  obtain q u where m: "?m s = (q, u)" by (cases "?m s")
  have p: "except_act ?m (raise_again raise_errors) s = (r, t)" using assms(2) by (simp only: process_document_def)
  have t: "t = u" "raise_errors \<Longrightarrow> r = q"
    using p m by (cases q; simp add: except_act_def raise_again_def raising_def ret_def split: if_splits)+
  show ?thesis
  proof (cases "\<exists>v p u'. ?attempt v = (p, u') \<and> fst v = fst s \<and> fst u = fst u' \<and> q = p")
    case True
    then obtain v p u' where a: "?attempt v = (p, u')" "fst v = fst s" "fst u = fst u'" "q = p" by blast
    have one: "fst u' = fst v \<and> (p = Inr () \<longrightarrow> (\<forall>doc. document_of uid did (fst v) = Inr doc \<longrightarrow> d_status doc \<noteq> DocProcessing)) \<or>
        (\<exists>g. opens e uid did g (fst v) \<and> \<not> in_attempt uid did g (fst u'))"
      by (rule attempt_leaves [OF assms(1) a(1)])
    have two: "case p of Inr _ \<Rightarrow> ready_in uid did (fst u') | Inl x \<Rightarrow> failed_in uid did x (fst u')"
      if h: "quiet iw" "raise_errors" "fst u' \<noteq> fst v"
      using attempt_document_changed [OF h(1) assms(1), of e uid did v p u'] a(1) h by simp
    show ?thesis
    proof (intro conjI impI)
      show "fst t = fst s \<and> (raise_errors \<and> r = Inr () \<longrightarrow> (\<forall>doc. document_of uid did (fst s) = Inr doc \<longrightarrow> d_status doc \<noteq> DocProcessing)) \<or>
        (\<exists>g. opens e uid did g (fst s) \<and> \<not> in_attempt uid did g (fst t))"
        using one unfolding t(1) a(2,3) using t(2) a(4) by blast
      assume h: "quiet iw \<and> raise_errors \<and> fst t \<noteq> fst s"
      then show "case r of Inr _ \<Rightarrow> ready_in uid did (fst t) | Inl x \<Rightarrow> failed_in uid did x (fst t)"
        using two t(2) a by (cases p) (simp_all add: t(1))
    qed
  next
    case False
    have "\<not> locked"
    proof
      assume locked
      then have "?attempt s = (q, u) \<and> fst s = fst s \<and> fst u = fst u \<and> q = q" using m by simp
      then show False using False by blast
    qed
    then have "\<exists>x w. ww_lock iw did (snd s) = (Inl x, w) \<and> q = Inl x \<and> fst u = fst s"
      using m False by (force simp: exclusive_def split: prod.splits sum.splits)
    then show ?thesis using t by auto
  qed
qed

section \<open>What an attempt publishes can be searched\<close>

lemma one_document:
  assumes "document_of uid did d = Inr doc" "distinct (map d_id (documents d))"
  shows "filter (\<lambda>x. d_id x = did) (documents d) = [doc]"
proof -
  have m: "doc \<in> set (documents d)" "d_id doc = did" using document_of_Inr [OF assms(1)] by auto
  have "filter (\<lambda>x. d_id x = d_id doc) xs = [doc]" if "doc \<in> set xs" "distinct (map d_id xs)" for xs :: "document list"
    using that
  proof (induction xs)
    case (Cons x xs)
    show ?case
    proof (cases "x = doc")
      case True
      then have "d_id doc \<notin> d_id ` set xs" using Cons.prems(2) by simp
      then show ?thesis using True by (auto simp: filter_empty_conv) (metis image_eqI)
    next
      case False
      then have "doc \<in> set xs" using Cons.prems(1) by simp
      moreover have "d_id x \<noteq> d_id doc" using calculation Cons.prems(2) by auto
      ultimately show ?thesis using Cons by simp
    qed
  qed simp
  from this [OF m(1) assms(2)] m(2) show ?thesis by simp
qed

lemma documents_put: "document_of uid did d = Inr doc \<Longrightarrow> d_id x = did \<Longrightarrow>
    map d_id (documents (put_document x d)) = map d_id (documents d)"
  by (auto simp: put_document_def row_put_def dest!: document_of_Inr)

lemma current_frame:
  "series_rows d' = series_rows d \<Longrightarrow> versions d' = versions d \<Longrightarrow> is_current_version x d' = is_current_version x d"
  by (simp add: is_current_version_def get_version_def cong: option.case_cong)

lemma current_same_id: "d_id x = d_id y \<Longrightarrow> is_current_version x d = is_current_version y d"
  by (simp add: is_current_version_def cong: option.case_cong)

lemma index_verified_row:
  assumes "index_verified s doc n leaf now d = Inr d'"
  shows "\<exists>ix. d' = put_index ix d \<and> get_index (d_id doc) d' = Some ix \<and> ix_leaf_sha ix = leaf \<and> ix_leaf_count ix = n \<and>
    ix_verified_at ix = Some now \<and> ix_state ix = (if is_current_version doc d then IxPublished else IxVerified) \<and>
    ix_source ix = d_content_hash doc \<and> ix_fingerprint ix = d_fingerprint doc \<and> ix_model ix = d_embedding_model doc \<and>
    ix_database ix = is_database s \<and> ix_connection ix = index_connection_identity s \<and>
    (\<exists>old. get_index (d_id doc) d = Some old \<and> target_of doc ix = (target_of doc old)\<lparr>ri_leaf_sha := leaf, ri_leaf_count := n\<rparr>)"
proof -
  from assms obtain row where row: "get_index (d_id doc) d = Some row" "ix_source row = d_content_hash doc"
    "ix_fingerprint row = d_fingerprint doc" "ix_model row = d_embedding_model doc"
    "ix_connection row = index_connection_identity s" "ix_database row = is_database s"
    and d': "d' = put_index (row\<lparr>ix_leaf_count := n, ix_leaf_sha := leaf, ix_verified_at := Some now,
         ix_state := (if is_current_version doc d then IxPublished else IxVerified)\<rparr>) d"
    by (auto simp: index_verified_def bound_index_def result_simps)
  have "ix_document row = d_id doc" using row(1) by (rule row_get_Some_key)
  then show ?thesis using row by (simp add: d' put_index_def row_get_put target_of_def)
qed

lemma publish_result:
  assumes "publish_body e uid did g n t cs leaf clk ids d = Inr (Commit () d')" "ie_publication e"
    "document_of uid did d = Inr doc"
  shows "\<exists>doc' ix. document_of uid did d' = Inr doc' \<and> get_index did d' = Some ix \<and>
    map d_id (documents d') = map d_id (documents d) \<and> d_user doc' = uid \<and> d_id doc' = did \<and>
    d_status doc' = DocReady \<and> d_chunk_count doc' = int (length cs) \<and> ix_leaf_count ix = int (length cs) \<and> ix_leaf_sha ix = leaf \<and>
    ix_verified_at ix \<noteq> None \<and> ix_state ix = (if is_current_version doc d then IxPublished else IxVerified) \<and>
    ix_source ix = d_content_hash doc' \<and> ix_fingerprint ix = d_fingerprint doc' \<and> ix_model ix = d_embedding_model doc' \<and>
    ix_database ix = is_database (ie_index e) \<and> ix_connection ix = index_connection_identity (ie_index e) \<and>
    (\<exists>old. get_index did d = Some old \<and> target_of doc' ix = (target_of doc old)\<lparr>ri_leaf_sha := leaf, ri_leaf_count := int (length cs)\<rparr>)"
proof -
  let ?r = "ready_document n (length cs) doc" and ?p = "put_document (ready_document n (length cs) doc) d"
  from publish_body_commit [OF assms(1)] assms(2,3) obtain d2 d3 ts where
    d2: "index_verified (ie_index e) ?r (int (length cs)) leaf (clk 0) ?p = Inr d2"
    and d3: "case t of None \<Rightarrow> d3 = d2 | Some x \<Rightarrow> \<exists>doc2. publish_tree ?r x d2 = Inr (doc2, d3)"
    and d': "d' = d3\<lparr>doc_tasks := ts\<rparr>" by auto
  have r: "d_id ?r = did" "d_user ?r = uid" "d_status ?r = DocReady" "d_chunk_count ?r = int (length cs)" "d_id doc = did"
    using document_of_Inr [OF assms(3)] by (auto simp: ready_document_def)
  have p: "document_of uid did ?p = Inr ?r" by (rule document_of_put [OF assms(3) r(1,2)])
  have cur: "is_current_version ?r ?p = is_current_version doc d"
    using current_frame [of ?p d ?r] current_same_id [of ?r doc d] r(1,5) by (simp add: put_document_def)
  from index_verified_row [OF d2, unfolded r(1) cur] obtain ix where
    ix: "d2 = put_index ix ?p" "get_index did d2 = Some ix" "ix_leaf_sha ix = leaf" "ix_leaf_count ix = int (length cs)"
    "ix_verified_at ix = Some (clk 0)" "ix_state ix = (if is_current_version doc d then IxPublished else IxVerified)"
    "ix_source ix = d_content_hash ?r" "ix_fingerprint ix = d_fingerprint ?r" "ix_model ix = d_embedding_model ?r"
    "ix_database ix = is_database (ie_index e)" "ix_connection ix = index_connection_identity (ie_index e)"
    "\<exists>old. get_index did ?p = Some old \<and> target_of ?r ix = (target_of ?r old)\<lparr>ri_leaf_sha := leaf, ri_leaf_count := int (length cs)\<rparr>" by blast
  have old: "\<exists>old. get_index did d = Some old \<and> target_of ?r ix = (target_of doc old)\<lparr>ri_leaf_sha := leaf, ri_leaf_count := int (length cs)\<rparr>"
    using ix(12) document_of_Inr [OF assms(3)] by (auto simp: put_document_def target_of_def ready_document_def)
  have ids2: "map d_id (documents d2) = map d_id (documents d)"
    using documents_put [OF assms(3) r(1)] by (simp add: ix(1) put_index_def)
  have doc2: "document_of uid did d2 = Inr ?r" using p by (simp add: ix(1))
  obtain doc' where doc': "document_of uid did d3 = Inr doc'" "\<exists>m. doc' = ?r\<lparr>d_metadata := m\<rparr>" "get_index did d3 = Some ix"
    "map d_id (documents d3) = map d_id (documents d)"
  proof (cases t)
    case None
    have same: "\<exists>m. ?r = ?r\<lparr>d_metadata := m\<rparr>" by (rule exI [of _ "d_metadata ?r"]) simp
    have "d3 = d2" using d3 None by simp
    with doc2 ix(2) ids2 show thesis using that [OF _ same] by blast
  next
    case (Some x)
    then obtain doc3 where "publish_tree ?r x d2 = Inr (doc3, d3)" using d3 by auto
    note tree = publish_tree_document [OF this doc2 r(1,2)]
    from tree obtain rows where rows: "d3 = (put_document doc3 d2)\<lparr>nodes := rows\<rparr>" by blast
    have same: "\<exists>m. doc3 = ?r\<lparr>d_metadata := m\<rparr>" using tree by blast
    then have "d_id doc3 = did" using r(1) by auto
    then have "map d_id (documents d3) = map d_id (documents d)" using documents_put [OF doc2] ids2 by (simp add: rows)
    moreover have "get_index did d3 = Some ix" using ix(2) by (simp add: rows put_document_def)
    ultimately show thesis using that [OF _ same] tree by blast
  qed
  obtain m where m: "doc' = ?r\<lparr>d_metadata := m\<rparr>" using doc'(2) by blast
  have fields: "d_user doc' = d_user ?r" "d_id doc' = d_id ?r" "d_status doc' = d_status ?r" "d_chunk_count doc' = d_chunk_count ?r"
    "d_content_hash doc' = d_content_hash ?r" "d_fingerprint doc' = d_fingerprint ?r"
    "d_embedding_model doc' = d_embedding_model ?r" "target_of doc' ix = target_of ?r ix" by (simp_all add: m target_of_def)
  have "document_of uid did d' = Inr doc'" "get_index did d' = Some ix" "map d_id (documents d') = map d_id (documents d)"
    using doc'(1,3,4) by (simp_all add: d')
  then show ?thesis using r(1-4) ix(3-11) old unfolding fields [symmetric] by blast
qed

text \<open>
  C12: what an attempt publishes can be searched. When the last transaction of an attempt commits, the document is ready with
  the number of its chunks, and its index, the one that was being built, now carries the count and the fingerprint of the
  verified leaves. If the document is the current version of its series, the index is published and freezing the document for a
  run succeeds at once and gives exactly this index (when the identity of the index is well formed, as \<open>RetrievalIndex\<close>
  demands: otherwise freezing fails with the scope error); the index of another version is verified and waits for its activation.
\<close>

theorem published_result_searchable:
  assumes "publish_body e uid did g n t cs (Some leaf) clk ids d = Inr (Commit () d')" "ie_publication e"
    "document_of uid did d = Inr doc" "distinct (map d_id (documents d))" "get_index did d = Some old"
  shows "\<exists>doc' ix. document_of uid did d' = Inr doc' \<and> get_index did d' = Some ix \<and> d_status doc' = DocReady \<and>
    d_chunk_count doc' = int (length cs) \<and> ix_leaf_sha ix = Some leaf \<and> ix_leaf_count ix = int (length cs) \<and> ix_verified_at ix \<noteq> None \<and>
    (let target = (target_of doc old)\<lparr>ri_leaf_sha := Some leaf, ri_leaf_count := int (length cs)\<rparr> in
     if is_current_version doc d
     then ix_state ix = IxPublished \<and>
       freeze_indexes (ie_index e) [(did, uid)] d' = (if retrieval_index_ok target then Inr [target] else Inl scope_gone)
     else ix_state ix = IxVerified)"
proof -
  let ?target = "(target_of doc old)\<lparr>ri_leaf_sha := Some leaf, ri_leaf_count := int (length cs)\<rparr>"
  from publish_result [OF assms(1-3)] assms(5) obtain doc' ix where
    doc': "document_of uid did d' = Inr doc'" "d_user doc' = uid" "d_id doc' = did" "d_status doc' = DocReady"
      "d_chunk_count doc' = int (length cs)"
    and ix: "get_index did d' = Some ix" "ix_leaf_count ix = int (length cs)" "ix_leaf_sha ix = Some leaf" "ix_verified_at ix \<noteq> None"
      "ix_state ix = (if is_current_version doc d then IxPublished else IxVerified)" "ix_source ix = d_content_hash doc'"
      "ix_fingerprint ix = d_fingerprint doc'" "ix_model ix = d_embedding_model doc'" "ix_database ix = is_database (ie_index e)"
      "ix_connection ix = index_connection_identity (ie_index e)" "target_of doc' ix = ?target"
    and ids: "map d_id (documents d') = map d_id (documents d)" by auto
  have one: "filter (\<lambda>x. d_id x = did) (documents d') = [doc']" by (rule one_document [OF doc'(1)]) (simp add: ids assms(4))
  have "freeze_indexes (ie_index e) [(did, uid)] d' = (if retrieval_index_ok ?target then Inr [?target] else Inl scope_gone)"
    if "is_current_version doc d"
    using that doc' ix one by (simp add: freeze_indexes_def index_current_def)
  then show ?thesis using doc' ix by (intro exI [of _ doc'] exI [of _ ix]) (simp add: Let_def)
qed

section \<open>The cleanup never deletes a pinned index\<close>

text \<open>
  C30: a pinned index is not deleted. While a live run pins the document's index, the cleanup ends
  before it touches the vectors or the files: it behaves the same whatever these operations would
  do, it leaves the database as it was, and unless the document is retired already it fails.
\<close>

theorem pinned_index_not_deleted:
  assumes "\<forall>clk ids w w'. ww_draw cw w = ((clk, ids), w') \<longrightarrow> 0 < active_pins did (clk 0) (fst s)"
  shows "process_retirement e (cw\<lparr>cw_delete_vectors := f, cw_remove_files := h\<rparr>) uid did s = process_retirement e cw uid did s \<and>
    fst (snd (process_retirement e cw uid did s)) = fst s \<and>
    (fst (process_retirement e cw uid did s) = Inr () \<longrightarrow>
      (\<exists>doc. document_of uid did (fst s) = Inr doc \<and> d_status doc = DocRetired))"
proof -
  have start: "cleanup_start e uid did clk (fst s) \<noteq> Inr (Commit v d')"
    if "ww_draw cw w = ((clk, ids), w')" for clk ids w w' v d'
    using assms that by (fastforce simp: cleanup_start_def result_simps Let_def split: option.splits if_splits)
  have leave: "cleanup_start e uid did clk d = Inr (Leave v) \<Longrightarrow>
      v = None \<and> (\<exists>doc. document_of uid did d = Inr doc \<and> d_status doc = DocRetired)" for clk d v
    by (auto simp: cleanup_start_def result_simps Let_def split: option.splits if_splits)
  obtain r t where g: "run_guard cw s = (r, t)" by (meson surj_pair)
  have g2: "run_guard (cw\<lparr>cw_delete_vectors := f, cw_remove_files := h\<rparr>) s = (r, t)" using g by (simp add: run_guard_def)
  have t: "fst t = fst s" using fst_run_guard [of cw s] g by simp
  obtain clk ids w where w: "ww_draw cw (snd t) = ((clk, ids), w)" by (metis prod.exhaust)
  show ?thesis
  proof (cases r)
    case (Inl x)
    then show ?thesis using g g2 t by (simp add: process_retirement_def bind_act_def)
  next
    case (Inr u)
    show ?thesis
    proof (cases "cleanup_start e uid did clk (fst s)")
      case (Inl x)
      then show ?thesis using g g2 t w Inr by (simp add: process_retirement_def bind_act_def guarded_def)
    next
      case (Inr st)
      then obtain v where "st = Leave v" using start [OF w] by (cases st) auto
      with leave [of clk "fst s" v] Inr show ?thesis using g g2 t w \<open>r = Inr u\<close>
        by (simp add: process_retirement_def bind_act_def guarded_def ret_def)
    qed
  qed
qed

section \<open>An upload registers a document or leaves nothing\<close>

lemma write_blocks_written:
  assumes "write_blocks limit path bs written fs = (r, fs')" "fs path = Some written" "length written \<le> limit"
  shows "\<exists>c. fs' = fs(path \<mapsto> c) \<and> (\<forall>content. r = Inr content \<longrightarrow> c = content \<and> length content \<le> limit)"
  using assms
proof (induction limit path bs written fs rule: write_blocks.induct)
  case (2 limit path b bs written fs)
  show ?case
  proof (cases "b = [] \<or> limit < length (written @ b)")
    case True
    then have "fs' = fs \<and> (r = Inr written \<or> r = Inl (AppError ''UPLOAD_TOO_LARGE'' 413))"
      using "2.prems"(1) by (auto split: if_splits)
    then show ?thesis using "2.prems"(2,3) by (auto simp: fun_upd_idem intro!: exI [of _ written])
  next
    case False
    then have w: "write_blocks limit path bs (written @ b) (fs(path \<mapsto> written @ b)) = (r, fs')"
      using "2.prems"(1) by simp
    have "\<exists>c. fs' = (fs(path \<mapsto> written @ b))(path \<mapsto> c) \<and> (\<forall>content. r = Inr content \<longrightarrow> c = content \<and> length content \<le> limit)"
      by (rule "2.IH" [OF _ _ w]) (use False in simp_all)
    then show ?thesis unfolding fun_upd_upd .
  qed
next
  case (1 limit path w fs)
  then show ?case by (auto simp: fun_upd_idem intro!: exI [of _ w])
qed

lemma store_file_stored:
  assumes "store_file e path ext blocks fs = (r, fs')" "fs path = None"
  shows "\<exists>c. fs' = fs(path \<mapsto> c) \<and> (\<forall>content. r = Inr content \<longrightarrow> c = content \<and> content \<noteq> [] \<and> length content \<le> ue_max_bytes e)"
proof -
  obtain r1 fs1 where w: "write_blocks (ue_max_bytes e) path blocks [] (fs(path \<mapsto> [])) = (r1, fs1)" by fastforce
  from write_blocks_written [OF w] obtain c where
    "fs1 = fs(path \<mapsto> c)" "\<forall>content. r1 = Inr content \<longrightarrow> c = content \<and> length content \<le> ue_max_bytes e" by auto
  then show ?thesis using assms w by (auto simp: store_file_def result_simps split: sum.splits)
qed

lemma bind_version_frame:
  assumes "bind_document_version uid doc base d = Inr d'"
  shows "documents d' = documents d \<and> doc_indexes d' = doc_indexes d \<and> jobs d' = jobs d"
proof -
  have first: "bind_first_version uid x d = Inr d1 \<Longrightarrow> documents d1 = documents d \<and> doc_indexes d1 = doc_indexes d \<and> jobs d1 = jobs d"
    for x d d1 by (auto simp: bind_first_version_def result_simps)
  have ensure: "ensure_version uid x d = Inr (v, d1) \<Longrightarrow> documents d1 = documents d \<and> doc_indexes d1 = doc_indexes d \<and> jobs d1 = jobs d"
    for x v d1 by (auto simp: ensure_version_def result_simps split: option.splits dest: first)
  show ?thesis
    using assms by (auto simp: bind_document_version_def result_simps put_series_def split: option.splits dest!: first ensure)
qed

lemma supersede_frame [simp]: "documents (supersede_task j k now d) = documents d" "doc_indexes (supersede_task j k now d) = doc_indexes d"
  by (simp_all add: supersede_task_def put_task_def split: option.split)

lemma enqueue_frame:
  assumes "enqueue e tid doc reset kind det parent clk d = Inr (t, d')"
  shows "documents d' = documents d \<and> doc_indexes d' = doc_indexes d \<and> get_job_row (d_id doc) d' \<noteq> None"
proof -
  have requeue: "documents d' = documents d \<and> doc_indexes d' = doc_indexes d \<and> get_job_row (d_id doc) d' \<noteq> None"
    if r: "requeue_job e tid doc kind det parent j clk d = Inr (t, d')" "j_document j = d_id doc" for j
  proof -
    let ?j = "j\<lparr>j_task := Some tid, j_state := TQueued, j_kind := kind, j_attempts := 0, j_max_attempts := je_max_attempts e,
        j_available := clk 2, j_token := None, j_lease := None, j_error := None\<rparr>"
    from r(1) obtain ts where "sync_parent parent (clk 3) (put_job ?j ((supersede_task j kind (clk 0) d)\<lparr>doc_tasks := ts\<rparr>)) = Inr d'"
      by (auto simp: requeue_job_def result_simps Let_def)
    from sync_parent_frame [OF this] show ?thesis using r(2) by (auto simp: put_job_def row_get_put)
  qed
  show ?thesis
  proof (cases "get_job_row (d_id doc) d")
    case None
    then show ?thesis using assms requeue [of "new_job doc"] by (simp add: enqueue_def new_job_def)
  next
    case (Some j)
    have "j_document j = d_id doc" using Some by (rule row_get_Some_key)
    then show ?thesis using assms Some requeue [of j] by (auto simp: enqueue_def split: if_splits)
  qed
qed

lemma register_rows_result:
  assumes "register_rows e uid tid doc base clk d = Inr d'" "d_user doc = uid"
  shows "document_of uid (d_id doc) d' = Inr doc \<and> documents d' = documents d @ [doc] \<and>
    (ie_publication e \<longrightarrow> get_index (d_id doc) d' = Some (reserved_index (ie_index e) doc)) \<and>
    (ie_queue e \<longrightarrow> get_job_row (d_id doc) d' \<noteq> None)"
proof -
  from assms(1) obtain d1 d2 where new: "row_get d_id (d_id doc) (documents d) = None"
    and d1: "(if ie_versions e then bind_document_version uid doc base (d\<lparr>documents := documents d @ [doc]\<rparr>)
      else Inr (d\<lparr>documents := documents d @ [doc]\<rparr>)) = Inr d1"
    and d2: "(if ie_publication e then reserve_index (ie_index e) doc d1 else Inr d1) = Inr d2"
    and d': "if ie_queue e then \<exists>t. enqueue (de_jobs (ie_docs e)) tid doc False KIngest [] None clk d2 = Inr (t, d') else d' = d2"
    by (cases "ie_queue e") (auto simp: register_rows_def result_simps)
  have docs1: "documents d1 = documents d @ [doc]"
    using d1 by (auto split: if_splits dest: bind_version_frame)
  have docs2: "documents d2 = documents d1 \<and> (ie_publication e \<longrightarrow> get_index (d_id doc) d2 = Some (reserved_index (ie_index e) doc))"
    using d2 by (auto simp: reserve_index_def result_simps row_get_append reserved_index_def split: if_splits)
  have docs': "documents d' = documents d2 \<and> doc_indexes d' = doc_indexes d2 \<and> (ie_queue e \<longrightarrow> get_job_row (d_id doc) d' \<noteq> None)"
    using d' enqueue_frame by (auto split: if_splits)
  have "find (\<lambda>x. d_id x = d_id doc \<and> d_user x = uid) (documents d) = None"
    using new by (auto simp: row_get_None find_None_iff)
  moreover have "find p (xs @ [x]) = Some x" if "find p xs = None" "p x" for p x and xs :: "document list"
    using that by (induction xs) (auto split: if_splits)
  ultimately have "document_of uid (d_id doc) d' = Inr doc"
    using docs1 docs2 docs' assms(2) by (simp add: document_of_def)
  then show ?thesis using docs1 docs2 docs' by simp
qed

lemma register_document_result:
  assumes "transaction (register_document e uid tid doc base clk) d = (r, d')" "d_user doc = uid"
  shows "case r of
      Inl x \<Rightarrow> d' = d
    | Inr a \<Rightarrow> an_document a = doc \<and> duplicate_document uid (d_content_hash doc) (d_fingerprint doc) (d_org doc) d = None \<and>
        document_of uid (d_id doc) d' = Inr doc \<and> documents d' = documents d @ [doc] \<and>
        (ie_publication e \<longrightarrow> get_index (d_id doc) d' = Some (reserved_index (ie_index e) doc)) \<and>
        (ie_queue e \<longrightarrow> get_job_row (d_id doc) d' \<noteq> None)"
proof (cases r)
  case (Inl x)
  have "(Inl y :: (annotated result \<times> db) result) \<noteq> commit_raise z u" for y z u by (simp add: commit_raise_def)
  with Inl have "register_document e uid tid doc base clk d = Inl x \<and> d' = d"
    using assms(1) by (auto simp: transaction_eq_Inl register_document_def result_simps split: sum.splits)
  then show ?thesis using Inl by simp
next
  case (Inr a)
  with assms(1) have "register_document e uid tid doc base clk d = committed a d'" by (simp add: transaction_eq_Inr)
  moreover have "(Inl y :: (annotated result \<times> db) result) \<noteq> committed z u" for y z u by (simp add: committed_def)
  ultimately have "register_rows e uid tid doc base clk d = Inr d'" "a = annotated_one e uid doc d'"
    "duplicate_document uid (d_content_hash doc) (d_fingerprint doc) (d_org doc) d = None"
    by (auto simp: register_document_def result_simps split: sum.splits)
  then show ?thesis using register_rows_result [of e uid tid doc base clk d d'] assms(2) Inr
    by (simp add: annotated_one_def annotate_versions_def Let_def)
qed

text \<open>
  C21: an upload registers a document or leaves nothing. When \<open>upload\<close> fails (a check, the size, an
  empty or broken file, a duplicate, a conflict in the database), neither the database nor the
  files have changed. When it succeeds, one file is new, it is not empty and within the limit, and
  the one new document is being processed, points to this file, carries its hash, repeats no
  document of the workspace, and has its reserved index and its job.
\<close>

theorem upload_all_or_nothing:
  assumes "\<And>ext. snd s (upload_path e uid did ext) = None"
    and "upload e uid did attempt tid clk filename content_type blocks base org s = (r, t)"
  shows "case r of
      Inl x \<Rightarrow> t = s
    | Inr a \<Rightarrow> \<exists>content. let doc = an_document a; i = ue_ingest e in
        snd t = (snd s)(d_file_path doc \<mapsto> content) \<and> content \<noteq> [] \<and> length content \<le> ue_max_bytes e \<and>
        d_content_hash doc = is_sha256 (ie_index i) content \<and> d_id doc = did \<and> d_status doc = DocProcessing \<and>
        duplicate_document uid (d_content_hash doc) (d_fingerprint doc) org (fst s) = None \<and>
        document_of uid did (fst t) = Inr doc \<and> documents (fst t) = documents (fst s) @ [doc] \<and>
        (ie_publication i \<longrightarrow> get_index did (fst t) = Some (reserved_index (ie_index i) doc)) \<and>
        (ie_queue i \<longrightarrow> get_job_row did (fst t) \<noteq> None)"
proof (cases "upload_checks e uid filename content_type base org (fst s)")
  case (Inl x)
  then have "r = Inl x \<and> t = s" using assms(2) by (auto simp: upload_def bind_act_def read_db_def)
  then show ?thesis by simp
next
  case (Inr v)
  obtain name ext build where v: "v = (name, ext, build)" by (cases v) auto
  define path where "path = upload_path e uid did ext"
  have fresh: "snd s path = None" using assms(1) by (simp add: path_def)
  have run: "(r, t) = (case stored_path (ue_ingest e) path of Inl x \<Rightarrow> (Inl x, s)
      | Inr p \<Rightarrow> remove_unsaved p (save_upload e uid did attempt tid clk name ext build p blocks base org) s)"
    using assms(2) Inr v by (simp add: upload_def bind_act_def read_db_def lift_result_def path_def split: sum.splits)
  show ?thesis
  proof (cases "stored_path (ue_ingest e) path")
    case (Inl x)
    then show ?thesis using run by simp
  next
    case (Inr p)
    then have p: "p = path" by (auto simp: stored_path_def result_simps)
    obtain r1 fs where st: "store_file e path ext blocks (snd s) = (r1, fs)" by fastforce
    from store_file_stored [OF this fresh] obtain c where fs: "fs = (snd s)(path \<mapsto> c)"
      and c: "\<forall>content. r1 = Inr content \<longrightarrow> c = content \<and> content \<noteq> [] \<and> length content \<le> ue_max_bytes e" by blast
    have undo: "fs(path := None) = snd s" using fresh by (simp add: fs fun_upd_idem)
    show ?thesis
    proof (cases r1)
      case (Inl x)
      then show ?thesis using run Inr p st undo by (simp add: remove_unsaved_def save_upload_def)
    next
      case r1: (Inr content)
      define doc where "doc = uploaded_document e uid did attempt name ext path content build org (clk 0)"
      obtain r2 d2 where tr: "transaction (register_document (ue_ingest e) uid tid doc base (\<lambda>n. clk (n + 1))) (fst s) = (r2, d2)"
        by fastforce
      have doc: "d_user doc = uid" "d_id doc = did" "d_file_path doc = path" "d_status doc = DocProcessing" "d_org doc = org"
        "d_content_hash doc = is_sha256 (ie_index (ue_ingest e)) content"
        by (simp_all add: doc_def uploaded_document_def Let_def)
      have rt: "(r, t) = remove_unsaved path (\<lambda>_. (r2, d2, fs)) s"
        using run Inr p st r1 tr by (simp add: remove_unsaved_def save_upload_def doc_def)
      note reg = register_document_result [OF tr doc(1)]
      show ?thesis
      proof (cases r2)
        case (Inl x)
        then show ?thesis using rt reg undo by (simp add: remove_unsaved_def)
      next
        case (Inr a)
        then have "r = Inr a \<and> t = (d2, fs)" using rt by (simp add: remove_unsaved_def)
        then show ?thesis using reg Inr doc fs c r1 by (auto simp: Let_def intro!: exI [of _ content])
      qed
    qed
  qed
qed

section \<open>A small installation\<close>

definition demo_ingest_world :: "unit ingest_world" where
  "demo_ingest_world = \<lparr>ww_guard = (\<lambda>_. (Inr (), ())), ww_draw = (\<lambda>_. ((\<lambda>_. 0, \<lambda>n. 100 + n), ())),
     ww_lock = (\<lambda>_ _. (Inr (), ())), ww_unlock = (\<lambda>_ _. ()), iw_delete = (\<lambda>_ _ _. ret ()), iw_unlink = (\<lambda>_ _ _. ret ()),
     iw_is_file = (\<lambda>_ _. True), iw_hash = (\<lambda>_. ret ''h''), iw_load_cache = (\<lambda>_ _ _ _. ret None),
     iw_save_cache = (\<lambda>_ _ _ _ _. ret ()), iw_parse = (\<lambda>_ _ _ _ _ _. ret []),
     iw_load = (\<lambda>_ _. ret [\<lparr>un_text = ''x'', un_page = None, un_section = None, un_excel = None\<rparr>]),
     iw_embed = (\<lambda>_. ret []), iw_upsert = (\<lambda>_ _. ret ()), iw_read = (\<lambda>_ _ _ _ _ _. ret [])\<rparr>"

lemma demo_world_quiet: "quiet demo_ingest_world"
  by (simp add: quiet_def demo_ingest_world_def act_keeps_pure)

lemma demo_world_passes: "guard_passes demo_ingest_world"
  by (simp add: guard_passes_def demo_ingest_world_def)

definition demo_ingest_env :: ingest_env where
  "demo_ingest_env = \<lparr>ie_docs = \<lparr>de_jobs = \<lparr>je_max_attempts = 3, je_lease = 60, je_poll = 1, je_hierarchy = [], je_text = (\<lambda>s. s)\<rparr>,
       de_index = demo_index_settings, de_queue = False, de_publication = False, de_versions = False, de_workspaces = False\<rparr>,
     ie_schema = \<lparr>has_document_indexes = False, has_document_versions = False\<rparr>, ie_tree = demo_tree_env,
     ie_in_root = (\<lambda>_. True), ie_batch = 2, ie_mineru = False, ie_message = (\<lambda>_. ''m''),
     ie_chunks = (\<lambda>_ _ _ _. Inr demo_leaves)\<rparr>"

definition demo_processing_db :: db where
  "demo_processing_db = empty_db\<lparr>documents := [demo_document\<lparr>d_status := DocProcessing\<rparr>]\<rparr>"

lemma demo_process: "\<exists>t. process_document demo_ingest_env demo_ingest_world 1 20 True True (demo_processing_db, ()) = (Inr (), t)"
  by (simp add: process_document_def attempt_document_def demo_ingest_env_def demo_ingest_world_def demo_processing_db_def
      bind_act_def except_act_def ret_def run_guard_def guarded_def start_body_def document_of_def demo_document_def
      reopened_def start_phase_def generation_of_def dict_get_def queue_progress_def ingest_document_def prepare_index_def
      stored_path_def lift_result_def check_source_def load_source_def set_ingest_phase_def set_metadata_def stale_def
      dict_update_def put_document_def row_put_def empty_db_def plan_chunks_def demo_leaves_def set_progress_def
      verify_leaves_def publish_body_def Let_def demo_index_settings_def)

theorem attempt_settles_witness:
  "\<exists>t. process_document demo_ingest_env demo_ingest_world 1 20 True True (demo_processing_db, ()) = (Inr (), t) \<and>
     ready_in 1 20 (fst t) \<and> (\<exists>g. opens demo_ingest_env 1 20 g demo_processing_db \<and> \<not> in_attempt 1 20 g (fst t))"
proof -
  obtain t where t: "process_document demo_ingest_env demo_ingest_world 1 20 True True (demo_processing_db, ()) = (Inr (), t)"
    using demo_process by blast
  have doc: "document_of 1 20 demo_processing_db = Inr (demo_document\<lparr>d_status := DocProcessing\<rparr>)"
    by (simp add: document_of_def demo_processing_db_def demo_document_def)
  from attempt_settles [OF demo_world_passes t] doc
  have "\<exists>g. opens demo_ingest_env 1 20 g demo_processing_db \<and> \<not> in_attempt 1 20 g (fst t)"
    and changed: "fst t \<noteq> demo_processing_db \<Longrightarrow> ready_in 1 20 (fst t)" using demo_world_quiet by auto
  moreover have "fst t \<noteq> demo_processing_db"
  proof
    assume "fst t = demo_processing_db"
    then have "in_attempt 1 20 g (fst t)" if "opens demo_ingest_env 1 20 g demo_processing_db" for g
      using that doc by (auto simp: opens_def in_attempt_def start_body_def reopened_def result_simps Let_def demo_ingest_env_def generation_of_def
          dict_get_def demo_document_def split: if_splits)
    then show False using calculation(1) by blast
  qed
  ultimately show ?thesis using t by blast
qed


theorem stale_attempt_writes_nothing_witness:
  "fst (snd (fail_ingest demo_ingest_env demo_ingest_world 1 20 7 not_found (demo_published_db, ()))) = demo_published_db"
proof -
  have "document_of 1 20 (fst (demo_published_db, ())) = Inr demo_document"
    by (simp add: document_of_def demo_published_db_def demo_document_def)
  moreover have "generation_of (d_metadata demo_document) = Inr 0"
    by (simp add: generation_of_def dict_get_def demo_document_def)
  ultimately show ?thesis
    using stale_attempt_writes_nothing [where s = "(demo_published_db, ())" and e = demo_ingest_env and iw = demo_ingest_world
      and uid = 1 and did = 20 and g = 7 and x = not_found] by simp
qed

text \<open>A document that is being built, the first version of its series.\<close>

definition demo_building_env :: ingest_env where
  "demo_building_env = demo_ingest_env\<lparr>ie_docs := (ie_docs demo_ingest_env)\<lparr>de_publication := True\<rparr>\<rparr>"

definition demo_building_db :: db where
  "demo_building_db = demo_processing_db\<lparr>doc_indexes := [reserved_index demo_index_settings demo_document],
     versions := [\<lparr>v_document = 20, v_series = 20, v_number = 1\<rparr>],
     series_rows := [\<lparr>s_id = 20, s_user = 1, s_current = Some 20, s_next = 2, s_retirement = None\<rparr>]\<rparr>"

lemma demo_publish: "\<exists>d'. publish_body demo_building_env 1 20 0 1 None demo_leaves (Some (replicate 64 CHR ''a'')) (\<lambda>_. 0) id demo_building_db =
    Inr (Commit () d')"
  by (simp add: publish_body_def demo_building_env_def demo_building_db_def demo_processing_db_def demo_ingest_env_def
      document_of_def demo_document_def stale_def generation_of_def dict_get_def queue_progress_def index_verified_def
      bound_index_def reserved_index_def demo_index_settings_def ready_document_def put_document_def row_put_def Let_def
      index_connection_identity_def fingerprint_def)

theorem published_result_searchable_witness:
  "\<exists>d' ix target. publish_body demo_building_env 1 20 0 1 None demo_leaves (Some (replicate 64 CHR ''a'')) (\<lambda>_. 0) id demo_building_db = Inr (Commit () d') \<and>
     get_index 20 d' = Some ix \<and> ix_leaf_sha ix = Some (replicate 64 CHR ''a'') \<and> ix_state ix = IxPublished \<and>
     freeze_indexes (ie_index demo_building_env) [(20, 1)] d' = Inr [target]"
proof -
  obtain d' where d': "publish_body demo_building_env 1 20 0 1 None demo_leaves (Some (replicate 64 CHR ''a'')) (\<lambda>_. 0) id demo_building_db =
      Inr (Commit () d')" using demo_publish by blast
  have pub: "ie_publication demo_building_env" by (simp add: demo_building_env_def)
  let ?doc = "demo_document\<lparr>d_status := DocProcessing\<rparr>"
  let ?old = "reserved_index demo_index_settings demo_document"
  have doc: "document_of 1 20 demo_building_db = Inr ?doc"
    "distinct (map d_id (documents demo_building_db))" "is_current_version ?doc demo_building_db" "get_index 20 demo_building_db = Some ?old"
    by (simp_all add: document_of_def demo_building_db_def demo_processing_db_def demo_document_def is_current_version_def get_version_def
        reserved_index_def)
  have "retrieval_index_ok ((target_of ?doc ?old)\<lparr>ri_leaf_sha := Some (replicate 64 CHR ''a''), ri_leaf_count := int (length demo_leaves)\<rparr>)"
    using hex64_demo
    by (simp add: retrieval_index_ok_def target_of_def reserved_index_def demo_document_def demo_leaves_def
        demo_index_settings_def target_name_ok_def embedding_name_ok_def lower_char_def index_connection_identity_def fingerprint_def)
  then show ?thesis using published_result_searchable [OF d' pub doc(1,2,4)] doc(3) d' by (auto simp: Let_def)
qed

definition demo_upload_env :: upload_env where
  "demo_upload_env = \<lparr>ue_ingest = demo_ingest_env, ue_max_bytes = 10, ue_mineru_enabled = False, ue_mineru_token = [],
     ue_root = ''r'', ue_container = (\<lambda>_ _. Inr ())\<rparr>"

lemma demo_upload: "\<exists>a t. upload demo_upload_env 1 20 30 40 (\<lambda>_. 0) ''a.md'' None [''ab'', ''c''] None None (empty_db, \<lambda>_. None) = (Inr a, t)"
  by (simp add: upload_def bind_act_def read_db_def upload_checks_def require_workspace_def validate_upload_def base_name_def
      last_part_def suffix_of_def mime_types_def slash_def to_lower_def upper_char_def utf8_len_def use_mineru_def
      document_types_def demo_upload_env_def demo_ingest_env_def lift_result_def stored_path_def remove_unsaved_def
      save_upload_def store_file_def transaction_def register_document_def duplicate_document_def empty_db_def
      uploaded_document_def Let_def register_rows_def committed_def row_insert_def)

theorem upload_all_or_nothing_witness:
  "\<exists>a t. upload demo_upload_env 1 20 30 40 (\<lambda>_. 0) ''a.md'' None [''ab'', ''c''] None None (empty_db, \<lambda>_. None) = (Inr a, t) \<and>
     documents (fst t) = [an_document a] \<and> (\<exists>content. snd t = [d_file_path (an_document a) \<mapsto> content])"
proof -
  obtain a t where t: "upload demo_upload_env 1 20 30 40 (\<lambda>_. 0) ''a.md'' None [''ab'', ''c''] None None (empty_db, \<lambda>_. None) = (Inr a, t)"
    using demo_upload by blast
  from upload_all_or_nothing [OF _ t] show ?thesis using t by (auto simp: Let_def empty_db_def)
qed

text \<open>A live run that pins the document.\<close>

definition pinned_db :: db where
  "pinned_db = demo_published_db\<lparr>pins := [\<lparr>pin_run = 50, pin_document = 20\<rparr>],
     runs := [\<lparr>r_id = 50, r_user = 1, r_session = 5, r_client_key = 1, r_fingerprint = [], r_state = Running, r_kind = Chat,
       r_result = [], r_sequence = 0, r_bytes = 0, r_request = [], r_expires = 100, r_message = None, r_user_message = None,
       r_payload = JNull, r_snapshot = [], r_owner = None, r_generation = 1, r_lease = None, r_remaining = None, r_active = None,
       r_resume = None, r_created = 0\<rparr>]\<rparr>"

definition demo_cleanup_world :: "unit cleanup_world" where
  "demo_cleanup_world = \<lparr>ww_guard = (\<lambda>_. (Inr (), ())), ww_draw = (\<lambda>_. ((\<lambda>_. 0, \<lambda>n. 100 + n), ())),
     ww_lock = (\<lambda>_ _. (Inr (), ())), ww_unlock = (\<lambda>_ _. ()), cw_delete_vectors = (\<lambda>_ _ _. ret ()),
     cw_remove_files = (\<lambda>_ _ _. ret ())\<rparr>"

theorem pinned_index_not_deleted_witness:
  "fst (process_retirement (ie_docs demo_building_env) demo_cleanup_world 1 20 (pinned_db, ())) \<noteq> Inr () \<and>
   fst (snd (process_retirement (ie_docs demo_building_env) demo_cleanup_world 1 20 (pinned_db, ()))) = pinned_db"
proof -
  have "\<forall>clk ids w w'. ww_draw demo_cleanup_world w = ((clk, ids), w') \<longrightarrow> 0 < active_pins 20 (clk 0) (fst (pinned_db, ()))"
    by (auto simp: demo_cleanup_world_def active_pins_def pinned_db_def)
  from pinned_index_not_deleted [where cw = demo_cleanup_world and did = 20 and s = "(pinned_db, ())" and uid = 1
      and e = "ie_docs demo_building_env", OF this]
  show ?thesis by (auto simp: document_of_def pinned_db_def demo_published_db_def demo_document_def)
qed


end
