(* ===== verification/Sharing.thy ===== *)
theory Sharing
  imports Repository
begin

text \<open>
  Organizations and shared libraries (\<open>app/service/sharing.py\<close> and its queries): members and
  their roles, grants on libraries, the documents bound to them, and the documents a question
  may search.
\<close>

record sharing_env =
  se_enabled :: bool
  se_publication :: bool
  se_versions :: bool
  se_model :: string
  se_schema :: schema

definition forbidden :: exn where
  "forbidden = AppError ''FORBIDDEN'' 403"

definition sharing_on :: "sharing_env \<Rightarrow> unit result" where
  "sharing_on e = raise_if (\<not> se_enabled e) (AppError ''SHARING_DISABLED'' 503)"

section \<open>Access\<close>

definition get_library :: "uuid \<Rightarrow> db \<Rightarrow> knowledge_base option" where
  "get_library kid d = row_get kb_id kid (kbs d)"

definition get_grant :: "uuid \<Rightarrow> uuid \<Rightarrow> db \<Rightarrow> knowledge_grant option" where
  "get_grant kid uid d = find (\<lambda>g. g_kb g = kid \<and> g_user g = uid) (grants d)"

definition manages :: "org_member \<Rightarrow> bool" where
  "manages m = (m_role m = Owner \<or> m_role m = OrgAdmin)"

definition org_admin :: "uuid \<Rightarrow> uuid \<Rightarrow> db \<Rightarrow> org_member result" where
  "org_admin uid oid d =
     and_then (workspace_member uid oid d) (\<lambda>m. and_then (raise_if (\<not> manages m) forbidden) (\<lambda>_. Inr m))"

text \<open>The library and the role on it: \<open>None\<close> for an administrator, else the role of the grant.\<close>

definition library_access :: "uuid \<Rightarrow> uuid \<Rightarrow> bool \<Rightarrow> db \<Rightarrow> (knowledge_base \<times> grant_role option) result" where
  "library_access uid kid write d =
     and_then (require_row (get_library kid d) not_found) (\<lambda>kb.
     and_then (workspace_member uid (kb_org kb) d) (\<lambda>m.
       if manages m then Inr (kb, None)
       else
         and_then (require_row (get_grant kid uid d) not_found) (\<lambda>g.
         and_then (raise_if (write \<and> g_role g \<noteq> Editor) forbidden) (\<lambda>_. Inr (kb, Some (g_role g))))))"

definition library_admin :: "uuid \<Rightarrow> uuid \<Rightarrow> db \<Rightarrow> knowledge_base result" where
  "library_admin uid kid d =
     and_then (library_access uid kid False d) (\<lambda>(kb, role).
     and_then (raise_if (role \<noteq> None) forbidden) (\<lambda>_. Inr kb))"

section \<open>Organizations and members\<close>

definition create_organization :: "sharing_env \<Rightarrow> uuid \<Rightarrow> uuid \<Rightarrow> string \<Rightarrow> db \<Rightarrow> (db, organization) outcome" where
  "create_organization e oid uid name =
     transaction (\<lambda>d.
       and_then (sharing_on e) (\<lambda>_.
       let org = \<lparr>o_id = oid, o_name = name, o_owner = uid, o_archived = None\<rparr> in
       and_then (row_insert o_id org (orgs d)) (\<lambda>os.
       and_then (row_insert (\<lambda>m. (m_org m, m_user m)) \<lparr>m_org = oid, m_user = uid, m_role = Owner\<rparr> (members d)) (\<lambda>ms.
         committed org (d\<lparr>orgs := os, members := ms\<rparr>)))))"

definition list_organizations :: "sharing_env \<Rightarrow> uuid \<Rightarrow> db \<Rightarrow> (organization \<times> org_role) list result" where
  "list_organizations e uid d =
     and_then (sharing_on e) (\<lambda>_.
       Inr (sort_key (\<lambda>x. o_name (fst x)) (sort_key (\<lambda>x. o_id (fst x))
         (concat (map (\<lambda>m. map (\<lambda>org. (org, m_role m)) (filter (\<lambda>org. o_id org = m_org m \<and> o_archived org = None) (orgs d)))
           (filter (\<lambda>m. m_user m = uid) (members d)))))))"

definition list_members :: "sharing_env \<Rightarrow> uuid \<Rightarrow> uuid \<Rightarrow> db \<Rightarrow> (user \<times> org_role) list result" where
  "list_members e uid oid d =
     and_then (sharing_on e) (\<lambda>_.
     and_then (org_admin uid oid d) (\<lambda>_.
       Inr (sort_key (\<lambda>x. u_name (fst x))
         (concat (map (\<lambda>m. map (\<lambda>u. (u, m_role m)) (filter (\<lambda>u. u_id u = m_user m) (users d)))
           (filter (\<lambda>m. m_org m = oid) (members d)))))))"

definition membership :: "uuid \<Rightarrow> uuid \<Rightarrow> db \<Rightarrow> org_member option" where
  "membership oid uid d = find (\<lambda>m. m_org m = oid \<and> m_user m = uid) (members d)"

text \<open>The roles a request may name; an owner is never made this way.\<close>

definition member_role_of :: "string \<Rightarrow> org_role option" where
  "member_role_of s = (if s = ''admin'' then Some OrgAdmin else if s = ''member'' then Some Member else None)"

definition put_member :: "org_member \<Rightarrow> db \<Rightarrow> db" where
  "put_member m d = d\<lparr>members := row_put (\<lambda>x. (m_org x, m_user x)) m (members d)\<rparr>"

definition has_role :: "org_role \<Rightarrow> org_member option \<Rightarrow> bool" where
  "has_role r m = (case m of None \<Rightarrow> False | Some x \<Rightarrow> m_role x = r)"

definition set_member :: "sharing_env \<Rightarrow> uuid \<Rightarrow> uuid \<Rightarrow> string \<Rightarrow> string \<Rightarrow> db \<Rightarrow> (db, unit) outcome" where
  "set_member e uid oid username role =
     transaction (\<lambda>d.
       and_then (sharing_on e) (\<lambda>_.
       and_then (org_admin uid oid d) (\<lambda>actor.
       and_then (require_row (find (\<lambda>u. u_name u = username \<and> u_active u) (users d)) not_found) (\<lambda>u.
       let row = membership oid (u_id u) d in
       and_then (raise_if (has_role Owner row \<or> member_role_of role = None) forbidden) (\<lambda>_.
       and_then (require_row (member_role_of role) forbidden) (\<lambda>r.
       and_then (raise_if (m_role actor \<noteq> Owner \<and> (r = OrgAdmin \<or> has_role OrgAdmin row)) forbidden) (\<lambda>_.
         committed () (put_member \<lparr>m_org = oid, m_user = u_id u, m_role = r\<rparr> d))))))))"

text \<open>Removing a member removes its grants in the organization (a foreign key of the database).\<close>

definition drop_member :: "uuid \<Rightarrow> uuid \<Rightarrow> db \<Rightarrow> db" where
  "drop_member oid target d = d\<lparr>members := row_del (\<lambda>m. m_org m = oid \<and> m_user m = target) (members d),
     grants := row_del (\<lambda>g. g_org g = oid \<and> g_user g = target) (grants d)\<rparr>"

definition remove_member :: "sharing_env \<Rightarrow> uuid \<Rightarrow> uuid \<Rightarrow> uuid \<Rightarrow> db \<Rightarrow> (db, unit) outcome" where
  "remove_member e uid oid target =
     transaction (\<lambda>d.
       and_then (sharing_on e) (\<lambda>_.
       and_then (org_admin uid oid d) (\<lambda>actor.
       and_then (require_row (membership oid target d) not_found) (\<lambda>row.
       and_then (raise_if (m_role row = Owner \<or> m_role row = OrgAdmin \<and> m_role actor \<noteq> Owner) forbidden) (\<lambda>_.
         committed () (drop_member oid target d))))))"

definition delete_organization :: "sharing_env \<Rightarrow> uuid \<Rightarrow> uuid \<Rightarrow> time \<Rightarrow> db \<Rightarrow> (db, unit) outcome" where
  "delete_organization e uid oid now =
     transaction (\<lambda>d.
       and_then (sharing_on e) (\<lambda>_.
       and_then (workspace_member uid oid d) (\<lambda>m.
       and_then (raise_if (m_role m \<noteq> Owner) forbidden) (\<lambda>_.
       and_then (require_row (get_org oid d) (OtherError ''AttributeError'')) (\<lambda>org.
         committed () (d\<lparr>orgs := row_put o_id (org\<lparr>o_archived := Some now\<rparr>) (orgs d)\<rparr>))))))"

section \<open>Libraries and grants\<close>

definition user_libraries :: "uuid \<Rightarrow> db \<Rightarrow> knowledge_base list" where
  "user_libraries uid d =
     sort_key kb_name (sort_key kb_id (filter (\<lambda>kb. org_live (kb_org kb) d \<and>
       (\<exists>m\<in>set (members d). m_org m = kb_org kb \<and> m_user m = uid)) (kbs d)))"

text \<open>Libraries the user may not see are skipped; every other error ends the listing.\<close>

fun visible_libraries :: "uuid \<Rightarrow> db \<Rightarrow> knowledge_base list \<Rightarrow> (knowledge_base \<times> grant_role option) list result" where
  "visible_libraries uid d [] = Inr []"
| "visible_libraries uid d (kb # rest) = (case library_access uid (kb_id kb) False d of
     Inr (_, role) \<Rightarrow> and_then (visible_libraries uid d rest) (\<lambda>xs. Inr ((kb, role) # xs))
   | Inl x \<Rightarrow> if exn_status x = Some 404 then visible_libraries uid d rest else Inl x)"

definition list_libraries :: "sharing_env \<Rightarrow> uuid \<Rightarrow> db \<Rightarrow> (knowledge_base \<times> grant_role option) list result" where
  "list_libraries e uid d = and_then (sharing_on e) (\<lambda>_. visible_libraries uid d (user_libraries uid d))"

definition create_library :: "sharing_env \<Rightarrow> uuid \<Rightarrow> uuid \<Rightarrow> uuid \<Rightarrow> string \<Rightarrow> db \<Rightarrow> (db, knowledge_base) outcome" where
  "create_library e kid uid oid name =
     transaction (\<lambda>d.
       and_then (sharing_on e) (\<lambda>_.
       and_then (org_admin uid oid d) (\<lambda>_.
       let kb = \<lparr>kb_id = kid, kb_org = oid, kb_name = name\<rparr> in
       and_then (row_insert kb_id kb (kbs d)) (\<lambda>rows. committed kb (d\<lparr>kbs := rows\<rparr>)))))"

definition list_grants :: "sharing_env \<Rightarrow> uuid \<Rightarrow> uuid \<Rightarrow> db \<Rightarrow> (user \<times> grant_role) list result" where
  "list_grants e uid kid d =
     and_then (sharing_on e) (\<lambda>_.
     and_then (library_admin uid kid d) (\<lambda>_.
       Inr (concat (map (\<lambda>g. map (\<lambda>u. (u, g_role g)) (filter (\<lambda>u. u_id u = g_user g) (users d)))
         (filter (\<lambda>g. g_kb g = kid) (grants d))))))"

definition drop_library :: "uuid \<Rightarrow> db \<Rightarrow> db" where
  "drop_library kid d = d\<lparr>kbs := row_del (\<lambda>k. kb_id k = kid) (kbs d), grants := row_del (\<lambda>g. g_kb g = kid) (grants d),
     kdocs := row_del (\<lambda>k. kd_kb k = kid) (kdocs d)\<rparr>"

definition delete_library :: "sharing_env \<Rightarrow> uuid \<Rightarrow> uuid \<Rightarrow> db \<Rightarrow> (db, unit) outcome" where
  "delete_library e uid kid =
     transaction (\<lambda>d.
       and_then (sharing_on e) (\<lambda>_.
       and_then (library_admin uid kid d) (\<lambda>_. committed () (drop_library kid d))))"

definition grant_role_of :: "string \<Rightarrow> grant_role option" where
  "grant_role_of s = (if s = ''viewer'' then Some Viewer else if s = ''editor'' then Some Editor else None)"

definition put_grant :: "knowledge_grant \<Rightarrow> db \<Rightarrow> db" where
  "put_grant g d = d\<lparr>grants := row_put (\<lambda>x. (g_kb x, g_user x)) g (grants d)\<rparr>"

text \<open>An existing grant keeps its organization, a new one takes that of the library.\<close>

definition set_grant :: "sharing_env \<Rightarrow> uuid \<Rightarrow> uuid \<Rightarrow> uuid \<Rightarrow> string option \<Rightarrow> db \<Rightarrow> (db, unit) outcome" where
  "set_grant e uid kid target role =
     transaction (\<lambda>d.
       and_then (sharing_on e) (\<lambda>_.
       and_then (library_admin uid kid d) (\<lambda>kb.
       and_then (workspace_member target (kb_org kb) d) (\<lambda>_.
         case role of
           None \<Rightarrow> committed () (d\<lparr>grants := row_del (\<lambda>g. g_kb g = kid \<and> g_user g = target) (grants d)\<rparr>)
         | Some s \<Rightarrow>
             and_then (require_row (grant_role_of s) (AppError ''INVALID_ROLE'' 422)) (\<lambda>r.
               committed () (put_grant (case get_grant kid target d of
                   None \<Rightarrow> \<lparr>g_kb = kid, g_user = target, g_org = kb_org kb, g_role = r\<rparr>
                 | Some g \<Rightarrow> g\<lparr>g_role := r\<rparr>) d))))))"

section \<open>Documents of a library\<close>

definition get_binding :: "uuid \<Rightarrow> uuid \<Rightarrow> db \<Rightarrow> knowledge_document option" where
  "get_binding kid did d = find (\<lambda>k. kd_kb k = kid \<and> kd_document k = did) (kdocs d)"

definition current_binding :: "uuid \<Rightarrow> uuid \<Rightarrow> db \<Rightarrow> knowledge_document option" where
  "current_binding kid sid d = find (\<lambda>k. kd_kb k = kid \<and> kd_series k = sid \<and> kd_current k) (kdocs d)"

definition clear_current_bindings :: "uuid \<Rightarrow> uuid \<Rightarrow> db \<Rightarrow> db" where
  "clear_current_bindings kid sid d =
     d\<lparr>kdocs := map (\<lambda>k. if kd_kb k = kid \<and> kd_series k = sid then k\<lparr>kd_current := False\<rparr> else k) (kdocs d)\<rparr>"

definition put_binding :: "knowledge_document \<Rightarrow> db \<Rightarrow> db" where
  "put_binding k d = d\<lparr>kdocs := row_put (\<lambda>x. (kd_kb x, kd_document x)) k (kdocs d)\<rparr>"

definition document_series :: "sharing_env \<Rightarrow> uuid \<Rightarrow> db \<Rightarrow> uuid" where
  "document_series e did d =
     (case (if has_document_versions (se_schema e) then get_version did d else None) of
        None \<Rightarrow> did | Some v \<Rightarrow> v_series v)"

definition publish_binding ::
    "sharing_env \<Rightarrow> uuid \<Rightarrow> knowledge_base \<Rightarrow> uuid \<Rightarrow> uuid option \<Rightarrow> (db, unit) body" where
  "publish_binding e uid kb did expected d =
     and_then (document_of uid did d) (\<lambda>doc.
     and_then (raise_if (d_org doc \<noteq> None \<and> d_org doc \<noteq> Some (kb_org kb)) (AppError ''INVALID_WORKSPACE_SCOPE'' 409)) (\<lambda>_.
     and_then (raise_if (d_status doc \<noteq> DocReady) (AppError ''DOCUMENT_NOT_READY'' 409)) (\<lambda>_.
     and_then (raise_if (d_id doc \<notin> set (readable_index_ids (se_schema e) (se_publication e) [d_id doc] d))
         (AppError ''DOCUMENT_INDEX_UNPUBLISHED'' 409)) (\<lambda>_.
     let sid = document_series e did d in
     and_then (raise_if (map_option kd_document (current_binding (kb_id kb) sid d) \<noteq> expected)
         (AppError ''KNOWLEDGE_VERSION_CONFLICT'' 409)) (\<lambda>_.
     and_then (raise_if (case get_binding (kb_id kb) did d of None \<Rightarrow> False | Some k \<Rightarrow> kd_series k \<noteq> sid)
         (AppError ''KNOWLEDGE_VERSION_DIVERGED'' 409)) (\<lambda>_.
       committed () (put_binding \<lparr>kd_kb = kb_id kb, kd_document = did, kd_series = sid, kd_current = True\<rparr>
         (clear_current_bindings (kb_id kb) sid d))))))))"

definition bind_document :: "sharing_env \<Rightarrow> uuid \<Rightarrow> uuid \<Rightarrow> uuid \<Rightarrow> bool \<Rightarrow> uuid option \<Rightarrow> db \<Rightarrow> (db, unit) outcome" where
  "bind_document e uid kid did remove expected =
     transaction (\<lambda>d.
       and_then (sharing_on e) (\<lambda>_.
       and_then (library_access uid kid True d) (\<lambda>(kb, _).
         if remove then
           and_then (require_row (get_binding kid did d) not_found) (\<lambda>_.
             committed () (d\<lparr>kdocs := row_del (\<lambda>k. kd_kb k = kid \<and> kd_document k = did) (kdocs d)\<rparr>))
         else publish_binding e uid kb did expected d)))"

text \<open>The rows of a library with the documents they bind.\<close>

definition bound_documents :: "uuid list \<Rightarrow> db \<Rightarrow> (document \<times> knowledge_document) list" where
  "bound_documents kids d =
     concat (map (\<lambda>k. map (\<lambda>x. (x, k)) (filter (\<lambda>x. d_id x = kd_document k) (documents d)))
       (filter (\<lambda>k. kd_kb k \<in> set kids) (kdocs d)))"

definition searchable :: "sharing_env \<Rightarrow> uuid list \<Rightarrow> document \<Rightarrow> bool" where
  "searchable e readable x =
     (d_status x = DocReady \<and> (se_publication e \<or> d_embedding_model x = se_model e) \<and> d_id x \<in> set readable)"

record library_document =
  ld_document :: document
  ld_version :: int
  ld_series :: uuid
  ld_current :: bool
  ld_current_document :: "uuid option"
  ld_queryable :: bool

definition library_documents :: "sharing_env \<Rightarrow> uuid \<Rightarrow> uuid \<Rightarrow> db \<Rightarrow> library_document list result" where
  "library_documents e uid kid d =
     and_then (sharing_on e) (\<lambda>_.
     and_then (library_access uid kid False d) (\<lambda>_.
       let rows = sort_key (\<lambda>r. d_name (fst r)) (sort_key (\<lambda>r. d_id (fst r)) (bound_documents [kid] d));
           readable = readable_index_ids (se_schema e) (se_publication e) (map (\<lambda>r. d_id (fst r)) rows) d
       in Inr (map (\<lambda>(x, k). \<lparr>ld_document = x,
            ld_version = (case (if has_document_versions (se_schema e) then get_version (d_id x) d else None) of
              None \<Rightarrow> 1 | Some v \<Rightarrow> v_number v),
            ld_series = kd_series k, ld_current = kd_current k,
            ld_current_document = map_of (rev (map (\<lambda>(y, j). (kd_series j, d_id y)) (filter (\<lambda>r. kd_current (snd r)) rows))) (kd_series k),
            ld_queryable = searchable e readable x\<rparr>) rows)))"

section \<open>The scope of a question\<close>

text \<open>\<open>list(dict.fromkeys(xs))\<close>: the first of equal elements stays.\<close>

definition dedup :: "'a list \<Rightarrow> 'a list" where
  "dedup xs = rev (remdups (rev xs))"

fun access_each :: "uuid \<Rightarrow> uuid list \<Rightarrow> db \<Rightarrow> unit result" where
  "access_each uid [] d = Inr ()"
| "access_each uid (k # ks) d = and_then (library_access uid k False d) (\<lambda>_. access_each uid ks d)"

text \<open>Without a selection, the libraries of the workspace the user may not see are skipped.\<close>

fun accessible :: "uuid \<Rightarrow> uuid list \<Rightarrow> db \<Rightarrow> uuid list result" where
  "accessible uid [] d = Inr []"
| "accessible uid (k # ks) d = (case library_access uid k False d of
     Inr _ \<Rightarrow> and_then (accessible uid ks d) (\<lambda>xs. Inr (k # xs))
   | Inl x \<Rightarrow> if exn_status x = Some 404 then accessible uid ks d else Inl x)"

definition workspace_libraries :: "sharing_env \<Rightarrow> uuid \<Rightarrow> uuid \<Rightarrow> uuid list option \<Rightarrow> db \<Rightarrow> uuid list result" where
  "workspace_libraries e uid oid selected d =
     and_then (sharing_on e) (\<lambda>_.
     and_then (workspace_member uid oid d) (\<lambda>_.
     let candidates = sort (map kb_id (filter (\<lambda>k. kb_org k = oid) (kbs d))) in
     case selected of
       None \<Rightarrow> accessible uid candidates d
     | Some ks \<Rightarrow>
         and_then (raise_if (\<not> set ks \<subseteq> set candidates) not_found) (\<lambda>_.
         and_then (access_each uid (dedup ks) d) (\<lambda>_. Inr (dedup ks)))))"

definition owned_documents :: "uuid \<Rightarrow> db \<Rightarrow> document list" where
  "owned_documents uid d = filter (\<lambda>x. d_user x = uid \<and> d_org x = None) (documents d)"

text \<open>Without requested documents: the current ones, of the libraries and of the user's own series.\<close>

definition current_documents :: "sharing_env \<Rightarrow> uuid list \<Rightarrow> uuid list \<Rightarrow> document list \<Rightarrow> db \<Rightarrow> document list" where
  "current_documents e owned_ids shared_current docs d =
     filter (\<lambda>x. d_id x \<in> set shared_current \<or>
       d_id x \<in> set owned_ids \<and>
         (has_document_versions (se_schema e) \<longrightarrow>
           (case get_version (d_id x) d of
              None \<Rightarrow> True
            | Some v \<Rightarrow> (case row_get s_id (v_series v) (series_rows d) of
                None \<Rightarrow> True | Some s \<Rightarrow> s_current s = Some (d_id x))))) docs"

definition select_documents ::
    "sharing_env \<Rightarrow> uuid list option \<Rightarrow> document list \<Rightarrow> uuid list \<Rightarrow> uuid list \<Rightarrow> db \<Rightarrow> document list result" where
  "select_documents e requested docs owned_ids shared_current d = (case requested of
     Some ids \<Rightarrow>
       and_then (raise_if (\<not> set ids \<subseteq> set (map d_id docs)) not_found) (\<lambda>_.
       let chosen = List.map_filter (\<lambda>i. find (\<lambda>x. d_id x = i) docs) (dedup ids) in
       and_then (raise_if (\<exists>x\<in>set chosen. d_status x \<noteq> DocReady) (AppError ''DOCUMENT_NOT_READY'' 409)) (\<lambda>_.
       and_then (raise_if (\<not> se_publication e \<and> (\<exists>x\<in>set chosen. d_embedding_model x \<noteq> se_model e))
           (AppError ''EMBEDDING_MODEL_MISMATCH'' 409)) (\<lambda>_. Inr chosen)))
   | None \<Rightarrow>
       and_then (raise_if (se_versions e \<and> \<not> has_document_versions (se_schema e)) (OtherError ''ProgrammingError'')) (\<lambda>_.
         Inr (current_documents e owned_ids shared_current docs d)))"

definition question_scope ::
    "sharing_env \<Rightarrow> uuid \<Rightarrow> uuid list \<Rightarrow> uuid list option \<Rightarrow> bool \<Rightarrow> uuid option \<Rightarrow> db \<Rightarrow> (uuid \<times> uuid) list result" where
  "question_scope e uid kids requested include_owned org d =
     and_then (sharing_on e) (\<lambda>_.
     and_then (case org of None \<Rightarrow> Inr () | Some oid \<Rightarrow> and_then (workspace_libraries e uid oid (Some kids) d) (\<lambda>_. Inr ())) (\<lambda>_.
     and_then (access_each uid kids d) (\<lambda>_.
     let owned = (if include_owned \<and> org = None then owned_documents uid d else []);
         rows = bound_documents kids d;
         docs = fold (\<lambda>x acc. row_put d_id x acc) (owned @ map fst rows) [];
         shared_current = map (\<lambda>r. d_id (fst r)) (filter (\<lambda>r. kd_current (snd r)) rows) in
     and_then (select_documents e requested docs (map d_id owned) shared_current d) (\<lambda>chosen.
     let readable = readable_index_ids (se_schema e) (se_publication e) (map d_id chosen) d in
     and_then (raise_if (requested \<noteq> None \<and> (\<exists>x\<in>set chosen. d_id x \<notin> set readable)) (AppError ''DOCUMENT_INDEX_UNPUBLISHED'' 409)) (\<lambda>_.
       Inr (map (\<lambda>x. (d_id x, d_user x)) (filter (searchable e readable) chosen)))))))"

end
