(* ===== verification/SharingProperties.thy ===== *)
theory SharingProperties
  imports Sharing
begin

text \<open>
  What sharing guarantees: an invariant of the organization tables over every sequence of
  requests, the documents a question may reach, and the end of access with a membership.
\<close>

section \<open>Who may read a library\<close>

definition may_read :: "uuid \<Rightarrow> uuid \<Rightarrow> db \<Rightarrow> bool" where
  "may_read uid kid d \<longleftrightarrow> (\<exists>kb\<in>set (kbs d). kb_id kb = kid \<and> org_live (kb_org kb) d \<and>
     (\<exists>m\<in>set (members d). m_org m = kb_org kb \<and> m_user m = uid \<and>
        (manages m \<or> (\<exists>g\<in>set (grants d). g_kb g = kid \<and> g_user g = uid))))"

lemma may_read_library: "may_read uid kid d \<Longrightarrow> \<exists>kb\<in>set (kbs d). kb_id kb = kid"
  by (auto simp: may_read_def)

lemma get_library_Some: "get_library kid d = Some kb \<Longrightarrow> kb \<in> set (kbs d) \<and> kb_id kb = kid"
  by (auto simp: get_library_def dest: row_get_Some_mem row_get_Some_key)

lemma library_access_Inr:
  assumes "library_access uid kid w d = Inr (kb, role)"
  shows "get_library kid d = Some kb \<and> may_read uid kid d \<and> (w \<longrightarrow> role = None \<or> role = Some Editor)"
proof -
  obtain m where kb: "get_library kid d = Some kb" and m: "workspace_member uid (kb_org kb) d = Inr m"
    and r: "manages m \<and> role = None \<or> (\<exists>g. get_grant kid uid d = Some g \<and> role = Some (g_role g) \<and> (w \<longrightarrow> g_role g = Editor))"
    using assms by (auto simp: library_access_def result_simps split: if_splits)
  have g: "g \<in> set (grants d) \<and> g_kb g = kid \<and> g_user g = uid" if "get_grant kid uid d = Some g" for g
    using find_Some_mem [OF that [unfolded get_grant_def]] by simp
  show ?thesis
    using kb r g get_library_Some [OF kb] workspace_member_Inr [OF m] unfolding may_read_def by blast
qed

lemma access_each_Inr:
  "access_each uid kids d = Inr u \<Longrightarrow> k \<in> set kids \<Longrightarrow> may_read uid k d"
  by (induction kids) (auto simp: result_simps dest: library_access_Inr)

lemma workspace_libraries_Inr:
  assumes "workspace_libraries e uid oid (Some kids) d = Inr ks" "k \<in> set kids"
  shows "\<exists>kb\<in>set (kbs d). kb_id kb = k \<and> kb_org kb = oid"
  using assms by (auto simp: workspace_libraries_def result_simps Let_def)

section \<open>The scope of a question\<close>

lemma set_fold_row_put: "set (fold (row_put key) xs acc) \<subseteq> set xs \<union> set acc"
proof (induction xs arbitrary: acc)
  case (Cons x xs)
  then show ?case using set_row_put_subset [of key x acc] by fastforce
qed simp

lemma find_mem_filter: "set (List.map_filter (\<lambda>i. find (\<lambda>x. key x = i) xs) is) \<subseteq> set xs"
  by (induction "is") (auto simp: List.map_filter_simps split: option.splits dest: find_Some_mem)

lemma select_documents_subset:
  "select_documents e req docs oids cur d = Inr chosen \<Longrightarrow> set chosen \<subseteq> set docs"
  using find_mem_filter [of d_id docs]
  by (auto simp: select_documents_def current_documents_def result_simps Let_def split: option.splits)

lemma readable_single:
  "i \<in> set (readable_index_ids sch p ids d) \<longleftrightarrow> i \<in> set ids \<and> i \<in> set (readable_index_ids sch p [i] d)"
  by (auto simp: readable_index_ids_def split: option.splits)

lemma bound_documents_mem:
  "(x, k) \<in> set (bound_documents kids d) \<longleftrightarrow>
   x \<in> set (documents d) \<and> k \<in> set (kdocs d) \<and> kd_kb k \<in> set kids \<and> d_id x = kd_document k"
  by (auto simp: bound_documents_def)

lemma question_scope_Inr:
  assumes "question_scope e uid kids req own org d = Inr sc" "(did, owner) \<in> set sc"
  shows "\<exists>x\<in>set (documents d). d_id x = did \<and> d_user x = owner \<and> searchable e (readable_index_ids (se_schema e) (se_publication e) [did] d) x \<and>
    (own \<and> org = None \<and> d_user x = uid \<and> d_org x = None \<or>
     (\<exists>k\<in>set (kdocs d). kd_document k = did \<and> kd_kb k \<in> set kids))"
    and "\<forall>k\<in>set kids. may_read uid k d \<and> (\<forall>oid. org = Some oid \<longrightarrow> (\<exists>kb\<in>set (kbs d). kb_id kb = k \<and> kb_org kb = oid))"
proof -
  define owned where "owned = (if own \<and> org = None then owned_documents uid d else [])"
  define docs where "docs = fold (row_put d_id) (owned @ map fst (bound_documents kids d)) []"
  obtain u v chosen cur where a: "access_each uid kids d = Inr u"
    and w: "(case org of None \<Rightarrow> Inr () | Some oid \<Rightarrow> and_then (workspace_libraries e uid oid (Some kids) d) (\<lambda>_. Inr ())) = Inr v"
    and c: "select_documents e req docs (map d_id owned) cur d = Inr chosen"
    and sc: "sc = map (\<lambda>x. (d_id x, d_user x)) (filter (searchable e (readable_index_ids (se_schema e) (se_publication e) (map d_id chosen) d)) chosen)"
    using assms(1) unfolding question_scope_def Let_def docs_def owned_def
    by (auto simp: result_simps)
  obtain x where x: "x \<in> set chosen" "d_id x = did" "d_user x = owner"
      "searchable e (readable_index_ids (se_schema e) (se_publication e) (map d_id chosen) d) x"
    using assms(2) sc by auto
  have "x \<in> set docs" using x(1) select_documents_subset [OF c] by blast
  then have "x \<in> set owned \<or> (\<exists>k. (x, k) \<in> set (bound_documents kids d))"
    using set_fold_row_put [of d_id "owned @ map fst (bound_documents kids d)" "[]"] unfolding docs_def by auto
  then have m: "x \<in> set (documents d) \<and> (own \<and> org = None \<and> d_user x = uid \<and> d_org x = None \<or>
     (\<exists>k\<in>set (kdocs d). kd_document k = did \<and> kd_kb k \<in> set kids))"
    using x(2) by (auto simp: owned_def owned_documents_def bound_documents_mem split: if_splits)
  have "searchable e (readable_index_ids (se_schema e) (se_publication e) [did] d) x"
    using x(4) readable_single [of did] x(2) unfolding searchable_def by blast
  then show "\<exists>x\<in>set (documents d). d_id x = did \<and> d_user x = owner \<and> searchable e (readable_index_ids (se_schema e) (se_publication e) [did] d) x \<and>
    (own \<and> org = None \<and> d_user x = uid \<and> d_org x = None \<or>
     (\<exists>k\<in>set (kdocs d). kd_document k = did \<and> kd_kb k \<in> set kids))"
    using m x by blast
  show "\<forall>k\<in>set kids. may_read uid k d \<and> (\<forall>oid. org = Some oid \<longrightarrow> (\<exists>kb\<in>set (kbs d). kb_id kb = k \<and> kb_org kb = oid))"
    using access_each_Inr [OF a] w workspace_libraries_Inr [of e uid _ kids d]
    by (auto simp: result_simps)
qed

section \<open>The organization tables\<close>

definition member_pk :: "org_member \<Rightarrow> uuid \<times> uuid" where
  "member_pk m = (m_org m, m_user m)"

definition grant_pk :: "knowledge_grant \<Rightarrow> uuid \<times> uuid" where
  "grant_pk g = (g_kb g, g_user g)"

definition binding_pk :: "knowledge_document \<Rightarrow> uuid \<times> uuid" where
  "binding_pk k = (kd_kb k, kd_document k)"

definition sharing_keys :: "db \<Rightarrow> bool" where
  "sharing_keys d \<longleftrightarrow> distinct (map o_id (orgs d)) \<and> distinct (map member_pk (members d)) \<and>
     distinct (map kb_id (kbs d)) \<and> distinct (map grant_pk (grants d)) \<and> distinct (map binding_pk (kdocs d))"

text \<open>Every membership is of an organization, and its owner is the one member with that role.\<close>

definition owners_fixed :: "db \<Rightarrow> bool" where
  "owners_fixed d \<longleftrightarrow>
     (\<forall>m\<in>set (members d). \<exists>org\<in>set (orgs d). o_id org = m_org m \<and> (m_role m = Owner \<longleftrightarrow> o_owner org = m_user m)) \<and>
     (\<forall>org\<in>set (orgs d). \<exists>m\<in>set (members d). m_org m = o_id org \<and> m_user m = o_owner org)"

text \<open>A grant is of a library of its organization, to a member of it.\<close>

definition grants_to_members :: "db \<Rightarrow> bool" where
  "grants_to_members d \<longleftrightarrow> (\<forall>g\<in>set (grants d).
     (\<exists>kb\<in>set (kbs d). kb_id kb = g_kb g \<and> kb_org kb = g_org g) \<and>
     (\<exists>m\<in>set (members d). m_org m = g_org g \<and> m_user m = g_user g))"

definition one_current_binding :: "db \<Rightarrow> bool" where
  "one_current_binding d \<longleftrightarrow> (\<forall>k\<in>set (kdocs d). \<forall>k'\<in>set (kdocs d).
     kd_current k \<and> kd_current k' \<and> kd_kb k = kd_kb k' \<and> kd_series k = kd_series k' \<longrightarrow> k = k')"

definition sharing_inv :: "db \<Rightarrow> bool" where
  "sharing_inv d \<longleftrightarrow> sharing_keys d \<and> owners_fixed d \<and> grants_to_members d \<and> one_current_binding d"

text \<open>
  The requests that write these tables; \<open>Elsewhere\<close> is every other change of the database, which
  touches none of them but for the bindings of a deleted document.
\<close>

inductive share_step :: "db \<Rightarrow> db \<Rightarrow> bool" where
  Create_org: "create_organization e oid uid name d = (r, d') \<Longrightarrow> share_step d d'"
| Set_member: "set_member e uid oid username role d = (r, d') \<Longrightarrow> share_step d d'"
| Remove_member: "remove_member e uid oid target d = (r, d') \<Longrightarrow> share_step d d'"
| Delete_org: "delete_organization e uid oid now d = (r, d') \<Longrightarrow> share_step d d'"
| Create_library: "create_library e kid uid oid name d = (r, d') \<Longrightarrow> share_step d d'"
| Delete_library: "delete_library e uid kid d = (r, d') \<Longrightarrow> share_step d d'"
| Set_grant: "set_grant e uid kid target role d = (r, d') \<Longrightarrow> share_step d d'"
| Bind: "bind_document e uid kid did remove expected d = (r, d') \<Longrightarrow> share_step d d'"
| Elsewhere: "orgs d' = orgs d \<Longrightarrow> members d' = members d \<Longrightarrow> kbs d' = kbs d \<Longrightarrow> grants d' = grants d \<Longrightarrow>
    kdocs d' = row_del gone (kdocs d) \<Longrightarrow> share_step d d'"

text \<open>A transaction whose body only commits states that keep the invariant.\<close>

lemma transaction_inv:
  assumes "transaction f d = (r, d')" "sharing_inv d" "\<And>a d'. f d = committed a d' \<Longrightarrow> sharing_inv d'"
    "\<And>x d'. f d \<noteq> commit_raise x d'"
  shows "sharing_inv d'"
  using assms by (cases r) (auto simp: result_simps)

section \<open>Every request keeps the invariant\<close>

lemma pk_eta:
  "(\<lambda>x. (m_org x, m_user x)) = member_pk" "(\<lambda>x. (g_kb x, g_user x)) = grant_pk"
  "(\<lambda>x. (kd_kb x, kd_document x)) = binding_pk"
  by (auto simp: member_pk_def grant_pk_def binding_pk_def)

lemmas sharing_inv_defs = sharing_inv_def sharing_keys_def owners_fixed_def grants_to_members_def
  one_current_binding_def

lemma distinct_row_insert: "row_insert key r rows = Inr rows' \<Longrightarrow> distinct (map key rows) \<Longrightarrow> distinct (map key rows')"
  by (auto simp: result_simps row_get_None)

lemma create_organization_inv:
  assumes "sharing_inv d"
    and o: "row_insert o_id \<lparr>o_id = oid, o_name = name, o_owner = uid, o_archived = None\<rparr> (orgs d) = Inr os"
    and m: "row_insert member_pk \<lparr>m_org = oid, m_user = uid, m_role = Owner\<rparr> (members d) = Inr ms"
  shows "sharing_inv (d\<lparr>orgs := os, members := ms\<rparr>)"
proof -
  have k: "sharing_keys (d\<lparr>orgs := os, members := ms\<rparr>)"
    using assms(1) distinct_row_insert [OF o] distinct_row_insert [OF m] by (simp add: sharing_inv_def sharing_keys_def)
  have "\<forall>org\<in>set (orgs d). o_id org \<noteq> oid" using o by (auto simp: result_simps row_get_None)
  then show ?thesis
    using assms(1) k o m unfolding sharing_inv_defs by (auto simp: result_simps)
qed

lemma put_member_inv:
  assumes inv: "sharing_inv d" and live: "org_live oid d" and r: "r \<noteq> Owner" and row: "\<not> has_role Owner (membership oid target d)"
  shows "sharing_inv (put_member \<lparr>m_org = oid, m_user = target, m_role = r\<rparr> d)"
proof -
  let ?m = "\<lparr>m_org = oid, m_user = target, m_role = r\<rparr>"
  obtain org where o: "org \<in> set (orgs d)" "o_id org = oid"
    using live by (auto simp: org_live_def split: option.splits dest: row_get_Some_mem row_get_Some_key)
  have s: "set (row_put member_pk ?m (members d)) = insert ?m {m \<in> set (members d). member_pk m \<noteq> (oid, target)}"
    using inv by (subst set_row_put_distinct) (simp_all add: sharing_inv_defs member_pk_def)
  have sel: "orgs (put_member ?m d) = orgs d" "members (put_member ?m d) = row_put member_pk ?m (members d)"
    by (simp_all add: put_member_def pk_eta)
  have own: "o_owner org \<noteq> target"
  proof
    assume t: "o_owner org = target"
    obtain m where m: "m \<in> set (members d)" "m_org m = oid" "m_user m = target" "m_role m = Owner"
      using inv o t unfolding sharing_inv_defs by (metis distinct_key_eq)
    have "membership oid target d = Some m"
      using m row_get_distinct [of member_pk "members d" m] inv
      by (simp add: sharing_inv_defs membership_def row_get_def member_pk_def)
    then show False using row m(4) by (simp add: has_role_def)
  qed
  have k: "sharing_keys (put_member ?m d)"
    using inv by (auto simp: sharing_inv_defs put_member_def pk_eta)
  have f: "owners_fixed (put_member ?m d)"
    unfolding owners_fixed_def sel s
  proof (intro conjI ballI)
    fix m assume "m \<in> insert ?m {m \<in> set (members d). member_pk m \<noteq> (oid, target)}"
    then show "\<exists>org\<in>set (orgs d). o_id org = m_org m \<and> (m_role m = Owner \<longleftrightarrow> o_owner org = m_user m)"
      using inv o own r unfolding sharing_inv_defs by fastforce
  next
    fix org' assume "org' \<in> set (orgs d)"
    then show "\<exists>m\<in>insert ?m {m \<in> set (members d). member_pk m \<noteq> (oid, target)}. m_org m = o_id org' \<and> m_user m = o_owner org'"
      using inv unfolding sharing_inv_defs by (fastforce simp: member_pk_def)
  qed
  have g: "grants_to_members (put_member ?m d)"
    using inv unfolding sharing_inv_defs put_member_def pk_eta by (simp add: s) (fastforce simp: member_pk_def)
  show ?thesis using k f g inv by (simp add: sharing_inv_def one_current_binding_def put_member_def)
qed

lemma drop_member_inv:
  assumes inv: "sharing_inv d" and row: "membership oid target d = Some row" "m_role row \<noteq> Owner"
  shows "sharing_inv (drop_member oid target d)"
proof -
  have m: "row \<in> set (members d)" "m_org row = oid" "m_user row = target"
    using row(1) by (auto simp: membership_def dest: find_Some_mem)
  have own: "o_owner org \<noteq> target" if org: "org \<in> set (orgs d)" "o_id org = oid" for org
  proof -
    have "distinct (map o_id (orgs d))" using inv by (simp add: sharing_inv_defs)
    moreover obtain org' where "org' \<in> set (orgs d)" "o_id org' = m_org row" "m_role row = Owner \<longleftrightarrow> o_owner org' = m_user row"
      using inv m(1) unfolding sharing_inv_defs by blast
    ultimately show ?thesis using org m row(2) distinct_key_eq [of o_id "orgs d" org org'] by auto
  qed
  have k: "sharing_keys (drop_member oid target d)"
    using inv by (auto simp: sharing_inv_defs drop_member_def)
  have sel: "orgs (drop_member oid target d) = orgs d" "kbs (drop_member oid target d) = kbs d"
    "set (members (drop_member oid target d)) = {m \<in> set (members d). \<not> (m_org m = oid \<and> m_user m = target)}"
    "set (grants (drop_member oid target d)) = {g \<in> set (grants d). \<not> (g_org g = oid \<and> g_user g = target)}"
    by (auto simp: drop_member_def)
  have f: "owners_fixed (drop_member oid target d)"
    using inv own unfolding sharing_inv_def owners_fixed_def sel by fastforce
  have g: "grants_to_members (drop_member oid target d)"
    using inv unfolding sharing_inv_def grants_to_members_def sel by fastforce
  show ?thesis using k f g inv by (simp add: sharing_inv_def one_current_binding_def drop_member_def)
qed

lemma archive_inv:
  assumes inv: "sharing_inv d" and o: "get_org oid d = Some org"
  shows "sharing_inv (d\<lparr>orgs := row_put o_id (org\<lparr>o_archived := Some now\<rparr>) (orgs d)\<rparr>)"
proof -
  have org: "org \<in> set (orgs d)" using o by (rule row_get_Some_mem)
  have s: "set (row_put o_id (org\<lparr>o_archived := Some now\<rparr>) (orgs d)) =
      insert (org\<lparr>o_archived := Some now\<rparr>) {x \<in> set (orgs d). o_id x \<noteq> o_id org}"
    using inv by (subst set_row_put_distinct) (simp_all add: sharing_inv_defs)
  have ex: "\<exists>x'\<in>set (row_put o_id (org\<lparr>o_archived := Some now\<rparr>) (orgs d)). o_id x' = o_id x \<and> o_owner x' = o_owner x"
    if "x \<in> set (orgs d)" for x
    using that org inv distinct_key_eq [of o_id "orgs d" x org] unfolding s sharing_inv_defs by force
  have conv: "\<exists>x\<in>set (orgs d). o_id x = o_id x' \<and> o_owner x = o_owner x'"
    if "x' \<in> set (row_put o_id (org\<lparr>o_archived := Some now\<rparr>) (orgs d))" for x'
    using that org unfolding s by force
  have f: "owners_fixed (d\<lparr>orgs := row_put o_id (org\<lparr>o_archived := Some now\<rparr>) (orgs d)\<rparr>)"
    using inv ex conv unfolding sharing_inv_def owners_fixed_def by simp metis
  show ?thesis using f inv by (auto simp: sharing_inv_def sharing_keys_def grants_to_members_def one_current_binding_def)
qed

lemma create_library_inv:
  assumes "sharing_inv d" "row_insert kb_id kb (kbs d) = Inr rows"
  shows "sharing_inv (d\<lparr>kbs := rows\<rparr>)"
  using assms distinct_row_insert [OF assms(2)] by (auto simp: sharing_inv_defs result_simps)

lemma drop_library_inv:
  assumes inv: "sharing_inv d"
  shows "sharing_inv (drop_library kid d)"
proof -
  have sel: "orgs (drop_library kid d) = orgs d" "members (drop_library kid d) = members d"
    "set (kbs (drop_library kid d)) = {k \<in> set (kbs d). kb_id k \<noteq> kid}"
    "set (grants (drop_library kid d)) = {g \<in> set (grants d). g_kb g \<noteq> kid}"
    "set (kdocs (drop_library kid d)) = {k \<in> set (kdocs d). kd_kb k \<noteq> kid}"
    by (auto simp: drop_library_def)
  have "sharing_keys (drop_library kid d)" using inv by (auto simp: sharing_inv_defs drop_library_def)
  moreover have "grants_to_members (drop_library kid d)"
    using inv unfolding sharing_inv_def grants_to_members_def sel by fastforce
  ultimately show ?thesis using inv unfolding sharing_inv_def owners_fixed_def one_current_binding_def sel by simp
qed

lemma put_grant_inv:
  assumes inv: "sharing_inv d" and kb: "kb \<in> set (kbs d)" "kb_id kb = g_kb g" "kb_org kb = g_org g"
    and m: "m \<in> set (members d)" "m_org m = g_org g" "m_user m = g_user g"
  shows "sharing_inv (put_grant g d)"
proof -
  have s: "set (row_put grant_pk g (grants d)) = insert g {x \<in> set (grants d). grant_pk x \<noteq> grant_pk g}"
    using inv by (subst set_row_put_distinct) (simp_all add: sharing_inv_defs)
  have "sharing_keys (put_grant g d)" using inv by (auto simp: sharing_inv_defs put_grant_def pk_eta)
  moreover have "grants_to_members (put_grant g d)"
    using inv kb m unfolding sharing_inv_def grants_to_members_def put_grant_def pk_eta by (auto simp: s)
  ultimately show ?thesis using inv by (simp add: sharing_inv_def owners_fixed_def one_current_binding_def put_grant_def)
qed

lemma set_grant_inv:
  assumes inv: "sharing_inv d" and kb: "library_admin uid kid d = Inr kb"
    and m: "workspace_member target (kb_org kb) d = Inr m"
  shows "sharing_inv (put_grant (case get_grant kid target d of
     None \<Rightarrow> \<lparr>g_kb = kid, g_user = target, g_org = kb_org kb, g_role = r\<rparr> | Some g \<Rightarrow> g\<lparr>g_role := r\<rparr>) d)"
proof -
  have k: "kb \<in> set (kbs d)" "kb_id kb = kid"
    using kb get_library_Some [of kid d kb] by (auto simp: library_admin_def result_simps dest: library_access_Inr)
  have mm: "m \<in> set (members d)" "m_org m = kb_org kb" "m_user m = target"
    using workspace_member_Inr [OF m] by auto
  show ?thesis
  proof (cases "get_grant kid target d")
    case None
    show ?thesis using k mm unfolding None by (auto intro!: put_grant_inv [OF inv k(1) _ _ mm(1)])
  next
    case (Some g)
    have g: "g \<in> set (grants d)" "g_kb g = kid" "g_user g = target"
      using find_Some_mem [OF Some [unfolded get_grant_def]] by auto
    obtain kb' where "kb' \<in> set (kbs d)" "kb_id kb' = kid" "kb_org kb' = g_org g"
      using inv g unfolding sharing_inv_defs by blast
    then have "kb_org kb = g_org g"
      using k distinct_key_eq [of kb_id "kbs d" kb kb'] inv by (simp add: sharing_inv_defs)
    then show ?thesis using k mm g unfolding Some by (auto intro!: put_grant_inv [OF inv k(1) _ _ mm(1)])
  qed
qed

lemma drop_grants_inv: "sharing_inv d \<Longrightarrow> sharing_inv (d\<lparr>grants := row_del p (grants d)\<rparr>)"
  by (auto simp: sharing_inv_defs)

lemma drop_bindings_inv: "sharing_inv d \<Longrightarrow> sharing_inv (d\<lparr>kdocs := row_del p (kdocs d)\<rparr>)"
  by (auto simp: sharing_inv_defs)

lemma rebind_inv:
  assumes inv: "sharing_inv d"
  shows "sharing_inv (put_binding \<lparr>kd_kb = kid, kd_document = did, kd_series = sid, kd_current = True\<rparr>
    (clear_current_bindings kid sid d))"
proof -
  let ?f = "\<lambda>k. if kd_kb k = kid \<and> kd_series k = sid then k\<lparr>kd_current := False\<rparr> else k"
  let ?k = "\<lparr>kd_kb = kid, kd_document = did, kd_series = sid, kd_current = True\<rparr>"
  have mp: "map binding_pk (map ?f ks) = map binding_pk ks" for ks by (auto simp: binding_pk_def)
  have ds: "distinct (map binding_pk (map ?f (kdocs d)))" using inv unfolding mp by (simp add: sharing_inv_defs)
  have s: "set (row_put binding_pk ?k (map ?f (kdocs d))) = insert ?k {x \<in> set (map ?f (kdocs d)). binding_pk x \<noteq> binding_pk ?k}"
    using ds by (rule set_row_put_distinct)
  have sel: "kdocs (put_binding ?k (clear_current_bindings kid sid d)) = row_put binding_pk ?k (map ?f (kdocs d))"
    by (simp add: put_binding_def clear_current_bindings_def pk_eta)
  have one: "k = k'" if "k \<in> set (kdocs d)" "k' \<in> set (kdocs d)" "kd_current (?f k)" "kd_current (?f k')"
      "kd_kb (?f k) = kd_kb (?f k')" "kd_series (?f k) = kd_series (?f k')" for k k'
    using that inv by (auto simp: sharing_inv_defs split: if_splits)
  have nocur: "\<not> (kd_current (?f k) \<and> kd_kb (?f k) = kid \<and> kd_series (?f k) = sid)" for k by auto
  have "one_current_binding (put_binding ?k (clear_current_bindings kid sid d))"
    unfolding one_current_binding_def sel s set_map
    using one nocur by (fastforce simp del: if_split)
  moreover have "sharing_keys (put_binding ?k (clear_current_bindings kid sid d))"
    using inv distinct_row_put [OF ds, of ?k] by (simp add: sharing_inv_defs put_binding_def clear_current_bindings_def pk_eta)
  ultimately show ?thesis
    using inv by (simp add: sharing_inv_def owners_fixed_def grants_to_members_def put_binding_def clear_current_bindings_def)
qed

lemma share_step_inv:
  assumes "share_step d d'" "sharing_inv d"
  shows "sharing_inv d'"
  using assms
proof (induction rule: share_step.induct)
  case (Create_org e oid uid name d r d')
  show ?case
    by (rule transaction_inv [OF Create_org(1) [unfolded create_organization_def] Create_org(2)])
      (auto simp: result_simps Let_def pk_eta intro!: create_organization_inv Create_org(2) simp del: row_insert_eq_Inr)
next
  case (Set_member e uid oid username role d r d')
  show ?case
    by (rule transaction_inv [OF Set_member(1) [unfolded set_member_def] Set_member(2)])
      (auto simp: result_simps Let_def org_admin_def member_role_of_def split: if_splits
        intro!: put_member_inv Set_member(2) dest!: workspace_member_Inr)
next
  case (Remove_member e uid oid target d r d')
  show ?case
    by (rule transaction_inv [OF Remove_member(1) [unfolded remove_member_def] Remove_member(2)])
      (auto simp: result_simps intro: drop_member_inv Remove_member(2))
next
  case (Delete_org e uid oid now d r d')
  show ?case
    by (rule transaction_inv [OF Delete_org(1) [unfolded delete_organization_def] Delete_org(2)])
      (auto simp: result_simps intro: archive_inv Delete_org(2))
next
  case (Create_library e kid uid oid name d r d')
  show ?case
    by (rule transaction_inv [OF Create_library(1) [unfolded create_library_def] Create_library(2)])
      (auto simp: result_simps Let_def simp del: row_insert_eq_Inr intro: create_library_inv Create_library(2))
next
  case (Delete_library e uid kid d r d')
  show ?case
    by (rule transaction_inv [OF Delete_library(1) [unfolded delete_library_def] Delete_library(2)])
      (auto simp: result_simps intro: drop_library_inv Delete_library(2))
next
  case (Set_grant e uid kid target role d r d')
  show ?case
    by (rule transaction_inv [OF Set_grant(1) [unfolded set_grant_def] Set_grant(2)])
      (cases role; auto simp: result_simps intro: set_grant_inv drop_grants_inv Set_grant(2))+
next
  case (Bind e uid kid did remove expected d r d')
  show ?case
    by (rule transaction_inv [OF Bind(1) [unfolded bind_document_def publish_binding_def] Bind(2)])
      (auto simp: result_simps Let_def split: if_splits prod.splits intro: rebind_inv drop_bindings_inv Bind(2))
next
  case (Elsewhere d' d gone)
  then show ?case using drop_bindings_inv [OF Elsewhere(6), of gone]
    by (simp add: sharing_inv_def sharing_keys_def owners_fixed_def grants_to_members_def one_current_binding_def)
qed

definition no_sharing :: "db \<Rightarrow> bool" where
  "no_sharing d \<longleftrightarrow> orgs d = [] \<and> members d = [] \<and> kbs d = [] \<and> grants d = [] \<and> kdocs d = []"

lemma reached_inv: "rtranclp share_step d d' \<Longrightarrow> sharing_inv d \<Longrightarrow> sharing_inv d'"
  by (induction rule: rtranclp_induct) (auto intro: share_step_inv)

lemma no_sharing_inv: "no_sharing d \<Longrightarrow> sharing_inv d"
  by (simp add: no_sharing_def sharing_inv_defs)

section \<open>The end of a membership\<close>

lemma library_access_outsider:
  "get_library kid d = Some kb \<Longrightarrow> (\<And>m. m \<in> set (members d) \<Longrightarrow> \<not> (m_org m = kb_org kb \<and> m_user m = uid)) \<Longrightarrow>
   library_access uid kid w d = Inl not_found"
  by (cases "workspace_member uid (kb_org kb) d")
    (auto simp: library_access_def workspace_member_def require_row_def dest: find_Some_mem split: option.splits)

lemma library_access_ungranted:
  assumes "get_library kid d = Some kb" "get_grant kid uid d = None"
    and "\<And>m. m \<in> set (members d) \<Longrightarrow> m_org m = kb_org kb \<Longrightarrow> m_user m = uid \<Longrightarrow> \<not> manages m"
  shows "library_access uid kid w d = Inl not_found"
proof (cases "workspace_member uid (kb_org kb) d")
  case (Inl x)
  then show ?thesis using assms(1) by (auto simp: library_access_def workspace_member_def result_simps)
next
  case (Inr m)
  then show ?thesis using assms(1,2) assms(3) [of m] workspace_member_Inr [OF Inr] by (simp add: library_access_def)
qed

lemma mem_row_put: "x \<in> set (row_put key r rows) \<Longrightarrow> x = r \<or> x \<in> set rows"
  using set_row_put_subset [of key r rows] by blast

lemma remove_member_Inr:
  assumes "remove_member e uid oid target d = (Inr (), d')"
  shows "d' = drop_member oid target d"
  using assms by (auto simp: remove_member_def result_simps)

lemma set_member_Inr:
  assumes "set_member e a oid name role d = (Inr (), d')"
  shows "\<exists>u r. member_role_of role = Some r \<and> d' = put_member \<lparr>m_org = oid, m_user = u, m_role = r\<rparr> d"
  using assms by (auto simp: set_member_def result_simps Let_def)

lemma dropped_grants:
  assumes "sharing_inv d" "get_library kid d = Some kb" "kb_org kb = oid"
  shows "get_grant kid target (drop_member oid target d) = None"
proof -
  have "g_org g = oid" if g: "g \<in> set (grants d)" "g_kb g = kid" for g
  proof -
    obtain kb' where "kb' \<in> set (kbs d)" "kb_id kb' = kid" "kb_org kb' = g_org g"
      using assms(1) g unfolding sharing_inv_defs by blast
    then show ?thesis
      using assms get_library_Some [OF assms(2)] distinct_key_eq [of kb_id "kbs d" kb kb'] by (simp add: sharing_inv_defs)
  qed
  then show ?thesis by (auto simp: get_grant_def drop_member_def find_None_iff)
qed

section \<open>Properties\<close>

text \<open>
  C16: safety of the question scope. Every document a question may reach is stored, ready,
  with an index its service reads, and belongs to the owner the scope names; it is a personal
  document of the asking user, or bound in a library that the user may read and the question
  selected. In the workspace of an organization only libraries of that organization count.
\<close>

theorem scope_authorized:
  assumes "question_scope e uid kids req own org d = Inr sc" "(did, owner) \<in> set sc"
  shows "\<exists>x\<in>set (documents d). d_id x = did \<and> d_user x = owner \<and> d_status x = DocReady \<and>
    did \<in> set (readable_index_ids (se_schema e) (se_publication e) [did] d) \<and>
    (own \<and> org = None \<and> d_user x = uid \<and> d_org x = None \<or>
     (\<exists>k\<in>set (kdocs d). \<exists>kb\<in>set (kbs d). kd_document k = did \<and> kd_kb k = kb_id kb \<and> kb_id kb \<in> set kids \<and>
        may_read uid (kb_id kb) d \<and> (org = None \<or> org = Some (kb_org kb))))"
proof -
  obtain x where x: "x \<in> set (documents d)" "d_id x = did" "d_user x = owner"
      "searchable e (readable_index_ids (se_schema e) (se_publication e) [did] d) x"
    and o: "own \<and> org = None \<and> d_user x = uid \<and> d_org x = None \<or> (\<exists>k\<in>set (kdocs d). kd_document k = did \<and> kd_kb k \<in> set kids)"
    using question_scope_Inr(1) [OF assms] by blast
  have lib: "\<exists>kb\<in>set (kbs d). k = kb_id kb \<and> may_read uid (kb_id kb) d \<and> (org = None \<or> org = Some (kb_org kb))"
    if "k \<in> set kids" for k
    using bspec [OF question_scope_Inr(2) [OF assms] that] may_read_library [of uid k d] by (metis not_Some_eq)
  have "own \<and> org = None \<and> d_user x = uid \<and> d_org x = None \<or>
     (\<exists>k\<in>set (kdocs d). \<exists>kb\<in>set (kbs d). kd_document k = did \<and> kd_kb k = kb_id kb \<and> kb_id kb \<in> set kids \<and>
        may_read uid (kb_id kb) d \<and> (org = None \<or> org = Some (kb_org kb)))"
    using o
  proof (elim disjE bexE conjE)
    fix k assume k: "k \<in> set (kdocs d)" "kd_document k = did" "kd_kb k \<in> set kids"
    obtain kb where "kb \<in> set (kbs d)" "kd_kb k = kb_id kb" "may_read uid (kb_id kb) d" "org = None \<or> org = Some (kb_org kb)"
      using lib [OF k(3)] by (elim bexE conjE) (rule that)
    with k have "\<exists>kb\<in>set (kbs d). kd_document k = did \<and> kd_kb k = kb_id kb \<and> kb_id kb \<in> set kids \<and>
        may_read uid (kb_id kb) d \<and> (org = None \<or> org = Some (kb_org kb))" by (intro bexI [of _ kb]) auto
    then show ?thesis using k(1) by blast
  qed blast
  then show ?thesis using x(4) by (intro bexI [OF _ x(1)]) (simp add: x(2,3) searchable_def)
qed

text \<open>
  C17: an invariant of the organization tables. Whatever requests have been served, in whatever
  order: primary keys are distinct, each organization has exactly one owner, the one it was
  created with, every grant is of a library of its organization to a member of it, and a
  library has at most one current document per series.
\<close>

theorem sharing_invariant:
  assumes "no_sharing d" "rtranclp share_step d d'"
  shows "sharing_inv d'"
  using assms by (blast intro: reached_inv no_sharing_inv)

text \<open>
  C27: a removed member has lost every library of the organization, and its old grants do not
  come back when it is made a member again.
\<close>

theorem removed_member_loses_access:
  assumes "no_sharing d0" "rtranclp share_step d0 d" "get_library kid d = Some kb" "kb_org kb = oid"
    and rem: "remove_member e uid oid target d = (Inr (), d')"
  shows "library_access target kid w d' = Inl not_found \<and>
    (set_member e' admin' oid name ''member'' d' = (Inr (), d'') \<longrightarrow> library_access target kid w d'' = Inl not_found)"
proof (intro conjI impI)
  have d': "d' = drop_member oid target d" by (rule remove_member_Inr [OF rem])
  have lib: "get_library kid d' = Some kb" using assms(3) by (simp add: d' drop_member_def get_library_def)
  have out: "\<not> (m_org m = kb_org kb \<and> m_user m = target)" if "m \<in> set (members d')" for m
    using that assms(4) by (auto simp: d' drop_member_def)
  show "library_access target kid w d' = Inl not_found" by (rule library_access_outsider [OF lib out])
  assume "set_member e' admin' oid name ''member'' d' = (Inr (), d'')"
  then obtain u where d'': "d'' = put_member \<lparr>m_org = oid, m_user = u, m_role = Member\<rparr> d'"
    using set_member_Inr [of e' admin' oid name "''member''" d' d''] by (auto simp: member_role_of_def)
  have "get_grant kid target d' = None"
    unfolding d' using assms(1,2) by (intro dropped_grants [OF _ assms(3,4)]) (blast intro: reached_inv no_sharing_inv)
  then show "library_access target kid w d'' = Inl not_found"
    using lib assms(4) by (intro library_access_ungranted [of kid d'' kb])
      (auto simp: d'' put_member_def get_library_def get_grant_def manages_def dest!: mem_row_put dest: out)
qed

section \<open>Witnesses\<close>

text \<open>
  User 1 founds organization 10 with library 20, adds user 2 and grants it the library, user 1
  binds the document 30 of its own; then user 2 is removed and added again.
\<close>

definition demo_sharing :: sharing_env where
  "demo_sharing = \<lparr>se_enabled = True, se_publication = False, se_versions = False, se_model = ''m'',
     se_schema = \<lparr>has_document_indexes = False, has_document_versions = False\<rparr>\<rparr>"

definition demo_founded :: db where
  "demo_founded = empty_db\<lparr>
     users := [\<lparr>u_id = 1, u_name = ''a'', u_password_hash = [], u_role = RoleUser, u_active = True\<rparr>,
               \<lparr>u_id = 2, u_name = ''b'', u_password_hash = [], u_role = RoleUser, u_active = True\<rparr>],
     documents := [\<lparr>d_id = 30, d_user = 1, d_name = ''d'', d_org = None, d_file_type = ''txt'', d_file_path = ''p'',
       d_content_hash = ''h'', d_fingerprint = ''f'', d_size = None, d_status = DocReady, d_chunk_count = 1,
       d_embedding_model = ''m'', d_error = None, d_metadata = [], d_created = 0\<rparr>]\<rparr>"

definition demo_found :: db where
  "demo_found = demo_founded\<lparr>orgs := [\<lparr>o_id = 10, o_name = ''o'', o_owner = 1, o_archived = None\<rparr>],
     members := [\<lparr>m_org = 10, m_user = 1, m_role = Owner\<rparr>]\<rparr>"

definition demo_joined :: db where
  "demo_joined = demo_found\<lparr>kbs := [\<lparr>kb_id = 20, kb_org = 10, kb_name = ''l''\<rparr>],
     members := [\<lparr>m_org = 10, m_user = 1, m_role = Owner\<rparr>, \<lparr>m_org = 10, m_user = 2, m_role = Member\<rparr>]\<rparr>"

definition demo_shared :: db where
  "demo_shared = demo_joined\<lparr>grants := [\<lparr>g_kb = 20, g_user = 2, g_org = 10, g_role = Viewer\<rparr>],
     kdocs := [\<lparr>kd_kb = 20, kd_document = 30, kd_series = 30, kd_current = True\<rparr>]\<rparr>"

definition demo_removed :: db where
  "demo_removed = demo_shared\<lparr>members := [\<lparr>m_org = 10, m_user = 1, m_role = Owner\<rparr>], grants := []\<rparr>"

definition demo_rejoined :: db where
  "demo_rejoined = demo_shared\<lparr>grants := []\<rparr>"

lemmas demo_sharing_defs = demo_sharing_def demo_founded_def demo_found_def demo_joined_def demo_shared_def
  demo_removed_def demo_rejoined_def empty_db_def

lemmas sharing_eval = transaction_def committed_def sharing_on_def row_insert_def row_get_def row_put_def row_del_def
  workspace_member_def org_live_def not_found_def manages_def org_admin_def library_access_def library_admin_def
  get_library_def get_grant_def membership_def has_role_def member_role_of_def put_member_def drop_member_def
  put_grant_def grant_role_of_def

lemma demo_sharing_steps:
  "create_organization demo_sharing 10 1 ''o'' demo_founded =
     (Inr \<lparr>o_id = 10, o_name = ''o'', o_owner = 1, o_archived = None\<rparr>, demo_found)"
  "create_library demo_sharing 20 1 10 ''l'' demo_found =
     (Inr \<lparr>kb_id = 20, kb_org = 10, kb_name = ''l''\<rparr>, demo_found\<lparr>kbs := [\<lparr>kb_id = 20, kb_org = 10, kb_name = ''l''\<rparr>]\<rparr>)"
  "set_member demo_sharing 1 10 ''b'' ''member'' (demo_found\<lparr>kbs := [\<lparr>kb_id = 20, kb_org = 10, kb_name = ''l''\<rparr>]\<rparr>) =
     (Inr (), demo_joined)"
  "set_grant demo_sharing 1 20 2 (Some ''viewer'') demo_joined =
     (Inr (), demo_joined\<lparr>grants := [\<lparr>g_kb = 20, g_user = 2, g_org = 10, g_role = Viewer\<rparr>]\<rparr>)"
  "bind_document demo_sharing 1 20 30 False None (demo_joined\<lparr>grants := [\<lparr>g_kb = 20, g_user = 2, g_org = 10, g_role = Viewer\<rparr>]\<rparr>) =
     (Inr (), demo_shared)"
  "remove_member demo_sharing 1 10 2 demo_shared = (Inr (), demo_removed)"
  "set_member demo_sharing 1 10 ''b'' ''member'' demo_removed = (Inr (), demo_rejoined)"
  by (simp_all add: demo_sharing_defs sharing_eval create_organization_def create_library_def set_member_def
      set_grant_def bind_document_def publish_binding_def remove_member_def Let_def document_of_def readable_index_ids_def
      document_series_def current_binding_def get_binding_def put_binding_def clear_current_bindings_def)

lemma demo_shared_reached: "no_sharing demo_founded" "rtranclp share_step demo_founded demo_shared"
proof -
  show "no_sharing demo_founded" by (simp add: no_sharing_def demo_founded_def empty_db_def)
  note s = share_step.Create_org [OF demo_sharing_steps(1)] share_step.Create_library [OF demo_sharing_steps(2)]
    share_step.Set_member [OF demo_sharing_steps(3)] share_step.Set_grant [OF demo_sharing_steps(4)]
    share_step.Bind [OF demo_sharing_steps(5)]
  show "rtranclp share_step demo_founded demo_shared"
    by (rule rtranclp_trans [OF _ r_into_rtranclp [where r = share_step, OF s(5)]])
      (intro converse_rtranclp_into_rtranclp [where r = share_step, OF s(1)] converse_rtranclp_into_rtranclp [where r = share_step, OF s(2)]
         converse_rtranclp_into_rtranclp [where r = share_step, OF s(3)] converse_rtranclp_into_rtranclp [where r = share_step, OF s(4)] rtranclp.rtrancl_refl)
qed

theorem sharing_invariant_witness: "sharing_inv demo_shared"
  by (rule sharing_invariant [OF demo_shared_reached])

lemma demo_scope: "question_scope demo_sharing 2 [20] None True (Some 10) demo_shared = Inr [(30, 1)]"
  by (auto simp: demo_sharing_defs sharing_eval question_scope_def workspace_libraries_def Let_def dedup_def
      bound_documents_def select_documents_def current_documents_def readable_index_ids_def searchable_def)

theorem scope_authorized_witness: "may_read 2 20 demo_shared \<and> d_user (hd (documents demo_shared)) = 1"
  using scope_authorized [OF demo_scope, of 30 1] by (auto simp: demo_sharing_defs)

theorem removed_member_loses_access_witness:
  "library_access 2 20 False demo_shared = Inr (\<lparr>kb_id = 20, kb_org = 10, kb_name = ''l''\<rparr>, Some Viewer) \<and>
   library_access 2 20 False demo_removed = Inl not_found \<and> library_access 2 20 False demo_rejoined = Inl not_found"
proof -
  have k: "get_library 20 demo_shared = Some \<lparr>kb_id = 20, kb_org = 10, kb_name = ''l''\<rparr>"
    by (simp add: demo_sharing_defs get_library_def)
  show ?thesis
    using removed_member_loses_access [OF demo_shared_reached k _ demo_sharing_steps(6), of False demo_sharing 1 "''b''" demo_rejoined]
      demo_sharing_steps(7)
    by (simp add: demo_sharing_defs sharing_eval)
qed

end
