(* ===== verification/OpenViking.thy ===== *)
theory OpenViking
  imports Identifiers Effects
begin

text \<open>
  The adapter of the memory service (\<open>app/manager/openviking.py\<close>): the identity a request is
  made under, what counts as a valid answer, the scope of an address, and the calls that the
  synchronization makes. The HTTP client is a parameter: it maps a request to an answer, and
  while it runs, the database may change under other requests. \<open>loads\<close> is \<open>json.loads\<close>.
\<close>

datatype http_method = HttpGet | HttpPost | HttpDelete

record http_request =
  hq_user :: uuid
  hq_generation :: int
  hq_method :: http_method
  hq_path :: string
  hq_background :: bool
  hq_json :: "json option"
  hq_params :: "(string \<times> string) list"

text \<open>\<open>Answer status redirect bytes body\<close>; the body is \<open>None\<close> when it is not JSON.\<close>

datatype http_answer = Broken | Answer nat bool nat "json option"

record ('s, 'w) memory_world =
  mw_draw :: "'w \<Rightarrow> (clock \<times> (nat \<Rightarrow> uuid)) \<times> 'w"
  mw_http :: "http_request \<Rightarrow> 's \<times> 'w \<Rightarrow> http_answer \<times> 's \<times> 'w"
  mw_loads :: "string \<Rightarrow> json option"

definition ov_unavailable :: exn where "ov_unavailable = AppError ''OPENVIKING_UNAVAILABLE'' 503"
definition ov_invalid :: exn where "ov_invalid = AppError ''OPENVIKING_RESPONSE_INVALID'' 502"
definition ov_scope :: exn where "ov_scope = AppError ''OPENVIKING_SCOPE_INVALID'' 502"

definition ov_identity :: "uuid \<Rightarrow> int \<Rightarrow> string" where
  "ov_identity uid gen = hex_digits 32 uid @ ''-g'' @ show_int gen"

definition envelope_ok :: "dict \<Rightarrow> bool" where
  "envelope_ok d = (get_or_null d ''status'' \<in> {JStr ''ok'', JStr ''accepted'', JStr ''skipped''} \<and> dict_get d ''result'' \<noteq> None)"

text \<open>The value of an answer; \<open>JNull\<close> is the \<open>None\<close> of a tolerated 404.\<close>

fun read_answer :: "bool \<Rightarrow> http_answer \<Rightarrow> json result" where
  "read_answer missing_ok Broken = Inl ov_unavailable"
| "read_answer missing_ok (Answer status redirect n body) =
     (if status = 404 \<and> missing_ok then Inr JNull
      else if 400 \<le> status \<or> redirect \<or> 1048576 < n then Inl ov_unavailable
      else (case body of
          Some (JObj d) \<Rightarrow> if envelope_ok d then Inr (get_or_null d ''result'') else Inl ov_unavailable
        | _ \<Rightarrow> Inl ov_unavailable))"

definition ov_request :: "('s, 'w) memory_world \<Rightarrow> bool \<Rightarrow> http_request \<Rightarrow> ('s, 'w, json) action" where
  "ov_request mw missing_ok q s = (case mw_http mw q s of (a, t) \<Rightarrow> (read_answer missing_ok a, t))"

section \<open>Addresses\<close>

definition ov_segments_ok :: "string \<Rightarrow> bool" where
  "ov_segments_ok s = (\<forall>p\<in>set (split_on CHR ''/'' (unquote s)). p \<notin> {''.'', ''..'', []})"

definition ov_prefix :: "uuid \<Rightarrow> int \<Rightarrow> string" where
  "ov_prefix uid gen = ''viking://user/'' @ ov_identity uid gen @ ''/memories/''"

definition memory_uri :: "uuid \<Rightarrow> int \<Rightarrow> json \<Rightarrow> string result" where
  "memory_uri uid gen uri = (case uri of
     JStr u \<Rightarrow>
       if 1024 < length u then Inl ov_scope
       else
         let p = ov_prefix uid gen;
             canonical = replace_first ''viking://~/memories/'' p u;
             suffix = remove_prefix p canonical
         in and_then (raise_if (\<not> prefix p canonical \<or> \<not> ov_segments_ok suffix \<or>
                CHR 0x5C \<in> set suffix \<or> CHR ''?'' \<in> set suffix \<or> CHR ''#'' \<in> set suffix \<or>
                \<not> (suffix = ''profile.md'' \<or> prefix ''preferences/'' suffix \<or> prefix ''entities/'' suffix)) ov_scope)
              (\<lambda>_. Inr canonical)
   | _ \<Rightarrow> Inl ov_scope)"

section \<open>Calls\<close>

fun finite_number :: "json \<Rightarrow> bool" where
  "finite_number (JInt i) = True"
| "finite_number (JBool b) = True"
| "finite_number (JFloat s) = (s \<notin> {''nan'', ''inf'', ''-inf''})"
| "finite_number _ = False"

fun read_hits :: "uuid \<Rightarrow> int \<Rightarrow> json list \<Rightarrow> (string \<times> json) list result" where
  "read_hits uid gen [] = Inr []"
| "read_hits uid gen (JObj item # rest) =
     and_then (memory_uri uid gen (get_or_null item ''uri'')) (\<lambda>uri.
     and_then (raise_if (\<not> finite_number (get_or_null item ''score'')) ov_invalid) (\<lambda>_.
     and_then (read_hits uid gen rest) (\<lambda>hits. Inr ((uri, get_or_null item ''score'') # hits))))"
| "read_hits uid gen (_ # rest) = Inl ov_invalid"

definition found_memories :: "json \<Rightarrow> json list result" where
  "found_memories v = (case v of
     JObj d \<Rightarrow> (case get_or_null d ''memories'' of JArr xs \<Rightarrow> Inr xs | _ \<Rightarrow> Inl ov_invalid)
   | _ \<Rightarrow> Inl ov_invalid)"

definition ov_find :: "('s, 'w) memory_world \<Rightarrow> uuid \<Rightarrow> int \<Rightarrow> string \<Rightarrow> nat \<Rightarrow> ('s, 'w, (string \<times> json) list) action" where
  "ov_find mw uid gen query top_k =
     bind_act (ov_request mw False \<lparr>hq_user = uid, hq_generation = gen, hq_method = HttpPost, hq_path = ''/api/v1/search/find'',
        hq_background = False, hq_json = Some (JObj [(''query'', JStr query), (''target_uri'', JStr ''viking://~/memories''),
          (''context_type'', JStr ''memory''), (''limit'', JInt (int top_k)), (''level'', JInt 2)]), hq_params = []\<rparr>) (\<lambda>v.
     lift_result (and_then (found_memories v) (\<lambda>xs. read_hits uid gen (take top_k xs))))"

definition diff_operations :: "('s, 'w) memory_world \<Rightarrow> json \<Rightarrow> dict result" where
  "diff_operations mw content = (case content of
     JStr text \<Rightarrow>
       (case mw_loads mw text of
          Some (JObj d) \<Rightarrow> (case get_or_null d ''operations'' of JObj ops \<Rightarrow> Inr ops | _ \<Rightarrow> Inl ov_invalid)
        | _ \<Rightarrow> Inl ov_invalid)
   | _ \<Rightarrow> Inl ov_invalid)"

definition ov_read_diff :: "('s, 'w) memory_world \<Rightarrow> uuid \<Rightarrow> int \<Rightarrow> json \<Rightarrow> ('s, 'w, dict) action" where
  "ov_read_diff mw uid gen archive =
     (let p = ''viking://user/'' @ ov_identity uid gen @ ''/sessions/'' in
      case archive of
        JStr a \<Rightarrow>
          if \<not> prefix p a \<or> \<not> ov_segments_ok (drop (length p) a) then raising ov_scope
          else
            bind_act (ov_request mw False \<lparr>hq_user = uid, hq_generation = gen, hq_method = HttpGet,
               hq_path = ''/api/v1/content/read'', hq_background = True, hq_json = None,
               hq_params = [(''uri'', rev (dropWhile (\<lambda>c. c = CHR ''/'') (rev a)) @ ''/memory_diff.json'')]\<rparr>) (\<lambda>content.
            lift_result (diff_operations mw content))
      | _ \<Rightarrow> raising ov_scope)"

definition ov_remove :: "('s, 'w) memory_world \<Rightarrow> uuid \<Rightarrow> int \<Rightarrow> json \<Rightarrow> ('s, 'w, json) action" where
  "ov_remove mw uid gen uri =
     bind_act (lift_result (if truthy uri then memory_uri uid gen uri else Inr ''viking://~/memories'')) (\<lambda>target.
     ov_request mw True \<lparr>hq_user = uid, hq_generation = gen, hq_method = HttpDelete, hq_path = ''/api/v1/fs'',
       hq_background = True, hq_json = None, hq_params = [(''uri'', target), (''recursive'', ''true'')]\<rparr>)"

definition ov_remove_session :: "('s, 'w) memory_world \<Rightarrow> uuid \<Rightarrow> int \<Rightarrow> uuid \<Rightarrow> ('s, 'w, json) action" where
  "ov_remove_session mw uid gen jid =
     ov_request mw True \<lparr>hq_user = uid, hq_generation = gen, hq_method = HttpDelete,
       hq_path = ''/api/v1/sessions/rag-'' @ uuid_str jid, hq_background = True, hq_json = None, hq_params = []\<rparr>"

section \<open>Lemmas\<close>

text \<open>An accepted address lies in the memories of the user and generation it was accepted for.\<close>

lemma memory_uri_scope:
  assumes "memory_uri uid gen v = Inr uri"
  shows "prefix (ov_prefix uid gen) uri \<and> ov_segments_ok (drop (length (ov_prefix uid gen)) uri)"
  using assms by (auto simp: memory_uri_def result_simps remove_prefix_def Let_def split: json.splits if_splits)

text \<open>What the client does to the database carries over to every call.\<close>

lemma act_keeps_request:
  assumes "\<And>q s. R (fst s) (fst (snd (mw_http mw q s)))"
  shows "act_keeps R (ov_request mw missing_ok q)"
  using assms by (auto simp: act_keeps_def ov_request_def split: prod.splits) (metis fst_conv snd_conv)

end
