(* ===== verification/AutoMemory.thy ===== *)
theory AutoMemory
  imports OpenViking
begin

text \<open>
  Automatic memory (\<open>app/service/automatic_memory.py\<close> with its queries in
  \<open>app/dao/postgres/automatic_memory.py\<close>): a user's consent and its generation, the local copies
  of what the memory service extracted, and the durable jobs that capture, delete and purge.
  The state is the chat database, which these operations only read, and the memory tables.
\<close>

record memory_state =
  chat_db :: db
  mem_db :: memory_db

record auto_env =
  ae_enabled :: bool
  ae_top_k :: nat
  ae_poll :: time
  ae_task_timeout :: time
  ae_sha256 :: "string \<Rightarrow> string"

definition seconds :: "int \<Rightarrow> time" where
  "seconds n = n * 1000000"

definition auto_on :: "auto_env \<Rightarrow> unit result" where
  "auto_on e = raise_if (\<not> ae_enabled e) (AppError ''AUTOMATIC_MEMORY_DISABLED'' 503)"

section \<open>Queries\<close>

abbreviation consent_of :: "uuid \<Rightarrow> memory_state \<Rightarrow> memory_settings option" where
  "consent_of uid s \<equiv> row_get ms_user uid (consents (mem_db s))"

definition set_mem :: "memory_db \<Rightarrow> memory_state \<Rightarrow> memory_state" where
  "set_mem m s = s\<lparr>mem_db := m\<rparr>"

definition put_consent :: "memory_settings \<Rightarrow> memory_state \<Rightarrow> memory_state" where
  "put_consent c s = set_mem ((mem_db s)\<lparr>consents := row_put ms_user c (consents (mem_db s))\<rparr>) s"

text \<open>\<open>settings(create=True)\<close>: the first row of a user says no.\<close>

definition ensure_consent :: "uuid \<Rightarrow> memory_state \<Rightarrow> (memory_settings \<times> memory_state) result" where
  "ensure_consent uid s = (case consent_of uid s of
     Some c \<Rightarrow> Inr (c, s)
   | None \<Rightarrow>
       and_then (raise_if (get_user uid (chat_db s) = None) (OtherError ''IntegrityError'')) (\<lambda>_.
       let c = \<lparr>ms_user = uid, ms_enabled = False, ms_generation = 1, ms_enabled_since = None\<rparr>
       in Inr (c, put_consent c s)))"

definition auto_rows :: "uuid \<Rightarrow> int \<Rightarrow> bool \<Rightarrow> memory_state \<Rightarrow> auto_memory list" where
  "auto_rows uid gen include_deleted s =
     sort_key (\<lambda>m. - am_updated m) (sort_key am_id (filter (\<lambda>m. am_user m = uid \<and> am_generation m = gen \<and>
        (include_deleted \<or> am_state m = AutoReady)) (auto_memories (mem_db s))))"

definition auto_row :: "uuid \<Rightarrow> uuid \<Rightarrow> memory_state \<Rightarrow> auto_memory option" where
  "auto_row uid mid s = find (\<lambda>m. am_user m = uid \<and> am_id m = mid) (auto_memories (mem_db s))"

definition source_time :: "uuid \<Rightarrow> uuid option \<Rightarrow> memory_state \<Rightarrow> time option" where
  "source_time uid mid s = (case mid of None \<Rightarrow> None
     | Some i \<Rightarrow> map_option msg_created (find (\<lambda>m. msg_user m = uid \<and> msg_id m = i) (messages (chat_db s))))"

definition capture_jobs :: "uuid \<Rightarrow> int \<Rightarrow> memory_state \<Rightarrow> sync_job list" where
  "capture_jobs uid gen s = sort_key sj_created (sort_key sj_id (filter (\<lambda>j. sj_user j = uid \<and> sj_generation j = gen \<and>
     sj_kind j = SyncCapture) (sync_jobs (mem_db s))))"

definition live_sync :: "sync_state \<Rightarrow> bool" where
  "live_sync st = (st = SyncPending \<or> st = SyncRunning \<or> st = SyncWaiting)"

definition job_counts :: "uuid \<Rightarrow> int \<Rightarrow> memory_state \<Rightarrow> nat \<times> nat" where
  "job_counts uid gen s =
     (let js = filter (\<lambda>j. sj_user j = uid) (sync_jobs (mem_db s))
      in (length (filter (\<lambda>j. live_sync (sj_state j)) js),
          length (filter (\<lambda>j. (sj_state j = SyncFailed \<or> sj_state j = SyncUncertain) \<and>
            (sj_generation j = gen \<or> sj_kind j \<noteq> SyncCapture)) js)))"

definition put_sync :: "sync_job \<Rightarrow> memory_state \<Rightarrow> memory_state" where
  "put_sync j s = set_mem ((mem_db s)\<lparr>sync_jobs := row_put sj_id j (sync_jobs (mem_db s))\<rparr>) s"

definition sync_receipt_of :: "uuid \<Rightarrow> int \<Rightarrow> string \<Rightarrow> memory_state \<Rightarrow> sync_job option" where
  "sync_receipt_of uid gen key s =
     find (\<lambda>j. sj_user j = uid \<and> sj_generation j = gen \<and> sj_dedup j = key) (sync_jobs (mem_db s))"

definition enqueue_sync ::
    "uuid \<Rightarrow> time \<Rightarrow> uuid \<Rightarrow> int \<Rightarrow> sync_kind \<Rightarrow> string \<Rightarrow> dict \<Rightarrow> memory_state \<Rightarrow> memory_state result" where
  "enqueue_sync jid now uid gen kind key receipt s = (case sync_receipt_of uid gen key s of
     Some j \<Rightarrow> Inr s
   | None \<Rightarrow>
       and_then (row_insert sj_id \<lparr>sj_id = jid, sj_user = uid, sj_generation = gen, sj_dedup = key, sj_kind = kind,
           sj_state = SyncPending, sj_receipt = receipt, sj_owner = None, sj_lease = None, sj_available = now,
           sj_attempts = 0, sj_error = None, sj_created = now\<rparr> (sync_jobs (mem_db s))) (\<lambda>rows.
         Inr (set_mem ((mem_db s)\<lparr>sync_jobs := rows\<rparr>) s)))"

text \<open>An \<open>UPDATE\<close> of a memory is issued, and its time set, when a column changes.\<close>

definition touched :: "time \<Rightarrow> auto_memory \<Rightarrow> auto_memory \<Rightarrow> auto_memory" where
  "touched now old new = (if new = old then old else new\<lparr>am_updated := now\<rparr>)"

definition change_memories :: "clock \<Rightarrow> (auto_memory \<Rightarrow> bool) \<Rightarrow> (auto_memory \<Rightarrow> auto_memory) \<Rightarrow> memory_state \<Rightarrow> memory_state" where
  "change_memories now p f s = set_mem ((mem_db s)\<lparr>auto_memories :=
     map (\<lambda>(i, m). if p m then touched (now i) m (f m) else m) (enumerate 0 (auto_memories (mem_db s)))\<rparr>) s"

text \<open>The clock readings left for the rows of one statement, after those a transaction names.\<close>

definition row_clock :: "clock \<Rightarrow> clock" where
  "row_clock clk i = clk (i + 3)"

definition erased :: "auto_state \<Rightarrow> auto_memory \<Rightarrow> auto_memory" where
  "erased st m = m\<lparr>am_state := st, am_content := []\<rparr>"

section \<open>Consent\<close>

text \<open>\<open>_clear\<close>: a new generation, the memories of the old one erased, and their purge queued.\<close>

definition clear_generation :: "clock \<Rightarrow> (nat \<Rightarrow> uuid) \<Rightarrow> memory_settings \<Rightarrow> memory_state \<Rightarrow> (memory_settings \<times> memory_state) result" where
  "clear_generation clk ids c s =
     (let old = ms_generation c; uid = ms_user c;
          c' = c\<lparr>ms_generation := old + 1\<rparr>;
          s' = change_memories (row_clock clk) (\<lambda>m. am_user m = uid \<and> am_generation m = old) (erased AutoDeleting) s
      in and_then (enqueue_sync (ids 0) (clk 0) uid old SyncPurge ''purge'' [(''phase'', JStr ''new'')] s') (\<lambda>t.
           Inr (c', put_consent c' t)))"

record memory_status_view =
  sv_available :: bool
  sv_enabled :: bool
  sv_generation :: int
  sv_pending :: nat
  sv_failed :: nat

definition get_settings :: "auto_env \<Rightarrow> uuid \<Rightarrow> memory_state \<Rightarrow> memory_status_view" where
  "get_settings e uid s =
     (if \<not> ae_enabled e then \<lparr>sv_available = False, sv_enabled = False, sv_generation = 1, sv_pending = 0, sv_failed = 0\<rparr>
      else
        let row = consent_of uid s;
            gen = (case row of None \<Rightarrow> 1 | Some c \<Rightarrow> ms_generation c);
            n = job_counts uid gen s
        in \<lparr>sv_available = True, sv_enabled = (case row of None \<Rightarrow> False | Some c \<Rightarrow> ms_enabled c),
             sv_generation = gen, sv_pending = fst n, sv_failed = snd n\<rparr>)"

definition set_enabled :: "auto_env \<Rightarrow> uuid \<Rightarrow> bool \<Rightarrow> clock \<Rightarrow> (nat \<Rightarrow> uuid) \<Rightarrow> memory_state \<Rightarrow> (memory_state, unit) outcome" where
  "set_enabled e uid enabled clk ids =
     transaction (\<lambda>s.
       and_then (auto_on e) (\<lambda>_.
       and_then (ensure_consent uid s) (\<lambda>(c, s0).
         if ms_enabled c = enabled then committed () s
         else
           and_then (if enabled then Inr (c, s0) else clear_generation clk ids c s0) (\<lambda>(c1, s1).
             committed () (put_consent (c1\<lparr>ms_enabled := enabled,
               ms_enabled_since := (if enabled then Some (clk 1) else None)\<rparr>) s1)))))"

definition clear_memories :: "auto_env \<Rightarrow> uuid \<Rightarrow> clock \<Rightarrow> (nat \<Rightarrow> uuid) \<Rightarrow> memory_state \<Rightarrow> (memory_state, unit) outcome" where
  "clear_memories e uid clk ids =
     transaction (\<lambda>s.
       and_then (auto_on e) (\<lambda>_.
       and_then (ensure_consent uid s) (\<lambda>(c, s0).
       and_then (clear_generation clk ids c s0) (\<lambda>(c1, s1).
         committed () (put_consent (c1\<lparr>ms_enabled_since := (if ms_enabled c1 then Some (clk 1) else None)\<rparr>) s1)))))"

definition list_auto :: "auto_env \<Rightarrow> uuid \<Rightarrow> memory_state \<Rightarrow> auto_memory list" where
  "list_auto e uid s =
     (if \<not> ae_enabled e then []
      else (case consent_of uid s of None \<Rightarrow> [] | Some c \<Rightarrow> auto_rows uid (ms_generation c) False s))"

definition delete_auto :: "auto_env \<Rightarrow> uuid \<Rightarrow> uuid \<Rightarrow> clock \<Rightarrow> (nat \<Rightarrow> uuid) \<Rightarrow> memory_state \<Rightarrow> (memory_state, unit) outcome" where
  "delete_auto e uid mid clk ids =
     transaction (\<lambda>s.
       and_then (auto_on e) (\<lambda>_.
       and_then (require_row (auto_row uid mid s) not_found) (\<lambda>item.
       and_then (require_row (consent_of uid s) not_found) (\<lambda>c.
       and_then (raise_if (am_generation item \<noteq> ms_generation c) not_found) (\<lambda>_.
       and_then (enqueue_sync (ids 0) (clk 0) uid (am_generation item) SyncDelete (''delete/'' @ uuid_str mid)
           [(''phase'', JStr ''new''), (''uri'', JStr (am_uri item)), (''memory_id'', JStr (uuid_str mid))]
           (change_memories (row_clock clk) (\<lambda>m. am_id m = mid) (erased AutoDeleting) s)) (\<lambda>t.
         committed () t))))))"

section \<open>Recall\<close>

record memory_hit =
  mh_id :: uuid
  mh_content :: string
  mh_version :: int
  mh_score :: json
  mh_asserted :: string

definition recall_generation :: "uuid \<Rightarrow> memory_state \<Rightarrow> int option" where
  "recall_generation uid s = (case consent_of uid s of
     None \<Rightarrow> None
   | Some c \<Rightarrow> if \<not> ms_enabled c \<or> auto_rows uid (ms_generation c) False s = [] then None else Some (ms_generation c))"

text \<open>The rows by address; every user, generation and address has one.\<close>

definition hit_of :: "uuid \<Rightarrow> memory_state \<Rightarrow> auto_memory \<Rightarrow> json \<Rightarrow> memory_hit" where
  "hit_of uid s m score = \<lparr>mh_id = am_id m, mh_content = take 12000 (am_content m), mh_version = am_version m, mh_score = score,
     mh_asserted = isoformat (case source_time uid (am_source_message m) s of None \<Rightarrow> am_updated m | Some t \<Rightarrow> t)\<rparr>"

definition recalled :: "uuid \<Rightarrow> int \<Rightarrow> (string \<times> json) list \<Rightarrow> memory_state \<Rightarrow> memory_hit list" where
  "recalled uid gen hits s = (case consent_of uid s of
     None \<Rightarrow> []
   | Some c \<Rightarrow>
       if \<not> ms_enabled c \<or> ms_generation c \<noteq> gen then []
       else List.map_filter (\<lambda>(uri, score). map_option (\<lambda>m. hit_of uid s m score)
              (find (\<lambda>m. am_uri m = uri) (rev (auto_rows uid gen False s)))) hits)"

definition search_auto :: "auto_env \<Rightarrow> (memory_state, 'w) memory_world \<Rightarrow> uuid \<Rightarrow> string
    \<Rightarrow> (memory_state, 'w, memory_hit list \<times> string list) action" where
  "search_auto e mw uid query =
     (if \<not> ae_enabled e then ret ([], [])
      else bind_act (read_db (\<lambda>s. Inr (recall_generation uid s))) (\<lambda>g. case g of
        None \<Rightarrow> ret ([], [])
      | Some gen \<Rightarrow>
          bind_act (except_act (bind_act (ov_find mw uid gen query (ae_top_k e)) (\<lambda>hits. ret (Inr hits)))
             (\<lambda>x. case exn_code x of None \<Rightarrow> raising x | Some code \<Rightarrow> ret (Inl code))) (\<lambda>found. case found of
            Inl code \<Rightarrow> ret ([], [code])
          | Inr hits \<Rightarrow> read_db (\<lambda>s. Inr (recalled uid gen hits s, [])))))"

text \<open>The memories an answer cites, when it is about to be committed.\<close>

fun validate_citations :: "auto_env \<Rightarrow> uuid \<Rightarrow> dict list \<Rightarrow> memory_state \<Rightarrow> unit result" where
  "validate_citations e uid [] s = Inr ()"
| "validate_citations e uid (cit # rest) s =
     (if \<not> ae_enabled e then Inr ()
      else if get_or_null cit ''type'' \<noteq> JStr ''memory'' then validate_citations e uid rest s
      else (case dict_get cit ''memory_id'' of
          None \<Rightarrow> Inl (OtherError ''KeyError'')
        | Some v \<Rightarrow>
            and_then (require_row (Option.bind (as_str v) parse_uuid) (OtherError ''ValueError'')) (\<lambda>mid.
            and_then (raise_if (case auto_row uid mid s of
                None \<Rightarrow> False
              | Some m \<Rightarrow> (case consent_of uid s of
                    None \<Rightarrow> True
                  | Some c \<Rightarrow> \<not> ms_enabled c \<or> am_generation m \<noteq> ms_generation c \<or> am_state m \<noteq> AutoReady))
                (AppError ''MEMORY_SCOPE_CHANGED'' 409)) (\<lambda>_.
              validate_citations e uid rest s))))"

section \<open>Jobs\<close>

text \<open>\<open>enqueue_capture\<close>, in the transaction that commits a successful answer.\<close>

definition capture_allowed :: "uuid \<Rightarrow> uuid \<Rightarrow> uuid \<Rightarrow> memory_settings \<Rightarrow> memory_state \<Rightarrow> bool" where
  "capture_allowed uid sid mid c s =
     (case (get_session sid (chat_db s), get_message mid (chat_db s)) of
        (Some parent, Some source) \<Rightarrow>
          cs_user parent = uid \<and> cs_kind parent = Chat \<and> cs_org parent = None \<and> msg_user source = uid \<and>
          msg_session source = cs_id parent \<and> msg_role source = MsgUser \<and>
          (case ms_enabled_since c of None \<Rightarrow> False | Some t \<Rightarrow> t \<le> msg_created source)
      | _ \<Rightarrow> False)"

definition enqueue_capture ::
    "uuid \<Rightarrow> uuid option \<Rightarrow> bool \<Rightarrow> uuid \<Rightarrow> uuid \<Rightarrow> uuid \<Rightarrow> clock \<Rightarrow> (nat \<Rightarrow> uuid) \<Rightarrow> memory_state \<Rightarrow> memory_state result" where
  "enqueue_capture uid org shared_only sid mid assistant clk ids s = (case consent_of uid s of
     None \<Rightarrow> Inr s
   | Some c \<Rightarrow>
       if \<not> ms_enabled c \<or> org \<noteq> None \<or> shared_only \<or> \<not> capture_allowed uid sid mid c s then Inr s
       else enqueue_sync (ids 0) (clk 0) uid (ms_generation c) SyncCapture (uuid_str mid)
         [(''session_id'', JStr (uuid_str sid)), (''source_message_id'', JStr (uuid_str mid)),
          (''assistant_id'', JStr (uuid_str assistant)), (''phase'', JStr ''new'')] s)"

text \<open>\<open>UUID(receipt[key])\<close>.\<close>

definition receipt_uuid :: "dict \<Rightarrow> string \<Rightarrow> uuid result" where
  "receipt_uuid receipt key =
     and_then (require_row (dict_get receipt key) (OtherError ''KeyError'')) (\<lambda>v.
       require_row (Option.bind (as_str v) parse_uuid) (OtherError ''ValueError''))"

definition capture_source :: "sync_job \<Rightarrow> memory_state \<Rightarrow> string option result" where
  "capture_source job s =
     and_then (receipt_uuid (sj_receipt job) ''source_message_id'') (\<lambda>mid.
     and_then (receipt_uuid (sj_receipt job) ''assistant_id'') (\<lambda>aid.
     and_then (receipt_uuid (sj_receipt job) ''session_id'') (\<lambda>sid.
       Inr (case (get_message mid (chat_db s), get_message aid (chat_db s), get_session sid (chat_db s)) of
          (Some source, Some assistant, Some parent) \<Rightarrow>
            if cs_kind parent = Chat \<and> cs_org parent = None \<and> msg_user source = sj_user job \<and> msg_user assistant = sj_user job \<and>
               cs_user parent = sj_user job \<and> msg_session source = cs_id parent \<and> msg_session assistant = cs_id parent \<and>
               msg_role source = MsgUser \<and> msg_role assistant = MsgAssistant \<and> msg_content assistant \<noteq> []
            then Some (msg_content source) else None
        | _ \<Rightarrow> None))))"

definition sync_before :: "sync_job \<Rightarrow> sync_job \<Rightarrow> bool" where
  "sync_before a b = (sj_created a < sj_created b \<or> sj_created a = sj_created b \<and> sj_id a < sj_id b)"

definition sync_claimable :: "time \<Rightarrow> memory_state \<Rightarrow> sync_job \<Rightarrow> bool" where
  "sync_claimable now s j =
     (live_sync (sj_state j) \<and> sj_available j \<le> now \<and> (case sj_lease j of None \<Rightarrow> True | Some t \<Rightarrow> t < now) \<and>
      \<not> list_ex (\<lambda>i. sj_user i = sj_user j \<and> sj_generation i = sj_generation j \<and> live_sync (sj_state i) \<and> sync_before i j)
          (sync_jobs (mem_db s)))"

definition claim_sync :: "clock \<Rightarrow> (nat \<Rightarrow> uuid) \<Rightarrow> memory_state \<Rightarrow> (memory_state, sync_job option) outcome" where
  "claim_sync clk ids =
     transaction (\<lambda>s.
       case sort_key sj_created (sort_key sj_id (filter (sync_claimable (clk 0) s) (sync_jobs (mem_db s)))) of
         [] \<Rightarrow> committed None s
       | j # _ \<Rightarrow>
           let j' = j\<lparr>sj_owner := Some (ids 0), sj_lease := Some (clk 0 + seconds 180), sj_state := SyncRunning\<rparr>
           in committed (Some j') (put_sync j' s))"

definition lease_lost :: exn where
  "lease_lost = AppError ''MEMORY_LEASE_LOST'' 409"

definition owned_sync :: "time \<Rightarrow> sync_job \<Rightarrow> memory_state \<Rightarrow> sync_job result" where
  "owned_sync now job s =
     and_then (require_row (find (\<lambda>j. sj_id j = sj_id job \<and> sj_owner j = sj_owner job \<and> sj_state j = SyncRunning)
         (sync_jobs (mem_db s))) lease_lost) (\<lambda>j.
     and_then (raise_if (case sj_lease j of None \<Rightarrow> True | Some t \<Rightarrow> t \<le> now) lease_lost) (\<lambda>_. Inr j))"

definition progress_sync ::
    "auto_env \<Rightarrow> sync_job \<Rightarrow> dict \<Rightarrow> sync_state \<Rightarrow> string option \<Rightarrow> clock \<Rightarrow> (nat \<Rightarrow> uuid) \<Rightarrow> memory_state \<Rightarrow> (memory_state, unit) outcome" where
  "progress_sync e job receipt st err clk ids =
     transaction (\<lambda>s.
       and_then (owned_sync (clk 0) job s) (\<lambda>j.
         let j1 = j\<lparr>sj_receipt := receipt, sj_state := st, sj_error := err\<rparr>
         in committed () (put_sync (if st = SyncRunning then j1\<lparr>sj_lease := Some (clk 1 + seconds 180)\<rparr>
              else j1\<lparr>sj_lease := None, sj_available := clk 1 + ae_poll e\<rparr>) s)))"

section \<open>Publication of what was extracted\<close>

definition uri_row :: "uuid \<Rightarrow> int \<Rightarrow> string \<Rightarrow> memory_state \<Rightarrow> auto_memory option" where
  "uri_row uid gen uri s =
     find (\<lambda>m. am_user m = uid \<and> am_generation m = gen \<and> am_uri m = uri) (auto_memories (mem_db s))"

definition change_text :: "dict \<Rightarrow> string result" where
  "change_text change = (case get_or_null change ''after'' of
     JStr text \<Rightarrow> and_then (raise_if (strip text = [] \<or> 48000 < length text) ov_invalid) (\<lambda>_. Inr text)
   | _ \<Rightarrow> Inl ov_invalid)"

definition add_memory :: "auto_env \<Rightarrow> sync_job \<Rightarrow> uuid \<Rightarrow> time \<Rightarrow> string \<Rightarrow> string \<Rightarrow> memory_state \<Rightarrow> memory_state result" where
  "add_memory e job mid now uri text s =
     and_then (receipt_uuid (sj_receipt job) ''session_id'') (\<lambda>sid.
     and_then (receipt_uuid (sj_receipt job) ''source_message_id'') (\<lambda>src.
     and_then (row_insert am_id \<lparr>am_id = mid, am_user = sj_user job, am_generation = sj_generation job, am_uri = uri,
         am_content = text, am_hash = ae_sha256 e text, am_version = 1, am_state = AutoReady,
         am_source_session = Some sid, am_source_message = Some src, am_updated = now\<rparr> (auto_memories (mem_db s))) (\<lambda>rows.
       Inr (set_mem ((mem_db s)\<lparr>auto_memories := rows\<rparr>) s))))"

definition revise_memory :: "auto_env \<Rightarrow> sync_job \<Rightarrow> clock \<Rightarrow> auto_memory \<Rightarrow> string \<Rightarrow> memory_state \<Rightarrow> memory_state result" where
  "revise_memory e job now m text s =
     (if am_hash m = ae_sha256 e text then Inr s
      else
        and_then (receipt_uuid (sj_receipt job) ''session_id'') (\<lambda>sid.
        and_then (receipt_uuid (sj_receipt job) ''source_message_id'') (\<lambda>src.
          Inr (change_memories now (\<lambda>x. am_id x = am_id m) (\<lambda>x. x\<lparr>am_content := text, am_hash := ae_sha256 e text,
             am_version := am_version x + 1, am_source_session := Some sid, am_source_message := Some src\<rparr>) s))))"

text \<open>
  One change. \<open>fresh\<close> are the rows added by this transaction: until the flush at its commit, the
  attribute \<open>state\<close> of such a row is \<open>None\<close>, so that a later change finds it not ready.
\<close>

definition apply_change ::
    "auto_env \<Rightarrow> sync_job \<Rightarrow> bool \<Rightarrow> clock \<Rightarrow> uuid \<Rightarrow> json \<Rightarrow> uuid list \<times> memory_state \<Rightarrow> (uuid list \<times> memory_state) result" where
  "apply_change e job deletes now mid change st = (case change of
     JObj c \<Rightarrow>
       and_then (memory_uri (sj_user job) (sj_generation job) (get_or_null c ''uri'')) (\<lambda>uri.
         case uri_row (sj_user job) (sj_generation job) uri (snd st) of
           None \<Rightarrow>
             if deletes then Inr st
             else and_then (change_text c) (\<lambda>text.
               and_then (add_memory e job mid (now 0) uri text (snd st)) (\<lambda>t. Inr (mid # fst st, t)))
         | Some m \<Rightarrow>
             if deletes then Inr (fst st, change_memories now (\<lambda>x. am_id x = am_id m) (erased AutoDeleted) (snd st))
             else if am_id m \<in> set (fst st) \<or> am_state m \<noteq> AutoReady then Inr st
             else and_then (change_text c) (\<lambda>text.
               and_then (revise_memory e job now m text (snd st)) (\<lambda>t. Inr (fst st, t))))
   | _ \<Rightarrow> Inl ov_invalid)"

text \<open>Every change draws an identifier of its own; clock readings are of the whole transaction.\<close>

fun apply_changes ::
    "auto_env \<Rightarrow> sync_job \<Rightarrow> bool \<Rightarrow> clock \<Rightarrow> (nat \<Rightarrow> uuid) \<Rightarrow> json list \<Rightarrow> uuid list \<times> memory_state \<Rightarrow> (uuid list \<times> memory_state) result" where
  "apply_changes e job deletes now ids [] st = Inr st"
| "apply_changes e job deletes now ids (c # cs) st =
     and_then (apply_change e job deletes now (ids 0) c st) (\<lambda>t. apply_changes e job deletes now (\<lambda>i. ids (i + 1)) cs t)"

definition changes_of :: "dict \<Rightarrow> string \<Rightarrow> json list result" where
  "changes_of ops action = (case dict_get ops action of
     None \<Rightarrow> Inr []
   | Some (JArr xs) \<Rightarrow> and_then (raise_if (200 < length xs) ov_invalid) (\<lambda>_. Inr xs)
   | Some _ \<Rightarrow> Inl ov_invalid)"

definition apply_operations :: "auto_env \<Rightarrow> sync_job \<Rightarrow> clock \<Rightarrow> (nat \<Rightarrow> uuid) \<Rightarrow> dict \<Rightarrow> memory_state \<Rightarrow> memory_state result" where
  "apply_operations e job now ids ops s =
     and_then (changes_of ops ''adds'') (\<lambda>adds.
     and_then (apply_changes e job False now ids adds ([], s)) (\<lambda>s1.
     and_then (changes_of ops ''updates'') (\<lambda>updates.
     and_then (apply_changes e job False now (\<lambda>i. ids (i + 200)) updates s1) (\<lambda>s2.
     and_then (changes_of ops ''deletes'') (\<lambda>deletes.
     and_then (apply_changes e job True now (\<lambda>i. ids (i + 400)) deletes s2) (\<lambda>s3. Inr (snd s3)))))))"

definition settle_sync :: "sync_state \<Rightarrow> sync_job \<Rightarrow> memory_state \<Rightarrow> memory_state" where
  "settle_sync st j s = put_sync (j\<lparr>sj_state := st, sj_lease := None\<rparr>) s"

definition consent_holds :: "sync_job \<Rightarrow> memory_state \<Rightarrow> bool" where
  "consent_holds job s = (case consent_of (sj_user job) s of None \<Rightarrow> False
     | Some c \<Rightarrow> ms_enabled c \<and> ms_generation c = sj_generation job)"

definition publish_sync :: "auto_env \<Rightarrow> sync_job \<Rightarrow> dict \<Rightarrow> clock \<Rightarrow> (nat \<Rightarrow> uuid) \<Rightarrow> memory_state \<Rightarrow> (memory_state, unit) outcome" where
  "publish_sync e job ops clk ids =
     transaction (\<lambda>s.
       and_then (owned_sync (clk 0) job s) (\<lambda>j.
         if \<not> consent_holds job s then committed () (settle_sync SyncCancelled j s)
         else
           and_then (apply_operations e job (row_clock clk) ids ops s) (\<lambda>t.
             committed () (settle_sync SyncSucceeded j t))))"

definition finish_cleanup :: "sync_job \<Rightarrow> clock \<Rightarrow> (nat \<Rightarrow> uuid) \<Rightarrow> memory_state \<Rightarrow> (memory_state, unit) outcome" where
  "finish_cleanup job clk ids =
     transaction (\<lambda>s.
       and_then (owned_sync (clk 0) job s) (\<lambda>j.
       and_then (if sj_kind job = SyncPurge \<or> auto_rows (sj_user job) (sj_generation job) True s = [] then Inr JNull
           else require_row (dict_get (sj_receipt job) ''uri'') (OtherError ''KeyError'')) (\<lambda>uri.
         committed () (settle_sync SyncSucceeded j
           (change_memories (row_clock clk) (\<lambda>m. am_user m = sj_user job \<and> am_generation m = sj_generation job \<and>
              (sj_kind job = SyncPurge \<or> JStr (am_uri m) = uri)) (erased AutoDeleted) s)))))"

definition mark_source_removed :: "sync_job \<Rightarrow> sync_job \<Rightarrow> clock \<Rightarrow> (nat \<Rightarrow> uuid) \<Rightarrow> memory_state \<Rightarrow> (memory_state, unit) outcome" where
  "mark_source_removed job capture clk ids =
     transaction (\<lambda>s.
       and_then (owned_sync (clk 0) job s) (\<lambda>_.
       and_then (require_row (find (\<lambda>j. sj_id j = sj_id capture \<and> sj_user j = sj_user capture \<and>
            sj_generation j = sj_generation capture \<and> sj_kind j = SyncCapture) (sync_jobs (mem_db s))) (OtherError ''AttributeError'')) (\<lambda>row.
         committed () (put_sync (row\<lparr>sj_receipt := dict_set ''source_removed'' (JBool True) (sj_receipt row)\<rparr>) s))))"

definition fail_sync :: "sync_job \<Rightarrow> string \<Rightarrow> clock \<Rightarrow> (nat \<Rightarrow> uuid) \<Rightarrow> memory_state \<Rightarrow> (memory_state, unit) outcome" where
  "fail_sync job code clk ids =
     transaction (\<lambda>s.
       and_then (owned_sync (clk 0) job s) (\<lambda>j.
         let n = sj_attempts j + 1;
             uncertain = get_or_null (sj_receipt j) ''phase'' \<in> {JStr ''appending'', JStr ''committing''} \<or> code = ''MEMORY_CLEANUP_UNCERTAIN''
         in committed () (put_sync (j\<lparr>sj_attempts := n,
              sj_state := (if uncertain then SyncUncertain else if 3 \<le> n then SyncFailed else SyncPending),
              sj_error := Some code, sj_lease := None, sj_available := clk 1 + seconds (2 ^ nat n)\<rparr>) s)))"

end
