(* ===== verification/AutoMemoryWorker.thy ===== *)
theory AutoMemoryWorker
  imports AutoMemory
begin

text \<open>
  The synchronization worker of automatic memory (\<open>run_once\<close>, \<open>_capture\<close> and \<open>_cleanup\<close> of
  \<open>app/service/automatic_memory.py\<close>): its transactions and the calls of the memory service
  between them. The receipt of a job records how far it got; a call whose outcome is unknown is
  not made a second time.
\<close>

type_synonym 'w mem_world = "(memory_state, 'w) memory_world"

definition save_sync ::
    "auto_env \<Rightarrow> 'w mem_world \<Rightarrow> sync_job \<Rightarrow> dict \<Rightarrow> sync_state \<Rightarrow> string option \<Rightarrow> (memory_state, 'w, unit) action" where
  "save_sync e mw job receipt st err = transact (mw_draw mw) (progress_sync e job receipt st err)"

definition publish_act :: "auto_env \<Rightarrow> 'w mem_world \<Rightarrow> sync_job \<Rightarrow> dict \<Rightarrow> (memory_state, 'w, unit) action" where
  "publish_act e mw job ops = transact (mw_draw mw) (publish_sync e job ops)"

definition sync_call ::
    "'w mem_world \<Rightarrow> sync_job \<Rightarrow> bool \<Rightarrow> http_method \<Rightarrow> string \<Rightarrow> json option \<Rightarrow> (memory_state, 'w, json) action" where
  "sync_call mw job missing_ok m path body = ov_request mw missing_ok \<lparr>hq_user = sj_user job, hq_generation = sj_generation job,
     hq_method = m, hq_path = path, hq_background = True, hq_json = body, hq_params = []\<rparr>"

section \<open>Capture\<close>

definition remote_session :: "sync_job \<Rightarrow> string" where
  "remote_session job = ''rag-'' @ uuid_str (sj_id job)"

definition session_request :: "sync_job \<Rightarrow> json" where
  "session_request job = JObj [(''session_id'', JStr (remote_session job)),
     (''memory_policy'', JObj [(''memory_types'', JArr [JStr ''profile'', JStr ''preferences'', JStr ''entities'']),
        (''self'', JObj [(''enabled'', JBool True)]), (''peer'', JObj [(''enabled'', JBool False)])]),
     (''auto_commit_policy'', JObj [(''pending_token_threshold'', JInt 1000000), (''message_count_threshold'', JInt 1000),
        (''idle_timeout_seconds'', JInt 0)])]"

text \<open>Phase \<open>new\<close>: the session, the note that the message is on its way, the message.\<close>

definition append_message ::
    "auto_env \<Rightarrow> 'w mem_world \<Rightarrow> sync_job \<Rightarrow> dict \<Rightarrow> string \<Rightarrow> (memory_state, 'w, dict) action" where
  "append_message e mw job receipt content =
     (let path = ''/api/v1/sessions/'' @ remote_session job in
      bind_act (sync_call mw job True HttpGet path None) (\<lambda>existing.
      bind_act (if existing = JNull then sync_call mw job False HttpPost ''/api/v1/sessions'' (Some (session_request job)) else ret JNull) (\<lambda>_.
      bind_act (save_sync e mw job (dict_set ''phase'' (JStr ''appending'') receipt) SyncRunning None) (\<lambda>_.
      bind_act (sync_call mw job False HttpPost (path @ ''/messages'')
          (Some (JObj [(''role'', JStr ''user''), (''content'', JStr content)]))) (\<lambda>_.
      bind_act (save_sync e mw job (dict_set ''phase'' (JStr ''appended'') receipt) SyncRunning None) (\<lambda>_.
        ret (dict_set ''phase'' (JStr ''appended'') receipt)))))))"

text \<open>Phase \<open>appended\<close>: the note that the commit is on its way, the commit, its task.\<close>

definition committed_receipt :: "dict \<Rightarrow> dict \<Rightarrow> dict" where
  "committed_receipt receipt commit =
     dict_set ''archive_uri'' (get_or_null commit ''archive_uri'')
       (dict_set ''task_id'' (get_or_null commit ''task_id'') (dict_set ''phase'' (JStr ''waiting'') receipt))"

text \<open>The receipt to go on with, or \<open>None\<close> when the service had nothing to extract.\<close>

definition commit_message :: "auto_env \<Rightarrow> 'w mem_world \<Rightarrow> sync_job \<Rightarrow> dict \<Rightarrow> (memory_state, 'w, dict option) action" where
  "commit_message e mw job receipt =
     (let r1 = dict_set ''phase'' (JStr ''committing'') receipt in
      bind_act (save_sync e mw job r1 SyncRunning None) (\<lambda>_.
      bind_act (sync_call mw job False HttpPost (''/api/v1/sessions/'' @ remote_session job @ ''/commit'') (Some (JObj []))) (\<lambda>v.
        case v of
          JObj commit \<Rightarrow>
            let r2 = committed_receipt receipt commit in
            bind_act (save_sync e mw job r2 SyncRunning None) (\<lambda>_.
              if truthy (get_or_null r2 ''task_id'') then ret (Some r2)
              else if get_or_null commit ''status'' \<noteq> JStr ''skipped'' then raising ov_invalid
              else bind_act (publish_act e mw (job\<lparr>sj_receipt := r2\<rparr>) []) (\<lambda>_. ret None))
        | _ \<Rightarrow> raising ov_invalid)))"

definition task_states :: "json set" where
  "task_states = {JStr ''pending'', JStr ''running'', JStr ''cancelling'', JStr ''completed'', JStr ''failed'', JStr ''cancelled''}"

text \<open>\<open>str()\<close> of the identifier in the path.\<close>

definition task_path :: "json \<Rightarrow> string" where
  "task_path v = ''/api/v1/tasks/'' @ (case v of JStr s \<Rightarrow> s | JInt i \<Rightarrow> show_int i | _ \<Rightarrow> dumps False v)"

definition remote_task :: "'w mem_world \<Rightarrow> sync_job \<Rightarrow> json \<Rightarrow> (memory_state, 'w, dict) action" where
  "remote_task mw job task_id =
     bind_act (sync_call mw job False HttpGet (task_path task_id) None) (\<lambda>v. case v of
       JObj task \<Rightarrow> if get_or_null task ''status'' \<in> task_states then ret task else raising ov_invalid
     | _ \<Rightarrow> raising ov_invalid)"

fun remove_each :: "'w mem_world \<Rightarrow> sync_job \<Rightarrow> string list \<Rightarrow> (memory_state, 'w, unit) action" where
  "remove_each mw job [] = ret ()"
| "remove_each mw job (u # us) =
     bind_act (ov_remove mw (sj_user job) (sj_generation job) (JStr u)) (\<lambda>_. remove_each mw job us)"

definition tombstones :: "sync_job \<Rightarrow> memory_state \<Rightarrow> string list" where
  "tombstones job s = map am_uri (filter (\<lambda>m. am_state m \<noteq> AutoReady) (auto_rows (sj_user job) (sj_generation job) True s))"

definition publish_result :: "auto_env \<Rightarrow> 'w mem_world \<Rightarrow> sync_job \<Rightarrow> dict \<Rightarrow> (memory_state, 'w, unit) action" where
  "publish_result e mw job task =
     (let result = (if truthy (get_or_null task ''result'') then get_or_null task ''result'' else JObj []) in
      case result of
        JObj r \<Rightarrow>
          let archive = (if truthy (get_or_null r ''archive_uri'') then get_or_null r ''archive_uri'' else get_or_null (sj_receipt job) ''archive_uri'') in
          bind_act (ov_read_diff mw (sj_user job) (sj_generation job) archive) (\<lambda>ops.
          bind_act (read_db (\<lambda>s. Inr (tombstones job s))) (\<lambda>gone.
          bind_act (remove_each mw job gone) (\<lambda>_.
            publish_act e mw job ops)))
      | _ \<Rightarrow> raising ov_invalid)"

definition await_task :: "auto_env \<Rightarrow> 'w mem_world \<Rightarrow> sync_job \<Rightarrow> (memory_state, 'w, unit) action" where
  "await_task e mw job =
     bind_act (lift_result (require_row (dict_get (sj_receipt job) ''task_id'') (OtherError ''KeyError''))) (\<lambda>task_id.
     bind_act (remote_task mw job task_id) (\<lambda>task.
       if get_or_null task ''status'' \<in> {JStr ''failed'', JStr ''cancelled''} then raising (AppError ''MEMORY_EXTRACTION_FAILED'' 502)
       else if get_or_null task ''status'' \<noteq> JStr ''completed'' then
         bind_act (read_clock (mw_draw mw)) (\<lambda>now.
           if ae_task_timeout e < now - sj_created job then raising (AppError ''MEMORY_EXTRACTION_TIMEOUT'' 504)
           else save_sync e mw job (sj_receipt job) SyncWaiting None)
       else publish_result e mw job task))"

definition phase_of :: "dict \<Rightarrow> json" where
  "phase_of receipt = (case dict_get receipt ''phase'' of None \<Rightarrow> JStr ''new'' | Some v \<Rightarrow> v)"

definition capture_go :: "auto_env \<Rightarrow> 'w mem_world \<Rightarrow> sync_job \<Rightarrow> string \<Rightarrow> (memory_state, 'w, unit) action" where
  "capture_go e mw job content =
     (let receipt = sj_receipt job; phase = phase_of receipt in
      if phase \<in> {JStr ''appending'', JStr ''committing''} then save_sync e mw job receipt SyncUncertain (Some ''MEMORY_WRITE_UNCERTAIN'')
      else
        bind_act (if phase = JStr ''new'' then append_message e mw job receipt content else ret receipt) (\<lambda>r1.
        bind_act (if phase \<in> {JStr ''new'', JStr ''appended''} then commit_message e mw job r1 else ret (Some r1)) (\<lambda>next. case next of
            None \<Rightarrow> ret ()
          | Some r2 \<Rightarrow> await_task e mw (job\<lparr>sj_receipt := r2\<rparr>))))"

definition capture_sync :: "auto_env \<Rightarrow> 'w mem_world \<Rightarrow> sync_job \<Rightarrow> (memory_state, 'w, unit) action" where
  "capture_sync e mw job =
     bind_act (read_db (\<lambda>s. and_then (capture_source job s) (\<lambda>content. Inr (if consent_holds job s then content else None)))) (\<lambda>c. case c of
       None \<Rightarrow> save_sync e mw job (sj_receipt job) SyncCancelled None
     | Some content \<Rightarrow> capture_go e mw job content)"

section \<open>Deletion and purge\<close>

text \<open>One earlier capture: \<open>False\<close> when the clean-up has to wait for its task.\<close>

definition skip_capture :: "sync_job \<Rightarrow> bool" where
  "skip_capture c = (phase_of (sj_receipt c) = JStr ''new'' \<or> truthy (get_or_null (sj_receipt c) ''source_removed''))"

definition settle_task :: "auto_env \<Rightarrow> 'w mem_world \<Rightarrow> sync_job \<Rightarrow> json \<Rightarrow> (memory_state, 'w, bool) action" where
  "settle_task e mw job task_id =
     bind_act (remote_task mw job task_id) (\<lambda>task.
       if get_or_null task ''status'' \<in> {JStr ''completed'', JStr ''failed'', JStr ''cancelled''} then ret True
       else
         bind_act (read_clock (mw_draw mw)) (\<lambda>now.
           if ae_task_timeout e < now - sj_created job then raising (AppError ''MEMORY_CLEANUP_TIMEOUT'' 504)
           else bind_act (save_sync e mw job (sj_receipt job) SyncWaiting None) (\<lambda>_. ret False)))"

definition cleanup_capture :: "auto_env \<Rightarrow> 'w mem_world \<Rightarrow> sync_job \<Rightarrow> sync_job \<Rightarrow> (memory_state, 'w, bool) action" where
  "cleanup_capture e mw job c =
     (let receipt = sj_receipt c; task_id = get_or_null receipt ''task_id'' in
      if skip_capture c then ret True
      else if get_or_null receipt ''phase'' = JStr ''committing'' \<and> \<not> truthy task_id then raising (AppError ''MEMORY_CLEANUP_UNCERTAIN'' 409)
      else
        bind_act (if truthy task_id then settle_task e mw job task_id else ret True) (\<lambda>go_on.
          if \<not> go_on then ret False
          else
            bind_act (save_sync e mw job (sj_receipt job) SyncRunning None) (\<lambda>_.
            bind_act (ov_remove_session mw (sj_user job) (sj_generation job) (sj_id c)) (\<lambda>_.
            bind_act (transact (mw_draw mw) (mark_source_removed job c)) (\<lambda>_. ret True)))))"

fun cleanup_captures :: "auto_env \<Rightarrow> 'w mem_world \<Rightarrow> sync_job \<Rightarrow> sync_job list \<Rightarrow> (memory_state, 'w, bool) action" where
  "cleanup_captures e mw job [] = ret True"
| "cleanup_captures e mw job (c # cs) =
     bind_act (cleanup_capture e mw job c) (\<lambda>go_on. if go_on then cleanup_captures e mw job cs else ret False)"

definition cleanup_sync :: "auto_env \<Rightarrow> 'w mem_world \<Rightarrow> sync_job \<Rightarrow> (memory_state, 'w, unit) action" where
  "cleanup_sync e mw job =
     bind_act (read_db (\<lambda>s. Inr (capture_jobs (sj_user job) (sj_generation job) s))) (\<lambda>captures.
     bind_act (cleanup_captures e mw job captures) (\<lambda>go_on.
       if \<not> go_on then ret ()
       else
         bind_act (save_sync e mw job (sj_receipt job) SyncRunning None) (\<lambda>_.
         bind_act (ov_remove mw (sj_user job) (sj_generation job) (get_or_null (sj_receipt job) ''uri'')) (\<lambda>_.
           transact (mw_draw mw) (finish_cleanup job)))))"

section \<open>One round\<close>

definition handle_sync_error :: "'w mem_world \<Rightarrow> sync_job \<Rightarrow> exn \<Rightarrow> (memory_state, 'w, unit) action" where
  "handle_sync_error mw job x = (case exn_code x of
     None \<Rightarrow> raising x
   | Some code \<Rightarrow> if code = ''MEMORY_LEASE_LOST'' then ret () else transact (mw_draw mw) (fail_sync job code))"

definition sync_once :: "auto_env \<Rightarrow> 'w mem_world \<Rightarrow> (memory_state, 'w, bool) action" where
  "sync_once e mw =
     bind_act (lift_result (auto_on e)) (\<lambda>_.
     bind_act (transact (mw_draw mw) claim_sync) (\<lambda>claimed. case claimed of
       None \<Rightarrow> ret False
     | Some job \<Rightarrow>
         bind_act (except_act (if sj_kind job = SyncCapture then capture_sync e mw job else cleanup_sync e mw job)
             (handle_sync_error mw job)) (\<lambda>_. ret True)))"

end
