(* ===== verification/AutoMemoryProperties.thy ===== *)
theory AutoMemoryProperties
  imports AutoMemoryWorker
begin

text \<open>
  What automatic memory guarantees: in every interleaving of requests and workers a memory that
  can be read belongs to the generation its user agreed to, a forgotten one holds no text and
  never comes back, and recall and the worker respect that while other requests run.
\<close>

section \<open>The invariant\<close>

definition uri_key :: "auto_memory \<Rightarrow> uuid \<times> int \<times> string" where
  "uri_key m = (am_user m, am_generation m, am_uri m)"

abbreviation mems :: "memory_state \<Rightarrow> auto_memory list" where
  "mems s \<equiv> auto_memories (mem_db s)"

definition agreed :: "auto_memory \<Rightarrow> memory_state \<Rightarrow> bool" where
  "agreed m s \<longleftrightarrow> (\<exists>c. consent_of (am_user m) s = Some c \<and> ms_enabled c \<and> ms_generation c = am_generation m)"

text \<open>What can be read was agreed to; what is forgotten holds no text.\<close>

definition consensual :: "memory_state \<Rightarrow> bool" where
  "consensual s \<longleftrightarrow> (\<forall>m\<in>set (mems s). if am_state m = AutoReady then agreed m s else am_content m = [])"

definition memory_inv :: "memory_state \<Rightarrow> bool" where
  "memory_inv s \<longleftrightarrow> distinct (map am_id (mems s)) \<and> distinct (map uri_key (mems s)) \<and> consensual s"

text \<open>No memory is lost, and none comes back.\<close>

definition forgets :: "memory_state \<Rightarrow> memory_state \<Rightarrow> bool" where
  "forgets s s' \<longleftrightarrow> (\<forall>m\<in>set (mems s). \<exists>m'\<in>set (mems s'). uri_key m' = uri_key m \<and>
     (am_state m \<noteq> AutoReady \<longrightarrow> am_state m' \<noteq> AutoReady))"

definition mem_keeps :: "memory_state \<Rightarrow> memory_state \<Rightarrow> bool" where
  "mem_keeps s s' \<longleftrightarrow> (memory_inv s \<longrightarrow> memory_inv s' \<and> forgets s s')"

lemma forgets_refl: "forgets s s"
  by (auto simp: forgets_def)

lemma forgets_trans: "forgets s t \<Longrightarrow> forgets t u \<Longrightarrow> forgets s u"
  unfolding forgets_def by (metis (no_types, lifting))

lemma mem_keeps_refl [intro, simp]: "mem_keeps s s"
  by (simp add: mem_keeps_def forgets_refl)

lemma mem_keeps_trans [trans]: "mem_keeps s t \<Longrightarrow> mem_keeps t u \<Longrightarrow> mem_keeps s u"
  unfolding mem_keeps_def by (blast intro: forgets_trans)

section \<open>Single changes\<close>

lemma set_mem_simps [simp]: "mem_db (set_mem m s) = m" "chat_db (set_mem m s) = chat_db s"
  by (simp_all add: set_mem_def)

lemma mem_keeps_frame:
  "mems s' = mems s \<Longrightarrow> consents (mem_db s') = consents (mem_db s) \<Longrightarrow> mem_keeps s s'"
  by (auto simp: mem_keeps_def memory_inv_def consensual_def agreed_def forgets_def)

lemma put_sync_keeps [intro]: "mem_keeps s (put_sync j s)"
  by (rule mem_keeps_frame) (simp_all add: put_sync_def)

lemma map_enumerate_keep: "(\<And>i x. x \<in> set xs \<Longrightarrow> h (g (i, x)) = h x) \<Longrightarrow> map h (map g (enumerate n xs)) = map h xs"
  by (induction xs arbitrary: n) auto

lemma mem_enumerate_map: "y \<in> set (map g (enumerate n xs)) \<Longrightarrow> \<exists>i. \<exists>x\<in>set xs. y = g (i, x)"
  by (auto simp: in_set_enumerate_eq) (metis add.commute less_diff_conv2 nth_mem)

lemma enumerate_map_mem: "x \<in> set xs \<Longrightarrow> \<exists>i. g (i, x) \<in> set (map g (enumerate n xs))"
proof (induction xs arbitrary: n)
  case (Cons a xs)
  show ?case
  proof (cases "x = a")
    case False
    then show ?thesis using Cons.IH [of "Suc n"] Cons.prems by auto
  qed auto
qed simp

lemma touched_sel [simp]:
  "am_state (touched t m m') = am_state m'" "am_content (touched t m m') = am_content m'" "am_id (touched t m m') = am_id m'"
  "am_user (touched t m m') = am_user m'" "am_generation (touched t m m') = am_generation m'" "am_uri (touched t m m') = am_uri m'"
  "uri_key (touched t m m') = uri_key m'"
  by (auto simp: touched_def uri_key_def)

text \<open>
  A statement over the rows keeps the invariant when it leaves their names alone and either
  erases a row or leaves a readable one readable.
\<close>

definition tame :: "(auto_memory \<Rightarrow> auto_memory) \<Rightarrow> auto_memory \<Rightarrow> bool" where
  "tame f m \<longleftrightarrow> am_id (f m) = am_id m \<and> uri_key (f m) = uri_key m \<and>
     (am_state (f m) \<noteq> AutoReady \<and> am_content (f m) = [] \<or> am_state m = AutoReady \<and> am_state (f m) = AutoReady)"

lemma tame_erased: "st \<noteq> AutoReady \<Longrightarrow> tame (erased st) m"
  by (simp add: tame_def erased_def uri_key_def)

lemma change_memories_consents [simp]: "consents (mem_db (change_memories now p f s)) = consents (mem_db s)"
  by (simp add: change_memories_def)

lemma mem_change:
  assumes "m' \<in> set (mems (change_memories now p f s))"
  shows "\<exists>i. \<exists>x\<in>set (mems s). m' = (if p x then touched (now i) x (f x) else x)"
  using mem_enumerate_map [of m' "\<lambda>(i, m). if p m then touched (now i) m (f m) else m" 0 "mems s"] assms
  by (simp add: change_memories_def)

lemma change_memories_keeps:
  assumes t: "\<And>m. m \<in> set (mems s) \<Longrightarrow> p m \<Longrightarrow> tame f m"
  shows "mem_keeps s (change_memories now p f s)"
  unfolding mem_keeps_def
proof
  assume inv: "memory_inv s"
  let ?g = "\<lambda>(i, m). if p m then touched (now i) m (f m) else m"
  have rows: "mems (change_memories now p f s) = map ?g (enumerate 0 (mems s))"
    by (simp add: change_memories_def)
  have g: "am_id (?g (i, m)) = am_id m" "uri_key (?g (i, m)) = uri_key m" if "m \<in> set (mems s)" for i m
    using t that by (auto simp: tame_def)
  have ids: "map am_id (mems (change_memories now p f s)) = map am_id (mems s)"
    and keys: "map uri_key (mems (change_memories now p f s)) = map uri_key (mems s)"
    unfolding rows using g by (intro map_enumerate_keep; simp only:)+
  have "consensual (change_memories now p f s)"
    unfolding consensual_def
  proof
    fix m' assume "m' \<in> set (mems (change_memories now p f s))"
    then obtain i m where m: "m \<in> set (mems s)" "m' = ?g (i, m)"
      unfolding rows by (meson mem_enumerate_map)
    have k: "uri_key m' = uri_key m" using m g(2) by blast
    have a: "agreed m' (change_memories now p f s) \<longleftrightarrow> agreed m s" using k by (simp add: agreed_def uri_key_def)
    have r: "if am_state m = AutoReady then agreed m s else am_content m = []"
      using inv m(1) by (simp add: memory_inv_def consensual_def)
    show "if am_state m' = AutoReady then agreed m' (change_memories now p f s) else am_content m' = []"
      using r t [OF m(1)] unfolding a unfolding m(2) by (cases "p m") (auto simp: tame_def)
  qed
  moreover have "forgets s (change_memories now p f s)"
    unfolding forgets_def
  proof
    fix m assume m: "m \<in> set (mems s)"
    obtain i where i: "?g (i, m) \<in> set (mems (change_memories now p f s))"
      using enumerate_map_mem [OF m, of ?g 0] unfolding rows by (elim exE)
    have "uri_key (?g (i, m)) = uri_key m \<and> (am_state m \<noteq> AutoReady \<longrightarrow> am_state (?g (i, m)) \<noteq> AutoReady)"
      using g(2) [OF m] t [OF m] by (cases "p m") (auto simp: tame_def)
    then show "\<exists>m'\<in>set (mems (change_memories now p f s)). uri_key m' = uri_key m \<and> (am_state m \<noteq> AutoReady \<longrightarrow> am_state m' \<noteq> AutoReady)"
      using i by blast
  qed
  ultimately show "memory_inv (change_memories now p f s) \<and> forgets s (change_memories now p f s)"
    using inv ids keys by (simp add: memory_inv_def)
qed

lemma erase_keeps: "st \<noteq> AutoReady \<Longrightarrow> mem_keeps s (change_memories now p (erased st) s)"
  by (rule change_memories_keeps) (rule tame_erased)

text \<open>The consent of a user whose memories are all forgotten may change.\<close>

lemma put_consent_keeps:
  assumes "memory_inv s \<Longrightarrow> \<forall>m\<in>set (mems s). am_user m = ms_user c \<longrightarrow> am_state m \<noteq> AutoReady"
  shows "mem_keeps s (put_consent c s)"
  unfolding mem_keeps_def
proof
  assume inv: "memory_inv s"
  have "agreed m (put_consent c s) \<longleftrightarrow> agreed m s" if "am_user m \<noteq> ms_user c" for m
    using that by (simp add: agreed_def put_consent_def row_get_put)
  then show "memory_inv (put_consent c s) \<and> forgets s (put_consent c s)"
    using inv assms [OF inv] by (auto simp: memory_inv_def consensual_def put_consent_def forgets_def)
qed

lemma ensure_consent_keeps:
  assumes "ensure_consent uid s = Inr (c, s')"
  shows "mem_keeps s s' \<and> consent_of uid s' = Some c \<and> ms_user c = uid"
proof (cases "consent_of uid s")
  case None
  let ?c = "\<lparr>ms_user = uid, ms_enabled = False, ms_generation = 1, ms_enabled_since = None\<rparr>"
  have s': "s' = put_consent ?c s" "c = ?c" using assms None by (auto simp: ensure_consent_def result_simps Let_def)
  have "mem_keeps s (put_consent ?c s)"
    by (rule put_consent_keeps) (use None in \<open>auto simp: memory_inv_def consensual_def agreed_def split: if_splits\<close>)
  then show ?thesis unfolding s' by (simp add: put_consent_def row_get_put)
next
  case (Some c')
  then have "s' = s" "c = c'" using assms by (auto simp: ensure_consent_def)
  then show ?thesis using Some row_get_Some_key [OF Some] by simp
qed

lemma enqueue_sync_keeps:
  assumes "enqueue_sync jid now uid gen kind key receipt s = Inr s'"
  shows "mem_keeps s s'" and "mems s' = mems s" and "consents (mem_db s') = consents (mem_db s)"
  using assms by (auto simp: enqueue_sync_def result_simps split: option.splits intro: mem_keeps_frame)

section \<open>Every request and every step of a worker\<close>

lemma clear_generation_keeps:
  assumes "clear_generation clk ids c s = Inr (c', s')" "consent_of (ms_user c) s = Some c"
  shows "mem_keeps s s' \<and> ms_user c' = ms_user c \<and> (memory_inv s \<longrightarrow> (\<forall>m\<in>set (mems s'). am_user m = ms_user c \<longrightarrow> am_state m \<noteq> AutoReady))"
proof -
  let ?s1 = "change_memories (row_clock clk) (\<lambda>m. am_user m = ms_user c \<and> am_generation m = ms_generation c) (erased AutoDeleting) s"
  obtain t where t: "enqueue_sync (ids 0) (clk 0) (ms_user c) (ms_generation c) SyncPurge ''purge'' [(''phase'', JStr ''new'')] ?s1 = Inr t"
    and r: "c' = c\<lparr>ms_generation := ms_generation c + 1\<rparr>" "s' = put_consent c' t"
    using assms(1) by (auto simp: clear_generation_def result_simps Let_def)
  have k1: "mem_keeps s ?s1" by (rule erase_keeps) simp
  have m1: "mems t = mems ?s1" and c1: "consents (mem_db t) = consents (mem_db s)" and k2: "mem_keeps ?s1 t"
    using enqueue_sync_keeps [OF t] by simp_all
  have gone: "am_state m \<noteq> AutoReady" if inv: "memory_inv t" and m: "m \<in> set (mems t)" "am_user m = ms_user c" for m
  proof
    assume "am_state m = AutoReady"
    then have "agreed m t" using inv m(1) by (auto simp: memory_inv_def consensual_def)
    then have gen: "am_generation m = ms_generation c" using m(2) assms(2) c1 by (simp add: agreed_def)
    obtain i x where "x \<in> set (mems s)"
        "m = (if am_user x = ms_user c \<and> am_generation x = ms_generation c then touched (row_clock clk i) x (erased AutoDeleting x) else x)"
      using mem_change [OF m(1) [unfolded m1]] by blast
    then show False using gen m(2) \<open>am_state m = AutoReady\<close> by (auto simp: erased_def split: if_splits)
  qed
  have u: "ms_user c' = ms_user c" using r(1) by simp
  have k3: "mem_keeps t s'" unfolding r(2) by (rule put_consent_keeps) (use gone u in auto)
  have k: "mem_keeps s t" by (rule mem_keeps_trans [OF k1 k2])
  have "mems s' = mems t" by (simp add: r(2) put_consent_def)
  then show ?thesis using mem_keeps_trans [OF k k3] u gone k by (auto simp: mem_keeps_def)
qed

lemma set_enabled_keeps:
  assumes "set_enabled e uid b clk ids s = (r, s')"
  shows "mem_keeps s s'"
proof (cases "s' = s")
  case False
  obtain c s0 c1 s1 where c: "ensure_consent uid s = Inr (c, s0)" and n: "ms_enabled c \<noteq> b"
    and c1: "(if b then Inr (c, s0) else clear_generation clk ids c s0) = Inr (c1, s1)"
    and s': "s' = put_consent (c1\<lparr>ms_enabled := b, ms_enabled_since := (if b then Some (clk 1) else None)\<rparr>) s1"
    using assms False by (cases r) (auto simp: set_enabled_def result_simps split: if_splits)
  have k0: "mem_keeps s s0" and c0: "consent_of (ms_user c) s0 = Some c"
    using ensure_consent_keeps [OF c] by auto
  have k1: "mem_keeps s0 s1 \<and> ms_user c1 = ms_user c \<and>
      (memory_inv s0 \<longrightarrow> (\<forall>m\<in>set (mems s1). am_user m = ms_user c \<longrightarrow> am_state m \<noteq> AutoReady))"
  proof (cases b)
    case True
    then have "c1 = c" "s1 = s0" using c1 by auto
    then show ?thesis using True n c0 by (auto simp: memory_inv_def consensual_def agreed_def split: if_splits)
  next
    case False
    then show ?thesis using clear_generation_keeps [OF _ c0, of clk ids c1 s1] c1 by simp
  qed
  have k2: "memory_inv s0 \<Longrightarrow> mem_keeps s1 s'"
    unfolding s' by (rule put_consent_keeps) (use k1 in auto)
  show ?thesis using k0 k1 k2 unfolding mem_keeps_def by (metis forgets_trans)
qed simp

lemma clear_memories_keeps:
  assumes "clear_memories e uid clk ids s = (r, s')"
  shows "mem_keeps s s'"
proof (cases "s' = s")
  case False
  obtain c s0 c1 s1 where c: "ensure_consent uid s = Inr (c, s0)" and c1: "clear_generation clk ids c s0 = Inr (c1, s1)"
    and s': "s' = put_consent (c1\<lparr>ms_enabled_since := (if ms_enabled c1 then Some (clk 1) else None)\<rparr>) s1"
    using assms False by (cases r) (auto simp: clear_memories_def result_simps)
  have k0: "mem_keeps s s0" and c0: "consent_of (ms_user c) s0 = Some c"
    using ensure_consent_keeps [OF c] by auto
  note k1 = clear_generation_keeps [OF c1 c0]
  have k2: "memory_inv s0 \<Longrightarrow> mem_keeps s1 s'"
    unfolding s' by (rule put_consent_keeps) (use k1 in auto)
  show ?thesis using k0 k1 k2 unfolding mem_keeps_def by (metis forgets_trans)
qed simp

lemma delete_auto_keeps:
  assumes "delete_auto e uid mid clk ids s = (r, s')"
  shows "mem_keeps s s'"
proof (cases "s' = s")
  case False
  then obtain gen receipt where "enqueue_sync (ids 0) (clk 0) uid gen SyncDelete (''delete/'' @ uuid_str mid) receipt
           (change_memories (row_clock clk) (\<lambda>m. am_id m = mid) (erased AutoDeleting) s) = Inr s'"
    using assms by (cases r) (simp_all add: delete_auto_def result_simps, blast)
  from enqueue_sync_keeps(1) [OF this] show ?thesis by (rule mem_keeps_trans [OF erase_keeps, rotated]) simp
qed simp

lemma enqueue_capture_keeps: "enqueue_capture uid org shared sid mid aid clk ids s = Inr s' \<Longrightarrow> mem_keeps s s'"
  by (auto simp: enqueue_capture_def split: option.splits if_splits intro: enqueue_sync_keeps)

lemma claim_sync_keeps: "claim_sync clk ids s = (r, s') \<Longrightarrow> mem_keeps s s'"
  by (cases r) (auto simp: claim_sync_def result_simps Let_def split: list.splits)

lemma progress_sync_keeps: "progress_sync e job receipt st err clk ids s = (r, s') \<Longrightarrow> mem_keeps s s'"
  by (cases r) (auto simp: progress_sync_def result_simps Let_def)

lemma mark_source_removed_keeps: "mark_source_removed job c clk ids s = (r, s') \<Longrightarrow> mem_keeps s s'"
  by (cases r) (auto simp: mark_source_removed_def result_simps)

lemma fail_sync_keeps: "fail_sync job code clk ids s = (r, s') \<Longrightarrow> mem_keeps s s'"
  by (cases r) (auto simp: fail_sync_def result_simps Let_def)

lemma settle_sync_keeps: "mem_keeps s (settle_sync st j s)"
  by (auto simp: settle_sync_def)

lemma finish_cleanup_keeps:
  assumes "finish_cleanup job clk ids s = (r, s')"
  shows "mem_keeps s s'"
proof (cases "s' = s")
  case False
  then obtain p j where "s' = settle_sync SyncSucceeded j (change_memories (row_clock clk) p (erased AutoDeleted) s)"
    using assms by (cases r) (simp_all add: finish_cleanup_def result_simps, blast)
  then show ?thesis using mem_keeps_trans [OF erase_keeps settle_sync_keeps] by simp
qed simp

section \<open>Publication\<close>

lemma uri_row_Some:
  "uri_row uid gen uri s = Some m \<Longrightarrow> m \<in> set (mems s) \<and> am_user m = uid \<and> am_generation m = gen \<and> am_uri m = uri"
  by (auto simp: uri_row_def find_Some_iff)

lemma uri_row_None:
  "uri_row uid gen uri s = None \<Longrightarrow> m \<in> set (mems s) \<Longrightarrow> uri_key m \<noteq> (uid, gen, uri)"
  by (auto simp: uri_row_def find_None_iff uri_key_def)

lemma add_memory_keeps:
  assumes "add_memory e job mid now uri text s = Inr s'" "uri_row (sj_user job) (sj_generation job) uri s = None" "consent_holds job s"
  shows "mem_keeps s s'" and "consents (mem_db s') = consents (mem_db s)"
proof -
  obtain a b where r: "row_get am_id mid (mems s) = None" "s' = set_mem ((mem_db s)\<lparr>auto_memories := mems s @ [\<lparr>am_id = mid,
        am_user = sj_user job, am_generation = sj_generation job, am_uri = uri, am_content = text, am_hash = ae_sha256 e text,
        am_version = 1, am_state = AutoReady, am_source_session = Some a, am_source_message = Some b, am_updated = now\<rparr>]\<rparr>) s"
    using assms(1) by (auto simp: add_memory_def result_simps)
  define m where "m = \<lparr>am_id = mid, am_user = sj_user job, am_generation = sj_generation job, am_uri = uri, am_content = text,
    am_hash = ae_sha256 e text, am_version = 1, am_state = AutoReady, am_source_session = Some a, am_source_message = Some b, am_updated = now\<rparr>"
  have m: "uri_key m = (sj_user job, sj_generation job, uri)" "am_state m = AutoReady" "row_get am_id (am_id m) (mems s) = None"
    using r(1) by (simp_all add: m_def uri_key_def)
  have s': "mems s' = mems s @ [m]" "consents (mem_db s') = consents (mem_db s)" by (simp_all add: r(2) m_def)
  show "consents (mem_db s') = consents (mem_db s)" by (rule s')
  have "agreed m s'" using assms(3) m(1) s'(2) by (auto simp: agreed_def uri_key_def consent_holds_def split: option.splits)
  moreover have "agreed x s' = agreed x s" for x by (simp add: agreed_def s'(2))
  moreover have "uri_key m \<notin> uri_key ` set (mems s)" using uri_row_None [OF assms(2)] m(1) by (metis imageE)
  moreover have "am_id m \<notin> am_id ` set (mems s)" using m(3) by (auto simp: row_get_None)
  ultimately show "mem_keeps s s'"
    using m(2) unfolding mem_keeps_def memory_inv_def consensual_def forgets_def s'(1) by auto
qed

lemma revise_memory_keeps:
  assumes r: "revise_memory e job now m text s = Inr s'" and m: "m \<in> set (mems s)" "am_state m = AutoReady" and inv: "memory_inv s"
  shows "mem_keeps s s'" and "consents (mem_db s') = consents (mem_db s)"
proof -
  have same: "x = m" if "x \<in> set (mems s)" "am_id x = am_id m" for x
    using inv that m(1) by (auto simp: memory_inv_def dest: distinct_key_eq)
  show "mem_keeps s s'"
    using r by (auto simp: revise_memory_def result_simps tame_def uri_key_def m(2) split: if_splits
        intro!: change_memories_keeps dest: same)
  show "consents (mem_db s') = consents (mem_db s)"
    using r by (auto simp: revise_memory_def result_simps split: if_splits)
qed

lemma consent_holds_frame: "consents (mem_db s') = consents (mem_db s) \<Longrightarrow> consent_holds job s' = consent_holds job s"
  by (simp add: consent_holds_def)

lemma apply_change_keeps:
  assumes "apply_change e job deletes now mid change (fr, s) = Inr (fr', s')" "consent_holds job s" "memory_inv s"
  shows "mem_keeps s s' \<and> consents (mem_db s') = consents (mem_db s)"
proof -
  obtain c where c: "change = JObj c" using assms(1) by (cases change) (simp_all add: apply_change_def)
  obtain uri where u: "memory_uri (sj_user job) (sj_generation job) (get_or_null c ''uri'') = Inr uri"
    using assms(1) by (auto simp: apply_change_def c result_simps)
  show ?thesis
  proof (cases "uri_row (sj_user job) (sj_generation job) uri s")
    case None
    then show ?thesis
      using assms(1) add_memory_keeps [OF _ None assms(2)]
      by (auto simp: apply_change_def c u result_simps split: if_splits)
  next
    case (Some m)
    show ?thesis
      using assms(1) Some uri_row_Some [OF Some] revise_memory_keeps [OF _ _ _ assms(3), of e job now m]
      by (auto simp: apply_change_def c u result_simps intro: erase_keeps split: if_splits)
  qed
qed

lemma apply_changes_keeps:
  "apply_changes e job deletes now ids cs (fr, s) = Inr (fr', s') \<Longrightarrow> consent_holds job s \<Longrightarrow> memory_inv s \<Longrightarrow>
   mem_keeps s s' \<and> consents (mem_db s') = consents (mem_db s)"
proof (induction cs arbitrary: ids fr s)
  case (Cons c cs)
  obtain fr1 s1 where a: "apply_change e job deletes now (ids 0) c (fr, s) = Inr (fr1, s1)"
      and b: "apply_changes e job deletes now (\<lambda>i. ids (i + 1)) cs (fr1, s1) = Inr (fr', s')"
    using Cons.prems(1) by (auto simp: result_simps)
  note k = apply_change_keeps [OF a Cons.prems(2,3)]
  have inv: "memory_inv s1" using k Cons.prems(3) by (simp add: mem_keeps_def)
  have "consent_holds job s1" using k Cons.prems(2) consent_holds_frame by metis
  from Cons.IH [OF b this inv] k show ?case by (metis mem_keeps_trans)
qed simp

lemma publish_sync_keeps:
  assumes "publish_sync e job ops clk ids s = (r, s')"
  shows "mem_keeps s s'"
  unfolding mem_keeps_def
proof
  assume inv: "memory_inv s"
  consider "s' = s" | j where "s' = settle_sync SyncCancelled j s"
    | j t where "consent_holds job s" "apply_operations e job (row_clock clk) ids ops s = Inr t" "s' = settle_sync SyncSucceeded j t"
    using assms by (cases r) (auto simp: publish_sync_def result_simps split: if_splits)
  then have "mem_keeps s s'"
  proof cases
    case (3 j t)
    obtain adds updates deletes fr1 s1 fr2 s2 fr3 where
      a: "apply_changes e job False (row_clock clk) ids adds ([], s) = Inr (fr1, s1)" and
      b: "apply_changes e job False (row_clock clk) (\<lambda>i. ids (i + 200)) updates (fr1, s1) = Inr (fr2, s2)" and
      c: "apply_changes e job True (row_clock clk) (\<lambda>i. ids (i + 400)) deletes (fr2, s2) = Inr (fr3, t)"
      using 3(2) by (auto simp: apply_operations_def result_simps)
    note k1 = apply_changes_keeps [OF a 3(1) inv]
    have i1: "memory_inv s1" "consent_holds job s1" using k1 inv 3(1) consent_holds_frame [of s1 s] by (auto simp: mem_keeps_def)
    note k2 = apply_changes_keeps [OF b i1(2,1)]
    have i2: "memory_inv s2" "consent_holds job s2" using k2 i1 consent_holds_frame [of s2 s1] by (auto simp: mem_keeps_def)
    note k3 = apply_changes_keeps [OF c i2(2,1)]
    have "mem_keeps s t" using k1 k2 k3 by (metis mem_keeps_trans)
    then show ?thesis unfolding 3(3) by (rule mem_keeps_trans [OF _ settle_sync_keeps])
  qed (auto intro: settle_sync_keeps)
  then show "memory_inv s' \<and> forgets s s'" using inv by (simp add: mem_keeps_def)
qed

section \<open>Interleavings\<close>

text \<open>
  What can happen to the tables between two looks at them: one transaction of a request or of a
  worker, for any claim it may hold, or a change of the chat tables.
\<close>

inductive mem_step :: "memory_state \<Rightarrow> memory_state \<Rightarrow> bool" where
  Set: "set_enabled e uid b clk ids s = (r, s') \<Longrightarrow> mem_step s s'"
| Clear: "clear_memories e uid clk ids s = (r, s') \<Longrightarrow> mem_step s s'"
| Delete: "delete_auto e uid mid clk ids s = (r, s') \<Longrightarrow> mem_step s s'"
| Capture: "enqueue_capture uid org shared sid mid aid clk ids s = Inr s' \<Longrightarrow> mem_step s s'"
| Claim: "claim_sync clk ids s = (c, s') \<Longrightarrow> mem_step s s'"
| Progress: "progress_sync e job receipt st err clk ids s = (r, s') \<Longrightarrow> mem_step s s'"
| Publish: "publish_sync e job ops clk ids s = (r, s') \<Longrightarrow> mem_step s s'"
| Finish: "finish_cleanup job clk ids s = (r, s') \<Longrightarrow> mem_step s s'"
| Mark: "mark_source_removed job c clk ids s = (r, s') \<Longrightarrow> mem_step s s'"
| Fail: "fail_sync job code clk ids s = (r, s') \<Longrightarrow> mem_step s s'"
| Chat_change: "mem_db s' = mem_db s \<Longrightarrow> mem_step s s'"

lemma mem_step_keeps: "mem_step s s' \<Longrightarrow> mem_keeps s s'"
  by (induction rule: mem_step.induct)
    (auto intro: set_enabled_keeps clear_memories_keeps delete_auto_keeps enqueue_capture_keeps claim_sync_keeps
      progress_sync_keeps publish_sync_keeps finish_cleanup_keeps mark_source_removed_keeps fail_sync_keeps mem_keeps_frame)

lemma mem_steps_keep: "rtranclp mem_step s s' \<Longrightarrow> mem_keeps s s'"
  by (induction rule: rtranclp_induct) (auto intro: mem_keeps_trans mem_step_keeps)

text \<open>A worker does nothing but such steps, while others do theirs during its calls.\<close>

definition others_step :: "'w mem_world \<Rightarrow> bool" where
  "others_step mw \<longleftrightarrow> (\<forall>q s. rtranclp mem_step (fst s) (fst (snd (mw_http mw q s))))"

lemma steps_refl: "reflp (rtranclp mem_step)" and steps_trans: "transp (rtranclp mem_step)"
  by (auto simp: reflp_def transp_def)

lemmas mem_act = act_keeps_bind [OF steps_trans] act_keeps_except [OF steps_trans] act_keeps_value [OF steps_refl]
  act_keeps_read_clock [OF steps_refl]

lemma mem_act_transact:
  "(\<And>clk ids s r s'. body clk ids s = (r, s') \<Longrightarrow> mem_step s s') \<Longrightarrow> act_keeps (rtranclp mem_step) (transact draw body)"
  by (rule act_keeps_transact) blast

lemma mem_act_request: "others_step mw \<Longrightarrow> act_keeps (rtranclp mem_step) (ov_request mw missing_ok q)"
  by (rule act_keeps_request) (unfold others_step_def, blast)

lemma mem_act_calls:
  assumes "others_step mw"
  shows "act_keeps (rtranclp mem_step) (sync_call mw job missing_ok m path body)"
    and "act_keeps (rtranclp mem_step) (ov_remove mw uid gen uri)"
    and "act_keeps (rtranclp mem_step) (ov_remove_session mw uid gen jid)"
    and "act_keeps (rtranclp mem_step) (ov_read_diff mw uid gen archive)"
    and "act_keeps (rtranclp mem_step) (ov_find mw uid gen query k)"
    and "act_keeps (rtranclp mem_step) (save_sync e mw job receipt st err)"
    and "act_keeps (rtranclp mem_step) (publish_act e mw job ops)"
  using assms unfolding sync_call_def ov_remove_def ov_remove_session_def ov_read_diff_def ov_find_def save_sync_def publish_act_def Let_def
  by (auto intro!: mem_act mem_act_request mem_act_transact intro: mem_step.intros split: json.split)

lemma mem_act_capture:
  assumes "others_step mw"
  shows "act_keeps (rtranclp mem_step) (capture_sync e mw job)"
proof -
  note calls = mem_act mem_act_calls [OF assms]
  have r: "act_keeps (rtranclp mem_step) (remove_each mw job us)" for us job
    by (induction us) (auto intro!: calls)
  have t: "act_keeps (rtranclp mem_step) (remote_task mw job tid)" for tid job
    unfolding remote_task_def by (auto intro!: calls split: json.split)
  have p: "act_keeps (rtranclp mem_step) (publish_result e mw job task)" for task job
    unfolding publish_result_def Let_def by (auto intro!: calls r split: json.split)
  have a: "act_keeps (rtranclp mem_step) (append_message e mw job receipt content)" for receipt content
    unfolding append_message_def Let_def by (auto intro!: calls)
  have c: "act_keeps (rtranclp mem_step) (commit_message e mw job receipt)" for receipt
    unfolding commit_message_def Let_def by (auto intro!: calls split: json.split)
  have w: "act_keeps (rtranclp mem_step) (await_task e mw job)" for job
    unfolding await_task_def by (auto intro!: calls t p)
  show ?thesis
    unfolding capture_sync_def capture_go_def Let_def by (auto intro!: calls a c w split: option.split)
qed

lemma mem_act_cleanup:
  assumes "others_step mw"
  shows "act_keeps (rtranclp mem_step) (cleanup_sync e mw job)"
proof -
  note calls = mem_act mem_act_calls [OF assms]
  have t: "act_keeps (rtranclp mem_step) (remote_task mw job tid)" for tid
    unfolding remote_task_def by (auto intro!: calls split: json.split)
  have w: "act_keeps (rtranclp mem_step) (settle_task e mw job tid)" for tid
    unfolding settle_task_def by (auto intro!: calls t)
  have c: "act_keeps (rtranclp mem_step) (cleanup_capture e mw job c)" for c
    unfolding cleanup_capture_def Let_def by (auto intro!: calls w mem_act_transact intro: mem_step.intros)
  have cs: "act_keeps (rtranclp mem_step) (cleanup_captures e mw job cs)" for cs
    by (induction cs) (auto intro!: calls c)
  show ?thesis
    unfolding cleanup_sync_def by (auto intro!: calls cs mem_act_transact intro: mem_step.intros)
qed

lemma mem_act_error: "act_keeps (rtranclp mem_step) (handle_sync_error mw job x)"
proof (cases "exn_code x")
  case (Some code)
  have "act_keeps (rtranclp mem_step) (transact (mw_draw mw) (fail_sync job code))"
    by (rule mem_act_transact) (rule mem_step.Fail)
  then show ?thesis by (simp add: handle_sync_error_def Some mem_act)
qed (simp add: handle_sync_error_def mem_act)

lemma sync_once_steps:
  assumes "others_step mw"
  shows "act_keeps (rtranclp mem_step) (sync_once e mw)"
  unfolding sync_once_def
  by (auto intro!: mem_act mem_act_transact mem_act_capture mem_act_cleanup mem_act_error assms intro: mem_step.Claim split: option.split)

lemma search_auto_steps:
  assumes "others_step mw"
  shows "act_keeps (rtranclp mem_step) (search_auto e mw uid query)"
  unfolding search_auto_def
  by (auto intro!: mem_act mem_act_calls [OF assms] split: option.split sum.split)

section \<open>Recall\<close>

lemma set_auto_rows: "m \<in> set (auto_rows uid gen dead s) \<longleftrightarrow>
   m \<in> set (mems s) \<and> am_user m = uid \<and> am_generation m = gen \<and> (dead \<or> am_state m = AutoReady)"
  by (auto simp: auto_rows_def)

lemma recalled_mem:
  assumes "h \<in> set (recalled uid gen hits s)"
  shows "\<exists>m\<in>set (mems s). am_id m = mh_id h \<and> am_user m = uid \<and> am_state m = AutoReady \<and> agreed m s \<and> mh_content h = take 12000 (am_content m)"
proof -
  obtain c where c: "consent_of uid s = Some c" "ms_enabled c" "ms_generation c = gen"
    using assms by (cases "consent_of uid s") (auto simp: recalled_def split: if_splits)
  obtain m uri score where m: "find (\<lambda>m. am_uri m = uri) (rev (auto_rows uid gen False s)) = Some m" "h = hit_of uid s m score"
    using assms c by (auto simp: recalled_def List.map_filter_def split: if_splits)
  have "m \<in> set (auto_rows uid gen False s)" using m(1) by (auto simp: find_Some_iff) (metis length_rev nth_mem set_rev)
  then show ?thesis using m(2) c by (auto simp: set_auto_rows hit_of_def agreed_def)
qed

section \<open>Properties\<close>

text \<open>
  C6: consent is respected in every interleaving. From tables without memories, after any
  requests, worker transactions and a further round of the worker during whose calls others go
  on, a memory that can be read is of the current generation of a user who agreed, and every
  other memory holds no text.
\<close>

theorem memories_need_consent:
  assumes "mems s0 = []" "rtranclp mem_step s0 s" "others_step mw" "sync_once e mw (s, w) = (r, s', w')" "m \<in> set (mems s')"
  shows "(am_state m = AutoReady \<and> agreed m s') \<or> (am_state m \<noteq> AutoReady \<and> am_content m = [])"
proof -
  have "rtranclp mem_step s s'" using act_keepsD [OF sync_once_steps [OF assms(3)] assms(4)] by simp
  then have "mem_keeps s0 s'" using assms(2) by (intro mem_steps_keep) auto
  moreover have "memory_inv s0" using assms(1) by (simp add: memory_inv_def consensual_def)
  ultimately have "memory_inv s'" by (simp add: mem_keeps_def)
  then have "if am_state m = AutoReady then agreed m s' else am_content m = []"
    using assms(5) unfolding memory_inv_def consensual_def by blast
  then show ?thesis by (auto split: if_splits)
qed

text \<open>
  C8: forgetting is final. Once a memory is erased (deleted, purged, or left behind by a new
  generation), no later sequence of requests and worker steps makes anything readable under its
  address again, whatever a capture that was under way brings back.
\<close>

theorem forgotten_stays_forgotten:
  assumes "mems s0 = []" "rtranclp mem_step s0 s" "m \<in> set (mems s)" "am_state m \<noteq> AutoReady"
    and "rtranclp mem_step s s'" "m' \<in> set (mems s')"
    and "am_user m' = am_user m" "am_generation m' = am_generation m" "am_uri m' = am_uri m"
  shows "am_state m' \<noteq> AutoReady \<and> am_content m' = []"
proof -
  have "memory_inv s0" using assms(1) by (simp add: memory_inv_def consensual_def)
  then have "memory_inv s" using mem_steps_keep [OF assms(2)] by (simp add: mem_keeps_def)
  then have inv: "memory_inv s'" and f: "forgets s s'" using mem_steps_keep [OF assms(5)] by (auto simp: mem_keeps_def)
  obtain x where x: "x \<in> set (mems s')" "uri_key x = uri_key m" "am_state x \<noteq> AutoReady"
    using f assms(3,4) unfolding forgets_def by blast
  have "uri_key m' = uri_key x" using x(2) assms(7-9) by (simp add: uri_key_def)
  then have "m' = x" using inv x(1) assms(6) by (auto simp: memory_inv_def dest: distinct_key_eq)
  then show ?thesis using x inv by (auto simp: memory_inv_def consensual_def split: if_splits)
qed

text \<open>
  C23: recall re-checks consent after the call of the memory service. Every memory it returns is,
  in the state it returns in, stored, ready, the asking user's, and of the generation that user
  has agreed to now, whatever happened during the call.
\<close>

theorem recall_respects_consent:
  assumes "search_auto e mw uid query (s, w) = (Inr (hits, warnings), s', w')" "h \<in> set hits"
  shows "\<exists>m\<in>set (mems s'). am_id m = mh_id h \<and> am_user m = uid \<and> am_state m = AutoReady \<and> agreed m s' \<and>
    mh_content h = take 12000 (am_content m)"
proof -
  obtain gen found where "hits = recalled uid gen found s'"
    using assms by (auto simp: search_auto_def act_simps split: if_splits option.splits sum.splits)
  then show ?thesis using assms(2) recalled_mem by blast
qed

section \<open>Witnesses\<close>

text \<open>
  User 7 agrees, asks a question, the worker captures and publishes one memory, and the user
  deletes it while the next capture already carries it again.
\<close>

definition demo_auto :: auto_env where
  "demo_auto = \<lparr>ae_enabled = True, ae_top_k = 5, ae_poll = 1, ae_task_timeout = 10, ae_sha256 = id\<rparr>"

definition demo_chat :: db where
  "demo_chat = empty_db\<lparr>
     users := [\<lparr>u_id = 7, u_name = ''a'', u_password_hash = [], u_role = RoleUser, u_active = True\<rparr>]\<rparr>"

definition demo_profile :: string where
  "demo_profile = ov_prefix 7 1 @ ''profile.md''"

definition demo_job :: "uuid \<Rightarrow> sync_job" where
  "demo_job i = \<lparr>sj_id = i, sj_user = 7, sj_generation = 1, sj_dedup = [], sj_kind = SyncCapture, sj_state = SyncRunning,
     sj_receipt = [(''session_id'', JStr (uuid_str 5)), (''source_message_id'', JStr (uuid_str 6))], sj_owner = Some 9,
     sj_lease = Some 100, sj_available = 0, sj_attempts = 0, sj_error = None, sj_created = 0\<rparr>"

definition demo_diff :: dict where
  "demo_diff = [(''adds'', JArr [JObj [(''uri'', JStr ''viking://~/memories/profile.md''), (''after'', JStr ''likes tea'')]])]"

definition demo_start :: memory_state where
  "demo_start = \<lparr>chat_db = demo_chat, mem_db = empty_memory_db\<lparr>
     consents := [\<lparr>ms_user = 7, ms_enabled = True, ms_generation = 1, ms_enabled_since = Some 0\<rparr>],
     sync_jobs := [demo_job 20, demo_job 21]\<rparr>\<rparr>"

definition demo_memory :: "auto_memory" where
  "demo_memory = \<lparr>am_id = 30, am_user = 7, am_generation = 1, am_uri = demo_profile, am_content = ''likes tea'', am_hash = ''likes tea'',
     am_version = 1, am_state = AutoReady, am_source_session = Some 5, am_source_message = Some 6, am_updated = 3\<rparr>"

definition demo_known :: memory_state where
  "demo_known = demo_start\<lparr>mem_db := (mem_db demo_start)\<lparr>auto_memories := [demo_memory],
     sync_jobs := [(demo_job 20)\<lparr>sj_state := SyncSucceeded, sj_lease := None\<rparr>, demo_job 21]\<rparr>\<rparr>"

lemmas demo_memory_defs = demo_auto_def demo_chat_def demo_job_def demo_diff_def demo_start_def demo_memory_def demo_known_def
  empty_db_def empty_memory_db_def

lemma profile_uri: "memory_uri uid gen (JStr ''viking://~/memories/profile.md'') = Inr (ov_prefix uid gen @ ''profile.md'')"
  by (simp add: memory_uri_def remove_prefix_def ov_segments_ok_def)

lemma demo_memory_publish:
  "publish_sync demo_auto (demo_job 20) demo_diff (\<lambda>i. int i) (\<lambda>i. 30 + i) demo_start = (Inr (), demo_known)"
  by (simp add: publish_sync_def transaction_def committed_def owned_sync_def consent_holds_def apply_operations_def changes_of_def
      dict_get_def get_or_null_def apply_change_def profile_uri demo_profile_def uri_row_def change_text_def strip_def rstrip_def lstrip_def py_space_def
      add_memory_def receipt_uuid_def parse_uuid_str row_insert_def row_get_def settle_sync_def put_sync_def row_put_def set_mem_def
      row_clock_def Let_def demo_memory_defs)

definition demo_world :: "http_answer \<Rightarrow> unit mem_world" where
  "demo_world a = \<lparr>mw_draw = (\<lambda>w. ((\<lambda>i. int i, \<lambda>i. 40 + i), w)), mw_http = (\<lambda>q s. (a, s)), mw_loads = (\<lambda>t. None)\<rparr>"

lemma demo_memory_world_quiet: "others_step (demo_world a)"
  by (simp add: others_step_def demo_world_def)

lemma demo_known_reached: "mems demo_start = []" "rtranclp mem_step demo_start demo_known"
  using mem_step.Publish [OF demo_memory_publish] by (auto simp: demo_start_def empty_memory_db_def)

lemma demo_idle: "sync_once demo_auto (demo_world Broken) (demo_known, ()) = (Inr False, demo_known, ())"
  by (simp add: sync_once_def bind_act_def lift_result_def auto_on_def transact_def claim_sync_def transaction_def committed_def
      sync_claimable_def live_sync_def ret_def demo_world_def demo_memory_defs)

theorem memories_need_consent_witness: "agreed demo_memory demo_known"
  using memories_need_consent [OF demo_known_reached demo_memory_world_quiet demo_idle, of demo_memory]
  by (auto simp: demo_known_def demo_memory_def)

definition demo_gone :: auto_memory where
  "demo_gone = demo_memory\<lparr>am_state := AutoDeleting, am_content := [], am_updated := 3\<rparr>"

definition demo_erased :: memory_state where
  "demo_erased = demo_known\<lparr>mem_db := (mem_db demo_known)\<lparr>auto_memories := [demo_gone],
     sync_jobs := sync_jobs (mem_db demo_known) @ [\<lparr>sj_id = 50, sj_user = 7, sj_generation = 1, sj_dedup = ''delete/'' @ uuid_str 30,
       sj_kind = SyncDelete, sj_state = SyncPending, sj_receipt = [(''phase'', JStr ''new''), (''uri'', JStr demo_profile),
         (''memory_id'', JStr (uuid_str 30))], sj_owner = None, sj_lease = None, sj_available = 0, sj_attempts = 0,
       sj_error = None, sj_created = 0\<rparr>]\<rparr>\<rparr>"

lemma demo_delete: "delete_auto demo_auto 7 30 (\<lambda>i. int i) (\<lambda>i. 50 + i) demo_known = (Inr (), demo_erased)"
  by (simp add: delete_auto_def transaction_def committed_def auto_on_def auto_row_def enqueue_sync_def sync_receipt_of_def
      change_memories_def touched_def erased_def row_clock_def set_mem_def row_insert_def row_get_def demo_gone_def demo_erased_def
      demo_memory_defs)

definition demo_replayed :: memory_state where
  "demo_replayed = settle_sync SyncSucceeded (demo_job 21) demo_erased"

lemma demo_publish_again:
  "publish_sync demo_auto (demo_job 21) demo_diff (\<lambda>i. int i) (\<lambda>i. 60 + i) demo_erased = (Inr (), demo_replayed)"
  by (simp add: publish_sync_def transaction_def committed_def owned_sync_def consent_holds_def apply_operations_def changes_of_def
      dict_get_def get_or_null_def apply_change_def profile_uri demo_profile_def uri_row_def demo_replayed_def demo_gone_def demo_erased_def
      row_get_def Let_def demo_memory_defs)

theorem forgotten_stays_forgotten_witness:
  "publish_sync demo_auto (demo_job 21) demo_diff (\<lambda>i. int i) (\<lambda>i. 60 + i) demo_erased = (Inr (), demo_replayed) \<and>
   am_state (hd (mems demo_replayed)) \<noteq> AutoReady \<and> am_content (hd (mems demo_replayed)) = []"
proof -
  have "rtranclp mem_step demo_start demo_erased"
    using demo_known_reached(2) mem_step.Delete [OF demo_delete] by auto
  moreover have "rtranclp mem_step demo_erased demo_replayed" using mem_step.Publish [OF demo_publish_again] by auto
  moreover have "demo_gone \<in> set (mems demo_erased)" "mems demo_replayed = [demo_gone]" "am_state demo_gone \<noteq> AutoReady"
    by (simp_all add: demo_erased_def demo_replayed_def settle_sync_def put_sync_def demo_gone_def)
  ultimately show ?thesis
    using forgotten_stays_forgotten [OF demo_known_reached(1), of demo_erased demo_gone demo_replayed demo_gone] demo_publish_again by simp
qed

definition demo_answer :: http_answer where
  "demo_answer = Answer 200 False 10 (Some (JObj [(''status'', JStr ''ok''), (''result'', JObj [(''memories'',
     JArr [JObj [(''uri'', JStr ''viking://~/memories/profile.md''), (''score'', JFloat ''0.5'')]])])]))"

lemma demo_recall:
  "search_auto demo_auto (demo_world demo_answer) 7 ''tea'' (demo_known, ()) =
     (Inr ([hit_of 7 demo_known demo_memory (JFloat ''0.5'')], []), demo_known, ())"
  by (simp add: search_auto_def bind_act_def read_db_def recall_generation_def auto_rows_def except_act_def ov_find_def ov_request_def
      demo_world_def demo_answer_def envelope_ok_def get_or_null_def dict_get_def lift_result_def found_memories_def profile_uri
      ret_def recalled_def List.map_filter_def demo_profile_def row_get_def demo_memory_defs)

theorem recall_respects_consent_witness: "\<exists>m\<in>set (mems demo_known). am_id m = 30 \<and> agreed m demo_known"
  using recall_respects_consent [OF demo_recall, of "hit_of 7 demo_known demo_memory (JFloat ''0.5'')"]
  by (auto simp: hit_of_def demo_memory_def)

end
