(* ===== verification/UserMemories.thy ===== *)
theory UserMemories
  imports AutoMemoryProperties Complex_Main
begin

text \<open>
  Memories a user writes down (\<open>app/service/memories.py\<close>): their text, the version that the
  index in the vector store has to match, and the context that recall gives a question, fused
  with automatic memory. Embeddings and the vector store are parameters; other requests may
  change the tables while they run.
\<close>

text \<open>\<open>normalize_memory\<close>.\<close>

definition normalize_memory :: "string \<Rightarrow> string" where
  "normalize_memory s =
     joined [CHR 0x0A] (map rstrip (split_on CHR 0x0A
       (replace_all [CHR 0x0D] [CHR 0x0A] (replace_all [CHR 0x0D, CHR 0x0A] [CHR 0x0A] (strip s)))))"

record user_memory_env =
  ue_max_items :: nat
  ue_top_k :: nat
  ue_sha256 :: "string \<Rightarrow> string"

text \<open>A hit of the vector store: the text of the memory's identifier, a version and a score.\<close>

type_synonym vector_hit = "string \<times> json \<times> json"

record ('w, 'v) vector_world =
  vw_draw :: "'w \<Rightarrow> (clock \<times> (nat \<Rightarrow> uuid)) \<times> 'w"
  vw_embed :: "string \<Rightarrow> (memory_state, 'w, 'v) action"
  vw_upsert :: "uuid \<Rightarrow> uuid \<Rightarrow> int \<Rightarrow> 'v \<Rightarrow> (memory_state, 'w, unit) action"
  vw_delete :: "uuid \<Rightarrow> uuid \<Rightarrow> (memory_state, 'w, unit) action"
  vw_search :: "uuid \<Rightarrow> 'v \<Rightarrow> nat \<Rightarrow> (memory_state, 'w, vector_hit list) action"

section \<open>Rows\<close>

definition memories_of :: "uuid \<Rightarrow> memory_state \<Rightarrow> user_memory list" where
  "memories_of uid s = sort_key (\<lambda>m. - um_updated m) (filter (\<lambda>m. um_user m = uid) (user_memories (mem_db s)))"

definition memory_of :: "uuid \<Rightarrow> uuid \<Rightarrow> memory_state \<Rightarrow> user_memory result" where
  "memory_of uid mid s = require_row (find (\<lambda>m. um_id m = mid \<and> um_user m = uid) (user_memories (mem_db s))) not_found"

definition memory_count :: "uuid \<Rightarrow> memory_state \<Rightarrow> nat" where
  "memory_count uid s = length (filter (\<lambda>m. um_user m = uid) (user_memories (mem_db s)))"

text \<open>The unique index on a user's texts.\<close>

definition text_taken :: "user_memory \<Rightarrow> memory_state \<Rightarrow> bool" where
  "text_taken m s = list_ex (\<lambda>x. um_user x = um_user m \<and> um_hash x = um_hash m \<and> um_id x \<noteq> um_id m) (user_memories (mem_db s))"

definition put_memory :: "time \<Rightarrow> user_memory \<Rightarrow> memory_state \<Rightarrow> memory_state" where
  "put_memory now m s = set_mem ((mem_db s)\<lparr>user_memories :=
     row_put um_id (if m \<in> set (user_memories (mem_db s)) then m else m\<lparr>um_updated := now\<rparr>) (user_memories (mem_db s))\<rparr>) s"

section \<open>Writing\<close>

definition new_memory :: "user_memory_env \<Rightarrow> uuid \<Rightarrow> string \<Rightarrow> string \<Rightarrow> uuid option \<Rightarrow> uuid option \<Rightarrow> uuid \<Rightarrow> time \<Rightarrow> user_memory" where
  "new_memory e uid text via sid mid i now = \<lparr>um_id = i, um_user = uid, um_content = text, um_hash = ue_sha256 e text, um_version = 1,
     um_status = MemProcessing, um_via = via, um_source_session = sid, um_source_message = mid, um_vector_updated = None,
     um_error = None, um_updated = now\<rparr>"

definition create_memory_body ::
    "user_memory_env \<Rightarrow> uuid \<Rightarrow> string \<Rightarrow> string \<Rightarrow> uuid option \<Rightarrow> uuid option \<Rightarrow> clock \<Rightarrow> (nat \<Rightarrow> uuid) \<Rightarrow> memory_state \<Rightarrow> (memory_state, uuid) outcome" where
  "create_memory_body e uid text via sid mid clk ids =
     transaction (\<lambda>s.
       and_then (raise_if (ue_max_items e \<le> memory_count uid s) (AppError ''MEMORY_LIMIT_REACHED'' 409)) (\<lambda>_.
       let m = new_memory e uid text via sid mid (ids 0) (clk 0) in
       and_then (raise_if (row_get um_id (ids 0) (user_memories (mem_db s)) \<noteq> None \<or> text_taken m s) (AppError ''DUPLICATE_MEMORY'' 409)) (\<lambda>_.
         committed (ids 0) (set_mem ((mem_db s)\<lparr>user_memories := user_memories (mem_db s) @ [m]\<rparr>) s))))"

definition ready_memory :: "uuid \<Rightarrow> uuid \<Rightarrow> int \<Rightarrow> clock \<Rightarrow> (nat \<Rightarrow> uuid) \<Rightarrow> memory_state \<Rightarrow> (memory_state, user_memory) outcome" where
  "ready_memory uid mid v clk ids =
     transaction (\<lambda>s.
       and_then (memory_of uid mid s) (\<lambda>m.
         if um_version m = v \<and> um_status m = MemProcessing then
           let m' = m\<lparr>um_status := MemReady, um_vector_updated := Some (clk 0), um_error := None\<rparr>
           in committed (m'\<lparr>um_updated := clk 1\<rparr>) (put_memory (clk 1) m' s)
         else committed m s))"

definition exn_class :: "exn \<Rightarrow> string" where
  "exn_class x = (case x of AppError c s \<Rightarrow> ''AppError'' | UpstreamError c r \<Rightarrow> ''UpstreamError'' | OtherError n \<Rightarrow> n)"

definition fail_memory :: "uuid \<Rightarrow> uuid \<Rightarrow> int \<Rightarrow> exn \<Rightarrow> clock \<Rightarrow> (nat \<Rightarrow> uuid) \<Rightarrow> memory_state \<Rightarrow> (memory_state, unit) outcome" where
  "fail_memory uid mid v x clk ids =
     transaction (\<lambda>s.
       and_then (memory_of uid mid s) (\<lambda>m.
         committed () (if um_version m = v then put_memory (clk 0) (m\<lparr>um_status := MemFailed, um_error := Some (exn_class x)\<rparr>) s else s)))"

text \<open>\<open>_index\<close>: the vector of the version read first; only that version becomes ready.\<close>

definition index_memory :: "('w, 'v) vector_world \<Rightarrow> uuid \<Rightarrow> uuid \<Rightarrow> (memory_state, 'w, user_memory) action" where
  "index_memory vw uid mid =
     bind_act (read_db (memory_of uid mid)) (\<lambda>m.
       except_act
         (bind_act (vw_embed vw (um_content m)) (\<lambda>v.
          bind_act (vw_upsert vw uid mid (um_version m) v) (\<lambda>_.
            transact (vw_draw vw) (ready_memory uid mid (um_version m)))))
         (\<lambda>x. bind_act (transact (vw_draw vw) (fail_memory uid mid (um_version m) x)) (\<lambda>_. raising x)))"

definition memory_text :: "string \<Rightarrow> string result" where
  "memory_text content =
     (let text = normalize_memory content
      in and_then (raise_if (text = [] \<or> 500 < length text) (AppError ''INVALID_MEMORY'' 422)) (\<lambda>_. Inr text))"

definition create_memory ::
    "user_memory_env \<Rightarrow> ('w, 'v) vector_world \<Rightarrow> uuid \<Rightarrow> string \<Rightarrow> string \<Rightarrow> uuid option \<Rightarrow> uuid option \<Rightarrow> (memory_state, 'w, user_memory) action" where
  "create_memory e vw uid content via sid mid =
     bind_act (lift_result (memory_text content)) (\<lambda>text.
     bind_act (transact (vw_draw vw) (create_memory_body e uid text via sid mid)) (\<lambda>i. index_memory vw uid i))"

definition update_memory_body :: "user_memory_env \<Rightarrow> uuid \<Rightarrow> uuid \<Rightarrow> string \<Rightarrow> clock \<Rightarrow> (nat \<Rightarrow> uuid) \<Rightarrow> memory_state \<Rightarrow> (memory_state, unit) outcome" where
  "update_memory_body e uid mid text clk ids =
     transaction (\<lambda>s.
       and_then (memory_of uid mid s) (\<lambda>m.
       let m' = m\<lparr>um_content := text, um_hash := ue_sha256 e text, um_version := um_version m + 1,
                  um_status := MemProcessing, um_error := None\<rparr> in
       and_then (raise_if (text_taken m' s) (AppError ''DUPLICATE_MEMORY'' 409)) (\<lambda>_.
         committed () (put_memory (clk 0) m' s))))"

definition update_memory :: "user_memory_env \<Rightarrow> ('w, 'v) vector_world \<Rightarrow> uuid \<Rightarrow> uuid \<Rightarrow> string \<Rightarrow> (memory_state, 'w, user_memory) action" where
  "update_memory e vw uid mid content =
     bind_act (lift_result (memory_text content)) (\<lambda>text.
     bind_act (transact (vw_draw vw) (update_memory_body e uid mid text)) (\<lambda>_. index_memory vw uid mid))"

definition retry_memory_body :: "uuid \<Rightarrow> uuid \<Rightarrow> clock \<Rightarrow> (nat \<Rightarrow> uuid) \<Rightarrow> memory_state \<Rightarrow> (memory_state, unit) outcome" where
  "retry_memory_body uid mid clk ids =
     transaction (\<lambda>s.
       and_then (memory_of uid mid s) (\<lambda>m.
       and_then (raise_if (um_status m \<noteq> MemFailed \<and> um_status m \<noteq> MemProcessing) (AppError ''INVALID_MEMORY_STATE'' 409)) (\<lambda>_.
         committed () (put_memory (clk 0) (m\<lparr>um_status := MemProcessing, um_error := None\<rparr>) s))))"

definition retry_memory :: "('w, 'v) vector_world \<Rightarrow> uuid \<Rightarrow> uuid \<Rightarrow> (memory_state, 'w, user_memory) action" where
  "retry_memory vw uid mid =
     bind_act (transact (vw_draw vw) (retry_memory_body uid mid)) (\<lambda>_. index_memory vw uid mid)"

definition delete_memory_start :: "uuid \<Rightarrow> uuid \<Rightarrow> clock \<Rightarrow> (nat \<Rightarrow> uuid) \<Rightarrow> memory_state \<Rightarrow> (memory_state, unit) outcome" where
  "delete_memory_start uid mid clk ids =
     transaction (\<lambda>s. and_then (memory_of uid mid s) (\<lambda>m. committed () (put_memory (clk 0) (m\<lparr>um_status := MemDeleting\<rparr>) s)))"

definition delete_memory_end :: "uuid \<Rightarrow> uuid \<Rightarrow> clock \<Rightarrow> (nat \<Rightarrow> uuid) \<Rightarrow> memory_state \<Rightarrow> (memory_state, unit) outcome" where
  "delete_memory_end uid mid clk ids =
     transaction (\<lambda>s. and_then (memory_of uid mid s) (\<lambda>m.
       committed () (set_mem ((mem_db s)\<lparr>user_memories := row_del (\<lambda>x. um_id x = mid) (user_memories (mem_db s))\<rparr>) s)))"

definition delete_memory :: "('w, 'v) vector_world \<Rightarrow> uuid \<Rightarrow> uuid \<Rightarrow> (memory_state, 'w, unit) action" where
  "delete_memory vw uid mid =
     bind_act (transact (vw_draw vw) (delete_memory_start uid mid)) (\<lambda>_.
     bind_act (vw_delete vw uid mid) (\<lambda>_.
       transact (vw_draw vw) (delete_memory_end uid mid)))"

section \<open>Recall\<close>

definition memory_hit_of :: "user_memory \<Rightarrow> json \<Rightarrow> memory_hit" where
  "memory_hit_of m score = \<lparr>mh_id = um_id m, mh_content = um_content m, mh_version = um_version m, mh_score = score,
     mh_asserted = isoformat (um_updated m)\<rparr>"

fun read_vector_hits :: "user_memory list \<Rightarrow> vector_hit list \<Rightarrow> memory_hit list result" where
  "read_vector_hits ready [] = Inr []"
| "read_vector_hits ready ((i, v, score) # rest) =
     and_then (require_row (parse_uuid i) (OtherError ''ValueError'')) (\<lambda>mid.
     and_then (read_vector_hits ready rest) (\<lambda>hits.
       Inr (case find (\<lambda>m. um_id m = mid) ready of
          None \<Rightarrow> hits
        | Some m \<Rightarrow> if JInt (um_version m) = v then memory_hit_of m score # hits else hits)))"

definition search_memories :: "user_memory_env \<Rightarrow> ('w, 'v) vector_world \<Rightarrow> uuid \<Rightarrow> string \<Rightarrow> (memory_state, 'w, memory_hit list) action" where
  "search_memories e vw uid query =
     bind_act (read_db (\<lambda>s. Inr (filter (\<lambda>m. um_status m = MemReady) (memories_of uid s)))) (\<lambda>ready.
       if ready = [] then ret []
       else
         bind_act (vw_embed vw query) (\<lambda>v.
         bind_act (vw_search vw uid v (ue_top_k e)) (\<lambda>hits.
           lift_result (read_vector_hits ready hits))))"

text \<open>
  Fusion by rank: \<open>merged\<close> maps a normalized text to the first hit with it and to the sum of
  \<open>1 / (60 + rank + 1)\<close> over both lists. The sums are exact here; Python rounds them.
\<close>

type_synonym fused = "(string \<times> memory_hit \<times> rat) list"

fun fuse_into :: "string \<Rightarrow> memory_hit \<Rightarrow> rat \<Rightarrow> fused \<Rightarrow> fused" where
  "fuse_into key item w [] = [(key, item, w)]"
| "fuse_into key item w ((k, i, x) # rest) = (if k = key then (k, i, x + w) # rest else (k, i, x) # fuse_into key item w rest)"

fun fuse_list :: "nat \<Rightarrow> memory_hit list \<Rightarrow> fused \<Rightarrow> fused" where
  "fuse_list rank [] acc = acc"
| "fuse_list rank (h # hs) acc = fuse_list (rank + 1) hs (fuse_into (normalize_memory (mh_content h)) h (1 / of_nat (60 + rank + 1)) acc)"

definition fuse_hits :: "nat \<Rightarrow> memory_hit list \<Rightarrow> memory_hit list \<Rightarrow> (memory_hit \<times> rat) list" where
  "fuse_hits k manual auto = take k (sort_key (\<lambda>x. - snd x) (map snd (fuse_list 0 auto (fuse_list 0 manual []))))"

text \<open>What a question gets: the own memories with their scores, or both kinds fused.\<close>

datatype memory_context = Manual_only "memory_hit list" | Fused "(memory_hit \<times> rat) list"

definition search_context ::
    "user_memory_env \<Rightarrow> ('w, 'v) vector_world \<Rightarrow> (auto_env \<times> (memory_state, 'w) memory_world) option \<Rightarrow> uuid \<Rightarrow> string
     \<Rightarrow> (memory_state, 'w, memory_context \<times> string list) action" where
  "search_context e vw automatic uid query =
     bind_act (search_memories e vw uid query) (\<lambda>manual.
     bind_act (case automatic of None \<Rightarrow> ret ([], []) | Some (ae, mw) \<Rightarrow> search_auto ae mw uid query) (\<lambda>(auto, warnings).
       ret (if auto = [] then Manual_only manual else Fused (fuse_hits (ue_top_k e) manual auto), warnings)))"

section \<open>Fusion\<close>

abbreviation hit_key :: "memory_hit \<Rightarrow> string" where
  "hit_key h \<equiv> normalize_memory (mh_content h)"

definition fused_ok :: "memory_hit list \<Rightarrow> fused \<Rightarrow> bool" where
  "fused_ok sources acc \<longleftrightarrow> distinct (map fst acc) \<and> (\<forall>t\<in>set acc. fst t = hit_key (fst (snd t)) \<and> fst (snd t) \<in> set sources \<and> 0 < snd (snd t))"

lemma fuse_into_keys: "set (map fst (fuse_into key item w acc)) = insert key (set (map fst acc))"
  by (induction key item w acc rule: fuse_into.induct) auto

lemma fused_ok_Cons:
  "fused_ok sources (t # acc) \<longleftrightarrow> fst t \<notin> set (map fst acc) \<and> (fst t = hit_key (fst (snd t)) \<and> fst (snd t) \<in> set sources \<and>
     0 < snd (snd t)) \<and> fused_ok sources acc"
  unfolding fused_ok_def list.map distinct.simps list.set ball_simps by blast

lemma fuse_into_ok:
  assumes "h \<in> set sources" "0 < w"
  shows "fused_ok sources acc \<Longrightarrow> fused_ok sources (fuse_into (hit_key h) h w acc)"
proof (induction acc)
  case Nil
  then show ?case using assms by (simp add: fused_ok_def)
next
  case (Cons a acc)
  obtain k i x where a: "a = (k, i, x)" by (metis prod_cases3)
  have ok: "k \<notin> set (map fst acc)" "k = hit_key i \<and> i \<in> set sources \<and> 0 < x" "fused_ok sources acc"
    using Cons.prems unfolding a fused_ok_Cons fst_conv snd_conv by blast+
  show ?case
  proof (cases "k = hit_key h")
    case True
    have "0 < x + w" using ok(2) assms(2) by simp
    then show ?thesis unfolding a fuse_into.simps if_P [OF True] fused_ok_Cons fst_conv snd_conv using ok by blast
  next
    case False
    have "k \<notin> set (map fst (fuse_into (hit_key h) h w acc))"
      using False ok(1) unfolding fuse_into_keys by blast
    then show ?thesis unfolding a fuse_into.simps if_not_P [OF False] fused_ok_Cons fst_conv snd_conv
      using ok Cons.IH by blast
  qed
qed

lemma fuse_list_ok: "fused_ok sources acc \<Longrightarrow> set hs \<subseteq> set sources \<Longrightarrow> fused_ok sources (fuse_list n hs acc)"
proof (induction n hs acc rule: fuse_list.induct)
  case (2 rank h hs acc)
  have "(0::rat) < 1 / of_nat (60 + rank + 1)" by (simp add: add_pos_nonneg)
  from 2(1) [OF fuse_into_ok [OF _ this 2(2)]] 2(3) show ?case by simp
qed simp

lemma fuse_hits_props:
  fixes k manual auto
  defines "xs \<equiv> fuse_hits k manual auto"
  shows "length xs \<le> k" "distinct (map (\<lambda>x. hit_key (fst x)) xs)" "sorted_wrt (\<lambda>a b. snd b \<le> snd a) xs"
    and "\<forall>(h, x)\<in>set xs. (h \<in> set manual \<or> h \<in> set auto) \<and> 0 < x"
proof -
  let ?acc = "fuse_list 0 auto (fuse_list 0 manual [])"
  let ?ys = "sort_key (\<lambda>x. - snd x) (map snd ?acc)"
  have ok: "fused_ok (manual @ auto) ?acc" by (intro fuse_list_ok) (auto simp: fused_ok_def)
  show "length xs \<le> k" by (simp add: xs_def fuse_hits_def)
  have keys: "map (\<lambda>x. hit_key (fst x)) (map snd ?acc) = map fst ?acc"
    unfolding map_map by (rule map_cong [OF refl]) (use ok in \<open>simp add: fused_ok_def\<close>)
  have "mset (map (\<lambda>x. hit_key (fst x)) ?ys) = mset (map (\<lambda>x. hit_key (fst x)) (map snd ?acc))"
    by (simp only: mset_map mset_sort)
  then have "distinct (map (\<lambda>x. hit_key (fst x)) ?ys)"
    using ok mset_eq_imp_distinct_iff unfolding keys fused_ok_def by blast
  then show "distinct (map (\<lambda>x. hit_key (fst x)) xs)"
    by (simp add: xs_def fuse_hits_def take_map [symmetric])
  have "sorted_wrt (\<lambda>a b. snd b \<le> snd a) ?ys"
    using sorted_sort_key [of "\<lambda>x. - snd x" "map snd ?acc"] by (simp add: sorted_map)
  then show "sorted_wrt (\<lambda>a b. snd b \<le> snd a) xs"
    by (simp add: xs_def fuse_hits_def sorted_wrt_take)
  show "\<forall>(h, x)\<in>set xs. (h \<in> set manual \<or> h \<in> set auto) \<and> 0 < x"
    using ok by (fastforce simp: xs_def fuse_hits_def fused_ok_def dest!: in_set_takeD)
qed

section \<open>Properties\<close>

text \<open>
  C31: the memories a question gets stay within the budget. A fused context has at most
  \<open>memory_top_k\<close> memories, none twice (up to the normalization of its text), best first, and
  each is a ready memory of the asking user whose vector is of its current text, or was
  recalled automatically.
\<close>

theorem fused_context_bounded:
  assumes "search_context e vw automatic uid query t = (Inr (Fused xs, ws), t')"
  shows "length xs \<le> ue_top_k e \<and> distinct (map (\<lambda>x. hit_key (fst x)) xs) \<and> sorted_wrt (\<lambda>a b. snd b \<le> snd a) xs \<and>
    (\<exists>manual t1 auto. search_memories e vw uid query t = (Inr manual, t1) \<and>
      (case automatic of None \<Rightarrow> ret ([], []) | Some (ae, mw) \<Rightarrow> search_auto ae mw uid query) t1 = (Inr (auto, ws), t') \<and>
      (\<forall>(h, x)\<in>set xs. (h \<in> set manual \<or> h \<in> set auto) \<and> 0 < x))"
proof -
  obtain manual t1 auto where m: "search_memories e vw uid query t = (Inr manual, t1)"
    and a: "(case automatic of None \<Rightarrow> ret ([], []) | Some (ae, mw) \<Rightarrow> search_auto ae mw uid query) t1 = (Inr (auto, ws), t')"
    and xs: "xs = fuse_hits (ue_top_k e) manual auto"
    using assms by (auto simp: search_context_def act_simps split: if_splits)
  show ?thesis using m a fuse_hits_props [of "ue_top_k e" manual auto] unfolding xs by blast
qed

definition demo_vectors :: "(unit, unit) vector_world" where
  "demo_vectors = \<lparr>vw_draw = (\<lambda>w. ((\<lambda>i. int i, \<lambda>i. i), w)), vw_embed = (\<lambda>t. ret ()), vw_upsert = (\<lambda>u m v x. ret ()),
     vw_delete = (\<lambda>u m. ret ()), vw_search = (\<lambda>u v k. ret [])\<rparr>"

theorem fused_context_bounded_witness:
  "\<exists>xs. search_context \<lparr>ue_max_items = 10, ue_top_k = 3, ue_sha256 = id\<rparr> demo_vectors (Some (demo_auto, demo_world demo_answer)) 7 ''tea'' (demo_known, ()) =
     (Inr (Fused xs, []), demo_known, ()) \<and> length xs \<le> 3 \<and> map (mh_content \<circ> fst) xs = [''likes tea'']"
proof -
  let ?e = "\<lparr>ue_max_items = 10, ue_top_k = 3, ue_sha256 = id\<rparr>"
  let ?xs = "fuse_hits 3 [] [hit_of 7 demo_known demo_memory (JFloat ''0.5'')]"
  have m: "search_memories ?e demo_vectors 7 ''tea'' (demo_known, ()) = (Inr [], demo_known, ())"
    by (simp add: search_memories_def bind_act_def read_db_def memories_of_def ret_def demo_known_def demo_start_def empty_memory_db_def)
  have c: "search_context ?e demo_vectors (Some (demo_auto, demo_world demo_answer)) 7 ''tea'' (demo_known, ()) =
     (Inr (Fused ?xs, []), demo_known, ())"
    by (simp add: search_context_def bind_act_def m demo_recall ret_def)
  moreover have "length ?xs \<le> 3" using fused_context_bounded [OF c] by simp
  moreover have "map (mh_content \<circ> fst) ?xs = [mh_content (hit_of 7 demo_known demo_memory (JFloat ''0.5''))]" by (simp add: fuse_hits_def)
  moreover have "mh_content (hit_of 7 demo_known demo_memory (JFloat ''0.5'')) = ''likes tea''"
    by (simp add: hit_of_def demo_memory_def)
  ultimately show ?thesis by (intro exI [of _ ?xs]) (simp only: conj_assoc simp_thms)
qed

end
