(* ===== verification/Auth.thy ===== *)
theory Auth
  imports Repository Effects "HOL-Library.AList"
begin

text \<open>
  Accounts and sessions (\<open>app/service/auth.py\<close>): registration, login, access tokens, the
  rotation of refresh tokens, and the limit on attempts. A state is the database and the
  buckets of recent attempts, which live in the process and survive a rollback. Password
  hashing, SHA-256, and the encoding and verification of tokens are parameters.
\<close>

type_synonym attempts = "(string \<times> time list) list"

record token_claims =
  tc_sub :: string
  tc_sid :: string
  tc_jti :: string
  tc_use :: string
  tc_issuer :: string
  tc_audience :: string
  tc_issued :: time
  tc_not_before :: time
  tc_expires :: time

text \<open>\<open>aq_hash salt password\<close>; \<open>aq_decode now token\<close> is \<open>None\<close> for a token that \<open>jwt.decode\<close> rejects.\<close>

record auth_env =
  aq_registration :: bool
  aq_admin_code :: string
  aq_access_minutes :: int
  aq_refresh_days :: int
  aq_issuer :: string
  aq_audience :: string
  aq_origin :: string
  aq_hash :: "nat \<Rightarrow> string \<Rightarrow> string"
  aq_verify :: "string \<Rightarrow> string \<Rightarrow> bool"
  aq_dummy :: string
  aq_digest :: "string \<Rightarrow> string"
  aq_encode :: "token_claims \<Rightarrow> string"
  aq_decode :: "time \<Rightarrow> string \<Rightarrow> token_claims option"

text \<open>What a request draws: readings of the two clocks, identifiers, random text, salts.\<close>

record auth_draw =
  dw_utc :: clock
  dw_mono :: clock
  dw_ids :: "nat \<Rightarrow> uuid"
  dw_random :: "nat \<Rightarrow> string"
  dw_salt :: nat

type_synonym 'a auth_act = "(db, attempts, 'a) action"

definition unauthorized :: exn where
  "unauthorized = AppError ''UNAUTHORIZED'' 401"

section \<open>Names, passwords and attempts\<close>

definition username_char :: "char \<Rightarrow> bool" where
  "username_char c = (lower_char c \<or> digit_char_p c \<or> c = CHR ''_'' \<or> c = CHR ''-'')"

definition normalize_username :: "string \<Rightarrow> string result" where
  "normalize_username v =
     (let name = map lower (strip v)
      in and_then (raise_if (\<not> (3 \<le> length name \<and> length name \<le> 32 \<and> (\<forall>c\<in>set name. username_char c)))
            (AppError ''INVALID_USERNAME'' 422)) (\<lambda>_. Inr name))"

definition validate_password :: "string \<Rightarrow> unit result" where
  "validate_password v = raise_if (\<not> (6 \<le> length v \<and> length v \<le> 30)) (AppError ''INVALID_PASSWORD'' 422)"

definition limit_window :: time where
  "limit_window = 900 * 1000000"

definition bucket_of :: "string \<Rightarrow> attempts \<Rightarrow> time list" where
  "bucket_of key a = (case map_of a key of None \<Rightarrow> [] | Some b \<Rightarrow> b)"

definition recent :: "time \<Rightarrow> time list \<Rightarrow> time list" where
  "recent now b = dropWhile (\<lambda>t. t \<le> now - limit_window) b"

definition attempt_key :: "string \<Rightarrow> string \<Rightarrow> string" where
  "attempt_key namespace v = namespace @ '':'' @ v"

text \<open>\<open>_limit\<close>: the bucket loses what has left the window, refuses when it is full, and records.\<close>

definition limit_attempts :: "string \<Rightarrow> string \<Rightarrow> nat \<Rightarrow> bool \<Rightarrow> time \<Rightarrow> unit auth_act" where
  "limit_attempts namespace v limit record_it now s =
     (let key = attempt_key namespace v; b = recent now (bucket_of key (snd s)) in
      if limit \<le> length b then (Inl (AppError ''AUTH_RATE_LIMITED'' 429), fst s, AList.update key b (snd s))
      else (Inr (), fst s, AList.update key (if record_it then b @ [now] else b) (snd s)))"

section \<open>Tokens\<close>

definition refresh_token :: "uuid \<Rightarrow> string \<Rightarrow> string" where
  "refresh_token sid secret = uuid_str sid @ ''.'' @ secret"

definition access_claims :: "auth_env \<Rightarrow> uuid \<Rightarrow> uuid \<Rightarrow> uuid \<Rightarrow> time \<Rightarrow> token_claims" where
  "access_claims e uid sid jti now = \<lparr>tc_sub = uuid_str uid, tc_sid = uuid_str sid, tc_jti = uuid_str jti, tc_use = ''access'',
     tc_issuer = aq_issuer e, tc_audience = aq_audience e, tc_issued = now, tc_not_before = now,
     tc_expires = now + aq_access_minutes e * 60 * 1000000\<rparr>"

definition access_token :: "auth_env \<Rightarrow> uuid \<Rightarrow> uuid \<Rightarrow> uuid \<Rightarrow> time \<Rightarrow> string \<times> int" where
  "access_token e uid sid jti now = (aq_encode e (access_claims e uid sid jti now), aq_access_minutes e * 60)"

definition db_step :: "(db \<Rightarrow> (db, 'a) outcome) \<Rightarrow> 'a auth_act" where
  "db_step f s = (case f (fst s) of (r, d) \<Rightarrow> (r, d, snd s))"

definition new_session :: "auth_env \<Rightarrow> uuid \<Rightarrow> uuid \<Rightarrow> string \<Rightarrow> clock \<Rightarrow> auth_session" where
  "new_session e uid sid refresh clk = \<lparr>as_id = sid, as_user = uid, as_refresh_hash = aq_digest e refresh,
     as_expires = clk 0 + aq_refresh_days e * 86400 * 1000000, as_last_refreshed = clk 1, as_revoked = None\<rparr>"

definition issue_session :: "auth_env \<Rightarrow> auth_draw \<Rightarrow> user \<Rightarrow> (string \<times> string \<times> int) auth_act" where
  "issue_session e dw u =
     (let sid = dw_ids dw 1; refresh = refresh_token sid (dw_random dw 0) in
      bind_act (db_step (transaction (\<lambda>d.
        and_then (row_insert as_id (new_session e (u_id u) sid refresh (dw_utc dw)) (auth_sessions d)) (\<lambda>rows.
          committed () (d\<lparr>auth_sessions := rows\<rparr>))))) (\<lambda>_.
        ret (let (access, secs) = access_token e (u_id u) sid (dw_ids dw 2) (dw_utc dw 2) in (access, refresh, secs))))"

section \<open>Registration and login\<close>

definition admin_role :: "auth_env \<Rightarrow> auth_draw \<Rightarrow> string option \<Rightarrow> string \<Rightarrow> platform_role auth_act" where
  "admin_role e dw code ip = (case code of
     None \<Rightarrow> ret RoleUser
   | Some c \<Rightarrow>
       if c = [] then ret RoleUser
       else
         bind_act (limit_attempts ''register:admin'' ip 10 True (dw_mono dw 1)) (\<lambda>_.
         bind_act (lift_result (raise_if (aq_admin_code e = [] \<or> c \<noteq> aq_admin_code e) (AppError ''INVALID_ADMIN_CODE'' 403))) (\<lambda>_.
           ret RoleAdmin)))"

definition insert_user :: "user \<Rightarrow> db \<Rightarrow> (db, user) outcome" where
  "insert_user u = transaction (\<lambda>d.
     and_then (raise_if (row_get u_id (u_id u) (users d) \<noteq> None \<or> user_by_username (u_name u) d \<noteq> None) (AppError ''USERNAME_TAKEN'' 409)) (\<lambda>_.
       committed u (d\<lparr>users := users d @ [u]\<rparr>)))"

definition register :: "auth_env \<Rightarrow> auth_draw \<Rightarrow> string \<Rightarrow> string \<Rightarrow> string option \<Rightarrow> string \<Rightarrow> (user \<times> string \<times> string \<times> int) auth_act" where
  "register e dw username password code ip =
     bind_act (lift_result (and_then (raise_if (\<not> aq_registration e) (AppError ''REGISTRATION_DISABLED'' 403)) (\<lambda>_.
       and_then (normalize_username username) (\<lambda>name.
       and_then (validate_password password) (\<lambda>_. Inr name))))) (\<lambda>name.
     bind_act (limit_attempts ''register:ip'' ip 30 True (dw_mono dw 0)) (\<lambda>_.
     bind_act (admin_role e dw code ip) (\<lambda>role.
     bind_act (db_step (insert_user \<lparr>u_id = dw_ids dw 0, u_name = name, u_password_hash = aq_hash e (dw_salt dw) password,
         u_role = role, u_active = True\<rparr>)) (\<lambda>u.
     bind_act (issue_session e dw u) (\<lambda>tokens. ret (u, tokens))))))"

definition client_address :: "string \<Rightarrow> string" where
  "client_address ip = (if ip = [] then ''unknown'' else ip)"

definition credentials_ok :: "auth_env \<Rightarrow> user option \<Rightarrow> string \<Rightarrow> bool" where
  "credentials_ok e u password =
     (aq_verify e password (case u of None \<Rightarrow> aq_dummy e | Some x \<Rightarrow> u_password_hash x) \<and> (case u of None \<Rightarrow> False | Some x \<Rightarrow> u_active x))"

text \<open>A refused login counts against the name and the address; a full bucket answers for the refusal.\<close>

definition refuse_login :: "auth_draw \<Rightarrow> string \<Rightarrow> string \<Rightarrow> 'a auth_act" where
  "refuse_login dw name ip =
     bind_act (limit_attempts ''login:user'' name 10 True (dw_mono dw 2)) (\<lambda>_.
     bind_act (limit_attempts ''login:ip'' (client_address ip) 30 True (dw_mono dw 3)) (\<lambda>_.
       raising (AppError ''INVALID_CREDENTIALS'' 401)))"

definition login :: "auth_env \<Rightarrow> auth_draw \<Rightarrow> string \<Rightarrow> string \<Rightarrow> string \<Rightarrow> (user \<times> string \<times> string \<times> int) auth_act" where
  "login e dw username password ip =
     bind_act (lift_result (normalize_username username)) (\<lambda>name.
     bind_act (limit_attempts ''login:user'' name 10 False (dw_mono dw 0)) (\<lambda>_.
     bind_act (limit_attempts ''login:ip'' (client_address ip) 30 False (dw_mono dw 1)) (\<lambda>_.
     bind_act (read_db (\<lambda>d. Inr (user_by_username name d))) (\<lambda>found. case found of
         None \<Rightarrow> refuse_login dw name ip
       | Some u \<Rightarrow>
           if credentials_ok e found password then bind_act (issue_session e dw u) (\<lambda>tokens. ret (u, tokens))
           else refuse_login dw name ip))))"

section \<open>Requests of a session\<close>

record auth_context =
  ax_user :: uuid
  ax_name :: string
  ax_session :: uuid
  ax_role :: platform_role

definition token_ids :: "auth_env \<Rightarrow> time \<Rightarrow> string \<Rightarrow> (uuid \<times> uuid) result" where
  "token_ids e now token =
     and_then (require_row (aq_decode e now token) unauthorized) (\<lambda>c.
     and_then (raise_if (tc_use c \<noteq> ''access'') unauthorized) (\<lambda>_.
     and_then (require_row (parse_uuid (tc_sub c)) unauthorized) (\<lambda>uid.
     and_then (require_row (parse_uuid (tc_sid c)) unauthorized) (\<lambda>sid.
     and_then (require_row (parse_uuid (tc_jti c)) unauthorized) (\<lambda>_. Inr (uid, sid))))))"

definition authenticate :: "auth_env \<Rightarrow> clock \<Rightarrow> string \<Rightarrow> db \<Rightarrow> auth_context result" where
  "authenticate e clk token d =
     and_then (token_ids e (clk 0) token) (\<lambda>(uid, sid).
     and_then (require_row (active_auth_session (clk 1) uid sid d) unauthorized) (\<lambda>s.
     and_then (require_row (get_user uid d) (OtherError ''AttributeError'')) (\<lambda>u.
       Inr \<lparr>ax_user = u_id u, ax_name = u_name u, ax_session = as_id s, ax_role = u_role u\<rparr>)))"

definition put_session :: "auth_session \<Rightarrow> db \<Rightarrow> db" where
  "put_session s d = d\<lparr>auth_sessions := row_put as_id s (auth_sessions d)\<rparr>"

text \<open>
  \<open>refresh\<close>: the presented token is used up. One that was used before ends the session, and
  that is committed before the error is raised.
\<close>

definition refresh_session :: "auth_env \<Rightarrow> auth_draw \<Rightarrow> string \<Rightarrow> db \<Rightarrow> (db, user \<times> string \<times> string \<times> int) outcome" where
  "refresh_session e dw presented =
     transaction (\<lambda>d.
       and_then (require_row (parse_uuid (takeWhile (\<lambda>c. c \<noteq> CHR ''.'') presented)) unauthorized) (\<lambda>sid.
       and_then (require_row (auth_session_row sid d) unauthorized) (\<lambda>s.
       and_then (raise_if (as_revoked s \<noteq> None \<or> as_expires s \<le> dw_utc dw 0) unauthorized) (\<lambda>_.
         if as_refresh_hash s \<noteq> aq_digest e presented
         then commit_raise (AppError ''REFRESH_REPLAYED'' 401) (put_session (s\<lparr>as_revoked := Some (dw_utc dw 1)\<rparr>) d)
         else
           and_then (require_row (get_user (as_user s) d) unauthorized) (\<lambda>u.
           and_then (raise_if (\<not> u_active u) unauthorized) (\<lambda>_.
             let new = refresh_token (as_id s) (dw_random dw 0);
                 (access, secs) = access_token e (u_id u) (as_id s) (dw_ids dw 0) (dw_utc dw 2)
             in committed (u, access, new, secs)
                  (put_session (s\<lparr>as_refresh_hash := aq_digest e new, as_last_refreshed := dw_utc dw 1\<rparr>) d)))))))"

definition logout :: "auth_context \<Rightarrow> time \<Rightarrow> db \<Rightarrow> (db, unit) outcome" where
  "logout ctx now =
     transaction (\<lambda>d. case auth_session_row (ax_session ctx) d of
       None \<Rightarrow> committed () d
     | Some s \<Rightarrow> committed () (if as_user s = ax_user ctx then put_session (s\<lparr>as_revoked := Some now\<rparr>) d else d))"

definition logout_all :: "auth_context \<Rightarrow> time \<Rightarrow> db \<Rightarrow> (db, unit) outcome" where
  "logout_all ctx now = transaction (\<lambda>d. committed () (revoke_user_sessions now (ax_user ctx) d))"

definition strip_slashes :: "string \<Rightarrow> string" where
  "strip_slashes s = rev (dropWhile (\<lambda>c. c = CHR ''/'') (rev s))"

definition verify_cookie_origin :: "auth_env \<Rightarrow> string option \<Rightarrow> string option \<Rightarrow> string \<Rightarrow> unit result" where
  "verify_cookie_origin e origin site request_origin =
     raise_if (origin \<notin> {Some (strip_slashes (aq_origin e)), Some (strip_slashes request_origin)} \<or>
       site \<notin> {None, Some ''same-origin'', Some ''same-site''}) (AppError ''CSRF_REJECTED'' 403)"

end
