(* ===== verification/AuthProperties.thy ===== *)
theory AuthProperties
  imports Auth
begin

text \<open>
  What authentication guarantees: the limiter refines a count over the history of attempts, and
  a refresh token that is used twice ends its session for good.
\<close>

section \<open>The limiter refines the history of attempts\<close>

text \<open>The attempts of a key after \<open>now - limit_window\<close>, out of all that were ever recorded.\<close>

definition in_window :: "time \<Rightarrow> time list \<Rightarrow> time list" where
  "in_window now hist = filter (\<lambda>t. now - limit_window < t) hist"

definition limiter_rel :: "string \<Rightarrow> time \<Rightarrow> time list \<Rightarrow> attempts \<Rightarrow> bool" where
  "limiter_rel key now hist a \<longleftrightarrow> sorted hist \<and> (\<forall>t\<in>set hist. t \<le> now) \<and> (\<exists>t0\<le>now. bucket_of key a = recent t0 hist)"

lemma recent_sorted: "sorted hist \<Longrightarrow> recent now hist = in_window now hist"
proof (induction hist)
  case (Cons t hist)
  then show ?case by (cases "t \<le> now - limit_window") (auto simp: recent_def in_window_def intro!: filter_True [symmetric])
qed (simp add: recent_def in_window_def)

lemma recent_recent: "t0 \<le> now \<Longrightarrow> recent now (recent t0 hist) = recent now hist"
  by (induction hist) (auto simp: recent_def)

lemma bucket_update [simp]: "bucket_of key (AList.update key' b a) = (if key = key' then b else bucket_of key a)"
  by (simp add: bucket_of_def update_conv')

lemma limit_attempts_spec:
  assumes rel: "limiter_rel (attempt_key ns v) now0 hist a" and now: "now0 \<le> now"
    and run: "limit_attempts ns v limit rec now (d, a) = (r, d', a')"
  shows "d' = d \<and> (r = Inr () \<longleftrightarrow> length (in_window now hist) < limit) \<and>
    limiter_rel (attempt_key ns v) now (if rec \<and> r = Inr () then hist @ [now] else hist) a' \<and>
    (\<forall>key. key \<noteq> attempt_key ns v \<longrightarrow> bucket_of key a' = bucket_of key a)"
proof -
  obtain t0 where t0: "t0 \<le> now0" "bucket_of (attempt_key ns v) a = recent t0 hist" and s: "sorted hist" "\<forall>t\<in>set hist. t \<le> now0"
    using rel by (auto simp: limiter_rel_def)
  have b: "recent now (bucket_of (attempt_key ns v) a) = in_window now hist"
    using t0 now recent_recent [of t0 now hist] recent_sorted [OF s(1)] by simp
  have s': "sorted (hist @ [now])" "\<forall>t\<in>set hist. t \<le> now" using s now by (auto simp: sorted_append)
  have e: "recent now (hist @ [now]) = in_window now hist @ [now]"
    unfolding recent_sorted [OF s'(1)] by (simp add: in_window_def limit_window_def)
  have e0: "in_window now hist = recent now hist" using recent_sorted [OF s(1)] by simp
  show ?thesis
  proof (cases "limit \<le> length (in_window now hist)")
    case True
    then have r: "r = Inl (AppError ''AUTH_RATE_LIMITED'' 429)" "d' = d" "a' = AList.update (attempt_key ns v) (in_window now hist) a"
      using run by (auto simp: limit_attempts_def b Let_def)
    then show ?thesis using True s s'(2) e0 by (auto simp: limiter_rel_def)
  next
    case False
    then have r: "r = Inr ()" "d' = d" "a' = AList.update (attempt_key ns v) (if rec then in_window now hist @ [now] else in_window now hist) a"
      using run by (auto simp: limit_attempts_def b Let_def)
    show ?thesis using False s s' e e0 unfolding r limiter_rel_def by (cases rec) (auto intro: exI [of _ now])
  qed
qed

text \<open>A sequence of checks of one key: the attempts that were recorded.\<close>

fun recorded :: "string \<Rightarrow> string \<Rightarrow> nat \<Rightarrow> (bool \<times> time) list \<Rightarrow> db \<times> attempts \<Rightarrow> time list" where
  "recorded ns v limit [] s = []"
| "recorded ns v limit ((rec, now) # calls) s =
     (case limit_attempts ns v limit rec now s of
        (Inr _, s') \<Rightarrow> (if rec then [now] else []) @ recorded ns v limit calls s'
      | (Inl _, s') \<Rightarrow> recorded ns v limit calls s')"

definition window_bounded :: "nat \<Rightarrow> time list \<Rightarrow> bool" where
  "window_bounded limit hist \<longleftrightarrow> (\<forall>t. length (filter (\<lambda>x. t - limit_window < x \<and> x \<le> t) hist) \<le> limit)"

lemma window_bounded_snoc:
  assumes "window_bounded limit hist" "\<forall>x\<in>set hist. x \<le> now" "length (in_window now hist) < limit"
  shows "window_bounded limit (hist @ [now])"
  unfolding window_bounded_def
proof
  fix t
  show "length (filter (\<lambda>x. t - limit_window < x \<and> x \<le> t) (hist @ [now])) \<le> limit"
  proof (cases "now \<le> t")
    case True
    have "filter (\<lambda>x. t - limit_window < x \<and> x \<le> t) hist = filter (\<lambda>x. t - limit_window < x \<and> x \<le> t) (in_window now hist)"
      using True by (auto simp: in_window_def intro!: filter_cong)
    then have "length (filter (\<lambda>x. t - limit_window < x \<and> x \<le> t) hist) \<le> length (in_window now hist)"
      by (metis length_filter_le)
    then show ?thesis using assms(3) by simp
  next
    case False
    then show ?thesis using assms(1) by (simp add: window_bounded_def)
  qed
qed

lemma recorded_bounded:
  assumes "limiter_rel (attempt_key ns v) now0 hist a" "window_bounded limit hist" "sorted (now0 # map snd calls)"
  shows "window_bounded limit (hist @ recorded ns v limit calls (d, a))"
  using assms
proof (induction calls arbitrary: now0 hist d a)
  case (Cons c calls)
  obtain rec now where c: "c = (rec, now)" by (cases c)
  obtain r d' a' where run: "limit_attempts ns v limit rec now (d, a) = (r, d', a')" by (metis prod_cases3)
  have now: "now0 \<le> now" and s: "sorted (now # map snd calls)" using Cons.prems(3) by (auto simp: c)
  note spec = limit_attempts_spec [OF Cons.prems(1) now run]
  let ?hist = "if rec \<and> r = Inr () then hist @ [now] else hist"
  have le: "\<forall>x\<in>set hist. x \<le> now" using Cons.prems(1) now by (fastforce simp: limiter_rel_def)
  have "window_bounded limit ?hist"
    using Cons.prems(2) window_bounded_snoc [OF Cons.prems(2) le] spec by auto
  from Cons.IH [OF _ this s, of a' d'] spec show ?case
    by (cases r) (auto simp: c run)
qed simp

section \<open>Sessions\<close>

definition session_dead :: "uuid \<Rightarrow> db \<Rightarrow> bool" where
  "session_dead sid d \<longleftrightarrow> (\<exists>s. auth_session_row sid d = Some s \<and> as_revoked s \<noteq> None)"

definition session_ids :: "db \<Rightarrow> bool" where
  "session_ids d \<longleftrightarrow> distinct (map as_id (auth_sessions d))"

inductive auth_step :: "db \<Rightarrow> db \<Rightarrow> bool" where
  Register: "register e dw name password code ip (d, a) = (r, d', a') \<Longrightarrow> auth_step d d'"
| Login: "login e dw name password ip (d, a) = (r, d', a') \<Longrightarrow> auth_step d d'"
| Refresh: "refresh_session e dw token d = (r2, d') \<Longrightarrow> auth_step d d'"
| Logout: "logout ctx now d = (r3, d') \<Longrightarrow> auth_step d d'"
| Logout_all: "logout_all ctx now d = (r3, d') \<Longrightarrow> auth_step d d'"
| Elsewhere: "auth_sessions d' = auth_sessions d \<Longrightarrow> auth_step d d'"

text \<open>What every step keeps: distinct identifiers, the rows of the sessions, and the sessions that have ended.\<close>

definition auth_keeps :: "db \<Rightarrow> db \<Rightarrow> bool" where
  "auth_keeps d d' \<longleftrightarrow> (session_ids d \<longrightarrow> session_ids d') \<and> (\<forall>sid. session_dead sid d \<longrightarrow> session_dead sid d') \<and>
     (\<forall>sid. auth_session_row sid d \<noteq> None \<longrightarrow> auth_session_row sid d' \<noteq> None)"

lemma auth_keeps_refl: "reflp auth_keeps" and auth_keeps_trans: "transp auth_keeps"
  by (auto simp: auth_keeps_def reflp_def transp_def)

lemma auth_keeps_same: "auth_sessions d' = auth_sessions d \<Longrightarrow> auth_keeps d d'"
  by (simp add: auth_keeps_def session_ids_def session_dead_def auth_session_row_def)

lemma insert_session_keeps:
  assumes "row_insert as_id s (auth_sessions d) = Inr rows"
  shows "auth_keeps d (d\<lparr>auth_sessions := rows\<rparr>)"
  using assms
  by (auto simp: auth_keeps_def session_ids_def session_dead_def auth_session_row_def result_simps row_get_append split: option.splits)
    (auto simp: row_get_None)

lemma put_session_keeps:
  assumes "session_dead (as_id s) d \<longrightarrow> as_revoked s \<noteq> None"
  shows "auth_keeps d (put_session s d)"
  using assms by (auto simp: auth_keeps_def session_ids_def session_dead_def auth_session_row_def put_session_def row_get_put)

lemma row_get_map: "(\<And>x. key (f x) = key x) \<Longrightarrow> row_get key k (map f rows) = map_option f (row_get key k rows)"
  by (induction rows) auto

lemma revoke_user_sessions_keeps: "auth_keeps d (revoke_user_sessions now uid d)"
proof -
  let ?f = "\<lambda>s. if as_user s = uid \<and> as_revoked s = None then s\<lparr>as_revoked := Some now\<rparr> else s"
  have sel: "auth_sessions (revoke_user_sessions now uid d) = map ?f (auth_sessions d)" by (simp add: revoke_user_sessions_def)
  have ids: "map as_id (map ?f rows) = map as_id rows" for rows by simp
  have get: "row_get as_id sid (map ?f rows) = map_option ?f (row_get as_id sid rows)" for sid rows
    by (rule row_get_map) simp
  have "session_dead sid (revoke_user_sessions now uid d)" if "session_dead sid d" for sid
    using that unfolding session_dead_def auth_session_row_def sel get by (auto split: if_split) force
  moreover have "auth_session_row sid (revoke_user_sessions now uid d) \<noteq> None" if "auth_session_row sid d \<noteq> None" for sid
    using that unfolding auth_session_row_def sel get by simp
  ultimately show ?thesis unfolding auth_keeps_def session_ids_def sel ids by blast
qed

lemma limit_attempts_db: "act_keeps auth_keeps (limit_attempts ns v limit rec now)"
  using reflpD [OF auth_keeps_refl] by (auto simp: act_keeps_def limit_attempts_def Let_def)

lemma db_step_keeps: "(\<And>d r d'. f d = (r, d') \<Longrightarrow> auth_keeps d d') \<Longrightarrow> act_keeps auth_keeps (db_step f)"
  by (auto simp: act_keeps_def db_step_def split: prod.splits)

lemmas auth_act = act_keeps_bind [OF auth_keeps_trans] act_keeps_value [OF auth_keeps_refl] limit_attempts_db db_step_keeps

lemma issue_session_keeps: "act_keeps auth_keeps (issue_session e dw u)"
proof -
  have "auth_keeps d d'" if "transaction (\<lambda>d. and_then (row_insert as_id s (auth_sessions d)) (\<lambda>rows. committed () (d\<lparr>auth_sessions := rows\<rparr>))) d = (r, d')"
    for s d d' and r :: "unit result"
    using that insert_session_keeps [of s d] reflpD [OF auth_keeps_refl]
    by (cases r) (auto simp: result_simps simp del: row_insert_eq_Inr)
  then show ?thesis unfolding issue_session_def Let_def by (auto intro!: auth_act)
qed

lemma register_keeps: "act_keeps auth_keeps (register e dw name password code ip)"
proof -
  have "auth_keeps d d'" if "insert_user u d = (r, d')" for u d d' r
    using that reflpD [OF auth_keeps_refl] by (cases r) (auto simp: insert_user_def result_simps intro!: auth_keeps_same)
  then show ?thesis
    unfolding register_def admin_role_def by (auto intro!: auth_act issue_session_keeps split: option.split)
qed

lemma login_keeps: "act_keeps auth_keeps (login e dw name password ip)"
  unfolding login_def refuse_login_def by (auto intro!: auth_act issue_session_keeps split: option.split)

text \<open>How a refresh ends.\<close>

definition presented_session :: "string \<Rightarrow> uuid option" where
  "presented_session token = parse_uuid (takeWhile (\<lambda>c. c \<noteq> CHR ''.'') token)"

definition refresh_live :: "auth_draw \<Rightarrow> string \<Rightarrow> auth_session \<Rightarrow> db \<Rightarrow> bool" where
  "refresh_live dw token s d \<longleftrightarrow> (\<exists>sid. presented_session token = Some sid \<and> auth_session_row sid d = Some s) \<and>
     as_revoked s = None \<and> dw_utc dw 0 < as_expires s"

lemma refresh_cases:
  assumes "refresh_session e dw token d = (r, d')"
  obtains (Refused) "r = Inl unauthorized" "d' = d"
  | (Replayed) s where "refresh_live dw token s d" "as_refresh_hash s \<noteq> aq_digest e token"
      "r = Inl (AppError ''REFRESH_REPLAYED'' 401)" "d' = put_session (s\<lparr>as_revoked := Some (dw_utc dw 1)\<rparr>) d"
  | (Rotated) s u access new secs where "refresh_live dw token s d" "as_refresh_hash s = aq_digest e token"
      "r = Inr (u, access, new, secs)" "new = refresh_token (as_id s) (dw_random dw 0)"
      "d' = put_session (s\<lparr>as_refresh_hash := aq_digest e new, as_last_refreshed := dw_utc dw 1\<rparr>) d"
proof (cases r)
  case (Inl x)
  then show ?thesis
    using assms that(1,2) by (auto simp: refresh_session_def result_simps presented_session_def refresh_live_def Let_def split: if_splits prod.splits)
next
  case (Inr v)
  then show ?thesis
    using assms that(3) by (auto simp: refresh_session_def result_simps presented_session_def refresh_live_def access_token_def Let_def split: if_splits)
qed

lemma auth_session_row_id: "auth_session_row sid d = Some s \<Longrightarrow> as_id s = sid"
  by (auto simp: auth_session_row_def dest: row_get_Some_key)

lemma refresh_session_keeps:
  assumes "refresh_session e dw token d = (r, d')"
  shows "auth_keeps d d'"
  using assms
proof (cases rule: refresh_cases)
  case Refused
  then show ?thesis using reflpD [OF auth_keeps_refl] by simp
next
  case (Replayed s)
  show ?thesis unfolding Replayed(4) by (rule put_session_keeps) simp
next
  case (Rotated s u access new secs)
  have "\<not> session_dead (as_id s) d"
    using Rotated(1) auth_session_row_id [of _ d s] by (auto simp: refresh_live_def session_dead_def)
  then show ?thesis unfolding Rotated(5) by (intro put_session_keeps) simp
qed

lemma auth_step_keeps: "auth_step d d' \<Longrightarrow> auth_keeps d d'"
proof (induction rule: auth_step.induct)
  case (Register e dw name password code ip d a r d' a')
  then show ?case using act_keepsD [OF register_keeps Register] by simp
next
  case (Login e dw name password ip d a r d' a')
  then show ?case using act_keepsD [OF login_keeps Login] by simp
next
  case (Logout ctx now d r d')
  then show ?case
    using reflpD [OF auth_keeps_refl]
    by (cases r) (auto simp: logout_def result_simps split: option.splits if_splits intro!: put_session_keeps)
next
  case (Logout_all ctx now d r d')
  then show ?case by (cases r) (auto simp: logout_all_def result_simps intro: revoke_user_sessions_keeps)
qed (auto intro: refresh_session_keeps auth_keeps_same)

lemma auth_steps_keep: "rtranclp auth_step d d' \<Longrightarrow> auth_keeps d d'"
  by (induction rule: rtranclp_induct)
    (auto intro: auth_step_keeps reflpD [OF auth_keeps_refl] transpD [OF auth_keeps_trans])

section \<open>A dead session opens nothing\<close>

lemma dead_refresh:
  assumes "session_dead sid d" "presented_session token = Some sid"
  shows "refresh_session e dw token d = (Inl unauthorized, d)"
  using assms by (auto simp: refresh_session_def transaction_def session_dead_def presented_session_def)

lemma dead_authenticate:
  assumes "session_dead sid d" "session_ids d" "token_ids e (clk 0) token = Inr (uid, sid)"
  shows "authenticate e clk token d = Inl unauthorized"
proof -
  obtain s where s: "auth_session_row sid d = Some s" "as_revoked s \<noteq> None" using assms(1) by (auto simp: session_dead_def)
  have "s \<in> set (auth_sessions d)" "as_id s = sid"
    using s(1) row_get_Some_mem [of as_id sid "auth_sessions d" s] auth_session_row_id [OF s(1)] by (auto simp: auth_session_row_def)
  then have "x = s" if "x \<in> set (auth_sessions d)" "as_id x = sid" for x
    using that assms(2) by (auto simp: session_ids_def dest: distinct_key_eq)
  then have "active_auth_session (clk 1) uid sid d = None"
    using s(2) by (auto simp: active_auth_session_def find_None_iff)
  then show ?thesis by (simp add: authenticate_def assms(3))
qed

section \<open>Identifiers in refresh tokens\<close>

lemma hex_value_less: "hex_value c = Some v \<Longrightarrow> v < 16"
  by (auto simp: hex_value_def Let_def split: if_splits)

lemma hex_number_less: "hex_number acc b s = Some v \<Longrightarrow> v < (acc + 1) * 16 ^ length s"
proof (induction acc b s arbitrary: v rule: hex_number.induct)
  case (2 acc b c s)
  show ?case
  proof (cases "c = CHR ''_''")
    case True
    then have "v < (acc + 1) * 16 ^ length s" using 2 by (auto split: if_splits)
    also have "\<dots> \<le> (acc + 1) * 16 ^ length (c # s)" by simp
    finally show ?thesis .
  next
    case False
    then obtain w where w: "hex_value c = Some w" "hex_number (16 * acc + w) True s = Some v"
      using 2(3) by (auto split: option.splits)
    have "v < (16 * acc + w + 1) * 16 ^ length s" using 2(2) [OF False w] .
    also have "\<dots> \<le> (16 * (acc + 1)) * 16 ^ length s" using hex_value_less [OF w(1)] by (intro mult_le_mono1) simp
    finally show ?thesis by (simp add: algebra_simps)
  qed
qed (auto split: if_splits)

lemma hex_body_less: "hex_body s = Some v \<Longrightarrow> v < 16 ^ length s"
proof -
  assume h: "hex_body s = Some v"
  have le: "length (let t = drop 2 s in if prefix ''_'' t then drop 1 t else t) \<le> length s" by (simp add: Let_def)
  show ?thesis
  proof (cases "prefix ''0x'' s \<or> prefix ''0X'' s")
    case True
    then have "v < 16 ^ length (let t = drop 2 s in if prefix ''_'' t then drop 1 t else t)"
      using h hex_number_less [of 0 False _ v] by (simp add: hex_body_def)
    also have "\<dots> \<le> 16 ^ length s" using le by (rule power_increasing) simp
    finally show ?thesis .
  next
    case False
    then show ?thesis using h hex_number_less [of 0 False s v] by (simp add: hex_body_def)
  qed
qed

lemma parse_uuid_less: "parse_uuid t = Some u \<Longrightarrow> u < 2 ^ 128"
proof -
  assume p: "parse_uuid t = Some u"
  then obtain h i where h: "length h = 32" "int_hex h = Some i" "0 \<le> i" "u = nat i"
    by (auto simp: parse_uuid_def Let_def split: if_splits option.splits)
  have m: "v < 16 ^ length (strip h)" if "hex_body b = Some v" "length b \<le> length (strip h)" for b v
    by (rule less_le_trans [OF hex_body_less [OF that(1)] power_increasing [OF that(2)]]) simp
  obtain b v where b: "hex_body b = Some v" "length b \<le> length (strip h)" "i = int v \<or> i = - int v"
    using h(2) by (auto simp: int_hex_def Let_def split: list.splits if_splits)
  have "length (strip h) \<le> 32" using length_strip_le [of h] h(1) by simp
  then have "v < 16 ^ 32" by (rule less_le_trans [OF m [OF b(1,2)] power_increasing]) simp
  then have "u < 16 ^ 32" using b(3) h(3,4) by auto
  then show ?thesis by simp
qed

lemma presented_refresh_token: "sid < 2 ^ 128 \<Longrightarrow> presented_session (refresh_token sid secret) = Some sid"
proof -
  assume b: "sid < 2 ^ 128"
  have "CHR ''.'' \<notin> set (uuid_str sid)"
    using hex_text_not [OF hex_text_digits, of "CHR ''.''" 32 sid] by (auto simp: uuid_str_def Let_def dest: in_set_takeD in_set_dropD)
  then have "takeWhile (\<lambda>c. c \<noteq> CHR ''.'') (refresh_token sid secret) = uuid_str sid"
    by (subst refresh_token_def, subst takeWhile_append2) auto
  then show ?thesis using b by (simp add: presented_session_def parse_uuid_str)
qed

section \<open>Properties\<close>


text \<open>
  C24: the limiter refines a count over the whole history: for any sequence of checks of one name
  in the order of their times, whatever was asked and recorded, no window of 900 seconds ever
  holds more than the limit of recorded attempts.
\<close>

theorem attempts_bounded:
  assumes "sorted (map snd calls)"
  shows "length (filter (\<lambda>x. t - limit_window < x \<and> x \<le> t) (recorded ns v limit calls (d, []))) \<le> limit"
proof (cases calls)
  case (Cons c rest)
  have "limiter_rel (attempt_key ns v) (snd c) [] []" by (auto simp: limiter_rel_def bucket_of_def recent_def)
  from recorded_bounded [OF this, of limit calls d] assms Cons show ?thesis by (simp add: window_bounded_def)
qed simp

section \<open>Witnesses\<close>

theorem attempts_bounded_witness:
  "length (filter (\<lambda>x. 9 - limit_window < x \<and> x \<le> 9) (recorded ''login:user'' ''abc'' 1 [(True, 3), (True, 5), (False, 7)] (empty_db, []))) \<le> 1"
  by (rule attempts_bounded) simp

definition demo_auth :: auth_env where
  "demo_auth = \<lparr>aq_registration = True, aq_admin_code = [], aq_access_minutes = 15, aq_refresh_days = 30, aq_issuer = ''i'', aq_audience = ''a'',
     aq_origin = [], aq_hash = (\<lambda>s p. p), aq_verify = (\<lambda>p h. p = h), aq_dummy = [], aq_digest = (\<lambda>s. s), aq_encode = (\<lambda>c. ''t''),
     aq_decode = (\<lambda>now t. None)\<rparr>"

definition demo_draw :: "string \<Rightarrow> auth_draw" where
  "demo_draw secret = \<lparr>dw_utc = (\<lambda>i. 0), dw_mono = (\<lambda>i. 0), dw_ids = (\<lambda>i. 5), dw_random = (\<lambda>i. secret), dw_salt = 0\<rparr>"

definition demo_accounts :: db where
  "demo_accounts = empty_db\<lparr>users := [\<lparr>u_id = 2, u_name = ''abc'', u_password_hash = ''secret'', u_role = RoleUser, u_active = True\<rparr>]\<rparr>"

definition demo_session :: "string \<Rightarrow> auth_session" where
  "demo_session secret = \<lparr>as_id = 5, as_user = 2, as_refresh_hash = refresh_token 5 secret, as_expires = 30 * 86400 * 1000000,
     as_last_refreshed = 0, as_revoked = None\<rparr>"

definition demo_sessions :: "auth_session \<Rightarrow> db" where
  "demo_sessions s = demo_accounts\<lparr>auth_sessions := [s]\<rparr>"

lemmas demo_auth_defs = demo_auth_def demo_draw_def demo_accounts_def demo_session_def demo_sessions_def empty_db_def

lemma demo_login:
  "\<exists>r a. login demo_auth (demo_draw ''x'') ''abc'' ''secret'' ''ip'' (demo_accounts, []) = (r, demo_sessions (demo_session ''x''), a)"
  by (simp add: login_def bind_act_def lift_result_def normalize_username_def lower_def strip_def rstrip_def lstrip_def py_space_def
      username_char_def lower_char_def digit_char_p_def limit_attempts_def bucket_of_def recent_def read_db_def user_by_username_def
      credentials_ok_def issue_session_def db_step_def transaction_def committed_def new_session_def row_insert_def row_get_def ret_def
      Let_def split_def demo_auth_defs)

lemma demo_presented: "presented_session (refresh_token 5 secret) = Some 5"
  by (rule presented_refresh_token) simp

lemma demo_refresh:
  "refresh_session demo_auth (demo_draw ''y'') (refresh_token 5 ''x'') (demo_sessions (demo_session ''x'')) =
     (Inr (\<lparr>u_id = 2, u_name = ''abc'', u_password_hash = ''secret'', u_role = RoleUser, u_active = True\<rparr>, ''t'', refresh_token 5 ''y'', 900),
      demo_sessions (demo_session ''y''))"
  "refresh_session demo_auth (demo_draw ''z'') (refresh_token 5 ''x'') (demo_sessions (demo_session ''y'')) =
     (Inl (AppError ''REFRESH_REPLAYED'' 401), demo_sessions ((demo_session ''y'')\<lparr>as_revoked := Some 0\<rparr>))"
  using demo_presented
  by (simp_all add: refresh_session_def presented_session_def transaction_def committed_def commit_raise_def auth_session_row_def row_get_def
      row_put_def put_session_def access_token_def refresh_token_def Let_def demo_auth_defs)

text \<open>Between the two presentations the user exchanges the second token for a third.\<close>

lemma demo_refresh_again:
  "refresh_session demo_auth (demo_draw ''v'') (refresh_token 5 ''y'') (demo_sessions (demo_session ''y'')) =
     (Inr (\<lparr>u_id = 2, u_name = ''abc'', u_password_hash = ''secret'', u_role = RoleUser, u_active = True\<rparr>, ''t'', refresh_token 5 ''v'', 900),
      demo_sessions (demo_session ''v''))"
  "refresh_session demo_auth (demo_draw ''z'') (refresh_token 5 ''x'') (demo_sessions (demo_session ''v'')) =
     (Inl (AppError ''REFRESH_REPLAYED'' 401), demo_sessions ((demo_session ''v'')\<lparr>as_revoked := Some 0\<rparr>))"
  using demo_presented
  by (simp_all add: refresh_session_def presented_session_def transaction_def committed_def commit_raise_def auth_session_row_def row_get_def
      row_put_def put_session_def access_token_def refresh_token_def Let_def demo_auth_defs)


end
