(* ===== verification/Urls.thy ===== *)
theory Urls
  imports Identifiers
begin

text \<open>
  Addresses as \<open>urllib.parse\<close> takes them apart (\<open>urlsplit\<close>, \<open>urlunsplit\<close>), as far as
  \<open>normalized_url\<close> in \<open>app/manager/evidence.py\<close> uses them. The check of a literal address
  in brackets (\<open>ipaddress.ip_address\<close>) is a parameter.
\<close>

record split_url =
  us_scheme :: string
  us_netloc :: string
  us_path :: string
  us_query :: string

definition value_error :: exn where
  "value_error = OtherError ''ValueError''"

definition alpha :: "char \<Rightarrow> bool" where
  "alpha c = (let n = (of_char c :: nat) in 65 \<le> n \<and> n \<le> 90 \<or> 97 \<le> n \<and> n \<le> 122)"

definition decimal :: "char \<Rightarrow> bool" where
  "decimal c = (let n = (of_char c :: nat) in 48 \<le> n \<and> n \<le> 57)"

definition scheme_char :: "char \<Rightarrow> bool" where
  "scheme_char c = (alpha c \<or> decimal c \<or> c \<in> set ''+-.'')"

text \<open>Leading control characters and blanks go, tabs and line ends go everywhere.\<close>

definition clean_url :: "string \<Rightarrow> string" where
  "clean_url u = filter (\<lambda>c. c \<notin> {CHR 0x09, CHR 0x0A, CHR 0x0D}) (dropWhile (\<lambda>c. (of_char c :: nat) \<le> 32) u)"

definition take_scheme :: "string \<Rightarrow> string \<times> string" where
  "take_scheme u = (let s = takeWhile (\<lambda>c. c \<noteq> CHR '':'') u in
     if length s < length u \<and> s \<noteq> [] \<and> alpha (hd s) \<and> list_all scheme_char s
     then (map lower s, drop (Suc (length s)) u) else ([], u))"

definition cut_at :: "char \<Rightarrow> string \<Rightarrow> string \<times> string" where
  "cut_at c s = (takeWhile (\<lambda>x. x \<noteq> c) s, drop 1 (dropWhile (\<lambda>x. x \<noteq> c) s))"

text \<open>What follows the last \<open>@\<close>, or everything.\<close>

definition after_last :: "char \<Rightarrow> string \<Rightarrow> string" where
  "after_last c s = rev (takeWhile (\<lambda>x. x \<noteq> c) (rev s))"

definition brackets_ok :: "(string \<Rightarrow> bool) \<Rightarrow> string \<Rightarrow> bool" where
  "brackets_ok ip_literal netloc =
     (if CHR ''['' \<in> set netloc \<longleftrightarrow> CHR '']'' \<in> set netloc
      then CHR ''['' \<in> set netloc \<longrightarrow> ip_literal (after_last CHR ''@'' netloc)
      else False)"

definition url_split :: "(string \<Rightarrow> bool) \<Rightarrow> string \<Rightarrow> split_url result" where
  "url_split ip_literal text =
     (let (scheme, u) = take_scheme (clean_url text);
          netloc = (if prefix ''//'' u then takeWhile (\<lambda>c. c \<notin> set ''/?#'') (drop 2 u) else []);
          v = (if prefix ''//'' u then drop (length netloc + 2) u else u);
          w = fst (cut_at CHR ''#'' v);
          (path, query) = cut_at CHR ''?'' w
      in if \<not> brackets_ok ip_literal netloc then Inl value_error
         else Inr \<lparr>us_scheme = scheme, us_netloc = netloc, us_path = path, us_query = query\<rparr>)"

text \<open>The properties \<open>hostname\<close> and \<open>port\<close>; a host of no characters is \<open>None\<close> for Python, and \<open>[]\<close> here.\<close>

definition host_and_port :: "string \<Rightarrow> string \<times> string" where
  "host_and_port netloc =
     (let info = after_last CHR ''@'' netloc in
      if CHR ''['' \<in> set info
      then (let b = snd (cut_at CHR ''['' info)
            in (fst (cut_at CHR '']'' b), snd (cut_at CHR '':'' (snd (cut_at CHR '']'' b)))))
      else cut_at CHR '':'' info)"

definition url_host :: "split_url \<Rightarrow> string" where
  "url_host u = (let h = fst (host_and_port (us_netloc u)); p = takeWhile (\<lambda>c. c \<noteq> CHR ''%'') h
     in map lower p @ drop (length p) h)"

definition nat_value :: "string \<Rightarrow> nat" where
  "nat_value s = foldl (\<lambda>n c. 10 * n + (of_char c - 48)) 0 s"

definition url_port :: "split_url \<Rightarrow> nat option result" where
  "url_port u = (let p = snd (host_and_port (us_netloc u)) in
     if p = [] then Inr None
     else if list_all decimal p \<and> nat_value p \<le> 65535 then Inr (Some (nat_value p))
     else Inl value_error)"

text \<open>\<open>urlunsplit\<close> without a fragment.\<close>

definition netloc_schemes :: "string list" where
  "netloc_schemes = [[], ''ftp'', ''http'', ''gopher'', ''nntp'', ''telnet'', ''imap'', ''wais'', ''file'', ''mms'', ''https'',
     ''shttp'', ''snews'', ''prospero'', ''rtsp'', ''rtsps'', ''rtspu'', ''rsync'', ''svn'', ''svn+ssh'', ''sftp'', ''nfs'', ''git'',
     ''git+ssh'', ''ws'', ''wss'', ''itms-services'']"

definition url_unsplit :: "string \<Rightarrow> string \<Rightarrow> string \<Rightarrow> string \<Rightarrow> string" where
  "url_unsplit scheme netloc path query =
     (let p = (if netloc \<noteq> [] then ''//'' @ netloc @ (if path \<noteq> [] \<and> \<not> prefix ''/'' path then ''/'' else []) @ path
               else if prefix ''//'' path then ''//'' @ path
               else if scheme \<noteq> [] \<and> scheme \<in> set netloc_schemes \<and> (path = [] \<or> prefix ''/'' path) then ''//'' @ path
               else path);
          s = (if scheme = [] then p else scheme @ '':'' @ p)
      in if query = [] then s else s @ ''?'' @ query)"

definition normalized_url :: "(string \<Rightarrow> bool) \<Rightarrow> string \<Rightarrow> string result" where
  "normalized_url ip_literal text =
     and_then (url_split ip_literal text) (\<lambda>u.
     and_then (url_port u) (\<lambda>port.
       let scheme = map lower (us_scheme u);
           netloc = (case port of
               None \<Rightarrow> url_host u
             | Some n \<Rightarrow> if (scheme, n) \<in> {(''http'', 80), (''https'', 443)} then url_host u else url_host u @ '':'' @ show_nat n)
       in Inr (url_unsplit scheme netloc (if us_path u = [] then ''/'' else us_path u) (us_query u))))"

end
