(* ===== verification/Evidence.thy ===== *)
theory Evidence
  imports Contracts Urls "HOL-Library.AList" Complex_Main
begin

text \<open>
  The evidence of one answer (\<open>app/manager/evidence.py\<close>): every piece of text that a model may
  cite is registered once, under the next number, against a budget of tokens, and an answer is
  accepted only when its citations name registered evidence. Scores are rationals, since a finite float is one.
\<close>

section \<open>Hits\<close>

datatype hit_context = Siblings "chunk list" | Hierarchy hierarchy_context

record rerank_trace =
  rt_status :: string
  rt_model :: string
  rt_candidates :: nat
  rt_elapsed :: rat
  rt_attempts :: nat
  rt_truncated :: bool
  rt_error :: "string option"
  rt_tokens :: "int option"

record search_hit =
  sh_chunk :: chunk
  sh_score :: rat
  sh_context :: "hit_context option"
  sh_warning :: "string option"
  sh_rerank_score :: "rat option"
  sh_rerank_trace :: "rerank_trace option"
  sh_hierarchy_trace :: "dict option"

fun context_children :: "hit_context \<Rightarrow> chunk list" where
  "context_children (Siblings cs) = cs"
| "context_children (Hierarchy h) = hc_children h"

fun context_content :: "hit_context \<Rightarrow> string" where
  "context_content (Siblings cs) = joined_content cs"
| "context_content (Hierarchy h) = hc_text h"

definition context_contains :: "hit_context \<Rightarrow> chunk \<Rightarrow> bool" where
  "context_contains p c = (c \<in> set (context_children p))"

section \<open>The registry\<close>

text \<open>
  What a citation says beside its number and excerpt, by its \<open>type\<close>.
\<close>

datatype citation_source =
    Knowledge_source string string string "int option" "string option" rat "excel_source option" "rat option"
  | Web_source string string time "time option" "rat option"
  | Tool_source string int time
  | Memory_source string json
  | Sql_source string string "string list" nat bool

fun source_type :: "citation_source \<Rightarrow> string" where
  "source_type (Knowledge_source _ _ _ _ _ _ _ _) = ''knowledge''"
| "source_type (Web_source _ _ _ _ _) = ''web''"
| "source_type (Tool_source _ _ _) = ''tool''"
| "source_type (Memory_source _ _) = ''memory''"
| "source_type (Sql_source _ _ _ _ _) = ''sql''"

record entry =
  en_number :: nat
  en_source :: citation_source
  en_excerpt :: string

record source =
  so_number :: nat
  so_type :: string
  so_title :: string
  so_content :: string
  so_excel :: "excel_source option"
  so_tool :: "(string \<times> int) option"
  so_asserted :: "string option"

record context_entry =
  ce_id :: string
  ce_numbers :: "nat list"
  ce_title :: string
  ce_content :: string

record evidence =
  ev_budget :: int
  ev_entries :: "entry list"
  ev_sources :: "(nat \<times> source) list"
  ev_contexts :: "(string \<times> context_entry) list"
  ev_context_tokens :: int
  ev_warnings :: "string set"
  ev_reranks :: "rerank_trace list"
  ev_hierarchy :: "dict list"
  ev_excluded :: "nat set"
  ev_keys :: "((string \<times> string) \<times> nat) list"
  ev_used :: int

definition new_evidence :: "int \<Rightarrow> evidence" where
  "new_evidence budget = \<lparr>ev_budget = budget, ev_entries = [], ev_sources = [], ev_contexts = [], ev_context_tokens = 0,
     ev_warnings = {}, ev_reranks = [], ev_hierarchy = [], ev_excluded = {}, ev_keys = [], ev_used = 0\<rparr>"

text \<open>
  The tokenizer, when it could be loaded; the digest; \<open>uuid5\<close>; the check of literal addresses; and the
  Chinese text of the code, which is outside the alphabet of \<open>string\<close>: the title of memories, what an
  empty result of a query says, and the marks between a column, its value and the next column.
\<close>

record evidence_env =
  ee_encode :: "(string \<Rightarrow> nat) option"
  ee_sha256 :: "string \<Rightarrow> string"
  ee_uuid5 :: "string \<Rightarrow> string \<Rightarrow> string"
  ee_ip_literal :: "string \<Rightarrow> bool"
  ee_memory_title :: string
  ee_no_rows :: string
  ee_colon :: string
  ee_semicolon :: string

definition count_tokens :: "evidence_env \<Rightarrow> string list \<Rightarrow> int" where
  "count_tokens e values =
     (let t = joined [CHR 0x0A] values in
      case ee_encode e of
        Some f \<Rightarrow> int (f t)
      | None \<Rightarrow> max 1 ((int (utf8_len t) + 2) div 3))"

definition evidence_token_budget :: "int \<Rightarrow> int" where
  "evidence_token_budget b = min 6000 (max 1000 (b div 2))"

definition context_id :: "evidence_env \<Rightarrow> hit_context \<Rightarrow> string" where
  "context_id e p = (case p of
     Siblings cs \<Rightarrow> parent_context_id (ee_sha256 e) (ee_uuid5 e) cs
   | Hierarchy h \<Rightarrow> hc_node h)"

section \<open>Checkpoints\<close>

record evidence_snapshot =
  es_budget :: int
  es_entries :: "entry list"
  es_sources :: "source list"
  es_contexts :: "(string \<times> context_entry) list"
  es_context_tokens :: int
  es_warnings :: "string list"
  es_reranks :: "rerank_trace list"
  es_hierarchy :: "dict list"
  es_excluded :: "nat list"
  es_keys :: "(string \<times> string \<times> nat) list"
  es_used :: int

definition snapshot :: "evidence \<Rightarrow> evidence_snapshot" where
  "snapshot r = \<lparr>es_budget = ev_budget r, es_entries = ev_entries r, es_sources = map snd (ev_sources r),
     es_contexts = ev_contexts r, es_context_tokens = ev_context_tokens r,
     es_warnings = sorted_list_of_set (ev_warnings r), es_reranks = ev_reranks r, es_hierarchy = ev_hierarchy r,
     es_excluded = sorted_list_of_set (ev_excluded r),
     es_keys = map (\<lambda>((kind, i), n). (kind, i, n)) (ev_keys r), es_used = ev_used r\<rparr>"

definition restore :: "evidence_snapshot \<Rightarrow> evidence \<Rightarrow> evidence result" where
  "restore s r =
     (if es_budget s \<noteq> ev_budget r then Inl (AppError ''RUN_CHECKPOINT_DIVERGED'' 409)
      else Inr \<lparr>ev_budget = ev_budget r, ev_entries = es_entries s,
        ev_sources = fold (\<lambda>x m. AList.update (so_number x) x m) (es_sources s) [],
        ev_contexts = es_contexts s, ev_context_tokens = es_context_tokens s, ev_warnings = set (es_warnings s),
        ev_reranks = es_reranks s, ev_hierarchy = es_hierarchy s, ev_excluded = set (es_excluded s),
        ev_keys = fold (\<lambda>(kind, i, n) m. AList.update (kind, i) n m) (es_keys s) [], ev_used = es_used s\<rparr>)"

section \<open>Registration\<close>

text \<open>
  \<open>_add\<close>: the source, when the text is new and fits, and whether the key is known.
\<close>

definition new_source :: "nat \<Rightarrow> citation_source \<Rightarrow> string \<Rightarrow> string \<Rightarrow> source" where
  "new_source n c title content = \<lparr>so_number = n, so_type = source_type c, so_title = take 500 title, so_content = content,
     so_excel = None, so_tool = None, so_asserted = None\<rparr>"

definition register_text ::
    "evidence_env \<Rightarrow> string \<times> string \<Rightarrow> citation_source \<Rightarrow> string \<Rightarrow> string \<Rightarrow> evidence \<Rightarrow> (source option \<times> bool) \<times> evidence" where
  "register_text e key c title body r =
     (if map_of (ev_keys r) key \<noteq> None then ((None, True), r)
      else let content = strip (take 12000 body); tokens = count_tokens e [content] in
        if content = [] \<or> ev_used r + tokens > ev_budget r then ((None, False), r)
        else let n = length (ev_entries r) + 1; s = new_source n c title content in
          ((Some s, False), r\<lparr>
             ev_entries := ev_entries r @ [\<lparr>en_number = n, en_source = c, en_excerpt = take 500 content\<rparr>],
             ev_keys := AList.update key n (ev_keys r),
             ev_used := ev_used r + tokens,
             ev_sources := AList.update n s (ev_sources r)\<rparr>))"

text \<open>\<open>source.update(...)\<close> after registration: the registered source is the same object.\<close>

definition amend :: "(source \<Rightarrow> source) \<Rightarrow> source option \<Rightarrow> evidence \<Rightarrow> source option \<times> evidence" where
  "amend f s r = (case s of
     None \<Rightarrow> (None, r)
   | Some x \<Rightarrow> (Some (f x), r\<lparr>ev_sources := AList.update (so_number x) (f x) (ev_sources r)\<rparr>))"

text \<open>What an operation answers; the last parts are present for knowledge only.\<close>

record gathered =
  ga_sources :: "source list"
  ga_existing :: "nat list"
  ga_truncated :: bool
  ga_contexts :: "(context_entry list \<times> string list) option"
  ga_rerank :: "rerank_trace option"

definition gathered_status :: "gathered \<Rightarrow> string" where
  "gathered_status g = (if ga_sources g \<noteq> [] \<or> ga_existing g \<noteq> [] then ''ok'' else ''empty'')"

definition nothing_gathered :: gathered where
  "nothing_gathered = \<lparr>ga_sources = [], ga_existing = [], ga_truncated = False, ga_contexts = None, ga_rerank = None\<rparr>"

text \<open>One result of the loops over hits, pages and memories.\<close>

definition collect ::
    "evidence_env \<Rightarrow> string \<times> string \<Rightarrow> citation_source \<Rightarrow> string \<Rightarrow> string \<Rightarrow> (source \<Rightarrow> source) \<Rightarrow>
     gathered \<times> evidence \<Rightarrow> gathered \<times> evidence" where
  "collect e key c title body f gr =
     (case register_text e key c title body (snd gr) of
        ((s, duplicate), r) \<Rightarrow>
          (case amend f s r of (s', r') \<Rightarrow>
             (if duplicate then (fst gr)\<lparr>ga_existing := ga_existing (fst gr) @ [the (map_of (ev_keys r') key)]\<rparr>
              else case s' of
                Some x \<Rightarrow> (fst gr)\<lparr>ga_sources := ga_sources (fst gr) @ [x]\<rparr>
              | None \<Rightarrow> (fst gr)\<lparr>ga_truncated := True\<rparr>, r')))"

subsection \<open>Knowledge\<close>

definition knowledge_key :: "search_hit \<Rightarrow> string \<times> string" where
  "knowledge_key h = (''knowledge'', ch_id (sh_chunk h))"

definition knowledge_source :: "search_hit \<Rightarrow> citation_source" where
  "knowledge_source h = (let c = sh_chunk h in
     Knowledge_source (ch_document c) (ch_id c) (ch_source c) (ch_page c) (ch_section c) (sh_score h) (ch_excel c) (sh_rerank_score h))"

definition note_hierarchy :: "search_hit \<Rightarrow> evidence \<Rightarrow> evidence" where
  "note_hierarchy h r = (case sh_hierarchy_trace h of
     None \<Rightarrow> r
   | Some d \<Rightarrow> if d = [] \<or> d \<in> set (ev_hierarchy r) then r else r\<lparr>ev_hierarchy := ev_hierarchy r @ [d]\<rparr>)"

definition add_hit :: "evidence_env \<Rightarrow> search_hit \<Rightarrow> gathered \<times> evidence \<Rightarrow> gathered \<times> evidence" where
  "add_hit e h gr = collect e (knowledge_key h) (knowledge_source h) (ch_source (sh_chunk h)) (ch_content (sh_chunk h))
     (\<lambda>s. s\<lparr>so_excel := ch_excel (sh_chunk h)\<rparr>) (fst gr, note_hierarchy h (snd gr))"

text \<open>The context of a hit: at most a third of the budget, and never more than is left.\<close>

definition context_room :: "evidence \<Rightarrow> int" where
  "context_room r = min (ev_budget r - ev_used r) (ev_budget r div 3 - ev_context_tokens r)"

definition for_number :: "nat \<Rightarrow> context_entry \<Rightarrow> context_entry" where
  "for_number n c = (if n \<in> set (ce_numbers c) then c else c\<lparr>ce_numbers := ce_numbers c @ [n]\<rparr>)"

definition enter_context :: "evidence_env \<Rightarrow> string \<Rightarrow> string \<Rightarrow> string \<Rightarrow> evidence \<Rightarrow> evidence option" where
  "enter_context e i title content r =
     (if map_of (ev_contexts r) i \<noteq> None then Some r
      else let tokens = count_tokens e [content] in
        if tokens > context_room r then None
        else Some (r\<lparr>ev_contexts := AList.update i \<lparr>ce_id = i, ce_numbers = [], ce_title = title, ce_content = content\<rparr> (ev_contexts r),
                     ev_used := ev_used r + tokens, ev_context_tokens := ev_context_tokens r + tokens\<rparr>))"

definition add_context ::
    "evidence_env \<Rightarrow> search_hit \<Rightarrow> (string set \<times> string set) \<times> evidence \<Rightarrow> (string set \<times> string set) \<times> evidence" where
  "add_context e h iwr = (case iwr of ((ids, warnings), r) \<Rightarrow>
     (case (sh_context h, map_of (ev_keys r) (knowledge_key h)) of
        (Some p, Some n) \<Rightarrow>
          (let i = context_id e p in
           case enter_context e i (ch_source (sh_chunk h)) (context_content p) r of
             None \<Rightarrow> ((ids, insert ''PARENT_CONTEXT_BUDGET_EXCEEDED'' warnings), r)
           | Some r' \<Rightarrow> ((insert i ids, warnings),
               r'\<lparr>ev_contexts := AList.update i (for_number n (the (map_of (ev_contexts r') i))) (ev_contexts r')\<rparr>))
      | _ \<Rightarrow> ((ids, warnings), r)))"

definition first_trace :: "search_hit list \<Rightarrow> rerank_trace option" where
  "first_trace hits = (case hits of [] \<Rightarrow> None | h # _ \<Rightarrow> sh_rerank_trace h)"

text \<open>The members of a list of optional texts that are there and not empty.\<close>

definition given :: "string option list \<Rightarrow> string set" where
  "given xs = set (filter (\<lambda>w. w \<noteq> []) (map (\<lambda>x. case x of None \<Rightarrow> [] | Some w \<Rightarrow> w) xs))"

definition hit_warnings :: "search_hit list \<Rightarrow> string set" where
  "hit_warnings hits = given (map sh_warning hits @ [case first_trace hits of None \<Rightarrow> None | Some t \<Rightarrow> rt_error t])"

definition note_rerank :: "rerank_trace option \<Rightarrow> evidence \<Rightarrow> evidence" where
  "note_rerank t r = (case t of None \<Rightarrow> r | Some x \<Rightarrow> r\<lparr>ev_reranks := ev_reranks r @ [x]\<rparr>)"

definition foreign_context :: "search_hit \<Rightarrow> bool" where
  "foreign_context h = (case sh_context h of None \<Rightarrow> False | Some p \<Rightarrow> \<not> context_contains p (sh_chunk h))"

definition add_knowledge :: "evidence_env \<Rightarrow> search_hit list \<Rightarrow> evidence \<Rightarrow> (gathered \<times> evidence) result" where
  "add_knowledge e hits r =
     (if list_ex foreign_context hits then Inl (AppError ''VECTOR_SCOPE_MISMATCH'' 503)
      else case fold (add_hit e) hits (nothing_gathered, note_rerank (first_trace hits) r) of
        (g, r1) \<Rightarrow> (case fold (add_context e) hits (({}, hit_warnings hits), r1) of
          ((ids, warnings), r2) \<Rightarrow>
            Inr (g\<lparr>ga_contexts := Some (map (\<lambda>i. the (map_of (ev_contexts r2) i)) (sorted_list_of_set ids), sorted_list_of_set warnings),
                   ga_rerank := first_trace hits\<rparr>,
                 r2\<lparr>ev_warnings := ev_warnings r2 \<union> warnings\<rparr>)))"

subsection \<open>Pages, tools, memories and queries\<close>

record web_page =
  wp_title :: string
  wp_url :: string
  wp_content :: string
  wp_score :: "rat option"
  wp_retrieved :: time
  wp_published :: "time option"

definition web_source :: "web_page \<Rightarrow> citation_source" where
  "web_source p = Web_source (wp_title p) (wp_url p) (wp_retrieved p) (wp_published p) (wp_score p)"

fun add_pages :: "evidence_env \<Rightarrow> web_page list \<Rightarrow> gathered \<times> evidence \<Rightarrow> gathered result \<times> evidence" where
  "add_pages e [] (g, r) = (Inr g, r)"
| "add_pages e (p # ps) (g, r) =
     (case normalized_url (ee_ip_literal e) (wp_url p) of
        Inl x \<Rightarrow> (Inl x, r)
      | Inr u \<Rightarrow> add_pages e ps (collect e (''web'', u) (web_source p) (wp_title p) (wp_content p) (\<lambda>s. s) (g, r)))"

definition add_web :: "evidence_env \<Rightarrow> web_page list \<Rightarrow> evidence \<Rightarrow> gathered result \<times> evidence" where
  "add_web e ps r = add_pages e ps (nothing_gathered, r)"

text \<open>\<open>while content and count_tokens(content) > available: content = content[:len(content) // 2]\<close>.\<close>

function halve_to_fit :: "evidence_env \<Rightarrow> int \<Rightarrow> string \<Rightarrow> string" where
  "halve_to_fit e room s =
     (if s \<noteq> [] \<and> count_tokens e [s] > room then halve_to_fit e room (take (length s div 2) s) else s)"
  by pat_completeness auto
termination by (relation "measure (\<lambda>(e, room, s). length s)") auto

declare halve_to_fit.simps [simp del]

text \<open>A page that was read again, or in full after a search found its abstract, replaces the text under its number.\<close>

fun retitle :: "string \<Rightarrow> citation_source \<Rightarrow> citation_source" where
  "retitle t (Web_source _ url retrieved published score) = Web_source t url retrieved published score"
| "retitle t c = c"

definition add_web_page :: "evidence_env \<Rightarrow> web_page \<Rightarrow> evidence \<Rightarrow> gathered result \<times> evidence" where
  "add_web_page e p r = (case normalized_url (ee_ip_literal e) (wp_url p) of
     Inl x \<Rightarrow> (Inl x, r)
   | Inr u \<Rightarrow> (case map_of (ev_keys r) (''web'', u) of
       None \<Rightarrow> add_web e [p] r
     | Some n \<Rightarrow> (case map_of (ev_sources r) n of
         None \<Rightarrow> (Inl (OtherError ''KeyError''), r)
       | Some previous \<Rightarrow>
           (let tokens = count_tokens e [so_content previous];
                content = halve_to_fit e (ev_budget r - ev_used r + tokens) (strip (take 12000 (wp_content p)))
            in if content = [] then (Inr (nothing_gathered\<lparr>ga_existing := [n], ga_truncated := True\<rparr>), r)
               else let s = previous\<lparr>so_content := content, so_title := take 500 (wp_title p)\<rparr> in
                 (Inr (nothing_gathered\<lparr>ga_sources := [s], ga_truncated := length content < length (wp_content p)\<rparr>),
                  r\<lparr>ev_used := ev_used r + (count_tokens e [content] - tokens),
                    ev_sources := AList.update n s (ev_sources r),
                    ev_entries := (ev_entries r)[n - 1 := (ev_entries r ! (n - 1))\<lparr>en_excerpt := take 500 content,
                      en_source := retitle (take 500 (wp_title p)) (en_source (ev_entries r ! (n - 1)))\<rparr>]\<rparr>)))))"

text \<open>\<open>json.dumps(..., allow_nan=False)\<close> raises on the three floats that are no JSON.\<close>

fun has_nan :: "json \<Rightarrow> bool" where
  "has_nan (JFloat s) = (s \<in> {''NaN'', ''Infinity'', ''-Infinity''})"
| "has_nan (JArr xs) = list_ex has_nan xs"
| "has_nan (JObj d) = list_ex (\<lambda>(k, v). has_nan v) d"
| "has_nan v = False"

definition single :: "source option \<Rightarrow> bool \<Rightarrow> nat option \<Rightarrow> bool \<Rightarrow> gathered" where
  "single s duplicate n extra = nothing_gathered\<lparr>ga_sources := (case s of None \<Rightarrow> [] | Some x \<Rightarrow> [x]),
     ga_existing := (if duplicate then [the n] else []), ga_truncated := (extra \<or> s = None \<and> \<not> duplicate)\<rparr>"

definition add_tool :: "evidence_env \<Rightarrow> string \<Rightarrow> int \<Rightarrow> json \<Rightarrow> time \<Rightarrow> evidence \<Rightarrow> gathered result \<times> evidence" where
  "add_tool e name version data now r =
     (if has_nan data then (Inl value_error, r)
      else let content = dumps False (sort_keys data);
               key = (''tool'', name @ ''/'' @ show_int version @ ''/'' @ ee_sha256 e content)
        in case register_text e key (Tool_source name version now) name content r of
             ((s, duplicate), r') \<Rightarrow> (case amend (\<lambda>x. x\<lparr>so_tool := Some (name, version)\<rparr>) s r' of
               (s', r'') \<Rightarrow> (Inr (single s' duplicate (map_of (ev_keys r'') key) (12000 < length content)), r'')))"

record memory_item =
  mi_id :: string
  mi_content :: string
  mi_score :: json
  mi_asserted :: "string option"

definition register_memory :: "evidence_env \<Rightarrow> memory_item \<Rightarrow> gathered \<times> evidence \<Rightarrow> gathered \<times> evidence" where
  "register_memory e m gr = collect e (''memory'', mi_id m) (Memory_source (mi_id m) (mi_score m)) (ee_memory_title e) (mi_content m)
     (\<lambda>s. case mi_asserted m of Some (c # t) \<Rightarrow> s\<lparr>so_asserted := Some (c # t)\<rparr> | _ \<Rightarrow> s) gr"

definition add_memories :: "evidence_env \<Rightarrow> memory_item list \<Rightarrow> evidence \<Rightarrow> gathered \<times> evidence" where
  "add_memories e ms r = fold (register_memory e) ms (nothing_gathered, r)"

text \<open>A cell of a query's result: as \<open>json.dumps(default=str)\<close> writes it, and \<open>str(value)\<close>.\<close>

record sql_result =
  sq_source :: string
  sq_query :: string
  sq_columns :: "string list"
  sq_rows :: "(json \<times> string) list list"
  sq_truncated :: bool

definition sql_json :: "sql_result \<Rightarrow> json" where
  "sql_json q = JObj [(''source_name'', JStr (sq_source q)), (''query'', JStr (sq_query q)),
     (''columns'', JArr (map JStr (sq_columns q))), (''rows'', JArr (map (\<lambda>row. JArr (map fst row)) (sq_rows q))),
     (''truncated'', JBool (sq_truncated q))]"

definition sql_preview :: "evidence_env \<Rightarrow> sql_result \<Rightarrow> string" where
  "sql_preview e q =
     (let rows = joined [CHR 0x0A] (map (\<lambda>row. joined (ee_semicolon e)
            (map (\<lambda>(column, cell). column @ ee_colon e @ snd cell) (zip (sq_columns q) row))) (sq_rows q))
      in if rows = [] then ee_no_rows e else rows)"

definition add_sql :: "evidence_env \<Rightarrow> sql_result \<Rightarrow> evidence \<Rightarrow> gathered \<times> evidence" where
  "add_sql e q r =
     (let content = dumps False (sql_json q); key = (''sql'', ee_sha256 e content) in
      case register_text e key (Sql_source (sq_source q) (sq_query q) (sq_columns q) (length (sq_rows q)) (sq_truncated q))
          (sq_source q) content r of
        ((s, duplicate), r') \<Rightarrow>
          (single s duplicate (map_of (ev_keys r') key) False,
           case s of
             None \<Rightarrow> r'
           | Some x \<Rightarrow> r'\<lparr>ev_entries := (ev_entries r')[so_number x - 1 :=
               (ev_entries r' ! (so_number x - 1))\<lparr>en_excerpt := take 500 (sql_preview e q)\<rparr>]\<rparr>))"

section \<open>Citations\<close>

text \<open>\<open>re.findall(r"\[(\d+)\]", answer)\<close>.\<close>

function cited_digits :: "string \<Rightarrow> string list" where
  "cited_digits [] = []"
| "cited_digits (c # s) =
     (if c = CHR ''['' then
        (let ds = takeWhile decimal s; t = dropWhile decimal s in
         if ds \<noteq> [] \<and> prefix '']'' t then ds # cited_digits (tl t) else cited_digits s)
      else cited_digits s)"
  by pat_completeness auto
termination
proof (relation "measure length", goal_cases)
  case (2 c s ds t)
  then have "length t \<le> length s" by (simp add: length_dropWhile_le)
  then show ?case by simp
qed auto

text \<open>\<open>int\<close> refuses texts of more than 4300 digits.\<close>

definition cited_numbers :: "string \<Rightarrow> nat set result" where
  "cited_numbers s =
     (if list_ex (\<lambda>d. 4300 < length d) (cited_digits s) then Inl value_error
      else Inr (set (map nat_value (cited_digits s))))"

definition invalid_citation :: exn where
  "invalid_citation = AppError ''INVALID_CITATION'' 502"

definition eligible_entries :: "evidence \<Rightarrow> entry list" where
  "eligible_entries r = filter (\<lambda>x. en_number x \<notin> ev_excluded r) (ev_entries r)"

definition entry_type :: "entry \<Rightarrow> string" where
  "entry_type x = source_type (en_source x)"

definition mode_allows :: "string \<Rightarrow> string \<Rightarrow> bool" where
  "mode_allows mode kind =
     (if mode \<in> {''knowledge'', ''web'', ''sql''}
      then kind = mode \<or> kind = ''memory'' \<or> mode = ''web'' \<and> kind = ''tool'' else True)"

definition check_citations :: "string \<Rightarrow> string \<Rightarrow> string \<Rightarrow> evidence \<Rightarrow> entry list result" where
  "check_citations kind answer mode r =
     and_then (cited_numbers answer) (\<lambda>numbers.
     if kind = ''clarification'' then (if numbers \<noteq> {} then Inl invalid_citation else Inr [])
     else let by_number = map_of (map (\<lambda>x. (en_number x, x)) (eligible_entries r)) in
       and_then (raise_if (list_ex (\<lambda>x. entry_type x \<noteq> ''memory'') (eligible_entries r) \<and> kind \<noteq> ''grounded'') invalid_citation) (\<lambda>_.
       and_then (raise_if (list_ex (\<lambda>n. by_number n = None) (sorted_list_of_set numbers)) invalid_citation) (\<lambda>_.
       let citations = map (\<lambda>n. the (by_number n)) (sorted_list_of_set numbers) in
       and_then (raise_if (kind = ''grounded'' \<and> citations = []) invalid_citation) (\<lambda>_.
       and_then (raise_if (list_ex (\<lambda>c. \<not> mode_allows mode (entry_type c)) citations) invalid_citation) (\<lambda>_.
       Inr citations)))))"

end
