(* ===== verification/EvidenceProperties.thy ===== *)
theory EvidenceProperties
  imports Evidence
begin

text \<open>
  What every operation of the evidence registry keeps: numbers are the positions of the entries, each
  entry has its key and its source, contexts point to registered evidence, and the tokens in use are the
  sum of what is registered and never exceed the budget. Accepted citations name registered evidence.
\<close>

section \<open>Lists keyed by their positions\<close>

lemma update_numbered:
  assumes "map fst al = [a..<a + length al]" "i < length al"
  shows "AList.update (a + i) v al = al[i := (a + i, v)]"
  using assms
proof (induction al arbitrary: a i)
  case (Cons x al)
  have f: "fst x = a" and r: "map fst al = [Suc a..<Suc a + length al]" using Cons.prems(1) by (simp_all add: upt_conv_Cons del: upt_Suc)
  show ?case
  proof (cases i)
    case 0
    then show ?thesis using f by (cases x) simp
  next
    case (Suc j)
    then show ?thesis using Cons.IH [OF r, of j] Cons.prems(2) f by (cases x) simp
  qed
qed simp

lemma update_next: "k \<notin> fst ` set al \<Longrightarrow> AList.update k v al = al @ [(k, v)]"
  by (induction al) auto

lemma map_of_nth_key:
  assumes "distinct (map fst al)" "i < length al"
  shows "map_of al (fst (al ! i)) = Some (snd (al ! i))"
  using assms by (metis map_of_is_SomeI nth_mem prod.collapse)

lemma sum_list_update_int: "i < length xs \<Longrightarrow> sum_list (xs[i := x]) = sum_list xs + x - (xs ! i :: int)"
  by (induction xs arbitrary: i) (auto split: nat.splits)

section \<open>The invariant\<close>

definition entry_ok :: "evidence \<Rightarrow> nat \<Rightarrow> bool" where
  "entry_ok r i \<longleftrightarrow> en_number (ev_entries r ! i) = Suc i \<and> snd (ev_keys r ! i) = Suc i \<and>
     fst (fst (ev_keys r ! i)) = entry_type (ev_entries r ! i) \<and>
     fst (ev_sources r ! i) = Suc i \<and> so_number (snd (ev_sources r ! i)) = Suc i \<and>
     so_type (snd (ev_sources r ! i)) = entry_type (ev_entries r ! i) \<and> so_content (snd (ev_sources r ! i)) \<noteq> []"

definition entries_ok :: "evidence \<Rightarrow> bool" where
  "entries_ok r \<longleftrightarrow> length (ev_keys r) = length (ev_entries r) \<and> length (ev_sources r) = length (ev_entries r) \<and>
     distinct (map fst (ev_keys r)) \<and> (\<forall>i<length (ev_entries r). entry_ok r i)"

definition context_ok :: "evidence \<Rightarrow> string \<times> context_entry \<Rightarrow> bool" where
  "context_ok r ic \<longleftrightarrow> ce_id (snd ic) = fst ic \<and> distinct (ce_numbers (snd ic)) \<and>
     set (ce_numbers (snd ic)) \<subseteq> {1..length (ev_entries r)}"

definition contexts_ok :: "evidence \<Rightarrow> bool" where
  "contexts_ok r \<longleftrightarrow> distinct (map fst (ev_contexts r)) \<and> (\<forall>ic\<in>set (ev_contexts r). context_ok r ic)"

definition source_tokens :: "evidence_env \<Rightarrow> evidence \<Rightarrow> int" where
  "source_tokens e r = sum_list (map (\<lambda>(n, s). count_tokens e [so_content s]) (ev_sources r))"

definition tokens_ok :: "evidence_env \<Rightarrow> evidence \<Rightarrow> bool" where
  "tokens_ok e r \<longleftrightarrow> ev_context_tokens r = sum_list (map (\<lambda>(i, c). count_tokens e [ce_content c]) (ev_contexts r)) \<and>
     ev_used r = source_tokens e r + ev_context_tokens r \<and>
     ev_used r \<le> ev_budget r \<and> ev_context_tokens r \<le> ev_budget r div 3"

definition sets_ok :: "evidence \<Rightarrow> bool" where
  "sets_ok r \<longleftrightarrow> finite (ev_warnings r) \<and> ev_excluded r \<subseteq> {1..length (ev_entries r)}"

definition evidence_ok :: "evidence_env \<Rightarrow> evidence \<Rightarrow> bool" where
  "evidence_ok e r \<longleftrightarrow> entries_ok r \<and> contexts_ok r \<and> tokens_ok e r \<and> sets_ok r"

lemma evidence_okI [intro]: "entries_ok r \<Longrightarrow> contexts_ok r \<Longrightarrow> tokens_ok e r \<Longrightarrow> sets_ok r \<Longrightarrow> evidence_ok e r"
  by (simp add: evidence_ok_def)

lemma evidence_okD:
  assumes "evidence_ok e r"
  shows "entries_ok r" "contexts_ok r" "tokens_ok e r" "sets_ok r"
  using assms by (simp_all add: evidence_ok_def)

lemma new_evidence_ok: "0 \<le> b \<Longrightarrow> evidence_ok e (new_evidence b)"
  by (simp add: evidence_ok_def entries_ok_def contexts_ok_def tokens_ok_def source_tokens_def sets_ok_def new_evidence_def)

lemma entries_sources_keys:
  assumes "entries_ok r"
  shows "map fst (ev_sources r) = [1..<1 + length (ev_sources r)]"
  using assms by (intro nth_equalityI) (auto simp: entries_ok_def entry_ok_def nth_upt simp del: upt_Suc)

lemma entries_key_numbers:
  assumes "entries_ok r"
  shows "map_of (ev_keys r) k = Some n \<longleftrightarrow> (\<exists>i<length (ev_entries r). n = Suc i \<and> fst (ev_keys r ! i) = k)"
proof -
  have d: "distinct (map fst (ev_keys r))" and l: "length (ev_keys r) = length (ev_entries r)"
    and n: "\<And>i. i < length (ev_entries r) \<Longrightarrow> snd (ev_keys r ! i) = Suc i"
    using assms by (auto simp: entries_ok_def entry_ok_def)
  show ?thesis
    unfolding map_of_eq_Some_iff [OF d] in_set_conv_nth using l n by (metis fst_conv prod.collapse snd_conv)
qed

lemma entries_source_at:
  assumes "entries_ok r" "i < length (ev_entries r)"
  shows "map_of (ev_sources r) (Suc i) = Some (snd (ev_sources r ! i))"
proof -
  have d: "distinct (map fst (ev_sources r))" by (simp add: entries_sources_keys [OF assms(1)])
  show ?thesis using map_of_nth_key [OF d, of i] assms by (simp add: entries_ok_def entry_ok_def)
qed

text \<open>Replacing the source of a registered number.\<close>

lemma entries_update_source:
  assumes "entries_ok r" "i < length (ev_entries r)"
  shows "AList.update (Suc i) s (ev_sources r) = (ev_sources r)[i := (Suc i, s)]"
  using update_numbered [OF entries_sources_keys [OF assms(1)], of i s] assms by (simp add: entries_ok_def)

lemma replace_source_ok:
  assumes ok: "entries_ok r" and i: "i < length (ev_entries r)"
    and s: "so_number s = Suc i" "so_type s = entry_type (ev_entries r ! i)" "so_content s \<noteq> []"
  shows "entries_ok (r\<lparr>ev_sources := AList.update (Suc i) s (ev_sources r)\<rparr>)"
    and "source_tokens e (r\<lparr>ev_sources := AList.update (Suc i) s (ev_sources r)\<rparr>) =
      source_tokens e r + count_tokens e [so_content s] - count_tokens e [so_content (snd (ev_sources r ! i))]"
proof -
  show "entries_ok (r\<lparr>ev_sources := AList.update (Suc i) s (ev_sources r)\<rparr>)"
    using ok i s unfolding entries_update_source [OF ok i]
    by (auto simp: entries_ok_def entry_ok_def nth_list_update)
  have l: "i < length (ev_sources r)" using ok i by (simp add: entries_ok_def)
  show "source_tokens e (r\<lparr>ev_sources := AList.update (Suc i) s (ev_sources r)\<rparr>) =
      source_tokens e r + count_tokens e [so_content s] - count_tokens e [so_content (snd (ev_sources r ! i))]"
    using l unfolding entries_update_source [OF ok i]
    by (simp add: source_tokens_def map_update sum_list_update_int case_prod_unfold)
qed

section \<open>Growth\<close>

text \<open>
  No operation forgets or renumbers an entry, changes its type, or touches the numbers that are excluded.
\<close>

definition evidence_grows :: "evidence \<Rightarrow> evidence \<Rightarrow> bool" where
  "evidence_grows r r' \<longleftrightarrow> ev_budget r' = ev_budget r \<and> ev_excluded r' = ev_excluded r \<and>
     prefix (map entry_type (ev_entries r)) (map entry_type (ev_entries r')) \<and> prefix (ev_keys r) (ev_keys r')"

lemma evidence_grows_refl [simp]: "evidence_grows r r"
  by (simp add: evidence_grows_def)

lemma evidence_grows_trans [trans]: "evidence_grows r s \<Longrightarrow> evidence_grows s t \<Longrightarrow> evidence_grows r t"
  by (auto simp: evidence_grows_def intro: prefix_order.trans)

definition has_type :: "string \<Rightarrow> evidence \<Rightarrow> nat \<Rightarrow> bool" where
  "has_type kind r n \<longleftrightarrow> 1 \<le> n \<and> n \<le> length (ev_entries r) \<and> entry_type (ev_entries r ! (n - 1)) = kind"

lemma has_type_grows:
  assumes "evidence_grows r r'" "has_type kind r n"
  shows "has_type kind r' n"
proof -
  obtain zs where z: "map entry_type (ev_entries r') = map entry_type (ev_entries r) @ zs"
    using assms(1) by (auto simp: evidence_grows_def prefix_def)
  have l: "length (ev_entries r) \<le> length (ev_entries r')" using arg_cong [OF z, of length] by simp
  have n: "n - 1 < length (ev_entries r)" using assms(2) by (auto simp: has_type_def)
  have "entry_type (ev_entries r' ! (n - 1)) = entry_type (ev_entries r ! (n - 1))"
    using arg_cong [OF z, of "\<lambda>xs. xs ! (n - 1)"] n l by (simp add: nth_append)
  then show ?thesis using assms(2) l by (simp add: has_type_def)
qed

definition numbers_of :: "gathered \<Rightarrow> nat set" where
  "numbers_of g = so_number ` set (ga_sources g) \<union> set (ga_existing g)"

text \<open>What a loop over results of one kind keeps.\<close>

definition gathering :: "evidence_env \<Rightarrow> string \<Rightarrow> evidence \<Rightarrow> gathered \<times> evidence \<Rightarrow> bool" where
  "gathering e kind r0 gr \<longleftrightarrow> evidence_ok e (snd gr) \<and> evidence_grows r0 (snd gr) \<and>
     (\<forall>n\<in>numbers_of (fst gr). has_type kind (snd gr) n)"

lemma gathering_step:
  assumes "gathering e kind r0 (g, r)" "evidence_ok e r'" "evidence_grows r r'"
    and "\<And>n. n \<in> numbers_of g' \<Longrightarrow> n \<in> numbers_of g \<or> has_type kind r' n"
  shows "gathering e kind r0 (g', r')"
proof -
  have g: "evidence_grows r0 r" "\<forall>n\<in>numbers_of g. has_type kind r n" using assms(1) by (simp_all add: gathering_def)
  have "has_type kind r' n" if "n \<in> numbers_of g'" for n
    using assms(4) [OF that] g(2) has_type_grows [OF assms(3)] by blast
  then show ?thesis using assms(2) evidence_grows_trans [OF g(1) assms(3)] by (simp add: gathering_def)
qed

section \<open>Registration\<close>

lemma register_cases:
  obtains (known) n where "register_text e key c title body r = ((None, True), r)" "map_of (ev_keys r) key = Some n"
  | (unfit) "register_text e key c title body r = ((None, False), r)" "map_of (ev_keys r) key = None"
  | (added) content where "register_text e key c title body r = ((Some (new_source (Suc (length (ev_entries r))) c title content), False),
      r\<lparr>ev_entries := ev_entries r @ [\<lparr>en_number = Suc (length (ev_entries r)), en_source = c, en_excerpt = take 500 content\<rparr>],
        ev_keys := ev_keys r @ [(key, Suc (length (ev_entries r)))],
        ev_used := ev_used r + count_tokens e [content],
        ev_sources := AList.update (Suc (length (ev_entries r))) (new_source (Suc (length (ev_entries r))) c title content) (ev_sources r)\<rparr>)"
      "map_of (ev_keys r) key = None" "content \<noteq> []" "ev_used r + count_tokens e [content] \<le> ev_budget r"
      "content = strip (take 12000 body)"
proof (cases "map_of (ev_keys r) key")
  case None
  show ?thesis
  proof (cases "strip (take 12000 body) = [] \<or> ev_used r + count_tokens e [strip (take 12000 body)] > ev_budget r")
    case True
    show ?thesis by (rule unfit) (use True None in \<open>simp_all add: register_text_def Let_def\<close>)
  next
    case False
    have k: "AList.update key (Suc (length (ev_entries r))) (ev_keys r) = ev_keys r @ [(key, Suc (length (ev_entries r)))]"
      by (rule update_next) (use None in \<open>simp add: map_of_eq_None_iff\<close>)
    show ?thesis by (rule added) (use False None k in \<open>auto simp: register_text_def Let_def\<close>)
  qed
next
  case (Some n)
  show ?thesis by (rule known) (use Some in \<open>simp_all add: register_text_def\<close>)
qed

lemma entries_next_source:
  assumes "entries_ok r"
  shows "AList.update (Suc (length (ev_entries r))) s (ev_sources r) = ev_sources r @ [(Suc (length (ev_entries r)), s)]"
proof (rule update_next)
  have "set (map fst (ev_sources r)) = {1..<1 + length (ev_sources r)}"
    unfolding entries_sources_keys [OF assms] by (simp del: upt_Suc)
  then show "Suc (length (ev_entries r)) \<notin> fst ` set (ev_sources r)" using assms by (simp add: entries_ok_def)
qed

lemma add_entry_ok:
  assumes ok: "evidence_ok e r" and key: "map_of (ev_keys r) key = None" "fst key = source_type c"
    and content: "content \<noteq> []" "ev_used r + count_tokens e [content] \<le> ev_budget r"
  shows "evidence_ok e (r\<lparr>ev_entries := ev_entries r @ [\<lparr>en_number = Suc (length (ev_entries r)), en_source = c, en_excerpt = x\<rparr>],
        ev_keys := ev_keys r @ [(key, Suc (length (ev_entries r)))],
        ev_used := ev_used r + count_tokens e [content],
        ev_sources := AList.update (Suc (length (ev_entries r))) (new_source (Suc (length (ev_entries r))) c title content) (ev_sources r)\<rparr>)"
    (is "evidence_ok e ?r")
proof
  note okd = evidence_okD [OF ok]
  have k: "key \<notin> set (map fst (ev_keys r))" using key(1) by (simp add: map_of_eq_None_iff)
  show "entries_ok ?r"
    using okd(1) k key(2) content(1) unfolding entries_next_source [OF okd(1)]
    by (auto simp: entries_ok_def entry_ok_def nth_append less_Suc_eq entry_type_def new_source_def)
  show "contexts_ok ?r" using okd(2) by (fastforce simp: contexts_ok_def context_ok_def)
  show "tokens_ok e ?r"
    using okd(3) content(2) unfolding entries_next_source [OF okd(1)] by (simp add: tokens_ok_def source_tokens_def new_source_def)
  show "sets_ok ?r" using okd(4) by (fastforce simp: sets_ok_def)
qed

text \<open>Changes of a source that are not its number, type or text.\<close>

definition dresses :: "(source \<Rightarrow> source) \<Rightarrow> bool" where
  "dresses f \<longleftrightarrow> (\<forall>s. so_number (f s) = so_number s \<and> so_type (f s) = so_type s \<and> so_content (f s) = so_content s)"

lemma replace_source_evidence:
  assumes ok: "evidence_ok e r" and i: "i < length (ev_entries r)"
    and s: "so_number s = Suc i" "so_type s = entry_type (ev_entries r ! i)" "so_content s \<noteq> []"
    and t: "ev_used r + (count_tokens e [so_content s] - count_tokens e [so_content (snd (ev_sources r ! i))]) \<le> ev_budget r"
  shows "evidence_ok e (r\<lparr>ev_used := ev_used r + (count_tokens e [so_content s] - count_tokens e [so_content (snd (ev_sources r ! i))]),
    ev_sources := AList.update (Suc i) s (ev_sources r)\<rparr>)" (is "evidence_ok e ?r")
proof
  note okd = evidence_okD [OF ok]
  have r: "?r = r\<lparr>ev_sources := AList.update (Suc i) s (ev_sources r),
      ev_used := ev_used r + (count_tokens e [so_content s] - count_tokens e [so_content (snd (ev_sources r ! i))])\<rparr>" by simp
  show "entries_ok ?r"
    using replace_source_ok(1) [OF okd(1) i s] unfolding r by (simp add: entries_ok_def entry_ok_def)
  show "contexts_ok ?r" using okd(2) by (simp add: contexts_ok_def context_ok_def)
  show "tokens_ok e ?r"
    using okd(3) t replace_source_ok(2) [OF okd(1) i s, of e] unfolding r by (simp add: tokens_ok_def source_tokens_def)
  show "sets_ok ?r" using okd(4) by (simp add: sets_ok_def)
qed

lemma amend_ok:
  assumes ok: "evidence_ok e r" and i: "i < length (ev_entries r)" and f: "dresses f"
  shows "evidence_ok e (r\<lparr>ev_sources := AList.update (Suc i) (f (snd (ev_sources r ! i))) (ev_sources r)\<rparr>)"
proof -
  have eo: "entry_ok r i" using evidence_okD(1) [OF ok] i by (simp add: entries_ok_def)
  have "ev_used r \<le> ev_budget r" using evidence_okD(3) [OF ok] by (simp add: tokens_ok_def)
  then show ?thesis
    using replace_source_evidence [OF ok i, of "f (snd (ev_sources r ! i))"] eo f
    by (simp add: dresses_def entry_ok_def)
qed

text \<open>A registration followed by the changes of its caller.\<close>

definition registered :: "evidence_env \<Rightarrow> string \<times> string \<Rightarrow> citation_source \<Rightarrow> string \<Rightarrow> string \<Rightarrow> (source \<Rightarrow> source) \<Rightarrow> evidence
    \<Rightarrow> source option \<times> bool \<times> evidence" where
  "registered e key c title body f r = (case register_text e key c title body r of ((s, duplicate), r1) \<Rightarrow>
     (case amend f s r1 of (s', r2) \<Rightarrow> (s', duplicate, r2)))"

lemma register_ok:
  assumes ok: "evidence_ok e r" and key: "fst key = source_type c"
    and reg: "register_text e key c title body r = ((s, duplicate), r')"
  shows "evidence_ok e r'" "evidence_grows r r'"
    and "s = Some x \<Longrightarrow> has_type (source_type c) r' (so_number x) \<and> snd (ev_sources r' ! (so_number x - 1)) = x"
    and "duplicate \<Longrightarrow> s = None \<and> has_type (source_type c) r' (the (map_of (ev_keys r') key))"
proof -
  have eo: "entries_ok r" by (rule evidence_okD(1) [OF ok])
  have "evidence_ok e r' \<and> evidence_grows r r' \<and>
      (\<forall>x. s = Some x \<longrightarrow> has_type (source_type c) r' (so_number x) \<and> snd (ev_sources r' ! (so_number x - 1)) = x) \<and>
      (duplicate \<longrightarrow> s = None \<and> has_type (source_type c) r' (the (map_of (ev_keys r') key)))"
  proof (cases rule: register_cases [of e key c title body r])
    case (known n)
    obtain i where i: "i < length (ev_entries r)" "n = Suc i" "fst (ev_keys r ! i) = key"
      using known(2) unfolding entries_key_numbers [OF eo] by blast
    have "has_type (source_type c) r n" using eo i key by (auto simp: entries_ok_def entry_ok_def has_type_def)
    then show ?thesis using known reg ok by simp
  next
    case unfit
    then show ?thesis using reg ok by simp
  next
    case (added content)
    have l: "length (ev_sources r) = length (ev_entries r)" using eo by (simp add: entries_ok_def)
    have "evidence_ok e r'"
      using add_entry_ok [OF ok added(2) key added(3,4)] reg unfolding added(1) by auto
    then show ?thesis using reg l unfolding added(1)
      by (auto simp: evidence_grows_def has_type_def entry_type_def new_source_def nth_append entries_next_source [OF eo])
  qed
  then show "evidence_ok e r'" "evidence_grows r r'"
    "s = Some x \<Longrightarrow> has_type (source_type c) r' (so_number x) \<and> snd (ev_sources r' ! (so_number x - 1)) = x"
    "duplicate \<Longrightarrow> s = None \<and> has_type (source_type c) r' (the (map_of (ev_keys r') key))" by auto
qed

lemma registered_ok:
  assumes ok: "evidence_ok e r" and key: "fst key = source_type c" and f: "dresses f"
    and reg: "registered e key c title body f r = (s, duplicate, r')"
  shows "evidence_ok e r'" "evidence_grows r r'"
    and "s = Some x \<Longrightarrow> has_type (source_type c) r' (so_number x)"
    and "duplicate \<Longrightarrow> s = None \<and> has_type (source_type c) r' (the (map_of (ev_keys r') key))"
proof -
  obtain s1 d1 r1 where reg1: "register_text e key c title body r = ((s1, d1), r1)" by (metis surj_pair)
  note r1 = register_ok [OF ok key reg1]
  have "evidence_ok e r' \<and> evidence_grows r r' \<and> (\<forall>x. s = Some x \<longrightarrow> has_type (source_type c) r' (so_number x)) \<and>
      (duplicate \<longrightarrow> s = None \<and> has_type (source_type c) r' (the (map_of (ev_keys r') key)))"
  proof (cases s1)
    case None
    then show ?thesis using reg r1 by (auto simp: registered_def reg1 amend_def)
  next
    case (Some x)
    have x: "has_type (source_type c) r1 (so_number x)" "snd (ev_sources r1 ! (so_number x - 1)) = x" using r1(3) [OF Some] by auto
    obtain i where i: "so_number x = Suc i" "i < length (ev_entries r1)"
      using x(1) by (cases "so_number x") (auto simp: has_type_def)
    have r': "s = Some (f x)" "duplicate = d1" "r' = r1\<lparr>ev_sources := AList.update (Suc i) (f (snd (ev_sources r1 ! i))) (ev_sources r1)\<rparr>"
      using reg x(2) i(1) by (auto simp: registered_def reg1 Some amend_def)
    have ok': "evidence_ok e r'" unfolding r'(3) by (rule amend_ok [OF r1(1) i(2) f])
    have same: "ev_entries r' = ev_entries r1" "ev_keys r' = ev_keys r1" "evidence_grows r r'"
      using r1(2) unfolding r'(3) by (simp_all add: evidence_grows_def)
    show ?thesis using ok' same r1(3,4) Some r'(1,2) f by (auto simp: has_type_def dresses_def)
  qed
  then show "evidence_ok e r'" "evidence_grows r r'" "s = Some x \<Longrightarrow> has_type (source_type c) r' (so_number x)"
    "duplicate \<Longrightarrow> s = None \<and> has_type (source_type c) r' (the (map_of (ev_keys r') key))" by auto
qed

lemma collect_gathering:
  assumes g: "gathering e (source_type c) r0 gr" and key: "fst key = source_type c" and f: "dresses f"
  shows "gathering e (source_type c) r0 (collect e key c title body f gr)"
proof -
  obtain g0 r where gr: "gr = (g0, r)" by fastforce
  obtain s duplicate r' where reg: "registered e key c title body f r = (s, duplicate, r')" by (metis prod_cases3)
  have ok: "evidence_ok e r" using g by (simp add: gathering_def gr)
  note r = registered_ok [OF ok key f reg]
  have c: "collect e key c title body f (g0, r) =
      (if duplicate then g0\<lparr>ga_existing := ga_existing g0 @ [the (map_of (ev_keys r') key)]\<rparr>
       else case s of Some x \<Rightarrow> g0\<lparr>ga_sources := ga_sources g0 @ [x]\<rparr> | None \<Rightarrow> g0\<lparr>ga_truncated := True\<rparr>, r')"
    using reg by (cases s) (auto simp: collect_def registered_def split: prod.splits)
  show ?thesis
    unfolding gr c
    by (rule gathering_step [OF g [unfolded gr] r(1,2)]) (use r(3,4) in \<open>auto simp: numbers_of_def split: if_splits option.splits\<close>)
qed

section \<open>Operations\<close>

text \<open>The parts of the registry that only record events.\<close>

lemma notes_ok:
  assumes "evidence_ok e r"
  shows "evidence_ok e (note_hierarchy h r) \<and> evidence_grows r (note_hierarchy h r)"
    and "evidence_ok e (note_rerank t r) \<and> evidence_grows r (note_rerank t r)"
    and "finite w \<Longrightarrow> evidence_ok e (r\<lparr>ev_warnings := ev_warnings r \<union> w\<rparr>) \<and> evidence_grows r (r\<lparr>ev_warnings := ev_warnings r \<union> w\<rparr>)"
  using assms
  by (auto simp: evidence_ok_def entries_ok_def entry_ok_def contexts_ok_def context_ok_def tokens_ok_def source_tokens_def sets_ok_def
      evidence_grows_def note_hierarchy_def note_rerank_def split: option.splits)

lemma dresses_simps:
  "dresses (\<lambda>s. s)" "dresses (\<lambda>s. s\<lparr>so_excel := x\<rparr>)" "dresses (\<lambda>s. s\<lparr>so_tool := y\<rparr>)"
  "dresses (\<lambda>s. case a of Some (c # t) \<Rightarrow> s\<lparr>so_asserted := Some (c # t)\<rparr> | _ \<Rightarrow> s)"
  by (auto simp: dresses_def split: option.splits list.splits)

lemma add_hit_gathering: "gathering e ''knowledge'' r0 gr \<Longrightarrow> gathering e ''knowledge'' r0 (add_hit e h gr)"
proof -
  assume g: "gathering e ''knowledge'' r0 gr"
  have t: "source_type (knowledge_source h) = ''knowledge''" by (simp add: knowledge_source_def Let_def)
  have n: "gathering e ''knowledge'' r0 (fst gr, note_hierarchy h (snd gr))"
  proof (rule gathering_step)
    show "gathering e ''knowledge'' r0 (fst gr, snd gr)" using g by simp
    show "evidence_ok e (note_hierarchy h (snd gr))" "evidence_grows (snd gr) (note_hierarchy h (snd gr))"
      using notes_ok(1) [of e "snd gr" h] g by (simp_all add: gathering_def)
  qed simp
  show ?thesis
    using collect_gathering [of e "knowledge_source h", unfolded t, OF n _ dresses_simps(2)]
    by (simp add: add_hit_def knowledge_key_def)
qed

lemma fold_keeps: "P x \<Longrightarrow> (\<And>y x. P x \<Longrightarrow> P (f y x)) \<Longrightarrow> P (fold f ys x)"
  by (induction ys arbitrary: x) auto

lemma set_alist_update: "x \<in> set (AList.update k v al) \<Longrightarrow> x = (k, v) \<or> x \<in> set al"
  by (induction al) (auto split: if_splits)

lemma update_context_ok:
  assumes "contexts_ok r" "ce_id c = i" "distinct (ce_numbers c)" "set (ce_numbers c) \<subseteq> {1..length (ev_entries r)}"
  shows "contexts_ok (r\<lparr>ev_contexts := AList.update i c (ev_contexts r)\<rparr>)"
  using assms by (auto simp: contexts_ok_def context_ok_def distinct_update dest!: set_alist_update)

lemma sum_update_known:
  "map_of al k = Some v \<Longrightarrow> g v' = g v \<Longrightarrow> sum_list (map (\<lambda>(k, v). g v) (AList.update k v' al)) = sum_list (map (\<lambda>(k, v). g v) al)"
  by (induction al) (auto split: if_splits)

lemma enter_context_ok:
  assumes ok: "evidence_ok e r" and enter: "enter_context e i title content r = Some r'"
  shows "evidence_ok e r'" "evidence_grows r r'" "map_of (ev_contexts r') i \<noteq> None"
    "ev_entries r' = ev_entries r" "ev_keys r' = ev_keys r"
proof -
  have "evidence_ok e r' \<and> evidence_grows r r' \<and> map_of (ev_contexts r') i \<noteq> None \<and> ev_entries r' = ev_entries r \<and> ev_keys r' = ev_keys r"
  proof (cases "map_of (ev_contexts r) i")
    case (Some c)
    then show ?thesis using ok enter by (simp add: enter_context_def)
  next
    case None
    let ?c = "\<lparr>ce_id = i, ce_numbers = [], ce_title = title, ce_content = content\<rparr>"
    have r': "count_tokens e [content] \<le> context_room r"
      "r' = r\<lparr>ev_contexts := AList.update i ?c (ev_contexts r), ev_used := ev_used r + count_tokens e [content],
          ev_context_tokens := ev_context_tokens r + count_tokens e [content]\<rparr>"
      using enter None by (auto simp: enter_context_def Let_def split: if_splits)
    have n: "AList.update i ?c (ev_contexts r) = ev_contexts r @ [(i, ?c)]"
      by (rule update_next) (use None in \<open>simp add: map_of_eq_None_iff\<close>)
    note okd = evidence_okD [OF ok]
    have "evidence_ok e r'"
    proof
      show "entries_ok r'" using okd(1) by (simp add: r'(2) entries_ok_def entry_ok_def)
      show "contexts_ok r'"
        using update_context_ok [OF okd(2), of ?c i] by (simp add: r'(2) contexts_ok_def context_ok_def)
      show "tokens_ok e r'" using okd(3) r'(1) by (simp add: r'(2) n tokens_ok_def source_tokens_def context_room_def)
      show "sets_ok r'" using okd(4) by (simp add: r'(2) sets_ok_def)
    qed
    then show ?thesis by (simp add: r'(2) evidence_grows_def update_conv')
  qed
  then show "evidence_ok e r'" "evidence_grows r r'" "map_of (ev_contexts r') i \<noteq> None"
    "ev_entries r' = ev_entries r" "ev_keys r' = ev_keys r" by auto
qed

lemma for_number_ok:
  assumes ok: "evidence_ok e r" and c: "map_of (ev_contexts r) i = Some c" and n: "1 \<le> n" "n \<le> length (ev_entries r)"
  shows "evidence_ok e (r\<lparr>ev_contexts := AList.update i (for_number n c) (ev_contexts r)\<rparr>)" (is "evidence_ok e ?r")
proof
  note okd = evidence_okD [OF ok]
  have "context_ok r (i, c)" using okd(2) map_of_SomeD [OF c] by (auto simp: contexts_ok_def)
  then show "contexts_ok ?r"
    using n by (intro update_context_ok [OF okd(2)]) (auto simp: for_number_def context_ok_def)
  have "count_tokens e [ce_content (for_number n c)] = count_tokens e [ce_content c]" by (simp add: for_number_def)
  then show "tokens_ok e ?r"
    using okd(3) sum_update_known [OF c, of "\<lambda>c. count_tokens e [ce_content c]" "for_number n c"]
    by (simp add: tokens_ok_def source_tokens_def)
  show "entries_ok ?r" using okd(1) by (simp add: entries_ok_def entry_ok_def)
  show "sets_ok ?r" using okd(4) by (simp add: sets_ok_def)
qed

text \<open>The second loop over hits: its contexts are registered ones.\<close>

definition enriching :: "evidence_env \<Rightarrow> evidence \<Rightarrow> (string set \<times> string set) \<times> evidence \<Rightarrow> bool" where
  "enriching e r0 iwr \<longleftrightarrow> evidence_ok e (snd iwr) \<and> evidence_grows r0 (snd iwr) \<and>
     finite (fst (fst iwr)) \<and> finite (snd (fst iwr)) \<and> fst (fst iwr) \<subseteq> dom (map_of (ev_contexts (snd iwr)))"

lemma enter_context_dom:
  "enter_context e i title content r = Some r' \<Longrightarrow> dom (map_of (ev_contexts r)) \<subseteq> dom (map_of (ev_contexts r'))"
  by (auto simp: enter_context_def Let_def update_conv' split: if_splits)

lemma add_context_enriching:
  assumes "enriching e r0 iwr"
  shows "enriching e r0 (add_context e h iwr)"
proof -
  obtain ids w r where iwr: "iwr = ((ids, w), r)" by (metis surj_pair)
  have s: "evidence_ok e r" "evidence_grows r0 r" "finite ids" "finite w" "ids \<subseteq> dom (map_of (ev_contexts r))"
    using assms by (simp_all add: enriching_def iwr)
  show ?thesis
  proof (cases "\<exists>p n. sh_context h = Some p \<and> map_of (ev_keys r) (knowledge_key h) = Some n")
    case False
    then have "add_context e h iwr = iwr" by (auto simp: add_context_def iwr split: option.splits)
    then show ?thesis using assms by simp
  next
    case True
    then obtain p n where pn: "sh_context h = Some p" "map_of (ev_keys r) (knowledge_key h) = Some n" by blast
    let ?i = "context_id e p"
    show ?thesis
    proof (cases "enter_context e ?i (ch_source (sh_chunk h)) (context_content p) r")
      case None
      then show ?thesis using s by (simp add: add_context_def iwr pn enriching_def)
    next
      case (Some r')
      note enter = enter_context_ok [OF s(1) Some]
      obtain c where c: "map_of (ev_contexts r') ?i = Some c" using enter(3) by blast
      have n: "1 \<le> n" "n \<le> length (ev_entries r')"
        using pn(2) evidence_okD(1) [OF s(1)] enter(4) by (auto simp: entries_key_numbers)
      let ?r = "r'\<lparr>ev_contexts := AList.update ?i (for_number n c) (ev_contexts r')\<rparr>"
      have "evidence_ok e ?r" by (rule for_number_ok [OF enter(1) c n])
      moreover have "evidence_grows r0 ?r"
        using evidence_grows_trans [OF s(2) enter(2)] by (simp add: evidence_grows_def)
      moreover have "insert ?i ids \<subseteq> dom (map_of (ev_contexts ?r))"
        using s(5) enter_context_dom [OF Some] by (auto simp: update_conv')
      ultimately show ?thesis using s(3,4) by (simp add: add_context_def iwr pn Some c enriching_def Let_def)
    qed
  qed
qed

lemma finite_hit_warnings [simp]: "finite (hit_warnings hits)"
  by (simp add: hit_warnings_def given_def)

lemma numbers_of_extend [simp]: "numbers_of (g\<lparr>ga_contexts := c, ga_rerank := t\<rparr>) = numbers_of g"
  by (simp add: numbers_of_def)

lemma numbers_of_nothing [simp]: "numbers_of nothing_gathered = {}"
  by (simp add: numbers_of_def nothing_gathered_def)

lemma gathering_start: "evidence_ok e r \<Longrightarrow> evidence_grows r0 r \<Longrightarrow> gathering e kind r0 (nothing_gathered, r)"
  by (simp add: gathering_def)

lemma add_knowledge_gathering:
  assumes ok: "evidence_ok e r" and add: "add_knowledge e hits r = Inr gr"
  shows "gathering e ''knowledge'' r gr"
proof -
  obtain g r1 where f1: "fold (add_hit e) hits (nothing_gathered, note_rerank (first_trace hits) r) = (g, r1)" by fastforce
  obtain ids w r2 where f2: "fold (add_context e) hits (({}, hit_warnings hits), r1) = ((ids, w), r2)" by (metis surj_pair)
  have g1: "gathering e ''knowledge'' r (g, r1)"
    unfolding f1 [symmetric]
    by (rule fold_keeps) (use notes_ok(2) [OF ok] in \<open>auto intro: gathering_start add_hit_gathering\<close>)
  have ok1: "evidence_ok e r1" using g1 by (simp add: gathering_def)
  have e2: "enriching e r1 ((ids, w), r2)"
    unfolding f2 [symmetric]
  proof (rule fold_keeps)
    show "enriching e r1 (({}, hit_warnings hits), r1)" by (simp add: enriching_def ok1)
  qed (rule add_context_enriching)
  have ok2: "evidence_ok e r2" "evidence_grows r1 r2" "finite w" using e2 by (simp_all add: enriching_def)
  let ?r3 = "r2\<lparr>ev_warnings := ev_warnings r2 \<union> w\<rparr>"
  have ok3: "evidence_ok e ?r3" "evidence_grows r1 ?r3"
    using notes_ok(3) [OF ok2(1,3)] evidence_grows_trans [OF ok2(2)] by blast+
  have gr: "gr = (g\<lparr>ga_contexts := Some (map (\<lambda>i. the (map_of (ev_contexts r2) i)) (sorted_list_of_set ids), sorted_list_of_set w),
      ga_rerank := first_trace hits\<rparr>, ?r3)"
    using add by (auto simp: add_knowledge_def f1 f2 split: if_splits)
  show ?thesis unfolding gr by (rule gathering_step [OF g1 ok3]) simp
qed

lemma add_pages_gathering:
  assumes "gathering e ''web'' r0 (g, r)" "add_pages e ps (g, r) = (res, r')"
  shows "evidence_ok e r'" "evidence_grows r0 r'" "res = Inr g' \<Longrightarrow> gathering e ''web'' r0 (g', r')"
proof -
  have "evidence_ok e r' \<and> evidence_grows r0 r' \<and> (\<forall>g'. res = Inr g' \<longrightarrow> gathering e ''web'' r0 (g', r'))"
    using assms
  proof (induction e ps "(g, r)" arbitrary: g r rule: add_pages.induct)
    case (2 e p ps g r)
    have c: "gathering e ''web'' r0 (collect e (''web'', u) (web_source p) (wp_title p) (wp_content p) (\<lambda>s. s) (g, r))" for u
      using collect_gathering [of e "web_source p" r0 "(g, r)" "(''web'', u)"] 2(2) dresses_simps(1) by (simp add: web_source_def)
    show ?case
    proof (cases "normalized_url (ee_ip_literal e) (wp_url p)")
      case (Inl x)
      then show ?thesis using 2(2,3) by (auto simp: gathering_def)
    next
      case (Inr u)
      obtain g1 r1 where gr: "collect e (''web'', u) (web_source p) (wp_title p) (wp_content p) (\<lambda>s. s) (g, r) = (g1, r1)" by fastforce
      show ?thesis using 2(1) [of u g1 r1, OF Inr gr] c [of u] 2(3) by (simp add: Inr gr)
    qed
  qed (auto simp: gathering_def)
  then show "evidence_ok e r'" "evidence_grows r0 r'" "res = Inr g' \<Longrightarrow> gathering e ''web'' r0 (g', r')" by auto
qed

lemma add_web_gathering:
  assumes "evidence_ok e r" "add_web e ps r = (res, r')"
  shows "evidence_ok e r'" "evidence_grows r r'" "res = Inr g \<Longrightarrow> gathering e ''web'' r (g, r')"
  using add_pages_gathering [OF gathering_start [OF assms(1) evidence_grows_refl] assms(2) [unfolded add_web_def]] by auto

lemma halve_to_fit_fits: "halve_to_fit e room s = [] \<or> count_tokens e [halve_to_fit e room s] \<le> room"
  by (induction e room s rule: halve_to_fit.induct) (subst (1 2) halve_to_fit.simps, auto)

lemma halve_to_fit_prefix: "prefix (halve_to_fit e room s) s"
proof (induction e room s rule: halve_to_fit.induct)
  case (1 e room s)
  then show ?case by (subst halve_to_fit.simps) (auto intro: prefix_order.trans take_is_prefix)
qed

lemma retitle_type [simp]: "source_type (retitle t c) = source_type c"
  by (cases c) auto

text \<open>A change of an entry that keeps its number and type.\<close>

lemma change_entry_ok:
  assumes ok: "evidence_ok e r" and i: "i < length (ev_entries r)"
    and x: "en_number x = en_number (ev_entries r ! i)" "entry_type x = entry_type (ev_entries r ! i)"
  shows "evidence_ok e (r\<lparr>ev_entries := (ev_entries r)[i := x]\<rparr>)" "evidence_grows r (r\<lparr>ev_entries := (ev_entries r)[i := x]\<rparr>)"
proof -
  have m: "map entry_type ((ev_entries r)[i := x]) = map entry_type (ev_entries r)"
    using i x(2) by (simp add: map_update list_update_same_conv)
  then show "evidence_grows r (r\<lparr>ev_entries := (ev_entries r)[i := x]\<rparr>)" by (simp add: evidence_grows_def)
  have "en_number ((ev_entries r)[i := x] ! j) = en_number (ev_entries r ! j)"
    "entry_type ((ev_entries r)[i := x] ! j) = entry_type (ev_entries r ! j)" for j
    using i x by (cases "j = i"; simp)+
  then show "evidence_ok e (r\<lparr>ev_entries := (ev_entries r)[i := x]\<rparr>)"
    using ok unfolding evidence_ok_def
    by (simp add: entries_ok_def entry_ok_def contexts_ok_def context_ok_def tokens_ok_def source_tokens_def sets_ok_def)
qed

lemma add_web_page_gathering:
  assumes ok: "evidence_ok e r" and add: "add_web_page e p r = (res, r')"
  shows "evidence_ok e r'" "evidence_grows r r'" "res = Inr g \<Longrightarrow> gathering e ''web'' r (g, r')"
proof -
  have "evidence_ok e r' \<and> evidence_grows r r' \<and> (\<forall>g. res = Inr g \<longrightarrow> gathering e ''web'' r (g, r'))"
  proof (cases "normalized_url (ee_ip_literal e) (wp_url p)")
    case (Inl x)
    then show ?thesis using add ok by (auto simp: add_web_page_def)
  next
    case u: (Inr u)
    show ?thesis
    proof (cases "map_of (ev_keys r) (''web'', u)")
      case None
      then have "add_web e [p] r = (res, r')" using add by (simp add: add_web_page_def u)
      then show ?thesis using add_web_gathering [OF ok] by blast
    next
      case k: (Some n)
      note okd = evidence_okD [OF ok]
      obtain i where i: "i < length (ev_entries r)" "n = Suc i" "fst (ev_keys r ! i) = (''web'', u)"
        using k unfolding entries_key_numbers [OF okd(1)] by blast
      have eo: "entry_ok r i" using okd(1) i(1) by (simp add: entries_ok_def)
      have web: "entry_type (ev_entries r ! i) = ''web''" using eo i(3) by (simp add: entry_ok_def)
      let ?old = "snd (ev_sources r ! i)"
      let ?tokens = "count_tokens e [so_content ?old]"
      let ?content = "halve_to_fit e (ev_budget r - ev_used r + ?tokens) (strip (take 12000 (wp_content p)))"
      have src: "map_of (ev_sources r) n = Some ?old" using entries_source_at [OF okd(1) i(1)] i(2) by simp
      show ?thesis
      proof (cases "?content = []")
        case True
        then have "r' = r" "res = Inr (nothing_gathered\<lparr>ga_existing := [n], ga_truncated := True\<rparr>)"
          using add by (simp_all add: add_web_page_def u k src Let_def)
        then show ?thesis using ok web i by (auto simp: gathering_def numbers_of_def has_type_def nothing_gathered_def)
      next
        case False
        let ?s = "?old\<lparr>so_content := ?content, so_title := take 500 (wp_title p)\<rparr>"
        let ?r1 = "r\<lparr>ev_used := ev_used r + (count_tokens e [so_content ?s] - count_tokens e [so_content (snd (ev_sources r ! i))]),
            ev_sources := AList.update (Suc i) ?s (ev_sources r)\<rparr>"
        let ?x = "(ev_entries r ! i)\<lparr>en_excerpt := take 500 ?content,
            en_source := retitle (take 500 (wp_title p)) (en_source (ev_entries r ! i))\<rparr>"
        have r': "r' = ?r1\<lparr>ev_entries := (ev_entries ?r1)[i := ?x]\<rparr>"
          "res = Inr (nothing_gathered\<lparr>ga_sources := [?s], ga_truncated := length ?content < length (wp_content p)\<rparr>)"
          using add False by (simp_all add: add_web_page_def u k src entries_source_at [OF okd(1) i(1)] Let_def i(2))
        have ok1: "evidence_ok e ?r1"
        proof (rule replace_source_evidence [OF ok i(1)])
          show "so_number ?s = Suc i" "so_type ?s = entry_type (ev_entries r ! i)" using eo by (simp_all add: entry_ok_def)
          show "so_content ?s \<noteq> []" using False by simp
          show "ev_used r + (count_tokens e [so_content ?s] - count_tokens e [so_content (snd (ev_sources r ! i))]) \<le> ev_budget r"
            using halve_to_fit_fits [of e "ev_budget r - ev_used r + ?tokens" "strip (take 12000 (wp_content p))"] False by simp
        qed
        have ch: "evidence_ok e r'" "evidence_grows ?r1 r'"
          unfolding r'(1) by (rule change_entry_ok [OF ok1]; use i(1) in \<open>simp add: entry_type_def\<close>)+
        have grow: "evidence_grows r r'" using ch(2) by (simp add: evidence_grows_def)
        have w: "has_type ''web'' r n" using web i by (simp add: has_type_def)
        have "has_type ''web'' r' n" by (rule has_type_grows [OF grow w])
        then show ?thesis using ch(1) grow eo i(2)
          by (auto simp: r'(2) gathering_def numbers_of_def nothing_gathered_def entry_ok_def)
      qed
    qed
  qed
  then show "evidence_ok e r'" "evidence_grows r r'" "res = Inr g \<Longrightarrow> gathering e ''web'' r (g, r')" by auto
qed

lemma add_memories_gathering: "evidence_ok e r \<Longrightarrow> gathering e ''memory'' r (add_memories e ms r)"
proof -
  assume ok: "evidence_ok e r"
  have "gathering e ''memory'' r (register_memory e m gr)" if "gathering e ''memory'' r gr" for m gr
    using collect_gathering [of e "Memory_source (mi_id m) (mi_score m)" r gr "(''memory'', mi_id m)"] that dresses_simps(4)
    by (simp add: register_memory_def)
  then show ?thesis
    unfolding add_memories_def using fold_keeps [of "gathering e ''memory'' r" "(nothing_gathered, r)" "register_memory e" ms]
    by (simp add: gathering_start ok)
qed

lemma single_gathering:
  assumes ok: "evidence_ok e r" and key: "fst key = source_type c" and f: "dresses f"
    and reg: "registered e key c title body f r = (s, duplicate, r')"
  shows "gathering e (source_type c) r (single s duplicate (map_of (ev_keys r') key) b, r')"
  using registered_ok [OF ok key f reg]
  by (auto simp: gathering_def single_def numbers_of_def nothing_gathered_def split: option.splits if_splits)

lemma add_tool_gathering:
  assumes ok: "evidence_ok e r" and add: "add_tool e name version data now r = (res, r')"
  shows "evidence_ok e r'" "evidence_grows r r'" "res = Inr g \<Longrightarrow> gathering e ''tool'' r (g, r')"
proof -
  let ?c = "dumps False (sort_keys data)"
  let ?key = "(''tool'', name @ ''/'' @ show_int version @ ''/'' @ ee_sha256 e ?c)"
  obtain s duplicate r1 where reg: "registered e ?key (Tool_source name version now) name ?c (\<lambda>x. x\<lparr>so_tool := Some (name, version)\<rparr>) r = (s, duplicate, r1)"
    by (metis prod_cases3)
  have "gathering e (source_type (Tool_source name version now)) r (single s duplicate (map_of (ev_keys r1) ?key) (12000 < length ?c), r1)"
    by (rule single_gathering [OF ok _ dresses_simps(3) reg]) simp
  moreover have "has_nan data \<and> res = Inl value_error \<and> r' = r \<or>
      res = Inr (single s duplicate (map_of (ev_keys r1) ?key) (12000 < length ?c)) \<and> r' = r1"
    using add reg by (auto simp: add_tool_def registered_def Let_def split: if_splits prod.splits)
  ultimately show "evidence_ok e r'" "evidence_grows r r'" "res = Inr g \<Longrightarrow> gathering e ''tool'' r (g, r')"
    using ok by (auto simp: gathering_def)
qed

lemma add_sql_gathering:
  assumes ok: "evidence_ok e r"
  shows "gathering e ''sql'' r (add_sql e q r)"
proof -
  let ?c = "dumps False (sql_json q)"
  let ?key = "(''sql'', ee_sha256 e ?c)"
  let ?k = "Sql_source (sq_source q) (sq_query q) (sq_columns q) (length (sq_rows q)) (sq_truncated q)"
  obtain s d r1 where reg: "register_text e ?key ?k (sq_source q) ?c r = ((s, d), r1)" by (metis surj_pair)
  note r1 = register_ok [OF ok _ reg, simplified]
  have one: "gathering e ''sql'' r (single s d (map_of (ev_keys r1) ?key) False, r1)"
    using r1 by (auto simp: gathering_def single_def numbers_of_def nothing_gathered_def split: option.splits if_splits)
  show ?thesis
  proof (cases s)
    case None
    then show ?thesis using one by (simp add: add_sql_def reg Let_def)
  next
    case (Some x)
    let ?i = "so_number x - 1"
    let ?y = "(ev_entries r1 ! ?i)\<lparr>en_excerpt := take 500 (sql_preview e q)\<rparr>"
    have i: "?i < length (ev_entries r1)" using r1(3) [OF Some] by (auto simp: has_type_def)
    have y: "en_number ?y = en_number (ev_entries r1 ! ?i)" "entry_type ?y = entry_type (ev_entries r1 ! ?i)"
      by (simp_all add: entry_type_def)
    have "gathering e ''sql'' r (single s d (map_of (ev_keys r1) ?key) False, r1\<lparr>ev_entries := (ev_entries r1)[?i := ?y]\<rparr>)"
      by (rule gathering_step [OF one change_entry_ok [OF r1(1) i y]]) simp
    then show ?thesis by (simp add: add_sql_def reg Let_def Some)
  qed
qed

text \<open>Growth of the entries, whatever is excluded.\<close>

definition evidence_extends :: "evidence \<Rightarrow> evidence \<Rightarrow> bool" where
  "evidence_extends r r' \<longleftrightarrow> ev_budget r' = ev_budget r \<and>
     prefix (map entry_type (ev_entries r)) (map entry_type (ev_entries r')) \<and> prefix (ev_keys r) (ev_keys r')"

lemma evidence_extends_refl [simp]: "evidence_extends r r"
  by (simp add: evidence_extends_def)

lemma evidence_extends_trans: "evidence_extends r s \<Longrightarrow> evidence_extends s t \<Longrightarrow> evidence_extends r t"
  by (auto simp: evidence_extends_def intro: prefix_order.trans)

lemma grows_extends: "evidence_grows r r' \<Longrightarrow> evidence_extends r r'"
  by (simp add: evidence_extends_def evidence_grows_def)

lemma set_excluded_ok:
  "evidence_ok e r \<Longrightarrow> x \<subseteq> {1..length (ev_entries r)} \<Longrightarrow> evidence_ok e (r\<lparr>ev_excluded := x\<rparr>)"
  "evidence_ok e r \<Longrightarrow> finite w \<Longrightarrow> evidence_ok e (r\<lparr>ev_warnings := w\<rparr>)"
  by (auto simp: evidence_ok_def entries_ok_def entry_ok_def contexts_ok_def context_ok_def tokens_ok_def source_tokens_def sets_ok_def)

section \<open>Any sequence of operations\<close>

datatype evidence_op =
    Knowledge_op "search_hit list"
  | Web_op "web_page list"
  | Page_op web_page
  | Tool_op string int json time
  | Memory_op "memory_item list"
  | Sql_op sql_result
  | Warn_op "string list"
  | Exclude_op "nat list"
  | Approve_op "nat list"

text \<open>
  What is left of the registry, however the operation ends. The supervisor adds warnings; the knowledge workflow
  excludes registered numbers from the answer, and takes those it approves out of the excluded ones.
\<close>

fun perform :: "evidence_env \<Rightarrow> evidence_op \<Rightarrow> evidence \<Rightarrow> evidence" where
  "perform e (Knowledge_op hits) r = (case add_knowledge e hits r of Inl x \<Rightarrow> r | Inr gr \<Rightarrow> snd gr)"
| "perform e (Web_op ps) r = snd (add_web e ps r)"
| "perform e (Page_op p) r = snd (add_web_page e p r)"
| "perform e (Tool_op name version data now) r = snd (add_tool e name version data now r)"
| "perform e (Memory_op ms) r = snd (add_memories e ms r)"
| "perform e (Sql_op q) r = snd (add_sql e q r)"
| "perform e (Warn_op ws) r = r\<lparr>ev_warnings := ev_warnings r \<union> set ws\<rparr>"
| "perform e (Exclude_op ns) r = r\<lparr>ev_excluded := ev_excluded r \<union> (set ns \<inter> fst ` set (ev_sources r))\<rparr>"
| "perform e (Approve_op ns) r = r\<lparr>ev_excluded := ev_excluded r - set ns\<rparr>"

lemma source_range: "entries_ok r \<Longrightarrow> fst ` set (ev_sources r) = {1..length (ev_entries r)}"
proof -
  assume ok: "entries_ok r"
  have "map fst (ev_sources r) = [1..<Suc (length (ev_entries r))]"
    using ok by (intro nth_equalityI) (auto simp: entries_ok_def entry_ok_def simp del: upt_Suc)
  then have "set (map fst (ev_sources r)) = {1..length (ev_entries r)}" by (simp del: upt_Suc) (simp add: atLeastLessThanSuc_atLeastAtMost)
  then show ?thesis by simp
qed

lemma perform_ok:
  assumes ok: "evidence_ok e r"
  shows "evidence_ok e (perform e op r) \<and> evidence_extends r (perform e op r)"
proof -
  have sets: "finite (ev_warnings r)" "ev_excluded r \<subseteq> {1..length (ev_entries r)}"
    using evidence_okD(4) [OF ok] by (simp_all add: sets_ok_def)
  have kept: "evidence_extends r (r\<lparr>ev_excluded := x\<rparr>)" "evidence_extends r (r\<lparr>ev_warnings := w\<rparr>)" for x w
    by (simp_all add: evidence_extends_def)
  show ?thesis
  proof (cases op)
    case (Knowledge_op hits)
    then show ?thesis using ok add_knowledge_gathering [OF ok] by (auto simp: gathering_def intro: grows_extends split: sum.split)
  next
    case (Web_op ps)
    then show ?thesis using add_web_gathering [OF ok, of ps] grows_extends by (metis perform.simps(2) prod.collapse)
  next
    case (Page_op p)
    then show ?thesis using add_web_page_gathering [OF ok, of p] grows_extends by (metis perform.simps(3) prod.collapse)
  next
    case (Tool_op name version data now)
    then show ?thesis using add_tool_gathering [OF ok, of name version data now] grows_extends by (metis perform.simps(4) prod.collapse)
  next
    case (Memory_op ms)
    then show ?thesis using add_memories_gathering [OF ok, of ms] grows_extends by (simp add: gathering_def)
  next
    case (Sql_op q)
    then show ?thesis using add_sql_gathering [OF ok, of q] grows_extends by (simp add: gathering_def)
  next
    case (Warn_op ws)
    then show ?thesis using set_excluded_ok(2) [OF ok] sets(1) kept by simp
  next
    case (Exclude_op ns)
    then show ?thesis using source_range [OF evidence_okD(1) [OF ok]] sets(2) kept by (auto intro!: set_excluded_ok(1) [OF ok])
  next
    case (Approve_op ns)
    then show ?thesis using sets(2) kept by (auto intro!: set_excluded_ok(1) [OF ok])
  qed
qed

lemma perform_all_ok:
  "evidence_ok e r \<Longrightarrow> evidence_ok e (fold (perform e) ops r) \<and> evidence_extends r (fold (perform e) ops r)"
  using fold_keeps [of "\<lambda>s. evidence_ok e s \<and> evidence_extends r s" r "perform e" ops] perform_ok evidence_extends_trans
  by (metis evidence_extends_refl)

text \<open>
  C15: Through any sequence of searches, pages, tool calls, memories, queries, warnings, exclusions and approvals, the numbers of the evidence are the
  positions of its entries, every entry has exactly one key and one source with text, of the same number and type,
  and the tokens counted as used are those of all registered text: never more than the budget, and the contexts
  without a number never more than a third of it.
\<close>

theorem evidence_well_formed:
  assumes "0 \<le> b" "r = fold (perform e) ops (new_evidence b)"
  shows "map en_number (ev_entries r) = [1..<Suc (length (ev_entries r))] \<and>
    map fst (ev_sources r) = map en_number (ev_entries r) \<and> map snd (ev_keys r) = map en_number (ev_entries r) \<and>
    distinct (map fst (ev_keys r)) \<and>
    list_all2 (\<lambda>x s. so_number s = en_number x \<and> so_type s = entry_type x \<and> so_content s \<noteq> []) (ev_entries r) (map snd (ev_sources r)) \<and>
    ev_used r = sum_list (map (\<lambda>(n, s). count_tokens e [so_content s]) (ev_sources r)) +
      sum_list (map (\<lambda>(i, c). count_tokens e [ce_content c]) (ev_contexts r)) \<and>
    ev_used r \<le> b \<and> sum_list (map (\<lambda>(i, c). count_tokens e [ce_content c]) (ev_contexts r)) \<le> b div 3"
proof -
  have ok: "evidence_ok e r" and grow: "evidence_extends (new_evidence b) r"
    using perform_all_ok [OF new_evidence_ok [OF assms(1)], of e ops] assms(2) by auto
  note okd = evidence_okD [OF ok]
  have b: "ev_budget r = b" using grow by (simp add: evidence_extends_def new_evidence_def)
  have l: "length (ev_keys r) = length (ev_entries r)" "length (ev_sources r) = length (ev_entries r)"
    and eo: "\<And>i. i < length (ev_entries r) \<Longrightarrow> entry_ok r i"
    using okd(1) by (auto simp: entries_ok_def)
  have n: "map en_number (ev_entries r) = [1..<Suc (length (ev_entries r))]"
    using eo by (intro nth_equalityI) (auto simp: entry_ok_def simp del: upt_Suc)
  have "map fst (ev_sources r) = map en_number (ev_entries r)" "map snd (ev_keys r) = map en_number (ev_entries r)"
    using eo l by (auto intro!: nth_equalityI simp: entry_ok_def)
  moreover have "list_all2 (\<lambda>x s. so_number s = en_number x \<and> so_type s = entry_type x \<and> so_content s \<noteq> []) (ev_entries r) (map snd (ev_sources r))"
    using eo l by (auto simp: list_all2_conv_all_nth entry_ok_def)
  ultimately show ?thesis
    using n okd(1,3) unfolding b [symmetric] by (simp add: entries_ok_def tokens_ok_def source_tokens_def)
qed

lemma fold_update_sources:
  assumes "map so_number ss = [a..<a + length ss]" "map fst al = [0..<0] \<or> (\<forall>k\<in>fst ` set al. k < a)"
  shows "fold (\<lambda>x m. AList.update (so_number x) x m) ss al = al @ map (\<lambda>x. (so_number x, x)) ss"
  using assms
proof (induction ss arbitrary: a al)
  case (Cons s ss)
  have f: "so_number s = a" "map so_number ss = [Suc a..<Suc a + length ss]"
    using Cons.prems(1) by (simp_all add: upt_conv_Cons del: upt_Suc)
  have u: "AList.update a s al = al @ [(a, s)]" using Cons.prems(2) by (intro update_next) auto
  have "fold (\<lambda>x m. AList.update (so_number x) x m) ss (al @ [(a, s)]) = (al @ [(a, s)]) @ map (\<lambda>x. (so_number x, x)) ss"
    by (rule Cons.IH [OF f(2)]) (use Cons.prems(2) in auto)
  then show ?case by (simp add: f(1) u)
qed simp

lemma fold_update_keys:
  assumes "distinct (map fst (al @ ks))"
  shows "fold (\<lambda>(kind, i, n) m. AList.update (kind, i) n m) (map (\<lambda>((kind, i), n). (kind, i, n)) ks) al = al @ ks"
  using assms
proof (induction ks arbitrary: al)
  case (Cons k ks)
  obtain kind i n where k: "k = ((kind, i), n)" by (metis surj_pair)
  have "AList.update (kind, i) n al = al @ [k]" unfolding k using Cons.prems by (intro update_next) (auto simp: k)
  then show ?case using Cons.IH [of "al @ [k]"] Cons.prems by (simp add: k)
qed simp

lemma restore_snapshot:
  assumes ok: "evidence_ok e r" and b: "ev_budget r = ev_budget r0"
  shows "restore (snapshot r) r0 = Inr r"
proof -
  note okd = evidence_okD [OF ok]
  have l: "length (ev_sources r) = length (ev_entries r)"
    and at: "\<And>i. i < length (ev_entries r) \<Longrightarrow> entry_ok r i" using okd(1) by (auto simp: entries_ok_def)
  have s1: "map so_number (map snd (ev_sources r)) = [1..<1 + length (map snd (ev_sources r))]"
    using at l by (intro nth_equalityI) (auto simp: entry_ok_def simp del: upt_Suc)
  have s2: "map (\<lambda>x. (so_number x, x)) (map snd (ev_sources r)) = ev_sources r"
    using at l by (intro nth_equalityI) (auto simp: entry_ok_def prod_eq_iff)
  have s: "fold (\<lambda>x m. AList.update (so_number x) x m) (map snd (ev_sources r)) [] = ev_sources r"
    using fold_update_sources [OF s1, of "[]"] s2 by simp
  have k: "fold (\<lambda>(kind, i, n) m. AList.update (kind, i) n m) (map (\<lambda>((kind, i), n). (kind, i, n)) (ev_keys r)) [] = ev_keys r"
    using fold_update_keys [of "[]" "ev_keys r"] okd(1) by (simp add: entries_ok_def)
  have w: "finite (ev_warnings r)" "finite (ev_excluded r)"
    using okd(4) by (auto simp: sets_ok_def intro: finite_subset)
  show ?thesis unfolding restore_def snapshot_def using b by (simp add: s k w)
qed

text \<open>
  C40: The snapshot of a registry, after any sequence of searches, pages, tool calls, memories, queries, warnings,
  exclusions and approvals, restored into any registry of the same budget, gives exactly that registry back, with what
  it excludes.
\<close>

theorem snapshot_restored:
  assumes "0 \<le> b" "r = fold (perform e) ops (new_evidence b)" "ev_budget fresh = b"
  shows "restore (snapshot r) fresh = Inr r"
proof -
  have "evidence_ok e r" "evidence_extends (new_evidence b) r"
    using perform_all_ok [OF new_evidence_ok [OF assms(1)], of e ops] assms(2) by auto
  then show ?thesis using assms(3) by (intro restore_snapshot) (simp_all add: evidence_extends_def new_evidence_def)
qed

section \<open>Citations\<close>

lemma cited_digits_sound:
  "d \<in> set (cited_digits s) \<Longrightarrow> d \<noteq> [] \<and> list_all decimal d \<and> substring (CHR ''['' # d @ '']'') s"
proof (induction s rule: cited_digits.induct)
  case (2 c s)
  let ?ds = "takeWhile decimal s" and ?t = "dropWhile decimal s"
  have skip: ?case if "d \<in> set (cited_digits s)" "\<not> (c = CHR ''['' \<and> ?ds \<noteq> [] \<and> prefix '']'' ?t)"
    using 2(2) [OF _ refl refl] 2(3) that by (cases "c = CHR ''[''") auto
  show ?case
  proof (cases "c = CHR ''['' \<and> ?ds \<noteq> [] \<and> prefix '']'' ?t")
    case False
    then have "d \<in> set (cited_digits s)" using 2(4) by (auto simp: Let_def split: if_splits)
    then show ?thesis using skip False by blast
  next
    case True
    obtain u where u: "?t = CHR '']'' # u" using True by (auto simp: prefix_def)
    have s: "s = ?ds @ CHR '']'' # u" by (metis u takeWhile_dropWhile_id)
    consider "d = ?ds" | "d \<in> set (cited_digits u)" using 2(4) True by (auto simp: Let_def u)
    then show ?thesis
    proof cases
      case 1
      have "prefix (CHR ''['' # ?ds @ '']'') (c # s)" using True s by (auto simp: prefix_def)
      then show ?thesis using 1 True by (auto simp: list_all_iff dest: set_takeWhileD)
    next
      case 2
      have "d \<noteq> [] \<and> list_all decimal d \<and> substring (CHR ''['' # d @ '']'') u"
        using "2.IH"(1) [OF _ refl refl] True 2 by (simp add: u)
      then show ?thesis unfolding substring_iff by (metis s append_Cons append_assoc)
    qed
  qed
qed simp

lemma cited_digits_complete:
  "list_all decimal d \<Longrightarrow> d \<noteq> [] \<Longrightarrow> d \<in> set (cited_digits (u @ CHR ''['' # d @ CHR '']'' # v))"
proof (induction u rule: length_induct)
  case (1 u)
  have dec: "takeWhile decimal (d @ CHR '']'' # w) = d" "dropWhile decimal (d @ CHR '']'' # w) = CHR '']'' # w" for w
    using 1(2) by (simp_all add: takeWhile_append2 dropWhile_append2 list_all_iff decimal_def)
  show ?case
  proof (cases u)
    case Nil
    then show ?thesis using 1(3) by (simp add: dec Let_def)
  next
    case (Cons c u')
    let ?rest = "u' @ CHR ''['' # d @ CHR '']'' # v"
    have IH: "d \<in> set (cited_digits (w @ CHR ''['' # d @ CHR '']'' # v))" if "length w < length u" for w
      using 1 that by blast
    have tail: "d \<in> set (cited_digits ?rest)" using IH [of u'] Cons by simp
    let ?t = "dropWhile decimal ?rest"
    show ?thesis
    proof (cases "c = CHR ''['' \<and> takeWhile decimal ?rest \<noteq> [] \<and> prefix '']'' ?t")
      case False
      then show ?thesis using tail Cons by (auto simp: Let_def)
    next
      case True
      have nd: "\<not> decimal (CHR ''['')" by (simp add: decimal_def)
      have t: "?t = dropWhile decimal u' @ CHR ''['' # d @ CHR '']'' # v"
        using nd by (induction u') auto
      obtain w where w: "dropWhile decimal u' = CHR '']'' # w"
        using True t by (cases "dropWhile decimal u'") (auto simp: prefix_def)
      have lw: "length w < length u" using Cons length_dropWhile_le [of decimal u'] by (simp add: w)
      have "tl ?t = w @ CHR ''['' # d @ CHR '']'' # v" by (simp add: t w)
      then have "d \<in> set (cited_digits (tl ?t))" using IH [OF lw] by simp
      then show ?thesis using True Cons by (auto simp: Let_def)
    qed
  qed
qed

lemma cited_digits_iff:
  "d \<in> set (cited_digits s) \<longleftrightarrow> d \<noteq> [] \<and> list_all decimal d \<and> substring (CHR ''['' # d @ '']'') s"
  using cited_digits_sound [of d s] cited_digits_complete [of d] by (auto simp: substring_iff)

text \<open>The numbers between brackets of an answer.\<close>

definition mentions :: "string \<Rightarrow> nat \<Rightarrow> bool" where
  "mentions answer n \<longleftrightarrow> (\<exists>d. d \<noteq> [] \<and> list_all decimal d \<and> n = nat_value d \<and> substring (CHR ''['' # d @ '']'') answer)"

lemma cited_numbers_mentions: "cited_numbers answer = Inr ns \<Longrightarrow> n \<in> ns \<longleftrightarrow> mentions answer n"
  by (auto simp: cited_numbers_def mentions_def cited_digits_iff split: if_splits)

lemma map_of_numbered:
  assumes "distinct (map en_number xs)"
  shows "map_of (map (\<lambda>x. (en_number x, x)) xs) n = Some x \<longleftrightarrow> x \<in> set xs \<and> en_number x = n"
  using assms by (subst map_of_eq_Some_iff) (auto simp: comp_def)

lemma eligible_distinct: "entries_ok r \<Longrightarrow> distinct (map en_number (eligible_entries r))"
proof -
  assume ok: "entries_ok r"
  have "map en_number (ev_entries r) = [1..<Suc (length (ev_entries r))]"
    using ok by (intro nth_equalityI) (auto simp: entries_ok_def entry_ok_def simp del: upt_Suc)
  then have "distinct (map en_number (ev_entries r))" by (simp del: upt_Suc)
  then show ?thesis by (auto simp: eligible_entries_def distinct_map intro: inj_on_subset)
qed

text \<open>Whatever evidence an answer is checked against.\<close>

lemma checked_citations:
  assumes "entries_ok r" "check_citations kind answer mode r = Inr cs"
  shows "(kind = ''clarification'' \<longrightarrow> cs = [] \<and> (\<forall>n. \<not> mentions answer n)) \<and>
    (kind \<noteq> ''clarification'' \<longrightarrow> sorted (map en_number cs) \<and> distinct (map en_number cs) \<and>
       (\<forall>n. n \<in> en_number ` set cs \<longleftrightarrow> mentions answer n)) \<and>
    (\<forall>c\<in>set cs. c \<in> set (ev_entries r) \<and> en_number c \<notin> ev_excluded r \<and> mode_allows mode (entry_type c) \<and>
       (\<exists>s. map_of (ev_sources r) (en_number c) = Some s \<and> so_type s = entry_type c \<and> so_content s \<noteq> [])) \<and>
    (kind = ''grounded'' \<longrightarrow> cs \<noteq> []) \<and>
    (kind \<noteq> ''grounded'' \<and> kind \<noteq> ''clarification'' \<longrightarrow> (\<forall>x\<in>set (ev_entries r). en_number x \<notin> ev_excluded r \<longrightarrow> entry_type x = ''memory''))"
proof -
  have el: "x \<in> set (eligible_entries r) \<longleftrightarrow> x \<in> set (ev_entries r) \<and> en_number x \<notin> ev_excluded r" for x
    by (auto simp: eligible_entries_def)
  have src: "\<exists>s. map_of (ev_sources r) (en_number c) = Some s \<and> so_type s = entry_type c \<and> so_content s \<noteq> []"
    if "c \<in> set (ev_entries r)" for c
  proof -
    have "\<exists>i<length (ev_entries r). ev_entries r ! i = c" using that by (simp add: in_set_conv_nth)
    then obtain i where i: "i < length (ev_entries r)" "c = ev_entries r ! i" by metis
    have "entry_ok r i" using assms(1) i(1) by (simp add: entries_ok_def)
    then show ?thesis using entries_source_at [OF assms(1) i(1)] i(2) by (simp add: entry_ok_def)
  qed
  obtain ns where ns: "cited_numbers answer = Inr ns" using assms(2) by (auto simp: check_citations_def result_simps)
  have m: "n \<in> ns \<longleftrightarrow> mentions answer n" for n by (rule cited_numbers_mentions [OF ns])
  have fin: "finite ns" using ns by (auto simp: cited_numbers_def split: if_splits)
  show ?thesis
  proof (cases "kind = ''clarification''")
    case True
    then have "ns = {}" "cs = []" using assms(2) ns by (auto simp: check_citations_def result_simps split: if_splits)
    then show ?thesis using m True by auto
  next
    case False
    let ?by = "map_of (map (\<lambda>x. (en_number x, x)) (eligible_entries r))"
    have v: "kind \<noteq> ''grounded'' \<Longrightarrow> \<forall>x\<in>set (eligible_entries r). entry_type x = ''memory''"
      "\<forall>n\<in>ns. ?by n \<noteq> None" "cs = map (\<lambda>n. the (?by n)) (sorted_list_of_set ns)"
      "kind = ''grounded'' \<Longrightarrow> cs \<noteq> []" "\<forall>c\<in>set cs. mode_allows mode (entry_type c)"
      using assms(2) False fin
      by (auto simp: check_citations_def ns Let_def result_simps list_ex_iff split: if_splits)
    have at: "the (?by n) \<in> set (eligible_entries r) \<and> en_number (the (?by n)) = n" if "n \<in> ns" for n
      using v(2) that map_of_numbered [OF eligible_distinct [OF assms(1)], of n] by fastforce
    have nums: "map en_number cs = sorted_list_of_set ns"
      using at fin by (auto simp: v(3) intro: map_idI)
    have "set cs \<subseteq> set (eligible_entries r)" using at fin by (auto simp: v(3))
    then have "\<forall>c\<in>set cs. c \<in> set (ev_entries r) \<and> en_number c \<notin> ev_excluded r" using el by blast
    moreover have "n \<in> en_number ` set cs \<longleftrightarrow> mentions answer n" for n
      using m fin arg_cong [OF nums, of set] by simp
    moreover have "sorted (map en_number cs)" "distinct (map en_number cs)" by (simp_all add: nums)
    moreover have "kind \<noteq> ''grounded'' \<longrightarrow> (\<forall>x\<in>set (ev_entries r). en_number x \<notin> ev_excluded r \<longrightarrow> entry_type x = ''memory'')"
      using v(1) el by blast
    ultimately show ?thesis using False v(4,5) src by (intro conjI impI ballI allI) simp_all
  qed
qed


text \<open>
  C19: An accepted answer cites exactly the numbers it mentions, in order, and each of them is registered
  evidence that was not excluded, with text, and of a type the mode of the question allows. An answer that
  calls itself grounded cites something; any other is accepted only when there is no evidence but memories;
  and a question back to the user cites nothing.
\<close>

theorem citations_sound:
  assumes "0 \<le> b" "r = fold (perform e) ops (new_evidence b)\<lparr>ev_excluded := X\<rparr>"
    and "check_citations kind answer mode r = Inr cs"
  shows "(kind = ''clarification'' \<longrightarrow> cs = [] \<and> (\<forall>n. \<not> mentions answer n)) \<and>
    (kind \<noteq> ''clarification'' \<longrightarrow> sorted (map en_number cs) \<and> distinct (map en_number cs) \<and>
       (\<forall>n. n \<in> en_number ` set cs \<longleftrightarrow> mentions answer n)) \<and>
    (\<forall>c\<in>set cs. c \<in> set (ev_entries r) \<and> en_number c \<notin> X \<and> mode_allows mode (entry_type c) \<and>
       (\<exists>s. map_of (ev_sources r) (en_number c) = Some s \<and> so_type s = entry_type c \<and> so_content s \<noteq> [])) \<and>
    (kind = ''grounded'' \<longrightarrow> cs \<noteq> []) \<and>
    (kind \<noteq> ''grounded'' \<and> kind \<noteq> ''clarification'' \<longrightarrow> (\<forall>x\<in>set (ev_entries r). en_number x \<notin> X \<longrightarrow> entry_type x = ''memory''))"
proof -
  let ?r = "fold (perform e) ops (new_evidence b)"
  have "entries_ok ?r" using perform_all_ok [OF new_evidence_ok [OF assms(1)], of e ops] evidence_okD(1) by blast
  then have "entries_ok r" by (simp add: assms(2) entries_ok_def entry_ok_def)
  from checked_citations [OF this assms(3)] show ?thesis by (simp add: assms(2))
qed

text \<open>A run of more than 4300 digits between brackets is not an unknown citation but an error of \<open>int\<close>.\<close>

lemma long_number_raises:
  assumes "list_all decimal d" "4300 < length d"
  shows "check_citations kind (u @ CHR ''['' # d @ CHR '']'' # v) mode r = Inl value_error"
proof -
  have "d \<noteq> []" using assms(2) by auto
  then have "d \<in> set (cited_digits (u @ CHR ''['' # d @ CHR '']'' # v))" using cited_digits_complete assms(1) by blast
  then have "cited_numbers (u @ CHR ''['' # d @ CHR '']'' # v) = Inl value_error"
    using assms(2) by (auto simp: cited_numbers_def list_ex_iff)
  then show ?thesis by (simp add: check_citations_def)
qed

section \<open>Examples\<close>

definition demo_evidence_env :: evidence_env where
  "demo_evidence_env = \<lparr>ee_encode = Some length, ee_sha256 = (\<lambda>s. s), ee_uuid5 = (\<lambda>a b. b), ee_ip_literal = (\<lambda>_. True),
     ee_memory_title = ''memory'', ee_no_rows = ''none'', ee_colon = '':'', ee_semicolon = '';''\<rparr>"

definition demo_chunk :: chunk where
  "demo_chunk = \<lparr>ch_id = ''c'', ch_user = ''u'', ch_document = ''d'', ch_index = 0, ch_content = ''tea is hot'', ch_source = ''a.txt'',
     ch_page = None, ch_section = None, ch_excel = None\<rparr>"

definition demo_hit :: search_hit where
  "demo_hit = \<lparr>sh_chunk = demo_chunk, sh_score = 1, sh_context = None, sh_warning = None, sh_rerank_score = None,
     sh_rerank_trace = None, sh_hierarchy_trace = None\<rparr>"

definition demo_ops :: "evidence_op list" where
  "demo_ops = [Memory_op [\<lparr>mi_id = ''m'', mi_content = ''likes tea'', mi_score = JInt 2, mi_asserted = None\<rparr>], Knowledge_op [demo_hit]]"

lemmas demo_evidence_defs = demo_ops_def demo_hit_def demo_chunk_def demo_evidence_env_def new_evidence_def add_memories_def register_memory_def
  add_knowledge_def add_hit_def add_context_def collect_def register_text_def amend_def note_hierarchy_def note_rerank_def first_trace_def
  foreign_context_def knowledge_key_def knowledge_source_def hit_warnings_def given_def new_source_def nothing_gathered_def count_tokens_def
  strip_def rstrip_def lstrip_def py_space_def

lemma demo_evidence:
  "ev_entries (fold (perform demo_evidence_env) demo_ops (new_evidence 60)) =
     [\<lparr>en_number = 1, en_source = Memory_source ''m'' (JInt 2), en_excerpt = ''likes tea''\<rparr>,
      \<lparr>en_number = 2, en_source = Knowledge_source ''d'' ''c'' ''a.txt'' None None 1 None None, en_excerpt = ''tea is hot''\<rparr>]"
  by (simp add: demo_evidence_defs Let_def)

theorem evidence_well_formed_witness:
  "ev_used (fold (perform demo_evidence_env) demo_ops (new_evidence 60)) \<le> 60"
  using evidence_well_formed [of 60 _ demo_evidence_env demo_ops] by simp

definition demo_excluding :: "evidence_op list" where
  "demo_excluding = [Knowledge_op [demo_hit], Exclude_op [1, 9], Warn_op [''w'']]"

lemma demo_excluded: "ev_excluded (fold (perform demo_evidence_env) demo_excluding (new_evidence 60)) = {1}"
  by (simp add: demo_excluding_def demo_evidence_defs Let_def)

theorem snapshot_restored_witness:
  "\<exists>r. restore (snapshot (fold (perform demo_evidence_env) demo_excluding (new_evidence 60))) (new_evidence 60) = Inr r \<and> ev_excluded r = {1}"
  using snapshot_restored [of 60 _ demo_evidence_env demo_excluding "new_evidence 60"] demo_excluded by (simp add: new_evidence_def)

lemma demo_validated:
  "check_citations ''grounded'' ''hot [2]'' ''knowledge'' (fold (perform demo_evidence_env) demo_ops (new_evidence 60)\<lparr>ev_excluded := {}\<rparr>) =
     Inr [\<lparr>en_number = 2, en_source = Knowledge_source ''d'' ''c'' ''a.txt'' None None 1 None None, en_excerpt = ''tea is hot''\<rparr>]"
proof -
  have c: "cited_numbers ''hot [2]'' = Inr {2}"
    by (simp add: cited_numbers_def decimal_def Let_def nat_value_def)
  show ?thesis
    unfolding check_citations_def c
    by (simp add: eligible_entries_def demo_evidence entry_type_def mode_allows_def raise_if_def)
qed

theorem citations_sound_witness:
  "\<exists>cs. check_citations ''grounded'' ''hot [2]'' ''knowledge''
      (fold (perform demo_evidence_env) demo_ops (new_evidence 60)\<lparr>ev_excluded := {}\<rparr>) = Inr cs \<and> cs \<noteq> [] \<and> (\<forall>c\<in>set cs. mode_allows ''knowledge'' (entry_type c))"
  using citations_sound [OF _ refl demo_validated] demo_validated by simp

end
