(* ===== verification/Knowledge.thy ===== *)
theory Knowledge
  imports EvidenceProperties Effects
begin

text \<open>
  The bounded knowledge workflow (\<open>app/service/agent/knowledge.py\<close>): a plan of at most two queries,
  a grade of what they found, and at most one rewritten query. The calls of models, the searches and the
  reservation of the rewrite are given by the supervisor. A model's message is what the JSON parser makes
  of its text (\<open>None\<close> for text that is no JSON), and whether it calls tools; the Chinese phrases of the code
  are parameters.
\<close>

section \<open>Replies of the models\<close>

record model_message =
  mm_tool_calls :: bool
  mm_content :: "json option"

fun str_field :: "nat \<Rightarrow> nat \<Rightarrow> json option \<Rightarrow> string option" where
  "str_field lo hi (Some (JStr s)) = (if lo \<le> length s \<and> length s \<le> hi then Some s else None)"
| "str_field lo hi _ = None"

text \<open>A field with a default.\<close>

definition str_default :: "nat \<Rightarrow> string \<Rightarrow> json option \<Rightarrow> string option" where
  "str_default hi d v = (case v of None \<Rightarrow> Some d | Some j \<Rightarrow> str_field 0 hi (Some j))"

definition one_of :: "string list \<Rightarrow> json option \<Rightarrow> string option" where
  "one_of names v = (case v of Some (JStr s) \<Rightarrow> if s \<in> set names then Some s else None | _ \<Rightarrow> None)"

definition only_fields :: "string list \<Rightarrow> dict \<Rightarrow> bool" where
  "only_fields names d = list_all (\<lambda>(k, v). k \<in> set names) d"

fun all_some :: "'a option list \<Rightarrow> 'a list option" where
  "all_some [] = Some []"
| "all_some (x # xs) = (case (x, all_some xs) of (Some y, Some ys) \<Rightarrow> Some (y # ys) | _ \<Rightarrow> None)"

fun list_field :: "nat \<Rightarrow> (json option \<Rightarrow> 'a option) \<Rightarrow> json option \<Rightarrow> 'a list option" where
  "list_field hi f (Some (JArr xs)) = (if length xs \<le> hi then all_some (map (\<lambda>x. f (Some x)) xs) else None)"
| "list_field hi f _ = None"

fun int_field :: "json option \<Rightarrow> int option" where
  "int_field (Some (JInt i)) = Some i"
| "int_field _ = None"

record knowledge_plan =
  kp_route :: string
  kp_queries :: "string list"
  kp_clarification :: string

text \<open>\<open>check_route\<close>: the queries without blanks around them, or no value.\<close>

definition check_route :: "knowledge_plan \<Rightarrow> knowledge_plan option" where
  "check_route p = (let qs = map strip (kp_queries p) in
     if (if kp_route p = ''retrieve'' then qs = [] \<or> list_ex (\<lambda>q. q = []) qs \<or> \<not> distinct qs
         else qs \<noteq> [] \<or> strip (kp_clarification p) = [] \<or> cited_digits (kp_clarification p) \<noteq> [])
     then None else Some (p\<lparr>kp_queries := qs\<rparr>))"

definition read_plan :: "dict \<Rightarrow> knowledge_plan option" where
  "read_plan d = (if \<not> only_fields [''route'', ''queries'', ''clarification''] d then None
     else case (one_of [''retrieve'', ''clarify''] (dict_get d ''route''), list_field 2 (str_field 1 500) (dict_get d ''queries''),
                str_default 1000 [] (dict_get d ''clarification'')) of
       (Some r, Some qs, Some c) \<Rightarrow> check_route \<lparr>kp_route = r, kp_queries = qs, kp_clarification = c\<rparr>
     | _ \<Rightarrow> None)"

record knowledge_grade =
  kg_route :: string
  kg_relevance :: string
  kg_answerability :: string
  kg_ambiguity :: string
  kg_supported :: "int list"
  kg_summary :: string
  kg_query :: string
  kg_method :: string

definition grade_fields :: "string list" where
  "grade_fields = [''route'', ''relevance'', ''answerability'', ''ambiguity'', ''supported_numbers'', ''summary'', ''rewritten_query'',
     ''rewrite_method'']"

definition read_grade :: "dict \<Rightarrow> knowledge_grade option" where
  "read_grade d = (if \<not> only_fields grade_fields d then None
     else case (one_of [''answer'', ''rewrite'', ''clarify'', ''no_knowledge''] (dict_get d ''route''),
                one_of [''none'', ''weak'', ''strong''] (dict_get d ''relevance''),
                one_of [''none'', ''partial'', ''sufficient''] (dict_get d ''answerability''),
                one_of [''none'', ''missing_slot'', ''multiple_candidates''] (dict_get d ''ambiguity'')) of
       (Some r, Some v, Some a, Some m) \<Rightarrow>
         (case (list_field 60 int_field (dict_get d ''supported_numbers''), str_field 1 2000 (dict_get d ''summary''),
                str_default 500 [] (dict_get d ''rewritten_query''),
                (case dict_get d ''rewrite_method'' of None \<Rightarrow> Some ''standard'' | Some j \<Rightarrow> one_of [''standard'', ''step_back'', ''hyde''] (Some j))) of
            (Some ns, Some s, Some q, Some w) \<Rightarrow> Some \<lparr>kg_route = r, kg_relevance = v, kg_answerability = a, kg_ambiguity = m,
               kg_supported = ns, kg_summary = s, kg_query = q, kg_method = w\<rparr>
          | _ \<Rightarrow> None)
     | _ \<Rightarrow> None)"

record query_rewrite =
  qr_method :: string
  qr_query :: string
  qr_step_back :: string
  qr_hyde :: string

text \<open>\<open>str_strip_whitespace=True\<close>: lengths are those of the stripped texts.\<close>

fun stripped :: "json option \<Rightarrow> json option" where
  "stripped (Some (JStr s)) = Some (JStr (strip s))"
| "stripped v = v"

definition method_payload :: "query_rewrite \<Rightarrow> query_rewrite option" where
  "method_payload q =
     (if qr_method q = ''step_back'' then (if qr_step_back q = [] \<or> qr_hyde q \<noteq> [] then None else Some q)
      else if qr_hyde q = [] \<or> qr_step_back q \<noteq> [] then None else Some q)"

definition read_rewrite :: "dict \<Rightarrow> query_rewrite option" where
  "read_rewrite d = (if \<not> only_fields [''rewrite_method'', ''rewritten_query'', ''step_back_question'', ''hyde_document''] d then None
     else case (one_of [''step_back'', ''hyde''] (dict_get d ''rewrite_method''), str_field 1 500 (stripped (dict_get d ''rewritten_query'')),
                str_default 500 [] (stripped (dict_get d ''step_back_question'')), str_default 4000 [] (stripped (dict_get d ''hyde_document''))) of
       (Some m, Some q, Some b, Some h) \<Rightarrow> method_payload \<lparr>qr_method = m, qr_query = q, qr_step_back = b, qr_hyde = h\<rparr>
     | _ \<Rightarrow> None)"

section \<open>The workflow\<close>

datatype knowledge_question =
    Plan_question string string
  | Grade_question string string "string list" bool "source list"
  | Rewrite_question string string string string

datatype search_reply = Found gathered | Search_failed string

fun reply_numbers :: "search_reply \<Rightarrow> nat set" where
  "reply_numbers (Found g) = numbers_of g"
| "reply_numbers (Search_failed code) = {}"

record 'w knowledge_env =
  kn_ask :: "string \<Rightarrow> knowledge_question \<Rightarrow> (evidence, 'w, model_message) action"
  kn_search :: "string \<Rightarrow> (evidence, 'w, search_reply) action"
  kn_rewritten :: "(string \<Rightarrow> string \<Rightarrow> (evidence, 'w, search_reply) action) option"
  kn_reserve :: "(evidence, 'w, string option) action"
  kn_nothing_found :: string
  kn_spent :: string
  kn_more :: string
  kn_background :: string
  kn_hypothesis :: string

record knowledge_event =
  kv_status :: string
  kv_queries :: "string list"
  kv_grades :: "knowledge_grade list"
  kv_rewrites :: nat
  kv_error :: "string option"
  kv_rewrite :: "query_rewrite option"
  kv_query :: "string option"

record knowledge_state =
  ks_evidence :: evidence
  ks_event :: knowledge_event
  ks_numbers :: "nat set"
  ks_approved :: "nat set"

type_synonym ('w, 'a) kact = "(knowledge_state, 'w, 'a) action"

record report =
  rp_status :: string
  rp_summary :: string

definition with_evidence :: "(evidence, 'w, 'a) action \<Rightarrow> ('w, 'a) kact" where
  "with_evidence m s = (case m (ks_evidence (fst s), snd s) of (res, r, w) \<Rightarrow> (res, (fst s)\<lparr>ks_evidence := r\<rparr>, w))"

definition modify :: "(knowledge_state \<Rightarrow> knowledge_state) \<Rightarrow> ('w, unit) kact" where
  "modify f s = (Inr (), f (fst s), snd s)"

definition inspect :: "(knowledge_state \<Rightarrow> 'a) \<Rightarrow> ('w, 'a) kact" where
  "inspect f s = (Inr (f (fst s)), s)"

definition set_event :: "(knowledge_event \<Rightarrow> knowledge_event) \<Rightarrow> ('w, unit) kact" where
  "set_event f = modify (\<lambda>s. s\<lparr>ks_event := f (ks_event s)\<rparr>)"

text \<open>Evidence that may be cited, and the numbers of documents.\<close>

definition accepted :: "evidence \<Rightarrow> nat set" where
  "accepted r = fst ` set (ev_sources r) - ev_excluded r"

definition knowledge_numbers :: "evidence \<Rightarrow> nat set" where
  "knowledge_numbers r = fst ` set (filter (\<lambda>(n, s). so_type s = ''knowledge'') (ev_sources r))"

definition exclude :: "nat set \<Rightarrow> knowledge_state \<Rightarrow> knowledge_state" where
  "exclude ns s = s\<lparr>ks_evidence := (ks_evidence s)\<lparr>ev_excluded := ev_excluded (ks_evidence s) \<union> ns\<rparr>\<rparr>"

text \<open>\<open>_structured\<close>.\<close>

definition structured ::
    "'w knowledge_env \<Rightarrow> string \<Rightarrow> knowledge_question \<Rightarrow> (dict \<Rightarrow> 'a option) \<Rightarrow> string \<Rightarrow> ('w, 'a) kact" where
  "structured kn role q read code = bind_act (with_evidence (kn_ask kn role q)) (\<lambda>m.
     lift_result (case (mm_tool_calls m, mm_content m) of
       (False, Some (JObj d)) \<Rightarrow> require_row (read d) (AppError code 502)
     | _ \<Rightarrow> Inl (AppError code 502)))"

definition retrieve_more :: "'w knowledge_env \<Rightarrow> nat set \<Rightarrow> string \<Rightarrow> string option \<Rightarrow> ('w, unit) kact" where
  "retrieve_more kn previous query hint =
     bind_act (with_evidence (case (hint, kn_rewritten kn) of
         (Some h, Some f) \<Rightarrow> f query h
       | (Some h, None) \<Rightarrow> raising (OtherError ''TypeError'')
       | (None, _) \<Rightarrow> kn_search kn query)) (\<lambda>reply.
     bind_act (modify (\<lambda>s. exclude (reply_numbers reply - previous) (s\<lparr>ks_numbers := ks_numbers s \<union> reply_numbers reply\<rparr>))) (\<lambda>_.
     case reply of Search_failed code \<Rightarrow> raising (AppError code 503) | Found g \<Rightarrow> ret ()))"

fun retrieve_each :: "'w knowledge_env \<Rightarrow> nat set \<Rightarrow> string list \<Rightarrow> ('w, unit) kact" where
  "retrieve_each kn previous [] = ret ()"
| "retrieve_each kn previous (q # qs) = bind_act (retrieve_more kn previous q None) (\<lambda>_. retrieve_each kn previous qs)"

datatype round = Reported report | Again

definition finish :: "string \<Rightarrow> string \<Rightarrow> ('w, round) kact" where
  "finish status summary = bind_act (set_event (\<lambda>v. v\<lparr>kv_status := status\<rparr>)) (\<lambda>_.
     ret (Reported \<lparr>rp_status = status, rp_summary = summary\<rparr>))"

definition grade_invalid :: exn where
  "grade_invalid = AppError ''RAG_GRADE_INVALID'' 502"

definition rewrite_invalid :: exn where
  "rewrite_invalid = AppError ''RAG_REWRITE_INVALID'' 502"

text \<open>The numbers a summary cites; a summary is too short for the limit of \<open>int\<close>.\<close>

definition summary_cites :: "knowledge_grade \<Rightarrow> int set" where
  "summary_cites g = int ` set (map nat_value (cited_digits (kg_summary g)))"

definition grade_checked :: "nat set \<Rightarrow> knowledge_grade \<Rightarrow> bool" where
  "grade_checked numbers g = (distinct (kg_supported g) \<and> set (kg_supported g) \<subseteq> int ` numbers \<and>
     summary_cites g \<subseteq> set (kg_supported g))"

text \<open>An accepted answer: its supporting evidence becomes eligible.\<close>

definition approve :: "knowledge_grade \<Rightarrow> ('w, round) kact" where
  "approve g =
     bind_act (lift_result (raise_if (kg_relevance g \<noteq> ''strong'' \<or> kg_answerability g \<noteq> ''sufficient'' \<or> summary_cites g = {}) grade_invalid)) (\<lambda>_.
     bind_act (modify (\<lambda>s. let ns = nat ` set (kg_supported g) in
       s\<lparr>ks_evidence := (ks_evidence s)\<lparr>ev_excluded := ev_excluded (ks_evidence s) - ns\<rparr>, ks_approved := ks_approved s \<union> ns\<rparr>)) (\<lambda>_.
     finish ''ok'' (kg_summary g)))"

definition search_again :: "'w knowledge_env \<Rightarrow> nat set \<Rightarrow> string \<Rightarrow> string \<Rightarrow> knowledge_grade \<Rightarrow> string \<Rightarrow> ('w, round) kact" where
  "search_again kn previous task question g query =
     (if kg_method g = ''standard'' then
        bind_act (set_event (\<lambda>v. v\<lparr>kv_query := Some query\<rparr>)) (\<lambda>_.
        bind_act (retrieve_more kn previous query None) (\<lambda>_. ret Again))
      else
        bind_act (structured kn ''rag_rewriter'' (Rewrite_question task question (kg_summary g) (kg_method g)) read_rewrite ''RAG_REWRITE_INVALID'') (\<lambda>rw.
        bind_act (lift_result (raise_if (qr_method rw \<noteq> kg_method g) rewrite_invalid)) (\<lambda>_.
        let q = question @ kn_more kn @ qr_query rw @ (if qr_method rw = ''step_back'' then kn_background kn @ qr_step_back rw else []);
            hint = (if qr_method rw = ''hyde'' then Some (question @ kn_hypothesis kn @ qr_hyde rw) else None) in
        bind_act (lift_result (raise_if (2000 < length q \<or> kn_rewritten kn = None) rewrite_invalid)) (\<lambda>_.
        bind_act (set_event (\<lambda>v. v\<lparr>kv_rewrite := Some rw, kv_query := Some q\<rparr>)) (\<lambda>_.
        bind_act (retrieve_more kn previous q hint) (\<lambda>_. ret Again))))))"

definition spend_rewrite :: "'w knowledge_env \<Rightarrow> nat set \<Rightarrow> string \<Rightarrow> string \<Rightarrow> knowledge_grade \<Rightarrow> string \<Rightarrow> string option \<Rightarrow> ('w, round) kact" where
  "spend_rewrite kn previous task question g query reason = (case reason of
     Some (c # cs) \<Rightarrow>
       bind_act (modify (\<lambda>s. s\<lparr>ks_evidence := (ks_evidence s)\<lparr>ev_warnings := insert (c # cs) (ev_warnings (ks_evidence s))\<rparr>\<rparr>)) (\<lambda>_.
       bind_act (set_event (\<lambda>v. v\<lparr>kv_error := Some (c # cs)\<rparr>)) (\<lambda>_. finish ''empty'' (kn_spent kn)))
   | _ \<Rightarrow>
       bind_act (set_event (\<lambda>v. v\<lparr>kv_rewrites := kv_rewrites v + 1\<rparr>)) (\<lambda>_.
       search_again kn previous task question g query))"

definition rewrite_once :: "'w knowledge_env \<Rightarrow> nat set \<Rightarrow> string \<Rightarrow> string \<Rightarrow> knowledge_plan \<Rightarrow> knowledge_grade \<Rightarrow> ('w, round) kact" where
  "rewrite_once kn previous task question p g =
     (let query = strip (kg_query g) in
      bind_act (lift_result (raise_if (query = [] \<or> query \<in> set (kp_queries p)) grade_invalid)) (\<lambda>_.
      bind_act (inspect (\<lambda>s. kv_rewrites (ks_event s))) (\<lambda>used.
      bind_act (if used \<noteq> 0 then ret (Some ''RAG_REWRITE_LIMIT_REACHED'') else with_evidence (kn_reserve kn))
        (spend_rewrite kn previous task question g query))))"

text \<open>One turn of \<open>while True\<close>.\<close>

definition grade_round :: "'w knowledge_env \<Rightarrow> nat set \<Rightarrow> string \<Rightarrow> string \<Rightarrow> knowledge_plan \<Rightarrow> ('w, round) kact" where
  "grade_round kn previous task question p =
     bind_act (inspect (\<lambda>s. s)) (\<lambda>s.
     if ks_numbers s = {} then finish ''empty'' (kn_nothing_found kn)
     else
       let sources = map (\<lambda>n. the (map_of (ev_sources (ks_evidence s)) n)) (sorted_list_of_set (ks_numbers s)) in
       bind_act (structured kn ''rag_grader'' (Grade_question task question (kp_queries p) (kv_rewrites (ks_event s) \<noteq> 0) sources)
         read_grade ''RAG_GRADE_INVALID'') (\<lambda>g.
       bind_act (lift_result (raise_if (\<not> grade_checked (ks_numbers s) g) grade_invalid)) (\<lambda>_.
       bind_act (set_event (\<lambda>v. v\<lparr>kv_grades := kv_grades v @ [g]\<rparr>)) (\<lambda>_.
       let route = (if kg_ambiguity g \<noteq> ''none'' then ''clarify'' else kg_route g) in
       if route = ''answer'' then approve g
       else bind_act (lift_result (raise_if (summary_cites g \<noteq> {}) grade_invalid)) (\<lambda>_.
         if route = ''clarify'' then finish ''clarification'' (kg_summary g)
         else if route \<noteq> ''rewrite'' then finish ''empty'' (kg_summary g)
         else rewrite_once kn previous task question p g)))))"

partial_function (option) grade_loop ::
    "'w knowledge_env \<Rightarrow> nat set \<Rightarrow> string \<Rightarrow> string \<Rightarrow> knowledge_plan \<Rightarrow> knowledge_state \<times> 'w \<Rightarrow> (report result \<times> knowledge_state \<times> 'w) option" where
  "grade_loop kn previous task question p s = (case grade_round kn previous task question p s of
     (Inl x, t) \<Rightarrow> Some (Inl x, t)
   | (Inr (Reported r), t) \<Rightarrow> Some (Inr r, t)
   | (Inr Again, t) \<Rightarrow> grade_loop kn previous task question p t)"

definition plan_and_retrieve :: "'w knowledge_env \<Rightarrow> nat set \<Rightarrow> string \<Rightarrow> string \<Rightarrow> ('w, knowledge_plan) kact" where
  "plan_and_retrieve kn previous task question =
     bind_act (structured kn ''rag_planner'' (Plan_question task question) read_plan ''RAG_PLAN_INVALID'') (\<lambda>p.
     bind_act (set_event (\<lambda>v. v\<lparr>kv_queries := kp_queries p\<rparr>)) (\<lambda>_.
     if kp_route p = ''clarify'' then bind_act (set_event (\<lambda>v. v\<lparr>kv_status := ''clarification''\<rparr>)) (\<lambda>_. ret p)
     else bind_act (retrieve_each kn previous (kp_queries p)) (\<lambda>_. ret p)))"

definition new_event :: knowledge_event where
  "new_event = \<lparr>kv_status = ''running'', kv_queries = [], kv_grades = [], kv_rewrites = 0, kv_error = None, kv_rewrite = None, kv_query = None\<rparr>"

text \<open>\<open>except\<close> and \<open>finally\<close> of \<open>run\<close>.\<close>

definition failed_event :: "exn \<Rightarrow> knowledge_event \<Rightarrow> knowledge_event" where
  "failed_event x v = v\<lparr>kv_status := ''failed'', kv_error := Some (case exn_code x of Some c \<Rightarrow> c | None \<Rightarrow> ''RAG_QUALITY_FAILED'')\<rparr>"

definition close_run :: "nat set \<Rightarrow> 'a result \<times> knowledge_state \<times> 'w \<Rightarrow> 'a result \<times> knowledge_state \<times> 'w" where
  "close_run previous out = (case out of (res, s, w) \<Rightarrow>
     (let s' = (case res of Inl x \<Rightarrow> s\<lparr>ks_event := failed_event x (ks_event s)\<rparr> | Inr _ \<Rightarrow> s)
      in (res, exclude (knowledge_numbers (ks_evidence s') - previous - ks_approved s') s', w)))"

definition knowledge_run :: "'w knowledge_env \<Rightarrow> string \<Rightarrow> string \<Rightarrow> evidence \<times> 'w \<Rightarrow> (report result \<times> knowledge_state \<times> 'w) option" where
  "knowledge_run kn task question rw =
     (let previous = accepted (fst rw);
          start = \<lparr>ks_evidence = fst rw, ks_event = new_event, ks_numbers = {}, ks_approved = {}\<rparr>
      in map_option (close_run previous) (case plan_and_retrieve kn previous task question (start, snd rw) of
        (Inl x, t) \<Rightarrow> Some (Inl x, t)
      | (Inr p, t) \<Rightarrow>
          if kp_route p = ''clarify'' then Some (Inr \<lparr>rp_status = ''clarification'', rp_summary = kp_clarification p\<rparr>, t)
          else grade_loop kn previous task question p t))"

end
