(* ===== verification/Supervisor.thy ===== *)
theory Supervisor
  imports Knowledge RunCheckpoint
begin

text \<open>
  The supervisor of one answer and its specialists (\<open>app/service/agent/supervisor.py\<close>): the tools they
  are given, the wrapper every call of a tool goes through, delegation, and the acceptance of the final answer. A
  model is what it says and which tools it calls, given the replies; the search engines, the page reader, the
  business database, the sandbox and the checkpoint are parameters. Events for the user interface are left out.
\<close>

section \<open>State\<close>

record counters =
  ct_tools :: nat
  ct_searches :: nat
  ct_web :: nat
  ct_reads :: nat
  ct_sql :: nat
  ct_rewrites :: nat

text \<open>What a tool returns: registered evidence, pages read with the errors of the others, or another dictionary.\<close>

datatype tool_value = Gathered gathered | Crawled gathered "string list" | Answered json

record tool_event =
  te_name :: string
  te_status :: string
  te_error :: "string option"
  te_numbers :: "nat list"
  te_contexts :: "(nat \<times> string list) option"
  te_rerank :: "rerank_trace option"

record agent_event =
  ae_agent :: string
  ae_status :: string
  ae_error :: "string option"

record sup_state =
  ss_evidence :: evidence
  ss_counters :: counters
  ss_delegations :: "(string \<times> nat) list"
  ss_tool_events :: "tool_event list"
  ss_agent_events :: "agent_event list"
  ss_failures :: "(string \<times> string) list"
  ss_knowledge :: "knowledge_event list"
  ss_web_cache :: "gathered option"
  ss_page_cache :: "(string \<times> gathered) list"
  ss_credits :: "rat option"
  ss_schema_seen :: bool

type_synonym ('w, 'a) sact = "(sup_state, 'w, 'a) action"
type_synonym ('w, 'a) wact = "'w \<Rightarrow> 'a result \<times> 'w"

definition outside :: "('w, 'a) wact \<Rightarrow> ('w, 'a) sact" where
  "outside f s = (case f (snd s) of (res, w) \<Rightarrow> (res, fst s, w))"

definition update_sup :: "(sup_state \<Rightarrow> sup_state) \<Rightarrow> ('w, unit) sact" where
  "update_sup f s = (Inr (), f (fst s), snd s)"

definition ask_sup :: "(sup_state \<Rightarrow> 'a) \<Rightarrow> ('w, 'a) sact" where
  "ask_sup f s = (Inr (f (fst s)), s)"

definition bump :: "(counters \<Rightarrow> counters) \<Rightarrow> ('w, unit) sact" where
  "bump f = update_sup (\<lambda>s. s\<lparr>ss_counters := f (ss_counters s)\<rparr>)"

definition on_evidence :: "(evidence \<Rightarrow> 'a result \<times> evidence) \<Rightarrow> ('w, 'a) sact" where
  "on_evidence f s = (case f (ss_evidence (fst s)) of (res, r) \<Rightarrow> (res, (fst s)\<lparr>ss_evidence := r\<rparr>, snd s))"

text \<open>The part of the state that the result of a call is saved with (\<open>body_state\<close>, \<open>restore_body\<close>).\<close>

record call_body =
  bo_evidence :: evidence_snapshot
  bo_searches :: nat
  bo_web :: nat
  bo_reads :: nat
  bo_sql :: nat
  bo_web_cache :: "gathered option"
  bo_page_cache :: "(string \<times> gathered) list"
  bo_credits :: "rat option"
  bo_schema_seen :: bool

definition body_state :: "sup_state \<Rightarrow> call_body" where
  "body_state s = \<lparr>bo_evidence = snapshot (ss_evidence s), bo_searches = ct_searches (ss_counters s), bo_web = ct_web (ss_counters s),
     bo_reads = ct_reads (ss_counters s), bo_sql = ct_sql (ss_counters s), bo_web_cache = ss_web_cache s, bo_page_cache = ss_page_cache s,
     bo_credits = ss_credits s, bo_schema_seen = ss_schema_seen s\<rparr>"

definition restore_body :: "call_body \<Rightarrow> ('w, unit) sact" where
  "restore_body b =
     bind_act (ask_sup ss_evidence) (\<lambda>r.
     bind_act (lift_result (restore (bo_evidence b) r)) (\<lambda>r'.
     update_sup (\<lambda>s. s\<lparr>ss_evidence := r', ss_web_cache := bo_web_cache b, ss_page_cache := bo_page_cache b,
       ss_credits := bo_credits b, ss_schema_seen := bo_schema_seen b,
       ss_counters := (ss_counters s)\<lparr>ct_searches := bo_searches b, ct_web := bo_web b, ct_reads := bo_reads b, ct_sql := bo_sql b\<rparr>\<rparr>)))"

record saved_call =
  sc_value :: "tool_value option"
  sc_error :: "(string \<times> nat) option"
  sc_body :: call_body

section \<open>What a run is given\<close>

text \<open>
  The checkpoint of a run, when it has one. Its check comes before every step. A call has a key, made of its name, its
  arguments, its number and the conversation it stands in, which the world holds. Under the key the call is opened: the
  answer is an error, a stored result or that the call is to run; the end of a call that ran is recorded with its result.
\<close>

record 'w checkpoint_api =
  cp_check :: "('w, unit) wact"
  cp_key :: "string \<Rightarrow> json \<Rightarrow> nat \<Rightarrow> 'w \<Rightarrow> string result"
  cp_begin :: "string \<Rightarrow> json \<Rightarrow> bool \<Rightarrow> ('w, saved_call option) wact"
  cp_complete :: "string \<Rightarrow> saved_call result \<Rightarrow> ('w, unit) wact"

text \<open>What is hashed with the receipt: the name and the arguments of a tool; finding the memories has none.\<close>

definition call_inputs :: "string \<Rightarrow> json \<Rightarrow> json" where
  "call_inputs name inputs = (if name = ''memory_search'' then JObj []
     else JObj [(''name'', JStr name), (''args'', JArr []), (''kwargs'', inputs)])"

text \<open>An application error comes back from the checkpoint as its code and status.\<close>

definition confirmed :: "'a result \<Rightarrow> 'a result" where
  "confirmed r = (case r of
     Inr v \<Rightarrow> Inr v
   | Inl x \<Rightarrow> (case (exn_code x, exn_status x) of (Some code, Some status) \<Rightarrow> Inl (AppError code status) | _ \<Rightarrow> Inl x))"

text \<open>\<open>invoke\<close>: a stored result is given back without a call, a call that ran is recorded before its result is.\<close>

definition checkpoint_call :: "'w checkpoint_api \<Rightarrow> string \<Rightarrow> json \<Rightarrow> bool \<Rightarrow> ('w, saved_call) sact \<Rightarrow> ('w, saved_call) sact" where
  "checkpoint_call cp name inputs idempotent call s =
     (case cp_key cp name inputs (ct_tools (ss_counters (fst s))) (snd s) of
        Inl x \<Rightarrow> (Inl x, s)
      | Inr key \<Rightarrow>
          (case cp_begin cp key (call_inputs name inputs) idempotent (snd s) of
             (Inl x, w) \<Rightarrow> (Inl x, fst s, w)
           | (Inr (Some saved), w) \<Rightarrow> (Inr saved, fst s, w)
           | (Inr None, w) \<Rightarrow>
               (case call (fst s, w) of (r, t) \<Rightarrow>
                  (case cp_complete cp key r (snd t) of (ended, w') \<Rightarrow> (and_then ended (\<lambda>_. confirmed r), fst t, w')))))"

text \<open>A model: its final message, an exception, the recursion limit of the graph, or a round of calls.\<close>

datatype tool_reply =
    Tool_ok tool_value
  | Tool_failed string
  | No_such_tool
  | Delegated string string "string option" string "source list" "context_entry list" "string list" "(string \<times> string) list"

datatype 'c agent =
    Says model_message
  | Breaks exn
  | Exhausted
  | Calls "'c list" "tool_reply list \<Rightarrow> 'c agent"

datatype tool_call = Search_knowledge string | Search_web | Read_page string | Crawl_sites | Describe_schema | Execute_sql string

datatype sup_call =
    Delegate string string
  | Public_tool string
  | Search_tools string int
  | Describe_skill string
  | Run_sandbox string string
  | Save_memory string

record retrieval_options =
  ro_query :: string
  ro_hint :: "string option"
  ro_room :: "int option"
  ro_owners :: "(uuid \<times> uuid) list option"

text \<open>
  The specialist of a role is asked with its task; the agent of a public tool only sees the public input; a repair
  sees the evidence. \<open>sv_seconds\<close> is the time that is left.
\<close>

record 'w sup_env =
  sv_evidence :: evidence_env
  sv_context :: run_context
  sv_question :: string
  sv_public_query :: "string option"
  sv_web_enabled :: bool
  sv_web_urls :: "string list"
  sv_bases :: "uuid list"
  sv_max_tools :: nat
  sv_max_searches :: nat
  sv_max_delegations :: nat
  sv_max_per_agent :: nat
  sv_quality :: bool
  sv_crawl_urls :: "string list"
  sv_hierarchy :: bool
  sv_checkpoint :: "'w checkpoint_api option"
  sv_seconds :: "'w \<Rightarrow> rat \<times> 'w"
  sv_validate :: "string option \<Rightarrow> ('w, unit) wact"
  sv_scope :: "('w, (uuid \<times> uuid) list) wact option"
  sv_retrieve :: "retrieval_options \<Rightarrow> ('w, search_hit list) wact"
  sv_web_search :: "string \<Rightarrow> rat \<Rightarrow> ('w, web_page list \<times> rat option) wact"
  sv_web_read :: "(string \<Rightarrow> rat \<Rightarrow> ('w, web_page) wact) option"
  sv_sql_schema :: "(rat \<Rightarrow> ('w, json) wact) option"
  sv_sql_query :: "string \<Rightarrow> rat \<Rightarrow> ('w, sql_result) wact"
  sv_http :: "(string \<Rightarrow> json \<Rightarrow> ('w, json \<times> time) wact) option"
  sv_skill :: "string \<Rightarrow> ('w, json) wact"
  sv_sandbox :: "(string \<Rightarrow> string \<Rightarrow> ('w, bool \<times> string \<times> json \<times> time) wact) option"
  sv_remember :: "string \<Rightarrow> ('w, uuid) wact"
  sv_public_again :: "'w \<Rightarrow> string option \<times> 'w"
  sv_ask :: "string \<Rightarrow> knowledge_question \<Rightarrow> ('w, model_message) wact"
  sv_specialist :: "string \<Rightarrow> string \<Rightarrow> 'w \<Rightarrow> tool_call agent \<times> 'w"
  sv_public_agent :: "string \<Rightarrow> string \<Rightarrow> 'w \<Rightarrow> json agent \<times> 'w"
  sv_supervisor :: "source list \<Rightarrow> 'w \<Rightarrow> sup_call agent \<times> 'w"
  sv_repair :: "source list \<Rightarrow> context_entry list \<Rightarrow> knowledge_event list \<Rightarrow> (string \<times> string) list \<Rightarrow> ('w, model_message) wact"
  sv_phrases :: "string \<times> string \<times> string \<times> string \<times> string"

definition has_execution :: "'w sup_env \<Rightarrow> bool" where
  "has_execution sv = (rx_execution (sv_context sv) \<noteq> None)"

definition agent_timeout :: exn where
  "agent_timeout = AppError ''AGENT_TIMEOUT'' 504"

definition limit_exceeded :: exn where
  "limit_exceeded = AppError ''AGENT_LIMIT_EXCEEDED'' 502"

definition tool_not_allowed :: exn where
  "tool_not_allowed = AppError ''TOOL_NOT_ALLOWED'' 403"

definition invalid_output :: exn where
  "invalid_output = AppError ''INVALID_AGENT_OUTPUT'' 502"

definition fatal_codes :: "string list" where
  "fatal_codes = [''AGENT_TIMEOUT'', ''AGENT_LIMIT_EXCEEDED'', ''CONTEXT_LIMIT_EXCEEDED''] @ control_errors"

definition remaining :: "'w sup_env \<Rightarrow> ('w, rat) sact" where
  "remaining sv =
     bind_act (case sv_checkpoint sv of
         Some cp \<Rightarrow> outside (cp_check cp)
       | None \<Rightarrow> if has_execution sv then outside (sv_validate sv None) else ret ()) (\<lambda>_.
     bind_act (outside (\<lambda>w. case sv_seconds sv w of (t, w') \<Rightarrow> (Inr t, w'))) (\<lambda>t.
     if t \<le> 0 then raising agent_timeout else ret t))"

definition eligible_sources :: "evidence \<Rightarrow> source list" where
  "eligible_sources r = map snd (filter (\<lambda>(n, s). n \<notin> ev_excluded r) (ev_sources r))"

definition eligible_contexts :: "evidence \<Rightarrow> context_entry list" where
  "eligible_contexts r =
     map (\<lambda>c. c\<lparr>ce_numbers := filter (\<lambda>n. n \<notin> ev_excluded r) (ce_numbers c)\<rparr>)
       (filter (\<lambda>c. list_ex (\<lambda>n. n \<notin> ev_excluded r) (ce_numbers c)) (map snd (ev_contexts r)))"

section \<open>The wrapper of every tool\<close>

fun value_gathered :: "tool_value \<Rightarrow> gathered option" where
  "value_gathered (Gathered g) = Some g"
| "value_gathered (Crawled g es) = Some g"
| "value_gathered (Answered j) = None"

definition value_status :: "tool_value \<Rightarrow> string" where
  "value_status v = (case value_gathered v of
     Some g \<Rightarrow> gathered_status g
   | None \<Rightarrow> (case v of Answered (JObj d) \<Rightarrow> (case dict_get d ''status'' of Some (JStr t) \<Rightarrow> t | _ \<Rightarrow> ''ok'') | _ \<Rightarrow> ''ok''))"

definition ok_event :: "string \<Rightarrow> tool_value \<Rightarrow> tool_event" where
  "ok_event name v = (case value_gathered v of
     None \<Rightarrow> \<lparr>te_name = name, te_status = value_status v, te_error = None, te_numbers = [], te_contexts = None, te_rerank = None\<rparr>
   | Some g \<Rightarrow> \<lparr>te_name = name, te_status = value_status v, te_error = None, te_numbers = map so_number (ga_sources g) @ ga_existing g,
       te_contexts = map_option (\<lambda>(cs, ws). (length cs, ws)) (ga_contexts g), te_rerank = ga_rerank g\<rparr>)"

definition failed_tool :: "string \<Rightarrow> string \<Rightarrow> tool_event" where
  "failed_tool name code = \<lparr>te_name = name, te_status = ''failed'', te_error = Some code, te_numbers = [], te_contexts = None, te_rerank = None\<rparr>"

definition broken_tool :: "string \<Rightarrow> tool_event" where
  "broken_tool name = \<lparr>te_name = name, te_status = ''ok'', te_error = None, te_numbers = [], te_contexts = None, te_rerank = None\<rparr>"

definition add_tool_event :: "tool_event \<Rightarrow> sup_state \<Rightarrow> sup_state" where
  "add_tool_event ev s = s\<lparr>ss_tool_events := ss_tool_events s @ [ev]\<rparr>"

definition add_failure :: "string \<Rightarrow> string \<Rightarrow> sup_state \<Rightarrow> sup_state" where
  "add_failure who code s = s\<lparr>ss_failures := ss_failures s @ [(who, code)]\<rparr>"

text \<open>\<open>execute_tool\<close>: an error that is not fatal is part of the saved result.\<close>

definition execute_tool :: "bool \<Rightarrow> ('w, tool_value) sact \<Rightarrow> ('w, saved_call) sact" where
  "execute_tool idempotent f s = (case f s of
     (Inr v, t) \<Rightarrow> (Inr \<lparr>sc_value = Some v, sc_error = None, sc_body = body_state (fst t)\<rparr>, t)
   | (Inl x, t) \<Rightarrow> (case exn_code x of
       Some c \<Rightarrow> if c \<in> set fatal_codes then (Inl x, t)
                 else (Inr \<lparr>sc_value = None, sc_error = Some (c, the (exn_status x)), sc_body = body_state (fst t)\<rparr>, t)
     | None \<Rightarrow> if \<not> idempotent then (Inl (AppError ''TOOL_OUTCOME_UNCERTAIN'' 409), t)
               else (Inr \<lparr>sc_value = None, sc_error = Some (''TOOL_EXECUTION_FAILED'', 502), sc_body = body_state (fst t)\<rparr>, t)))"

definition checkpointed :: "'w checkpoint_api \<Rightarrow> string \<Rightarrow> json \<Rightarrow> bool \<Rightarrow> ('w, tool_value) sact \<Rightarrow> ('w, tool_value) sact" where
  "checkpointed cp name inputs idempotent f =
     bind_act (checkpoint_call cp name inputs idempotent (execute_tool idempotent f)) (\<lambda>saved.
     bind_act (restore_body (sc_body saved)) (\<lambda>_.
     case sc_error saved of
       Some (c, status) \<Rightarrow> raising (AppError c status)
     | None \<Rightarrow> lift_result (require_row (sc_value saved) (OtherError ''AttributeError''))))"

definition attempt :: "'w sup_env \<Rightarrow> string \<Rightarrow> json \<Rightarrow> bool \<Rightarrow> ('w, tool_value) sact \<Rightarrow> ('w, tool_value) sact" where
  "attempt sv name inputs idempotent f =
     bind_act (case sv_checkpoint sv of Some cp \<Rightarrow> checkpointed cp name inputs idempotent f | None \<Rightarrow> f) (\<lambda>v.
     bind_act (remaining sv) (\<lambda>_. ret v))"

definition tool_recorded :: "string \<Rightarrow> ('w, tool_value) sact \<Rightarrow> ('w, tool_reply) sact" where
  "tool_recorded name m s = (case m s of
     (Inr v, t) \<Rightarrow> (Inr (Tool_ok v), add_tool_event (ok_event name v) (fst t), snd t)
   | (Inl x, t) \<Rightarrow> (case exn_code x of
       None \<Rightarrow> (Inl x, add_tool_event (broken_tool name) (fst t), snd t)
     | Some c \<Rightarrow> if c \<in> set fatal_codes then (Inl x, add_tool_event (failed_tool name c) (fst t), snd t)
                 else (Inr (Tool_failed c), add_tool_event (failed_tool name c) (add_failure name c (fst t)), snd t)))"

text \<open>\<open>instrument\<close>: the authority is checked again and the call is counted before it runs.\<close>

definition instrument ::
    "'w sup_env \<Rightarrow> string \<Rightarrow> string option \<Rightarrow> json \<Rightarrow> bool \<Rightarrow> ('w, tool_value) sact \<Rightarrow> ('w, tool_reply) sact" where
  "instrument sv name scope inputs idempotent f =
     bind_act (remaining sv) (\<lambda>_.
     bind_act (if has_execution sv \<and> scope \<noteq> None then outside (sv_validate sv scope) else ret ()) (\<lambda>_.
     bind_act (ask_sup (\<lambda>s. ct_tools (ss_counters s))) (\<lambda>n.
     bind_act (lift_result (raise_if (sv_max_tools sv \<le> n) limit_exceeded)) (\<lambda>_.
     bind_act (bump (\<lambda>c. c\<lparr>ct_tools := ct_tools c + 1\<rparr>)) (\<lambda>_.
     tool_recorded name (attempt sv name inputs idempotent f))))))"

section \<open>Tools of the specialists\<close>

definition same_owners :: "(uuid \<times> uuid) list \<Rightarrow> (uuid \<times> uuid) list \<Rightarrow> bool" where
  "same_owners a b = (set (map fst a) = set (map fst b) \<and> list_all (\<lambda>k. map_of a k = map_of b k) (map fst a))"

definition current_owners :: "'w sup_env \<Rightarrow> ('w, (uuid \<times> uuid) list option) sact" where
  "current_owners sv =
     (if sv_bases sv = [] then ret None
      else case sv_scope sv of
        None \<Rightarrow> raising (AppError ''SHARING_DISABLED'' 503)
      | Some f \<Rightarrow> bind_act (outside f) (\<lambda>owners.
          if same_owners owners (rev (rx_owners (sv_context sv))) then ret (Some owners)
          else raising (AppError ''DOCUMENT_SCOPE_CHANGED'' 409)))"

definition search_knowledge_body :: "'w sup_env \<Rightarrow> string \<Rightarrow> string option \<Rightarrow> ('w, tool_value) sact" where
  "search_knowledge_body sv query hint =
     bind_act (lift_result (raise_if (strip query = [] \<or> 2000 < length query) tool_not_allowed)) (\<lambda>_.
     bind_act (ask_sup (\<lambda>s. ct_searches (ss_counters s))) (\<lambda>n.
     bind_act (lift_result (raise_if (sv_max_searches sv \<le> n) limit_exceeded)) (\<lambda>_.
     bind_act (bump (\<lambda>c. c\<lparr>ct_searches := ct_searches c + 1\<rparr>)) (\<lambda>_.
     bind_act (ask_sup (\<lambda>s. if sv_hierarchy sv then Some (context_room (ss_evidence s)) else None)) (\<lambda>room.
     bind_act (current_owners sv) (\<lambda>owners.
     bind_act (if rx_allowed (sv_context sv) = [] then ret []
               else outside (sv_retrieve sv \<lparr>ro_query = query, ro_hint = hint, ro_room = room, ro_owners = owners\<rparr>)) (\<lambda>hits.
     bind_act (on_evidence (\<lambda>r. case add_knowledge (sv_evidence sv) hits r of Inl x \<Rightarrow> (Inl x, r) | Inr (g, r') \<Rightarrow> (Inr g, r'))) (\<lambda>g.
     ret (Gathered g)))))))))"

definition search_web_body :: "'w sup_env \<Rightarrow> ('w, tool_value) sact" where
  "search_web_body sv = (case (sv_web_enabled sv, sv_public_query sv) of
     (True, Some (c # cs)) \<Rightarrow>
       bind_act (ask_sup ss_web_cache) (\<lambda>cached. case cached of
         Some g \<Rightarrow> ret (Gathered g)
       | None \<Rightarrow>
           bind_act (bump (\<lambda>k. k\<lparr>ct_web := ct_web k + 1\<rparr>)) (\<lambda>_.
           bind_act (remaining sv) (\<lambda>t.
           bind_act (outside (sv_web_search sv (c # cs) t)) (\<lambda>(pages, credits).
           bind_act (update_sup (\<lambda>s. s\<lparr>ss_credits := credits\<rparr>)) (\<lambda>_.
           bind_act (on_evidence (add_web (sv_evidence sv) pages)) (\<lambda>g.
           bind_act (update_sup (\<lambda>s. s\<lparr>ss_web_cache := Some g\<rparr>)) (\<lambda>_. ret (Gathered g))))))))
   | _ \<Rightarrow> raising tool_not_allowed)"

fun normalized_all :: "(string \<Rightarrow> bool) \<Rightarrow> string list \<Rightarrow> string list result" where
  "normalized_all ip [] = Inr []"
| "normalized_all ip (u # us) = and_then (normalized_url ip u) (\<lambda>v. and_then (normalized_all ip us) (\<lambda>vs. Inr (v # vs)))"

definition web_urls_of :: "evidence \<Rightarrow> string list" where
  "web_urls_of r = concat (map (\<lambda>x. case en_source x of Web_source t u a b c \<Rightarrow> [u] | _ \<Rightarrow> []) (ev_entries r))"

definition read_page_body :: "'w sup_env \<Rightarrow> string \<Rightarrow> ('w, tool_value) sact" where
  "read_page_body sv url =
     bind_act (ask_sup (\<lambda>s. web_urls_of (ss_evidence s))) (\<lambda>found.
     bind_act (lift_result (normalized_all (ee_ip_literal (sv_evidence sv)) (sv_web_urls sv @ found))) (\<lambda>allowed.
     bind_act (lift_result (case normalized_url (ee_ip_literal (sv_evidence sv)) url of
         Inl x \<Rightarrow> Inl (if exn_code x = None then tool_not_allowed else x) | Inr u \<Rightarrow> Inr u)) (\<lambda>key.
     case sv_web_read sv of
       None \<Rightarrow> raising tool_not_allowed
     | Some f \<Rightarrow>
         if key \<notin> set allowed then raising tool_not_allowed
         else bind_act (ask_sup (\<lambda>s. map_of (ss_page_cache s) key)) (\<lambda>cached. case cached of
           Some g \<Rightarrow> ret (Gathered g)
         | None \<Rightarrow>
             bind_act (remaining sv) (\<lambda>t.
             bind_act (outside (f url t)) (\<lambda>page.
             bind_act (bump (\<lambda>c. c\<lparr>ct_reads := ct_reads c + 1\<rparr>)) (\<lambda>_.
             bind_act (on_evidence (add_web_page (sv_evidence sv) page)) (\<lambda>g.
             bind_act (update_sup (\<lambda>s. s\<lparr>ss_page_cache := AList.update key g (ss_page_cache s)\<rparr>)) (\<lambda>_. ret (Gathered g))))))))))"

fun crawl_each :: "'w sup_env \<Rightarrow> string list \<Rightarrow> web_page list \<Rightarrow> string list \<Rightarrow> ('w, web_page list \<times> string list) sact" where
  "crawl_each sv [] pages errors = ret (pages, errors)"
| "crawl_each sv (u # us) pages errors =
     bind_act (except_act
       (bind_act (remaining sv) (\<lambda>t.
        bind_act (outside (case sv_web_read sv of None \<Rightarrow> (\<lambda>w. (Inl (OtherError ''AttributeError''), w)) | Some f \<Rightarrow> f u t)) (\<lambda>page.
        bind_act (bump (\<lambda>c. c\<lparr>ct_reads := ct_reads c + 1\<rparr>)) (\<lambda>_. ret (Inl page)))))
       (\<lambda>x. case exn_code x of
          None \<Rightarrow> raising x
        | Some c \<Rightarrow> if c \<in> set fatal_codes then raising x
            else bind_act (update_sup (add_failure ''crawl_fixed_sites'' c)) (\<lambda>_. ret (Inr c)))) (\<lambda>got.
     case got of Inl page \<Rightarrow> crawl_each sv us (pages @ [page]) errors | Inr c \<Rightarrow> crawl_each sv us pages (errors @ [c]))"

definition crawl_body :: "'w sup_env \<Rightarrow> ('w, tool_value) sact" where
  "crawl_body sv =
     bind_act (crawl_each sv (take 3 (sv_crawl_urls sv)) [] []) (\<lambda>(pages, errors).
     bind_act (on_evidence (add_web (sv_evidence sv) pages)) (\<lambda>g. ret (Crawled g errors)))"

definition describe_schema_body :: "'w sup_env \<Rightarrow> ('w, tool_value) sact" where
  "describe_schema_body sv = (case sv_sql_schema sv of
     None \<Rightarrow> raising (AppError ''SQL_UNAVAILABLE'' 503)
   | Some f \<Rightarrow>
       bind_act (remaining sv) (\<lambda>t.
       bind_act (outside (f t)) (\<lambda>j.
       bind_act (lift_result (raise_if (16000 < length (dumps False j)) (AppError ''SQL_SCHEMA_TOO_LARGE'' 422))) (\<lambda>_.
       bind_act (update_sup (\<lambda>s. s\<lparr>ss_schema_seen := True\<rparr>)) (\<lambda>_. ret (Answered j))))))"

definition execute_sql_body :: "'w sup_env \<Rightarrow> string \<Rightarrow> ('w, tool_value) sact" where
  "execute_sql_body sv query =
     (if sv_sql_schema sv = None then raising (AppError ''SQL_UNAVAILABLE'' 503)
      else bind_act (ask_sup ss_schema_seen) (\<lambda>seen.
        bind_act (lift_result (raise_if (\<not> seen) (AppError ''SQL_SCHEMA_REQUIRED'' 422))) (\<lambda>_.
        bind_act (bump (\<lambda>c. c\<lparr>ct_sql := ct_sql c + 1\<rparr>)) (\<lambda>_.
        bind_act (remaining sv) (\<lambda>t.
        bind_act (outside (sv_sql_query sv query t)) (\<lambda>q.
        bind_act (on_evidence (\<lambda>r. case add_sql (sv_evidence sv) q r of (g, r') \<Rightarrow> (Inr g, r'))) (\<lambda>g. ret (Gathered g))))))))"

definition one_arg :: "string \<Rightarrow> string \<Rightarrow> json" where
  "one_arg k v = JObj [(k, JStr v)]"

definition search_knowledge :: "'w sup_env \<Rightarrow> string \<Rightarrow> ('w, tool_reply) sact" where
  "search_knowledge sv query =
     instrument sv ''search_knowledge'' (Some ''delegate_rag'') (one_arg ''query'' query) True (search_knowledge_body sv query None)"

definition search_rewritten_knowledge :: "'w sup_env \<Rightarrow> string \<Rightarrow> string \<Rightarrow> ('w, tool_reply) sact" where
  "search_rewritten_knowledge sv query hint =
     instrument sv ''search_rewritten_knowledge'' (Some ''delegate_rag'') (JObj [(''query'', JStr query), (''embedding_query'', JStr hint)]) True
       (search_knowledge_body sv query (Some hint))"

fun specialist_tool :: "'w sup_env \<Rightarrow> tool_call \<Rightarrow> ('w, tool_reply) sact" where
  "specialist_tool sv (Search_knowledge q) = search_knowledge sv q"
| "specialist_tool sv Search_web = instrument sv ''search_web'' (Some ''delegate_web'') (JObj []) True (search_web_body sv)"
| "specialist_tool sv (Read_page u) = instrument sv ''read_web_page'' (Some ''delegate_web'') (one_arg ''url'' u) True (read_page_body sv u)"
| "specialist_tool sv Crawl_sites = instrument sv ''crawl_fixed_sites'' (Some ''delegate_web'') (JObj []) True (crawl_body sv)"
| "specialist_tool sv Describe_schema = instrument sv ''describe_sql_schema'' (Some ''delegate_sql'') (JObj []) True (describe_schema_body sv)"
| "specialist_tool sv (Execute_sql q) = instrument sv ''execute_sql'' (Some ''delegate_sql'') (one_arg ''query'' q) True (execute_sql_body sv q)"

text \<open>Which tools a specialist is given.\<close>

fun role_has :: "'w sup_env \<Rightarrow> string \<Rightarrow> tool_call \<Rightarrow> bool" where
  "role_has sv role (Search_knowledge q) = (role = ''rag'')"
| "role_has sv role Search_web = (role = ''web'')"
| "role_has sv role (Read_page u) = (role = ''web'')"
| "role_has sv role Crawl_sites = (role = ''web'' \<and> sv_web_read sv \<noteq> None \<and> sv_crawl_urls sv \<noteq> [])"
| "role_has sv role Describe_schema = (role = ''sql'')"
| "role_has sv role (Execute_sql q) = (role = ''sql'')"

end
