(* ===== verification/Delegation.thy ===== *)
theory Delegation
  imports Supervisor
begin

text \<open>
  Delegation to the specialists, the supervisor's own tools, and how a final answer is accepted
  (\<open>app/service/agent/supervisor.py\<close>, second half).
\<close>

section \<open>Running a model\<close>

fun run_calls :: "('c \<Rightarrow> bool) \<Rightarrow> ('c \<Rightarrow> ('w, tool_reply) sact) \<Rightarrow> 'c list \<Rightarrow> ('w, tool_reply list) sact" where
  "run_calls has tool [] = ret []"
| "run_calls has tool (c # cs) =
     bind_act (if has c then tool c else ret No_such_tool) (\<lambda>r.
     bind_act (run_calls has tool cs) (\<lambda>rs. ret (r # rs)))"

primrec run_agent :: "('c \<Rightarrow> bool) \<Rightarrow> ('c \<Rightarrow> ('w, tool_reply) sact) \<Rightarrow> 'c agent \<Rightarrow> ('w, model_message) sact" where
  "run_agent has tool (Says m) = ret m"
| "run_agent has tool (Breaks x) = raising x"
| "run_agent has tool Exhausted = raising limit_exceeded"
| "run_agent has tool (Calls cs k) = bind_act (run_calls has tool cs) (\<lambda>rs. run_agent has tool (k rs))"

text \<open>\<open>invoke_agent\<close>.\<close>

definition invoke_agent :: "'w sup_env \<Rightarrow> ('c \<Rightarrow> bool) \<Rightarrow> ('c \<Rightarrow> ('w, tool_reply) sact) \<Rightarrow> ('w \<Rightarrow> 'c agent \<times> 'w) \<Rightarrow> ('w, model_message) sact" where
  "invoke_agent sv has tool f =
     bind_act (outside (\<lambda>w. case f w of (a, w') \<Rightarrow> (Inr a, w'))) (\<lambda>a.
     bind_act (run_agent has tool a) (\<lambda>m.
     bind_act (remaining sv) (\<lambda>_. ret m)))"

definition read_report :: "model_message \<Rightarrow> report option" where
  "read_report m = (case mm_content m of
     Some (JObj d) \<Rightarrow> if \<not> only_fields [''status'', ''summary''] d then None
       else (case (one_of [''ok'', ''empty'', ''clarification''] (dict_get d ''status''), str_field 1 4000 (dict_get d ''summary'')) of
         (Some t, Some s) \<Rightarrow> Some \<lparr>rp_status = t, rp_summary = s\<rparr> | _ \<Rightarrow> None)
   | _ \<Rightarrow> None)"

definition validation_error :: exn where
  "validation_error = OtherError ''ValidationError''"

section \<open>The knowledge workflow as a specialist\<close>

text \<open>The workflow sees the evidence of the supervisor's state; the rest of the state is part of its world.\<close>

definition lower_act :: "('w, 'a) sact \<Rightarrow> (evidence, sup_state \<times> 'w, 'a) action" where
  "lower_act m s = (case m ((fst (snd s))\<lparr>ss_evidence := fst s\<rparr>, snd (snd s)) of (res, s', w') \<Rightarrow> (res, ss_evidence s', s', w'))"

definition as_reply :: "('w, tool_reply) sact \<Rightarrow> ('w, search_reply) sact" where
  "as_reply m = bind_act m (\<lambda>r. case r of
     Tool_ok (Gathered g) \<Rightarrow> ret (Found g)
   | Tool_failed c \<Rightarrow> ret (Search_failed c)
   | _ \<Rightarrow> raising (OtherError ''KeyError''))"

text \<open>\<open>ask\<close>: an agent without tools.\<close>

definition ask_model :: "'w sup_env \<Rightarrow> string \<Rightarrow> knowledge_question \<Rightarrow> ('w, model_message) sact" where
  "ask_model sv role q = bind_act (outside (sv_ask sv role q)) (\<lambda>m. bind_act (remaining sv) (\<lambda>_. ret m))"

definition reserve_rewrite :: "'w sup_env \<Rightarrow> ('w, string option) sact" where
  "reserve_rewrite sv =
     bind_act (ask_sup ss_counters) (\<lambda>c.
     if 1 \<le> ct_rewrites c then ret (Some ''RAG_REWRITE_LIMIT_REACHED'')
     else if sv_max_searches sv \<le> ct_searches c \<or> sv_max_tools sv \<le> ct_tools c then ret (Some ''RAG_SEARCH_LIMIT_REACHED'')
     else bind_act (bump (\<lambda>k. k\<lparr>ct_rewrites := ct_rewrites k + 1\<rparr>)) (\<lambda>_. ret None))"

definition knowledge_of :: "'w sup_env \<Rightarrow> (sup_state \<times> 'w) knowledge_env" where
  "knowledge_of sv = (case sv_phrases sv of (nothing_found, used_up, again_mark, background, hypothesis) \<Rightarrow>
     \<lparr>kn_ask = (\<lambda>role q. lower_act (ask_model sv role q)),
      kn_search = (\<lambda>q. lower_act (as_reply (search_knowledge sv q))),
      kn_rewritten = Some (\<lambda>q h. lower_act (as_reply (search_rewritten_knowledge sv q h))),
      kn_reserve = lower_act (reserve_rewrite sv),
      kn_nothing_found = nothing_found, kn_spent = used_up, kn_more = again_mark, kn_background = background, kn_hypothesis = hypothesis\<rparr>)"

text \<open>
  A run of the workflow on the supervisor's state. It always ends (\<open>knowledge_run_ends\<close>), so the first case
  is never taken.
\<close>

definition quality_report :: "'w sup_env \<Rightarrow> string \<Rightarrow> ('w, report) sact" where
  "quality_report sv task s =
     (case knowledge_run (knowledge_of sv) task (sv_question sv) (ss_evidence (fst s), s) of
        None \<Rightarrow> (Inl (OtherError ''RecursionError''), s)
      | Some (res, ks, s') \<Rightarrow> (res, (fst s')\<lparr>ss_evidence := ks_evidence ks, ss_knowledge := ss_knowledge (fst s') @ [ks_event ks]\<rparr>, snd s'))"

section \<open>Delegation\<close>

definition delegations_to :: "string \<Rightarrow> sup_state \<Rightarrow> nat" where
  "delegations_to role s = (case map_of (ss_delegations s) role of None \<Rightarrow> 0 | Some n \<Rightarrow> n)"

definition all_delegations :: "sup_state \<Rightarrow> nat" where
  "all_delegations s = sum_list (map snd (ss_delegations s))"

definition specialist_report :: "'w sup_env \<Rightarrow> string \<Rightarrow> string \<Rightarrow> ('w, report) sact" where
  "specialist_report sv role task =
     (if role = ''rag'' \<and> sv_quality sv then quality_report sv task
      else bind_act (invoke_agent sv (role_has sv role) (specialist_tool sv) (sv_specialist sv role task)) (\<lambda>m.
        lift_result (require_row (read_report m) validation_error)))"

text \<open>What is left of an exception: its code as the delegation reports it, or \<open>None\<close> when it is raised again.\<close>

definition reported_code :: "exn \<Rightarrow> string option" where
  "reported_code x = (case exn_code x of
     Some c \<Rightarrow> if c \<in> set fatal_codes then None else Some c
   | None \<Rightarrow> Some (if x = validation_error \<or> x = OtherError ''TypeError'' then ''INVALID_AGENT_OUTPUT'' else ''AGENT_EXECUTION_FAILED''))"

definition add_agent_event :: "agent_event \<Rightarrow> sup_state \<Rightarrow> sup_state" where
  "add_agent_event ev s = s\<lparr>ss_agent_events := ss_agent_events s @ [ev]\<rparr>"

definition failed_delegation :: "string \<Rightarrow> string \<Rightarrow> tool_reply" where
  "failed_delegation role code = Delegated role ''failed'' (Some code) [] [] [] [] []"

definition evidence_used :: "nat \<Rightarrow> report \<Rightarrow> ('w, unit) sact" where
  "evidence_used tools rep =
     bind_act (ask_sup (\<lambda>s. list_ex (\<lambda>ev. te_status ev \<noteq> ''failed'') (drop tools (ss_tool_events s)))) (\<lambda>some.
     lift_result (raise_if (\<not> some \<and> rp_status rep = ''ok'') invalid_output))"

definition settle_delegation :: "string \<Rightarrow> nat \<Rightarrow> report result \<times> sup_state \<times> 'w \<Rightarrow> tool_reply result \<times> sup_state \<times> 'w" where
  "settle_delegation role failures out = (case out of
     (Inr rep, s, w) \<Rightarrow>
       (let status = (if failures < length (ss_failures s) then ''partial'' else rp_status rep); r = ss_evidence s in
        (Inr (Delegated role status None (rp_summary rep) (eligible_sources r) (eligible_contexts r)
            (sorted_list_of_set (ev_warnings r)) (drop failures (ss_failures s))),
         add_agent_event \<lparr>ae_agent = role, ae_status = status, ae_error = None\<rparr> s, w))
   | (Inl x, s, w) \<Rightarrow> (case reported_code x of
       None \<Rightarrow> (Inl x, add_agent_event \<lparr>ae_agent = role, ae_status = ''failed'', ae_error = exn_code x\<rparr> s, w)
     | Some c \<Rightarrow> (Inr (failed_delegation role c),
         add_agent_event \<lparr>ae_agent = role, ae_status = ''failed'', ae_error = Some c\<rparr> (add_failure role c s), w)))"

definition delegate :: "'w sup_env \<Rightarrow> string \<Rightarrow> string \<Rightarrow> ('w, tool_reply) sact" where
  "delegate sv role task =
     bind_act (remaining sv) (\<lambda>_.
     bind_act (ask_sup (\<lambda>s. s)) (\<lambda>s.
     bind_act (lift_result (raise_if (sv_max_delegations sv \<le> all_delegations s \<or> sv_max_per_agent sv \<le> delegations_to role s) limit_exceeded)) (\<lambda>_.
     bind_act (lift_result (raise_if (strip task = [] \<or> 4000 < length task) tool_not_allowed)) (\<lambda>_.
     bind_act (update_sup (\<lambda>s. s\<lparr>ss_delegations := AList.update role (delegations_to role s + 1) (ss_delegations s)\<rparr>)) (\<lambda>_.
     (\<lambda>st. settle_delegation role (length (ss_failures s))
        (bind_act (specialist_report sv role task) (\<lambda>rep.
         bind_act (evidence_used (length (ss_tool_events s)) rep) (\<lambda>_. ret rep)) st)))))))"

section \<open>The supervisor's other tools\<close>

definition execution_of :: "'w sup_env \<Rightarrow> execution option" where
  "execution_of sv = rx_execution (sv_context sv)"

definition catalog_tool :: "'w sup_env \<Rightarrow> string \<Rightarrow> registered_tool option" where
  "catalog_tool sv name = (case execution_of sv of None \<Rightarrow> None | Some x \<Rightarrow> tool_of (x_catalog x) name)"

definition execute_http :: "'w sup_env \<Rightarrow> string \<Rightarrow> registered_tool \<Rightarrow> json \<Rightarrow> ('w, tool_value) sact" where
  "execute_http sv name tool arguments =
     bind_act (outside (case sv_http sv of None \<Rightarrow> (\<lambda>w. (Inl tool_not_allowed, w)) | Some f \<Rightarrow> f name arguments)) (\<lambda>(data, now).
     bind_act (on_evidence (add_tool (sv_evidence sv) name (rt_version tool) data now)) (\<lambda>g. ret (Gathered g)))"

definition tool_sources :: "string \<Rightarrow> evidence \<Rightarrow> source list" where
  "tool_sources name r = filter (\<lambda>s. so_type s = ''tool'' \<and> map_option fst (so_tool s) = Some name) (eligible_sources r)"

text \<open>
  \<open>invoke_public_tool\<close>: an agent that sees nothing but the frozen public input chooses the arguments. A
  \<open>ValueError\<close> or \<open>TypeError\<close> of the block is a failed delegation; other exceptions pass.
\<close>

definition public_input :: "'w sup_env \<Rightarrow> string \<Rightarrow> 'w \<Rightarrow> string \<times> 'w" where
  "public_input sv query w = (case sv_checkpoint sv of
     None \<Rightarrow> (query, w)
   | Some cp \<Rightarrow> (case sv_public_again sv w of (again, w') \<Rightarrow> (case again of None \<Rightarrow> query | Some q \<Rightarrow> q, w')))"

definition public_report :: "'w sup_env \<Rightarrow> string \<Rightarrow> registered_tool \<Rightarrow> string \<Rightarrow> ('w, report \<times> source list) sact" where
  "public_report sv name tool query =
     bind_act (ask_sup (\<lambda>s. length (ss_tool_events s))) (\<lambda>n.
     bind_act (outside (\<lambda>w. case public_input sv query w of (q, w') \<Rightarrow> (Inr q, w'))) (\<lambda>q.
     bind_act (invoke_agent sv (\<lambda>_. True)
       (\<lambda>arguments. instrument sv name (Some name) (JObj [(''arguments'', arguments)]) (ht_idempotent (rt_decl tool)) (execute_http sv name tool arguments))
       (sv_public_agent sv name q)) (\<lambda>m.
     bind_act (lift_result (require_row (read_report m) validation_error)) (\<lambda>rep.
     bind_act (ask_sup (\<lambda>s. (tool_sources name (ss_evidence s),
         list_ex (\<lambda>ev. te_name ev = name \<and> te_status ev \<noteq> ''failed'') (drop n (ss_tool_events s))))) (\<lambda>(sources, called).
     bind_act (lift_result (raise_if (rp_status rep = ''ok'' \<and> (sources = [] \<or> \<not> called)) invalid_output)) (\<lambda>_.
     ret (rep, sources)))))))"

definition public_error :: "exn \<Rightarrow> string option" where
  "public_error x = (case exn_code x of
     Some c \<Rightarrow> if c \<in> set fatal_codes then None else Some c
   | None \<Rightarrow> if x \<in> {validation_error, value_error, OtherError ''TypeError''} then Some ''INVALID_AGENT_OUTPUT'' else None)"

definition settle_public :: "string \<Rightarrow> (report \<times> source list) result \<times> sup_state \<times> 'w \<Rightarrow> tool_reply result \<times> sup_state \<times> 'w" where
  "settle_public name out = (case out of
     (Inr (rep, sources), s, w) \<Rightarrow> (Inr (Delegated ''public-tool'' (rp_status rep) None (rp_summary rep) sources [] [] []),
        add_agent_event \<lparr>ae_agent = ''public-tool'', ae_status = rp_status rep, ae_error = None\<rparr> s, w)
   | (Inl x, s, w) \<Rightarrow> (case public_error x of
       None \<Rightarrow> (Inl x, add_agent_event \<lparr>ae_agent = ''public-tool'',
          ae_status = (if exn_code x = None then ''running'' else ''failed''), ae_error = exn_code x\<rparr> s, w)
     | Some c \<Rightarrow> (Inr (failed_delegation ''public-tool'' c),
          add_agent_event \<lparr>ae_agent = ''public-tool'', ae_status = ''failed'', ae_error = Some c\<rparr> (add_failure name c s), w)))"

definition invoke_public_tool :: "'w sup_env \<Rightarrow> string \<Rightarrow> ('w, tool_reply) sact" where
  "invoke_public_tool sv name =
     (case (execution_of sv, sv_http sv, sv_public_query sv) of
        (Some x, Some f, Some (c # cs)) \<Rightarrow>
          bind_act (outside (sv_validate sv (Some name))) (\<lambda>_.
          case catalog_tool sv name of
            None \<Rightarrow> raising tool_not_allowed
          | Some tool \<Rightarrow> (\<lambda>st. settle_public name (public_report sv name tool (c # cs) st)))
      | _ \<Rightarrow> raising tool_not_allowed)"

text \<open>\<open>search_tools\<close>: the tools and skills whose text contains the query, in any case.\<close>

definition contains_folded :: "string \<Rightarrow> string \<Rightarrow> bool" where
  "contains_folded query t = substring (map lower query) (map lower t)"

fun matching_tools :: "'w sup_env \<Rightarrow> execution \<Rightarrow> (string \<Rightarrow> string \<times> string \<times> json) \<Rightarrow> string \<Rightarrow> string list \<Rightarrow> ('w, json list) sact" where
  "matching_tools sv x builtin query [] = ret []"
| "matching_tools sv x builtin query (name # names) =
     (let (description, grp, metadata) = (case tool_of (x_catalog x) name of
            Some t \<Rightarrow> (ht_description (rt_decl t), ht_group (rt_decl t),
              JObj [(''name'', JStr name), (''version'', JInt (rt_version t)), (''description'', JStr (ht_description (rt_decl t))),
                (''group'', JStr (ht_group (rt_decl t))), (''input_schema'', JObj (ht_schema (rt_decl t)))])
          | None \<Rightarrow> builtin name)
      in if contains_folded query (name @ '' '' @ description @ '' '' @ grp)
         then bind_act (outside (sv_validate sv (Some name))) (\<lambda>_.
              bind_act (matching_tools sv x builtin query names) (\<lambda>ms. ret (metadata # ms)))
         else matching_tools sv x builtin query names)"

fun matching_skills :: "'w sup_env \<Rightarrow> execution \<Rightarrow> string \<Rightarrow> (string \<times> registered_skill) list \<Rightarrow> ('w, json list) sact" where
  "matching_skills sv x query [] = ret []"
| "matching_skills sv x query ((name, item) # items) =
     (if x_skill x \<noteq> None \<and> x_skill x \<noteq> Some name \<or> \<not> contains_folded query (name @ '' '' @ sk_description (rs_decl item))
      then matching_skills sv x query items
      else bind_act (except_act (bind_act (outside (sv_skill sv name)) (\<lambda>d. ret [d]))
             (\<lambda>e. if exn_status e = Some 403 then ret [] else raising e)) (\<lambda>ds.
           bind_act (matching_skills sv x query items) (\<lambda>rest. ret (ds @ rest))))"

definition search_tools_body :: "'w sup_env \<Rightarrow> (string \<Rightarrow> string \<times> string \<times> json) \<Rightarrow> string \<Rightarrow> int \<Rightarrow> ('w, tool_value) sact" where
  "search_tools_body sv builtin query limit = (case execution_of sv of
     None \<Rightarrow> raising (AppError ''TOOL_NOT_ALLOWED'' 422)
   | Some x \<Rightarrow>
       if limit < 1 \<or> 8 < limit \<or> query = [] \<or> 240 < length query then raising (AppError ''TOOL_NOT_ALLOWED'' 422)
       else bind_act (matching_tools sv x builtin query (x_allowed x)) (\<lambda>tools.
         bind_act (matching_skills sv x query (c_skills (x_catalog x))) (\<lambda>skills.
         ret (Answered (JObj [(''status'', JStr ''ok''), (''tools'', JArr (take (nat limit) tools)), (''skills'', JArr (take (nat limit) skills))])))))"

text \<open>\<open>execute_sandbox\<close>; the validators of \<open>SandboxRequest\<close> (\<open>app/entity/bo/sandbox.py\<close>).\<close>

definition sandbox_request_ok :: "string \<Rightarrow> string \<Rightarrow> bool" where
  "sandbox_request_ok language src = (language \<in> {''python'', ''sh''} \<and> 1 \<le> length src \<and> length src \<le> 65536 \<and>
     strip src \<noteq> [] \<and> CHR 0x00 \<notin> set src \<and> utf8_len src \<le> 65536)"

definition sandbox_version :: "'w sup_env \<Rightarrow> int option" where
  "sandbox_version sv = (case execution_of sv of
     None \<Rightarrow> None | Some x \<Rightarrow> if SANDBOX_TOOL \<in> set (x_allowed x) then map_option fst (c_sandbox (x_catalog x)) else None)"

definition sandbox_body :: "'w sup_env \<Rightarrow> string \<Rightarrow> string \<Rightarrow> ('w, tool_value) sact" where
  "sandbox_body sv language src = (case (sandbox_version sv, sv_sandbox sv, sv_checkpoint sv) of
     (Some version, Some f, Some cp) \<Rightarrow>
       if \<not> sandbox_request_ok language src then raising (AppError ''SANDBOX_INVALID_REQUEST'' 422)
       else bind_act (outside (f language src)) (\<lambda>(success, code, result, now).
         if \<not> success then raising (AppError code 502)
         else bind_act (on_evidence (add_tool (sv_evidence sv) SANDBOX_TOOL version result now)) (\<lambda>g. ret (Gathered g)))
   | _ \<Rightarrow> raising tool_not_allowed)"

definition save_memory_body :: "'w sup_env \<Rightarrow> string \<Rightarrow> ('w, tool_value) sact" where
  "save_memory_body sv content =
     bind_act (outside (sv_remember sv content)) (\<lambda>mid.
     ret (Answered (JObj [(''status'', JStr ''saved''), (''memory_id'', JStr (uuid_str mid))])))"

definition scope_of :: "'w sup_env \<Rightarrow> string \<Rightarrow> string option" where
  "scope_of sv name = (if catalog_tool sv name \<noteq> None \<or> name = SANDBOX_TOOL then Some name else None)"

fun supervisor_tool :: "'w sup_env \<Rightarrow> (string \<Rightarrow> string \<times> string \<times> json) \<Rightarrow> sup_call \<Rightarrow> ('w, tool_reply) sact" where
  "supervisor_tool sv builtin (Delegate role task) = delegate sv role task"
| "supervisor_tool sv builtin (Public_tool name) = invoke_public_tool sv name"
| "supervisor_tool sv builtin (Search_tools query limit) =
     instrument sv ''search_tools'' (scope_of sv ''search_tools'') (JObj [(''query'', JStr query), (''limit'', JInt limit)]) True
       (search_tools_body sv builtin query limit)"
| "supervisor_tool sv builtin (Describe_skill name) =
     instrument sv ''describe_skill'' (scope_of sv ''describe_skill'') (one_arg ''name'' name) True
       (bind_act (outside (sv_skill sv name)) (\<lambda>d. ret (Answered d)))"
| "supervisor_tool sv builtin (Run_sandbox language src) =
     instrument sv SANDBOX_TOOL (Some SANDBOX_TOOL) (JObj [(''language'', JStr language), (''source'', JStr src)]) False
       (sandbox_body sv language src)"
| "supervisor_tool sv builtin (Save_memory content) =
     instrument sv ''save_memory'' (scope_of sv ''save_memory'') (one_arg ''content'' content) False (save_memory_body sv content)"

text \<open>The tools of the supervisor, by the mode of the question and the frozen scope. \<open>remembers\<close> says whether the question asks to remember something.\<close>

definition allowed_name :: "'w sup_env \<Rightarrow> string \<Rightarrow> bool" where
  "allowed_name sv name = (case execution_of sv of None \<Rightarrow> True | Some x \<Rightarrow> name \<in> set (x_allowed x))"

fun supervisor_has :: "'w sup_env \<Rightarrow> bool \<Rightarrow> sup_call \<Rightarrow> bool" where
  "supervisor_has sv remembers (Delegate role task) =
     (let mode = rx_mode (sv_context sv) in
      role = ''rag'' \<and> mode \<in> {Knowledge, Auto} \<and> allowed_name sv ''delegate_rag'' \<or>
      role = ''sql'' \<and> mode \<in> {Sql, Auto} \<and> allowed_name sv ''delegate_sql'' \<or>
      role = ''web'' \<and> mode \<in> {Web, Auto} \<and> (sv_web_enabled sv \<or> sv_web_urls sv \<noteq> []) \<and> allowed_name sv ''delegate_web'')"
| "supervisor_has sv remembers (Public_tool name) = (case execution_of sv of
     None \<Rightarrow> False | Some x \<Rightarrow> list_ex (\<lambda>n. tool_of (x_catalog x) n \<noteq> None) (x_allowed x))"
| "supervisor_has sv remembers (Search_tools query limit) = has_execution sv"
| "supervisor_has sv remembers (Describe_skill name) = has_execution sv"
| "supervisor_has sv remembers (Run_sandbox language src) = (sandbox_version sv \<noteq> None)"
| "supervisor_has sv remembers (Save_memory content) =
     (remembers \<and> (case execution_of sv of None \<Rightarrow> True | Some x \<Rightarrow> x_skill x = None))"

section \<open>The final answer\<close>

record final_answer =
  fa_kind :: string
  fa_answer :: string

definition read_final :: "model_message \<Rightarrow> final_answer option" where
  "read_final m = (case mm_content m of
     Some (JObj d) \<Rightarrow> if \<not> only_fields [''kind'', ''answer''] d then None
       else (case (dict_get d ''kind'', str_field 1 16000 (dict_get d ''answer'')) of
         (Some (JStr k), Some a) \<Rightarrow>
           if mm_tool_calls m \<or> k \<notin> {''grounded'', ''smalltalk'', ''clarification'', ''insufficient''} then None
           else Some \<lparr>fa_kind = k, fa_answer = a\<rparr>
       | _ \<Rightarrow> None)
   | _ \<Rightarrow> None)"

fun mode_name :: "search_mode \<Rightarrow> string" where
  "mode_name Knowledge = ''knowledge''"
| "mode_name Web = ''web''"
| "mode_name Sql = ''sql''"
| "mode_name Auto = ''auto''"

definition parse_final :: "'w sup_env \<Rightarrow> sup_state \<Rightarrow> model_message \<Rightarrow> (final_answer \<times> entry list) result" where
  "parse_final sv s m =
     and_then (require_row (read_final m) invalid_output) (\<lambda>v.
     and_then (raise_if (ss_knowledge s \<noteq> [] \<and> list_all (\<lambda>x. so_type x = ''memory'') (eligible_sources (ss_evidence s)) \<and>
         fa_kind v \<notin> {''insufficient'', ''clarification''}) invalid_citation) (\<lambda>_.
     and_then (check_citations (fa_kind v) (fa_answer v) (mode_name (rx_mode (sv_context sv))) (ss_evidence s)) (\<lambda>cs.
     Inr (v, cs))))"

text \<open>One repair, and only of an invalid output or citation.\<close>

definition repairable :: "exn \<Rightarrow> bool" where
  "repairable x = (exn_code x \<in> {Some ''INVALID_AGENT_OUTPUT'', Some ''INVALID_CITATION''})"

definition accept_final :: "'w sup_env \<Rightarrow> model_message \<Rightarrow> ('w, (final_answer \<times> entry list) \<times> bool) sact" where
  "accept_final sv m =
     bind_act (ask_sup (\<lambda>s. s)) (\<lambda>s.
     case parse_final sv s m of
       Inr a \<Rightarrow> bind_act (remaining sv) (\<lambda>_. ret (a, False))
     | Inl x \<Rightarrow>
         if \<not> repairable x then raising x
         else bind_act (outside (sv_repair sv (eligible_sources (ss_evidence s)) (eligible_contexts (ss_evidence s)) (ss_knowledge s) (ss_failures s))) (\<lambda>m'.
           bind_act (ask_sup (\<lambda>s. parse_final sv s m')) (\<lambda>r.
           bind_act (lift_result r) (\<lambda>a.
           bind_act (remaining sv) (\<lambda>_. ret (a, True))))))"

text \<open>The memories of the question are registered first, then the supervisor runs and its answer is accepted.\<close>

definition start_state :: "'w sup_env \<Rightarrow> int \<Rightarrow> sup_state" where
  "start_state sv budget = \<lparr>ss_evidence = new_evidence (evidence_token_budget budget),
     ss_counters = \<lparr>ct_tools = 0, ct_searches = 0, ct_web = 0, ct_reads = 0, ct_sql = 0, ct_rewrites = 0\<rparr>, ss_delegations = [],
     ss_tool_events = [], ss_agent_events = [], ss_failures = [], ss_knowledge = [], ss_web_cache = None, ss_page_cache = [],
     ss_credits = None, ss_schema_seen = False\<rparr>"

text \<open>The memories of the question are found before the supervisor runs; the checkpoint keeps them with the state.\<close>

definition find_memories :: "'w sup_env \<Rightarrow> ('w, memory_item list \<times> string list) wact \<Rightarrow> ('w, gathered) sact" where
  "find_memories sv f =
     bind_act (outside f) (\<lambda>(ms, warnings).
     bind_act (update_sup (\<lambda>s. s\<lparr>ss_evidence := (ss_evidence s)\<lparr>ev_warnings := ev_warnings (ss_evidence s) \<union> set warnings\<rparr>\<rparr>)) (\<lambda>_.
     on_evidence (\<lambda>r. case add_memories (sv_evidence sv) ms r of (g, r') \<Rightarrow> (Inr g, r'))))"

definition save_memories :: "'w sup_env \<Rightarrow> ('w, memory_item list \<times> string list) wact \<Rightarrow> ('w, saved_call) sact" where
  "save_memories sv f =
     bind_act (find_memories sv f) (\<lambda>g.
     bind_act (ask_sup body_state) (\<lambda>b. ret \<lparr>sc_value = Some (Gathered g), sc_error = None, sc_body = b\<rparr>))"

definition saved_sources :: "saved_call \<Rightarrow> source list" where
  "saved_sources saved = (case sc_value saved of Some (Gathered g) \<Rightarrow> ga_sources g | _ \<Rightarrow> [])"

definition recall :: "'w sup_env \<Rightarrow> ('w, memory_item list \<times> string list) wact option \<Rightarrow> ('w, source list) sact" where
  "recall sv memories = (case memories of
     None \<Rightarrow> ret []
   | Some f \<Rightarrow> (case sv_checkpoint sv of
       None \<Rightarrow> bind_act (find_memories sv f) (\<lambda>g. ret (ga_sources g))
     | Some cp \<Rightarrow>
         bind_act (checkpoint_call cp ''memory_search'' (JObj []) True (save_memories sv f)) (\<lambda>saved.
         bind_act (restore_body (sc_body saved)) (\<lambda>_. ret (saved_sources saved)))))"

definition run_supervisor ::
    "'w sup_env \<Rightarrow> (string \<Rightarrow> string \<times> string \<times> json) \<Rightarrow> bool \<Rightarrow> ('w, memory_item list \<times> string list) wact option \<Rightarrow>
     ('w, (final_answer \<times> entry list) \<times> bool) sact" where
  "run_supervisor sv builtin remembers memories =
     bind_act (recall sv memories) (\<lambda>sources.
     bind_act (invoke_agent sv (supervisor_has sv remembers) (supervisor_tool sv builtin) (sv_supervisor sv sources)) (\<lambda>m.
     accept_final sv m))"

end
