(* ===== verification/KnowledgeProperties.thy ===== *)
theory KnowledgeProperties
  imports Knowledge
begin

text \<open>
  The knowledge workflow ends, after at most four calls of models and three searches; what it makes eligible
  is exactly what its last grade supports, and it never revokes what was eligible before it.
\<close>

section \<open>Costs\<close>

text \<open>An action that adds at most \<open>n\<close> to a measure of the world.\<close>

definition costs :: "('w \<Rightarrow> nat) \<Rightarrow> nat \<Rightarrow> ('s, 'w, 'a) action \<Rightarrow> bool" where
  "costs f n m \<longleftrightarrow> (\<forall>s. f (snd (snd (m s))) \<le> f (snd s) + n)"

lemma costsD: "costs f n m \<Longrightarrow> m s = (res, t) \<Longrightarrow> f (snd t) \<le> f (snd s) + n"
  by (metis costs_def snd_conv)

lemma costs_mono: "costs f n m \<Longrightarrow> n \<le> k \<Longrightarrow> costs f k m"
  unfolding costs_def by (meson add_left_mono le_trans)

lemma costs_bind:
  assumes "costs f n m" "\<And>a. costs f k (g a)"
  shows "costs f (n + k) (bind_act m g)"
  unfolding costs_def
proof
  fix s
  obtain res t where m: "m s = (res, t)" by (cases "m s")
  have c: "f (snd t) \<le> f (snd s) + n" by (rule costsD [OF assms(1) m])
  show "f (snd (snd (bind_act m g s))) \<le> f (snd s) + (n + k)"
  proof (cases res)
    case (Inr a)
    have "f (snd (snd (g a t))) \<le> f (snd t) + k" using assms(2) unfolding costs_def by blast
    then show ?thesis using c by (simp add: bind_act_def m Inr)
  qed (use c in \<open>simp add: bind_act_def m\<close>)
qed

lemma costs_pure:
  "costs f 0 (ret a)" "costs f 0 (raising x)" "costs f 0 (lift_result v)" "costs f 0 (modify u)" "costs f 0 (set_event v')"
  "costs f 0 (inspect q)"
  by (simp_all add: costs_def ret_def raising_def lift_result_def modify_def set_event_def inspect_def)

lemma costs_with_evidence: "costs f n m \<Longrightarrow> costs f n (with_evidence m)"
  by (auto simp: costs_def with_evidence_def split: prod.splits) (metis snd_conv)

lemma costs_step: "costs f 0 m \<Longrightarrow> (\<And>a. costs f k (g a)) \<Longrightarrow> costs f k (bind_act m g)"
  using costs_bind [of f 0 m k g] by simp

lemma costs_last: "costs f k m \<Longrightarrow> (\<And>a. costs f 0 (g a)) \<Longrightarrow> costs f k (bind_act m g)"
  using costs_bind [of f k m 0 g] by simp

lemma costs_finish: "costs f 0 (finish status summary)"
  unfolding finish_def by (intro costs_step costs_pure)

text \<open>What the calls of a workflow cost.\<close>

definition priced :: "('w \<Rightarrow> nat) \<Rightarrow> nat \<Rightarrow> nat \<Rightarrow> nat \<Rightarrow> 'w knowledge_env \<Rightarrow> bool" where
  "priced f ca cs cr kn \<longleftrightarrow> (\<forall>role q. costs f ca (kn_ask kn role q)) \<and> (\<forall>q. costs f cs (kn_search kn q)) \<and>
     (\<forall>g q h. kn_rewritten kn = Some g \<longrightarrow> costs f cs (g q h)) \<and> costs f cr (kn_reserve kn)"

lemma pricedD:
  assumes "priced f ca cs cr kn"
  shows "costs f ca (kn_ask kn role q)" "costs f cs (kn_search kn query)" "costs f cr (kn_reserve kn)"
    "kn_rewritten kn = Some g \<Longrightarrow> costs f cs (g query hint)"
  using assms unfolding priced_def by blast+

lemma costs_structured: "priced f ca cs cr kn \<Longrightarrow> costs f ca (structured kn role q read code)"
  unfolding structured_def by (intro costs_last costs_with_evidence pricedD(1) costs_pure)

lemma costs_retrieve:
  assumes "priced f ca cs cr kn"
  shows "costs f cs (retrieve_more kn previous query hint)"
proof -
  have m: "costs f cs (case (hint, kn_rewritten kn) of (Some h, Some g) \<Rightarrow> g query h | (Some h, None) \<Rightarrow> raising (OtherError ''TypeError'')
      | (None, _) \<Rightarrow> kn_search kn query)"
    using pricedD [OF assms] costs_mono [OF costs_pure(2)] by (auto split: option.splits)
  show ?thesis
    unfolding retrieve_more_def
    by (intro costs_last [OF costs_with_evidence [OF m]] costs_step costs_pure) (auto split: search_reply.split intro: costs_pure)
qed

lemma costs_retrieve_each: "priced f ca cs cr kn \<Longrightarrow> costs f (length qs * cs) (retrieve_each kn previous qs)"
proof (induction qs)
  case (Cons q qs)
  have "costs f (cs + length qs * cs) (retrieve_each kn previous (q # qs))"
    unfolding retrieve_each.simps by (intro costs_bind costs_retrieve [OF Cons.prems] Cons.IH [OF Cons.prems])
  then show ?case by simp
qed (simp add: costs_pure)

lemma costs_search_again:
  assumes "priced f ca cs cr kn"
  shows "costs f (ca + cs) (search_again kn previous task question g query)"
proof (cases "kg_method g = ''standard''")
  case True
  have "costs f cs (search_again kn previous task question g query)"
    unfolding search_again_def if_P [OF True]
    by (intro costs_step costs_last costs_retrieve [OF assms] costs_pure)
  then show ?thesis by (rule costs_mono) simp
next
  case False
  show ?thesis
    unfolding search_again_def if_not_P [OF False] Let_def
    by (intro costs_bind costs_structured [OF assms] costs_step costs_last costs_retrieve [OF assms] costs_pure)
qed

text \<open>\<open>rewrite_once\<close> once the rewrite has been used, and when it has not.\<close>

lemma rewrite_once_used:
  assumes "kv_rewrites (ks_event (fst s)) \<noteq> 0" "rewrite_once kn previous task question p g s = (res, t)"
  shows "snd t = snd s \<and> res \<noteq> Inr Again"
proof -
  let ?bad = "strip (kg_query g) = [] \<or> strip (kg_query g) \<in> set (kp_queries p)"
  show ?thesis
  proof (cases ?bad)
    case True
    then show ?thesis using assms(2) by (auto simp: rewrite_once_def Let_def bind_act_def lift_result_def raise_if_def)
  next
    case False
    then show ?thesis
      using assms by (auto simp: rewrite_once_def Let_def bind_act_def lift_result_def raise_if_def inspect_def ret_def finish_def
          set_event_def modify_def spend_rewrite_def)
  qed
qed

lemma costs_rewrite_once:
  assumes "priced f ca cs cr kn"
  shows "costs f (ca + cs + cr) (rewrite_once kn previous task question p g)"
proof -
  have reserve: "costs f cr (if used \<noteq> 0 then ret (Some c) else with_evidence (kn_reserve kn))" for used :: nat and c
    by (auto intro: costs_mono [OF costs_pure(1)] costs_with_evidence pricedD(3) [OF assms])
  have rest: "costs f (ca + cs) (spend_rewrite kn previous task question g query reason)" for reason query
  proof -
    have "costs f (ca + cs) (bind_act (modify (\<lambda>s. s\<lparr>ks_evidence := (ks_evidence s)\<lparr>ev_warnings := insert c (ev_warnings (ks_evidence s))\<rparr>\<rparr>)) (\<lambda>_.
          bind_act (set_event (\<lambda>v. v\<lparr>kv_error := Some c\<rparr>)) (\<lambda>_. finish ''empty'' (kn_spent kn))))" for c
      by (rule costs_mono [of f 0]) (intro costs_step costs_pure costs_finish, simp)
    moreover have "costs f (ca + cs) (bind_act (set_event (\<lambda>v. v\<lparr>kv_rewrites := kv_rewrites v + 1\<rparr>)) (\<lambda>_.
          search_again kn previous task question g query))"
      by (intro costs_step costs_pure costs_search_again [OF assms])
    ultimately show ?thesis by (simp add: spend_rewrite_def split: option.split list.split)
  qed
  have "costs f (cr + (ca + cs)) (rewrite_once kn previous task question p g)"
    unfolding rewrite_once_def Let_def by (rule costs_step [OF costs_pure(3) costs_step [OF costs_pure(6) costs_bind [OF reserve rest]]])
  then show ?thesis by (simp add: add.commute add.left_commute)
qed

lemma costs_approve: "costs f 0 (approve g)"
  unfolding approve_def by (intro costs_step costs_pure costs_finish)

text \<open>A round costs one grade; when it asks for another round, also a rewrite and a search.\<close>

lemma costs_round:
  assumes "priced f ca cs cr kn"
  shows "costs f (ca + (ca + cs + cr)) (grade_round kn previous task question p)"
proof -
  have up: "costs f (ca + cs + cr) m" if "costs f 0 m" for m :: "('a, round) kact"
    by (rule costs_mono [OF that]) simp
  have up': "costs f (ca + (ca + cs + cr)) m" if "costs f 0 m" for m :: "('a, round) kact"
    by (rule costs_mono [OF that]) simp
  have branch: "costs f (ca + cs + cr) (if route = ''answer'' then approve g
       else bind_act (lift_result (raise_if (summary_cites g \<noteq> {}) grade_invalid)) (\<lambda>_.
         if route = ''clarify'' then finish ''clarification'' (kg_summary g)
         else if route \<noteq> ''rewrite'' then finish ''empty'' (kg_summary g)
         else rewrite_once kn previous task question p g))" for route g
    using up [OF costs_approve] up [OF costs_finish] costs_rewrite_once [OF assms] by (auto intro!: costs_step costs_pure)
  show ?thesis
    unfolding grade_round_def Let_def
    using up' [OF costs_finish] branch
    by (auto intro!: costs_step [OF costs_pure(6)] costs_bind [OF costs_structured [OF assms]] costs_step [OF costs_pure(3)] costs_step [OF costs_pure(5)])
qed

text \<open>What a call leaves alone.\<close>

lemma with_evidence_locals:
  "with_evidence m s = (res, t) \<Longrightarrow> ks_event (fst t) = ks_event (fst s) \<and> ks_numbers (fst t) = ks_numbers (fst s) \<and> ks_approved (fst t) = ks_approved (fst s)"
  by (auto simp: with_evidence_def split: prod.splits)

lemma structured_locals:
  assumes "structured kn role q read code s = (res, t)"
  shows "ks_event (fst t) = ks_event (fst s) \<and> ks_numbers (fst t) = ks_numbers (fst s) \<and> ks_approved (fst t) = ks_approved (fst s)"
proof -
  obtain m u where "with_evidence (kn_ask kn role q) s = (m, u)" by (cases "with_evidence (kn_ask kn role q) s")
  then show ?thesis using assms with_evidence_locals [of "kn_ask kn role q" s m u]
    by (auto simp: structured_def bind_act_def lift_result_def split: sum.splits)
qed

lemma approve_outcome: "approve g s = (res, t) \<Longrightarrow> snd t = snd s \<and> res \<noteq> Inr Again"
  by (auto simp: approve_def bind_act_def lift_result_def raise_if_def modify_def finish_def set_event_def ret_def Let_def split: if_splits)

lemma finish_outcome: "finish status summary s = (res, t) \<Longrightarrow> snd t = snd s \<and> res \<noteq> Inr Again"
  by (auto simp: bind_act_def modify_def finish_def set_event_def ret_def)

lemma used_round:
  assumes "priced f ca cs cr kn" "kv_rewrites (ks_event (fst s)) \<noteq> 0" "grade_round kn previous task question p s = (res, t)"
  shows "f (snd t) \<le> f (snd s) + ca \<and> res \<noteq> Inr Again"
proof (cases "ks_numbers (fst s) = {}")
  case True
  then have "finish ''empty'' (kn_nothing_found kn) s = (res, t)"
    using assms(3) by (simp add: grade_round_def bind_act_def inspect_def)
  then show ?thesis using finish_outcome by fastforce
next
  case False
  let ?q = "Grade_question task question (kp_queries p) (kv_rewrites (ks_event (fst s)) \<noteq> 0)
      (map (\<lambda>n. the (map_of (ev_sources (ks_evidence (fst s))) n)) (sorted_list_of_set (ks_numbers (fst s))))"
  let ?ask = "structured kn ''rag_grader'' ?q read_grade ''RAG_GRADE_INVALID''"
  obtain m u where ask: "?ask s = (m, u)" by (cases "?ask s")
  have c: "f (snd u) \<le> f (snd s) + ca" by (rule costsD [OF costs_structured [OF assms(1)] ask])
  have ev: "kv_rewrites (ks_event (fst u)) \<noteq> 0" using structured_locals [OF ask] assms(2) by simp
  show ?thesis
  proof (cases m)
    case (Inl x)
    then show ?thesis using assms(3) False ask c by (auto simp: grade_round_def bind_act_def inspect_def Let_def)
  next
    case (Inr g)
    let ?u = "((fst u)\<lparr>ks_event := (ks_event (fst u))\<lparr>kv_grades := kv_grades (ks_event (fst u)) @ [g]\<rparr>\<rparr>, snd u)"
    consider "res \<noteq> Inr Again" "snd t = snd u" | "approve g ?u = (res, t)" | status summary where "finish status summary ?u = (res, t)"
      | "rewrite_once kn previous task question p g ?u = (res, t)"
      using assms(3) False ask
      by (auto simp: grade_round_def bind_act_def inspect_def Let_def Inr lift_result_def raise_if_def set_event_def modify_def split: if_splits)
    then show ?thesis
    proof cases
      case 2
      then show ?thesis using approve_outcome [OF 2] c by simp
    next
      case 3
      then show ?thesis using finish_outcome [OF 3] c by simp
    next
      case 4
      then show ?thesis using rewrite_once_used [OF _ 4] ev c by simp
    qed (use c in simp)
  qed
qed

text \<open>A round that asks for another one has used the rewrite.\<close>

definition same_rewrites :: "knowledge_state \<Rightarrow> knowledge_state \<Rightarrow> bool" where
  "same_rewrites s t \<longleftrightarrow> kv_rewrites (ks_event t) = kv_rewrites (ks_event s)"

lemma same_rewrites_rules:
  "transp same_rewrites" "reflp same_rewrites"
  "act_keeps same_rewrites (with_evidence m)"
  by (auto simp: same_rewrites_def transp_def reflp_def act_keeps_def with_evidence_def split: prod.splits)

lemma structured_same_rewrites: "act_keeps same_rewrites (structured kn role q read code)"
  unfolding act_keeps_def same_rewrites_def
proof
  fix s
  obtain res t where "structured kn role q read code s = (res, t)" by (cases "structured kn role q read code s")
  then show "kv_rewrites (ks_event (fst (snd (structured kn role q read code s)))) = kv_rewrites (ks_event (fst s))"
    using structured_locals by fastforce
qed

lemma same_rewrites_modify:
  "(\<And>s. same_rewrites s (u s)) \<Longrightarrow> act_keeps same_rewrites (modify u)"
  "(\<And>v. kv_rewrites (h v) = kv_rewrites v) \<Longrightarrow> act_keeps same_rewrites (set_event h)"
  by (auto simp: act_keeps_def modify_def set_event_def same_rewrites_def)

lemma act_keeps_inspect: "reflp R \<Longrightarrow> act_keeps R (inspect q)"
  by (simp add: act_keeps_def inspect_def reflpD)

lemmas same_rewrites_step = act_keeps_bind [OF same_rewrites_rules(1)]
lemmas same_rewrites_pure = act_keeps_value [OF same_rewrites_rules(2)]

lemma retrieve_same_rewrites: "act_keeps same_rewrites (retrieve_more kn previous query hint)"
  unfolding retrieve_more_def
  by (intro same_rewrites_step same_rewrites_rules same_rewrites_modify)
    (auto simp: same_rewrites_def exclude_def split: search_reply.split intro: same_rewrites_pure)

lemma search_again_same_rewrites: "act_keeps same_rewrites (search_again kn previous task question g query)"
  unfolding search_again_def Let_def
  by (auto intro!: same_rewrites_step structured_same_rewrites same_rewrites_pure retrieve_same_rewrites same_rewrites_modify(2))

lemma kact_eqs [act_simps]:
  "modify u s = (res, t) \<longleftrightarrow> res = Inr () \<and> t = (u (fst s), snd s)"
  "set_event h s = (res, t) \<longleftrightarrow> res = Inr () \<and> t = ((fst s)\<lparr>ks_event := h (ks_event (fst s))\<rparr>, snd s)"
  "inspect q s = (res', t) \<longleftrightarrow> res' = Inr (q (fst s)) \<and> t = s"
  by (auto simp: modify_def set_event_def inspect_def)

lemma not_again: "finish status summary s \<noteq> (Inr Again, t)" "approve g s \<noteq> (Inr Again, t)"
  using finish_outcome approve_outcome by blast+

lemma again_used:
  assumes "grade_round kn previous task question p s = (Inr Again, t)"
  shows "kv_rewrites (ks_event (fst t)) \<noteq> 0"
proof -
  obtain g u where "rewrite_once kn previous task question p g u = (Inr Again, t)"
    using assms by (auto simp: grade_round_def Let_def act_simps not_again split: if_splits)
  then obtain reason v where v: "spend_rewrite kn previous task question g (strip (kg_query g)) reason v = (Inr Again, t)"
    by (auto simp: rewrite_once_def Let_def act_simps)
  then obtain u' where u': "search_again kn previous task question g (strip (kg_query g)) u' = (Inr Again, t)" "kv_rewrites (ks_event (fst u')) \<noteq> 0"
    by (cases reason; cases "the reason") (auto simp: spend_rewrite_def act_simps not_again split: list.splits)
  then show ?thesis
    using act_keepsD [OF search_again_same_rewrites u'(1)] by (simp add: same_rewrites_def)
qed

lemma grade_loop_ends:
  assumes "priced f ca cs cr kn"
  shows "\<exists>res t. grade_loop kn previous task question p s = Some (res, t) \<and> f (snd t) \<le> f (snd s) + (ca + (ca + cs + cr)) + ca"
proof -
  obtain res u where r: "grade_round kn previous task question p s = (res, u)" by (cases "grade_round kn previous task question p s")
  have c: "f (snd u) \<le> f (snd s) + (ca + (ca + cs + cr))" by (rule costsD [OF costs_round [OF assms] r])
  show ?thesis
  proof (cases "res = Inr Again")
    case False
    then have "\<exists>res'. grade_loop kn previous task question p s = Some (res', u)"
      by (subst grade_loop.simps) (auto simp: r split: sum.split round.split)
    then show ?thesis using c by fastforce
  next
    case True
    have used: "kv_rewrites (ks_event (fst u)) \<noteq> 0" using again_used r True by blast
    obtain res2 v where r2: "grade_round kn previous task question p u = (res2, v)" by (cases "grade_round kn previous task question p u")
    note v = used_round [OF assms used r2]
    have "\<exists>res'. grade_loop kn previous task question p u = Some (res', v)"
      using v by (subst grade_loop.simps) (auto simp: r2 split: sum.split round.split)
    moreover have "grade_loop kn previous task question p s = grade_loop kn previous task question p u"
      by (subst grade_loop.simps) (simp add: r True)
    ultimately show ?thesis using c v by fastforce
  qed
qed

section \<open>What a run makes eligible\<close>

lemma has_type_extends: "evidence_extends r r' \<Longrightarrow> has_type kind r n \<Longrightarrow> has_type kind r' n"
  using has_type_grows [of "r" "r'\<lparr>ev_excluded := ev_excluded r\<rparr>" kind n] by (simp add: evidence_extends_def evidence_grows_def has_type_def)

lemma set_excluded [simp]:
  "evidence_extends r (s\<lparr>ev_excluded := x\<rparr>) \<longleftrightarrow> evidence_extends r s" "has_type kind (s\<lparr>ev_excluded := x\<rparr>) n \<longleftrightarrow> has_type kind s n"
  "evidence_extends r (s\<lparr>ev_warnings := w\<rparr>) \<longleftrightarrow> evidence_extends r s" "has_type kind (s\<lparr>ev_warnings := w\<rparr>) n \<longleftrightarrow> has_type kind s n"
  by (simp_all add: evidence_extends_def has_type_def)

lemma source_numbers: "entries_ok r \<Longrightarrow> fst ` set (ev_sources r) = {1..length (ev_entries r)}"
proof -
  assume ok: "entries_ok r"
  have "fst ` set (ev_sources r) = {1..<1 + length (ev_sources r)}"
    using arg_cong [OF entries_sources_keys [OF ok], of set] by (simp del: upt_Suc)
  then show ?thesis using ok by (auto simp: entries_ok_def)
qed

lemma knowledge_numbers_iff:
  assumes "entries_ok r"
  shows "n \<in> knowledge_numbers r \<longleftrightarrow> has_type ''knowledge'' r n"
proof -
  have eo: "entry_ok r i" if "i < length (ev_entries r)" for i using assms that by (simp add: entries_ok_def)
  have l: "length (ev_sources r) = length (ev_entries r)" using assms by (simp add: entries_ok_def)
  have "n \<in> knowledge_numbers r \<longleftrightarrow> (\<exists>i<length (ev_sources r). fst (ev_sources r ! i) = n \<and> so_type (snd (ev_sources r ! i)) = ''knowledge'')"
  proof -
    have "n \<in> knowledge_numbers r \<longleftrightarrow> (\<exists>x\<in>set (ev_sources r). fst x = n \<and> so_type (snd x) = ''knowledge'')"
      by (force simp: knowledge_numbers_def)
    also have "\<dots> \<longleftrightarrow> (\<exists>i<length (ev_sources r). fst (ev_sources r ! i) = n \<and> so_type (snd (ev_sources r ! i)) = ''knowledge'')"
      unfolding set_conv_nth by blast
    finally show ?thesis .
  qed
  also have "\<dots> \<longleftrightarrow> (\<exists>i<length (ev_entries r). Suc i = n \<and> entry_type (ev_entries r ! i) = ''knowledge'')"
    using eo l by (auto simp: entry_ok_def)
  also have "\<dots> \<longleftrightarrow> has_type ''knowledge'' r n" by (cases n) (auto simp: has_type_def)
  finally show ?thesis .
qed

definition running :: "evidence_env \<Rightarrow> evidence \<Rightarrow> nat set \<Rightarrow> knowledge_state \<Rightarrow> bool" where
  "running e r0 previous s \<longleftrightarrow> evidence_ok e (ks_evidence s) \<and> evidence_extends r0 (ks_evidence s) \<and>
     (\<forall>n\<in>ks_numbers s. has_type ''knowledge'' (ks_evidence s) n) \<and> previous \<inter> ev_excluded (ks_evidence s) = {}"

definition unapproved :: "evidence_env \<Rightarrow> evidence \<Rightarrow> nat set \<Rightarrow> knowledge_state \<Rightarrow> bool" where
  "unapproved e r0 previous s \<longleftrightarrow> running e r0 previous s \<and> ks_approved s = {}"

text \<open>The grade that a run ends with, when it approves anything.\<close>

definition passing :: "knowledge_grade \<Rightarrow> bool" where
  "passing g \<longleftrightarrow> kg_route g = ''answer'' \<and> kg_relevance g = ''strong'' \<and> kg_answerability g = ''sufficient'' \<and>
     kg_ambiguity g = ''none'' \<and> summary_cites g \<noteq> {} \<and> summary_cites g \<subseteq> set (kg_supported g)"

definition approved_by :: "knowledge_grade \<Rightarrow> report \<Rightarrow> knowledge_state \<Rightarrow> bool" where
  "approved_by g rep s \<longleftrightarrow> passing g \<and> kv_grades (ks_event s) \<noteq> [] \<and> last (kv_grades (ks_event s)) = g \<and>
     rep = \<lparr>rp_status = ''ok'', rp_summary = kg_summary g\<rparr> \<and>
     int ` ks_approved s = set (kg_supported g) \<and> ks_approved s \<subseteq> ks_numbers s \<and> ks_approved s \<inter> ev_excluded (ks_evidence s) = {}"

definition round_post :: "evidence_env \<Rightarrow> evidence \<Rightarrow> nat set \<Rightarrow> round result \<Rightarrow> knowledge_state \<Rightarrow> bool" where
  "round_post e r0 previous res s \<longleftrightarrow>
     unapproved e r0 previous s \<and> (\<forall>rep. res = Inr (Reported rep) \<longrightarrow> rp_status rep \<noteq> ''ok'') \<or>
     (\<exists>g rep. res = Inr (Reported rep) \<and> running e r0 previous s \<and> approved_by g rep s)"

text \<open>
  What the workflow asks of the supervisor: models and the reservation of the rewrite do not touch the
  evidence, and a search registers documents.
\<close>

definition searches_documents :: "evidence_env \<Rightarrow> (evidence, 'w, search_reply) action \<Rightarrow> bool" where
  "searches_documents e m \<longleftrightarrow> (\<forall>r w res r' w'. evidence_ok e r \<longrightarrow> m (r, w) = (res, r', w') \<longrightarrow>
     evidence_ok e r' \<and> evidence_grows r r' \<and>
     (\<forall>reply. res = Inr reply \<longrightarrow> (\<forall>n\<in>reply_numbers reply. has_type ''knowledge'' r' n)))"

definition leaves_evidence :: "(evidence, 'w, 'a) action \<Rightarrow> bool" where
  "leaves_evidence m \<longleftrightarrow> (\<forall>s. fst (snd (m s)) = fst s)"

locale knowledge_provider =
  fixes e :: evidence_env and kn :: "'w knowledge_env"
  assumes ask_leaves: "leaves_evidence (kn_ask kn role q)"
    and reserve_leaves: "leaves_evidence (kn_reserve kn)"
    and search_documents: "searches_documents e (kn_search kn query)"
    and rewritten_documents: "kn_rewritten kn = Some g \<Longrightarrow> searches_documents e (g query hint)"
begin

text \<open>Calls that do not search leave the state as it is.\<close>

lemma with_left:
  assumes "leaves_evidence m" "with_evidence m s = (res, t)"
  shows "fst t = fst s"
proof -
  have "fst (snd (m (ks_evidence (fst s), snd s))) = ks_evidence (fst s)" using assms(1) unfolding leaves_evidence_def by auto
  then show ?thesis using assms(2) by (auto simp: with_evidence_def split: prod.splits)
qed

lemma structured_left: "structured kn role q read code s = (res, t) \<Longrightarrow> fst t = fst s"
proof -
  assume m: "structured kn role q read code s = (res, t)"
  obtain a u where u: "with_evidence (kn_ask kn role q) s = (a, u)" by (cases "with_evidence (kn_ask kn role q) s")
  have "fst u = fst s" by (rule with_left [OF ask_leaves u])
  moreover have "t = u" using m u by (cases a) (auto simp: structured_def bind_act_def lift_result_def)
  ultimately show ?thesis by simp
qed

lemma retrieve_unapproved:
  assumes s: "unapproved e r0 previous (fst s)" and m: "retrieve_more kn previous query hint s = (res, t)"
  shows "unapproved e r0 previous (fst t)"
proof -
  let ?m = "case (hint, kn_rewritten kn) of (Some h, Some f) \<Rightarrow> f query h
       | (Some h, None) \<Rightarrow> raising (OtherError ''TypeError'') | (None, _) \<Rightarrow> kn_search kn query"
  have docs: "searches_documents e ?m"
  proof (cases hint)
    case None
    then show ?thesis using search_documents by simp
  next
    case (Some h)
    have "searches_documents e (raising x)" for x by (simp add: searches_documents_def raising_def)
    then show ?thesis using rewritten_documents Some by (cases "kn_rewritten kn") simp_all
  qed
  obtain reply r w where c: "?m (ks_evidence (fst s), snd s) = (reply, r, w)" by (metis prod_cases3)
  have ok: "evidence_ok e (ks_evidence (fst s))" using s by (simp add: unapproved_def running_def)
  have post: "evidence_ok e r" "evidence_grows (ks_evidence (fst s)) r"
    "\<And>a. reply = Inr a \<Longrightarrow> \<forall>n\<in>reply_numbers a. has_type ''knowledge'' r n"
    using docs ok c unfolding searches_documents_def by blast+
  let ?s = "(fst s)\<lparr>ks_evidence := r\<rparr>"
  have up: "unapproved e r0 previous ?s"
    using s post(1,2) has_type_grows [OF post(2)] evidence_extends_trans grows_extends [OF post(2)]
    by (auto simp: unapproved_def running_def evidence_grows_def)
  show ?thesis
  proof (cases reply)
    case (Inl x)
    then have "fst t = ?s" using m c by (auto simp: retrieve_more_def with_evidence_def bind_act_def)
    then show ?thesis using up by simp
  next
    case (Inr a)
    let ?t = "exclude (reply_numbers a - previous) (?s\<lparr>ks_numbers := ks_numbers ?s \<union> reply_numbers a\<rparr>)"
    have t: "fst t = ?t"
      using m c Inr by (cases a) (auto simp: retrieve_more_def with_evidence_def bind_act_def modify_def ret_def raising_def)
    have sub: "ev_excluded r \<union> (reply_numbers a - previous) \<subseteq> {1..length (ev_entries r)}"
      using post(3) [OF Inr] evidence_okD(4) [OF post(1)] by (auto simp: sets_ok_def has_type_def)
    have "evidence_ok e (r\<lparr>ev_excluded := ev_excluded r \<union> (reply_numbers a - previous)\<rparr>)"
      by (rule set_excluded_ok(1) [OF post(1) sub])
    then show ?thesis using up post(3) [OF Inr] unfolding t by (auto simp: unapproved_def running_def exclude_def)
  qed
qed

lemma retrieve_each_unapproved:
  "unapproved e r0 previous (fst s) \<Longrightarrow> retrieve_each kn previous qs s = (res, t) \<Longrightarrow> unapproved e r0 previous (fst t)"
proof (induction qs arbitrary: s)
  case (Cons q qs)
  obtain res1 u where u: "retrieve_more kn previous q None s = (res1, u)" by (cases "retrieve_more kn previous q None s")
  have "unapproved e r0 previous (fst u)" by (rule retrieve_unapproved [OF Cons.prems(1) u])
  then show ?case using Cons.IH [of u] Cons.prems(2) u by (cases res1) (auto simp: bind_act_def)
qed (simp add: act_simps)

definition kept :: "evidence \<Rightarrow> nat set \<Rightarrow> knowledge_state \<Rightarrow> knowledge_state \<Rightarrow> bool" where
  "kept r0 previous s t \<longleftrightarrow> (unapproved e r0 previous s \<longrightarrow> unapproved e r0 previous t)"

lemma kept_rules: "transp (kept r0 previous)" "reflp (kept r0 previous)"
  by (auto simp: kept_def transp_def reflp_def)

lemma kept_structured: "act_keeps (kept r0 previous) (structured kn role q read code)"
  unfolding act_keeps_def kept_def using structured_left by (metis prod.collapse)

lemma kept_retrieve: "act_keeps (kept r0 previous) (retrieve_more kn previous query hint)"
  unfolding act_keeps_def kept_def using retrieve_unapproved by (metis prod.collapse)

lemma kept_reserve: "act_keeps (kept r0 previous) (with_evidence (kn_reserve kn))"
  unfolding act_keeps_def kept_def using with_left [OF reserve_leaves] by (metis prod.collapse)

lemma kept_event: "act_keeps (kept r0 previous) (set_event h)"
  by (auto simp: act_keeps_def kept_def set_event_def modify_def unapproved_def running_def)

lemma kept_warning:
  "act_keeps (kept r0 previous) (modify (\<lambda>s. s\<lparr>ks_evidence := (ks_evidence s)\<lparr>ev_warnings := insert c (ev_warnings (ks_evidence s))\<rparr>\<rparr>))"
  using set_excluded_ok(2)
  by (auto simp: act_keeps_def kept_def modify_def unapproved_def running_def evidence_ok_def sets_ok_def)

lemmas kept_step = act_keeps_bind [OF kept_rules(1)]
lemmas kept_pure = act_keeps_value [OF kept_rules(2)] act_keeps_inspect [OF kept_rules(2)]

lemma kept_finish: "act_keeps (kept r0 previous) (finish status summary)"
  unfolding finish_def by (intro kept_step kept_event kept_pure)

lemma kept_search_again: "act_keeps (kept r0 previous) (search_again kn previous task question g query)"
  unfolding search_again_def Let_def
  by (auto intro!: kept_step kept_structured kept_pure kept_retrieve kept_event)

lemma kept_spend: "act_keeps (kept r0 previous) (spend_rewrite kn previous task question g query reason)"
  unfolding spend_rewrite_def
  by (auto intro!: kept_step kept_warning kept_event kept_finish kept_search_again split: option.split list.split)

lemma kept_rewrite: "act_keeps (kept r0 previous) (rewrite_once kn previous task question p g)"
  unfolding rewrite_once_def Let_def
  by (auto intro!: kept_step kept_pure kept_spend kept_reserve)

lemma finish_status: "finish status summary s = (Inr (Reported rep), t) \<Longrightarrow> rp_status rep = status"
  by (auto simp: finish_def act_simps)

lemma search_again_reports: "search_again kn previous task question g query s \<noteq> (Inr (Reported rep), t)"
  by (auto simp: search_again_def Let_def act_simps split: if_splits)

lemma rewrite_reports: "rewrite_once kn previous task question p g s = (Inr (Reported rep), t) \<Longrightarrow> rp_status rep = ''empty''"
proof -
  assume "rewrite_once kn previous task question p g s = (Inr (Reported rep), t)"
  then obtain reason v where v: "spend_rewrite kn previous task question g (strip (kg_query g)) reason v = (Inr (Reported rep), t)"
    by (auto simp: rewrite_once_def Let_def act_simps)
  show ?thesis
  proof (cases "reason = None \<or> reason = Some []")
    case True
    then show ?thesis using v by (auto simp: spend_rewrite_def act_simps search_again_reports)
  next
    case False
    then obtain c cs where "reason = Some (c # cs)" by (metis neq_Nil_conv option.exhaust)
    then have "\<exists>s'. finish ''empty'' (kn_spent kn) s' = (Inr (Reported rep), t)"
      using v by (intro exI) (simp add: spend_rewrite_def act_simps)
    then show ?thesis using finish_status by blast
  qed
qed

lemma approve_post:
  assumes s: "unapproved e r0 previous (fst s)" and g: "grade_checked (ks_numbers (fst s)) g" "kg_route g = ''answer''" "kg_ambiguity g = ''none''"
    and l: "kv_grades (ks_event (fst s)) \<noteq> []" "last (kv_grades (ks_event (fst s))) = g"
    and m: "approve g s = (res, t)"
  shows "round_post e r0 previous res (fst t)"
proof (cases "kg_relevance g \<noteq> ''strong'' \<or> kg_answerability g \<noteq> ''sufficient'' \<or> summary_cites g = {}")
  case True
  then show ?thesis using m s by (auto simp: approve_def bind_act_def lift_result_def raise_if_def round_post_def)
next
  case False
  let ?ns = "nat ` set (kg_supported g)"
  let ?rep = "\<lparr>rp_status = ''ok'', rp_summary = kg_summary g\<rparr>"
  have sub: "set (kg_supported g) \<subseteq> int ` ks_numbers (fst s)" using g(1) by (simp add: grade_checked_def)
  have ns: "int ` ?ns = set (kg_supported g)" "?ns \<subseteq> ks_numbers (fst s)" using sub by (auto simp: image_iff subset_iff) force+
  have out: "res = Inr (Reported ?rep)" "fst t = (fst s)\<lparr>ks_evidence := (ks_evidence (fst s))\<lparr>ev_excluded := ev_excluded (ks_evidence (fst s)) - ?ns\<rparr>,
      ks_approved := ks_approved (fst s) \<union> ?ns, ks_event := (ks_event (fst s))\<lparr>kv_status := ''ok''\<rparr>\<rparr>"
    using m False
    by (auto simp: approve_def bind_act_def lift_result_def raise_if_def modify_def finish_def set_event_def ret_def Let_def)
  have ok: "evidence_ok e (ks_evidence (fst s))" using s by (simp add: unapproved_def running_def)
  have "ev_excluded (ks_evidence (fst s)) - ?ns \<subseteq> {1..length (ev_entries (ks_evidence (fst s)))}"
    using evidence_okD(4) [OF ok] by (auto simp: sets_ok_def)
  note ok' = set_excluded_ok(1) [OF ok this]
  have "running e r0 previous (fst t)" using s ok' unfolding out(2) by (auto simp: unapproved_def running_def)
  moreover have "passing g" using g False by (simp add: passing_def grade_checked_def)
  moreover have "ks_approved (fst s) = {}" using s by (simp add: unapproved_def)
  ultimately have "running e r0 previous (fst t) \<and> approved_by g ?rep (fst t)"
    using ns l by (simp add: approved_by_def out(2))
  then show ?thesis unfolding round_post_def out(1) by blast
qed

lemma kept_round_post:
  assumes "act_keeps (kept r0 previous) m" "unapproved e r0 previous (fst s)" "m s = (res, t)"
    and "\<And>rep. res = Inr (Reported rep) \<Longrightarrow> rp_status rep \<noteq> ''ok''"
  shows "round_post e r0 previous res (fst t)"
  using act_keepsD [OF assms(1,3)] assms(2,4) by (auto simp: round_post_def kept_def)

lemma round_safe:
  assumes s: "unapproved e r0 previous (fst s)" and m: "grade_round kn previous task question p s = (res, t)"
  shows "round_post e r0 previous res (fst t)"
proof (cases "ks_numbers (fst s) = {}")
  case True
  then have "finish ''empty'' (kn_nothing_found kn) s = (res, t)" using m by (simp add: grade_round_def bind_act_def inspect_def)
  then show ?thesis by (intro kept_round_post [OF kept_finish s]) (auto dest: finish_status)
next
  case False
  let ?q = "Grade_question task question (kp_queries p) (kv_rewrites (ks_event (fst s)) \<noteq> 0)
      (map (\<lambda>n. the (map_of (ev_sources (ks_evidence (fst s))) n)) (sorted_list_of_set (ks_numbers (fst s))))"
  let ?ask = "structured kn ''rag_grader'' ?q read_grade ''RAG_GRADE_INVALID''"
  obtain a u where ask: "?ask s = (a, u)" by (cases "?ask s")
  have u: "fst u = fst s" by (rule structured_left [OF ask])
  show ?thesis
  proof (cases a)
    case (Inl x)
    then have "res = Inl x" "t = u" using m False ask by (auto simp: grade_round_def bind_act_def inspect_def Let_def)
    then show ?thesis using s u by (simp add: round_post_def)
  next
    case (Inr g)
    let ?u = "((fst s)\<lparr>ks_event := (ks_event (fst s))\<lparr>kv_grades := kv_grades (ks_event (fst s)) @ [g]\<rparr>\<rparr>, snd u)"
    have su: "unapproved e r0 previous (fst ?u)" using s by (simp add: unapproved_def running_def)
    consider x where "res = Inl x" "t = u \<or> t = ?u"
      | "approve g ?u = (res, t)" "grade_checked (ks_numbers (fst s)) g" "kg_route g = ''answer''" "kg_ambiguity g = ''none''"
      | status where "finish status (kg_summary g) ?u = (res, t)" "status \<noteq> ''ok''"
      | "rewrite_once kn previous task question p g ?u = (res, t)"
      using m False ask u
      by (auto simp: grade_round_def bind_act_def inspect_def Let_def Inr lift_result_def raise_if_def set_event_def modify_def split: if_splits)
    then show ?thesis
    proof cases
      case 1
      then show ?thesis using s su u by (auto simp: round_post_def)
    next
      case 2
      show ?thesis by (rule approve_post [OF su _ 2(3,4) _ _ 2(1)]) (use 2(2) in simp_all)
    next
      case 3
      show ?thesis by (rule kept_round_post [OF kept_finish su 3(1)]) (use 3 finish_status in blast)
    next
      case 4
      show ?thesis by (rule kept_round_post [OF kept_rewrite su 4]) (use 4 rewrite_reports in fastforce)
    qed
  qed
qed

text \<open>The loop, and what it leaves when it returns.\<close>

definition run_post :: "evidence \<Rightarrow> nat set \<Rightarrow> report result \<Rightarrow> knowledge_state \<Rightarrow> bool" where
  "run_post r0 previous res s \<longleftrightarrow>
     unapproved e r0 previous s \<and> (\<forall>rep. res = Inr rep \<longrightarrow> rp_status rep \<noteq> ''ok'') \<or>
     (\<exists>g rep. res = Inr rep \<and> running e r0 previous s \<and> approved_by g rep s)"

lemma loop_end_safe:
  assumes "grade_round kn previous task question p s = (res, u)" "res \<noteq> Inr Again" "unapproved e r0 previous (fst s)"
    and "grade_loop kn previous task question p s = Some (out, t)"
  shows "run_post r0 previous out (fst t)"
proof -
  have post: "round_post e r0 previous res (fst u)" by (rule round_safe [OF assms(3,1)])
  have l: "t = u" "res = (case out of Inl x \<Rightarrow> Inl x | Inr rep \<Rightarrow> Inr (Reported rep))"
    using assms(4,2) by (subst (asm) (1) grade_loop.simps, auto simp: assms(1) split: sum.splits round.splits)+
  show ?thesis using post unfolding l run_post_def round_post_def by (cases out) auto
qed

lemma loop_safe:
  assumes "grade_loop kn previous task question p s = Some (out, t)" "unapproved e r0 previous (fst s)"
  shows "run_post r0 previous out (fst t)"
proof -
  have free: "priced (\<lambda>_. 0) 0 0 0 kn" by (simp add: priced_def costs_def)
  obtain res u where r: "grade_round kn previous task question p s = (res, u)" by (cases "grade_round kn previous task question p s")
  show ?thesis
  proof (cases "res = Inr Again")
    case False
    then show ?thesis by (rule loop_end_safe [OF r _ assms(2,1)])
  next
    case True
    have su: "unapproved e r0 previous (fst u)" using round_safe [OF assms(2) r] True by (auto simp: round_post_def)
    have used: "kv_rewrites (ks_event (fst u)) \<noteq> 0" using again_used r True by blast
    obtain res2 v where r2: "grade_round kn previous task question p u = (res2, v)" by (cases "grade_round kn previous task question p u")
    have na: "res2 \<noteq> Inr Again" using used_round [OF free used r2] by simp
    have "grade_loop kn previous task question p u = Some (out, t)"
      using assms(1) by (subst (asm) grade_loop.simps) (simp add: r True)
    then show ?thesis by (rule loop_end_safe [OF r2 na su])
  qed
qed

lemma close_safe:
  assumes post: "run_post r0 (accepted r0) res s" and ok0: "entries_ok r0"
    and c: "close_run (accepted r0) (res, s, w) = (res', s', w')"
  shows "evidence_ok e (ks_evidence s') \<and> evidence_extends r0 (ks_evidence s') \<and>
    accepted (ks_evidence s') \<inter> knowledge_numbers (ks_evidence s') =
      accepted r0 \<inter> knowledge_numbers (ks_evidence s') \<union> ks_approved s' \<and>
    (ks_approved s' = {} \<and> (\<forall>rep. res' = Inr rep \<longrightarrow> rp_status rep \<noteq> ''ok'') \<or>
     (\<exists>g rep. res' = Inr rep \<and> passing g \<and> kv_grades (ks_event s') \<noteq> [] \<and> last (kv_grades (ks_event s')) = g \<and> int ` ks_approved s' = set (kg_supported g) \<and>
        ks_approved s' \<subseteq> ks_numbers s'))"
proof -
  let ?r = "ks_evidence s"
  let ?K = "knowledge_numbers ?r - accepted r0 - ks_approved s"
  have run: "running e r0 (accepted r0) s" using post by (auto simp: run_post_def unapproved_def)
  have ok: "evidence_ok e ?r" "evidence_extends r0 ?r" and nums: "\<And>n. n \<in> ks_numbers s \<Longrightarrow> has_type ''knowledge'' ?r n"
    and disj: "accepted r0 \<inter> ev_excluded ?r = {}"
    using run by (auto simp: running_def)
  have eo: "entries_ok ?r" by (rule evidence_okD(1) [OF ok(1)])
  have ap: "ks_approved s \<subseteq> ks_numbers s" "ks_approved s \<inter> ev_excluded ?r = {}"
    using post by (auto simp: run_post_def unapproved_def approved_by_def)
  have out: "res' = res" "ks_approved s' = ks_approved s" "ks_numbers s' = ks_numbers s"
    "ks_evidence s' = ?r\<lparr>ev_excluded := ev_excluded ?r \<union> ?K\<rparr>" "kv_grades (ks_event s') = kv_grades (ks_event s)"
    using c by (auto simp: close_run_def exclude_def Let_def failed_event_def split: sum.splits)
  have K: "knowledge_numbers (ks_evidence s') = knowledge_numbers ?r" by (simp add: out(4) knowledge_numbers_def)
  have mem: "n \<in> fst ` set (ev_sources ?r)" if "has_type kind ?r n" for n kind
    using that by (auto simp: source_numbers [OF eo] has_type_def)
  have sub0: "accepted r0 \<subseteq> fst ` set (ev_sources ?r)"
  proof -
    have "length (ev_entries r0) \<le> length (ev_entries ?r)"
      using ok(2) prefix_length_le by (fastforce simp: evidence_extends_def)
    then show ?thesis by (auto simp: accepted_def source_numbers [OF ok0] source_numbers [OF eo])
  qed
  have "ev_excluded ?r \<union> ?K \<subseteq> {1..length (ev_entries ?r)}"
    using evidence_okD(4) [OF ok(1)] knowledge_numbers_iff [OF eo] by (auto simp: sets_ok_def has_type_def)
  then have ok': "evidence_ok e (ks_evidence s')" unfolding out(4) by (rule set_excluded_ok(1) [OF ok(1)])
  have apK: "ks_approved s \<subseteq> knowledge_numbers ?r" "ks_approved s \<subseteq> fst ` set (ev_sources ?r)"
    using ap(1) nums knowledge_numbers_iff [OF eo] mem by blast+
  have "accepted (ks_evidence s') \<inter> knowledge_numbers ?r = accepted r0 \<inter> knowledge_numbers ?r \<union> ks_approved s"
    unfolding accepted_def [of "ks_evidence s'"] using disj ap(2) apK sub0 by (auto simp: out(4))
  moreover have "ks_approved s' = {} \<and> (\<forall>rep. res' = Inr rep \<longrightarrow> rp_status rep \<noteq> ''ok'') \<or>
     (\<exists>g rep. res' = Inr rep \<and> passing g \<and> kv_grades (ks_event s') \<noteq> [] \<and> last (kv_grades (ks_event s')) = g \<and> int ` ks_approved s' = set (kg_supported g) \<and>
        ks_approved s' \<subseteq> ks_numbers s')"
    using post unfolding run_post_def unapproved_def approved_by_def out by blast
  moreover have "evidence_extends r0 (ks_evidence s')" using ok(2) by (simp add: out(4))
  ultimately show ?thesis using ok' unfolding K out(2) by blast
qed

lemma plan_safe:
  assumes "plan_and_retrieve kn previous task question s = (res, t)" "unapproved e r0 previous (fst s)"
  shows "unapproved e r0 previous (fst t)"
proof -
  have each: "act_keeps (kept r0 previous) (retrieve_each kn previous qs)" for qs
    unfolding act_keeps_def kept_def using retrieve_each_unapproved by (metis prod.collapse)
  have "act_keeps (kept r0 previous) (plan_and_retrieve kn previous task question)"
    unfolding plan_and_retrieve_def by (auto intro!: kept_step kept_structured kept_event kept_pure each)
  then show ?thesis
    using act_keepsD [of "kept r0 previous" "plan_and_retrieve kn previous task question" s res t] assms by (simp add: kept_def)
qed

lemma run_safe:
  assumes ok: "evidence_ok e r" and run: "knowledge_run kn task question (r, w) = Some (res, s, w')"
  shows "evidence_ok e (ks_evidence s) \<and> evidence_extends r (ks_evidence s) \<and>
    accepted (ks_evidence s) \<inter> knowledge_numbers (ks_evidence s) =
      accepted r \<inter> knowledge_numbers (ks_evidence s) \<union> ks_approved s \<and>
    (ks_approved s = {} \<and> (\<forall>rep. res = Inr rep \<longrightarrow> rp_status rep \<noteq> ''ok'') \<or>
     (\<exists>g rep. res = Inr rep \<and> passing g \<and> kv_grades (ks_event s) \<noteq> [] \<and> last (kv_grades (ks_event s)) = g \<and> int ` ks_approved s = set (kg_supported g) \<and>
        ks_approved s \<subseteq> ks_numbers s))"
proof -
  let ?start = "(\<lparr>ks_evidence = r, ks_event = new_event, ks_numbers = {}, ks_approved = {}\<rparr>, w)"
  have start: "unapproved e r (accepted r) (fst ?start)" using ok by (auto simp: unapproved_def running_def accepted_def)
  obtain p t where p: "plan_and_retrieve kn (accepted r) task question ?start = (p, t)" by (cases "plan_and_retrieve kn (accepted r) task question ?start")
  have st: "unapproved e r (accepted r) (fst t)" by (rule plan_safe [OF p start])
  obtain out u where u: "close_run (accepted r) (out, u) = (res, s, w')" "run_post r (accepted r) out (fst u)"
  proof (cases p)
    case (Inl x)
    then show ?thesis using run p st by (intro that [of "Inl x" t]) (auto simp: knowledge_run_def Let_def run_post_def)
  next
    case (Inr q)
    show ?thesis
    proof (cases "kp_route q = ''clarify''")
      case True
      then show ?thesis using run p st Inr
        by (intro that [of "Inr \<lparr>rp_status = ''clarification'', rp_summary = kp_clarification q\<rparr>" t]) (auto simp: knowledge_run_def Let_def run_post_def)
    next
      case False
      then obtain out v where "grade_loop kn (accepted r) task question q t = Some (out, v)" "close_run (accepted r) (out, v) = (res, s, w')"
        using run p Inr by (auto simp: knowledge_run_def Let_def)
      then show ?thesis using loop_safe [OF _ st] by (intro that [of out v]) auto
    qed
  qed
  obtain s1 w1 where u1: "u = (s1, w1)" by (cases u)
  show ?thesis using close_safe [OF _ evidence_okD(1) [OF ok] u(1) [unfolded u1]] u(2) by (simp add: u1)
qed

end

section \<open>Termination\<close>

lemma all_some_length: "all_some xs = Some ys \<Longrightarrow> length ys = length xs"
  by (induction xs arbitrary: ys) (auto split: option.splits)

lemma list_field_length: "list_field hi f v = Some ys \<Longrightarrow> length ys \<le> hi"
  by (induction hi f v rule: list_field.induct) (auto dest: all_some_length split: if_splits)

lemma read_plan_length: "read_plan d = Some p \<Longrightarrow> length (kp_queries p) \<le> 2"
  by (auto simp: read_plan_def check_route_def Let_def dest: list_field_length split: if_splits option.splits)

lemma structured_reads: "structured kn role q read code s = (Inr a, t) \<Longrightarrow> \<exists>d. read d = Some a"
  by (auto simp: structured_def act_simps require_row_def split: bool.splits option.splits json.splits)

lemma plan_costs:
  assumes "priced f ca cs cr kn" "plan_and_retrieve kn previous task question s = (res, t)"
  shows "f (snd t) \<le> f (snd s) + ca + 2 * cs"
proof -
  let ?ask = "structured kn ''rag_planner'' (Plan_question task question) read_plan ''RAG_PLAN_INVALID''"
  obtain a u where ask: "?ask s = (a, u)" by (cases "?ask s")
  have c: "f (snd u) \<le> f (snd s) + ca" by (rule costsD [OF costs_structured [OF assms(1)] ask])
  show ?thesis
  proof (cases a)
    case (Inl x)
    then have "t = u" using assms(2) ask by (auto simp: plan_and_retrieve_def bind_act_def)
    then show ?thesis using c by simp
  next
    case (Inr p)
    have l: "length (kp_queries p) * cs \<le> 2 * cs" using structured_reads ask Inr read_plan_length by (metis mult_le_mono1)
    let ?rest = "bind_act (set_event (\<lambda>v. v\<lparr>kv_queries := kp_queries p\<rparr>)) (\<lambda>_.
     if kp_route p = ''clarify'' then bind_act (set_event (\<lambda>v. v\<lparr>kv_status := ''clarification''\<rparr>)) (\<lambda>_. ret p)
     else bind_act (retrieve_each kn previous (kp_queries p)) (\<lambda>_. ret p))"
    have "costs f (2 * cs) (if kp_route p = ''clarify'' then bind_act (set_event (\<lambda>v. v\<lparr>kv_status := ''clarification''\<rparr>)) (\<lambda>_. ret p)
     else bind_act (retrieve_each kn previous (kp_queries p)) (\<lambda>_. ret p))"
      using costs_mono [OF costs_last [OF costs_retrieve_each [OF assms(1), of "kp_queries p" previous] costs_pure(1)] l]
        costs_mono [OF costs_step [OF costs_pure(5) costs_pure(1)], of "2 * cs"] by auto
    then have "costs f (2 * cs) ?rest" by (intro costs_step costs_pure)
    moreover have "?rest u = (res, t)" using assms(2) ask Inr by (simp add: plan_and_retrieve_def bind_act_def)
    ultimately have "f (snd t) \<le> f (snd u) + 2 * cs" by (rule costsD)
    then show ?thesis using c by simp
  qed
qed

lemma knowledge_run_costs:
  assumes "priced f model_price search_price reserve_price kn"
  shows "\<exists>res s w'. knowledge_run kn task question (r, w) = Some (res, s, w') \<and>
    f w' \<le> f w + 4 * model_price + 3 * search_price + reserve_price"
proof -
  let ?start = "(\<lparr>ks_evidence = r, ks_event = new_event, ks_numbers = {}, ks_approved = {}\<rparr>, w)"
  obtain p t where p: "plan_and_retrieve kn (accepted r) task question ?start = (p, t)" by (cases "plan_and_retrieve kn (accepted r) task question ?start")
  have c: "f (snd t) \<le> f w + model_price + 2 * search_price" using plan_costs [OF assms p] by simp
  have closed: "snd (snd (close_run previous (out, u))) = snd u" for previous and out :: "report result" and u :: "knowledge_state \<times> 'a"
    by (cases u) (simp add: close_run_def Let_def)
  have "\<exists>out u. knowledge_run kn task question (r, w) = Some (close_run (accepted r) (out, u)) \<and>
      f (snd u) \<le> f w + 4 * model_price + 3 * search_price + reserve_price"
  proof (cases "\<exists>q. p = Inr q \<and> kp_route q \<noteq> ''clarify''")
    case False
    then have "\<exists>out. knowledge_run kn task question (r, w) = Some (close_run (accepted r) (out, t))"
      using p by (cases t) (force simp: knowledge_run_def Let_def split: sum.split)
    then show ?thesis using c by fastforce
  next
    case True
    then obtain q where q: "p = Inr q" "kp_route q \<noteq> ''clarify''" by blast
    obtain out u where l: "grade_loop kn (accepted r) task question q t = Some (out, u)"
      "f (snd u) \<le> f (snd t) + (model_price + (model_price + search_price + reserve_price)) + model_price"
      using grade_loop_ends [OF assms] by blast
    have "knowledge_run kn task question (r, w) = Some (close_run (accepted r) (out, u))"
      using p q l(1) by (simp add: knowledge_run_def Let_def)
    then show ?thesis using l(2) c by fastforce
  qed
  then show ?thesis using closed by (metis prod.collapse)
qed

text \<open>
  C22: Grading and rewriting always come to an end: whatever the models answer and the searches find, a knowledge task
  returns or raises, after at most four calls of a model (the plan, two grades, one rewrite), three searches and one
  reservation. The bound holds for any measure \<open>f\<close> of the world that a call of each kind raises by at most its price.
\<close>

theorem knowledge_run_ends:
  assumes "priced f model_price search_price reserve_price kn"
  shows "\<exists>res s w'. knowledge_run kn task question (r, w) = Some (res, s, w') \<and>
    f w' \<le> f w + 4 * model_price + 3 * search_price + reserve_price"
  using assms by (rule knowledge_run_costs)

section \<open>Example\<close>

definition demo_message :: "dict \<Rightarrow> model_message" where
  "demo_message d = \<lparr>mm_tool_calls = False, mm_content = Some (JObj d)\<rparr>"

fun demo_reply :: "knowledge_question \<Rightarrow> model_message" where
  "demo_reply (Plan_question t q) = demo_message [(''route'', JStr ''retrieve''), (''queries'', JArr [JStr ''tea''])]"
| "demo_reply (Grade_question t q queries again sources) = demo_message [(''route'', JStr ''answer''), (''relevance'', JStr ''strong''),
     (''answerability'', JStr ''sufficient''), (''ambiguity'', JStr ''none''), (''supported_numbers'', JArr [JInt 1]), (''summary'', JStr ''hot [1]'')]"
| "demo_reply (Rewrite_question t q s m) = demo_message []"

text \<open>Calls of models, at one each.\<close>

definition counting_kn :: "nat knowledge_env" where
  "counting_kn = \<lparr>kn_ask = (\<lambda>role q (r, n). (Inr (demo_reply q), r, n + 1)), kn_search = (\<lambda>q (r, n). (Inr (Search_failed ''DOWN''), r, n)),
     kn_rewritten = None, kn_reserve = (\<lambda>(r, n). (Inr None, r, n)), kn_nothing_found = ''a'', kn_spent = ''b'', kn_more = ''c'',
     kn_background = ''d'', kn_hypothesis = ''e''\<rparr>"

theorem knowledge_run_ends_witness:
  "\<exists>res s n. knowledge_run counting_kn ''t'' ''q'' (new_evidence 1000, 0) = Some (res, s, n) \<and> n \<le> 4"
proof -
  have "priced (\<lambda>n. n) 1 0 0 counting_kn" by (auto simp: priced_def costs_def counting_kn_def)
  from knowledge_run_ends [OF this, of "''t''" "''q''" "new_evidence 1000" 0] show ?thesis by simp
qed

end
