(* ===== verification/EvidenceKinds.thy ===== *)
theory EvidenceKinds
  imports EvidenceProperties
begin

text \<open>
  Every operation of the registry adds entries of its own kind only, so nothing but a search of documents can make a
  document citable.
\<close>

section \<open>Evidence of one kind\<close>

definition adds :: "string \<Rightarrow> evidence \<Rightarrow> evidence \<Rightarrow> bool" where
  "adds kind r r' \<longleftrightarrow> (\<exists>k. map entry_type (ev_entries r') = map entry_type (ev_entries r) @ replicate k kind)"

lemma adds_same: "map entry_type (ev_entries r') = map entry_type (ev_entries r) \<Longrightarrow> adds kind r r'"
  by (auto simp: adds_def intro: exI [of _ 0])

lemma adds_refl [simp]: "adds kind r r"
  by (rule adds_same) simp

lemma adds_trans: "adds kind r s \<Longrightarrow> adds kind s t \<Longrightarrow> adds kind r t"
  by (auto simp: adds_def replicate_add [symmetric])

lemma adds_register: "register_text e key c title body r = (sd, r') \<Longrightarrow> adds (source_type c) r r'"
  by (cases rule: register_cases [of e key c title body r])
    (auto simp: adds_def entry_type_def intro: exI [of _ 0] exI [of _ 1])

lemma amend_entries: "amend f s r = (s', r') \<Longrightarrow> ev_entries r' = ev_entries r"
  by (auto simp: amend_def split: option.splits)

lemma adds_collect: "adds (source_type c) (snd gr) (snd (collect e key c title body f gr))"
proof -
  obtain s d r where reg: "register_text e key c title body (snd gr) = ((s, d), r)" by (metis surj_pair)
  obtain s' r' where am: "amend f s r = (s', r')" by (cases "amend f s r")
  have "adds (source_type c) (snd gr) r'" using adds_register [OF reg] by (simp add: adds_def amend_entries [OF am])
  then show ?thesis by (simp add: collect_def reg am)
qed

lemma adds_pages: "add_pages e ps gr = (res, r') \<Longrightarrow> adds ''web'' (snd gr) r'"
proof (induction e ps gr rule: add_pages.induct)
  case (2 e p ps g r)
  have c: "adds ''web'' r (snd (collect e (''web'', u) (web_source p) (wp_title p) (wp_content p) (\<lambda>s. s) (g, r)))" for u
    using adds_collect [of "web_source p" "(g, r)"] by (simp add: web_source_def)
  show ?case
  proof (cases "normalized_url (ee_ip_literal e) (wp_url p)")
    case (Inr u)
    show ?thesis using 2(1) [OF Inr] 2(2) c adds_trans by (fastforce simp: Inr)
  qed (use 2(2) in simp)
qed simp

lemma adds_update: "entry_type x = entry_type (xs ! i) \<Longrightarrow> map entry_type (xs[i := x]) = map entry_type xs"
  by (cases "i < length xs") (simp_all add: map_update list_update_same_conv list_update_beyond)

lemma adds_page: "add_web_page e p r = (res, r') \<Longrightarrow> adds ''web'' r r'"
  using adds_pages [of e "[p]" "(nothing_gathered, r)"]
  by (auto simp: add_web_page_def add_web_def Let_def entry_type_def intro!: adds_same adds_update split: sum.splits option.splits if_splits)

lemma adds_tool: "add_tool e name version data now r = (res, r') \<Longrightarrow> adds ''tool'' r r'"
  by (auto simp: add_tool_def Let_def adds_def dest!: adds_register amend_entries split: if_splits prod.splits)

lemma adds_sql: "adds ''sql'' r (snd (add_sql e q r))"
  by (auto simp: add_sql_def Let_def adds_def entry_type_def adds_update dest!: adds_register split: prod.splits option.splits)

lemma adds_memories: "adds ''memory'' r (snd (add_memories e ms r))"
proof -
  have "adds ''memory'' r (snd gr) \<Longrightarrow> adds ''memory'' r (snd (register_memory e m gr))" for m gr
    using adds_collect [of "Memory_source (mi_id m) (mi_score m)" gr] adds_trans by (simp add: register_memory_def)
  then show ?thesis
    unfolding add_memories_def using fold_keeps [of "\<lambda>gr. adds ''memory'' r (snd gr)" "(nothing_gathered, r)" "register_memory e" ms]
    by simp
qed

text \<open>Nothing of another kind makes a document.\<close>

definition no_documents :: "evidence \<Rightarrow> evidence \<Rightarrow> bool" where
  "no_documents r r' \<longleftrightarrow> (\<forall>n. has_type ''knowledge'' r' n \<longrightarrow> has_type ''knowledge'' r n)"

lemma adds_no_documents:
  assumes "adds kind r r'" "kind \<noteq> ''knowledge''"
  shows "no_documents r r'"
proof -
  obtain k where k: "map entry_type (ev_entries r') = map entry_type (ev_entries r) @ replicate k kind" using assms(1) by (auto simp: adds_def)
  have l: "length (ev_entries r') = length (ev_entries r) + k" using arg_cong [OF k, of length] by simp
  show ?thesis
    unfolding no_documents_def has_type_def
  proof (intro allI impI)
    fix n assume n: "1 \<le> n \<and> n \<le> length (ev_entries r') \<and> entry_type (ev_entries r' ! (n - 1)) = ''knowledge''"
    then have "n - 1 < length (ev_entries r) + k" using l by linarith
    then have "(map entry_type (ev_entries r) @ replicate k kind) ! (n - 1) = ''knowledge''"
      using n l by (simp add: k [symmetric])
    then show "1 \<le> n \<and> n \<le> length (ev_entries r) \<and> entry_type (ev_entries r ! (n - 1)) = ''knowledge''"
      using n l assms(2) by (auto simp: nth_append split: if_splits)
  qed
qed

end
