(* ===== verification/SupervisorSteps.thy ===== *)
theory SupervisorSteps
  imports Delegation KnowledgeProperties EvidenceKinds
begin

text \<open>
  What every step of a supervisor's run keeps: the evidence is well formed and only grows, and the calls of
  tools, the rewrites and the delegations stay within their limits, whatever the models do and whatever a checkpoint
  gives back. The searches do when no stored result exceeds them, since a result that is given back brings its
  counters; what is said of the evidence is said of runs in which every call is run.
\<close>

section \<open>Steps\<close>

text \<open>The documents that may be cited are those a passing grade of the run supports.\<close>

definition documents_approved :: "sup_state \<Rightarrow> bool" where
  "documents_approved s \<longleftrightarrow> (\<forall>n. has_type ''knowledge'' (ss_evidence s) n \<longrightarrow> n \<notin> ev_excluded (ss_evidence s) \<longrightarrow>
     (\<exists>v\<in>set (ss_knowledge s). \<exists>g\<in>set (kv_grades v). passing g \<and> int n \<in> set (kg_supported g)))"

text \<open>
  A run is looked at under one aspect: its limits, its searches, the grades it holds, evidence that is only gathered (of any kind, or no documents), evidence
  with exclusions, or the approval of documents.
\<close>

datatype aspect = Limits | Searches | Frame | Gathers | Others | Extends | Approved

fun sup_ok :: "aspect \<Rightarrow> 'w sup_env \<Rightarrow> sup_state \<Rightarrow> bool" where
  "sup_ok Limits sv s \<longleftrightarrow> ct_tools (ss_counters s) \<le> sv_max_tools sv \<and>
     ct_rewrites (ss_counters s) \<le> 1 \<and> distinct (map fst (ss_delegations s)) \<and>
     all_delegations s \<le> sv_max_delegations sv \<and> (\<forall>role. delegations_to role s \<le> sv_max_per_agent sv)"
| "sup_ok Searches sv s \<longleftrightarrow> ct_searches (ss_counters s) \<le> sv_max_searches sv"
| "sup_ok Approved sv s \<longleftrightarrow> evidence_ok (sv_evidence sv) (ss_evidence s) \<and> documents_approved s"
| "sup_ok Frame sv s \<longleftrightarrow> True"
| "sup_ok b sv s \<longleftrightarrow> evidence_ok (sv_evidence sv) (ss_evidence s)"

fun part_step :: "aspect \<Rightarrow> sup_state \<Rightarrow> sup_state \<Rightarrow> bool" where
  "part_step Gathers s t \<longleftrightarrow> evidence_grows (ss_evidence s) (ss_evidence t)"
| "part_step Others s t \<longleftrightarrow> evidence_grows (ss_evidence s) (ss_evidence t) \<and> no_documents (ss_evidence s) (ss_evidence t) \<and>
     ss_knowledge t = ss_knowledge s"
| "part_step Extends s t \<longleftrightarrow> evidence_extends (ss_evidence s) (ss_evidence t)"
| "part_step Frame s t \<longleftrightarrow> ss_knowledge t = ss_knowledge s"
| "part_step b s t \<longleftrightarrow> True"

definition sup_step :: "aspect \<Rightarrow> 'w sup_env \<Rightarrow> sup_state \<Rightarrow> sup_state \<Rightarrow> bool" where
  "sup_step b sv s t \<longleftrightarrow> (sup_ok b sv s \<longrightarrow> sup_ok b sv t \<and> part_step b s t)"

lemma no_documents_order: "no_documents r r" "no_documents r s \<Longrightarrow> no_documents s t \<Longrightarrow> no_documents r t"
  by (simp_all add: no_documents_def)

lemma part_step_order: "part_step b s s" "part_step b s t \<Longrightarrow> part_step b t u \<Longrightarrow> part_step b s u"
  by (cases b; auto intro: evidence_grows_trans evidence_extends_trans no_documents_order)+

lemma sup_step_order: "transp (sup_step b sv)" "reflp (sup_step b sv)"
  by (auto simp: sup_step_def transp_def reflp_def intro: part_step_order)

lemma sup_stepI: "(sup_ok b sv s \<Longrightarrow> sup_ok b sv t \<and> part_step b s t) \<Longrightarrow> sup_step b sv s t"
  unfolding sup_step_def by blast

text \<open>Changes that no aspect sees, and changes of the evidence or of the counters alone.\<close>

lemma unseen_step:
  assumes "ss_evidence t = ss_evidence s" "ss_counters t = ss_counters s" "ss_delegations t = ss_delegations s" "ss_knowledge t = ss_knowledge s"
  shows "sup_step b sv s t"
  using assms
  by (cases b) (simp_all add: sup_step_def all_delegations_def delegations_to_def documents_approved_def no_documents_order)

lemma approved_grows:
  assumes "evidence_grows r r'" "no_documents r r'" "documents_approved s" "ss_evidence s = r" "ss_evidence t = r'" "ss_knowledge t = ss_knowledge s"
  shows "documents_approved t"
  using assms unfolding documents_approved_def no_documents_def by (simp add: evidence_grows_def)

lemma evidence_step:
  assumes "evidence_ok (sv_evidence sv) (ss_evidence s) \<Longrightarrow> evidence_ok (sv_evidence sv) r \<and> evidence_grows (ss_evidence s) r"
    and "b \<in> {Limits, Searches, Gathers, Extends, Frame} \<or> no_documents (ss_evidence s) r"
  shows "sup_step b sv s (s\<lparr>ss_evidence := r\<rparr>)"
  using assms approved_grows [of "ss_evidence s" r s "s\<lparr>ss_evidence := r\<rparr>"]
  by (cases b) (auto simp: sup_step_def all_delegations_def delegations_to_def intro: grows_extends)

lemma counters_step:
  assumes "ct_tools c \<le> sv_max_tools sv \<or> ct_tools c = ct_tools (ss_counters s)"
    "ct_searches c \<le> sv_max_searches sv \<or> ct_searches c = ct_searches (ss_counters s)"
    "ct_rewrites c \<le> 1 \<or> ct_rewrites c = ct_rewrites (ss_counters s)"
  shows "sup_step b sv s (s\<lparr>ss_counters := c\<rparr>)"
  using assms by (cases b) (auto simp: sup_step_def all_delegations_def delegations_to_def documents_approved_def no_documents_order)

text \<open>A step that neither adds documents nor touches the grades keeps the documents approved.\<close>

lemma others_approved: "sup_step Others sv s t \<Longrightarrow> sup_step Approved sv s t"
  using approved_grows by (auto simp: sup_step_def)

lemmas sup_bind = act_keeps_bind [OF sup_step_order(1)]
lemmas sup_except = act_keeps_except [OF sup_step_order(1)]
lemmas sup_pure = act_keeps_value [OF sup_step_order(2)]

named_theorems sup_keeps \<open>actions of the supervisor that keep its steps\<close>

lemma keeps_outside [sup_keeps]: "act_keeps (sup_step b sv) (outside f)"
  by (auto simp: act_keeps_def outside_def intro: reflpD [OF sup_step_order(2)] split: prod.splits)

lemma keeps_ask [sup_keeps]: "act_keeps (sup_step b sv) (ask_sup f)"
  by (auto simp: act_keeps_def ask_sup_def intro: reflpD [OF sup_step_order(2)])

text \<open>Updates of the parts of the state that no limit is about.\<close>

lemma keeps_update:
  assumes "\<And>s. ss_evidence (u s) = ss_evidence s \<and> ss_counters (u s) = ss_counters s \<and> ss_delegations (u s) = ss_delegations s \<and>
    ss_knowledge (u s) = ss_knowledge s"
  shows "sup_step b sv s (u s)" "act_keeps (sup_step b sv) (update_sup u)"
proof -
  have "sup_step b sv s (u s)" for s using assms [of s] by (intro unseen_step) simp_all
  then show "sup_step b sv s (u s)" "act_keeps (sup_step b sv) (update_sup u)" by (auto simp: act_keeps_def update_sup_def)
qed

lemma keeps_updates [sup_keeps]:
  "act_keeps (sup_step b sv) (update_sup (\<lambda>s. s\<lparr>ss_credits := c\<rparr>))"
  "act_keeps (sup_step b sv) (update_sup (\<lambda>s. s\<lparr>ss_web_cache := g\<rparr>))"
  "act_keeps (sup_step b sv) (update_sup (\<lambda>s. s\<lparr>ss_page_cache := f s\<rparr>))"
  "act_keeps (sup_step b sv) (update_sup (\<lambda>s. s\<lparr>ss_schema_seen := seen\<rparr>))"
  "act_keeps (sup_step b sv) (update_sup (add_failure who code))"
  by (rule keeps_update(2), simp add: add_failure_def)+

lemma sup_step_events:
  "sup_step b sv s (add_tool_event ev s)" "sup_step b sv s (add_failure who code s)" "sup_step b sv s (add_agent_event ae s)"
  by (rule keeps_update(1), simp add: add_tool_event_def add_failure_def add_agent_event_def)+

lemma sup_step_trans: "sup_step b sv s t \<Longrightarrow> sup_step b sv t u \<Longrightarrow> sup_step b sv s u"
  using sup_step_order(1) by (rule transpD)

lemma sup_step_refl [simp]: "sup_step b sv s s"
  using sup_step_order(2) by (rule reflpD)

text \<open>Counters below their limits.\<close>

lemma sup_bump:
  assumes "\<And>c. ct_tools (u c) = ct_tools c" "\<And>c. ct_searches (u c) = ct_searches c" "\<And>c. ct_rewrites (u c) = ct_rewrites c"
  shows "act_keeps (sup_step b sv) (bump u)"
  using assms by (auto simp: act_keeps_def bump_def update_sup_def intro!: counters_step)

lemma keeps_counts [sup_keeps]:
  "act_keeps (sup_step b sv) (bump (\<lambda>c. c\<lparr>ct_web := ct_web c + 1\<rparr>))"
  "act_keeps (sup_step b sv) (bump (\<lambda>c. c\<lparr>ct_reads := ct_reads c + 1\<rparr>))"
  "act_keeps (sup_step b sv) (bump (\<lambda>c. c\<lparr>ct_sql := ct_sql c + 1\<rparr>))"
  by (rule sup_bump; simp)+

lemma keeps_remaining [sup_keeps]: "act_keeps (sup_step b sv) (remaining sv)"
  unfolding remaining_def
  by (intro sup_bind) (auto intro: keeps_outside sup_pure split: option.split)

text \<open>Operations of the registry.\<close>

lemma keeps_evidence:
  assumes "\<And>r res r'. f r = (res, r') \<Longrightarrow>
      (evidence_ok (sv_evidence sv) r \<longrightarrow> evidence_ok (sv_evidence sv) r' \<and> evidence_grows r r') \<and> (b \<in> {Limits, Searches, Gathers, Extends, Frame} \<or> no_documents r r')"
  shows "act_keeps (sup_step b sv) (on_evidence f)"
  using assms by (auto simp: act_keeps_def on_evidence_def intro!: evidence_step split: prod.splits)

lemma keeps_documents:
  assumes "b \<in> {Limits, Searches, Gathers, Extends, Frame}"
  shows "act_keeps (sup_step b sv)
    (on_evidence (\<lambda>r. case add_knowledge (sv_evidence sv) hits r of Inl x \<Rightarrow> (Inl x, r) | Inr (g, r') \<Rightarrow> (Inr g, r')))"
  by (rule keeps_evidence) (use assms in \<open>auto split: sum.splits prod.splits dest!: add_knowledge_gathering simp: gathering_def\<close>)

lemma keeps_registry [sup_keeps]:
  "act_keeps (sup_step b sv) (on_evidence (add_web (sv_evidence sv) pages))"
  "act_keeps (sup_step b sv) (on_evidence (add_web_page (sv_evidence sv) page))"
  "act_keeps (sup_step b sv) (on_evidence (add_tool (sv_evidence sv) name version data now))"
  "act_keeps (sup_step b sv) (on_evidence (\<lambda>r. case add_sql (sv_evidence sv) q r of (g, r') \<Rightarrow> (Inr g, r')))"
  "act_keeps (sup_step b sv) (on_evidence (\<lambda>r. case add_memories (sv_evidence sv) ms r of (g, r') \<Rightarrow> (Inr g, r')))"
proof -
  let ?e = "sv_evidence sv"
  have web: "no_documents r r'" if "add_web ?e pages r = (res, r')" for r res r' pages
    using adds_no_documents [OF adds_pages] that by (fastforce simp: add_web_def)
  have page: "no_documents r r'" if "add_web_page ?e page r = (res, r')" for r res r'
    using adds_no_documents [OF adds_page [OF that]] by simp
  have tool: "no_documents r r'" if "add_tool ?e name version data now r = (res, r')" for r res r'
    using adds_no_documents [OF adds_tool [OF that]] by simp
  have sql: "no_documents r (snd (add_sql ?e q r)) \<and> (evidence_ok ?e r \<longrightarrow> gathering ?e ''sql'' r (add_sql ?e q r))" for r
    using adds_no_documents [OF adds_sql] add_sql_gathering by simp
  have mem: "no_documents r (snd (add_memories ?e ms r)) \<and> (evidence_ok ?e r \<longrightarrow> gathering ?e ''memory'' r (add_memories ?e ms r))" for r
    using adds_no_documents [OF adds_memories] add_memories_gathering by simp
  show "act_keeps (sup_step b sv) (on_evidence (add_web ?e pages))"
    by (rule keeps_evidence) (use web add_web_gathering in blast)
  show "act_keeps (sup_step b sv) (on_evidence (add_web_page ?e page))"
    by (rule keeps_evidence) (use page add_web_page_gathering in blast)
  show "act_keeps (sup_step b sv) (on_evidence (add_tool ?e name version data now))"
    by (rule keeps_evidence) (use tool add_tool_gathering(1,2) in metis)
  show "act_keeps (sup_step b sv) (on_evidence (\<lambda>r. case add_sql ?e q r of (g, r') \<Rightarrow> (Inr g, r')))"
    proof (rule keeps_evidence)
    fix r res r' assume "(case add_sql ?e q r of (g, r') \<Rightarrow> (Inr g, r')) = (res, r')"
    then have "r' = snd (add_sql ?e q r)" by (auto split: prod.splits)
    then show "(evidence_ok ?e r \<longrightarrow> evidence_ok ?e r' \<and> evidence_grows r r') \<and> (b \<in> {Limits, Searches, Gathers, Extends, Frame} \<or> no_documents r r')"
      using sql [of r] by (simp add: gathering_def)
  qed
  show "act_keeps (sup_step b sv) (on_evidence (\<lambda>r. case add_memories ?e ms r of (g, r') \<Rightarrow> (Inr g, r')))"
    proof (rule keeps_evidence)
    fix r res r' assume "(case add_memories ?e ms r of (g, r') \<Rightarrow> (Inr g, r')) = (res, r')"
    then have "r' = snd (add_memories ?e ms r)" by (auto split: prod.splits)
    then show "(evidence_ok ?e r \<longrightarrow> evidence_ok ?e r' \<and> evidence_grows r r') \<and> (b \<in> {Limits, Searches, Gathers, Extends, Frame} \<or> no_documents r r')"
      using mem [of r] by (simp add: gathering_def)
  qed
qed

section \<open>The wrapper\<close>

text \<open>
  What a checkpoint may give back. Nothing has to be known for the limits; a stored result brings its count of
  searches, and its evidence.
\<close>

definition gives_back :: "'w sup_env \<Rightarrow> saved_call \<Rightarrow> bool" where
  "gives_back sv saved \<longleftrightarrow> (\<exists>cp key inputs idempotent w w'.
     sv_checkpoint sv = Some cp \<and> cp_begin cp key inputs idempotent w = (Inr (Some saved), w'))"

definition fresh_calls :: "'w sup_env \<Rightarrow> bool" where
  "fresh_calls sv \<longleftrightarrow> (\<forall>saved. \<not> gives_back sv saved)"

definition searches_within :: "'w sup_env \<Rightarrow> bool" where
  "searches_within sv \<longleftrightarrow> (\<forall>saved. gives_back sv saved \<longrightarrow> bo_searches (sc_body saved) \<le> sv_max_searches sv)"

definition replays_ok :: "aspect \<Rightarrow> 'w sup_env \<Rightarrow> bool" where
  "replays_ok b sv \<longleftrightarrow> b \<in> {Limits, Frame} \<or> b = Searches \<and> searches_within sv \<or> fresh_calls sv"

lemma replays_okI [simp, intro]:
  "replays_ok Limits sv" "replays_ok Frame sv" "searches_within sv \<Longrightarrow> replays_ok Searches sv" "fresh_calls sv \<Longrightarrow> replays_ok b sv"
  by (auto simp: replays_ok_def)

lemma replays_ok_fresh: "replays_ok b sv \<Longrightarrow> b \<notin> {Limits, Frame, Searches} \<Longrightarrow> fresh_calls sv"
  by (auto simp: replays_ok_def)

lemma no_checkpoint_fresh [simp]: "sv_checkpoint sv = None \<Longrightarrow> fresh_calls sv"
  by (simp add: fresh_calls_def gives_back_def)

lemma fresh_within: "fresh_calls sv \<Longrightarrow> searches_within sv"
  by (simp add: fresh_calls_def searches_within_def)

lemma execute_tool_body: "execute_tool idempotent f s = (Inr saved, t) \<Longrightarrow> sc_body saved = body_state (fst t)"
  by (auto simp: execute_tool_def split: prod.splits sum.splits option.splits if_splits)

lemma execute_tool_state: "fst (snd (execute_tool idempotent f s)) = fst (snd (f s))"
  by (simp add: execute_tool_def split: prod.split sum.split option.split)

lemma keeps_execute: "act_keeps R f \<Longrightarrow> act_keeps R (execute_tool idempotent f)"
  by (simp add: act_keeps_def execute_tool_state)

text \<open>The body of a state that was reached from here puts nothing over its limit.\<close>

lemma part_step_extends: "b \<in> {Gathers, Others, Extends} \<Longrightarrow> part_step b s t \<Longrightarrow> evidence_extends (ss_evidence s) (ss_evidence t)"
  by (auto intro: grows_extends)

lemma sup_ok_registry: "b \<notin> {Limits, Searches, Frame} \<Longrightarrow> sup_ok b sv s \<Longrightarrow> evidence_ok (sv_evidence sv) (ss_evidence s)"
  by (cases b) simp_all

lemma restore_body_cases:
  assumes "restore_body (body_state t) u = (res, v)"
  obtains "fst v = fst u" "\<exists>x. restore (snapshot (ss_evidence t)) (ss_evidence (fst u)) = Inl x"
  | r where "restore (snapshot (ss_evidence t)) (ss_evidence (fst u)) = Inr r"
      "fst v = (fst u)\<lparr>ss_evidence := r, ss_web_cache := ss_web_cache t, ss_page_cache := ss_page_cache t,
         ss_credits := ss_credits t, ss_schema_seen := ss_schema_seen t, ss_counters := (ss_counters (fst u))\<lparr>ct_searches := ct_searches (ss_counters t),
         ct_web := ct_web (ss_counters t), ct_reads := ct_reads (ss_counters t), ct_sql := ct_sql (ss_counters t)\<rparr>\<rparr>"
  using assms
  by (cases "restore (snapshot (ss_evidence t)) (ss_evidence (fst u))")
    (auto simp: restore_body_def body_state_def bind_act_def ask_sup_def lift_result_def update_sup_def)

lemma restored_evidence:
  assumes "evidence_ok e (ss_evidence t)" "evidence_extends (ss_evidence s) (ss_evidence u)" "evidence_extends (ss_evidence s) (ss_evidence t)"
  shows "restore (snapshot (ss_evidence t)) (ss_evidence u) = Inr (ss_evidence t)"
  using assms by (intro restore_snapshot [of e]) (auto simp: evidence_extends_def)

lemma restore_body_step:
  assumes b: "b \<noteq> Approved" and u: "sup_step b sv s (fst u)" and t: "sup_step b sv s t" and v: "restore_body (body_state t) u = (res, v)"
  shows "sup_step b sv s (fst v)"
proof (rule sup_stepI)
  assume ok: "sup_ok b sv s"
  have su: "sup_ok b sv (fst u)" "part_step b s (fst u)" and st: "sup_ok b sv t" "part_step b s t"
    using u t ok by (simp_all add: sup_step_def)
  show "sup_ok b sv (fst v) \<and> part_step b s (fst v)"
  proof (cases rule: restore_body_cases [OF v])
    case 1
    then show ?thesis using su by simp
  next
    case (2 r)
    show ?thesis
    proof (cases "b \<in> {Limits, Searches, Frame}")
      case True
      then show ?thesis using su st by (auto simp: 2(2) all_delegations_def delegations_to_def)
    next
      case False
      then have "b \<in> {Gathers, Others, Extends}" using b by (cases b) simp_all
      then have "r = ss_evidence t"
        using restored_evidence [OF sup_ok_registry [OF False st(1)]] part_step_extends su(2) st(2) 2(1) by fastforce
      then show ?thesis using su st b False by (cases b) (simp_all add: 2(2))
    qed
  qed
qed

text \<open>A stored result that is given back changes no limit but that of the searches, and no grade.\<close>

lemma replayed_step:
  assumes b: "b \<in> {Limits, Frame} \<or> b = Searches \<and> bo_searches body \<le> sv_max_searches sv" and v: "restore_body body (s, w) = (res, v)"
  shows "sup_step b sv s (fst v)"
proof -
  have "fst v = s \<or> (\<exists>r. fst v = s\<lparr>ss_evidence := r, ss_web_cache := bo_web_cache body, ss_page_cache := bo_page_cache body,
      ss_credits := bo_credits body, ss_schema_seen := bo_schema_seen body,
      ss_counters := (ss_counters s)\<lparr>ct_searches := bo_searches body, ct_web := bo_web body, ct_reads := bo_reads body, ct_sql := bo_sql body\<rparr>\<rparr>)"
    using v by (auto simp: restore_body_def bind_act_def ask_sup_def lift_result_def update_sup_def split: sum.splits)
  then show ?thesis using b by (auto simp: sup_step_def all_delegations_def delegations_to_def)
qed

text \<open>A call that is run, and its result put back into the state it left.\<close>

lemma called_step:
  assumes b: "b \<noteq> Approved" "replays_ok b sv" and cp: "sv_checkpoint sv = Some cp" and call: "act_keeps (sup_step b sv) call"
    and body: "\<And>s saved t. call s = (Inr saved, t) \<Longrightarrow> sc_body saved = body_state (fst t)"
    and k: "\<And>saved. act_keeps (sup_step b sv) (k saved)"
  shows "act_keeps (sup_step b sv)
    (bind_act (checkpoint_call cp name inputs idempotent call) (\<lambda>saved. bind_act (restore_body (sc_body saved)) (\<lambda>_. k saved)))"
  unfolding act_keeps_def
proof
  fix s :: "sup_state \<times> 'a"
  let ?put = "\<lambda>saved. bind_act (restore_body (sc_body saved)) (\<lambda>_. k saved)"
  have put: "sup_step b sv (fst s) (fst (snd (?put saved u)))"
    if "\<And>res v. restore_body (sc_body saved) u = (res, v) \<Longrightarrow> sup_step b sv (fst s) (fst v)" for saved u
  proof -
    obtain res v where r: "restore_body (sc_body saved) u = (res, v)" by (cases "restore_body (sc_body saved) u")
    have "sup_step b sv (fst v) (fst (snd (k saved v)))" using k unfolding act_keeps_def by blast
    then have "sup_step b sv (fst s) (fst (snd (k saved v)))" using that [OF r] sup_step_trans by blast
    then show ?thesis using that [OF r] by (simp add: bind_act_def r split: sum.split)
  qed
  show "sup_step b sv (fst s) (fst (snd (bind_act (checkpoint_call cp name inputs idempotent call) ?put s)))"
  proof (cases "cp_key cp name inputs (ct_tools (ss_counters (fst s))) (snd s)")
    case (Inl x)
    then show ?thesis by (simp add: bind_act_def checkpoint_call_def)
  next
    case (Inr key)
    note key = Inr
    obtain start w where start: "cp_begin cp key (call_inputs name inputs) idempotent (snd s) = (start, w)" by fastforce
    consider x where "start = Inl x" | saved where "start = Inr (Some saved)" | "start = Inr None" by (cases start) (metis option.exhaust)+
    then show ?thesis
    proof cases
      case 1
      then show ?thesis by (simp add: bind_act_def checkpoint_call_def key start)
    next
      case (2 saved)
      have "gives_back sv saved" using cp start 2 unfolding gives_back_def by blast
      then have "b \<in> {Limits, Frame} \<or> b = Searches \<and> bo_searches (sc_body saved) \<le> sv_max_searches sv"
        using b(2) by (auto simp: replays_ok_def fresh_calls_def searches_within_def)
      then have "sup_step b sv (fst s) (fst (snd (?put saved (fst s, w))))" by (intro put) (rule replayed_step)
      then show ?thesis by (simp add: bind_act_def [of "checkpoint_call cp name inputs idempotent call"] checkpoint_call_def key start 2)
    next
      case 3
      obtain r t w1 where call': "call (fst s, w) = (r, t, w1)" by (metis prod_cases3)
      obtain ended w2 where ended: "cp_complete cp key r w1 = (ended, w2)" by fastforce
      have c: "checkpoint_call cp name inputs idempotent call s = (and_then ended (\<lambda>_. confirmed r), t, w2)"
        by (simp add: checkpoint_call_def key start 3 call' ended)
      have t: "sup_step b sv (fst s) t" using act_keepsD [OF call call'] by simp
      show ?thesis
      proof (cases "and_then ended (\<lambda>_. confirmed r)")
        case (Inl x)
        then show ?thesis using t by (simp add: bind_act_def [of "checkpoint_call cp name inputs idempotent call"] c)
      next
        case (Inr saved)
        then have "r = Inr saved" by (cases ended; cases r) (auto simp: confirmed_def split: option.splits)
        then have "sc_body saved = body_state t" using body [OF call' [unfolded \<open>r = Inr saved\<close>]] by simp
        then have "sup_step b sv (fst s) (fst (snd (?put saved (t, w2))))"
          using restore_body_step [OF b(1), of sv "fst s" "(t, w2)" t] t by (intro put) simp
        then show ?thesis by (simp add: bind_act_def [of "checkpoint_call cp name inputs idempotent call"] c Inr)
      qed
    qed
  qed
qed

lemma keeps_checkpointed:
  assumes "b \<noteq> Approved" "replays_ok b sv" "sv_checkpoint sv = Some cp" "act_keeps (sup_step b sv) f"
  shows "act_keeps (sup_step b sv) (checkpointed cp name inputs idempotent f)"
  unfolding checkpointed_def
  by (intro called_step assms keeps_execute) (auto intro: execute_tool_body sup_pure split: option.split)

lemma keeps_attempt:
  assumes "replays_ok b sv" "b \<noteq> Approved" "act_keeps (sup_step b sv) f"
  shows "act_keeps (sup_step b sv) (attempt sv name inputs idempotent f)"
  unfolding attempt_def
  using assms keeps_checkpointed
  by (intro sup_bind keeps_remaining sup_pure) (auto split: option.splits)

lemma keeps_tool_recorded:
  assumes "act_keeps (sup_step b sv) m"
  shows "act_keeps (sup_step b sv) (tool_recorded name m)"
  unfolding act_keeps_def
proof
  fix s
  obtain res t where m: "m s = (res, t)" by (cases "m s")
  have "sup_step b sv (fst s) (fst t)" by (rule act_keepsD [OF assms m])
  then have "sup_step b sv (fst s) (add_tool_event ev (fst t))" "sup_step b sv (fst s) (add_tool_event ev (add_failure who c (fst t)))" for ev who c
    using sup_step_trans sup_step_events by meson+
  then show "sup_step b sv (fst s) (fst (snd (tool_recorded name m s)))"
    by (auto simp: tool_recorded_def m split: sum.split option.split)
qed

text \<open>A counter goes up only below its limit.\<close>

lemma act_keeps_at_bind: "act_keeps R m \<longleftrightarrow> (\<forall>s. R (fst s) (fst (snd (m s))))"
  by (simp add: act_keeps_def)

lemma keeps_limited:
  fixes limit :: nat
  assumes "\<And>a. act_keeps (sup_step b sv) (k a)"
    and "\<And>c. n c < limit \<Longrightarrow> ct_tools (u c) \<le> sv_max_tools sv \<or> ct_tools (u c) = ct_tools c"
    and "\<And>c. n c < limit \<Longrightarrow> ct_searches (u c) \<le> sv_max_searches sv \<or> ct_searches (u c) = ct_searches c"
    and "\<And>c. ct_rewrites (u c) = ct_rewrites c"
  shows "act_keeps (sup_step b sv) (bind_act (ask_sup (\<lambda>s. n (ss_counters s))) (\<lambda>i.
     bind_act (lift_result (raise_if (limit \<le> i) x)) (\<lambda>_. bind_act (bump u) k)))"
  unfolding act_keeps_def
proof
  fix s
  let ?m = "bind_act (ask_sup (\<lambda>s. n (ss_counters s))) (\<lambda>i. bind_act (lift_result (raise_if (limit \<le> i) x)) (\<lambda>_. bind_act (bump u) k))"
  show "sup_step b sv (fst s) (fst (snd (?m s)))"
  proof (cases "limit \<le> n (ss_counters (fst s))")
    case True
    then show ?thesis by (simp add: bind_act_def ask_sup_def lift_result_def)
  next
    case False
    let ?s = "(fst s)\<lparr>ss_counters := u (ss_counters (fst s))\<rparr>"
    have "?m s = k () (?s, snd s)" using False by (simp add: bind_act_def ask_sup_def lift_result_def bump_def update_sup_def)
    moreover have lt: "n (ss_counters (fst s)) < limit" using False by simp
    have "sup_step b sv (fst s) ?s"
      by (rule counters_step) (use assms(2) [OF lt] assms(3) [OF lt] assms(4) [of "ss_counters (fst s)"] in simp_all)
    moreover have "sup_step b sv ?s (fst (snd (k () (?s, snd s))))" using assms(1) by (simp add: act_keeps_def)
    ultimately show ?thesis using sup_step_trans by metis
  qed
qed

lemma keeps_wrapped:
  assumes "replays_ok b sv" "b \<noteq> Approved" "act_keeps (sup_step b sv) f"
  shows "act_keeps (sup_step b sv) (instrument sv name scope inputs idempotent f)"
  unfolding instrument_def
  by (intro sup_bind keeps_remaining keeps_limited keeps_tool_recorded keeps_attempt assms) (auto intro: keeps_outside sup_pure)

text \<open>A tool keeps the documents approved when its body adds none.\<close>

lemma keeps_instrument:
  assumes r: "replays_ok b sv" and f: "\<And>b. act_keeps (sup_step b sv) f"
  shows "act_keeps (sup_step b sv) (instrument sv name scope inputs idempotent f)"
proof (cases "b = Approved")
  case True
  then have "replays_ok Others sv" using replays_ok_fresh [OF r] by simp
  then have "act_keeps (sup_step Others sv) (instrument sv name scope inputs idempotent f)" by (rule keeps_wrapped [OF _ _ f]) simp
  then show ?thesis using True others_approved unfolding act_keeps_def by blast
qed (use keeps_wrapped r f in blast)

section \<open>Tools\<close>

lemma keeps_owners: "act_keeps (sup_step b sv) (current_owners sv)"
  unfolding current_owners_def by (auto intro!: sup_bind keeps_outside sup_pure split: option.split)

lemma keeps_search_body:
  assumes "b \<in> {Limits, Searches, Gathers, Extends, Frame}"
  shows "act_keeps (sup_step b sv) (search_knowledge_body sv query hint)"
  unfolding search_knowledge_body_def
  by (intro sup_bind sup_pure keeps_limited keeps_owners keeps_ask keeps_documents assms) (auto intro: keeps_outside sup_pure)

lemma keeps_search_knowledge:
  assumes "replays_ok b sv" "b \<in> {Limits, Searches, Gathers, Extends, Frame}"
  shows "act_keeps (sup_step b sv) (search_knowledge sv query)" "act_keeps (sup_step b sv) (search_rewritten_knowledge sv query hint)"
  unfolding search_knowledge_def search_rewritten_knowledge_def
  by (rule keeps_wrapped; use assms keeps_search_body in auto)+

lemma keeps_web_body: "act_keeps (sup_step b sv) (search_web_body sv)"
  unfolding search_web_body_def
  by (auto intro!: sup_bind sup_pure keeps_ask sup_bump keeps_remaining keeps_outside keeps_update(2) keeps_registry
      split: bool.split option.split list.split)

lemma keeps_read_body: "act_keeps (sup_step b sv) (read_page_body sv url)"
  unfolding read_page_body_def
  by (auto intro!: sup_bind sup_pure keeps_ask sup_bump keeps_remaining keeps_outside keeps_update(2) keeps_registry
      split: option.split)

lemma keeps_crawl_each: "act_keeps (sup_step b sv) (crawl_each sv us pages errors)"
  by (induction us arbitrary: pages errors)
    (auto simp: add_failure_def intro!: sup_bind sup_except sup_pure sup_bump keeps_remaining keeps_outside keeps_update(2) split: option.split sum.split)

lemma keeps_crawl_body: "act_keeps (sup_step b sv) (crawl_body sv)"
  unfolding crawl_body_def by (auto intro!: sup_bind sup_pure keeps_crawl_each keeps_registry)

lemma keeps_schema_body: "act_keeps (sup_step b sv) (describe_schema_body sv)"
  unfolding describe_schema_body_def
  by (auto intro!: sup_bind sup_pure keeps_remaining keeps_outside keeps_update(2) split: option.split)

lemma keeps_sql_body: "act_keeps (sup_step b sv) (execute_sql_body sv query)"
  unfolding execute_sql_body_def
  by (auto intro!: sup_bind sup_pure keeps_ask sup_bump keeps_remaining keeps_outside keeps_registry)

lemma keeps_specialist_tool:
  assumes "replays_ok b sv" "b \<in> {Limits, Searches, Gathers, Extends, Frame} \<or> (\<forall>query. c \<noteq> Search_knowledge query)"
  shows "act_keeps (sup_step b sv) (specialist_tool sv c)"
proof (cases c)
  case (Search_knowledge query)
  then show ?thesis using assms keeps_search_knowledge(1) by auto
qed (use assms in \<open>auto intro!: keeps_instrument keeps_web_body keeps_read_body keeps_crawl_body keeps_schema_body keeps_sql_body\<close>)

section \<open>Agents\<close>

lemma keeps_calls: "(\<And>c. has c \<Longrightarrow> act_keeps (sup_step b sv) (tool c)) \<Longrightarrow> act_keeps (sup_step b sv) (run_calls has tool cs)"
  by (induction cs) (auto intro!: sup_bind sup_pure)

lemma keeps_agent:
  assumes "\<And>c. has c \<Longrightarrow> act_keeps (sup_step b sv) (tool c)"
  shows "act_keeps (sup_step b sv) (run_agent has tool a)"
  by (induction a) (auto intro!: sup_bind sup_pure keeps_calls assms)

lemma keeps_invoke:
  assumes "\<And>c. has c \<Longrightarrow> act_keeps (sup_step b sv) (tool c)"
  shows "act_keeps (sup_step b sv) (invoke_agent sv has tool f)"
  unfolding invoke_agent_def by (intro sup_bind keeps_outside keeps_agent assms keeps_remaining sup_pure)

lemma keeps_ask_model: "act_keeps (sup_step b sv) (ask_model sv role q)"
  unfolding ask_model_def by (intro sup_bind keeps_outside keeps_remaining sup_pure)

lemma keeps_reserve: "act_keeps (sup_step b sv) (reserve_rewrite sv)"
  by (auto simp: act_keeps_def reserve_rewrite_def bind_act_def ask_sup_def ret_def bump_def update_sup_def intro!: counters_step)

lemma keeps_as_reply: "act_keeps (sup_step b sv) m \<Longrightarrow> act_keeps (sup_step b sv) (as_reply m)"
  unfolding as_reply_def by (auto intro!: sup_bind sup_pure split: tool_reply.split tool_value.split)

end
