(* ===== verification/SupervisorProperties.thy ===== *)
theory SupervisorProperties
  imports SupervisorSteps
begin

text \<open>
  The knowledge workflow as the supervisor runs it, delegation, and what holds of every run of the supervisor: its
  limits, the approval of the documents that may be cited, and the citations of an accepted answer.
\<close>

section \<open>The knowledge workflow in the supervisor\<close>

text \<open>
  With a lowered action, the evidence of the state is what the workflow holds. Steps of the state are steps of
  the evidence, and limits of the state are kept in the world.
\<close>

lemma lower_evidence:
  assumes "act_keeps (sup_step Gathers sv) m" "evidence_ok (sv_evidence sv) r" "lower_act m (r, s, w) = (res, r', s', w')"
  shows "evidence_ok (sv_evidence sv) r' \<and> evidence_grows r r'"
proof -
  obtain u v where m: "m (s\<lparr>ss_evidence := r\<rparr>, w) = (res, u, v)" using assms(3) by (auto simp: lower_act_def split: prod.splits)
  have "sup_step Gathers sv (s\<lparr>ss_evidence := r\<rparr>) u" using act_keepsD [OF assms(1) m] by simp
  then show ?thesis using assms(2,3) m by (auto simp: lower_act_def sup_step_def)
qed

text \<open>What every call keeps, as a measure of the world: 0 when it holds.\<close>

definition broken :: "(sup_state \<Rightarrow> bool) \<Rightarrow> sup_state \<times> 'w \<Rightarrow> nat" where
  "broken P sw = (if P (fst sw) then 0 else 1)"

lemma costs_kept:
  assumes "\<And>s r. P (s\<lparr>ss_evidence := r\<rparr>) = P s" "act_keeps (\<lambda>s t. P s \<longrightarrow> P t) m"
  shows "costs (broken P) 0 (lower_act m)"
  unfolding costs_def
proof
  fix s :: "evidence \<times> sup_state \<times> 'a"
  obtain r s0 w where s: "s = (r, s0, w)" by (metis prod_cases3)
  obtain res u v where m: "m (s0\<lparr>ss_evidence := r\<rparr>, w) = (res, u, v)" by (metis prod_cases3)
  have "P s0 \<longrightarrow> P u" using act_keepsD [OF assms(2) m] by (simp add: assms(1))
  then show "broken P (snd (snd (lower_act m s))) \<le> broken P (snd s) + 0" by (simp add: s lower_act_def m broken_def)
qed

lemma knowledge_kept:
  assumes P: "\<And>s r. P (s\<lparr>ss_evidence := r\<rparr>) = P s" and cp: "replays_ok b sv"
    and step: "\<And>s t. sup_step b sv s t \<Longrightarrow> P s \<longrightarrow> P t" and b: "b \<in> {Limits, Searches, Gathers, Extends, Frame}"
  shows "priced (broken P) 0 0 0 (knowledge_of sv)"
proof -
  have keep: "act_keeps (\<lambda>s t. P s \<longrightarrow> P t) m" if "act_keeps (sup_step b sv) m" for m :: "('a, 'c) sact"
    using that step unfolding act_keeps_def by blast
  show ?thesis
    by (auto simp: priced_def knowledge_of_def
        intro!: costs_kept [OF P] keep keeps_ask_model keeps_reserve keeps_as_reply keeps_search_knowledge [OF cp b] split: prod.split)
qed

lemma knowledge_run_frame:
  assumes run: "knowledge_run (knowledge_of sv) task question (r, s, w) = Some (res, ks, s', w')"
  shows "b \<in> {Limits, Searches} \<Longrightarrow> replays_ok b sv \<Longrightarrow> sup_ok b sv s \<Longrightarrow> sup_ok b sv s'" "ss_knowledge s' = ss_knowledge s"
proof -
  have ends: "broken P (s', w') \<le> broken P (s, w)" if "priced (broken P) 0 0 0 (knowledge_of sv)" for P
    using knowledge_run_costs [OF that, of task question r "(s, w)"] run by simp
  have "broken (sup_ok b sv) (s', w') \<le> broken (sup_ok b sv) (s, w)" if b: "b \<in> {Limits, Searches}" "replays_ok b sv"
    by (rule ends, rule knowledge_kept [OF _ b(2)]) (use b(1) in \<open>auto simp: sup_step_def all_delegations_def delegations_to_def\<close>)
  then show "b \<in> {Limits, Searches} \<Longrightarrow> replays_ok b sv \<Longrightarrow> sup_ok b sv s \<Longrightarrow> sup_ok b sv s'" by (auto simp: broken_def split: if_splits)
  have "broken (\<lambda>t. ss_knowledge t = ss_knowledge s) (s', w') \<le> broken (\<lambda>t. ss_knowledge t = ss_knowledge s) (s, w)"
    by (rule ends, rule knowledge_kept [where b = Frame]) (simp_all add: sup_step_def)
  then show "ss_knowledge s' = ss_knowledge s" by (auto simp: broken_def split: if_splits)
qed

text \<open>The numbers that a search answers are documents.\<close>

definition documents_reply :: "sup_state \<Rightarrow> tool_value result \<Rightarrow> bool" where
  "documents_reply s res \<longleftrightarrow> (\<forall>g. res = Inr (Gathered g) \<longrightarrow> (\<forall>n\<in>numbers_of g. has_type ''knowledge'' (ss_evidence s) n))"

lemma search_body_documents:
  assumes "search_knowledge_body sv query hint s = (res, t)" "sup_ok Gathers sv (fst s)"
  shows "documents_reply (fst t) res"
proof (cases res)
  case (Inr v)
  let ?add = "\<lambda>hits r. case add_knowledge (sv_evidence sv) hits r of Inl x \<Rightarrow> (Inl x, r) | Inr (g, r') \<Rightarrow> (Inr g, r')"
  obtain hits g u where u: "on_evidence (?add hits) u = (Inr g, t)" "v = Gathered g" "sup_step Gathers sv (fst s) (fst u)"
  proof -
    let ?pre = "bind_act (lift_result (raise_if (strip query = [] \<or> 2000 < length query) tool_not_allowed)) (\<lambda>_.
     bind_act (ask_sup (\<lambda>s. ct_searches (ss_counters s))) (\<lambda>n.
     bind_act (lift_result (raise_if (sv_max_searches sv \<le> n) limit_exceeded)) (\<lambda>_.
     bind_act (bump (\<lambda>c. c\<lparr>ct_searches := ct_searches c + 1\<rparr>)) (\<lambda>_.
     bind_act (ask_sup (\<lambda>s. if sv_hierarchy sv then Some (context_room (ss_evidence s)) else None)) (\<lambda>room.
     bind_act (current_owners sv) (\<lambda>owners.
     if rx_allowed (sv_context sv) = [] then ret []
     else outside (sv_retrieve sv \<lparr>ro_query = query, ro_hint = hint, ro_room = room, ro_owners = owners\<rparr>)))))))"
    have pre: "act_keeps (sup_step Gathers sv) ?pre"
      by (intro sup_bind sup_pure keeps_limited keeps_owners keeps_ask) (auto intro: keeps_outside sup_pure)
    have split: "search_knowledge_body sv query hint = bind_act ?pre (\<lambda>hits. bind_act (on_evidence (?add hits)) (\<lambda>g. ret (Gathered g)))"
      unfolding search_knowledge_body_def by (rule ext) (simp add: bind_act_def split: prod.split sum.split)
    have "bind_act ?pre (\<lambda>hits. bind_act (on_evidence (?add hits)) (\<lambda>g. ret (Gathered g))) s = (Inr v, t)"
      using assms(1) Inr split by simp
    then obtain hits u g t' where u: "?pre s = (Inr hits, u)" "on_evidence (?add hits) u = (Inr g, t')" "ret (Gathered g) t' = (Inr v, t)"
      unfolding bind_act_Inr by blast
    then show thesis using that [of hits u g] act_keepsD [OF pre u(1)] by (simp add: ret_def)
  qed
  have ok: "evidence_ok (sv_evidence sv) (ss_evidence (fst u))" using u(3) assms(2) by (simp add: sup_step_def)
  obtain gr where gr: "add_knowledge (sv_evidence sv) hits (ss_evidence (fst u)) = Inr gr" "gr = (g, ss_evidence (fst t))"
    using u(1) by (auto simp: on_evidence_def split: prod.splits sum.splits)
  show ?thesis using add_knowledge_gathering [OF ok gr(1)] unfolding gr(2) by (auto simp: documents_reply_def Inr u(2) gathering_def)
qed (simp add: documents_reply_def)

definition finds_documents :: "'w sup_env \<Rightarrow> ('w, tool_value) sact \<Rightarrow> bool" where
  "finds_documents sv f \<longleftrightarrow> (\<forall>s res t. f s = (res, t) \<longrightarrow> sup_ok Gathers sv (fst s) \<longrightarrow> documents_reply (fst t) res)"

lemma finds_documentsD: "finds_documents sv f \<Longrightarrow> f s = (res, t) \<Longrightarrow> sup_ok Gathers sv (fst s) \<Longrightarrow> documents_reply (fst t) res"
  unfolding finds_documents_def by blast

lemma documents_reply_evidence: "ss_evidence t = ss_evidence s \<Longrightarrow> documents_reply t res = documents_reply s res"
  by (simp add: documents_reply_def)

text \<open>The snapshot of a registry, restored into it, changes nothing.\<close>

lemma restore_own:
  assumes "evidence_ok e (ss_evidence (fst u))" "restore_body (body_state (fst u)) u = (res, v)"
  shows "ss_evidence (fst v) = ss_evidence (fst u)"
proof -
  have "restore (snapshot (ss_evidence (fst u))) (ss_evidence (fst u)) = Inr (ss_evidence (fst u))"
    by (rule restore_snapshot [OF assms(1)]) simp
  then show ?thesis using assms(2)
    by (auto simp: restore_body_def body_state_def bind_act_def ask_sup_def lift_result_def update_sup_def)
qed

lemma checkpointed_documents:
  assumes cp: "fresh_calls sv" "sv_checkpoint sv = Some cp" and f: "act_keeps (sup_step Gathers sv) f" "finds_documents sv f"
  shows "finds_documents sv (checkpointed cp name inputs idempotent f)"
  unfolding finds_documents_def
proof (intro allI impI)
  fix s res t assume run: "checkpointed cp name inputs idempotent f s = (res, t)" and ok: "sup_ok Gathers sv (fst s)"
  let ?call = "execute_tool idempotent f"
  show "documents_reply (fst t) res"
  proof (cases "\<exists>v. res = Inr v")
    case False
    then show ?thesis by (simp add: documents_reply_def)
  next
    case True
    then obtain v where v: "res = Inr v" by blast
    obtain saved u x y where c: "checkpoint_call cp name inputs idempotent ?call s = (Inr saved, u)"
      "restore_body (sc_body saved) u = (Inr x, y)"
      and d: "(case sc_error saved of Some (c, status) \<Rightarrow> raising (AppError c status)
        | None \<Rightarrow> lift_result (require_row (sc_value saved) (OtherError ''AttributeError''))) y = (Inr v, t)"
      using run unfolding v checkpointed_def bind_act_Inr by blast
    have out: "sc_error saved = None" "sc_value saved = Some v" "t = y"
      using d by (auto simp: raising_def lift_result_def require_row_def split: option.splits)
    have fresh: "cp_begin cp key args idempotent w \<noteq> (Inr (Some z), w')" for key args w z w'
      using cp unfolding fresh_calls_def gives_back_def by blast
    obtain w t' w1 w2 where call: "?call (fst s, w) = (Inr saved, t', w1)" "u = (t', w2)"
      using c(1) fresh by (auto simp: checkpoint_call_def Let_def and_then_def confirmed_def split: prod.splits sum.splits option.splits)
    have b: "sc_body saved = body_state (fst u)" using execute_tool_body [OF call(1)] call(2) by simp
    have fv: "f (fst s, w) = (Inr v, t', w1)"
      using call(1) out(1,2) by (auto simp: execute_tool_def split: prod.splits sum.splits option.splits if_splits)
    have "sup_step Gathers sv (fst s) t'" using act_keepsD [OF f(1) fv] by simp
    then have "evidence_ok (sv_evidence sv) (ss_evidence (fst u))" using ok call(2) by (simp add: sup_step_def)
    then have same: "ss_evidence (fst t) = ss_evidence t'" using restore_own c(2) b call(2) out(3) by fastforce
    have "documents_reply t' (Inr v)" using finds_documentsD [OF f(2) fv] ok by simp
    then show ?thesis unfolding v documents_reply_evidence [OF same] .
  qed
qed

lemma remaining_state: "remaining sv s = (res, t) \<Longrightarrow> fst t = fst s"
  by (auto simp: remaining_def bind_act_def outside_def ret_def raising_def split: prod.splits sum.splits option.splits if_splits)

lemma attempt_documents:
  assumes "fresh_calls sv" "act_keeps (sup_step Gathers sv) f" "finds_documents sv f"
  shows "finds_documents sv (attempt sv name inputs idempotent f)"
proof -
  let ?m = "case sv_checkpoint sv of Some cp \<Rightarrow> checkpointed cp name inputs idempotent f | None \<Rightarrow> f"
  have m: "finds_documents sv ?m"
    using assms checkpointed_documents by (auto split: option.splits)
  show ?thesis
    unfolding finds_documents_def
  proof (intro allI impI)
    fix s res t assume run: "attempt sv name inputs idempotent f s = (res, t)" and ok: "sup_ok Gathers sv (fst s)"
    obtain r u where u: "?m s = (r, u)" by (cases "?m s")
    have d: "documents_reply (fst u) r" by (rule finds_documentsD [OF m u ok])
    show "documents_reply (fst t) res"
    proof (cases res)
      case (Inr v)
      then have "bind_act ?m (\<lambda>v. bind_act (remaining sv) (\<lambda>_. ret v)) s = (Inr v, t)" using run by (simp add: attempt_def)
      then obtain w where "r = Inr v" "remaining sv u = (Inr w, t)"
        unfolding bind_act_Inr using u by (auto simp: ret_def)
      then have "r = Inr v" "fst t = fst u" using remaining_state by blast+
      then show ?thesis using d Inr by simp
    qed (simp add: documents_reply_def)
  qed
qed

text \<open>The reply of an instrumented search.\<close>

lemma instrument_documents:
  assumes h: "fresh_calls sv" "act_keeps (sup_step Gathers sv) f" "finds_documents sv f"
    and run: "as_reply (instrument sv name scope inputs idempotent f) s = (Inr reply, t)" and ok: "sup_ok Gathers sv (fst s)"
  shows "\<forall>n\<in>reply_numbers reply. has_type ''knowledge'' (ss_evidence (fst t)) n"
proof -
  obtain r where r: "instrument sv name scope inputs idempotent f s = (Inr r, t)" "reply_numbers reply \<noteq> {} \<Longrightarrow> \<exists>g. r = Tool_ok (Gathered g) \<and> reply = Found g"
  proof -
    obtain r u where u: "instrument sv name scope inputs idempotent f s = (Inr r, u)" "(case r of Tool_ok (Gathered g) \<Rightarrow> ret (Found g)
        | Tool_failed c \<Rightarrow> ret (Search_failed c) | _ \<Rightarrow> raising (OtherError ''KeyError'')) u = (Inr reply, t)"
      using run unfolding as_reply_def bind_act_Inr by blast
    then show thesis using that [of r]
      by (cases r) (auto simp: ret_def raising_def split: tool_value.splits)
  qed
  show ?thesis
  proof (cases "reply_numbers reply = {}")
    case False
    then obtain g where g: "r = Tool_ok (Gathered g)" "reply = Found g" using r(2) by blast
    let ?pre = "bind_act (remaining sv) (\<lambda>_.
     bind_act (if has_execution sv \<and> scope \<noteq> None then outside (sv_validate sv scope) else ret ()) (\<lambda>_.
     bind_act (ask_sup (\<lambda>s. ct_tools (ss_counters s))) (\<lambda>n.
     bind_act (lift_result (raise_if (sv_max_tools sv \<le> n) limit_exceeded)) (\<lambda>_.
     bind_act (bump (\<lambda>c. c\<lparr>ct_tools := ct_tools c + 1\<rparr>)) ret))))"
    have pre: "act_keeps (sup_step Gathers sv) ?pre"
      by (intro sup_bind keeps_remaining keeps_limited sup_pure) (auto intro: keeps_outside sup_pure)
    have split: "instrument sv name scope inputs idempotent f = bind_act ?pre (\<lambda>_. tool_recorded name (attempt sv name inputs idempotent f))"
      unfolding instrument_def by (rule ext) (simp add: bind_act_def ret_def split: prod.split sum.split)
    have "bind_act ?pre (\<lambda>_. tool_recorded name (attempt sv name inputs idempotent f)) s = (Inr r, t)" using r(1) split by simp
    then obtain a u where u: "?pre s = (Inr a, u)" "tool_recorded name (attempt sv name inputs idempotent f) u = (Inr r, t)"
      unfolding bind_act_Inr by blast
    have ok': "sup_ok Gathers sv (fst u)" using act_keepsD [OF pre u(1)] ok by (simp add: sup_step_def)
    obtain v where v: "attempt sv name inputs idempotent f u = (Inr (Gathered g), v)" "ss_evidence (fst t) = ss_evidence (fst v)"
      using u(2) g(1) by (auto simp: tool_recorded_def add_tool_event_def split: prod.splits sum.splits option.splits if_splits)
    have "documents_reply (fst v) (Inr (Gathered g))" by (rule finds_documentsD [OF attempt_documents [OF h] v(1) ok'])
    then show ?thesis by (simp add: documents_reply_def v(2) g(2))
  qed simp
qed

lemma search_finds: "finds_documents sv (search_knowledge_body sv query hint)"
  unfolding finds_documents_def using search_body_documents by blast

lemma lowered_search:
  assumes cp: "fresh_calls sv"
  shows "searches_documents (sv_evidence sv)
    (lower_act (as_reply (instrument sv name scope inputs idempotent (search_knowledge_body sv query hint))))"
  unfolding searches_documents_def
proof (intro allI impI)
  let ?m = "instrument sv name scope inputs idempotent (search_knowledge_body sv query hint)"
  fix r :: evidence and w res r' w'
  assume ok: "evidence_ok (sv_evidence sv) r" and run: "lower_act (as_reply ?m) (r, w) = (res, r', w')"
  obtain s v where w: "w = (s, v)" by (cases w)
  obtain s' v' where w': "w' = (s', v')" by (cases w')
  have keep: "act_keeps (sup_step Gathers sv) (as_reply ?m)" by (intro keeps_as_reply keeps_wrapped replays_okI(4) cp keeps_search_body) simp_all
  have grow: "evidence_ok (sv_evidence sv) r' \<and> evidence_grows r r'" by (rule lower_evidence [OF keep ok run [unfolded w w']])
  have m: "as_reply ?m (s\<lparr>ss_evidence := r\<rparr>, v) = (res, s', v')" "r' = ss_evidence s'"
    using run by (auto simp: lower_act_def w w' split: prod.splits)
  have "has_type ''knowledge'' r' n" if "res = Inr reply" "n \<in> reply_numbers reply" for reply n
    using instrument_documents [OF cp keeps_search_body search_finds m(1) [unfolded that(1)]] ok that(2) m(2) by auto
  then show "evidence_ok (sv_evidence sv) r' \<and> evidence_grows r r' \<and>
      (\<forall>reply. res = Inr reply \<longrightarrow> (\<forall>n\<in>reply_numbers reply. has_type ''knowledge'' r' n))" using grow by blast
qed

section \<open>The supervisor provides the workflow\<close>

lemma remaining_leaves: "fst (snd (remaining sv s)) = fst s"
  using remaining_state by (metis prod.collapse)

lemma lowered_ask: "leaves_evidence (lower_act (ask_model sv role q))"
  unfolding leaves_evidence_def
proof
  fix s :: "evidence \<times> sup_state \<times> 'a"
  let ?s = "((fst (snd s))\<lparr>ss_evidence := fst s\<rparr>, snd (snd s))"
  obtain res u v where m: "ask_model sv role q ?s = (res, u, v)" by (metis prod_cases3)
  then have "u = fst ?s"
    by (auto simp: ask_model_def bind_act_def outside_def ret_def dest: remaining_state split: prod.splits sum.splits)
  then show "fst (snd (lower_act (ask_model sv role q) s)) = fst s" by (simp add: lower_act_def m)
qed

lemma lowered_reserve: "leaves_evidence (lower_act (reserve_rewrite sv))"
  by (simp add: leaves_evidence_def lower_act_def reserve_rewrite_def bind_act_def ask_sup_def ret_def bump_def update_sup_def)

locale fresh_supervisor =
  fixes sv :: "'w sup_env"
  assumes fresh: "fresh_calls sv"
begin

lemma provides: "knowledge_provider (sv_evidence sv) (knowledge_of sv)"
  by (cases "sv_phrases sv", unfold_locales)
    (auto simp: knowledge_of_def search_knowledge_def search_rewritten_knowledge_def
      intro: lowered_ask lowered_reserve lowered_search [OF fresh])

end

sublocale fresh_supervisor \<subseteq> workflow: knowledge_provider "sv_evidence sv" "knowledge_of sv"
  by (rule provides)

text \<open>
  An execution that uses only stored results of some kind: with a checkpoint that raises instead of giving back any
  other, the run does exactly the same. An execution is fresh when it uses none, as the first one of a durable run.
\<close>

definition screen_replays :: "(saved_call \<Rightarrow> bool) \<Rightarrow> 'w checkpoint_api \<Rightarrow> 'w checkpoint_api" where
  "screen_replays P cp = cp\<lparr>cp_begin := (\<lambda>key inputs idempotent w. case cp_begin cp key inputs idempotent w of
     (Inr (Some saved), w') \<Rightarrow> (if P saved then Inr (Some saved) else Inl diverged, w') | out \<Rightarrow> out)\<rparr>"

definition screened :: "(saved_call \<Rightarrow> bool) \<Rightarrow> 'w sup_env \<Rightarrow> 'w sup_env" where
  "screened P sv = sv\<lparr>sv_checkpoint := map_option (screen_replays P) (sv_checkpoint sv)\<rparr>"

definition replays_only ::
    "(saved_call \<Rightarrow> bool) \<Rightarrow> 'w sup_env \<Rightarrow> (string \<Rightarrow> string \<times> string \<times> json) \<Rightarrow> bool \<Rightarrow>
     ('w, memory_item list \<times> string list) wact option \<Rightarrow> sup_state \<times> 'w \<Rightarrow> bool" where
  "replays_only P sv builtin remembers memories st \<longleftrightarrow>
     run_supervisor (screened P sv) builtin remembers memories st = run_supervisor sv builtin remembers memories st"

abbreviation fresh_execution where
  "fresh_execution \<equiv> replays_only (\<lambda>_. False)"

lemma screened_fields [simp]:
  "sv_quality (screened P sv) = sv_quality sv" "sv_max_searches (screened P sv) = sv_max_searches sv"
  "sv_evidence (screened P sv) = sv_evidence sv" "start_state (screened P sv) budget = start_state sv budget"
  by (simp_all add: screened_def start_state_def)

lemma screened_gives_back: "gives_back (screened P sv) saved \<Longrightarrow> P saved"
  by (auto simp: gives_back_def screened_def screen_replays_def split: prod.splits sum.splits option.splits if_splits)

lemma no_checkpoint_replays: "sv_checkpoint sv = None \<Longrightarrow> replays_only P sv builtin remembers memories st"
  by (cases sv) (simp add: replays_only_def screened_def)

interpretation direct: fresh_supervisor "sv\<lparr>sv_checkpoint := None\<rparr>" for sv
  by unfold_locales simp

interpretation first: fresh_supervisor "screened (\<lambda>_. False) sv" for sv
  by unfold_locales (auto simp: fresh_calls_def dest: screened_gives_back)

lemma accepted_iff: "entries_ok r \<Longrightarrow> n \<in> accepted r \<inter> knowledge_numbers r \<longleftrightarrow> has_type ''knowledge'' r n \<and> n \<notin> ev_excluded r"
  by (auto simp: knowledge_numbers_iff accepted_def source_numbers has_type_def)

lemma extends_type: "evidence_extends r r' \<Longrightarrow> n \<in> accepted r \<Longrightarrow> entries_ok r \<Longrightarrow> has_type kind r' n \<Longrightarrow> has_type kind r n"
proof -
  assume h: "evidence_extends r r'" "n \<in> accepted r" "entries_ok r" "has_type kind r' n"
  have n: "1 \<le> n \<and> n \<le> length (ev_entries r)" using h(2) by (auto simp: accepted_def source_numbers [OF h(3)])
  then have "has_type (entry_type (ev_entries r ! (n - 1))) r n" by (simp add: has_type_def)
  then have "has_type (entry_type (ev_entries r ! (n - 1))) r' n" by (rule has_type_extends [OF h(1)])
  then show ?thesis using h(4) n by (simp add: has_type_def)
qed

lemma quality_keeps:
  assumes cp: "replays_ok b sv" and b: "b \<in> {Limits, Searches, Extends, Approved}"
  shows "act_keeps (sup_step b sv) (quality_report sv task)"
  unfolding act_keeps_def
proof
  fix sw :: "sup_state \<times> 'a"
  obtain s w where sw: "sw = (s, w)" by (cases sw)
  show "sup_step b sv (fst sw) (fst (snd (quality_report sv task sw)))"
  proof (cases "knowledge_run (knowledge_of sv) task (sv_question sv) (ss_evidence s, s, w)")
    case None
    then show ?thesis by (simp add: quality_report_def sw)
  next
    case (Some out)
    obtain res ks s' w' where out: "out = (res, ks, s', w')" by (metis prod_cases4)
    note run = Some [unfolded out]
    note frame = knowledge_run_frame [OF run]
    let ?t = "s'\<lparr>ss_evidence := ks_evidence ks, ss_knowledge := ss_knowledge s' @ [ks_event ks]\<rparr>"
    have t: "fst (snd (quality_report sv task sw)) = ?t" by (simp add: quality_report_def sw run)
    have safe: "evidence_ok (sv_evidence sv) (ks_evidence ks)" "evidence_extends (ss_evidence s) (ks_evidence ks)"
        "documents_approved s \<Longrightarrow> documents_approved ?t"
      if ok: "evidence_ok (sv_evidence sv) (ss_evidence s)" and fresh: "fresh_calls sv"
    proof -
      have provider: "knowledge_provider (sv_evidence sv) (knowledge_of sv)"
        by (rule fresh_supervisor.provides) (simp add: fresh_supervisor_def fresh)
      note run_safe = knowledge_provider.run_safe [OF provider ok run]
      show ok': "evidence_ok (sv_evidence sv) (ks_evidence ks)" and ext: "evidence_extends (ss_evidence s) (ks_evidence ks)"
        using run_safe by blast+
      note eo = evidence_okD(1) [OF ok] evidence_okD(1) [OF ok']
      assume app: "documents_approved s"
      show "documents_approved ?t"
        unfolding documents_approved_def
      proof (intro allI impI)
        fix n assume n: "has_type ''knowledge'' (ss_evidence ?t) n" "n \<notin> ev_excluded (ss_evidence ?t)"
        then have "n \<in> accepted (ks_evidence ks) \<inter> knowledge_numbers (ks_evidence ks)" using accepted_iff [OF eo(2)] by simp
        then have "n \<in> accepted (ss_evidence s) \<or> n \<in> ks_approved ks" using run_safe by blast
        then show "\<exists>v\<in>set (ss_knowledge ?t). \<exists>g\<in>set (kv_grades v). passing g \<and> int n \<in> set (kg_supported g)"
        proof
          assume acc: "n \<in> accepted (ss_evidence s)"
          then have "has_type ''knowledge'' (ss_evidence s) n" using extends_type [OF ext _ eo(1)] n(1) by simp
          then show ?thesis using app acc frame(2) by (auto simp: documents_approved_def accepted_def)
        next
          assume mem: "n \<in> ks_approved ks"
          then obtain g where "passing g" "kv_grades (ks_event ks) \<noteq> []" "last (kv_grades (ks_event ks)) = g"
            "int ` ks_approved ks = set (kg_supported g)" using run_safe by blast
          then have "g \<in> set (kv_grades (ks_event ks)) \<and> passing g \<and> int n \<in> set (kg_supported g)" using mem by auto
          then show ?thesis by auto
        qed
      qed
    qed
    show ?thesis
    proof (cases "b \<in> {Limits, Searches}")
      case True
      then have "sup_ok b sv s \<Longrightarrow> sup_ok b sv ?t" using frame(1) [of b] cp by (auto simp: all_delegations_def delegations_to_def)
      then show ?thesis unfolding t using True by (auto simp: sup_step_def sw simp del: sup_ok.simps)
    next
      case False
      then have "fresh_calls sv" using replays_ok_fresh [OF cp] b by auto
      then show ?thesis unfolding t using b False safe by (auto simp: sup_step_def sw)
    qed
  qed
qed

section \<open>Delegation\<close>

lemma keeps_specialist:
  assumes cp: "replays_ok b sv" and b: "b \<in> {Limits, Searches, Extends, Approved}" and q: "b = Approved \<Longrightarrow> sv_quality sv"
  shows "act_keeps (sup_step b sv) (specialist_report sv role task)"
proof (cases "role = ''rag'' \<and> sv_quality sv")
  case True
  then show ?thesis using quality_keeps [OF cp b] by (simp add: specialist_report_def)
next
  case False
  have "act_keeps (sup_step b sv) (specialist_tool sv c)" if "role_has sv role c" for c
    by (rule keeps_specialist_tool [OF cp]) (use that False b q in \<open>cases c; auto\<close>)
  then show ?thesis using False by (auto simp: specialist_report_def intro!: sup_bind keeps_invoke sup_pure)
qed

text \<open>A delegation counts once, for its role.\<close>

lemma update_sum:
  "sum_list (map snd (AList.update k (Suc (case map_of al k of None \<Rightarrow> 0 | Some n \<Rightarrow> n)) al)) = Suc (sum_list (map snd al))"
  by (induction al) auto

lemma delegations_step:
  assumes "all_delegations s < sv_max_delegations sv" "delegations_to role s < sv_max_per_agent sv"
  shows "sup_step b sv s (s\<lparr>ss_delegations := AList.update role (delegations_to role s + 1) (ss_delegations s)\<rparr>)"
proof -
  let ?t = "s\<lparr>ss_delegations := AList.update role (delegations_to role s + 1) (ss_delegations s)\<rparr>"
  have "all_delegations ?t = Suc (all_delegations s)"
    using update_sum [of role "ss_delegations s"] by (simp add: all_delegations_def delegations_to_def)
  moreover have "delegations_to r ?t = (if r = role then Suc (delegations_to role s) else delegations_to r s)" for r
    by (simp add: delegations_to_def update_conv')
  ultimately show ?thesis
    using assms by (cases b) (auto simp: sup_step_def distinct_update documents_approved_def no_documents_order)
qed

lemma settle_state:
  assumes "settle_delegation role failures (res, t) = (out, u)"
  shows "sup_step b sv (fst t) (fst u)"
  using assms sup_step_trans [OF sup_step_events(2) keeps_update(1)]
  by (cases t) (auto simp: settle_delegation_def Let_def add_agent_event_def add_failure_def intro!: unseen_step split: sum.splits option.splits)

lemma keeps_delegate:
  assumes cp: "replays_ok b sv" and b: "b \<in> {Limits, Searches, Extends, Approved}" and q: "b = Approved \<Longrightarrow> sv_quality sv"
  shows "act_keeps (sup_step b sv) (delegate sv role task)"
proof -
  let ?work = "\<lambda>s. (\<lambda>st. settle_delegation role (length (ss_failures s))
        (bind_act (specialist_report sv role task) (\<lambda>rep.
         bind_act (evidence_used (length (ss_tool_events s)) rep) (\<lambda>_. ret rep)) st))"
  have work: "act_keeps (sup_step b sv) (?work s)" for s
    unfolding act_keeps_def
  proof
    fix st
    let ?m = "bind_act (specialist_report sv role task) (\<lambda>rep. bind_act (evidence_used (length (ss_tool_events s)) rep) (\<lambda>_. ret rep))"
    obtain res t where m: "?m st = (res, t)" by (cases "?m st")
    obtain out u where o: "settle_delegation role (length (ss_failures s)) (res, t) = (out, u)"
      by (cases "settle_delegation role (length (ss_failures s)) (res, t)")
    have "act_keeps (sup_step b sv) ?m"
      using cp b q by (auto simp: evidence_used_def intro!: sup_bind sup_pure keeps_specialist keeps_ask)
    then have "sup_step b sv (fst st) (fst t)" using m by (rule act_keepsD)
    then show "sup_step b sv (fst st) (fst (snd (?work s st)))" using sup_step_trans [OF _ settle_state [OF o]] m o by simp
  qed
  let ?limited = "bind_act (ask_sup (\<lambda>s. s)) (\<lambda>s.
     bind_act (lift_result (raise_if (sv_max_delegations sv \<le> all_delegations s \<or> sv_max_per_agent sv \<le> delegations_to role s) limit_exceeded)) (\<lambda>_.
     bind_act (lift_result (raise_if (strip task = [] \<or> 4000 < length task) tool_not_allowed)) (\<lambda>_.
     bind_act (update_sup (\<lambda>s. s\<lparr>ss_delegations := AList.update role (delegations_to role s + 1) (ss_delegations s)\<rparr>)) (\<lambda>_. ?work s))))"
  have "act_keeps (sup_step b sv) ?limited"
    unfolding act_keeps_def
  proof
    fix st :: "sup_state \<times> 'a"
    let ?full = "sv_max_delegations sv \<le> all_delegations (fst st) \<or> sv_max_per_agent sv \<le> delegations_to role (fst st)"
    show "sup_step b sv (fst st) (fst (snd (?limited st)))"
    proof (cases "?full \<or> strip task = [] \<or> 4000 < length task")
      case True
      then show ?thesis by (auto simp: bind_act_def ask_sup_def lift_result_def raise_if_def split: sum.split)
    next
      case False
      let ?t = "(fst st)\<lparr>ss_delegations := AList.update role (delegations_to role (fst st) + 1) (ss_delegations (fst st))\<rparr>"
      have eq: "?limited st = ?work (fst st) (?t, snd st)"
        using False by (simp add: bind_act_def ask_sup_def lift_result_def raise_if_def update_sup_def)
      have "sup_step b sv (fst st) ?t" using False by (intro delegations_step) simp_all
      moreover have "sup_step b sv ?t (fst (snd (?work (fst st) (?t, snd st))))"
        using spec [OF work [of "fst st", unfolded act_keeps_def], of "(?t, snd st)"] unfolding fst_conv .
      ultimately show ?thesis unfolding eq by (rule sup_step_trans)
    qed
  qed
  then show ?thesis unfolding delegate_def by (rule sup_bind [OF keeps_remaining])
qed

section \<open>The supervisor's tools\<close>

lemma keeps_http: "act_keeps (sup_step b sv) (execute_http sv name tool arguments)"
  unfolding execute_http_def by (auto intro!: sup_bind keeps_outside keeps_registry sup_pure)

lemma keeps_public:
  assumes "replays_ok b sv"
  shows "act_keeps (sup_step b sv) (invoke_public_tool sv name)"
proof -
  have report: "act_keeps (sup_step b sv) (public_report sv name tool query)" for tool query
    unfolding public_report_def
    by (auto intro!: sup_bind keeps_ask keeps_outside keeps_invoke keeps_instrument assms keeps_http sup_pure)
  have settled: "act_keeps (sup_step b sv) (\<lambda>st. settle_public name (public_report sv name tool query st))" for tool query
    unfolding act_keeps_def
  proof
    fix st
    obtain res t w where m: "public_report sv name tool query st = (res, t, w)" by (metis prod_cases3)
    have "sup_step b sv (fst st) t" using act_keepsD [OF report m] by simp
    moreover have "sup_step b sv t (fst (snd (settle_public name (res, t, w))))"
      by (auto simp: settle_public_def add_agent_event_def add_failure_def intro!: unseen_step split: sum.splits option.splits)
    ultimately show "sup_step b sv (fst st) (fst (snd (settle_public name (public_report sv name tool query st))))"
      unfolding m by (rule sup_step_trans)
  qed
  show ?thesis
    unfolding invoke_public_tool_def
    by (auto intro!: sup_bind keeps_outside settled sup_pure split: option.split list.split)
qed

lemma keeps_matching:
  "act_keeps (sup_step b sv) (matching_tools sv x builtin query names)" "act_keeps (sup_step b sv) (matching_skills sv x query items)"
proof -
  show "act_keeps (sup_step b sv) (matching_tools sv x builtin query names)"
    by (induction names) (auto intro!: sup_bind keeps_outside sup_pure simp: Let_def split: option.split prod.split)
  show "act_keeps (sup_step b sv) (matching_skills sv x query items)"
    by (induction items) (auto intro!: sup_bind sup_except keeps_outside sup_pure)
qed

lemma keeps_search_tools: "act_keeps (sup_step b sv) (search_tools_body sv builtin query limit)"
  unfolding search_tools_body_def by (auto intro!: sup_bind keeps_matching sup_pure split: option.split)

lemma keeps_sandbox: "act_keeps (sup_step b sv) (sandbox_body sv language src)"
  unfolding sandbox_body_def by (auto intro!: sup_bind keeps_outside keeps_registry sup_pure split: option.split)

lemma keeps_supervisor_tool:
  assumes "replays_ok b sv" "b \<in> {Limits, Searches, Extends, Approved}" "b = Approved \<Longrightarrow> sv_quality sv"
  shows "act_keeps (sup_step b sv) (supervisor_tool sv builtin c)"
  using assms
  by (cases c) (auto simp: save_memory_body_def intro!: keeps_delegate keeps_public keeps_instrument keeps_search_tools keeps_sandbox sup_bind
      keeps_outside sup_pure)

section \<open>Runs\<close>

lemma keeps_find: "act_keeps (sup_step b sv) (find_memories sv f)"
proof -
  have "act_keeps (sup_step b sv) (update_sup (\<lambda>s. s\<lparr>ss_evidence := (ss_evidence s)\<lparr>ev_warnings := ev_warnings (ss_evidence s) \<union> set ws\<rparr>\<rparr>))" for ws
    unfolding act_keeps_def update_sup_def using notes_ok(3)
    by (auto intro!: evidence_step simp: no_documents_def has_type_def)
  then show ?thesis unfolding find_memories_def by (auto intro!: sup_bind keeps_outside keeps_registry split: prod.split)
qed

lemma keeps_recall_others:
  assumes "replays_ok b sv" "b \<noteq> Approved"
  shows "act_keeps (sup_step b sv) (recall sv memories)"
proof -
  have "act_keeps (sup_step b sv) (bind_act (checkpoint_call cp ''memory_search'' (JObj []) True (save_memories sv f)) (\<lambda>saved.
      bind_act (restore_body (sc_body saved)) (\<lambda>_. ret (saved_sources saved))))" if "sv_checkpoint sv = Some cp" for cp f
    by (intro called_step assms that)
      (auto simp: save_memories_def bind_act_Inr ask_sup_def ret_def intro!: sup_bind keeps_find keeps_ask sup_pure)
  then show ?thesis unfolding recall_def by (auto intro!: sup_bind keeps_find sup_pure split: option.split)
qed

lemma keeps_recall:
  assumes "replays_ok b sv"
  shows "act_keeps (sup_step b sv) (recall sv memories)"
proof (cases "b = Approved")
  case True
  have "fresh_calls sv" using replays_ok_fresh [OF assms] True by simp
  then have "act_keeps (sup_step Others sv) (recall sv memories)" by (intro keeps_recall_others) simp_all
  then show ?thesis using True others_approved unfolding act_keeps_def by blast
qed (use keeps_recall_others assms in blast)

lemma keeps_accept: "act_keeps (sup_step b sv) (accept_final sv m)"
  unfolding accept_final_def by (auto intro!: sup_bind keeps_ask keeps_outside keeps_remaining sup_pure split: sum.split)

lemma run_keeps:
  assumes "replays_ok b sv" "b \<in> {Limits, Searches, Extends, Approved}" "b = Approved \<Longrightarrow> sv_quality sv"
  shows "act_keeps (sup_step b sv) (run_supervisor sv builtin remembers memories)"
  unfolding run_supervisor_def by (intro sup_bind keeps_recall keeps_invoke keeps_accept keeps_supervisor_tool assms)

lemma start_ok: "sup_ok b sv (start_state sv budget)"
proof -
  have "evidence_ok (sv_evidence sv) (new_evidence (evidence_token_budget budget))"
    by (rule new_evidence_ok) (simp add: evidence_token_budget_def)
  then show ?thesis
    by (cases b) (simp_all add: start_state_def all_delegations_def delegations_to_def documents_approved_def has_type_def new_evidence_def)
qed

lemma run_ok:
  assumes "replays_ok b sv" "run_supervisor sv builtin remembers memories (start_state sv budget, w) = (res, s, w')"
    and "b \<in> {Limits, Searches, Extends, Approved}" "b = Approved \<Longrightarrow> sv_quality sv"
  shows "sup_ok b sv s"
proof -
  have "sup_step b sv (start_state sv budget) s"
    using act_keepsD [OF run_keeps [OF assms(1,3,4)] assms(2)] by simp
  then show ?thesis using start_ok [of b sv budget] by (simp add: sup_step_def)
qed

text \<open>
  C5: However the models behave and whatever a checkpoint gives back of earlier attempts, one execution of a
  run calls tools, rewrites queries and delegates (in total and to any one specialist) no more often than its limits
  allow, whether it answers or fails. The same holds of the searches when no stored result the execution uses counts
  more of them than the limit, so always in a fresh execution.
\<close>

theorem supervisor_within_limits:
  assumes "run_supervisor sv builtin remembers memories (start_state sv budget, w) = (res, s, w')"
  shows "ct_tools (ss_counters s) \<le> sv_max_tools sv \<and> ct_rewrites (ss_counters s) \<le> 1 \<and>
    all_delegations s \<le> sv_max_delegations sv \<and> (\<forall>role. delegations_to role s \<le> sv_max_per_agent sv) \<and>
    (replays_only (\<lambda>saved. bo_searches (sc_body saved) \<le> sv_max_searches sv) sv builtin remembers memories (start_state sv budget, w) \<longrightarrow>
       ct_searches (ss_counters s) \<le> sv_max_searches sv)"
proof -
  let ?sv = "screened (\<lambda>saved. bo_searches (sc_body saved) \<le> sv_max_searches sv) sv"
  have "searches_within ?sv" by (auto simp: searches_within_def dest: screened_gives_back)
  then have "ct_searches (ss_counters s) \<le> sv_max_searches sv"
    if "run_supervisor ?sv builtin remembers memories (start_state ?sv budget, w) = (res, s, w')"
    using run_ok [OF _ that, of Searches] by simp
  then show ?thesis using run_ok [OF _ assms, of Limits] assms by (simp add: replays_only_def)
qed

text \<open>An accepted answer was checked against the state the run ends in.\<close>

lemma accept_final_checked:
  assumes "accept_final sv m st = (Inr ((fa, cs), repaired), t)"
  shows "fst t = fst st \<and> (\<exists>m'. parse_final sv (fst st) m' = Inr (fa, cs))"
proof (cases "parse_final sv (fst st) m")
  case (Inr a)
  then have "bind_act (remaining sv) (\<lambda>_. ret (a, False)) st = (Inr ((fa, cs), repaired), t)"
    using assms by (simp add: accept_final_def bind_act_def [of "ask_sup f" for f] ask_sup_def)
  then obtain x where "remaining sv st = (Inr x, t)" "a = (fa, cs)" unfolding bind_act_Inr ret_def by auto
  then show ?thesis using Inr remaining_state by blast
next
  case (Inl x)
  let ?repair = "outside (sv_repair sv (eligible_sources (ss_evidence (fst st))) (eligible_contexts (ss_evidence (fst st)))
      (ss_knowledge (fst st)) (ss_failures (fst st)))"
  have "bind_act ?repair (\<lambda>m'. bind_act (ask_sup (\<lambda>s. parse_final sv s m')) (\<lambda>r. bind_act (lift_result r) (\<lambda>a.
        bind_act (remaining sv) (\<lambda>_. ret (a, True))))) st = (Inr ((fa, cs), repaired), t)"
    using assms Inl by (simp add: accept_final_def bind_act_def [of "ask_sup (\<lambda>s. s)"] ask_sup_def raising_def split: if_splits)
  then obtain m' u r v a v' y where r: "?repair st = (Inr m', u)" "ask_sup (\<lambda>s. parse_final sv s m') u = (Inr r, v)"
    "lift_result r v = (Inr a, v')" "remaining sv v' = (Inr y, t)" "a = (fa, cs)" unfolding bind_act_Inr ret_def by auto
  have "fst u = fst st" using r(1) by (auto simp: outside_def split: prod.splits)
  moreover have "parse_final sv (fst u) m' = Inr a" "v' = u" using r(2,3) by (auto simp: ask_sup_def lift_result_def)
  ultimately show ?thesis using remaining_state [OF r(4)] r(5) by auto
qed

lemma run_checked:
  assumes "run_supervisor sv builtin remembers memories st = (Inr ((fa, cs), repaired), s, w')"
  shows "\<exists>m. parse_final sv s m = Inr (fa, cs)"
proof -
  obtain m u where "accept_final sv m u = (Inr ((fa, cs), repaired), s, w')"
    using assms unfolding run_supervisor_def bind_act_Inr by blast
  from accept_final_checked [OF this] show ?thesis by auto
qed

lemma parse_final_checked:
  assumes "parse_final sv s m = Inr (fa, cs)"
  shows "read_final m = Some fa" "check_citations (fa_kind fa) (fa_answer fa) (mode_name (rx_mode (sv_context sv))) (ss_evidence s) = Inr cs"
    "ss_knowledge s \<noteq> [] \<Longrightarrow> list_all (\<lambda>x. so_type x = ''memory'') (eligible_sources (ss_evidence s)) \<Longrightarrow>
       fa_kind fa \<in> {''insufficient'', ''clarification''}"
  using assms by (auto simp: parse_final_def result_simps require_row_def split: option.splits)

text \<open>
  C3: With the knowledge workflow on, in a fresh execution, one without a checkpoint or with one that uses no stored
  result, an accepted answer cites a document only when a passing grade of the same run supports
  that very number: relevance strong, answerability sufficient, no ambiguity. No other tool, specialist or
  failed workflow makes a document citable.
\<close>

theorem cited_documents_approved:
  assumes "fresh_execution sv builtin remembers memories (start_state sv budget, w)" "sv_quality sv"
    and "run_supervisor sv builtin remembers memories (start_state sv budget, w) = (Inr ((fa, cs), repaired), s, w')"
  shows "\<forall>c\<in>set cs. entry_type c = ''knowledge'' \<longrightarrow>
    (\<exists>v\<in>set (ss_knowledge s). \<exists>g\<in>set (kv_grades v). passing g \<and> int (en_number c) \<in> set (kg_supported g))"
proof (intro ballI impI)
  fix c assume c: "c \<in> set cs" "entry_type c = ''knowledge''"
  have ok: "evidence_ok (sv_evidence sv) (ss_evidence s)" "documents_approved s"
    using run_ok [OF replays_okI(4) [OF first.fresh [of sv]], of builtin remembers memories budget w "Inr ((fa, cs), repaired)" s w' Approved]
      assms by (simp_all add: replays_only_def)
  have eo: "entries_ok (ss_evidence s)" by (rule evidence_okD(1) [OF ok(1)])
  obtain m where "parse_final sv s m = Inr (fa, cs)" using run_checked [OF assms(3)] by blast
  from checked_citations [OF eo parse_final_checked(2) [OF this]] c(1)
  have in_set: "c \<in> set (ev_entries (ss_evidence s))" and free: "en_number c \<notin> ev_excluded (ss_evidence s)" by blast+
  obtain i where i: "i < length (ev_entries (ss_evidence s))" "ev_entries (ss_evidence s) ! i = c"
    using in_set by (auto simp: in_set_conv_nth)
  have "en_number c = Suc i" using eo i by (auto simp: entries_ok_def entry_ok_def)
  then have "has_type ''knowledge'' (ss_evidence s) (en_number c)" using i c(2) by (simp add: has_type_def)
  then show "\<exists>v\<in>set (ss_knowledge s). \<exists>g\<in>set (kv_grades v). passing g \<and> int (en_number c) \<in> set (kg_supported g)"
    using ok(2) free by (simp add: documents_approved_def)
qed

text \<open>What the acceptance of citations gives of any registry.\<close>

lemma accepted_citations:
  assumes "check_citations kind answer mode r = Inr cs"
  shows "kind = ''clarification'' \<longrightarrow> cs = []" "kind = ''grounded'' \<longrightarrow> cs \<noteq> []"
    "kind \<noteq> ''clarification'' \<longrightarrow> (\<forall>n. n \<in> en_number ` set cs \<longleftrightarrow> mentions answer n)"
    "\<forall>c\<in>set cs. c \<in> set (ev_entries r) \<and> en_number c \<notin> ev_excluded r \<and> mode_allows mode (entry_type c)"
proof -
  obtain ns where ns: "cited_numbers answer = Inr ns" using assms by (auto simp: check_citations_def result_simps)
  have m: "n \<in> ns \<longleftrightarrow> mentions answer n" for n by (rule cited_numbers_mentions [OF ns])
  have fin: "finite ns" using ns by (auto simp: cited_numbers_def split: if_splits)
  let ?by = "map_of (map (\<lambda>x. (en_number x, x)) (eligible_entries r))"
  have v: "\<forall>n\<in>ns. ?by n \<noteq> None" "cs = map (\<lambda>n. the (?by n)) (sorted_list_of_set ns)"
    "kind = ''grounded'' \<Longrightarrow> cs \<noteq> []" "\<forall>c\<in>set cs. mode_allows mode (entry_type c)" if "kind \<noteq> ''clarification''"
    using assms that fin by (auto simp: check_citations_def ns Let_def result_simps list_ex_iff split: if_splits)
  have at: "the (?by n) \<in> set (eligible_entries r) \<and> en_number (the (?by n)) = n" if "kind \<noteq> ''clarification''" "n \<in> ns" for n
  proof -
    have "?by n \<noteq> None" using v(1) [OF that(1)] that(2) by (rule bspec)
    then obtain x where "?by n = Some x" by blast
    then show ?thesis by (auto dest!: map_of_SomeD)
  qed
  show none: "kind = ''clarification'' \<longrightarrow> cs = []"
    using assms ns by (auto simp: check_citations_def result_simps split: if_splits)
  show "kind = ''grounded'' \<longrightarrow> cs \<noteq> []" using v(3) by auto
  show "kind \<noteq> ''clarification'' \<longrightarrow> (\<forall>n. n \<in> en_number ` set cs \<longleftrightarrow> mentions answer n)"
  proof (intro impI allI)
    fix n assume k: "kind \<noteq> ''clarification''"
    have "map en_number cs = sorted_list_of_set ns" using at [OF k] fin by (auto simp: v(2) [OF k] intro: map_idI)
    then show "n \<in> en_number ` set cs \<longleftrightarrow> mentions answer n" using m fin by (metis list.set_map set_sorted_list_of_set)
  qed
  have "set cs \<subseteq> set (eligible_entries r)" if "kind \<noteq> ''clarification''" using at [OF that] fin by (auto simp: v(2) [OF that])
  then show "\<forall>c\<in>set cs. c \<in> set (ev_entries r) \<and> en_number c \<notin> ev_excluded r \<and> mode_allows mode (entry_type c)"
    using none v(4) by (cases "kind = ''clarification''") (auto simp: eligible_entries_def)
qed


section \<open>A run\<close>

text \<open>
  The supervisor delegates one task; the planner asks for tea, the search finds one document, the grader accepts it, and the
  answer cites it.
\<close>

definition demo_supervisor :: "sup_call agent" where
  "demo_supervisor = Calls [Delegate ''rag'' ''tea?''] (\<lambda>_. Says (demo_message [(''kind'', JStr ''grounded''), (''answer'', JStr ''hot [1]'')]))"

definition demo_context :: run_context where
  "demo_context = \<lparr>rx_user = 2, rx_session = 3, rx_mode = Knowledge, rx_allowed = [4], rx_owners = [], rx_indexes = [], rx_org = None,
     rx_shared_only = False, rx_execution = None, rx_run = None, rx_approval = None\<rparr>"

definition demo_sv :: "nat sup_env" where
  "demo_sv = \<lparr>sv_evidence = demo_evidence_env, sv_context = demo_context, sv_question = ''tea?'', sv_public_query = None, sv_web_enabled = False,
     sv_web_urls = [], sv_bases = [], sv_max_tools = 3, sv_max_searches = 2, sv_max_delegations = 2, sv_max_per_agent = 1, sv_quality = True,
     sv_crawl_urls = [], sv_hierarchy = False, sv_checkpoint = None, sv_seconds = (\<lambda>w. (1, w)), sv_validate = (\<lambda>_ w. (Inr (), w)),
     sv_scope = None, sv_retrieve = (\<lambda>_ w. (Inr [demo_hit], w)), sv_web_search = (\<lambda>_ _ w. (Inr ([], None), w)), sv_web_read = None,
     sv_sql_schema = None, sv_sql_query = (\<lambda>_ _ w. (Inl value_error, w)), sv_http = None, sv_skill = (\<lambda>_ w. (Inl value_error, w)),
     sv_sandbox = None, sv_remember = (\<lambda>_ w. (Inr 5, w)), sv_public_again = (\<lambda>w. (None, w)), sv_ask = (\<lambda>_ q w. (Inr (demo_reply q), w)),
     sv_specialist = (\<lambda>_ _ w. (Exhausted, w)), sv_public_agent = (\<lambda>_ _ w. (Exhausted, w)), sv_supervisor = (\<lambda>_ w. (demo_supervisor, w)),
     sv_repair = (\<lambda>_ _ _ _ w. (Inl value_error, w)), sv_phrases = (''a'', ''b'', ''c'', ''d'', ''e'')\<rparr>"

lemmas act_defs = bind_act_def ret_def raising_def lift_result_def outside_def update_sup_def ask_sup_def bump_def on_evidence_def raise_if_def

lemma demo_fields [simp]:
  "sv_evidence demo_sv = demo_evidence_env"
  "sv_context demo_sv = demo_context"
  "sv_question demo_sv = ''tea?''"
  "sv_bases demo_sv = []"
  "sv_max_tools demo_sv = 3"
  "sv_max_searches demo_sv = 2"
  "sv_max_delegations demo_sv = 2"
  "sv_max_per_agent demo_sv = 1"
  "sv_quality demo_sv"
  "\<not> sv_hierarchy demo_sv"
  "sv_checkpoint demo_sv = None"
  "sv_retrieve demo_sv = (\<lambda>_ w. (Inr [demo_hit], w))"
  "sv_ask demo_sv = (\<lambda>_ q w. (Inr (demo_reply q), w))"
  "sv_supervisor demo_sv = (\<lambda>_ w. (demo_supervisor, w))"
  "sv_phrases demo_sv = (''a'', ''b'', ''c'', ''d'', ''e'')"
  "sv_seconds demo_sv = (\<lambda>w. (1, w))"
  "\<not> has_execution demo_sv"
  "execution_of demo_sv = None"
  by (simp_all add: demo_sv_def has_execution_def execution_of_def demo_context_def)

lemma demo_remaining: "remaining demo_sv s = (Inr 1, s)"
  by (simp add: remaining_def act_defs)

definition demo_gathered :: gathered where
  "demo_gathered = nothing_gathered\<lparr>ga_sources := [new_source 1 (knowledge_source demo_hit) ''a.txt'' ''tea is hot''\<lparr>so_excel := None\<rparr>],
     ga_contexts := Some ([], [])\<rparr>"

definition demo_registry :: evidence where
  "demo_registry = (new_evidence 1000)\<lparr>ev_entries := [\<lparr>en_number = 1, en_source = knowledge_source demo_hit, en_excerpt = ''tea is hot''\<rparr>],
     ev_keys := [((''knowledge'', ''c''), 1)], ev_used := 10,
     ev_sources := [(1, new_source 1 (knowledge_source demo_hit) ''a.txt'' ''tea is hot''\<lparr>so_excel := None\<rparr>)]\<rparr>"

lemma demo_added: "add_knowledge demo_evidence_env [demo_hit] (new_evidence 1000) = Inr (demo_gathered, demo_registry)"
  by (simp add: demo_evidence_defs demo_gathered_def demo_registry_def Let_def)

lemma demo_search:
  assumes "ss_evidence s = new_evidence 1000" "ct_searches (ss_counters s) = 0" "ct_tools (ss_counters s) = 0"
  shows "as_reply (search_knowledge demo_sv ''tea'') (s, w) = (Inr (Found demo_gathered),
     add_tool_event (ok_event ''search_knowledge'' (Gathered demo_gathered))
       (s\<lparr>ss_counters := (ss_counters s)\<lparr>ct_tools := 1, ct_searches := 1\<rparr>, ss_evidence := demo_registry\<rparr>), w)"
  using assms
  by (simp add: as_reply_def search_knowledge_def instrument_def search_knowledge_body_def attempt_def tool_recorded_def demo_remaining
      current_owners_def act_defs demo_added strip_def rstrip_def lstrip_def py_space_def demo_context_def ok_event_def value_status_def)

definition demo_searched :: "sup_state \<Rightarrow> sup_state" where
  "demo_searched s = add_tool_event (ok_event ''search_knowledge'' (Gathered demo_gathered))
     (s\<lparr>ss_counters := (ss_counters s)\<lparr>ct_tools := 1, ct_searches := 1\<rparr>, ss_evidence := demo_registry\<rparr>)"

definition demo_kn :: "(sup_state \<times> nat) knowledge_env" where
  "demo_kn = knowledge_of demo_sv"

lemma demo_ask: "with_evidence (kn_ask demo_kn role q) (k, s, w) = (Inr (demo_reply q), k, s\<lparr>ss_evidence := ks_evidence k\<rparr>, w)"
  by (simp add: with_evidence_def demo_kn_def knowledge_of_def lower_act_def ask_model_def demo_remaining act_defs)

lemma demo_kn_search:
  assumes "ks_evidence k = new_evidence 1000" "ct_searches (ss_counters s) = 0" "ct_tools (ss_counters s) = 0"
  shows "with_evidence (kn_search demo_kn ''tea'') (k, s, w) =
    (Inr (Found demo_gathered), k\<lparr>ks_evidence := demo_registry\<rparr>, demo_searched (s\<lparr>ss_evidence := new_evidence 1000\<rparr>), w)"
  using assms demo_search [of "s\<lparr>ss_evidence := new_evidence 1000\<rparr>" w]
  by (simp add: with_evidence_def demo_kn_def knowledge_of_def lower_act_def demo_searched_def add_tool_event_def)

lemma demo_numbers: "numbers_of demo_gathered = {1}"
  by (simp add: numbers_of_def demo_gathered_def nothing_gathered_def new_source_def)

lemma demo_plan_read: "read_plan [(''route'', JStr ''retrieve''), (''queries'', JArr [JStr ''tea''])] =
    Some \<lparr>kp_route = ''retrieve'', kp_queries = [''tea''], kp_clarification = []\<rparr>"
  by (simp add: read_plan_def only_fields_def dict_get_def one_of_def str_default_def check_route_def strip_def rstrip_def lstrip_def py_space_def)

definition demo_grade :: knowledge_grade where
  "demo_grade = \<lparr>kg_route = ''answer'', kg_relevance = ''strong'', kg_answerability = ''sufficient'', kg_ambiguity = ''none'',
     kg_supported = [1], kg_summary = ''hot [1]'', kg_query = [], kg_method = ''standard''\<rparr>"

lemma demo_grade_fields [simp]:
  "kg_route demo_grade = ''answer''" "kg_relevance demo_grade = ''strong''" "kg_answerability demo_grade = ''sufficient''"
  "kg_ambiguity demo_grade = ''none''" "kg_supported demo_grade = [1]" "kg_summary demo_grade = ''hot [1]''"
  by (simp_all add: demo_grade_def)

lemma demo_grade_read: "read_grade [(''route'', JStr ''answer''), (''relevance'', JStr ''strong''),
     (''answerability'', JStr ''sufficient''), (''ambiguity'', JStr ''none''), (''supported_numbers'', JArr [JInt 1]), (''summary'', JStr ''hot [1]'')] =
    Some demo_grade"
  by (simp add: read_grade_def only_fields_def grade_fields_def dict_get_def one_of_def str_default_def demo_grade_def)

lemma demo_cites: "summary_cites demo_grade = {1}"
  by (simp add: summary_cites_def decimal_def Let_def nat_value_def)

definition demo_knowledge :: knowledge_event where
  "demo_knowledge = new_event\<lparr>kv_status := ''ok'', kv_queries := [''tea''], kv_grades := [demo_grade]\<rparr>"

definition demo_begun :: knowledge_state where
  "demo_begun = \<lparr>ks_evidence = new_evidence 1000, ks_event = new_event, ks_numbers = {}, ks_approved = {}\<rparr>"

lemma demo_planned:
  assumes "ct_searches (ss_counters s) = 0" "ct_tools (ss_counters s) = 0"
  shows "plan_and_retrieve demo_kn {} task question (demo_begun, s, w) = (Inr \<lparr>kp_route = ''retrieve'', kp_queries = [''tea''], kp_clarification = []\<rparr>,
    demo_begun\<lparr>ks_evidence := demo_registry\<lparr>ev_excluded := {1}\<rparr>, ks_event := new_event\<lparr>kv_queries := [''tea'']\<rparr>, ks_numbers := {1}\<rparr>,
    demo_searched (s\<lparr>ss_evidence := new_evidence 1000\<rparr>), w)"
  using assms
  by (simp add: plan_and_retrieve_def structured_def demo_ask demo_message_def demo_plan_read require_row_def retrieve_more_def
      demo_kn_search demo_begun_def set_event_def modify_def exclude_def demo_numbers act_defs demo_registry_def new_evidence_def)

lemma demo_graded:
  "grade_loop demo_kn {} task question \<lparr>kp_route = ''retrieve'', kp_queries = [''tea''], kp_clarification = []\<rparr>
    (demo_begun\<lparr>ks_evidence := demo_registry\<lparr>ev_excluded := {1}\<rparr>, ks_event := new_event\<lparr>kv_queries := [''tea'']\<rparr>, ks_numbers := {1}\<rparr>, s, w) =
   Some (Inr \<lparr>rp_status = ''ok'', rp_summary = ''hot [1]''\<rparr>,
     \<lparr>ks_evidence = demo_registry, ks_event = demo_knowledge, ks_numbers = {1}, ks_approved = {1}\<rparr>,
     s\<lparr>ss_evidence := demo_registry\<lparr>ev_excluded := {1}\<rparr>\<rparr>, w)"
proof -
  have g: "grade_checked {Suc 0} demo_grade" using demo_cites by (simp add: grade_checked_def)
  show ?thesis
    by (subst grade_loop.simps)
      (simp add: grade_round_def inspect_def structured_def demo_ask demo_message_def demo_grade_read require_row_def g set_event_def modify_def
        approve_def finish_def demo_cites demo_begun_def demo_knowledge_def new_event_def demo_registry_def new_evidence_def act_defs Let_def)
qed

definition demo_end :: knowledge_state where
  "demo_end = \<lparr>ks_evidence = demo_registry, ks_event = demo_knowledge, ks_numbers = {1}, ks_approved = {1}\<rparr>"

lemma demo_closed: "close_run {} (Inr rep, demo_end, s, w) = (Inr rep, demo_end, s, w)"
proof -
  have "knowledge_numbers demo_registry = {1}"
    by (simp add: knowledge_numbers_def demo_registry_def new_source_def knowledge_source_def Let_def)
  then show ?thesis by (simp add: close_run_def exclude_def demo_end_def)
qed

lemma demo_workflow:
  assumes "ct_searches (ss_counters s) = 0" "ct_tools (ss_counters s) = 0"
  shows "knowledge_run demo_kn task question (new_evidence 1000, s, w) = Some (Inr \<lparr>rp_status = ''ok'', rp_summary = ''hot [1]''\<rparr>,
      demo_end, (demo_searched (s\<lparr>ss_evidence := new_evidence 1000\<rparr>))\<lparr>ss_evidence := demo_registry\<lparr>ev_excluded := {1}\<rparr>\<rparr>, w)"
proof -
  have "accepted (new_evidence 1000) = {}" by (simp add: accepted_def new_evidence_def)
  then show ?thesis
    by (simp add: knowledge_run_def demo_begun_def [symmetric] demo_planned [OF assms, simplified] demo_graded [simplified]
        demo_end_def [symmetric, simplified] demo_closed [simplified])
qed

lemma demo_quality:
  assumes "ct_searches (ss_counters s) = 0" "ct_tools (ss_counters s) = 0" "ss_evidence s = new_evidence 1000"
  shows "quality_report demo_sv task (s, w) = (Inr \<lparr>rp_status = ''ok'', rp_summary = ''hot [1]''\<rparr>,
     (demo_searched s)\<lparr>ss_knowledge := ss_knowledge s @ [demo_knowledge]\<rparr>, w)"
proof -
  have s: "s\<lparr>ss_evidence := new_evidence 1000\<rparr> = s" using assms(3) by simp
  show ?thesis
    unfolding quality_report_def demo_kn_def [symmetric]
    using demo_workflow [OF assms(1,2), of task _ w, unfolded s]
    by (simp add: assms(3) demo_end_def demo_searched_def add_tool_event_def)
qed

definition demo_final :: sup_state where
  "demo_final = (let s = start_state demo_sv 2000 in
     add_agent_event \<lparr>ae_agent = ''rag'', ae_status = ''ok'', ae_error = None\<rparr>
       ((demo_searched (s\<lparr>ss_delegations := [(''rag'', 1)]\<rparr>))\<lparr>ss_knowledge := [demo_knowledge]\<rparr>))"

lemma demo_start_parts [simp]:
  "ss_evidence (start_state demo_sv 2000) = new_evidence 1000" "ct_searches (ss_counters (start_state demo_sv 2000)) = 0"
  "ct_tools (ss_counters (start_state demo_sv 2000)) = 0" "ss_delegations (start_state demo_sv 2000) = []"
  "ss_knowledge (start_state demo_sv 2000) = []" "ss_failures (start_state demo_sv 2000) = []" "ss_tool_events (start_state demo_sv 2000) = []"
  by (simp_all add: start_state_def evidence_token_budget_def)

lemma demo_delegated: "\<exists>reply. delegate demo_sv ''rag'' ''tea?'' (start_state demo_sv 2000, w) = (Inr reply, demo_final, w)"
  by (simp add: delegate_def demo_remaining act_defs all_delegations_def delegations_to_def strip_def rstrip_def lstrip_def py_space_def
      specialist_report_def demo_quality evidence_used_def settle_delegation_def Let_def demo_final_def demo_searched_def add_tool_event_def
      ok_event_def value_status_def gathered_status_def demo_gathered_def nothing_gathered_def)

definition demo_accepted :: final_answer where
  "demo_accepted = \<lparr>fa_kind = ''grounded'', fa_answer = ''hot [1]''\<rparr>"

definition demo_entry :: entry where
  "demo_entry = \<lparr>en_number = 1, en_source = knowledge_source demo_hit, en_excerpt = ''tea is hot''\<rparr>"

lemma demo_cited: "check_citations ''grounded'' ''hot [1]'' ''knowledge'' demo_registry = Inr [demo_entry]"
proof -
  have c: "cited_numbers ''hot [1]'' = Inr {1}"
    by (simp add: cited_numbers_def decimal_def Let_def nat_value_def)
  show ?thesis
    unfolding check_citations_def c
    by (simp add: eligible_entries_def demo_registry_def new_evidence_def entry_type_def mode_allows_def raise_if_def knowledge_source_def
        Let_def demo_entry_def)
qed

lemma demo_run: "run_supervisor demo_sv (\<lambda>_. ([], [], JNull)) False None (start_state demo_sv 2000, 0) =
    (Inr ((demo_accepted, [demo_entry]), False), demo_final, 0)"
proof -
  let ?m = "demo_message [(''kind'', JStr ''grounded''), (''answer'', JStr ''hot [1]'')]"
  obtain reply where d: "delegate demo_sv ''rag'' ''tea?'' (start_state demo_sv 2000, 0) = (Inr reply, demo_final, 0)" using demo_delegated by blast
  have has: "supervisor_has demo_sv False (Delegate ''rag'' ''tea?'')"
    by (simp add: demo_context_def allowed_name_def)
  have agent: "invoke_agent demo_sv (supervisor_has demo_sv False) (supervisor_tool demo_sv (\<lambda>_. ([], [], JNull))) (sv_supervisor demo_sv [])
      (start_state demo_sv 2000, 0) = (Inr ?m, demo_final, 0)"
    using has d by (simp add: invoke_agent_def demo_supervisor_def demo_remaining act_defs del: supervisor_has.simps)
  have ev: "ss_evidence demo_final = demo_registry" "ss_knowledge demo_final = [demo_knowledge]"
    by (simp_all add: demo_final_def add_agent_event_def demo_searched_def add_tool_event_def Let_def)
  have read: "read_final ?m = Some demo_accepted"
    by (simp add: read_final_def demo_message_def only_fields_def dict_get_def demo_accepted_def)
  have doc: "\<not> list_all (\<lambda>x. so_type x = ''memory'') (eligible_sources demo_registry)"
    by (simp add: eligible_sources_def demo_registry_def new_evidence_def new_source_def knowledge_source_def Let_def)
  have "parse_final demo_sv demo_final ?m = Inr (demo_accepted, [demo_entry])"
    using demo_cited by (simp add: parse_final_def read require_row_def doc ev raise_if_def demo_context_def demo_accepted_def)
  then show ?thesis by (simp add: run_supervisor_def recall_def agent [simplified] accept_final_def demo_remaining act_defs)
qed

theorem supervisor_within_limits_witness: "ct_tools (ss_counters demo_final) \<le> 3 \<and> all_delegations demo_final \<le> 2 \<and>
    ct_searches (ss_counters demo_final) \<le> 2"
  using supervisor_within_limits [OF demo_run] by (simp add: no_checkpoint_replays)

theorem cited_documents_approved_witness:
  "entry_type demo_entry = ''knowledge'' \<and> (\<exists>v\<in>set (ss_knowledge demo_final). \<exists>g\<in>set (kv_grades v). passing g \<and> 1 \<in> set (kg_supported g))"
  using cited_documents_approved [OF no_checkpoint_replays _ demo_run] by (simp add: demo_entry_def entry_type_def knowledge_source_def Let_def)


end
