(* ===== verification/DurableCalls.thy ===== *)
theory DurableCalls
  imports SupervisorProperties
begin

text \<open>
  The checkpoint that a durable run gives its supervisor (\<open>RunCheckpoint\<close> of
  \<open>app/manager/run_checkpoint.py\<close>): the world is the database and what lies outside, the three operations are
  those of the run store, and every call of the supervisor is an \<open>invoke\<close> of that checkpoint. The key of a call and the
  reading and writing of a saved result as JSON are parameters.
\<close>

record 'v durable_env =
  du_run :: run_env
  du_claim :: run_claim
  du_validate :: validator
  du_key :: "string \<Rightarrow> json \<Rightarrow> nat \<Rightarrow> 'v \<Rightarrow> string result"
  du_clock :: "'v \<Rightarrow> nat \<Rightarrow> clock"
  du_encode :: "saved_call \<Rightarrow> json"
  du_decode :: "json \<Rightarrow> saved_call option"

definition read_saved :: "'v durable_env \<Rightarrow> json result \<Rightarrow> saved_call result" where
  "read_saved du r = and_then r (\<lambda>v. require_row (du_decode du v) (OtherError ''KeyError''))"

definition durable_check :: "'v durable_env \<Rightarrow> (db \<times> 'v, unit) wact" where
  "durable_check du w = (checked (du_run du) (du_claim du) (du_validate du) (du_clock du (snd w) 0) (fst w), w)"

definition durable_begin :: "'v durable_env \<Rightarrow> string \<Rightarrow> json \<Rightarrow> bool \<Rightarrow> (db \<times> 'v, saved_call option) wact" where
  "durable_begin du key inputs readonly w =
     (let e = du_run du; c = du_claim du; clk = du_clock du (snd w) in
      case checked e c (du_validate du) (clk 0) (fst w) of
        Inl x \<Rightarrow> (Inl x, w)
      | Inr _ \<Rightarrow>
          (case begin_operation e c key inputs readonly (clk 1) (fst w) of
             (Inl x, d) \<Rightarrow> (Inl x, d, snd w)
           | (Inr (cached, outcome), d) \<Rightarrow>
               if cached then (and_then (read_saved du (read_outcome outcome)) (\<lambda>saved. Inr (Some saved)), d, snd w)
               else (and_then (checked e c (du_validate du) (clk 2) d) (\<lambda>_. Inr None), d, snd w)))"

text \<open>The world that the call left gives the time of its end.\<close>

definition durable_complete :: "'v durable_env \<Rightarrow> string \<Rightarrow> saved_call result \<Rightarrow> (db \<times> 'v, unit) wact" where
  "durable_complete du key r w =
     (case and_then (outcome_json (du_run du) (and_then r (\<lambda>v. Inr (du_encode du v)))) (\<lambda>out. bounded_json out 2000000) of
        Inl x \<Rightarrow> (Inl x, w)
      | Inr outcome \<Rightarrow>
          (case complete_operation (du_run du) (du_claim du) key outcome None (du_clock du (snd w) 3) (fst w) of
             (ended, d) \<Rightarrow> (ended, d, snd w)))"

definition durable_checkpoint :: "'v durable_env \<Rightarrow> (db \<times> 'v) checkpoint_api" where
  "durable_checkpoint du = \<lparr>cp_check = durable_check du, cp_key = (\<lambda>name inputs n w. du_key du name inputs n (snd w)),
     cp_begin = durable_begin du, cp_complete = durable_complete du\<rparr>"

section \<open>Every call is an \<open>invoke\<close>\<close>

text \<open>The body of a call as \<open>RunCheckpoint\<close> runs it: its saved result is written as JSON.\<close>

definition stored_call :: "'v durable_env \<Rightarrow> (db \<times> 'v, saved_call) sact \<Rightarrow> (sup_state \<times> 'v) call" where
  "stored_call du call key = (\<lambda>(d, s, v). case call (s, d, v) of (r, s', d', v') \<Rightarrow> (and_then r (\<lambda>x. Inr (du_encode du x)), d', s', v'))"

text \<open>What is written of a saved result is read back, also with the keys in order.\<close>

definition reads_back :: "'v durable_env \<Rightarrow> saved_call \<Rightarrow> bool" where
  "reads_back du x \<longleftrightarrow> du_decode du (sort_keys (du_encode du x)) = Some x"

lemma outcome_read_back:
  assumes "and_then (outcome_json e (and_then r (\<lambda>x. Inr (du_encode du x)))) (\<lambda>out. bounded_json out n) = Inr outcome"
    and "\<And>x. r = Inr x \<Longrightarrow> reads_back du x"
  shows "read_saved du (read_outcome outcome) = confirmed r"
proof -
  obtain out where out: "outcome_json e (and_then r (\<lambda>x. Inr (du_encode du x))) = Inr out" "outcome = sort_keys out"
    using assms(1) by (auto simp: result_simps)
  show ?thesis
  proof (cases r)
    case (Inr x)
    then show ?thesis using read_outcome_sorted [OF out(1)] assms(2) [OF Inr] out(2)
      by (simp add: read_saved_def reads_back_def require_row_def confirmed_def)
  next
    case (Inl x)
    obtain c st where "exn_code x = Some c" "exn_status x = Some st"
      using out(1) Inl by (auto simp: outcome_json_def split: option.splits)
    then show ?thesis using read_outcome_sorted [OF out(1)] out(2) Inl by (simp add: read_saved_def confirmed_def)
  qed
qed

text \<open>
  Each call of a supervisor with a durable checkpoint is an \<open>invoke\<close> of \<open>RunCheckpoint\<close> under the key of the
  call: the same answer, the same database, the same state and world.
\<close>

lemma durable_call_invokes:
  assumes key: "du_key du name inputs (ct_tools (ss_counters s)) v = Inr key"
    and codec: "\<And>d' v' x t. call (s, d', v') = (Inr x, t) \<Longrightarrow> reads_back du x"
  shows "\<exists>clks. checkpoint_call (durable_checkpoint du) name inputs readonly call (s, d, v) =
    (case invoke (du_run du) (du_claim du) (du_validate du) key (call_inputs name inputs) (stored_call du call) readonly clks (d, s, v) of
       (r, d', s', v') \<Rightarrow> (read_saved du r, s', d', v'))"
proof -
  let ?e = "du_run du" and ?c = "du_claim du" and ?clk = "du_clock du v"
  let ?goal = "\<lambda>clks. checkpoint_call (durable_checkpoint du) name inputs readonly call (s, d, v) =
    (case invoke ?e ?c (du_validate du) key (call_inputs name inputs) (stored_call du call) readonly clks (d, s, v) of
       (r, d', s', v') \<Rightarrow> (read_saved du r, s', d', v'))"
  note defs = checkpoint_call_def durable_checkpoint_def durable_begin_def key Let_def invoke_def
  show ?thesis
  proof (cases "checked ?e ?c (du_validate du) (?clk 0) d")
    case (Inl x)
    then have "?goal ?clk" by (simp add: defs read_saved_def)
    then show ?thesis by (rule exI [of _ ?clk])
  next
    case (Inr u0)
    obtain b d1 where b: "begin_operation ?e ?c key (call_inputs name inputs) readonly (?clk 1) d = (b, d1)" by fastforce
    show ?thesis
    proof (cases b)
      case (Inl x)
      then have "?goal ?clk" using Inr b by (simp add: defs read_saved_def)
      then show ?thesis by (rule exI [of _ ?clk])
    next
      case (Inr start)
      obtain cached outcome where start: "start = (cached, outcome)" by fastforce
      note opened = \<open>checked ?e ?c (du_validate du) (?clk 0) d = Inr u0\<close> b [unfolded Inr start]
      show ?thesis
      proof (cases "cached \<or> (\<exists>x. checked ?e ?c (du_validate du) (?clk 2) d1 = Inl x)")
        case True
        then have "?goal ?clk"
          using opened by (cases "read_saved du (read_outcome outcome)") (auto simp: defs run_call_def read_saved_def)
        then show ?thesis by (rule exI [of _ ?clk])
      next
        case False
        then obtain u2 where u2: "\<not> cached" "checked ?e ?c (du_validate du) (?clk 2) d1 = Inr u2"
          by (cases "checked ?e ?c (du_validate du) (?clk 2) d1") auto
        obtain r s' d2 v' where call: "call (s, d1, v) = (r, s', d2, v')" by (metis prod_cases4)
        let ?clks = "\<lambda>i. if i = 3 then du_clock du v' 3 else ?clk i"
        have "?goal ?clks"
        proof (cases "and_then (outcome_json ?e (and_then r (\<lambda>x. Inr (du_encode du x)))) (\<lambda>out. bounded_json out 2000000)")
          case (Inl x)
          then show ?thesis using opened u2 call
            by (simp add: defs run_call_def stored_call_def durable_complete_def read_saved_def)
        next
          case (Inr out)
          have given: "read_saved du (read_outcome out) = confirmed r"
            by (rule outcome_read_back [OF Inr]) (use codec call in blast)
          obtain ended d3 where "complete_operation ?e ?c key out None (du_clock du v' 3) d2 = (ended, d3)" by fastforce
          then show ?thesis using opened u2 call Inr given
            by (cases ended) (simp_all add: defs run_call_def stored_call_def durable_complete_def read_saved_def)
        qed
        then show ?thesis by (rule exI [of _ ?clks])
      qed
    qed
  qed
qed

text \<open>What such a checkpoint gives back is the value of a confirmed receipt of the run.\<close>

lemma durable_gives_receipt:
  assumes "durable_begin du key inputs readonly (d, v) = (Inr (Some saved), w')" "runs_inv d"
  shows "\<exists>x val. get_operation (cl_run (du_claim du)) key d = Some x \<and> op_state x = OpSucceeded \<and>
    read_outcome (op_result x) = Inr val \<and> du_decode du val = Some saved"
proof -
  obtain out d1 where b: "begin_operation (du_run du) (du_claim du) key inputs readonly (du_clock du v 1) d = (Inr (True, out), d1)"
    and r: "read_saved du (read_outcome out) = Inr saved"
    using assms(1) by (auto simp: durable_begin_def Let_def result_simps split: sum.splits prod.splits if_splits)
  from begin_operation_cached [OF b assms(2)] r show ?thesis
    by (auto simp: read_saved_def result_simps require_row_def split: option.splits)
qed

end
