(* ===== verification/Retrieval.thy ===== *)
theory Retrieval
  imports EvidenceProperties
begin

text \<open>
  Retrieval for one query (\<open>app/manager/retriever.py\<close>) and the optional second ranking
  (\<open>app/manager/rerank.py\<close>). Embeddings, the vector store, the clock and the ranking service are
  parameters; a call takes the world and answers or raises.
\<close>

type_synonym ('w, 'a) fallible = "'w \<Rightarrow> 'a result \<times> 'w"

definition wret :: "'a \<Rightarrow> ('w, 'a) fallible" where
  "wret a w = (Inr a, w)"

definition wfail :: "exn \<Rightarrow> ('w, 'a) fallible" where
  "wfail x w = (Inl x, w)"

definition wbind :: "('w, 'a) fallible \<Rightarrow> ('a \<Rightarrow> ('w, 'b) fallible) \<Rightarrow> ('w, 'b) fallible" where
  "wbind m f w = (case m w of (Inl x, w') \<Rightarrow> (Inl x, w') | (Inr a, w') \<Rightarrow> f a w')"

section \<open>Ranking\<close>

record block =
  bl_bytes :: nat
  bl_now :: rat
  bl_elapsed :: rat

text \<open>What the transport makes of one request: the blocks of the body as they arrive, and the body as JSON, if it is.\<close>

datatype ranking_reply = Timed_out | Transport_failed | Replied int "block list" "json option"

text \<open>\<open>rr_float\<close> reads the digits of a float, \<open>None\<close> for those that are not finite.\<close>

record 'w rerank_env =
  rr_model :: string
  rr_timeout :: rat
  rr_clock :: "'w \<Rightarrow> rat \<times> 'w"
  rr_elapsed :: "'w \<Rightarrow> rat \<times> 'w"
  rr_request :: "string \<Rightarrow> string list \<Rightarrow> nat \<Rightarrow> rat \<Rightarrow> 'w \<Rightarrow> ranking_reply \<times> 'w"
  rr_float :: "string \<Rightarrow> rat option"

definition rerank_error :: "string \<Rightarrow> exn" where
  "rerank_error code = AppError code 503"

definition status_code :: "int \<Rightarrow> string" where
  "status_code n = (if n = 401 \<or> n = 403 then ''RERANK_AUTH_ERROR'' else if n = 429 then ''RERANK_RATE_LIMITED'' else ''RERANK_UNAVAILABLE'')"

fun read_blocks :: "rat option \<Rightarrow> rat \<Rightarrow> nat \<Rightarrow> block list \<Rightarrow> unit result" where
  "read_blocks deadline timeout n [] = Inr ()"
| "read_blocks deadline timeout n (b # bs) =
     (if (case deadline of None \<Rightarrow> False | Some t \<Rightarrow> t \<le> bl_now b) \<or> timeout \<le> bl_elapsed b then Inl (rerank_error ''RERANK_TIMEOUT'')
      else if 65536 < n + bl_bytes b then Inl value_error
      else read_blocks deadline timeout (n + bl_bytes b) bs)"

text \<open>
  A score is a finite number. \<open>isfinite\<close> turns an integer into a float first, and that raises for one that
  would be rounded to \<open>2 ^ 1024\<close> or beyond.
\<close>

definition overflow_error :: exn where
  "overflow_error = OtherError ''OverflowError''"

fun ranking_score :: "(string \<Rightarrow> rat option) \<Rightarrow> json option \<Rightarrow> rat result" where
  "ranking_score f (Some (JInt i)) = (if 2 ^ 1024 - 2 ^ 970 \<le> \<bar>i\<bar> then Inl overflow_error else Inr (of_int i))"
| "ranking_score f (Some (JFloat s)) = require_row (f s) value_error"
| "ranking_score f _ = Inl value_error"

text \<open>The items of a ranking: known positions, each once, with a score from 0 to 1. A missing key is found before the rest is looked at.\<close>

fun rank_items :: "(string \<Rightarrow> rat option) \<Rightarrow> nat \<Rightarrow> nat list \<Rightarrow> json list \<Rightarrow> (nat \<times> rat) list result" where
  "rank_items f n seen [] = Inr []"
| "rank_items f n seen (JObj d # items) = (case (dict_get d ''index'', dict_get d ''relevance_score'') of
     (Some (JInt i), Some score) \<Rightarrow>
       if i < 0 \<or> int n \<le> i \<or> nat i \<in> set seen then Inl value_error
       else and_then (ranking_score f (Some score)) (\<lambda>s.
         if s < 0 \<or> 1 < s then Inl value_error
         else and_then (rank_items f n (nat i # seen) items) (\<lambda>ranks. Inr ((nat i, s) # ranks)))
   | _ \<Rightarrow> Inl value_error)"
| "rank_items f n seen (_ # items) = Inl value_error"

definition read_ranking :: "(string \<Rightarrow> rat option) \<Rightarrow> nat \<Rightarrow> nat \<Rightarrow> json option \<Rightarrow> ((nat \<times> rat) list \<times> int option) result" where
  "read_ranking f n k payload = (case payload of
     Some (JObj d) \<Rightarrow>
       (case (case dict_get d ''output'' of None \<Rightarrow> JObj d | Some c \<Rightarrow> c) of
          JObj c \<Rightarrow>
            (case dict_get c ''results'' of
               Some (JArr items) \<Rightarrow>
                 if length items \<noteq> min k n then Inl value_error
                 else and_then (rank_items f n [] items) (\<lambda>ranks. Inr (ranks, (case dict_get d ''usage'' of
                     Some (JObj u) \<Rightarrow> (case dict_get u ''total_tokens'' of Some (JInt t) \<Rightarrow> if t < 0 then None else Some t | _ \<Rightarrow> None)
                   | _ \<Rightarrow> None)))
             | _ \<Rightarrow> Inl value_error)
        | _ \<Rightarrow> Inl value_error)
   | _ \<Rightarrow> Inl value_error)"

definition ranked_hits :: "search_hit list \<Rightarrow> (nat \<times> rat) list \<Rightarrow> search_hit list" where
  "ranked_hits hits ranks =
     sort_key (\<lambda>h. - (case sh_rerank_score h of None \<Rightarrow> 0 | Some s \<Rightarrow> s)) (map (\<lambda>(i, s). (hits ! i)\<lparr>sh_rerank_score := Some s\<rparr>) ranks)"

text \<open>The request: the query and the texts are cut so that together they stay small.\<close>

definition character_limit :: "nat \<Rightarrow> nat \<Rightarrow> nat" where
  "character_limit n q = nat (min 1000 (max 1 (24000 div int n - int q)))"

definition ask_ranking ::
    "'w rerank_env \<Rightarrow> string \<Rightarrow> string list \<Rightarrow> nat \<Rightarrow> nat \<Rightarrow> rat option \<Rightarrow> 'w \<Rightarrow> (nat \<times> ((nat \<times> rat) list \<times> int option) result) \<times> 'w" where
  "ask_ranking re query texts n k deadline w =
     (let (timeout, w1) = (case deadline of
            None \<Rightarrow> (rr_timeout re, w)
          | Some t \<Rightarrow> (case rr_clock re w of (now, w') \<Rightarrow> (min (rr_timeout re) (t - now), w')))
      in if timeout \<le> 0 then ((0, Inl (rerank_error ''RERANK_TIMEOUT'')), w1)
         else case rr_request re query texts (min k n) timeout w1 of (reply, w2) \<Rightarrow>
           ((1, case reply of
               Timed_out \<Rightarrow> Inl (rerank_error ''RERANK_TIMEOUT'')
             | Transport_failed \<Rightarrow> Inl (rerank_error ''RERANK_UNAVAILABLE'')
             | Replied status blocks payload \<Rightarrow>
                 if status \<noteq> 200 then Inl (rerank_error (status_code status))
                 else and_then (read_blocks deadline timeout 0 blocks) (\<lambda>_. read_ranking (rr_float re) n k payload)), w2))"

definition traced :: "rerank_trace \<Rightarrow> search_hit \<Rightarrow> search_hit" where
  "traced t h = h\<lparr>sh_rerank_trace := Some t\<rparr>"

text \<open>
  The handlers of \<open>rerank\<close> name the errors of the transport, \<open>AppError\<close> and those of a malformed answer; an
  \<open>OverflowError\<close> is none of these and leaves the function.
\<close>

definition rerank :: "'w rerank_env \<Rightarrow> string \<Rightarrow> search_hit list \<Rightarrow> nat \<Rightarrow> rat option \<Rightarrow> ('w, search_hit list) fallible" where
  "rerank re query hits k deadline w =
     (if hits = [] then (Inr [], w)
      else
        let q = take 200 query; limit = character_limit (length hits) (length q);
            texts = map (\<lambda>h. take limit (ch_content (sh_chunk h))) hits;
            cut = (q \<noteq> query \<or> texts \<noteq> map (\<lambda>h. ch_content (sh_chunk h)) hits);
            ((attempts, reply), w1) = ask_ranking re q texts (length hits) k deadline w
        in if reply = Inl overflow_error then (Inl overflow_error, w1)
           else let
             (ms, w2) = rr_elapsed re w1;
             trace = \<lparr>rt_status = ''fallback'', rt_model = rr_model re, rt_candidates = length hits, rt_elapsed = ms,
               rt_attempts = attempts, rt_truncated = cut, rt_error = None, rt_tokens = None\<rparr>
           in (Inr (case reply of
                 Inr (ranks, tokens) \<Rightarrow>
                   map (traced (trace\<lparr>rt_status := ''applied'', rt_tokens := tokens\<rparr>)) (ranked_hits hits ranks)
               | Inl x \<Rightarrow>
                   map (traced (trace\<lparr>rt_error := Some (case exn_code x of Some c \<Rightarrow> c | None \<Rightarrow> ''RERANK_INVALID_RESPONSE'')\<rparr>)) (take k hits)), w2))"

section \<open>Scope\<close>

text \<open>A place that hits come from, and the expanders of what it found.\<close>

record 'w backend =
  be_embed :: "string \<Rightarrow> ('w, rat list) fallible"
  be_search :: "uuid \<Rightarrow> uuid list \<Rightarrow> string \<Rightarrow> rat list \<Rightarrow> nat \<Rightarrow> ('w, search_hit list) fallible"
  be_context :: "(uuid \<Rightarrow> uuid list \<Rightarrow> search_hit list \<Rightarrow> ('w, search_hit list) fallible) option"
  be_hierarchy :: "(uuid \<Rightarrow> uuid list \<Rightarrow> search_hit list \<Rightarrow> rat option \<Rightarrow> int option \<Rightarrow> ('w, search_hit list) fallible) option"

record 'w retriever =
  rv_backend :: "'w backend"
  rv_top_k :: nat
  rv_reranker :: "'w rerank_env option"
  rv_factory :: "(retrieval_index \<Rightarrow> ('w, 'w backend) fallible) option"
  rv_now :: "'w \<Rightarrow> rat \<times> 'w"
  rv_evidence :: evidence_env

type_synonym 'w group = "uuid \<times> uuid list \<times> 'w backend"

definition vector_scope :: exn where
  "vector_scope = AppError ''VECTOR_SCOPE_MISMATCH'' 503"

text \<open>Keys in the order a dictionary keeps them.\<close>

definition first_seen :: "'a list \<Rightarrow> 'a list" where
  "first_seen xs = rev (remdups (rev xs))"

definition owners_for :: "uuid \<Rightarrow> uuid list \<Rightarrow> (uuid \<times> uuid) list option \<Rightarrow> (uuid \<times> uuid) list" where
  "owners_for uid dids owners = (case owners of Some (p # ps) \<Rightarrow> p # ps | _ \<Rightarrow> map (\<lambda>d. (d, uid)) (first_seen dids))"

definition group_by :: "('a \<Rightarrow> 'k) \<Rightarrow> 'a list \<Rightarrow> ('k \<times> 'a list) list" where
  "group_by f xs = map (\<lambda>k. (k, filter (\<lambda>x. f x = k) xs)) (first_seen (map f xs))"

definition check_time :: "'w retriever \<Rightarrow> bool \<Rightarrow> rat option \<Rightarrow> ('w, unit) fallible" where
  "check_time rv active deadline = (case deadline of
     None \<Rightarrow> wret ()
   | Some t \<Rightarrow> if \<not> active then wret ()
       else (\<lambda>w. case rv_now rv w of (now, w') \<Rightarrow> (if t \<le> now then Inl (AppError ''AGENT_TIMEOUT'' 504) else Inr (), w')))"

definition in_scope :: "uuid \<Rightarrow> uuid list \<Rightarrow> search_hit \<Rightarrow> bool" where
  "in_scope owner ids h = (ch_user (sh_chunk h) = uuid_str owner \<and> ch_document (sh_chunk h) \<in> uuid_str ` set ids)"

definition search_scoped :: "'w retriever \<Rightarrow> 'w backend \<Rightarrow> uuid \<Rightarrow> uuid list \<Rightarrow> string \<Rightarrow> rat list \<Rightarrow> ('w, search_hit list) fallible" where
  "search_scoped rv be owner ids query vector =
     wbind (be_search be owner ids query vector (rv_top_k rv * 2)) (\<lambda>batch.
     if list_all (in_scope owner ids) batch then wret batch else wfail vector_scope)"

fun search_owned :: "'w retriever \<Rightarrow> ('w, unit) fallible \<Rightarrow> string \<Rightarrow> rat list \<Rightarrow> (uuid \<times> uuid list) list \<Rightarrow> ('w, search_hit list) fallible" where
  "search_owned rv check query vector [] = wret []"
| "search_owned rv check query vector ((owner, ids) # groups) =
     wbind check (\<lambda>_.
     wbind (search_scoped rv (rv_backend rv) owner ids query vector) (\<lambda>batch.
     wbind (search_owned rv check query vector groups) (\<lambda>hits. wret (batch @ hits))))"

section \<open>Selection\<close>

definition normalized :: "search_hit \<Rightarrow> string" where
  "normalized h = filter (\<lambda>c. \<not> py_space c) (ch_content (sh_chunk h))"

definition text_key :: "search_hit \<Rightarrow> (string \<times> string) option \<times> string" where
  "text_key h = (map_option (\<lambda>x. (ch_document (sh_chunk h), xs_anchor x)) (ch_excel (sh_chunk h)), normalized h)"

fun unique_hits :: "((string \<times> string) option \<times> string) list \<Rightarrow> search_hit list \<Rightarrow> search_hit list" where
  "unique_hits seen [] = []"
| "unique_hits seen (h # hits) =
     (if normalized h = [] \<or> text_key h \<in> set seen then unique_hits seen hits else h # unique_hits (text_key h # seen) hits)"

definition select_hits :: "'w retriever \<Rightarrow> string \<Rightarrow> rat option \<Rightarrow> search_hit list \<Rightarrow> ('w, search_hit list) fallible" where
  "select_hits rv query deadline hits w =
     (let unique = unique_hits [] hits in
      case rv_reranker rv of
        Some re \<Rightarrow> if unique = [] then (Inr [], w) else rerank re query (take (rv_top_k rv * 2) unique) (rv_top_k rv) deadline w
      | None \<Rightarrow> (Inr (take (rv_top_k rv) unique), w))"

section \<open>Expansion\<close>

definition expand_group :: "'w group \<Rightarrow> rat option \<Rightarrow> int option \<Rightarrow> search_hit list \<Rightarrow> ('w, search_hit list) fallible" where
  "expand_group g deadline budget selected = (case g of (owner, ids, be) \<Rightarrow>
     (case be_hierarchy be of
        Some f \<Rightarrow> f owner ids selected deadline budget
      | None \<Rightarrow> (case be_context be of Some f \<Rightarrow> f owner ids selected | None \<Rightarrow> wret selected)))"

text \<open>What is left of the budget of contexts after a batch; a context counts once.\<close>

definition spend_contexts :: "evidence_env \<Rightarrow> search_hit list \<Rightarrow> int option \<Rightarrow> int option" where
  "spend_contexts e batch budget = map_option (\<lambda>b.
     max 0 (b - sum_list (map (\<lambda>(i, p). count_tokens e [context_content p])
       (fold (\<lambda>h m. case sh_context h of None \<Rightarrow> m | Some p \<Rightarrow> AList.update (context_id e p) p m) batch [])))) budget"

fun expand_groups ::
    "'w retriever \<Rightarrow> ('w, unit) fallible \<Rightarrow> rat option \<Rightarrow> search_hit list \<Rightarrow> 'w group list \<Rightarrow> int option \<Rightarrow> (string \<times> search_hit) list \<Rightarrow>
     ('w, (string \<times> search_hit) list) fallible" where
  "expand_groups rv check deadline unique [] budget m = wret m"
| "expand_groups rv check deadline unique ((owner, ids, be) # groups) budget m =
     (let selected = filter (in_scope owner ids) unique in
      if selected = [] then expand_groups rv check deadline unique groups budget m
      else wbind check (\<lambda>_.
        wbind (expand_group (owner, ids, be) deadline budget selected) (\<lambda>batch.
        if map sh_chunk batch \<noteq> map sh_chunk selected then wfail vector_scope
        else expand_groups rv check deadline unique groups (spend_contexts (rv_evidence rv) batch budget)
               (fold (\<lambda>h m. AList.update (ch_id (sh_chunk h)) h m) batch m))))"

definition expansion_errors :: "string list" where
  "expansion_errors = [''MILVUS_UNAVAILABLE'', ''PARENT_CONTEXT_TIMEOUT'', ''HIERARCHY_UNAVAILABLE'', ''HIERARCHY_TIMEOUT'']"

fun lookup_all :: "(string \<times> search_hit) list \<Rightarrow> search_hit list \<Rightarrow> search_hit list result" where
  "lookup_all m [] = Inr []"
| "lookup_all m (h # hits) = and_then (require_row (map_of m (ch_id (sh_chunk h))) (OtherError ''KeyError'')) (\<lambda>x.
     and_then (lookup_all m hits) (\<lambda>xs. Inr (x # xs)))"

text \<open>Expansion can enrich, but cannot reorder, replace or add retrieved evidence.\<close>

definition enriches :: "search_hit \<Rightarrow> search_hit \<Rightarrow> bool" where
  "enriches old new = (sh_chunk old = sh_chunk new \<and> sh_score old = sh_score new \<and> sh_rerank_score old = sh_rerank_score new \<and>
     sh_rerank_trace old = sh_rerank_trace new \<and> (case sh_context new of None \<Rightarrow> True | Some p \<Rightarrow> context_contains p (sh_chunk old)))"

definition can_expand :: "'w group \<Rightarrow> bool" where
  "can_expand g = (case g of (owner, ids, be) \<Rightarrow> be_context be \<noteq> None \<or> be_hierarchy be \<noteq> None)"

definition finish_hits ::
    "'w retriever \<Rightarrow> ('w, unit) fallible \<Rightarrow> string \<Rightarrow> rat option \<Rightarrow> int option \<Rightarrow> 'w group list \<Rightarrow> search_hit list \<Rightarrow> ('w, search_hit list) fallible" where
  "finish_hits rv check query deadline budget groups hits =
     wbind (select_hits rv query deadline hits) (\<lambda>unique w1.
        if \<not> list_ex can_expand groups \<or> unique = [] then (Inr unique, w1)
        else case wbind (expand_groups rv check deadline unique groups budget []) (\<lambda>m w. (lookup_all m unique, w)) w1 of
          (Inl x, w2) \<Rightarrow>
            (case exn_code x of
               Some c \<Rightarrow> if c \<in> set expansion_errors then (Inr (map (\<lambda>h. h\<lparr>sh_warning := Some c\<rparr>) unique), w2) else (Inl x, w2)
             | None \<Rightarrow> (Inl x, w2))
        | (Inr expanded, w2) \<Rightarrow>
            if list_all2 enriches unique expanded then (Inr expanded, w2) else (Inl vector_scope, w2))"

definition by_score :: "nat \<Rightarrow> search_hit list \<Rightarrow> search_hit list" where
  "by_score groups hits = (if 1 < groups then sort_key (\<lambda>h. - sh_score h) hits else hits)"

section \<open>Indexed retrieval\<close>

definition index_key :: "retrieval_index \<Rightarrow> uuid \<times> string \<times> string \<times> string \<times> int \<times> string" where
  "index_key t = (ri_user t, ri_collection t, ri_database t, ri_model t, ri_dimension t, ri_connection t)"

definition embedding_key :: "retrieval_index \<Rightarrow> string \<times> int \<times> string" where
  "embedding_key t = (ri_model t, ri_dimension t, ri_connection t)"

fun search_indexes ::
    "'w retriever \<Rightarrow> (retrieval_index \<Rightarrow> ('w, 'w backend) fallible) \<Rightarrow> ('w, unit) fallible \<Rightarrow> string \<Rightarrow> string \<Rightarrow> retrieval_index list list \<Rightarrow>
     ((string \<times> int \<times> string) \<times> rat list) list \<Rightarrow> ('w, search_hit list \<times> 'w group list) fallible" where
  "search_indexes rv factory check query hint [] vectors = wret ([], [])"
| "search_indexes rv factory check query hint (targets # rest) vectors =
     (let t = hd targets; owner = ri_user t; ids = map ri_document targets in
      wbind check (\<lambda>_.
      wbind (factory t) (\<lambda>be.
      wbind (case map_of vectors (embedding_key t) of Some v \<Rightarrow> wret v | None \<Rightarrow> be_embed be hint) (\<lambda>vector.
      wbind check (\<lambda>_.
      wbind (search_scoped rv be owner ids query vector) (\<lambda>batch.
      wbind (search_indexes rv factory check query hint rest (AList.update (embedding_key t) vector vectors)) (\<lambda>(hits, groups).
      wret (batch @ hits, (owner, ids, be) # groups))))))))"

definition retrieve_indexed ::
    "'w retriever \<Rightarrow> string \<Rightarrow> uuid list \<Rightarrow> (uuid \<times> uuid) list \<Rightarrow> retrieval_index list \<Rightarrow> rat option \<Rightarrow> int option \<Rightarrow> string \<Rightarrow>
     ('w, search_hit list) fallible" where
  "retrieve_indexed rv query dids owners indexes deadline budget hint = (case rv_factory rv of
     None \<Rightarrow> wfail vector_scope
   | Some factory \<Rightarrow>
       if length indexes \<noteq> length dids \<or> set (map ri_document indexes) \<noteq> set dids then wfail vector_scope
       else if list_ex (\<lambda>t. map_of owners (ri_document t) \<noteq> Some (ri_user t)) indexes then wfail vector_scope
       else let check = check_time rv True deadline in
         wbind (search_indexes rv factory check query hint (map snd (group_by index_key indexes)) []) (\<lambda>(hits, groups).
         finish_hits rv check query deadline budget groups (by_score (length groups) hits)))"

definition retrieve ::
    "'w retriever \<Rightarrow> uuid \<Rightarrow> string \<Rightarrow> uuid list \<Rightarrow> rat option \<Rightarrow> (uuid \<times> uuid) list option \<Rightarrow> int option \<Rightarrow> string option \<Rightarrow>
     retrieval_index list \<Rightarrow> ('w, search_hit list) fallible" where
  "retrieve rv uid query dids deadline given_owners budget hint indexes =
     (if (case hint of None \<Rightarrow> False | Some t \<Rightarrow> strip t = [] \<or> 6000 < length t) then wfail (AppError ''RAG_REWRITE_INVALID'' 422)
      else
        let owners = owners_for uid dids given_owners; query_text = (case hint of None \<Rightarrow> query | Some t \<Rightarrow> t) in
        if set (map fst owners) \<noteq> set dids then wfail vector_scope
        else if indexes \<noteq> [] then retrieve_indexed rv query dids owners indexes deadline budget query_text
        else
          let groups = map (\<lambda>(owner, ps). (owner, map fst ps)) (group_by snd owners); check = check_time rv (given_owners \<noteq> None) deadline in
          wbind check (\<lambda>_.
          wbind (be_embed (rv_backend rv) query_text) (\<lambda>vector.
          wbind (search_owned rv check query vector groups) (\<lambda>hits.
          finish_hits rv check query deadline budget (map (\<lambda>(owner, ids). (owner, ids, rv_backend rv)) groups)
            (by_score (length groups) hits)))))"

end
