(* ===== verification/RetrievalProperties.thy ===== *)
theory RetrievalProperties
  imports Retrieval
begin

text \<open>
  The second ranking only selects and orders, the scope of a search is never left, and expansion only enriches.
\<close>

named_theorems call_simps \<open>execution of calls\<close>

lemma call_eqs [call_simps]:
  "wret a w = (r, w') \<longleftrightarrow> r = Inr a \<and> w' = w"
  "wfail x w = (r, w') \<longleftrightarrow> r = Inl x \<and> w' = w"
  by (auto simp: wret_def wfail_def)

lemma wbind_Inr [call_simps]: "wbind m f w = (Inr b, w') \<longleftrightarrow> (\<exists>a v. m w = (Inr a, v) \<and> f a v = (Inr b, w'))"
  by (auto simp: wbind_def split: prod.splits sum.splits)

section \<open>Ranking\<close>

lemma insort_map: "insort_key k (f x) (map f xs) = map f (insort_key (k \<circ> f) x xs)"
  by (induction xs) auto

lemma sort_map: "sort_key k (map f xs) = map f (sort_key (k \<circ> f) xs)"
  by (induction xs) (auto simp: sort_key_def insort_map [unfolded comp_def] comp_def)

lemma and_then_Inr [call_simps]: "and_then r f = Inr b \<longleftrightarrow> (\<exists>a. r = Inr a \<and> f a = Inr b)"
  by (cases r) (auto simp: and_then_def)

lemma rank_items_positions:
  "rank_items f n seen items = Inr ranks \<Longrightarrow>
     length ranks = length items \<and> distinct (map fst ranks) \<and> set (map fst ranks) \<inter> set seen = {} \<and>
     (\<forall>(i, s)\<in>set ranks. i < n \<and> 0 \<le> s \<and> s \<le> 1)"
proof (induction f n seen items arbitrary: ranks rule: rank_items.induct)
  case (2 f n seen d items)
  obtain i score s rest where r: "dict_get d ''index'' = Some (JInt i)" "dict_get d ''relevance_score'' = Some score"
    "ranking_score f (Some score) = Inr s" "0 \<le> i" "i < int n" "nat i \<notin> set seen" "0 \<le> s" "s \<le> 1"
    "rank_items f n (nat i # seen) items = Inr rest" "ranks = (nat i, s) # rest"
    using 2(2) by (fastforce simp: call_simps split: option.splits json.splits if_splits)
  have "length rest = length items \<and> distinct (map fst rest) \<and> set (map fst rest) \<inter> set (nat i # seen) = {} \<and>
      (\<forall>(i, s)\<in>set rest. i < n \<and> 0 \<le> s \<and> s \<le> 1)"
    by (rule 2(1)) (use r in auto)
  then show ?case using r by auto
qed auto

lemma read_ranking_positions:
  "read_ranking f n k payload = Inr (ranks, tokens) \<Longrightarrow>
     length ranks = min k n \<and> distinct (map fst ranks) \<and> (\<forall>(i, s)\<in>set ranks. i < n \<and> 0 \<le> s \<and> s \<le> 1)"
  by (auto simp: read_ranking_def call_simps dest!: rank_items_positions split: option.splits json.splits if_splits)

text \<open>The hit at a position, but for what the ranking says of it.\<close>

definition stands_for :: "search_hit list \<Rightarrow> nat \<Rightarrow> search_hit \<Rightarrow> bool" where
  "stands_for hits i h \<longleftrightarrow> i < length hits \<and> sh_chunk h = sh_chunk (hits ! i) \<and> sh_score h = sh_score (hits ! i) \<and>
     sh_context h = sh_context (hits ! i) \<and> sh_warning h = sh_warning (hits ! i)"

lemma rerank_selects:
  assumes "rerank re query hits k deadline w = (Inr out, w')"
  shows "\<exists>is. distinct is \<and> length is = min k (length hits) \<and> list_all2 (stands_for hits) is out \<and>
    ((\<forall>h\<in>set out. \<exists>t. sh_rerank_trace h = Some t \<and> rt_status t = ''applied'') \<and>
       sorted_wrt (\<lambda>a b. the (sh_rerank_score b) \<le> the (sh_rerank_score a)) out \<or>
     (\<forall>h\<in>set out. \<exists>t. sh_rerank_trace h = Some t \<and> rt_status t = ''fallback'' \<and> rt_error t \<noteq> None) \<and> is = [0..<min k (length hits)])"
proof (cases "hits = []")
  case True
  then show ?thesis using assms by (auto simp: rerank_def)
next
  case False
  let ?q = "take 200 query" and ?n = "length hits"
  let ?texts = "map (\<lambda>h. take (character_limit ?n (length ?q)) (ch_content (sh_chunk h))) hits"
  obtain attempts reply w1 where a: "ask_ranking re ?q ?texts ?n k deadline w = ((attempts, reply), w1)" by (metis surj_pair)
  obtain ms w2 where e: "rr_elapsed re w1 = (ms, w2)" by fastforce
  show ?thesis
  proof (cases reply)
    case (Inl x)
    have "\<exists>trace. out = map (traced trace) (take k hits) \<and> rt_status trace = ''fallback'' \<and> rt_error trace \<noteq> None"
      using assms False a e Inl by (auto simp: rerank_def Let_def simp del: map_eq_conv split: if_splits)
    then obtain trace where out: "out = map (traced trace) (take k hits)" "rt_status trace = ''fallback''" "rt_error trace \<noteq> None" by blast
    have "list_all2 (stands_for hits) [0..<min k ?n] out"
      by (auto simp: out(1) list_all2_conv_all_nth stands_for_def traced_def)
    then show ?thesis using out(2,3) by (intro exI [of _ "[0..<min k ?n]"]) (auto simp: out(1) traced_def)
  next
    case (Inr rt)
    obtain ranks tokens where rt: "rt = (ranks, tokens)" by fastforce
    have read: "\<exists>payload. read_ranking (rr_float re) ?n k payload = Inr (ranks, tokens)"
      using a unfolding Inr rt
      by (auto simp: ask_ranking_def Let_def and_then_def split: prod.splits if_splits ranking_reply.splits sum.splits option.splits)
    then have p: "length ranks = min k ?n" "distinct (map fst ranks)" "\<forall>(i, s)\<in>set ranks. i < ?n \<and> 0 \<le> s \<and> s \<le> 1"
      using read_ranking_positions by blast+
    let ?dress = "\<lambda>(i, s). (hits ! i)\<lparr>sh_rerank_score := Some s\<rparr>"
    let ?sorted = "sort_key (\<lambda>x. - snd x) ranks"
    have sorted: "ranked_hits hits ranks = map ?dress ?sorted"
      by (simp add: ranked_hits_def sort_map comp_def case_prod_beta)
    have "\<exists>trace. out = map (traced trace) (map ?dress ?sorted) \<and> rt_status trace = ''applied''"
      using assms False a e Inr rt by (auto simp: rerank_def Let_def sorted [symmetric] simp del: map_eq_conv map_map)
    then obtain trace where out: "out = map (traced trace) (map ?dress ?sorted)" "rt_status trace = ''applied''" by blast
    have mem: "\<forall>x\<in>set ?sorted. fst x < ?n" using p(3) by auto
    have pos: "fst (?sorted ! j) < ?n" if "j < length ranks" for j
    proof -
      have "?sorted ! j \<in> set ?sorted" by (rule nth_mem) (use that in simp)
      then show ?thesis using mem by blast
    qed
    have "list_all2 (stands_for hits) (map fst ?sorted) out"
      using pos by (simp add: out(1) list_all2_conv_all_nth stands_for_def case_prod_beta traced_def)
    moreover have "distinct (map fst ?sorted)"
      using p(2) by (metis distinct_map distinct_sort set_sort)
    moreover have "sorted_wrt (\<lambda>a b. the (sh_rerank_score b) \<le> the (sh_rerank_score a)) out"
    proof -
      have "sorted (map (\<lambda>x. - snd x) ?sorted)" by simp
      then show ?thesis by (auto simp: out(1) sorted_wrt_map case_prod_beta sorted_map traced_def)
    qed
    ultimately show ?thesis using p(1) out(2) by (intro exI [of _ "map fst ?sorted"]) (auto simp: out(1) traced_def)
  qed
qed

section \<open>Selection\<close>

lemma unique_hits_distinct:
  "distinct (map text_key (unique_hits seen hits)) \<and> set (map text_key (unique_hits seen hits)) \<inter> set seen = {} \<and>
   set (unique_hits seen hits) \<subseteq> set hits \<and> (\<forall>h\<in>set (unique_hits seen hits). normalized h \<noteq> [])"
proof (induction seen hits rule: unique_hits.induct)
  case (2 seen h hits)
  show ?case
  proof (cases "normalized h = [] \<or> text_key h \<in> set seen")
    case True
    then show ?thesis using 2(1) by auto
  next
    case False
    then show ?thesis using 2(2) [OF False] by auto
  qed
qed simp

lemma text_key_chunk: "sh_chunk a = sh_chunk b \<Longrightarrow> text_key a = text_key b \<and> normalized a = normalized b"
  by (simp add: text_key_def normalized_def)

lemma select_hits_ok:
  assumes "select_hits rv query deadline hits w = (Inr out, w')"
  shows "length out \<le> rv_top_k rv \<and> distinct (map text_key out) \<and>
    (\<forall>h\<in>set out. normalized h \<noteq> [] \<and> (\<exists>x\<in>set hits. sh_chunk h = sh_chunk x \<and> sh_score h = sh_score x))"
proof -
  let ?u = "unique_hits [] hits"
  have u: "distinct (map text_key ?u)" "set ?u \<subseteq> set hits" "\<forall>h\<in>set ?u. normalized h \<noteq> []" using unique_hits_distinct [of "[]" hits] by auto
  show ?thesis
  proof (cases "rv_reranker rv = None \<or> ?u = []")
    case True
    then have "out = take (rv_top_k rv) ?u" using assms by (auto simp: select_hits_def Let_def split: option.splits)
    then show ?thesis using u by (auto simp: take_map [symmetric] dest: in_set_takeD)
  next
    case False
    then obtain re where re: "rv_reranker rv = Some re" by (cases "rv_reranker rv") auto
    let ?v = "take (rv_top_k rv * 2) ?u"
    have "rerank re query ?v (rv_top_k rv) deadline w = (Inr out, w')" using assms False re by (simp add: select_hits_def Let_def)
    from rerank_selects [OF this] obtain "is" where i: "distinct is" "length is = min (rv_top_k rv) (length ?v)" "list_all2 (stands_for ?v) is out" by blast
    have at: "j < length out \<Longrightarrow> stands_for ?v (is ! j) (out ! j)" for j using i(3) by (simp add: list_all2_conv_all_nth)
    have l: "length out = length is" using i(3) by (simp add: list_all2_lengthD)
    have dv: "distinct (map text_key ?v)" using u(1) by (simp add: take_map [symmetric])
    have inj: "x = y" if "text_key (?v ! x) = text_key (?v ! y)" "x < length ?v" "y < length ?v" for x y
      using nth_eq_iff_index_eq [OF dv, of x y] that by simp
    have "distinct (map text_key out)"
      unfolding distinct_conv_nth
    proof (intro allI impI)
      fix a b assume ab: "a < length (map text_key out)" "b < length (map text_key out)" "a \<noteq> b"
      have "is ! a \<noteq> is ! b" using ab i(1) l by (simp add: nth_eq_iff_index_eq)
      moreover have "is ! a < length ?v" "is ! b < length ?v" using at [of a] at [of b] ab by (simp_all add: stands_for_def)
      ultimately have "text_key (?v ! (is ! a)) \<noteq> text_key (?v ! (is ! b))" using inj by blast
      moreover have "text_key (out ! c) = text_key (?v ! (is ! c))" if "c < length out" for c
        using at [OF that] text_key_chunk [of "out ! c" "?v ! (is ! c)"] unfolding stands_for_def by blast
      ultimately show "map text_key out ! a \<noteq> map text_key out ! b" using ab by (metis length_map nth_map)
    qed
    moreover have "normalized h \<noteq> [] \<and> (\<exists>x\<in>set hits. sh_chunk h = sh_chunk x \<and> sh_score h = sh_score x)" if h: "h \<in> set out" for h
    proof -
      obtain j where j: "j < length out" "h = out ! j" using h by (auto simp: in_set_conv_nth)
      let ?x = "?v ! (is ! j)"
      have x: "?x \<in> set ?v" "sh_chunk h = sh_chunk ?x" "sh_score h = sh_score ?x"
        using at [OF j(1)] nth_mem [of "is ! j" ?v] unfolding stands_for_def j(2) by blast+
      then have "?x \<in> set ?u" by (meson in_set_takeD)
      then have "?x \<in> set hits" "normalized ?x \<noteq> []" using u(2,3) by blast+
      then show ?thesis using x(2,3) text_key_chunk [OF x(2)] by metis
    qed
    ultimately show ?thesis using i(2) l by simp
  qed
qed

section \<open>Expansion\<close>

definition same_hits :: "search_hit list \<Rightarrow> search_hit list \<Rightarrow> bool" where
  "same_hits xs ys \<longleftrightarrow> map sh_chunk ys = map sh_chunk xs \<and> map sh_score ys = map sh_score xs \<and> map sh_rerank_score ys = map sh_rerank_score xs"

lemma list_all2_same_hits: "list_all2 enriches xs ys \<Longrightarrow> same_hits xs ys"
  by (induction rule: list_all2_induct) (auto simp: same_hits_def enriches_def)

lemma finish_hits_same:
  assumes "finish_hits rv check query deadline budget groups hits w = (Inr out, w')"
  obtains unique w1 where "select_hits rv query deadline hits w = (Inr unique, w1)" "same_hits unique out"
    "list_all2 enriches unique out \<or> map sh_context out = map sh_context unique"
proof -
  obtain unique w1 where s: "select_hits rv query deadline hits w = (Inr unique, w1)"
    using assms by (auto simp: finish_hits_def call_simps)
  have "same_hits unique out \<and> (list_all2 enriches unique out \<or> map sh_context out = map sh_context unique)"
  proof (cases "\<not> list_ex can_expand groups \<or> unique = []")
    case True
    then have "out = unique" using assms s by (auto simp: finish_hits_def call_simps)
    then show ?thesis by (simp add: same_hits_def)
  next
    case False
    obtain res w2 where e: "wbind (expand_groups rv check deadline unique groups budget []) (\<lambda>m w. (lookup_all m unique, w)) w1 = (res, w2)" by fastforce
    show ?thesis
    proof (cases res)
      case (Inl x)
      then obtain c where "out = map (\<lambda>h. h\<lparr>sh_warning := Some c\<rparr>) unique"
        using assms s False e by (auto simp: finish_hits_def wbind_Inr [of "select_hits _ _ _ _"] split: option.splits if_splits)
      then show ?thesis by (simp add: same_hits_def comp_def)
    next
      case (Inr xs)
      then have "list_all2 enriches unique out" using assms s False e by (auto simp: finish_hits_def wbind_Inr [of "select_hits _ _ _ _"] split: if_splits)
      then show ?thesis using list_all2_same_hits by blast
    qed
  qed
  then show thesis using that s by blast
qed

section \<open>Scope\<close>

definition granted :: "(uuid \<times> uuid) list \<Rightarrow> search_hit \<Rightarrow> bool" where
  "granted owners h \<longleftrightarrow> (\<exists>(did, owner)\<in>set owners. ch_document (sh_chunk h) = uuid_str did \<and> ch_user (sh_chunk h) = uuid_str owner)"

lemma search_scoped_granted:
  assumes "search_scoped rv be owner ids query vector w = (Inr batch, w')" "\<forall>d\<in>set ids. (d, owner) \<in> set owners"
  shows "\<forall>h\<in>set batch. granted owners h"
  using assms by (auto simp: search_scoped_def call_simps list_all_iff in_scope_def granted_def split: if_splits; fastforce)

lemma search_owned_granted:
  "search_owned rv check query vector groups w = (Inr hits, w') \<Longrightarrow> \<forall>(owner, ids)\<in>set groups. \<forall>d\<in>set ids. (d, owner) \<in> set owners \<Longrightarrow>
    \<forall>h\<in>set hits. granted owners h"
proof (induction rv check query vector groups arbitrary: w hits w' rule: search_owned.induct)
  case (2 rv check query vector owner ids groups)
  obtain batch rest w1 w2 where s: "search_scoped rv (rv_backend rv) owner ids query vector w1 = (Inr batch, w2)"
    "search_owned rv check query vector groups w2 = (Inr rest, w')" "hits = batch @ rest"
    using 2(2) by (auto simp: call_simps)
  have "\<forall>h\<in>set rest. granted owners h" using 2(1) [OF s(2)] 2(3) by auto
  then show ?case using search_scoped_granted [OF s(1)] 2(3) s(3) by auto
qed (auto simp: call_simps)

lemma search_indexes_granted:
  "search_indexes rv factory check query hint targets vectors w = (Inr (hits, groups), w') \<Longrightarrow>
    \<forall>ts\<in>set targets. ts \<noteq> [] \<and> (\<forall>t\<in>set ts. ri_user t = ri_user (hd ts) \<and> (ri_document t, ri_user t) \<in> set owners) \<Longrightarrow>
    \<forall>h\<in>set hits. granted owners h"
proof (induction rv factory check query hint targets vectors arbitrary: w hits groups w' rule: search_indexes.induct)
  case (2 rv factory check query hint ts rest vectors)
  obtain be v batch hits' groups' w1 w2 where s:
    "search_scoped rv be (ri_user (hd ts)) (map ri_document ts) query v w1 = (Inr batch, w2)"
    "search_indexes rv factory check query hint rest (AList.update (embedding_key (hd ts)) v vectors) w2 = (Inr (hits', groups'), w')"
    "hits = batch @ hits'"
  proof -
    obtain a1 v1 where b1: "check w = (Inr a1, v1)" and c1:
      "wbind (factory (hd ts)) (\<lambda>be.
       wbind (case map_of vectors (embedding_key (hd ts)) of Some v \<Rightarrow> wret v | None \<Rightarrow> be_embed be hint) (\<lambda>vector.
       wbind check (\<lambda>_.
       wbind (search_scoped rv be (ri_user (hd ts)) (map ri_document ts) query vector) (\<lambda>batch.
       wbind (search_indexes rv factory check query hint rest (AList.update (embedding_key (hd ts)) vector vectors)) (\<lambda>(hits, groups).
       wret (batch @ hits, (ri_user (hd ts), map ri_document ts, be) # groups)))))) v1 = (Inr (hits, groups), w')"
      using 2(2) unfolding search_indexes.simps Let_def wbind_Inr [of check] by blast
    obtain be v2 where c2:
      "wbind (case map_of vectors (embedding_key (hd ts)) of Some v \<Rightarrow> wret v | None \<Rightarrow> be_embed be hint) (\<lambda>vector.
       wbind check (\<lambda>_.
       wbind (search_scoped rv be (ri_user (hd ts)) (map ri_document ts) query vector) (\<lambda>batch.
       wbind (search_indexes rv factory check query hint rest (AList.update (embedding_key (hd ts)) vector vectors)) (\<lambda>(hits, groups).
       wret (batch @ hits, (ri_user (hd ts), map ri_document ts, be) # groups))))) v2 = (Inr (hits, groups), w')"
      using c1 unfolding wbind_Inr [of "factory (hd ts)"] by blast
    obtain v v3 where c3:
      "wbind check (\<lambda>_.
       wbind (search_scoped rv be (ri_user (hd ts)) (map ri_document ts) query v) (\<lambda>batch.
       wbind (search_indexes rv factory check query hint rest (AList.update (embedding_key (hd ts)) v vectors)) (\<lambda>(hits, groups).
       wret (batch @ hits, (ri_user (hd ts), map ri_document ts, be) # groups)))) v3 = (Inr (hits, groups), w')"
      using c2 unfolding wbind_Inr [of "case_option _ _ _"] by blast
    obtain v4 where c4:
      "wbind (search_scoped rv be (ri_user (hd ts)) (map ri_document ts) query v) (\<lambda>batch.
       wbind (search_indexes rv factory check query hint rest (AList.update (embedding_key (hd ts)) v vectors)) (\<lambda>(hits, groups).
       wret (batch @ hits, (ri_user (hd ts), map ri_document ts, be) # groups))) v4 = (Inr (hits, groups), w')"
      using c3 unfolding wbind_Inr [of check] by blast
    obtain batch w1 w2 where a: "search_scoped rv be (ri_user (hd ts)) (map ri_document ts) query v w1 = (Inr batch, w2)"
      "wbind (search_indexes rv factory check query hint rest (AList.update (embedding_key (hd ts)) v vectors)) (\<lambda>(hits, groups).
        wret (batch @ hits, (ri_user (hd ts), map ri_document ts, be) # groups)) w2 = (Inr (hits, groups), w')"
      using c4 unfolding wbind_Inr [of "search_scoped rv be (ri_user (hd ts)) (map ri_document ts) query v"] by blast
    obtain r w3 where "search_indexes rv factory check query hint rest (AList.update (embedding_key (hd ts)) v vectors) w2 = (Inr r, w3)"
      "(case r of (hits, groups) \<Rightarrow> wret (batch @ hits, (ri_user (hd ts), map ri_document ts, be) # groups)) w3 = (Inr (hits, groups), w')"
      using a(2) unfolding wbind_Inr [of "search_indexes rv factory check query hint rest _"] by blast
    then show thesis using that [OF a(1)] by (cases r) (auto simp: wret_def)
  qed
  have own: "\<forall>t\<in>set ts. ri_user t = ri_user (hd ts) \<and> (ri_document t, ri_user t) \<in> set owners" using 2(3) by (meson list.set_intros(1))
  have ids: "\<forall>d\<in>set (map ri_document ts). (d, ri_user (hd ts)) \<in> set owners"
  proof
    fix d assume "d \<in> set (map ri_document ts)"
    then obtain t where t: "t \<in> set ts" "d = ri_document t" by auto
    with own show "(d, ri_user (hd ts)) \<in> set owners" by metis
  qed
  have left: "\<forall>ts\<in>set rest. ts \<noteq> [] \<and> (\<forall>t\<in>set ts. ri_user t = ri_user (hd ts) \<and> (ri_document t, ri_user t) \<in> set owners)"
    using 2(3) by (meson list.set_intros(2))
  have "\<forall>h\<in>set hits'. granted owners h" by (rule 2(1) [OF refl refl refl s(2) left])
  then show ?case using search_scoped_granted [OF s(1) ids] by (simp add: s(3) ball_Un)
qed (auto simp: call_simps)

lemma first_seen_set [simp]: "set (first_seen xs) = set xs"
  by (simp add: first_seen_def)

lemma finish_granted:
  assumes "finish_hits rv check query deadline budget groups (by_score n hits) w = (Inr out, w')" "\<forall>h\<in>set hits. granted owners h"
  shows "length out \<le> rv_top_k rv \<and> distinct (map text_key out) \<and> (\<forall>h\<in>set out. normalized h \<noteq> [] \<and> granted owners h)"
proof -
  obtain unique w1 where u: "select_hits rv query deadline (by_score n hits) w = (Inr unique, w1)" "same_hits unique out"
    by (rule finish_hits_same [OF assms(1)]) (rule that)
  note ok = select_hits_ok [OF u(1)]
  have len: "length out = length unique" using u(2) by (metis length_map same_hits_def)
  have at: "sh_chunk (out ! j) = sh_chunk (unique ! j)" if "j < length out" for j
  proof -
    have "map sh_chunk out ! j = map sh_chunk unique ! j" using u(2) by (simp add: same_hits_def)
    then show ?thesis using that len by simp
  qed
  have key: "map text_key out = map text_key unique"
  proof (rule nth_equalityI)
    fix j assume "j < length (map text_key out)"
    then have "j < length out" by simp
    then show "map text_key out ! j = map text_key unique ! j" using text_key_chunk [OF at [of j]] len by simp
  qed (simp add: len)
  have perm: "set (by_score n hits) = set hits" by (simp add: by_score_def)
  have "normalized h \<noteq> [] \<and> granted owners h" if "h \<in> set out" for h
  proof -
    obtain j where j: "j < length out" "h = out ! j" using \<open>h \<in> set out\<close> by (auto simp: in_set_conv_nth)
    have mem: "unique ! j \<in> set unique" using j len by simp
    then obtain x where "x \<in> set hits" "sh_chunk (unique ! j) = sh_chunk x" using ok perm by blast
    then have "granted owners h" using assms(2) at [OF j(1)] j(2) by (simp add: granted_def)
    then show ?thesis using ok mem text_key_chunk [OF at [OF j(1)]] j(2) by auto
  qed
  then show ?thesis using ok key len by simp
qed

lemma group_by_members: "(k, ys) \<in> set (group_by f xs) \<Longrightarrow> ys \<noteq> [] \<and> (\<forall>y\<in>set ys. y \<in> set xs \<and> f y = k)"
  by (auto simp: group_by_def filter_empty_conv)

lemma indexed_scoped:
  assumes "retrieve_indexed rv query dids owners indexes deadline budget hint w = (Inr out, w')"
  shows "length out \<le> rv_top_k rv \<and> distinct (map text_key out) \<and> (\<forall>h\<in>set out. normalized h \<noteq> [] \<and> granted owners h)"
proof -
  let ?groups = "map snd (group_by index_key indexes)" and ?check = "check_time rv True deadline"
  obtain factory where f: "rv_factory rv = Some factory"
    using assms by (auto simp: retrieve_indexed_def call_simps split: option.splits)
  have own: "\<forall>t\<in>set indexes. map_of owners (ri_document t) = Some (ri_user t)"
    using assms f by (auto simp: retrieve_indexed_def call_simps list_ex_iff split: if_splits)
  have "wbind (search_indexes rv factory ?check query hint ?groups []) (\<lambda>(hits, groups).
      finish_hits rv ?check query deadline budget groups (by_score (length groups) hits)) w = (Inr out, w')"
    using assms f by (auto simp: retrieve_indexed_def call_simps Let_def split: if_splits)
  then obtain p w1 where p: "search_indexes rv factory ?check query hint ?groups [] w = (Inr p, w1)"
    "(case p of (hits, groups) \<Rightarrow> finish_hits rv ?check query deadline budget groups (by_score (length groups) hits)) w1 = (Inr out, w')"
    unfolding wbind_Inr by blast
  obtain hits groups where hg: "p = (hits, groups)" by fastforce
  have "ts \<noteq> [] \<and> (\<forall>t\<in>set ts. ri_user t = ri_user (hd ts) \<and> (ri_document t, ri_user t) \<in> set owners)" if ts: "ts \<in> set ?groups" for ts
  proof -
    obtain k where k: "(k, ts) \<in> set (group_by index_key indexes)" using ts by auto
    have m: "ts \<noteq> []" "\<forall>t\<in>set ts. t \<in> set indexes \<and> index_key t = k" using group_by_members [OF k] by blast+
    have "ri_user t = ri_user (hd ts)" if "t \<in> set ts" for t
      using m that hd_in_set [OF m(1)] by (metis index_key_def prod.inject)
    moreover have "(ri_document t, ri_user t) \<in> set owners" if "t \<in> set ts" for t
      using m(2) that own by (meson map_of_SomeD)
    ultimately show ?thesis using m(1) by blast
  qed
  then have "\<forall>ts\<in>set ?groups. ts \<noteq> [] \<and> (\<forall>t\<in>set ts. ri_user t = ri_user (hd ts) \<and> (ri_document t, ri_user t) \<in> set owners)" by blast
  from finish_granted [OF p(2) [unfolded hg prod.case] search_indexes_granted [OF p(1) [unfolded hg] this]] show ?thesis .
qed

text \<open>A retrieval of something has owners for exactly the documents of the query, and searches within them.\<close>

lemma retrieve_granted:
  assumes "retrieve rv uid query dids deadline owned budget hint indexes w = (Inr out, w')"
  shows "length out \<le> rv_top_k rv \<and> distinct (map text_key out) \<and>
    (\<forall>h\<in>set out. normalized h \<noteq> [] \<and> granted (owners_for uid dids owned) h)"
proof (cases "indexes = []")
  case False
  then have "retrieve_indexed rv query dids (owners_for uid dids owned) indexes deadline budget
      (case hint of None \<Rightarrow> query | Some t \<Rightarrow> t) w = (Inr out, w')"
    using assms by (simp add: retrieve_def Let_def call_simps split: if_splits)
  then show ?thesis by (rule indexed_scoped)
next
  case True
  let ?o = "owners_for uid dids owned" and ?check = "check_time rv (owned \<noteq> None) deadline"
  let ?groups = "map (\<lambda>(owner, ps). (owner, map fst ps)) (group_by snd ?o)"
  let ?finish = "\<lambda>hits. finish_hits rv ?check query deadline budget (map (\<lambda>(owner, ids). (owner, ids, rv_backend rv)) ?groups)
    (by_score (length ?groups) hits)"
  have "wbind ?check (\<lambda>_. wbind (be_embed (rv_backend rv) (case hint of None \<Rightarrow> query | Some t \<Rightarrow> t)) (\<lambda>vector.
      wbind (search_owned rv ?check query vector ?groups) ?finish)) w = (Inr out, w')"
    using assms True by (simp add: retrieve_def Let_def call_eqs split: if_splits)
  then obtain vector w1 where "wbind (search_owned rv ?check query vector ?groups) ?finish w1 = (Inr out, w')"
    unfolding wbind_Inr [of ?check] wbind_Inr [of "be_embed _ _"] by blast
  then obtain hits w2 where s: "search_owned rv ?check query vector ?groups w1 = (Inr hits, w2)" "?finish hits w2 = (Inr out, w')"
    unfolding wbind_Inr by blast
  have "(d, owner) \<in> set ?o" if "(owner, ids) \<in> set ?groups" "d \<in> set ids" for owner ids d
    using that group_by_members [of _ _ snd ?o] by fastforce
  then have "\<forall>(owner, ids)\<in>set ?groups. \<forall>d\<in>set ids. (d, owner) \<in> set ?o" by blast
  from finish_granted [OF s(2) search_owned_granted [OF s(1) this]] show ?thesis .
qed

text \<open>
  C13: A retrieval stays in its scope. Whatever the embedding, the vector store, the second ranking and the
  expanders do, hits that are returned are at most \<open>top_k\<close>, none is blank, and no two have the same key, that is the
  same text (for a row of a spreadsheet: the same document, row anchor and text). Each belongs to a document that
  the query names, under the owner who was given for that document.
\<close>

theorem retrieve_scoped:
  assumes "retrieve rv uid query dids deadline owned budget hint indexes w = (Inr out, w')"
  shows "length out \<le> rv_top_k rv \<and> distinct (map text_key out) \<and>
    (\<forall>h\<in>set out. normalized h \<noteq> [] \<and>
      (\<exists>did owner. did \<in> set dids \<and> (did, owner) \<in> set (owners_for uid dids owned) \<and>
         ch_document (sh_chunk h) = uuid_str did \<and> ch_user (sh_chunk h) = uuid_str owner))"
proof -
  have "set (map fst (owners_for uid dids owned)) = set dids"
    using assms by (simp add: retrieve_def Let_def call_eqs split: if_splits)
  then have "(did, owner) \<in> set (owners_for uid dids owned) \<Longrightarrow> did \<in> set dids" for did owner by force
  then show ?thesis using retrieve_granted [OF assms] unfolding granted_def by fastforce
qed


section \<open>An example\<close>

text \<open>Three hits, two of them with the same text, and a ranking that prefers the last.\<close>

definition demo_search_hit :: "uuid \<Rightarrow> string \<Rightarrow> string \<Rightarrow> search_hit" where
  "demo_search_hit owner key s = demo_hit\<lparr>sh_chunk := demo_chunk\<lparr>ch_id := key, ch_user := uuid_str owner, ch_document := uuid_str 3, ch_content := s\<rparr>\<rparr>"

definition demo_rerank :: "int rerank_env" where
  "demo_rerank = \<lparr>rr_model = ''m'', rr_timeout = 5, rr_clock = (\<lambda>n. (0, n)), rr_elapsed = (\<lambda>n. (1, n)),
     rr_request = (\<lambda>q ts k t n. (Replied 200 [] (Some (JObj [(''results'', JArr [JObj [(''index'', JInt 1), (''relevance_score'', JInt 1)]])])), n + 1)),
     rr_float = (\<lambda>_. None)\<rparr>"

definition demo_retriever :: "int retriever" where
  "demo_retriever = \<lparr>rv_backend = \<lparr>be_embed = (\<lambda>q n. (Inr [1], n + 1)),
       be_search = (\<lambda>owner ids q v k n. (Inr [demo_search_hit owner ''a'' ''tea'', demo_search_hit owner ''b'' ''tea'', demo_search_hit owner ''c'' ''milk''], n + 1)),
       be_context = None, be_hierarchy = None\<rparr>,
     rv_top_k = 1, rv_reranker = Some demo_rerank, rv_factory = None, rv_now = (\<lambda>n. (0, n)), rv_evidence = demo_evidence_env\<rparr>"

lemma demo_retriever_fields [simp]:
  "be_embed (rv_backend demo_retriever) q n = (Inr [1], n + 1)"
  "be_search (rv_backend demo_retriever) owner ids q v k n =
     (Inr [demo_search_hit owner ''a'' ''tea'', demo_search_hit owner ''b'' ''tea'', demo_search_hit owner ''c'' ''milk''], n + 1)"
  "be_context (rv_backend demo_retriever) = None" "be_hierarchy (rv_backend demo_retriever) = None"
  "rv_top_k demo_retriever = 1" "rv_reranker demo_retriever = Some demo_rerank"
  by (simp_all add: demo_retriever_def)

lemma demo_search_hit_fields [simp]:
  "ch_content (sh_chunk (demo_search_hit u key s)) = s" "ch_user (sh_chunk (demo_search_hit u key s)) = uuid_str u"
  "ch_document (sh_chunk (demo_search_hit u key s)) = uuid_str 3" "ch_excel (sh_chunk (demo_search_hit u key s)) = None"
  by (simp_all add: demo_search_hit_def demo_hit_def demo_chunk_def)

lemma demo_unique:
  "unique_hits [] [demo_search_hit 2 ''a'' ''tea'', demo_search_hit 2 ''b'' ''tea'', demo_search_hit 2 ''c'' ''milk''] =
     [demo_search_hit 2 ''a'' ''tea'', demo_search_hit 2 ''c'' ''milk'']"
  by (simp add: normalized_def text_key_def py_space_def)

lemma demo_ranked:
  "\<exists>t. rerank demo_rerank ''q'' [demo_search_hit 2 ''a'' ''tea'', demo_search_hit 2 ''c'' ''milk''] (Suc 0) None 2 =
     (Inr [demo_search_hit 2 ''c'' ''milk''\<lparr>sh_rerank_score := Some 1, sh_rerank_trace := Some t\<rparr>], 3)"
  by (simp add: rerank_def demo_rerank_def ask_ranking_def character_limit_def and_then_def read_ranking_def
      dict_get_def ranked_hits_def traced_def) (rule exI, rule refl)

text \<open>The same ranking with an integer beyond the floats as its score: the error is not one of those that are handled.\<close>

definition demo_overflow :: "int rerank_env" where
  "demo_overflow = demo_rerank\<lparr>rr_request := (\<lambda>q ts k t n.
     (Replied 200 [] (Some (JObj [(''results'', JArr [JObj [(''index'', JInt 1), (''relevance_score'', JInt (2 ^ 1024))]])])), n + 1))\<rparr>"

lemma ranking_overflow:
  "rerank demo_overflow ''q'' [demo_search_hit 2 ''a'' ''tea'', demo_search_hit 2 ''c'' ''milk''] (Suc 0) None 2 = (Inl overflow_error, 3)"
  by (simp add: rerank_def demo_overflow_def demo_rerank_def ask_ranking_def character_limit_def and_then_def read_ranking_def
      dict_get_def)

lemma demo_retrieved:
  "\<exists>t. retrieve demo_retriever 2 ''q'' [3] None None None None [] 0 =
     (Inr [demo_search_hit 2 ''c'' ''milk''\<lparr>sh_rerank_score := Some 1, sh_rerank_trace := Some t\<rparr>], 3)"
proof -
  obtain t where t: "rerank demo_rerank ''q'' [demo_search_hit 2 ''a'' ''tea'', demo_search_hit 2 ''c'' ''milk''] (Suc 0) None 2 =
     (Inr [demo_search_hit 2 ''c'' ''milk''\<lparr>sh_rerank_score := Some 1, sh_rerank_trace := Some t\<rparr>], 3)"
    using demo_ranked by blast
  have own: "owners_for 2 [3] None = [(3, 2)]" by (simp add: owners_for_def first_seen_def)
  have groups: "group_by snd [(3 :: uuid, 2 :: uuid)] = [(2, [(3, 2)])]" by (simp add: group_by_def first_seen_def)
  have select: "select_hits demo_retriever ''q'' None [demo_search_hit 2 ''a'' ''tea'', demo_search_hit 2 ''b'' ''tea'', demo_search_hit 2 ''c'' ''milk''] 2 =
     (Inr [demo_search_hit 2 ''c'' ''milk''\<lparr>sh_rerank_score := Some 1, sh_rerank_trace := Some t\<rparr>], 3)"
    unfolding select_hits_def Let_def demo_unique by (simp add: t)
  show ?thesis
    by (rule exI [of _ t]) (simp add: retrieve_def Let_def own groups check_time_def wbind_def wret_def search_scoped_def in_scope_def
      finish_hits_def select by_score_def can_expand_def)
qed

theorem retrieve_scoped_witness:
  "\<exists>out. retrieve demo_retriever 2 ''q'' [3] None None None None [] 0 = (Inr out, 3) \<and> length out \<le> 1 \<and> out \<noteq> [] \<and>
     (\<forall>h\<in>set out. ch_document (sh_chunk h) = uuid_str 3 \<and> ch_user (sh_chunk h) = uuid_str 2)"
proof -
  obtain h where h: "retrieve demo_retriever 2 ''q'' [3] None None None None [] 0 = (Inr [h], 3)" using demo_retrieved by blast
  show ?thesis using h retrieve_scoped [OF h] by (simp add: owners_for_def first_seen_def)
qed


end
