(* ===== verification/ModelCatalog.thy ===== *)
theory ModelCatalog
  imports Complex_Main Capabilities
begin

text \<open>
  Model profiles and the roles they are assigned to (\<open>app/entity/bo/model_catalog.py\<close>), the two-provider
  configuration of older clients (\<open>app/entity/dto/model_center.py\<close>), the conversions between them
  (\<open>catalog_from_legacy\<close>, \<open>legacy_projection\<close> of \<open>app/service/model_center.py\<close>), and the choice of a
  model for a role (\<open>app/manager/llms/catalog.py\<close>). A pydantic model is a \<open>record\<close>; validating one gives it
  back with its texts trimmed, or raises.
\<close>

definition pydantic_error :: exn where
  "pydantic_error = OtherError ''ValidationError''"

definition key_error :: exn where
  "key_error = OtherError ''KeyError''"

section \<open>Profiles\<close>

datatype model_provider = Deepseek | Ollama
datatype model_role = Answering | Fast | Grader | Evaluator

definition provider_name :: "model_provider \<Rightarrow> string" where
  "provider_name p = (case p of Deepseek \<Rightarrow> ''deepseek'' | Ollama \<Rightarrow> ''ollama'')"

definition model_roles :: "model_role list" where
  "model_roles = [Answering, Fast, Grader, Evaluator]"

record registered_profile =
  rp_id :: string
  rp_version :: int
  rp_display :: string
  rp_provider :: model_provider
  rp_connection :: string
  rp_model :: string
  rp_window :: int
  rp_output :: int
  rp_timeout :: rat
  rp_stream :: bool
  rp_tools :: bool
  rp_structured :: bool
  rp_enabled :: bool
  rp_fallback :: "string option"

text \<open>What pydantic strips: the white space of Unicode, which is not Python's.\<close>

definition blank :: "char \<Rightarrow> bool" where
  "blank c = (let n = (of_char c :: nat) in 9 \<le> n \<and> n \<le> 13 \<or> n \<in> {32, 133, 160})"

definition trim :: "string \<Rightarrow> string" where
  "trim s = rev (dropWhile blank (rev (dropWhile blank s)))"

definition profile_id_ok :: "string \<Rightarrow> bool" where
  "profile_id_ok s = (case s of [] \<Rightarrow> False
     | c # cs \<Rightarrow> lower_char c \<and> length cs \<le> 63 \<and> list_all (\<lambda>x. lower_char x \<or> digit_char_p x \<or> x \<in> set ''_-'') cs)"

definition model_name_ok :: "string \<Rightarrow> bool" where
  "model_name_ok s = (s \<noteq> [] \<and> length s \<le> 200 \<and> list_all (\<lambda>x. lower_char x \<or> upper_char x \<or> digit_char_p x \<or> x \<in> set ''._:/-'') s)"

definition profile_ok :: "registered_profile \<Rightarrow> bool" where
  "profile_ok p =
     (profile_id_ok (rp_id p) \<and> 1 \<le> rp_version p \<and> rp_display p \<noteq> [] \<and> length (rp_display p) \<le> 120 \<and> profile_id_ok (rp_connection p) \<and>
      model_name_ok (rp_model p) \<and> 4096 \<le> rp_window p \<and> rp_window p \<le> 2000000 \<and> 1 \<le> rp_output p \<and> rp_output p \<le> 16384 \<and>
      0 < rp_timeout p \<and> rp_timeout p \<le> 120 \<and> (case rp_fallback p of None \<Rightarrow> True | Some f \<Rightarrow> profile_id_ok f) \<and>
      rp_output p + 1024 \<le> rp_window p)"

definition trim_profile :: "registered_profile \<Rightarrow> registered_profile" where
  "trim_profile p = p\<lparr>rp_id := trim (rp_id p), rp_display := trim (rp_display p), rp_connection := trim (rp_connection p),
     rp_model := trim (rp_model p), rp_fallback := map_option trim (rp_fallback p)\<rparr>"

fun supports :: "registered_profile \<Rightarrow> model_role \<Rightarrow> bool" where
  "supports p Answering = (rp_stream p \<and> rp_tools p)"
| "supports p _ = rp_structured p"

section \<open>The catalog\<close>

record model_catalog =
  cg_profiles :: "(string \<times> registered_profile) list"
  cg_assignments :: "(model_role \<times> string) list"
  cg_defaults :: "(model_provider \<times> string) list"

definition fallback_of :: "model_catalog \<Rightarrow> registered_profile \<Rightarrow> registered_profile option" where
  "fallback_of c p = Option.bind (rp_fallback p) (map_of (cg_profiles c))"

definition fallback_ok :: "model_catalog \<Rightarrow> registered_profile \<Rightarrow> bool" where
  "fallback_ok c p = (case rp_fallback p of None \<Rightarrow> True
     | Some k \<Rightarrow> (case map_of (cg_profiles c) k of None \<Rightarrow> False
         | Some f \<Rightarrow> rp_enabled f \<and> rp_id f \<noteq> rp_id p \<and> rp_fallback f = None))"

text \<open>A profile for a role: enabled, able, and with a fallback that is able too.\<close>

definition fits_role :: "model_catalog \<Rightarrow> registered_profile \<Rightarrow> model_role \<Rightarrow> bool" where
  "fits_role c p r = (rp_enabled p \<and> supports p r \<and> (case fallback_of c p of None \<Rightarrow> True | Some f \<Rightarrow> supports f r))"

definition catalog_ok :: "model_catalog \<Rightarrow> bool" where
  "catalog_ok c =
     (cg_profiles c \<noteq> [] \<and> length (cg_profiles c) \<le> 64 \<and>
      list_all (\<lambda>(k, p). profile_id_ok k \<and> profile_ok p \<and> k = rp_id p \<and> fallback_ok c p) (cg_profiles c) \<and>
      set (map fst (cg_assignments c)) = set model_roles \<and>
      list_all (\<lambda>(r, k). case map_of (cg_profiles c) k of None \<Rightarrow> False | Some p \<Rightarrow> fits_role c p r) (cg_assignments c) \<and>
      list_all (\<lambda>(v, k). case map_of (cg_profiles c) k of None \<Rightarrow> False | Some p \<Rightarrow> rp_provider p = v \<and> fits_role c p Answering) (cg_defaults c))"

definition trim_catalog :: "model_catalog \<Rightarrow> model_catalog" where
  "trim_catalog c = c\<lparr>cg_profiles := map (\<lambda>(k, p). (k, trim_profile p)) (cg_profiles c)\<rparr>"

definition validate_catalog :: "model_catalog \<Rightarrow> model_catalog result" where
  "validate_catalog c = (if catalog_ok (trim_catalog c) then Inr (trim_catalog c) else Inl pydantic_error)"

definition require_role :: "model_catalog \<Rightarrow> model_role \<Rightarrow> registered_profile result" where
  "require_role c r = require_row (Option.bind (map_of (cg_assignments c) r) (map_of (cg_profiles c))) key_error"

section \<open>Two providers\<close>

record model_profile =
  pf_model :: string
  pf_window :: int
  pf_enabled :: bool

record managed_models =
  gm_profiles :: "(model_provider \<times> model_profile) list"
  gm_default :: model_provider
  gm_fallback :: bool
  gm_timeout :: rat
  gm_output :: int

definition managed_ok :: "managed_models \<Rightarrow> bool" where
  "managed_ok m =
     (list_all (\<lambda>(v, p). model_name_ok (pf_model p) \<and> 4096 \<le> pf_window p \<and> pf_window p \<le> 2000000) (gm_profiles m) \<and>
      0 < gm_timeout m \<and> gm_timeout m \<le> 120 \<and> 1 \<le> gm_output m \<and> gm_output m \<le> 16384 \<and>
      set (map fst (gm_profiles m)) = {Deepseek, Ollama} \<and>
      (case map_of (gm_profiles m) (gm_default m) of None \<Rightarrow> False | Some p \<Rightarrow> pf_enabled p) \<and>
      (gm_fallback m \<longrightarrow> list_all (\<lambda>(v, p). pf_enabled p) (gm_profiles m)) \<and>
      list_all (\<lambda>(v, p). gm_output m + 1024 \<le> pf_window p) (gm_profiles m))"

definition validate_managed :: "managed_models \<Rightarrow> managed_models result" where
  "validate_managed m =
     (let m' = m\<lparr>gm_profiles := map (\<lambda>(v, p). (v, p\<lparr>pf_model := trim (pf_model p)\<rparr>)) (gm_profiles m)\<rparr>
      in if managed_ok m' then Inr m' else Inl pydantic_error)"

section \<open>Settings\<close>

text \<open>The fields of the settings that concern models.\<close>

record model_settings =
  mt_enabled :: bool
  mt_deepseek_key :: string
  mt_deepseek_url :: string
  mt_providers :: "model_provider list"
  mt_default :: model_provider
  mt_fallback :: bool
  mt_timeout :: rat
  mt_output :: int
  mt_model :: "model_provider \<Rightarrow> string"
  mt_window :: "model_provider \<Rightarrow> int"
  mt_budget :: int

section \<open>Conversions\<close>

definition legacy_profile :: "managed_models \<Rightarrow> model_provider \<Rightarrow> model_profile \<Rightarrow> registered_profile" where
  "legacy_profile old v p = \<lparr>rp_id = provider_name v, rp_version = 1, rp_display = provider_name v, rp_provider = v,
     rp_connection = provider_name v, rp_model = pf_model p, rp_window = pf_window p, rp_output = gm_output old,
     rp_timeout = gm_timeout old, rp_stream = True, rp_tools = True, rp_structured = True, rp_enabled = pf_enabled p,
     rp_fallback = (if v = Deepseek \<and> gm_fallback old then Some ''ollama'' else None)\<rparr>"

definition catalog_from_legacy :: "managed_models \<Rightarrow> model_catalog result" where
  "catalog_from_legacy old =
     validate_catalog \<lparr>
       cg_profiles = map (\<lambda>(v, p). (provider_name v, legacy_profile old v p)) (gm_profiles old),
       cg_assignments = map (\<lambda>r. (r, provider_name (gm_default old))) model_roles,
       cg_defaults = map (\<lambda>(v, p). (v, provider_name v)) (filter (\<lambda>(v, p). pf_enabled p) (gm_profiles old))\<rparr>"

text \<open>
  Old clients see their provider slots. They cannot express same-provider fallback or role assignments and cannot
  overwrite a catalog.
\<close>

definition slot_profile :: "model_catalog \<Rightarrow> registered_profile \<Rightarrow> model_provider \<Rightarrow> registered_profile option" where
  "slot_profile c answer v = (case map_of (cg_defaults c) v of
     Some k \<Rightarrow> map_of (cg_profiles c) k
   | None \<Rightarrow> if v = rp_provider answer then Some answer else None)"

definition slot :: "model_settings \<Rightarrow> registered_profile option \<Rightarrow> model_provider \<Rightarrow> model_profile" where
  "slot mt p v = (case p of
     Some p \<Rightarrow> \<lparr>pf_model = rp_model p, pf_window = rp_window p, pf_enabled = True\<rparr>
   | None \<Rightarrow> \<lparr>pf_model = mt_model mt v, pf_window = mt_window mt v, pf_enabled = False\<rparr>)"

definition legacy_projection :: "model_catalog \<Rightarrow> model_settings \<Rightarrow> managed_models result" where
  "legacy_projection c mt = and_then (require_role c Answering) (\<lambda>answer.
     let profiles = map (\<lambda>v. (v, slot mt (slot_profile c answer v) v)) [Deepseek, Ollama];
         fallback = fallback_of c answer
     in validate_managed \<lparr>gm_profiles = profiles, gm_default = rp_provider answer,
          gm_fallback = (rp_provider answer = Deepseek \<and> (case fallback of None \<Rightarrow> False | Some f \<Rightarrow> rp_provider f = Ollama) \<and>
            list_all (\<lambda>(v, p). pf_enabled p) profiles),
          gm_timeout = rp_timeout answer,
          gm_output = Min (set (rp_output answer # map (\<lambda>(v, p). pf_window p - 1024) profiles))\<rparr>)"

section \<open>The model of a role\<close>

record router =
  ro_catalog :: model_catalog
  ro_role :: model_role
  ro_profile :: registered_profile
  ro_fallback :: "registered_profile option"

definition model_disabled :: "nat \<Rightarrow> exn" where
  "model_disabled status = AppError ''MODEL_DISABLED'' status"

definition make_router :: "model_catalog \<Rightarrow> string option \<Rightarrow> model_role \<Rightarrow> router result" where
  "make_router c pid r =
     and_then (case pid of Some (x # xs) \<Rightarrow> Inr (x # xs) | _ \<Rightarrow> require_row (map_of (cg_assignments c) r) key_error) (\<lambda>k.
     and_then (require_row (map_of (cg_profiles c) k) key_error) (\<lambda>p.
     if \<not> rp_enabled p \<or> \<not> supports p r then Inl (model_disabled 409)
     else Inr \<lparr>ro_catalog = c, ro_role = r, ro_profile = p, ro_fallback = fallback_of c p\<rparr>))"

definition router_budget :: "model_settings \<Rightarrow> router \<Rightarrow> int" where
  "router_budget mt ro = Min (set (mt_budget mt # map (\<lambda>p. rp_window p - rp_output p)
     (ro_profile ro # (case ro_fallback ro of None \<Rightarrow> [] | Some f \<Rightarrow> [f]))))"

definition for_role :: "router \<Rightarrow> model_role \<Rightarrow> router result" where
  "for_role ro r = (if r = ro_role ro then Inr ro else make_router (ro_catalog ro) None r)"

definition connection_missing :: exn where
  "connection_missing = AppError ''MODEL_CONNECTION_UNAVAILABLE'' 503"

definition role_client :: "registered_profile \<Rightarrow> rat \<Rightarrow> (registered_profile \<times> rat) result" where
  "role_client p timeout =
     (if rp_connection p \<noteq> provider_name (rp_provider p) then Inl connection_missing else Inr (p, min timeout (rp_timeout p)))"

definition agent_model :: "router \<Rightarrow> model_provider option \<Rightarrow> rat \<Rightarrow> (registered_profile \<times> rat) result" where
  "agent_model ro v timeout =
     and_then (if v = None \<or> v = Some (rp_provider (ro_profile ro)) then Inr (ro_profile ro)
       else (case ro_fallback ro of None \<Rightarrow> Inl (model_disabled 403)
         | Some f \<Rightarrow> if v = Some (rp_provider f) then Inr f else Inl (model_disabled 403))) (\<lambda>p. role_client p timeout)"

definition fallback_model :: "router \<Rightarrow> rat \<Rightarrow> (registered_profile \<times> rat) result" where
  "fallback_model ro timeout = and_then (require_row (ro_fallback ro) (AppError ''MODEL_UNAVAILABLE'' 503)) (\<lambda>f. role_client f timeout)"

definition agent_fallback :: "router \<Rightarrow> rat \<Rightarrow> (registered_profile \<times> rat) option result" where
  "agent_fallback ro timeout = (if ro_fallback ro = None then Inr None else and_then (fallback_model ro timeout) (\<lambda>x. Inr (Some x)))"

end
