(* ===== verification/ModelCenter.thy ===== *)
theory ModelCenter
  imports ModelCatalog Urls Repository "HOL-Library.AList"
begin

text \<open>
  The model centre (\<open>app/service/model_center.py\<close>, \<open>app/dao/queries/model_center.py\<close>,
  \<open>app/service/permissions.py\<close>): one configuration row with a revision, the history of what it was, the health
  that was measured for it, and the record of every call of a model.
\<close>

section \<open>State\<close>

text \<open>A JSON column that holds a catalog says so with \<open>schema_version\<close> 2.\<close>

datatype configuration = Legacy managed_models | Catalog model_catalog

datatype health_state = Available | Unavailable

record health =
  he_revision :: int
  he_state :: health_state
  he_checked :: time
  he_error :: "string option"

record model_row =
  co_revision :: int
  co_configuration :: configuration
  co_health :: "(string \<times> health) list"
  co_updated :: time

record model_version =
  mv_revision :: int
  mv_configuration :: configuration
  mv_created_by :: "uuid option"
  mv_created :: time

datatype call_status = Call_started | Call_succeeded | Call_failed

record model_call =
  mo_id :: uuid
  mo_user :: uuid
  mo_session :: uuid
  mo_request :: string
  mo_operation :: string
  mo_attempt :: int
  mo_revision :: int
  mo_provider :: string
  mo_model :: string
  mo_role :: "(model_role \<times> string \<times> int) option"
  mo_status :: call_status
  mo_fallback :: bool
  mo_input :: "int option"
  mo_output :: "int option"
  mo_total :: "int option"
  mo_elapsed :: "int option"
  mo_error :: "string option"

record model_store =
  st_db :: db
  st_row :: "model_row option"
  st_history :: "model_version list"
  st_calls :: "model_call list"

definition empty_store :: "db \<Rightarrow> model_store" where
  "empty_store d = \<lparr>st_db = d, st_row = None, st_history = [], st_calls = []\<rparr>"

section \<open>Access\<close>

definition is_platform_admin :: "uuid \<Rightarrow> model_store \<Rightarrow> bool" where
  "is_platform_admin uid s = (case get_user uid (st_db s) of None \<Rightarrow> False | Some u \<Rightarrow> u_active u \<and> u_role u = RoleAdmin)"

definition require_enabled :: "model_settings \<Rightarrow> unit result" where
  "require_enabled mt = raise_if (\<not> mt_enabled mt) (AppError ''MODEL_CENTER_DISABLED'' 503)"

definition require_admin :: "model_settings \<Rightarrow> uuid \<Rightarrow> model_store \<Rightarrow> unit result" where
  "require_admin mt uid s = and_then (require_enabled mt) (\<lambda>_. raise_if (\<not> is_platform_admin uid s) (AppError ''FORBIDDEN'' 403))"

definition current_row :: "model_store \<Rightarrow> model_row result" where
  "current_row s = require_row (st_row s) (AppError ''MODEL_CENTER_NOT_INITIALIZED'' 503)"

definition configuration_changed :: exn where
  "configuration_changed = AppError ''MODEL_CONFIGURATION_CHANGED'' 409"

definition credentials_missing :: "nat \<Rightarrow> exn" where
  "credentials_missing status = AppError ''MODEL_CREDENTIALS_MISSING'' status"

section \<open>Configuration\<close>

text \<open>Saving a version is an insert: a revision is written once.\<close>

definition save_version :: "int \<Rightarrow> configuration \<Rightarrow> uuid option \<Rightarrow> time \<Rightarrow> model_store \<Rightarrow> model_store result" where
  "save_version n c uid now s = and_then (row_insert mv_revision
     \<lparr>mv_revision = n, mv_configuration = c, mv_created_by = uid, mv_created = now\<rparr> (st_history s)) (\<lambda>h. Inr (s\<lparr>st_history := h\<rparr>))"

text \<open>The next revision of the row, with nothing known of its health.\<close>

definition replace_configuration :: "configuration \<Rightarrow> uuid option \<Rightarrow> time \<Rightarrow> model_row \<Rightarrow> model_store \<Rightarrow> model_store result" where
  "replace_configuration c uid now row s =
     (let row' = row\<lparr>co_configuration := c, co_revision := co_revision row + 1, co_health := [], co_updated := now\<rparr>
      in save_version (co_revision row') c uid now (s\<lparr>st_row := Some row'\<rparr>))"

definition initial_enabled :: "model_settings \<Rightarrow> model_provider \<Rightarrow> bool" where
  "initial_enabled mt v = (v \<in> set (mt_providers mt) \<and> (v = Deepseek \<longrightarrow> mt_deepseek_key mt \<noteq> []))"

definition initial_configuration :: "model_settings \<Rightarrow> managed_models result" where
  "initial_configuration mt =
     and_then (require_row (if initial_enabled mt (mt_default mt) then Some (mt_default mt) else find (initial_enabled mt) [Deepseek, Ollama])
       (AppError ''CONFIGURATION_ERROR'' 503)) (\<lambda>d.
     validate_managed \<lparr>gm_profiles = map (\<lambda>v. (v, \<lparr>pf_model = mt_model mt v, pf_window = mt_window mt v, pf_enabled = initial_enabled mt v\<rparr>))
         [Deepseek, Ollama], gm_default = d, gm_fallback = (mt_fallback mt \<and> list_all (initial_enabled mt) [Deepseek, Ollama]),
       gm_timeout = min 120 (mt_timeout mt), gm_output = mt_output mt\<rparr>)"

text \<open>Explicit bootstrap only: never seed or overwrite a configuration on startup.\<close>

definition initialize_body :: "model_settings \<Rightarrow> bool \<Rightarrow> time \<Rightarrow> (model_store, unit) body" where
  "initialize_body mt history_missing now s =
     and_then (raise_if history_missing (AppError ''MODEL_CENTER_MIGRATION_REQUIRED'' 503)) (\<lambda>_.
     case st_row s of
       Some row \<Rightarrow>
         if row_get mv_revision (co_revision row) (st_history s) = None
         then and_then (save_version (co_revision row) (co_configuration row) None (co_updated row) s) (\<lambda>s'. committed () s')
         else committed () s
     | None \<Rightarrow> and_then (initial_configuration mt) (\<lambda>m.
         and_then (save_version 1 (Legacy m) None now
           (s\<lparr>st_row := Some \<lparr>co_revision = 1, co_configuration = Legacy m, co_health = [], co_updated = now\<rparr>\<rparr>)) (\<lambda>s'.
         committed () s')))"

definition initialize :: "model_settings \<Rightarrow> bool \<Rightarrow> time \<Rightarrow> model_store \<Rightarrow> (model_store, unit) outcome" where
  "initialize mt history_missing now s = transaction (initialize_body mt history_missing now) s"

text \<open>Loading validates again.\<close>

definition load_configuration :: "configuration \<Rightarrow> configuration result" where
  "load_configuration c = (case c of
     Legacy m \<Rightarrow> map_sum id Legacy (validate_managed m)
   | Catalog g \<Rightarrow> map_sum id Catalog (validate_catalog g))"

text \<open>The catalog of a row, whichever form it has.\<close>

definition catalog_of :: "configuration \<Rightarrow> model_catalog result" where
  "catalog_of c = (case c of Legacy m \<Rightarrow> and_then (validate_managed m) catalog_from_legacy | Catalog g \<Rightarrow> validate_catalog g)"

text \<open>Explicit operator maintenance; preserves roles, revisions and frozen runs.\<close>

definition retired_model :: "model_provider \<Rightarrow> string \<Rightarrow> bool" where
  "retired_model v name = (v = Deepseek \<and> name = ''deepseek-chat'')"

definition renewed_slot :: "model_provider \<Rightarrow> model_profile \<Rightarrow> model_profile" where
  "renewed_slot v p = (if retired_model v (pf_model p) then p\<lparr>pf_model := ''deepseek-flash''\<rparr> else p)"

definition renewed_profile :: "registered_profile \<Rightarrow> registered_profile" where
  "renewed_profile p = (if retired_model (rp_provider p) (rp_model p)
     then p\<lparr>rp_model := ''deepseek-flash'', rp_version := rp_version p + 1\<rparr> else p)"

definition migrated :: "configuration \<Rightarrow> configuration \<times> nat" where
  "migrated c = (case c of
     Legacy m \<Rightarrow> (Legacy (m\<lparr>gm_profiles := map (\<lambda>(v, p). (v, renewed_slot v p)) (gm_profiles m)\<rparr>),
       length (filter (\<lambda>(v, p). retired_model v (pf_model p)) (gm_profiles m)))
   | Catalog g \<Rightarrow> (Catalog (g\<lparr>cg_profiles := map (\<lambda>(k, p). (k, renewed_profile p)) (cg_profiles g)\<rparr>),
       length (filter (\<lambda>(k, p). retired_model (rp_provider p) (rp_model p)) (cg_profiles g))))"

definition migrate_body :: "time \<Rightarrow> (model_store, int \<times> nat) body" where
  "migrate_body now s =
     and_then (current_row s) (\<lambda>row.
     and_then (load_configuration (co_configuration row)) (\<lambda>c.
     case migrated c of (saved, n) \<Rightarrow>
       if n = 0 then committed (co_revision row, 0) s
       else and_then (replace_configuration saved None now row s) (\<lambda>s'. committed (co_revision row + 1, n) s')))"

definition migrate_retired_deepseek_chat ::
    "(string \<Rightarrow> bool) \<Rightarrow> model_settings \<Rightarrow> time \<Rightarrow> model_store \<Rightarrow> (model_store, int \<times> nat) outcome" where
  "migrate_retired_deepseek_chat ip_literal mt now s = (case url_split ip_literal (mt_deepseek_url mt) of
     Inl x \<Rightarrow> (Inl x, s)
   | Inr u \<Rightarrow> if url_host u \<noteq> ''api.deepseek.com'' then (Inl (AppError ''MODEL_MIGRATION_CUSTOM_ENDPOINT'' 409), s)
       else transaction (migrate_body now) s)"

text \<open>The interface of older clients: both providers, no catalog.\<close>

definition update_body :: "uuid \<Rightarrow> int \<Rightarrow> managed_models \<Rightarrow> time \<Rightarrow> (model_store, unit) body" where
  "update_body uid revision m now s =
     and_then (current_row s) (\<lambda>row.
     and_then (raise_if (co_revision row \<noteq> revision) configuration_changed) (\<lambda>_.
     case co_configuration row of
       Catalog g \<Rightarrow> Inl (AppError ''MODEL_CATALOG_REQUIRED'' 409)
     | Legacy old \<Rightarrow> and_then (replace_configuration (Legacy m) (Some uid) now row s) (\<lambda>s'. committed () s')))"

definition update_models :: "model_settings \<Rightarrow> uuid \<Rightarrow> int \<Rightarrow> managed_models \<Rightarrow> time \<Rightarrow> model_store \<Rightarrow> (model_store, unit) outcome" where
  "update_models mt uid revision config now s =
     (case and_then (require_admin mt uid s) (\<lambda>_. and_then (validate_managed config) (\<lambda>m.
        and_then (require_row (map_of (gm_profiles m) Deepseek) key_error) (\<lambda>p.
        and_then (raise_if (pf_enabled p \<and> mt_deepseek_key mt = []) (credentials_missing 422)) (\<lambda>_. Inr m)))) of
        Inl x \<Rightarrow> (Inl x, s)
      | Inr m \<Rightarrow> transaction (update_body uid revision m now) s)"

section \<open>Profiles\<close>

text \<open>Has a deleted profile had this key? A version of the row that holds one under it tells.\<close>

definition has_profile :: "configuration \<Rightarrow> string \<Rightarrow> bool" where
  "has_profile c key = (case c of
     Legacy m \<Rightarrow> key \<in> set (map (provider_name \<circ> fst) (gm_profiles m))
   | Catalog g \<Rightarrow> key \<in> set (map fst (cg_profiles g)))"

definition profile_was_used :: "string \<Rightarrow> registered_profile option \<Rightarrow> model_store \<Rightarrow> bool" where
  "profile_was_used key previous s = (previous = None \<and> list_ex (\<lambda>v. has_profile (mv_configuration v) key) (st_history s))"

definition next_profile :: "model_store \<Rightarrow> model_catalog \<Rightarrow> string \<Rightarrow> registered_profile \<Rightarrow> registered_profile result" where
  "next_profile s old key p =
     (let previous = map_of (cg_profiles old) key in
      if profile_was_used key previous s then Inl (AppError ''MODEL_PROFILE_RETIRED'' 409)
      else if rp_version p \<noteq> (case previous of None \<Rightarrow> 1 | Some q \<Rightarrow> rp_version q) then Inl (AppError ''MODEL_PROFILE_VERSION_CHANGED'' 409)
      else let changed = (case previous of None \<Rightarrow> False | Some q \<Rightarrow> p\<lparr>rp_version := 1\<rparr> \<noteq> q\<lparr>rp_version := 1\<rparr>)
           in Inr (p\<lparr>rp_version := rp_version p + (if changed then 1 else 0)\<rparr>))"

fun next_profiles ::
    "model_store \<Rightarrow> model_catalog \<Rightarrow> (string \<times> registered_profile) list \<Rightarrow> (string \<times> registered_profile) list result" where
  "next_profiles s old [] = Inr []"
| "next_profiles s old ((key, p) # ps) =
     and_then (next_profile s old key p) (\<lambda>q. and_then (next_profiles s old ps) (\<lambda>qs. Inr ((key, q) # qs)))"

fun check_connections :: "model_settings \<Rightarrow> (string \<times> registered_profile) list \<Rightarrow> unit result" where
  "check_connections mt [] = Inr ()"
| "check_connections mt ((key, p) # ps) =
     (if rp_connection p \<noteq> provider_name (rp_provider p) then Inl (AppError ''MODEL_CONNECTION_UNAVAILABLE'' 422)
      else if rp_enabled p \<and> rp_provider p = Deepseek \<and> mt_deepseek_key mt = [] then Inl (credentials_missing 422)
      else check_connections mt ps)"

definition update_catalog_body :: "uuid \<Rightarrow> int \<Rightarrow> model_catalog \<Rightarrow> time \<Rightarrow> (model_store, unit) body" where
  "update_catalog_body uid revision g now s =
     and_then (current_row s) (\<lambda>row.
     and_then (raise_if (co_revision row \<noteq> revision) configuration_changed) (\<lambda>_.
     and_then (catalog_of (co_configuration row)) (\<lambda>old.
     and_then (next_profiles s old (cg_profiles g)) (\<lambda>profiles.
     and_then (validate_catalog (g\<lparr>cg_profiles := profiles\<rparr>)) (\<lambda>saved.
     and_then (replace_configuration (Catalog saved) (Some uid) now row s) (\<lambda>s'. committed () s'))))))"

definition update_catalog :: "model_settings \<Rightarrow> uuid \<Rightarrow> int \<Rightarrow> model_catalog \<Rightarrow> time \<Rightarrow> model_store \<Rightarrow> (model_store, unit) outcome" where
  "update_catalog mt uid revision given_catalog now s =
     (case and_then (require_admin mt uid s) (\<lambda>_. and_then (validate_catalog given_catalog) (\<lambda>g.
        and_then (check_connections mt (cg_profiles g)) (\<lambda>_. Inr g))) of
        Inl x \<Rightarrow> (Inl x, s)
      | Inr g \<Rightarrow> transaction (update_catalog_body uid revision g now) s)"

section \<open>Snapshots\<close>

record model_snapshot =
  sn_settings :: model_settings
  sn_revision :: int
  sn_configuration :: managed_models
  sn_health :: "(string \<times> health) list"
  sn_catalog :: "model_catalog option"
  sn_profile :: "string option"

text \<open>The settings as the configuration overrides them, for a provider.\<close>

definition legacy_settings :: "model_settings \<Rightarrow> managed_models \<Rightarrow> int \<Rightarrow> model_settings" where
  "legacy_settings mt m budget = mt\<lparr>mt_default := gm_default m, mt_fallback := gm_fallback m, mt_timeout := gm_timeout m,
     mt_output := gm_output m, mt_providers := map fst (filter (\<lambda>(v, p). pf_enabled p) (gm_profiles m)),
     mt_model := (\<lambda>v. case map_of (gm_profiles m) v of None \<Rightarrow> mt_model mt v | Some p \<Rightarrow> pf_model p),
     mt_window := (\<lambda>v. case map_of (gm_profiles m) v of None \<Rightarrow> mt_window mt v | Some p \<Rightarrow> pf_window p), mt_budget := budget\<rparr>"

definition profile_settings :: "model_settings \<Rightarrow> model_settings \<Rightarrow> registered_profile \<Rightarrow> model_settings" where
  "profile_settings mt u p = u\<lparr>mt_model := (mt_model u)(rp_provider p := rp_model p), mt_window := (mt_window u)(rp_provider p := rp_window p),
     mt_default := rp_provider p, mt_timeout := rp_timeout p, mt_output := rp_output p,
     mt_providers := (if rp_provider p \<in> set (mt_providers u) then mt_providers u else mt_providers u @ [rp_provider p]), mt_budget := mt_budget mt\<rparr>"

definition legacy_budget :: "model_settings \<Rightarrow> managed_models \<Rightarrow> model_provider \<Rightarrow> int result" where
  "legacy_budget mt m selected = (case map_of (gm_profiles m) selected of
     None \<Rightarrow> Inl (model_disabled 403)
   | Some p \<Rightarrow>
       if \<not> pf_enabled p then Inl (model_disabled 403)
       else let budget = min (mt_budget mt) (pf_window p - gm_output m)
            in if selected = Deepseek \<and> gm_fallback m
               then and_then (require_row (map_of (gm_profiles m) Ollama) key_error) (\<lambda>q. Inr (min budget (pf_window q - gm_output m)))
               else Inr budget)"

text \<open>The profile that answers: the one named, or that of the provider named, or that of the role.\<close>

definition selected_profile :: "model_catalog \<Rightarrow> model_provider option \<Rightarrow> string option \<Rightarrow> string option result" where
  "selected_profile c v pid = (case pid of
     Some (x # xs) \<Rightarrow> Inr (Some (x # xs))
   | _ \<Rightarrow>
       and_then (require_row (map_of (cg_assignments c) Answering) key_error) (\<lambda>assigned.
       case v of
         None \<Rightarrow> Inr (Some assigned)
       | Some v \<Rightarrow> and_then (require_role c Answering) (\<lambda>answer.
           Inr (case map_of (cg_defaults c) v of Some k \<Rightarrow> Some k | None \<Rightarrow> if v = rp_provider answer then Some assigned else None))))"

definition answering_profile :: "model_catalog \<Rightarrow> string option \<Rightarrow> registered_profile result" where
  "answering_profile c k = (case Option.bind k (map_of (cg_profiles c)) of
     None \<Rightarrow> Inl (model_disabled 403)
   | Some p \<Rightarrow> if rp_enabled p \<and> supports p Answering then Inr p else Inl (model_disabled 403))"

definition catalog_for_snapshot :: "configuration \<Rightarrow> string option \<Rightarrow> model_catalog option result" where
  "catalog_for_snapshot c pid = (case c of
     Catalog g \<Rightarrow> map_sum id Some (validate_catalog g)
   | Legacy m \<Rightarrow> if pid = None then Inr None else map_sum id Some (catalog_of c))"

definition snapshot_with ::
    "model_settings \<Rightarrow> model_provider option \<Rightarrow> string option \<Rightarrow> model_row \<Rightarrow> managed_models \<Rightarrow> int \<Rightarrow> model_catalog option \<Rightarrow> model_snapshot result" where
  "snapshot_with mt v pid row m budget c = (case c of
     None \<Rightarrow> Inr \<lparr>sn_settings = legacy_settings mt m budget, sn_revision = co_revision row, sn_configuration = m,
       sn_health = co_health row, sn_catalog = None, sn_profile = None\<rparr>
   | Some g \<Rightarrow>
       and_then (selected_profile g v pid) (\<lambda>k.
       and_then (answering_profile g k) (\<lambda>p.
       Inr \<lparr>sn_settings = profile_settings mt (legacy_settings mt m budget) p, sn_revision = co_revision row, sn_configuration = m,
         sn_health = co_health row, sn_catalog = Some g, sn_profile = k\<rparr>)))"

definition take_snapshot :: "model_settings \<Rightarrow> model_provider option \<Rightarrow> string option \<Rightarrow> model_store \<Rightarrow> model_snapshot result" where
  "take_snapshot mt v pid s =
     and_then (require_enabled mt) (\<lambda>_.
     and_then (raise_if (v \<noteq> None \<and> pid \<noteq> None) (AppError ''INVALID_MODEL_SELECTION'' 422)) (\<lambda>_.
     and_then (current_row s) (\<lambda>row.
     and_then (catalog_for_snapshot (co_configuration row) pid) (\<lambda>c.
     and_then (case (c, co_configuration row) of
         (Some g, _) \<Rightarrow> legacy_projection g mt
       | (None, Legacy m) \<Rightarrow> validate_managed m
       | (None, Catalog g) \<Rightarrow> Inl pydantic_error) (\<lambda>m.
     and_then (legacy_budget mt m (case v of Some v \<Rightarrow> v | None \<Rightarrow> gm_default m)) (\<lambda>budget.
     snapshot_with mt v pid row m budget c))))))"

section \<open>Health\<close>

definition save_probe_body :: "int \<Rightarrow> string \<Rightarrow> health_state \<Rightarrow> string option \<Rightarrow> time \<Rightarrow> (model_store, unit) body" where
  "save_probe_body revision key state code now s =
     and_then (current_row s) (\<lambda>row.
     and_then (raise_if (co_revision row \<noteq> revision) configuration_changed) (\<lambda>_.
     committed () (s\<lparr>st_row := Some (row\<lparr>co_health := AList.update key \<lparr>he_revision = revision, he_state = state, he_checked = now, he_error = code\<rparr>
       (co_health row), co_updated := now\<rparr>)\<rparr>)))"

text \<open>The directory of the provider: the names it lists, or why there are none.\<close>

definition probe_directory ::
    "model_settings \<Rightarrow> (model_provider \<Rightarrow> string list option) \<Rightarrow> model_provider \<Rightarrow> string \<Rightarrow> (health_state \<times> string option) result" where
  "probe_directory mt directory v name =
     (if v = Deepseek \<and> mt_deepseek_key mt = [] then Inl (credentials_missing 409)
      else Inr (case directory v of
          None \<Rightarrow> (Unavailable, Some ''MODEL_PROBE_FAILED'')
        | Some names \<Rightarrow>
            if name \<in> set names \<or> v = Ollama \<and> name @ '':latest'' \<in> set names then (Available, None)
            else (Unavailable, Some ''MODEL_NOT_LISTED'')))"

definition probe_target :: "string \<Rightarrow> model_store \<Rightarrow> (int \<times> registered_profile) result" where
  "probe_target pid s =
     and_then (current_row s) (\<lambda>row.
     and_then (catalog_of (co_configuration row)) (\<lambda>c.
     and_then (require_row (map_of (cg_profiles c) pid) not_found) (\<lambda>p.
     and_then (raise_if (\<not> rp_enabled p) (model_disabled 409)) (\<lambda>_.
     and_then (raise_if (rp_connection p \<noteq> provider_name (rp_provider p)) connection_missing) (\<lambda>_.
     Inr (co_revision row, p))))))"

text \<open>While the directory is asked other requests run; \<open>others\<close> is what they do to the store.\<close>

definition ask_directory ::
    "model_settings \<Rightarrow> (model_provider \<Rightarrow> string list option) \<Rightarrow> (model_store \<Rightarrow> model_store) \<Rightarrow> int \<Rightarrow> string \<Rightarrow> model_provider \<Rightarrow> string \<Rightarrow> time \<Rightarrow>
     model_store \<Rightarrow> (model_store, unit) outcome" where
  "ask_directory mt directory others revision key v name now s = (case probe_directory mt directory v name of
     Inl x \<Rightarrow> (Inl x, others s)
   | Inr (state, code) \<Rightarrow> transaction (save_probe_body revision key state code now) (others s))"

definition probe_profile ::
    "model_settings \<Rightarrow> (model_provider \<Rightarrow> string list option) \<Rightarrow> (model_store \<Rightarrow> model_store) \<Rightarrow> uuid \<Rightarrow> string \<Rightarrow> time \<Rightarrow> model_store \<Rightarrow>
     (model_store, unit) outcome" where
  "probe_profile mt directory others uid pid now s = (case and_then (require_admin mt uid s) (\<lambda>_. probe_target pid s) of
     Inl x \<Rightarrow> (Inl x, s)
   | Inr (revision, p) \<Rightarrow> ask_directory mt directory others revision pid (rp_provider p) (rp_model p) now s)"

text \<open>What a provider name stands for: a profile of the catalog, or the provider itself.\<close>

definition default_profile :: "model_catalog \<Rightarrow> model_provider \<Rightarrow> string option result" where
  "default_profile c v = (case map_of (cg_defaults c) v of
     Some k \<Rightarrow> Inr (Some k)
   | None \<Rightarrow> and_then (require_role c Answering) (\<lambda>answer.
       if rp_provider answer = v then Inr (map_of (cg_assignments c) Answering) else Inr None))"

definition probe_provider ::
    "model_settings \<Rightarrow> (model_provider \<Rightarrow> string list option) \<Rightarrow> (model_store \<Rightarrow> model_store) \<Rightarrow> uuid \<Rightarrow> model_provider \<Rightarrow> time \<Rightarrow> model_store \<Rightarrow>
     (model_store, unit) outcome" where
  "probe_provider mt directory others uid v now s =
     (case and_then (require_admin mt uid s) (\<lambda>_. take_snapshot mt None None s) of
        Inl x \<Rightarrow> (Inl x, s)
      | Inr sn \<Rightarrow>
          (case sn_catalog sn of
             Some c \<Rightarrow>
               (case and_then (default_profile c v) (\<lambda>k. require_row k (model_disabled 409)) of
                  Inl x \<Rightarrow> (Inl x, s)
                | Inr k \<Rightarrow> probe_profile mt directory others uid k now s)
           | None \<Rightarrow>
               (case map_of (gm_profiles (sn_configuration sn)) v of
                  None \<Rightarrow> (Inl key_error, s)
                | Some p \<Rightarrow>
                    if \<not> pf_enabled p then (Inl (model_disabled 409), s)
                    else ask_directory mt directory others (sn_revision sn) (provider_name v) v (pf_model p) now s)))"

section \<open>Views\<close>

definition fresh_health :: "time \<Rightarrow> int \<Rightarrow> health option \<Rightarrow> health option" where
  "fresh_health now revision h = (case h of None \<Rightarrow> None
     | Some h \<Rightarrow> if now - he_checked h < 300000000 \<and> he_revision h = revision then Some h else None)"

datatype model_state = Known health_state | Unknown | Disabled | Not_configured

definition configured :: "model_settings \<Rightarrow> model_provider \<Rightarrow> bool" where
  "configured mt v = (v = Ollama \<or> mt_deepseek_key mt \<noteq> [])"

definition profile_state :: "model_settings \<Rightarrow> time \<Rightarrow> int \<Rightarrow> bool \<Rightarrow> model_provider \<Rightarrow> health option \<Rightarrow> model_state" where
  "profile_state mt now revision enabled v h =
     (if \<not> enabled then Disabled else if \<not> configured mt v then Not_configured
      else case fresh_health now revision h of None \<Rightarrow> Unknown | Some h \<Rightarrow> Known (he_state h))"

record model_view =
  vw_profile :: string
  vw_available :: bool
  vw_state :: model_state
  vw_error :: "string option"
  vw_budget :: int

text \<open>A fallback that the catalog does not have is a \<open>KeyError\<close>.\<close>

definition catalog_model :: "model_settings \<Rightarrow> time \<Rightarrow> model_catalog \<Rightarrow> int \<Rightarrow> (string \<times> health) list \<Rightarrow> string \<times> registered_profile \<Rightarrow> model_view result" where
  "catalog_model mt now c revision health kp = (case kp of (key, p) \<Rightarrow>
     and_then (case rp_fallback p of None \<Rightarrow> Inr [] | Some k \<Rightarrow> and_then (require_row (map_of (cg_profiles c) k) key_error) (\<lambda>f. Inr [f])) (\<lambda>fs.
     let h = map_of health key; state = profile_state mt now revision (rp_enabled p) (rp_provider p) h
     in Inr \<lparr>vw_profile = key, vw_available = (rp_enabled p \<and> configured mt (rp_provider p) \<and> supports p Answering), vw_state = state,
          vw_error = (if state = Known Unavailable then Option.bind h he_error else None),
          vw_budget = Min (set (mt_budget mt # map (\<lambda>q. rp_window q - rp_output q) (p # fs)))\<rparr>))"

fun catalog_models :: "model_settings \<Rightarrow> time \<Rightarrow> model_catalog \<Rightarrow> int \<Rightarrow> (string \<times> health) list \<Rightarrow> (string \<times> registered_profile) list \<Rightarrow> model_view list result" where
  "catalog_models mt now c revision health [] = Inr []"
| "catalog_models mt now c revision health (kp # kps) =
     and_then (catalog_model mt now c revision health kp) (\<lambda>x. and_then (catalog_models mt now c revision health kps) (\<lambda>xs. Inr (x # xs)))"

definition catalog_view :: "model_settings \<Rightarrow> uuid \<Rightarrow> time \<Rightarrow> model_store \<Rightarrow> (int \<times> model_catalog \<times> bool \<times> model_view list) result" where
  "catalog_view mt uid now s =
     and_then (require_enabled mt) (\<lambda>_. and_then (current_row s) (\<lambda>row. and_then (catalog_of (co_configuration row)) (\<lambda>c.
     and_then (catalog_models mt now c (co_revision row) (co_health row) (cg_profiles c)) (\<lambda>ms.
     Inr (co_revision row, c, is_platform_admin uid s, ms)))))"

text \<open>The history, latest first, a page of it with the number of all.\<close>

definition configuration_history :: "model_settings \<Rightarrow> uuid \<Rightarrow> nat \<Rightarrow> nat \<Rightarrow> model_store \<Rightarrow> (model_version list \<times> nat) result" where
  "configuration_history mt uid skip n s = and_then (require_admin mt uid s) (\<lambda>_.
     Inr (take n (drop skip (sort_key (\<lambda>v. - mv_revision v) (st_history s))), length (st_history s)))"

end
