(* ===== verification/ModelCenterProperties.thy ===== *)
theory ModelCenterProperties
  imports ModelCenter
begin

text \<open>
  What the model centre guarantees: the history holds every revision once, what is stored is valid, measured health
  is of the current revision, and a profile with its version never changes, so the record of a call always tells what
  was called. Old clients see what they configured.
\<close>

section \<open>Validation\<close>

lemma trim_trim [simp]: "trim (trim s) = trim s"
proof -
  let ?t = "dropWhile blank s"
  have split: "?t = trim s @ rev (takeWhile blank (rev ?t))"
    by (metis rev_append rev_rev_ident takeWhile_dropWhile_id trim_def)
  have "dropWhile blank (trim s) = trim s"
  proof (cases "trim s")
    case (Cons c cs)
    then have t: "?t = c # (cs @ rev (takeWhile blank (rev ?t)))" using split by simp
    then have "\<not> blank c" by (metis hd_dropWhile list.distinct(1) list.sel(1))
    then show ?thesis using Cons by simp
  qed simp
  then have "trim (trim s) = rev (dropWhile blank (rev (trim s)))" by (simp add: trim_def)
  then show ?thesis by (simp add: trim_def)
qed

lemma trim_profile_trim [simp]: "trim_profile (trim_profile p) = trim_profile p"
  by (simp add: trim_profile_def option.map_comp comp_def)

lemma trim_catalog_trim [simp]: "trim_catalog (trim_catalog c) = trim_catalog c"
  by (simp add: trim_catalog_def comp_def case_prod_beta)

lemma trimmed_profiles: "trim_catalog g = g \<longleftrightarrow> map (\<lambda>(k, p). (k, trim_profile p)) (cg_profiles g) = cg_profiles g"
  by (cases g) (auto simp: trim_catalog_def)

lemma validate_catalog_Inr: "validate_catalog c = Inr g \<longleftrightarrow> g = trim_catalog c \<and> catalog_ok g"
  by (auto simp: validate_catalog_def)

lemma validate_catalog_again: "validate_catalog c = Inr g \<Longrightarrow> validate_catalog g = Inr g"
  by (auto simp: validate_catalog_Inr)

definition trim_managed :: "managed_models \<Rightarrow> managed_models" where
  "trim_managed m = m\<lparr>gm_profiles := map (\<lambda>(v, p). (v, p\<lparr>pf_model := trim (pf_model p)\<rparr>)) (gm_profiles m)\<rparr>"

lemma validate_managed_Inr: "validate_managed m = Inr m' \<longleftrightarrow> m' = trim_managed m \<and> managed_ok m'"
  by (auto simp: validate_managed_def trim_managed_def Let_def)

lemma validate_managed_again: "validate_managed m = Inr m' \<Longrightarrow> validate_managed m' = Inr m'"
  by (auto simp: validate_managed_Inr trim_managed_def comp_def case_prod_beta)

definition config_ok :: "configuration \<Rightarrow> bool" where
  "config_ok c \<longleftrightarrow> load_configuration c = Inr c"

lemma config_ok_simps:
  "config_ok (Legacy m) \<longleftrightarrow> validate_managed m = Inr m"
  "config_ok (Catalog g) \<longleftrightarrow> validate_catalog g = Inr g"
  by (auto simp: config_ok_def load_configuration_def map_sum_def split: sum.splits)

lemma load_configuration_ok: "load_configuration c = Inr c' \<Longrightarrow> config_ok c'"
  by (cases c) (auto simp: load_configuration_def config_ok_simps map_sum_def validate_catalog_again validate_managed_again split: sum.splits)

section \<open>Maintenance\<close>

lemma map_of_map_key: "map_of (map (\<lambda>(v, p). (v, f v p)) xs) k = map_option (f k) (map_of xs k)"
  by (induction xs) auto

lemma flash_name: "trim ''deepseek-flash'' = ''deepseek-flash''" "model_name_ok ''deepseek-flash''"
  by (simp_all add: trim_def blank_def model_name_ok_def lower_char_def)

lemma renewed_profile_fields [simp]:
  "rp_id (renewed_profile p) = rp_id p" "rp_enabled (renewed_profile p) = rp_enabled p" "rp_fallback (renewed_profile p) = rp_fallback p"
  "rp_provider (renewed_profile p) = rp_provider p" "supports (renewed_profile p) r = supports p r"
  by (cases r; simp add: renewed_profile_def)+

lemma renewed_profile_ok: "profile_ok p \<Longrightarrow> profile_ok (renewed_profile p)"
  by (auto simp: profile_ok_def renewed_profile_def flash_name)

lemma renewed_profile_trim: "trim_profile p = p \<Longrightarrow> trim_profile (renewed_profile p) = renewed_profile p"
  by (cases p) (auto simp: trim_profile_def renewed_profile_def flash_name)

lemma migrated_catalog_ok:
  assumes "catalog_ok g"
  shows "catalog_ok (g\<lparr>cg_profiles := map (\<lambda>(k, p). (k, renewed_profile p)) (cg_profiles g)\<rparr>)"
proof -
  let ?g = "g\<lparr>cg_profiles := map (\<lambda>(k, p). (k, renewed_profile p)) (cg_profiles g)\<rparr>"
  have look: "map_of (cg_profiles ?g) k = map_option renewed_profile (map_of (cg_profiles g) k)" for k
    by (simp add: map_of_map)
  have fall: "fallback_of ?g (renewed_profile p) = map_option renewed_profile (fallback_of g p)" for p
    by (cases "rp_fallback p") (simp_all add: fallback_of_def look map_of_map)
  have fits: "fits_role ?g (renewed_profile p) r = fits_role g p r" for p r
    by (cases "fallback_of g p") (simp_all add: fits_role_def fall)
  have fok: "fallback_ok ?g (renewed_profile p) = fallback_ok g p" for p
    by (cases "rp_fallback p"; cases "map_of (cg_profiles g) (the (rp_fallback p))") (simp_all add: fallback_ok_def look map_of_map)
  note a = assms [unfolded catalog_ok_def]
  have ps: "\<forall>(k, p)\<in>set (cg_profiles g). profile_id_ok k \<and> profile_ok p \<and> k = rp_id p \<and> fallback_ok g p"
    using a by (simp add: list_all_iff)
  have "list_all (\<lambda>(k, p). profile_id_ok k \<and> profile_ok p \<and> k = rp_id p \<and> fallback_ok ?g p) (cg_profiles ?g)"
    using ps renewed_profile_ok fok unfolding list_all_iff by fastforce
  moreover have "list_all (\<lambda>(r, k). case map_of (cg_profiles ?g) k of None \<Rightarrow> False | Some p \<Rightarrow> fits_role ?g p r) (cg_assignments ?g)"
  proof -
    have "list_all (\<lambda>(r, k). case map_of (cg_profiles g) k of None \<Rightarrow> False | Some p \<Rightarrow> fits_role g p r) (cg_assignments g)"
      using a by blast
    then show ?thesis unfolding list_all_iff look using fits by (fastforce split: option.splits)
  qed
  moreover have "list_all (\<lambda>(v, k). case map_of (cg_profiles ?g) k of None \<Rightarrow> False
      | Some p \<Rightarrow> rp_provider p = v \<and> fits_role ?g p Answering) (cg_defaults ?g)"
  proof -
    have "list_all (\<lambda>(v, k). case map_of (cg_profiles g) k of None \<Rightarrow> False
        | Some p \<Rightarrow> rp_provider p = v \<and> fits_role g p Answering) (cg_defaults g)"
      using a by blast
    then show ?thesis unfolding list_all_iff look using fits by (fastforce split: option.splits)
  qed
  ultimately show ?thesis using a unfolding catalog_ok_def by simp
qed

lemma migrated_config_ok:
  assumes "config_ok c" "migrated c = (c', n)"
  shows "config_ok c'"
proof (cases c)
  case (Legacy m)
  let ?m = "m\<lparr>gm_profiles := map (\<lambda>(v, p). (v, renewed_slot v p)) (gm_profiles m)\<rparr>"
  have ok: "trim_managed m = m" "managed_ok m" using assms(1) by (auto simp: Legacy config_ok_simps validate_managed_Inr)
  have c': "c' = Legacy ?m" using assms(2) by (simp add: Legacy migrated_def)
  have slot: "pf_enabled (renewed_slot v p) = pf_enabled p" "pf_window (renewed_slot v p) = pf_window p" for v p
    by (simp_all add: renewed_slot_def)
  have same: "\<forall>(v, p)\<in>set (gm_profiles m). p\<lparr>pf_model := trim (pf_model p)\<rparr> = p"
  proof -
    have "map (\<lambda>(v, p). (v, p\<lparr>pf_model := trim (pf_model p)\<rparr>)) (gm_profiles m) = map id (gm_profiles m)"
      using arg_cong [OF ok(1), of gm_profiles] by (simp add: trim_managed_def)
    then show ?thesis unfolding map_eq_conv by auto
  qed
  have "map (\<lambda>(v, p). (v, p\<lparr>pf_model := trim (pf_model p)\<rparr>)) (gm_profiles ?m) = gm_profiles ?m"
    using same by (auto simp: renewed_slot_def flash_name)
  then have "trim_managed ?m = ?m" by (simp add: trim_managed_def)
  moreover have "managed_ok ?m"
  proof -
    have "map_of (gm_profiles ?m) v = map_option (renewed_slot v) (map_of (gm_profiles m) v)" for v
      by (simp add: map_of_map_key)
    then show ?thesis using ok(2)
      by (auto simp: managed_ok_def list_all_iff slot renewed_slot_def flash_name comp_def case_prod_beta split: option.splits)
  qed
  ultimately show ?thesis by (simp add: c' config_ok_simps validate_managed_Inr)
next
  case (Catalog g)
  let ?g = "g\<lparr>cg_profiles := map (\<lambda>(k, p). (k, renewed_profile p)) (cg_profiles g)\<rparr>"
  have ok: "trim_catalog g = g" "catalog_ok g" using assms(1) by (auto simp: Catalog config_ok_simps validate_catalog_Inr)
  have c': "c' = Catalog ?g" using assms(2) by (simp add: Catalog migrated_def)
  have "\<forall>(k, p)\<in>set (cg_profiles g). trim_profile p = p"
  proof -
    have "map (\<lambda>(k, p). (k, trim_profile p)) (cg_profiles g) = map id (cg_profiles g)"
      using ok(1) by (simp add: trimmed_profiles)
    then show ?thesis unfolding map_eq_conv by auto
  qed
  then have "trim_catalog ?g = ?g"
    unfolding trimmed_profiles by (auto simp: renewed_profile_trim)
  then show ?thesis using migrated_catalog_ok [OF ok(2)] by (simp add: c' config_ok_simps validate_catalog_Inr)
qed

section \<open>The history\<close>

text \<open>A profile in the history is the current one of its key, or of an earlier version.\<close>

definition identified :: "model_version list \<Rightarrow> bool" where
  "identified h \<longleftrightarrow> (\<forall>v\<in>set h. \<forall>w\<in>set h. \<forall>g g' k p q. mv_configuration v = Catalog g \<longrightarrow> mv_configuration w = Catalog g' \<longrightarrow>
     map_of (cg_profiles g) k = Some p \<longrightarrow> map_of (cg_profiles g') k = Some q \<longrightarrow> rp_version p = rp_version q \<longrightarrow> p = q)"

definition dominates :: "configuration \<Rightarrow> model_version list \<Rightarrow> bool" where
  "dominates c h \<longleftrightarrow> (\<forall>v\<in>set h. \<forall>g'. mv_configuration v = Catalog g' \<longrightarrow> (case c of
       Legacy m \<Rightarrow> False
     | Catalog g \<Rightarrow> \<forall>k p q. map_of (cg_profiles g') k = Some p \<longrightarrow> map_of (cg_profiles g) k = Some q \<longrightarrow>
         rp_version p < rp_version q \<or> p = q))"

definition succeeds :: "configuration \<Rightarrow> model_version list \<Rightarrow> configuration \<Rightarrow> bool" where
  "succeeds c h c' \<longleftrightarrow> (case (c, c') of
     (Legacy m, _) \<Rightarrow> True
   | (Catalog g, Legacy m) \<Rightarrow> False
   | (Catalog g, Catalog g') \<Rightarrow> \<forall>k q'. map_of (cg_profiles g') k = Some q' \<longrightarrow> (case map_of (cg_profiles g) k of
         Some q \<Rightarrow> q' = q \<or> rp_version q < rp_version q'
       | None \<Rightarrow> \<forall>v\<in>set h. \<not> has_profile (mv_configuration v) k))"

lemma has_profile_Catalog: "map_of (cg_profiles g) k = Some p \<Longrightarrow> has_profile (Catalog g) k"
  by (force simp: has_profile_def dest: map_of_SomeD)

lemma dominates_step:
  assumes "dominates c h" "succeeds c h c'" "mv_configuration v' = c'"
  shows "dominates c' (h @ [v'])"
  unfolding dominates_def
proof (intro ballI allI impI)
  fix v g' assume v: "v \<in> set (h @ [v'])" "mv_configuration v = Catalog g'"
  show "case c' of Legacy m \<Rightarrow> False | Catalog g \<Rightarrow> \<forall>k p q. map_of (cg_profiles g') k = Some p \<longrightarrow> map_of (cg_profiles g) k = Some q \<longrightarrow>
         rp_version p < rp_version q \<or> p = q"
  proof (cases "v \<in> set h")
    case True
    then obtain g where g: "c = Catalog g" "\<forall>k p q. map_of (cg_profiles g') k = Some p \<longrightarrow> map_of (cg_profiles g) k = Some q \<longrightarrow>
        rp_version p < rp_version q \<or> p = q"
      using assms(1) v(2) by (cases c) (auto simp: dominates_def)
    then obtain g2 where g2: "c' = Catalog g2" using assms(2) by (cases c') (auto simp: succeeds_def)
    have "rp_version p < rp_version q \<or> p = q" if p: "map_of (cg_profiles g') k = Some p" and q: "map_of (cg_profiles g2) k = Some q" for k p q
    proof (cases "map_of (cg_profiles g) k")
      case None
      then have "\<not> has_profile (mv_configuration v) k" using assms(2) g(1) g2 q True by (fastforce simp: succeeds_def)
      then show ?thesis using has_profile_Catalog [OF p] v(2) by simp
    next
      case (Some r)
      then have "q = r \<or> rp_version r < rp_version q" using assms(2) g(1) g2 q by (fastforce simp: succeeds_def)
      moreover have "rp_version p < rp_version r \<or> p = r" using g(2) p Some by blast
      ultimately show ?thesis by auto
    qed
    then show ?thesis by (simp add: g2)
  next
    case False
    then show ?thesis using v assms(3) by auto
  qed
qed

lemma identified_step:
  assumes "identified h" "dominates c' (h @ [v'])" "mv_configuration v' = c'"
  shows "identified (h @ [v'])"
proof -
  have last: "p = q" if "v \<in> set (h @ [v'])" "mv_configuration v = Catalog g" "c' = Catalog g'" "map_of (cg_profiles g) k = Some p"
    "map_of (cg_profiles g') k = Some q" "rp_version p = rp_version q" for v g g' k p q
    using assms(2) that unfolding dominates_def by fastforce
  show ?thesis
    unfolding identified_def
  proof (intro ballI allI impI)
    fix v w g g' k p q
    assume a: "v \<in> set (h @ [v'])" "w \<in> set (h @ [v'])" "mv_configuration v = Catalog g" "mv_configuration w = Catalog g'"
      "map_of (cg_profiles g) k = Some p" "map_of (cg_profiles g') k = Some q" "rp_version p = rp_version q"
    consider "w = v'" | "v = v'" | "v \<in> set h" "w \<in> set h" using a by auto
    then show "p = q"
    proof cases
      case 1
      then show ?thesis using last [OF a(1,3) _ a(5,6,7)] a(4) assms(3) by simp
    next
      case 2
      then show ?thesis using last [OF a(2,4) _ a(6,5)] a(3,7) assms(3) by simp
    next
      case 3
      then show ?thesis using assms(1) a(3-7) unfolding identified_def by blast
    qed
  qed
qed

definition model_inv :: "model_store \<Rightarrow> bool" where
  "model_inv s \<longleftrightarrow> (case st_row s of
     None \<Rightarrow> st_history s = []
   | Some row \<Rightarrow> 1 \<le> co_revision row \<and> map mv_revision (st_history s) = [1..co_revision row] \<and>
       mv_configuration (last (st_history s)) = co_configuration row \<and> (\<forall>v\<in>set (st_history s). config_ok (mv_configuration v)) \<and>
       (\<forall>(k, h)\<in>set (co_health row). he_revision h = co_revision row) \<and>
       identified (st_history s) \<and> dominates (co_configuration row) (st_history s))"

lemma model_inv_current: "model_inv s \<Longrightarrow> st_row s = Some row \<Longrightarrow> config_ok (co_configuration row)"
  by (cases "st_history s = []") (fastforce simp: model_inv_def dest: last_in_set)+

lemma replace_configuration_inv:
  assumes "model_inv s" "st_row s = Some row" "config_ok c'" "succeeds (co_configuration row) (st_history s) c'"
    "replace_configuration c' uid now row s = Inr s'"
  shows "model_inv s'"
proof -
  let ?v = "\<lparr>mv_revision = co_revision row + 1, mv_configuration = c', mv_created_by = uid, mv_created = now\<rparr>"
  let ?row = "row\<lparr>co_configuration := c', co_revision := co_revision row + 1, co_health := [], co_updated := now\<rparr>"
  have s': "s' = s\<lparr>st_row := Some ?row, st_history := st_history s @ [?v]\<rparr>"
    using assms(5) by (auto simp: replace_configuration_def save_version_def result_simps Let_def)
  note i = assms(1) [unfolded model_inv_def assms(2) option.case]
  have dom: "dominates c' (st_history s @ [?v])" using dominates_step [OF _ assms(4), of ?v] i by simp
  have "identified (st_history s @ [?v])" using identified_step [OF _ dom] i by simp
  moreover have "[1..co_revision row + 1] = [1..co_revision row] @ [co_revision row + 1]" using i by (simp add: upto_rec2)
  ultimately show ?thesis using i dom assms(3) by (simp add: s' model_inv_def)
qed

lemma initialize_body_inv:
  assumes "model_inv s" "initialize_body mt missing now s = Inr (r, s')"
  shows "model_inv s'"
proof (cases "st_row s")
  case None
  then have h: "st_history s = []" using assms(1) by (simp add: model_inv_def)
  obtain m where m: "initial_configuration mt = Inr m" "s' = s\<lparr>st_row := Some \<lparr>co_revision = 1, co_configuration = Legacy m, co_health = [],
      co_updated = now\<rparr>, st_history := [\<lparr>mv_revision = 1, mv_configuration = Legacy m, mv_created_by = None, mv_created = now\<rparr>]\<rparr>"
    using assms(2) None h by (auto simp: initialize_body_def save_version_def result_simps)
  have "validate_managed m = Inr m"
    using m(1) by (auto simp: initial_configuration_def result_simps dest: validate_managed_again)
  then show ?thesis by (auto simp: m(2) model_inv_def config_ok_simps identified_def dominates_def)
next
  case (Some row)
  note i = assms(1) [unfolded model_inv_def Some option.case]
  have "co_revision row \<in> mv_revision ` set (st_history s)"
    using i by (metis atLeastAtMost_iff list.set_map order_refl set_upto)
  then have "row_get mv_revision (co_revision row) (st_history s) \<noteq> None" by (auto simp: row_get_None)
  then have "s' = s" using assms(2) Some by (auto simp: initialize_body_def result_simps)
  then show ?thesis using assms(1) by simp
qed

lemma migrate_body_inv:
  assumes "model_inv s" "migrate_body now s = Inr (r, s')"
  shows "model_inv s'"
proof -
  obtain row c saved n where c: "st_row s = Some row" "load_configuration (co_configuration row) = Inr c" "migrated c = (saved, n)"
    "n = 0 \<and> s' = s \<or> replace_configuration saved None now row s = Inr s'"
  proof -
    obtain row c where rc: "st_row s = Some row" "load_configuration (co_configuration row) = Inr c"
      "(case migrated c of (saved, n) \<Rightarrow> if n = 0 then committed (co_revision row, 0) s
         else and_then (replace_configuration saved None now row s) (\<lambda>s'. committed (co_revision row + 1, n) s')) = Inr (r, s')"
      using assms(2) by (auto simp: migrate_body_def current_row_def result_simps simp del: prod.case_eq_if)
    obtain saved n where "migrated c = (saved, n)" by fastforce
    then show thesis using that [OF rc(1,2)] rc(3) by (auto simp: result_simps split: if_splits)
  qed
  have same: "c = co_configuration row" using model_inv_current [OF assms(1) c(1)] c(2) by (simp add: config_ok_def)
  have ok: "config_ok saved" by (rule migrated_config_ok [OF load_configuration_ok [OF c(2)] c(3)])
  have "succeeds c (st_history s) saved"
  proof (cases c)
    case (Catalog g)
    have "saved = Catalog (g\<lparr>cg_profiles := map (\<lambda>(k, p). (k, renewed_profile p)) (cg_profiles g)\<rparr>)" using c(3) by (simp add: Catalog migrated_def)
    then show ?thesis by (auto simp: Catalog succeeds_def map_of_map renewed_profile_def)
  qed (simp add: succeeds_def)
  then show ?thesis using replace_configuration_inv [OF assms(1) c(1) ok] c(4) assms(1) same by blast
qed

lemma update_body_inv:
  assumes "model_inv s" "update_body uid revision m now s = Inr (r, s')" "validate_managed m = Inr m"
  shows "model_inv s'"
proof -
  obtain row old where c: "st_row s = Some row" "co_configuration row = Legacy old"
    "replace_configuration (Legacy m) (Some uid) now row s = Inr s'"
  proof -
    obtain row where rc: "st_row s = Some row" "(case co_configuration row of Catalog g \<Rightarrow> Inl (AppError ''MODEL_CATALOG_REQUIRED'' 409)
       | Legacy old \<Rightarrow> and_then (replace_configuration (Legacy m) (Some uid) now row s) (\<lambda>s'. committed () s')) = Inr (r, s')"
      using assms(2) by (auto simp: update_body_def current_row_def result_simps)
    then show thesis using that [OF rc(1)] by (cases "co_configuration row") (auto simp: result_simps)
  qed
  show ?thesis by (rule replace_configuration_inv [OF assms(1) c(1) _ _ c(3)]) (use assms(3) c(2) in \<open>simp_all add: config_ok_simps succeeds_def\<close>)
qed

lemma next_profiles_lookup:
  "next_profiles s old ps = Inr qs \<Longrightarrow> map_of qs k = Some q \<Longrightarrow> \<exists>p. map_of ps k = Some p \<and> next_profile s old k p = Inr q"
  by (induction s old ps arbitrary: qs rule: next_profiles.induct) (auto simp: result_simps split: if_splits)

lemma next_profile_version:
  assumes "next_profile s old k p = Inr q"
  shows "case map_of (cg_profiles old) k of Some r \<Rightarrow> q = r \<or> rp_version r < rp_version q
    | None \<Rightarrow> \<forall>v\<in>set (st_history s). \<not> has_profile (mv_configuration v) k"
proof (cases "map_of (cg_profiles old) k")
  case None
  then show ?thesis using assms by (auto simp: next_profile_def profile_was_used_def list_ex_iff split: if_splits)
next
  case (Some r)
  then have v: "rp_version p = rp_version r" "q = p\<lparr>rp_version := rp_version p + (if p\<lparr>rp_version := 1\<rparr> \<noteq> r\<lparr>rp_version := 1\<rparr> then 1 else 0)\<rparr>"
    using assms by (auto simp: next_profile_def profile_was_used_def Let_def split: if_splits)
  show ?thesis
  proof (cases "p\<lparr>rp_version := 1\<rparr> = r\<lparr>rp_version := 1\<rparr>")
    case True
    then have "p = r" using v(1) by (cases p; cases r) simp
    then show ?thesis using v(2) Some by simp
  next
    case False
    then show ?thesis using v Some by simp
  qed
qed

lemma next_profiles_trim:
  assumes "next_profiles s old ps = Inr qs" "map (\<lambda>(k, p). (k, trim_profile p)) ps = ps"
  shows "map (\<lambda>(k, p). (k, trim_profile p)) qs = qs"
  using assms
proof (induction s old ps arbitrary: qs rule: next_profiles.induct)
  case (2 s old key p ps)
  obtain q rest where q: "next_profile s old key p = Inr q" "next_profiles s old ps = Inr rest" "qs = (key, q) # rest"
    using 2(2) by (auto simp: result_simps)
  have "trim_profile q = q" using q(1) 2(3)
    by (cases p) (auto simp: next_profile_def Let_def trim_profile_def split: if_splits)
  then show ?case using 2(1) [OF q(2)] 2(3) q(3) by simp
qed simp

lemma update_catalog_body_inv:
  assumes "model_inv s" "update_catalog_body uid revision g now s = Inr (r, s')" "validate_catalog g = Inr g"
  shows "model_inv s'"
proof -
  obtain row old profiles saved where c: "st_row s = Some row" "catalog_of (co_configuration row) = Inr old"
    "next_profiles s old (cg_profiles g) = Inr profiles" "validate_catalog (g\<lparr>cg_profiles := profiles\<rparr>) = Inr saved"
    "replace_configuration (Catalog saved) (Some uid) now row s = Inr s'"
    using assms(2) by (auto simp: update_catalog_body_def current_row_def result_simps)
  have clean: "map (\<lambda>(k, p). (k, trim_profile p)) (cg_profiles g) = cg_profiles g"
    using assms(3) unfolding validate_catalog_Inr trimmed_profiles [symmetric] by simp
  have "saved = g\<lparr>cg_profiles := profiles\<rparr>"
    using c(4) next_profiles_trim [OF c(3) clean] by (simp add: validate_catalog_Inr trim_catalog_def)
  then have look: "map_of (cg_profiles saved) k = Some q \<Longrightarrow> \<exists>p. next_profile s old k p = Inr q" for k q
    using next_profiles_lookup [OF c(3)] by fastforce
  have "succeeds (co_configuration row) (st_history s) (Catalog saved)"
  proof (cases "co_configuration row")
    case (Catalog g0)
    then have "old = g0" using model_inv_current [OF assms(1) c(1)] c(2) by (simp add: catalog_of_def config_ok_simps)
    then show ?thesis using look next_profile_version by (fastforce simp: Catalog succeeds_def)
  qed (simp add: succeeds_def)
  then show ?thesis using replace_configuration_inv [OF assms(1) c(1) _ _ c(5)] validate_catalog_again [OF c(4)]
    by (simp add: config_ok_simps)
qed

lemma save_probe_body_inv:
  assumes "model_inv s" "save_probe_body revision key state code now s = Inr (r, s')"
  shows "model_inv s'"
proof -
  let ?h = "\<lparr>he_revision = revision, he_state = state, he_checked = now, he_error = code\<rparr>"
  obtain row where c: "st_row s = Some row" "co_revision row = revision"
    "s' = s\<lparr>st_row := Some (row\<lparr>co_health := AList.update key ?h (co_health row), co_updated := now\<rparr>)\<rparr>"
    using assms(2) by (auto simp: save_probe_body_def current_row_def result_simps)
  have "set (AList.update key ?h xs) \<subseteq> insert (key, ?h) (set xs)" for xs by (induction xs) auto
  then show ?thesis using assms(1) c by (fastforce simp: model_inv_def)
qed

text \<open>
  Every sequence of operations, with settings that change between them, with other requests during a probe, and with
  accounts and records of calls that change in any way.
\<close>

inductive model_reach :: "db \<Rightarrow> model_store \<Rightarrow> bool" for d where
  start: "model_reach d (empty_store d)"
| initialized: "model_reach d s \<Longrightarrow> model_reach d (snd (initialize mt missing now s))"
| maintained: "model_reach d s \<Longrightarrow> model_reach d (snd (migrate_retired_deepseek_chat ip mt now s))"
| updated: "model_reach d s \<Longrightarrow> model_reach d (snd (update_models mt uid revision m now s))"
| catalogued: "model_reach d s \<Longrightarrow> model_reach d (snd (update_catalog mt uid revision g now s))"
| probed: "model_reach d s \<Longrightarrow> model_reach d (others s) \<Longrightarrow> model_reach d (snd (probe_profile mt directory others uid pid now s))"
| provider_probed: "model_reach d s \<Longrightarrow> model_reach d (others s) \<Longrightarrow> model_reach d (snd (probe_provider mt directory others uid v now s))"
| elsewhere: "model_reach d s \<Longrightarrow> model_reach d (s\<lparr>st_db := d', st_calls := calls\<rparr>)"

lemmas model_transaction_inv = transaction_preserves [where I = model_inv]

lemma ask_directory_inv:
  assumes "model_inv (others s)"
  shows "model_inv (snd (ask_directory mt directory others revision key v name now s))"
proof (cases "probe_directory mt directory v name")
  case (Inr p)
  then show ?thesis
    by (cases p) (auto simp: ask_directory_def intro: model_transaction_inv [OF assms] save_probe_body_inv [OF assms])
qed (simp add: ask_directory_def assms)

lemma probe_profile_inv: "model_inv s \<Longrightarrow> model_inv (others s) \<Longrightarrow> model_inv (snd (probe_profile mt directory others uid pid now s))"
  by (auto simp: probe_profile_def ask_directory_inv split: sum.splits)

lemma probe_provider_inv: "model_inv s \<Longrightarrow> model_inv (others s) \<Longrightarrow> model_inv (snd (probe_provider mt directory others uid v now s))"
  by (auto simp: probe_provider_def ask_directory_inv probe_profile_inv split: sum.splits option.splits)

lemma model_reach_inv: "model_reach d s \<Longrightarrow> model_inv s"
proof (induction rule: model_reach.induct)
  case start
  then show ?case by (simp add: model_inv_def empty_store_def)
next
  case (initialized s mt missing now)
  then show ?case unfolding initialize_def by (blast intro: model_transaction_inv initialize_body_inv)
next
  case (maintained s ip mt now)
  then show ?case
    by (auto simp: migrate_retired_deepseek_chat_def split: sum.splits intro: model_transaction_inv migrate_body_inv)
next
  case (updated s mt uid revision m now)
  have "validate_managed m' = Inr m'" if "and_then (require_admin mt uid s) (\<lambda>_. and_then (validate_managed m) (\<lambda>m.
        and_then (require_row (map_of (gm_profiles m) Deepseek) key_error) (\<lambda>p.
        and_then (raise_if (pf_enabled p \<and> mt_deepseek_key mt = []) (credentials_missing 422)) (\<lambda>_. Inr m)))) = Inr m'" for m'
    using that validate_managed_again by (auto simp: result_simps)
  then show ?case using updated.IH
    by (auto simp: update_models_def split: sum.splits intro: model_transaction_inv update_body_inv)
next
  case (catalogued s mt uid revision g now)
  have "validate_catalog g' = Inr g'" if "and_then (require_admin mt uid s) (\<lambda>_. and_then (validate_catalog g) (\<lambda>g.
        and_then (check_connections mt (cg_profiles g)) (\<lambda>_. Inr g))) = Inr g'" for g'
    using that validate_catalog_again by (auto simp: result_simps)
  then show ?case using catalogued.IH
    by (auto simp: update_catalog_def split: sum.splits intro: model_transaction_inv update_catalog_body_inv)
next
  case (probed s others mt directory uid pid now)
  then show ?case by (blast intro: probe_profile_inv)
next
  case (provider_probed s others mt directory uid v now)
  then show ?case by (blast intro: probe_provider_inv)
next
  case (elsewhere s d' calls)
  then show ?case by (cases "st_row s") (simp_all add: model_inv_def)
qed

text \<open>
  C20: The history of the model centre is complete. However requests, maintenance and probes follow or overlap each
  other, the history holds every revision from 1 to that of the row, the last as the row holds it, each of them valid, and
  what is known of the health of a model was measured for the current revision.
\<close>

theorem model_history_complete:
  assumes "model_reach d s" "st_row s = Some row"
  shows "map mv_revision (st_history s) = [1..co_revision row] \<and> mv_configuration (last (st_history s)) = co_configuration row \<and>
    (\<forall>v\<in>set (st_history s). load_configuration (mv_configuration v) = Inr (mv_configuration v)) \<and>
    (\<forall>(k, h)\<in>set (co_health row). he_revision h = co_revision row)"
  using model_reach_inv [OF assms(1)] assms(2) by (simp add: model_inv_def config_ok_def)

text \<open>
  C14: A profile with its version never changes. In whatever two catalogs of the history a key has the same version, it is
  the same profile: same provider, model, limits and capabilities; so the key and version in the record of a call tell which
  model answered.
\<close>

theorem profile_version_immutable:
  assumes "model_reach d s" "v \<in> set (st_history s)" "w \<in> set (st_history s)" "mv_configuration v = Catalog g" "mv_configuration w = Catalog g'"
    "map_of (cg_profiles g) k = Some p" "map_of (cg_profiles g') k = Some q" "rp_version p = rp_version q"
  shows "p = q"
proof -
  have "identified (st_history s)" using model_reach_inv [OF assms(1)] assms(2) by (auto simp: model_inv_def split: option.splits)
  then show ?thesis using assms(2-) unfolding identified_def by blast
qed

section \<open>Old clients\<close>

lemma two_slots:
  assumes "distinct (map fst xs)" "set (map fst xs) = {Deepseek, Ollama}"
  obtains p q where "xs = [(Deepseek, p), (Ollama, q)] \<or> xs = [(Ollama, q), (Deepseek, p)]"
proof -
  have "length xs = 2" using distinct_card [OF assms(1)] assms(2) by simp
  then obtain a b where ab: "xs = [a, b]" by (auto simp: numeral_2_eq_2 length_Suc_conv)
  then show thesis using assms that by (cases a; cases b) (auto simp: doubleton_eq_iff)
qed

lemma provider_name_ok [simp]: "profile_id_ok (provider_name v)" "trim (provider_name v) = provider_name v" "provider_name v \<noteq> []"
  "length (provider_name v) \<le> 120" "provider_name v = provider_name w \<longleftrightarrow> v = w"
  by (cases v; cases w; simp add: provider_name_def profile_id_ok_def lower_char_def trim_def blank_def)+

lemma legacy_profile_fields [simp]:
  "rp_id (legacy_profile m v x) = provider_name v" "rp_version (legacy_profile m v x) = 1" "rp_display (legacy_profile m v x) = provider_name v"
  "rp_provider (legacy_profile m v x) = v" "rp_connection (legacy_profile m v x) = provider_name v" "rp_model (legacy_profile m v x) = pf_model x"
  "rp_window (legacy_profile m v x) = pf_window x" "rp_output (legacy_profile m v x) = gm_output m" "rp_timeout (legacy_profile m v x) = gm_timeout m"
  "rp_enabled (legacy_profile m v x) = pf_enabled x" "supports (legacy_profile m v x) r"
  "rp_fallback (legacy_profile m v x) = (if v = Deepseek \<and> gm_fallback m then Some (provider_name Ollama) else None)"
  by (cases r; simp add: legacy_profile_def provider_name_def)+

lemma trimmed_slot: "p\<lparr>pf_model := trim (pf_model p)\<rparr> = p \<longleftrightarrow> trim (pf_model p) = pf_model p"
  by (cases p) auto

lemma legacy_catalog:
  assumes "validate_managed m = Inr m" "distinct (map fst (gm_profiles m))"
  shows "catalog_from_legacy m = Inr \<lparr>
       cg_profiles = map (\<lambda>(v, p). (provider_name v, legacy_profile m v p)) (gm_profiles m),
       cg_assignments = map (\<lambda>r. (r, provider_name (gm_default m))) model_roles,
       cg_defaults = map (\<lambda>(v, p). (v, provider_name v)) (filter (\<lambda>(v, p). pf_enabled p) (gm_profiles m))\<rparr>"
    (is "_ = Inr ?c")
proof -
  have ok: "managed_ok m" "trim_managed m = m" using assms(1) by (auto simp: validate_managed_Inr)
  obtain p q where pq: "gm_profiles m = [(Deepseek, p), (Ollama, q)] \<or> gm_profiles m = [(Ollama, q), (Deepseek, p)]"
    using two_slots [OF assms(2)] ok(1) by (auto simp: managed_ok_def)
  have "map (\<lambda>(v, p). (v, p\<lparr>pf_model := trim (pf_model p)\<rparr>)) (gm_profiles m) = gm_profiles m"
    using arg_cong [OF ok(2), of gm_profiles] by (simp add: trim_managed_def)
  then have same: "trim (pf_model p) = pf_model p" "trim (pf_model q) = pf_model q"
    using pq by (auto simp: trimmed_slot)
  have trimmed: "trim_profile (legacy_profile m v x) = legacy_profile m v x" if "trim (pf_model x) = pf_model x" for v x
    using that provider_name_ok(2) [of Ollama] unfolding provider_name_def model_provider.case
    by (simp add: trim_profile_def legacy_profile_def)
  have "trim_catalog ?c = ?c" unfolding trimmed_profiles using pq same by (auto simp: trimmed)
  moreover have "catalog_ok ?c"
  proof -
    have fields: "profile_ok (legacy_profile m Deepseek p)" "profile_ok (legacy_profile m Ollama q)"
      using ok(1) pq by (auto simp: managed_ok_def profile_ok_def)
    have look: "map_of (cg_profiles ?c) (provider_name Deepseek) = Some (legacy_profile m Deepseek p)"
      "map_of (cg_profiles ?c) (provider_name Ollama) = Some (legacy_profile m Ollama q)"
      using pq by auto
    have en: "gm_fallback m \<Longrightarrow> pf_enabled p \<and> pf_enabled q" using ok(1) pq by (auto simp: managed_ok_def)
    have fall: "fallback_of ?c (legacy_profile m v x) = (if v = Deepseek \<and> gm_fallback m then Some (legacy_profile m Ollama q) else None)" for v x
      using look by (simp add: fallback_of_def)
    have fok: "fallback_ok ?c (legacy_profile m v x)" for v x
      using look en by (simp add: fallback_ok_def)
    have fits: "fits_role ?c (legacy_profile m v x) r = pf_enabled x" for v x r
      by (simp add: fits_role_def fall)
    have "list_all (\<lambda>(k, x). profile_id_ok k \<and> profile_ok x \<and> k = rp_id x \<and> fallback_ok ?c x) (cg_profiles ?c)"
      using pq fields fok by auto
    moreover have "list_all (\<lambda>(r, k). case map_of (cg_profiles ?c) k of None \<Rightarrow> False | Some x \<Rightarrow> fits_role ?c x r) (cg_assignments ?c)"
    proof -
      have "case map_of (cg_profiles ?c) (provider_name (gm_default m)) of None \<Rightarrow> False | Some x \<Rightarrow> fits_role ?c x r" for r
        using ok(1) pq look fits by (cases "gm_default m") (auto simp: managed_ok_def)
      then show ?thesis by (simp add: model_roles_def)
    qed
    moreover have "list_all (\<lambda>(v, k). case map_of (cg_profiles ?c) k of None \<Rightarrow> False
        | Some x \<Rightarrow> rp_provider x = v \<and> fits_role ?c x Answering) (cg_defaults ?c)"
    proof -
      have "case map_of (cg_profiles ?c) (provider_name v) of None \<Rightarrow> False | Some y \<Rightarrow> rp_provider y = v \<and> fits_role ?c y Answering"
        if "(v, x) \<in> set (gm_profiles m)" "pf_enabled x" for v x
        using pq that look fits by auto
      then show ?thesis by (auto simp: list_all_iff)
    qed
    moreover have "cg_profiles ?c \<noteq> [] \<and> length (cg_profiles ?c) \<le> 64" using pq by auto
    moreover have "set (map fst (cg_assignments ?c)) = set model_roles" by (simp add: comp_def)
    ultimately show ?thesis unfolding catalog_ok_def by blast
  qed
  ultimately show ?thesis by (simp add: catalog_from_legacy_def validate_catalog_def)
qed

text \<open>
  C37: What old clients see of their configuration. A valid two-provider configuration turned into a catalog and projected
  back has the same default provider, timeout, output limit and enabled slots with their models and windows. Three things
  are not kept: a slot that was disabled stays disabled but shows the model and window of the settings, a fallback is shown only
  when the default provider is DeepSeek, and the slots come in the fixed order. This needs settings that are usable for every
  disabled slot: a proper model name and a window within bounds that leaves room for the output limit.
\<close>

theorem legacy_round_trip:
  assumes "validate_managed m = Inr m" "distinct (map fst (gm_profiles m))"
    "\<forall>v p. map_of (gm_profiles m) v = Some p \<and> \<not> pf_enabled p \<longrightarrow>
      trim (mt_model mt v) = mt_model mt v \<and> model_name_ok (mt_model mt v) \<and> 4096 \<le> mt_window mt v \<and> mt_window mt v \<le> 2000000 \<and>
      gm_output m + 1024 \<le> mt_window mt v"
  shows "\<exists>c m'. catalog_from_legacy m = Inr c \<and> legacy_projection c mt = Inr m' \<and> gm_default m' = gm_default m \<and>
    gm_timeout m' = gm_timeout m \<and> gm_output m' = gm_output m \<and> gm_fallback m' = (gm_fallback m \<and> gm_default m = Deepseek) \<and>
    map fst (gm_profiles m') = [Deepseek, Ollama] \<and>
    (\<forall>v p. map_of (gm_profiles m) v = Some p \<longrightarrow> map_of (gm_profiles m') v = Some (if pf_enabled p then p
       else \<lparr>pf_model = mt_model mt v, pf_window = mt_window mt v, pf_enabled = False\<rparr>))"
proof -
  have ok: "managed_ok m" "trim_managed m = m" using assms(1) by (auto simp: validate_managed_Inr)
  obtain p q where pq: "gm_profiles m = [(Deepseek, p), (Ollama, q)] \<or> gm_profiles m = [(Ollama, q), (Deepseek, p)]"
    using two_slots [OF assms(2)] ok(1) by (auto simp: managed_ok_def)
  have slots: "map_of (gm_profiles m) Deepseek = Some p" "map_of (gm_profiles m) Ollama = Some q" using pq by auto
  define c where "c = \<lparr>cg_profiles = map (\<lambda>(v, p). (provider_name v, legacy_profile m v p)) (gm_profiles m),
       cg_assignments = map (\<lambda>r. (r, provider_name (gm_default m))) model_roles,
       cg_defaults = map (\<lambda>(v, p). (v, provider_name v)) (filter (\<lambda>(v, p). pf_enabled p) (gm_profiles m))\<rparr>"
  let ?slot = "\<lambda>v x. if pf_enabled x then x else \<lparr>pf_model = mt_model mt v, pf_window = mt_window mt v, pf_enabled = False\<rparr>"
  let ?d = "if gm_default m = Deepseek then p else q"
  have look: "map_of (cg_profiles c) (provider_name Deepseek) = Some (legacy_profile m Deepseek p)"
    "map_of (cg_profiles c) (provider_name Ollama) = Some (legacy_profile m Ollama q)"
    using pq by (auto simp: c_def)
  have d: "pf_enabled ?d" using ok(1) slots by (cases "gm_default m") (auto simp: managed_ok_def)
  have answer: "require_role c Answering = Inr (legacy_profile m (gm_default m) ?d)"
    using look by (cases "gm_default m") (simp_all add: require_role_def c_def model_roles_def)
  have defaults: "map_of (cg_defaults c) Deepseek = (if pf_enabled p then Some (provider_name Deepseek) else None)"
    "map_of (cg_defaults c) Ollama = (if pf_enabled q then Some (provider_name Ollama) else None)"
    using pq by (auto simp: c_def)
  have slot: "slot mt (slot_profile c (legacy_profile m (gm_default m) ?d) Deepseek) Deepseek = ?slot Deepseek p"
    "slot mt (slot_profile c (legacy_profile m (gm_default m) ?d) Ollama) Ollama = ?slot Ollama q"
    using look d by (cases "gm_default m"; cases "pf_enabled p"; cases "pf_enabled q"; simp add: slot_profile_def defaults slot_def)+
  have fall: "fallback_of c (legacy_profile m (gm_default m) ?d) =
      (if gm_default m = Deepseek \<and> gm_fallback m then Some (legacy_profile m Ollama q) else None)"
    using look(2) by (simp add: fallback_of_def)
  have en: "gm_fallback m \<Longrightarrow> pf_enabled p \<and> pf_enabled q" using ok(1) pq by (auto simp: managed_ok_def)
  define m' where "m' = \<lparr>gm_profiles = [(Deepseek, ?slot Deepseek p), (Ollama, ?slot Ollama q)], gm_default = gm_default m,
     gm_fallback = (gm_fallback m \<and> gm_default m = Deepseek), gm_timeout = gm_timeout m, gm_output = gm_output m\<rparr>"
  have off: "trim (mt_model mt v) = mt_model mt v \<and> model_name_ok (mt_model mt v) \<and> 4096 \<le> mt_window mt v \<and> mt_window mt v \<le> 2000000 \<and>
      gm_output m + 1024 \<le> mt_window mt v" if "(if v = Deepseek then \<not> pf_enabled p else \<not> pf_enabled q)" for v
    using assms(3) slots that by (cases v) auto
  note offs = off [of Deepseek, simplified] off [of Ollama, simplified]
  have room: "gm_output m \<le> pf_window (?slot Deepseek p) - 1024" "gm_output m \<le> pf_window (?slot Ollama q) - 1024"
    using ok(1) pq offs by (auto simp: managed_ok_def algebra_simps)
  have "legacy_projection c mt = validate_managed m'"
    using room en by (auto simp: legacy_projection_def answer slot fall Let_def m'_def min_def)
  moreover have "validate_managed m' = Inr m'"
  proof -
    have same: "trim (pf_model p) = pf_model p" "trim (pf_model q) = pf_model q"
      using arg_cong [OF ok(2), of gm_profiles] pq by (auto simp: trim_managed_def trimmed_slot)
    have "trim_managed m' = m'" using same offs by (simp add: trim_managed_def m'_def trimmed_slot)
    moreover have "managed_ok m'"
      using ok(1) pq offs en d room by (auto simp: managed_ok_def m'_def)
    ultimately show ?thesis by (simp add: validate_managed_Inr)
  qed
  moreover have "catalog_from_legacy m = Inr c" using legacy_catalog [OF assms(1,2)] by (simp add: c_def)
  moreover have "map_of (gm_profiles m') v = Some (?slot v x)"
    if "map_of (gm_profiles m) v = Some x" for v x
    using that slots by (cases v) (auto simp: m'_def)
  ultimately show ?thesis by (intro exI [of _ c] exI [of _ m']) (auto simp: m'_def)
qed

section \<open>Snapshots\<close>

lemma catalog_profile_ok: "catalog_ok c \<Longrightarrow> map_of (cg_profiles c) k = Some p \<Longrightarrow> profile_id_ok k \<and> profile_ok p"
  by (fastforce simp: catalog_ok_def list_all_iff dest: map_of_SomeD)

lemma catalog_for_snapshot_ok: "catalog_for_snapshot c pid = Inr (Some g) \<Longrightarrow> catalog_ok g"
  by (cases c) (auto simp: catalog_for_snapshot_def catalog_of_def catalog_from_legacy_def validate_catalog_Inr map_sum_def result_simps
    split: sum.splits if_splits)

text \<open>
  A snapshot can answer. The profile that a snapshot selects is one of its catalog, enabled and able to answer, and
  the router made from it keeps at least 1024 tokens of input, or the whole budget of the settings if that is less.
\<close>

lemma snapshot_can_answer:
  assumes "take_snapshot mt v pid s = Inr sn" "sn_catalog sn = Some c"
  shows "\<exists>ro. make_router c (sn_profile sn) Answering = Inr ro \<and> rp_enabled (ro_profile ro) \<and> supports (ro_profile ro) Answering \<and>
    min (mt_budget mt) 1024 \<le> router_budget (sn_settings sn) ro"
proof -
  obtain row c0 m budget where a: "catalog_for_snapshot (co_configuration row) pid = Inr c0" "snapshot_with mt v pid row m budget c0 = Inr sn"
    using assms(1) unfolding take_snapshot_def and_then_eq_Inr by blast
  have "c0 = Some c" using a(2) assms(2) by (auto simp: snapshot_with_def result_simps split: option.splits)
  then obtain k p where t: "catalog_for_snapshot (co_configuration row) pid = Inr (Some c)" "answering_profile c k = Inr p"
    "sn_profile sn = k" "mt_budget (sn_settings sn) = mt_budget mt"
    using a by (auto simp: snapshot_with_def result_simps profile_settings_def)
  note ok = catalog_for_snapshot_ok [OF t(1)]
  obtain key where key: "k = Some key" "map_of (cg_profiles c) key = Some p" "rp_enabled p" "supports p Answering"
    using t(2) by (cases k) (auto simp: answering_profile_def split: option.splits if_splits)
  have kp: "profile_id_ok key" "profile_ok p" using catalog_profile_ok [OF ok key(2)] by blast+
  then obtain x xs where x: "key = x # xs" by (cases key) (auto simp: profile_id_ok_def)
  let ?ro = "\<lparr>ro_catalog = c, ro_role = Answering, ro_profile = p, ro_fallback = fallback_of c p\<rparr>"
  have r: "make_router c (sn_profile sn) Answering = Inr ?ro"
    using key by (simp add: make_router_def t(3) x)
  have room: "rp_output f + 1024 \<le> rp_window f" if "profile_ok f" for f using that by (simp add: profile_ok_def)
  have "profile_ok f" if "fallback_of c p = Some f" for f
    using that catalog_profile_ok [OF ok] by (cases "rp_fallback p") (auto simp: fallback_of_def)
  then have "rp_output f + 1024 \<le> rp_window f" if "fallback_of c p = Some f" for f using that room by blast
  then have "min (mt_budget mt) 1024 \<le> router_budget (sn_settings sn) ?ro"
    using room [OF kp(2)] by (cases "fallback_of c p") (auto simp: router_budget_def t(4) min_def)
  then show ?thesis using r key(3,4) by (intro exI [of _ ?ro]) simp
qed

section \<open>An example\<close>

text \<open>A centre with one provider, turned into a catalog, and a profile whose model is then changed.\<close>

definition demo_settings :: model_settings where
  "demo_settings = \<lparr>mt_enabled = True, mt_deepseek_key = [], mt_deepseek_url = [], mt_providers = [Ollama], mt_default = Ollama, mt_fallback = False,
     mt_timeout = 60, mt_output = 2048, mt_model = (\<lambda>_. ''m''), mt_window = (\<lambda>_. 8192), mt_budget = 24000\<rparr>"

definition demo_admin :: db where
  "demo_admin = empty_db\<lparr>users := [\<lparr>u_id = 7, u_name = ''a'', u_password_hash = [], u_role = RoleAdmin, u_active = True\<rparr>]\<rparr>"

definition demo_models :: managed_models where
  "demo_models = \<lparr>gm_profiles = [(Deepseek, \<lparr>pf_model = ''m'', pf_window = 8192, pf_enabled = False\<rparr>),
     (Ollama, \<lparr>pf_model = ''m'', pf_window = 8192, pf_enabled = True\<rparr>)],
     gm_default = Ollama, gm_fallback = False, gm_timeout = 60, gm_output = 2048\<rparr>"

definition demo_registered :: "int \<Rightarrow> registered_profile" where
  "demo_registered n = (legacy_profile demo_models Ollama \<lparr>pf_model = ''m'', pf_window = 8192, pf_enabled = True\<rparr>)\<lparr>rp_version := n\<rparr>"

definition demo_model_catalog :: model_catalog where
  "demo_model_catalog = \<lparr>cg_profiles = [(''ollama'', demo_registered 1)], cg_assignments = map (\<lambda>r. (r, ''ollama'')) model_roles,
     cg_defaults = [(Ollama, ''ollama'')]\<rparr>"

definition demo_store :: "int \<Rightarrow> configuration list \<Rightarrow> model_store" where
  "demo_store n cs = \<lparr>st_db = demo_admin,
     st_row = Some \<lparr>co_revision = n, co_configuration = last cs, co_health = [], co_updated = n\<rparr>,
     st_history = map (\<lambda>(i, c). \<lparr>mv_revision = i, mv_configuration = c, mv_created_by = (if i = 1 then None else Some 7), mv_created = i\<rparr>) (zip [1..n] cs),
     st_calls = []\<rparr>"

lemma demo_models_valid: "validate_managed demo_models = Inr demo_models"
  by (simp add: validate_managed_Inr trim_managed_def demo_models_def managed_ok_def trim_def blank_def model_name_ok_def lower_char_def; auto)

lemma demo_initial: "initialize demo_settings False 1 (empty_store demo_admin) = (Inr (), demo_store 1 [Legacy demo_models])"
proof -
  have "initial_configuration demo_settings = validate_managed demo_models"
    by (simp add: initial_configuration_def initial_enabled_def demo_settings_def demo_models_def)
  then show ?thesis
    by (simp add: initialize_def transaction_def initialize_body_def empty_store_def demo_models_valid save_version_def row_insert_def committed_def
        demo_store_def)
qed

lemma demo_registered_fields [simp]:
  "rp_id (demo_registered n) = ''ollama''" "rp_version (demo_registered n) = n" "rp_display (demo_registered n) = ''ollama''"
  "rp_provider (demo_registered n) = Ollama" "rp_connection (demo_registered n) = ''ollama''" "rp_model (demo_registered n) = ''m''"
  "rp_window (demo_registered n) = 8192" "rp_output (demo_registered n) = 2048" "rp_timeout (demo_registered n) = 60"
  "rp_enabled (demo_registered n)" "rp_stream (demo_registered n)" "rp_tools (demo_registered n)" "rp_structured (demo_registered n)" "supports (demo_registered n) r" "rp_fallback (demo_registered n) = None"
  by (cases r; simp add: demo_registered_def legacy_profile_def provider_name_def demo_models_def)+

lemma ollama_ok: "profile_id_ok ''ollama''" "trim ''ollama'' = ''ollama''" "trim ''m'' = ''m''" "model_name_ok ''m''"
  using provider_name_ok(1,2) [of Ollama] by (simp_all add: provider_name_def trim_def blank_def model_name_ok_def lower_char_def)

lemma demo_model_catalog_valid: "validate_catalog demo_model_catalog = Inr demo_model_catalog"
proof -
  have "trim_profile (demo_registered 1) = demo_registered 1"
    by (simp add: trim_profile_def ollama_ok demo_registered_def legacy_profile_def provider_name_def demo_models_def)
  then have "trim_catalog demo_model_catalog = demo_model_catalog" by (simp add: trim_catalog_def demo_model_catalog_def)
  moreover have "catalog_ok demo_model_catalog"
    by (simp add: catalog_ok_def demo_model_catalog_def model_roles_def profile_ok_def ollama_ok fallback_ok_def fits_role_def fallback_of_def)
  ultimately show ?thesis by (simp add: validate_catalog_Inr)
qed

lemma demo_next:
  assumes "map_of (cg_profiles old) ''ollama'' = Some (demo_registered 1)"
  shows "next_profiles s old (cg_profiles demo_model_catalog) = Inr (cg_profiles demo_model_catalog)"
  using assms by (simp add: demo_model_catalog_def next_profile_def profile_was_used_def)

lemma demo_submit:
  assumes "catalog_of c = Inr old" "map_of (cg_profiles old) ''ollama'' = Some (demo_registered 1)"
    "st_row s = Some row" "co_configuration row = c" "co_revision row = n" "is_platform_admin 7 s" "row_get mv_revision (n + 1) (st_history s) = None"
  shows "update_catalog demo_settings 7 n demo_model_catalog now s =
    (Inr (), s\<lparr>st_row := Some (row\<lparr>co_configuration := Catalog demo_model_catalog, co_revision := n + 1, co_health := [], co_updated := now\<rparr>),
      st_history := st_history s @ [\<lparr>mv_revision = n + 1, mv_configuration = Catalog demo_model_catalog, mv_created_by = Some 7, mv_created = now\<rparr>]\<rparr>)"
proof -
  have again: "demo_model_catalog\<lparr>cg_profiles := cg_profiles demo_model_catalog\<rparr> = demo_model_catalog" by simp
  have "check_connections demo_settings (cg_profiles demo_model_catalog) = Inr ()"
    by (simp add: demo_model_catalog_def provider_name_def)
  then show ?thesis using assms
    by (simp add: update_catalog_def require_admin_def require_enabled_def demo_model_catalog_valid demo_settings_def transaction_def update_catalog_body_def
        current_row_def demo_next again replace_configuration_def save_version_def row_insert_def committed_def Let_def)
qed

lemma demo_store_admin: "is_platform_admin 7 (demo_store n cs)"
  by (simp add: is_platform_admin_def demo_store_def demo_admin_def)

lemma demo_first: "update_catalog demo_settings 7 1 demo_model_catalog 2 (demo_store 1 [Legacy demo_models]) =
    (Inr (), demo_store 2 [Legacy demo_models, Catalog demo_model_catalog])"
proof -
  obtain old where old: "catalog_from_legacy demo_models = Inr old" "map_of (cg_profiles old) ''ollama'' = Some (demo_registered 1)"
  proof -
    have "distinct (map fst (gm_profiles demo_models))" by (simp add: demo_models_def)
    from legacy_catalog [OF demo_models_valid this] show thesis
      by (rule that) (simp add: demo_models_def provider_name_def legacy_profile_def demo_registered_def)
  qed
  show ?thesis
    by (subst demo_submit [where c = "Legacy demo_models" and old = old])
      (simp_all add: catalog_of_def demo_models_valid old demo_store_admin, simp_all add: demo_store_def upto.simps, simp_all)
qed

lemma demo_second: "update_catalog demo_settings 7 2 demo_model_catalog 3 (demo_store 2 [Legacy demo_models, Catalog demo_model_catalog]) =
    (Inr (), demo_store 3 [Legacy demo_models, Catalog demo_model_catalog, Catalog demo_model_catalog])"
proof -
  have "map_of (cg_profiles demo_model_catalog) ''ollama'' = Some (demo_registered 1)" by (simp add: demo_model_catalog_def)
  then show ?thesis
    by (subst demo_submit [where c = "Catalog demo_model_catalog" and old = demo_model_catalog])
      (simp_all add: catalog_of_def demo_model_catalog_valid demo_store_admin, simp_all add: demo_store_def upto.simps, simp_all)
qed

lemma demo_reached: "model_reach demo_admin (demo_store 3 [Legacy demo_models, Catalog demo_model_catalog, Catalog demo_model_catalog])"
  using catalogued [OF catalogued [OF initialized [OF start]]] demo_initial demo_first demo_second by (metis snd_conv)

theorem model_history_complete_witness:
  "map mv_revision (st_history (demo_store 3 [Legacy demo_models, Catalog demo_model_catalog, Catalog demo_model_catalog])) = [1..3] \<and>
   [1..3] = [1, 2, 3 :: int]"
proof -
  let ?s = "demo_store 3 [Legacy demo_models, Catalog demo_model_catalog, Catalog demo_model_catalog]"
  obtain row where "st_row ?s = Some row" "co_revision row = 3" by (simp add: demo_store_def)
  with model_history_complete [OF demo_reached this(1)] show ?thesis by (simp add: upto.simps)
qed

theorem profile_version_immutable_witness:
  "\<exists>v w. [v, w] = drop 1 (st_history (demo_store 3 [Legacy demo_models, Catalog demo_model_catalog, Catalog demo_model_catalog])) \<and>
     (\<forall>g g' p q. mv_configuration v = Catalog g \<longrightarrow> mv_configuration w = Catalog g' \<longrightarrow> map_of (cg_profiles g) ''ollama'' = Some p \<longrightarrow>
       map_of (cg_profiles g') ''ollama'' = Some q \<longrightarrow> rp_version p = rp_version q \<longrightarrow> p = q)"
proof -
  let ?s = "demo_store 3 [Legacy demo_models, Catalog demo_model_catalog, Catalog demo_model_catalog]"
  obtain u v w where h: "st_history ?s = [u, v, w]" by (simp add: demo_store_def upto.simps)
  have "v \<in> set (st_history ?s)" "w \<in> set (st_history ?s)" by (simp_all add: h)
  from profile_version_immutable [OF demo_reached this] show ?thesis by (intro exI [of _ v] exI [of _ w]) (auto simp: h)
qed

theorem legacy_round_trip_witness:
  "\<exists>c m'. catalog_from_legacy demo_models = Inr c \<and> legacy_projection c demo_settings = Inr m' \<and> gm_default m' = Ollama \<and> gm_output m' = 2048"
proof -
  have "distinct (map fst (gm_profiles demo_models))" "\<forall>v p. map_of (gm_profiles demo_models) v = Some p \<and> \<not> pf_enabled p \<longrightarrow> trim (mt_model demo_settings v) = mt_model demo_settings v \<and>
      model_name_ok (mt_model demo_settings v) \<and> 4096 \<le> mt_window demo_settings v \<and> mt_window demo_settings v \<le> 2000000 \<and>
      gm_output demo_models + 1024 \<le> mt_window demo_settings v"
    by (simp_all add: demo_models_def demo_settings_def ollama_ok)
  from legacy_round_trip [OF demo_models_valid this] show ?thesis by (auto simp: demo_models_def)
qed

lemma snapshot_can_answer_witness:
  "\<exists>sn c ro. take_snapshot demo_settings None (Some ''ollama'') (demo_store 1 [Catalog demo_model_catalog]) = Inr sn \<and> sn_catalog sn = Some c \<and>
     make_router c (sn_profile sn) Answering = Inr ro \<and> 1024 \<le> router_budget (sn_settings sn) ro"
proof -
  have row: "current_row (demo_store 1 [Catalog demo_model_catalog]) =
      Inr \<lparr>co_revision = 1, co_configuration = Catalog demo_model_catalog, co_health = [], co_updated = 1\<rparr>"
    by (simp add: current_row_def demo_store_def)
  have "legacy_projection demo_model_catalog demo_settings = validate_managed demo_models"
    by (simp add: legacy_projection_def require_role_def demo_model_catalog_def model_roles_def slot_profile_def slot_def fallback_of_def
        demo_settings_def demo_models_def Let_def)
  moreover have "catalog_for_snapshot (Catalog demo_model_catalog) (Some ''ollama'') = Inr (Some demo_model_catalog)"
    by (simp add: catalog_for_snapshot_def demo_model_catalog_valid)
  moreover have "legacy_budget demo_settings demo_models Ollama = Inr 6144"
    by (simp add: legacy_budget_def demo_models_def demo_settings_def)
  moreover have "answering_profile demo_model_catalog (Some ''ollama'') = Inr (demo_registered 1)"
    by (simp add: answering_profile_def demo_model_catalog_def)
  moreover have "gm_default demo_models = Ollama" "require_enabled demo_settings = Inr ()"
    by (simp_all add: demo_models_def require_enabled_def demo_settings_def)
  ultimately have "\<exists>sn. take_snapshot demo_settings None (Some ''ollama'') (demo_store 1 [Catalog demo_model_catalog]) = Inr sn \<and> sn_catalog sn = Some demo_model_catalog"
    by (simp add: take_snapshot_def row demo_models_valid snapshot_with_def selected_profile_def)
  then obtain sn where sn: "take_snapshot demo_settings None (Some ''ollama'') (demo_store 1 [Catalog demo_model_catalog]) = Inr sn"
    "sn_catalog sn = Some demo_model_catalog" by blast
  from snapshot_can_answer [OF this] show ?thesis using sn by (auto simp: demo_settings_def)
qed

text \<open>
  A profile that is named explicitly may fall back to one that cannot answer: only the profiles of roles and defaults
  are checked against their fallbacks.
\<close>

lemma named_profile_falls_back_unable:
  "\<exists>c ro f. validate_catalog c = Inr c \<and> make_router c (Some ''a'') Answering = Inr ro \<and> ro_fallback ro = Some f \<and> \<not> supports f Answering"
proof -
  let ?a = "(demo_registered 1)\<lparr>rp_id := ''a'', rp_fallback := Some ''b''\<rparr>" and ?b = "(demo_registered 1)\<lparr>rp_id := ''b'', rp_tools := False\<rparr>"
  let ?c = "demo_model_catalog\<lparr>cg_profiles := [(''ollama'', demo_registered 1), (''a'', ?a), (''b'', ?b)]\<rparr>"
  have ab: "profile_id_ok ''a''" "profile_id_ok ''b''" "trim ''a'' = ''a''" "trim ''b'' = ''b''"
    by (simp_all add: profile_id_ok_def lower_char_def trim_def blank_def)
  have same: "trim_profile (demo_registered 1) = demo_registered 1"
    by (simp add: trim_profile_def ollama_ok demo_registered_def legacy_profile_def provider_name_def demo_models_def)
  have trims: "trim_profile (p\<lparr>rp_id := ''a'', rp_fallback := Some ''b''\<rparr>) = p\<lparr>rp_id := ''a'', rp_fallback := Some ''b''\<rparr>"
    "trim_profile (p\<lparr>rp_id := ''b'', rp_tools := False\<rparr>) = p\<lparr>rp_id := ''b'', rp_tools := False\<rparr>" if "trim_profile p = p" for p
    using that by (cases p; simp add: trim_profile_def ab)+
  have "trim_catalog ?c = ?c" by (simp add: trim_catalog_def same trims [OF same])
  moreover have able: "supports ?a r" for r by (cases r) simp_all
  have "catalog_ok ?c"
    by (simp add: catalog_ok_def demo_model_catalog_def model_roles_def profile_ok_def ollama_ok ab fallback_ok_def fits_role_def fallback_of_def)
  ultimately have "validate_catalog ?c = Inr ?c" by (simp add: validate_catalog_Inr)
  moreover have "make_router ?c (Some ''a'') Answering = Inr \<lparr>ro_catalog = ?c, ro_role = Answering, ro_profile = ?a, ro_fallback = Some ?b\<rparr>"
    by (simp add: make_router_def fallback_of_def)
  moreover have "\<not> supports ?b Answering" by simp
  ultimately show ?thesis by (metis router.select_convs(4))
qed

end
