(* ===== verification/ModelCalls.thy ===== *)
theory ModelCalls
  imports ModelCenterProperties
begin

text \<open>
  Calls of models through a router (\<open>generate\<close> of \<open>app/manager/llms/catalog.py\<close> and of
  \<open>app/manager/llms/providers.py\<close>) and their record (\<open>CallObserver\<close> of \<open>app/service/model_center.py\<close>): a row is
  committed before the request leaves and closed after the answer, in another transaction. The provider is a parameter that
  acts on a world of its own; while a request is out, others may change the store, and either transaction may fail.
\<close>

section \<open>The record of a call\<close>

record observer =
  ob_user :: uuid
  ob_session :: uuid
  ob_request :: string
  ob_revision :: int
  ob_operation :: string

definition metrics_unavailable :: exn where
  "metrics_unavailable = AppError ''MODEL_METRICS_UNAVAILABLE'' 503"

text \<open>What an attempt is of: the role, profile and version if a catalog decides, the provider and the model.\<close>

record model_attempt =
  at_role :: "(model_role \<times> string \<times> int) option"
  at_provider :: string
  at_model :: string
  at_number :: int
  at_fallback :: bool

definition call_row :: "observer \<Rightarrow> uuid \<Rightarrow> model_attempt \<Rightarrow> model_call" where
  "call_row ob i a = \<lparr>mo_id = i, mo_user = ob_user ob, mo_session = ob_session ob, mo_request = ob_request ob, mo_operation = ob_operation ob,
     mo_attempt = at_number a, mo_revision = ob_revision ob, mo_provider = at_provider a, mo_model = at_model a, mo_role = at_role a,
     mo_status = Call_started, mo_fallback = at_fallback a, mo_input = None, mo_output = None, mo_total = None, mo_elapsed = None,
     mo_error = None\<rparr>"

definition call_identity :: "model_call \<Rightarrow> uuid \<times> string \<times> string \<times> int" where
  "call_identity c = (mo_user c, mo_request c, mo_operation c, mo_attempt c)"

definition observe_start :: "observer \<Rightarrow> uuid \<Rightarrow> model_attempt \<Rightarrow> model_store \<Rightarrow> (model_store, uuid) outcome" where
  "observe_start ob i a s = transaction (\<lambda>s.
     and_then (chat_session_of (ob_user ob) (ob_session ob) None (st_db s)) (\<lambda>_.
     if \<exists>c\<in>set (st_calls s). mo_id c = i \<or> call_identity c = call_identity (call_row ob i a) then Inl metrics_unavailable
     else committed i (s\<lparr>st_calls := st_calls s @ [call_row ob i a]\<rparr>))) s"

definition token_count :: "dict \<Rightarrow> string \<Rightarrow> int option" where
  "token_count usage name = (case dict_get usage name of
     Some (JInt n) \<Rightarrow> if 0 \<le> n \<and> n \<le> 2147483647 then Some n else None
   | _ \<Rightarrow> None)"

definition call_failure_code :: "(exn \<Rightarrow> bool) \<Rightarrow> exn \<Rightarrow> string" where
  "call_failure_code retryable x = (case exn_code x of
     Some c \<Rightarrow> c
   | None \<Rightarrow> if retryable x then ''MODEL_UPSTREAM_UNAVAILABLE'' else ''MODEL_CALL_FAILED'')"

definition closed_call :: "(exn \<Rightarrow> bool) \<Rightarrow> int \<Rightarrow> dict result \<Rightarrow> model_call \<Rightarrow> model_call" where
  "closed_call retryable ms r c =
     (let usage = (case r of Inl x \<Rightarrow> [] | Inr u \<Rightarrow> u)
      in c\<lparr>mo_status := (case r of Inl x \<Rightarrow> Call_failed | Inr u \<Rightarrow> Call_succeeded), mo_elapsed := Some (max 0 ms),
           mo_input := token_count usage ''input_tokens'', mo_output := token_count usage ''output_tokens'',
           mo_total := token_count usage ''total_tokens'',
           mo_error := (case r of Inl x \<Rightarrow> Some (call_failure_code retryable x) | Inr u \<Rightarrow> None)\<rparr>)"

definition observe_finish :: "(exn \<Rightarrow> bool) \<Rightarrow> uuid \<Rightarrow> int \<Rightarrow> dict result \<Rightarrow> model_store \<Rightarrow> (model_store, unit) outcome" where
  "observe_finish retryable i ms r s = transaction (\<lambda>s.
     case row_get mo_id i (st_calls s) of
       None \<Rightarrow> Inl metrics_unavailable
     | Some c \<Rightarrow>
         if mo_status c \<noteq> Call_started then Inl metrics_unavailable
         else committed () (s\<lparr>st_calls := row_put mo_id (closed_call retryable ms r c) (st_calls s)\<rparr>)) s"

section \<open>Requests\<close>

text \<open>
  An observer if the caller gave one, its identifiers and clock, the provider and what counts as worth another try; what others
  do to the store while a request is out, and whether the transactions before and after it fail.
\<close>

record ('w, 'a) call_env =
  ce_observer :: "observer option"
  ce_ids :: "int \<Rightarrow> uuid"
  ce_elapsed :: "int \<Rightarrow> int"
  ce_retryable :: "exn \<Rightarrow> bool"
  ce_usage :: "'a \<Rightarrow> dict"
  ce_call :: "model_attempt \<Rightarrow> 'w \<Rightarrow> 'a result \<times> 'w"
  ce_meanwhile :: "model_attempt \<Rightarrow> 'w \<Rightarrow> model_store \<Rightarrow> model_store"
  ce_start_fails :: "model_attempt \<Rightarrow> 'w \<Rightarrow> bool"
  ce_finish_fails :: "model_attempt \<Rightarrow> 'w \<Rightarrow> bool"

definition start_call :: "('w, 'a) call_env \<Rightarrow> observer \<Rightarrow> model_attempt \<Rightarrow> 'w \<Rightarrow> model_store \<Rightarrow> (model_store, uuid) outcome" where
  "start_call e ob a w s =
     (if ce_start_fails e a w then (Inl metrics_unavailable, s) else observe_start ob (ce_ids e (at_number a)) a s)"

definition finish_call :: "('w, 'a) call_env \<Rightarrow> uuid \<Rightarrow> model_attempt \<Rightarrow> 'a result \<Rightarrow> 'w \<Rightarrow> model_store \<Rightarrow> (model_store, unit) outcome" where
  "finish_call e i a r w s =
     (if ce_finish_fails e a w then (Inl metrics_unavailable, s)
      else observe_finish (ce_retryable e) i (ce_elapsed e (at_number a)) (map_sum id (ce_usage e) r) s)"

definition invoke_model :: "('w, 'a) call_env \<Rightarrow> model_attempt \<Rightarrow> model_store \<times> 'w \<Rightarrow> 'a result \<times> model_store \<times> 'w" where
  "invoke_model e a sw = (case sw of (s, w) \<Rightarrow>
     (case ce_observer e of
        None \<Rightarrow> (case ce_call e a w of (r, w') \<Rightarrow> (r, ce_meanwhile e a w s, w'))
      | Some ob \<Rightarrow>
          (case start_call e ob a w s of
             (Inl x, s1) \<Rightarrow> (Inl x, s1, w)
           | (Inr i, s1) \<Rightarrow>
               (case ce_call e a w of (r, w') \<Rightarrow>
                 (case finish_call e i a r w' (ce_meanwhile e a w s1) of
                    (Inl x, s2) \<Rightarrow> (Inl x, s2, w')
                  | (Inr u, s2) \<Rightarrow> (r, s2, w'))))))"

definition profile_attempt :: "model_role \<Rightarrow> registered_profile \<Rightarrow> int \<Rightarrow> model_attempt" where
  "profile_attempt role p n = \<lparr>at_role = Some (role, rp_id p, rp_version p), at_provider = provider_name (rp_provider p), at_model = rp_model p,
     at_number = n, at_fallback = (1 < n)\<rparr>"

definition invoke_profile :: "('w, 'a) call_env \<Rightarrow> router \<Rightarrow> registered_profile \<Rightarrow> int \<Rightarrow> model_store \<times> 'w \<Rightarrow> 'a result \<times> model_store \<times> 'w" where
  "invoke_profile e ro p n sw =
     (if rp_connection p \<noteq> provider_name (rp_provider p) then (Inl connection_missing, sw)
      else invoke_model e (profile_attempt (ro_role ro) p n) sw)"

text \<open>One request, and one more to the fallback when the first failed in a way that another try may mend.\<close>

fun upstream_retryable :: "exn \<Rightarrow> bool" where
  "upstream_retryable (UpstreamError service retry) = retry"
| "upstream_retryable _ = False"

definition router_generate :: "('w, 'a) call_env \<Rightarrow> router \<Rightarrow> model_provider option \<Rightarrow> model_store \<times> 'w \<Rightarrow> 'a result \<times> model_store \<times> 'w" where
  "router_generate e ro v sw =
     (if v \<noteq> None \<and> v \<noteq> Some (rp_provider (ro_profile ro)) then (Inl (model_disabled 403), sw)
      else case invoke_profile e ro (ro_profile ro) 1 sw of
        (Inr r, sw1) \<Rightarrow> (Inr r, sw1)
      | (Inl x, sw1) \<Rightarrow> (case ro_fallback ro of
            None \<Rightarrow> (Inl x, sw1)
          | Some f \<Rightarrow> if upstream_retryable x then invoke_profile e ro f 2 sw1 else (Inl x, sw1)))"

text \<open>The router of the two providers, for configurations without a catalog.\<close>

definition legacy_attempt :: "model_settings \<Rightarrow> model_provider \<Rightarrow> int \<Rightarrow> model_attempt" where
  "legacy_attempt mt v n = \<lparr>at_role = None, at_provider = provider_name v, at_model = mt_model mt v, at_number = n, at_fallback = (1 < n)\<rparr>"

definition legacy_generate ::
    "('w, 'a) call_env \<Rightarrow> model_settings \<Rightarrow> model_provider option \<Rightarrow> model_store \<times> 'w \<Rightarrow> 'a result \<times> model_store \<times> 'w" where
  "legacy_generate e mt v sw =
     (let selected = (case v of None \<Rightarrow> mt_default mt | Some v \<Rightarrow> v)
      in if selected \<notin> set (mt_providers mt) then (Inl (model_disabled 403), sw)
         else case invoke_model e (legacy_attempt mt selected 1) sw of
           (Inr r, sw1) \<Rightarrow> (Inr r, sw1)
         | (Inl x, sw1) \<Rightarrow>
             if selected = Deepseek \<and> mt_fallback mt \<and> upstream_retryable x \<and> Ollama \<in> set (mt_providers mt)
             then invoke_model e (legacy_attempt mt Ollama 2) sw1 else (Inl x, sw1))"

section \<open>Every request is on record\<close>

text \<open>The row that a finished attempt leaves when nobody else touches it.\<close>

definition answered :: "('w, 'a) call_env \<Rightarrow> observer \<Rightarrow> model_attempt \<Rightarrow> 'w \<Rightarrow> model_call" where
  "answered e ob a w = closed_call (ce_retryable e) (ce_elapsed e (at_number a)) (map_sum id (ce_usage e) (fst (ce_call e a w)))
     (call_row ob (ce_ids e (at_number a)) a)"

lemma closed_fields: "mo_status (closed_call re ms r c) = (case r of Inl x \<Rightarrow> Call_failed | Inr u \<Rightarrow> Call_succeeded)"
  "mo_id (closed_call re ms r c) = mo_id c"
  by (simp_all add: closed_call_def Let_def)

lemma answered_status: "mo_status (answered e ob a w) = (case fst (ce_call e a w) of Inl x \<Rightarrow> Call_failed | Inr r \<Rightarrow> Call_succeeded)"
  by (simp add: answered_def closed_fields map_sum_def split: sum.splits)

lemma answered_key: "mo_id (answered e ob a w) = ce_ids e (at_number a)"
  by (simp add: answered_def closed_fields call_row_def)

text \<open>
  The store while a request is out: its row is committed and open. After the answer the row, if it is still there and
  open and the transaction goes through, is closed with the outcome.
\<close>

definition row_open :: "('w, 'a) call_env \<Rightarrow> observer \<Rightarrow> model_attempt \<Rightarrow> model_store \<Rightarrow> model_store" where
  "row_open e ob a s = s\<lparr>st_calls := st_calls s @ [call_row ob (ce_ids e (at_number a)) a]\<rparr>"

definition row_closed :: "('w, 'a) call_env \<Rightarrow> model_attempt \<Rightarrow> 'w \<Rightarrow> model_store \<Rightarrow> model_store" where
  "row_closed e a w s = (case ce_call e a w of (r, w') \<Rightarrow>
     (case row_get mo_id (ce_ids e (at_number a)) (st_calls s) of
        None \<Rightarrow> s
      | Some c \<Rightarrow> if ce_finish_fails e a w' \<or> mo_status c \<noteq> Call_started then s
          else s\<lparr>st_calls := row_put mo_id (closed_call (ce_retryable e) (ce_elapsed e (at_number a)) (map_sum id (ce_usage e) r) c) (st_calls s)\<rparr>))"

text \<open>The requests made, in order: what they do to the world, what becomes of the store, and their rows if nobody interferes.\<close>

fun requested :: "('w, 'a) call_env \<Rightarrow> model_attempt list \<Rightarrow> 'w \<Rightarrow> 'w" where
  "requested e [] w = w"
| "requested e (a # as) w = requested e as (snd (ce_call e a w))"

fun stored :: "('w, 'a) call_env \<Rightarrow> observer \<Rightarrow> model_attempt list \<Rightarrow> 'w \<Rightarrow> model_store \<Rightarrow> model_store" where
  "stored e ob [] w s = s"
| "stored e ob (a # as) w s = stored e ob as (snd (ce_call e a w)) (row_closed e a w (ce_meanwhile e a w (row_open e ob a s)))"

fun call_rows :: "('w, 'a) call_env \<Rightarrow> observer \<Rightarrow> model_attempt list \<Rightarrow> 'w \<Rightarrow> model_call list" where
  "call_rows e ob [] w = []"
| "call_rows e ob (a # as) w = answered e ob a w # call_rows e ob as (snd (ce_call e a w))"

definition failed_upstream :: "('w, 'a) call_env \<Rightarrow> model_attempt \<Rightarrow> 'w \<Rightarrow> bool" where
  "failed_upstream e a w \<longleftrightarrow> (case fst (ce_call e a w) of Inl x \<Rightarrow> upstream_retryable x | Inr r \<Rightarrow> False)"

lemma observe_start_Inl: "observe_start ob i a s = (Inl x, s') \<Longrightarrow> s' = s \<and> \<not> upstream_retryable x"
  by (auto simp: observe_start_def transaction_def committed_def metrics_unavailable_def chat_session_of_def workspace_member_def not_found_def
      and_then_def require_row_def split: sum.splits prod.splits if_splits option.splits)

lemma start_call_cases:
  assumes "start_call e ob a w s = (r, s1)"
  shows "(\<exists>x. r = Inl x) \<and> s1 = s \<and> (\<forall>x. r = Inl x \<longrightarrow> \<not> upstream_retryable x) \<or>
    r = Inr (ce_ids e (at_number a)) \<and> s1 = row_open e ob a s \<and> (\<forall>c\<in>set (st_calls s). mo_id c \<noteq> ce_ids e (at_number a))"
proof (cases r)
  case (Inl x)
  then show ?thesis using assms observe_start_Inl by (auto simp: start_call_def metrics_unavailable_def split: if_splits)
next
  case (Inr i)
  then show ?thesis using assms
    by (auto simp: start_call_def observe_start_def transaction_def committed_def and_then_def row_open_def split: if_splits sum.splits)
qed

lemma finish_call_cases:
  assumes "ce_call e a w = (r, w')" "finish_call e (ce_ids e (at_number a)) a r w' s = (f, s2)"
  shows "s2 = row_closed e a w s \<and> (f = Inl metrics_unavailable \<or>
    f = Inr () \<and> (\<exists>c. row_get mo_id (ce_ids e (at_number a)) (st_calls s2) = Some c \<and>
      mo_status c = (case r of Inl x \<Rightarrow> Call_failed | Inr u \<Rightarrow> Call_succeeded)))"
proof -
  let ?i = "ce_ids e (at_number a)"
  have put: "row_get mo_id ?i (row_put mo_id (closed_call re ms u c) rows) = Some (closed_call re ms u c)"
    if "row_get mo_id ?i rows = Some c" for re ms u c rows
    using row_get_Some_key [OF that] by (simp add: row_get_put closed_fields)
  show ?thesis
    using assms put
    by (auto simp: finish_call_def observe_finish_def transaction_def committed_def row_closed_def closed_fields
        split: if_splits option.splits sum.splits)
qed

text \<open>An attempt is not made at all, or it is made and its answer comes out only when its row was closed with it.\<close>

lemma invoke_model_recorded:
  assumes ob: "ce_observer e = Some ob" and run: "invoke_model e a (s, w) = (r, s', w')"
  shows "(\<exists>x. r = Inl x \<and> s' = s \<and> w' = w \<and> \<not> upstream_retryable x) \<or>
    s' = stored e ob [a] w s \<and> w' = requested e [a] w \<and>
      (r = Inl metrics_unavailable \<or> r = fst (ce_call e a w) \<and>
       (\<exists>c. row_get mo_id (ce_ids e (at_number a)) (st_calls s') = Some c \<and>
          mo_status c = (case r of Inl x \<Rightarrow> Call_failed | Inr u \<Rightarrow> Call_succeeded)))"
proof -
  obtain r1 s1 where start: "start_call e ob a w s = (r1, s1)" by fastforce
  from start_call_cases [OF start] show ?thesis
  proof (elim disjE conjE exE)
    fix x assume "s1 = s" "\<forall>x. r1 = Inl x \<longrightarrow> \<not> upstream_retryable x" "r1 = Inl x"
    then show ?thesis using run ob start by (intro disjI1) (auto simp: invoke_model_def)
  next
    assume st: "r1 = Inr (ce_ids e (at_number a))" "s1 = row_open e ob a s"
    obtain r2 w2 where call: "ce_call e a w = (r2, w2)" by fastforce
    obtain f s2 where fin: "finish_call e (ce_ids e (at_number a)) a r2 w2 (ce_meanwhile e a w s1) = (f, s2)" by fastforce
    have "r = (case f of Inl x \<Rightarrow> Inl x | Inr u \<Rightarrow> r2)" "s' = s2" "w' = w2"
      using run ob start st(1) call fin by (auto simp: invoke_model_def split: sum.splits)
    then show ?thesis using finish_call_cases [OF call fin] by (auto simp: call st(2))
  qed
qed

lemma invoke_profile_recorded:
  assumes "ce_observer e = Some ob" "invoke_profile e ro p n (s, w) = (r, s', w')"
  shows "(\<exists>x. r = Inl x \<and> s' = s \<and> w' = w \<and> \<not> upstream_retryable x) \<or>
    s' = stored e ob [profile_attempt (ro_role ro) p n] w s \<and> w' = requested e [profile_attempt (ro_role ro) p n] w \<and>
      (r = Inl metrics_unavailable \<or> r = fst (ce_call e (profile_attempt (ro_role ro) p n) w) \<and>
       (\<exists>c. row_get mo_id (ce_ids e n) (st_calls s') = Some c \<and>
          mo_status c = (case r of Inl x \<Rightarrow> Call_failed | Inr u \<Rightarrow> Call_succeeded)))"
proof (cases "rp_connection p = provider_name (rp_provider p)")
  case True
  then have "invoke_model e (profile_attempt (ro_role ro) p n) (s, w) = (r, s', w')" using assms(2) by (simp add: invoke_profile_def)
  from invoke_model_recorded [OF assms(1) this] show ?thesis by (simp add: profile_attempt_def)
next
  case False
  then show ?thesis using assms(2) by (auto simp: invoke_profile_def connection_missing_def)
qed

text \<open>Nobody else touches the store, and the transactions go through.\<close>

definition undisturbed :: "('w, 'a) call_env \<Rightarrow> bool" where
  "undisturbed e \<longleftrightarrow> (\<forall>a w s. ce_meanwhile e a w s = s \<and> \<not> ce_start_fails e a w \<and> \<not> ce_finish_fails e a w)"

lemma stored_rows:
  assumes "undisturbed e" "\<forall>a\<in>set as. \<forall>c\<in>set (st_calls s). mo_id c \<noteq> ce_ids e (at_number a)" "distinct (map (\<lambda>a. ce_ids e (at_number a)) as)"
  shows "st_calls (stored e ob as w s) = st_calls s @ call_rows e ob as w"
  using assms(2,3)
proof (induction as arbitrary: s w)
  case (Cons a as)
  let ?i = "ce_ids e (at_number a)" and ?row = "call_row ob (ce_ids e (at_number a)) a"
  have id: "mo_id ?row = ?i" "mo_status ?row = Call_started" by (simp_all add: call_row_def)
  have get: "row_get mo_id ?i (st_calls s @ [?row]) = Some ?row"
    using Cons.prems(1) by (simp add: row_get_append row_get_None [THEN iffD2] id)
  have put: "row_put mo_id (answered e ob a w) (st_calls s @ [?row]) = st_calls s @ [answered e ob a w]"
    using Cons.prems(1) by (auto simp: row_put_def answered_key id intro!: map_idI)
  have "row_closed e a w (ce_meanwhile e a w (row_open e ob a s)) = s\<lparr>st_calls := st_calls s @ [answered e ob a w]\<rparr>"
    using assms(1) put by (simp add: undisturbed_def row_closed_def row_open_def get id answered_def case_prod_beta)
  then show ?case
    using Cons.IH [of "s\<lparr>st_calls := st_calls s @ [answered e ob a w]\<rparr>"] Cons.prems by (force simp: answered_key)
qed simp

text \<open>The identifiers of the rows are new, as \<open>uuid4\<close> gives them.\<close>

definition new_rows :: "('w, 'a) call_env \<Rightarrow> model_store \<Rightarrow> bool" where
  "new_rows e s \<longleftrightarrow> ce_ids e 1 \<noteq> ce_ids e 2 \<and> (\<forall>c\<in>set (st_calls s). mo_id c \<notin> {ce_ids e 1, ce_ids e 2})"

text \<open>
  C29: Every request to a model is on record. The requests that a router makes for one question
  are at most two, the second to the fallback after a failure that is worth another try. A request leaves only when its
  row was committed, and afterwards the row, if others have not removed or changed it and the transaction does not fail,
  is closed with the outcome. An answer that comes out is that of the last request, and its row then is closed as
  succeeded. When nobody else touches the store and no transaction fails, each request has left exactly one row, closed
  with its outcome.
\<close>

theorem every_request_recorded:
  assumes "router_generate e ro v (s, w) = (r, s', w')" "ce_observer e = Some ob"
  shows "\<exists>as. w' = requested e as w \<and> s' = stored e ob as w s \<and>
    (as = [] \<or> as = [profile_attempt (ro_role ro) (ro_profile ro) 1] \<or>
     (\<exists>f. ro_fallback ro = Some f \<and> as = [profile_attempt (ro_role ro) (ro_profile ro) 1, profile_attempt (ro_role ro) f 2] \<and>
       failed_upstream e (hd as) w)) \<and>
    (\<forall>b. r = Inr b \<longrightarrow> as \<noteq> [] \<and> fst (ce_call e (last as) (requested e (butlast as) w)) = Inr b \<and>
       (\<exists>c. row_get mo_id (ce_ids e (at_number (last as))) (st_calls s') = Some c \<and> mo_status c = Call_succeeded)) \<and>
    (undisturbed e \<and> new_rows e s \<longrightarrow> st_calls s' = st_calls s @ call_rows e ob as w \<and>
       (\<forall>c\<in>set (call_rows e ob as w). mo_status c \<noteq> Call_started))"
proof -
  let ?a = "profile_attempt (ro_role ro) (ro_profile ro) 1"
  let ?ok = "\<lambda>as. w' = requested e as w \<and> s' = stored e ob as w s \<and>
    (as = [] \<or> as = [?a] \<or> (\<exists>f. ro_fallback ro = Some f \<and> as = [?a, profile_attempt (ro_role ro) f 2] \<and> failed_upstream e (hd as) w)) \<and>
    (\<forall>b. r = Inr b \<longrightarrow> as \<noteq> [] \<and> fst (ce_call e (last as) (requested e (butlast as) w)) = Inr b \<and>
       (\<exists>c. row_get mo_id (ce_ids e (at_number (last as))) (st_calls s') = Some c \<and> mo_status c = Call_succeeded))"
  have num: "at_number (profile_attempt (ro_role ro) p n) = n" for p n by (simp add: profile_attempt_def)
  have "\<exists>as. ?ok as"
  proof (cases "v \<noteq> None \<and> v \<noteq> Some (rp_provider (ro_profile ro))")
    case True
    then have "r = Inl (model_disabled 403)" "s' = s" "w' = w" using assms(1) by (simp_all add: router_generate_def)
    then show ?thesis by (intro exI [of _ "[]"]) simp
  next
    case False
    obtain r1 s1 w1 where one: "invoke_profile e ro (ro_profile ro) 1 (s, w) = (r1, s1, w1)" by (metis surj_pair)
    have gen: "(case (r1, s1, w1) of (Inr r, sw1) \<Rightarrow> (Inr r, sw1)
      | (Inl x, sw1) \<Rightarrow> (case ro_fallback ro of None \<Rightarrow> (Inl x, sw1)
          | Some f \<Rightarrow> if upstream_retryable x then invoke_profile e ro f 2 sw1 else (Inl x, sw1))) = (r, s', w')"
      using assms(1) False one unfolding router_generate_def by argo
    note first = invoke_profile_recorded [OF assms(2) one]
    show ?thesis
    proof (cases "\<exists>x f. r1 = Inl x \<and> ro_fallback ro = Some f \<and> upstream_retryable x")
      case False
      then have out: "r = r1" "s' = s1" "w' = w1" using gen by (cases r1; cases "ro_fallback ro"; simp)+
      from first show ?thesis
      proof (elim disjE exE conjE)
        fix x assume "r1 = Inl x" "s1 = s" "w1 = w"
        then show ?thesis using out by (intro exI [of _ "[]"]) simp
      next
        assume "s1 = stored e ob [?a] w s" "w1 = requested e [?a] w" "r1 = Inl metrics_unavailable"
        then show ?thesis using out by (intro exI [of _ "[?a]"]) simp
      next
        fix c assume "s1 = stored e ob [?a] w s" "w1 = requested e [?a] w" "r1 = fst (ce_call e ?a w)"
          "row_get mo_id (ce_ids e 1) (st_calls s1) = Some c" "mo_status c = (case r1 of Inl x \<Rightarrow> Call_failed | Inr u \<Rightarrow> Call_succeeded)"
        then show ?thesis using out num by (intro exI [of _ "[?a]"]) auto
      qed
    next
      case True
      then obtain x f where x: "r1 = Inl x" "ro_fallback ro = Some f" "upstream_retryable x" by blast
      let ?b = "profile_attempt (ro_role ro) f 2"
      have "x \<noteq> metrics_unavailable" using x(3) by (auto simp: metrics_unavailable_def)
      then have "s1 = stored e ob [?a] w s \<and> w1 = requested e [?a] w \<and> fst (ce_call e ?a w) = Inl x"
        using first x(1,3) by (auto simp del: stored.simps requested.simps)
      then have sent: "s1 = stored e ob [?a] w s" "w1 = requested e [?a] w" "failed_upstream e ?a w"
        using x(3) by (simp_all add: failed_upstream_def)
      have two: "invoke_profile e ro f 2 (s1, w1) = (r, s', w')" using gen by (simp add: x)
      from invoke_profile_recorded [OF assms(2) two] show ?thesis
      proof (elim disjE exE conjE)
        fix y assume "r = Inl y" "s' = s1" "w' = w1"
        then show ?thesis using sent by (intro exI [of _ "[?a]"]) simp
      next
        assume "s' = stored e ob [?b] w1 s1" "w' = requested e [?b] w1" "r = Inl metrics_unavailable"
        then show ?thesis using sent x(2) by (intro exI [of _ "[?a, ?b]"]) simp
      next
        fix c assume "s' = stored e ob [?b] w1 s1" "w' = requested e [?b] w1" "r = fst (ce_call e ?b w1)"
          "row_get mo_id (ce_ids e 2) (st_calls s') = Some c" "mo_status c = (case r of Inl x \<Rightarrow> Call_failed | Inr u \<Rightarrow> Call_succeeded)"
        then show ?thesis using sent x(2) num by (intro exI [of _ "[?a, ?b]"]) auto
      qed
    qed
  qed
  then obtain as where as: "?ok as" by blast
  have "st_calls s' = st_calls s @ call_rows e ob as w" if u: "undisturbed e" "new_rows e s"
  proof -
    have "distinct (map (\<lambda>a. ce_ids e (at_number a)) as)" using as u(2) num by (auto simp: new_rows_def)
    moreover have "\<forall>a\<in>set as. \<forall>c\<in>set (st_calls s). mo_id c \<noteq> ce_ids e (at_number a)" using as u(2) num by (auto simp: new_rows_def)
    ultimately show ?thesis using stored_rows [OF u(1)] as by simp
  qed
  moreover have "\<forall>c\<in>set (call_rows e ob as w). mo_status c \<noteq> Call_started" for w
    by (induction as arbitrary: w) (auto simp: answered_status split: sum.splits)
  ultimately show ?thesis using as by blast
qed

section \<open>An example\<close>

text \<open>A provider that fails once, and a profile with a fallback.\<close>

definition demo_observer :: observer where
  "demo_observer = \<lparr>ob_user = 7, ob_session = 3, ob_request = ''r'', ob_revision = 1, ob_operation = ''agent''\<rparr>"

definition demo_calls :: "(nat, string) call_env" where
  "demo_calls = \<lparr>ce_observer = Some demo_observer, ce_ids = nat, ce_elapsed = (\<lambda>n. n), ce_retryable = (\<lambda>x. False), ce_usage = (\<lambda>a. []),
     ce_call = (\<lambda>a n. (if n = 0 then Inl (UpstreamError ''llm'' True) else Inr ''yes'', n + 1)),
     ce_meanwhile = (\<lambda>a w s. s), ce_start_fails = (\<lambda>a w. False), ce_finish_fails = (\<lambda>a w. False)\<rparr>"

definition demo_router :: router where
  "demo_router = \<lparr>ro_catalog = demo_model_catalog, ro_role = Answering, ro_profile = demo_registered 1, ro_fallback = Some (demo_registered 2)\<rparr>"

definition demo_chat_store :: model_store where
  "demo_chat_store = empty_store (demo_admin\<lparr>sessions := [\<lparr>cs_id = 3, cs_user = 7, cs_org = None, cs_title = [], cs_kind = Chat, cs_summary = [],
     cs_summarized = None, cs_updated = 0\<rparr>]\<rparr>)"

lemma demo_generate: "\<exists>s'. router_generate demo_calls demo_router None (demo_chat_store, 0) = (Inr ''yes'', s', 2)"
  by (simp add: router_generate_def demo_router_def invoke_profile_def provider_name_def invoke_model_def demo_calls_def observe_start_def
      start_call_def finish_call_def transaction_def demo_chat_store_def empty_store_def chat_session_of_def demo_observer_def committed_def
      observe_finish_def profile_attempt_def call_row_def call_identity_def closed_call_def Let_def row_put_def)

text \<open>The session, and with it the rows, are deleted while the first request is out: the answer does not come out.\<close>

definition demo_deleted :: "(nat, string) call_env" where
  "demo_deleted = demo_calls\<lparr>ce_call := (\<lambda>a n. (Inr ''yes'', n + 1)), ce_meanwhile := (\<lambda>a w s. s\<lparr>st_calls := []\<rparr>)\<rparr>"

lemma demo_withheld: "\<exists>s'. router_generate demo_deleted demo_router None (demo_chat_store, 0) = (Inl metrics_unavailable, s', 1) \<and> st_calls s' = []"
  by (simp add: router_generate_def demo_router_def invoke_profile_def provider_name_def invoke_model_def demo_deleted_def demo_calls_def
      observe_start_def start_call_def finish_call_def transaction_def demo_chat_store_def empty_store_def chat_session_of_def demo_observer_def
      committed_def observe_finish_def profile_attempt_def call_row_def call_identity_def metrics_unavailable_def)

lemma demo_calls_facts: "ce_observer demo_calls = Some demo_observer" "undisturbed demo_calls" "new_rows demo_calls demo_chat_store"
  "st_calls demo_chat_store = []"
  by (simp_all add: demo_calls_def undisturbed_def new_rows_def demo_chat_store_def empty_store_def)

theorem every_request_recorded_witness:
  "\<exists>s' as. router_generate demo_calls demo_router None (demo_chat_store, 0) = (Inr ''yes'', s', 2) \<and>
     st_calls s' = call_rows demo_calls demo_observer as 0 \<and> as \<noteq> [] \<and>
     fst (ce_call demo_calls (last as) (requested demo_calls (butlast as) 0)) = Inr ''yes''"
proof -
  obtain s' where s': "router_generate demo_calls demo_router None (demo_chat_store, 0) = (Inr ''yes'', s', 2)" using demo_generate by blast
  obtain as where "as \<noteq> []" "fst (ce_call demo_calls (last as) (requested demo_calls (butlast as) 0)) = Inr ''yes''"
    "st_calls s' = st_calls demo_chat_store @ call_rows demo_calls demo_observer as 0"
    using every_request_recorded [OF s' demo_calls_facts(1)] demo_calls_facts(2,3) by blast
  then show ?thesis using s' demo_calls_facts(4) by auto
qed

end
