(* ===== verification/SessionDeletion.thy ===== *)
theory SessionDeletion
  imports RunProperties
begin

text \<open>
  The deletion of a chat session (\<open>delete\<close> of \<open>app/service/sessions.py\<close>), which the foreign keys carry on to the
  messages, runs, events, receipts and checkpoints of the session, as a step beside those of the run store. The
  invariants hold with it, and a run in a terminal state changes in no other way.
\<close>

section \<open>The operation\<close>

definition session_runs :: "chat_session \<Rightarrow> db \<Rightarrow> uuid set" where
  "session_runs s d = r_id ` {r \<in> set (runs d). r_user r = cs_user s \<and> r_session r = cs_id s}"

definition drop_session :: "chat_session \<Rightarrow> db \<Rightarrow> db" where
  "drop_session s d =
     (let gone = session_runs s d in
      d\<lparr>sessions := row_del (\<lambda>x. cs_id x = cs_id s) (sessions d),
        messages := row_del (\<lambda>m. msg_user m = cs_user s \<and> msg_session m = cs_id s) (messages d),
        runs := row_del (\<lambda>r. r_user r = cs_user s \<and> r_session r = cs_id s) (runs d),
        pins := row_del (\<lambda>x. pin_run x \<in> gone) (pins d),
        events := row_del (\<lambda>x. ev_run x \<in> gone) (events d),
        checkpoints := row_del (\<lambda>x. ck_run x \<in> gone) (checkpoints d),
        operations := row_del (\<lambda>x. op_run x \<in> gone) (operations d),
        artifacts := row_del (\<lambda>x. a_run x \<in> gone \<or> a_session x = cs_id s) (artifacts d),
        outbox := row_del (\<lambda>x. ob_run x \<in> gone) (outbox d)\<rparr>)"

text \<open>\<open>busy\<close> says that someone else holds the lock of the session.\<close>

definition delete_session :: "uuid \<Rightarrow> uuid \<Rightarrow> bool \<Rightarrow> db \<Rightarrow> (db, unit) outcome" where
  "delete_session uid sid busy = transaction (\<lambda>d.
     and_then (chat_session_of uid sid (Some Chat) d) (\<lambda>_.
     and_then (raise_if busy (AppError ''RESOURCE_BUSY'' 409)) (\<lambda>_.
     and_then (chat_session_of uid sid (Some Chat) d) (\<lambda>s. committed () (drop_session s d)))))"

lemma delete_session_cases:
  assumes "delete_session uid sid busy d = (r, d')"
  shows "(\<exists>x. r = Inl x) \<and> d' = d \<or> r = Inr () \<and> (\<exists>s. cs_id s = sid \<and> cs_user s = uid \<and> s \<in> set (sessions d) \<and> d' = drop_session s d)"
proof -
  have s: "cs_id s = sid \<and> cs_user s = uid \<and> s \<in> set (sessions d)" if "chat_session_of uid sid (Some Chat) d = Inr s" for s
    using that by (auto simp: chat_session_of_def result_simps require_row_def find_Some_iff split: option.splits)
  show ?thesis
    using assms s by (auto simp: delete_session_def transaction_def committed_def and_then_def raise_if_def split: sum.splits if_splits)
qed

section \<open>The invariants hold\<close>

lemma map_filter_eq:
  assumes "map f xs = map g ys" "\<And>x. p x = r (f x)" "\<And>y. q y = r (g y)"
  shows "map f (filter p xs) = map g (filter q ys)"
  using assms(1)
proof (induction xs arbitrary: ys)
  case (Cons x xs)
  then obtain y zs where ys: "ys = y # zs" "f x = g y" "map f xs = map g zs" by (cases ys) auto
  have "p x = q y" unfolding assms(2,3) ys(2) ..
  then show ?case using Cons.IH [OF ys(3)] ys(1,2) by simp
qed simp

lemma drop_session_fields [simp]:
  "runs (drop_session s d) = filter (\<lambda>r. \<not> (r_user r = cs_user s \<and> r_session r = cs_id s)) (runs d)"
  "events (drop_session s d) = filter (\<lambda>x. ev_run x \<notin> session_runs s d) (events d)"
  "outbox (drop_session s d) = filter (\<lambda>x. ob_run x \<notin> session_runs s d) (outbox d)"
  "operations (drop_session s d) = filter (\<lambda>x. op_run x \<notin> session_runs s d) (operations d)"
  "checkpoints (drop_session s d) = filter (\<lambda>x. ck_run x \<notin> session_runs s d) (checkpoints d)"
  by (simp_all add: drop_session_def Let_def row_del_def)

text \<open>A run is dropped with its session, or it and its journal stay as they are.\<close>

lemma dropped_run:
  assumes "distinct (map r_id (runs d))" "get_run_row i d = Some r"
  shows "(r_user r = cs_user s \<and> r_session r = cs_id s \<and> get_run_row i (drop_session s d) = None \<and> journal_of i (drop_session s d) = []) \<or>
    (\<not> (r_user r = cs_user s \<and> r_session r = cs_id s) \<and> get_run_row i (drop_session s d) = Some r \<and>
      journal_of i (drop_session s d) = journal_of i d)"
proof -
  have r: "r \<in> set (runs d)" "r_id r = i" using get_run_row_mem [OF assms(2)] by simp_all
  have only: "q = r" if "q \<in> set (runs d)" "r_id q = i" for q
    using distinct_key_eq [OF assms(1) that(1) r(1)] that(2) r(2) by simp
  show ?thesis
  proof (cases "r_user r = cs_user s \<and> r_session r = cs_id s")
    case True
    then have "i \<in> session_runs s d" using r by (auto simp: session_runs_def)
    moreover have "get_run_row i (drop_session s d) = None" using only True by (auto simp: row_get_None)
    ultimately show ?thesis using True by (auto simp: journal_of_def filter_empty_conv)
  next
    case False
    then have out: "i \<notin> session_runs s d" using only by (auto simp: session_runs_def)
    have "r \<in> set (runs (drop_session s d))" using r(1) False by simp
    moreover have "distinct (map r_id (runs (drop_session s d)))" using assms(1) by (simp add: distinct_map_filter)
    ultimately have "get_run_row i (drop_session s d) = Some r" using row_get_distinct r(2) by metis
    moreover have "journal_of i (drop_session s d) = journal_of i d"
      using out by (auto simp: journal_of_def intro!: filter_cong)
    ultimately show ?thesis using False by blast
  qed
qed

lemma drop_session_inv:
  assumes inv: "runs_inv d"
  shows "runs_inv (drop_session s d)"
proof -
  let ?d = "drop_session s d"
  have ok: "runs_ok d" "journal_ok d" "receipts_ok d" "checkpoints_ok d" using inv by (simp_all add: runs_inv_def)
  have dist: "distinct (map r_id (runs d))" using ok(1) by (simp add: runs_ok_def)
  have "runs_ok ?d" using ok(1) by (simp add: runs_ok_def one_active_def distinct_map_filter)
  moreover have "journal_ok ?d"
    unfolding journal_ok_def
  proof (intro conjI ballI)
    fix r assume r: "r \<in> set (runs ?d)"
    then have "get_run_row (r_id r) d = Some r" "r \<in> set (runs d)" using runs_ok_get [OF ok(1)] by simp_all
    then show "map ev_sequence (journal_of (r_id r) ?d) = [1..r_sequence r]"
      using dropped_run [OF dist, of "r_id r" r s] ok(2) r by (auto simp: journal_ok_def)
  next
    fix v assume v: "v \<in> set (events ?d)"
    then obtain r where r: "get_run_row (ev_run v) d = Some r" using ok(2) by (auto simp: journal_ok_def)
    have "ev_run v \<notin> session_runs s d" using v by simp
    then have "\<not> (r_user r = cs_user s \<and> r_session r = cs_id s)" using get_run_row_mem [OF r] unfolding session_runs_def by force
    then show "get_run_row (ev_run v) ?d \<noteq> None" using dropped_run [OF dist r, of s] by auto
  next
    show "map ob_pk (outbox ?d) = map event_pk (events ?d)"
      using ok(2) by (auto simp: journal_ok_def ob_pk_def event_pk_def intro!: map_filter_eq [where r = "\<lambda>k. fst k \<notin> session_runs s d"])
  qed
  moreover have "receipts_ok ?d"
  proof -
    have "operation_count rid ?d \<le> operation_count rid d" for rid
      by (simp add: operation_count_def) (metis (no_types, lifting) filter_filter length_filter_le filter_cong conj_commute)
    then have "operation_count rid ?d \<le> 128" for rid using ok(3) unfolding receipts_ok_def by (meson order.trans)
    then show ?thesis using ok(3) by (simp add: receipts_ok_def distinct_map_filter)
  qed
  moreover have "checkpoints_ok ?d" using ok(4) by (simp add: checkpoints_ok_def distinct_map_filter)
  ultimately show ?thesis by (simp add: runs_inv_def)
qed

section \<open>Histories with deletions\<close>

inductive life_step :: "db \<Rightarrow> db \<Rightarrow> bool" where
  life_run: "run_step d d' \<Longrightarrow> life_step d d'"
| life_delete: "life_step d (snd (delete_session uid sid busy d))"

inductive_cases life_step_cases: "life_step d d'"

abbreviation life_steps :: "db \<Rightarrow> db \<Rightarrow> bool" where
  "life_steps \<equiv> life_step\<^sup>*\<^sup>*"

definition life_reach :: "db \<Rightarrow> bool" where
  "life_reach d \<longleftrightarrow> (\<exists>d0. no_runs d0 \<and> life_steps d0 d)"

lemma life_step_inv: "life_step d d' \<Longrightarrow> runs_inv d \<Longrightarrow> runs_inv d'"
proof (induction rule: life_step.induct)
  case (life_run d d')
  then show ?case using run_steps_moves [of d d'] by blast
next
  case (life_delete d uid sid busy)
  obtain r d' where run: "delete_session uid sid busy d = (r, d')" by fastforce
  from delete_session_cases [OF run] show ?case using run life_delete drop_session_inv by auto
qed

lemma life_steps_inv: "life_steps d d' \<Longrightarrow> runs_inv d \<Longrightarrow> runs_inv d'"
  by (induction rule: rtranclp_induct) (auto intro: life_step_inv)

lemma life_reach_inv: "life_reach d \<Longrightarrow> runs_inv d"
  unfolding life_reach_def using life_steps_inv no_runs_inv by blast

lemma run_steps_life: "run_steps d d' \<Longrightarrow> life_steps d d'"
  by (induction rule: rtranclp_induct) (auto intro: rtranclp.rtrancl_into_rtrancl life_run)

text \<open>The run store alone leaves a terminal run as it is.\<close>

lemma run_step_frozen:
  assumes "run_step d d'" "runs_inv d" "get_run_row rid d = Some r" "r_state r \<in> set terminal_states"
  shows "get_run_row rid d' = Some r \<and> journal_of rid d' = journal_of rid d"
proof -
  have "run_moves d d'" using run_steps_moves [of d d'] assms(1,2) by blast
  then obtain r' where "get_run_row rid d' = Some r'" "evolves r r'" "journal_grows rid r d d'"
    using run_moves_evolve assms(3) by blast
  moreover have "terminal r" using assms(4) by (simp only: terminal_def)
  ultimately show ?thesis by (auto simp: evolves_def journal_grows_def)
qed

text \<open>
  C38: A run in a terminal state is final. Through any operations of the run store and any deletions of sessions, its row
  and the events of its journal stay exactly as they are, unless its own session is deleted: until that deletion they are
  unchanged, and it removes the row and the whole journal together.
\<close>

theorem terminal_run_frozen:
  assumes "life_reach d" "life_steps d d'" "get_run_row rid d = Some r" "r_state r \<in> set terminal_states"
  shows "get_run_row rid d' = Some r \<and> filter (\<lambda>v. ev_run v = rid) (events d') = filter (\<lambda>v. ev_run v = rid) (events d) \<or>
    (\<exists>busy d1 d2. life_steps d d1 \<and> delete_session (r_user r) (r_session r) busy d1 = (Inr (), d2) \<and> life_steps d2 d' \<and>
       get_run_row rid d1 = Some r \<and> filter (\<lambda>v. ev_run v = rid) (events d1) = filter (\<lambda>v. ev_run v = rid) (events d) \<and>
       get_run_row rid d2 = None \<and> filter (\<lambda>v. ev_run v = rid) (events d2) = [])"
  unfolding journal_of_def [symmetric]
  using assms(2)
proof (induction rule: rtranclp_induct)
  case base
  then show ?case using assms(3) by simp
next
  case (step y z)
  have inv: "runs_inv y" using life_steps_inv [OF step(1) life_reach_inv [OF assms(1)]] .
  show ?case
  proof (cases "get_run_row rid y = Some r \<and> journal_of rid y = journal_of rid d")
    case False
    then obtain busy d1 d2 where h: "life_steps d d1" "delete_session (r_user r) (r_session r) busy d1 = (Inr (), d2)" "life_steps d2 y"
      "get_run_row rid d1 = Some r" "journal_of rid d1 = journal_of rid d" "get_run_row rid d2 = None" "journal_of rid d2 = []"
      using step(3) by blast
    then show ?thesis using rtranclp.rtrancl_into_rtrancl [OF h(3) step(2)] by blast
  next
    case True
    from step(2) show ?thesis
    proof (cases rule: life_step.cases)
      case life_run
      then show ?thesis using run_step_frozen [OF _ inv _ assms(4)] True by metis
    next
      case (life_delete uid sid busy)
      obtain res where run: "delete_session uid sid busy y = (res, z)" using life_delete by (metis prod.collapse)
      from delete_session_cases [OF run] show ?thesis
      proof (elim disjE conjE exE)
        assume "z = y"
        then show ?thesis using True by simp
      next
        fix s assume s: "res = Inr ()" "cs_id s = sid" "cs_user s = uid" "z = drop_session s y"
        have "distinct (map r_id (runs y))" using inv by (simp add: runs_inv_def runs_ok_def)
        note dropped = dropped_run [OF this conjunct1 [OF True], of s]
        show ?thesis
        proof (cases "r_user r = cs_user s \<and> r_session r = cs_id s")
          case own: True
          have "life_steps d y \<and> delete_session (r_user r) (r_session r) busy y = (Inr (), z) \<and> life_steps z z \<and>
              get_run_row rid y = Some r \<and> journal_of rid y = journal_of rid d \<and> get_run_row rid z = None \<and> journal_of rid z = []"
            using dropped own run s step(1) True by simp
          then show ?thesis by blast
        next
          case False
          then have "get_run_row rid z = Some r \<and> journal_of rid z = journal_of rid d"
            using dropped unfolding s(4) using conjunct2 [OF True] by argo
          then show ?thesis by blast
        qed
      qed
    qed
  qed
qed

section \<open>An example\<close>

text \<open>A cancelled run, whose session is then deleted.\<close>

theorem terminal_run_frozen_witness:
  "\<exists>r d. life_reach d \<and> r_state r = Cancelled \<and> get_run_row 500 d = Some r \<and>
     (get_run_row 500 (snd (claim_next demo_run_env None 900 demo_clock d)) = Some r \<or>
      (\<exists>d1 d2 busy. delete_session (r_user r) (r_session r) busy d1 = (Inr (), d2) \<and> get_run_row 500 d2 = None))"
proof -
  obtain r d where d: "run_reach d" "get_run_row 500 d = Some r" "r_state r = Cancelled"
    by (rule demo_cancelled)
  have reach: "life_reach d" using d(1) run_steps_life unfolding run_reach_def life_reach_def by blast
  have "life_steps d (snd (claim_next demo_run_env None 900 demo_clock d))"
    by (rule r_into_rtranclp, rule life_run, rule step_claim)
  note cases = terminal_run_frozen [OF reach this d(2)]
  have "r_state r \<in> set terminal_states" using d(3) by (simp add: terminal_states_def)
  then show ?thesis using cases d(2,3) reach by blast
qed

end
