(* ===== verification/Spec2Isabelle.thy ===== *)
theory Spec2Isabelle
  imports RunWorker JobProperties IngestionProperties SharingProperties UserMemories AuthProperties DurableCalls RetrievalProperties ModelCalls
    SessionDeletion
begin

text \<open>
  \<^bold>\<open>A verification library of the learning question-and-answer assistant's backend.\<close>

  \<^bold>\<open>The program.\<close> The Python service under \<open>src/app\<close> answers questions about the documents a user
  uploads or a team shares. Documents are uploaded (\<open>service/ingestion.py\<close>), queued
  (\<open>service/ingestion_jobs.py\<close>), parsed, split into leaves and a three-level tree
  (\<open>manager/loaders/hierarchy.py\<close>) and published as a verified index
  (\<open>service/document_publication.py\<close>); they are retired through tasks
  (\<open>service/document_tasks.py\<close>). A question becomes a durable run (\<open>service/runs.py\<close>) whose inputs are
  frozen when it is created; a worker claims it under a lease (\<open>manager/run_execution.py\<close>) and every
  call of a model or a tool passes a checkpoint (\<open>manager/run_checkpoint.py\<close>), so that a later worker
  can go on. The answer is made by a supervisor with specialists (\<open>service/agent/supervisor.py\<close>), one of
  which is the bounded knowledge workflow (\<open>service/agent/knowledge.py\<close>); what a model may cite is
  registered as evidence (\<open>manager/evidence.py\<close>), found by the retriever (\<open>manager/retriever.py\<close>) and the
  second ranking (\<open>manager/rerank.py\<close>). Around it stand sharing between members of organizations
  (\<open>service/sharing.py\<close>), the capability centre that says which skills and tools a run may use
  (\<open>service/capabilities.py\<close>), the model centre that says which model plays which role
  (\<open>service/model_center.py\<close>), memories (\<open>service/memories.py\<close>, \<open>service/automatic_memory.py\<close>) and
  accounts (\<open>service/auth.py\<close>). The services meet in the tables of one database: one leaves a row that
  another claims, pins or checks.

  \<^bold>\<open>How the code is modelled.\<close> A class with fields is a \<open>record\<close>, an enumeration or a column whose
  check constraint lists its values a \<open>datatype\<close>, a Python integer an \<open>int\<close> or \<open>nat\<close>, a JSON value the
  datatype \<open>json\<close> with dictionaries as association lists in insertion order, a UUID a natural number. A
  table is the list of its rows; \<open>db\<close> (in \<open>Tables\<close>) is the database. An exception is a value of
  \<open>error\<close>, a service operation a function from a state to \<open>error + result \<times> state\<close>; \<open>transaction\<close> commits
  the new state or keeps the old one, as \<open>transaction_scope\<close> does. An operation that alternates
  transactions and calls of the outside is an \<open>action\<close> (theory \<open>Effects\<close>): it keeps what was committed
  before an exception, and what runs meanwhile is a parameter that may change the database. The clock, fresh
  identifiers and the settings are arguments (records named \<open>..._env\<close> and \<open>clock\<close>).

  \<^bold>\<open>The theories.\<close>
  \<^item> \<open>Prelude\<close>: errors, results, transactions and rows, with the collections \<open>result_simps\<close> and
    \<open>table_simps\<close> and the locale \<open>keyed_store\<close> (what a read returns after a write), interpreted on the row
    operations of every table. \<open>Json\<close>, \<open>Identifiers\<close>, \<open>Urls\<close>: text, numbers, JSON, UUIDs and addresses.
  \<^item> \<open>Capabilities\<close>, \<open>CapabilityService\<close>: the declarations of skills and tools, the catalog with its names
    that never return, frozen scopes and approvals. \<open>PublicQuery\<close>: what may leave for a public search.
  \<^item> \<open>Tables\<close>, \<open>Repository\<close>: the rows and the queries that the services share. \<open>Contracts\<close>: chunks,
    frozen indexes and the frozen context of a run. \<open>Publication\<close>: reservation, verification and freezing.
  \<^item> \<open>Runs\<close> is the store of runs; \<open>RunLifecycle\<close> its abstract machine (\<open>transition\<close>, \<open>run_move\<close>);
    \<open>RunSimulation\<close> proves that each operation is a sequence of its moves, so the invariants of
    \<open>RunProperties\<close> are proved once on the moves. \<open>RunCheckpoint\<close> is the call boundary, \<open>RunResume\<close> what a
    later worker sees, \<open>RunWorker\<close> the order of calls, the answer buffer and the worker's slot (an attempt stopped by
    \<open>RESOURCE_BUSY\<close> goes back to the queue). \<open>SessionDeletion\<close> adds the deletion of a session, which takes its
    runs and their journals along, to the steps of the run store (\<open>life_step\<close>).
  \<^item> \<open>Effects\<close>, \<open>Jobs\<close>, \<open>JobProperties\<close>, \<open>DocumentTasks\<close>, \<open>HierarchyTree\<close>, \<open>Uploads\<close>, \<open>Ingestion\<close>,
    \<open>IngestionService\<close>, \<open>IngestionProperties\<close>: the life of a document, from the upload to its cleanup.
  \<^item> \<open>Sharing\<close>, \<open>SharingProperties\<close>: organizations, libraries, grants and the documents of a question.
  \<^item> \<open>OpenViking\<close>, \<open>AutoMemory\<close>, \<open>AutoMemoryWorker\<close>, \<open>AutoMemoryProperties\<close>, \<open>UserMemories\<close>: memories,
    their consent and their service. \<open>Auth\<close>, \<open>AuthProperties\<close>: accounts, sessions and the limiter.
  \<^item> \<open>Evidence\<close>, \<open>EvidenceProperties\<close>, \<open>EvidenceKinds\<close>, \<open>Knowledge\<close>, \<open>KnowledgeProperties\<close>, \<open>Supervisor\<close>,
    \<open>Delegation\<close>, \<open>SupervisorSteps\<close>, \<open>SupervisorProperties\<close>, \<open>DurableCalls\<close>: the making of one answer. The
    locale \<open>knowledge_provider\<close> is what the workflow needs of its calls; \<open>fresh_supervisor\<close> is a supervisor that
    is given no stored result back, a sublocale of it, interpreted on runs without a checkpoint and on runs whose
    checkpoint raises instead of giving a result back (\<open>screened\<close>), which a run does not notice while it uses no stored
    result (\<open>fresh_execution\<close>). \<open>DurableCalls\<close> builds the checkpoint of a supervisor from
    \<open>RunCheckpoint\<close> and shows that every call through it is an \<open>invoke\<close>.
  \<^item> \<open>Retrieval\<close>, \<open>RetrievalProperties\<close>: searches and rankings. \<open>ModelCatalog\<close>, \<open>ModelCenter\<close>,
    \<open>ModelCenterProperties\<close>, \<open>ModelCalls\<close>: configurations, their history, routers and the record of calls.

  \<^bold>\<open>What is shown.\<close> For each stateful component an invariant over every sequence of its steps (the
  inductive relations \<open>run_step\<close>, \<open>queue_step\<close>, \<open>share_step\<close>, \<open>mem_step\<close>, \<open>auth_step\<close>, \<open>cap_step\<close>,
  \<open>model_reach\<close>, \<open>turn_step\<close>, \<open>life_step\<close>); that fenced workers and stale attempts write nothing; that an attempt
  which keeps its lease settles what it took; that side effects happen once; that access and consent hold at the moment of use and
  end when they are withdrawn; that answers cite only registered, approved and allowed evidence and runs stay
  within their limits; and round trips of frozen scopes, snapshots and configurations.

  \<^bold>\<open>Bounds and termination.\<close> The models compute. Loops over data are structural or have a measure
  (\<open>schema_walk\<close>: at most 4096 nodes; \<open>halve_to_fit\<close>, \<open>replace_all\<close>, \<open>cited_digits\<close>, \<open>runs_of\<close>: the length
  left). The loop of the knowledge workflow is a \<open>partial_function\<close> (\<open>grade_loop\<close>), and
  \<open>knowledge_run_ends\<close> shows that it returns. A model that calls tools is the finite datatype \<open>agent\<close>, the
  tree of what it says for each reply: the agent framework stops every turn after a fixed number of calls.

  \<^bold>\<open>Parameters and hypotheses.\<close> Outside the repository, and therefore arguments: the vector store, the
  embedding, ranking and language models, the tokenizer, hashes and password hashing, the encoding of tokens,
  the memory service's HTTP client, parsers of office files, the Docker engine, search engines, the browser and
  the parser of SQL. Where a theorem needs more of them than a type, the need is a named hypothesis: fresh
  identifiers are fresh, an attempt keeps its lease (\<open>guard_passes\<close>), and for the precise outcome of an attempt no one
  else changes the database during its calls (\<open>quiet\<close>); without the last an attempt still settles its document. Nothing
  is assumed of a checkpoint for the limits of a run and for what an accepted answer looks like: it may give back
  whatever it likes. That the documents an answer cites were approved is shown of executions that use no stored result
  (of a run without a checkpoint, or of a durable run in its first attempt); that an execution which replays stored
  results restores approved evidence is not shown. Row locks are not modelled: a transaction is one step, and the
  steps of different requests interleave.

  \<^bold>\<open>Not modelled.\<close> The web routes and response schemas, wiring, logging, configuration files and process
  glue; the clients of Milvus, Qwen, DeepSeek, Ollama, Tavily and the browser, which translate requests of a
  library; the check of SQL, which reads the syntax tree of a third-party parser; the Docker runner of the
  sandbox and the archives it writes; the parsers of office files and PDFs; offline evaluation; deployment
  reports, migrations, and the TypeScript front end. Events for the interface, prompt texts and the interrupt for a
  human with what resuming after it takes over are left out of the supervisor, all but deletion out of sessions, the older of two views and the statistics of usage out of the model centre, and the merging
  of hits by \<open>HierarchyService.expand\<close> out of the trees.
\<close>

end
